(* ===== verification/Prelude.thy ===== *)
theory Prelude
  imports Main "HOL-Library.List_Lexorder" "HOL-Library.Char_ord" "HOL-Library.Multiset"
begin

text \<open>
  What the component theories share: the result type of code that may throw, its bind and its
  traversals, string comparison and \<open>Array.prototype.sort\<close>, decimal rendering of naturals, and the
  generic invariant rule for the event-driven components.

  Strings are Isabelle strings: one character is one UTF-16 code unit below 256, so
  \<open><\<close> on strings is the code-unit order that JavaScript's \<open><\<close> uses.
\<close>

named_theorems res_simps \<open>unfolding rules for results\<close>

section \<open>Results\<close>

text \<open>\<open>throw new Error(message)\<close> is \<open>Inl (Error message)\<close>; the engine's own exceptions for reading a
  property of \<open>undefined\<close> or \<open>null\<close> are \<open>TypeError\<close>.\<close>

datatype js_error = Error string | TypeError string

type_synonym 'a res = "js_error + 'a"

fun bindR :: "'a res \<Rightarrow> ('a \<Rightarrow> 'b res) \<Rightarrow> 'b res" where
  "bindR (Inl e) f = Inl e"
| "bindR (Inr x) f = f x"

definition failIf :: "bool \<Rightarrow> js_error \<Rightarrow> unit res" where
  "failIf b e = (if b then Inl e else Inr ())"

fun mapR :: "('a \<Rightarrow> 'b res) \<Rightarrow> 'a list \<Rightarrow> 'b list res" where
  "mapR f [] = Inr []"
| "mapR f (x # xs) = bindR (f x) (\<lambda>y. bindR (mapR f xs) (\<lambda>ys. Inr (y # ys)))"

fun mapiR :: "(nat \<Rightarrow> 'a \<Rightarrow> 'b res) \<Rightarrow> nat \<Rightarrow> 'a list \<Rightarrow> 'b list res" where
  "mapiR f i [] = Inr []"
| "mapiR f i (x # xs) = bindR (f i x) (\<lambda>y. bindR (mapiR f (Suc i) xs) (\<lambda>ys. Inr (y # ys)))"

fun foldR :: "('s \<Rightarrow> 'a \<Rightarrow> 's res) \<Rightarrow> 's \<Rightarrow> 'a list \<Rightarrow> 's res" where
  "foldR f s [] = Inr s"
| "foldR f s (x # xs) = bindR (f s x) (\<lambda>s'. foldR f s' xs)"

lemma bindR_Inr_iff [res_simps]: "bindR r f = Inr y \<longleftrightarrow> (\<exists>x. r = Inr x \<and> f x = Inr y)"
  by (cases r) auto

lemma failIf_Inr_iff [simp]: "failIf b e = Inr u \<longleftrightarrow> \<not> b"
  by (simp add: failIf_def)

lemma bindR_assoc: "bindR (bindR r f) g = bindR r (\<lambda>x. bindR (f x) g)"
  by (cases r) auto

lemma bindR_cong [fundef_cong]:
  "r = r' \<Longrightarrow> (\<And>x. r' = Inr x \<Longrightarrow> f x = f' x) \<Longrightarrow> bindR r f = bindR r' f'"
  by (cases r') auto

lemma mapR_cong [fundef_cong]:
  "xs = ys \<Longrightarrow> (\<And>x. x \<in> set ys \<Longrightarrow> f x = g x) \<Longrightarrow> mapR f xs = mapR g ys"
  by (induction ys arbitrary: xs) auto

lemma mapR_Inr_iff: "mapR f xs = Inr ys \<longleftrightarrow> list_all2 (\<lambda>x y. f x = Inr y) xs ys"
  by (induction xs arbitrary: ys) (auto simp: bindR_Inr_iff list_all2_Cons1)

lemma mapR_length: "mapR f xs = Inr ys \<Longrightarrow> length ys = length xs"
  by (metis mapR_Inr_iff list_all2_lengthD)

lemma mapR_all_Inr: "(\<And>x. x \<in> set xs \<Longrightarrow> f x = Inr (g x)) \<Longrightarrow> mapR f xs = Inr (map g xs)"
  by (induction xs) auto

lemma mapR_set:
  assumes "mapR f xs = Inr ys" and "y \<in> set ys"
  shows "\<exists>x \<in> set xs. f x = Inr y"
  using assms by (induction xs arbitrary: ys) (auto simp: bindR_Inr_iff)

lemma mapiR_length: "mapiR f i xs = Inr ys \<Longrightarrow> length ys = length xs"
  by (induction xs arbitrary: i ys) (auto simp: bindR_Inr_iff)

lemma mapiR_nth:
  "mapiR f i xs = Inr ys \<Longrightarrow> k < length xs \<Longrightarrow> f (i + k) (xs ! k) = Inr (ys ! k)"
proof (induction xs arbitrary: i ys k)
  case Nil
  then show ?case by simp
next
  case (Cons x xs)
  then obtain z zs where z: "f i x = Inr z" "mapiR f (Suc i) xs = Inr zs" "ys = z # zs"
    by (auto simp: bindR_Inr_iff)
  then show ?case using Cons.IH[of "Suc i" zs "k - 1"] Cons.prems(2) by (cases k) auto
qed

lemma mapiR_set:
  assumes "mapiR f i xs = Inr ys" and "y \<in> set ys"
  shows "\<exists>k < length xs. f (i + k) (xs ! k) = Inr y"
  using assms by (metis in_set_conv_nth mapiR_length mapiR_nth)

lemma foldR_append: "foldR f s (xs @ ys) = bindR (foldR f s xs) (\<lambda>t. foldR f t ys)"
  by (induction xs arbitrary: s) (auto simp: bindR_assoc)

lemma foldR_invariant:
  assumes "foldR f s xs = Inr t" and "P s"
    and "\<And>s x s'. x \<in> set xs \<Longrightarrow> P s \<Longrightarrow> f s x = Inr s' \<Longrightarrow> P s'"
  shows "P t"
  using assms
proof (induction xs arbitrary: s)
  case (Cons x xs)
  then obtain s' where s': "f s x = Inr s'" "foldR f s' xs = Inr t" by (auto simp: bindR_Inr_iff)
  then have "P s'" using Cons.prems by auto
  then show ?case using Cons.IH[OF s'(2)] Cons.prems(3) by (metis list.set_intros(2))
qed simp

section \<open>Comparison and sorting\<close>

text \<open>\<open>compareStrings\<close> is declared with this body in every module of the compiler.\<close>

definition compareStrings :: "string \<Rightarrow> string \<Rightarrow> int" where
  "compareStrings left right = (if left < right then -1 else if left > right then 1 else 0)"

text \<open>
  \<open>Array.prototype.sort\<close> is stable, and with a comparator that is a total preorder its result is
  determined by stability; a stable insertion sort computes the same list.
\<close>

fun js_insert :: "('a \<Rightarrow> 'a \<Rightarrow> int) \<Rightarrow> 'a \<Rightarrow> 'a list \<Rightarrow> 'a list" where
  "js_insert cmp x [] = [x]"
| "js_insert cmp x (y # ys) = (if cmp x y \<le> 0 then x # y # ys else y # js_insert cmp x ys)"

fun js_sort :: "('a \<Rightarrow> 'a \<Rightarrow> int) \<Rightarrow> 'a list \<Rightarrow> 'a list" where
  "js_sort cmp [] = []"
| "js_sort cmp (x # xs) = js_insert cmp x (js_sort cmp xs)"

lemma mset_js_insert [simp]: "mset (js_insert cmp x xs) = add_mset x (mset xs)"
  by (induction xs) auto

lemma mset_js_sort [simp]: "mset (js_sort cmp xs) = mset xs"
  by (induction xs) auto

lemma set_js_insert [simp]: "set (js_insert cmp x xs) = insert x (set xs)"
  by (induction xs) auto

lemma set_js_sort [simp]: "set (js_sort cmp xs) = set xs"
  by (induction xs) auto

lemma length_js_sort [simp]: "length (js_sort cmp xs) = length xs"
  by (metis mset_js_sort size_mset)

lemma distinct_js_sort [simp]: "distinct (js_sort cmp xs) = distinct xs"
  by (metis mset_js_sort mset_eq_imp_distinct_iff)

lemma js_sort_Nil_iff [simp]: "js_sort cmp xs = [] \<longleftrightarrow> xs = []"
  by (metis length_0_conv length_js_sort)

text \<open>The contract between a sort and its callers: the comparator is a total preorder.\<close>

locale js_order =
  fixes cmp :: "'a \<Rightarrow> 'a \<Rightarrow> int"
  assumes cmp_total: "cmp x y \<le> 0 \<or> cmp y x \<le> 0"
    and cmp_trans: "cmp x y \<le> 0 \<Longrightarrow> cmp y z \<le> 0 \<Longrightarrow> cmp x z \<le> 0"
begin

lemma sorted_insert:
  "sorted_wrt (\<lambda>x y. cmp x y \<le> 0) xs \<Longrightarrow> sorted_wrt (\<lambda>x y. cmp x y \<le> 0) (js_insert cmp x xs)"
proof (induction xs)
  case (Cons y ys)
  then show ?case using cmp_total[of x y] by (auto intro: cmp_trans)
qed simp

lemma sorted_sort: "sorted_wrt (\<lambda>x y. cmp x y \<le> 0) (js_sort cmp xs)"
  by (induction xs) (auto intro: sorted_insert)

lemma sort_sorted_id: "sorted_wrt (\<lambda>x y. cmp x y \<le> 0) xs \<Longrightarrow> js_sort cmp xs = xs"
proof (induction xs)
  case (Cons x xs)
  then show ?case by (cases xs) auto
qed simp

end

text \<open>With an antisymmetric comparator the sorted list depends on the multiset only.\<close>

locale js_linear_order = js_order +
  assumes cmp_antisym: "cmp x y \<le> 0 \<Longrightarrow> cmp y x \<le> 0 \<Longrightarrow> x = y"
begin

lemma sorted_unique:
  assumes "mset xs = mset ys"
    and "sorted_wrt (\<lambda>x y. cmp x y \<le> 0) xs" and "sorted_wrt (\<lambda>x y. cmp x y \<le> 0) ys"
  shows "xs = ys"
  using assms
proof (induction xs arbitrary: ys)
  case (Cons x xs)
  from Cons.prems(1) obtain y zs where ys: "ys = y # zs" by (cases ys) auto
  have "x \<in> set ys" and "y \<in> set (x # xs)" using Cons.prems(1) ys
    by (metis list.set_intros(1) mset_eq_setD)+
  then have "x = y" using Cons.prems(2,3) ys by (auto intro: cmp_antisym)
  then show ?case using Cons.IH[of zs] Cons.prems ys by auto
qed simp

lemma sort_cong_mset: "mset xs = mset ys \<Longrightarrow> js_sort cmp xs = js_sort cmp ys"
  by (rule sorted_unique) (simp_all add: sorted_sort)

end

lemma compareStrings_le [simp]: "compareStrings x y \<le> 0 \<longleftrightarrow> x \<le> y"
  by (auto simp: compareStrings_def not_less)

lemma compareStrings_ge [simp]: "0 \<le> compareStrings x y \<longleftrightarrow> y \<le> x"
  by (auto simp: compareStrings_def not_less)

lemma compareStrings_eq [simp]: "compareStrings x y = 0 \<longleftrightarrow> x = y"
  by (auto simp: compareStrings_def)

interpretation strings: js_linear_order compareStrings
  by unfold_locales auto

abbreviation sort_strings :: "string list \<Rightarrow> string list" where
  "sort_strings \<equiv> js_sort compareStrings"

definition compareBy :: "('a \<Rightarrow> string) \<Rightarrow> 'a \<Rightarrow> 'a \<Rightarrow> int" where
  "compareBy key left right = compareStrings (key left) (key right)"

interpretation by_key: js_order "compareBy key" for key :: "'a \<Rightarrow> string"
  by unfold_locales (auto simp: compareBy_def)

lemma sorted_sort_strings: "sorted (sort_strings xs)"
  using strings.sorted_sort[of xs] by (simp add: sorted_wrt_mono_rel)

lemma sort_strings_sorted: "sorted xs \<Longrightarrow> sort_strings xs = xs"
  using strings.sort_sorted_id[of xs] by simp

lemma js_insert_map: "map f (js_insert (compareBy f) x xs) = js_insert compareStrings (f x) (map f xs)"
  by (induction xs) (auto simp: compareBy_def)

lemma js_sort_map: "map f (js_sort (compareBy f) xs) = sort_strings (map f xs)"
  by (induction xs) (auto simp: js_insert_map)

text \<open>Keeping the first occurrence of each member, in order: \<open>[...new Set(values)]\<close>.\<close>

fun js_set_add :: "'a list \<Rightarrow> 'a \<Rightarrow> 'a list" where
  "js_set_add xs x = (if x \<in> set xs then xs else xs @ [x])"

definition js_set :: "'a list \<Rightarrow> 'a list" where
  "js_set xs = foldl js_set_add [] xs"

lemma set_foldl_js_set_add: "set (foldl js_set_add acc xs) = set acc \<union> set xs"
  by (induction xs arbitrary: acc) auto

lemma distinct_foldl_js_set_add: "distinct acc \<Longrightarrow> distinct (foldl js_set_add acc xs)"
  by (induction xs arbitrary: acc) auto

lemma set_js_set [simp]: "set (js_set xs) = set xs"
  by (simp add: js_set_def set_foldl_js_set_add)

lemma distinct_js_set [simp]: "distinct (js_set xs)"
  by (simp add: js_set_def distinct_foldl_js_set_add)

text \<open>The comparison \<open>new Set(values).size !== values.length\<close> of the duplicate checks.\<close>

lemma length_js_set_iff: "length (js_set xs) = length xs \<longleftrightarrow> distinct xs"
  by (metis distinct_card distinct_js_set set_js_set card_distinct)

section \<open>Decimal rendering\<close>

definition digit_char :: "nat \<Rightarrow> char" where
  "digit_char d = char_of (48 + d)"

fun show_nat :: "nat \<Rightarrow> string" where
  "show_nat n = (if n < 10 then [digit_char n] else show_nat (n div 10) @ [digit_char (n mod 10)])"

declare show_nat.simps [simp del]

definition digit_value :: "char \<Rightarrow> nat" where
  "digit_value c = of_char c - 48"

definition is_digit :: "char \<Rightarrow> bool" where
  "is_digit c \<longleftrightarrow> 48 \<le> (of_char c :: nat) \<and> (of_char c :: nat) \<le> 57"

fun read_nat :: "nat \<Rightarrow> string \<Rightarrow> nat" where
  "read_nat acc [] = acc"
| "read_nat acc (c # cs) = read_nat (10 * acc + digit_value c) cs"

lemma read_nat_append: "read_nat acc (xs @ ys) = read_nat (read_nat acc xs) ys"
  by (induction xs arbitrary: acc) auto

lemma of_char_digit: "d < 10 \<Longrightarrow> (of_char (digit_char d) :: nat) = 48 + d"
  by (simp add: digit_char_def)

lemma read_show_nat: "read_nat 0 (show_nat n) = n"
proof (induction n rule: show_nat.induct)
  case (1 n)
  then show ?case
    by (subst show_nat.simps) (auto simp: read_nat_append digit_value_def of_char_digit)
qed

lemma show_nat_inj [simp]: "show_nat m = show_nat n \<longleftrightarrow> m = n"
  by (metis read_show_nat)

lemma show_nat_digits: "c \<in> set (show_nat n) \<Longrightarrow> is_digit c"
proof (induction n rule: show_nat.induct)
  case (1 n)
  then show ?case
    by (subst (asm) (2) show_nat.simps) (auto simp: is_digit_def of_char_digit split: if_splits)
qed

lemma show_nat_nonempty [simp]: "show_nat n \<noteq> []"
  by (subst show_nat.simps) simp

definition show_int :: "int \<Rightarrow> string" where
  "show_int i = (if i < 0 then ''-'' @ show_nat (nat (- i)) else show_nat (nat i))"

fun join_strings :: "string \<Rightarrow> string list \<Rightarrow> string" where
  "join_strings sep [] = []"
| "join_strings sep [x] = x"
| "join_strings sep (x # y # zs) = x @ sep @ join_strings sep (y # zs)"

section \<open>Event-driven components\<close>

text \<open>
  A component that reacts to events: every event is a sequence of small moves, and an invariant of the
  moves holds after any sequence of events. Each stateful component interprets this locale on its own
  step function and moves.
\<close>

locale event_system =
  fixes step :: "'s \<Rightarrow> 'e \<Rightarrow> 's" and move :: "'s \<Rightarrow> 's \<Rightarrow> bool" and inv :: "'s \<Rightarrow> bool"
  assumes step_moves: "move\<^sup>*\<^sup>* s (step s e)"
    and move_inv: "move s s' \<Longrightarrow> inv s \<Longrightarrow> inv s'"
begin

lemma moves_inv: "move\<^sup>*\<^sup>* s s' \<Longrightarrow> inv s \<Longrightarrow> inv s'"
  by (induction rule: rtranclp_induct) (auto intro: move_inv)

lemma step_inv: "inv s \<Longrightarrow> inv (step s e)"
  by (rule moves_inv[OF step_moves])

lemma run_inv: "inv s \<Longrightarrow> inv (foldl step s es)"
  by (induction es arbitrary: s) (auto intro: step_inv)

lemma events_moves: "move\<^sup>*\<^sup>* s (foldl step s es)"
  by (induction es rule: rev_induct) (auto intro: step_moves rtranclp_trans)

end

end
