(* ===== verification/JsValue.thy ===== *)
theory JsValue
  imports Prelude
begin

text \<open>
  JavaScript values as the compiler's contract checks see them, and the shared checks and canonical
  JSON of \<open>scripts/lib/convex-wasm-artifact-contract.mjs\<close>.

  A number is a safe integer (\<open>NInt\<close>), negative zero, any other finite double carried by its
  \<open>Number.prototype.toString\<close> spelling (\<open>NDec\<close>), NaN or an infinity. An array is dense. A plain
  object (prototype \<open>Object.prototype\<close>) is \<open>JObj\<close> with its own enumerable data properties in own-key
  order; an object with another prototype is \<open>JInst\<close>; a function, a symbol or a bigint is \<open>JOther\<close>.
  Sparse arrays, accessors and proxies are not modelled.
\<close>

section \<open>Values\<close>

datatype jnum = NInt int | NNegZero | NDec string | NNaN | NInf bool

datatype jsval =
    JUndefined
  | JNull
  | JBool bool
  | JNum jnum
  | JStr string
  | JArr "jsval list"
  | JObj "(string \<times> jsval) list"
  | JInst "(string \<times> jsval) list"
  | JOther

lemma size_entry_less [termination_simp]:
  "(k, v) \<in> set kvs \<Longrightarrow> size v < Suc (size_list (size_prod (\<lambda>_. 0) size) kvs)"
  by (induction kvs) auto

definition max_safe_integer :: int where
  "max_safe_integer = 9007199254740991"

fun isFinite :: "jnum \<Rightarrow> bool" where
  "isFinite NNaN = False"
| "isFinite (NInf _) = False"
| "isFinite _ = True"

text \<open>\<open>Number.isSafeInteger\<close>; negative zero is a safe integer.\<close>

fun isSafeInteger :: "jnum \<Rightarrow> bool" where
  "isSafeInteger (NInt i) = (\<bar>i\<bar> \<le> max_safe_integer)"
| "isSafeInteger NNegZero = True"
| "isSafeInteger _ = False"

fun num_int :: "jnum \<Rightarrow> int" where
  "num_int (NInt i) = i"
| "num_int _ = 0"

text \<open>Integer-index keys come first and in numeric order in every own-key enumeration.\<close>

definition is_index_key :: "string \<Rightarrow> bool" where
  "is_index_key s \<longleftrightarrow> s \<noteq> [] \<and> list_all is_digit s \<and> (hd s \<noteq> CHR ''0'' \<or> s = ''0'')
     \<and> read_nat 0 s < 4294967295"

definition compareIndexKeys :: "string \<times> 'a \<Rightarrow> string \<times> 'a \<Rightarrow> int" where
  "compareIndexKeys a b = int (read_nat 0 (fst a)) - int (read_nat 0 (fst b))"

definition own_order :: "(string \<times> 'a) list \<Rightarrow> (string \<times> 'a) list" where
  "own_order kvs = js_sort compareIndexKeys (filter (\<lambda>kv. is_index_key (fst kv)) kvs)
     @ filter (\<lambda>kv. \<not> is_index_key (fst kv)) kvs"

text \<open>\<open>Object.fromEntries\<close> on entries with distinct keys.\<close>

definition fromEntries :: "(string \<times> jsval) list \<Rightarrow> jsval" where
  "fromEntries kvs = JObj (own_order kvs)"

text \<open>Reading \<open>value.key\<close>.\<close>

fun get_prop :: "string \<Rightarrow> jsval \<Rightarrow> jsval res" where
  "get_prop k JUndefined = Inl (TypeError k)"
| "get_prop k JNull = Inl (TypeError k)"
| "get_prop k (JObj kvs) = Inr (case map_of kvs k of None \<Rightarrow> JUndefined | Some v \<Rightarrow> v)"
| "get_prop k (JInst kvs) = Inr (case map_of kvs k of None \<Rightarrow> JUndefined | Some v \<Rightarrow> v)"
| "get_prop k _ = Inr JUndefined"

text \<open>Well-formed values: spellings are those of doubles, own keys are distinct and enumerated in
  own-key order.\<close>

definition num_char :: "char \<Rightarrow> bool" where
  "num_char c \<longleftrightarrow> is_digit c \<or> c \<in> {CHR ''-'', CHR ''+'', CHR ''.'', CHR ''e''}"

definition unsigned_part :: "string \<Rightarrow> string" where
  "unsigned_part s = (if s \<noteq> [] \<and> hd s = CHR ''-'' then tl s else s)"

fun wf_num :: "jnum \<Rightarrow> bool" where
  "wf_num (NInt i) = (\<bar>i\<bar> \<le> max_safe_integer)"
| "wf_num (NDec s) = (s \<noteq> [] \<and> list_all num_char s
     \<and> (list_all is_digit (unsigned_part s) \<longrightarrow> max_safe_integer < int (read_nat 0 (unsigned_part s))))"
| "wf_num _ = True"

fun wf_js :: "jsval \<Rightarrow> bool" where
  "wf_js (JNum n) = wf_num n"
| "wf_js (JArr vs) = list_all wf_js vs"
| "wf_js (JObj kvs) = (distinct (map fst kvs) \<and> own_order kvs = kvs \<and> list_all (\<lambda>(k, v). wf_js v) kvs)"
| "wf_js (JInst kvs) = (distinct (map fst kvs) \<and> own_order kvs = kvs \<and> list_all (\<lambda>(k, v). wf_js v) kvs)"
| "wf_js _ = True"

section \<open>Checks\<close>

definition fail :: "string \<Rightarrow> 'a res" where
  "fail message = Inl (Error (''Convex Wasm artifact pipeline: '' @ message))"

definition failWhen :: "bool \<Rightarrow> string \<Rightarrow> unit res" where
  "failWhen b message = (if b then fail message else Inr ())"

lemma fail_Inr_iff [simp]: "fail m = Inr x \<longleftrightarrow> False"
  by (simp add: fail_def)

lemma failWhen_Inr_iff [simp]: "failWhen b m = Inr u \<longleftrightarrow> \<not> b"
  by (simp add: failWhen_def)

definition assertExactKeys :: "(string \<times> jsval) list \<Rightarrow> string list \<Rightarrow> string \<Rightarrow> unit res" where
  "assertExactKeys kvs allowedKeys description =
     (let unknownKeys = filter (\<lambda>k. k \<notin> set allowedKeys) (map fst kvs)
      in failWhen (unknownKeys \<noteq> [])
           (description @ '' has unknown field(s): '' @ join_strings '', '' (sort_strings unknownKeys)))"

text \<open>The check returns the object's own properties, for the reads that follow it.\<close>

fun assertPlainObject :: "jsval \<Rightarrow> string \<Rightarrow> (string \<times> jsval) list res" where
  "assertPlainObject (JObj kvs) description = Inr kvs"
| "assertPlainObject _ description = fail (description @ '' must be a plain object'')"

definition requireExactPlainObject :: "jsval \<Rightarrow> string list \<Rightarrow> string \<Rightarrow> (string \<times> jsval) list res" where
  "requireExactPlainObject value keys description =
     bindR (assertPlainObject value description) (\<lambda>kvs.
     bindR (assertExactKeys kvs keys description) (\<lambda>_.
     bindR (failWhen (length kvs \<noteq> length keys)
       (description @ '' must contain exactly '' @ join_strings '', '' (sort_strings keys))) (\<lambda>_.
     Inr kvs)))"

definition own_prop :: "(string \<times> jsval) list \<Rightarrow> string \<Rightarrow> jsval" where
  "own_prop kvs k = (case map_of kvs k of None \<Rightarrow> JUndefined | Some v \<Rightarrow> v)"

fun requireString :: "jsval \<Rightarrow> string \<Rightarrow> string res" where
  "requireString (JStr s) description =
     (if s = [] \<or> CHR 0x00 \<in> set s
      then fail (description @ '' must be a non-empty string without NUL bytes'') else Inr s)"
| "requireString _ description = fail (description @ '' must be a non-empty string without NUL bytes'')"

text \<open>\<open>Buffer.byteLength\<close>: UTF-8 takes two bytes for a code unit from 128 to 255.\<close>

definition utf8_length :: "string \<Rightarrow> nat" where
  "utf8_length s = sum_list (map (\<lambda>c. if (of_char c :: nat) < 128 then 1 else 2) s)"

definition control_character :: "char \<Rightarrow> bool" where
  "control_character c \<longleftrightarrow> (let n = (of_char c :: nat) in n < 32 \<or> (127 \<le> n \<and> n < 160))"

definition whitespace_character :: "char \<Rightarrow> bool" where
  "whitespace_character c \<longleftrightarrow> (let n = (of_char c :: nat) in (9 \<le> n \<and> n \<le> 13) \<or> n \<in> {32, 133, 160})"

definition requireManifestString :: "jsval \<Rightarrow> string \<Rightarrow> nat \<Rightarrow> bool \<Rightarrow> string res" where
  "requireManifestString value description maximumBytes allowWhitespace =
     bindR (requireString value description) (\<lambda>s.
     bindR (failWhen (utf8_length s > maximumBytes)
       (description @ '' must contain at most '' @ show_nat maximumBytes @ '' UTF-8 bytes'')) (\<lambda>_.
     bindR (failWhen (list_ex control_character s)
       (description @ '' must not contain control characters'')) (\<lambda>_.
     bindR (failWhen (\<not> allowWhitespace \<and> list_ex whitespace_character s)
       (description @ '' must not contain whitespace'')) (\<lambda>_. Inr s))))"

text \<open>\<open>SHA256_PATTERN\<close>: \<open>/^[0-9a-f]{64}$/u\<close>.\<close>

definition is_lower_hex :: "char \<Rightarrow> bool" where
  "is_lower_hex c \<longleftrightarrow> (let n = (of_char c :: nat) in (48 \<le> n \<and> n \<le> 57) \<or> (97 \<le> n \<and> n \<le> 102))"

definition SHA256_PATTERN :: "string \<Rightarrow> bool" where
  "SHA256_PATTERN s \<longleftrightarrow> length s = 64 \<and> list_all is_lower_hex s"

definition requireSha256 :: "jsval \<Rightarrow> string \<Rightarrow> string res" where
  "requireSha256 value description =
     bindR (requireString value description) (\<lambda>s.
     bindR (failWhen (\<not> SHA256_PATTERN s) (description @ '' must be a lowercase SHA-256 digest'')) (\<lambda>_.
     Inr s))"

fun requireStringArray :: "jsval \<Rightarrow> string \<Rightarrow> string list res" where
  "requireStringArray (JArr vs) description =
     mapiR (\<lambda>index item. requireString item (description @ ''['' @ show_nat index @ '']'')) 0 vs"
| "requireStringArray _ description = fail (description @ '' must be an array'')"

fun requirePositiveInteger :: "jsval \<Rightarrow> string \<Rightarrow> int res" where
  "requirePositiveInteger (JNum n) description =
     (if \<not> isSafeInteger n \<or> num_int n \<le> 0
      then fail (description @ '' must be a positive safe integer'') else Inr (num_int n))"
| "requirePositiveInteger _ description = fail (description @ '' must be a positive safe integer'')"

definition requirePositiveU32 :: "jsval \<Rightarrow> string \<Rightarrow> int res" where
  "requirePositiveU32 value description =
     bindR (requirePositiveInteger value description) (\<lambda>i.
     bindR (failWhen (i > 4294967295) (description @ '' must fit in an unsigned 32-bit integer'')) (\<lambda>_.
     Inr i))"

fun requireBoolean :: "jsval \<Rightarrow> string \<Rightarrow> bool res" where
  "requireBoolean (JBool b) description = Inr b"
| "requireBoolean _ description = fail (description @ '' must be a boolean'')"

definition requireEnum :: "jsval \<Rightarrow> string list \<Rightarrow> string \<Rightarrow> string res" where
  "requireEnum value allowedValues description =
     bindR (requireString value description) (\<lambda>s.
     bindR (failWhen (s \<notin> set allowedValues)
       (description @ '' must be one of: '' @ join_strings '', '' allowedValues)) (\<lambda>_. Inr s))"

section \<open>Canonical JSON\<close>

datatype path_part = PIndex nat | PKey string

fun show_path_part :: "path_part \<Rightarrow> string" where
  "show_path_part (PIndex i) = ''['' @ show_nat i @ '']''"
| "show_path_part (PKey k) = ''.'' @ k"

definition normalizeJsonPath :: "string \<Rightarrow> path_part list \<Rightarrow> string" where
  "normalizeJsonPath description path = foldl (\<lambda>rendered part. rendered @ show_path_part part) description path"

lemma mapiR_cong [fundef_cong]:
  "xs = ys \<Longrightarrow> (\<And>i x. x \<in> set ys \<Longrightarrow> f i x = g i x) \<Longrightarrow> n = n' \<Longrightarrow> mapiR f n xs = mapiR g n' ys"
  by (induction ys arbitrary: xs n n') auto

abbreviation sort_entries :: "(string \<times> jsval) list \<Rightarrow> (string \<times> jsval) list" where
  "sort_entries \<equiv> js_sort (compareBy fst)"

fun normalizeJsonValue :: "jsval \<Rightarrow> string \<Rightarrow> path_part list \<Rightarrow> jsval res" where
  "normalizeJsonValue JNull description path = Inr JNull"
| "normalizeJsonValue (JStr s) description path = Inr (JStr s)"
| "normalizeJsonValue (JBool b) description path = Inr (JBool b)"
| "normalizeJsonValue (JNum n) description path =
     (if \<not> isFinite n then fail (normalizeJsonPath description path @ '' contains a non-finite number'')
      else Inr (JNum n))"
| "normalizeJsonValue (JArr vs) description path =
     bindR (mapiR (\<lambda>index v. normalizeJsonValue v description (path @ [PIndex index])) 0 vs) (\<lambda>ws.
     Inr (JArr ws))"
| "normalizeJsonValue (JObj kvs) description path =
     bindR (mapR (\<lambda>(key, v). bindR (normalizeJsonValue v description (path @ [PKey key])) (\<lambda>nested.
       Inr (key, nested))) (sort_entries kvs)) (\<lambda>entries.
     Inr (fromEntries entries))"
| "normalizeJsonValue JUndefined description path =
     fail (normalizeJsonPath description path @ '' must be a plain object'')"
| "normalizeJsonValue (JInst kvs) description path =
     fail (normalizeJsonPath description path @ '' must be a plain object'')"
| "normalizeJsonValue JOther description path =
     fail (normalizeJsonPath description path @ '' must be a plain object'')"

definition normalizeJson :: "jsval \<Rightarrow> string \<Rightarrow> jsval res" where
  "normalizeJson value description = normalizeJsonValue value description []"

text \<open>The walk over \<open>Object.keys\<close> that demands non-descending code-unit order.\<close>

fun ascending_keys :: "string list \<Rightarrow> bool" where
  "ascending_keys (a # b # ks) = (\<not> b < a \<and> ascending_keys (b # ks))"
| "ascending_keys _ = True"

fun isCanonicalJsonValue :: "jsval \<Rightarrow> bool" where
  "isCanonicalJsonValue JNull = True"
| "isCanonicalJsonValue (JStr s) = True"
| "isCanonicalJsonValue (JBool b) = True"
| "isCanonicalJsonValue (JNum n) = isFinite n"
| "isCanonicalJsonValue (JArr vs) = list_all isCanonicalJsonValue vs"
| "isCanonicalJsonValue (JObj kvs) =
     (''toJSON'' \<notin> set (map fst kvs) \<and> ascending_keys (map fst kvs)
      \<and> list_all (\<lambda>(k, v). isCanonicalJsonValue v) kvs)"
| "isCanonicalJsonValue _ = False"

text \<open>\<open>JSON.stringify\<close> of a value without \<open>toJSON\<close> methods.\<close>

definition hex_char :: "nat \<Rightarrow> char" where
  "hex_char d = char_of (if d < 10 then 48 + d else 87 + d)"

definition escape_char :: "char \<Rightarrow> string" where
  "escape_char c =
     (let n = (of_char c :: nat) in
      if n = 34 then [CHR 0x5C, CHR 0x22]
      else if n = 92 then [CHR 0x5C, CHR 0x5C]
      else if n = 8 then [CHR 0x5C, CHR ''b'']
      else if n = 9 then [CHR 0x5C, CHR ''t'']
      else if n = 10 then [CHR 0x5C, CHR ''n'']
      else if n = 12 then [CHR 0x5C, CHR ''f'']
      else if n = 13 then [CHR 0x5C, CHR ''r'']
      else if n < 32 then [CHR 0x5C, CHR ''u'', CHR ''0'', CHR ''0'', hex_char (n div 16), hex_char (n mod 16)]
      else [c])"

definition quote_string :: "string \<Rightarrow> string" where
  "quote_string s = [CHR 0x22] @ concat (map escape_char s) @ [CHR 0x22]"

fun show_num :: "jnum \<Rightarrow> string" where
  "show_num (NInt i) = show_int i"
| "show_num NNegZero = ''0''"
| "show_num (NDec s) = s"
| "show_num NNaN = ''null''"
| "show_num (NInf b) = ''null''"

fun is_omitted :: "jsval \<Rightarrow> bool" where
  "is_omitted JUndefined = True"
| "is_omitted JOther = True"
| "is_omitted _ = False"

fun stringify :: "jsval \<Rightarrow> string" where
  "stringify JUndefined = ''null''"
| "stringify JOther = ''null''"
| "stringify JNull = ''null''"
| "stringify (JBool b) = (if b then ''true'' else ''false'')"
| "stringify (JNum n) = show_num n"
| "stringify (JStr s) = quote_string s"
| "stringify (JArr vs) = ''['' @ join_strings '','' (map stringify vs) @ '']''"
| "stringify (JObj kvs) = ''{'' @ join_strings '',''
     (map (\<lambda>(k, v). quote_string k @ '':'' @ stringify v) (filter (\<lambda>(k, v). \<not> is_omitted v) kvs)) @ ''}''"
| "stringify (JInst kvs) = ''{'' @ join_strings '',''
     (map (\<lambda>(k, v). quote_string k @ '':'' @ stringify v) (filter (\<lambda>(k, v). \<not> is_omitted v) kvs)) @ ''}''"

definition canonicalJson :: "jsval \<Rightarrow> string res" where
  "canonicalJson value =
     bindR (if isCanonicalJsonValue value then Inr value
            else normalizeJson value ''canonical JSON value'') (\<lambda>canonicalValue.
     Inr (stringify canonicalValue))"

text \<open>\<open>createHash("sha256").update(source).digest("hex")\<close> is the parameter \<open>sha256\<close>.\<close>

definition fingerprintJson :: "(string \<Rightarrow> string) \<Rightarrow> jsval \<Rightarrow> string res" where
  "fingerprintJson sha256 value = bindR (canonicalJson value) (\<lambda>source. Inr (sha256 source))"

end
