(* ===== verification/JsonText.thy ===== *)
theory JsonText
  imports CanonicalJson
begin

text \<open>
  The canonical text determines the data: \<open>JSON.stringify\<close> is injective on canonical trees, because
  every value's text is uniquely readable from the front.
\<close>

section \<open>Canonical trees\<close>

fun canonical_tree :: "jsval \<Rightarrow> bool" where
  "canonical_tree JNull = True"
| "canonical_tree (JBool b) = True"
| "canonical_tree (JNum n) = (wf_num n \<and> isFinite n \<and> n \<noteq> NNegZero)"
| "canonical_tree (JStr s) = True"
| "canonical_tree (JArr vs) = list_all canonical_tree vs"
| "canonical_tree (JObj kvs) = (distinct (map fst kvs) \<and> own_order (sort_entries kvs) = kvs
     \<and> list_all (\<lambda>(k, v). canonical_tree v) kvs)"
| "canonical_tree _ = False"

text \<open>Both zeros have the text \<open>0\<close>.\<close>

fun unsigned_zero :: "jsval \<Rightarrow> jsval" where
  "unsigned_zero (JNum NNegZero) = JNum (NInt 0)"
| "unsigned_zero (JArr vs) = JArr (map unsigned_zero vs)"
| "unsigned_zero (JObj kvs) = JObj (map (\<lambda>(k, v). (k, unsigned_zero v)) kvs)"
| "unsigned_zero v = v"

lemma js_insert_map_value:
  "(\<And>x y. cmp (g x) (g y) = cmp x y) \<Longrightarrow> js_insert cmp (g x) (map g xs) = map g (js_insert cmp x xs)"
  by (induction xs) auto

lemma js_sort_map_value:
  assumes "\<And>x y. cmp (g x) (g y) = cmp x y"
  shows "js_sort cmp (map g xs) = map g (js_sort cmp xs)"
  using assms by (induction xs) (auto simp: js_insert_map_value)

lemma sort_entries_map: "sort_entries (map (\<lambda>(k, v). (k, h v)) kvs) = map (\<lambda>(k, v). (k, h v)) (sort_entries kvs)"
  by (rule js_sort_map_value) (auto simp: compareBy_def)

lemma filter_keys_map:
  "filter (\<lambda>kv. P (fst kv)) (map (\<lambda>(k, v). (k, h v)) kvs) = map (\<lambda>(k, v). (k, h v)) (filter (\<lambda>kv. P (fst kv)) kvs)"
  by (induction kvs) auto

lemma own_order_map: "own_order (map (\<lambda>(k, v). (k, h v)) kvs) = map (\<lambda>(k, v). (k, h v)) (own_order kvs)"
proof -
  have "js_sort compareIndexKeys (map (\<lambda>(k, v). (k, h v)) xs) = map (\<lambda>(k, v). (k, h v)) (js_sort compareIndexKeys xs)"
    for xs
  proof (induction xs)
    case (Cons x xs)
    have "js_insert compareIndexKeys (case x of (k, v) \<Rightarrow> (k, h v)) (map (\<lambda>(k, v). (k, h v)) ys)
        = map (\<lambda>(k, v). (k, h v)) (js_insert compareIndexKeys x ys)" for ys
      by (induction ys) (auto simp: compareIndexKeys_def split: prod.splits)
    then show ?case using Cons.IH by simp
  qed simp
  then show ?thesis
    by (simp add: own_order_def filter_keys_map filter_keys_map[where P = "\<lambda>k. \<not> is_index_key k"])
qed

lemma map_fst_values: "map fst (map (\<lambda>(k, v). (k, h v)) kvs) = map fst kvs"
  by (induction kvs) auto

lemma canonical_unsigned_zero: "normal_tree v \<Longrightarrow> canonical_tree (unsigned_zero v)"
proof (induction v rule: normal_tree.induct)
  case (3 n)
  then show ?case by (cases n) (auto simp: max_safe_integer_def)
next
  case (5 vs)
  then show ?case by (auto simp: list_all_iff)
next
  case (6 kvs)
  then show ?case
    by (simp add: map_fst_values sort_entries_map own_order_map list_all_iff del: map_map) fastforce
qed auto

lemma js_data_unsigned_zero: "js_data (unsigned_zero v) = js_data v"
proof (induction v rule: unsigned_zero.induct)
  case (3 kvs)
  then have "map (\<lambda>(k, v). (k, js_data v)) (map (\<lambda>(k, v). (k, unsigned_zero v)) kvs)
      = map (\<lambda>(k, v). (k, js_data v)) kvs"
    by auto
  then show ?case by (simp only: js_data.simps unsigned_zero.simps)
qed auto

lemma is_omitted_unsigned_zero [simp]: "is_omitted (unsigned_zero v) = is_omitted v"
  by (cases v rule: unsigned_zero.cases) auto

lemma stringify_unsigned_zero: "normal_tree v \<Longrightarrow> stringify (unsigned_zero v) = stringify v"
proof (induction v rule: normal_tree.induct)
  case (3 n)
  then show ?case by (cases n) (auto simp: show_int_def show_nat.simps[of 0] digit_char_def char_of_eq_iff)
next
  case (5 vs)
  then have "map stringify (map unsigned_zero vs) = map stringify vs" by (auto simp: list_all_iff)
  then show ?case by (simp only: stringify.simps unsigned_zero.simps)
next
  case (6 kvs)
  let ?kept = "filter (\<lambda>(k, v). \<not> is_omitted v) kvs"
  have "filter (\<lambda>(k, v). \<not> is_omitted v) (map (\<lambda>(k, v). (k, unsigned_zero v)) kvs)
      = map (\<lambda>(k, v). (k, unsigned_zero v)) ?kept"
    by (induction kvs) auto
  moreover have "map (\<lambda>(k, v). quote_string k @ '':'' @ stringify v) (map (\<lambda>(k, v). (k, unsigned_zero v)) ?kept)
      = map (\<lambda>(k, v). quote_string k @ '':'' @ stringify v) ?kept"
    using 6 by (auto simp: list_all_iff)
  ultimately show ?case by (simp only: stringify.simps unsigned_zero.simps)
qed auto

section \<open>Data determines the canonical tree\<close>

lemma num_data_inj:
  "isFinite m \<Longrightarrow> isFinite n \<Longrightarrow> m \<noteq> NNegZero \<Longrightarrow> n \<noteq> NNegZero \<Longrightarrow> num_data m = num_data n \<Longrightarrow> m = n"
  by (cases m; cases n) auto

lemma map_of_map_data: "map_of (map (\<lambda>(k, v). (k, h v)) kvs) k = map_option h (map_of kvs k)"
  by (induction kvs) auto

lemma canonical_entries_eq:
  assumes "distinct (map fst kvs)" "distinct (map fst kvs')"
    and "own_order (sort_entries kvs) = kvs" "own_order (sort_entries kvs') = kvs'"
    and "map_of kvs = map_of kvs'"
  shows "kvs = kvs'"
proof -
  have "set kvs = set kvs'" using assms by (metis map_of_inject_set)
  then have "mset kvs = mset kvs'" using assms(1,2) by (metis distinct_map set_eq_iff_mset_eq_distinct)
  then show ?thesis using assms(1,3,4) sort_entries_cong by metis
qed

lemma num_data_other [simp]:
  "num_data n \<noteq> DBool b" "num_data n \<noteq> DStr s" "num_data n \<noteq> DArr ds" "num_data n \<noteq> DObj m"
  "DBool b \<noteq> num_data n" "DStr s \<noteq> num_data n" "DArr ds \<noteq> num_data n" "DObj m \<noteq> num_data n"
  "num_data n = DNull \<longleftrightarrow> \<not> isFinite n" "DNull = num_data n \<longleftrightarrow> \<not> isFinite n"
  by (cases n; simp)+

lemma js_data_inj:
  "canonical_tree v \<Longrightarrow> canonical_tree w \<Longrightarrow> js_data v = js_data w \<Longrightarrow> v = w"
proof (induction v arbitrary: w rule: canonical_tree.induct)
  case 1
  then show ?case by (cases w) auto
next
  case (2 b)
  then show ?case by (cases w) auto
next
  case (3 n)
  then show ?case by (cases w) (auto intro: num_data_inj)
next
  case (4 s)
  then show ?case by (cases w) auto
next
  case (5 vs)
  obtain ws where w: "w = JArr ws" using "5.prems"(3) by (cases w) auto
  then have data: "map js_data vs = map js_data ws" using "5.prems"(3) by simp
  have "vs = ws"
  proof (rule nth_equalityI)
    show len: "length vs = length ws" using data by (metis length_map)
    fix i assume i: "i < length vs"
    then have "js_data (vs ! i) = js_data (ws ! i)" using data len by (metis nth_map)
    moreover have "canonical_tree (vs ! i)" "canonical_tree (ws ! i)"
      using "5.prems"(1,2) w i len by (auto simp: list_all_length)
    ultimately show "vs ! i = ws ! i" using "5.IH"[OF nth_mem[OF i], of "ws ! i"] by blast
  qed
  then show ?case by (simp add: w)
next
  case (6 kvs)
  obtain ws where w: "w = JObj ws" using "6.prems"(3) by (cases w) auto
  from "6.prems"(3) have data: "map_option js_data (map_of kvs k) = map_option js_data (map_of ws k)" for k
    by (simp add: w fun_eq_iff map_of_map_data)
  have "map_of kvs k = map_of ws k" for k
  proof (cases "map_of kvs k")
    case None
    then show ?thesis using data[of k] by (metis map_option_is_None)
  next
    case (Some v)
    then obtain v' where v': "map_of ws k = Some v'" "js_data v = js_data v'"
      using data[of k] by (metis map_option_eq_Some option.simps(9))
    from Some have kv: "(k, v) \<in> set kvs" by (rule map_of_SomeD)
    from v'(1) have kv': "(k, v') \<in> set ws" by (rule map_of_SomeD)
    have "canonical_tree v" using "6.prems"(1) kv unfolding canonical_tree.simps list_all_iff by blast
    moreover have "canonical_tree v'"
      using "6.prems"(2) kv' unfolding w canonical_tree.simps list_all_iff by blast
    ultimately have "v = v'" using "6.IH"[OF kv refl, of v'] v'(2) by blast
    then show ?thesis using Some v'(1) by simp
  qed
  then have "map_of kvs = map_of ws" by (rule ext)
  moreover have "distinct (map fst kvs) \<and> own_order (sort_entries kvs) = kvs"
    "distinct (map fst ws) \<and> own_order (sort_entries ws) = ws"
    using "6.prems"(1,2) unfolding w canonical_tree.simps by blast+
  ultimately have "kvs = ws" using canonical_entries_eq by blast
  then show ?case by (simp add: w)
qed (auto)

section \<open>Reading the text from the front\<close>

text \<open>What may follow a value inside a larger text.\<close>

definition value_end :: "string \<Rightarrow> bool" where
  "value_end r \<longleftrightarrow> r = [] \<or> hd r \<in> {CHR '','', CHR '']'', CHR ''}''}"

lemma digit_neq:
  "is_digit c \<Longrightarrow> c \<notin> {CHR '','', CHR '']'', CHR ''}'', CHR ''-'', CHR 0x22, CHR ''['', CHR ''{'', CHR ''n'', CHR ''t'', CHR ''f''}"
  by (auto simp: is_digit_def)

lemma num_char_end: "value_end (c # r) \<Longrightarrow> \<not> num_char c"
  by (auto simp: value_end_def num_char_def is_digit_def)

lemma span_unique:
  assumes "xs @ r = ys @ r'" and "list_all P xs" and "list_all P ys"
    and "\<And>c s. r = c # s \<Longrightarrow> \<not> P c" and "\<And>c s. r' = c # s \<Longrightarrow> \<not> P c"
  shows "xs = ys \<and> r = r'"
proof -
  have "takeWhile P (xs @ r) = xs" using assms(2,4) by (cases r) (auto simp: takeWhile_append2 list_all_iff)
  moreover have "takeWhile P (ys @ r') = ys" using assms(3,5) by (cases r') (auto simp: takeWhile_append2 list_all_iff)
  ultimately have "xs = ys" using assms(1) by metis
  then show ?thesis using assms(1) by simp
qed

lemma show_int_chars: "list_all num_char (show_int i)"
  by (auto simp: show_int_def list_all_iff num_char_def dest: show_nat_digits)

lemma show_num_chars: "wf_num n \<Longrightarrow> isFinite n \<Longrightarrow> list_all num_char (show_num n)"
  by (cases n) (auto simp: show_int_chars num_char_def is_digit_def)

lemma hd_show_nat_digit: "is_digit (hd (show_nat n))"
  by (rule show_nat_digits[of _ n]) simp

lemma unsigned_show_int: "unsigned_part (show_int i) = show_nat (nat \<bar>i\<bar>)"
  using hd_show_nat_digit[of "nat i"] digit_neq by (auto simp: unsigned_part_def show_int_def)

lemma show_int_inj: "show_int i = show_int j \<Longrightarrow> i = j"
proof -
  assume eq: "show_int i = show_int j"
  then have abs: "\<bar>i\<bar> = \<bar>j\<bar>" using unsigned_show_int[of i] unsigned_show_int[of j] by simp
  have "hd (show_int k) = CHR ''-'' \<longleftrightarrow> k < 0" for k
    using hd_show_nat_digit[of "nat k"] digit_neq by (auto simp: show_int_def)
  with eq have "i < 0 \<longleftrightarrow> j < 0" by metis
  with abs show ?thesis by auto
qed

lemma safe_int_not_spelling: "\<bar>i\<bar> \<le> max_safe_integer \<Longrightarrow> wf_num (NDec s) \<Longrightarrow> show_int i \<noteq> s"
proof
  assume i: "\<bar>i\<bar> \<le> max_safe_integer" and wf: "wf_num (NDec s)" and eq: "show_int i = s"
  have "unsigned_part s = show_nat (nat \<bar>i\<bar>)" using unsigned_show_int eq by blast
  moreover have "list_all is_digit (show_nat (nat \<bar>i\<bar>))" by (auto simp: list_all_iff dest: show_nat_digits)
  ultimately have "max_safe_integer < \<bar>i\<bar>" using wf by (simp add: read_show_nat)
  with i show False by simp
qed

lemma show_num_inj:
  assumes "canonical_tree (JNum m)" "canonical_tree (JNum n)" "show_num m = show_num n"
  shows "m = n"
  using assms by (cases m; cases n) (auto dest: show_int_inj safe_int_not_spelling simp del: wf_num.simps(2))

text \<open>A decoder of one escaped character, which exists only to read the text back.\<close>

definition hex_value :: "char \<Rightarrow> nat" where
  "hex_value c = (if (of_char c :: nat) < 58 then of_char c - 48 else of_char c - 87)"

fun read_escaped :: "string \<Rightarrow> (char \<times> string) option" where
  "read_escaped (c # r) =
     (if c \<noteq> CHR 0x5C then Some (c, r)
      else case r of
        e # r' \<Rightarrow>
          if e = CHR ''b'' then Some (char_of (8::nat), r')
          else if e = CHR ''t'' then Some (char_of (9::nat), r')
          else if e = CHR ''n'' then Some (char_of (10::nat), r')
          else if e = CHR ''f'' then Some (char_of (12::nat), r')
          else if e = CHR ''r'' then Some (char_of (13::nat), r')
          else if e = CHR ''u'' then Some (char_of (16 * hex_value (r' ! 2) + hex_value (r' ! 3)), drop 4 r')
          else Some (e, r')
      | [] \<Rightarrow> None)"
| "read_escaped [] = None"

lemma hex_value_hex_char: "d < 16 \<Longrightarrow> hex_value (hex_char d) = d"
  by (auto simp: hex_value_def hex_char_def)

lemma read_escape_char: "read_escaped (escape_char c @ x) = Some (c, x)"
proof -
  define n where "n = (of_char c :: nat)"
  have c: "c = char_of n" by (simp add: n_def)
  have u: "char_of (16 * hex_value (hex_char (n div 16)) + hex_value (hex_char (n mod 16))) = c" if "n < 32"
    using that by (simp add: hex_value_hex_char c)
  show ?thesis
  proof (cases "n = 34 \<or> n = 92")
    case True
    then have "c = CHR 0x22 \<or> c = CHR 0x5C" by (auto simp: c char_of_eq_iff)
    then show ?thesis by (auto simp: escape_char_def)
  next
    case False
    then have "c \<noteq> CHR 0x5C" by (auto simp: n_def)
    then show ?thesis using False u
      by (simp add: escape_char_def n_def[symmetric] Let_def) (auto simp: c)
  qed
qed

lemma escape_char_head: "escape_char c = d # ds \<Longrightarrow> d \<noteq> CHR 0x22"
  by (auto simp: escape_char_def Let_def split: if_splits)

lemma escape_char_Cons: "\<exists>d ds. escape_char c = d # ds"
  by (auto simp: escape_char_def Let_def)

lemma escaped_unique:
  "concat (map escape_char s) @ CHR 0x22 # r = concat (map escape_char t) @ CHR 0x22 # r' \<Longrightarrow> s = t \<and> r = r'"
proof (induction s arbitrary: t)
  case Nil
  show ?case
  proof (cases t)
    case Nil
    then show ?thesis using Nil.prems by simp
  next
    case (Cons d t')
    obtain e es where e: "escape_char d = e # es" using escape_char_Cons by blast
    then have "e = CHR 0x22" using Nil.prems Cons by simp
    then show ?thesis using e escape_char_head by blast
  qed
next
  case (Cons c s)
  show ?case
  proof (cases t)
    case Nil
    obtain e es where e: "escape_char c = e # es" using escape_char_Cons by blast
    then have "e = CHR 0x22" using Cons.prems Nil by simp
    then show ?thesis using e escape_char_head by blast
  next
    case (Cons d t')
    have "escape_char c @ (concat (map escape_char s) @ CHR 0x22 # r)
        = escape_char d @ (concat (map escape_char t') @ CHR 0x22 # r')"
      using Cons.prems Cons by simp
    then have "c = d \<and> concat (map escape_char s) @ CHR 0x22 # r = concat (map escape_char t') @ CHR 0x22 # r'"
      by (metis read_escape_char option.inject prod.inject)
    then show ?thesis using Cons.IH[of t'] Cons by simp
  qed
qed

lemma quote_unique: "quote_string s @ r = quote_string t @ r' \<Longrightarrow> s = t \<and> r = r'"
  using escaped_unique[of s r t r'] by (simp add: quote_string_def)


lemma join_Cons_text:
  "join_strings sep (x # xs) = x @ (if xs = [] then [] else sep @ join_strings sep xs)"
  by (cases xs) auto

lemma join_unique:
  assumes "\<And>x y r r'. x \<in> set xs \<Longrightarrow> y \<in> set ys \<Longrightarrow> f x @ r = f y @ r' \<Longrightarrow> value_end r \<Longrightarrow>
      value_end r' \<Longrightarrow> x = y \<and> r = r'"
    and "\<And>x. x \<in> set xs \<union> set ys \<Longrightarrow> f x \<noteq> [] \<and> hd (f x) \<noteq> e"
    and e: "e = CHR '']'' \<or> e = CHR ''}''"
    and "join_strings '','' (map f xs) @ e # r = join_strings '','' (map f ys) @ e # r'"
  shows "xs = ys \<and> r = r'"
  using assms(1,2,4)
proof (induction xs arbitrary: ys)
  case Nil
  then show ?case by (cases ys) (auto simp: join_Cons_text, metis append_is_Nil_conv hd_append2 list.sel(1))
next
  case (Cons x xs)
  let ?rest = "\<lambda>zs r. if zs = [] then e # r else CHR '','' # (join_strings '','' (map f zs) @ e # r)"
  have pieces: "join_strings '','' (map f (z # zs)) @ e # r = f z @ ?rest zs r" for z zs r
    by (simp add: join_Cons_text del: join_strings.simps)
  show ?case
  proof (cases ys)
    case Nil
    then have "f x @ ?rest xs r = e # r'" using Cons.prems(3) pieces[of x xs r] by simp
    then have "hd (f x @ ?rest xs r) = e" by (metis list.sel(1))
    then show ?thesis using Cons.prems(2)[of x] by (simp add: hd_append)
  next
    case (Cons y ys')
    have "f x @ ?rest xs r = f y @ ?rest ys' r'" using Cons.prems(3) Cons pieces by metis
    moreover have "value_end (?rest zs t)" for zs t using e by (auto simp: value_end_def)
    ultimately have xy: "x = y" and rest: "?rest xs r = ?rest ys' r'"
      using Cons.prems(1)[of x y "?rest xs r" "?rest ys' r'"] Cons by auto
    have "xs = ys' \<and> r = r'"
    proof (cases "xs = [] \<or> ys' = []")
      case True
      then show ?thesis using rest e by (auto split: if_splits)
    next
      case False
      then have "join_strings '','' (map f xs) @ e # r = join_strings '','' (map f ys') @ e # r'"
        using rest by simp
      then show ?thesis using Cons.IH[of ys'] Cons.prems(1,2) Cons by auto
    qed
    then show ?thesis using xy Cons by simp
  qed
qed

definition entry_text :: "string \<times> jsval \<Rightarrow> string" where
  "entry_text kv = quote_string (fst kv) @ '':'' @ stringify (snd kv)"

lemma canonical_not_omitted: "canonical_tree v \<Longrightarrow> \<not> is_omitted v"
  by (cases v) auto

lemma stringify_object:
  "canonical_tree (JObj kvs) \<Longrightarrow> stringify (JObj kvs) = ''{'' @ join_strings '','' (map entry_text kvs) @ ''}''"
  by (auto simp: entry_text_def[abs_def] case_prod_unfold list_all_iff canonical_not_omitted filter_id_conv)

text \<open>The first character tells the shape of the value.\<close>

fun shape_char :: "jsval \<Rightarrow> char \<Rightarrow> bool" where
  "shape_char (JBool b) c = (c = (if b then CHR ''t'' else CHR ''f''))"
| "shape_char (JNum n) c = num_char c"
| "shape_char (JStr s) c = (c = CHR 0x22)"
| "shape_char (JArr vs) c = (c = CHR ''['')"
| "shape_char (JObj kvs) c = (c = CHR ''{'')"
| "shape_char _ c = (c = CHR ''n'')"

lemma show_num_nonempty: "canonical_tree (JNum n) \<Longrightarrow> show_num n \<noteq> []"
  by (cases n) (auto simp: show_int_def)

lemma stringify_head: "canonical_tree v \<Longrightarrow> stringify v \<noteq> [] \<and> shape_char v (hd (stringify v))"
proof (cases v)
  case (JNum n)
  assume "canonical_tree v"
  then have "show_num n \<noteq> []" and "list_all num_char (show_num n)"
    using JNum show_num_nonempty show_num_chars by auto
  then show ?thesis using JNum by (cases "show_num n") auto
qed (auto simp: quote_string_def)

lemma shape_char_num: "num_char c \<Longrightarrow> c \<notin> {CHR ''n'', CHR ''t'', CHR ''f'', CHR 0x22, CHR ''['', CHR ''{'', CHR '']'', CHR ''}''}"
  by (auto simp: num_char_def is_digit_def)

lemma same_shape:
  assumes "canonical_tree v" "canonical_tree w" "stringify v @ r = stringify w @ r'"
  shows "\<exists>c. shape_char v c \<and> shape_char w c"
  using assms stringify_head[of v] stringify_head[of w] by (metis hd_append2)

lemma stringify_unique:
  "canonical_tree v \<Longrightarrow> canonical_tree w \<Longrightarrow> stringify v @ r = stringify w @ r' \<Longrightarrow> value_end r \<Longrightarrow>
   value_end r' \<Longrightarrow> v = w \<and> r = r'"
proof (induction v arbitrary: w r r' rule: canonical_tree.induct)
  case 1
  from same_shape[OF 1(1-3)] have "w = JNull" using 1(2)
    by (cases w) (auto dest: shape_char_num split: if_splits)
  then show ?case using 1 by simp
next
  case (2 b)
  from same_shape[OF 2(1-3)] have "w = JBool b"
    using 2(2) by (cases w) (auto dest: shape_char_num split: if_splits)
  then show ?case using 2 by simp
next
  case (3 n)
  from same_shape[OF 3(1-3)] obtain m where w: "w = JNum m"
    using 3(2) by (cases w) (auto dest: shape_char_num split: if_splits)
  have "show_num n = show_num m \<and> r = r'"
    by (rule span_unique[where P = num_char])
      (use 3 w num_char_end in \<open>auto simp: show_num_chars\<close>)
  then show ?case using show_num_inj[OF 3(1)] 3(2) w by blast
next
  case (4 s)
  from same_shape[OF 4(1-3)] obtain t where w: "w = JStr t"
    using 4(2) by (cases w) (auto dest: shape_char_num split: if_splits)
  then show ?case using quote_unique[of s r t r'] 4(3) by simp
next
  case (5 vs)
  from same_shape[OF 5(2-4)] obtain ws where w: "w = JArr ws"
    using "5.prems"(2) by (cases w) (auto dest: shape_char_num split: if_splits)
  have "vs = ws \<and> r = r'"
  proof (rule join_unique[where f = stringify and e = "CHR '']''"])
    show "x = y \<and> t = t'" if "x \<in> set vs" "y \<in> set ws" "stringify x @ t = stringify y @ t'" "value_end t" "value_end t'"
      for x y t t'
      using "5.IH"[OF that(1), of y t t'] that "5.prems"(1,2) w by (simp add: list_all_iff)
    show "stringify x \<noteq> [] \<and> hd (stringify x) \<noteq> CHR '']''" if "x \<in> set vs \<union> set ws" for x
    proof -
      have "canonical_tree x" using that "5.prems"(1,2) w by (auto simp: list_all_iff)
      then show ?thesis using stringify_head[of x] shape_char_num by (cases x) (auto split: if_splits)
    qed
    show "join_strings '','' (map stringify vs) @ CHR '']'' # r = join_strings '','' (map stringify ws) @ CHR '']'' # r'"
      using "5.prems"(3) w by simp
  qed simp
  then show ?case using w by simp
next
  case (6 kvs)
  from same_shape[OF 6(2-4)] obtain ws where w: "w = JObj ws"
    using "6.prems"(2) by (cases w) (auto dest: shape_char_num split: if_splits)
  have "kvs = ws \<and> r = r'"
  proof (rule join_unique[where f = entry_text and e = "CHR ''}''"])
    show "x = y \<and> t = t'" if xy: "x \<in> set kvs" "y \<in> set ws" and eq: "entry_text x @ t = entry_text y @ t'"
      and ends: "value_end t" "value_end t'" for x y t t'
    proof -
      from eq have "fst x = fst y" and v: "stringify (snd x) @ t = stringify (snd y) @ t'"
        using quote_unique[of "fst x" _ "fst y"] by (auto simp: entry_text_def)
      moreover have "canonical_tree (snd x)" "canonical_tree (snd y)"
        using xy "6.prems"(1,2) w by (auto simp: list_all_iff)
      ultimately show ?thesis using "6.IH"[OF xy(1) prod.collapse, of "snd y" t t'] ends
        by (simp add: prod_eq_iff)
    qed
    show "entry_text x \<noteq> [] \<and> hd (entry_text x) \<noteq> CHR ''}''" if "x \<in> set kvs \<union> set ws" for x
      by (simp add: entry_text_def quote_string_def)
    show "join_strings '','' (map entry_text kvs) @ CHR ''}'' # r = join_strings '','' (map entry_text ws) @ CHR ''}'' # r'"
      using "6.prems" w by (simp only: stringify_object) simp
  qed simp
  then show ?case using w by simp
qed auto

lemma stringify_inj: "canonical_tree v \<Longrightarrow> canonical_tree w \<Longrightarrow> stringify v = stringify w \<Longrightarrow> v = w"
  using stringify_unique[of v w "[]" "[]"] by (simp add: value_end_def)

section \<open>Canonical text and fingerprints decide data equality\<close>

lemma canonicalJson_stringify:
  assumes "wf_js v" and "canonicalJson v = Inr s"
  shows "\<exists>c. canonical_tree c \<and> s = stringify c \<and> js_data c = js_data v"
proof -
  obtain n where n: "normalizeJsonValue v ''canonical JSON value'' [] = Inr n" and s: "s = stringify n"
    using assms by (auto simp: canonicalJson_normal normalizeJson_def bindR_Inr_iff)
  have t: "normal_tree n" using normalize_normal_tree[OF n assms(1)] .
  have "js_data (unsigned_zero n) = js_data v"
    using normalize_js_data[OF n assms(1)] by (simp add: js_data_unsigned_zero)
  then show ?thesis using canonical_unsigned_zero[OF t] stringify_unsigned_zero[OF t] s by metis
qed

lemma canonical_text_decides:
  assumes "wf_js v" and "wf_js w" and "canonicalJson v = Inr s" and "canonicalJson w = Inr t"
  shows "s = t \<longleftrightarrow> js_data v = js_data w"
proof -
  obtain c d where "canonical_tree c" "s = stringify c" "js_data c = js_data v"
    and "canonical_tree d" "t = stringify d" "js_data d = js_data w"
    using canonicalJson_stringify assms by blast
  then show ?thesis using stringify_inj js_data_inj by metis
qed

text \<open>C6: The canonical JSON text of two values is the same exactly when the values carry the same JSON
  data: property order and the sign of zero are the only things that the text forgets.\<close>

theorem canonicalJson_decides_data:
  assumes "wf_js v" and "wf_js w" and "canonicalJson v = Inr s" and "canonicalJson w = Inr t"
  shows "s = t \<longleftrightarrow> js_data v = js_data w"
  using canonical_text_decides[OF assms] .

lemma small_index_key: "\<not> is_index_key ''a''" "\<not> is_index_key ''b''" "is_index_key ''7''"
  by (simp_all add: is_index_key_def is_digit_def digit_value_def)

theorem canonicalJson_decides_data_witness:
  "\<exists>s t. canonicalJson (JObj [(''b'', JNum NNegZero), (''a'', JArr [JNull])]) = Inr s
     \<and> canonicalJson (JObj [(''a'', JArr [JNull]), (''b'', JNum (NInt 0))]) = Inr t \<and> s = t"
proof -
  let ?v = "JObj [(''b'', JNum NNegZero), (''a'', JArr [JNull])]"
  let ?w = "JObj [(''a'', JArr [JNull]), (''b'', JNum (NInt 0))]"
  have wf: "wf_js ?v" "wf_js ?w" by (simp_all add: own_order_def small_index_key max_safe_integer_def)
  obtain s t where st: "canonicalJson ?v = Inr s" "canonicalJson ?w = Inr t"
    by (simp add: canonicalJson_def normalizeJson_def compareBy_def compareStrings_def)
  have "js_data ?v = js_data ?w" by (simp add: fun_eq_iff)
  then show ?thesis using canonicalJson_decides_data[OF wf st] st by blast
qed

text \<open>The fast path of \<open>canonicalJson\<close> is exactly normalization: a value that
  \<open>isCanonicalJsonValue\<close> accepts is the value that \<open>normalizeJson\<close> returns.\<close>

lemma isCanonicalJsonValue_is_normal:
  assumes "wf_js v" and "isCanonicalJsonValue v"
  shows "normalizeJson v description = Inr v"
  using assms canonical_value_normal by (simp add: normalizeJson_def)

text \<open>Normalization is idempotent and keeps the data: its result is well formed, normalizes to itself
  under any description, and carries the same JSON data as the input.\<close>

lemma normalizeJson_idempotent:
  assumes "wf_js v" and "normalizeJson v description = Inr w"
  shows "wf_js w \<and> normalizeJson w description' = Inr w \<and> js_data w = js_data v"
  using assms normalize_normal_tree normal_tree_wf normal_tree_fixpoint normalize_js_data
  unfolding normalizeJson_def by blast

text \<open>A fingerprint decides data equality wherever the digest does not collide: for two values
  that both have a fingerprint, and a digest injective on their two canonical texts, equal
  fingerprints mean equal data and unequal fingerprints unequal data.\<close>

lemma fingerprintJson_decides_data:
  assumes "wf_js v" and "wf_js w"
    and "fingerprintJson sha256 v = Inr f" and "fingerprintJson sha256 w = Inr g"
    and "\<And>s t. canonicalJson v = Inr s \<Longrightarrow> canonicalJson w = Inr t \<Longrightarrow> sha256 s = sha256 t \<Longrightarrow> s = t"
  shows "f = g \<longleftrightarrow> js_data v = js_data w"
proof -
  obtain s t where st: "canonicalJson v = Inr s" "canonicalJson w = Inr t"
    and fg: "f = sha256 s" "g = sha256 t"
    using assms(3,4) by (auto simp: fingerprintJson_def bindR_Inr_iff)
  then show ?thesis using canonical_text_decides[OF assms(1,2) st] assms(5)[OF st] by metis
qed

section \<open>Canonical text in closed form\<close>

fun jsonable :: "jsval \<Rightarrow> bool" where
  "jsonable JNull = True"
| "jsonable (JStr s) = True"
| "jsonable (JBool b) = True"
| "jsonable (JNum n) = isFinite n"
| "jsonable (JArr vs) = list_all jsonable vs"
| "jsonable (JObj kvs) = list_all (\<lambda>(k, v). jsonable v) kvs"
| "jsonable _ = False"

fun normal_form :: "jsval \<Rightarrow> jsval" where
  "normal_form (JArr vs) = JArr (map normal_form vs)"
| "normal_form (JObj kvs) = fromEntries (sort_entries (map (\<lambda>(k, v). (k, normal_form v)) kvs))"
| "normal_form v = v"

lemma mapiR_closed:
  "(\<And>i x w. x \<in> set xs \<Longrightarrow> f i x = Inr w \<longleftrightarrow> P x \<and> w = g x) \<Longrightarrow> mapiR f n xs = Inr ws \<longleftrightarrow> list_all P xs \<and> ws = map g xs"
proof (induction xs arbitrary: n ws)
  case (Cons x xs)
  have "f n x = Inr w \<longleftrightarrow> P x \<and> w = g x" for w using Cons.prems by simp
  moreover have "mapiR f (Suc n) xs = Inr us \<longleftrightarrow> list_all P xs \<and> us = map g xs" for us by (rule Cons.IH) (simp add: Cons.prems)
  ultimately show ?case by (auto simp: bindR_Inr_iff)
qed auto

lemma mapR_closed:
  "(\<And>x w. x \<in> set xs \<Longrightarrow> f x = Inr w \<longleftrightarrow> P x \<and> w = g x) \<Longrightarrow> mapR f xs = Inr ws \<longleftrightarrow> list_all P xs \<and> ws = map g xs"
proof (induction xs arbitrary: ws)
  case (Cons x xs)
  have "f x = Inr w \<longleftrightarrow> P x \<and> w = g x" for w using Cons.prems by simp
  moreover have "mapR f xs = Inr us \<longleftrightarrow> list_all P xs \<and> us = map g xs" for us by (rule Cons.IH) (simp add: Cons.prems)
  ultimately show ?case by (auto simp: bindR_Inr_iff)
qed auto

lemma normalize_closed: "normalizeJsonValue v d p = Inr w \<longleftrightarrow> jsonable v \<and> w = normal_form v"
proof (induction v d p arbitrary: w rule: normalizeJsonValue.induct)
  case (5 vs d p)
  have "mapiR (\<lambda>index v. normalizeJsonValue v d (p @ [PIndex index])) 0 vs = Inr ws \<longleftrightarrow> list_all jsonable vs \<and> ws = map normal_form vs" for ws
    by (rule mapiR_closed) (use 5 in blast)
  then show ?case by (auto simp: bindR_Inr_iff)
next
  case (6 kvs d p)
  have "mapR (\<lambda>(key, v). bindR (normalizeJsonValue v d (p @ [PKey key])) (\<lambda>nested. Inr (key, nested))) (sort_entries kvs) = Inr es
      \<longleftrightarrow> list_all (\<lambda>(k, v). jsonable v) (sort_entries kvs) \<and> es = map (\<lambda>(k, v). (k, normal_form v)) (sort_entries kvs)" for es
    by (rule mapR_closed) (use 6 in \<open>auto simp: bindR_Inr_iff\<close>)
  then show ?case by (auto simp: bindR_Inr_iff sort_entries_map list_all_iff)
qed auto

lemma canonicalJson_closed: "wf_js v \<Longrightarrow> canonicalJson v = Inr s \<longleftrightarrow> jsonable v \<and> s = stringify (normal_form v)"
  by (auto simp: canonicalJson_normal normalizeJson_def bindR_Inr_iff normalize_closed)

lemma jsonable_not_omitted: "jsonable v \<Longrightarrow> \<not> is_omitted (normal_form v)"
  by (cases v) (auto simp: fromEntries_def)

end
