(* ===== verification/FingerprintCache.thy ===== *)
theory FingerprintCache
  imports JsValue
begin

text \<open>
  The bounded, least-recently-used memo that \<open>fingerprintJson\<close> keeps by canonical source
  (\<open>convex-wasm-artifact-contract.mjs\<close>): a JavaScript \<open>Map\<close> in insertion order together with the
  UTF-8 bytes its keys hold. The two memos by object identity in front of it are not modelled.
\<close>

section \<open>State and operations\<close>

definition FINGERPRINT_SOURCE_CACHE_MAX_BYTES :: nat where
  "FINGERPRINT_SOURCE_CACHE_MAX_BYTES = 8 * 1024 * 1024"

definition FINGERPRINT_SOURCE_CACHE_MAX_ENTRIES :: nat where
  "FINGERPRINT_SOURCE_CACHE_MAX_ENTRIES = 2048"

record source_cache =
  fingerprintJsonByCanonicalSource :: "(string \<times> string) list"
  fingerprintJsonCanonicalSourceBytes :: int

definition empty_source_cache :: source_cache where
  "empty_source_cache = \<lparr>fingerprintJsonByCanonicalSource = [], fingerprintJsonCanonicalSourceBytes = 0\<rparr>"

text \<open>The eviction loop drops the oldest entry while the map is full or the new source does not fit.\<close>

fun evict_sources :: "int \<Rightarrow> (string \<times> string) list \<Rightarrow> int \<Rightarrow> (string \<times> string) list \<times> int" where
  "evict_sources sourceBytes [] bytes = ([], bytes)"
| "evict_sources sourceBytes (oldest # rest) bytes =
     (if FINGERPRINT_SOURCE_CACHE_MAX_ENTRIES \<le> length (oldest # rest)
         \<or> bytes + sourceBytes > int FINGERPRINT_SOURCE_CACHE_MAX_BYTES
      then evict_sources sourceBytes rest (bytes - int (utf8_length (fst oldest)))
      else (oldest # rest, bytes))"

definition map_delete :: "string \<Rightarrow> (string \<times> string) list \<Rightarrow> (string \<times> string) list" where
  "map_delete key kvs = filter (\<lambda>kv. fst kv \<noteq> key) kvs"

text \<open>The fingerprint of a source and the memo afterwards. The cheap check counts code units, the
  second one UTF-8 bytes.\<close>

definition fingerprint_source ::
  "(string \<Rightarrow> string) \<Rightarrow> source_cache \<Rightarrow> string \<Rightarrow> string \<times> source_cache" where
  "fingerprint_source sha256 c source =
     (if length source > FINGERPRINT_SOURCE_CACHE_MAX_BYTES then (sha256 source, c)
      else case map_of (fingerprintJsonByCanonicalSource c) source of
        Some fingerprint \<Rightarrow>
          (fingerprint, c\<lparr>fingerprintJsonByCanonicalSource :=
             map_delete source (fingerprintJsonByCanonicalSource c) @ [(source, fingerprint)]\<rparr>)
      | None \<Rightarrow>
          (let sourceBytes = utf8_length source;
               fingerprint = sha256 source
           in if sourceBytes \<le> FINGERPRINT_SOURCE_CACHE_MAX_BYTES
              then let (kept, bytes) = evict_sources (int sourceBytes)
                         (fingerprintJsonByCanonicalSource c) (fingerprintJsonCanonicalSourceBytes c)
                   in (fingerprint, c\<lparr>fingerprintJsonByCanonicalSource := kept @ [(source, fingerprint)],
                         fingerprintJsonCanonicalSourceBytes := bytes + int sourceBytes\<rparr>)
              else (fingerprint, c)))"

section \<open>The memo contract\<close>

fun run_calls :: "('s \<Rightarrow> 'k \<Rightarrow> 'v \<times> 's) \<Rightarrow> 's \<Rightarrow> 'k list \<Rightarrow> 'v list \<times> 's" where
  "run_calls call s [] = ([], s)"
| "run_calls call s (k # ks) =
     (let (v, s') = call s k; (vs, s'') = run_calls call s' ks in (v # vs, s''))"

text \<open>What a caller may rely on: every call returns the computed value and keeps the memo sound.\<close>

locale memo_service =
  fixes call :: "'s \<Rightarrow> 'k \<Rightarrow> 'v \<times> 's" and inv :: "'s \<Rightarrow> bool" and compute :: "'k \<Rightarrow> 'v"
  assumes call_inv: "inv s \<Longrightarrow> inv (snd (call s k))"
    and call_value: "inv s \<Longrightarrow> fst (call s k) = compute k"
begin

lemma run_calls_correct: "inv s \<Longrightarrow> fst (run_calls call s ks) = map compute ks \<and> inv (snd (run_calls call s ks))"
  by (induction ks arbitrary: s)
    (simp, metis (no_types, lifting) call_inv call_value case_prod_unfold fst_conv list.simps(9) run_calls.simps(2) snd_conv)

end

section \<open>The memo keeps the contract\<close>

definition source_bytes :: "(string \<times> string) list \<Rightarrow> int" where
  "source_bytes kvs = sum_list (map (\<lambda>kv. int (utf8_length (fst kv))) kvs)"

definition cache_inv :: "(string \<Rightarrow> string) \<Rightarrow> source_cache \<Rightarrow> bool" where
  "cache_inv sha256 c \<longleftrightarrow>
     (let kvs = fingerprintJsonByCanonicalSource c in
      distinct (map fst kvs) \<and> (\<forall>(source, f) \<in> set kvs. f = sha256 source)
      \<and> fingerprintJsonCanonicalSourceBytes c = source_bytes kvs
      \<and> length kvs \<le> FINGERPRINT_SOURCE_CACHE_MAX_ENTRIES
      \<and> source_bytes kvs \<le> int FINGERPRINT_SOURCE_CACHE_MAX_BYTES)"

lemma source_bytes_simps [simp]:
  "source_bytes [] = 0"
  "source_bytes (kv # kvs) = int (utf8_length (fst kv)) + source_bytes kvs"
  "source_bytes (kvs @ kvs') = source_bytes kvs + source_bytes kvs'"
  by (simp_all add: source_bytes_def)

lemma source_bytes_nonneg: "0 \<le> source_bytes kvs"
  by (induction kvs) auto

lemma source_bytes_delete:
  "distinct (map fst kvs) \<Longrightarrow> (key, f) \<in> set kvs \<Longrightarrow>
   source_bytes (map_delete key kvs) + int (utf8_length key) = source_bytes kvs"
proof (induction kvs)
  case (Cons kv kvs)
  show ?case
  proof (cases "fst kv = key")
    case True
    then have "map_delete key kvs = kvs" using Cons.prems(1)
      unfolding map_delete_def filter_id_conv by auto (metis fst_conv image_eqI)
    then show ?thesis using True by (simp add: map_delete_def)
  next
    case False
    then show ?thesis using Cons by (force simp: map_delete_def)
  qed
qed simp

lemma length_delete: "(key, f) \<in> set kvs \<Longrightarrow> length (map_delete key kvs) < length kvs"
  unfolding map_delete_def by (rule length_filter_less [of "(key, f)"]) auto

lemma evict_sources_suffix:
  "evict_sources n kvs b = (kept, b') \<Longrightarrow> \<exists>dropped. kvs = dropped @ kept \<and> b' = b - source_bytes dropped"
proof (induction kvs arbitrary: b)
  case (Cons kv kvs)
  show ?case
  proof (cases "evict_sources n (kv # kvs) b = (kv # kvs, b)")
    case True
    then show ?thesis using Cons.prems by (intro exI[of _ "[]"]) simp
  next
    case False
    then have "evict_sources n kvs (b - int (utf8_length (fst kv))) = (kept, b')"
      using Cons.prems by (simp split: if_splits)
    from Cons.IH[OF this] obtain dropped where "kvs = dropped @ kept"
      "b' = b - int (utf8_length (fst kv)) - source_bytes dropped" by blast
    then show ?thesis by (intro exI[of _ "kv # dropped"]) simp
  qed
qed simp

lemma evict_sources_room:
  assumes "evict_sources n kvs (source_bytes kvs) = (kept, b')"
    and "0 \<le> n" and "n \<le> int FINGERPRINT_SOURCE_CACHE_MAX_BYTES"
  shows "length kept < FINGERPRINT_SOURCE_CACHE_MAX_ENTRIES
     \<and> source_bytes kept + n \<le> int FINGERPRINT_SOURCE_CACHE_MAX_BYTES"
  using assms(1)
proof (induction kvs)
  case Nil
  then show ?case using assms(2,3) by (simp add: FINGERPRINT_SOURCE_CACHE_MAX_ENTRIES_def)
next
  case (Cons kv kvs)
  then show ?case by (auto split: if_splits)
qed

lemma fingerprint_source_value: "cache_inv sha256 c \<Longrightarrow> fst (fingerprint_source sha256 c source) = sha256 source"
  by (auto simp: fingerprint_source_def cache_inv_def Let_def split: option.splits prod.splits dest!: map_of_SomeD)

lemma cache_inv_hit:
  assumes "cache_inv sha256 c" and "map_of (fingerprintJsonByCanonicalSource c) source = Some f"
  shows "cache_inv sha256 (c\<lparr>fingerprintJsonByCanonicalSource :=
     map_delete source (fingerprintJsonByCanonicalSource c) @ [(source, f)]\<rparr>)"
proof -
  from assms(2) have m: "(source, f) \<in> set (fingerprintJsonByCanonicalSource c)" by (rule map_of_SomeD)
  show ?thesis
    using assms(1) m source_bytes_delete[OF _ m] length_delete[OF m]
    by (auto simp: cache_inv_def Let_def map_delete_def distinct_map_filter)
qed

lemma cache_inv_insert:
  assumes "cache_inv sha256 c" and "map_of (fingerprintJsonByCanonicalSource c) source = None"
    and "utf8_length source \<le> FINGERPRINT_SOURCE_CACHE_MAX_BYTES"
    and "evict_sources (int (utf8_length source)) (fingerprintJsonByCanonicalSource c)
      (fingerprintJsonCanonicalSourceBytes c) = (kept, bytes)"
  shows "cache_inv sha256 (c\<lparr>fingerprintJsonByCanonicalSource := kept @ [(source, sha256 source)],
     fingerprintJsonCanonicalSourceBytes := bytes + int (utf8_length source)\<rparr>)"
proof -
  let ?kvs = "fingerprintJsonByCanonicalSource c"
  have b: "fingerprintJsonCanonicalSourceBytes c = source_bytes ?kvs"
    using assms(1) by (simp add: cache_inv_def Let_def)
  obtain dropped where d: "?kvs = dropped @ kept" "bytes = source_bytes ?kvs - source_bytes dropped"
    using evict_sources_suffix[OF assms(4)] b by auto
  have "length kept < FINGERPRINT_SOURCE_CACHE_MAX_ENTRIES
      \<and> source_bytes kept + int (utf8_length source) \<le> int FINGERPRINT_SOURCE_CACHE_MAX_BYTES"
    using evict_sources_room[of "int (utf8_length source)" ?kvs kept bytes] assms(3,4) b by simp
  moreover have "source \<notin> fst ` set ?kvs" using assms(2) by (simp add: map_of_eq_None_iff)
  ultimately show ?thesis using assms(1) d by (auto simp: cache_inv_def Let_def)
qed

lemma fingerprint_source_inv: "cache_inv sha256 c \<Longrightarrow> cache_inv sha256 (snd (fingerprint_source sha256 c source))"
  using cache_inv_hit cache_inv_insert
  by (auto simp: fingerprint_source_def Let_def split: option.splits prod.splits)

interpretation source_memo: memo_service "fingerprint_source sha256" "cache_inv sha256" sha256
  for sha256
  by unfold_locales (simp_all add: fingerprint_source_inv fingerprint_source_value)

lemma cache_inv_empty: "cache_inv sha256 empty_source_cache"
  by (simp add: cache_inv_def empty_source_cache_def)

text \<open>The bounded fingerprint memo is transparent: whatever sources are fingerprinted in whatever
  order, every answer is the digest of its own source, hits, refreshes and evictions included.\<close>

lemma fingerprint_memo_transparent:
  "fst (run_calls (fingerprint_source sha256) empty_source_cache sources) = map sha256 sources"
  using source_memo.run_calls_correct[OF cache_inv_empty] by blast

text \<open>The memo never holds more than 2048 sources nor more than 8 MiB of source text, and its byte
  counter is exactly the UTF-8 size of what it holds.\<close>

lemma fingerprint_memo_bounded:
  "let c = snd (run_calls (fingerprint_source sha256) empty_source_cache sources)
   in length (fingerprintJsonByCanonicalSource c) \<le> 2048
      \<and> source_bytes (fingerprintJsonByCanonicalSource c) \<le> 8388608
      \<and> fingerprintJsonCanonicalSourceBytes c = source_bytes (fingerprintJsonByCanonicalSource c)"
  using source_memo.run_calls_correct[OF cache_inv_empty, of sha256 sources]
  by (simp add: cache_inv_def Let_def FINGERPRINT_SOURCE_CACHE_MAX_ENTRIES_def FINGERPRINT_SOURCE_CACHE_MAX_BYTES_def)

end
