(* ===== verification/ShardUnits.thy ===== *)
theory ShardUnits
  imports JsValue
begin

text \<open>
  The input side of \<open>scripts/lib/convex-wasm-physical-shard-planner.mjs\<close>: its checks, its own
  canonical JSON, the logical units and the policy.
\<close>

section \<open>Checks\<close>

definition planner_fail :: "string \<Rightarrow> 'a res" where
  "planner_fail message = Inl (Error (''Convex Wasm physical shard planner: '' @ message))"

definition planner_failWhen :: "bool \<Rightarrow> string \<Rightarrow> unit res" where
  "planner_failWhen b message = (if b then planner_fail message else Inr ())"

lemma planner_fail_Inr_iff [simp]: "planner_fail m = Inr x \<longleftrightarrow> False"
  by (simp add: planner_fail_def)

lemma bindR_planner_fail [simp]: "bindR (planner_fail m) f = planner_fail m"
  by (simp add: planner_fail_def)

lemma planner_failWhen_Inr_iff [simp]: "planner_failWhen b m = Inr u \<longleftrightarrow> \<not> b"
  by (simp add: planner_failWhen_def)

fun planner_requirePlainObject :: "jsval \<Rightarrow> string \<Rightarrow> (string \<times> jsval) list res" where
  "planner_requirePlainObject (JObj kvs) description = Inr kvs"
| "planner_requirePlainObject _ description = planner_fail (description @ '' must be a plain object'')"

definition planner_requireExactKeys :: "jsval \<Rightarrow> string list \<Rightarrow> string \<Rightarrow> (string \<times> jsval) list res" where
  "planner_requireExactKeys value keys description =
     bindR (planner_requirePlainObject value description) (\<lambda>kvs.
     bindR (planner_failWhen (sort_strings (map fst kvs) \<noteq> sort_strings keys)
       (description @ '' has unexpected fields'')) (\<lambda>_.
     Inr kvs))"

fun planner_requireSha256 :: "jsval \<Rightarrow> string \<Rightarrow> string res" where
  "planner_requireSha256 (JStr s) description =
     (if \<not> SHA256_PATTERN s then planner_fail (description @ '' must be a lowercase SHA-256 digest'') else Inr s)"
| "planner_requireSha256 _ description = planner_fail (description @ '' must be a lowercase SHA-256 digest'')"

fun planner_requireBoolean :: "jsval \<Rightarrow> string \<Rightarrow> bool res" where
  "planner_requireBoolean (JBool b) description = Inr b"
| "planner_requireBoolean _ description = planner_fail (description @ '' must be a boolean'')"

fun requirePositiveSafeInteger :: "jsval \<Rightarrow> string \<Rightarrow> int res" where
  "requirePositiveSafeInteger (JNum n) description =
     (if \<not> isSafeInteger n \<or> num_int n \<le> 0
      then planner_fail (description @ '' must be a positive safe integer'') else Inr (num_int n))"
| "requirePositiveSafeInteger _ description = planner_fail (description @ '' must be a positive safe integer'')"

text \<open>Negative zero passes this check and is returned as it is.\<close>

fun requireNonNegativeSafeInteger :: "jsval \<Rightarrow> string \<Rightarrow> jnum res" where
  "requireNonNegativeSafeInteger (JNum n) description =
     (if \<not> isSafeInteger n \<or> num_int n < 0
      then planner_fail (description @ '' must be a non-negative safe integer'') else Inr n)"
| "requireNonNegativeSafeInteger _ description =
     planner_fail (description @ '' must be a non-negative safe integer'')"

fun strictly_ascending :: "string list \<Rightarrow> bool" where
  "strictly_ascending (a # b # rest) = (compareStrings a b < 0 \<and> strictly_ascending (b # rest))"
| "strictly_ascending _ = True"

definition requireCanonicalSha256Set :: "jsval \<Rightarrow> string \<Rightarrow> bool \<Rightarrow> string list res" where
  "requireCanonicalSha256Set value description allowEmpty =
     (case value of
        JArr vs \<Rightarrow>
          (if \<not> allowEmpty \<and> vs = [] then planner_fail (description @ '' must be a non-empty array'')
           else bindR (mapiR (\<lambda>index member. planner_requireSha256 member (description @ '' '' @ show_nat index)) 0 vs)
             (\<lambda>normalized.
             bindR (planner_failWhen (\<not> strictly_ascending normalized)
               (description @ '' must be sorted without duplicates'')) (\<lambda>_. Inr normalized)))
      | _ \<Rightarrow> planner_fail (description @ '' must be '' @ (if allowEmpty then ''an array'' else ''a non-empty array'')))"

lemma strictly_ascending_iff: "strictly_ascending xs \<longleftrightarrow> sorted_wrt (<) xs"
proof (induction xs rule: strictly_ascending.induct)
  case (1 a b rest)
  have "compareStrings a b < 0 \<longleftrightarrow> a < b" by (auto simp: compareStrings_def)
  with 1 show ?case by (auto intro: less_trans)
qed auto

section \<open>Canonical JSON and fingerprints\<close>

fun canonicalValue :: "jsval \<Rightarrow> jsval res" where
  "canonicalValue JNull = Inr JNull"
| "canonicalValue (JStr s) = Inr (JStr s)"
| "canonicalValue (JBool b) = Inr (JBool b)"
| "canonicalValue (JNum n) =
     (if \<not> isFinite n \<or> n = NNegZero then planner_fail ''canonical JSON contains an invalid number''
      else Inr (JNum n))"
| "canonicalValue (JArr vs) = bindR (mapR canonicalValue vs) (\<lambda>ws. Inr (JArr ws))"
| "canonicalValue (JObj kvs) =
     bindR (mapR (\<lambda>(key, v). bindR (canonicalValue v) (\<lambda>w. Inr (key, w))) (sort_entries kvs)) (\<lambda>entries.
     Inr (fromEntries entries))"
| "canonicalValue _ = planner_fail ''canonical JSON contains a non-plain object''"

definition canonicalConvexWasmPhysicalShardJson :: "jsval \<Rightarrow> string res" where
  "canonicalConvexWasmPhysicalShardJson value = bindR (canonicalValue value) (\<lambda>v. Inr (stringify v))"

definition fingerprintConvexWasmPhysicalShardJson :: "(string \<Rightarrow> string) \<Rightarrow> jsval \<Rightarrow> string res" where
  "fingerprintConvexWasmPhysicalShardJson sha256 value =
     bindR (canonicalConvexWasmPhysicalShardJson value) (\<lambda>source. Inr (sha256 source))"

definition addSafeIntegers :: "int \<Rightarrow> int \<Rightarrow> string \<Rightarrow> int res" where
  "addSafeIntegers left right description =
     (if right > max_safe_integer - left then planner_fail (description @ '' exceeds the safe integer range'')
      else Inr (left + right))"

section \<open>Logical units\<close>

definition convexWasmPhysicalShardLogicalUnitKind :: string where
  "convexWasmPhysicalShardLogicalUnitKind = ''convex-wasm-physical-shard-logical-unit-v2''"

record logical_unit =
  codeIdentitySha256 :: string
  bindingIdentitySha256 :: string
  dependencies :: "string list"
  occurrences :: "string list"
  picByteWeight :: jnum
  picSha256 :: string
  shareable :: bool

record authenticated_unit = logical_unit +
  logicalUnitSha256 :: string

abbreviation sha_array :: "string list \<Rightarrow> jsval" where
  "sha_array ss \<equiv> JArr (map JStr ss)"

text \<open>The object that \<open>normalizeLogicalUnitMaterial\<close> returns, as it enters the identity.\<close>

definition pic_object_json :: "('a) logical_unit_scheme \<Rightarrow> jsval" where
  "pic_object_json u = JObj [(''byteWeight'', JNum (picByteWeight u)), (''sha256'', JStr (picSha256 u))]"

definition logical_unit_json :: "('a) logical_unit_scheme \<Rightarrow> jsval" where
  "logical_unit_json u = JObj
     [(''bindingIdentitySha256'', JStr (bindingIdentitySha256 u)),
      (''codeIdentitySha256'', JStr (codeIdentitySha256 u)),
      (''dependencies'', sha_array (dependencies u)),
      (''kind'', JStr convexWasmPhysicalShardLogicalUnitKind),
      (''occurrences'', sha_array (occurrences u)),
      (''picObject'', pic_object_json u),
      (''shareable'', JBool (shareable u))]"

definition normalizeLogicalUnitMaterial :: "jsval \<Rightarrow> string \<Rightarrow> logical_unit res" where
  "normalizeLogicalUnitMaterial rawUnit description =
     bindR (planner_requireExactKeys rawUnit
       [''codeIdentitySha256'', ''bindingIdentitySha256'', ''dependencies'', ''kind'', ''occurrences'',
        ''picObject'', ''shareable''] description) (\<lambda>unit.
     bindR (planner_failWhen (own_prop unit ''kind'' \<noteq> JStr convexWasmPhysicalShardLogicalUnitKind)
       (description @ '' kind is unsupported'')) (\<lambda>_.
     bindR (planner_requireExactKeys (own_prop unit ''picObject'') [''byteWeight'', ''sha256'']
       (description @ '' PIC object'')) (\<lambda>picObject.
     bindR (planner_requireSha256 (own_prop unit ''bindingIdentitySha256'')
       (description @ '' binding identity'')) (\<lambda>binding.
     bindR (planner_requireSha256 (own_prop unit ''codeIdentitySha256'')
       (description @ '' code identity'')) (\<lambda>code.
     bindR (requireCanonicalSha256Set (own_prop unit ''dependencies'')
       (description @ '' dependencies'') True) (\<lambda>deps.
     bindR (requireCanonicalSha256Set (own_prop unit ''occurrences'')
       (description @ '' occurrences'') False) (\<lambda>occs.
     bindR (requireNonNegativeSafeInteger (own_prop picObject ''byteWeight'')
       (description @ '' PIC object byte weight'')) (\<lambda>weight.
     bindR (planner_requireSha256 (own_prop picObject ''sha256'')
       (description @ '' PIC object SHA-256'')) (\<lambda>picSha.
     bindR (planner_requireBoolean (own_prop unit ''shareable'') (description @ '' shareable'')) (\<lambda>share.
     Inr \<lparr>codeIdentitySha256 = code, bindingIdentitySha256 = binding, dependencies = deps,
          occurrences = occs, picByteWeight = weight, picSha256 = picSha, shareable = share\<rparr>))))))))))"

definition logicalUnitIdentityPayload :: "('a) logical_unit_scheme \<Rightarrow> jsval" where
  "logicalUnitIdentityPayload u = JObj
     [(''domain'', JStr ''convex-wasm-physical-shard-logical-unit-identity-v2''),
      (''logicalUnit'', logical_unit_json u)]"

definition authenticateConvexWasmPhysicalShardLogicalUnit ::
  "(string \<Rightarrow> string) \<Rightarrow> jsval \<Rightarrow> authenticated_unit res" where
  "authenticateConvexWasmPhysicalShardLogicalUnit sha256 rawUnit =
     bindR (normalizeLogicalUnitMaterial rawUnit ''logical unit'') (\<lambda>unit.
     bindR (fingerprintConvexWasmPhysicalShardJson sha256 (logicalUnitIdentityPayload unit)) (\<lambda>identity.
     Inr (logical_unit.extend unit (authenticated_unit.fields identity))))"

definition normalizeAuthenticatedLogicalUnit ::
  "(string \<Rightarrow> string) \<Rightarrow> jsval \<Rightarrow> nat \<Rightarrow> authenticated_unit res" where
  "normalizeAuthenticatedLogicalUnit sha256 rawUnit index =
     (let description = ''logical unit '' @ show_nat index in
      bindR (planner_requireExactKeys rawUnit
        [''codeIdentitySha256'', ''bindingIdentitySha256'', ''dependencies'', ''kind'', ''logicalUnitSha256'',
         ''occurrences'', ''picObject'', ''shareable''] description) (\<lambda>unit.
      bindR (normalizeLogicalUnitMaterial (JObj (filter (\<lambda>kv. fst kv \<noteq> ''logicalUnitSha256'') unit))
        description) (\<lambda>normalized.
      bindR (planner_requireSha256 (own_prop unit ''logicalUnitSha256'')
        (description @ '' authenticated identity'')) (\<lambda>authenticatedIdentity.
      bindR (fingerprintConvexWasmPhysicalShardJson sha256 (logicalUnitIdentityPayload normalized)) (\<lambda>expectedIdentity.
      bindR (planner_failWhen (authenticatedIdentity \<noteq> expectedIdentity)
        (description @ '' authenticated identity is invalid'')) (\<lambda>_.
      Inr (logical_unit.extend normalized (authenticated_unit.fields authenticatedIdentity))))))))"

section \<open>Policy\<close>

definition convexWasmPhysicalShardPolicyKind :: string where
  "convexWasmPhysicalShardPolicyKind = ''convex-wasm-physical-shard-policy-v2''"

definition convexWasmPhysicalShardDefaultMinimumCohortCount :: int where
  "convexWasmPhysicalShardDefaultMinimumCohortCount = 2"

record shard_policy =
  minimumCohortCount :: int
  targetShardWeight :: int
  policySha256 :: string

definition normalizePolicy :: "(string \<Rightarrow> string) \<Rightarrow> jsval \<Rightarrow> shard_policy res" where
  "normalizePolicy sha256 rawPolicy =
     bindR (planner_requirePlainObject rawPolicy ''physical shard policy'') (\<lambda>policy.
     (let fields = sort_strings (map fst policy);
          allowedWithoutMinimum = [''kind'', ''targetShardWeight''];
          allowedWithMinimum = sort_strings [''kind'', ''minimumCohortCount'', ''targetShardWeight''];
          allowed = (if canonicalConvexWasmPhysicalShardJson (sha_array fields)
                         = canonicalConvexWasmPhysicalShardJson (sha_array allowedWithoutMinimum)
                     then allowedWithoutMinimum else allowedWithMinimum)
      in bindR (planner_failWhen (fields \<noteq> allowed) ''physical shard policy has unexpected fields'') (\<lambda>_.
         bindR (planner_failWhen (own_prop policy ''kind'' \<noteq> JStr convexWasmPhysicalShardPolicyKind)
           ''physical shard policy kind is unsupported'') (\<lambda>_.
         bindR (if own_prop policy ''minimumCohortCount'' = JUndefined
                then Inr convexWasmPhysicalShardDefaultMinimumCohortCount
                else requirePositiveSafeInteger (own_prop policy ''minimumCohortCount'')
                  ''physical shard policy minimum cohort count'') (\<lambda>minimum.
         bindR (requirePositiveSafeInteger (own_prop policy ''targetShardWeight'')
           ''physical shard policy target shard weight'') (\<lambda>target.
         bindR (fingerprintConvexWasmPhysicalShardJson sha256 (JObj
           [(''domain'', JStr ''convex-wasm-physical-shard-policy-identity-v2''),
            (''policy'', JObj
               [(''kind'', JStr convexWasmPhysicalShardPolicyKind),
                (''minimumCohortCount'', JNum (NInt minimum)),
                (''targetShardWeight'', JNum (NInt target))])])) (\<lambda>identity.
         Inr \<lparr>minimumCohortCount = minimum, targetShardWeight = target, policySha256 = identity\<rparr>)))))))"

end
