(* ===== verification/ShardScc.thy ===== *)
theory ShardScc
  imports Prelude
begin

text \<open>
  \<open>stronglyConnectedComponents\<close> of \<open>convex-wasm-physical-shard-planner.mjs\<close>: Tarjan's algorithm with
  its explicit indexes, low links and stack. \<open>succs c\<close> stands for
  \<open>unitsByCodeIdentity.get(c).dependencies\<close>. The recursion of \<open>visit\<close> carries fuel; one more than the
  number of code identities is enough (proved in \<open>ShardSccCorrect\<close>).
\<close>

record scc_state =
  nextIndex :: nat
  indexes :: "string \<Rightarrow> nat option"
  lowLinks :: "string \<Rightarrow> nat"
  sccStack :: "string list"
  onStack :: "string set"
  foundComponents :: "string list list"

definition empty_scc_state :: scc_state where
  "empty_scc_state = \<lparr>nextIndex = 0, indexes = (\<lambda>_. None), lowLinks = (\<lambda>_. 0), sccStack = [],
     onStack = {}, foundComponents = []\<rparr>"

text \<open>\<open>indexes.get(c)\<close>, read only for visited identities.\<close>

definition index_of :: "scc_state \<Rightarrow> string \<Rightarrow> nat" where
  "index_of st c = (case indexes st c of None \<Rightarrow> 0 | Some i \<Rightarrow> i)"

text \<open>The bookkeeping at the start of \<open>visit\<close>; the stack grows at its head.\<close>

definition scc_enter :: "string \<Rightarrow> scc_state \<Rightarrow> scc_state" where
  "scc_enter c st = st\<lparr>indexes := (indexes st)(c := Some (nextIndex st)),
     lowLinks := (lowLinks st)(c := nextIndex st),
     nextIndex := nextIndex st + 1,
     sccStack := c # sccStack st,
     onStack := insert c (onStack st)\<rparr>"

text \<open>The \<open>while (true)\<close> loop that pops down to \<open>c\<close>, together with the rest of the stack.\<close>

fun pop_component :: "string \<Rightarrow> string list \<Rightarrow> string list \<times> string list" where
  "pop_component c [] = ([], [])"
| "pop_component c (member # rest) =
     (if member = c then ([member], rest)
      else let (members, rest') = pop_component c rest in (member # members, rest'))"

definition scc_leave :: "string \<Rightarrow> scc_state \<Rightarrow> scc_state" where
  "scc_leave c st =
     (if lowLinks st c \<noteq> index_of st c then st
      else let (members, rest) = pop_component c (sccStack st)
           in st\<lparr>sccStack := rest, onStack := onStack st - set members,
                 foundComponents := foundComponents st @ [sort_strings members]\<rparr>)"

definition lower_link :: "string \<Rightarrow> nat \<Rightarrow> scc_state \<Rightarrow> scc_state" where
  "lower_link c low st = st\<lparr>lowLinks := (lowLinks st)(c := min (lowLinks st c) low)\<rparr>"

fun visit :: "(string \<Rightarrow> string list) \<Rightarrow> nat \<Rightarrow> string \<Rightarrow> scc_state \<Rightarrow> scc_state option"
  and visit_dependencies ::
    "(string \<Rightarrow> string list) \<Rightarrow> nat \<Rightarrow> string \<Rightarrow> string list \<Rightarrow> scc_state \<Rightarrow> scc_state option" where
  "visit succs 0 c st = None"
| "visit succs (Suc fuel) c st =
     map_option (scc_leave c) (visit_dependencies succs fuel c (succs c) (scc_enter c st))"
| "visit_dependencies succs fuel c [] st = Some st"
| "visit_dependencies succs fuel c (d # ds) st =
     (if indexes st d = None then
        (case visit succs fuel d st of
           None \<Rightarrow> None
         | Some st' \<Rightarrow> visit_dependencies succs fuel c ds (lower_link c (lowLinks st' d) st'))
      else if d \<in> onStack st then visit_dependencies succs fuel c ds (lower_link c (index_of st d) st)
      else visit_dependencies succs fuel c ds st)"

fun visit_roots :: "(string \<Rightarrow> string list) \<Rightarrow> nat \<Rightarrow> string list \<Rightarrow> scc_state \<Rightarrow> scc_state option" where
  "visit_roots succs fuel [] st = Some st"
| "visit_roots succs fuel (c # cs) st =
     (if indexes st c = None then
        (case visit succs fuel c st of None \<Rightarrow> None | Some st' \<Rightarrow> visit_roots succs fuel cs st')
      else visit_roots succs fuel cs st)"

definition stronglyConnectedComponents :: "(string \<Rightarrow> string list) \<Rightarrow> string list \<Rightarrow> string list list option" where
  "stronglyConnectedComponents succs codeIdentities =
     map_option foundComponents
       (visit_roots succs (Suc (length codeIdentities)) (sort_strings codeIdentities) empty_scc_state)"

end
