(* ===== verification/ShardSccCorrect.thy ===== *)
theory ShardSccCorrect
  imports ShardScc
begin

text \<open>
  Correctness of the planner's Tarjan search: it always finishes within its fuel, and it returns the
  strongly connected components, each sorted, with every dependency of a component in itself or in
  an earlier one.
\<close>

section \<open>Graphs and components\<close>

definition edges :: "('a \<Rightarrow> 'a list) \<Rightarrow> ('a \<times> 'a) set" where
  "edges succs = {(x, y). y \<in> set (succs x)}"

abbreviation reaches :: "('a \<Rightarrow> 'a list) \<Rightarrow> 'a \<Rightarrow> 'a \<Rightarrow> bool" where
  "reaches succs x y \<equiv> (x, y) \<in> (edges succs)\<^sup>*"

definition is_scc :: "('a \<Rightarrow> 'a list) \<Rightarrow> 'a set \<Rightarrow> bool" where
  "is_scc succs S \<longleftrightarrow> S \<noteq> {} \<and> (\<forall>x \<in> S. \<forall>y. y \<in> S \<longleftrightarrow> reaches succs x y \<and> reaches succs y x)"

definition finished :: "scc_state \<Rightarrow> string set" where
  "finished st = \<Union> (set ` set (foundComponents st))"

text \<open>Every dependency of a component lies in it or in a component found before it.\<close>

fun closed_from :: "(string \<Rightarrow> string list) \<Rightarrow> string set \<Rightarrow> string list list \<Rightarrow> bool" where
  "closed_from succs before [] = True"
| "closed_from succs before (C # Cs) =
     ((\<forall>x \<in> set C. set (succs x) \<subseteq> before \<union> set C) \<and> closed_from succs (before \<union> set C) Cs)"

lemma closed_from_append:
  "closed_from succs B (Cs @ [C]) \<longleftrightarrow>
     closed_from succs B Cs \<and> (\<forall>x \<in> set C. set (succs x) \<subseteq> B \<union> \<Union> (set ` set Cs) \<union> set C)"
  by (induction Cs arbitrary: B) (auto simp: Un_assoc)

lemma reach_closed:
  assumes "(x, y) \<in> R\<^sup>*" and "x \<in> D" and "\<And>u v. (u, v) \<in> R \<Longrightarrow> u \<in> D \<Longrightarrow> v \<in> D"
  shows "y \<in> D"
  using assms by (induction rule: rtrancl_induct) auto

section \<open>The invariant\<close>

definition scc_inv :: "(string \<Rightarrow> string list) \<Rightarrow> string set \<Rightarrow> string set \<Rightarrow> scc_state \<Rightarrow> bool" where
  "scc_inv succs V gray st \<longleftrightarrow>
     distinct (sccStack st) \<and> onStack st = set (sccStack st)
     \<and> dom (indexes st) = set (sccStack st) \<union> finished st \<and> set (sccStack st) \<inter> finished st = {}
     \<and> dom (indexes st) \<subseteq> V
     \<and> (\<forall>x \<in> dom (indexes st). index_of st x < nextIndex st)
     \<and> sorted_wrt (\<lambda>x y. index_of st y < index_of st x) (sccStack st)
     \<and> gray \<subseteq> set (sccStack st)
     \<and> (\<forall>x \<in> set (sccStack st) - gray. set (succs x) \<subseteq> dom (indexes st))
     \<and> (\<forall>x \<in> finished st. set (succs x) \<subseteq> finished st)
     \<and> (\<forall>x \<in> set (sccStack st). \<forall>y \<in> set (sccStack st). index_of st x \<le> index_of st y \<longrightarrow> reaches succs x y)
     \<and> (\<forall>y \<in> set (sccStack st). \<exists>g \<in> gray. index_of st g \<le> index_of st y \<and> reaches succs y g)
     \<and> (\<forall>C \<in> set (foundComponents st). is_scc succs (set C) \<and> sorted C \<and> distinct C)
     \<and> distinct (concat (foundComponents st))
     \<and> closed_from succs {} (foundComponents st)"

text \<open>What \<open>visit\<close> knows about the low link of \<open>c\<close> while the dependencies in \<open>P\<close> are processed:
  \<open>s\<close> is what was pushed above \<open>c\<close>, \<open>stk0\<close> what lies below.\<close>

definition low_inv ::
  "(string \<Rightarrow> string list) \<Rightarrow> string \<Rightarrow> string list \<Rightarrow> string list \<Rightarrow> string set \<Rightarrow> scc_state \<Rightarrow> bool" where
  "low_inv succs c s stk0 P st \<longleftrightarrow>
     sccStack st = s @ c # stk0
     \<and> lowLinks st c \<le> index_of st c
     \<and> (\<exists>y \<in> set (sccStack st). index_of st y = lowLinks st c \<and> reaches succs c y)
     \<and> (\<forall>u \<in> set s. \<forall>v \<in> set (succs u) \<inter> set stk0. lowLinks st c \<le> index_of st v)
     \<and> (\<forall>v \<in> P \<inter> set stk0. lowLinks st c \<le> index_of st v)
     \<and> P \<subseteq> dom (indexes st)"

text \<open>Visiting only adds: entries stay, the stack grows at its head, components are appended.\<close>

definition scc_ext :: "string set \<Rightarrow> scc_state \<Rightarrow> scc_state \<Rightarrow> bool" where
  "scc_ext X st st' \<longleftrightarrow>
     (\<forall>x \<in> dom (indexes st). indexes st' x = indexes st x)
     \<and> (\<forall>x \<in> dom (indexes st) - X. lowLinks st' x = lowLinks st x)
     \<and> (\<exists>s. sccStack st' = s @ sccStack st)
     \<and> finished st \<subseteq> finished st'"

definition visit_post ::
  "(string \<Rightarrow> string list) \<Rightarrow> string set \<Rightarrow> string set \<Rightarrow> string \<Rightarrow> scc_state \<Rightarrow> scc_state \<Rightarrow> bool" where
  "visit_post succs V gray c st st' \<longleftrightarrow>
     scc_inv succs V gray st' \<and> scc_ext {} st st' \<and> indexes st' c = Some (nextIndex st)
     \<and> (\<exists>s. sccStack st' = s @ sccStack st
          \<and> (s \<noteq> [] \<longrightarrow> lowLinks st' c < index_of st' c
               \<and> (\<exists>y \<in> set (sccStack st). index_of st y = lowLinks st' c \<and> reaches succs c y))
          \<and> (s = [] \<longrightarrow> lowLinks st' c = index_of st' c)
          \<and> (\<forall>u \<in> set s. \<forall>v \<in> set (succs u) \<inter> set (sccStack st). lowLinks st' c \<le> index_of st v))"

lemma index_of_ext: "scc_ext X st st' \<Longrightarrow> x \<in> dom (indexes st) \<Longrightarrow> index_of st' x = index_of st x"
  by (auto simp: scc_ext_def index_of_def)

lemma scc_ext_refl: "scc_ext X st st"
  by (auto simp: scc_ext_def)

lemma scc_ext_dom: "scc_ext X st st' \<Longrightarrow> dom (indexes st) \<subseteq> dom (indexes st')"
  by (auto simp: scc_ext_def dom_def)

lemma scc_ext_trans:
  assumes 1: "scc_ext X st st'" and 2: "scc_ext Y st' st''" and XZ: "X \<subseteq> Z" and YZ: "Y \<inter> dom (indexes st) \<subseteq> Z"
  shows "scc_ext Z st st''"
  unfolding scc_ext_def
proof (intro conjI ballI)
  fix x assume x: "x \<in> dom (indexes st)"
  then have x': "x \<in> dom (indexes st')" using scc_ext_dom[OF 1] by blast
  show "indexes st'' x = indexes st x" using 1 2 x x' by (simp add: scc_ext_def)
next
  fix x assume x: "x \<in> dom (indexes st) - Z"
  then have "x \<in> dom (indexes st) - X" "x \<in> dom (indexes st') - Y"
    using scc_ext_dom[OF 1] XZ YZ by blast+
  then show "lowLinks st'' x = lowLinks st x" using 1 2 by (simp add: scc_ext_def)
next
  obtain s s' where "sccStack st' = s @ sccStack st" "sccStack st'' = s' @ sccStack st'"
    using 1 2 unfolding scc_ext_def by blast
  then show "\<exists>s. sccStack st'' = s @ sccStack st" by (intro exI[of _ "s' @ s"]) simp
next
  show "finished st \<subseteq> finished st''" using 1 2 unfolding scc_ext_def by blast
qed

lemma scc_inv_parts:
  assumes "scc_inv succs V gray st"
  shows "distinct (sccStack st)" "onStack st = set (sccStack st)"
    "dom (indexes st) = set (sccStack st) \<union> finished st" "set (sccStack st) \<inter> finished st = {}"
    "dom (indexes st) \<subseteq> V"
    "\<forall>x \<in> dom (indexes st). index_of st x < nextIndex st"
    "sorted_wrt (\<lambda>x y. index_of st y < index_of st x) (sccStack st)"
    "gray \<subseteq> set (sccStack st)"
    "\<forall>x \<in> set (sccStack st) - gray. set (succs x) \<subseteq> dom (indexes st)"
    "\<forall>x \<in> finished st. set (succs x) \<subseteq> finished st"
    "\<forall>x \<in> set (sccStack st). \<forall>y \<in> set (sccStack st). index_of st x \<le> index_of st y \<longrightarrow> reaches succs x y"
    "\<forall>y \<in> set (sccStack st). \<exists>g \<in> gray. index_of st g \<le> index_of st y \<and> reaches succs y g"
    "\<forall>C \<in> set (foundComponents st). is_scc succs (set C) \<and> sorted C \<and> distinct C"
    "distinct (concat (foundComponents st))" "closed_from succs {} (foundComponents st)"
  using assms unfolding scc_inv_def by - (elim conjE, assumption)+

lemmas scc_invD = scc_inv_parts [rule_format]

lemma scc_invI:
  assumes "distinct (sccStack st)" "onStack st = set (sccStack st)"
    "dom (indexes st) = set (sccStack st) \<union> finished st" "set (sccStack st) \<inter> finished st = {}"
    "dom (indexes st) \<subseteq> V"
    "\<And>x. x \<in> dom (indexes st) \<Longrightarrow> index_of st x < nextIndex st"
    "sorted_wrt (\<lambda>x y. index_of st y < index_of st x) (sccStack st)"
    "gray \<subseteq> set (sccStack st)"
    "\<And>x. x \<in> set (sccStack st) - gray \<Longrightarrow> set (succs x) \<subseteq> dom (indexes st)"
    "\<And>x. x \<in> finished st \<Longrightarrow> set (succs x) \<subseteq> finished st"
    "\<And>x y. x \<in> set (sccStack st) \<Longrightarrow> y \<in> set (sccStack st) \<Longrightarrow> index_of st x \<le> index_of st y \<Longrightarrow> reaches succs x y"
    "\<And>y. y \<in> set (sccStack st) \<Longrightarrow> \<exists>g \<in> gray. index_of st g \<le> index_of st y \<and> reaches succs y g"
    "\<And>C. C \<in> set (foundComponents st) \<Longrightarrow> is_scc succs (set C) \<and> sorted C \<and> distinct C"
    "distinct (concat (foundComponents st))" "closed_from succs {} (foundComponents st)"
  shows "scc_inv succs V gray st"
  unfolding scc_inv_def by (intro conjI ballI impI) (use assms in blast)+

lemma scc_inv_lower_link [simp]: "scc_inv succs V gray (lower_link c low st) = scc_inv succs V gray st"
  by (simp add: scc_inv_def lower_link_def finished_def index_of_def)

lemma lower_link_simps [simp]:
  "sccStack (lower_link c low st) = sccStack st" "indexes (lower_link c low st) = indexes st"
  "index_of (lower_link c low st) = index_of st" "nextIndex (lower_link c low st) = nextIndex st"
  "onStack (lower_link c low st) = onStack st" "finished (lower_link c low st) = finished st"
  "lowLinks (lower_link c low st) x = (if x = c then min (lowLinks st c) low else lowLinks st x)"
  by (auto simp: lower_link_def index_of_def finished_def)

section \<open>Entering\<close>

lemma scc_enter_simps [simp]:
  "sccStack (scc_enter c st) = c # sccStack st" "indexes (scc_enter c st) = (indexes st)(c := Some (nextIndex st))"
  "nextIndex (scc_enter c st) = Suc (nextIndex st)" "onStack (scc_enter c st) = insert c (onStack st)"
  "finished (scc_enter c st) = finished st" "foundComponents (scc_enter c st) = foundComponents st"
  "lowLinks (scc_enter c st) = (lowLinks st)(c := nextIndex st)"
  "index_of (scc_enter c st) = (index_of st)(c := nextIndex st)"
  by (auto simp: scc_enter_def finished_def index_of_def)

lemma enter_inv:
  assumes inv: "scc_inv succs V gray st" and c: "c \<in> V" "indexes st c = None"
    and gray: "\<And>g. g \<in> gray \<Longrightarrow> reaches succs g c"
  shows "scc_inv succs V (insert c gray) (scc_enter c st)"
proof -
  let ?st = "scc_enter c st"
  note I = scc_invD[OF inv]
  have cn: "c \<notin> set (sccStack st)" "c \<notin> finished st" using c(2) I(3) by (metis UnCI domIff)+
  have less: "index_of st x < nextIndex st" if "x \<in> set (sccStack st)" for x using I(6)[of x] I(3) that by simp
  have to_c: "reaches succs x c" if "x \<in> set (sccStack st)" for x
    using I(12)[OF that] gray by (meson rtrancl_trans)
  show ?thesis
  proof (rule scc_invI)
    show "index_of ?st x < nextIndex ?st" if "x \<in> dom (indexes ?st)" for x
      using that I(6)[of x] by (auto simp: less_Suc_eq)
    show "sorted_wrt (\<lambda>x y. index_of ?st y < index_of ?st x) (sccStack ?st)"
    proof -
      have "sorted_wrt (\<lambda>x y. index_of ?st y < index_of ?st x) (sccStack st)"
        by (rule sorted_wrt_mono_rel[OF _ I(7)]) (use cn(1) in auto)
      then show ?thesis using less cn(1) by auto
    qed
    show "set (succs x) \<subseteq> dom (indexes ?st)" if "x \<in> set (sccStack ?st) - insert c gray" for x
      using I(9)[of x] that by auto
    show "reaches succs x y" if "x \<in> set (sccStack ?st)" "y \<in> set (sccStack ?st)" "index_of ?st x \<le> index_of ?st y" for x y
    proof (cases "y = c")
      case True
      then show ?thesis using that(1) to_c by auto
    next
      case False
      then have y: "y \<in> set (sccStack st)" using that(2) by simp
      then have "x \<noteq> c" using that(3) less[OF y] False by auto
      then show ?thesis using that I(11)[of x y] y False by auto
    qed
    show "\<exists>g \<in> insert c gray. index_of ?st g \<le> index_of ?st y \<and> reaches succs y g" if "y \<in> set (sccStack ?st)" for y
    proof (cases "y = c")
      case False
      then obtain g where g: "g \<in> gray" "index_of st g \<le> index_of st y" "reaches succs y g"
        using I(12)[of y] \<open>y \<in> set (sccStack ?st)\<close> by auto
      moreover have "g \<noteq> c" using g(1) I(8) cn(1) by auto
      ultimately show ?thesis using False by (intro bexI[of _ g]) auto
    qed auto
  qed (use I cn c in auto)
qed

lemma enter_low: "low_inv succs c [] (sccStack st) {} (scc_enter c st)"
  by (auto simp: low_inv_def)

lemma enter_ext: "indexes st c = None \<Longrightarrow> scc_ext {} st (scc_enter c st)"
  by (auto simp: scc_ext_def)

section \<open>Dependencies\<close>

lemma low_invD:
  assumes "low_inv succs c s stk0 P st"
  shows "sccStack st = s @ c # stk0" "lowLinks st c \<le> index_of st c"
    "\<exists>y \<in> set (sccStack st). index_of st y = lowLinks st c \<and> reaches succs c y"
    "\<And>u v. u \<in> set s \<Longrightarrow> v \<in> set (succs u) \<Longrightarrow> v \<in> set stk0 \<Longrightarrow> lowLinks st c \<le> index_of st v"
    "\<And>v. v \<in> P \<Longrightarrow> v \<in> set stk0 \<Longrightarrow> lowLinks st c \<le> index_of st v"
    "P \<subseteq> dom (indexes st)"
  using assms unfolding low_inv_def by blast+

lemma low_inv_visited:
  assumes "low_inv succs c s stk0 P st" and inv: "scc_inv succs V gray st"
    and "d \<in> dom (indexes st)" "d \<notin> onStack st"
  shows "low_inv succs c s stk0 (insert d P) st"
  using assms scc_invD(2)[OF inv] by (auto simp: low_inv_def)

lemma low_inv_on_stack:
  assumes low: "low_inv succs c s stk0 P st" and inv: "scc_inv succs V gray st"
    and d: "d \<in> onStack st" "d \<in> set (succs c)"
  shows "low_inv succs c s stk0 (insert d P) (lower_link c (index_of st d) st)"
proof -
  note I = scc_invD[OF inv] and L = low_invD[OF low]
  have ds: "d \<in> set (sccStack st)" using d I(2) by simp
  have cd: "reaches succs c d" using d(2) by (auto simp: edges_def)
  have "\<exists>y \<in> set (sccStack st). index_of st y = min (lowLinks st c) (index_of st d) \<and> reaches succs c y"
    using L(3) cd ds by (cases "lowLinks st c \<le> index_of st d") (auto simp: min_def)
  moreover have "insert d P \<subseteq> dom (indexes st)" using L(6) ds I(3) by blast
  moreover have "min (lowLinks st c) (index_of st d) \<le> index_of st v" if "v \<in> insert d P" "v \<in> set stk0" for v
    using that L(5)[of v] by (auto simp: min_le_iff_disj)
  ultimately show ?thesis using L(1,2,4) unfolding low_inv_def by (simp add: min_le_iff_disj)
qed

lemma visit_post_dom: "visit_post succs V gray d st st' \<Longrightarrow> d \<in> dom (indexes st')"
  by (auto simp: visit_post_def)

lemma low_inv_new:
  assumes low: "low_inv succs c s stk0 P st" and inv: "scc_inv succs V gray st"
    and c: "c \<in> gray" and d: "d \<in> set (succs c)" "indexes st d = None"
    and post: "visit_post succs V gray d st st'"
  shows "\<exists>s'. low_inv succs c s' stk0 (insert d P) (lower_link c (lowLinks st' d) st')"
proof -
  note I = scc_invD[OF inv]
  have inv': "scc_inv succs V gray st'" and ext: "scc_ext {} st st'" and di: "indexes st' d = Some (nextIndex st)"
    using post by (auto simp: visit_post_def)
  note I' = scc_invD[OF inv']
  obtain t where stk': "sccStack st' = t @ sccStack st"
    and t1: "t \<noteq> [] \<Longrightarrow> (\<exists>y \<in> set (sccStack st). index_of st y = lowLinks st' d \<and> reaches succs d y)"
    and t2: "t = [] \<Longrightarrow> lowLinks st' d = index_of st' d"
    and t3: "\<And>u v. u \<in> set t \<Longrightarrow> v \<in> set (succs u) \<Longrightarrow> v \<in> set (sccStack st) \<Longrightarrow> lowLinks st' d \<le> index_of st v"
    using post unfolding visit_post_def by blast
  note L = low_invD[OF low]
  have stk: "sccStack st = s @ c # stk0" by (rule L(1))
  have cd: "c \<in> dom (indexes st)" using I(3) stk by auto
  have same: "index_of st' x = index_of st x" if "x \<in> set (sccStack st)" for x
    using index_of_ext[OF ext] I(3) that by simp
  have lc: "lowLinks st' c = lowLinks st c" using ext cd by (simp add: scc_ext_def)
  have dstk0: "d \<notin> set stk0" using d(2) I(3) stk by (metis UnCI domIff in_set_conv_decomp list.set_intros(2) set_append)
  have "\<exists>y \<in> set (sccStack st'). index_of st' y = min (lowLinks st c) (lowLinks st' d) \<and> reaches succs c y"
  proof (cases "lowLinks st c \<le> lowLinks st' d")
    case True
    then have m: "min (lowLinks st c) (lowLinks st' d) = lowLinks st c" by simp
    from L(3) obtain y where "y \<in> set (sccStack st)" "index_of st y = lowLinks st c" "reaches succs c y" by blast
    then show ?thesis using same stk' unfolding m by (intro bexI[of _ y]) auto
  next
    case False
    then have m: "min (lowLinks st c) (lowLinks st' d) = lowLinks st' d" by simp
    have "lowLinks st c < index_of st' d" using L(2) I(6)[OF cd] di by (simp add: index_of_def)
    with False t2 have "t \<noteq> []" by auto
    then obtain y where y: "y \<in> set (sccStack st)" "index_of st y = lowLinks st' d" "reaches succs d y" using t1 by blast
    have "reaches succs c y" using d(1) y(3) by (auto simp: edges_def intro: converse_rtrancl_into_rtrancl)
    then show ?thesis using y same stk' unfolding m by (intro bexI[of _ y]) auto
  qed
  moreover have "lowLinks st c \<le> index_of st' c" using L(2) same stk by simp
  moreover have "min (lowLinks st c) (lowLinks st' d) \<le> index_of st' v"
    if "u \<in> set (t @ s)" "v \<in> set (succs u)" "v \<in> set stk0" for u v
    using that t3[of u v] L(4)[of u v] same[of v] stk by (auto simp: min_le_iff_disj)
  moreover have "min (lowLinks st c) (lowLinks st' d) \<le> index_of st' v" if "v \<in> insert d P" "v \<in> set stk0" for v
    using that L(5)[of v] same[of v] stk dstk0 by (auto simp: min_le_iff_disj)
  moreover have "insert d P \<subseteq> dom (indexes st')"
    using visit_post_dom[OF post] L(6) scc_ext_dom[OF ext] by blast
  ultimately have "low_inv succs c (t @ s) stk0 (insert d P) (lower_link c (lowLinks st' d) st')"
    using stk stk' lc unfolding low_inv_def by (simp add: min_le_iff_disj)
  then show ?thesis by blast
qed

section \<open>Leaving\<close>

lemma pop_component_split: "c \<notin> set s \<Longrightarrow> pop_component c (s @ c # rest) = (s @ [c], rest)"
  by (induction s) auto

lemma stack_indexes:
  assumes "scc_inv succs V gray st" and "sccStack st = s @ c # stk0"
  shows "\<And>v. v \<in> set stk0 \<Longrightarrow> index_of st v < index_of st c"
    and "\<And>u. u \<in> set s \<Longrightarrow> index_of st c < index_of st u"
  using scc_invD(7)[OF assms(1)] by (auto simp: assms(2) sorted_wrt_append)

text \<open>The two outcomes of the end of \<open>visit\<close>: \<open>c\<close> stays on the stack behind an older identity that it
  reaches, or everything down to \<open>c\<close> is one component.\<close>

lemma leave_keep:
  assumes inv: "scc_inv succs V (insert c gray) st" and low: "low_inv succs c s stk0 (set (succs c)) st"
    and gray: "gray \<subseteq> set stk0"
    and below: "\<And>y. y \<in> set stk0 \<Longrightarrow> \<exists>g \<in> gray. index_of st g \<le> index_of st y \<and> reaches succs y g"
    and less: "lowLinks st c < index_of st c"
  shows "scc_inv succs V gray st"
    and "\<exists>y \<in> set stk0. index_of st y = lowLinks st c \<and> reaches succs c y"
proof -
  note I = scc_invD[OF inv] and L = low_invD[OF low]
  note ix = stack_indexes[OF inv L(1)]
  obtain y0 where y0: "y0 \<in> set (sccStack st)" "index_of st y0 = lowLinks st c" "reaches succs c y0" using L(3) by blast
  then have y0s: "y0 \<in> set stk0" using ix(2)[of y0] less L(1) by auto
  then show "\<exists>y \<in> set stk0. index_of st y = lowLinks st c \<and> reaches succs c y" using y0 by blast
  obtain g0 where g0: "g0 \<in> gray" "index_of st g0 \<le> index_of st y0" "reaches succs y0 g0" using below[OF y0s] by blast
  have reach: "\<exists>g \<in> gray. index_of st g \<le> index_of st y \<and> reaches succs y g" if y: "y \<in> set (sccStack st)" for y
  proof -
    obtain g where g: "g \<in> insert c gray" "index_of st g \<le> index_of st y" "reaches succs y g" using I(12)[OF y] by blast
    show ?thesis
    proof (cases "g \<in> gray")
      case False
      then have "g = c" using g(1) by blast
      then have "reaches succs y g0" "index_of st g0 \<le> index_of st y"
        using g y0 g0 less by (auto intro: rtrancl_trans)
      then show ?thesis using g0(1) by blast
    qed (use g in blast)
  qed
  have black: "set (succs x) \<subseteq> dom (indexes st)" if "x \<in> set (sccStack st) - gray" for x
    using that I(9)[of x] L(6) by (cases "x = c") auto
  show "scc_inv succs V gray st"
    by (rule scc_invI[OF I(1-7) _ black I(10,11) reach I(13-15)]) (use gray L(1) in auto)
qed

lemma leave_scc:
  assumes inv: "scc_inv succs V (insert c gray) st" and low: "low_inv succs c s stk0 (set (succs c)) st"
    and gray: "gray \<subseteq> set stk0" and to_c: "\<And>g. g \<in> gray \<Longrightarrow> reaches succs g c"
    and eq: "lowLinks st c = index_of st c"
  shows "is_scc succs (set (s @ [c]))"
    and "\<And>u. u \<in> set (s @ [c]) \<Longrightarrow> set (succs u) \<subseteq> finished st \<union> set (s @ [c])"
proof -
  note I = scc_invD[OF inv] and L = low_invD[OF low]
  note ix = stack_indexes[OF inv L(1)]
  let ?M = "set (s @ [c])"
  show M: "set (succs u) \<subseteq> finished st \<union> ?M" if u: "u \<in> ?M" for u
  proof
    fix v assume v: "v \<in> set (succs u)"
    have "u \<notin> gray" if "u \<noteq> c" using gray that u I(1) L(1) by auto
    then have "set (succs u) \<subseteq> dom (indexes st)" using I(9)[of u] u L(1,6) by (cases "u = c") auto
    then have "v \<in> set (sccStack st) \<union> finished st" using v I(3) by blast
    moreover have "v \<notin> set stk0"
    proof
      assume v0: "v \<in> set stk0"
      then have "lowLinks st c \<le> index_of st v" using u v L(4)[of u v] L(5)[of v] by auto
      then show False using ix(1)[OF v0] eq by simp
    qed
    ultimately show "v \<in> finished st \<union> ?M" using L(1) by auto
  qed
  have stk: "x \<in> set (sccStack st)" if "x \<in> ?M" for x using that L(1) by auto
  have from_c: "reaches succs c x" if "x \<in> ?M" for x
    using I(11)[OF stk stk, of c x] that ix(2)[of x] by (cases "x = c") auto
  have into_c: "reaches succs x c" if x: "x \<in> ?M" for x
  proof -
    obtain g where g: "g \<in> insert c gray" "reaches succs x g" using I(12)[OF stk[OF x]] by blast
    then have "reaches succs g c" using to_c by blast
    with g(2) show ?thesis by (rule rtrancl_trans)
  qed
  have "y \<in> ?M" if x: "x \<in> ?M" and xy: "reaches succs x y" and yx: "reaches succs y x" for x y
  proof -
    have "y \<in> finished st \<union> ?M"
      by (rule reach_closed[OF xy]) (use x M I(10) in \<open>auto simp: edges_def\<close>)
    moreover have "y \<notin> finished st"
    proof
      assume "y \<in> finished st"
      then have "x \<in> finished st" using reach_closed[OF yx] I(10) by (auto simp: edges_def)
      then show False using stk[OF x] I(4) by blast
    qed
    ultimately show ?thesis by blast
  qed
  then show "is_scc succs ?M" unfolding is_scc_def
    using from_c into_c by (metis empty_iff in_set_conv_decomp rtrancl_trans)
qed

lemma finished_append [simp]:
  "finished (st\<lparr>sccStack := stk, onStack := os, foundComponents := foundComponents st @ [C]\<rparr>) = finished st \<union> set C"
  by (auto simp: finished_def)

lemma leave_pop:
  assumes inv: "scc_inv succs V (insert c gray) st" and low: "low_inv succs c s stk0 (set (succs c)) st"
    and gray: "gray \<subseteq> set stk0" and to_c: "\<And>g. g \<in> gray \<Longrightarrow> reaches succs g c"
    and below: "\<And>y. y \<in> set stk0 \<Longrightarrow> \<exists>g \<in> gray. index_of st g \<le> index_of st y \<and> reaches succs y g"
    and eq: "lowLinks st c = index_of st c"
  shows "scc_inv succs V gray (scc_leave c st)" "sccStack (scc_leave c st) = stk0"
    "finished (scc_leave c st) = finished st \<union> set (s @ [c])"
    "indexes (scc_leave c st) = indexes st" "lowLinks (scc_leave c st) = lowLinks st"
proof -
  note I = scc_invD[OF inv] and L = low_invD[OF low]
  let ?M = "s @ [c]"
  have st': "scc_leave c st = st\<lparr>sccStack := stk0, onStack := onStack st - set ?M,
      foundComponents := foundComponents st @ [sort_strings ?M]\<rparr>"
    using I(1) L(1) eq by (simp add: scc_leave_def pop_component_split)
  show stk': "sccStack (scc_leave c st) = stk0" and fin': "finished (scc_leave c st) = finished st \<union> set ?M"
    and ix': "indexes (scc_leave c st) = indexes st" and "lowLinks (scc_leave c st) = lowLinks st"
    by (simp_all add: st')
  have io: "index_of (scc_leave c st) = index_of st" and ni: "nextIndex (scc_leave c st) = nextIndex st"
    by (simp_all add: st' index_of_def[abs_def])
  have fc: "foundComponents (scc_leave c st) = foundComponents st @ [sort_strings ?M]" by (simp add: st')
  note scc = leave_scc[OF inv low gray to_c eq]
  have dM: "distinct ?M" "set ?M \<inter> set stk0 = {}" using I(1) L(1) by auto
  show "scc_inv succs V gray (scc_leave c st)"
  proof (rule scc_invI)
    show "distinct (sccStack (scc_leave c st))" using I(1) L(1) stk' by simp
    show "onStack (scc_leave c st) = set (sccStack (scc_leave c st))" using I(2) L(1) dM by (auto simp: st')
    show "dom (indexes (scc_leave c st)) = set (sccStack (scc_leave c st)) \<union> finished (scc_leave c st)"
      using I(3) L(1) unfolding stk' fin' ix' by auto
    show "set (sccStack (scc_leave c st)) \<inter> finished (scc_leave c st) = {}"
      using I(4) L(1) dM unfolding stk' fin' by auto
    show "sorted_wrt (\<lambda>x y. index_of (scc_leave c st) y < index_of (scc_leave c st) x) (sccStack (scc_leave c st))"
      using I(7) unfolding stk' io L(1) by (simp add: sorted_wrt_append)
    show "set (succs x) \<subseteq> dom (indexes (scc_leave c st))" if "x \<in> set (sccStack (scc_leave c st)) - gray" for x
      using that I(9)[of x] dM(2) L(1) unfolding stk' ix' by auto
    show "set (succs x) \<subseteq> finished (scc_leave c st)" if "x \<in> finished (scc_leave c st)" for x
      using that I(10)[of x] scc(2)[of x] unfolding fin' by auto
    show "reaches succs x y" if "x \<in> set (sccStack (scc_leave c st))" "y \<in> set (sccStack (scc_leave c st))"
      "index_of (scc_leave c st) x \<le> index_of (scc_leave c st) y" for x y
      using that I(11)[of x y] L(1) unfolding stk' io by auto
    show "\<exists>g \<in> gray. index_of (scc_leave c st) g \<le> index_of (scc_leave c st) y \<and> reaches succs y g"
      if "y \<in> set (sccStack (scc_leave c st))" for y
      using that below[of y] unfolding stk' io by blast
    show "is_scc succs (set C) \<and> sorted C \<and> distinct C" if "C \<in> set (foundComponents (scc_leave c st))" for C
      using that I(13)[of C] scc(1) dM(1) by (auto simp: fc sorted_sort_strings simp del: js_sort.simps)
    show "distinct (concat (foundComponents (scc_leave c st)))"
      using I(14) I(4) L(1) dM(1) by (auto simp: fc finished_def simp del: js_sort.simps)
    show "closed_from succs {} (foundComponents (scc_leave c st))"
      using I(15) scc(2) by (auto simp: fc closed_from_append finished_def simp del: js_sort.simps)
  qed (use I(5,6) gray stk' ix' io ni in auto)
qed

section \<open>The search\<close>

lemma leave_post:
  assumes inv0: "scc_inv succs V gray st" and c: "indexes st c = None"
    and to_c: "\<And>g. g \<in> gray \<Longrightarrow> reaches succs g c"
    and inv: "scc_inv succs V (insert c gray) st'" and low: "low_inv succs c s (sccStack st) (set (succs c)) st'"
    and ext: "scc_ext {c} (scc_enter c st) st'"
  shows "visit_post succs V gray c st (scc_leave c st')"
proof -
  note I0 = scc_invD[OF inv0] and L = low_invD[OF low]
  have cn: "c \<notin> dom (indexes st)" using c by auto
  have ext0: "scc_ext {} st st'"
    by (rule scc_ext_trans[OF enter_ext[OF c] ext]) (use cn in auto)
  have same: "index_of st' x = index_of st x" if "x \<in> set (sccStack st)" for x
    using index_of_ext[OF ext0] I0(3) that by simp
  have ic: "indexes st' c = Some (nextIndex st)" using ext by (simp add: scc_ext_def)
  have below: "\<exists>g \<in> gray. index_of st' g \<le> index_of st' y \<and> reaches succs y g" if y: "y \<in> set (sccStack st)" for y
    using I0(8) I0(12)[OF y] same y by (metis in_mono)
  have above: "lowLinks st' c \<le> index_of st v"
    if "u \<in> set (s @ [c])" "v \<in> set (succs u)" "v \<in> set (sccStack st)" for u v
    using that L(4)[of u v] L(5)[of v] same[of v] by auto
  show ?thesis
  proof (cases "lowLinks st' c = index_of st' c")
    case True
    note P = leave_pop[OF inv low I0(8) to_c below True]
    have "index_of (scc_leave c st') c = index_of st' c" using P(4) by (simp add: index_of_def)
    then have "lowLinks (scc_leave c st') c = index_of (scc_leave c st') c" using True P(5) by simp
    moreover have "scc_ext {} st (scc_leave c st')"
      using ext0 P(2-5) by (auto simp: scc_ext_def)
    ultimately show ?thesis unfolding visit_post_def using P(1,2,4) ic
      by (intro conjI exI[of _ "[]"]) simp_all
  next
    case False
    then have less: "lowLinks st' c < index_of st' c" using L(2) by simp
    note K = leave_keep[OF inv low I0(8) below less]
    have id: "scc_leave c st' = st'" using False by (simp add: scc_leave_def)
    have "\<exists>y \<in> set (sccStack st). index_of st y = lowLinks st' c \<and> reaches succs c y"
      using K(2) same by auto
    then show ?thesis unfolding visit_post_def id using K(1) ext0 ic less L(1) above
      by (intro conjI exI[of _ "s @ [c]"]) auto
  qed
qed

lemma visit_total_aux:
  fixes c :: string
  assumes V: "finite V" "\<And>x. x \<in> V \<Longrightarrow> set (succs x) \<subseteq> V"
  shows "\<lbrakk>scc_inv succs V gray st; c \<in> V; indexes st c = None; \<And>g. g \<in> gray \<Longrightarrow> reaches succs g c;
      card (V - dom (indexes st)) \<le> fuel\<rbrakk>
      \<Longrightarrow> \<exists>st'. visit succs fuel c st = Some st' \<and> visit_post succs V gray c st st'"
    and "\<lbrakk>scc_inv succs V (insert c gray) st; c \<in> V; gray \<subseteq> set stk0; low_inv succs c s stk0 P st;
      set ds \<subseteq> set (succs c); \<And>g. g \<in> gray \<Longrightarrow> reaches succs g c; card (V - dom (indexes st)) \<le> fuel\<rbrakk>
      \<Longrightarrow> \<exists>st' s'. visit_dependencies succs fuel c ds st = Some st' \<and> scc_inv succs V (insert c gray) st'
            \<and> low_inv succs c s' stk0 (P \<union> set ds) st' \<and> scc_ext {c} st st'"
  using V
proof (induction succs fuel c st and succs fuel c ds st arbitrary: gray and gray stk0 s P
    rule: visit_visit_dependencies.induct)
  case (1 succs c st)
  then have "c \<in> V - dom (indexes st)" by auto
  moreover have "finite (V - dom (indexes st))" using "1.prems"(6) by simp
  ultimately have "card (V - dom (indexes st)) \<noteq> 0" by auto
  then show ?case using "1.prems"(5) by simp
next
  case (2 succs fuel c st)
  let ?e = "scc_enter c st"
  have "V - dom (indexes ?e) = (V - dom (indexes st)) - {c}" by auto
  moreover have "c \<in> V - dom (indexes st)" using "2.prems"(2,3) by auto
  ultimately have fuel: "card (V - dom (indexes ?e)) \<le> fuel"
    using "2.prems"(5,6) by (simp add: card_Diff_singleton)
  have g: "gray \<subseteq> set (sccStack st)" by (rule scc_invD(8)[OF "2.prems"(1)])
  have "\<exists>st' s'. visit_dependencies succs fuel c (succs c) ?e = Some st' \<and> scc_inv succs V (insert c gray) st'
          \<and> low_inv succs c s' (sccStack st) ({} \<union> set (succs c)) st' \<and> scc_ext {c} ?e st'"
    by (rule "2.IH"[OF enter_inv[OF "2.prems"(1-4)] "2.prems"(2) g enter_low subset_refl "2.prems"(4) fuel "2.prems"(6,7)])
      assumption+
  then obtain st' s' where st': "visit_dependencies succs fuel c (succs c) ?e = Some st'"
    and a: "scc_inv succs V (insert c gray) st'" and b: "low_inv succs c s' (sccStack st) (set (succs c)) st'"
    and e: "scc_ext {c} ?e st'" by auto
  show ?case using leave_post[OF "2.prems"(1,3,4) a b e] st' by simp
next
  case (3 succs fuel c st)
  then show ?case using scc_ext_refl by (auto simp del: Un_insert_left)
next
  case (4 succs fuel c d ds st)
  have d: "d \<in> set (succs c)" "set ds \<subseteq> set (succs c)" using "4.prems"(5) by auto
  have dV: "d \<in> V" using d(1) "4.prems"(2,9) by blast
  have cd: "reaches succs c d" using d(1) by (auto simp: edges_def)
  have P: "insert d P \<union> set ds = P \<union> set (d # ds)" by auto
  note inv = "4.prems"(1)
  consider "indexes st d = None" | "indexes st d \<noteq> None" "d \<in> onStack st" | "indexes st d \<noteq> None" "d \<notin> onStack st"
    by blast
  then show ?case
  proof cases
    case 1
    have gd: "reaches succs g d" if "g \<in> insert c gray" for g
      using that "4.prems"(6) cd by (auto intro: rtrancl_trans)
    obtain st' where st': "visit succs fuel d st = Some st'" "visit_post succs V (insert c gray) d st st'"
      using "4.IH"(1)[OF 1 inv dV 1 gd "4.prems"(7,8,9)] by blast
    obtain s' where low': "low_inv succs c s' stk0 (insert d P) (lower_link c (lowLinks st' d) st')"
      using low_inv_new[OF "4.prems"(4) inv _ d(1) 1 st'(2)] by blast
    let ?l = "lower_link c (lowLinks st' d) st'"
    have ext: "scc_ext {} st st'" and inv': "scc_inv succs V (insert c gray) ?l"
      using st'(2) by (auto simp: visit_post_def)
    have "V - dom (indexes ?l) \<subseteq> V - dom (indexes st)" using scc_ext_dom[OF ext] by auto
    then have fuel: "card (V - dom (indexes ?l)) \<le> fuel"
      using "4.prems"(7,8) card_mono[of "V - dom (indexes st)"] by (meson finite_Diff le_trans)
    have "\<exists>st'' s''. visit_dependencies succs fuel c ds ?l = Some st'' \<and> scc_inv succs V (insert c gray) st''
            \<and> low_inv succs c s'' stk0 (insert d P \<union> set ds) st'' \<and> scc_ext {c} ?l st''"
      by (rule "4.IH"(2)[OF 1 st'(1) inv' "4.prems"(2,3) low' d(2) "4.prems"(6) fuel "4.prems"(8,9)]) assumption+
    then obtain st'' s'' where st'': "visit_dependencies succs fuel c ds ?l = Some st''"
      "scc_inv succs V (insert c gray) st''" "low_inv succs c s'' stk0 (insert d P \<union> set ds) st''" "scc_ext {c} ?l st''"
      by blast
    have "scc_ext {c} st ?l" using ext by (auto simp: scc_ext_def)
    then have "scc_ext {c} st st''" by (rule scc_ext_trans[OF _ st''(4)]) auto
    then show ?thesis using st'' st'(1) 1 unfolding P by auto
  next
    case 2
    let ?l = "lower_link c (index_of st d) st"
    have low': "low_inv succs c s stk0 (insert d P) ?l"
      by (rule low_inv_on_stack[OF "4.prems"(4) inv 2(2) d(1)])
    have inv': "scc_inv succs V (insert c gray) ?l" using inv by simp
    have fuel: "card (V - dom (indexes ?l)) \<le> fuel" using "4.prems"(7) by simp
    have "\<exists>st'' s''. visit_dependencies succs fuel c ds ?l = Some st'' \<and> scc_inv succs V (insert c gray) st''
            \<and> low_inv succs c s'' stk0 (insert d P \<union> set ds) st'' \<and> scc_ext {c} ?l st''"
      by (rule "4.IH"(3)[OF 2 inv' "4.prems"(2,3) low' d(2) "4.prems"(6) fuel "4.prems"(8,9)]) assumption+
    then obtain st'' s'' where st'': "visit_dependencies succs fuel c ds ?l = Some st''"
      "scc_inv succs V (insert c gray) st''" "low_inv succs c s'' stk0 (insert d P \<union> set ds) st''" "scc_ext {c} ?l st''"
      by blast
    have "scc_ext {c} st ?l" by (auto simp: scc_ext_def)
    then have "scc_ext {c} st st''" by (rule scc_ext_trans[OF _ st''(4)]) auto
    then show ?thesis using st'' 2 unfolding P by auto
  next
    case 3
    have low': "low_inv succs c s stk0 (insert d P) st"
      by (rule low_inv_visited[OF "4.prems"(4) inv _ 3(2)]) (use 3(1) in auto)
    have "\<exists>st'' s''. visit_dependencies succs fuel c ds st = Some st'' \<and> scc_inv succs V (insert c gray) st''
            \<and> low_inv succs c s'' stk0 (insert d P \<union> set ds) st'' \<and> scc_ext {c} st st''"
      by (rule "4.IH"(4)[OF 3 inv "4.prems"(2,3) low' d(2) "4.prems"(6-9)]) assumption+
    then show ?thesis using 3 unfolding P by auto
  qed
qed

lemma root_stack_empty: "scc_inv succs V {} st \<Longrightarrow> sccStack st = []"
  using scc_invD(12)[of succs V "{}" st] by (cases "sccStack st") auto

lemma visit_roots_total:
  assumes V: "finite V" "\<And>x. x \<in> V \<Longrightarrow> set (succs x) \<subseteq> V" and fuel: "card V \<le> fuel"
  shows "scc_inv succs V {} st \<Longrightarrow> set cs \<subseteq> V \<Longrightarrow>
    \<exists>st'. visit_roots succs fuel cs st = Some st' \<and> scc_inv succs V {} st' \<and> dom (indexes st) \<subseteq> dom (indexes st')
      \<and> set cs \<subseteq> dom (indexes st')"
proof (induction cs arbitrary: st)
  case (Cons c cs)
  show ?case
  proof (cases "indexes st c = None")
    case True
    have "card (V - dom (indexes st)) \<le> fuel"
      using fuel V(1) card_mono[of V "V - dom (indexes st)"] by (meson Diff_subset le_trans)
    then obtain st' where st': "visit succs fuel c st = Some st'" "visit_post succs V {} c st st'"
      using visit_total_aux(1)[OF V Cons.prems(1), of c fuel] True Cons.prems(2) by auto
    have inv': "scc_inv succs V {} st'" and ext: "scc_ext {} st st'" and c: "c \<in> dom (indexes st')"
      using st'(2) by (auto simp: visit_post_def)
    obtain t where t: "visit_roots succs fuel cs st' = Some t" "scc_inv succs V {} t"
      "dom (indexes st') \<subseteq> dom (indexes t)" "set cs \<subseteq> dom (indexes t)"
      using Cons.IH[OF inv'] Cons.prems(2) by auto
    have "visit_roots succs fuel (c # cs) st = Some t" using True st'(1) t(1) by simp
    moreover have "dom (indexes st) \<subseteq> dom (indexes t)" using scc_ext_dom[OF ext] t(3) by blast
    moreover have "set (c # cs) \<subseteq> dom (indexes t)" using c t(3,4) by auto
    ultimately show ?thesis using t(2) by blast
  next
    case False
    then have c: "c \<in> dom (indexes st)" by auto
    obtain t where t: "visit_roots succs fuel cs st = Some t" "scc_inv succs V {} t"
      "dom (indexes st) \<subseteq> dom (indexes t)" "set cs \<subseteq> dom (indexes t)"
      using Cons.IH[OF Cons.prems(1)] Cons.prems(2) by auto
    then show ?thesis using c False by (intro exI[of _ t]) auto
  qed
qed simp

lemma empty_scc_inv: "scc_inv succs V {} empty_scc_state"
  by (rule scc_invI) (simp_all add: empty_scc_state_def finished_def)

lemma stronglyConnectedComponents_lemma:
  fixes keys :: "string list"
  assumes "distinct keys" and "\<forall>x \<in> set keys. set (succs x) \<subseteq> set keys"
  shows "\<exists>cs. stronglyConnectedComponents succs keys = Some cs
    \<and> mset (concat cs) = mset keys
    \<and> (\<forall>C \<in> set cs. is_scc succs (set C) \<and> sorted C)
    \<and> closed_from succs {} cs"
proof -
  let ?V = "set keys"
  have cl: "\<And>x. x \<in> ?V \<Longrightarrow> set (succs x) \<subseteq> ?V" using assms(2) by blast
  have fuel: "card ?V \<le> Suc (length keys)" using card_length[of keys] by simp
  obtain st where st: "visit_roots succs (Suc (length keys)) (sort_strings keys) empty_scc_state = Some st"
    "scc_inv succs ?V {} st" "set (sort_strings keys) \<subseteq> dom (indexes st)"
    using visit_roots_total[where succs = succs and cs = "sort_strings keys", OF finite_set cl fuel empty_scc_inv] by auto
  note I = scc_invD[OF st(2)]
  have "set (concat (foundComponents st)) = ?V"
    using I(3,5) root_stack_empty[OF st(2)] st(3) by (auto simp: finished_def)
  then have "mset (concat (foundComponents st)) = mset keys"
    using I(14) assms(1) set_eq_iff_mset_eq_distinct[of "concat (foundComponents st)" keys] by blast
  moreover have "stronglyConnectedComponents succs keys = Some (foundComponents st)"
    by (simp add: stronglyConnectedComponents_def st(1))
  ultimately show ?thesis using I(13,15) by blast
qed

text \<open>C3: On a closed dependency graph the search always returns, and what it returns is a partition of
  the code identities into exactly the strongly connected components, each listed in ascending order,
  and no component depends on a later one.\<close>

theorem stronglyConnectedComponents_correct:
  fixes keys :: "string list"
  assumes "distinct keys" and "\<forall>x \<in> set keys. set (succs x) \<subseteq> set keys"
  shows "\<exists>cs. stronglyConnectedComponents succs keys = Some cs
    \<and> mset (concat cs) = mset keys
    \<and> (\<forall>C \<in> set cs. is_scc succs (set C) \<and> sorted C)
    \<and> closed_from succs {} cs"
  by (rule stronglyConnectedComponents_lemma[OF assms])

definition two_cycle_graph :: "string \<Rightarrow> string list" where
  "two_cycle_graph x = (if x = ''a'' then [''b''] else if x = ''b'' then [''a'', ''c''] else [])"

theorem stronglyConnectedComponents_correct_witness:
  "(\<exists>cs. stronglyConnectedComponents two_cycle_graph [''b'', ''c'', ''a''] = Some cs
    \<and> mset (concat cs) = mset [''b'', ''c'', ''a'']
    \<and> (\<forall>C \<in> set cs. is_scc two_cycle_graph (set C) \<and> sorted C) \<and> closed_from two_cycle_graph {} cs)
   \<and> stronglyConnectedComponents two_cycle_graph [''b'', ''c'', ''a''] = Some [[''c''], [''a'', ''b'']]"
proof
  show "\<exists>cs. stronglyConnectedComponents two_cycle_graph [''b'', ''c'', ''a''] = Some cs
    \<and> mset (concat cs) = mset [''b'', ''c'', ''a'']
    \<and> (\<forall>C \<in> set cs. is_scc two_cycle_graph (set C) \<and> sorted C) \<and> closed_from two_cycle_graph {} cs"
    by (rule stronglyConnectedComponents_correct) (simp_all add: two_cycle_graph_def)
  show "stronglyConnectedComponents two_cycle_graph [''b'', ''c'', ''a''] = Some [[''c''], [''a'', ''b'']]"
    by code_simp
qed

end
