(* ===== verification/ShardComponents.thy ===== *)
theory ShardComponents
  imports ShardUnits ShardSccCorrect
begin

text \<open>
  \<open>buildComponents\<close> of \<open>convex-wasm-physical-shard-planner.mjs\<close>: one component per strongly connected
  component of the logical units, its identities, its dependencies, and which components may be shared.

  \<open>unitsByCodeIdentity\<close> is an association list in insertion order. The component objects that the code
  mutates are a list, and a reference to one is its index; the memo field \<open>sharedEligible\<close> is a function
  of the index until all components are resolved.
\<close>

section \<open>Components\<close>

definition convexWasmPhysicalShardComponentKind :: string where
  "convexWasmPhysicalShardComponentKind = ''convex-wasm-physical-shard-component-v2''"

record shard_component =
  bindingIdentitySha256s :: "string list"
  codeIdentitySha256s :: "string list"
  componentBindingSha256 :: string
  componentSha256 :: string
  dependencyComponentSha256s :: "string list"
  logicalUnitSha256s :: "string list"
  occurrenceCohortSha256s :: "string list"
  picObjectByteWeight :: int
  componentShareable :: bool
  sharedCandidate :: bool
  sharedEligible :: bool

type_synonym units = "(string \<times> authenticated_unit) list"

definition undefined_property :: "'a res" where
  "undefined_property = Inl (TypeError ''Cannot read properties of undefined'')"

lemma undefined_property_Inr_iff [simp]: "undefined_property = Inr x \<longleftrightarrow> False"
  by (simp add: undefined_property_def)

definition get_unit :: "units \<Rightarrow> string \<Rightarrow> authenticated_unit res" where
  "get_unit units code = (case map_of units code of None \<Rightarrow> undefined_property | Some unit \<Rightarrow> Inr unit)"

definition unit_dependencies :: "units \<Rightarrow> string \<Rightarrow> string list" where
  "unit_dependencies units code = (case map_of units code of None \<Rightarrow> [] | Some unit \<Rightarrow> dependencies unit)"

definition unit_binding_json :: "units \<Rightarrow> authenticated_unit \<Rightarrow> jsval res" where
  "unit_binding_json units unit =
     bindR (mapR (get_unit units) (dependencies unit)) (\<lambda>deps.
     Inr (JObj
       [(''bindingIdentitySha256'', JStr (bindingIdentitySha256 unit)),
        (''dependencies'', sha_array (sort_strings (map bindingIdentitySha256 deps))),
        (''picObjectByteWeight'', JNum (picByteWeight unit)),
        (''shareable'', JBool (shareable unit))]))"

definition component_binding_json :: "units \<Rightarrow> authenticated_unit list \<Rightarrow> jsval res" where
  "component_binding_json units members =
     bindR (mapR (\<lambda>unit. bindR (unit_binding_json units unit) (\<lambda>json. Inr (bindingIdentitySha256 unit, json))) members)
       (\<lambda>entries.
     Inr (JObj
       [(''component'', JObj
          [(''kind'', JStr convexWasmPhysicalShardComponentKind),
           (''units'', JArr (map snd (js_sort (compareBy fst) entries)))]),
        (''domain'', JStr ''convex-wasm-physical-shard-component-binding-identity-v1'')]))"

definition component_material_json :: "authenticated_unit list \<Rightarrow> jsval" where
  "component_material_json members = JObj
     [(''component'', JObj
        [(''kind'', JStr convexWasmPhysicalShardComponentKind),
         (''units'', JArr (map (\<lambda>unit. JObj
            [(''codeIdentitySha256'', JStr (codeIdentitySha256 unit)),
             (''dependencies'', sha_array (dependencies unit)),
             (''picObject'', pic_object_json unit)]) members))]),
      (''domain'', JStr ''convex-wasm-physical-shard-component-material-identity-v2'')]"

definition component_weight :: "string list \<Rightarrow> authenticated_unit list \<Rightarrow> int res" where
  "component_weight codes members =
     foldR (\<lambda>total unit. addSafeIntegers total (num_int (picByteWeight unit))
       (''component containing '' @ join_strings '', '' codes @ '' PIC object weight'')) 0 members"

definition buildComponent :: "(string \<Rightarrow> string) \<Rightarrow> units \<Rightarrow> string list \<Rightarrow> shard_component res" where
  "buildComponent sha256 units codes =
     bindR (mapR (get_unit units) codes) (\<lambda>members.
     case members of [] \<Rightarrow> undefined_property | first # _ \<Rightarrow>
     (let isCyclic = length members > 1 \<or> codeIdentitySha256 first \<in> set (dependencies first);
          occurrenceCohorts = occurrences first
      in bindR (planner_failWhen (isCyclic \<and> (\<exists>unit \<in> set members. occurrences unit \<noteq> occurrenceCohorts))
           (''cyclic component containing '' @ join_strings '', '' codes @ '' has incoherent occurrence evidence'')) (\<lambda>_.
         bindR (component_weight codes members) (\<lambda>weight.
         bindR (bindR (component_binding_json units members) (fingerprintConvexWasmPhysicalShardJson sha256)) (\<lambda>binding.
         bindR (fingerprintConvexWasmPhysicalShardJson sha256 (component_material_json members)) (\<lambda>material.
         Inr \<lparr>bindingIdentitySha256s = sort_strings (map bindingIdentitySha256 members),
              codeIdentitySha256s = codes,
              componentBindingSha256 = binding,
              componentSha256 = material,
              dependencyComponentSha256s = [],
              logicalUnitSha256s = map logicalUnitSha256 members,
              occurrenceCohortSha256s = occurrenceCohorts,
              picObjectByteWeight = weight,
              componentShareable = (\<forall>unit \<in> set members. shareable unit),
              sharedCandidate = False, sharedEligible = False\<rparr>))))))"

text \<open>Components that share a stable binding get a binding identity that includes their material.
  The groups are taken over the bindings before this loop changes any.\<close>

definition disambiguateBinding :: "(string \<Rightarrow> string) \<Rightarrow> shard_component list \<Rightarrow> shard_component \<Rightarrow> shard_component res" where
  "disambiguateBinding sha256 components c =
     (if length (filter (\<lambda>v. componentBindingSha256 v = componentBindingSha256 c) components) < 2 then Inr c
      else bindR (fingerprintConvexWasmPhysicalShardJson sha256 (JObj
        [(''ambiguousStableBindingSha256'', JStr (componentBindingSha256 c)),
         (''componentMaterialSha256'', JStr (componentSha256 c)),
         (''domain'', JStr ''convex-wasm-physical-shard-ambiguous-component-binding-v1'')])) (\<lambda>binding.
        Inr (c\<lparr>componentBindingSha256 := binding\<rparr>)))"

text \<open>\<open>componentByCodeIdentity\<close>, by component index; a later entry of a \<open>Map\<close> replaces an earlier one.\<close>

definition componentByCodeIdentity :: "shard_component list \<Rightarrow> string \<Rightarrow> nat option" where
  "componentByCodeIdentity components =
     map_of (rev (concat (map (\<lambda>(c, i). map (\<lambda>code. (code, i)) (codeIdentitySha256s c)) (zip components [0..<length components]))))"

definition dependencyIndexes :: "units \<Rightarrow> shard_component list \<Rightarrow> nat \<Rightarrow> nat list res" where
  "dependencyIndexes units components i =
     mapR (\<lambda>code. case componentByCodeIdentity components code of None \<Rightarrow> undefined_property | Some j \<Rightarrow> Inr j)
       (concat (map (unit_dependencies units) (codeIdentitySha256s (components ! i))))"

definition linkComponent :: "units \<Rightarrow> shard_policy \<Rightarrow> shard_component list \<Rightarrow> nat \<Rightarrow> shard_component res" where
  "linkComponent units policy components i =
     bindR (dependencyIndexes units components i) (\<lambda>indexes.
     (let c = components ! i in
      Inr (c\<lparr>dependencyComponentSha256s :=
               sort_strings (js_set (map (\<lambda>j. componentSha256 (components ! j)) (filter (\<lambda>j. j \<noteq> i) indexes))),
             sharedCandidate := componentShareable c
               \<and> minimumCohortCount policy \<le> int (length (occurrenceCohortSha256s c))\<rparr>)))"

section \<open>Shared eligibility\<close>

text \<open>\<open>componentBySha256\<close>, by index; with colliding identities the last component is found.\<close>

definition componentBySha256 :: "shard_component list \<Rightarrow> string \<Rightarrow> nat option" where
  "componentBySha256 components =
     map_of (rev (zip (map componentSha256 components) [0..<length components]))"

lemma componentBySha256_Some:
  "componentBySha256 components sha = Some i \<Longrightarrow> i < length components \<and> componentSha256 (components ! i) = sha"
  by (auto simp: componentBySha256_def in_set_zip dest!: map_of_SomeD)

definition unresolved_shas :: "shard_component list \<Rightarrow> string list \<Rightarrow> nat" where
  "unresolved_shas components path = card (componentSha256 ` set components - set path)"

lemma unresolved_shas_Cons:
  assumes "i < length components" and "componentSha256 (components ! i) \<notin> set path"
  shows "unresolved_shas components (componentSha256 (components ! i) # path) < unresolved_shas components path"
proof -
  let ?x = "componentSha256 (components ! i)" and ?S = "componentSha256 ` set components - set path"
  have "?x \<in> ?S" using assms nth_mem by blast
  moreover have "componentSha256 ` set components - set (?x # path) = ?S - {?x}" by auto
  ultimately show ?thesis unfolding unresolved_shas_def by (metis card_Diff1_less finite_Diff finite_imageI finite_set)
qed

text \<open>\<open>path\<close> is the set \<open>resolving\<close>: an identity is added for the recursive calls and removed after
  them. \<open>resolveEvery\<close> is the short-circuiting \<open>every\<close>.\<close>

function (sequential)
      resolveSharedEligibility ::
        "shard_component list \<Rightarrow> string list \<Rightarrow> (nat \<Rightarrow> bool option) \<Rightarrow> nat \<Rightarrow> (bool \<times> (nat \<Rightarrow> bool option)) res"
  and resolveEvery ::
        "shard_component list \<Rightarrow> string list \<Rightarrow> (nat \<Rightarrow> bool option) \<Rightarrow> string list \<Rightarrow> (bool \<times> (nat \<Rightarrow> bool option)) res" where
  "resolveSharedEligibility components path memo i =
     (if length components \<le> i then undefined_property
      else case memo i of Some b \<Rightarrow> Inr (b, memo)
      | None \<Rightarrow>
        (if \<not> sharedCandidate (components ! i) then Inr (False, memo(i := Some False))
         else if componentSha256 (components ! i) \<in> set path
         then planner_fail ''component dependency graph contains a cycle after SCC collapse''
         else bindR (resolveEvery components (componentSha256 (components ! i) # path) memo
                (dependencyComponentSha256s (components ! i))) (\<lambda>(b, memo').
              Inr (b, memo'(i := Some b)))))"
| "resolveEvery components path memo [] = Inr (True, memo)"
| "resolveEvery components path memo (sha # shas) =
     (case componentBySha256 components sha of None \<Rightarrow> undefined_property
      | Some i \<Rightarrow> bindR (resolveSharedEligibility components path memo i) (\<lambda>(b, memo').
          if b then resolveEvery components path memo' shas else Inr (False, memo')))"
  by pat_completeness auto

termination
  by (relation "measures [case_sum (\<lambda>(cs, path, _). unresolved_shas cs path) (\<lambda>(cs, path, _). unresolved_shas cs path),
        case_sum (\<lambda>_. 0) (\<lambda>(_, _, _, shas). Suc (length shas))]")
     (auto intro: unresolved_shas_Cons)

declare resolveSharedEligibility.simps [simp del]

fun resolveAll :: "shard_component list \<Rightarrow> (nat \<Rightarrow> bool option) \<Rightarrow> nat list \<Rightarrow> (nat \<Rightarrow> bool option) res" where
  "resolveAll components memo [] = Inr memo"
| "resolveAll components memo (i # is) =
     bindR (resolveSharedEligibility components [] memo i) (\<lambda>(_, memo'). resolveAll components memo' is)"

section \<open>The whole operation\<close>

definition buildComponentsOf ::
  "(string \<Rightarrow> string) \<Rightarrow> units \<Rightarrow> shard_policy \<Rightarrow> string list list \<Rightarrow> shard_component list res" where
  "buildComponentsOf sha256 units policy codeSets =
     bindR (mapR (buildComponent sha256 units) codeSets) (\<lambda>built.
     bindR (mapR (disambiguateBinding sha256 built) built) (\<lambda>named.
     bindR (mapR (linkComponent units policy named) [0..<length named]) (\<lambda>linked.
     bindR (resolveAll linked (\<lambda>_. None) [0..<length linked]) (\<lambda>memo.
     Inr (js_sort (compareBy componentBindingSha256)
       (map (\<lambda>i. (linked ! i)\<lparr>sharedEligible := (memo i = Some True)\<rparr>) [0..<length linked]))))))"

text \<open>\<open>None\<close> would mean that the search ran out of fuel; it never does on a closed graph.\<close>

definition buildComponents ::
  "(string \<Rightarrow> string) \<Rightarrow> units \<Rightarrow> shard_policy \<Rightarrow> shard_component list res option" where
  "buildComponents sha256 units policy =
     map_option (buildComponentsOf sha256 units policy)
       (stronglyConnectedComponents (unit_dependencies units) (map fst units))"

end
