(* ===== verification/ShardEligible.thy ===== *)
theory ShardEligible
  imports ShardComponents
begin

text \<open>
  What \<open>buildComponents\<close> computes: the resolution of shared eligibility marks exactly the components
  from which only shared candidates can be reached, and in terms of the logical units: a component is
  shared when every unit it needs, at any depth, is shareable and occurs in enough cohorts.
\<close>

section \<open>Resolving eligibility\<close>

definition component_edges :: "shard_component list \<Rightarrow> (nat \<times> nat) set" where
  "component_edges cs =
     {(i, j). i < length cs \<and> (\<exists>sha \<in> set (dependencyComponentSha256s (cs ! i)). componentBySha256 cs sha = Some j)}"

definition memo_ok :: "shard_component list \<Rightarrow> (nat \<Rightarrow> bool option) \<Rightarrow> bool" where
  "memo_ok cs memo \<longleftrightarrow>
     (\<forall>i. memo i = Some True \<longrightarrow> i < length cs \<and> sharedCandidate (cs ! i)
        \<and> (\<forall>j. (i, j) \<in> component_edges cs \<longrightarrow> memo j = Some True))
   \<and> (\<forall>i. memo i = Some False \<longrightarrow> i < length cs
        \<and> (\<exists>j. (i, j) \<in> (component_edges cs)\<^sup>* \<and> \<not> sharedCandidate (cs ! j)))"

definition blocked :: "shard_component list \<Rightarrow> string list \<Rightarrow> nat \<Rightarrow> bool" where
  "blocked cs path k \<longleftrightarrow> k < length cs \<and> sharedCandidate (cs ! k) \<and> componentSha256 (cs ! k) \<in> set path"

definition memo_step :: "shard_component list \<Rightarrow> string list \<Rightarrow> (nat \<Rightarrow> bool option) \<Rightarrow> (nat \<Rightarrow> bool option) \<Rightarrow> bool" where
  "memo_step cs path memo memo' \<longleftrightarrow>
     memo_ok cs memo' \<and> memo \<subseteq>\<^sub>m memo' \<and> (\<forall>k. memo k = None \<longrightarrow> blocked cs path k \<longrightarrow> memo' k = None)"

lemma memo_step_refl: "memo_ok cs memo \<Longrightarrow> memo_step cs path memo memo"
  by (simp add: memo_step_def)

lemma memo_step_trans:
  "memo_step cs path m1 m2 \<Longrightarrow> memo_step cs path m2 m3 \<Longrightarrow> memo_step cs path m1 m3"
  unfolding memo_step_def by (blast intro: map_le_trans)

lemma memo_step_mono: "memo_step cs path m1 m2 \<Longrightarrow> m1 i = Some b \<Longrightarrow> m2 i = Some b"
  unfolding memo_step_def map_le_def by (metis domI)

lemma memo_ok_False:
  assumes "memo_ok cs memo" and "memo i = None" and "i < length cs"
    and "(i, j) \<in> (component_edges cs)\<^sup>*" and "\<not> sharedCandidate (cs ! j)"
  shows "memo_ok cs (memo(i := Some False))"
  using assms unfolding memo_ok_def by auto

lemma memo_ok_True:
  assumes "memo_ok cs memo" and "memo i = None" and "i < length cs" "sharedCandidate (cs ! i)"
    and "\<And>j. (i, j) \<in> component_edges cs \<Longrightarrow> memo j = Some True"
  shows "memo_ok cs (memo(i := Some True))"
  using assms unfolding memo_ok_def by auto

lemma resolve_sound:
  shows "\<lbrakk>resolveSharedEligibility cs path memo i = Inr (b, memo'); memo_ok cs memo\<rbrakk>
      \<Longrightarrow> memo_step cs path memo memo' \<and> memo' i = Some b"
    and "\<lbrakk>resolveEvery cs path memo shas = Inr (b, memo'); memo_ok cs memo\<rbrakk>
      \<Longrightarrow> memo_step cs path memo memo'
        \<and> (b \<longrightarrow> (\<forall>sha \<in> set shas. \<exists>j. componentBySha256 cs sha = Some j \<and> memo' j = Some True))
        \<and> (\<not> b \<longrightarrow> (\<exists>sha \<in> set shas. \<exists>j. componentBySha256 cs sha = Some j \<and> memo' j = Some False))"
proof (induction cs path memo i and cs path memo shas arbitrary: b memo' and b memo'
    rule: resolveSharedEligibility_resolveEvery.induct)
  case (1 cs path memo i)
  have i: "i < length cs"
    using "1.prems"(1) by (subst (asm) resolveSharedEligibility.simps) (auto split: if_splits)
  show ?case
  proof (cases "memo i")
    case (Some b0)
    then show ?thesis using "1.prems" i memo_step_refl
      by (subst (asm) resolveSharedEligibility.simps) auto
  next
    case None
    show ?thesis
    proof (cases "sharedCandidate (cs ! i)")
      case False
      then have "b = False \<and> memo' = memo(i := Some False)"
        using "1.prems"(1) i None by (subst (asm) resolveSharedEligibility.simps) auto
      moreover have "memo \<subseteq>\<^sub>m memo(i := Some False)" using None by (auto simp: map_le_def)
      moreover have "\<not> blocked cs path i" using False by (simp add: blocked_def)
      ultimately show ?thesis
        using memo_ok_False[OF "1.prems"(2) None i rtrancl_refl False] None
        by (auto simp: memo_step_def simp del: fun_upd_apply) (auto simp: fun_upd_apply)
    next
      case True
      let ?path = "componentSha256 (cs ! i) # path"
      from "1.prems"(1) i None True obtain m where fresh: "componentSha256 (cs ! i) \<notin> set path"
        and m: "resolveEvery cs ?path memo (dependencyComponentSha256s (cs ! i)) = Inr (b, m)"
        and memo': "memo' = m(i := Some b)"
        by (subst (asm) resolveSharedEligibility.simps) (auto simp: bindR_Inr_iff split: if_splits)
      note IH = "1.IH"[OF _ None _ fresh m "1.prems"(2)]
      have IH': "memo_step cs ?path memo m"
          "b \<longrightarrow> (\<forall>sha \<in> set (dependencyComponentSha256s (cs ! i)). \<exists>j. componentBySha256 cs sha = Some j \<and> m j = Some True)"
          "\<not> b \<longrightarrow> (\<exists>sha \<in> set (dependencyComponentSha256s (cs ! i)). \<exists>j. componentBySha256 cs sha = Some j \<and> m j = Some False)"
        using IH i True by auto
      have mi: "m i = None" using IH'(1) None i True by (simp add: memo_step_def blocked_def)
      have ok: "memo_ok cs m" using IH'(1) by (simp add: memo_step_def)
      have ok': "memo_ok cs (m(i := Some b))"
      proof (cases b)
        case True
        have "m j = Some True" if "(i, j) \<in> component_edges cs" for j
          using that IH'(2) True by (auto simp: component_edges_def)
        then show ?thesis using memo_ok_True[OF ok mi i \<open>sharedCandidate (cs ! i)\<close>] True by simp
      next
        case False
        then obtain sha j where j: "sha \<in> set (dependencyComponentSha256s (cs ! i))"
          "componentBySha256 cs sha = Some j" "m j = Some False" using IH'(3) by blast
        then have ij: "(i, j) \<in> component_edges cs" using i by (auto simp: component_edges_def)
        obtain k where k: "(j, k) \<in> (component_edges cs)\<^sup>*" "\<not> sharedCandidate (cs ! k)"
          using ok j(3) unfolding memo_ok_def by blast
        have "(i, k) \<in> (component_edges cs)\<^sup>*" by (rule converse_rtrancl_into_rtrancl[OF ij k(1)])
        then show ?thesis
          using memo_ok_False[OF ok mi i _ \<open>\<not> sharedCandidate (cs ! k)\<close>] False by simp
      qed
      have "memo \<subseteq>\<^sub>m m" using IH'(1) by (simp add: memo_step_def)
      then have "memo \<subseteq>\<^sub>m m(i := Some b)" using None unfolding map_le_def by (metis domIff fun_upd_apply)
      moreover have "\<forall>k. memo k = None \<longrightarrow> blocked cs path k \<longrightarrow> (m(i := Some b)) k = None"
        using IH'(1) fresh by (auto simp: memo_step_def blocked_def)
      ultimately have "memo_step cs path memo memo'" using ok' unfolding memo' memo_step_def by blast
      then show ?thesis by (rule conjI) (simp add: memo')
    qed
  qed
next
  case (2 cs path memo)
  then show ?case by (auto simp: memo_step_refl)
next
  case (3 cs path memo sha shas)
  from "3.prems"(1) obtain i b1 m1 where i: "componentBySha256 cs sha = Some i"
    and m1: "resolveSharedEligibility cs path memo i = Inr (b1, m1)"
    and rest: "(if b1 then resolveEvery cs path m1 shas else Inr (False, m1)) = Inr (b, memo')"
    by (auto simp: bindR_Inr_iff split: option.splits)
  have s1: "memo_step cs path memo m1" "m1 i = Some b1" using "3.IH"(1)[OF i m1 "3.prems"(2)] by auto
  show ?case
  proof (cases b1)
    case False
    then show ?thesis using rest s1 i by auto
  next
    case True
    have ok1: "memo_ok cs m1" using s1(1) by (simp add: memo_step_def)
    have r: "resolveEvery cs path m1 shas = Inr (b, memo')" using rest True by simp
    note IH2 = "3.IH"(2)[OF i m1 refl True r ok1]
    have step: "memo_step cs path memo memo'" by (rule memo_step_trans[OF s1(1) conjunct1[OF IH2]])
    have "m1 i = Some True" using s1(2) True by simp
    then have mi: "memo' i = Some True" by (rule memo_step_mono[OF conjunct1[OF IH2]])
    show ?thesis
    proof (intro conjI impI)
      show "\<forall>s \<in> set (sha # shas). \<exists>j. componentBySha256 cs s = Some j \<and> memo' j = Some True" if b
      proof -
        have "\<forall>s \<in> set shas. \<exists>j. componentBySha256 cs s = Some j \<and> memo' j = Some True" using IH2 that by blast
        then show ?thesis using i mi by simp
      qed
      show "\<exists>s \<in> set (sha # shas). \<exists>j. componentBySha256 cs s = Some j \<and> memo' j = Some False" if "\<not> b"
      proof -
        have "\<exists>s \<in> set shas. \<exists>j. componentBySha256 cs s = Some j \<and> memo' j = Some False" using IH2 that by blast
        then show ?thesis by simp
      qed
    qed (rule step)
  qed
qed

lemma resolveAll_sound:
  "\<lbrakk>resolveAll cs memo is = Inr memo'; memo_ok cs memo\<rbrakk>
    \<Longrightarrow> memo_ok cs memo' \<and> memo \<subseteq>\<^sub>m memo' \<and> set is \<subseteq> dom memo'"
proof (induction "is" arbitrary: memo)
  case (Cons i "is")
  then obtain b m where m: "resolveSharedEligibility cs [] memo i = Inr (b, m)" "resolveAll cs m is = Inr memo'"
    by (auto simp: bindR_Inr_iff)
  have s: "memo_step cs [] memo m" "m i = Some b" using resolve_sound(1)[OF m(1) Cons.prems(2)] by auto
  then have "memo_ok cs memo' \<and> m \<subseteq>\<^sub>m memo' \<and> set is \<subseteq> dom memo'" using Cons.IH[OF m(2)] by (simp add: memo_step_def)
  moreover have "memo \<subseteq>\<^sub>m m" using s(1) by (simp add: memo_step_def)
  moreover have "i \<in> dom m" using s(2) by blast
  ultimately show ?case by (metis insert_subset list.simps(15) map_le_implies_dom_le map_le_trans subsetD)
qed simp

lemma memo_True_closed:
  assumes "memo_ok cs memo" and "(i, j) \<in> (component_edges cs)\<^sup>*" and "memo i = Some True"
  shows "memo j = Some True"
  using assms(2,3) by (induction rule: rtrancl_induct) (use assms(1) in \<open>auto simp: memo_ok_def\<close>)

lemma resolveAll_spec:
  assumes "resolveAll cs (\<lambda>_. None) [0..<length cs] = Inr memo" and i: "i < length cs"
  shows "memo i = Some True \<longleftrightarrow> (\<forall>j. (i, j) \<in> (component_edges cs)\<^sup>* \<longrightarrow> sharedCandidate (cs ! j))"
proof -
  have "memo_ok cs (\<lambda>_. None)" by (simp add: memo_ok_def)
  then have ok: "memo_ok cs memo" and dom: "i \<in> dom memo" using resolveAll_sound[OF assms(1)] i by auto
  show ?thesis
  proof
    assume "memo i = Some True"
    then show "\<forall>j. (i, j) \<in> (component_edges cs)\<^sup>* \<longrightarrow> sharedCandidate (cs ! j)"
      using memo_True_closed[OF ok] ok unfolding memo_ok_def by blast
  next
    assume all: "\<forall>j. (i, j) \<in> (component_edges cs)\<^sup>* \<longrightarrow> sharedCandidate (cs ! j)"
    then have "memo i \<noteq> Some False" using ok unfolding memo_ok_def by blast
    then show "memo i = Some True" using dom by auto
  qed
qed

text \<open>With every dependency earlier in the list the resolution cannot run into a cycle.\<close>

lemma resolveEvery_memoised:
  "(\<And>sha. sha \<in> set shas \<Longrightarrow> \<exists>j. componentBySha256 cs sha = Some j \<and> memo j \<noteq> None)
    \<Longrightarrow> \<exists>b. resolveEvery cs path memo shas = Inr (b, memo)"
proof (induction shas)
  case (Cons sha shas)
  obtain j b where j: "componentBySha256 cs sha = Some j" "memo j = Some b" using Cons.prems[of sha] by auto
  have "\<not> length cs \<le> j" using componentBySha256_Some[OF j(1)] by simp
  then have "resolveSharedEligibility cs path memo j = Inr (b, memo)"
    using j(2) by (subst resolveSharedEligibility.simps) simp
  moreover obtain b' where "resolveEvery cs path memo shas = Inr (b', memo)" using Cons by auto
  ultimately show ?case using j(1) by (cases b) auto
next
  case Nil
  show ?case by (intro exI[of _ True]) simp
qed

lemma resolve_in_order:
  assumes "i < length cs"
    and "\<And>sha. sha \<in> set (dependencyComponentSha256s (cs ! i)) \<Longrightarrow> \<exists>j < i. componentBySha256 cs sha = Some j"
    and "\<And>j. j < i \<Longrightarrow> memo j \<noteq> None"
  shows "\<exists>b memo'. resolveSharedEligibility cs [] memo i = Inr (b, memo')
           \<and> memo' i \<noteq> None \<and> (\<forall>j. memo j \<noteq> None \<longrightarrow> memo' j \<noteq> None)"
proof -
  obtain b where b: "resolveEvery cs [componentSha256 (cs ! i)] memo (dependencyComponentSha256s (cs ! i)) = Inr (b, memo)"
    using resolveEvery_memoised[of "dependencyComponentSha256s (cs ! i)" cs memo] assms(2,3) by blast
  show ?thesis
    using assms(1) by (subst resolveSharedEligibility.simps) (auto simp: b split: option.split)
qed

lemma resolveAll_in_order:
  assumes "\<And>i sha. i < length cs \<Longrightarrow> sha \<in> set (dependencyComponentSha256s (cs ! i))
      \<Longrightarrow> \<exists>j < i. componentBySha256 cs sha = Some j"
  shows "k \<le> length cs \<Longrightarrow> (\<And>j. j < k \<Longrightarrow> memo j \<noteq> None) \<Longrightarrow> \<exists>memo'. resolveAll cs memo [k..<length cs] = Inr memo'"
proof (induction "length cs - k" arbitrary: k memo)
  case (Suc n)
  then have k: "k < length cs" by simp
  have pre: "\<And>j. j < k \<Longrightarrow> memo j \<noteq> None" by (rule Suc.prems(2))
  obtain b memo' where m: "resolveSharedEligibility cs [] memo k = Inr (b, memo')" "memo' k \<noteq> None"
      "\<forall>j. memo j \<noteq> None \<longrightarrow> memo' j \<noteq> None"
    using resolve_in_order[where i = k and cs = cs and memo = memo, OF k assms[OF k] pre] by blast
  have "\<exists>memo''. resolveAll cs memo' [Suc k..<length cs] = Inr memo''"
  proof (rule Suc.hyps(1))
    show "n = length cs - Suc k" using Suc.hyps(2) by simp
    show "Suc k \<le> length cs" using k by simp
    fix j assume "j < Suc k"
    then consider "j = k" | "j < k" by linarith
    then show "memo' j \<noteq> None" by cases (use m(2) in simp, use m(3) pre in blast)
  qed
  then show ?case using m(1) unfolding upt_conv_Cons[OF k] resolveAll.simps by simp
qed simp

end
