(* ===== verification/ShardBuild.thy ===== *)
theory ShardBuild
  imports ShardEligible
begin

text \<open>
  The result of \<open>buildComponents\<close> in terms of the logical units it was given.
\<close>

section \<open>One component\<close>

lemma get_unit_Inr_iff: "get_unit units code = Inr u \<longleftrightarrow> map_of units code = Some u"
  by (simp add: get_unit_def split: option.split)

lemma map_get_unit: "mapR (get_unit units) codes = Inr us \<longleftrightarrow> list_all2 (\<lambda>code u. map_of units code = Some u) codes us"
  by (simp add: mapR_Inr_iff get_unit_Inr_iff)

lemma addSafeIntegers_Inr_iff:
  "addSafeIntegers a b d = Inr s \<longleftrightarrow> a + b \<le> max_safe_integer \<and> s = a + b"
  by (auto simp: addSafeIntegers_def)

lemma foldR_addSafe:
  "foldR (\<lambda>total u. addSafeIntegers total (w u) d) a us = Inr s \<Longrightarrow> s = a + sum_list (map w us)"
proof (induction us arbitrary: a)
  case (Cons u us)
  then have "foldR (\<lambda>total u. addSafeIntegers total (w u) d) (a + w u) us = Inr s"
    by (auto simp: bindR_Inr_iff addSafeIntegers_Inr_iff)
  from Cons.IH[OF this] show ?case by simp
qed simp

lemma component_weight_sum:
  "component_weight codes us = Inr w \<Longrightarrow> w = sum_list (map (\<lambda>u. num_int (picByteWeight u)) us)"
  unfolding component_weight_def using foldR_addSafe[of "\<lambda>u. num_int (picByteWeight u)" _ 0 us w] by simp

lemma buildComponent_members:
  assumes "buildComponent sha256 units codes = Inr c"
  obtains us where "list_all2 (\<lambda>code u. map_of units code = Some u) codes us" "us \<noteq> []"
    "\<And>u. u \<in> set us \<Longrightarrow> occurrences u = occurrenceCohortSha256s c"
    "codeIdentitySha256s c = codes"
    "componentShareable c = (\<forall>u \<in> set us. shareable u)"
    "picObjectByteWeight c = sum_list (map (\<lambda>u. num_int (picByteWeight u)) us)"
    "bindingIdentitySha256s c = sort_strings (map bindingIdentitySha256 us)"
    "logicalUnitSha256s c = map logicalUnitSha256 us"
proof -
  from assms obtain us where us: "mapR (get_unit units) codes = Inr us"
    unfolding buildComponent_def by (auto simp: bindR_Inr_iff)
  with assms obtain first rest where fr: "us = first # rest"
    unfolding buildComponent_def by (cases us) (auto simp: bindR_Inr_iff)
  let ?cyclic = "length us > 1 \<or> codeIdentitySha256 first \<in> set (dependencies first)"
  from assms us fr obtain w b m where coherent: "\<not> (?cyclic \<and> (\<exists>u \<in> set us. occurrences u \<noteq> occurrences first))"
    and w: "component_weight codes us = Inr w"
    and c: "c = \<lparr>bindingIdentitySha256s = sort_strings (map bindingIdentitySha256 us),
              codeIdentitySha256s = codes, componentBindingSha256 = b, componentSha256 = m,
              dependencyComponentSha256s = [], logicalUnitSha256s = map logicalUnitSha256 us,
              occurrenceCohortSha256s = occurrences first, picObjectByteWeight = w,
              componentShareable = (\<forall>u \<in> set us. shareable u), sharedCandidate = False, sharedEligible = False\<rparr>"
    unfolding buildComponent_def by (auto simp: bindR_Inr_iff Let_def simp del: planner_failWhen_Inr_iff js_sort.simps)
      (auto simp del: js_sort.simps)
  have occ: "occurrences u = occurrences first" if "u \<in> set us" for u
  proof (cases rest)
    case Nil
    then show ?thesis using that fr by simp
  next
    case (Cons r rs)
    then have "length us > 1" using fr by simp
    then show ?thesis using coherent that by blast
  qed
  show ?thesis
  proof (rule that)
    show "list_all2 (\<lambda>code u. map_of units code = Some u) codes us" using us by (simp only: map_get_unit)
    show "us \<noteq> []" using fr by simp
    show "picObjectByteWeight c = sum_list (map (\<lambda>u. num_int (picByteWeight u)) us)"
      using component_weight_sum[OF w] by (simp add: c)
  qed (simp_all add: c occ del: js_sort.simps)
qed

section \<open>All components\<close>

definition units_closed :: "units \<Rightarrow> bool" where
  "units_closed units \<longleftrightarrow> distinct (map fst units)
     \<and> (\<forall>(code, u) \<in> set units. set (dependencies u) \<subseteq> fst ` set units)"

lemma units_closed_dependencies:
  assumes "units_closed units"
  shows "distinct (map fst units)"
    and "\<forall>x \<in> set (map fst units). set (unit_dependencies units x) \<subseteq> set (map fst units)"
proof -
  show "distinct (map fst units)" using assms by (simp add: units_closed_def)
  show "\<forall>x \<in> set (map fst units). set (unit_dependencies units x) \<subseteq> set (map fst units)"
    using assms unfolding units_closed_def unit_dependencies_def
    by (auto split: option.split dest!: map_of_SomeD)
qed

lemma mset_concat_map_cong:
  assumes "mset xs = mset ys"
  shows "mset (concat (map f xs)) = mset (concat (map f ys))"
proof -
  have "mset (concat (map f zs)) = \<Sum>\<^sub># (image_mset (\<lambda>x. mset (f x)) (mset zs))" for zs
    by (induction zs) auto
  then show ?thesis using assms by simp
qed

lemma map_marked:
  "(\<And>c b. f (c\<lparr>sharedEligible := b\<rparr>) = f c)
    \<Longrightarrow> map f (map (\<lambda>i. (cs ! i)\<lparr>sharedEligible := g i\<rparr>) [0..<length cs]) = map f cs"
  by (rule nth_equalityI) simp_all

lemma list_all2_same: "list_all2 (\<lambda>x y. f x = g y) xs ys \<Longrightarrow> map f xs = map g ys"
  by (induction xs ys rule: list_all2_induct) auto

definition same_component :: "shard_component \<Rightarrow> shard_component \<Rightarrow> bool" where
  "same_component c d \<longleftrightarrow> bindingIdentitySha256s d = bindingIdentitySha256s c
     \<and> codeIdentitySha256s d = codeIdentitySha256s c \<and> componentSha256 d = componentSha256 c
     \<and> logicalUnitSha256s d = logicalUnitSha256s c \<and> occurrenceCohortSha256s d = occurrenceCohortSha256s c
     \<and> picObjectByteWeight d = picObjectByteWeight c \<and> componentShareable d = componentShareable c"

lemma disambiguate_same: "disambiguateBinding sha256 cs c = Inr d \<Longrightarrow> same_component c d"
  by (auto simp: disambiguateBinding_def same_component_def bindR_Inr_iff split: if_splits)

lemma link_same: "linkComponent units policy cs i = Inr d \<Longrightarrow> same_component (cs ! i) d"
  by (auto simp: linkComponent_def same_component_def bindR_Inr_iff Let_def)

lemma buildComponentsOf_stages:
  assumes "buildComponentsOf sha256 units policy codeSets = Inr cs"
  obtains built named linked memo where
    "mapR (buildComponent sha256 units) codeSets = Inr built"
    "list_all2 same_component built named"
    "mapR (linkComponent units policy named) [0..<length named] = Inr linked"
    "list_all2 same_component named linked"
    "resolveAll linked (\<lambda>_. None) [0..<length linked] = Inr memo"
    "cs = js_sort (compareBy componentBindingSha256)
       (map (\<lambda>i. (linked ! i)\<lparr>sharedEligible := (memo i = Some True)\<rparr>) [0..<length linked])"
proof -
  from assms obtain built named linked memo where s: "mapR (buildComponent sha256 units) codeSets = Inr built"
    "mapR (disambiguateBinding sha256 built) built = Inr named"
    "mapR (linkComponent units policy named) [0..<length named] = Inr linked"
    "resolveAll linked (\<lambda>_. None) [0..<length linked] = Inr memo"
    "cs = js_sort (compareBy componentBindingSha256)
       (map (\<lambda>i. (linked ! i)\<lparr>sharedEligible := (memo i = Some True)\<rparr>) [0..<length linked])"
    unfolding buildComponentsOf_def by (auto simp: bindR_Inr_iff simp del: js_sort.simps)
  have "list_all2 same_component built named"
    using s(2) unfolding mapR_Inr_iff by (rule list_all2_mono) (rule disambiguate_same)
  moreover have "list_all2 same_component named linked"
  proof (rule list_all2_all_nthI)
    show len: "length named = length linked" using mapR_length[OF s(3)] by simp
    fix i assume i: "i < length named"
    have "list_all2 (\<lambda>i d. linkComponent units policy named i = Inr d) [0..<length named] linked"
      using s(3) by (simp only: mapR_Inr_iff)
    from list_all2_nthD[OF this, of i] i have "linkComponent units policy named i = Inr (linked ! i)" by simp
    then show "same_component (named ! i) (linked ! i)" by (rule link_same)
  qed
  ultimately show ?thesis using s(1,3-5) by (intro that[of built named linked memo])
qed

section \<open>Owners and edges\<close>

lemma map_of_rev_zip_index:
  assumes "distinct xs"
  shows "map_of (rev (zip xs [0..<length xs])) x = Some i \<longleftrightarrow> i < length xs \<and> xs ! i = x"
proof -
  have "distinct (map fst (rev (zip xs [0..<length xs])))" using assms by (simp add: rev_map[symmetric])
  then have "map_of (rev (zip xs [0..<length xs])) x = Some i \<longleftrightarrow> (x, i) \<in> set (zip xs [0..<length xs])"
    by (simp add: map_of_eq_Some_iff)
  then show ?thesis by (auto simp: in_set_zip)
qed

lemma componentBySha256_iff:
  assumes "distinct (map componentSha256 cs)"
  shows "componentBySha256 cs sha = Some i \<longleftrightarrow> i < length cs \<and> componentSha256 (cs ! i) = sha"
  using map_of_rev_zip_index[OF assms, of sha i] by (auto simp: componentBySha256_def)

lemma componentByCodeIdentity_iff:
  assumes "distinct (concat (map codeIdentitySha256s cs))"
  shows "componentByCodeIdentity cs code = Some i \<longleftrightarrow> i < length cs \<and> code \<in> set (codeIdentitySha256s (cs ! i))"
proof -
  let ?es = "concat (map (\<lambda>(c, i). map (\<lambda>code. (code, i)) (codeIdentitySha256s c)) (zip cs [0..<length cs]))"
  have "map fst ?es = concat (map (\<lambda>p. codeIdentitySha256s (fst p)) (zip cs [0..<length cs]))"
    by (simp add: map_concat case_prod_beta comp_def)
  also have "map (\<lambda>p. codeIdentitySha256s (fst p)) (zip cs [0..<length cs]) = map codeIdentitySha256s cs"
    by (simp add: map_map[symmetric, unfolded comp_def] del: map_map)
  finally have "distinct (map fst (rev ?es))" using assms by (simp add: rev_map[symmetric])
  then have "componentByCodeIdentity cs code = Some i \<longleftrightarrow> (code, i) \<in> set ?es"
    by (simp add: componentByCodeIdentity_def map_of_eq_Some_iff)
  also have "\<dots> \<longleftrightarrow> i < length cs \<and> code \<in> set (codeIdentitySha256s (cs ! i))"
    by (force simp: in_set_zip)
  finally show ?thesis .
qed

lemma dependencyIndexes_set:
  assumes "dependencyIndexes units cs i = Inr ixs"
  shows "j \<in> set ixs \<longleftrightarrow> (\<exists>x \<in> set (codeIdentitySha256s (cs ! i)). \<exists>y \<in> set (unit_dependencies units x).
      componentByCodeIdentity cs y = Some j)"
proof -
  have "list_all2 (\<lambda>y j. componentByCodeIdentity cs y = Some j)
      (concat (map (unit_dependencies units) (codeIdentitySha256s (cs ! i)))) ixs"
    using assms unfolding dependencyIndexes_def mapR_Inr_iff by (rule list_all2_mono) (auto split: option.splits)
  then have "j \<in> set ixs \<longleftrightarrow> (\<exists>y \<in> set (concat (map (unit_dependencies units) (codeIdentitySha256s (cs ! i)))).
      componentByCodeIdentity cs y = Some j)"
    by (induction rule: list_all2_induct) auto
  then show ?thesis by auto
qed

lemma same_component_trans: "same_component c d \<Longrightarrow> same_component d e \<Longrightarrow> same_component c e"
  by (simp add: same_component_def)

lemma same_components_map:
  assumes "list_all2 same_component cs ds"
  shows "map codeIdentitySha256s ds = map codeIdentitySha256s cs" "map componentSha256 ds = map componentSha256 cs"
    "length ds = length cs"
  using assms by (induction rule: list_all2_induct) (auto simp: same_component_def)

lemma linkComponent_Inr:
  assumes "linkComponent units policy cs i = Inr d"
  obtains ixs where "dependencyIndexes units cs i = Inr ixs"
    "dependencyComponentSha256s d =
      sort_strings (js_set (map (\<lambda>j. componentSha256 (cs ! j)) (filter (\<lambda>j. j \<noteq> i) ixs)))"
    "sharedCandidate d \<longleftrightarrow> componentShareable (cs ! i)
       \<and> minimumCohortCount policy \<le> int (length (occurrenceCohortSha256s (cs ! i)))"
proof -
  from assms obtain ixs where "dependencyIndexes units cs i = Inr ixs"
    "d = (cs ! i)\<lparr>dependencyComponentSha256s :=
               sort_strings (js_set (map (\<lambda>j. componentSha256 (cs ! j)) (filter (\<lambda>j. j \<noteq> i) ixs))),
             sharedCandidate := componentShareable (cs ! i)
               \<and> minimumCohortCount policy \<le> int (length (occurrenceCohortSha256s (cs ! i)))\<rparr>"
    by (auto simp: linkComponent_def bindR_Inr_iff Let_def simp del: js_sort.simps)
  then show ?thesis by (intro that[of ixs]) (simp_all del: js_sort.simps)
qed

lemma component_edges_linked:
  assumes link: "mapR (linkComponent units policy named) [0..<length named] = Inr linked"
    and same: "list_all2 same_component named linked"
    and dist: "distinct (concat (map codeIdentitySha256s named))" "distinct (map componentSha256 named)"
  shows "(i, j) \<in> component_edges linked \<longleftrightarrow> i < length linked \<and> j < length linked \<and> i \<noteq> j
     \<and> (\<exists>x \<in> set (codeIdentitySha256s (linked ! i)). \<exists>y \<in> set (unit_dependencies units x).
          y \<in> set (codeIdentitySha256s (linked ! j)))"
proof (cases "i < length linked")
  case True
  note len = same_components_map(3)[OF same]
  have i: "i < length named" using True len by simp
  have code: "codeIdentitySha256s (linked ! k) = codeIdentitySha256s (named ! k)"
    and sha: "componentSha256 (linked ! k) = componentSha256 (named ! k)" if "k < length named" for k
    using list_all2_nthD[OF same that] by (simp_all add: same_component_def)
  have dl: "distinct (map componentSha256 linked)" using dist(2) same_components_map(2)[OF same] by simp
  have "list_all2 (\<lambda>i d. linkComponent units policy named i = Inr d) [0..<length named] linked"
    using link by (simp only: mapR_Inr_iff)
  from list_all2_nthD[OF this, of i] i have "linkComponent units policy named i = Inr (linked ! i)" by simp
  then obtain ixs where ixs: "dependencyIndexes units named i = Inr ixs"
    and deps: "dependencyComponentSha256s (linked ! i) =
      sort_strings (js_set (map (\<lambda>j. componentSha256 (named ! j)) (filter (\<lambda>j. j \<noteq> i) ixs)))"
    by (rule linkComponent_Inr)
  have ix: "k \<in> set ixs \<longleftrightarrow> (\<exists>x \<in> set (codeIdentitySha256s (named ! i)). \<exists>y \<in> set (unit_dependencies units x).
      k < length named \<and> y \<in> set (codeIdentitySha256s (named ! k)))" for k
    unfolding dependencyIndexes_set[OF ixs] componentByCodeIdentity_iff[OF dist(1)] ..
  have bound: "k < length named" if "k \<in> set ixs" for k using ix that by blast
  have inj: "k = l" if "k < length named" "l < length named"
      "componentSha256 (named ! k) = componentSha256 (named ! l)" for k l
    using that dist(2) nth_eq_iff_index_eq[of "map componentSha256 named" k l] by simp
  have "(i, j) \<in> component_edges linked \<longleftrightarrow> j < length named \<and>
      componentSha256 (linked ! j) \<in> set (dependencyComponentSha256s (linked ! i))"
    unfolding component_edges_def componentBySha256_iff[OF dl] using True len by auto
  also have "\<dots> \<longleftrightarrow> j < length named \<and> (\<exists>k \<in> set ixs. k \<noteq> i \<and> componentSha256 (named ! k) = componentSha256 (named ! j))"
    unfolding deps using sha by (auto simp: image_iff simp del: js_sort.simps)
  also have "\<dots> \<longleftrightarrow> j < length named \<and> j \<noteq> i \<and> j \<in> set ixs"
    using inj bound by blast
  also have "\<dots> \<longleftrightarrow> j < length linked \<and> i \<noteq> j \<and> (\<exists>x \<in> set (codeIdentitySha256s (linked ! i)).
      \<exists>y \<in> set (unit_dependencies units x). y \<in> set (codeIdentitySha256s (linked ! j)))"
    unfolding ix using code[OF i] code[of j] len by (cases "j < length named") auto
  finally show ?thesis using True by simp
qed (simp add: component_edges_def)

section \<open>The result\<close>

definition unit_shared :: "units \<Rightarrow> shard_policy \<Rightarrow> string \<Rightarrow> bool" where
  "unit_shared units policy code \<longleftrightarrow> (\<exists>u. map_of units code = Some u \<and> shareable u
     \<and> minimumCohortCount policy \<le> int (length (occurrences u)))"

definition component_describes :: "units \<Rightarrow> shard_component \<Rightarrow> bool" where
  "component_describes units c \<longleftrightarrow> codeIdentitySha256s c \<noteq> []
     \<and> (\<forall>code \<in> set (codeIdentitySha256s c). \<exists>u. map_of units code = Some u \<and> occurrences u = occurrenceCohortSha256s c)
     \<and> componentShareable c = (\<forall>code \<in> set (codeIdentitySha256s c). \<forall>u. map_of units code = Some u \<longrightarrow> shareable u)
     \<and> picObjectByteWeight c = (\<Sum>code \<leftarrow> codeIdentitySha256s c. num_int (picByteWeight (the (map_of units code))))"

lemma buildComponent_describes:
  assumes "buildComponent sha256 units codes = Inr c"
  shows "codeIdentitySha256s c = codes" "component_describes units c"
proof -
  obtain us where us: "list_all2 (\<lambda>code u. map_of units code = Some u) codes us" "us \<noteq> []"
    "\<And>u. u \<in> set us \<Longrightarrow> occurrences u = occurrenceCohortSha256s c" "codeIdentitySha256s c = codes"
    "componentShareable c = (\<forall>u \<in> set us. shareable u)"
    "picObjectByteWeight c = sum_list (map (\<lambda>u. num_int (picByteWeight u)) us)"
    using buildComponent_members[OF assms] by metis
  show "codeIdentitySha256s c = codes" by (rule us(4))
  have a: "\<exists>u \<in> set us. map_of units code = Some u" if "code \<in> set codes" for code
    using us(1) that by (induction rule: list_all2_induct) auto
  have b: "\<exists>code \<in> set codes. map_of units code = Some u" if "u \<in> set us" for u
    using us(1) that by (induction rule: list_all2_induct) auto
  have "codes \<noteq> []" using us(1,2) by auto
  moreover have "map (\<lambda>code. num_int (picByteWeight (the (map_of units code)))) codes
      = map (\<lambda>u. num_int (picByteWeight u)) us"
    using us(1) by (induction rule: list_all2_induct) auto
  moreover have "(\<forall>u \<in> set us. shareable u) = (\<forall>code \<in> set codes. \<forall>u. map_of units code = Some u \<longrightarrow> shareable u)"
    using a b by fastforce
  moreover have "\<forall>code \<in> set codes. \<exists>u. map_of units code = Some u \<and> occurrences u = occurrenceCohortSha256s c"
    using a us(3) by blast
  ultimately show "component_describes units c" using us(4-6) unfolding component_describes_def by simp
qed

lemma describes_same: "component_describes units c \<Longrightarrow> same_component c d \<Longrightarrow> component_describes units d"
  by (simp add: component_describes_def same_component_def)

lemma buildComponentsOf_linked:
  assumes "buildComponentsOf sha256 units policy codeSets = Inr cs"
  obtains linked named memo where
    "map codeIdentitySha256s linked = codeSets" "map codeIdentitySha256s named = codeSets"
    "map componentSha256 named = map componentSha256 linked"
    "\<forall>i < length linked. component_describes units (linked ! i)
        \<and> (sharedCandidate (linked ! i) \<longleftrightarrow> (\<forall>code \<in> set (codeIdentitySha256s (linked ! i)). unit_shared units policy code))"
    "mapR (linkComponent units policy named) [0..<length named] = Inr linked" "list_all2 same_component named linked"
    "resolveAll linked (\<lambda>_. None) [0..<length linked] = Inr memo"
    "cs = js_sort (compareBy componentBindingSha256)
       (map (\<lambda>i. (linked ! i)\<lparr>sharedEligible := (memo i = Some True)\<rparr>) [0..<length linked])"
proof -
  obtain built named linked memo where s: "mapR (buildComponent sha256 units) codeSets = Inr built"
    "list_all2 same_component built named"
    "mapR (linkComponent units policy named) [0..<length named] = Inr linked"
    "list_all2 same_component named linked"
    "resolveAll linked (\<lambda>_. None) [0..<length linked] = Inr memo"
    "cs = js_sort (compareBy componentBindingSha256)
       (map (\<lambda>i. (linked ! i)\<lparr>sharedEligible := (memo i = Some True)\<rparr>) [0..<length linked])"
    by (rule buildComponentsOf_stages[OF assms])
  have built: "list_all2 (\<lambda>codes c. buildComponent sha256 units codes = Inr c) codeSets built"
    using s(1) by (simp only: mapR_Inr_iff)
  have codes: "map codeIdentitySha256s built = codeSets"
    using built by (induction rule: list_all2_induct) (auto dest: buildComponent_describes(1))
  have desc_named: "component_describes units (named ! i)" if "i < length named" for i
  proof -
    have i: "i < length built" "i < length codeSets"
      using that list_all2_lengthD[OF s(2)] list_all2_lengthD[OF built] by auto
    show ?thesis
      using describes_same[OF buildComponent_describes(2)[OF list_all2_nthD[OF built i(2)]] list_all2_nthD[OF s(2) i(1)]] .
  qed
  have len: "length linked = length named" using same_components_map(3)[OF s(4)] .
  have "component_describes units (linked ! i)
        \<and> (sharedCandidate (linked ! i) \<longleftrightarrow> (\<forall>code \<in> set (codeIdentitySha256s (linked ! i)). unit_shared units policy code))"
    if "i < length linked" for i
  proof -
    have i: "i < length named" using that len by simp
    have same: "same_component (named ! i) (linked ! i)" by (rule list_all2_nthD[OF s(4) i])
    have desc: "component_describes units (linked ! i)" by (rule describes_same[OF desc_named[OF i] same])
    have "list_all2 (\<lambda>i d. linkComponent units policy named i = Inr d) [0..<length named] linked"
      using s(3) by (simp only: mapR_Inr_iff)
    from list_all2_nthD[OF this, of i] i have "linkComponent units policy named i = Inr (linked ! i)" by simp
    then have "sharedCandidate (linked ! i) \<longleftrightarrow> componentShareable (linked ! i)
        \<and> minimumCohortCount policy \<le> int (length (occurrenceCohortSha256s (linked ! i)))"
      using same by (auto elim!: linkComponent_Inr simp: same_component_def simp del: js_sort.simps)
    also have "\<dots> \<longleftrightarrow> (\<forall>code \<in> set (codeIdentitySha256s (linked ! i)). unit_shared units policy code)"
      using desc unfolding component_describes_def unit_shared_def
      by (metis list.set_intros(1) neq_Nil_conv option.inject)
    finally show ?thesis using desc by blast
  qed
  then show ?thesis
    using s(3-6) same_components_map[OF s(4)] same_components_map[OF s(2)] codes
    by (intro that[of linked named memo]) (simp_all del: js_sort.simps)
qed

lemma component_path_units:
  assumes E: "\<And>i j. (i, j) \<in> E \<longleftrightarrow> i < n \<and> j < n \<and> i \<noteq> j \<and> (\<exists>x \<in> C i. \<exists>y \<in> set (succs x). y \<in> C j)"
    and scc: "\<And>i. i < n \<Longrightarrow> is_scc succs (C i)"
    and cover: "\<And>i x. i < n \<Longrightarrow> x \<in> C i \<Longrightarrow> \<forall>y \<in> set (succs x). \<exists>j < n. y \<in> C j"
    and i: "i < n"
  shows "(\<Union>j \<in> {j. (i, j) \<in> E\<^sup>*}. C j) = {y. \<exists>x \<in> C i. reaches succs x y}"
proof (intro equalityI subsetI)
  fix y assume "y \<in> {y. \<exists>x \<in> C i. reaches succs x y}"
  then obtain x where x: "x \<in> C i" and xy: "reaches succs x y" by blast
  from xy have "\<exists>j < n. y \<in> C j \<and> (i, j) \<in> E\<^sup>*"
  proof (induction rule: rtrancl_induct)
    case base
    then show ?case using x i by blast
  next
    case (step y z)
    then obtain j where j: "j < n" "y \<in> C j" "(i, j) \<in> E\<^sup>*" by blast
    from step(2) have z: "z \<in> set (succs y)" by (simp add: edges_def)
    then obtain k where k: "k < n" "z \<in> C k" using cover[OF j(1,2)] by blast
    show ?case
    proof (cases "j = k")
      case False
      then have "(j, k) \<in> E" using E j(1,2) k z by blast
      then show ?thesis using j(3) k by (meson rtrancl.rtrancl_into_rtrancl)
    qed (use j k in blast)
  qed
  then show "y \<in> (\<Union>j \<in> {j. (i, j) \<in> E\<^sup>*}. C j)" by blast
next
  fix y assume "y \<in> (\<Union>j \<in> {j. (i, j) \<in> E\<^sup>*}. C j)"
  then obtain j where ij: "(i, j) \<in> E\<^sup>*" and y: "y \<in> C j" by blast
  have within: "reaches succs a b" if "k < n" "a \<in> C k" "b \<in> C k" for k a b
    using scc[OF that(1)] that(2,3) unfolding is_scc_def by blast
  obtain x where x: "x \<in> C i" using scc[OF i] unfolding is_scc_def by blast
  from ij have "j < n \<and> (\<forall>y \<in> C j. reaches succs x y)"
  proof (induction rule: rtrancl_induct)
    case base
    then show ?case using x i within by blast
  next
    case (step j k)
    from step(2) obtain a b where ab: "a \<in> C j" "b \<in> set (succs a)" "b \<in> C k" "k < n" unfolding E by blast
    have "reaches succs x b"
      using step(3) ab(1,2) by (auto simp: edges_def intro: rtrancl.rtrancl_into_rtrancl)
    then show ?case using within[OF ab(4,3)] ab(4) by (blast intro: rtrancl_trans)
  qed
  then show "y \<in> {y. \<exists>x \<in> C i. reaches succs x y}" using x y by blast
qed

lemma buildComponents_codeSets:
  assumes "units_closed units" and "buildComponents sha256 units policy = Some r"
  obtains codeSets where "r = buildComponentsOf sha256 units policy codeSets"
    "mset (concat codeSets) = mset (map fst units)"
    "\<forall>C \<in> set codeSets. is_scc (unit_dependencies units) (set C) \<and> sorted C"
    "closed_from (unit_dependencies units) {} codeSets"
proof -
  obtain cs0 where "stronglyConnectedComponents (unit_dependencies units) (map fst units) = Some cs0"
    "mset (concat cs0) = mset (map fst units)"
    "\<forall>C \<in> set cs0. is_scc (unit_dependencies units) (set C) \<and> sorted C"
    "closed_from (unit_dependencies units) {} cs0"
    using stronglyConnectedComponents_lemma[OF units_closed_dependencies[OF assms(1)]] by blast
  then show ?thesis using assms(2) by (intro that[of cs0]) (auto simp: buildComponents_def)
qed

lemma buildComponents_partition_lemma:
  assumes "units_closed units" and "buildComponents sha256 units policy = Some (Inr cs)"
  shows "mset (concat (map codeIdentitySha256s cs)) = mset (map fst units)
    \<and> (\<forall>c \<in> set cs. is_scc (unit_dependencies units) (set (codeIdentitySha256s c)) \<and> component_describes units c)
    \<and> sorted (map componentBindingSha256 cs)"
proof -
  obtain codeSets where cs: "Inr cs = buildComponentsOf sha256 units policy codeSets"
    and part: "mset (concat codeSets) = mset (map fst units)"
    and scc: "\<forall>C \<in> set codeSets. is_scc (unit_dependencies units) (set C) \<and> sorted C"
    by (rule buildComponents_codeSets[OF assms])
  obtain linked named memo where "map codeIdentitySha256s linked = codeSets"
    "\<forall>i < length linked. component_describes units (linked ! i)
        \<and> (sharedCandidate (linked ! i) \<longleftrightarrow> (\<forall>code \<in> set (codeIdentitySha256s (linked ! i)). unit_shared units policy code))"
    "cs = js_sort (compareBy componentBindingSha256)
       (map (\<lambda>i. (linked ! i)\<lparr>sharedEligible := (memo i = Some True)\<rparr>) [0..<length linked])"
    by (rule buildComponentsOf_linked[OF cs[symmetric]]) rule
  then have L: "map codeIdentitySha256s linked = codeSets"
    "\<forall>i < length linked. component_describes units (linked ! i)"
    "cs = js_sort (compareBy componentBindingSha256)
       (map (\<lambda>i. (linked ! i)\<lparr>sharedEligible := (memo i = Some True)\<rparr>) [0..<length linked])"
    by blast+
  let ?us = "map (\<lambda>i. (linked ! i)\<lparr>sharedEligible := (memo i = Some True)\<rparr>) [0..<length linked]"
  have codes: "map codeIdentitySha256s ?us = codeSets"
    using L(1) by (subst map_marked) simp_all
  have "mset (concat (map codeIdentitySha256s cs)) = mset (concat (map codeIdentitySha256s ?us))"
    by (rule mset_concat_map_cong) (simp add: L(3))
  then have "mset (concat (map codeIdentitySha256s cs)) = mset (map fst units)" using codes part by simp
  moreover have "is_scc (unit_dependencies units) (set (codeIdentitySha256s c))" if "c \<in> set cs" for c
  proof -
    have "codeIdentitySha256s c \<in> set (map codeIdentitySha256s ?us)" using that unfolding L(3) by auto
    then show ?thesis using scc unfolding codes by blast
  qed
  moreover have "component_describes units c" if "c \<in> set cs" for c
    using that L(2) unfolding L(3) by (auto simp: component_describes_def)
  moreover have "sorted (map componentBindingSha256 cs)"
    unfolding L(3) js_sort_map by (rule sorted_sort_strings)
  ultimately show ?thesis by blast
qed

text \<open>What \<open>buildComponents\<close> returns is a partition of the logical units into the strongly connected
  components of their dependency graph, in the order of the component bindings; every unit of a
  component occurs in exactly the cohorts recorded for the component, and the recorded weight is the
  sum of the weights of its PIC objects.\<close>

lemma buildComponents_partition:
  assumes "units_closed units" and "buildComponents sha256 units policy = Some (Inr cs)"
  shows "mset (concat (map codeIdentitySha256s cs)) = mset (map fst units)
    \<and> (\<forall>c \<in> set cs. is_scc (unit_dependencies units) (set (codeIdentitySha256s c)) \<and> component_describes units c)
    \<and> sorted (map componentBindingSha256 cs)"
  by (rule buildComponents_partition_lemma[OF assms])

text \<open>A component is placed in a shared shard exactly when every logical unit that it needs, at any
  depth, is shareable and occurs in at least the policy's minimum number of cohorts (provided the
  material identities of the components do not collide).\<close>

lemma buildComponents_eligible:
  assumes "units_closed units" and "buildComponents sha256 units policy = Some (Inr cs)"
    and "distinct (map componentSha256 cs)" and "c \<in> set cs"
  shows "sharedEligible c \<longleftrightarrow> (\<forall>x \<in> set (codeIdentitySha256s c). \<forall>y.
    reaches (unit_dependencies units) x y \<longrightarrow> unit_shared units policy y)"
proof -
  let ?S = "unit_dependencies units"
  obtain codeSets where cs: "Inr cs = buildComponentsOf sha256 units policy codeSets"
    and part: "mset (concat codeSets) = mset (map fst units)"
    and scc: "\<forall>C \<in> set codeSets. is_scc ?S (set C) \<and> sorted C"
    by (rule buildComponents_codeSets[OF assms(1,2)])
  obtain linked named memo where L: "map codeIdentitySha256s linked = codeSets" "map codeIdentitySha256s named = codeSets"
    "map componentSha256 named = map componentSha256 linked"
    "\<forall>i < length linked. component_describes units (linked ! i)
        \<and> (sharedCandidate (linked ! i) \<longleftrightarrow> (\<forall>code \<in> set (codeIdentitySha256s (linked ! i)). unit_shared units policy code))"
    "mapR (linkComponent units policy named) [0..<length named] = Inr linked" "list_all2 same_component named linked"
    "resolveAll linked (\<lambda>_. None) [0..<length linked] = Inr memo"
    "cs = js_sort (compareBy componentBindingSha256)
       (map (\<lambda>i. (linked ! i)\<lparr>sharedEligible := (memo i = Some True)\<rparr>) [0..<length linked])"
    by (rule buildComponentsOf_linked[OF cs[symmetric]])
  obtain i where i: "i < length linked" "codeIdentitySha256s c = codeIdentitySha256s (linked ! i)"
      "sharedEligible c \<longleftrightarrow> memo i = Some True"
    using assms(4) unfolding L(8) by auto
  have dsha: "distinct (map componentSha256 named)"
  proof -
    have "mset (map componentSha256 cs) = mset (map componentSha256 linked)"
      unfolding L(8) mset_map mset_js_sort unfolding mset_map[symmetric]
      by (subst map_marked) simp_all
    then show ?thesis using assms(3) L(3) by (metis mset_eq_imp_distinct_iff)
  qed
  have dist: "distinct (concat (map codeIdentitySha256s named))"
    using part units_closed_dependencies(1)[OF assms(1)] L(2) by (metis mset_eq_imp_distinct_iff)
  note E = component_edges_linked[OF L(5,6) dist dsha]
  let ?C = "\<lambda>j. set (codeIdentitySha256s (linked ! j))"
  have sets: "codeIdentitySha256s (linked ! j) \<in> set codeSets" if "j < length linked" for j
    using that L(1) by (metis length_map nth_map nth_mem)
  have cover: "\<forall>y \<in> set (?S x). \<exists>k < length linked. y \<in> ?C k" if "j < length linked" "x \<in> ?C j" for j x
  proof
    fix y assume y: "y \<in> set (?S x)"
    have keys: "set (concat codeSets) = fst ` set units" using part by (metis list.set_map mset_eq_setD)
    then have "x \<in> fst ` set units" using sets[OF that(1)] that(2) by auto
    then have "y \<in> set (concat codeSets)" using y units_closed_dependencies(2)[OF assms(1)] keys by auto
    then show "\<exists>k < length linked. y \<in> ?C k" unfolding L(1)[symmetric] by (auto simp: set_conv_nth[of linked])
  qed
  have reach: "(\<Union>j \<in> {j. (i, j) \<in> (component_edges linked)\<^sup>*}. ?C j) = {y. \<exists>x \<in> ?C i. reaches ?S x y}"
    by (rule component_path_units[OF E _ cover i(1)]) (use scc sets in blast)+
  have bound: "j < length linked" if "(i, j) \<in> (component_edges linked)\<^sup>*" for j
    using that i(1) by (induction rule: rtrancl_induct) (auto simp: E)
  have "sharedEligible c \<longleftrightarrow> (\<forall>j. (i, j) \<in> (component_edges linked)\<^sup>* \<longrightarrow> sharedCandidate (linked ! j))"
    unfolding i(3) by (rule resolveAll_spec[OF L(7) i(1)])
  also have "\<dots> \<longleftrightarrow> (\<forall>j. (i, j) \<in> (component_edges linked)\<^sup>* \<longrightarrow> (\<forall>y \<in> ?C j. unit_shared units policy y))"
    using L(4) bound by blast
  also have "\<dots> \<longleftrightarrow> (\<forall>y \<in> (\<Union>j \<in> {j. (i, j) \<in> (component_edges linked)\<^sup>*}. ?C j). unit_shared units policy y)"
    by blast
  also have "\<dots> \<longleftrightarrow> (\<forall>x \<in> ?C i. \<forall>y. reaches ?S x y \<longrightarrow> unit_shared units policy y)"
    unfolding reach by blast
  finally show ?thesis unfolding i(2) .
qed

end
