(* ===== verification/ShardQuotient.thy ===== *)
theory ShardQuotient
  imports ShardBuild
begin

text \<open>
  The quotient graph of \<open>convex-wasm-physical-shard-planner.mjs\<close>: bins of components that may be
  contracted as long as the graph between them stays acyclic.

  The bin objects that the code links and mutates are the entries of a store; a reference to a bin is
  its index. \<open>Set\<close>s are duplicate-free lists in insertion order.
\<close>

section \<open>State and operations\<close>

record quotient_bin =
  memberShas :: "string list"
  binDependencies :: "nat list"
  binDependents :: "nat list"

record shard_quotient =
  quotientBins :: "quotient_bin list"
  activeBins :: "nat list"
  binByComponentSha256 :: "string \<Rightarrow> nat option"

definition empty_bin :: quotient_bin where
  "empty_bin = \<lparr>memberShas = [], binDependencies = [], binDependents = []\<rparr>"

definition bin_at :: "shard_quotient \<Rightarrow> nat \<Rightarrow> quotient_bin" where
  "bin_at q b = (if b < length (quotientBins q) then quotientBins q ! b else empty_bin)"

definition modify_bin :: "nat \<Rightarrow> (quotient_bin \<Rightarrow> quotient_bin) \<Rightarrow> shard_quotient \<Rightarrow> shard_quotient" where
  "modify_bin b f q = q\<lparr>quotientBins := (quotientBins q)[b := f (quotientBins q ! b)]\<rparr>"

definition add_dependency :: "nat \<Rightarrow> nat \<Rightarrow> shard_quotient \<Rightarrow> shard_quotient" where
  "add_dependency b d = modify_bin b (\<lambda>bin. bin\<lparr>binDependencies := js_set_add (binDependencies bin) d\<rparr>)"

definition add_dependent :: "nat \<Rightarrow> nat \<Rightarrow> shard_quotient \<Rightarrow> shard_quotient" where
  "add_dependent b d = modify_bin b (\<lambda>bin. bin\<lparr>binDependents := js_set_add (binDependents bin) d\<rparr>)"

definition delete_dependency :: "nat \<Rightarrow> nat \<Rightarrow> shard_quotient \<Rightarrow> shard_quotient" where
  "delete_dependency b d = modify_bin b (\<lambda>bin. bin\<lparr>binDependencies := removeAll d (binDependencies bin)\<rparr>)"

definition delete_dependent :: "nat \<Rightarrow> nat \<Rightarrow> shard_quotient \<Rightarrow> shard_quotient" where
  "delete_dependent b d = modify_bin b (\<lambda>bin. bin\<lparr>binDependents := removeAll d (binDependents bin)\<rparr>)"

definition empty_quotient :: shard_quotient where
  "empty_quotient = \<lparr>quotientBins = [], activeBins = [], binByComponentSha256 = (\<lambda>_. None)\<rparr>"

definition add_component_bin :: "shard_quotient \<Rightarrow> shard_component \<Rightarrow> shard_quotient res" where
  "add_component_bin q c =
     bindR (planner_failWhen (binByComponentSha256 q (componentSha256 c) \<noteq> None)
       ''physical shard grouping repeats a component'') (\<lambda>_.
     (let b = length (quotientBins q) in
      Inr (q\<lparr>quotientBins := quotientBins q @ [empty_bin\<lparr>memberShas := [componentSha256 c]\<rparr>],
             activeBins := activeBins q @ [b],
             binByComponentSha256 := (binByComponentSha256 q)(componentSha256 c := Some b)\<rparr>)))"

definition link_component_bin :: "shard_quotient \<Rightarrow> shard_component \<Rightarrow> shard_quotient res" where
  "link_component_bin q c =
     (case binByComponentSha256 q (componentSha256 c) of None \<Rightarrow> undefined_property | Some b \<Rightarrow>
      foldR (\<lambda>q' sha. case binByComponentSha256 q' sha of
          None \<Rightarrow> planner_fail ''physical shard grouping omits a component''
        | Some d \<Rightarrow> if b = d then Inr q' else Inr (add_dependent d b (add_dependency b d q')))
        q (dependencyComponentSha256s c))"

definition createPhysicalShardQuotient :: "shard_component list \<Rightarrow> shard_quotient res" where
  "createPhysicalShardQuotient components =
     bindR (foldR add_component_bin empty_quotient components) (\<lambda>q.
     foldR link_component_bin q components)"

definition quotientBinForComponent :: "shard_quotient \<Rightarrow> string \<Rightarrow> nat res" where
  "quotientBinForComponent q sha =
     (case binByComponentSha256 q sha of
        None \<Rightarrow> planner_fail ''physical shard grouping omits a component''
      | Some b \<Rightarrow> (if b \<notin> set (activeBins q) then planner_fail ''physical shard grouping uses an inactive quotient bin''
                  else Inr b))"

definition unvisited_bins :: "shard_quotient \<Rightarrow> nat list \<Rightarrow> nat" where
  "unvisited_bins q visited = card ({..<length (quotientBins q)} - set visited)"

lemma unvisited_bins_Cons:
  assumes "b \<notin> set visited"
  shows "unvisited_bins q (b # visited) < unvisited_bins q visited
    \<or> unvisited_bins q (b # visited) = unvisited_bins q visited \<and> binDependencies (bin_at q b) = []"
proof (cases "b < length (quotientBins q)")
  case True
  then have "b \<in> {..<length (quotientBins q)} - set visited" using assms by simp
  moreover have "{..<length (quotientBins q)} - set (b # visited) = {..<length (quotientBins q)} - set visited - {b}" by auto
  ultimately show ?thesis unfolding unvisited_bins_def by (metis card_Diff1_less finite_Diff finite_lessThan)
next
  case False
  then have "{..<length (quotientBins q)} - set (b # visited) = {..<length (quotientBins q)} - set visited" by auto
  then show ?thesis using False by (simp add: unvisited_bins_def bin_at_def empty_bin_def)
qed

text \<open>The worklist of \<open>quotientHasIndirectPath\<close>; the head of \<open>pending\<close> is the end of the array.\<close>

function indirect_search :: "shard_quotient \<Rightarrow> nat \<Rightarrow> nat list \<Rightarrow> nat list \<Rightarrow> bool" where
  "indirect_search q to visited [] = False"
| "indirect_search q to visited (b # pending) =
     (if b = to then True
      else if b \<in> set visited then indirect_search q to visited pending
      else indirect_search q to (b # visited)
             (rev (filter (\<lambda>d. d \<notin> set (b # visited)) (binDependencies (bin_at q b))) @ pending))"
  by pat_completeness auto

termination
  by (relation "measures [\<lambda>(q, _, visited, _). unvisited_bins q visited, \<lambda>(_, _, _, pending). length pending]")
     (auto dest!: unvisited_bins_Cons)

definition quotientHasIndirectPath :: "shard_quotient \<Rightarrow> nat \<Rightarrow> nat \<Rightarrow> bool" where
  "quotientHasIndirectPath q from_bin to_bin =
     indirect_search q to_bin [from_bin] (rev (filter (\<lambda>d. d \<noteq> to_bin) (binDependencies (bin_at q from_bin))))"

definition quotientCanMerge :: "shard_quotient \<Rightarrow> nat \<Rightarrow> nat \<Rightarrow> bool res" where
  "quotientCanMerge q target source =
     bindR (planner_failWhen (target \<notin> set (activeBins q) \<or> source \<notin> set (activeBins q))
       ''physical shard grouping uses an inactive quotient bin'') (\<lambda>_.
     bindR (planner_failWhen (target = source) ''physical shard grouping repeats a component'') (\<lambda>_.
     Inr (\<not> quotientHasIndirectPath q target source \<and> \<not> quotientHasIndirectPath q source target)))"

definition merge_dependency :: "nat \<Rightarrow> nat \<Rightarrow> shard_quotient \<Rightarrow> nat \<Rightarrow> shard_quotient" where
  "merge_dependency target source q d =
     (let q' = delete_dependent d source q
      in if d = target then q' else add_dependent d target (add_dependency target d q'))"

definition merge_dependent :: "nat \<Rightarrow> nat \<Rightarrow> shard_quotient \<Rightarrow> nat \<Rightarrow> shard_quotient" where
  "merge_dependent target source q d =
     (let q' = delete_dependency d source q
      in if d = target then q' else add_dependency d target (add_dependent target d q'))"

definition merge_member :: "nat \<Rightarrow> shard_quotient \<Rightarrow> string \<Rightarrow> shard_quotient" where
  "merge_member target q sha =
     (modify_bin target (\<lambda>bin. bin\<lparr>memberShas := js_set_add (memberShas bin) sha\<rparr>) q)
       \<lparr>binByComponentSha256 := (binByComponentSha256 q)(sha := Some target)\<rparr>"

definition contract_bins :: "nat \<Rightarrow> nat \<Rightarrow> shard_quotient \<Rightarrow> shard_quotient" where
  "contract_bins target source q =
     (let q1 = foldl (merge_dependency target source) q (binDependencies (bin_at q source));
          q2 = foldl (merge_dependent target source) q1 (binDependents (bin_at q1 source));
          q3 = delete_dependent target source (delete_dependency target source q2);
          q4 = foldl (merge_member target) q3 (memberShas (bin_at q3 source));
          q5 = modify_bin source (\<lambda>_. empty_bin) q4
      in q5\<lparr>activeBins := removeAll source (activeBins q5)\<rparr>)"

definition mergeQuotientBins :: "shard_quotient \<Rightarrow> nat \<Rightarrow> nat \<Rightarrow> (bool \<times> shard_quotient) res" where
  "mergeQuotientBins q target source =
     bindR (quotientCanMerge q target source) (\<lambda>can.
     Inr (if can then (True, contract_bins target source q) else (False, q)))"

section \<open>Contraction keeps a graph acyclic\<close>

definition contract :: "nat \<Rightarrow> nat \<Rightarrow> (nat \<times> nat) set \<Rightarrow> (nat \<times> nat) set" where
  "contract t s E = {(r i, r j) | i j r. r = (\<lambda>x. if x = s then t else x) \<and> (i, j) \<in> E \<and> r i \<noteq> r j}"

definition merged :: "nat \<Rightarrow> nat \<Rightarrow> nat \<Rightarrow> nat" where
  "merged t s x = (if x = s then t else x)"

lemma contract_iff:
  "(a, b) \<in> contract t s E \<longleftrightarrow> a \<noteq> b \<and> (\<exists>i j. (i, j) \<in> E \<and> a = merged t s i \<and> b = merged t s j)"
  by (auto simp: contract_def merged_def)

definition indirect :: "(nat \<times> nat) set \<Rightarrow> nat \<Rightarrow> nat \<Rightarrow> bool" where
  "indirect E a b \<longleftrightarrow> (\<exists>d. (a, d) \<in> E \<and> d \<noteq> b \<and> (d, b) \<in> E\<^sup>*)"

lemma contract_from_target:
  assumes acyc: "acyclic E" and ts: "\<not> indirect E t s" "\<not> indirect E s t"
    and "(t, y) \<in> (contract t s E)\<^sup>+"
  shows "y \<noteq> t \<and> y \<noteq> s \<and> (\<exists>a d. a \<in> {t, s} \<and> (a, d) \<in> E \<and> d \<notin> {t, s} \<and> (d, y) \<in> E\<^sup>*)"
  using assms(4)
proof (induction rule: trancl_induct)
  case (base y)
  then obtain i j where "(i, j) \<in> E" "i \<in> {t, s}" "y = (if j = s then t else j)" "y \<noteq> t"
    by (auto simp: contract_def split: if_splits)
  then show ?case by (auto split: if_splits)
next
  case (step y z)
  then obtain a d where a: "a \<in> {t, s}" "(a, d) \<in> E" "d \<notin> {t, s}" "(d, y) \<in> E\<^sup>*" and y: "y \<noteq> t" "y \<noteq> s" by blast
  from step(2) y obtain j where j: "(y, j) \<in> E" "z = (if j = s then t else j)"
    by (auto simp: contract_def split: if_splits)
  have dj: "(d, j) \<in> E\<^sup>*" using a(4) j(1) by (rule rtrancl_into_rtrancl)
  have "j \<notin> {t, s}"
  proof
    assume jts: "j \<in> {t, s}"
    show False
    proof (cases "j = a")
      case True
      then have "(a, a) \<in> E\<^sup>+" using a(2) dj by (meson rtrancl_into_trancl2)
      then show False using acyc by (auto simp: acyclic_def)
    next
      case False
      then have "indirect E a j" using a(2,3) jts dj by (auto simp: indirect_def)
      then show False using ts a(1) jts False by auto
    qed
  qed
  then show ?case using j(2) a dj by auto
qed

lemma contract_path:
  "(x, y) \<in> (contract t s E)\<^sup>+ \<Longrightarrow>
     (x, y) \<in> E\<^sup>+ \<or> ((x, t) \<in> (contract t s E)\<^sup>* \<and> (t, y) \<in> (contract t s E)\<^sup>*)"
proof (induction rule: trancl_induct)
  case (base y)
  then have "(x, y) \<in> E \<or> x = t \<or> y = t" by (auto simp: contract_def split: if_splits)
  then show ?case using base by auto
next
  case (step y z)
  have "(y, z) \<in> E \<or> y = t \<or> z = t" using step(2) by (auto simp: contract_def split: if_splits)
  then show ?case using step by (metis rtrancl.simps trancl.trancl_into_trancl trancl_into_rtrancl)
qed

lemma acyclic_contract:
  assumes "acyclic E" and "\<not> indirect E t s" "\<not> indirect E s t"
  shows "acyclic (contract t s E)"
proof -
  let ?C = "contract t s E"
  have no_t: "(t, t) \<notin> ?C\<^sup>+" using contract_from_target[OF assms, of t] by blast
  have "(x, x) \<notin> ?C\<^sup>+" for x
  proof
    assume x: "(x, x) \<in> ?C\<^sup>+"
    then have "(x, t) \<in> ?C\<^sup>*" "(t, x) \<in> ?C\<^sup>*"
      using contract_path[OF x] assms(1) by (auto simp: acyclic_def)
    then have "(t, t) \<in> ?C\<^sup>+" using x by (meson rtrancl_trancl_trancl trancl_rtrancl_trancl)
    then show False using no_t by contradiction
  qed
  then show ?thesis by (simp add: acyclic_def)
qed

text \<open>Conversely an indirect path becomes a cycle, so the test refuses only what it must.\<close>

lemma contract_rtrancl:
  assumes "(x, y) \<in> E\<^sup>*"
  shows "(merged t s x, merged t s y) \<in> (contract t s E)\<^sup>*"
  using assms
proof (induction rule: rtrancl_induct)
  case (step y z)
  have "merged t s y = merged t s z \<or> (merged t s y, merged t s z) \<in> contract t s E"
    using step(2) unfolding contract_iff by blast
  then show ?case using step(3) by (metis rtrancl.rtrancl_into_rtrancl)
qed simp

lemma cyclic_contract:
  assumes acyc: "acyclic E" and ts: "t \<noteq> s" and ind: "indirect E t s \<or> indirect E s t"
  shows "\<not> acyclic (contract t s E)"
proof -
  obtain a b d where ab: "a = t \<and> b = s \<or> a = s \<and> b = t" "(a, d) \<in> E" "d \<noteq> b" "(d, b) \<in> E\<^sup>*"
    using ind unfolding indirect_def by metis
  have "d \<noteq> a" using ab(2) acyc by (auto simp: acyclic_def)
  then have d: "d \<noteq> t" "d \<noteq> s" using ab(1,3) by auto
  have ra: "merged t s a = t" and rb: "merged t s b = t" and rd: "merged t s d = d"
    using ab(1) d by (auto simp: merged_def)
  have "(t, d) \<in> contract t s E" unfolding contract_iff using ab(2) ra rd d by metis
  moreover have "(d, t) \<in> (contract t s E)\<^sup>*" using contract_rtrancl[OF ab(4), of t s] unfolding rb rd .
  ultimately have "(t, t) \<in> (contract t s E)\<^sup>+" by (rule rtrancl_into_trancl2)
  then show ?thesis by (auto simp: acyclic_def)
qed

section \<open>The search for an indirect path\<close>

definition quotient_edges :: "shard_quotient \<Rightarrow> (nat \<times> nat) set" where
  "quotient_edges q = {(i, j). j \<in> set (binDependencies (bin_at q i))}"

lemma indirect_search_sound:
  "indirect_search q to visited pending \<Longrightarrow> \<exists>p \<in> set pending. (p, to) \<in> (quotient_edges q)\<^sup>*"
proof (induction q to visited pending rule: indirect_search.induct)
  case (2 q to visited b pending)
  show ?case
  proof (cases "b = to \<or> b \<in> set visited")
    case False
    then obtain p where p: "p \<in> set (binDependencies (bin_at q b)) \<or> p \<in> set pending" "(p, to) \<in> (quotient_edges q)\<^sup>*"
      using 2 by auto
    then show ?thesis
      by (auto simp: quotient_edges_def intro: converse_rtrancl_into_rtrancl)
  qed (use 2 in auto)
qed simp

lemma indirect_search_complete:
  "\<lbrakk>\<not> indirect_search q to visited pending; to \<notin> set visited;
    \<forall>v \<in> set visited - X. set (binDependencies (bin_at q v)) \<subseteq> set visited \<union> set pending\<rbrakk>
    \<Longrightarrow> \<exists>W. set visited \<union> set pending \<subseteq> W \<and> to \<notin> W \<and> (\<forall>v \<in> W - X. set (binDependencies (bin_at q v)) \<subseteq> W)"
proof (induction q to visited pending rule: indirect_search.induct)
  case (1 q to visited)
  then show ?case by (intro exI[of _ "set visited"]) auto
next
  case (2 q to visited b pending)
  have b: "b \<noteq> to" using "2.prems"(1) by (auto split: if_splits)
  show ?case
  proof (cases "b \<in> set visited")
    case True
    have "\<forall>v \<in> set visited - X. set (binDependencies (bin_at q v)) \<subseteq> set visited \<union> set pending"
      using "2.prems"(3) True by auto
    then have "\<exists>W. set visited \<union> set pending \<subseteq> W \<and> to \<notin> W \<and> (\<forall>v \<in> W - X. set (binDependencies (bin_at q v)) \<subseteq> W)"
      using "2.IH"(1)[OF b True] "2.prems"(1,2) b True by simp
    moreover have "set visited \<union> set (b # pending) = set visited \<union> set pending" using True by auto
    ultimately show ?thesis by (simp only:)
  next
    case False
    let ?p = "rev (filter (\<lambda>d. d \<notin> set (b # visited)) (binDependencies (bin_at q b))) @ pending"
    have "\<forall>v \<in> set (b # visited) - X. set (binDependencies (bin_at q v)) \<subseteq> set (b # visited) \<union> set ?p"
      using "2.prems"(3) by auto
    then have "\<exists>W. set (b # visited) \<union> set ?p \<subseteq> W \<and> to \<notin> W \<and> (\<forall>v \<in> W - X. set (binDependencies (bin_at q v)) \<subseteq> W)"
      using "2.IH"(2)[OF b False] "2.prems"(1,2) b False by simp
    then obtain W where W: "set (b # visited) \<union> set ?p \<subseteq> W" "to \<notin> W" "\<forall>v \<in> W - X. set (binDependencies (bin_at q v)) \<subseteq> W"
      by blast
    have "set visited \<union> set (b # pending) \<subseteq> W" using W(1) by auto
    then show ?thesis using W(2,3) by blast
  qed
qed

lemma hasIndirectPath_iff:
  assumes acyc: "acyclic (quotient_edges q)" and ab: "a \<noteq> b"
  shows "quotientHasIndirectPath q a b \<longleftrightarrow> indirect (quotient_edges q) a b"
proof
  assume "quotientHasIndirectPath q a b"
  then show "indirect (quotient_edges q) a b"
    unfolding quotientHasIndirectPath_def
    by (auto dest!: indirect_search_sound simp: indirect_def quotient_edges_def)
next
  assume "indirect (quotient_edges q) a b"
  then obtain d where d: "(a, d) \<in> quotient_edges q" "d \<noteq> b" "(d, b) \<in> (quotient_edges q)\<^sup>*" by (auto simp: indirect_def)
  let ?p = "rev (filter (\<lambda>d. d \<noteq> b) (binDependencies (bin_at q a)))"
  show "quotientHasIndirectPath q a b"
  proof (rule ccontr)
    assume "\<not> quotientHasIndirectPath q a b"
    then have "\<not> indirect_search q b [a] ?p" by (simp add: quotientHasIndirectPath_def)
    then obtain W where W: "set [a] \<union> set ?p \<subseteq> W" "b \<notin> W" "\<forall>v \<in> W - {a}. set (binDependencies (bin_at q v)) \<subseteq> W"
      using indirect_search_complete[of q b "[a]" ?p "{a}"] ab by auto
    have "d \<in> W" using d(1,2) W(1) by (auto simp: quotient_edges_def)
    have "x \<in> W \<and> x \<noteq> a" if "(d, x) \<in> (quotient_edges q)\<^sup>*" for x
      using that
    proof (induction rule: rtrancl_induct)
      case base
      have "d \<noteq> a" using d(1) acyc by (auto simp: acyclic_def)
      then show ?case using \<open>d \<in> W\<close> by simp
    next
      case (step x y)
      then have "y \<in> W" using W(3) by (auto simp: quotient_edges_def)
      moreover have "y \<noteq> a"
      proof
        assume "y = a"
        then have "(a, a) \<in> (quotient_edges q)\<^sup>+" using d(1) step(1,2) by (meson rtrancl_into_trancl1 rtrancl_into_trancl2 trancl_rtrancl_trancl trancl_into_rtrancl)
        then show False using acyc by (auto simp: acyclic_def)
      qed
      ultimately show ?case by simp
    qed
    then show False using d(3) W(2) by blast
  qed
qed

end
