(* ===== verification/ShardContract.thy ===== *)
theory ShardContract
  imports ShardQuotient
begin

text \<open>
  \<open>mergeQuotientBins\<close> implements graph contraction: the invariant of the quotient, the effect of the
  pointer updates on the edges, and that the quotient stays acyclic.
\<close>

section \<open>What the updates do to the store\<close>

abbreviation deps :: "shard_quotient \<Rightarrow> nat \<Rightarrow> nat set" where
  "deps q i \<equiv> set (binDependencies (bin_at q i))"

abbreviation rdeps :: "shard_quotient \<Rightarrow> nat \<Rightarrow> nat set" where
  "rdeps q i \<equiv> set (binDependents (bin_at q i))"

abbreviation members :: "shard_quotient \<Rightarrow> nat \<Rightarrow> string list" where
  "members q i \<equiv> memberShas (bin_at q i)"

abbreviation bins_count :: "shard_quotient \<Rightarrow> nat" where
  "bins_count q \<equiv> length (quotientBins q)"

lemma modify_bin_simps [simp]:
  "bins_count (modify_bin b f q) = bins_count q" "activeBins (modify_bin b f q) = activeBins q"
  "binByComponentSha256 (modify_bin b f q) = binByComponentSha256 q"
  "bin_at (modify_bin b f q) i = (if i = b \<and> b < bins_count q then f (bin_at q b) else bin_at q i)"
  by (auto simp: modify_bin_def bin_at_def)

lemma bin_at_updates [simp]:
  "bin_at (q\<lparr>binByComponentSha256 := m\<rparr>) i = bin_at q i" "bin_at (q\<lparr>activeBins := as\<rparr>) i = bin_at q i"
  by (simp_all add: bin_at_def)

lemma bin_at_out: "\<not> i < bins_count q \<Longrightarrow> bin_at q i = empty_bin"
  by (simp add: bin_at_def)

lemma empty_bin_simps [simp]: "memberShas empty_bin = []" "binDependencies empty_bin = []" "binDependents empty_bin = []"
  by (simp_all add: empty_bin_def)

lemmas edge_ops = add_dependency_def add_dependent_def delete_dependency_def delete_dependent_def

lemma set_js_set_add [simp]: "set (js_set_add xs x) = insert x (set xs)"
  by auto

declare js_set_add.simps [simp del]

lemma merge_dependencies:
  assumes "t < bins_count q" "t \<noteq> s"
  shows "set ds \<subseteq> {..<bins_count q} \<Longrightarrow>
    (let q' = foldl (merge_dependency t s) q ds in
      bins_count q' = bins_count q \<and> activeBins q' = activeBins q \<and> binByComponentSha256 q' = binByComponentSha256 q
      \<and> (\<forall>i. members q' i = members q i)
      \<and> (\<forall>i. deps q' i = deps q i \<union> (if i = t then set ds - {t} else {}))
      \<and> (\<forall>i. rdeps q' i = (if i \<in> set ds then rdeps q i - {s} \<union> (if i = t then {} else {t}) else rdeps q i)))"
  using assms
  by (induction ds rule: rev_induct) (auto simp: Let_def merge_dependency_def edge_ops)

lemma merge_dependents:
  assumes "t < bins_count q" "t \<noteq> s"
  shows "set ds \<subseteq> {..<bins_count q} \<Longrightarrow>
    (let q' = foldl (merge_dependent t s) q ds in
      bins_count q' = bins_count q \<and> activeBins q' = activeBins q \<and> binByComponentSha256 q' = binByComponentSha256 q
      \<and> (\<forall>i. members q' i = members q i)
      \<and> (\<forall>i. rdeps q' i = rdeps q i \<union> (if i = t then set ds - {t} else {}))
      \<and> (\<forall>i. deps q' i = (if i \<in> set ds then deps q i - {s} \<union> (if i = t then {} else {t}) else deps q i)))"
  using assms
  by (induction ds rule: rev_induct) (auto simp: Let_def merge_dependent_def edge_ops)

lemma merge_members:
  assumes "t < bins_count q"
  shows "let q' = foldl (merge_member t) q shas in
      bins_count q' = bins_count q \<and> activeBins q' = activeBins q
      \<and> (\<forall>i. deps q' i = deps q i \<and> rdeps q' i = rdeps q i)
      \<and> (\<forall>i. set (members q' i) = set (members q i) \<union> (if i = t then set shas else {}))
      \<and> (\<forall>i. i \<noteq> t \<longrightarrow> members q' i = members q i)
      \<and> (\<forall>sha. binByComponentSha256 q' sha = (if sha \<in> set shas then Some t else binByComponentSha256 q sha))"
  using assms
  by (induction shas rule: rev_induct) (auto simp: Let_def merge_member_def)

section \<open>The invariant\<close>

definition quotient_inv :: "shard_quotient \<Rightarrow> bool" where
  "quotient_inv q \<longleftrightarrow>
     set (activeBins q) \<subseteq> {..<bins_count q}
     \<and> (\<forall>i j. j \<in> deps q i \<longleftrightarrow> i \<in> rdeps q j)
     \<and> (\<forall>i j. j \<in> deps q i \<longrightarrow> i \<in> set (activeBins q) \<and> j \<in> set (activeBins q) \<and> i \<noteq> j)
     \<and> (\<forall>sha b. binByComponentSha256 q sha = Some b \<longleftrightarrow> b \<in> set (activeBins q) \<and> sha \<in> set (members q b))
     \<and> acyclic (quotient_edges q)"

lemma contract_bins_effect:
  assumes inv: "quotient_inv q" and t: "t \<in> set (activeBins q)" and s: "s \<in> set (activeBins q)" and ts: "t \<noteq> s"
  defines "q' \<equiv> contract_bins t s q"
  shows "bins_count q' = bins_count q" "activeBins q' = removeAll s (activeBins q)"
    "\<And>i. deps q' i = (if i = s then {} else if i = t then (deps q t \<union> deps q s) - {t, s}
        else if s \<in> deps q i then insert t (deps q i - {s}) else deps q i)"
    "\<And>i. rdeps q' i = (if i = s then {} else if i = t then (rdeps q t \<union> rdeps q s) - {t, s}
        else if s \<in> rdeps q i then insert t (rdeps q i - {s}) else rdeps q i)"
    "\<And>i. set (members q' i) = (if i = s then {} else if i = t then set (members q t) \<union> set (members q s) else set (members q i))"
    "\<And>sha. binByComponentSha256 q' sha = (if sha \<in> set (members q s) then Some t else binByComponentSha256 q sha)"
proof -
  have bound: "set (activeBins q) \<subseteq> {..<bins_count q}" and conv: "\<And>i j. j \<in> deps q i \<longleftrightarrow> i \<in> rdeps q j"
    and edge: "\<And>i j. j \<in> deps q i \<Longrightarrow> i \<in> set (activeBins q) \<and> j \<in> set (activeBins q) \<and> i \<noteq> j"
    using inv unfolding quotient_inv_def by blast+
  have tn: "t < bins_count q" and sn: "s < bins_count q" using bound t s by auto
  have irr: "i \<notin> deps q i" "i \<notin> rdeps q i" for i using edge conv by blast+
  have ds: "deps q s \<subseteq> {..<bins_count q}" using edge bound by blast
  have rs: "rdeps q s \<subseteq> {..<bins_count q}" using edge conv bound by blast
  define q1 where "q1 = foldl (merge_dependency t s) q (binDependencies (bin_at q s))"
  define q2 where "q2 = foldl (merge_dependent t s) q1 (binDependents (bin_at q1 s))"
  define q3 where "q3 = delete_dependent t s (delete_dependency t s q2)"
  define q4 where "q4 = foldl (merge_member t) q3 (members q3 s)"
  define q5 where "q5 = modify_bin s (\<lambda>_. empty_bin) q4"
  have q': "q' = q5\<lparr>activeBins := removeAll s (activeBins q5)\<rparr>"
    unfolding q'_def contract_bins_def q1_def q2_def q3_def q4_def q5_def by (simp add: Let_def)
  have 1: "bins_count q1 = bins_count q" "activeBins q1 = activeBins q" "binByComponentSha256 q1 = binByComponentSha256 q"
      "\<And>i. members q1 i = members q i"
      "\<And>i. deps q1 i = deps q i \<union> (if i = t then deps q s - {t} else {})"
      "\<And>i. rdeps q1 i = (if i \<in> deps q s then rdeps q i - {s} \<union> (if i = t then {} else {t}) else rdeps q i)"
    using merge_dependencies[OF tn ts ds] unfolding q1_def Let_def by blast+
  have r1: "rdeps q1 s = rdeps q s" using 1(6)[of s] irr by simp
  have "set (binDependents (bin_at q1 s)) \<subseteq> {..<bins_count q1}" using r1 rs 1(1) by simp
  then have 2: "bins_count q2 = bins_count q1" "activeBins q2 = activeBins q1" "binByComponentSha256 q2 = binByComponentSha256 q1"
      "\<And>i. members q2 i = members q1 i"
      "\<And>i. rdeps q2 i = rdeps q1 i \<union> (if i = t then rdeps q1 s - {t} else {})"
      "\<And>i. deps q2 i = (if i \<in> rdeps q1 s then deps q1 i - {s} \<union> (if i = t then {} else {t}) else deps q1 i)"
    using merge_dependents[of t q1 s "binDependents (bin_at q1 s)"] tn ts 1(1) unfolding q2_def Let_def by auto
  have 3: "bins_count q3 = bins_count q2" "activeBins q3 = activeBins q2" "binByComponentSha256 q3 = binByComponentSha256 q2"
      "\<And>i. members q3 i = members q2 i"
      "\<And>i. deps q3 i = (if i = t then deps q2 t - {s} else deps q2 i)"
      "\<And>i. rdeps q3 i = (if i = t then rdeps q2 t - {s} else rdeps q2 i)"
    using tn 1(1) 2(1) unfolding q3_def edge_ops by auto
  have "t < bins_count q3" using tn 1(1) 2(1) 3(1) by simp
  from merge_members[OF this, of "members q3 s"]
  have 4: "bins_count q4 = bins_count q3" "activeBins q4 = activeBins q3"
      "\<And>i. deps q4 i = deps q3 i" "\<And>i. rdeps q4 i = rdeps q3 i"
      "\<And>i. set (members q4 i) = set (members q3 i) \<union> (if i = t then set (members q3 s) else {})"
      "\<And>sha. binByComponentSha256 q4 sha = (if sha \<in> set (members q3 s) then Some t else binByComponentSha256 q3 sha)"
    unfolding q4_def Let_def by blast+
  have 5: "bins_count q' = bins_count q4" "activeBins q' = removeAll s (activeBins q4)"
      "\<And>i. deps q' i = (if i = s then {} else deps q4 i)" "\<And>i. rdeps q' i = (if i = s then {} else rdeps q4 i)"
      "\<And>i. set (members q' i) = (if i = s then {} else set (members q4 i))"
      "\<And>sha. binByComponentSha256 q' sha = binByComponentSha256 q4 sha"
    using sn 1(1) 2(1) 3(1) 4(1) unfolding q' q5_def by (auto simp: bin_at_def modify_bin_def)
  show "bins_count q' = bins_count q" "activeBins q' = removeAll s (activeBins q)"
    using 1(1,2) 2(1,2) 3(1,2) 4(1,2) 5(1,2) by simp_all
  show "deps q' i = (if i = s then {} else if i = t then (deps q t \<union> deps q s) - {t, s}
        else if s \<in> deps q i then insert t (deps q i - {s}) else deps q i)" for i
    unfolding 5(3) 4(3) 3(5) 2(6) r1 1(5) conv[symmetric] using irr[of t] ts by auto
  show "rdeps q' i = (if i = s then {} else if i = t then (rdeps q t \<union> rdeps q s) - {t, s}
        else if s \<in> rdeps q i then insert t (rdeps q i - {s}) else rdeps q i)" for i
    unfolding 5(4) 4(4) 3(6) 2(5) r1 1(6) conv using irr[of t] ts by auto
  show "set (members q' i) = (if i = s then {} else if i = t then set (members q t) \<union> set (members q s) else set (members q i))" for i
    unfolding 5(5) 4(5) 3(4) 2(4) 1(4) by auto
  show "binByComponentSha256 q' sha = (if sha \<in> set (members q s) then Some t else binByComponentSha256 q sha)" for sha
    unfolding 5(6) 4(6) 3(3,4) 2(3,4) 1(3,4) ..
qed

lemma contract_bins_edges:
  assumes "quotient_inv q" "t \<in> set (activeBins q)" "s \<in> set (activeBins q)" "t \<noteq> s"
  shows "quotient_edges (contract_bins t s q) = contract t s (quotient_edges q)"
proof -
  note D = contract_bins_effect(3)[OF assms]
  have irr: "i \<notin> deps q i" for i using assms(1) unfolding quotient_inv_def by blast
  have "(a, b) \<in> quotient_edges (contract_bins t s q) \<longleftrightarrow> (a, b) \<in> contract t s (quotient_edges q)" for a b
    unfolding contract_iff quotient_edges_def mem_Collect_eq case_prod_conv D merged_def
    using irr assms(4) by auto metis
  then show ?thesis by auto
qed

section \<open>Merging keeps the invariant\<close>

lemma contract_bins_inv:
  assumes inv: "quotient_inv q" and t: "t \<in> set (activeBins q)" and s: "s \<in> set (activeBins q)" and ts: "t \<noteq> s"
    and acyc: "\<not> indirect (quotient_edges q) t s" "\<not> indirect (quotient_edges q) s t"
  shows "quotient_inv (contract_bins t s q)"
proof -
  let ?q = "contract_bins t s q"
  note C = contract_bins_effect[OF inv t s ts]
  have bound: "set (activeBins q) \<subseteq> {..<bins_count q}" and conv: "\<And>i j. j \<in> deps q i \<longleftrightarrow> i \<in> rdeps q j"
    and edge: "\<And>i j. j \<in> deps q i \<Longrightarrow> i \<in> set (activeBins q) \<and> j \<in> set (activeBins q) \<and> i \<noteq> j"
    and by_sha: "\<And>sha b. binByComponentSha256 q sha = Some b \<longleftrightarrow> b \<in> set (activeBins q) \<and> sha \<in> set (members q b)"
    and acyclic: "acyclic (quotient_edges q)"
    using inv unfolding quotient_inv_def by blast+
  have "set (activeBins ?q) \<subseteq> {..<bins_count ?q}" using bound C(1,2) by auto
  moreover have "j \<in> deps ?q i \<longleftrightarrow> i \<in> rdeps ?q j" for i j
  proof -
    have rd: "rdeps q x = {y. x \<in> deps q y}" for x using conv by auto
    have irr: "x \<notin> deps q x" for x using edge by blast
    show ?thesis unfolding C(3,4) rd using irr ts by auto
  qed
  moreover have "i \<in> set (activeBins ?q) \<and> j \<in> set (activeBins ?q) \<and> i \<noteq> j" if "j \<in> deps ?q i" for i j
    using that edge t ts unfolding C(2,3) by (auto split: if_splits)
  moreover have "binByComponentSha256 ?q sha = Some b \<longleftrightarrow> b \<in> set (activeBins ?q) \<and> sha \<in> set (members ?q b)" for sha b
  proof -
    have one: "sha \<notin> set (members q b)" if "b \<in> set (activeBins q)" "sha \<in> set (members q s)" "b \<noteq> s"
      using by_sha[of sha b] by_sha[of sha s] that s by auto
    show ?thesis unfolding C(2,5,6) using by_sha[of sha b] by_sha[of sha t] one t s ts by auto
  qed
  moreover have "acyclic (quotient_edges ?q)"
    unfolding contract_bins_edges[OF inv t s ts] by (rule acyclic_contract[OF acyclic acyc])
  ultimately show ?thesis unfolding quotient_inv_def by blast
qed

lemma mergeQuotientBins_cases:
  assumes inv: "quotient_inv q" and t: "t \<in> set (activeBins q)" and s: "s \<in> set (activeBins q)" and ts: "t \<noteq> s"
  shows "mergeQuotientBins q t s =
    Inr (if indirect (quotient_edges q) t s \<or> indirect (quotient_edges q) s t then (False, q)
         else (True, contract_bins t s q))"
proof -
  have "acyclic (quotient_edges q)" using inv by (simp add: quotient_inv_def)
  then show ?thesis using t s ts
    by (simp add: mergeQuotientBins_def quotientCanMerge_def planner_failWhen_def hasIndirectPath_iff)
qed

text \<open>C4: Two active bins are merged exactly when contracting them keeps the bin graph acyclic; the merge
  then contracts the graph (every edge is redirected, edges between the two disappear), and otherwise
  the quotient is unchanged. Either way the invariant survives: bins partition the components,
  dependents mirror dependencies, and the graph is acyclic.\<close>

theorem mergeQuotientBins_contracts:
  assumes "quotient_inv q" "t \<in> set (activeBins q)" "s \<in> set (activeBins q)" "t \<noteq> s"
  shows "\<exists>ok q'. mergeQuotientBins q t s = Inr (ok, q') \<and> quotient_inv q'
    \<and> (ok \<longleftrightarrow> acyclic (contract t s (quotient_edges q)))
    \<and> (ok \<longrightarrow> quotient_edges q' = contract t s (quotient_edges q) \<and> set (activeBins q') = set (activeBins q) - {s}
         \<and> set (members q' t) = set (members q t) \<union> set (members q s))
    \<and> (\<not> ok \<longrightarrow> q' = q)"
proof (cases "indirect (quotient_edges q) t s \<or> indirect (quotient_edges q) s t")
  case True
  have "\<not> acyclic (contract t s (quotient_edges q))"
    by (rule cyclic_contract[OF _ assms(4) True]) (use assms(1) in \<open>simp add: quotient_inv_def\<close>)
  then show ?thesis using mergeQuotientBins_cases[OF assms] True assms(1)
    by (intro exI[of _ False] exI[of _ q]) simp
next
  case False
  have "acyclic (contract t s (quotient_edges q))"
    using acyclic_contract False assms(1) by (auto simp: quotient_inv_def)
  then show ?thesis
    using mergeQuotientBins_cases[OF assms] False contract_bins_inv[OF assms] contract_bins_edges[OF assms]
      contract_bins_effect(2,5)[OF assms] assms(4) by auto
qed

end
