(* ===== verification/ShardPlan.thy ===== *)
theory ShardPlan
  imports ShardContract
begin

text \<open>
  Placement of the shared components into weight-bounded shards, the shards themselves, their order,
  and \<open>planConvexWasmPhysicalShards\<close>, of \<open>convex-wasm-physical-shard-planner.mjs\<close>.
\<close>

section \<open>Placement\<close>

record placement_bin =
  binComponents :: "string list"
  binOccurrences :: "string list"
  binWeight :: int
  binOversize :: bool

definition validate_bin_member ::
  "shard_quotient \<Rightarrow> string list \<times> nat option \<Rightarrow> string \<Rightarrow> (string list \<times> nat option) res" where
  "validate_bin_member q = (\<lambda>(placed, quotientBin) sha.
     bindR (planner_failWhen (sha \<in> set placed) ''physical shard grouping repeats a component'') (\<lambda>_.
     bindR (quotientBinForComponent q sha) (\<lambda>b.
     bindR (planner_failWhen (quotientBin \<noteq> None \<and> quotientBin \<noteq> Some b)
       ''physical shard grouping splits a quotient bin'') (\<lambda>_.
     Inr (placed @ [sha], Some b)))))"

text \<open>Of \<open>physicalBinByComponentSha256\<close> only the keys are read: \<open>placed\<close>.\<close>

definition validate_bin :: "shard_quotient \<Rightarrow> string list \<Rightarrow> placement_bin \<Rightarrow> string list res" where
  "validate_bin q placed bin =
     bindR (foldR (validate_bin_member q) (placed, None) (binComponents bin)) (\<lambda>(placed', quotientBin).
     case quotientBin of None \<Rightarrow> undefined_property | Some b \<Rightarrow>
     bindR (planner_failWhen (length (memberShas (bin_at q b)) \<noteq> length (binComponents bin))
       ''physical shard grouping omits a component from a quotient bin'') (\<lambda>_. Inr placed'))"

definition validate_component :: "shard_quotient \<Rightarrow> string list \<Rightarrow> shard_component \<Rightarrow> unit res" where
  "validate_component q placed c =
     bindR (quotientBinForComponent q (componentSha256 c)) (\<lambda>b.
     bindR (planner_failWhen (sharedEligible c \<noteq> (componentSha256 c \<in> set placed))
       ''physical shard placement must assign exactly the shared components'') (\<lambda>_.
     planner_failWhen (componentSha256 c \<notin> set placed \<and> length (memberShas (bin_at q b)) \<noteq> 1)
       ''physical shard grouping merges a residual component''))"

definition validatePhysicalShardQuotient ::
  "shard_quotient \<Rightarrow> placement_bin list \<Rightarrow> shard_component list \<Rightarrow> unit res" where
  "validatePhysicalShardQuotient q bins components =
     bindR (foldR (validate_bin q) [] bins) (\<lambda>placed.
     bindR (mapR (validate_component q placed) components) (\<lambda>_. Inr ()))"

definition get_component :: "shard_component list \<Rightarrow> string \<Rightarrow> shard_component res" where
  "get_component components sha =
     (case componentBySha256 components sha of None \<Rightarrow> undefined_property | Some i \<Rightarrow> Inr (components ! i))"

text \<open>Every member of a bin is a component, so the lookup below never falls through.\<close>

definition binMembershipKey :: "shard_component list \<Rightarrow> placement_bin \<Rightarrow> string" where
  "binMembershipKey components bin =
     concat (sort_strings (map (\<lambda>sha. case componentBySha256 components sha of
        None \<Rightarrow> [] | Some i \<Rightarrow> componentBindingSha256 (components ! i)) (binComponents bin)))"

definition compareCandidates :: "shard_component list \<Rightarrow> placement_bin \<times> nat \<Rightarrow> placement_bin \<times> nat \<Rightarrow> int" where
  "compareCandidates components = (\<lambda>(left, _) (right, _).
     if binWeight left \<noteq> binWeight right then (if binWeight left < binWeight right then -1 else 1)
     else compareStrings (binMembershipKey components left) (binMembershipKey components right))"

definition compareNormalComponents :: "shard_component \<Rightarrow> shard_component \<Rightarrow> int" where
  "compareNormalComponents left right =
     (if picObjectByteWeight left \<noteq> picObjectByteWeight right
      then (if picObjectByteWeight left > picObjectByteWeight right then -1 else 1)
      else compareStrings (componentBindingSha256 left) (componentBindingSha256 right))"

definition single_bin :: "bool \<Rightarrow> shard_component \<Rightarrow> placement_bin" where
  "single_bin oversize c = \<lparr>binComponents = [componentSha256 c], binOccurrences = occurrenceCohortSha256s c,
     binWeight = picObjectByteWeight c, binOversize = oversize\<rparr>"

fun place_in_candidates ::
  "shard_component \<Rightarrow> shard_quotient \<Rightarrow> placement_bin list \<Rightarrow> (placement_bin \<times> nat) list
     \<Rightarrow> (bool \<times> shard_quotient \<times> placement_bin list) res" where
  "place_in_candidates c q bins [] = Inr (False, q, bins)"
| "place_in_candidates c q bins ((_, index) # candidates) =
     (let bin = bins ! index in
      case binComponents bin of [] \<Rightarrow> planner_fail ''physical shard grouping omits a component''
      | first # _ \<Rightarrow>
        bindR (quotientBinForComponent q first) (\<lambda>target.
        bindR (quotientBinForComponent q (componentSha256 c)) (\<lambda>source.
        bindR (mergeQuotientBins q target source) (\<lambda>(mergedBins, q').
        if mergedBins
        then bindR (addSafeIntegers (binWeight bin) (picObjectByteWeight c) ''physical shard PIC object weight'') (\<lambda>weight.
             Inr (True, q', bins[index := bin\<lparr>binComponents := binComponents bin @ [componentSha256 c],
                                             binWeight := weight\<rparr>]))
        else place_in_candidates c q' bins candidates))))"

definition placement_candidates :: "shard_component list \<Rightarrow> shard_policy \<Rightarrow> shard_component \<Rightarrow> placement_bin list
    \<Rightarrow> (placement_bin \<times> nat) list" where
  "placement_candidates components policy c bins =
     js_sort (compareCandidates components)
       (filter (\<lambda>(bin, _). picObjectByteWeight c \<le> targetShardWeight policy - binWeight bin
                  \<and> occurrenceCohortSha256s c = binOccurrences bin)
          (zip bins [0..<length bins]))"

definition place_component ::
  "shard_component list \<Rightarrow> shard_policy \<Rightarrow> shard_quotient \<times> placement_bin list \<Rightarrow> shard_component
     \<Rightarrow> (shard_quotient \<times> placement_bin list) res" where
  "place_component components policy = (\<lambda>(q, bins) c.
     bindR (place_in_candidates c q bins (placement_candidates components policy c bins)) (\<lambda>(placed, q', bins').
     Inr (q', if placed then bins' else bins' @ [single_bin False c])))"

definition placeSharedComponents :: "shard_component list \<Rightarrow> shard_policy \<Rightarrow> placement_bin list res" where
  "placeSharedComponents components policy =
     bindR (createPhysicalShardQuotient components) (\<lambda>quotient.
     (let oversize = js_sort (compareBy componentBindingSha256)
            (filter (\<lambda>c. sharedEligible c \<and> picObjectByteWeight c > targetShardWeight policy) components);
          normal = js_sort compareNormalComponents
            (filter (\<lambda>c. sharedEligible c \<and> picObjectByteWeight c \<le> targetShardWeight policy) components)
      in bindR (foldR (place_component components policy) (quotient, map (single_bin True) oversize) normal) (\<lambda>(q, bins).
         bindR (validatePhysicalShardQuotient q bins components) (\<lambda>_. Inr bins))))"

section \<open>Shards\<close>

definition convexWasmPhysicalShardKind :: string where
  "convexWasmPhysicalShardKind = ''convex-wasm-physical-shard-v2''"

record physical_shard =
  shardComponentBindings :: "string list"
  shardComponents :: "string list"
  shardDependencies :: "string list"
  shardOversize :: bool
  shardWeight :: int
  shardSha256 :: string

definition assign_member :: "string \<Rightarrow> (string \<Rightarrow> string option) \<Rightarrow> string \<Rightarrow> (string \<Rightarrow> string option) res" where
  "assign_member identity m sha =
     bindR (planner_failWhen (m sha \<noteq> None) ''physical shard placement repeats a shared component'') (\<lambda>_.
     Inr (m(sha := Some identity)))"

definition build_shard :: "(string \<Rightarrow> string) \<Rightarrow> shard_component list
    \<Rightarrow> physical_shard list \<times> (string \<Rightarrow> string option) \<Rightarrow> placement_bin
    \<Rightarrow> (physical_shard list \<times> (string \<Rightarrow> string option)) res" where
  "build_shard sha256 components = (\<lambda>(shards, shardByComponent) bin.
     (let shas = sort_strings (binComponents bin) in
      bindR (mapR (get_component components) shas) (\<lambda>cs.
      (let bindings = sort_strings (map componentBindingSha256 cs) in
       bindR (fingerprintConvexWasmPhysicalShardJson sha256 (JObj
         [(''domain'', JStr ''convex-wasm-physical-shard-binding-identity-v2''),
          (''shard'', JObj [(''componentBindingSha256s'', sha_array bindings),
                          (''kind'', JStr convexWasmPhysicalShardKind)])])) (\<lambda>identity.
       bindR (foldR (assign_member identity) shardByComponent shas) (\<lambda>shardByComponent'.
       Inr (shards @ [\<lparr>shardComponentBindings = bindings, shardComponents = shas, shardDependencies = [],
              shardOversize = binOversize bin, shardWeight = binWeight bin, shardSha256 = identity\<rparr>],
            shardByComponent')))))))"

definition link_shard :: "shard_component list \<Rightarrow> (string \<Rightarrow> string option) \<Rightarrow> physical_shard \<Rightarrow> physical_shard res" where
  "link_shard components shardByComponent shard =
     bindR (mapR (get_component components) (shardComponents shard)) (\<lambda>cs.
     Inr (shard\<lparr>shardDependencies := sort_strings (js_set
       (filter (\<lambda>sha. sha \<noteq> shardSha256 shard)
         (List.map_filter shardByComponent (concat (map dependencyComponentSha256s cs)))))\<rparr>))"

definition buildSharedShards :: "(string \<Rightarrow> string) \<Rightarrow> placement_bin list \<Rightarrow> shard_component list \<Rightarrow> physical_shard list res" where
  "buildSharedShards sha256 bins components =
     bindR (foldR (build_shard sha256 components) ([], \<lambda>_. None) bins) (\<lambda>(shards, shardByComponent).
     bindR (planner_failWhen (length (js_set (map shardSha256 shards)) \<noteq> length shards)
       ''physical shard identities collide'') (\<lambda>_.
     bindR (mapR (link_shard components shardByComponent) shards) (\<lambda>linked.
     Inr (js_sort (compareBy shardSha256) linked))))"

section \<open>Order\<close>

definition dependents_of :: "physical_shard list \<Rightarrow> string \<Rightarrow> string list" where
  "dependents_of shards sha =
     concat (map (\<lambda>shard. map (\<lambda>_. shardSha256 shard) (filter (\<lambda>d. d = sha) (shardDependencies shard))) shards)"

definition release_dependent :: "(string \<Rightarrow> int) \<times> string list \<Rightarrow> string \<Rightarrow> (string \<Rightarrow> int) \<times> string list" where
  "release_dependent = (\<lambda>(remaining, ready) d.
     (let r = remaining d - 1 in (remaining(d := r), if r = 0 then ready @ [d] else ready)))"

definition order_measure :: "physical_shard list \<Rightarrow> (string \<Rightarrow> int) \<Rightarrow> string list \<Rightarrow> nat" where
  "order_measure shards remaining ready =
     length ready + length (filter (\<lambda>shard. remaining (shardSha256 shard) > 0) shards)"

lemma dependents_of_known: "set (dependents_of shards sha) \<subseteq> shardSha256 ` set shards"
  by (auto simp: dependents_of_def)

lemma filter_length_mono: "(\<And>x. x \<in> set xs \<Longrightarrow> P x \<Longrightarrow> Q x) \<Longrightarrow> length (filter P xs) \<le> length (filter Q xs)"
  by (induction xs) force+

lemma filter_length_less:
  assumes "\<And>x. x \<in> set xs \<Longrightarrow> P x \<Longrightarrow> Q x" and "y \<in> set xs" "Q y" "\<not> P y"
  shows "length (filter P xs) < length (filter Q xs)"
  using assms
proof (induction xs)
  case (Cons x xs)
  have "length (filter P xs) \<le> length (filter Q xs)" by (rule filter_length_mono) (use Cons.prems(1) in auto)
  then show ?case using Cons by (cases "y = x") auto
qed simp

lemma release_measure:
  assumes "release_dependent (remaining, ready) d = (remaining', ready')" and "d \<in> shardSha256 ` set shards"
  shows "order_measure shards remaining' ready' \<le> order_measure shards remaining ready"
proof (cases "remaining d = 1")
  case True
  then have r: "remaining' = remaining(d := 0)" "ready' = ready @ [d]"
    using assms(1) by (auto simp: release_dependent_def Let_def)
  obtain shard where shard: "shard \<in> set shards" "shardSha256 shard = d" using assms(2) by blast
  have "length (filter (\<lambda>s. remaining' (shardSha256 s) > 0) shards) < length (filter (\<lambda>s. remaining (shardSha256 s) > 0) shards)"
    by (rule filter_length_less[OF _ shard(1)]) (use r shard(2) True in \<open>auto split: if_splits\<close>)
  then show ?thesis by (simp add: order_measure_def r(2))
next
  case False
  then have r: "remaining' = remaining(d := remaining d - 1)" "ready' = ready"
    using assms(1) by (auto simp: release_dependent_def Let_def)
  have "length (filter (\<lambda>s. remaining' (shardSha256 s) > 0) shards) \<le> length (filter (\<lambda>s. remaining (shardSha256 s) > 0) shards)"
    by (rule filter_length_mono) (use r in \<open>auto split: if_splits\<close>)
  then show ?thesis by (simp add: order_measure_def r(2))
qed

lemma release_all_measure:
  "\<lbrakk>foldl release_dependent (remaining, ready) ds = (remaining', ready'); set ds \<subseteq> shardSha256 ` set shards\<rbrakk>
    \<Longrightarrow> order_measure shards remaining' ready' \<le> order_measure shards remaining ready"
proof (induction ds arbitrary: remaining ready)
  case (Cons d ds)
  obtain rem1 ready1 where 1: "release_dependent (remaining, ready) d = (rem1, ready1)" by fastforce
  then have "order_measure shards remaining' ready' \<le> order_measure shards rem1 ready1" using Cons by simp
  then show ?case using release_measure[OF 1, of shards] Cons.prems(2) by simp
qed simp

function order_loop :: "physical_shard list \<Rightarrow> (string \<Rightarrow> int) \<Rightarrow> string list \<Rightarrow> string list \<Rightarrow> string list" where
  "order_loop shards remaining [] order = order"
| "order_loop shards remaining (sha # ready) order =
     (let (remaining', ready') = foldl release_dependent (remaining, ready) (sort_strings (dependents_of shards sha))
      in order_loop shards remaining' (sort_strings ready') (order @ [sha]))"
  by pat_completeness auto

termination
proof (relation "measure (\<lambda>(shards, remaining, ready, _). order_measure shards remaining ready)", goal_cases)
  case (2 shards remaining sha ready order p remaining' ready')
  then have "foldl release_dependent (remaining, ready) (sort_strings (dependents_of shards sha)) = (remaining', ready')"
    by simp
  then have "order_measure shards remaining' ready' \<le> order_measure shards remaining ready"
    by (rule release_all_measure) (simp add: dependents_of_known)
  then show ?case by (simp add: order_measure_def)
qed simp

definition orderShards :: "physical_shard list \<Rightarrow> string list res" where
  "orderShards shards =
     bindR (planner_failWhen (\<exists>shard \<in> set shards. \<exists>d \<in> set (shardDependencies shard). d \<notin> shardSha256 ` set shards)
       ''physical shard dependency references an unknown shard'') (\<lambda>_.
     (let remaining = (\<lambda>sha. case map_of (map (\<lambda>s. (shardSha256 s, int (length (shardDependencies s)))) (rev shards)) sha of
            None \<Rightarrow> 0 | Some n \<Rightarrow> n);
          ready = sort_strings (map shardSha256 (filter (\<lambda>s. remaining (shardSha256 s) = 0) shards));
          order = order_loop shards remaining ready []
      in bindR (planner_failWhen (length order \<noteq> length shards) ''physical shard dependencies contain a cycle'') (\<lambda>_.
         Inr order)))"

end
