(* ===== verification/ShardPlacement.thy ===== *)
theory ShardPlacement
  imports ShardPlan
begin

text \<open>
  Placement is total and correct: every shared component lands in exactly one bin, bins respect the
  target weight and the occurrence sets, and the bins depend on one another without cycles.
\<close>

section \<open>The initial quotient\<close>

definition components_ok :: "shard_component list \<Rightarrow> bool" where
  "components_ok cs \<longleftrightarrow> distinct (map componentSha256 cs)
     \<and> (\<forall>c \<in> set cs. set (dependencyComponentSha256s c) \<subseteq> componentSha256 ` set cs)
     \<and> acyclic (component_edges cs)"

lemma componentBySha256_snoc:
  "componentBySha256 (cs @ [c]) = (componentBySha256 cs)(componentSha256 c := Some (length cs))"
  by (simp add: componentBySha256_def)

lemma componentBySha256_None_iff: "componentBySha256 cs sha = None \<longleftrightarrow> sha \<notin> componentSha256 ` set cs"
proof -
  have "fst ` set (zip xs [0..<length xs]) = set xs" for xs :: "string list"
    by (metis list.set_map map_fst_zip length_upt diff_zero)
  from this[of "map componentSha256 cs"] show ?thesis
    by (simp add: componentBySha256_def map_of_eq_None_iff del: set_zip)
qed

lemma add_component_bins:
  "distinct (map componentSha256 cs) \<Longrightarrow> foldR add_component_bin empty_quotient cs =
     Inr \<lparr>quotientBins = map (\<lambda>c. empty_bin\<lparr>memberShas := [componentSha256 c]\<rparr>) cs, activeBins = [0..<length cs],
          binByComponentSha256 = componentBySha256 cs\<rparr>"
proof (induction cs rule: rev_induct)
  case Nil
  then show ?case by (simp add: empty_quotient_def componentBySha256_def)
next
  case (snoc c cs)
  have "componentBySha256 cs (componentSha256 c) = None" using snoc.prems by (simp add: componentBySha256_None_iff)
  then have "add_component_bin \<lparr>quotientBins = map (\<lambda>c. empty_bin\<lparr>memberShas := [componentSha256 c]\<rparr>) cs,
      activeBins = [0..<length cs], binByComponentSha256 = componentBySha256 cs\<rparr> c =
    Inr \<lparr>quotientBins = map (\<lambda>c. empty_bin\<lparr>memberShas := [componentSha256 c]\<rparr>) (cs @ [c]), activeBins = [0..<length (cs @ [c])],
          binByComponentSha256 = componentBySha256 (cs @ [c])\<rparr>"
    by (simp add: add_component_bin_def planner_failWhen_def Let_def componentBySha256_snoc)
  then show ?case using snoc by (simp add: foldR_append)
qed

definition same_frame :: "shard_quotient \<Rightarrow> shard_quotient \<Rightarrow> bool" where
  "same_frame q q' \<longleftrightarrow> bins_count q' = bins_count q \<and> activeBins q' = activeBins q
     \<and> binByComponentSha256 q' = binByComponentSha256 q \<and> (\<forall>i. members q' i = members q i)"

definition has_edges :: "shard_quotient \<Rightarrow> (nat \<times> nat) set \<Rightarrow> bool" where
  "has_edges q E \<longleftrightarrow> (\<forall>i j. (j \<in> deps q i \<longleftrightarrow> (i, j) \<in> E) \<and> (i \<in> rdeps q j \<longleftrightarrow> (i, j) \<in> E))"

lemma link_step:
  assumes "has_edges q E" "b < bins_count q" "d < bins_count q"
  shows "has_edges (add_dependent d b (add_dependency b d q)) (insert (b, d) E)"
    and "same_frame q (add_dependent d b (add_dependency b d q))"
  using assms by (auto simp: has_edges_def same_frame_def edge_ops)

lemma same_frame_trans: "same_frame p q \<Longrightarrow> same_frame q r \<Longrightarrow> same_frame p r"
  by (simp add: same_frame_def)

lemma same_frame_refl: "same_frame q q"
  by (simp add: same_frame_def)

lemma link_dependencies:
  assumes "has_edges q E" "b < bins_count q"
    and "\<And>sha. sha \<in> set shas \<Longrightarrow> \<exists>d < bins_count q. binByComponentSha256 q sha = Some d"
  shows "\<exists>q'. foldR (\<lambda>q' sha. case binByComponentSha256 q' sha of
          None \<Rightarrow> planner_fail ''physical shard grouping omits a component''
        | Some d \<Rightarrow> if b = d then Inr q' else Inr (add_dependent d b (add_dependency b d q'))) q shas = Inr q'
      \<and> same_frame q q'
      \<and> has_edges q' (E \<union> {(b, d) | d sha. sha \<in> set shas \<and> binByComponentSha256 q sha = Some d \<and> b \<noteq> d})"
  using assms
proof (induction shas arbitrary: q E)
  case Nil
  then show ?case using same_frame_refl by auto
next
  case (Cons sha shas)
  obtain d where d: "d < bins_count q" "binByComponentSha256 q sha = Some d" using Cons.prems(3)[of sha] by auto
  define q1 where "q1 = (if b = d then q else add_dependent d b (add_dependency b d q))"
  define E1 where "E1 = (if b = d then E else insert (b, d) E)"
  have q1: "has_edges q1 E1" "same_frame q q1"
    unfolding q1_def E1_def using link_step[OF Cons.prems(1,2) d(1)] Cons.prems(1) same_frame_refl by auto
  have frame: "bins_count q1 = bins_count q" "binByComponentSha256 q1 = binByComponentSha256 q"
    using q1(2) by (simp_all add: same_frame_def)
  have "b < bins_count q1" using Cons.prems(2) frame by simp
  moreover have "\<exists>d < bins_count q1. binByComponentSha256 q1 s = Some d" if "s \<in> set shas" for s
    using Cons.prems(3)[of s] that frame by simp
  ultimately obtain q' where q': "foldR (\<lambda>q' sha. case binByComponentSha256 q' sha of
          None \<Rightarrow> planner_fail ''physical shard grouping omits a component''
        | Some d \<Rightarrow> if b = d then Inr q' else Inr (add_dependent d b (add_dependency b d q'))) q1 shas = Inr q'"
      "same_frame q1 q'" "has_edges q' (E1 \<union> {(b, d) | d sha. sha \<in> set shas \<and> binByComponentSha256 q1 sha = Some d \<and> b \<noteq> d})"
    using Cons.IH[OF q1(1)] by blast
  have "E1 \<union> {(b, d) | d sha. sha \<in> set shas \<and> binByComponentSha256 q1 sha = Some d \<and> b \<noteq> d}
      = E \<union> {(b, d) | d s. s \<in> set (sha # shas) \<and> binByComponentSha256 q s = Some d \<and> b \<noteq> d}"
    unfolding E1_def frame using d(2) by auto
  moreover have "same_frame q q'" by (rule same_frame_trans[OF q1(2) q'(2)])
  ultimately show ?case using q'(1,3) d(2) by (auto simp: q1_def)
qed

definition edges_of :: "shard_component list \<Rightarrow> shard_component set \<Rightarrow> (nat \<times> nat) set" where
  "edges_of cs X = {(i, j). \<exists>c \<in> X. componentBySha256 cs (componentSha256 c) = Some i
     \<and> (\<exists>sha \<in> set (dependencyComponentSha256s c). componentBySha256 cs sha = Some j) \<and> i \<noteq> j}"

lemma link_components:
  assumes "has_edges q E" "binByComponentSha256 q = componentBySha256 cs" "bins_count q = length cs"
    and "set xs \<subseteq> set cs" "\<forall>c \<in> set cs. set (dependencyComponentSha256s c) \<subseteq> componentSha256 ` set cs"
  shows "\<exists>q'. foldR link_component_bin q xs = Inr q' \<and> same_frame q q' \<and> has_edges q' (E \<union> edges_of cs (set xs))"
  using assms
proof (induction xs arbitrary: q E)
  case Nil
  then show ?case using same_frame_refl by (auto simp: edges_of_def)
next
  case (Cons c xs)
  have c: "c \<in> set cs" using Cons.prems(4) by simp
  obtain b where b: "componentBySha256 cs (componentSha256 c) = Some b"
    using c componentBySha256_None_iff[of cs "componentSha256 c"] by fastforce
  have bn: "b < bins_count q" using componentBySha256_Some[OF b] Cons.prems(3) by simp
  have known: "\<exists>d < bins_count q. binByComponentSha256 q sha = Some d" if "sha \<in> set (dependencyComponentSha256s c)" for sha
  proof -
    have "sha \<in> componentSha256 ` set cs" using that c Cons.prems(5) by blast
    then obtain d where "componentBySha256 cs sha = Some d" using componentBySha256_None_iff[of cs sha] by fastforce
    then show ?thesis using componentBySha256_Some[of cs sha d] Cons.prems(2,3) by auto
  qed
  obtain q1 where q1: "link_component_bin q c = Inr q1" "same_frame q q1"
    "has_edges q1 (E \<union> {(b, d) | d sha. sha \<in> set (dependencyComponentSha256s c) \<and> binByComponentSha256 q sha = Some d \<and> b \<noteq> d})"
    using link_dependencies[OF Cons.prems(1) bn known] b Cons.prems(2) by (auto simp: link_component_bin_def)
  have frame: "binByComponentSha256 q1 = componentBySha256 cs" "bins_count q1 = length cs"
    using q1(2) Cons.prems(2,3) by (simp_all add: same_frame_def)
  obtain q' where q': "foldR link_component_bin q1 xs = Inr q'" "same_frame q1 q'"
    "has_edges q' (E \<union> {(b, d) | d sha. sha \<in> set (dependencyComponentSha256s c) \<and> binByComponentSha256 q sha = Some d \<and> b \<noteq> d}
       \<union> edges_of cs (set xs))"
    using Cons.IH[OF q1(3) frame _ Cons.prems(5)] Cons.prems(4) by auto
  have "E \<union> {(b, d) | d sha. sha \<in> set (dependencyComponentSha256s c) \<and> binByComponentSha256 q sha = Some d \<and> b \<noteq> d}
       \<union> edges_of cs (set xs) = E \<union> edges_of cs (set (c # xs))"
    using b Cons.prems(2) by (auto simp: edges_of_def)
  then show ?case using q1(1) q' same_frame_trans[OF q1(2) q'(2)] by auto
qed

lemma createPhysicalShardQuotient_ok:
  assumes ok: "components_ok cs"
  obtains q where "createPhysicalShardQuotient cs = Inr q" "quotient_inv q"
    "binByComponentSha256 q = componentBySha256 cs" "quotient_edges q = component_edges cs"
    "\<forall>i < length cs. i \<in> set (activeBins q) \<and> members q i = [componentSha256 (cs ! i)]" "\<forall>i. distinct (members q i)"
proof -
  have dist: "distinct (map componentSha256 cs)" and known: "\<forall>c \<in> set cs. set (dependencyComponentSha256s c) \<subseteq> componentSha256 ` set cs"
    and acyc: "acyclic (component_edges cs)" using ok by (auto simp: components_ok_def)
  let ?q0 = "\<lparr>quotientBins = map (\<lambda>c. empty_bin\<lparr>memberShas := [componentSha256 c]\<rparr>) cs, activeBins = [0..<length cs],
          binByComponentSha256 = componentBySha256 cs\<rparr>"
  have at0: "bin_at ?q0 i = (if i < length cs then empty_bin\<lparr>memberShas := [componentSha256 (cs ! i)]\<rparr> else empty_bin)" for i
    by (simp add: bin_at_def)
  have "has_edges ?q0 {}" unfolding has_edges_def at0 by simp
  then obtain q where q: "foldR link_component_bin ?q0 cs = Inr q" "same_frame ?q0 q" "has_edges q (edges_of cs (set cs))"
    using link_components[of ?q0 "{}" cs cs] known by auto
  have mem: "members q i = (if i < length cs then [componentSha256 (cs ! i)] else [])" for i
    using q(2) unfolding same_frame_def at0 by (auto simp: empty_bin_def)
  have idx: "componentBySha256 cs (componentSha256 c) = Some i \<longleftrightarrow> i < length cs \<and> cs ! i = c" if "c \<in> set cs" for c i
  proof -
    obtain j where j: "j < length cs" "cs ! j = c" using \<open>c \<in> set cs\<close> by (auto simp: in_set_conv_nth)
    then show ?thesis unfolding componentBySha256_iff[OF dist]
      using dist nth_eq_iff_index_eq[of "map componentSha256 cs" i j] by auto
  qed
  have edges: "edges_of cs (set cs) = component_edges cs"
  proof -
    have irr: "(i, i) \<notin> component_edges cs" for i using acyc by (auto simp: acyclic_def)
    have "(i, j) \<in> edges_of cs (set cs) \<longleftrightarrow> (i, j) \<in> component_edges cs \<and> i \<noteq> j" for i j
      unfolding edges_of_def component_edges_def using idx by auto
    then show ?thesis using irr by auto
  qed
  have E: "quotient_edges q = component_edges cs"
    using q(3) unfolding has_edges_def edges quotient_edges_def by auto
  have "quotient_inv q" unfolding quotient_inv_def
  proof (intro conjI allI impI)
    show "set (activeBins q) \<subseteq> {..<bins_count q}" using q(2) by (auto simp: same_frame_def)
    show "j \<in> deps q i \<longleftrightarrow> i \<in> rdeps q j" for i j using q(3) by (simp add: has_edges_def)
    have ce: "i < length cs \<and> j < length cs \<and> i \<noteq> j" if "(i, j) \<in> component_edges cs" for i j
      using that acyc componentBySha256_Some by (auto simp: component_edges_def acyclic_def)
    show "i \<in> set (activeBins q)" if "j \<in> deps q i" for i j
      using that q(2,3) ce edges by (auto simp: has_edges_def same_frame_def)
    show "j \<in> set (activeBins q)" if "j \<in> deps q i" for i j
      using that q(2,3) ce edges by (auto simp: has_edges_def same_frame_def)
    show "i \<noteq> j" if "j \<in> deps q i" for i j using that q(3) ce edges by (auto simp: has_edges_def)
    show "binByComponentSha256 q sha = Some b \<longleftrightarrow> b \<in> set (activeBins q) \<and> sha \<in> set (members q b)" for sha b
      using q(2) componentBySha256_iff[OF dist] unfolding mem by (auto simp: same_frame_def)
    show "acyclic (quotient_edges q)" unfolding E by (rule acyc)
  qed
  moreover have "createPhysicalShardQuotient cs = Inr q"
    by (simp add: createPhysicalShardQuotient_def add_component_bins[OF dist] q(1))
  moreover have "binByComponentSha256 q = componentBySha256 cs" "activeBins q = [0..<length cs]"
    using q(2) by (simp_all add: same_frame_def)
  ultimately show ?thesis using E by (intro that[of q]) (simp_all add: mem)
qed

section \<open>Placing\<close>

definition component_at :: "shard_component list \<Rightarrow> string \<Rightarrow> shard_component" where
  "component_at cs sha = cs ! the (componentBySha256 cs sha)"

definition bin_ok :: "shard_component list \<Rightarrow> shard_policy \<Rightarrow> placement_bin \<Rightarrow> bool" where
  "bin_ok cs policy bin \<longleftrightarrow> binComponents bin \<noteq> []
     \<and> (\<forall>sha \<in> set (binComponents bin). sha \<in> componentSha256 ` set cs \<and> sharedEligible (component_at cs sha)
          \<and> occurrenceCohortSha256s (component_at cs sha) = binOccurrences bin)
     \<and> binWeight bin = (\<Sum>sha \<leftarrow> binComponents bin. picObjectByteWeight (component_at cs sha))
     \<and> (if binOversize bin then length (binComponents bin) = 1 \<and> targetShardWeight policy < binWeight bin
        else binWeight bin \<le> targetShardWeight policy)"

abbreviation all_members :: "placement_bin list \<Rightarrow> string list" where
  "all_members bins \<equiv> concat (map binComponents bins)"

definition place_inv :: "shard_component list \<Rightarrow> shard_policy \<Rightarrow> shard_quotient \<Rightarrow> placement_bin list \<Rightarrow> bool" where
  "place_inv cs policy q bins \<longleftrightarrow> quotient_inv q
     \<and> (\<forall>sha. binByComponentSha256 q sha \<noteq> None \<longleftrightarrow> sha \<in> componentSha256 ` set cs)
     \<and> (\<forall>i j. (i, j) \<in> component_edges cs \<longrightarrow> (\<exists>b d. binByComponentSha256 q (componentSha256 (cs ! i)) = Some b
          \<and> binByComponentSha256 q (componentSha256 (cs ! j)) = Some d \<and> (b = d \<or> (b, d) \<in> quotient_edges q)))
     \<and> (\<forall>i. distinct (members q i))
     \<and> (\<forall>bin \<in> set bins. \<exists>b \<in> set (activeBins q). set (members q b) = set (binComponents bin))
     \<and> (\<forall>sha \<in> componentSha256 ` set cs. sha \<notin> set (all_members bins) \<longrightarrow> (\<exists>b \<in> set (activeBins q). members q b = [sha]))
     \<and> distinct (all_members bins)
     \<and> (\<forall>bin \<in> set bins. bin_ok cs policy bin)"

lemma place_inv_parts:
  assumes "place_inv cs policy q bins"
  shows "quotient_inv q" "\<forall>sha. binByComponentSha256 q sha \<noteq> None \<longleftrightarrow> sha \<in> componentSha256 ` set cs"
    "\<forall>i j. (i, j) \<in> component_edges cs \<longrightarrow> (\<exists>b d. binByComponentSha256 q (componentSha256 (cs ! i)) = Some b
        \<and> binByComponentSha256 q (componentSha256 (cs ! j)) = Some d \<and> (b = d \<or> (b, d) \<in> quotient_edges q))"
    "\<forall>i. distinct (members q i)"
    "\<forall>bin \<in> set bins. \<exists>b \<in> set (activeBins q). set (members q b) = set (binComponents bin)"
    "\<forall>sha \<in> componentSha256 ` set cs. sha \<notin> set (all_members bins) \<longrightarrow> (\<exists>b \<in> set (activeBins q). members q b = [sha])"
    "distinct (all_members bins)" "\<forall>bin \<in> set bins. bin_ok cs policy bin"
  using assms unfolding place_inv_def by - (elim conjE, assumption)+

lemmas place_invD = place_inv_parts [rule_format]

lemma place_invI:
  assumes "quotient_inv q" "\<And>sha. binByComponentSha256 q sha \<noteq> None \<longleftrightarrow> sha \<in> componentSha256 ` set cs"
    "\<And>i j. (i, j) \<in> component_edges cs \<Longrightarrow> \<exists>b d. binByComponentSha256 q (componentSha256 (cs ! i)) = Some b
        \<and> binByComponentSha256 q (componentSha256 (cs ! j)) = Some d \<and> (b = d \<or> (b, d) \<in> quotient_edges q)"
    "\<And>i. distinct (members q i)"
    "\<And>bin. bin \<in> set bins \<Longrightarrow> \<exists>b \<in> set (activeBins q). set (members q b) = set (binComponents bin)"
    "\<And>sha. sha \<in> componentSha256 ` set cs \<Longrightarrow> sha \<notin> set (all_members bins) \<Longrightarrow> \<exists>b \<in> set (activeBins q). members q b = [sha]"
    "distinct (all_members bins)" "\<And>bin. bin \<in> set bins \<Longrightarrow> bin_ok cs policy bin"
  shows "place_inv cs policy q bins"
  unfolding place_inv_def
proof (intro conjI)
  show "quotient_inv q" "distinct (all_members bins)" by (rule assms)+
  show "\<forall>i. distinct (members q i)" using assms(4) by (rule allI)
  show "\<forall>sha. binByComponentSha256 q sha \<noteq> None \<longleftrightarrow> sha \<in> componentSha256 ` set cs"
    using assms(2) by (rule allI)
  show "\<forall>bin \<in> set bins. bin_ok cs policy bin" using assms(8) by (rule ballI)
  show "\<forall>bin \<in> set bins. \<exists>b \<in> set (activeBins q). set (members q b) = set (binComponents bin)"
    using assms(5) by (rule ballI)
  show "\<forall>sha \<in> componentSha256 ` set cs. sha \<notin> set (all_members bins) \<longrightarrow> (\<exists>b \<in> set (activeBins q). members q b = [sha])"
    by (intro ballI impI) (rule assms(6))
  show "\<forall>i j. (i, j) \<in> component_edges cs \<longrightarrow> (\<exists>b d. binByComponentSha256 q (componentSha256 (cs ! i)) = Some b
          \<and> binByComponentSha256 q (componentSha256 (cs ! j)) = Some d \<and> (b = d \<or> (b, d) \<in> quotient_edges q))"
    by (intro allI impI) (rule assms(3))
qed

lemma component_at_member:
  assumes "distinct (map componentSha256 cs)" and "c \<in> set cs"
  shows "component_at cs (componentSha256 c) = c"
proof -
  obtain i where "i < length cs" "cs ! i = c" using assms(2) by (auto simp: in_set_conv_nth)
  then have "componentBySha256 cs (componentSha256 c) = Some i" by (simp add: componentBySha256_iff[OF assms(1)])
  then show ?thesis using \<open>cs ! i = c\<close> by (simp add: component_at_def)
qed

lemma member_bin:
  assumes inv: "quotient_inv q" and "b \<in> set (activeBins q)" and "sha \<in> set (members q b)"
  shows "binByComponentSha256 q sha = Some b" "quotientBinForComponent q sha = Inr b"
proof -
  show "binByComponentSha256 q sha = Some b" using assms unfolding quotient_inv_def by blast
  then show "quotientBinForComponent q sha = Inr b" using assms(2) by (simp add: quotientBinForComponent_def)
qed

lemma distinct_set_singleton: "distinct xs \<Longrightarrow> set xs = {x} \<Longrightarrow> xs = [x]"
  by (cases xs) (auto simp: insert_eq_iff subset_singleton_iff)

lemma concat_update:
  "k < length bins \<Longrightarrow> binComponents b = binComponents (bins ! k) @ [x]
    \<Longrightarrow> mset (all_members (bins[k := b])) = add_mset x (mset (all_members bins))"
proof (induction bins arbitrary: k)
  case (Cons a bins)
  then show ?case by (cases k) auto
qed simp

lemma distinct_concat_disjoint:
  "\<lbrakk>distinct (concat xss); k < length xss; l < length xss; k \<noteq> l\<rbrakk> \<Longrightarrow> set (xss ! k) \<inter> set (xss ! l) = {}"
proof (induction xss arbitrary: k l)
  case (Cons xs xss)
  have tail: "set xs \<inter> set (xss ! m) = {}" if "m < length xss" for m
    using Cons.prems(1) nth_mem[OF that] by (auto simp: disjoint_iff)
  show ?case
  proof (cases k; cases l)
    fix l' assume "k = 0" "l = Suc l'"
    then show ?thesis using Cons.prems tail[of l'] by auto
  next
    fix k' assume "k = Suc k'" "l = 0"
    then show ?thesis using Cons.prems tail[of k'] by auto
  next
    fix k' l' assume "k = Suc k'" "l = Suc l'"
    then show ?thesis using Cons.IH[of k' l'] Cons.prems by simp
  qed (use Cons.prems(4) in simp)
qed simp

lemma contract_bins_distinct:
  assumes "quotient_inv q" "t \<in> set (activeBins q)" "s \<in> set (activeBins q)" "t \<noteq> s" and d: "\<And>i. distinct (members q i)"
  shows "distinct (members (contract_bins t s q) i)"
proof -
  have dep: "members (foldl (merge_dependency t s) p ds) j = members p j" for p ds j
    by (induction ds rule: rev_induct) (auto simp: merge_dependency_def edge_ops Let_def)
  have dnt: "members (foldl (merge_dependent t s) p ds) j = members p j" for p ds j
    by (induction ds rule: rev_induct) (auto simp: merge_dependent_def edge_ops Let_def)
  have mem: "(\<forall>j. distinct (members p j)) \<Longrightarrow> distinct (members (foldl (merge_member t) p shas) j)" for p shas j
    by (induction shas arbitrary: j rule: rev_induct) (auto simp: merge_member_def js_set_add.simps)
  show ?thesis unfolding contract_bins_def Let_def
    using d assms(4) by (auto simp: edge_ops dep dnt intro!: mem)
qed

lemma place_contract:
  assumes inv: "place_inv cs policy q bins" and dist: "distinct (map componentSha256 cs)"
    and c: "c \<in> set cs" "componentSha256 c \<notin> set (all_members bins)" "sharedEligible c"
    and k: "k < length bins" "occurrenceCohortSha256s c = binOccurrences (bins ! k)" "\<not> binOversize (bins ! k)"
      "binWeight (bins ! k) + picObjectByteWeight c \<le> targetShardWeight policy"
    and t: "t \<in> set (activeBins q)" "set (members q t) = set (binComponents (bins ! k))"
    and s: "s \<in> set (activeBins q)" "members q s = [componentSha256 c]"
    and acyc: "\<not> indirect (quotient_edges q) t s" "\<not> indirect (quotient_edges q) s t"
  shows "place_inv cs policy (contract_bins t s q)
    (bins[k := (bins ! k)\<lparr>binComponents := binComponents (bins ! k) @ [componentSha256 c],
                         binWeight := binWeight (bins ! k) + picObjectByteWeight c\<rparr>])"
proof -
  note I = place_invD[OF inv]
  let ?q = "contract_bins t s q" and ?x = "componentSha256 c"
  let ?b = "(bins ! k)\<lparr>binComponents := binComponents (bins ! k) @ [?x], binWeight := binWeight (bins ! k) + picObjectByteWeight c\<rparr>"
  have xk: "?x \<notin> set (binComponents (bins ! k))" using c(2) k(1) by auto
  then have ts: "t \<noteq> s" using t(2) s(2) by auto
  note C = contract_bins_effect[OF I(1) t(1) s(1) ts]
  have by': "binByComponentSha256 ?q sha = map_option (merged t s) (binByComponentSha256 q sha)" for sha
  proof -
    have "sha \<in> set (members q s) \<longleftrightarrow> binByComponentSha256 q sha = Some s"
      using I(1) s(1) unfolding quotient_inv_def by blast
    then show ?thesis unfolding C(6) by (cases "binByComponentSha256 q sha") (auto simp: merged_def)
  qed
  have ms: "mset (all_members (bins[k := ?b])) = add_mset ?x (mset (all_members bins))"
    by (rule concat_update[OF k(1)]) simp
  then have set': "set (all_members (bins[k := ?b])) = insert ?x (set (all_members bins))"
    by (metis set_mset_add_mset_insert set_mset_mset)
  show ?thesis
  proof (rule place_invI)
    show "quotient_inv ?q" by (rule contract_bins_inv[OF I(1) t(1) s(1) ts acyc])
    show "binByComponentSha256 ?q sha \<noteq> None \<longleftrightarrow> sha \<in> componentSha256 ` set cs" for sha
      unfolding by' using I(2)[of sha] by simp
    show "\<exists>b d. binByComponentSha256 ?q (componentSha256 (cs ! i)) = Some b
        \<and> binByComponentSha256 ?q (componentSha256 (cs ! j)) = Some d \<and> (b = d \<or> (b, d) \<in> quotient_edges ?q)"
      if "(i, j) \<in> component_edges cs" for i j
      unfolding by' contract_bins_edges[OF I(1) t(1) s(1) ts] contract_iff using I(3)[OF that] by auto
    show "distinct (members ?q i)" for i by (rule contract_bins_distinct[OF I(1) t(1) s(1) ts I(4)])
    show "distinct (all_members (bins[k := ?b]))" using ms I(7) c(2) by (metis distinct.simps(2) mset.simps(2) mset_eq_imp_distinct_iff)
    show "\<exists>b \<in> set (activeBins ?q). set (members ?q b) = set (binComponents bin)" if "bin \<in> set (bins[k := ?b])" for bin
    proof -
      obtain l where l: "l < length bins" "bin = bins[k := ?b] ! l" using \<open>bin \<in> _\<close> by (auto simp: in_set_conv_nth)
      show ?thesis
      proof (cases "l = k")
        case True
        then show ?thesis using l k(1) t ts s(2) unfolding C(2,5) by (intro bexI[of _ t]) auto
      next
        case False
        then have bin: "bin = bins ! l" "bin \<in> set bins" using l by auto
        obtain b where b: "b \<in> set (activeBins q)" "set (members q b) = set (binComponents bin)" using I(5)[OF bin(2)] by blast
        have "set (binComponents bin) \<inter> set (binComponents (bins ! k)) = {}"
          using distinct_concat_disjoint[OF I(7), of l k] l(1) k(1) False bin(1) by simp
        moreover have "binComponents bin \<noteq> []" using I(8)[OF bin(2)] by (simp add: bin_ok_def)
        ultimately have "b \<noteq> t" using b(2) t(2) by auto
        moreover have "b \<noteq> s" using b(2) s(2) c(2) bin(2) by auto
        ultimately show ?thesis using b unfolding C(2,5) by (intro bexI[of _ b]) auto
      qed
    qed
    show "\<exists>b \<in> set (activeBins ?q). members ?q b = [sha]"
      if sha: "sha \<in> componentSha256 ` set cs" "sha \<notin> set (all_members (bins[k := ?b]))" for sha
    proof -
      have sha': "sha \<noteq> ?x" "sha \<notin> set (all_members bins)" using sha(2) unfolding set' by auto
      obtain b where b: "b \<in> set (activeBins q)" "members q b = [sha]" using I(6)[OF sha(1) sha'(2)] by blast
      have "sha \<notin> set (binComponents (bins ! k))" using sha'(2) k(1) by auto
      then have "b \<noteq> t" using b(2) t(2) by auto
      moreover have "b \<noteq> s" using b(2) s(2) sha'(1) by auto
      ultimately have "set (members ?q b) = {sha}" "b \<in> set (activeBins ?q)" using b unfolding C(2,5) by auto
      then show ?thesis using contract_bins_distinct[OF I(1) t(1) s(1) ts I(4), of b]
        by (metis distinct_set_singleton)
    qed
    show "bin_ok cs policy bin" if "bin \<in> set (bins[k := ?b])" for bin
    proof -
      have old: "bin_ok cs policy (bins ! k)" using I(8) k(1) by simp
      have "bin_ok cs policy ?b"
        using old k(2-4) c component_at_member[OF dist c(1)] by (auto simp: bin_ok_def)
      then show ?thesis using that I(8) set_update_subset_insert[of bins k ?b] by blast
    qed
  qed
qed

end
