(* ===== verification/ShardOrder.thy ===== *)
theory ShardOrder
  imports ShardPlan
begin

text \<open>
  \<open>orderShards\<close> is Kahn's algorithm: it returns a topological order of the shards exactly when their
  dependency graph is acyclic.
\<close>

definition shard_deps :: "physical_shard list \<Rightarrow> string \<Rightarrow> string list" where
  "shard_deps shards sha = (case map_of (map (\<lambda>s. (shardSha256 s, shardDependencies s)) shards) sha of
     None \<Rightarrow> [] | Some ds \<Rightarrow> ds)"

abbreviation shard_ids :: "physical_shard list \<Rightarrow> string set" where
  "shard_ids shards \<equiv> shardSha256 ` set shards"

definition shard_edges :: "physical_shard list \<Rightarrow> (string \<times> string) set" where
  "shard_edges shards = {(x, y). x \<in> shard_ids shards \<and> y \<in> set (shard_deps shards x)}"

definition well_linked :: "physical_shard list \<Rightarrow> bool" where
  "well_linked shards \<longleftrightarrow> distinct (map shardSha256 shards)
     \<and> (\<forall>s \<in> set shards. distinct (shardDependencies s) \<and> set (shardDependencies s) \<subseteq> shard_ids shards)"

fun topological :: "(string \<Rightarrow> string list) \<Rightarrow> string set \<Rightarrow> string list \<Rightarrow> bool" where
  "topological D before [] = True"
| "topological D before (x # xs) = (set (D x) \<subseteq> before \<and> topological D (insert x before) xs)"

lemma topological_append:
  "topological D B (xs @ [x]) \<longleftrightarrow> topological D B xs \<and> set (D x) \<subseteq> B \<union> set xs"
  by (induction xs arbitrary: B) auto

lemma topological_nth:
  "topological D B xs \<Longrightarrow> k < length xs \<Longrightarrow> set (D (xs ! k)) \<subseteq> B \<union> set (take k xs)"
proof (induction xs arbitrary: B k)
  case (Cons x xs)
  show ?case
  proof (cases k)
    case (Suc j)
    then show ?thesis using Cons.IH[of "insert x B" j] Cons.prems by simp
  qed (use Cons.prems in simp)
qed simp

lemma topological_acyclic:
  assumes "topological D {} xs" and "distinct xs" and "\<And>x y. (x, y) \<in> E \<Longrightarrow> x \<in> set xs \<and> y \<in> set (D x)"
  shows "acyclic E"
proof -
  have before: "y \<in> set (take k xs)" if "(xs ! k, y) \<in> E" "k < length xs" for k y
    using topological_nth[OF assms(1) that(2)] assms(3)[OF that(1)] by auto
  have path: "y \<in> set (take k xs)" if "(x, y) \<in> E\<^sup>+" "x = xs ! k" "k < length xs" for x y k
    using that
  proof (induction rule: trancl_induct)
    case (base y)
    then show ?case using before[of k y] by simp
  next
    case (step y z)
    then obtain j where j: "j < k" "y = xs ! j" "j < length xs" by (auto simp: in_set_conv_nth)
    then have "z \<in> set (take j xs)" using before step(2) by blast
    then show ?case using j(1) set_take_subset_set_take[of j k xs] by auto
  qed
  have "(x, x) \<notin> E\<^sup>+" for x
  proof
    assume xx: "(x, x) \<in> E\<^sup>+"
    then obtain y where "(x, y) \<in> E" by (meson tranclD)
    then obtain k where k: "k < length xs" "x = xs ! k" using assms(3) by (metis in_set_conv_nth)
    then have "xs ! k \<in> set (take k xs)" using path[OF xx] by blast
    then show False using assms(2) k(1) by (auto simp: in_set_conv_nth nth_eq_iff_index_eq)
  qed
  then show ?thesis by (simp add: acyclic_def)
qed

section \<open>The loop\<close>

lemma shard_deps_member:
  "\<lbrakk>well_linked shards; s \<in> set shards\<rbrakk> \<Longrightarrow> shard_deps shards (shardSha256 s) = shardDependencies s"
proof -
  assume wl: "well_linked shards" and s: "s \<in> set shards"
  have "map_of (map (\<lambda>s. (shardSha256 s, shardDependencies s)) shards) (shardSha256 s) = Some (shardDependencies s)"
    by (rule map_of_is_SomeI) (use wl s in \<open>auto simp: well_linked_def comp_def\<close>)
  then show ?thesis by (simp add: shard_deps_def)
qed

lemma dependents_of_set:
  assumes "well_linked shards"
  shows "set (dependents_of shards x) = {y \<in> shard_ids shards. x \<in> set (shard_deps shards y)}"
proof -
  have "y \<in> set (dependents_of shards x) \<longleftrightarrow> (\<exists>s \<in> set shards. y = shardSha256 s \<and> x \<in> set (shardDependencies s))" for y
    by (auto simp: dependents_of_def)
  also have "\<dots> y \<longleftrightarrow> y \<in> shard_ids shards \<and> x \<in> set (shard_deps shards y)" for y
    using shard_deps_member[OF assms] by auto
  finally show ?thesis by blast
qed

lemma dependents_of_distinct:
  assumes "distinct (map shardSha256 shards)" "\<forall>s \<in> set shards. distinct (shardDependencies s)"
  shows "distinct (dependents_of shards x)"
  using assms
proof (induction shards)
  case Nil
  then show ?case by (simp add: dependents_of_def)
next
  case (Cons s shards)
  have "filter (\<lambda>d. d = x) ds \<in> {[], [x]}" if "distinct ds" for ds
    using that by (induction ds) (auto simp: filter_empty_conv)
  then have "distinct (map (\<lambda>_. shardSha256 s) (filter (\<lambda>d. d = x) (shardDependencies s)))"
    using Cons.prems(2) by (metis (no_types, lifting) distinct.simps insertE list.map list.set_intros(1) empty_iff singletonD distinct_singleton)
  moreover have "distinct (dependents_of shards x)" using Cons by simp
  moreover have "shardSha256 s \<notin> set (dependents_of shards x)"
    using Cons.prems(1) dependents_of_known[of shards x] by auto
  ultimately show ?case by (auto simp: dependents_of_def)
qed

lemma release_all:
  "distinct ds \<Longrightarrow> foldl release_dependent (remaining, ready) ds =
     (\<lambda>y. if y \<in> set ds then remaining y - 1 else remaining y, ready @ filter (\<lambda>d. remaining d = 1) ds)"
proof (induction ds rule: rev_induct)
  case (snoc d ds)
  then show ?case by (auto simp: release_dependent_def Let_def)
qed simp

definition kahn_inv :: "physical_shard list \<Rightarrow> (string \<Rightarrow> int) \<Rightarrow> string list \<Rightarrow> string list \<Rightarrow> bool" where
  "kahn_inv shards remaining ready order \<longleftrightarrow>
     distinct (order @ ready)
     \<and> (\<forall>y \<in> shard_ids shards. remaining y = int (card (set (shard_deps shards y) - set order)))
     \<and> set (order @ ready) \<subseteq> shard_ids shards
     \<and> (\<forall>y \<in> shard_ids shards. y \<in> set (order @ ready) \<longleftrightarrow> set (shard_deps shards y) \<subseteq> set order)
     \<and> topological (shard_deps shards) {} order"

lemma kahn_step:
  assumes wl: "well_linked shards" and inv: "kahn_inv shards remaining (x # ready) order"
    and step: "foldl release_dependent (remaining, ready) (sort_strings (dependents_of shards x)) = (remaining', ready')"
  shows "kahn_inv shards remaining' (sort_strings ready') (order @ [x])"
proof -
  let ?D = "shard_deps shards" and ?ds = "sort_strings (dependents_of shards x)"
  have d: "distinct ?ds" using dependents_of_distinct wl by (simp add: well_linked_def)
  have ds: "set ?ds = {y \<in> shard_ids shards. x \<in> set (?D y)}" by (simp add: dependents_of_set[OF wl])
  have rem': "remaining' = (\<lambda>y. if y \<in> set ?ds then remaining y - 1 else remaining y)"
    and ready': "ready' = ready @ filter (\<lambda>d. remaining d = 1) ?ds"
    using step unfolding release_all[OF d] by simp_all
  have I: "distinct (order @ x # ready)"
      "\<And>y. y \<in> shard_ids shards \<Longrightarrow> remaining y = int (card (set (?D y) - set order))"
      "set (order @ x # ready) \<subseteq> shard_ids shards"
      "\<And>y. y \<in> shard_ids shards \<Longrightarrow> y \<in> set (order @ x # ready) \<longleftrightarrow> set (?D y) \<subseteq> set order"
      "topological ?D {} order"
    using inv unfolding kahn_inv_def by blast+
  have x: "x \<in> shard_ids shards" "x \<notin> set order" "set (?D x) \<subseteq> set order" using I(1,3) I(4)[of x] by auto
  have diff: "set (?D y) - set (order @ [x]) = (set (?D y) - set order) - {x}" for y by auto
  have card': "card (set (?D y) - set (order @ [x])) = (if x \<in> set (?D y) then card (set (?D y) - set order) - 1
      else card (set (?D y) - set order))" for y
    unfolding diff using x(2) by (auto simp: card_Diff_singleton)
  have pos: "0 < card (set (?D y) - set order)" if "x \<in> set (?D y)" for y
    using that x(2) by (auto simp: card_gt_0_iff)
  have rem2: "remaining' y = int (card (set (?D y) - set (order @ [x])))" if y: "y \<in> shard_ids shards" for y
    using I(2)[OF y] pos[of y] y ds unfolding rem' card' by auto
  have one: "set (filter (\<lambda>d. remaining d = 1) ?ds) = {y \<in> shard_ids shards. x \<in> set (?D y) \<and> set (?D y) \<subseteq> set (order @ [x])}"
  proof -
    have "remaining y = 1 \<longleftrightarrow> set (?D y) \<subseteq> set (order @ [x])" if y: "y \<in> shard_ids shards" "x \<in> set (?D y)" for y
    proof -
      have "remaining y = 1 \<longleftrightarrow> card (set (?D y) - set (order @ [x])) = 0"
        using I(2)[OF y(1)] pos[OF y(2)] y(2) unfolding card' by auto
      then show ?thesis by auto
    qed
    then show ?thesis using ds by auto
  qed
  have new: "set (filter (\<lambda>d. remaining d = 1) ?ds) \<inter> set (order @ x # ready) = {}"
    using one I(4) x(2) by auto
  have "set (order @ [x]) \<union> set (sort_strings ready') = set (order @ x # ready) \<union> set (filter (\<lambda>d. remaining d = 1) ?ds)"
    unfolding ready' by auto
  then have all: "set ((order @ [x]) @ sort_strings ready') = set (order @ x # ready) \<union> set (filter (\<lambda>d. remaining d = 1) ?ds)"
    by simp
  show ?thesis unfolding kahn_inv_def
  proof (intro conjI ballI)
    show "distinct ((order @ [x]) @ sort_strings ready')" using I(1) new d unfolding ready' by auto
    show "remaining' y = int (card (set (?D y) - set (order @ [x])))" if "y \<in> shard_ids shards" for y
      by (rule rem2[OF that])
    show "set ((order @ [x]) @ sort_strings ready') \<subseteq> shard_ids shards" unfolding all using I(3) one by auto
    show "y \<in> set ((order @ [x]) @ sort_strings ready') \<longleftrightarrow> set (?D y) \<subseteq> set (order @ [x])" if y: "y \<in> shard_ids shards" for y
      unfolding all one using I(4)[OF y] y by auto
    show "topological ?D {} (order @ [x])" using I(5) x(3) by (simp add: topological_append)
  qed
qed

lemma kahn_loop:
  assumes wl: "well_linked shards"
  shows "kahn_inv shards remaining ready order \<Longrightarrow> \<exists>remaining'. kahn_inv shards remaining' [] (order_loop shards remaining ready order)"
  using wl
proof (induction shards remaining ready order rule: order_loop.induct)
  case (2 shards remaining sha ready order)
  obtain remaining' ready' where r: "foldl release_dependent (remaining, ready) (sort_strings (dependents_of shards sha)) = (remaining', ready')"
    by fastforce
  have "kahn_inv shards remaining' (sort_strings ready') (order @ [sha])" by (rule kahn_step[OF "2.prems"(2,1) r])
  then have "\<exists>rem. kahn_inv shards rem [] (order_loop shards remaining' (sort_strings ready') (order @ [sha]))"
    using "2.IH"[OF r[symmetric] refl] "2.prems"(2) by blast
  then show ?case by (simp add: r)
qed auto

lemma kahn_result:
  assumes wl: "well_linked shards" and inv: "kahn_inv shards remaining [] order"
  shows "distinct order" "set order \<subseteq> shard_ids shards" "topological (shard_deps shards) {} order"
    "acyclic (shard_edges shards) \<longleftrightarrow> set order = shard_ids shards"
proof -
  have I: "distinct order" "set order \<subseteq> shard_ids shards"
      "\<And>y. y \<in> shard_ids shards \<Longrightarrow> y \<in> set order \<longleftrightarrow> set (shard_deps shards y) \<subseteq> set order"
      "topological (shard_deps shards) {} order"
    using inv unfolding kahn_inv_def by auto
  show "distinct order" "set order \<subseteq> shard_ids shards" "topological (shard_deps shards) {} order" by (fact I)+
  show "acyclic (shard_edges shards) \<longleftrightarrow> set order = shard_ids shards"
  proof
    assume "set order = shard_ids shards"
    then show "acyclic (shard_edges shards)"
      by (intro topological_acyclic[OF I(4,1)]) (auto simp: shard_edges_def)
  next
    assume acyc: "acyclic (shard_edges shards)"
    have known: "set (shard_deps shards y) \<subseteq> shard_ids shards" if y: "y \<in> shard_ids shards" for y
    proof -
      obtain s where "s \<in> set shards" "y = shardSha256 s" using y by blast
      then show ?thesis using shard_deps_member[OF wl] wl by (auto simp: well_linked_def)
    qed
    have "shard_edges shards \<subseteq> shard_ids shards \<times> shard_ids shards" using known by (auto simp: shard_edges_def)
    then have "finite (shard_edges shards)" by (rule finite_subset) simp
    then have wf: "wf ((shard_edges shards)\<inverse>)" using acyc by (rule finite_acyclic_wf_converse)
    show "set order = shard_ids shards"
    proof (rule ccontr)
      assume "set order \<noteq> shard_ids shards"
      then obtain u where "u \<in> shard_ids shards - set order" using I(2) by blast
      from wfE_min[OF wf this] obtain z where z: "z \<in> shard_ids shards - set order"
        "\<And>y. (y, z) \<in> (shard_edges shards)\<inverse> \<Longrightarrow> y \<notin> shard_ids shards - set order" by metis
      have "set (shard_deps shards z) \<subseteq> set order"
      proof
        fix y assume "y \<in> set (shard_deps shards z)"
        then have "(y, z) \<in> (shard_edges shards)\<inverse>" "y \<in> shard_ids shards" using z(1) known by (auto simp: shard_edges_def)
        then show "y \<in> set order" using z(2) by blast
      qed
      then show False using I(3)[of z] z(1) by blast
    qed
  qed
qed

lemma orderShards_cases:
  assumes wl: "well_linked shards"
  shows "(acyclic (shard_edges shards) \<longrightarrow> (\<exists>order. orderShards shards = Inr order
       \<and> mset order = mset (map shardSha256 shards) \<and> topological (shard_deps shards) {} order))
   \<and> (\<not> acyclic (shard_edges shards) \<longrightarrow>
       orderShards shards = planner_fail ''physical shard dependencies contain a cycle'')"
proof -
  define rem where "rem = (\<lambda>sha. case map_of (map (\<lambda>s. (shardSha256 s, int (length (shardDependencies s)))) (rev shards)) sha of
            None \<Rightarrow> 0 | Some n \<Rightarrow> n)"
  define ready where "ready = sort_strings (map shardSha256 (filter (\<lambda>s. rem (shardSha256 s) = 0) shards))"
  let ?order = "order_loop shards rem ready []"
  have dist: "distinct (map shardSha256 shards)" using wl by (simp add: well_linked_def)
  have rem: "rem (shardSha256 s) = int (length (shardDependencies s))" if s: "s \<in> set shards" for s
  proof -
    have "map_of (map (\<lambda>s. (shardSha256 s, int (length (shardDependencies s)))) (rev shards)) (shardSha256 s)
        = Some (int (length (shardDependencies s)))"
      by (rule map_of_is_SomeI) (use dist s in \<open>auto simp: comp_def rev_map[symmetric]\<close>)
    then show ?thesis by (simp add: rem_def)
  qed
  have set_ready: "set ready = {y \<in> shard_ids shards. rem y = 0}" by (auto simp: ready_def)
  have card: "rem (shardSha256 s) = int (card (set (shard_deps shards (shardSha256 s))))" if s: "s \<in> set shards" for s
    using rem[OF s] shard_deps_member[OF wl s] wl s by (simp add: well_linked_def distinct_card)
  have "kahn_inv shards rem ready []"
    unfolding kahn_inv_def
  proof (intro conjI ballI)
    show "distinct ([] @ ready)" using dist by (simp add: ready_def distinct_map_filter)
    show "rem y = int (card (set (shard_deps shards y) - set []))" if "y \<in> shard_ids shards" for y
      using that card by auto
    show "set ([] @ ready) \<subseteq> shard_ids shards" using set_ready by simp
    show "y \<in> set ([] @ ready) \<longleftrightarrow> set (shard_deps shards y) \<subseteq> set []" if y: "y \<in> shard_ids shards" for y
    proof -
      have "y \<in> set ready \<longleftrightarrow> rem y = 0" using y set_ready by simp
      also have "\<dots> \<longleftrightarrow> set (shard_deps shards y) = {}" using y card by auto
      finally show ?thesis by simp
    qed
  qed simp
  then obtain rem' where inv: "kahn_inv shards rem' [] ?order" using kahn_loop[OF wl] by blast
  note R = kahn_result[OF wl inv]
  have known: "\<not> (\<exists>shard \<in> set shards. \<exists>d \<in> set (shardDependencies shard). d \<notin> shard_ids shards)"
    using wl by (auto simp: well_linked_def)
  have "length ?order = length shards \<longleftrightarrow> set ?order = shard_ids shards"
  proof
    assume "length ?order = length shards"
    then have "card (set ?order) = card (shard_ids shards)"
      using R(1) dist by (metis distinct_card length_map list.set_map)
    then show "set ?order = shard_ids shards" using R(2) by (simp add: card_subset_eq)
  next
    assume "set ?order = shard_ids shards"
    then show "length ?order = length shards" using R(1) dist by (metis distinct_card length_map list.set_map)
  qed
  then have res: "orderShards shards = (if acyclic (shard_edges shards) then Inr ?order
      else planner_fail ''physical shard dependencies contain a cycle'')"
    unfolding orderShards_def R(4) rem_def[symmetric] ready_def[symmetric] Let_def
    using known by (simp add: planner_failWhen_def del: js_sort.simps)
  have "mset ?order = mset (map shardSha256 shards)" if "acyclic (shard_edges shards)"
    using that R(1,4) dist set_eq_iff_mset_eq_distinct[of ?order "map shardSha256 shards"] by simp
  then show ?thesis using res R(3) by auto
qed

text \<open>C5: When the shards have distinct identities and link only to one another, \<open>orderShards\<close> returns them
  in an order in which every shard follows all its dependencies, each exactly once, if their graph has
  no cycle, and reports a cycle otherwise.\<close>

theorem orderShards_topological:
  assumes "well_linked shards"
  shows "(acyclic (shard_edges shards) \<longrightarrow> (\<exists>order. orderShards shards = Inr order
       \<and> mset order = mset (map shardSha256 shards) \<and> topological (shard_deps shards) {} order))
   \<and> (\<not> acyclic (shard_edges shards) \<longrightarrow>
       orderShards shards = planner_fail ''physical shard dependencies contain a cycle'')"
  by (rule orderShards_cases[OF assms])

definition sample_shard :: "string \<Rightarrow> string list \<Rightarrow> physical_shard" where
  "sample_shard sha ds = \<lparr>shardComponentBindings = [], shardComponents = [], shardDependencies = ds,
     shardOversize = False, shardWeight = 1, shardSha256 = sha\<rparr>"

theorem orderShards_topological_witness:
  "orderShards [sample_shard ''a'' [''c''], sample_shard ''b'' [''a''], sample_shard ''c'' []] = Inr [''c'', ''a'', ''b'']
   \<and> acyclic (shard_edges [sample_shard ''a'' [''c''], sample_shard ''b'' [''a''], sample_shard ''c'' []])"
proof
  let ?shards = "[sample_shard ''a'' [''c''], sample_shard ''b'' [''a''], sample_shard ''c'' []]"
  show 1: "orderShards ?shards = Inr [''c'', ''a'', ''b'']" by code_simp
  have "well_linked ?shards" by (simp add: well_linked_def sample_shard_def)
  then have "\<not> acyclic (shard_edges ?shards) \<Longrightarrow>
      orderShards ?shards = planner_fail ''physical shard dependencies contain a cycle''"
    using orderShards_topological by blast
  then show "acyclic (shard_edges ?shards)" unfolding 1 planner_fail_def by (cases "acyclic (shard_edges ?shards)") simp_all
qed

end
