(* ===== verification/ShardPlacementCorrect.thy ===== *)
theory ShardPlacementCorrect
  imports ShardPlacement ShardOrder
begin

text \<open>
  The whole of \<open>placeSharedComponents\<close>: it never fails on the components that \<open>buildComponents\<close> can
  return, and its bins have the promised shape.
\<close>

section \<open>One component\<close>

definition fitting_candidate :: "shard_policy \<Rightarrow> shard_component \<Rightarrow> placement_bin list \<Rightarrow> placement_bin \<times> nat \<Rightarrow> bool" where
  "fitting_candidate policy c bins = (\<lambda>(bin, k). k < length bins \<and> bins ! k = bin
     \<and> picObjectByteWeight c \<le> targetShardWeight policy - binWeight bin \<and> occurrenceCohortSha256s c = binOccurrences bin)"

lemma placement_candidates_fit:
  "x \<in> set (placement_candidates cs policy c bins) \<Longrightarrow> fitting_candidate policy c bins x"
  by (auto simp: placement_candidates_def fitting_candidate_def in_set_zip)

definition added_to_bin :: "placement_bin list \<Rightarrow> nat \<Rightarrow> shard_component \<Rightarrow> placement_bin list" where
  "added_to_bin bins k c = bins[k := (bins ! k)\<lparr>binComponents := binComponents (bins ! k) @ [componentSha256 c],
                         binWeight := binWeight (bins ! k) + picObjectByteWeight c\<rparr>]"

lemma place_in_candidates_ok:
  assumes inv: "place_inv cs policy q bins" and dist: "distinct (map componentSha256 cs)"
    and c: "c \<in> set cs" "componentSha256 c \<notin> set (all_members bins)" "sharedEligible c" "0 \<le> picObjectByteWeight c"
    and target: "targetShardWeight policy \<le> max_safe_integer"
  shows "(\<And>x. x \<in> set candidates \<Longrightarrow> fitting_candidate policy c bins x) \<Longrightarrow>
    place_in_candidates c q bins candidates = Inr (False, q, bins)
    \<or> (\<exists>k q'. place_in_candidates c q bins candidates = Inr (True, q', added_to_bin bins k c)
         \<and> k < length bins \<and> place_inv cs policy q' (added_to_bin bins k c))"
proof (induction candidates)
  case (Cons cand candidates)
  note I = place_invD[OF inv]
  obtain bin k where cand: "cand = (bin, k)" by (cases cand)
  have k: "k < length bins" "bins ! k = bin" "picObjectByteWeight c \<le> targetShardWeight policy - binWeight bin"
      "occurrenceCohortSha256s c = binOccurrences bin"
    using Cons.prems[of cand] by (auto simp: cand fitting_candidate_def)
  have bin: "bin \<in> set bins" using k(1,2) nth_mem by blast
  have ok: "bin_ok cs policy bin" by (rule I(8)[OF bin])
  then obtain first rest where fr: "binComponents bin = first # rest" by (cases "binComponents bin") (auto simp: bin_ok_def)
  have small: "\<not> binOversize bin" using ok k(3) c(4) by (auto simp: bin_ok_def split: if_splits)
  obtain t where t: "t \<in> set (activeBins q)" "set (members q t) = set (binComponents bin)" using I(5)[OF bin] by blast
  obtain s where s: "s \<in> set (activeBins q)" "members q s = [componentSha256 c]" using I(6)[of "componentSha256 c"] c(1,2) by blast
  have qt: "quotientBinForComponent q first = Inr t" using member_bin(2)[OF I(1) t(1), of first] t(2) fr by simp
  have qs: "quotientBinForComponent q (componentSha256 c) = Inr s" using member_bin(2)[OF I(1) s(1), of "componentSha256 c"] s(2) by simp
  have "componentSha256 c \<notin> set (binComponents bin)" using c(2) bin by auto
  then have ts: "t \<noteq> s" using t(2) s(2) by auto
  have sum: "binWeight bin + picObjectByteWeight c \<le> targetShardWeight policy" using k(3) by simp
  show ?case
  proof (cases "indirect (quotient_edges q) t s \<or> indirect (quotient_edges q) s t")
    case True
    then have "place_in_candidates c q bins (cand # candidates) = place_in_candidates c q bins candidates"
      using mergeQuotientBins_cases[OF I(1) t(1) s(1) ts] by (simp add: cand k(2) fr qt qs)
    then show ?thesis using Cons by simp
  next
    case False
    have "addSafeIntegers (binWeight bin) (picObjectByteWeight c) d = Inr (binWeight bin + picObjectByteWeight c)" for d
      using sum target by (simp add: addSafeIntegers_Inr_iff)
    then have "place_in_candidates c q bins (cand # candidates) = Inr (True, contract_bins t s q, added_to_bin bins k c)"
      using mergeQuotientBins_cases[OF I(1) t(1) s(1) ts] False by (simp add: cand k(2) fr qt qs added_to_bin_def)
    moreover have "place_inv cs policy (contract_bins t s q) (added_to_bin bins k c)"
      unfolding added_to_bin_def
      by (rule place_contract[OF inv dist c(1-3) k(1) _ _ _ t(1) _ s]) (use k small sum t(2) False in auto)
    ultimately show ?thesis using k(1) by blast
  qed
qed simp

lemma place_component_ok:
  assumes inv: "place_inv cs policy q bins" and dist: "distinct (map componentSha256 cs)"
    and c: "c \<in> set cs" "componentSha256 c \<notin> set (all_members bins)" "sharedEligible c" "0 \<le> picObjectByteWeight c"
      "picObjectByteWeight c \<le> targetShardWeight policy"
    and target: "targetShardWeight policy \<le> max_safe_integer"
  shows "\<exists>q' bins'. place_component cs policy (q, bins) c = Inr (q', bins') \<and> place_inv cs policy q' bins'
     \<and> mset (all_members bins') = add_mset (componentSha256 c) (mset (all_members bins))"
proof -
  note I = place_invD[OF inv]
  consider (no) "place_in_candidates c q bins (placement_candidates cs policy c bins) = Inr (False, q, bins)"
    | (yes) k q' where "place_in_candidates c q bins (placement_candidates cs policy c bins) = Inr (True, q', added_to_bin bins k c)"
        "k < length bins" "place_inv cs policy q' (added_to_bin bins k c)"
    using place_in_candidates_ok[where candidates = "placement_candidates cs policy c bins",
        OF inv dist c(1-4) target placement_candidates_fit[where cs = cs]] by blast
  then show ?thesis
  proof cases
    case no
    obtain s where s: "s \<in> set (activeBins q)" "members q s = [componentSha256 c]" using I(6)[of "componentSha256 c"] c(1,2) by blast
    have "place_inv cs policy q (bins @ [single_bin False c])"
    proof (rule place_invI)
      show "quotient_inv q" by (rule I(1))
      show "distinct (members q i)" for i by (rule I(4))
      show "binByComponentSha256 q sha \<noteq> None \<longleftrightarrow> sha \<in> componentSha256 ` set cs" for sha by (rule I(2))
      show "\<exists>b d. binByComponentSha256 q (componentSha256 (cs ! i)) = Some b
        \<and> binByComponentSha256 q (componentSha256 (cs ! j)) = Some d \<and> (b = d \<or> (b, d) \<in> quotient_edges q)"
        if "(i, j) \<in> component_edges cs" for i j by (rule I(3)[OF that])
      show "distinct (all_members (bins @ [single_bin False c]))" using I(7) c(2) by (auto simp: single_bin_def)
      show "\<exists>b \<in> set (activeBins q). set (members q b) = set (binComponents bin)" if "bin \<in> set (bins @ [single_bin False c])" for bin
      proof (cases "bin \<in> set bins")
        case False
        then have "bin = single_bin False c" using that by simp
        then show ?thesis using s by (intro bexI[of _ s]) (simp_all add: single_bin_def)
      qed (rule I(5))
      show "\<exists>b \<in> set (activeBins q). members q b = [sha]"
        if "sha \<in> componentSha256 ` set cs" "sha \<notin> set (all_members (bins @ [single_bin False c]))" for sha
        using that by (intro I(6)) auto
      show "bin_ok cs policy bin" if "bin \<in> set (bins @ [single_bin False c])" for bin
      proof -
        have "bin_ok cs policy (single_bin False c)"
          using c component_at_member[OF dist c(1)] by (auto simp: bin_ok_def single_bin_def)
        then show ?thesis using that I(8) by auto
      qed
    qed
    moreover have "place_component cs policy (q, bins) c = Inr (q, bins @ [single_bin False c])"
      by (simp add: place_component_def no)
    ultimately show ?thesis by (intro exI conjI) (auto simp: single_bin_def)
  next
    case yes
    have "mset (all_members (added_to_bin bins k c)) = add_mset (componentSha256 c) (mset (all_members bins))"
      unfolding added_to_bin_def by (rule concat_update[OF yes(2)]) simp
    moreover have "place_component cs policy (q, bins) c = Inr (q', added_to_bin bins k c)"
      by (simp add: place_component_def yes(1))
    ultimately show ?thesis using yes(3) by blast
  qed
qed

lemma place_components_ok:
  assumes dist: "distinct (map componentSha256 cs)" and target: "targetShardWeight policy \<le> max_safe_integer"
  shows "\<lbrakk>place_inv cs policy q bins; distinct (map componentSha256 xs);
      \<And>c. c \<in> set xs \<Longrightarrow> c \<in> set cs \<and> componentSha256 c \<notin> set (all_members bins) \<and> sharedEligible c
        \<and> 0 \<le> picObjectByteWeight c \<and> picObjectByteWeight c \<le> targetShardWeight policy\<rbrakk>
    \<Longrightarrow> \<exists>q' bins'. foldR (place_component cs policy) (q, bins) xs = Inr (q', bins') \<and> place_inv cs policy q' bins'
       \<and> mset (all_members bins') = mset (map componentSha256 xs) + mset (all_members bins)"
proof (induction xs arbitrary: q bins)
  case (Cons c xs)
  obtain q1 bins1 where 1: "place_component cs policy (q, bins) c = Inr (q1, bins1)" "place_inv cs policy q1 bins1"
    "mset (all_members bins1) = add_mset (componentSha256 c) (mset (all_members bins))"
    using place_component_ok[OF Cons.prems(1) dist _ _ _ _ _ target, of c] Cons.prems(3)[of c] by auto
  have set1: "set (all_members bins1) = insert (componentSha256 c) (set (all_members bins))"
    using 1(3) by (metis set_mset_add_mset_insert set_mset_mset)
  have "x \<in> set cs \<and> componentSha256 x \<notin> set (all_members bins1) \<and> sharedEligible x
        \<and> 0 \<le> picObjectByteWeight x \<and> picObjectByteWeight x \<le> targetShardWeight policy" if x: "x \<in> set xs" for x
  proof -
    have "componentSha256 x \<noteq> componentSha256 c" using Cons.prems(2) x by (simp add: image_iff) metis
    then show ?thesis using Cons.prems(3)[of x] x unfolding set1 by simp
  qed
  then obtain q2 bins2 where 2: "foldR (place_component cs policy) (q1, bins1) xs = Inr (q2, bins2)" "place_inv cs policy q2 bins2"
    "mset (all_members bins2) = mset (map componentSha256 xs) + mset (all_members bins1)"
    using Cons.IH[OF 1(2)] Cons.prems(2) by auto
  show ?case using 1(1) 2 1(3) by auto
qed auto

section \<open>Validation\<close>

lemma validate_members_ok:
  assumes "\<And>sha. sha \<in> set shas \<Longrightarrow> quotientBinForComponent q sha = Inr b" and "distinct shas" "set shas \<inter> set placed = {}"
    and "qb = None \<or> qb = Some b"
  shows "foldR (validate_bin_member q) (placed, qb) shas = Inr (placed @ shas, if shas = [] then qb else Some b)"
  using assms
proof (induction shas arbitrary: placed qb)
  case (Cons sha shas)
  have "validate_bin_member q (placed, qb) sha = Inr (placed @ [sha], Some b)"
    using Cons.prems by (auto simp: validate_bin_member_def planner_failWhen_def)
  moreover have "foldR (validate_bin_member q) (placed @ [sha], Some b) shas
      = Inr ((placed @ [sha]) @ shas, if shas = [] then Some b else Some b)"
    by (rule Cons.IH) (use Cons.prems in auto)
  ultimately show ?case by simp
qed simp

lemma validate_bins_ok:
  assumes inv: "place_inv cs policy q bins0"
  shows "\<lbrakk>set bins \<subseteq> set bins0; distinct (placed @ all_members bins)\<rbrakk>
    \<Longrightarrow> foldR (validate_bin q) placed bins = Inr (placed @ all_members bins)"
proof (induction bins arbitrary: placed)
  case (Cons bin bins)
  note I = place_invD[OF inv]
  have bin: "bin \<in> set bins0" using Cons.prems(1) by simp
  obtain b where b: "b \<in> set (activeBins q)" "set (members q b) = set (binComponents bin)" using I(5)[OF bin] by blast
  have ne: "binComponents bin \<noteq> []" using I(8)[OF bin] by (simp add: bin_ok_def)
  have all: "quotientBinForComponent q sha = Inr b" if "sha \<in> set (binComponents bin)" for sha
    by (rule member_bin(2)[OF I(1) b(1)]) (simp add: b(2) that)
  have dist: "distinct (binComponents bin)" "set (binComponents bin) \<inter> set placed = {}" using Cons.prems(2) by auto
  have "foldR (validate_bin_member q) (placed, None) (binComponents bin) = Inr (placed @ binComponents bin, Some b)"
    using validate_members_ok[where qb = None, OF all dist] ne by simp
  moreover have "length (members q b) = length (binComponents bin)"
    using I(4)[of b] dist(1) b(2) by (metis distinct_card)
  ultimately have "validate_bin q placed bin = Inr (placed @ binComponents bin)"
    by (simp add: validate_bin_def planner_failWhen_def)
  then show ?case using Cons.IH[of "placed @ binComponents bin"] Cons.prems by simp
qed simp

lemma validate_ok:
  assumes inv: "place_inv cs policy q bins"
    and all: "set (all_members bins) = componentSha256 ` {c \<in> set cs. sharedEligible c}"
    and dist: "distinct (map componentSha256 cs)"
  shows "validatePhysicalShardQuotient q bins cs = Inr ()"
proof -
  note I = place_invD[OF inv]
  have "validate_component q (all_members bins) c = Inr ()" if c: "c \<in> set cs" for c
  proof -
    have el: "componentSha256 c \<in> set (all_members bins) \<longleftrightarrow> sharedEligible c"
      unfolding all using c dist by (auto simp: distinct_map inj_on_def)
    obtain b where b: "binByComponentSha256 q (componentSha256 c) = Some b" using I(2)[of "componentSha256 c"] c by auto
    then have act: "b \<in> set (activeBins q)" "componentSha256 c \<in> set (members q b)"
      using I(1) unfolding quotient_inv_def by blast+
    have "length (members q b) = 1" if out: "componentSha256 c \<notin> set (all_members bins)"
    proof -
      obtain s where s: "s \<in> set (activeBins q)" "members q s = [componentSha256 c]" using I(6)[of "componentSha256 c"] c out by blast
      then have "binByComponentSha256 q (componentSha256 c) = Some s" using member_bin(1)[OF I(1)] by simp
      then show ?thesis using b s(2) by simp
    qed
    then show ?thesis using b act(1) el
      by (auto simp: validate_component_def quotientBinForComponent_def planner_failWhen_def)
  qed
  then have "mapR (validate_component q (all_members bins)) cs = Inr (map (\<lambda>_. ()) cs)" by (intro mapR_all_Inr)
  moreover have "foldR (validate_bin q) [] bins = Inr (all_members bins)"
    using validate_bins_ok[OF inv, of bins "[]"] I(7) by simp
  ultimately show ?thesis by (simp add: validatePhysicalShardQuotient_def)
qed

section \<open>The result\<close>

definition bin_edges :: "shard_component list \<Rightarrow> placement_bin list \<Rightarrow> (nat \<times> nat) set" where
  "bin_edges cs bins = {(k, l). k < length bins \<and> l < length bins \<and> k \<noteq> l
     \<and> (\<exists>sha \<in> set (binComponents (bins ! k)). \<exists>d \<in> set (dependencyComponentSha256s (component_at cs sha)).
          d \<in> set (binComponents (bins ! l)))}"

lemma acyclic_image:
  assumes "acyclic F" and "\<And>x y. (x, y) \<in> E \<Longrightarrow> (f x, f y) \<in> F"
  shows "acyclic E"
proof -
  have "(f x, f y) \<in> F\<^sup>+" if "(x, y) \<in> E\<^sup>+" for x y
    using that by (induction rule: trancl_induct) (auto intro: assms(2) trancl_into_trancl)
  then show ?thesis using assms(1) by (meson acyclic_def)
qed

lemma bin_edges_acyclic:
  assumes inv: "place_inv cs policy q bins" and ok: "components_ok cs"
  shows "acyclic (bin_edges cs bins)"
proof -
  note I = place_invD[OF inv]
  have dist: "distinct (map componentSha256 cs)" using ok by (simp add: components_ok_def)
  have "\<forall>k. \<exists>b. k < length bins \<longrightarrow> b \<in> set (activeBins q) \<and> set (members q b) = set (binComponents (bins ! k))"
    using I(5) by (meson nth_mem)
  then obtain f where f: "\<And>k. k < length bins \<Longrightarrow> f k \<in> set (activeBins q)
      \<and> set (members q (f k)) = set (binComponents (bins ! k))" by metis
  have by_f: "binByComponentSha256 q sha = Some (f k)" if "k < length bins" "sha \<in> set (binComponents (bins ! k))" for k sha
    using member_bin(1)[OF I(1), of "f k" sha] f[OF that(1)] that(2) by simp
  have "(f k, f l) \<in> quotient_edges q" if kl: "(k, l) \<in> bin_edges cs bins" for k l
  proof -
    from kl obtain sha d where k: "k < length bins" "l < length bins" "k \<noteq> l" and sha: "sha \<in> set (binComponents (bins ! k))"
      and d: "d \<in> set (dependencyComponentSha256s (component_at cs sha))" "d \<in> set (binComponents (bins ! l))"
      unfolding bin_edges_def by blast
    have known: "x \<in> componentSha256 ` set cs" if "m < length bins" "x \<in> set (binComponents (bins ! m))" for m x
      using I(8)[OF nth_mem[OF that(1)]] that(2) by (auto simp: bin_ok_def)
    obtain i where i: "componentBySha256 cs sha = Some i"
      using known[OF k(1) sha] componentBySha256_None_iff[of cs sha] by fastforce
    obtain j where j: "componentBySha256 cs d = Some j"
      using known[OF k(2) d(2)] componentBySha256_None_iff[of cs d] by fastforce
    note i' = componentBySha256_Some[OF i] and j' = componentBySha256_Some[OF j]
    have "(i, j) \<in> component_edges cs" using i' d(1) i j by (auto simp: component_edges_def component_at_def)
    then have "f k = f l \<or> (f k, f l) \<in> quotient_edges q"
      using I(3)[of i j] by_f[OF k(1) sha] by_f[OF k(2) d(2)] i' j' by auto
    moreover have "f k \<noteq> f l"
    proof
      assume "f k = f l"
      then have "sha \<in> set (binComponents (bins ! l))" using f[OF k(1)] f[OF k(2)] sha by auto
      then show False using distinct_concat_disjoint[OF I(7), of k l] k sha by auto
    qed
    ultimately show ?thesis by blast
  qed
  moreover have "acyclic (quotient_edges q)" using I(1) by (simp add: quotient_inv_def)
  ultimately show ?thesis by (rule acyclic_image[rotated])
qed

lemma initial_place_inv:
  assumes ok: "components_ok cs" and q: "quotient_inv q" "binByComponentSha256 q = componentBySha256 cs"
      "quotient_edges q = component_edges cs"
      "\<forall>i < length cs. i \<in> set (activeBins q) \<and> members q i = [componentSha256 (cs ! i)]" "\<forall>i. distinct (members q i)"
    and os: "distinct (map componentSha256 os)"
      "\<And>c. c \<in> set os \<Longrightarrow> c \<in> set cs \<and> sharedEligible c \<and> targetShardWeight policy < picObjectByteWeight c"
  shows "place_inv cs policy q (map (single_bin True) os)"
proof -
  have dist: "distinct (map componentSha256 cs)" using ok by (simp add: components_ok_def)
  have at: "\<exists>b \<in> set (activeBins q). members q b = [sha]" if sha: "sha \<in> componentSha256 ` set cs" for sha
  proof -
    obtain i where "i < length cs" "componentSha256 (cs ! i) = sha" using sha by (auto simp: in_set_conv_nth)
    then show ?thesis using q(4) by auto
  qed
  have all: "all_members (map (single_bin True) os) = map componentSha256 os"
    by (induction os) (simp_all add: single_bin_def)
  show ?thesis
  proof (rule place_invI)
    show "quotient_inv q" by (rule q(1))
    show "distinct (members q i)" for i using q(5) by blast
    show "binByComponentSha256 q sha \<noteq> None \<longleftrightarrow> sha \<in> componentSha256 ` set cs" for sha
      unfolding q(2) using componentBySha256_None_iff[of cs sha] by argo
    show "\<exists>b d. binByComponentSha256 q (componentSha256 (cs ! i)) = Some b
        \<and> binByComponentSha256 q (componentSha256 (cs ! j)) = Some d \<and> (b = d \<or> (b, d) \<in> quotient_edges q)"
      if e: "(i, j) \<in> component_edges cs" for i j
    proof -
      have "i < length cs" "j < length cs" using e componentBySha256_Some by (auto simp: component_edges_def)
      then show ?thesis using e unfolding q(2,3) by (auto simp: componentBySha256_iff[OF dist])
    qed
    show "distinct (all_members (map (single_bin True) os))" unfolding all by (rule os(1))
    show "\<exists>b \<in> set (activeBins q). set (members q b) = set (binComponents bin)" if "bin \<in> set (map (single_bin True) os)" for bin
    proof -
      obtain c where c: "c \<in> set os" "bin = single_bin True c" using \<open>bin \<in> _\<close> by auto
      then obtain b where "b \<in> set (activeBins q)" "members q b = [componentSha256 c]" using at[of "componentSha256 c"] os(2) by blast
      then show ?thesis using c(2) by (intro bexI[of _ b]) (simp_all add: single_bin_def)
    qed
    show "\<exists>b \<in> set (activeBins q). members q b = [sha]" if "sha \<in> componentSha256 ` set cs" for sha by (rule at[OF that])
    show "bin_ok cs policy bin" if bin: "bin \<in> set (map (single_bin True) os)" for bin
    proof -
      obtain c where c: "c \<in> set os" "bin = single_bin True c" using bin by auto
      then show ?thesis using os(2)[OF c(1)] component_at_member[OF dist, of c] by (auto simp: bin_ok_def single_bin_def)
    qed
  qed
qed

lemma placeSharedComponents_ok:
  assumes ok: "components_ok cs" and weights: "\<forall>c \<in> set cs. 0 \<le> picObjectByteWeight c"
    and target: "targetShardWeight policy \<le> max_safe_integer"
  shows "\<exists>bins. placeSharedComponents cs policy = Inr bins
    \<and> mset (all_members bins) = mset (map componentSha256 (filter sharedEligible cs))
    \<and> (\<forall>bin \<in> set bins. bin_ok cs policy bin)
    \<and> acyclic (bin_edges cs bins)"
proof -
  let ?over = "filter (\<lambda>c. sharedEligible c \<and> picObjectByteWeight c > targetShardWeight policy) cs"
  let ?norm = "filter (\<lambda>c. sharedEligible c \<and> picObjectByteWeight c \<le> targetShardWeight policy) cs"
  let ?os = "js_sort (compareBy componentBindingSha256) ?over" and ?ns = "js_sort compareNormalComponents ?norm"
  have dist: "distinct (map componentSha256 cs)" using ok by (simp add: components_ok_def)
  have sub: "distinct (map componentSha256 (js_sort cmp (filter P cs)))" for cmp P
  proof -
    have "mset (map componentSha256 (js_sort cmp (filter P cs))) = mset (map componentSha256 (filter P cs))" by simp
    then show ?thesis using distinct_map_filter[OF dist] by (metis mset_eq_imp_distinct_iff)
  qed
  obtain q where q: "createPhysicalShardQuotient cs = Inr q" "quotient_inv q"
    "binByComponentSha256 q = componentBySha256 cs" "quotient_edges q = component_edges cs"
    "\<forall>i < length cs. i \<in> set (activeBins q) \<and> members q i = [componentSha256 (cs ! i)]" "\<forall>i. distinct (members q i)"
    by (rule createPhysicalShardQuotient_ok[OF ok])
  have inv0: "place_inv cs policy q (map (single_bin True) ?os)"
    by (rule initial_place_inv[OF ok q(2-6) sub]) auto
  have all: "all_members (map (single_bin True) os) = map componentSha256 os" for os
    by (induction os) (simp_all add: single_bin_def)
  have new: "c \<in> set cs \<and> componentSha256 c \<notin> set (all_members (map (single_bin True) ?os)) \<and> sharedEligible c
        \<and> 0 \<le> picObjectByteWeight c \<and> picObjectByteWeight c \<le> targetShardWeight policy" if "c \<in> set ?ns" for c
  proof -
    have c: "c \<in> set cs" "sharedEligible c" "picObjectByteWeight c \<le> targetShardWeight policy" using that by auto
    have "componentSha256 c \<notin> componentSha256 ` set ?over"
      using c dist by (auto simp: distinct_map inj_on_def)
    then show ?thesis unfolding all using c weights by simp
  qed
  obtain q' bins where r: "foldR (place_component cs policy) (q, map (single_bin True) ?os) ?ns = Inr (q', bins)"
    "place_inv cs policy q' bins"
    "mset (all_members bins) = mset (map componentSha256 ?ns) + mset (all_members (map (single_bin True) ?os))"
    using place_components_ok[OF dist target inv0 sub new] by blast
  have split: "mset ?norm + mset ?over = mset (filter sharedEligible cs)" by (induction cs) auto
  have "mset (all_members bins) = image_mset componentSha256 (mset ?norm + mset ?over)"
    unfolding r(3) all by simp
  then have m: "mset (all_members bins) = mset (map componentSha256 (filter sharedEligible cs))"
    unfolding split by simp
  then have "set (all_members bins) = componentSha256 ` {c \<in> set cs. sharedEligible c}"
    by (metis list.set_map mset_eq_setD set_filter)
  then have "validatePhysicalShardQuotient q' bins cs = Inr ()" by (rule validate_ok[OF r(2) _ dist])
  then have "placeSharedComponents cs policy = Inr bins"
    unfolding placeSharedComponents_def using q(1) r(1) by (simp add: Let_def del: js_sort.simps)
  then show ?thesis using m place_invD(8)[OF r(2)] bin_edges_acyclic[OF r(2) ok] by blast
qed

text \<open>For components with distinct identities whose dependencies are among them and acyclic, placement
  never fails: every shared component is in exactly one bin and no other component is; all members of
  a bin occur in the same cohorts; a bin weighs what its members weigh, at most the target unless it is
  a single oversize component; and the bins depend on one another without cycles.\<close>

lemma placeSharedComponents_correct:
  assumes "components_ok cs" and "\<forall>c \<in> set cs. 0 \<le> picObjectByteWeight c"
    and "targetShardWeight policy \<le> max_safe_integer"
  shows "\<exists>bins. placeSharedComponents cs policy = Inr bins
    \<and> mset (all_members bins) = mset (map componentSha256 (filter sharedEligible cs))
    \<and> (\<forall>bin \<in> set bins. bin_ok cs policy bin)
    \<and> acyclic (bin_edges cs bins)"
  by (rule placeSharedComponents_ok[OF assms])

end
