(* ===== verification/ShardPlanner.thy ===== *)
theory ShardPlanner
  imports ShardPlacementCorrect
begin

text \<open>
  \<open>planConvexWasmPhysicalShards\<close> of \<open>convex-wasm-physical-shard-planner.mjs\<close> as a whole, and that the
  shards it builds can always be ordered.
\<close>

section \<open>The shards of a placement\<close>

lemma assign_member_Inr_iff: "assign_member x m sha = Inr m' \<longleftrightarrow> m sha = None \<and> m' = m(sha := Some x)"
  by (auto simp: assign_member_def bindR_Inr_iff)

lemma assign_members:
  "foldR (assign_member x) m shas = Inr m'
    \<Longrightarrow> (\<forall>sha \<in> set shas. m sha = None) \<and> m' = (\<lambda>sha. if sha \<in> set shas then Some x else m sha)"
proof (induction shas arbitrary: m)
  case (Cons sha shas)
  then have fresh: "m sha = None" and rest: "foldR (assign_member x) (m(sha := Some x)) shas = Inr m'"
    by (auto simp: bindR_Inr_iff assign_member_Inr_iff)
  from Cons.IH[OF rest] fresh show ?case by (auto simp: fun_eq_iff split: if_splits)
qed auto

definition shards_describe ::
  "shard_component list \<Rightarrow> placement_bin list \<Rightarrow> physical_shard list \<Rightarrow> (string \<Rightarrow> string option) \<Rightarrow> bool" where
  "shards_describe cs bins shards m \<longleftrightarrow> length shards = length bins
     \<and> (\<forall>k < length bins. shardComponents (shards ! k) = sort_strings (binComponents (bins ! k))
          \<and> shardWeight (shards ! k) = binWeight (bins ! k) \<and> shardOversize (shards ! k) = binOversize (bins ! k))
     \<and> (\<forall>sha x. m sha = Some x \<longleftrightarrow> (\<exists>k < length bins. sha \<in> set (binComponents (bins ! k)) \<and> x = shardSha256 (shards ! k)))"

lemma build_shard_Inr:
  assumes "build_shard sha256 cs (shards, m) bin = Inr (shards', m')"
  obtains shard where "shards' = shards @ [shard]" "shardComponents shard = sort_strings (binComponents bin)"
    "shardWeight shard = binWeight bin" "shardOversize shard = binOversize bin"
    "\<forall>sha \<in> set (binComponents bin). m sha = None"
    "m' = (\<lambda>sha. if sha \<in> set (binComponents bin) then Some (shardSha256 shard) else m sha)"
proof -
  from assms obtain members identity where
    fold: "foldR (assign_member identity) m (sort_strings (binComponents bin)) = Inr m'"
    and shards': "shards' = shards @ [\<lparr>shardComponentBindings = members,
      shardComponents = sort_strings (binComponents bin), shardDependencies = [],
      shardOversize = binOversize bin, shardWeight = binWeight bin, shardSha256 = identity\<rparr>]"
    unfolding build_shard_def Let_def by (auto simp: bindR_Inr_iff simp del: js_sort.simps)
  show ?thesis using assign_members[OF fold] by (intro that[OF shards']) (simp_all cong: if_cong)
qed

lemma build_shards_describe:
  "foldR (build_shard sha256 cs) ([], \<lambda>_. None) bins = Inr (shards, m) \<Longrightarrow> shards_describe cs bins shards m"
proof (induction bins arbitrary: shards m rule: rev_induct)
  case Nil
  then have "shards = []" "m = (\<lambda>_. None)" by auto
  then show ?case by (simp add: shards_describe_def)
next
  case (snoc bin bins)
  then obtain shards0 m0 where 0: "foldR (build_shard sha256 cs) ([], \<lambda>_. None) bins = Inr (shards0, m0)"
    "build_shard sha256 cs (shards0, m0) bin = Inr (shards, m)"
    by (auto simp: foldR_append bindR_Inr_iff)
  have IH: "shards_describe cs bins shards0 m0" by (rule snoc.IH[OF 0(1)])
  obtain shard where s: "shards = shards0 @ [shard]" "shardComponents shard = sort_strings (binComponents bin)"
    "shardWeight shard = binWeight bin" "shardOversize shard = binOversize bin"
    "\<forall>sha \<in> set (binComponents bin). m0 sha = None"
    "m = (\<lambda>sha. if sha \<in> set (binComponents bin) then Some (shardSha256 shard) else m0 sha)"
    by (rule build_shard_Inr[OF 0(2)])
  have len: "length shards0 = length bins" using IH by (simp add: shards_describe_def)
  have m0: "m0 sha = Some x \<longleftrightarrow> (\<exists>k < length bins. sha \<in> set (binComponents (bins ! k)) \<and> x = shardSha256 (shards0 ! k))" for sha x
    using IH by (simp add: shards_describe_def)
  have "m sha = Some x \<longleftrightarrow> (\<exists>k < Suc (length bins). sha \<in> set (binComponents ((bins @ [bin]) ! k))
      \<and> x = shardSha256 (shards ! k))" for sha x
  proof -
    have "(\<exists>k < Suc (length bins). sha \<in> set (binComponents ((bins @ [bin]) ! k)) \<and> x = shardSha256 (shards ! k))
        \<longleftrightarrow> m0 sha = Some x \<or> (sha \<in> set (binComponents bin) \<and> x = shardSha256 shard)"
      unfolding m0 s(1) Ex_less_Suc using len by (auto simp: nth_append)
    moreover have "m0 sha \<noteq> Some x" if "sha \<in> set (binComponents bin)" using s(5) that by auto
    ultimately show ?thesis unfolding s(6) by auto
  qed
  moreover have "shardComponents (shards ! k) = sort_strings (binComponents ((bins @ [bin]) ! k))
      \<and> shardWeight (shards ! k) = binWeight ((bins @ [bin]) ! k) \<and> shardOversize (shards ! k) = binOversize ((bins @ [bin]) ! k)"
    if "k < Suc (length bins)" for k
    using IH that len s(1-4) unfolding shards_describe_def
    by (cases "k < length bins") (auto simp: nth_append less_Suc_eq simp del: js_sort.simps)
  ultimately show ?case unfolding shards_describe_def using len s(1) by simp
qed

lemma get_component_Inr: "get_component cs sha = Inr c \<Longrightarrow> c = component_at cs sha \<and> sha \<in> componentSha256 ` set cs"
  using componentBySha256_Some by (fastforce simp: get_component_def component_at_def split: option.splits)

lemma link_shard_Inr:
  assumes "link_shard cs m shard = Inr shard'"
  shows "shardSha256 shard' = shardSha256 shard" "shardComponents shard' = shardComponents shard"
    "shardWeight shard' = shardWeight shard" "shardOversize shard' = shardOversize shard"
    "distinct (shardDependencies shard')"
    "x \<in> set (shardDependencies shard') \<longleftrightarrow> x \<noteq> shardSha256 shard
       \<and> (\<exists>sha \<in> set (shardComponents shard). \<exists>d \<in> set (dependencyComponentSha256s (component_at cs sha)). m d = Some x)"
proof -
  obtain members where ms: "mapR (get_component cs) (shardComponents shard) = Inr members"
    "shard' = shard\<lparr>shardDependencies := sort_strings (js_set
       (filter (\<lambda>sha. sha \<noteq> shardSha256 shard) (List.map_filter m (concat (map dependencyComponentSha256s members)))))\<rparr>"
    using assms by (auto simp: link_shard_def bindR_Inr_iff simp del: js_sort.simps)
  have "list_all2 (\<lambda>sha c. c = component_at cs sha) (shardComponents shard) members"
    using ms(1) unfolding mapR_Inr_iff by (rule list_all2_mono) (simp add: get_component_Inr)
  then have members: "members = map (component_at cs) (shardComponents shard)"
    by (induction rule: list_all2_induct) auto
  show "shardSha256 shard' = shardSha256 shard" "shardComponents shard' = shardComponents shard"
    "shardWeight shard' = shardWeight shard" "shardOversize shard' = shardOversize shard"
    "distinct (shardDependencies shard')" by (simp_all add: ms(2) del: js_sort.simps)
  have mf: "x \<in> set (List.map_filter m ys) \<longleftrightarrow> (\<exists>d \<in> set ys. m d = Some x)" for ys
    by (induction ys) (auto simp: List.map_filter_simps split: option.split)
  show "x \<in> set (shardDependencies shard') \<longleftrightarrow> x \<noteq> shardSha256 shard
       \<and> (\<exists>sha \<in> set (shardComponents shard). \<exists>d \<in> set (dependencyComponentSha256s (component_at cs sha)). m d = Some x)"
    by (simp add: ms(2) members mf del: js_sort.simps) blast
qed

lemma shard_edges_iff:
  assumes "well_linked shards"
  shows "(x, y) \<in> shard_edges shards \<longleftrightarrow> (\<exists>s \<in> set shards. x = shardSha256 s \<and> y \<in> set (shardDependencies s))"
  unfolding shard_edges_def using shard_deps_member[OF assms] by auto

lemma buildSharedShards_ok:
  assumes built: "buildSharedShards sha256 bins cs = Inr shards" and acyc: "acyclic (bin_edges cs bins)"
  shows "well_linked shards" "acyclic (shard_edges shards)"
    "mset (map (\<lambda>s. (shardComponents s, shardWeight s, shardOversize s)) shards)
      = mset (map (\<lambda>bin. (sort_strings (binComponents bin), binWeight bin, binOversize bin)) bins)"
    "s \<in> set shards \<Longrightarrow> x \<in> set (shardDependencies s) \<longleftrightarrow> (\<exists>t \<in> set shards. t \<noteq> s \<and> x = shardSha256 t
       \<and> (\<exists>sha \<in> set (shardComponents s). \<exists>d \<in> set (dependencyComponentSha256s (component_at cs sha)). d \<in> set (shardComponents t)))"
proof -
  obtain raw m linked where raw: "foldR (build_shard sha256 cs) ([], \<lambda>_. None) bins = Inr (raw, m)"
    and uniq: "length (js_set (map shardSha256 raw)) = length raw"
    and linked: "mapR (link_shard cs m) raw = Inr linked"
    and shards: "shards = js_sort (compareBy shardSha256) linked"
    using built unfolding buildSharedShards_def by (auto simp: bindR_Inr_iff simp del: js_sort.simps)
  have D: "length raw = length bins"
    "\<And>k. k < length bins \<Longrightarrow> shardComponents (raw ! k) = sort_strings (binComponents (bins ! k))
          \<and> shardWeight (raw ! k) = binWeight (bins ! k) \<and> shardOversize (raw ! k) = binOversize (bins ! k)"
    "\<And>sha x. m sha = Some x \<longleftrightarrow> (\<exists>k < length bins. sha \<in> set (binComponents (bins ! k)) \<and> x = shardSha256 (raw ! k))"
    using build_shards_describe[OF raw] unfolding shards_describe_def by blast+
  have draw: "distinct (map shardSha256 raw)" using uniq length_js_set_iff[of "map shardSha256 raw"] by simp
  have L: "list_all2 (\<lambda>s s'. link_shard cs m s = Inr s') raw linked" using linked by (simp only: mapR_Inr_iff)
  have len: "length linked = length bins" using list_all2_lengthD[OF L] D(1) by simp
  have Lk: "link_shard cs m (raw ! k) = Inr (linked ! k)" if "k < length bins" for k
    using list_all2_nthD[OF L, of k] that D(1) by simp
  have ids: "map shardSha256 linked = map shardSha256 raw"
    using link_shard_Inr(1)[OF Lk] len D(1) by (intro nth_equalityI) auto
  have idk: "shardSha256 (linked ! k) = shardSha256 (raw ! k)" if "k < length bins" for k
    by (rule link_shard_Inr(1)[OF Lk[OF that]])
  have inj: "k = l" if "k < length bins" "l < length bins" "shardSha256 (raw ! k) = shardSha256 (raw ! l)" for k l
    using that draw D(1) nth_eq_iff_index_eq[of "map shardSha256 raw" k l] by simp
  have deps: "x \<in> set (shardDependencies (linked ! k)) \<longleftrightarrow> (\<exists>l. (k, l) \<in> bin_edges cs bins \<and> x = shardSha256 (raw ! l))"
    if k: "k < length bins" for k x
    unfolding link_shard_Inr(6)[OF Lk[OF k]] using D(2)[OF k] k inj[OF k]
    by (auto simp: D(3) bin_edges_def simp del: js_sort.simps)
  have set_shards: "set shards = set linked" by (simp add: shards del: js_sort.simps)
  have "mset (map shardSha256 shards) = mset (map shardSha256 linked)" by (simp add: shards del: js_sort.simps)
  then have dist: "distinct (map shardSha256 shards)" using ids draw by (metis mset_eq_imp_distinct_iff)
  have known: "distinct (shardDependencies s) \<and> set (shardDependencies s) \<subseteq> shard_ids shards" if s: "s \<in> set linked" for s
  proof -
    obtain k where k: "k < length bins" "s = linked ! k" using s len by (auto simp: in_set_conv_nth)
    have "x \<in> shard_ids linked" if x: "x \<in> set (shardDependencies s)" for x
    proof -
      obtain l where "l < length bins" "x = shardSha256 (raw ! l)"
        using x deps[OF k(1)] by (auto simp: k(2) bin_edges_def)
      then show ?thesis using idk len by (metis image_eqI nth_mem)
    qed
    then show ?thesis using link_shard_Inr(5)[OF Lk[OF k(1)]] k(2) by (auto simp: set_shards)
  qed
  have comps: "set (shardComponents (linked ! k)) = set (binComponents (bins ! k))" if "k < length bins" for k
    using D(2)[OF that] link_shard_Inr(2)[OF Lk[OF that]] by (simp del: js_sort.simps)
  have apart: "linked ! l \<noteq> linked ! k \<longleftrightarrow> k \<noteq> l" if "k < length bins" "l < length bins" for k l
    using inj[OF that] idk that by metis
  show "x \<in> set (shardDependencies s) \<longleftrightarrow> (\<exists>t \<in> set shards. t \<noteq> s \<and> x = shardSha256 t
       \<and> (\<exists>sha \<in> set (shardComponents s). \<exists>d \<in> set (dependencyComponentSha256s (component_at cs sha)). d \<in> set (shardComponents t)))"
    if s: "s \<in> set shards"
  proof -
    obtain k where k: "k < length bins" "s = linked ! k" using s len unfolding set_shards by (auto simp: in_set_conv_nth)
    have "(\<exists>t \<in> set linked. t \<noteq> s \<and> x = shardSha256 t \<and> (\<exists>sha \<in> set (shardComponents s).
            \<exists>d \<in> set (dependencyComponentSha256s (component_at cs sha)). d \<in> set (shardComponents t)))
        \<longleftrightarrow> (\<exists>l < length bins. linked ! l \<noteq> linked ! k \<and> x = shardSha256 (linked ! l) \<and> (\<exists>sha \<in> set (shardComponents (linked ! k)).
            \<exists>d \<in> set (dependencyComponentSha256s (component_at cs sha)). d \<in> set (shardComponents (linked ! l))))"
      unfolding k(2) set_conv_nth[of linked] len by blast
    also have "\<dots> \<longleftrightarrow> (\<exists>l < length bins. (k, l) \<in> bin_edges cs bins \<and> x = shardSha256 (raw ! l))"
    proof (rule ex_cong1, rule conj_cong[OF refl])
      fix l assume l: "l < length bins"
      show "(linked ! l \<noteq> linked ! k \<and> x = shardSha256 (linked ! l) \<and> (\<exists>sha \<in> set (shardComponents (linked ! k)).
            \<exists>d \<in> set (dependencyComponentSha256s (component_at cs sha)). d \<in> set (shardComponents (linked ! l))))
          \<longleftrightarrow> ((k, l) \<in> bin_edges cs bins \<and> x = shardSha256 (raw ! l))"
        unfolding comps[OF k(1)] comps[OF l] idk[OF l] apart[OF k(1) l] bin_edges_def using k(1) l by simp blast
    qed
    also have "\<dots> \<longleftrightarrow> (\<exists>l. (k, l) \<in> bin_edges cs bins \<and> x = shardSha256 (raw ! l))"
      by (auto simp: bin_edges_def)
    finally show ?thesis unfolding deps[OF k(1), folded k(2)] set_shards by simp
  qed
  show wl: "well_linked shards" using dist known unfolding well_linked_def set_shards by blast
  have "\<exists>f. \<forall>k < length bins. f (shardSha256 (raw ! k)) = k"
    by (intro exI[of _ "\<lambda>x. THE k. k < length bins \<and> x = shardSha256 (raw ! k)"] allI impI the_equality) (auto intro: inj)
  then obtain f where f: "\<And>k. k < length bins \<Longrightarrow> f (shardSha256 (raw ! k)) = k" by blast
  show "acyclic (shard_edges shards)"
  proof (rule acyclic_image[OF acyc, of _ f])
    fix x y assume "(x, y) \<in> shard_edges shards"
    then obtain s where s: "s \<in> set linked" "x = shardSha256 s" "y \<in> set (shardDependencies s)"
      unfolding shard_edges_iff[OF wl] set_shards by blast
    then obtain k where k: "k < length bins" "s = linked ! k" using len by (auto simp: in_set_conv_nth)
    obtain l where l: "(k, l) \<in> bin_edges cs bins" "y = shardSha256 (raw ! l)" using s(3) deps[OF k(1)] k(2) by blast
    then have "l < length bins" by (simp add: bin_edges_def)
    then show "(f x, f y) \<in> bin_edges cs bins" using l s(2) k idk f by simp
  qed
  have "map (\<lambda>s. (shardComponents s, shardWeight s, shardOversize s)) linked
      = map (\<lambda>bin. (sort_strings (binComponents bin), binWeight bin, binOversize bin)) bins"
  proof (rule nth_equalityI)
    fix i assume "i < length (map (\<lambda>s. (shardComponents s, shardWeight s, shardOversize s)) linked)"
    then have i: "i < length bins" using len by simp
    show "map (\<lambda>s. (shardComponents s, shardWeight s, shardOversize s)) linked ! i
      = map (\<lambda>bin. (sort_strings (binComponents bin), binWeight bin, binOversize bin)) bins ! i"
      using D(2)[OF i] link_shard_Inr(2-4)[OF Lk[OF i]] i len by (simp del: js_sort.simps)
  qed (simp add: len)
  then have "mset (map (\<lambda>s. (shardComponents s, shardWeight s, shardOversize s)) linked)
      = mset (map (\<lambda>bin. (sort_strings (binComponents bin), binWeight bin, binOversize bin)) bins)"
    by (simp only:)
  moreover have "mset (map f shards) = mset (map f linked)" for f :: "physical_shard \<Rightarrow> string list \<times> int \<times> bool"
    by (simp add: shards del: js_sort.simps)
  ultimately show "mset (map (\<lambda>s. (shardComponents s, shardWeight s, shardOversize s)) shards)
      = mset (map (\<lambda>bin. (sort_strings (binComponents bin), binWeight bin, binOversize bin)) bins)"
    by (simp only:)
qed

section \<open>The planner\<close>

record residual_component =
  residualSha256 :: string
  residualReason :: string

record shard_plan =
  planComponents :: "shard_component list"
  planPolicy :: shard_policy
  planResidual :: "residual_component list"
  planShards :: "physical_shard list"
  planOrder :: "string list"
  planSha256 :: string

definition convexWasmPhysicalShardPlanningRequestKind :: string where
  "convexWasmPhysicalShardPlanningRequestKind = ''convex-wasm-physical-shard-planning-request-v2''"

definition convexWasmPhysicalShardPlanKind :: string where
  "convexWasmPhysicalShardPlanKind = ''convex-wasm-physical-shard-plan-v2''"

definition component_json :: "shard_component \<Rightarrow> jsval" where
  "component_json c = JObj
     [(''bindingIdentitySha256s'', sha_array (bindingIdentitySha256s c)),
      (''codeIdentitySha256s'', sha_array (codeIdentitySha256s c)),
      (''componentBindingSha256'', JStr (componentBindingSha256 c)),
      (''componentSha256'', JStr (componentSha256 c)),
      (''dependencies'', sha_array (dependencyComponentSha256s c)),
      (''logicalUnitSha256s'', sha_array (logicalUnitSha256s c)),
      (''occurrenceCohortSha256s'', sha_array (occurrenceCohortSha256s c)),
      (''picObjectByteWeight'', JNum (NInt (picObjectByteWeight c))),
      (''shareable'', JBool (componentShareable c)),
      (''sharedEligible'', JBool (sharedEligible c))]"

definition policy_json :: "shard_policy \<Rightarrow> jsval" where
  "policy_json policy = JObj
     [(''kind'', JStr convexWasmPhysicalShardPolicyKind),
      (''minimumCohortCount'', JNum (NInt (minimumCohortCount policy))),
      (''targetShardWeight'', JNum (NInt (targetShardWeight policy))),
      (''policySha256'', JStr (policySha256 policy))]"

definition shard_json :: "physical_shard \<Rightarrow> jsval" where
  "shard_json s = JObj
     [(''componentBindingSha256s'', sha_array (shardComponentBindings s)),
      (''componentSha256s'', sha_array (shardComponents s)),
      (''dependencies'', sha_array (shardDependencies s)),
      (''kind'', JStr convexWasmPhysicalShardKind),
      (''oversize'', JBool (shardOversize s)),
      (''picObjectByteWeight'', JNum (NInt (shardWeight s))),
      (''shardSha256'', JStr (shardSha256 s))]"

definition plan_json :: "shard_component list \<Rightarrow> shard_policy \<Rightarrow> residual_component list \<Rightarrow> physical_shard list
    \<Rightarrow> string list \<Rightarrow> jsval" where
  "plan_json components policy residual shards order = JObj
     [(''components'', JArr (map component_json components)),
      (''kind'', JStr convexWasmPhysicalShardPlanKind),
      (''policy'', policy_json policy),
      (''residualComponents'', JArr (map (\<lambda>r. JObj [(''componentSha256'', JStr (residualSha256 r)),
                                                  (''reason'', JStr (residualReason r))]) residual)),
      (''sharedShards'', JArr (map shard_json shards)),
      (''shardOrder'', sha_array order)]"

definition residual_reason :: "shard_policy \<Rightarrow> shard_component \<Rightarrow> string" where
  "residual_reason policy c =
     (if \<not> componentShareable c then ''contains-non-shareable-logical-unit''
      else if int (length (occurrenceCohortSha256s c)) < minimumCohortCount policy then ''insufficient-cohort-occurrences''
      else ''depends-on-residual-component'')"

definition residual_components :: "shard_policy \<Rightarrow> shard_component list \<Rightarrow> residual_component list" where
  "residual_components policy components =
     js_sort (compareBy residualSha256)
       (map (\<lambda>c. \<lparr>residualSha256 = componentSha256 c, residualReason = residual_reason policy c\<rparr>)
         (filter (\<lambda>c. \<not> sharedEligible c) components))"

text \<open>The loop over the raw units: \<open>unitsByCodeIdentity\<close>, \<open>unitsByBindingIdentity\<close>, \<open>logicalUnitIdentities\<close>.\<close>

type_synonym unit_tables = "units \<times> (string \<Rightarrow> authenticated_unit list) \<times> string list"

definition add_logical_unit :: "(string \<Rightarrow> string) \<Rightarrow> unit_tables \<Rightarrow> jsval \<times> nat \<Rightarrow> unit_tables res" where
  "add_logical_unit sha256 = (\<lambda>(units, byBinding, identities) (rawUnit, index).
     bindR (normalizeAuthenticatedLogicalUnit sha256 rawUnit index) (\<lambda>u.
     bindR (planner_failWhen (map_of units (codeIdentitySha256 u) \<noteq> None)
       (''physical shard planning request repeats code identity '' @ codeIdentitySha256 u)) (\<lambda>_.
     bindR (planner_failWhen (logicalUnitSha256 u \<in> set identities)
       (''physical shard planning request repeats logical unit identity '' @ logicalUnitSha256 u)) (\<lambda>_.
     (let variants = byBinding (bindingIdentitySha256 u) in
      bindR (planner_failWhen (\<exists>v \<in> set variants. \<exists>occurrence \<in> set (occurrences v). occurrence \<in> set (occurrences u))
        (''physical shard planning request selects multiple exact variants for stable binding ''
          @ bindingIdentitySha256 u @ '' in one cohort'')) (\<lambda>_.
      Inr (units @ [(codeIdentitySha256 u, u)], byBinding(bindingIdentitySha256 u := variants @ [u]),
           identities @ [logicalUnitSha256 u])))))))"

definition check_dependencies :: "units \<Rightarrow> authenticated_unit \<Rightarrow> unit res" where
  "check_dependencies units u =
     bindR (mapR (\<lambda>d. planner_failWhen (map_of units d = None)
       (''logical unit '' @ codeIdentitySha256 u @ '' references unknown dependency '' @ d)) (dependencies u)) (\<lambda>_. Inr ())"

definition read_logical_units :: "(string \<Rightarrow> string) \<Rightarrow> jsval list \<Rightarrow> units res" where
  "read_logical_units sha256 rawUnits =
     bindR (foldR (add_logical_unit sha256) ([], \<lambda>_. [], []) (zip rawUnits [0..<length rawUnits])) (\<lambda>(units, _).
     bindR (mapR (\<lambda>(_, u). check_dependencies units u) units) (\<lambda>_. Inr units))"

definition assemble_plan ::
  "(string \<Rightarrow> string) \<Rightarrow> shard_policy \<Rightarrow> shard_component list \<Rightarrow> shard_plan res" where
  "assemble_plan sha256 policy components =
     bindR (placeSharedComponents components policy) (\<lambda>bins.
     bindR (buildSharedShards sha256 bins components) (\<lambda>shards.
     (let residual = residual_components policy components in
      bindR (orderShards shards) (\<lambda>order.
      bindR (fingerprintConvexWasmPhysicalShardJson sha256 (JObj
        [(''domain'', JStr ''convex-wasm-physical-shard-plan-identity-v2''),
         (''plan'', plan_json components policy residual shards order)])) (\<lambda>identity.
      Inr \<lparr>planComponents = components, planPolicy = policy, planResidual = residual, planShards = shards,
           planOrder = order, planSha256 = identity\<rparr>)))))"

definition read_planning_request :: "(string \<Rightarrow> string) \<Rightarrow> jsval \<Rightarrow> (shard_policy \<times> units) res" where
  "read_planning_request sha256 rawInput =
     bindR (planner_requireExactKeys rawInput [''kind'', ''logicalUnits'', ''policy'']
       ''physical shard planning request'') (\<lambda>input.
     bindR (planner_failWhen (own_prop input ''kind'' \<noteq> JStr convexWasmPhysicalShardPlanningRequestKind)
       ''physical shard planning request kind is unsupported'') (\<lambda>_.
     case own_prop input ''logicalUnits'' of
       JArr rawUnits \<Rightarrow>
         bindR (normalizePolicy sha256 (own_prop input ''policy'')) (\<lambda>policy.
         bindR (read_logical_units sha256 rawUnits) (\<lambda>units. Inr (policy, units)))
     | _ \<Rightarrow> planner_fail ''physical shard planning request logical units must be an array''))"

text \<open>\<open>None\<close> would be a search that ran out of fuel.\<close>

definition planConvexWasmPhysicalShards :: "(string \<Rightarrow> string) \<Rightarrow> jsval \<Rightarrow> shard_plan res option" where
  "planConvexWasmPhysicalShards sha256 rawInput =
     (case read_planning_request sha256 rawInput of
        Inl e \<Rightarrow> Some (Inl e)
      | Inr (policy, units) \<Rightarrow>
          map_option (\<lambda>r. bindR r (assemble_plan sha256 policy)) (buildComponents sha256 units policy))"

end
