(* ===== verification/ShardPlanCorrect.thy ===== *)
theory ShardPlanCorrect
  imports ShardPlanner
begin

text \<open>
  The physical shard planner end to end: it always returns, its input tables are closed, and a plan it
  returns shares exactly the components it may, in weight-bounded shards listed in dependency order.
\<close>

section \<open>The units read from the request\<close>

lemma requireNonNegativeSafeInteger_Inr:
  "requireNonNegativeSafeInteger v d = Inr n \<Longrightarrow> 0 \<le> num_int n \<and> num_int n \<le> max_safe_integer"
proof -
  assume r: "requireNonNegativeSafeInteger v d = Inr n"
  then obtain m where m: "v = JNum m" by (cases v) auto
  with r have "isSafeInteger n" "\<not> num_int n < 0" by (auto split: if_splits)
  then show ?thesis by (cases n) (auto simp: max_safe_integer_def)
qed

lemma requirePositiveSafeInteger_Inr:
  "requirePositiveSafeInteger v d = Inr i \<Longrightarrow> 0 < i \<and> i \<le> max_safe_integer"
proof -
  assume r: "requirePositiveSafeInteger v d = Inr i"
  then obtain m where m: "v = JNum m" by (cases v) auto
  with r have "isSafeInteger m" "i = num_int m" "\<not> num_int m \<le> 0" by (auto split: if_splits)
  then show ?thesis by (cases m) auto
qed

lemma normalizeLogicalUnitMaterial_weight:
  "normalizeLogicalUnitMaterial v d = Inr u \<Longrightarrow> 0 \<le> num_int (picByteWeight u)"
  unfolding normalizeLogicalUnitMaterial_def by (auto simp: bindR_Inr_iff dest: requireNonNegativeSafeInteger_Inr)

lemma normalizeAuthenticated_weight:
  "normalizeAuthenticatedLogicalUnit sha256 v i = Inr u \<Longrightarrow> 0 \<le> num_int (picByteWeight u)"
proof -
  assume "normalizeAuthenticatedLogicalUnit sha256 v i = Inr u"
  then obtain n x d where "normalizeLogicalUnitMaterial x d = Inr n" "u = logical_unit.extend n (authenticated_unit.fields (logicalUnitSha256 u))"
    unfolding normalizeAuthenticatedLogicalUnit_def Let_def
    by (auto simp: bindR_Inr_iff logical_unit.defs authenticated_unit.defs)
  then show ?thesis using normalizeLogicalUnitMaterial_weight
    by (metis logical_unit.select_convs(5) logical_unit.extend_def)
qed

definition tables_ok :: "unit_tables \<Rightarrow> bool" where
  "tables_ok = (\<lambda>(units, byBinding, identities). distinct (map fst units)
     \<and> (\<forall>(code, u) \<in> set units. code = codeIdentitySha256 u \<and> 0 \<le> num_int (picByteWeight u))
     \<and> identities = map (\<lambda>(_, u). logicalUnitSha256 u) units \<and> distinct identities
     \<and> (\<forall>b. byBinding b = map snd (filter (\<lambda>(_, u). bindingIdentitySha256 u = b) units))
     \<and> (\<forall>i < length units. \<forall>j < i. bindingIdentitySha256 (snd (units ! i)) = bindingIdentitySha256 (snd (units ! j))
          \<longrightarrow> set (occurrences (snd (units ! i))) \<inter> set (occurrences (snd (units ! j))) = {}))"

lemma add_logical_unit_ok:
  assumes "tables_ok tables" and "add_logical_unit sha256 tables raw = Inr tables'"
  shows "tables_ok tables'"
proof -
  obtain units byBinding identities where t: "tables = (units, byBinding, identities)" by (cases tables)
  obtain v i where raw: "raw = (v, i)" by (cases raw)
  from assms(2) obtain u where u: "normalizeAuthenticatedLogicalUnit sha256 v i = Inr u"
    and new: "map_of units (codeIdentitySha256 u) = None" "logicalUnitSha256 u \<notin> set identities"
    and vs: "\<not> (\<exists>v \<in> set (byBinding (bindingIdentitySha256 u)). \<exists>oc \<in> set (occurrences v). oc \<in> set (occurrences u))"
    and t': "tables' = (units @ [(codeIdentitySha256 u, u)],
        byBinding(bindingIdentitySha256 u := byBinding (bindingIdentitySha256 u) @ [u]), identities @ [logicalUnitSha256 u])"
    unfolding t raw add_logical_unit_def Let_def by (auto simp: bindR_Inr_iff)
  have T: "distinct (map fst units)" "\<forall>(code, u) \<in> set units. code = codeIdentitySha256 u \<and> 0 \<le> num_int (picByteWeight u)"
      "identities = map (\<lambda>(_, u). logicalUnitSha256 u) units" "distinct identities"
      "\<forall>b. byBinding b = map snd (filter (\<lambda>(_, u). bindingIdentitySha256 u = b) units)"
      "\<forall>i < length units. \<forall>j < i. bindingIdentitySha256 (snd (units ! i)) = bindingIdentitySha256 (snd (units ! j))
          \<longrightarrow> set (occurrences (snd (units ! i))) \<inter> set (occurrences (snd (units ! j))) = {}"
    using assms(1) unfolding tables_ok_def t by auto
  have old: "set (occurrences u) \<inter> set (occurrences (snd (units ! j))) = {}"
    if "j < length units" "bindingIdentitySha256 u = bindingIdentitySha256 (snd (units ! j))" for j
  proof -
    have "units ! j \<in> set units" using that(1) by simp
    then have "snd (units ! j) \<in> set (byBinding (bindingIdentitySha256 u))" using T(5) that(2) by force
    then show ?thesis using vs by blast
  qed
  have "codeIdentitySha256 u \<notin> set (map fst units)" using new(1) by (simp add: map_of_eq_None_iff)
  then have "distinct (map fst (units @ [(codeIdentitySha256 u, u)]))" using T(1) by simp
  moreover have "\<forall>b. (byBinding(bindingIdentitySha256 u := byBinding (bindingIdentitySha256 u) @ [u])) b
      = map snd (filter (\<lambda>(_, u). bindingIdentitySha256 u = b) (units @ [(codeIdentitySha256 u, u)]))"
    using T(5) by auto
  moreover have "\<forall>i < length (units @ [(codeIdentitySha256 u, u)]). \<forall>j < i.
      bindingIdentitySha256 (snd ((units @ [(codeIdentitySha256 u, u)]) ! i)) = bindingIdentitySha256 (snd ((units @ [(codeIdentitySha256 u, u)]) ! j))
      \<longrightarrow> set (occurrences (snd ((units @ [(codeIdentitySha256 u, u)]) ! i))) \<inter> set (occurrences (snd ((units @ [(codeIdentitySha256 u, u)]) ! j))) = {}"
    using T(6) old by (auto simp: nth_append less_Suc_eq)
  ultimately show ?thesis
    unfolding tables_ok_def t' using T(2-4) new(2) normalizeAuthenticated_weight[OF u] by simp
qed

lemma check_dependencies_Inr: "check_dependencies units u = Inr x \<Longrightarrow> set (dependencies u) \<subseteq> fst ` set units"
proof -
  assume "check_dependencies units u = Inr x"
  then obtain ys :: "unit list" where "list_all2 (\<lambda>d y. map_of units d \<noteq> None) (dependencies u) ys"
    by (auto simp: check_dependencies_def bindR_Inr_iff mapR_Inr_iff)
  then show ?thesis by (induction rule: list_all2_induct) (auto simp: map_of_eq_None_iff dest!: map_of_SomeD intro: rev_image_eqI)
qed

lemma read_logical_units_ok:
  assumes "read_logical_units sha256 raws = Inr units"
  shows "units_closed units" "\<forall>(code, u) \<in> set units. 0 \<le> num_int (picByteWeight u)"
    "\<forall>(code, u) \<in> set units. code = codeIdentitySha256 u"
    "\<forall>i < length units. \<forall>j < i. bindingIdentitySha256 (snd (units ! i)) = bindingIdentitySha256 (snd (units ! j))
          \<longrightarrow> set (occurrences (snd (units ! i))) \<inter> set (occurrences (snd (units ! j))) = {}"
proof -
  from assms obtain bb ids ys where f: "foldR (add_logical_unit sha256) ([], \<lambda>_. [], []) (zip raws [0..<length raws]) = Inr (units, bb, ids)"
    and checks: "mapR (\<lambda>(_, u). check_dependencies units u) units = Inr ys"
    unfolding read_logical_units_def by (auto simp: bindR_Inr_iff)
  have ok: "tables_ok (units, bb, ids)"
    by (rule foldR_invariant[where P = tables_ok, OF f]) (simp add: tables_ok_def, rule add_logical_unit_ok)
  show "\<forall>(code, u) \<in> set units. 0 \<le> num_int (picByteWeight u)" "\<forall>(code, u) \<in> set units. code = codeIdentitySha256 u"
    using ok by (auto simp: tables_ok_def)
  show "\<forall>i < length units. \<forall>j < i. bindingIdentitySha256 (snd (units ! i)) = bindingIdentitySha256 (snd (units ! j))
          \<longrightarrow> set (occurrences (snd (units ! i))) \<inter> set (occurrences (snd (units ! j))) = {}"
    using ok by (simp add: tables_ok_def)
  have "list_all2 (\<lambda>p y. set (dependencies (snd p)) \<subseteq> fst ` set units) units ys"
    using checks unfolding mapR_Inr_iff by (rule list_all2_mono) (auto dest!: check_dependencies_Inr)
  then have "\<forall>p \<in> set units. set (dependencies (snd p)) \<subseteq> fst ` set units"
    by (metis in_set_conv_nth list_all2_conv_all_nth)
  moreover have "distinct (map fst units)" using ok by (simp add: tables_ok_def)
  ultimately show "units_closed units" unfolding units_closed_def by (simp add: case_prod_beta)
qed

section \<open>The components handed to placement\<close>

lemma closed_from_nth:
  "closed_from succs B Cs \<Longrightarrow> i < length Cs \<Longrightarrow> x \<in> set (Cs ! i) \<Longrightarrow> y \<in> set (succs x)
    \<Longrightarrow> y \<in> B \<or> (\<exists>k \<le> i. y \<in> set (Cs ! k))"
proof (induction Cs arbitrary: B i)
  case (Cons C Cs)
  show ?case
  proof (cases i)
    case 0
    then show ?thesis using Cons.prems by auto
  next
    case (Suc j)
    then have "y \<in> B \<union> set C \<or> (\<exists>k \<le> j. y \<in> set (Cs ! k))" using Cons.IH[of "B \<union> set C" j] Cons.prems by auto
    then show ?thesis
    proof
      assume "\<exists>k \<le> j. y \<in> set (Cs ! k)"
      then obtain k where "k \<le> j" "y \<in> set (Cs ! k)" by blast
      then have "Suc k \<le> i" "y \<in> set ((C # Cs) ! Suc k)" using Suc by auto
      then show ?thesis by blast
    next
      assume "y \<in> B \<union> set C"
      then show ?thesis by (metis UnE le0 nth_Cons_0)
    qed
  qed
qed simp

lemma component_edges_below:
  assumes link: "mapR (linkComponent units policy named) [0..<length named] = Inr linked"
    and same: "list_all2 same_component named linked" and codes: "map codeIdentitySha256s named = codeSets"
    and dcode: "distinct (concat (map codeIdentitySha256s named))" and dsha: "distinct (map componentSha256 named)"
    and order: "closed_from (unit_dependencies units) {} codeSets" and e: "(i, j) \<in> component_edges linked"
  shows "j < i"
proof -
  have lcodes: "map codeIdentitySha256s linked = codeSets" using same_components_map(1)[OF same] codes by simp
  then have len: "length codeSets = length linked" by (metis length_map)
  have at: "codeSets ! i = codeIdentitySha256s (linked ! i)" if "i < length linked" for i
    using that lcodes by (metis nth_map)
  from e obtain x y where ij: "i < length linked" "j < length linked" "i \<noteq> j"
    and x: "x \<in> set (codeIdentitySha256s (linked ! i))" "y \<in> set (unit_dependencies units x)" "y \<in> set (codeIdentitySha256s (linked ! j))"
    unfolding component_edges_linked[OF link same dcode dsha] by blast
  obtain k where k: "k \<le> i" "y \<in> set (codeSets ! k)"
    using closed_from_nth[OF order, of i x y] x(1,2) at[OF ij(1)] ij(1) len by auto
  have "k = j"
  proof (rule ccontr)
    assume "k \<noteq> j"
    have "k < length codeSets" "j < length codeSets" using ij k(1) len by simp_all
    moreover have "distinct (concat codeSets)" using dcode codes by simp
    ultimately have "set (codeSets ! k) \<inter> set (codeSets ! j) = {}"
      using \<open>k \<noteq> j\<close> by (intro distinct_concat_disjoint)
    then show False using k(2) x(3) at[OF ij(2)] by auto
  qed
  then show ?thesis using k(1) ij(3) by simp
qed

lemma linked_dependencies_known:
  assumes link: "mapR (linkComponent units policy named) [0..<length named] = Inr linked"
    and same: "list_all2 same_component named linked"
    and dcode: "distinct (concat (map codeIdentitySha256s named))" and i: "i < length linked"
  shows "set (dependencyComponentSha256s (linked ! i)) \<subseteq> componentSha256 ` set linked"
proof -
  have len: "length linked = length named" by (rule same_components_map(3)[OF same])
  have "list_all2 (\<lambda>i d. linkComponent units policy named i = Inr d) [0..<length named] linked"
    using link by (simp only: mapR_Inr_iff)
  from list_all2_nthD[OF this, of i] i len have "linkComponent units policy named i = Inr (linked ! i)" by simp
  then obtain ixs where ixs: "dependencyIndexes units named i = Inr ixs"
    "dependencyComponentSha256s (linked ! i) =
      sort_strings (js_set (map (\<lambda>j. componentSha256 (named ! j)) (filter (\<lambda>j. j \<noteq> i) ixs)))"
    by (rule linkComponent_Inr)
  have "j < length named" if "j \<in> set ixs" for j
    using that unfolding dependencyIndexes_set[OF ixs(1)] componentByCodeIdentity_iff[OF dcode] by blast
  then have "set (dependencyComponentSha256s (linked ! i)) \<subseteq> componentSha256 ` set named"
    unfolding ixs(2) by (auto simp del: js_sort.simps)
  also have "componentSha256 ` set named = componentSha256 ` set linked"
    using same_components_map(2)[OF same] by (metis list.set_map)
  finally show ?thesis .
qed

lemma buildComponents_linked:
  assumes closed: "units_closed units" and built: "buildComponents sha256 units policy = Some (Inr cs)"
    and dist: "distinct (map componentSha256 cs)"
  obtains linked memo where "cs = js_sort (compareBy componentBindingSha256)
       (map (\<lambda>i. (linked ! i)\<lparr>sharedEligible := (memo i = Some True)\<rparr>) [0..<length linked])"
    "distinct (map componentSha256 linked)"
    "\<forall>i j. (i, j) \<in> component_edges linked \<longrightarrow> j < i"
    "\<forall>c \<in> set linked. set (dependencyComponentSha256s c) \<subseteq> componentSha256 ` set linked"
proof -
  let ?S = "unit_dependencies units"
  obtain codeSets where cs: "Inr cs = buildComponentsOf sha256 units policy codeSets"
    and part: "mset (concat codeSets) = mset (map fst units)" and order: "closed_from ?S {} codeSets"
    by (rule buildComponents_codeSets[OF closed built])
  obtain linked named memo where L: "map codeIdentitySha256s linked = codeSets" "map codeIdentitySha256s named = codeSets"
    "map componentSha256 named = map componentSha256 linked"
    "\<forall>i < length linked. component_describes units (linked ! i)
        \<and> (sharedCandidate (linked ! i) \<longleftrightarrow> (\<forall>code \<in> set (codeIdentitySha256s (linked ! i)). unit_shared units policy code))"
    "mapR (linkComponent units policy named) [0..<length named] = Inr linked" "list_all2 same_component named linked"
    "resolveAll linked (\<lambda>_. None) [0..<length linked] = Inr memo"
    "cs = js_sort (compareBy componentBindingSha256)
       (map (\<lambda>i. (linked ! i)\<lparr>sharedEligible := (memo i = Some True)\<rparr>) [0..<length linked])"
    by (rule buildComponentsOf_linked[OF cs[symmetric]])
  have "mset (map componentSha256 cs) = mset (map componentSha256 linked)"
    unfolding L(8) mset_map mset_js_sort unfolding mset_map[symmetric] by (subst map_marked) simp_all
  then have dl: "distinct (map componentSha256 linked)" using dist by (metis mset_eq_imp_distinct_iff)
  have dsha: "distinct (map componentSha256 named)" using dl L(3) by simp
  have dcode: "distinct (concat (map codeIdentitySha256s named))"
    using part units_closed_dependencies(1)[OF closed] L(2) by (metis mset_eq_imp_distinct_iff)
  have below: "j < i" if "(i, j) \<in> component_edges linked" for i j
    by (rule component_edges_below[OF L(5,6,2) dcode dsha order that])
  have known: "set (dependencyComponentSha256s (linked ! i)) \<subseteq> componentSha256 ` set linked" if "i < length linked" for i
    by (rule linked_dependencies_known[OF L(5,6) dcode that])
  show ?thesis
  proof (rule that)
    show "\<forall>c \<in> set linked. set (dependencyComponentSha256s c) \<subseteq> componentSha256 ` set linked"
      using known by (metis in_set_conv_nth)
    show "\<forall>i j. (i, j) \<in> component_edges linked \<longrightarrow> j < i" using below by blast
  qed (rule L(8), rule dl)
qed

lemma buildComponents_ok:
  assumes closed: "units_closed units" and built: "buildComponents sha256 units policy = Some (Inr cs)"
    and dist: "distinct (map componentSha256 cs)"
  shows "components_ok cs"
proof -
  obtain linked memo where cs: "cs = js_sort (compareBy componentBindingSha256)
       (map (\<lambda>i. (linked ! i)\<lparr>sharedEligible := (memo i = Some True)\<rparr>) [0..<length linked])"
    and dl: "distinct (map componentSha256 linked)" and below: "\<forall>i j. (i, j) \<in> component_edges linked \<longrightarrow> j < i"
    and known: "\<forall>c \<in> set linked. set (dependencyComponentSha256s c) \<subseteq> componentSha256 ` set linked"
    by (rule buildComponents_linked[OF assms])
  have mem: "\<exists>i < length linked. componentSha256 c = componentSha256 (linked ! i)
      \<and> dependencyComponentSha256s c = dependencyComponentSha256s (linked ! i)" if "c \<in> set cs" for c
    using that unfolding cs by auto
  have shas: "componentSha256 ` set cs = componentSha256 ` set linked"
  proof -
    have "mset (map componentSha256 cs) = mset (map componentSha256 linked)"
      unfolding cs mset_map mset_js_sort unfolding mset_map[symmetric] by (subst map_marked) simp_all
    then show ?thesis by (metis list.set_map mset_eq_setD)
  qed
  have "set (dependencyComponentSha256s c) \<subseteq> componentSha256 ` set cs" if "c \<in> set cs" for c
    using mem[OF that] known shas by (metis nth_mem)
  moreover have "acyclic (component_edges cs)"
  proof (rule acyclic_image[where F = "component_edges linked" and f = "\<lambda>k. the (componentBySha256 linked (componentSha256 (cs ! k)))"])
    have "component_edges linked \<subseteq> (less_than)\<inverse>" using below by auto
    then show "acyclic (component_edges linked)"
      by (metis acyclic_converse acyclic_subset wf_acyclic wf_less_than)
    fix k l assume "(k, l) \<in> component_edges cs"
    then obtain sha where kl: "k < length cs" "sha \<in> set (dependencyComponentSha256s (cs ! k))" "componentBySha256 cs sha = Some l"
      by (auto simp: component_edges_def)
    have l: "componentSha256 (cs ! l) = sha" "l < length cs" using componentBySha256_Some[OF kl(3)] by auto
    obtain i where i: "i < length linked" "componentSha256 (cs ! k) = componentSha256 (linked ! i)"
        "dependencyComponentSha256s (cs ! k) = dependencyComponentSha256s (linked ! i)"
      using mem[of "cs ! k"] kl(1) by auto
    obtain j where j: "j < length linked" "componentSha256 (cs ! l) = componentSha256 (linked ! j)"
      using mem[of "cs ! l"] l(2) by auto
    have "componentBySha256 linked (componentSha256 (cs ! k)) = Some i" "componentBySha256 linked (componentSha256 (cs ! l)) = Some j"
      using i(1,2) j componentBySha256_iff[OF dl] by simp_all
    moreover have "(i, j) \<in> component_edges linked"
      using i(1,3) kl(2) l(1) j componentBySha256_iff[OF dl] by (auto simp: component_edges_def)
    ultimately show "(the (componentBySha256 linked (componentSha256 (cs ! k))),
        the (componentBySha256 linked (componentSha256 (cs ! l)))) \<in> component_edges linked" by simp
  qed
  ultimately show ?thesis using dist by (simp add: components_ok_def)
qed

lemma component_weights_nonneg:
  assumes "component_describes units c" and "\<forall>(code, u) \<in> set units. 0 \<le> num_int (picByteWeight u)"
  shows "0 \<le> picObjectByteWeight c"
proof -
  have "0 \<le> num_int (picByteWeight (the (map_of units code)))" if "code \<in> set (codeIdentitySha256s c)" for code
    using assms that unfolding component_describes_def by (fastforce dest: map_of_SomeD)
  then show ?thesis using assms(1) unfolding component_describes_def by (auto intro!: sum_list_nonneg)
qed

section \<open>Plans\<close>

lemma buildComponents_total:
  assumes "units_closed units"
  shows "\<exists>r. buildComponents sha256 units policy = Some r"
  using stronglyConnectedComponents_lemma[OF units_closed_dependencies[OF assms]] by (auto simp: buildComponents_def)

lemma normalizePolicy_target:
  "normalizePolicy sha256 v = Inr policy \<Longrightarrow> 0 < targetShardWeight policy \<and> targetShardWeight policy \<le> max_safe_integer"
  unfolding normalizePolicy_def Let_def by (auto simp: bindR_Inr_iff dest!: requirePositiveSafeInteger_Inr)

lemma read_planning_request_Inr:
  assumes "read_planning_request sha256 rawInput = Inr (policy, units)"
  shows "0 < targetShardWeight policy" "targetShardWeight policy \<le> max_safe_integer"
    "units_closed units" "\<forall>(code, u) \<in> set units. 0 \<le> num_int (picByteWeight u)"
proof -
  from assms obtain input where input: "(case own_prop input ''logicalUnits'' of
       JArr rawUnits \<Rightarrow>
         bindR (normalizePolicy sha256 (own_prop input ''policy'')) (\<lambda>policy.
         bindR (read_logical_units sha256 rawUnits) (\<lambda>units. Inr (policy, units)))
     | _ \<Rightarrow> planner_fail ''physical shard planning request logical units must be an array'') = Inr (policy, units)"
    by (auto simp: read_planning_request_def bindR_Inr_iff)
  then obtain rawUnits where "normalizePolicy sha256 (own_prop input ''policy'') = Inr policy"
    and units: "read_logical_units sha256 rawUnits = Inr units"
    by (cases "own_prop input ''logicalUnits''") (auto simp: bindR_Inr_iff)
  then show "0 < targetShardWeight policy" "targetShardWeight policy \<le> max_safe_integer"
    using normalizePolicy_target by blast+
  show "units_closed units" "\<forall>(code, u) \<in> set units. 0 \<le> num_int (picByteWeight u)"
    by (rule read_logical_units_ok[OF units])+
qed

text \<open>C2: The planner returns on every input: the search for components never runs out of fuel, because the
  units it is given are closed under dependencies.\<close>

theorem planConvexWasmPhysicalShards_total: "\<exists>r. planConvexWasmPhysicalShards sha256 rawInput = Some r"
proof (cases "read_planning_request sha256 rawInput")
  case (Inr p)
  obtain policy units where p: "p = (policy, units)" by (cases p)
  have "units_closed units" using read_planning_request_Inr(3) Inr p by blast
  then show ?thesis using buildComponents_total[of units sha256 policy] Inr p
    by (auto simp: planConvexWasmPhysicalShards_def)
qed (simp add: planConvexWasmPhysicalShards_def)

lemma plan_Inr:
  assumes "planConvexWasmPhysicalShards sha256 rawInput = Some (Inr plan)"
  obtains policy units cs bins shards where "read_planning_request sha256 rawInput = Inr (policy, units)"
    "buildComponents sha256 units policy = Some (Inr cs)"
    "placeSharedComponents cs policy = Inr bins" "buildSharedShards sha256 bins cs = Inr shards"
    "planComponents plan = cs" "planPolicy plan = policy" "planShards plan = shards"
    "planResidual plan = residual_components policy cs" "orderShards shards = Inr (planOrder plan)"
proof -
  from assms obtain policy units where i: "read_planning_request sha256 rawInput = Inr (policy, units)"
    and r: "map_option (\<lambda>r. bindR r (assemble_plan sha256 policy)) (buildComponents sha256 units policy) = Some (Inr plan)"
    unfolding planConvexWasmPhysicalShards_def by (auto split: sum.splits)
  from r obtain cs where cs: "buildComponents sha256 units policy = Some (Inr cs)" "assemble_plan sha256 policy cs = Inr plan"
    by (auto simp: bindR_Inr_iff)
  from cs(2) obtain bins shards where "placeSharedComponents cs policy = Inr bins" "buildSharedShards sha256 bins cs = Inr shards"
    "planComponents plan = cs" "planPolicy plan = policy" "planShards plan = shards"
    "planResidual plan = residual_components policy cs" "orderShards shards = Inr (planOrder plan)"
    unfolding assemble_plan_def Let_def by (auto simp: bindR_Inr_iff)
  then show ?thesis using i cs(1) by (intro that[of policy units cs bins shards])
qed

lemma mset_concat_parts:
  "mset (map f shards) = mset (map g bins) \<Longrightarrow> (\<And>s b. f s = g b \<Longrightarrow> mset (h s) = mset (k b)) \<Longrightarrow> mset (concat (map h shards)) = mset (concat (map k bins))"
proof (induction shards arbitrary: bins)
  case (Cons s shards)
  then have "f s \<in> set (map g bins)" by (metis list.set_intros(1) list.simps(9) mset_eq_setD)
  then obtain b where b: "b \<in> set bins" "f s = g b" by auto
  then obtain xs ys where bins: "bins = xs @ b # ys" by (meson split_list)
  have "mset (map f shards) = mset (map g (xs @ ys))" using Cons.prems(1) b(2) by (simp add: bins)
  then have "mset (concat (map h shards)) = mset (concat (map k (xs @ ys)))" using Cons.IH Cons.prems(2) by blast
  then show ?case using Cons.prems(2)[OF b(2)] by (simp add: bins)
qed simp

text \<open>What a shard promises: its members are eligible components that all occur in the same cohorts, its
  weight is theirs, and it is within the target unless it is a single heavier component.\<close>

definition shard_fits :: "shard_component list \<Rightarrow> int \<Rightarrow> physical_shard \<Rightarrow> bool" where
  "shard_fits cs target s \<longleftrightarrow> (\<exists>members cohorts. members \<noteq> [] \<and> set members \<subseteq> set cs
     \<and> shardComponents s = sort_strings (map componentSha256 members)
     \<and> (\<forall>c \<in> set members. sharedEligible c \<and> occurrenceCohortSha256s c = cohorts)
     \<and> shardWeight s = (\<Sum>c \<leftarrow> members. picObjectByteWeight c)
     \<and> (if shardOversize s then length members = 1 \<and> target < shardWeight s else shardWeight s \<le> target))"

text \<open>A member of the shard \<open>s\<close> depends on a member of the shard \<open>t\<close>.\<close>

definition shard_needs :: "shard_component list \<Rightarrow> physical_shard \<Rightarrow> physical_shard \<Rightarrow> bool" where
  "shard_needs cs s t \<longleftrightarrow> (\<exists>c \<in> set cs. componentSha256 c \<in> set (shardComponents s)
     \<and> (\<exists>d \<in> set (dependencyComponentSha256s c). d \<in> set (shardComponents t)))"

lemma bin_shard_fits:
  assumes "distinct (map componentSha256 cs)" and "bin_ok cs policy bin" and "shardComponents s = sort_strings (binComponents bin)"
    and "shardWeight s = binWeight bin" and "shardOversize s = binOversize bin"
  shows "shard_fits cs (targetShardWeight policy) s"
proof -
  let ?members = "map (component_at cs) (binComponents bin)"
  have at: "component_at cs sha \<in> set cs \<and> componentSha256 (component_at cs sha) = sha" if sha: "sha \<in> set (binComponents bin)" for sha
  proof -
    obtain c where "c \<in> set cs" "componentSha256 c = sha" using assms(2) sha by (auto simp: bin_ok_def)
    then show ?thesis using component_at_member[OF assms(1)] by auto
  qed
  have "map componentSha256 ?members = binComponents bin" using at by (simp add: map_idI comp_def)
  then show ?thesis unfolding shard_fits_def using assms(2-5) at
    by (intro exI[of _ ?members] exI[of _ "binOccurrences bin"]) (auto simp: bin_ok_def comp_def simp del: js_sort.simps split: if_splits)
qed

text \<open>C1: A plan shares exactly the eligible components, each in one shard, and reports the others as residual.
  All members of a shard occur in the same cohorts, its weight is the sum of theirs, at most the target
  unless the shard is a single oversize component; a shard depends on exactly the other shards that hold a
  component which one of its members depends on; and the shard order lists every shard once, after all the
  shards it depends on. This holds whenever the material identities of the components do not collide.\<close>

theorem plan_shards_correct:
  assumes "planConvexWasmPhysicalShards sha256 rawInput = Some (Inr plan)"
    and "distinct (map componentSha256 (planComponents plan))"
  shows "mset (concat (map shardComponents (planShards plan)))
      = mset (map componentSha256 (filter sharedEligible (planComponents plan)))
    \<and> mset (map residualSha256 (planResidual plan))
      = mset (map componentSha256 (filter (\<lambda>c. \<not> sharedEligible c) (planComponents plan)))
    \<and> (\<forall>s \<in> set (planShards plan). shard_fits (planComponents plan) (targetShardWeight (planPolicy plan)) s
         \<and> set (shardDependencies s) = shardSha256 ` {t \<in> set (planShards plan). t \<noteq> s \<and> shard_needs (planComponents plan) s t})
    \<and> mset (planOrder plan) = mset (map shardSha256 (planShards plan))
    \<and> topological (shard_deps (planShards plan)) {} (planOrder plan)"
proof -
  obtain policy units cs bins shards where req: "read_planning_request sha256 rawInput = Inr (policy, units)"
    and cs: "buildComponents sha256 units policy = Some (Inr cs)"
    and bins: "placeSharedComponents cs policy = Inr bins" and shards: "buildSharedShards sha256 bins cs = Inr shards"
    and p: "planComponents plan = cs" "planPolicy plan = policy" "planShards plan = shards"
      "planResidual plan = residual_components policy cs" and order: "orderShards shards = Inr (planOrder plan)"
    by (rule plan_Inr[OF assms(1)])
  note R = read_planning_request_Inr[OF req]
  have dist: "distinct (map componentSha256 cs)" using assms(2) p(1) by simp
  have ok: "components_ok cs" by (rule buildComponents_ok[OF R(3) cs dist])
  have weights: "\<forall>c \<in> set cs. 0 \<le> picObjectByteWeight c"
    using buildComponents_partition_lemma[OF R(3) cs] component_weights_nonneg[OF _ R(4)] by blast
  have B: "mset (all_members bins) = mset (map componentSha256 (filter sharedEligible cs))"
      "\<forall>bin \<in> set bins. bin_ok cs policy bin" "acyclic (bin_edges cs bins)"
    using placeSharedComponents_ok[OF ok weights R(2)] bins by auto
  note S = buildSharedShards_ok[OF shards B(3)]
  have "mset (concat (map shardComponents shards)) = mset (concat (map binComponents bins))"
    by (rule mset_concat_parts[OF S(3)]) (metis Pair_inject mset_js_sort)
  then have 1: "mset (concat (map shardComponents shards)) = mset (map componentSha256 (filter sharedEligible cs))"
    using B(1) by simp
  have 2: "shard_fits cs (targetShardWeight policy) s" if s: "s \<in> set shards" for s
  proof -
    have "(shardComponents s, shardWeight s, shardOversize s)
        \<in> set (map (\<lambda>bin. (sort_strings (binComponents bin), binWeight bin, binOversize bin)) bins)"
      using s S(3) by (metis (no_types, lifting) image_eqI list.set_map mset_eq_setD)
    then obtain bin where "bin \<in> set bins" "shardComponents s = sort_strings (binComponents bin)"
      "shardWeight s = binWeight bin" "shardOversize s = binOversize bin" by (auto simp del: js_sort.simps)
    then show ?thesis using B(2) bin_shard_fits[OF dist] by blast
  qed
  have at: "sha \<in> componentSha256 ` set cs" if s: "s \<in> set shards" and sha: "sha \<in> set (shardComponents s)" for s sha
  proof -
    obtain members where "set members \<subseteq> set cs" "shardComponents s = sort_strings (map componentSha256 members)"
      using 2[OF s] unfolding shard_fits_def by blast
    then show ?thesis using sha by (auto simp del: js_sort.simps)
  qed
  have needs: "(\<exists>sha \<in> set (shardComponents s). \<exists>d \<in> set (dependencyComponentSha256s (component_at cs sha)). d \<in> set (shardComponents t))
      \<longleftrightarrow> shard_needs cs s t" if "s \<in> set shards" for s t
    unfolding shard_needs_def using at[OF that] component_at_member[OF dist] by fastforce
  have 5: "set (shardDependencies s) = shardSha256 ` {t \<in> set shards. t \<noteq> s \<and> shard_needs cs s t}" if "s \<in> set shards" for s
    using S(4)[OF that] unfolding needs[OF that] by blast
  have 3: "mset (planOrder plan) = mset (map shardSha256 shards)" "topological (shard_deps shards) {} (planOrder plan)"
    using orderShards_cases[OF S(1)] S(2) order by auto
  have 4: "mset (map residualSha256 (residual_components policy cs)) = mset (map componentSha256 (filter (\<lambda>c. \<not> sharedEligible c) cs))"
    by (simp add: residual_components_def image_mset.compositionality comp_def)
  show ?thesis unfolding p using 1 2 3 4 5 by blast
qed

end
