(* ===== verification/ShardBuildTotal.thy ===== *)
theory ShardBuildTotal
  imports ShardPlanCorrect
begin

text \<open>
  When \<open>buildComponents\<close> succeeds: coherent occurrence evidence, a total weight in the safe integer range
  and distinct material identities are enough, and in particular the resolution of shared eligibility
  never meets a cycle.
\<close>

section \<open>Canonical JSON of planner records\<close>

fun canonical_ok :: "jsval \<Rightarrow> bool" where
  "canonical_ok JNull = True"
| "canonical_ok (JStr s) = True"
| "canonical_ok (JBool b) = True"
| "canonical_ok (JNum n) = (isFinite n \<and> n \<noteq> NNegZero)"
| "canonical_ok (JArr vs) = (\<forall>v \<in> set vs. canonical_ok v)"
| "canonical_ok (JObj kvs) = (\<forall>(k, v) \<in> set kvs. canonical_ok v)"
| "canonical_ok _ = False"

lemma mapR_total: "(\<And>x. x \<in> set xs \<Longrightarrow> \<exists>y. f x = Inr y) \<Longrightarrow> \<exists>ys. mapR f xs = Inr ys"
proof (induction xs)
  case (Cons x xs)
  obtain y where "f x = Inr y" using Cons.prems[of x] by auto
  moreover obtain ys where "mapR f xs = Inr ys" using Cons by auto
  ultimately show ?case by simp
qed simp

lemma canonicalValue_total: "canonical_ok v \<Longrightarrow> \<exists>w. canonicalValue v = Inr w"
proof (induction v rule: canonicalValue.induct)
  case (5 vs)
  then have "\<exists>ws. mapR canonicalValue vs = Inr ws" by (intro mapR_total) auto
  then show ?case by auto
next
  case (6 kvs)
  have "\<exists>es. mapR (\<lambda>(key, v). bindR (canonicalValue v) (\<lambda>w. Inr (key, w))) (sort_entries kvs) = Inr es"
  proof (rule mapR_total)
    fix x assume x: "x \<in> set (sort_entries kvs)"
    obtain k v where kv: "x = (k, v)" by (cases x)
    have "(k, v) \<in> set kvs" using x kv by simp
    then have "canonical_ok v" using "6.prems" by auto
    then obtain w where "canonicalValue v = Inr w" using "6.IH"[OF x kv[symmetric]] by blast
    then show "\<exists>y. (case x of (key, v) \<Rightarrow> bindR (canonicalValue v) (\<lambda>w. Inr (key, w))) = Inr y" by (simp add: kv)
  qed
  then show ?case by auto
qed auto

lemma fingerprint_total: "canonical_ok v \<Longrightarrow> \<exists>s. fingerprintConvexWasmPhysicalShardJson sha256 v = Inr s"
  using canonicalValue_total[of v]
  by (auto simp: fingerprintConvexWasmPhysicalShardJson_def canonicalConvexWasmPhysicalShardJson_def)

section \<open>One component\<close>

definition unit_weights_ok :: "units \<Rightarrow> bool" where
  "unit_weights_ok units \<longleftrightarrow> (\<forall>(code, u) \<in> set units. \<exists>n::nat. picByteWeight u = NInt (int n))
     \<and> (\<Sum>(code, u) \<leftarrow> units. num_int (picByteWeight u)) \<le> max_safe_integer"

definition coherent_occurrences :: "units \<Rightarrow> bool" where
  "coherent_occurrences units \<longleftrightarrow> (\<forall>(c, u) \<in> set units. \<forall>(d, v) \<in> set units.
     reaches (unit_dependencies units) c d \<longrightarrow> reaches (unit_dependencies units) d c \<longrightarrow> occurrences u = occurrences v)"

lemma foldR_addSafe_total:
  assumes "\<And>u. u \<in> set us \<Longrightarrow> 0 \<le> w u" and "a + sum_list (map w us) \<le> max_safe_integer"
  shows "\<exists>s. foldR (\<lambda>total u. addSafeIntegers total (w u) d) a us = Inr s"
  using assms
proof (induction us arbitrary: a)
  case (Cons u us)
  have "0 \<le> sum_list (map w us)" using Cons.prems(1) by (intro sum_list_nonneg) auto
  then have "addSafeIntegers a (w u) d = Inr (a + w u)"
    using Cons.prems(2) by (simp add: addSafeIntegers_Inr_iff)
  moreover have "\<exists>s. foldR (\<lambda>total u. addSafeIntegers total (w u) d) (a + w u) us = Inr s"
    by (rule Cons.IH) (use Cons.prems in auto)
  ultimately show ?case by simp
qed simp

lemma members_of_codes:
  assumes "set codes \<subseteq> fst ` set units"
  shows "\<exists>us. mapR (get_unit units) codes = Inr us
    \<and> list_all2 (\<lambda>code u. map_of units code = Some u \<and> (code, u) \<in> set units) codes us"
proof -
  have "\<exists>us. mapR (get_unit units) codes = Inr us"
  proof (rule mapR_total)
    fix c assume "c \<in> set codes"
    then have "c \<in> fst ` set units" using assms by blast
    then have "map_of units c \<noteq> None" by (simp add: map_of_eq_None_iff)
    then show "\<exists>u. get_unit units c = Inr u" by (auto simp: get_unit_Inr_iff)
  qed
  then obtain us where us: "mapR (get_unit units) codes = Inr us" by blast
  then have "list_all2 (\<lambda>code u. map_of units code = Some u) codes us" by (simp only: map_get_unit)
  then have "list_all2 (\<lambda>code u. map_of units code = Some u \<and> (code, u) \<in> set units) codes us"
    by (rule list_all2_mono) (auto dest: map_of_SomeD)
  then show ?thesis using us by blast
qed

lemma members_weight:
  assumes ok: "unit_weights_ok units" and dist: "distinct (map fst units)" and codes: "distinct codes" "set codes \<subseteq> fst ` set units"
    and us: "list_all2 (\<lambda>code u. map_of units code = Some u \<and> (code, u) \<in> set units) codes us"
  shows "sum_list (map (\<lambda>u. num_int (picByteWeight u)) us) \<le> max_safe_integer"
proof -
  let ?w = "\<lambda>c. num_int (picByteWeight (the (map_of units c)))"
  have at: "the (map_of units c) = u" if "(c, u) \<in> set units" for c u using map_of_is_SomeI[OF dist that] by simp
  have "map (\<lambda>u. num_int (picByteWeight u)) us = map ?w codes"
    using us by (induction rule: list_all2_induct) auto
  then have "sum_list (map (\<lambda>u. num_int (picByteWeight u)) us) = (\<Sum>c \<in> set codes. ?w c)"
    using codes(1) by (simp add: sum_list_distinct_conv_sum_set)
  also have "\<dots> \<le> (\<Sum>c \<in> set (map fst units). ?w c)"
  proof (rule sum_mono2)
    show "set codes \<subseteq> set (map fst units)" using codes(2) by simp
    show "0 \<le> ?w b" if "b \<in> set (map fst units) - set codes" for b
      using that ok at unfolding unit_weights_ok_def by fastforce
  qed simp
  also have "\<dots> = sum_list (map ?w (map fst units))" using dist by (simp only: sum_list_distinct_conv_sum_set)
  also have "map ?w (map fst units) = map (\<lambda>(c, u). num_int (picByteWeight u)) units"
    using at by (auto simp: case_prod_beta)
  finally show ?thesis using ok by (simp add: unit_weights_ok_def)
qed

text \<open>The identity of a component's material, as \<open>buildComponent\<close> computes it.\<close>

definition material_identity :: "(string \<Rightarrow> string) \<Rightarrow> units \<Rightarrow> string list \<Rightarrow> string res" where
  "material_identity sha256 units codes =
     bindR (mapR (get_unit units) codes) (\<lambda>members.
     fingerprintConvexWasmPhysicalShardJson sha256 (component_material_json members))"

lemma buildComponent_total:
  assumes closed: "units_closed units" and weights: "unit_weights_ok units" and coherent: "coherent_occurrences units"
    and codes: "distinct codes" "is_scc (unit_dependencies units) (set codes)" "set codes \<subseteq> fst ` set units"
  shows "\<exists>c. buildComponent sha256 units codes = Inr c \<and> material_identity sha256 units codes = Inr (componentSha256 c)"
proof -
  have dist: "distinct (map fst units)" using closed by (simp add: units_closed_def)
  obtain us where us: "mapR (get_unit units) codes = Inr us"
    "list_all2 (\<lambda>code u. map_of units code = Some u \<and> (code, u) \<in> set units) codes us"
    using members_of_codes[OF codes(3)] by blast
  have mem: "\<exists>code \<in> set codes. (code, u) \<in> set units" if "u \<in> set us" for u
    using us(2) that by (induction rule: list_all2_induct) auto
  have "codes \<noteq> []" using codes(2) by (auto simp: is_scc_def)
  then obtain first rest where fr: "us = first # rest" using us(2) by (cases us) auto
  have same: "occurrences u = occurrences v" if "u \<in> set us" "v \<in> set us" for u v
  proof -
    obtain c d where c: "c \<in> set codes" "(c, u) \<in> set units" and d: "d \<in> set codes" "(d, v) \<in> set units"
      using mem[OF \<open>u \<in> set us\<close>] mem[OF \<open>v \<in> set us\<close>] by blast
    then have "reaches (unit_dependencies units) c d" "reaches (unit_dependencies units) d c"
      using codes(2) unfolding is_scc_def by blast+
    then show ?thesis using coherent c(2) d(2) unfolding coherent_occurrences_def by blast
  qed
  have w: "\<exists>n::nat. picByteWeight u = NInt (int n)" if "u \<in> set us" for u
    using mem[OF that] weights unfolding unit_weights_ok_def by blast
  have num: "isFinite (picByteWeight u) \<and> picByteWeight u \<noteq> NNegZero" if "u \<in> set us" for u using w[OF that] by auto
  have "0 \<le> num_int (picByteWeight u)" if "u \<in> set us" for u using w[OF that] by auto
  then obtain weight where weight: "component_weight codes us = Inr weight"
    unfolding component_weight_def
    using foldR_addSafe_total[of us "\<lambda>u. num_int (picByteWeight u)" 0] members_weight[OF weights dist codes(1,3) us(2)]
    by (metis add_0)
  have dep: "set (dependencies u) \<subseteq> fst ` set units" if "u \<in> set us" for u
    using mem[OF that] closed unfolding units_closed_def by blast
  have entry: "\<exists>json. bindR (unit_binding_json units u) (\<lambda>json. Inr (bindingIdentitySha256 u, json)) = Inr (bindingIdentitySha256 u, json)
      \<and> canonical_ok json" if u: "u \<in> set us" for u
  proof -
    obtain ds where "mapR (get_unit units) (dependencies u) = Inr ds" using members_of_codes[OF dep[OF u]] by blast
    then show ?thesis using w[OF u] by (auto simp: unit_binding_json_def simp del: js_sort.simps)
  qed
  obtain es where es: "mapR (\<lambda>unit. bindR (unit_binding_json units unit) (\<lambda>json. Inr (bindingIdentitySha256 unit, json))) us = Inr es"
    using mapR_total[of us "\<lambda>unit. bindR (unit_binding_json units unit) (\<lambda>json. Inr (bindingIdentitySha256 unit, json))"] entry by blast
  have "canonical_ok (snd e)" if "e \<in> set es" for e
    using mapR_set[OF es that] entry by fastforce
  then have "\<exists>b. bindR (component_binding_json units us) (fingerprintConvexWasmPhysicalShardJson sha256) = Inr b"
    using es by (auto simp: component_binding_json_def simp del: js_sort.simps intro!: fingerprint_total)
  then obtain b where b: "bindR (component_binding_json units us) (fingerprintConvexWasmPhysicalShardJson sha256) = Inr b" by blast
  have "canonical_ok (component_material_json us)"
    using num by (auto simp: component_material_json_def pic_object_json_def)
  then obtain m where m: "fingerprintConvexWasmPhysicalShardJson sha256 (component_material_json us) = Inr m"
    using fingerprint_total by blast
  have "\<forall>u \<in> set rest. occurrences u = occurrences first"
  proof
    fix u assume "u \<in> set rest"
    then show "occurrences u = occurrences first" by (intro same) (simp_all add: fr)
  qed
  then have "\<exists>c. buildComponent sha256 units codes = Inr c \<and> componentSha256 c = m"
    unfolding buildComponent_def us(1) bindR.simps fr list.case Let_def
    using weight b m unfolding fr by (simp add: planner_failWhen_def del: js_sort.simps)
  moreover have "material_identity sha256 units codes = Inr m" by (simp add: material_identity_def us(1) m)
  ultimately show ?thesis by blast
qed

section \<open>All components\<close>

lemma disambiguate_total: "\<exists>d. disambiguateBinding sha256 cs c = Inr d"
proof -
  let ?v = "JObj [(''ambiguousStableBindingSha256'', JStr (componentBindingSha256 c)),
         (''componentMaterialSha256'', JStr (componentSha256 c)),
         (''domain'', JStr ''convex-wasm-physical-shard-ambiguous-component-binding-v1'')]"
  obtain s where "fingerprintConvexWasmPhysicalShardJson sha256 ?v = Inr s" using fingerprint_total[of ?v sha256] by auto
  then show ?thesis by (simp add: disambiguateBinding_def)
qed

lemma unit_dependencies_known:
  assumes "units_closed units"
  shows "set (unit_dependencies units x) \<subseteq> fst ` set units"
proof (cases "x \<in> fst ` set units")
  case True
  then show ?thesis using units_closed_dependencies(2)[OF assms] by (metis list.set_map)
next
  case False
  then have "map_of units x = None" by (simp add: map_of_eq_None_iff)
  then show ?thesis by (simp add: unit_dependencies_def)
qed

lemma buildComponentsOf_total:
  assumes closed: "units_closed units" and weights: "unit_weights_ok units" and coherent: "coherent_occurrences units"
    and part: "mset (concat codeSets) = mset (map fst units)"
    and scc: "\<forall>C \<in> set codeSets. is_scc (unit_dependencies units) (set C)"
    and order: "closed_from (unit_dependencies units) {} codeSets"
    and inj: "inj_on (material_identity sha256 units) (set codeSets)"
  shows "\<exists>cs. buildComponentsOf sha256 units policy codeSets = Inr cs \<and> distinct (map componentSha256 cs)"
proof -
  let ?S = "unit_dependencies units"
  have keys: "set (concat codeSets) = fst ` set units" using part by (metis list.set_map mset_eq_setD)
  have dcs: "distinct (concat codeSets)" using part units_closed_dependencies(1)[OF closed] by (metis mset_eq_imp_distinct_iff)
  have one: "\<exists>c. buildComponent sha256 units C = Inr c \<and> material_identity sha256 units C = Inr (componentSha256 c)"
    if C: "C \<in> set codeSets" for C
  proof (rule buildComponent_total[OF closed weights coherent])
    show "distinct C" using dcs C by (metis distinct_concat_iff)
    show "is_scc ?S (set C)" using scc C by blast
    show "set C \<subseteq> fst ` set units" using keys C by auto
  qed
  then obtain built where built: "mapR (buildComponent sha256 units) codeSets = Inr built" using mapR_total by metis
  obtain named where named: "mapR (disambiguateBinding sha256 built) built = Inr named" using mapR_total disambiguate_total by metis
  have sn: "list_all2 same_component built named"
    using named unfolding mapR_Inr_iff by (rule list_all2_mono) (rule disambiguate_same)
  have lb: "list_all2 (\<lambda>C c. buildComponent sha256 units C = Inr c) codeSets built" using built by (simp only: mapR_Inr_iff)
  have "list_all2 (\<lambda>C c. codeIdentitySha256s c = C \<and> material_identity sha256 units C = Inr (componentSha256 c)) codeSets built"
  proof (rule list_all2_all_nthI)
    show "length codeSets = length built" by (rule list_all2_lengthD[OF lb])
    fix i assume i: "i < length codeSets"
    have b: "buildComponent sha256 units (codeSets ! i) = Inr (built ! i)" by (rule list_all2_nthD[OF lb i])
    then show "codeIdentitySha256s (built ! i) = codeSets ! i
        \<and> material_identity sha256 units (codeSets ! i) = Inr (componentSha256 (built ! i))"
      using one[OF nth_mem[OF i]] buildComponent_describes(1)[OF b] by auto
  qed
  then have codes_b: "map codeIdentitySha256s built = codeSets" and mats: "map (material_identity sha256 units) codeSets = map (Inr \<circ> componentSha256) built"
    by (induction rule: list_all2_induct) auto
  have codes: "map codeIdentitySha256s named = codeSets" using same_components_map(1)[OF sn] codes_b by simp
  have dcodes: "distinct (concat (map codeIdentitySha256s named))" using dcs codes by simp
  have "distinct codeSets"
  proof -
    have "[] \<notin> set codeSets" using scc by (auto simp: is_scc_def)
    then show ?thesis using dcs by (simp add: distinct_concat_iff removeAll_id)
  qed
  then have "distinct (map (material_identity sha256 units) codeSets)" using inj by (simp add: distinct_map)
  then have "distinct (map componentSha256 built)" unfolding mats by (metis distinct_map map_map)
  then have dsha: "distinct (map componentSha256 named)" using same_components_map(2)[OF sn] by simp
  have link: "\<exists>d. linkComponent units policy named i = Inr d" if i: "i \<in> set [0..<length named]" for i
  proof -
    have "\<exists>j. componentByCodeIdentity named y = Some j" if "y \<in> set (concat (map ?S (codeIdentitySha256s (named ! i))))" for y
    proof -
      have "y \<in> fst ` set units" using that unit_dependencies_known[OF closed] by auto
      then have "y \<in> set (concat (map codeIdentitySha256s named))" using keys codes by simp
      then obtain j where "j < length named" "y \<in> set (codeIdentitySha256s (named ! j))" by (auto simp: set_conv_nth[of named])
      then show ?thesis using componentByCodeIdentity_iff[OF dcodes] by blast
    qed
    then have "\<exists>ixs. dependencyIndexes units named i = Inr ixs"
      unfolding dependencyIndexes_def by (intro mapR_total) (metis option.simps(5))
    then show ?thesis by (auto simp: linkComponent_def Let_def)
  qed
  then obtain linked where linked: "mapR (linkComponent units policy named) [0..<length named] = Inr linked" using mapR_total by metis
  have sl: "list_all2 same_component named linked"
  proof (rule list_all2_all_nthI)
    show len: "length named = length linked" using mapR_length[OF linked] by simp
    fix i assume i: "i < length named"
    have "list_all2 (\<lambda>i d. linkComponent units policy named i = Inr d) [0..<length named] linked" using linked by (simp only: mapR_Inr_iff)
    from list_all2_nthD[OF this, of i] i have "linkComponent units policy named i = Inr (linked ! i)" by simp
    then show "same_component (named ! i) (linked ! i)" by (rule link_same)
  qed
  have dl: "distinct (map componentSha256 linked)" using dsha same_components_map(2)[OF sl] by simp
  have below: "j < i" if "(i, j) \<in> component_edges linked" for i j
    by (rule component_edges_below[OF linked sl codes dcodes dsha order that])
  have known: "set (dependencyComponentSha256s (linked ! i)) \<subseteq> componentSha256 ` set linked" if "i < length linked" for i
    by (rule linked_dependencies_known[OF linked sl dcodes that])
  have "\<exists>memo. resolveAll linked (\<lambda>_. None) [0..<length linked] = Inr memo"
  proof (rule resolveAll_in_order)
    fix i sha assume i: "i < length linked" and sha: "sha \<in> set (dependencyComponentSha256s (linked ! i))"
    then have "sha \<in> componentSha256 ` set linked" using known by blast
    then obtain j where j: "componentBySha256 linked sha = Some j" using componentBySha256_None_iff[of linked sha] by fastforce
    then have "(i, j) \<in> component_edges linked" using i sha by (auto simp: component_edges_def)
    then show "\<exists>j < i. componentBySha256 linked sha = Some j" using below j by blast
  qed simp_all
  then obtain memo where memo: "resolveAll linked (\<lambda>_. None) [0..<length linked] = Inr memo" by blast
  let ?cs = "js_sort (compareBy componentBindingSha256) (map (\<lambda>i. (linked ! i)\<lparr>sharedEligible := (memo i = Some True)\<rparr>) [0..<length linked])"
  have "buildComponentsOf sha256 units policy codeSets = Inr ?cs"
    unfolding buildComponentsOf_def using built named linked memo by (simp del: js_sort.simps)
  moreover have "mset (map componentSha256 ?cs) = mset (map componentSha256 linked)"
    unfolding mset_map mset_js_sort unfolding mset_map[symmetric] by (subst map_marked) simp_all
  then have "distinct (map componentSha256 ?cs)" using dl by (metis mset_eq_imp_distinct_iff)
  ultimately show ?thesis by blast
qed

definition component_code_sets :: "units \<Rightarrow> string list list" where
  "component_code_sets units = (case stronglyConnectedComponents (unit_dependencies units) (map fst units) of
     None \<Rightarrow> [] | Some cs \<Rightarrow> cs)"

lemma buildComponents_total_ok:
  assumes "units_closed units" "unit_weights_ok units" "coherent_occurrences units"
    and "inj_on (material_identity sha256 units) (set (component_code_sets units))"
  shows "\<exists>cs. buildComponents sha256 units policy = Some (Inr cs) \<and> distinct (map componentSha256 cs)"
proof -
  obtain codeSets where C: "stronglyConnectedComponents (unit_dependencies units) (map fst units) = Some codeSets"
    "mset (concat codeSets) = mset (map fst units)"
    "\<forall>C \<in> set codeSets. is_scc (unit_dependencies units) (set C) \<and> sorted C"
    "closed_from (unit_dependencies units) {} codeSets"
    using stronglyConnectedComponents_lemma[OF units_closed_dependencies[OF assms(1)]] by blast
  have "inj_on (material_identity sha256 units) (set codeSets)" using assms(4) C(1) by (simp add: component_code_sets_def)
  then obtain cs where "buildComponentsOf sha256 units policy codeSets = Inr cs" "distinct (map componentSha256 cs)"
    using buildComponentsOf_total[OF assms(1-3) C(2) _ C(4)] C(3) by blast
  then show ?thesis using C(1) by (simp add: buildComponents_def)
qed

text \<open>Building the components succeeds whenever the units of every cycle agree on their occurrences, the
  total weight is a safe integer and the material identities are distinct; in particular the
  eligibility resolution cannot report a cycle after the strongly connected components are collapsed.\<close>

lemma buildComponents_succeeds:
  assumes "units_closed units" "unit_weights_ok units" "coherent_occurrences units"
    and "inj_on (material_identity sha256 units) (set (component_code_sets units))"
  shows "\<exists>cs. buildComponents sha256 units policy = Some (Inr cs) \<and> distinct (map componentSha256 cs)"
  by (rule buildComponents_total_ok[OF assms])

end
