(* ===== verification/ShardExamples.thy ===== *)
theory ShardExamples
  imports ShardBuildTotal
begin

text \<open>
  Concrete requests, units and components at which the theorems about the planner apply.
\<close>

section \<open>A pair of units that depend on each other\<close>

definition sample_unit :: "string \<Rightarrow> string list \<Rightarrow> nat \<Rightarrow> authenticated_unit" where
  "sample_unit code ds w = \<lparr>codeIdentitySha256 = code, bindingIdentitySha256 = ''b'' @ code, dependencies = ds,
     occurrences = [''x'', ''y''], picByteWeight = NInt (int w), picSha256 = ''p'', shareable = True,
     logicalUnitSha256 = ''l'' @ code\<rparr>"

definition sample_units :: units where
  "sample_units = [(''c1'', sample_unit ''c1'' [''c2''] 3), (''c2'', sample_unit ''c2'' [''c1''] 14)]"

definition sample_policy :: shard_policy where
  "sample_policy = \<lparr>minimumCohortCount = 2, targetShardWeight = 100, policySha256 = ''q''\<rparr>"

lemma sample_closed: "units_closed sample_units"
  by (simp add: units_closed_def sample_units_def sample_unit_def)

lemma sample_weights: "unit_weights_ok sample_units"
  by (auto simp: unit_weights_ok_def sample_units_def sample_unit_def max_safe_integer_def)

lemma sample_coherent: "coherent_occurrences sample_units"
  by (simp add: coherent_occurrences_def sample_units_def sample_unit_def)

lemma sample_code_sets: "component_code_sets sample_units = [[''c1'', ''c2'']]"
  by code_simp

lemma sample_inj: "inj_on (material_identity sha256 sample_units) (set (component_code_sets sample_units))"
  by (simp add: sample_code_sets)

lemmas sample_ok = sample_closed sample_weights sample_coherent sample_inj

lemma sample_reaches: "reaches (unit_dependencies sample_units) x y \<Longrightarrow> x \<in> {''c1'', ''c2''} \<Longrightarrow> y \<in> {''c1'', ''c2''}"
  by (erule reach_closed) (auto simp: edges_def unit_dependencies_def sample_units_def sample_unit_def split: if_splits)

theorem buildComponents_succeeds_witness:
  "\<exists>cs. buildComponents (\<lambda>s. s) sample_units sample_policy = Some (Inr cs) \<and> distinct (map componentSha256 cs)"
  by (rule buildComponents_succeeds[OF sample_ok])

theorem buildComponents_partition_witness:
  "\<exists>cs. buildComponents (\<lambda>s. s) sample_units sample_policy = Some (Inr cs)
    \<and> mset (concat (map codeIdentitySha256s cs)) = mset [''c1'', ''c2'']
    \<and> (\<forall>c \<in> set cs. is_scc (unit_dependencies sample_units) (set (codeIdentitySha256s c)))"
proof -
  obtain cs where "buildComponents (\<lambda>s. s) sample_units sample_policy = Some (Inr cs)"
    using buildComponents_total_ok[OF sample_ok] by blast
  then show ?thesis using buildComponents_partition[OF sample_closed, of "\<lambda>s. s" sample_policy cs]
    by (auto simp: sample_units_def)
qed

theorem buildComponents_eligible_witness:
  "\<exists>cs. buildComponents (\<lambda>s. s) sample_units sample_policy = Some (Inr cs) \<and> cs \<noteq> [] \<and> (\<forall>c \<in> set cs. sharedEligible c)"
proof -
  obtain cs where cs: "buildComponents (\<lambda>s. s) sample_units sample_policy = Some (Inr cs)" "distinct (map componentSha256 cs)"
    using buildComponents_total_ok[OF sample_ok] by blast
  note part = buildComponents_partition_lemma[OF sample_closed cs(1)]
  then have "cs \<noteq> []" by (auto simp: sample_units_def)
  moreover have "sharedEligible c" if c: "c \<in> set cs" for c
  proof -
    have "mset (concat (map codeIdentitySha256s cs)) = mset (map fst sample_units)" using part by blast
    then have "set (concat (map codeIdentitySha256s cs)) = set (map fst sample_units)" by (rule mset_eq_setD)
    then have "set (concat (map codeIdentitySha256s cs)) = {''c1'', ''c2''}" by (simp add: sample_units_def)
    then have "set (codeIdentitySha256s c) \<subseteq> {''c1'', ''c2''}" using c by auto
    then have "unit_shared sample_units sample_policy y"
      if "x \<in> set (codeIdentitySha256s c)" "reaches (unit_dependencies sample_units) x y" for x y
      using sample_reaches[OF that(2)] that(1)
      by (auto simp: unit_shared_def sample_units_def sample_unit_def sample_policy_def)
    then show ?thesis using buildComponents_eligible[OF sample_closed cs c] by blast
  qed
  ultimately show ?thesis using cs(1) by blast
qed

section \<open>Three components\<close>

definition sample_component :: "string \<Rightarrow> string list \<Rightarrow> int \<Rightarrow> bool \<Rightarrow> shard_component" where
  "sample_component sha ds w shared = \<lparr>bindingIdentitySha256s = [], codeIdentitySha256s = [''c'' @ sha],
     componentBindingSha256 = ''b'' @ sha, componentSha256 = sha, dependencyComponentSha256s = ds,
     logicalUnitSha256s = [], occurrenceCohortSha256s = [''x'', ''y''], picObjectByteWeight = w,
     componentShareable = shared, sharedCandidate = shared, sharedEligible = shared\<rparr>"

definition sample_components :: "shard_component list" where
  "sample_components = [sample_component ''1'' [''2''] 60 True, sample_component ''2'' [''3''] 30 True,
     sample_component ''3'' [] 120 True]"

lemma sample_components_ok: "components_ok sample_components"
proof -
  have e: "component_edges sample_components \<subseteq> {(0, 1), (1, 2)}"
    by (auto simp: component_edges_def sample_components_def sample_component_def componentBySha256_def
        less_Suc_eq numeral_3_eq_3 split: if_splits)
  have "acyclic {(0::nat, 1), (1, 2)}"
    by (rule acyclic_subset[of "(less_than)"]) (auto intro: wf_acyclic)
  then have "acyclic (component_edges sample_components)" using e by (rule acyclic_subset)
  then show ?thesis by (auto simp: components_ok_def sample_components_def sample_component_def)
qed

lemma sample_quotient:
  obtains q where "createPhysicalShardQuotient sample_components = Inr q" "quotient_inv q"
    "quotient_edges q = component_edges sample_components"
    "0 \<in> set (activeBins q)" "1 \<in> set (activeBins q)"
  by (rule createPhysicalShardQuotient_ok[OF sample_components_ok]) (auto simp: sample_components_def)

theorem mergeQuotientBins_contracts_witness:
  "\<exists>q ok q'. createPhysicalShardQuotient sample_components = Inr q \<and> mergeQuotientBins q 0 1 = Inr (ok, q') \<and> quotient_inv q'"
proof -
  obtain q where q: "createPhysicalShardQuotient sample_components = Inr q" "quotient_inv q"
    "0 \<in> set (activeBins q)" "1 \<in> set (activeBins q)" by (rule sample_quotient)
  show ?thesis using mergeQuotientBins_contracts[OF q(2-4)] q(1) by auto
qed

section \<open>A planning request\<close>

lemma fingerprint_const: "canonical_ok v \<Longrightarrow> fingerprintConvexWasmPhysicalShardJson (\<lambda>_. c) v = Inr c"
  using fingerprint_total[of v "\<lambda>_. c"]
  by (auto simp: fingerprintConvexWasmPhysicalShardJson_def bindR_Inr_iff)

definition sample_sha :: "char \<Rightarrow> string" where
  "sample_sha c = replicate 64 c"

lemma sample_sha_ok:
  "SHA256_PATTERN (sample_sha CHR ''a'')" "SHA256_PATTERN (sample_sha CHR ''b'')" "SHA256_PATTERN (sample_sha CHR ''c'')"
  "SHA256_PATTERN (sample_sha CHR ''d'')" "SHA256_PATTERN (sample_sha CHR ''1'')" "SHA256_PATTERN (sample_sha CHR ''2'')"
  by code_simp+

lemma sample_sha_less: "sample_sha CHR ''1'' < sample_sha CHR ''2''"
  by code_simp

definition request_policy :: shard_policy where
  "request_policy = \<lparr>minimumCohortCount = 2, targetShardWeight = 100, policySha256 = sample_sha CHR ''a''\<rparr>"

definition request_unit :: authenticated_unit where
  "request_unit = \<lparr>codeIdentitySha256 = sample_sha CHR ''c'', bindingIdentitySha256 = sample_sha CHR ''b'',
     dependencies = [], occurrences = [sample_sha CHR ''1'', sample_sha CHR ''2''], picByteWeight = NInt 5,
     picSha256 = sample_sha CHR ''d'', shareable = True, logicalUnitSha256 = sample_sha CHR ''a''\<rparr>"

definition raw_unit :: jsval where
  "raw_unit = JObj
     [(''bindingIdentitySha256'', JStr (sample_sha CHR ''b'')),
      (''codeIdentitySha256'', JStr (sample_sha CHR ''c'')),
      (''dependencies'', JArr []),
      (''kind'', JStr convexWasmPhysicalShardLogicalUnitKind),
      (''logicalUnitSha256'', JStr (sample_sha CHR ''a'')),
      (''occurrences'', JArr [JStr (sample_sha CHR ''1''), JStr (sample_sha CHR ''2'')]),
      (''picObject'', JObj [(''byteWeight'', JNum (NInt 5)), (''sha256'', JStr (sample_sha CHR ''d''))]),
      (''shareable'', JBool True)]"

definition raw_policy :: jsval where
  "raw_policy = JObj [(''kind'', JStr convexWasmPhysicalShardPolicyKind), (''targetShardWeight'', JNum (NInt 100))]"

definition sample_request :: jsval where
  "sample_request = JObj
     [(''kind'', JStr convexWasmPhysicalShardPlanningRequestKind),
      (''logicalUnits'', JArr [raw_unit]), (''policy'', raw_policy)]"

abbreviation constant_sha :: "string \<Rightarrow> string" where
  "constant_sha \<equiv> (\<lambda>_. sample_sha CHR ''a'')"

lemma sample_policy_read: "normalizePolicy constant_sha raw_policy = Inr request_policy"
  by (simp add: raw_policy_def normalizePolicy_def planner_failWhen_def own_prop_def max_safe_integer_def fingerprint_const
      request_policy_def convexWasmPhysicalShardDefaultMinimumCohortCount_def Let_def compareStrings_def)

lemma sample_unit_read: "normalizeAuthenticatedLogicalUnit constant_sha raw_unit 0 = Inr request_unit"
  using sample_sha_less
  by (simp add: raw_unit_def request_unit_def normalizeAuthenticatedLogicalUnit_def normalizeLogicalUnitMaterial_def
      planner_requireExactKeys_def planner_failWhen_def own_prop_def max_safe_integer_def requireCanonicalSha256Set_def
      sample_sha_ok Let_def compareStrings_def logicalUnitIdentityPayload_def logical_unit_json_def pic_object_json_def
      fingerprint_const logical_unit.defs authenticated_unit.defs)

definition request_units :: units where
  "request_units = [(sample_sha CHR ''c'', request_unit)]"

lemma sample_request_read: "read_planning_request constant_sha sample_request = Inr (request_policy, request_units)"
proof -
  have keys: "sort_strings [''kind'', ''logicalUnits'', ''policy''] = [''kind'', ''logicalUnits'', ''policy'']" by code_simp
  have "read_logical_units constant_sha [raw_unit] = Inr request_units"
    by (simp add: read_logical_units_def add_logical_unit_def sample_unit_read Let_def planner_failWhen_def
        check_dependencies_def request_units_def) (simp add: request_unit_def)
  then show ?thesis
    by (simp add: read_planning_request_def sample_request_def planner_requireExactKeys_def keys planner_failWhen_def
        own_prop_def sample_policy_read del: js_sort.simps)
qed

lemma request_units_ok: "units_closed request_units" "unit_weights_ok request_units" "coherent_occurrences request_units"
    "inj_on (material_identity constant_sha request_units) (set (component_code_sets request_units))"
proof -
  show "units_closed request_units" "coherent_occurrences request_units"
    by (simp_all add: units_closed_def coherent_occurrences_def request_units_def request_unit_def)
  show "unit_weights_ok request_units"
    by (auto simp: unit_weights_ok_def request_units_def request_unit_def max_safe_integer_def intro: exI[of _ 5])
  have "component_code_sets request_units = [[sample_sha CHR ''c'']]" by code_simp
  then show "inj_on (material_identity constant_sha request_units) (set (component_code_sets request_units))" by simp
qed

lemma length_concat_nonempty: "(\<And>x. x \<in> set xs \<Longrightarrow> f x \<noteq> []) \<Longrightarrow> length xs \<le> length (concat (map f xs))"
proof (induction xs)
  case (Cons x xs)
  then have "f x \<noteq> []" "length xs \<le> length (concat (map f xs))" by auto
  then show ?case by (cases "f x") auto
qed simp

lemma single_build:
  obtains c where "buildComponents constant_sha request_units request_policy = Some (Inr [c])"
proof -
  obtain cs where cs: "buildComponents constant_sha request_units request_policy = Some (Inr cs)"
    using buildComponents_total_ok[OF request_units_ok] by blast
  note part = buildComponents_partition_lemma[OF request_units_ok(1) cs]
  have ne: "codeIdentitySha256s c \<noteq> []" if "c \<in> set cs" for c using part that by (simp add: component_describes_def)
  have "length (concat (map codeIdentitySha256s cs)) = 1"
    using part by (metis length_map mset_eq_length request_units_def list.size(3,4) One_nat_def add_0)
  then have "length cs = 1"
    using length_concat_nonempty[of cs codeIdentitySha256s] ne by (cases cs) auto
  then obtain c where "cs = [c]" by (cases cs) auto
  then show ?thesis using cs that by simp
qed

lemma sample_plan: "\<exists>plan. planConvexWasmPhysicalShards constant_sha sample_request = Some (Inr plan)
    \<and> length (planComponents plan) = 1"
proof -
  obtain c where c: "buildComponents constant_sha request_units request_policy = Some (Inr [c])" by (rule single_build)
  have ok: "components_ok [c]" by (rule buildComponents_ok[OF request_units_ok(1) c]) simp
  have w: "\<forall>c \<in> set [c]. 0 \<le> picObjectByteWeight c"
    using buildComponents_partition_lemma[OF request_units_ok(1) c] component_weights_nonneg[of request_units]
    by (auto simp: request_units_def request_unit_def)
  have t: "targetShardWeight request_policy \<le> max_safe_integer" by (simp add: request_policy_def max_safe_integer_def)
  obtain bins where bins: "placeSharedComponents [c] request_policy = Inr bins"
    "mset (all_members bins) = mset (map componentSha256 (filter sharedEligible [c]))" "\<forall>bin \<in> set bins. bin_ok [c] request_policy bin"
    "acyclic (bin_edges [c] bins)"
    using placeSharedComponents_ok[OF ok w t] by blast
  have b: "bins = [] \<or> (\<exists>bin. bins = [bin] \<and> binComponents bin = [componentSha256 c])"
  proof (cases bins)
    case (Cons bin rest)
    have ne: "binComponents x \<noteq> []" if "x \<in> set bins" for x using bins(3) that by (simp add: bin_ok_def)
    have "length (all_members bins) \<le> 1" using bins(2) by (metis (no_types, lifting) filter.simps length_map mset_eq_length list.size(3,4) One_nat_def add_0 order_refl zero_le_one)
    then have "rest = []" using length_concat_nonempty[of bins binComponents] ne Cons by (cases rest) auto
    then show ?thesis using Cons bins(2) ne by (auto split: if_splits)
  qed simp
  have get: "get_component [c] (componentSha256 c) = Inr c"
    by (simp add: get_component_def componentBySha256_def)
  have "\<exists>shards. buildSharedShards constant_sha bins [c] = Inr shards"
    using b by (auto simp: buildSharedShards_def build_shard_def get Let_def fingerprint_const assign_member_def
        planner_failWhen_def js_set_def js_set_add.simps link_shard_def)
  then obtain shards where shards: "buildSharedShards constant_sha bins [c] = Inr shards" by blast
  note S = buildSharedShards_ok[OF shards bins(4)]
  obtain order where order: "orderShards shards = Inr order" using orderShards_cases[OF S(1)] S(2) by blast
  have "canonical_ok (JObj [(''domain'', JStr d), (''plan'', plan_json [c] p r shards order)])" for d p r
    by (auto simp: plan_json_def component_json_def policy_json_def shard_json_def)
  then have "\<exists>plan. assemble_plan constant_sha request_policy [c] = Inr plan \<and> planComponents plan = [c]"
    using bins(1) shards order by (simp add: assemble_plan_def Let_def fingerprint_const del: canonical_ok.simps)
  then show ?thesis using c by (auto simp: planConvexWasmPhysicalShards_def sample_request_read)
qed

theorem plan_shards_correct_witness:
  "\<exists>plan. planConvexWasmPhysicalShards constant_sha sample_request = Some (Inr plan)
     \<and> mset (planOrder plan) = mset (map shardSha256 (planShards plan))"
proof -
  obtain plan where p: "planConvexWasmPhysicalShards constant_sha sample_request = Some (Inr plan)"
    "length (planComponents plan) = 1" using sample_plan by blast
  have "distinct (map componentSha256 (planComponents plan))" using p(2) by (cases "planComponents plan") auto
  then show ?thesis using plan_shards_correct[OF p(1)] p(1) by blast
qed

end
