(* ===== verification/WasmReader.thy ===== *)
theory WasmReader
  imports JsValue "HOL-Library.Word"
begin

unbundle bit_operations_syntax

text \<open>
  The bounded reader of external Core Wasm (\<open>convex-wasm-contract-reader.mjs\<close>): a cursor over bytes,
  LEB128 integers, UTF-8 names, vectors, value types, limits, function types, imports, and the
  inspection of a module's imports. A byte is an \<open>8 word\<close>; the signed LEB works on a \<open>32 word\<close>, which
  is what JavaScript's bitwise operators compute on. A decoded name is the list of its code points,
  since a name may hold any character.
\<close>

section \<open>The cursor\<close>

type_synonym octet = "8 word"

record WasmContractReader =
  readerBytes :: "octet list"
  readerDescription :: string
  readerOffset :: nat

type_synonym 'a reading = "WasmContractReader \<Rightarrow> ('a \<times> WasmContractReader) res"

definition new_reader :: "octet list \<Rightarrow> string \<Rightarrow> WasmContractReader" where
  "new_reader bs description = \<lparr>readerBytes = bs, readerDescription = description, readerOffset = 0\<rparr>"

definition reader_remaining :: "WasmContractReader \<Rightarrow> nat" where
  "reader_remaining r = length (readerBytes r) - readerOffset r"

definition reader_advance :: "nat \<Rightarrow> WasmContractReader \<Rightarrow> WasmContractReader" where
  "reader_advance n r = r\<lparr>readerOffset := readerOffset r + n\<rparr>"

definition reader_fail :: "string \<Rightarrow> 'a reading" where
  "reader_fail message r = fail (readerDescription r @ message)"

definition reader_byte :: "octet reading" where
  "reader_byte r =
     (if length (readerBytes r) \<le> readerOffset r then reader_fail '' ended unexpectedly'' r
      else Inr (readerBytes r ! readerOffset r, reader_advance 1 r))"

definition reader_bytesValue :: "int \<Rightarrow> octet list reading" where
  "reader_bytesValue n r =
     (if max_safe_integer < n \<or> n < 0 \<or> int (reader_remaining r) < n
      then reader_fail '' contains an invalid byte range'' r
      else Inr (take (nat n) (drop (readerOffset r) (readerBytes r)), reader_advance (nat n) r))"

section \<open>LEB128 integers\<close>

text \<open>\<open>u32_loop n value shift\<close> runs the remaining \<open>n\<close> rounds of the loop; the value is a JavaScript number
  and is not cut to 32 bits.\<close>

fun u32_loop :: "nat \<Rightarrow> int \<Rightarrow> nat \<Rightarrow> int reading" where
  "u32_loop 0 v shift r = reader_fail '' contains an overlong u32 LEB'' r"
| "u32_loop (Suc n) v shift r = bindR (reader_byte r) (\<lambda>(byte, r').
     let v' = v + uint (byte AND 0x7f) * 2 ^ shift in
     if byte AND 0x80 = 0 then
       (if max_safe_integer < v' \<or> 0xffffffff < v' then reader_fail '' contains an out-of-range u32 LEB'' r'
        else Inr (v', r'))
     else u32_loop n v' (shift + 7) r')"

definition reader_u32 :: "int reading" where
  "reader_u32 = u32_loop 5 0 0"

text \<open>The test of the fifth byte: the bits above the sign bit of the 32-bit value extend it.\<close>

definition sign_extended :: "octet \<Rightarrow> bool" where
  "sign_extended payload \<longleftrightarrow> payload AND 0x70 = (if payload AND 0x08 = 0 then 0 else 0x70)"

fun s32_loop :: "nat \<Rightarrow> 32 word \<Rightarrow> nat \<Rightarrow> int reading" where
  "s32_loop 0 v shift r = reader_fail '' contains an overlong s32 LEB'' r"
| "s32_loop (Suc n) v shift r = bindR (reader_byte r) (\<lambda>(byte, r').
     let payload = byte AND 0x7f in
     if n = 0 \<and> \<not> sign_extended payload then reader_fail '' contains an out-of-range s32 LEB'' r'
     else let v' = v OR push_bit shift (ucast payload); shift' = shift + 7 in
       if byte AND 0x80 = 0 then
         Inr (sint (if shift' < 32 \<and> byte AND 0x40 \<noteq> 0 then v' OR push_bit shift' (NOT 0) else v'), r')
       else s32_loop n v' shift' r')"

definition reader_s32 :: "int reading" where
  "reader_s32 = s32_loop 5 0 0"

fun wasmContractSkipSignedLeb :: "nat \<Rightarrow> unit reading" where
  "wasmContractSkipSignedLeb 0 r = reader_fail '' contains an overlong signed LEB'' r"
| "wasmContractSkipSignedLeb (Suc n) r = bindR (reader_byte r) (\<lambda>(byte, r').
     if byte AND 0x80 = 0 then Inr ((), r') else wasmContractSkipSignedLeb n r')"

section \<open>Names and vectors\<close>

text \<open>The standard's fatal UTF-8 decoder: the second byte of a sequence is restricted so that overlong
  forms, surrogates and values above U+10FFFF are refused; a leading byte order mark is dropped.\<close>

definition continuation :: "int \<Rightarrow> int \<Rightarrow> octet \<Rightarrow> bool" where
  "continuation lower upper b \<longleftrightarrow> lower \<le> uint b \<and> uint b \<le> upper"

definition cont_bits :: "octet \<Rightarrow> int" where
  "cont_bits b = uint b - 0x80"

fun utf8_scalars :: "octet list \<Rightarrow> int list option" where
  "utf8_scalars [] = Some []"
| "utf8_scalars (a # bs) =
    (if uint a < 0x80 then map_option ((#) (uint a)) (utf8_scalars bs)
     else if 0xC2 \<le> uint a \<and> uint a \<le> 0xDF then
       (case bs of b # bs' \<Rightarrow>
          (if continuation 0x80 0xBF b
           then map_option ((#) ((uint a - 0xC0) * 0x40 + cont_bits b)) (utf8_scalars bs') else None)
        | [] \<Rightarrow> None)
     else if 0xE0 \<le> uint a \<and> uint a \<le> 0xEF then
       (case bs of b # c # bs' \<Rightarrow>
          (if continuation (if uint a = 0xE0 then 0xA0 else 0x80) (if uint a = 0xED then 0x9F else 0xBF) b
              \<and> continuation 0x80 0xBF c
           then map_option ((#) ((uint a - 0xE0) * 0x1000 + cont_bits b * 0x40 + cont_bits c)) (utf8_scalars bs') else None)
        | _ \<Rightarrow> None)
     else if 0xF0 \<le> uint a \<and> uint a \<le> 0xF4 then
       (case bs of b # c # d # bs' \<Rightarrow>
          (if continuation (if uint a = 0xF0 then 0x90 else 0x80) (if uint a = 0xF4 then 0x8F else 0xBF) b
              \<and> continuation 0x80 0xBF c \<and> continuation 0x80 0xBF d
           then map_option ((#) ((uint a - 0xF0) * 0x40000 + cont_bits b * 0x1000 + cont_bits c * 0x40 + cont_bits d)) (utf8_scalars bs')
           else None)
        | _ \<Rightarrow> None)
     else None)"

definition decodeUtf8 :: "octet list \<Rightarrow> string \<Rightarrow> int list res" where
  "decodeUtf8 contents description =
     (case utf8_scalars (if take 3 contents = [0xEF, 0xBB, 0xBF] then drop 3 contents else contents) of
        None \<Rightarrow> fail (description @ '' is not valid UTF-8'')
      | Some points \<Rightarrow> Inr points)"

definition reader_string :: "int list reading" where
  "reader_string r = bindR (reader_u32 r) (\<lambda>(count, r1). bindR (reader_bytesValue count r1) (\<lambda>(contents, r2).
     bindR (decodeUtf8 contents (readerDescription r @ '' string'')) (\<lambda>points. Inr (points, r2))))"

fun read_items :: "nat \<Rightarrow> 'a reading \<Rightarrow> 'a list reading" where
  "read_items 0 read r = Inr ([], r)"
| "read_items (Suc n) read r = bindR (read r) (\<lambda>(x, r1). bindR (read_items n read r1) (\<lambda>(xs, r2). Inr (x # xs, r2)))"

definition reader_vector :: "'a reading \<Rightarrow> 'a list reading" where
  "reader_vector read r = bindR (reader_u32 r) (\<lambda>(count, r').
     if int (reader_remaining r') < count then reader_fail '' vector exceeds its remaining bytes'' r'
     else read_items (nat count) read r')"

definition reader_done :: "WasmContractReader \<Rightarrow> unit res" where
  "reader_done r = failWhen (reader_remaining r \<noteq> 0) (readerDescription r @ '' has trailing bytes'')"

section \<open>Types\<close>

definition wasmContractValueTypes :: "(octet \<times> string) list" where
  "wasmContractValueTypes =
     [(0x7f, ''i32''), (0x7e, ''i64''), (0x7d, ''f32''), (0x7c, ''f64''), (0x7b, ''v128''),
      (0x70, ''funcref''), (0x6f, ''externref''), (0x69, ''exnref'')]"

definition byte_hex :: "octet \<Rightarrow> string" where
  "byte_hex b = (if unat b < 16 then [hex_char (unat b)] else [hex_char (unat b div 16), hex_char (unat b mod 16)])"

definition wasmContractValueType :: "string reading" where
  "wasmContractValueType r = bindR (reader_byte r) (\<lambda>(byte, r').
     case map_of wasmContractValueTypes byte of Some valueType \<Rightarrow> Inr (valueType, r')
     | None \<Rightarrow> reader_fail ('' contains unsupported value type 0x'' @ byte_hex byte) r')"

record wasm_limits =
  limitsMaximum :: "int option"
  limitsMinimum :: int
  limitsShared :: bool

definition wasmContractLimits :: "wasm_limits reading" where
  "wasmContractLimits r = bindR (reader_u32 r) (\<lambda>(flags, r1).
     let bits = (word_of_int flags :: 32 word) in
     if bits AND NOT 7 \<noteq> 0 \<or> bits AND 4 \<noteq> 0 then reader_fail '' contains unsupported memory/table limits flags'' r1
     else bindR (reader_u32 r1) (\<lambda>(minimum, r2).
       bindR (if bits AND 1 = 0 then Inr (None, r2) else bindR (reader_u32 r2) (\<lambda>(m, r3). Inr (Some m, r3))) (\<lambda>(maximum, r3).
         if (case maximum of Some m \<Rightarrow> m < minimum | None \<Rightarrow> False)
         then reader_fail '' contains inverted memory/table limits'' r3
         else Inr (\<lparr>limitsMaximum = maximum, limitsMinimum = minimum, limitsShared = bits AND 2 \<noteq> 0\<rparr>, r3))))"

record wasm_table =
  tableElement :: string
  tableLimits :: wasm_limits

definition wasmContractTableType :: "wasm_table reading" where
  "wasmContractTableType r = bindR (wasmContractValueType r) (\<lambda>(element, r1).
     bindR (wasmContractLimits r1) (\<lambda>(limits, r2). Inr (\<lparr>tableElement = element, tableLimits = limits\<rparr>, r2)))"

definition wasmContractMemoryType :: "wasm_limits reading" where
  "wasmContractMemoryType r = wasmContractLimits r"

record wasm_global =
  globalMutable :: bool
  globalValue :: string

definition wasmContractGlobalType :: "wasm_global reading" where
  "wasmContractGlobalType r = bindR (wasmContractValueType r) (\<lambda>(value, r1).
     bindR (reader_byte r1) (\<lambda>(mutable, r2).
       if mutable \<noteq> 0 \<and> mutable \<noteq> 1 then reader_fail '' has invalid global mutability'' r2
       else Inr (\<lparr>globalMutable = (mutable = 1), globalValue = value\<rparr>, r2)))"

definition wasmContractGlobalInitializer :: "string \<Rightarrow> int option reading" where
  "wasmContractGlobalInitializer role r = bindR (reader_byte r) (\<lambda>(opcode, r1).
     bindR
       (if opcode = 0x41 then bindR (reader_s32 r1) (\<lambda>(v, r2). Inr (Some v, r2))
        else if opcode = 0x42 then bindR (wasmContractSkipSignedLeb 10 r1) (\<lambda>(_, r2). Inr (None, r2))
        else if opcode = 0x43 then bindR (reader_bytesValue 4 r1) (\<lambda>(_, r2). Inr (None, r2))
        else if opcode = 0x44 then bindR (reader_bytesValue 8 r1) (\<lambda>(_, r2). Inr (None, r2))
        else if opcode = 0x23 \<or> opcode = 0xd2 then bindR (reader_u32 r1) (\<lambda>(_, r2). Inr (None, r2))
        else if opcode = 0xd0 then bindR (wasmContractSkipSignedLeb 5 r1) (\<lambda>(_, r2). Inr (None, r2))
        else fail (role @ '' Core Wasm uses an unsupported global initializer''))
       (\<lambda>(i32Const, r2). bindR (reader_byte r2) (\<lambda>(final, r3).
          if final \<noteq> 0x0b then fail (role @ '' Core Wasm has an invalid global initializer'')
          else Inr (i32Const, r3))))"

record wasm_func =
  funcParameters :: "string list"
  funcResults :: "string list"

text \<open>The pair of a \<open>kind\<close> and its \<open>type\<close>.\<close>

datatype external_type =
  FuncType wasm_func | TableType wasm_table | MemoryType wasm_limits | GlobalType wasm_global | TagType wasm_func

fun external_kind :: "external_type \<Rightarrow> string" where
  "external_kind (FuncType _) = ''func''"
| "external_kind (TableType _) = ''table''"
| "external_kind (MemoryType _) = ''memory''"
| "external_kind (GlobalType _) = ''global''"
| "external_kind (TagType _) = ''tag''"

definition func_text :: "wasm_func \<Rightarrow> string" where
  "func_text f = ''func('' @ join_strings '','' (funcParameters f) @ '')->('' @ join_strings '','' (funcResults f) @ '')''"

definition maximum_text :: "wasm_limits \<Rightarrow> string" where
  "maximum_text l = (case limitsMaximum l of None \<Rightarrow> ''none'' | Some m \<Rightarrow> show_int m)"

fun wasmContractCanonicalType :: "external_type \<Rightarrow> string" where
  "wasmContractCanonicalType (FuncType f) = func_text f"
| "wasmContractCanonicalType (TagType f) = ''tag('' @ func_text f @ '')''"
| "wasmContractCanonicalType (GlobalType g) =
     ''global('' @ globalValue g @ '','' @ (if globalMutable g then ''var'' else ''const'') @ '')''"
| "wasmContractCanonicalType (MemoryType l) =
     ''memory32(min='' @ show_int (limitsMinimum l) @ '',max='' @ maximum_text l
       @ '',shared='' @ (if limitsShared l then ''true'' else ''false'') @ '',page=16)''"
| "wasmContractCanonicalType (TableType t) =
     ''table32('' @ tableElement t @ '',min='' @ show_int (limitsMinimum (tableLimits t))
       @ '',max='' @ maximum_text (tableLimits t) @ '')''"

record external_identity =
  identityCanonical :: string
  identityKind :: string
  identitySha256 :: string

definition wasmContractExternalType :: "(string \<Rightarrow> string) \<Rightarrow> external_type \<Rightarrow> external_identity" where
  "wasmContractExternalType sha256 t =
     (let canonical = wasmContractCanonicalType t
      in \<lparr>identityCanonical = canonical, identityKind = external_kind t, identitySha256 = sha256 canonical\<rparr>)"

section \<open>Sections\<close>

definition read_function_type :: "string \<Rightarrow> wasm_func reading" where
  "read_function_type role r = bindR (reader_byte r) (\<lambda>(form, r1).
     if form \<noteq> 0x60 then fail (role @ '' Core Wasm uses unsupported non-function types'')
     else bindR (reader_vector wasmContractValueType r1) (\<lambda>(parameters, r2).
       bindR (reader_vector wasmContractValueType r2) (\<lambda>(results, r3).
         Inr (\<lparr>funcParameters = parameters, funcResults = results\<rparr>, r3))))"

definition wasmContractFunctionTypes :: "string \<Rightarrow> wasm_func list reading" where
  "wasmContractFunctionTypes role = reader_vector (read_function_type role)"

text \<open>\<open>types[i]\<close> is \<open>undefined\<close> outside the array.\<close>

definition type_at :: "wasm_func list \<Rightarrow> int \<Rightarrow> wasm_func option" where
  "type_at types i = (if 0 \<le> i \<and> i < int (length types) then Some (types ! nat i) else None)"

definition wasmContractFunctionTypeReference :: "wasm_func list \<Rightarrow> string \<Rightarrow> wasm_func reading" where
  "wasmContractFunctionTypeReference types role r = bindR (reader_u32 r) (\<lambda>(i, r').
     case type_at types i of None \<Rightarrow> fail (role @ '' Core Wasm references a missing function type'')
     | Some t \<Rightarrow> Inr (t, r'))"

record wasm_import =
  importType :: external_type
  importModule :: "int list"
  importName :: "int list"

text \<open>The type of an import of each external kind; \<open>None\<close> is \<open>undefined\<close>.\<close>

definition read_import_type :: "string \<Rightarrow> wasm_func list \<Rightarrow> octet \<Rightarrow> external_type option reading" where
  "read_import_type role types externalKind r =
     (if externalKind = 0 then bindR (reader_u32 r) (\<lambda>(i, r1). Inr (map_option FuncType (type_at types i), r1))
      else if externalKind = 1 then bindR (wasmContractTableType r) (\<lambda>(t, r1). Inr (Some (TableType t), r1))
      else if externalKind = 2 then bindR (wasmContractMemoryType r) (\<lambda>(l, r1). Inr (Some (MemoryType l), r1))
      else if externalKind = 3 then bindR (wasmContractGlobalType r) (\<lambda>(g, r1). Inr (Some (GlobalType g), r1))
      else if externalKind = 4 then bindR (reader_byte r) (\<lambda>(attribute, r1).
        if attribute \<noteq> 0 then fail (role @ '' Core Wasm uses an unsupported tag attribute'')
        else bindR (reader_u32 r1) (\<lambda>(i, r2). Inr (map_option TagType (type_at types i), r2)))
      else fail (role @ '' Core Wasm has an unsupported import kind''))"

definition read_import :: "string \<Rightarrow> wasm_func list \<Rightarrow> wasm_import reading" where
  "read_import role types r = bindR (reader_string r) (\<lambda>(module, r1). bindR (reader_string r1) (\<lambda>(name, r2).
     bindR (reader_byte r2) (\<lambda>(externalKind, r3). bindR (read_import_type role types externalKind r3) (\<lambda>(type, r4).
       case type of None \<Rightarrow> fail (role @ '' Core Wasm import references a missing type'')
       | Some t \<Rightarrow> Inr (\<lparr>importType = t, importModule = module, importName = name\<rparr>, r4)))))"

definition wasmContractImports :: "string \<Rightarrow> wasm_func list \<Rightarrow> wasm_import list reading" where
  "wasmContractImports role types = reader_vector (read_import role types)"

definition inspect_section ::
    "string \<Rightarrow> wasm_func list \<times> wasm_import list \<Rightarrow> (wasm_func list \<times> wasm_import list) reading" where
  "inspect_section role = (\<lambda>(types, imports) r. bindR (reader_byte r) (\<lambda>(id, r1). bindR (reader_u32 r1) (\<lambda>(count, r2).
     bindR (reader_bytesValue count r2) (\<lambda>(contents, r3).
       let section = new_reader contents (role @ '' Core Wasm section '' @ show_nat (unat id)) in
       bindR (if id = 1 then bindR (wasmContractFunctionTypes role section) (\<lambda>(ts, s). Inr (types @ ts, imports, s))
              else if id = 2 then bindR (wasmContractImports role types section) (\<lambda>(new_imports, s). Inr (types, imports @ new_imports, s))
              else bindR (reader_bytesValue (int (reader_remaining section)) section) (\<lambda>(_, s). Inr (types, imports, s)))
         (\<lambda>(types', imports', s). bindR (reader_done s) (\<lambda>_. Inr ((types', imports'), r3)))))))"


section \<open>Readers move forward\<close>

text \<open>Every reader keeps its bytes and its description, never moves back and never leaves its range.
  A reader with this law can be used in a vector, which then has it too.\<close>

definition reader_step :: "WasmContractReader \<Rightarrow> WasmContractReader \<Rightarrow> bool" where
  "reader_step r r' \<longleftrightarrow> readerBytes r' = readerBytes r \<and> readerDescription r' = readerDescription r
     \<and> readerOffset r \<le> readerOffset r'
     \<and> (readerOffset r \<le> length (readerBytes r) \<longrightarrow> readerOffset r' \<le> length (readerBytes r))"

lemma reader_step_refl [simp, intro]: "reader_step r r"
  by (simp add: reader_step_def)

lemma reader_step_trans: "reader_step r s \<Longrightarrow> reader_step s t \<Longrightarrow> reader_step r t"
  by (auto simp: reader_step_def)

lemma reader_step_remaining: "reader_step r s \<Longrightarrow> reader_remaining s \<le> reader_remaining r"
  by (auto simp: reader_step_def reader_remaining_def intro: diff_le_mono2)

locale wasm_reader =
  fixes read :: "'a reading"
  assumes read_step: "read r = Inr (x, r') \<Longrightarrow> reader_step r r'"
begin

lemma items_step: "read_items n read r = Inr (xs, r') \<Longrightarrow> reader_step r r' \<and> length xs = n"
proof (induction n arbitrary: r xs)
  case (Suc n)
  then obtain x r1 ys where "read r = Inr (x, r1)" "read_items n read r1 = Inr (ys, r')" "xs = x # ys"
    by (auto simp: bindR_Inr_iff)
  then show ?case using Suc.IH read_step reader_step_trans by fastforce
qed simp

end

lemma reader_fail_Inr_iff [simp]: "reader_fail m r = Inr x \<longleftrightarrow> False"
  by (simp add: reader_fail_def)

lemma reader_advance_simps [simp]:
  "readerBytes (reader_advance n r) = readerBytes r"
  "readerDescription (reader_advance n r) = readerDescription r"
  "readerOffset (reader_advance n r) = readerOffset r + n"
  by (simp_all add: reader_advance_def)

lemma reader_byte_Inr_iff:
  "reader_byte r = Inr (b, r') \<longleftrightarrow>
     readerOffset r < length (readerBytes r) \<and> b = readerBytes r ! readerOffset r \<and> r' = reader_advance 1 r"
  by (auto simp: reader_byte_def)

interpretation byte_reader: wasm_reader reader_byte
  by unfold_locales (auto simp: reader_byte_Inr_iff reader_step_def)

interpretation bytes_reader: wasm_reader "reader_bytesValue n" for n
  by unfold_locales (auto simp: reader_bytesValue_def reader_step_def reader_remaining_def split: if_splits)

lemma u32_loop_step: "u32_loop n v shift r = Inr (x, r') \<Longrightarrow> reader_step r r'"
proof (induction n v shift r rule: u32_loop.induct)
  case (2 n v shift r)
  then obtain b r1 where b: "reader_byte r = Inr (b, r1)"
      and *: "b AND 0x80 = 0 \<Longrightarrow> r' = r1" "b AND 0x80 \<noteq> 0 \<Longrightarrow> u32_loop n (v + uint (b AND 0x7f) * 2 ^ shift) (shift + 7) r1 = Inr (x, r')"
    by (auto simp: bindR_Inr_iff Let_def split: if_splits)
  show ?case
    using byte_reader.read_step[OF b] "2.IH"[OF b refl refl] * reader_step_trans by (cases "b AND 0x80 = 0") auto
qed simp

interpretation u32_reader: wasm_reader reader_u32
  by unfold_locales (simp add: reader_u32_def u32_loop_step)

lemma reader_byte_progress: "reader_byte r = Inr (b, r') \<Longrightarrow> reader_remaining r' < reader_remaining r"
  by (auto simp: reader_byte_Inr_iff reader_remaining_def)

lemma inspect_section_progress:
  assumes "inspect_section role state r = Inr (state', r')"
  shows "reader_remaining r' < reader_remaining r"
proof -
  obtain ts known where "state = (ts, known)" by fastforce
  with assms obtain id r1 count r2 contents where
      "reader_byte r = Inr (id, r1)" "reader_u32 r1 = Inr (count, r2)" "reader_bytesValue count r2 = Inr (contents, r')"
    by (auto simp: inspect_section_def bindR_Inr_iff Let_def)
  then show ?thesis
    using reader_byte_progress reader_step_remaining u32_reader.read_step bytes_reader.read_step by (meson le_less_trans)
qed

section \<open>Inspection\<close>

function inspect_sections ::
    "string \<Rightarrow> wasm_func list \<times> wasm_import list \<Rightarrow> WasmContractReader \<Rightarrow> (wasm_func list \<times> wasm_import list) res" where
  "inspect_sections role state r =
     (if reader_remaining r = 0 then Inr state
      else bindR (inspect_section role state r) (\<lambda>(state', r'). inspect_sections role state' r'))"
  by pat_completeness auto

termination
  by (relation "measure (\<lambda>(_, _, r). reader_remaining r)") (auto dest: inspect_section_progress)

declare inspect_sections.simps [simp del]

record inspected_import =
  inspectedIndex :: nat
  inspectedModule :: "int list"
  inspectedName :: "int list"
  inspectedType :: external_identity

definition inspected :: "(string \<Rightarrow> string) \<Rightarrow> wasm_import list \<Rightarrow> inspected_import list" where
  "inspected sha256 imports = map (\<lambda>(index, i).
     \<lparr>inspectedIndex = index, inspectedModule = importModule i, inspectedName = importName i,
      inspectedType = wasmContractExternalType sha256 (importType i)\<rparr>) (enumerate 0 imports)"

definition wasm_header :: "octet list" where
  "wasm_header = [0, 97, 115, 109, 1, 0, 0, 0]"

definition inspectConvexWasmCoreWasmImports ::
    "(string \<Rightarrow> string) \<Rightarrow> octet list \<Rightarrow> jsval \<Rightarrow> inspected_import list res" where
  "inspectConvexWasmCoreWasmImports sha256 bs description =
     bindR (requireString description ''Core Wasm import inspection description'') (\<lambda>role.
     bindR (failWhen (length bs < 8) (role @ '' Core Wasm is truncated'')) (\<lambda>_.
     bindR (failWhen (take 8 bs \<noteq> wasm_header) (role @ '' Core Wasm has an invalid header'')) (\<lambda>_.
     bindR (inspect_sections role ([], []) (new_reader (drop 8 bs) (role @ '' Core Wasm''))) (\<lambda>(_, imports).
       Inr (inspected sha256 imports)))))"

end
