(* ===== verification/WasmLeb.thy ===== *)
theory WasmLeb
  imports WasmReader
begin

unbundle bit_operations_syntax

text \<open>
  The LEB128 readers accept exactly the encodings of the integers in their range, and return their
  value: the unsigned loop on JavaScript numbers and the signed loop on 32-bit words both compute the
  mathematical value of the bytes they consume.
\<close>

section \<open>The bytes ahead\<close>

definition unread :: "WasmContractReader \<Rightarrow> octet list" where
  "unread r = drop (readerOffset r) (readerBytes r)"

lemma unread_advance [simp]: "unread (reader_advance n r) = drop n (unread r)"
  by (simp add: unread_def add.commute)

lemma reader_advance_0 [simp]: "reader_advance 0 r = r"
  by (simp add: reader_advance_def)

lemma reader_advance_advance [simp]: "reader_advance m (reader_advance n r) = reader_advance (n + m) r"
  by (simp add: reader_advance_def add.assoc)

lemma reader_byte_unread:
  "reader_byte r = (case unread r of [] \<Rightarrow> reader_fail '' ended unexpectedly'' r | b # _ \<Rightarrow> Inr (b, reader_advance 1 r))"
proof (cases "readerOffset r < length (readerBytes r)")
  case True
  then have "unread r = readerBytes r ! readerOffset r # drop (Suc (readerOffset r)) (readerBytes r)"
    by (simp add: unread_def Cons_nth_drop_Suc)
  then show ?thesis using True by (simp add: reader_byte_def)
qed (simp add: reader_byte_def unread_def)

lemma length_unread: "length (unread r) = reader_remaining r"
  by (simp add: unread_def reader_remaining_def)

section \<open>The values of LEB128 bytes\<close>

fun is_leb :: "octet list \<Rightarrow> bool" where
  "is_leb [] = False"
| "is_leb (b # bs) = (if b AND 0x80 = 0 then bs = [] else is_leb bs)"

fun leb_unsigned :: "octet list \<Rightarrow> int" where
  "leb_unsigned [] = 0"
| "leb_unsigned (b # bs) = uint b mod 128 + 128 * leb_unsigned bs"

fun leb_signed :: "octet list \<Rightarrow> int" where
  "leb_signed [] = 0"
| "leb_signed (b # bs) =
     (if bs = [] then (if uint b mod 128 < 64 then uint b mod 128 else uint b mod 128 - 128)
      else uint b mod 128 + 128 * leb_signed bs)"

text \<open>What the bit masks of the loops mean, checked on all bytes.\<close>

lemma octet_range: "uint (b :: octet) \<in> set [0..255]"
  using uint_lt2p[of b] by simp

lemma octet_masks:
  fixes b :: octet
  shows "uint (b AND 0x7f) = uint b mod 128" and "b AND 0x80 = 0 \<longleftrightarrow> uint b < 128"
    and "b AND 0x40 = 0 \<longleftrightarrow> uint b mod 128 < 64"
proof -
  have "\<forall>p \<in> set [0..255]. let b = (word_of_int p :: octet)
      in uint (b AND 0x7f) = p mod 128 \<and> (b AND 0x80 = 0) = (p < 128) \<and> (b AND 0x40 = 0) = (p mod 128 < 64)"
    by code_simp
  from this[rule_format, OF octet_range[of b]]
  show "uint (b AND 0x7f) = uint b mod 128" "b AND 0x80 = 0 \<longleftrightarrow> uint b < 128"
    "b AND 0x40 = 0 \<longleftrightarrow> uint b mod 128 < 64" by (simp_all add: Let_def)
qed

lemma sign_extended_iff:
  fixes b :: octet
  shows "sign_extended (b AND 0x7f) \<longleftrightarrow> uint b mod 128 < 8 \<or> 120 \<le> uint b mod 128"
proof -
  have "\<forall>p \<in> set [0..255]. sign_extended ((word_of_int p :: octet) AND 0x7f) = (p mod 128 < 8 \<or> 120 \<le> p mod 128)"
    by code_simp
  from this[rule_format, OF octet_range[of b]] show ?thesis by simp
qed

text \<open>\<open>leb_ahead r P r'\<close>: the bytes ahead of \<open>r\<close> start with a LEB encoding that satisfies \<open>P\<close>, and
  \<open>r'\<close> is \<open>r\<close> behind it.\<close>

definition leb_ahead :: "WasmContractReader \<Rightarrow> (octet list \<Rightarrow> bool) \<Rightarrow> WasmContractReader \<Rightarrow> bool" where
  "leb_ahead r P r' \<longleftrightarrow>
     (\<exists>bs tail. unread r = bs @ tail \<and> is_leb bs \<and> P bs \<and> r' = reader_advance (length bs) r)"

lemma leb_ahead_Nil: "unread r = [] \<Longrightarrow> \<not> leb_ahead r P r'"
  by (auto simp: leb_ahead_def)

lemma leb_ahead_last:
  assumes "unread r = b # rest" and "uint b < 128"
  shows "leb_ahead r P r' \<longleftrightarrow> P [b] \<and> r' = reader_advance 1 r"
proof
  assume "leb_ahead r P r'"
  then obtain bs tail where bs: "unread r = bs @ tail" "is_leb bs" "P bs" "r' = reader_advance (length bs) r"
    unfolding leb_ahead_def by blast
  then have "bs = [b]" using assms by (cases bs) (auto simp: octet_masks)
  then show "P [b] \<and> r' = reader_advance 1 r" using bs by simp
next
  assume "P [b] \<and> r' = reader_advance 1 r"
  then show "leb_ahead r P r'"
    using assms unfolding leb_ahead_def by (intro exI[of _ "[b]"] exI[of _ rest]) (simp add: octet_masks)
qed

lemma leb_ahead_more:
  assumes "unread r = b # rest" and "\<not> uint b < 128"
  shows "leb_ahead r P r' \<longleftrightarrow> leb_ahead (reader_advance 1 r) (\<lambda>bs. P (b # bs)) r'"
proof
  assume "leb_ahead r P r'"
  then obtain bs tail where bs: "unread r = bs @ tail" "is_leb bs" "P bs" "r' = reader_advance (length bs) r"
    unfolding leb_ahead_def by blast
  then obtain cs where "bs = b # cs" using assms by (cases bs) auto
  then show "leb_ahead (reader_advance 1 r) (\<lambda>bs. P (b # bs)) r'"
    using bs assms unfolding leb_ahead_def by (intro exI[of _ cs] exI[of _ tail]) (auto simp: octet_masks)
next
  assume "leb_ahead (reader_advance 1 r) (\<lambda>bs. P (b # bs)) r'"
  then obtain cs tail where "rest = cs @ tail" "is_leb cs" "P (b # cs)" "r' = reader_advance (Suc (length cs)) r"
    using assms unfolding leb_ahead_def by auto
  then show "leb_ahead r P r'"
    using assms unfolding leb_ahead_def by (intro exI[of _ "b # cs"] exI[of _ tail]) (auto simp: octet_masks)
qed

lemma leb_ahead_cong:
  "(\<And>bs. is_leb bs \<Longrightarrow> P bs = Q bs) \<Longrightarrow> leb_ahead r P r' = leb_ahead r Q r'"
  by (auto simp: leb_ahead_def)

lemma is_leb_nonempty: "is_leb bs \<Longrightarrow> bs \<noteq> []"
  by auto

section \<open>The unsigned reader\<close>

lemma u32_loop_iff:
  "u32_loop n v shift r = Inr (x, r') \<longleftrightarrow>
     leb_ahead r (\<lambda>bs. length bs \<le> n \<and> x = v + 2 ^ shift * leb_unsigned bs \<and> x < 2 ^ 32) r'"
proof (induction n v shift r rule: u32_loop.induct)
  case (1 v shift r)
  then show ?case by (auto simp: leb_ahead_def)
next
  case (2 n v shift r)
  show ?case
  proof (cases "unread r")
    case Nil
    then show ?thesis by (simp add: reader_byte_unread leb_ahead_Nil bindR_Inr_iff)
  next
    case (Cons b rest)
    have byte: "reader_byte r = Inr (b, reader_advance 1 r)" by (simp add: reader_byte_unread Cons)
    show ?thesis
    proof (cases "uint b < 128")
      case True
      then show ?thesis unfolding leb_ahead_last[OF Cons True]
        by (auto simp: byte octet_masks Let_def max_safe_integer_def mult.commute)
    next
      case False
      have "u32_loop (Suc n) v shift r = Inr (x, r') \<longleftrightarrow>
          u32_loop n (v + uint b mod 128 * 2 ^ shift) (shift + 7) (reader_advance 1 r) = Inr (x, r')"
        using False by (simp add: byte octet_masks Let_def)
      also have "\<dots> \<longleftrightarrow> leb_ahead (reader_advance 1 r) (\<lambda>bs. length bs \<le> n
          \<and> x = v + uint b mod 128 * 2 ^ shift + 2 ^ (shift + 7) * leb_unsigned bs \<and> x < 2 ^ 32) r'"
        using "2.IH"[OF byte refl refl] False by (simp add: octet_masks)
      also have "\<dots> \<longleftrightarrow> leb_ahead r (\<lambda>bs. length bs \<le> Suc n \<and> x = v + 2 ^ shift * leb_unsigned bs \<and> x < 2 ^ 32) r'"
        unfolding leb_ahead_more[OF Cons False] by (rule leb_ahead_cong) (simp add: algebra_simps power_add)
      finally show ?thesis .
    qed
  qed
qed

lemma reader_u32_iff:
  "reader_u32 r = Inr (x, r') \<longleftrightarrow> leb_ahead r (\<lambda>bs. length bs \<le> 5 \<and> x = leb_unsigned bs \<and> x < 2 ^ 32) r'"
  by (simp add: reader_u32_def u32_loop_iff)

section \<open>The signed reader\<close>

text \<open>The 32-bit word that JavaScript's bitwise operators make of an integer.\<close>

definition int32 :: "int \<Rightarrow> 32 word" where
  "int32 x = word_of_int x"

lemma int32_or:
  assumes "0 \<le> a" "a < 2 ^ s"
  shows "int32 a OR push_bit s (int32 p) = int32 (a + 2 ^ s * p)"
proof -
  have "take_bit s a = a" using assms by (simp add: take_bit_int_eq_self)
  then have low: "\<not> bit a m" if "s \<le> m" for m by (metis bit_take_bit_iff not_less that)
  have "a + push_bit s p = a OR push_bit s p"
    by (rule disjunctive_add) (auto simp: bit_push_bit_iff low)
  moreover have "int32 a OR push_bit s (int32 p) = int32 (a OR push_bit s p)"
    by (simp only: int32_def push_bit_of_int of_int_or_eq)
  ultimately show ?thesis by (metis push_bit_eq_mult mult.commute)
qed

lemma sint_int32: "- (2 ^ 31) \<le> x \<Longrightarrow> x < 2 ^ 31 \<Longrightarrow> sint (int32 x) = x"
  by (simp add: int32_def sint_sbintrunc' signed_take_bit_int_eq_self)

lemma s32_payload:
  assumes "0 \<le> a" "a < 2 ^ s"
  shows "int32 a OR push_bit s (ucast (b AND 0x7f)) = int32 (a + 2 ^ s * (uint (b :: octet) mod 128))"
proof -
  have "(ucast (b AND 0x7f) :: 32 word) = int32 (uint b mod 128)"
    unfolding int32_def octet_masks(1)[symmetric] by simp
  then show ?thesis using int32_or[OF assms] by simp
qed

lemma s32_sign: "0 \<le> a \<Longrightarrow> a < 2 ^ s \<Longrightarrow> int32 a OR push_bit s (NOT 0) = int32 (a - 2 ^ s)"
  using int32_or[of a s "-1"] by (simp add: int32_def)

lemma last_payload_sign: "int32 (a + 2 ^ 28 * p) = int32 (a + 2 ^ 28 * (p - 128))"
  by (simp only: int32_def word_of_int_eq_iff take_bit_eq_mod mod_eq_dvd_iff) simp

lemma s32_last_byte:
  assumes "0 \<le> a" "a < 2 ^ 28" "uint b < 128"
  shows "(sign_extended (b AND 0x7f) \<and> x = sint (int32 (a + 2 ^ 28 * (uint b mod 128)))) \<longleftrightarrow>
    x = a + 2 ^ 28 * leb_signed [b] \<and> - (2 ^ 31) \<le> x \<and> x < 2 ^ 31"
proof -
  define p where "p = uint b mod 128"
  have p: "0 \<le> p" "p < 128" by (simp_all add: p_def)
  consider "p < 8" | "8 \<le> p" "p < 120" | "120 \<le> p" by linarith
  then show ?thesis
  proof cases
    case 1
    then have "sint (int32 (a + 2 ^ 28 * p)) = a + 2 ^ 28 * p"
      using assms p by (intro sint_int32) auto
    then show ?thesis using 1 assms p by (auto simp: sign_extended_iff p_def[symmetric])
  next
    case 2
    then show ?thesis using assms by (auto simp: sign_extended_iff p_def[symmetric])
  next
    case 3
    have "sint (int32 (a + 2 ^ 28 * p)) = a + 2 ^ 28 * (p - 128)"
      by (subst last_payload_sign, rule sint_int32) (use 3 assms p in auto)
    then show ?thesis using 3 assms p by (auto simp: sign_extended_iff p_def[symmetric])
  qed
qed

lemma payload_range:
  fixes b :: octet
  assumes "0 \<le> a" "a < 2 ^ s"
  shows "0 \<le> a + 2 ^ s * (uint b mod 128) \<and> a + 2 ^ s * (uint b mod 128) < 2 ^ (s + 7)"
proof -
  have "2 ^ s * (uint b mod 128) \<le> 2 ^ s * (127 :: int)" by (intro mult_left_mono) auto
  moreover have "(2 :: int) ^ (s + 7) = 2 ^ s * 128" by (simp add: power_add)
  ultimately have "a + 2 ^ s * (uint b mod 128) < 2 ^ (s + 7)" using assms by linarith
  then show ?thesis using assms by simp
qed

lemma s32_early_byte:
  fixes b :: octet
  assumes "0 \<le> a" "a < 2 ^ s" "s \<le> 21"
  defines "v \<equiv> int32 (a + 2 ^ s * (uint b mod 128))"
  shows "sint (if b AND 0x40 \<noteq> 0 then v OR push_bit (s + 7) (NOT 0) else v) = a + 2 ^ s * leb_signed [b]"
    and "- (2 ^ 31) \<le> a + 2 ^ s * leb_signed [b] \<and> a + 2 ^ s * leb_signed [b] < 2 ^ 31"
proof -
  define p where "p = uint b mod 128"
  have p: "0 \<le> p" "p \<le> 127" by (simp_all add: p_def)
  have low: "0 \<le> a + 2 ^ s * p" "a + 2 ^ s * p < 2 ^ (s + 7)"
    using payload_range[OF assms(1,2), of b] by (simp_all add: p_def)
  have small: "(2 :: int) ^ (s + 7) \<le> 2 ^ 28" using assms(3) by (intro power_increasing) auto
  have v: "v = int32 (a + 2 ^ s * p)" by (simp add: v_def p_def)
  have sign: "v OR push_bit (s + 7) (NOT 0) = int32 (a + 2 ^ s * p - 2 ^ (s + 7))"
    unfolding v by (rule s32_sign[OF low])
  have "sint (if p < 64 then v else v OR push_bit (s + 7) (NOT 0))
      = (if p < 64 then a + 2 ^ s * p else a + 2 ^ s * p - 2 ^ (s + 7))"
    unfolding sign unfolding v using low small by (auto intro: sint_int32)
  then show "sint (if b AND 0x40 \<noteq> 0 then v OR push_bit (s + 7) (NOT 0) else v) = a + 2 ^ s * leb_signed [b]"
    unfolding octet_masks(3) p_def[symmetric] by (auto simp: p_def algebra_simps power_add split: if_splits)
  show "- (2 ^ 31) \<le> a + 2 ^ s * leb_signed [b] \<and> a + 2 ^ s * leb_signed [b] < 2 ^ 31"
    using low small assms(1) by (simp add: p_def[symmetric] algebra_simps power_add)
qed

lemma s32_loop_iff:
  "s + 7 * n = 35 \<Longrightarrow> 0 \<le> a \<Longrightarrow> a < 2 ^ s \<Longrightarrow> s32_loop n (int32 a) s r = Inr (x, r') \<longleftrightarrow>
     leb_ahead r (\<lambda>bs. length bs \<le> n \<and> x = a + 2 ^ s * leb_signed bs \<and> - (2 ^ 31) \<le> x \<and> x < 2 ^ 31) r'"
proof (induction n arbitrary: a s r)
  case 0
  then show ?case by (auto simp: leb_ahead_def)
next
  case (Suc n)
  show ?case
  proof (cases "unread r")
    case Nil
    then show ?thesis by (simp add: reader_byte_unread leb_ahead_Nil bindR_Inr_iff)
  next
    case (Cons b rest)
    have byte: "reader_byte r = Inr (b, reader_advance 1 r)" by (simp add: reader_byte_unread Cons)
    note payload = s32_payload[OF Suc.prems(2,3), of b]
    show ?thesis
    proof (cases "uint b < 128")
      case True
      show ?thesis
      proof (cases n)
        case 0
        then have s: "s = 28" using Suc.prems(1) by simp
        have "s32_loop (Suc n) (int32 a) s r = Inr (x, r') \<longleftrightarrow>
            (sign_extended (b AND 0x7f) \<and> x = sint (int32 (a + 2 ^ 28 * (uint b mod 128)))) \<and> r' = reader_advance 1 r"
          using True payload 0 s by (auto simp: byte octet_masks(2,3) Let_def)
        then show ?thesis unfolding leb_ahead_last[OF Cons True]
          using s32_last_byte[of a b x] True Suc.prems(2,3) s by auto
      next
        case (Suc m)
        then have s: "s \<le> 21" using \<open>s + 7 * Suc n = 35\<close> by simp
        have "s32_loop (Suc n) (int32 a) s r = Inr (x, r') \<longleftrightarrow> x = a + 2 ^ s * leb_signed [b] \<and> r' = reader_advance 1 r"
          using True Suc s s32_early_byte(1)[OF \<open>0 \<le> a\<close> \<open>a < 2 ^ s\<close> s, of b]
          by (auto simp: byte payload octet_masks(2) Let_def)
        then show ?thesis unfolding leb_ahead_last[OF Cons True]
          using s32_early_byte(2)[OF \<open>0 \<le> a\<close> \<open>a < 2 ^ s\<close> s, of b] by auto
      qed
    next
      case False
      show ?thesis
      proof (cases n)
        case 0
        have "\<not> leb_ahead (reader_advance 1 r) (\<lambda>bs. length (b # bs) \<le> Suc n \<and> Q bs) r'" for Q
          using 0 by (auto simp: leb_ahead_def)
        then show ?thesis unfolding leb_ahead_more[OF Cons False]
          using 0 False by (auto simp: byte octet_masks(2) Let_def)
      next
        case (Suc m)
        have next_a: "0 \<le> a + 2 ^ s * (uint b mod 128)" "a + 2 ^ s * (uint b mod 128) < 2 ^ (s + 7)"
          using payload_range[OF \<open>0 \<le> a\<close> \<open>a < 2 ^ s\<close>, of b] by auto
        have "s32_loop (Suc n) (int32 a) s r = s32_loop n (int32 (a + 2 ^ s * (uint b mod 128))) (s + 7) (reader_advance 1 r)"
          using False Suc by (simp add: byte payload octet_masks(2) Let_def)
        then show ?thesis unfolding leb_ahead_more[OF Cons False]
          using Suc.IH[OF _ next_a, of "reader_advance 1 r"] \<open>s + 7 * Suc n = 35\<close>
          by (auto intro!: leb_ahead_cong simp: algebra_simps power_add)
      qed
    qed
  qed
qed

lemma reader_s32_iff:
  "reader_s32 r = Inr (x, r') \<longleftrightarrow>
     leb_ahead r (\<lambda>bs. length bs \<le> 5 \<and> x = leb_signed bs \<and> - (2 ^ 31) \<le> x \<and> x < 2 ^ 31) r'"
  using s32_loop_iff[of 0 5 0 r x r'] by (simp add: reader_s32_def int32_def)

end
