(* ===== verification/WasmRoundtrip.thy ===== *)
theory WasmRoundtrip
  imports WasmLeb
begin

unbundle bit_operations_syntax

text \<open>
  An encoder for the parts of a Core Wasm module that the contract reader reads, and the proof that
  reading what it writes gives back what was written. \<open>wasm_codec\<close> is the contract between a reader
  and its encoder; vectors are proved once inside it, and every kind of entry interprets it.
\<close>

section \<open>Reading an encoding\<close>

definition reads :: "'a reading \<Rightarrow> octet list \<Rightarrow> 'a \<Rightarrow> bool" where
  "reads f bs v \<longleftrightarrow> (\<forall>r tail. unread r = bs @ tail \<longrightarrow> f r = Inr (v, reader_advance (length bs) r))"

lemma readsD: "reads f bs v \<Longrightarrow> unread r = bs @ tail \<Longrightarrow> f r = Inr (v, reader_advance (length bs) r)"
  by (simp add: reads_def)

lemma reads_bind:
  assumes "reads f bs v" and "reads (g v) cs w"
  shows "reads (\<lambda>r. bindR (f r) (\<lambda>(v, r'). g v r')) (bs @ cs) w"
  unfolding reads_def
proof (intro allI impI)
  fix r tail assume "unread r = (bs @ cs) @ tail"
  then show "bindR (f r) (\<lambda>(v, r'). g v r') = Inr (w, reader_advance (length (bs @ cs)) r)"
    using readsD[OF assms(1), of r "cs @ tail"] readsD[OF assms(2), of "reader_advance (length bs) r" tail] by simp
qed

lemma reads_map: "reads f bs v \<Longrightarrow> reads (\<lambda>r. bindR (f r) (\<lambda>(v, r'). Inr (h v, r'))) bs (h v)"
  by (simp add: reads_def)

lemma reads_return: "reads (\<lambda>r. Inr (v, r)) [] v"
  by (simp add: reads_def)

lemma reads_byte: "reads reader_byte [b] b"
  by (simp add: reads_def reader_byte_unread)

lemma reads_bytes: "int (length bs) \<le> max_safe_integer \<Longrightarrow> reads (reader_bytesValue (int (length bs))) bs bs"
  by (auto simp: reads_def reader_bytesValue_def unread_def[symmetric] simp flip: length_unread)

function (sequential) leb128 :: "nat \<Rightarrow> octet list" where
  "leb128 n = (if n < 128 then [word_of_nat n] else word_of_nat (n mod 128 + 128) # leb128 (n div 128))"
  by pat_completeness auto

termination
  by (relation "measure id") auto

declare leb128.simps [simp del]

lemma uint_octet: "0 \<le> x \<Longrightarrow> x < 256 \<Longrightarrow> uint (word_of_int x :: octet) = x"
  by (simp add: uint_word_of_int)

lemma uint_octet_nat: "n < 256 \<Longrightarrow> uint (word_of_nat n :: octet) = int n"
  using uint_octet[of "int n"] by simp

lemma leb128_correct: "is_leb (leb128 n) \<and> leb_unsigned (leb128 n) = int n"
proof (induction n rule: leb128.induct)
  case (1 n)
  show ?case
  proof (cases "n < 128")
    case True
    then show ?thesis by (simp add: leb128.simps[of n] octet_masks uint_octet_nat)
  next
    case False
    define b where "b = (word_of_nat (n mod 128 + 128) :: octet)"
    have "uint b = int (n mod 128) + 128" unfolding b_def by (subst uint_octet_nat) auto
    moreover have "leb128 n = b # leb128 (n div 128)" using False by (simp add: leb128.simps[of n] b_def)
    moreover have "leb128 (n div 128) \<noteq> []" using 1[OF False] by auto
    moreover have "int (n mod 128) + 128 * int (n div 128) = int n"
      by (metis mod_mult_div_eq of_nat_add of_nat_mult of_nat_numeral)
    ultimately show ?thesis using 1[OF False] by (simp add: octet_masks)
  qed
qed

lemma leb128_length: "n < 128 ^ k \<Longrightarrow> 0 < k \<Longrightarrow> length (leb128 n) \<le> k"
proof (induction n arbitrary: k rule: leb128.induct)
  case (1 n)
  show ?case
  proof (cases "n < 128")
    case False
    then have "k \<noteq> 1" using 1(2) by auto
    then obtain j where k: "k = Suc j" "0 < j" using 1(3) by (cases k) auto
    then have "n div 128 < 128 ^ j" using 1(2) by (simp add: less_mult_imp_div_less mult.commute)
    then show ?thesis using 1(1)[OF False _ k(2)] False k by (simp add: leb128.simps[of n])
  qed (use 1 in \<open>simp add: leb128.simps[of n]\<close>)
qed

lemma reads_u32: "n < 2 ^ 32 \<Longrightarrow> reads reader_u32 (leb128 n) (int n)"
  unfolding reads_def reader_u32_iff leb_ahead_def
  using leb128_correct[of n] leb128_length[of n 5] by auto

section \<open>Codecs and vectors\<close>

locale wasm_codec =
  fixes read :: "'a reading" and encode :: "'a \<Rightarrow> octet list" and valid :: "'a \<Rightarrow> bool"
  assumes reads_encode: "valid x \<Longrightarrow> reads read (encode x) x"
    and encode_nonempty: "valid x \<Longrightarrow> encode x \<noteq> []"
begin

lemma items_reads: "\<forall>x \<in> set xs. valid x \<Longrightarrow> reads (read_items (length xs) read) (concat (map encode xs)) xs"
proof (induction xs)
  case (Cons x xs)
  have "reads read (encode x) x" using Cons.prems by (simp add: reads_encode)
  moreover have "reads (\<lambda>r1. bindR (read_items (length xs) read r1) (\<lambda>(ys, r2). Inr (x # ys, r2))) (concat (map encode xs)) (x # xs)"
    using reads_map[OF Cons.IH, of "(#) x"] Cons.prems by simp
  ultimately show ?case
    using reads_bind[of read "encode x" x "\<lambda>y r1. bindR (read_items (length xs) read r1) (\<lambda>(ys, r2). Inr (y # ys, r2))"]
    by simp
qed (simp add: reads_def)

lemma items_length: "\<forall>x \<in> set xs. valid x \<Longrightarrow> length xs \<le> length (concat (map encode xs))"
proof (induction xs)
  case (Cons x xs)
  then show ?case using encode_nonempty[of x] by (cases "encode x") auto
qed simp

lemma vector_reads:
  assumes "\<forall>x \<in> set xs. valid x" and "length xs < 2 ^ 32"
  shows "reads (reader_vector read) (leb128 (length xs) @ concat (map encode xs)) xs"
  unfolding reads_def
proof (intro allI impI)
  fix r tail
  assume ahead: "unread r = (leb128 (length xs) @ concat (map encode xs)) @ tail"
  let ?r = "reader_advance (length (leb128 (length xs))) r"
  have "reader_u32 r = Inr (int (length xs), ?r)"
    using readsD[OF reads_u32[OF assms(2)]] ahead by simp
  moreover have "read_items (length xs) read ?r = Inr (xs, reader_advance (length (concat (map encode xs))) ?r)"
    using readsD[OF items_reads[OF assms(1)], of ?r tail] ahead by simp
  moreover have "length xs \<le> reader_remaining ?r"
    using items_length[OF assms(1)] ahead by (simp flip: length_unread)
  ultimately show "reader_vector read r = Inr (xs, reader_advance (length (leb128 (length xs) @ concat (map encode xs))) r)"
    by (simp add: reader_vector_def)
qed

end

section \<open>Names\<close>

text \<open>The byte with a given value.\<close>

definition octet_of :: "int \<Rightarrow> octet" where
  "octet_of x = word_of_int x"

lemma uint_octet_of: "0 \<le> x \<Longrightarrow> x < 256 \<Longrightarrow> uint (octet_of x) = x"
  by (simp add: octet_of_def uint_octet)

definition scalar_value :: "int \<Rightarrow> bool" where
  "scalar_value c \<longleftrightarrow> 0 \<le> c \<and> c < 0xD800 \<or> 0xE000 \<le> c \<and> c \<le> 0x10FFFF"

definition utf8_point :: "int \<Rightarrow> octet list" where
  "utf8_point c =
    (if c < 0x80 then [octet_of c]
     else if c < 0x800 then [octet_of (0xC0 + c div 0x40), octet_of (0x80 + c mod 0x40)]
     else if c < 0x10000 then
       [octet_of (0xE0 + c div 0x1000), octet_of (0x80 + c div 0x40 mod 0x40), octet_of (0x80 + c mod 0x40)]
     else [octet_of (0xF0 + c div 0x40000), octet_of (0x80 + c div 0x1000 mod 0x40),
           octet_of (0x80 + c div 0x40 mod 0x40), octet_of (0x80 + c mod 0x40)])"

lemma utf8_scalars_1: "uint a < 0x80 \<Longrightarrow> utf8_scalars (a # bs) = map_option ((#) (uint a)) (utf8_scalars bs)"
  by simp

lemma utf8_scalars_2:
  assumes "uint a = 0xC0 + x" "uint b = 0x80 + y" "2 \<le> x" "x < 0x20" "0 \<le> y" "y < 0x40"
  shows "utf8_scalars (a # b # bs) = map_option ((#) (x * 0x40 + y)) (utf8_scalars bs)"
  using assms by (simp add: continuation_def cont_bits_def)

lemma utf8_scalars_3:
  assumes "uint a = 0xE0 + x" "uint b = 0x80 + y" "uint c = 0x80 + z" "0 \<le> x" "x < 0x10"
    and "0 \<le> y" "y < 0x40" "0 \<le> z" "z < 0x40" "x = 0 \<Longrightarrow> 0x20 \<le> y" "x = 0xD \<Longrightarrow> y < 0x20"
  shows "utf8_scalars (a # b # c # bs) = map_option ((#) (x * 0x1000 + y * 0x40 + z)) (utf8_scalars bs)"
proof -
  have "continuation (if uint a = 0xE0 then 0xA0 else 0x80) (if uint a = 0xED then 0x9F else 0xBF) b \<and> continuation 0x80 0xBF c"
    using assms by (auto simp: continuation_def)
  then show ?thesis using assms(1-5) by (simp add: cont_bits_def)
qed

lemma utf8_scalars_4:
  assumes "uint a = 0xF0 + x" "uint b = 0x80 + y" "uint c = 0x80 + z" "uint d = 0x80 + w" "0 \<le> x" "x \<le> 4"
    and "0 \<le> y" "y < 0x40" "0 \<le> z" "z < 0x40" "0 \<le> w" "w < 0x40" "x = 0 \<Longrightarrow> 0x10 \<le> y" "x = 4 \<Longrightarrow> y < 0x10"
  shows "utf8_scalars (a # b # c # d # bs) = map_option ((#) (x * 0x40000 + y * 0x1000 + z * 0x40 + w)) (utf8_scalars bs)"
proof -
  have "continuation (if uint a = 0xF0 then 0x90 else 0x80) (if uint a = 0xF4 then 0x8F else 0xBF) b
      \<and> continuation 0x80 0xBF c \<and> continuation 0x80 0xBF d"
    using assms by (auto simp: continuation_def)
  then show ?thesis using assms(1-6) by (simp add: cont_bits_def)
qed

lemma base64_parts:
  fixes c :: int
  assumes "0 \<le> c"
  obtains q z where "c = q * 0x40 + z" "0 \<le> q" "0 \<le> z" "z < 0x40" "c div 0x40 = q" "c mod 0x40 = z"
  using that[of "c div 0x40" "c mod 0x40"] assms by (simp add: pos_imp_zdiv_nonneg_iff)

lemma utf8_scalars_point:
  assumes "scalar_value c"
  shows "utf8_scalars (utf8_point c @ bs) = map_option ((#) c) (utf8_scalars bs)"
proof -
  have c: "0 \<le> c" "c \<le> 0x10FFFF" "c < 0xD800 \<or> 0xE000 \<le> c" using assms by (auto simp: scalar_value_def)
  obtain q z where q: "c = q * 0x40 + z" "0 \<le> q" "0 \<le> z" "z < 0x40" "c div 0x40 = q" "c mod 0x40 = z"
    using base64_parts[OF c(1)] by blast
  obtain t y where t: "q = t * 0x40 + y" "0 \<le> t" "0 \<le> y" "y < 0x40" "q div 0x40 = t" "q mod 0x40 = y"
    using base64_parts[OF q(2)] by blast
  obtain u x where u: "t = u * 0x40 + x" "0 \<le> u" "0 \<le> x" "x < 0x40" "t div 0x40 = u" "t mod 0x40 = x"
    using base64_parts[OF t(2)] by blast
  have tu: "c div 0x1000 = t" "c div 0x40000 = u"
    using q(5) t(5) u(5) zdiv_zmult2_eq[of "0x40" c "0x40"] zdiv_zmult2_eq[of "0x40" c "0x1000"]
      zdiv_zmult2_eq[of "0x40" "c div 0x40" "0x40"] by simp_all
  note point = utf8_point_def tu q(5,6) t(6) u(6)
  have low: "uint (octet_of (0x80 + k)) = 0x80 + k" if "0 \<le> k" "k < 0x40" for k
    by (rule uint_octet_of) (use that in linarith)+
  consider "c < 0x80" | "0x80 \<le> c" "c < 0x800" | "0x800 \<le> c" "c < 0x10000" | "0x10000 \<le> c" by linarith
  then show ?thesis
  proof cases
    case 1
    have "uint (octet_of c) = c" by (rule uint_octet_of) (use 1 c in linarith)+
    then show ?thesis using 1 utf8_scalars_1[of "octet_of c" bs] by (simp add: utf8_point_def)
  next
    case 2
    have "2 \<le> q" "q < 0x20" using 2 q(1,3,4) by linarith+
    moreover have "uint (octet_of (0xC0 + q)) = 0xC0 + q" by (rule uint_octet_of) (use calculation in linarith)+
    ultimately show ?thesis using utf8_scalars_2[of "octet_of (0xC0 + q)" q "octet_of (0x80 + z)" z bs] 2 q(1,3,4) low
      by (simp add: point)
  next
    case 3
    have "t < 0x10" "t = 0 \<Longrightarrow> 0x20 \<le> y" "t = 0xD \<Longrightarrow> y < 0x20" using 3 c(3) q(1,3,4) t(1,3,4) by linarith+
    moreover have "uint (octet_of (0xE0 + t)) = 0xE0 + t" by (rule uint_octet_of) (use calculation t(2) in linarith)+
    moreover have "t * 0x1000 + y * 0x40 + z = c" using q(1) t(1) by linarith
    ultimately show ?thesis
      using utf8_scalars_3[of "octet_of (0xE0 + t)" t "octet_of (0x80 + y)" y "octet_of (0x80 + z)" z bs] 3 q(3,4) t(2,3,4) low
      by (simp add: point)
  next
    case 4
    have "u \<le> 4" "u = 0 \<Longrightarrow> 0x10 \<le> x" "u = 4 \<Longrightarrow> x < 0x10" using 4 c(2) q(1,3,4) t(1,3,4) u(1,3,4) by linarith+
    moreover have "uint (octet_of (0xF0 + u)) = 0xF0 + u" by (rule uint_octet_of) (use calculation u(2) in linarith)+
    moreover have "u * 0x40000 + x * 0x1000 + y * 0x40 + z = c" using q(1) t(1) u(1) by linarith
    ultimately show ?thesis
      using utf8_scalars_4[of "octet_of (0xF0 + u)" u "octet_of (0x80 + x)" x "octet_of (0x80 + y)" y "octet_of (0x80 + z)" z bs]
        4 q(3,4) t(3,4) u(2,3,4) low
      by (simp add: point)
  qed
qed

definition utf8_name :: "int list \<Rightarrow> octet list" where
  "utf8_name points = concat (map utf8_point points)"

lemma utf8_scalars_name: "\<forall>c \<in> set points. scalar_value c \<Longrightarrow> utf8_scalars (utf8_name points) = Some points"
  by (induction points) (simp_all add: utf8_name_def utf8_scalars_point del: utf8_scalars.simps(2))

text \<open>A name is returned as written unless it starts with U+FEFF, which the decoder takes for a byte
  order mark.\<close>

definition readable_name :: "int list \<Rightarrow> bool" where
  "readable_name points \<longleftrightarrow> (\<forall>c \<in> set points. scalar_value c) \<and> (points \<noteq> [] \<longrightarrow> hd points \<noteq> 0xFEFF)
     \<and> length (utf8_name points) < 2 ^ 32"

lemma utf8_point_mark:
  assumes "scalar_value c" "c \<noteq> 0xFEFF" "utf8_point c @ bs = 0xEF # 0xBB # 0xBF # tail"
  shows False
proof -
  have one: "utf8_scalars (utf8_point c) = Some [c]" using utf8_scalars_point[OF assms(1), of "[]"] by simp
  define n where "n = length (utf8_point c)"
  have "utf8_point c = take n (0xEF # 0xBB # 0xBF # tail)" using assms(3) by (metis append_eq_conv_conj n_def)
  then have "utf8_scalars (take n (0xEF # 0xBB # 0xBF # tail)) = Some [c]" using one by simp
  moreover have "n = 0 \<or> n = 1 \<or> n = 2 \<or> (\<exists>m. n = Suc (Suc (Suc m)))" by presburger
  ultimately show False using assms(2) by (auto simp: continuation_def cont_bits_def)
qed

lemma decode_name:
  assumes "readable_name points"
  shows "decodeUtf8 (utf8_name points) description = Inr points"
proof -
  have "take 3 (utf8_name points) \<noteq> [0xEF, 0xBB, 0xBF]"
  proof
    assume mark: "take 3 (utf8_name points) = [0xEF, 0xBB, 0xBF]"
    then obtain c cs where points: "points = c # cs" by (cases points) (auto simp: utf8_name_def)
    have "utf8_name points = [0xEF, 0xBB, 0xBF] @ drop 3 (utf8_name points)"
      by (metis append_take_drop_id mark)
    moreover have "utf8_name points = utf8_point c @ utf8_name cs" by (simp add: points utf8_name_def)
    ultimately have "utf8_point c @ utf8_name cs = 0xEF # 0xBB # 0xBF # drop 3 (utf8_name points)" by simp
    then show False using utf8_point_mark[of c "utf8_name cs"] assms points by (auto simp: readable_name_def)
  qed
  then show ?thesis using assms by (simp add: decodeUtf8_def utf8_scalars_name readable_name_def)
qed

definition encode_name :: "int list \<Rightarrow> octet list" where
  "encode_name points = leb128 (length (utf8_name points)) @ utf8_name points"

lemma reads_name:
  assumes "readable_name points"
  shows "reads reader_string (encode_name points) points"
  unfolding reads_def
proof (intro allI impI)
  fix r tail assume ahead: "unread r = encode_name points @ tail"
  have small: "length (utf8_name points) < 2 ^ 32" using assms by (simp add: readable_name_def)
  then have "int (length (utf8_name points)) \<le> max_safe_integer" by (simp add: max_safe_integer_def)
  then show "reader_string r = Inr (points, reader_advance (length (encode_name points)) r)"
    using readsD[OF reads_u32[OF small], of r] readsD[OF reads_bytes[of "utf8_name points"], of _ tail] ahead decode_name[OF assms]
    by (simp add: reader_string_def encode_name_def)
qed

end
