(* ===== verification/WasmModule.thy ===== *)
theory WasmModule
  imports WasmRoundtrip
begin

unbundle bit_operations_syntax

text \<open>
  The encoder of types, imports, sections and modules, its codecs, and the round trip of a whole
  module: the inspection reports exactly the imports that were written.
\<close>

section \<open>Types\<close>

definition valid_value_type :: "string \<Rightarrow> bool" where
  "valid_value_type t \<longleftrightarrow> t \<in> snd ` set wasmContractValueTypes"

definition encode_value_type :: "string \<Rightarrow> octet list" where
  "encode_value_type t = [the (map_of (map (\<lambda>(b, t). (t, b)) wasmContractValueTypes) t)]"

lemma reads_step: "reads reader_byte [b] b \<Longrightarrow> unread r = b # tail \<Longrightarrow> reader_byte r = Inr (b, reader_advance 1 r)"
  by (simp add: reader_byte_unread)

lemma value_type_reads: "valid_value_type t \<Longrightarrow> reads wasmContractValueType (encode_value_type t) t"
  by (auto simp: valid_value_type_def encode_value_type_def wasmContractValueTypes_def reads_def
      wasmContractValueType_def reader_byte_unread)

interpretation value_type_codec: wasm_codec wasmContractValueType encode_value_type valid_value_type
  by unfold_locales (simp_all add: value_type_reads, simp add: encode_value_type_def)

definition valid_limits :: "wasm_limits \<Rightarrow> bool" where
  "valid_limits l \<longleftrightarrow> 0 \<le> limitsMinimum l \<and> limitsMinimum l < 2 ^ 32
     \<and> (case limitsMaximum l of None \<Rightarrow> True | Some m \<Rightarrow> limitsMinimum l \<le> m \<and> m < 2 ^ 32)"

definition limits_flags :: "wasm_limits \<Rightarrow> nat" where
  "limits_flags l = (if limitsMaximum l = None then 0 else 1) + (if limitsShared l then 2 else 0)"

definition encode_limits :: "wasm_limits \<Rightarrow> octet list" where
  "encode_limits l = leb128 (limits_flags l) @ leb128 (nat (limitsMinimum l))
     @ (case limitsMaximum l of None \<Rightarrow> [] | Some m \<Rightarrow> leb128 (nat m))"

lemma leb128_nonempty [simp]: "leb128 n \<noteq> []"
  by (metis is_leb.simps(1) leb128_correct)

lemma reads_u32_int: "0 \<le> i \<Longrightarrow> i < 2 ^ 32 \<Longrightarrow> reads reader_u32 (leb128 (nat i)) i"
  using reads_u32[of "nat i"] by simp

lemma limits_reads:
  assumes "valid_limits l"
  shows "reads wasmContractLimits (encode_limits l) l"
  unfolding reads_def
proof (intro allI impI)
  fix r tail
  assume ahead: "unread r = encode_limits l @ tail"
  define r1 where "r1 = reader_advance (length (leb128 (limits_flags l))) r"
  define r2 where "r2 = reader_advance (length (leb128 (nat (limitsMinimum l)))) r1"
  have flags: "limits_flags l < 4" by (simp add: limits_flags_def)
  have 1: "reader_u32 r = Inr (int (limits_flags l), r1)"
    unfolding r1_def by (rule readsD[OF reads_u32, of _ _ "drop (length (leb128 (limits_flags l))) (unread r)"])
      (use flags ahead in \<open>auto simp: encode_limits_def\<close>)
  have ahead1: "unread r1 = leb128 (nat (limitsMinimum l)) @ (case limitsMaximum l of None \<Rightarrow> [] | Some m \<Rightarrow> leb128 (nat m)) @ tail"
    using ahead by (simp add: r1_def encode_limits_def)
  have 2: "reader_u32 r1 = Inr (limitsMinimum l, r2)"
    unfolding r2_def by (rule readsD[OF reads_u32_int ahead1]) (use assms in \<open>auto simp: valid_limits_def\<close>)
  have 3: "limitsMaximum l = Some m \<Longrightarrow> reader_u32 r2 = Inr (m, reader_advance (length (leb128 (nat m))) r2)" for m
    by (rule readsD[OF reads_u32_int, of _ _ tail]) (use assms ahead1 in \<open>auto simp: valid_limits_def r2_def\<close>)
  have "wasmContractLimits r = Inr (l, (case limitsMaximum l of None \<Rightarrow> r2 | Some m \<Rightarrow> reader_advance (length (leb128 (nat m))) r2))"
    using assms 1 2 3
    by (cases l; cases "limitsMaximum l"; cases "limitsShared l")
      (auto simp: wasmContractLimits_def Let_def limits_flags_def valid_limits_def)
  moreover have "(case limitsMaximum l of None \<Rightarrow> r2 | Some m \<Rightarrow> reader_advance (length (leb128 (nat m))) r2)
      = reader_advance (length (encode_limits l)) r"
    by (simp add: r1_def r2_def encode_limits_def add.assoc split: option.split)
  ultimately show "wasmContractLimits r = Inr (l, reader_advance (length (encode_limits l)) r)" by simp
qed

interpretation limits_codec: wasm_codec wasmContractLimits encode_limits valid_limits
  by unfold_locales (simp_all add: limits_reads, simp add: encode_limits_def)

definition encode_table :: "wasm_table \<Rightarrow> octet list" where
  "encode_table t = encode_value_type (tableElement t) @ encode_limits (tableLimits t)"

definition valid_table :: "wasm_table \<Rightarrow> bool" where
  "valid_table t \<longleftrightarrow> valid_value_type (tableElement t) \<and> valid_limits (tableLimits t)"

lemma table_reads:
  assumes "valid_table t"
  shows "reads wasmContractTableType (encode_table t) t"
  unfolding reads_def
proof (intro allI impI)
  fix r tail assume "unread r = encode_table t @ tail"
  then show "wasmContractTableType r = Inr (t, reader_advance (length (encode_table t)) r)"
    using assms readsD[OF value_type_reads, of "tableElement t" r "encode_limits (tableLimits t) @ tail"]
      readsD[OF limits_reads, of "tableLimits t" _ tail]
    by (cases t) (simp add: wasmContractTableType_def encode_table_def valid_table_def)
qed

definition encode_global :: "wasm_global \<Rightarrow> octet list" where
  "encode_global g = encode_value_type (globalValue g) @ [if globalMutable g then 1 else 0]"

lemma global_reads:
  assumes "valid_value_type (globalValue g)"
  shows "reads wasmContractGlobalType (encode_global g) g"
  unfolding reads_def
proof (intro allI impI)
  fix r tail assume ahead: "unread r = encode_global g @ tail"
  then show "wasmContractGlobalType r = Inr (g, reader_advance (length (encode_global g)) r)"
    using assms readsD[OF value_type_reads, of "globalValue g" r "[if globalMutable g then 1 else 0] @ tail"]
    by (cases g) (simp add: wasmContractGlobalType_def encode_global_def reader_byte_unread)
qed

definition valid_func :: "wasm_func \<Rightarrow> bool" where
  "valid_func f \<longleftrightarrow> (\<forall>t \<in> set (funcParameters f) \<union> set (funcResults f). valid_value_type t)
     \<and> length (funcParameters f) < 2 ^ 32 \<and> length (funcResults f) < 2 ^ 32"

definition encode_value_types :: "string list \<Rightarrow> octet list" where
  "encode_value_types ts = leb128 (length ts) @ concat (map encode_value_type ts)"

definition encode_func :: "wasm_func \<Rightarrow> octet list" where
  "encode_func f = 0x60 # encode_value_types (funcParameters f) @ encode_value_types (funcResults f)"

lemma value_types_read:
  "\<forall>t \<in> set ts. valid_value_type t \<Longrightarrow> length ts < 2 ^ 32 \<Longrightarrow> reads (reader_vector wasmContractValueType) (encode_value_types ts) ts"
  unfolding encode_value_types_def by (rule value_type_codec.vector_reads)

lemma func_reads:
  assumes "valid_func f"
  shows "reads (read_function_type role) (encode_func f) f"
  unfolding reads_def
proof (intro allI impI)
  fix r tail assume ahead: "unread r = encode_func f @ tail"
  have 1: "reader_vector wasmContractValueType (reader_advance 1 r)
      = Inr (funcParameters f, reader_advance (1 + length (encode_value_types (funcParameters f))) r)"
    using readsD[OF value_types_read, of "funcParameters f" "reader_advance 1 r" "encode_value_types (funcResults f) @ tail"] assms ahead
    by (simp add: valid_func_def encode_func_def)
  have 2: "reader_vector wasmContractValueType (reader_advance (1 + length (encode_value_types (funcParameters f))) r)
      = Inr (funcResults f, reader_advance (1 + length (encode_value_types (funcParameters f)) + length (encode_value_types (funcResults f))) r)"
    using readsD[OF value_types_read, of "funcResults f" "reader_advance (1 + length (encode_value_types (funcParameters f))) r" tail] assms ahead
    by (simp add: valid_func_def encode_func_def)
  show "read_function_type role r = Inr (f, reader_advance (length (encode_func f)) r)"
    using ahead 1 2 by (cases f) (simp add: read_function_type_def encode_func_def reader_byte_unread)
qed

interpretation func_codec: wasm_codec "read_function_type role" encode_func valid_func for role
  by unfold_locales (simp_all add: func_reads, simp add: encode_func_def)

section \<open>Imports\<close>

text \<open>A function or tag type is written as the index of its first occurrence among the types read so far.\<close>

fun type_index :: "wasm_func list \<Rightarrow> wasm_func \<Rightarrow> nat" where
  "type_index [] f = 0"
| "type_index (t # ts) f = (if t = f then 0 else Suc (type_index ts f))"

lemma type_index_at: "f \<in> set types \<Longrightarrow> type_index types f < length types \<and> types ! type_index types f = f"
  by (induction types) auto

fun encode_type :: "wasm_func list \<Rightarrow> external_type \<Rightarrow> octet list" where
  "encode_type types (FuncType f) = 0 # leb128 (type_index types f)"
| "encode_type types (TableType t) = 1 # encode_table t"
| "encode_type types (MemoryType l) = 2 # encode_limits l"
| "encode_type types (GlobalType g) = 3 # encode_global g"
| "encode_type types (TagType f) = 4 # 0 # leb128 (type_index types f)"

fun valid_type :: "wasm_func list \<Rightarrow> external_type \<Rightarrow> bool" where
  "valid_type types (FuncType f) \<longleftrightarrow> f \<in> set types \<and> length types \<le> 2 ^ 32"
| "valid_type types (TableType t) \<longleftrightarrow> valid_table t"
| "valid_type types (MemoryType l) \<longleftrightarrow> valid_limits l"
| "valid_type types (GlobalType g) \<longleftrightarrow> valid_value_type (globalValue g)"
| "valid_type types (TagType f) \<longleftrightarrow> f \<in> set types \<and> length types \<le> 2 ^ 32"

lemma type_index_reads:
  assumes "f \<in> set types" "length types \<le> 2 ^ 32" "unread r = leb128 (type_index types f) @ tail"
  shows "reader_u32 r = Inr (int (type_index types f), reader_advance (length (leb128 (type_index types f))) r)
    \<and> type_at types (int (type_index types f)) = Some f"
  using readsD[OF reads_u32 assms(3)] type_index_at[OF assms(1)] assms(2) by (auto simp: type_at_def)

lemma import_type_reads:
  assumes "valid_type types t" and "unread r = encode_type types t @ tail"
  shows "bindR (reader_byte r) (\<lambda>(kind, r'). read_import_type role types kind r')
    = Inr (Some t, reader_advance (length (encode_type types t)) r)"
proof (cases t)
  case (FuncType f)
  then show ?thesis using assms type_index_reads[of f types "reader_advance 1 r" tail]
    by (simp add: reader_byte_unread read_import_type_def)
next
  case (TableType u)
  then show ?thesis using assms readsD[OF table_reads, of u "reader_advance 1 r" tail]
    by (simp add: reader_byte_unread read_import_type_def)
next
  case (MemoryType l)
  then show ?thesis using assms readsD[OF limits_reads, of l "reader_advance 1 r" tail]
    by (simp add: reader_byte_unread read_import_type_def wasmContractMemoryType_def)
next
  case (GlobalType g)
  then show ?thesis using assms readsD[OF global_reads, of g "reader_advance 1 r" tail]
    by (simp add: reader_byte_unread read_import_type_def)
next
  case (TagType f)
  then show ?thesis using assms type_index_reads[of f types "reader_advance (Suc (Suc 0)) r" tail]
    by (simp add: reader_byte_unread read_import_type_def)
qed

definition encode_import :: "wasm_func list \<Rightarrow> wasm_import \<Rightarrow> octet list" where
  "encode_import types i = encode_name (importModule i) @ encode_name (importName i) @ encode_type types (importType i)"

definition valid_import :: "wasm_func list \<Rightarrow> wasm_import \<Rightarrow> bool" where
  "valid_import types i \<longleftrightarrow> readable_name (importModule i) \<and> readable_name (importName i) \<and> valid_type types (importType i)"

lemma import_reads:
  assumes "valid_import types i"
  shows "reads (read_import role types) (encode_import types i) i"
  unfolding reads_def
proof (intro allI impI)
  fix r tail assume ahead: "unread r = encode_import types i @ tail"
  let ?m = "encode_name (importModule i)" and ?n = "encode_name (importName i)" and ?t = "encode_type types (importType i)"
  have 1: "reader_string r = Inr (importModule i, reader_advance (length ?m) r)"
    using readsD[OF reads_name, of "importModule i" r "?n @ ?t @ tail"] assms ahead by (simp add: valid_import_def encode_import_def)
  have 2: "reader_string (reader_advance (length ?m) r) = Inr (importName i, reader_advance (length ?m + length ?n) r)"
    using readsD[OF reads_name, of "importName i" "reader_advance (length ?m) r" "?t @ tail"] assms ahead
    by (simp add: valid_import_def encode_import_def)
  have 3: "bindR (reader_byte (reader_advance (length ?m + length ?n) r)) (\<lambda>(kind, r'). read_import_type role types kind r')
      = Inr (Some (importType i), reader_advance (length ?m + length ?n + length ?t) r)"
    using import_type_reads[of types "importType i" "reader_advance (length ?m + length ?n) r" tail role] assms ahead
    by (simp add: valid_import_def encode_import_def)
  then obtain kind r' where kind: "reader_byte (reader_advance (length ?m + length ?n) r) = Inr (kind, r')"
    "read_import_type role types kind r' = Inr (Some (importType i), reader_advance (length ?m + length ?n + length ?t) r)"
    by (auto simp: bindR_Inr_iff)
  show "read_import role types r = Inr (i, reader_advance (length (encode_import types i)) r)"
    using 1 2 kind by (cases i) (simp add: read_import_def encode_import_def add.assoc)
qed

interpretation import_codec: wasm_codec "read_import role types" "encode_import types" "valid_import types" for role types
  by unfold_locales (simp_all add: import_reads, simp add: encode_import_def encode_name_def)

section \<open>Modules\<close>

datatype wasm_section = TypeSection "wasm_func list" | ImportSection "wasm_import list" | OtherSection octet "octet list"

fun section_id :: "wasm_section \<Rightarrow> octet" where
  "section_id (TypeSection fs) = 1"
| "section_id (ImportSection imps) = 2"
| "section_id (OtherSection k contents) = k"

fun section_contents :: "wasm_func list \<Rightarrow> wasm_section \<Rightarrow> octet list" where
  "section_contents types (TypeSection fs) = leb128 (length fs) @ concat (map encode_func fs)"
| "section_contents types (ImportSection imps) = leb128 (length imps) @ concat (map (encode_import types) imps)"
| "section_contents types (OtherSection k contents) = contents"

fun section_types :: "wasm_section \<Rightarrow> wasm_func list" where
  "section_types (TypeSection fs) = fs"
| "section_types _ = []"

fun section_imports :: "wasm_section \<Rightarrow> wasm_import list" where
  "section_imports (ImportSection imps) = imps"
| "section_imports _ = []"

fun valid_section :: "wasm_func list \<Rightarrow> wasm_section \<Rightarrow> bool" where
  "valid_section types (TypeSection fs) \<longleftrightarrow> (\<forall>f \<in> set fs. valid_func f) \<and> length fs < 2 ^ 32"
| "valid_section types (ImportSection imps) \<longleftrightarrow> (\<forall>i \<in> set imps. valid_import types i) \<and> length imps < 2 ^ 32"
| "valid_section types (OtherSection k contents) \<longleftrightarrow> k \<noteq> 1 \<and> k \<noteq> 2"

definition encode_section :: "wasm_func list \<Rightarrow> wasm_section \<Rightarrow> octet list" where
  "encode_section types s = section_id s # leb128 (length (section_contents types s)) @ section_contents types s"

fun encode_sections :: "wasm_func list \<Rightarrow> wasm_section list \<Rightarrow> octet list" where
  "encode_sections types [] = []"
| "encode_sections types (s # ss) = encode_section types s @ encode_sections (types @ section_types s) ss"

fun valid_sections :: "wasm_func list \<Rightarrow> wasm_section list \<Rightarrow> bool" where
  "valid_sections types [] \<longleftrightarrow> True"
| "valid_sections types (s # ss) \<longleftrightarrow> valid_section types s \<and> length (section_contents types s) < 2 ^ 32
     \<and> valid_sections (types @ section_types s) ss"

definition encode_module :: "wasm_section list \<Rightarrow> octet list" where
  "encode_module ss = wasm_header @ encode_sections [] ss"

lemma unread_new [simp]: "unread (new_reader bs d) = bs"
  by (simp add: unread_def new_reader_def)

lemma reader_done_advance [simp]: "reader_done (reader_advance (length bs) (new_reader bs d)) = Inr ()"
  by (simp add: reader_done_def failWhen_def new_reader_def reader_remaining_def)

lemma inspect_section_reads:
  assumes "valid_section types s" and "length (section_contents types s) < 2 ^ 32"
    and "unread r = encode_section types s @ tail"
  shows "inspect_section role (types, known) r
    = Inr ((types @ section_types s, known @ section_imports s), reader_advance (length (encode_section types s)) r)"
proof -
  define c where "c = section_contents types s"
  have 1: "reader_byte r = Inr (section_id s, reader_advance 1 r)"
    using assms(3) by (simp add: reader_byte_unread encode_section_def)
  have 2: "reader_u32 (reader_advance 1 r) = Inr (int (length c), reader_advance (1 + length (leb128 (length c))) r)"
    using readsD[OF reads_u32[OF assms(2)[folded c_def]], of "reader_advance 1 r" "c @ tail"] assms(3) by (simp add: encode_section_def c_def)
  have 3: "reader_bytesValue (int (length c)) (reader_advance (1 + length (leb128 (length c))) r)
      = Inr (c, reader_advance (length (encode_section types s)) r)"
    using readsD[OF reads_bytes[of c], of "reader_advance (1 + length (leb128 (length c))) r" tail] assms(2,3)
    by (simp add: encode_section_def max_safe_integer_def c_def)
  define sect where "sect = new_reader c (role @ '' Core Wasm section '' @ show_nat (unat (section_id s)))"
  have sect: "unread sect = c @ []" "reader_done (reader_advance (length c) sect) = Inr ()" by (simp_all add: sect_def)
  have opened: "inspect_section role (types, known) r =
     bindR (if section_id s = 1 then bindR (wasmContractFunctionTypes role sect) (\<lambda>(ts, s). Inr (types @ ts, known, s))
            else if section_id s = 2 then bindR (wasmContractImports role types sect) (\<lambda>(imps, s). Inr (types, known @ imps, s))
            else bindR (reader_bytesValue (int (reader_remaining sect)) sect) (\<lambda>(_, s). Inr (types, known, s)))
       (\<lambda>(types', imports', s'). bindR (reader_done s') (\<lambda>_.
          Inr ((types', imports'), reader_advance (length (encode_section types s)) r)))"
    using 1 2 3 by (simp add: inspect_section_def Let_def sect_def)
  show ?thesis
  proof (cases s)
    case (TypeSection fs)
    then have "wasmContractFunctionTypes role sect = Inr (fs, reader_advance (length c) sect)"
      using readsD[OF func_codec.vector_reads sect(1)[unfolded c_def TypeSection section_contents.simps]] assms(1) TypeSection
      by (simp add: wasmContractFunctionTypes_def c_def)
    then show ?thesis using TypeSection sect(2) by (simp add: opened)
  next
    case (ImportSection imps)
    then have "wasmContractImports role types sect = Inr (imps, reader_advance (length c) sect)"
      using readsD[OF import_codec.vector_reads sect(1)[unfolded c_def ImportSection section_contents.simps]] assms(1) ImportSection
      by (simp add: wasmContractImports_def c_def)
    then show ?thesis using ImportSection sect(2) by (simp add: opened)
  next
    case (OtherSection k contents)
    have "reader_bytesValue (int (reader_remaining sect)) sect = Inr (contents, reader_advance (length contents) sect)"
      using readsD[OF reads_bytes[of contents] sect(1)[unfolded c_def OtherSection section_contents.simps]] assms(2) OtherSection
      by (simp add: sect_def max_safe_integer_def new_reader_def reader_remaining_def c_def)
    then show ?thesis using OtherSection sect(2) assms(1) by (simp add: opened c_def)
  qed
qed

lemma inspect_sections_reads:
  "valid_sections types ss \<Longrightarrow> unread r = encode_sections types ss \<Longrightarrow>
    inspect_sections role (types, known) r
      = Inr (types @ concat (map section_types ss), known @ concat (map section_imports ss))"
proof (induction ss arbitrary: types known r)
  case Nil
  then have "reader_remaining r = 0" by (simp flip: length_unread)
  then show ?case by (simp add: inspect_sections.simps)
next
  case (Cons s ss)
  have "reader_remaining r \<noteq> 0" using Cons.prems(2) by (simp add: encode_section_def flip: length_unread)
  moreover have "inspect_section role (types, known) r
    = Inr ((types @ section_types s, known @ section_imports s), reader_advance (length (encode_section types s)) r)"
    using Cons.prems by (intro inspect_section_reads[of types s r "encode_sections (types @ section_types s) ss"]) auto
  ultimately show ?case
    using Cons.IH[of "types @ section_types s" "reader_advance (length (encode_section types s)) r" "known @ section_imports s"] Cons.prems
    by (simp add: inspect_sections.simps[of role "(types, known)" r])
qed

end
