(* ===== verification/WasmContract.thy ===== *)
theory WasmContract
  imports WasmModule JsonText
begin

unbundle bit_operations_syntax

text \<open>
  What the contract reader promises its clients: exact integers, faithful imports of whole modules,
  memory bounded by the input, and an identity text that tells different external types apart.
\<close>

section \<open>Integers\<close>

text \<open>The unsigned reader returns \<open>x\<close> exactly when a LEB128 encoding of \<open>x\<close> of at most five bytes lies
  ahead and \<open>x\<close> fits in 32 bits; it then stands right behind that encoding.\<close>

lemma reader_u32_exact:
  "reader_u32 r = Inr (x, r') \<longleftrightarrow>
    (\<exists>bs tail. unread r = bs @ tail \<and> is_leb bs \<and> length bs \<le> 5 \<and> leb_unsigned bs = x \<and> x < 2 ^ 32
      \<and> r' = reader_advance (length bs) r)"
  by (auto simp: reader_u32_iff leb_ahead_def)

text \<open>C8: The signed reader, which works with 32-bit shifts, returns \<open>x\<close> exactly when a signed LEB128 encoding
  of \<open>x\<close> of at most five bytes lies ahead and \<open>x\<close> is an i32: the sign-extension test of the fifth byte
  refuses exactly the values that the shifts would truncate.\<close>

theorem reader_s32_exact:
  "reader_s32 r = Inr (x, r') \<longleftrightarrow>
    (\<exists>bs tail. unread r = bs @ tail \<and> is_leb bs \<and> length bs \<le> 5 \<and> leb_signed bs = x \<and> - (2 ^ 31) \<le> x \<and> x < 2 ^ 31
      \<and> r' = reader_advance (length bs) r)"
  by (auto simp: reader_s32_iff leb_ahead_def)

section \<open>Modules\<close>

text \<open>C7: Inspecting an encoded module returns its imports, in order, with their indexes, names and types, whatever
  other sections it has.\<close>

theorem inspect_module_roundtrip:
  assumes "valid_sections [] ss" and "requireString description ''Core Wasm import inspection description'' = Inr role"
  shows "inspectConvexWasmCoreWasmImports sha256 (encode_module ss) description
    = Inr (inspected sha256 (concat (map section_imports ss)))"
proof -
  have "length wasm_header = 8" by (simp add: wasm_header_def)
  moreover have "inspect_sections role ([], []) (new_reader (encode_sections [] ss) (role @ '' Core Wasm''))
      = Inr ([] @ concat (map section_types ss), [] @ concat (map section_imports ss))"
    by (rule inspect_sections_reads[OF assms(1)]) simp
  ultimately show ?thesis
    using assms(2) by (simp add: inspectConvexWasmCoreWasmImports_def encode_module_def failWhen_def)
qed

definition sample_module :: "wasm_section list" where
  "sample_module =
    [TypeSection [\<lparr>funcParameters = [''i32'', ''f64''], funcResults = []\<rparr>],
     OtherSection 0 [1, 2, 3],
     ImportSection
       [\<lparr>importType = FuncType \<lparr>funcParameters = [''i32'', ''f64''], funcResults = []\<rparr>, importModule = [101, 110, 118], importName = [0x20AC]\<rparr>,
        \<lparr>importType = MemoryType \<lparr>limitsMaximum = Some 300, limitsMinimum = 2, limitsShared = True\<rparr>, importModule = [101], importName = []\<rparr>]]"

lemma sample_module_valid: "valid_sections [] sample_module"
  by (simp add: sample_module_def encode_func_def encode_value_types_def encode_value_type_def valid_func_def
      valid_value_type_def wasmContractValueTypes_def valid_import_def readable_name_def scalar_value_def utf8_name_def
      utf8_point_def valid_limits_def encode_import_def encode_name_def encode_limits_def limits_flags_def leb128.simps)

theorem inspect_module_roundtrip_witness:
  "inspectConvexWasmCoreWasmImports id (encode_module sample_module) (JStr ''selector'')
    = Inr (inspected id (concat (map section_imports sample_module)))
    \<and> length (concat (map section_imports sample_module)) = 2"
  using inspect_module_roundtrip[OF sample_module_valid, of "JStr ''selector''" "''selector''" id]
  by (simp add: sample_module_def)

lemma byte_remaining: "reader_byte r = Inr (b, r') \<Longrightarrow> reader_remaining r = Suc (reader_remaining r')"
  by (auto simp: reader_byte_Inr_iff reader_remaining_def)

lemma bytes_remaining: "reader_bytesValue n r = Inr (bs, r') \<Longrightarrow> length bs + reader_remaining r' = reader_remaining r"
  by (auto simp: reader_bytesValue_def reader_remaining_def split: if_splits)

lemma items_count: "read_items n read r = Inr (xs, r') \<Longrightarrow> length xs = n"
  by (induction n arbitrary: r xs) (auto simp: bindR_Inr_iff)

lemma vector_count: "reader_vector read r = Inr (xs, r') \<Longrightarrow> length xs \<le> reader_remaining r"
  by (auto simp: reader_vector_def bindR_Inr_iff split: if_splits
      dest!: items_count u32_reader.read_step reader_step_remaining)

lemma inspect_section_count:
  assumes "inspect_section role (types, known) r = Inr ((types', known'), r')"
  shows "length known' + reader_remaining r' < length known + reader_remaining r"
proof -
  obtain k r1 count r2 contents where 1: "reader_byte r = Inr (k, r1)" "reader_u32 r1 = Inr (count, r2)"
      "reader_bytesValue count r2 = Inr (contents, r')"
    using assms by (auto simp: inspect_section_def bindR_Inr_iff Let_def)
  let ?s = "new_reader contents (role @ '' Core Wasm section '' @ show_nat (unat k))"
  have "known' = known \<or> (\<exists>imps s. wasmContractImports role types ?s = Inr (imps, s) \<and> known' = known @ imps)"
    using assms 1 by (auto simp: inspect_section_def bindR_Inr_iff Let_def split: if_splits)
  then have "length known' \<le> length known + length contents"
    by (auto simp: wasmContractImports_def new_reader_def reader_remaining_def dest!: vector_count)
  then show ?thesis
    using byte_remaining[OF 1(1)] reader_step_remaining[OF u32_reader.read_step[OF 1(2)]] bytes_remaining[OF 1(3)] by linarith
qed

lemma inspect_sections_count:
  "inspect_sections role state r = Inr (types', known') \<Longrightarrow> length known' \<le> length (snd state) + reader_remaining r"
proof (induction role state r rule: inspect_sections.induct)
  case (1 role state r)
  show ?case
  proof (cases "reader_remaining r = 0")
    case False
    then obtain state1 r1 where *: "inspect_section role state r = Inr (state1, r1)" "inspect_sections role state1 r1 = Inr (types', known')"
      using "1.prems" by (auto simp: inspect_sections.simps[of role state r] bindR_Inr_iff)
    moreover have "length (snd state1) + reader_remaining r1 < length (snd state) + reader_remaining r"
      using inspect_section_count *(1) by (cases state; cases state1) fastforce
    ultimately show ?thesis using "1.IH"[OF False *(1) refl *(2)] by simp
  qed (use "1.prems" in \<open>simp add: inspect_sections.simps[of role state r]\<close>)
qed

text \<open>The inspection allocates no more than its input accounts for: it never reports more imports than the module
  has bytes after its header.\<close>

lemma inspect_imports_bounded:
  assumes "inspectConvexWasmCoreWasmImports sha256 bs description = Inr imports"
  shows "length imports + 8 \<le> length bs"
proof -
  obtain role types known where *: "\<not> length bs < 8" "imports = inspected sha256 known"
      "inspect_sections role ([], []) (new_reader (drop 8 bs) (role @ '' Core Wasm'')) = Inr (types, known)"
    using assms by (auto simp: inspectConvexWasmCoreWasmImports_def bindR_Inr_iff)
  then show ?thesis using inspect_sections_count[OF *(3)]
    by (simp add: inspected_def new_reader_def reader_remaining_def)
qed

section \<open>The identity text of an external type\<close>

definition name_char :: "char \<Rightarrow> bool" where
  "name_char c \<longleftrightarrow> c \<noteq> CHR '','' \<and> c \<noteq> CHR '')''"

lemma value_type_chars: "valid_value_type t \<Longrightarrow> list_all name_char t \<and> t \<noteq> []"
  by (auto simp: valid_value_type_def wasmContractValueTypes_def name_char_def)

lemma join_head:
  "join_strings '','' (x # xs) @ CHR '')'' # r
    = x @ (if xs = [] then CHR '')'' # r else CHR '','' # join_strings '','' xs @ CHR '')'' # r)"
  by (cases xs) auto

lemma join_types_unique:
  assumes "\<forall>t \<in> set xs \<union> set ys. valid_value_type t"
    and "join_strings '','' xs @ CHR '')'' # r = join_strings '','' ys @ CHR '')'' # r'"
  shows "xs = ys \<and> r = r'"
  using assms
proof (induction xs arbitrary: ys)
  case Nil
  have "ys = []"
  proof (rule ccontr)
    assume "ys \<noteq> []"
    then obtain y zs where ys: "ys = y # zs" by (cases ys) auto
    then have "list_all name_char y" "y \<noteq> []" using Nil.prems(1) value_type_chars by auto
    then show False using Nil.prems(2) unfolding ys join_head by (cases y) (auto simp: name_char_def)
  qed
  then show ?case using Nil.prems(2) by simp
next
  case (Cons x xs)
  have x: "list_all name_char x" "x \<noteq> []" using Cons.prems(1) value_type_chars by auto
  obtain y zs where ys: "ys = y # zs"
    using Cons.prems(2) x unfolding join_head by (cases ys; cases x) (auto simp: name_char_def)
  have y: "list_all name_char y" using Cons.prems(1) value_type_chars ys by auto
  note eq = Cons.prems(2)[unfolded ys join_head]
  have "x = y \<and> (if xs = [] then CHR '')'' # r else CHR '','' # join_strings '','' xs @ CHR '')'' # r)
      = (if zs = [] then CHR '')'' # r' else CHR '','' # join_strings '','' zs @ CHR '')'' # r')"
    by (rule span_unique[OF eq x(1) y]) (auto simp: name_char_def split: if_splits)
  then show ?case using Cons.IH[of zs] Cons.prems(1) ys by (auto split: if_splits)
qed

lemma func_text_unique:
  assumes "valid_func f" "valid_func g" and "func_text f @ r = func_text g @ r'"
  shows "f = g \<and> r = r'"
proof -
  have "join_strings '','' (funcParameters f) @ CHR '')'' # ''->('' @ join_strings '','' (funcResults f) @ '')'' @ r
      = join_strings '','' (funcParameters g) @ CHR '')'' # ''->('' @ join_strings '','' (funcResults g) @ '')'' @ r'"
    using assms(3) by (simp add: func_text_def)
  from join_types_unique[OF _ this] assms(1,2) have p: "funcParameters f = funcParameters g"
    "join_strings '','' (funcResults f) @ CHR '')'' # r = join_strings '','' (funcResults g) @ CHR '')'' # r'"
    by (auto simp: valid_func_def)
  from join_types_unique[OF _ p(2)] p(1) assms(1,2) show ?thesis
    by (cases f; cases g) (auto simp: valid_func_def)
qed

text \<open>The fields of the other texts end at the first comma or parenthesis.\<close>

lemma field_unique:
  assumes "s @ d # r = t @ d # r'" and "list_all name_char s" "list_all name_char t" and "\<not> name_char d"
  shows "s = t \<and> r = r'"
  using span_unique[OF assms(1-3)] assms(4) by auto

lemma name_char_num: "num_char c \<Longrightarrow> name_char c"
  by (auto simp: num_char_def name_char_def is_digit_def)

lemma show_int_name: "list_all name_char (show_int i)"
  using show_int_chars[of i] by (auto simp: list_all_iff name_char_num)

lemma maximum_text_name: "list_all name_char (maximum_text l)"
  by (simp add: maximum_text_def show_int_name name_char_def split: option.split)

lemma maximum_text_inj: "maximum_text l = maximum_text k \<Longrightarrow> limitsMaximum l = limitsMaximum k"
proof -
  have "show_int i \<noteq> ''none''" for i using show_int_chars[of i] by (auto simp: num_char_def is_digit_def)
  then show "maximum_text l = maximum_text k \<Longrightarrow> limitsMaximum l = limitsMaximum k"
    using show_int_inj by (auto simp: maximum_text_def split: option.splits dest: sym)
qed

lemma memory_text_unique:
  assumes "wasmContractCanonicalType (MemoryType l) = wasmContractCanonicalType (MemoryType k)"
  shows "l = k"
proof -
  have 1: "show_int (limitsMinimum l) @ CHR '','' # ''max='' @ maximum_text l @ '',shared='' @ (if limitsShared l then ''true'' else ''false'') @ '',page=16)''
      = show_int (limitsMinimum k) @ CHR '','' # ''max='' @ maximum_text k @ '',shared='' @ (if limitsShared k then ''true'' else ''false'') @ '',page=16)''"
    using assms by simp
  from field_unique[OF 1 show_int_name show_int_name] have 2: "limitsMinimum l = limitsMinimum k"
    "maximum_text l @ CHR '','' # ''shared='' @ (if limitsShared l then ''true'' else ''false'') @ '',page=16)''
      = maximum_text k @ CHR '','' # ''shared='' @ (if limitsShared k then ''true'' else ''false'') @ '',page=16)''"
    using show_int_inj by (auto simp: name_char_def)
  from field_unique[OF 2(2) maximum_text_name maximum_text_name] have 3: "maximum_text l = maximum_text k"
    "limitsShared l = limitsShared k"
    by (simp_all add: name_char_def split: if_splits)
  show ?thesis by (rule wasm_limits.equality) (simp_all add: 2(1) 3(2) maximum_text_inj[OF 3(1)])
qed

lemma table_text_unique:
  assumes "valid_value_type (tableElement t)" "valid_value_type (tableElement u)"
    and "wasmContractCanonicalType (TableType t) = wasmContractCanonicalType (TableType u)"
    and "limitsShared (tableLimits t) = limitsShared (tableLimits u)"
  shows "t = u"
proof -
  let ?l = "tableLimits t" and ?k = "tableLimits u"
  have 1: "tableElement t @ CHR '','' # ''min='' @ show_int (limitsMinimum ?l) @ '',max='' @ maximum_text ?l @ '')''
      = tableElement u @ CHR '','' # ''min='' @ show_int (limitsMinimum ?k) @ '',max='' @ maximum_text ?k @ '')''"
    using assms(3) by simp
  from field_unique[OF 1] value_type_chars assms(1,2) have 2: "tableElement t = tableElement u"
    "show_int (limitsMinimum ?l) @ CHR '','' # ''max='' @ maximum_text ?l @ '')''
      = show_int (limitsMinimum ?k) @ CHR '','' # ''max='' @ maximum_text ?k @ '')''"
    by (auto simp: name_char_def)
  from field_unique[OF 2(2) show_int_name show_int_name] have 3: "limitsMinimum ?l = limitsMinimum ?k"
    "maximum_text ?l @ CHR '')'' # [] = maximum_text ?k @ CHR '')'' # []"
    using show_int_inj by (auto simp: name_char_def)
  from field_unique[OF 3(2) maximum_text_name maximum_text_name] have 4: "maximum_text ?l = maximum_text ?k"
    by (simp add: name_char_def)
  have "?l = ?k" by (rule wasm_limits.equality) (simp_all add: 3(1) assms(4) maximum_text_inj[OF 4])
  then show ?thesis by (intro wasm_table.equality) (simp_all add: 2(1))
qed

lemma global_text_unique:
  assumes "valid_value_type (globalValue g)" "valid_value_type (globalValue h)"
    and "wasmContractCanonicalType (GlobalType g) = wasmContractCanonicalType (GlobalType h)"
  shows "g = h"
proof -
  have "globalValue g @ CHR '','' # (if globalMutable g then ''var'' else ''const'') @ '')''
      = globalValue h @ CHR '','' # (if globalMutable h then ''var'' else ''const'') @ '')''"
    using assms(3) by simp
  from field_unique[OF this] value_type_chars assms(1,2) show ?thesis
    by (cases g; cases h) (auto simp: name_char_def split: if_splits)
qed

text \<open>The types that the readers can return.\<close>

fun readable_type :: "external_type \<Rightarrow> bool" where
  "readable_type (FuncType f) \<longleftrightarrow> valid_func f"
| "readable_type (TableType t) \<longleftrightarrow> valid_table t"
| "readable_type (MemoryType l) \<longleftrightarrow> True"
| "readable_type (GlobalType g) \<longleftrightarrow> valid_value_type (globalValue g)"
| "readable_type (TagType f) \<longleftrightarrow> valid_func f"

text \<open>A table's \<open>shared\<close> flag is read but is not part of its text.\<close>

fun without_table_sharing :: "external_type \<Rightarrow> external_type" where
  "without_table_sharing (TableType t) = TableType (t\<lparr>tableLimits := (tableLimits t)\<lparr>limitsShared := False\<rparr>\<rparr>)"
| "without_table_sharing t = t"

lemma canonical_without_sharing: "wasmContractCanonicalType (without_table_sharing t) = wasmContractCanonicalType t"
  by (cases t) (auto simp: maximum_text_def)

lemma canonical_type_unique:
  assumes "readable_type t" "readable_type u" "wasmContractCanonicalType t = wasmContractCanonicalType u"
  shows "without_table_sharing t = without_table_sharing u"
proof (cases t)
  case (FuncType f)
  with assms show ?thesis using func_text_unique[of f _ "[]" "[]"] by (cases u) (auto simp: func_text_def)
next
  case (TagType f)
  with assms show ?thesis using func_text_unique[of f _ "'')''" "'')''"] by (cases u) (auto simp: func_text_def)
next
  case (GlobalType g)
  with assms show ?thesis using global_text_unique[of g] by (cases u) (auto simp: func_text_def)
next
  case (MemoryType l)
  with assms show ?thesis using memory_text_unique[of l] by (cases u) (auto simp: func_text_def)
next
  case (TableType a)
  then obtain b where b: "u = TableType b" using assms(3) by (cases u) (auto simp: func_text_def)
  define a' where "a' = a\<lparr>tableLimits := (tableLimits a)\<lparr>limitsShared := False\<rparr>\<rparr>"
  define b' where "b' = b\<lparr>tableLimits := (tableLimits b)\<lparr>limitsShared := False\<rparr>\<rparr>"
  have "wasmContractCanonicalType (TableType a') = wasmContractCanonicalType (TableType b')"
    using assms(3) canonical_without_sharing[of t] canonical_without_sharing[of u]
    by (simp only: TableType b without_table_sharing.simps a'_def b'_def)
  then have "a' = b'"
    using assms(1,2) TableType b by (intro table_text_unique) (simp_all add: a'_def b'_def valid_table_def)
  then show ?thesis by (simp add: TableType b a'_def b'_def)
qed

text \<open>The text that identifies an external type, and with a digest that does not collide its SHA-256, is the same
  exactly for types that are the same up to the \<open>shared\<close> flag of a table.\<close>

lemma external_type_identity:
  assumes "readable_type t" "readable_type u"
    and "sha256 (wasmContractCanonicalType t) = sha256 (wasmContractCanonicalType u)
      \<Longrightarrow> wasmContractCanonicalType t = wasmContractCanonicalType u"
  shows "identitySha256 (wasmContractExternalType sha256 t) = identitySha256 (wasmContractExternalType sha256 u)
    \<longleftrightarrow> without_table_sharing t = without_table_sharing u"
  using canonical_type_unique[OF assms(1,2)] canonical_without_sharing assms(3)
  by (auto simp: wasmContractExternalType_def Let_def) metis

end
