(* ===== verification/NativePolicy.thy ===== *)
theory NativePolicy
  imports JsValue
begin

text \<open>
  The pure part of \<open>convex-wasm-native-launch-scheduling.mjs\<close>: the classification of native command
  failures, the working-set estimates, the scheduling policy of the stages, the launch policy and the
  worker slots that a command line asks for.
\<close>

section \<open>Constants and checks\<close>

definition C_OPTIMIZATION_LEVEL_ZERO_STAGE :: string where
  "C_OPTIMIZATION_LEVEL_ZERO_STAGE = ''c-optimization-level-zero-c-bundle-member-object''"

definition WORKING_SET_HEADROOM_NUMERATOR :: int where "WORKING_SET_HEADROOM_NUMERATOR = 3"
definition WORKING_SET_HEADROOM_DENOMINATOR :: int where "WORKING_SET_HEADROOM_DENOMINATOR = 2"
definition MEBIBYTE :: int where "MEBIBYTE = 1024 * 1024"

definition AOT_MINIMUM_WORKING_SET_ESTIMATE_BYTES :: int where
  "AOT_MINIMUM_WORKING_SET_ESTIMATE_BYTES = 512 * MEBIBYTE"
definition AOT_WORKING_SET_BYTES_PER_CORE_WASM_BYTE :: int where
  "AOT_WORKING_SET_BYTES_PER_CORE_WASM_BYTE = 64"
definition GENERATED_C_MINIMUM_WORKING_SET_ESTIMATE_BYTES :: int where
  "GENERATED_C_MINIMUM_WORKING_SET_ESTIMATE_BYTES = 64 * MEBIBYTE"
definition GENERATED_C_WORKING_SET_BYTES_PER_SOURCE_BYTE :: int where
  "GENERATED_C_WORKING_SET_BYTES_PER_SOURCE_BYTE = 128"
definition GENERATED_C_FALLBACK_WORKING_SET_ESTIMATE_BYTES :: int where
  "GENERATED_C_FALLBACK_WORKING_SET_ESTIMATE_BYTES = 1024 * MEBIBYTE"
definition CRITICAL_PATH_EVENT_LIMIT :: nat where
  "CRITICAL_PATH_EVENT_LIMIT = 32768"

lemmas native_constants =
  WORKING_SET_HEADROOM_NUMERATOR_def WORKING_SET_HEADROOM_DENOMINATOR_def MEBIBYTE_def
  AOT_MINIMUM_WORKING_SET_ESTIMATE_BYTES_def AOT_WORKING_SET_BYTES_PER_CORE_WASM_BYTE_def
  GENERATED_C_MINIMUM_WORKING_SET_ESTIMATE_BYTES_def GENERATED_C_WORKING_SET_BYTES_PER_SOURCE_BYTE_def
  GENERATED_C_FALLBACK_WORKING_SET_ESTIMATE_BYTES_def

definition native_fail :: "string \<Rightarrow> 'a res" where
  "native_fail message = Inl (Error (''Convex Wasm artifact pipeline: '' @ message))"

lemma native_fail_Inr_iff [simp]: "native_fail m = Inr x \<longleftrightarrow> False"
  by (simp add: native_fail_def)

fun native_requirePositiveInteger :: "jsval \<Rightarrow> string \<Rightarrow> int res" where
  "native_requirePositiveInteger (JNum n) description =
     (if \<not> isSafeInteger n \<or> num_int n \<le> 0
      then native_fail (description @ '' must be a positive safe integer'') else Inr (num_int n))"
| "native_requirePositiveInteger _ description = native_fail (description @ '' must be a positive safe integer'')"

fun native_requireString :: "jsval \<Rightarrow> string \<Rightarrow> string res" where
  "native_requireString (JStr s) description =
     (if s = [] \<or> CHR 0x00 \<in> set s
      then native_fail (description @ '' must be a non-empty string without NUL bytes'') else Inr s)"
| "native_requireString _ description = native_fail (description @ '' must be a non-empty string without NUL bytes'')"

section \<open>Failures\<close>

text \<open>The retained diagnostic of a failed command: an exit code and signal, or a named reason.\<close>

datatype native_failure =
  CommandExit "int option" "string option" | CommandStart string | GuardTermination string | OutputValidation string

definition signal_name :: "string \<Rightarrow> bool" where
  "signal_name s \<longleftrightarrow> take 3 s = ''SIG'' \<and> 4 \<le> length s \<and> length s \<le> 15
     \<and> list_all (\<lambda>c. is_digit c \<or> (CHR ''A'' \<le> c \<and> c \<le> CHR ''Z'')) (drop 3 s)"

fun exit_code :: "jsval \<Rightarrow> int option option" where
  "exit_code JNull = Some None"
| "exit_code (JNum n) = (if isSafeInteger n then Some (Some (num_int n)) else None)"
| "exit_code _ = None"

fun exit_signal :: "jsval \<Rightarrow> string option option" where
  "exit_signal JNull = Some None"
| "exit_signal (JStr s) = (if signal_name s then Some (Some s) else None)"
| "exit_signal _ = None"

fun named_reason :: "jsval \<Rightarrow> string list \<Rightarrow> string option" where
  "named_reason (JStr s) names = (if s \<in> set names then Some s else None)"
| "named_reason _ names = None"

text \<open>The constructor of \<open>ConvexWasmNativeCommandFailure\<close>: what it retains of a diagnostic.\<close>

definition classify_native_failure :: "jsval \<Rightarrow> native_failure res" where
  "classify_native_failure diagnostic =
    bindR (get_prop ''kind'' diagnostic) (\<lambda>kind.
    bindR (get_prop ''code'' diagnostic) (\<lambda>code. bindR (get_prop ''signal'' diagnostic) (\<lambda>signal.
    bindR (get_prop ''reason'' diagnostic) (\<lambda>reason. bindR (get_prop ''terminationKind'' diagnostic) (\<lambda>termination.
    if kind = JStr ''command-exit'' then
      (case (exit_code code, exit_signal signal) of
         (Some c, Some s) \<Rightarrow> Inr (CommandExit c s)
       | _ \<Rightarrow> native_fail ''native command failure has an invalid exit code or signal'')
    else case (if kind = JStr ''command-start''
               then map_option CommandStart (named_reason reason [''EACCES'', ''ENOENT'', ''ENOTDIR'', ''other''])
               else if kind = JStr ''guard-termination''
               then map_option GuardTermination (named_reason termination
                 [''disk'', ''disk-growth'', ''resource-monitor-error'', ''output'', ''timeout'', ''interrupted''])
               else if kind = JStr ''output-validation''
               then map_option OutputValidation (named_reason reason [''timing-unreadable'', ''timing-malformed'', ''timing-incomplete''])
               else None) of
        Some failure \<Rightarrow> Inr failure
      | None \<Rightarrow> native_fail ''native command failure has an unsupported classification'')))))"

section \<open>Estimates\<close>

definition ceil_div :: "int \<Rightarrow> int \<Rightarrow> int" where
  "ceil_div a b = - ((- a) div b)"

definition workingSetEstimateWithHeadroomBytes :: "int \<Rightarrow> int" where
  "workingSetEstimateWithHeadroomBytes estimateBytes =
     ceil_div (estimateBytes * WORKING_SET_HEADROOM_NUMERATOR) WORKING_SET_HEADROOM_DENOMINATOR"

definition convexWasmNativeAotWorkingSetEstimateBytes :: "jsval \<Rightarrow> int res" where
  "convexWasmNativeAotWorkingSetEstimateBytes coreWasmBytes =
     bindR (native_requirePositiveInteger coreWasmBytes ''Core Wasm byte size'') (\<lambda>n.
     if max_safe_integer div AOT_WORKING_SET_BYTES_PER_CORE_WASM_BYTE < n
     then native_fail ''Core Wasm byte size produces an unsafe AOT working-set estimate''
     else Inr (max AOT_MINIMUM_WORKING_SET_ESTIMATE_BYTES (n * AOT_WORKING_SET_BYTES_PER_CORE_WASM_BYTE)))"

definition convexWasmNativeGeneratedCWorkingSetEstimateBytes :: "jsval \<Rightarrow> int res" where
  "convexWasmNativeGeneratedCWorkingSetEstimateBytes generatedJavaScriptBytes =
     bindR (native_requirePositiveInteger generatedJavaScriptBytes ''generated JavaScript byte size'') (\<lambda>n.
     if max_safe_integer div (GENERATED_C_WORKING_SET_BYTES_PER_SOURCE_BYTE * WORKING_SET_HEADROOM_NUMERATOR) < n
     then native_fail ''generated JavaScript byte size produces an unsafe generated-C working-set estimate''
     else Inr (workingSetEstimateWithHeadroomBytes
       (max GENERATED_C_MINIMUM_WORKING_SET_ESTIMATE_BYTES (n * GENERATED_C_WORKING_SET_BYTES_PER_SOURCE_BYTE))))"

section \<open>Stages\<close>

record stage_policy =
  schedulingClass :: string
  stageWorkingSetEstimateBytes :: int

definition stage :: "string \<Rightarrow> string \<Rightarrow> int \<Rightarrow> string \<times> stage_policy" where
  "stage name cls mebibytes = (name, \<lparr>schedulingClass = cls, stageWorkingSetEstimateBytes = mebibytes * MEBIBYTE\<rparr>)"

definition nativePhaseSchedulingStages :: "(string \<times> stage_policy) list" where
  "nativePhaseSchedulingStages =
    [stage ''capability-bridge-generated-c'' ''generated-c'' 1024,
     stage ''capability-bridge-object'' ''object'' 512,
     stage ''cohort-selector-object'' ''object'' 256,
     stage ''console-formatter-generated-c'' ''generated-c'' 1024,
     stage ''console-formatter-object'' ''object'' 256,
     stage ''core-wasm'' ''link'' 1024,
     stage ''export-object'' ''object'' 2048,
     stage ''module-graph-application-pic-object'' ''object'' 512,
     stage ''static-hermes-runtime-prelude-pch'' ''object'' 512,
     stage ''module-graph-support-object'' ''object'' 512,
     stage ''generated-c'' ''generated-c'' 1024,
     stage C_OPTIMIZATION_LEVEL_ZERO_STAGE ''c-optimization-level-zero-object'' 1024,
     stage ''runtime-main-object'' ''object'' 256,
     stage ''wasmtime-aot'' ''aot'' 512,
     stage ''core-wasm-normalization'' ''core-wasm-normalization'' 1024,
     stage ''module-graph-common-wasmtime-aot'' ''module-graph-common-wasmtime-aot'' 512,
     stage ''module-graph-shared-wasmtime-aot'' ''module-graph-shared-wasmtime-aot'' 512,
     stage ''module-graph-leaf-wasmtime-aot'' ''module-graph-leaf-wasmtime-aot'' 512]"

text \<open>A stage name that the table lacks but every object inherits reads a property of \<open>Object.prototype\<close>.\<close>

definition object_prototype_members :: "string list" where
  "object_prototype_members =
    [''constructor'', ''__defineGetter__'', ''__defineSetter__'', ''hasOwnProperty'', ''__lookupGetter__'',
     ''__lookupSetter__'', ''isPrototypeOf'', ''propertyIsEnumerable'', ''toString'', ''valueOf'', ''__proto__'',
     ''toLocaleString'']"

definition ends_with :: "string \<Rightarrow> string \<Rightarrow> bool" where
  "ends_with s suffix \<longleftrightarrow> length suffix \<le> length s \<and> drop (length s - length suffix) s = suffix"

definition defaultStageWorkingSetEstimateBytes :: "stage_policy \<Rightarrow> int" where
  "defaultStageWorkingSetEstimateBytes p =
     (if schedulingClass p = ''generated-c'' then GENERATED_C_FALLBACK_WORKING_SET_ESTIMATE_BYTES
      else stageWorkingSetEstimateBytes p)"

definition effectiveNativePhaseWorkerSlots :: "stage_policy \<Rightarrow> int \<Rightarrow> int option \<Rightarrow> int" where
  "effectiveNativePhaseWorkerSlots p requestedWorkerSlots input =
     (case input of None \<Rightarrow> requestedWorkerSlots
      | Some estimate \<Rightarrow>
        if \<not> ends_with (schedulingClass p) ''aot'' then requestedWorkerSlots
        else min requestedWorkerSlots (max 1 (ceil_div estimate AOT_MINIMUM_WORKING_SET_ESTIMATE_BYTES)))"

section \<open>Launch policy and command lines\<close>

record launch_policy =
  aggregateMemoryMaxBytes :: int
  aotWorkers :: int
  jobs :: int

definition normalizeConvexWasmNativeLaunchPolicy :: "jsval \<Rightarrow> launch_policy res" where
  "normalizeConvexWasmNativeLaunchPolicy launchPolicy =
     bindR (requireExactPlainObject launchPolicy [''aggregateMemoryMaxBytes'', ''aotWorkers'', ''jobs''] ''native launch policy'') (\<lambda>kvs.
     bindR (native_requirePositiveInteger (own_prop kvs ''aggregateMemoryMaxBytes'') ''native launch aggregate memory budget'') (\<lambda>memory.
     bindR (native_requirePositiveInteger (own_prop kvs ''aotWorkers'') ''native launch AOT workers'') (\<lambda>workers.
     bindR (native_requirePositiveInteger (own_prop kvs ''jobs'') ''native launch jobs'') (\<lambda>j.
     if j < workers then native_fail ''native launch AOT workers must not exceed jobs''
     else Inr \<lparr>aggregateMemoryMaxBytes = memory, aotWorkers = workers, jobs = j\<rparr>))))"

fun string_elements :: "jsval list \<Rightarrow> string list option" where
  "string_elements [] = Some []"
| "string_elements (JStr s # vs) = map_option ((#) s) (string_elements vs)"
| "string_elements (v # vs) = None"

text \<open>\<open>command?.args\<close> is \<open>undefined\<close> for a missing command.\<close>

definition command_args :: "jsval \<Rightarrow> string list res" where
  "command_args command =
     (case (if command = JUndefined \<or> command = JNull then Inr JUndefined else get_prop ''args'' command) of
        Inr (JArr vs) \<Rightarrow>
          (case string_elements vs of Some args \<Rightarrow> Inr args
           | None \<Rightarrow> native_fail ''native command arguments must be an array of strings'')
      | _ \<Rightarrow> native_fail ''native command arguments must be an array of strings'')"

text \<open>\<open>args[i] === text\<close>, also outside the array.\<close>

definition arg_is :: "string list \<Rightarrow> nat \<Rightarrow> string \<Rightarrow> bool" where
  "arg_is args i s \<longleftrightarrow> i < length args \<and> args ! i = s"

definition packages_with_aot :: "string list \<Rightarrow> bool" where
  "packages_with_aot args \<longleftrightarrow> arg_is args 0 ''--package'' \<and> \<not> (arg_is args 2 ''--'' \<and> arg_is args 3 ''--normalize-core'')"

definition convexWasmNativeCommandWorkerSlots :: "jsval \<Rightarrow> jsval \<Rightarrow> int res" where
  "convexWasmNativeCommandWorkerSlots command launchPolicy =
     bindR (command_args command) (\<lambda>args.
     bindR (normalizeConvexWasmNativeLaunchPolicy launchPolicy) (\<lambda>policy.
     Inr (if packages_with_aot args then aotWorkers policy else 1)))"

text \<open>\<open>store\<close> is what \<open>nativeCommandWorkerSlots.getStore()\<close> returns: the slots of the scheduled
  operation that runs the command, if one does.\<close>

definition convexWasmNativeCommandArguments :: "int option \<Rightarrow> jsval \<Rightarrow> jsval \<Rightarrow> string list res" where
  "convexWasmNativeCommandArguments store command launchPolicy =
     bindR (convexWasmNativeCommandWorkerSlots command launchPolicy) (\<lambda>configuredWorkerSlots.
     bindR (command_args command) (\<lambda>args.
     if \<not> packages_with_aot args then Inr args
     else let operationalWorkerSlots = (case store of None \<Rightarrow> configuredWorkerSlots | Some n \<Rightarrow> n) in
       if configuredWorkerSlots < operationalWorkerSlots
       then native_fail (''native command worker slots '' @ show_int operationalWorkerSlots
              @ '' exceed configured AOT workers '' @ show_int configuredWorkerSlots)
       else Inr (args @ [''--parallel-compilation-workers'', show_int operationalWorkerSlots])))"

section \<open>Estimates are safe\<close>

lemma ceil_div_le_iff:
  fixes a b c :: int
  assumes "0 < b"
  shows "ceil_div a b \<le> c \<longleftrightarrow> a \<le> b * c"
proof -
  define q where "q = (- a) div b"
  have a: "- a = b * q + (- a) mod b" "0 \<le> (- a) mod b" "(- a) mod b < b" using assms by (simp_all add: q_def)
  have "- c \<le> q \<longleftrightarrow> a \<le> b * c"
  proof
    assume "- c \<le> q"
    then have "b * (- c) \<le> b * q" by (rule mult_left_mono) (use assms in simp)
    then show "a \<le> b * c" using a by simp
  next
    assume "a \<le> b * c"
    show "- c \<le> q"
    proof (rule ccontr)
      assume "\<not> - c \<le> q"
      then have "b * (q + 1) \<le> b * (- c)" using assms by (intro mult_left_mono) auto
      then show False using a \<open>a \<le> b * c\<close> by (simp add: distrib_left)
    qed
  qed
  then show ?thesis by (auto simp: ceil_div_def q_def)
qed

lemma effective_slots_bounds:
  "1 \<le> n \<Longrightarrow> 1 \<le> effectiveNativePhaseWorkerSlots p n input \<and> effectiveNativePhaseWorkerSlots p n input \<le> n"
  by (simp add: effectiveNativePhaseWorkerSlots_def split: option.split)

lemma native_requirePositiveInteger_Inr:
  "native_requirePositiveInteger v d = Inr n \<Longrightarrow> 0 < n \<and> n \<le> max_safe_integer"
  by (induction v d rule: native_requirePositiveInteger.induct)
    (auto split: if_splits elim: isSafeInteger.elims)

text \<open>Whatever size they are given, the two estimates either refuse it or return a safe integer that no
  intermediate product exceeds: the AOT estimate is 64 bytes per byte of Core Wasm, at least 512 MiB, and
  the generated-C estimate is one and a half times 128 bytes per source byte, rounded up, at least 96 MiB.\<close>

lemma working_set_estimates_safe:
  "(case convexWasmNativeAotWorkingSetEstimateBytes v of Inl _ \<Rightarrow> True
    | Inr e \<Rightarrow> (\<exists>n > 0. e = max (512 * 1048576) (64 * n) \<and> e \<le> max_safe_integer))
   \<and> (case convexWasmNativeGeneratedCWorkingSetEstimateBytes v of Inl _ \<Rightarrow> True
    | Inr e \<Rightarrow> (\<exists>n > 0. let m = max (64 * 1048576) (128 * n)
        in m * 3 \<le> max_safe_integer \<and> 2 * e \<in> {m * 3, m * 3 + 1} \<and> e \<le> max_safe_integer))"
proof -
  have headroom: "2 * workingSetEstimateWithHeadroomBytes m \<in> {m * 3, m * 3 + 1}" for m
    by (simp add: workingSetEstimateWithHeadroomBytes_def ceil_div_def native_constants) presburger
  show ?thesis
  proof
    show "case convexWasmNativeAotWorkingSetEstimateBytes v of Inl _ \<Rightarrow> True
      | Inr e \<Rightarrow> (\<exists>n > 0. e = max (512 * 1048576) (64 * n) \<and> e \<le> max_safe_integer)"
      by (auto simp: convexWasmNativeAotWorkingSetEstimateBytes_def native_constants bindR_Inr_iff max_safe_integer_def
          split: sum.split if_splits dest!: native_requirePositiveInteger_Inr)
    show "case convexWasmNativeGeneratedCWorkingSetEstimateBytes v of Inl _ \<Rightarrow> True
      | Inr e \<Rightarrow> (\<exists>n > 0. let m = max (64 * 1048576) (128 * n)
        in m * 3 \<le> max_safe_integer \<and> 2 * e \<in> {m * 3, m * 3 + 1} \<and> e \<le> max_safe_integer)"
    proof (cases "convexWasmNativeGeneratedCWorkingSetEstimateBytes v")
      case (Inr e)
      then obtain n where n: "0 < n" "n \<le> max_safe_integer div 384" "e = workingSetEstimateWithHeadroomBytes (max (64 * 1048576) (128 * n))"
        by (auto simp: convexWasmNativeGeneratedCWorkingSetEstimateBytes_def native_constants bindR_Inr_iff mult.commute
            split: if_splits dest!: native_requirePositiveInteger_Inr)
      define m where "m = max (64 * 1048576) (128 * n)"
      have "m * 3 \<le> max_safe_integer" using n(2) by (simp add: m_def max_safe_integer_def)
      moreover have "e = workingSetEstimateWithHeadroomBytes m" by (simp only: n(3) m_def)
      then have "e \<le> max_safe_integer" using headroom[of m] calculation by (auto simp: max_safe_integer_def)
      moreover have "2 * e \<in> {m * 3, m * 3 + 1}" using headroom[of m] by (simp only: n(3) m_def)
      ultimately show ?thesis using Inr n(1) unfolding Let_def m_def by (auto intro!: exI[of _ n])
    qed simp
  qed
qed

end
