(* ===== verification/JsDouble.thy ===== *)
theory JsDouble
  imports Complex_Main "HOL-Library.Log_Nat"
begin

text \<open>
  The arithmetic of JavaScript numbers that are not integers: a double is the rational it stands for, and
  every operation rounds its exact result to the nearest double with a 53-bit significand, ties to even.
  Results beyond the largest double (infinities) and quotients in the subnormal range are left out; a sum
  of doubles in the subnormal range is exact, here as there. The lemmas bound the error of a computation
  by the number of its roundings.
\<close>

section \<open>Rounding\<close>

definition round_half_even :: "rat \<Rightarrow> int" where
  "round_half_even q = (let f = \<lfloor>q\<rfloor>; d = q - of_int f in
     if d < 1 / 2 then f else if 1 / 2 < d then f + 1 else if even f then f else f + 1)"

text \<open>The exponent \<open>e\<close> with \<open>2^e \<le> q < 2^(e+1)\<close> of a positive \<open>q\<close>.\<close>

definition binade :: "rat \<Rightarrow> int" where
  "binade q = (if 1 \<le> q then bitlen \<lfloor>q\<rfloor> - 1 else - bitlen (\<lceil>1 / q\<rceil> - 1))"

definition power_two :: "int \<Rightarrow> rat" where
  "power_two n = (if 0 \<le> n then 2 ^ nat n else 1 / 2 ^ nat (- n))"

text \<open>The nearest double of a nonnegative rational in the normal range, ties going to the even one.\<close>

definition double_of :: "rat \<Rightarrow> rat" where
  "double_of q = (let ulp = power_two (binade q - 52) in of_int (round_half_even (q / ulp)) * ulp)"

definition js_div :: "int \<Rightarrow> int \<Rightarrow> rat" where
  "js_div a b = double_of (of_int a / of_int b)"

definition js_round :: "rat \<Rightarrow> rat" where
  "js_round q = (if q < 0 then - double_of (- q) else double_of q)"

definition js_add :: "rat \<Rightarrow> rat \<Rightarrow> rat" where
  "js_add a b = js_round (a + b)"

definition js_mul :: "rat \<Rightarrow> rat \<Rightarrow> rat" where
  "js_mul a b = js_round (a * b)"

section \<open>The error of one rounding\<close>

lemma round_half_even_error: "\<bar>of_int (round_half_even q) - q\<bar> \<le> 1 / 2"
proof -
  have "of_int \<lfloor>q\<rfloor> \<le> q" "q < of_int \<lfloor>q\<rfloor> + 1" by linarith+
  then show ?thesis unfolding round_half_even_def Let_def by (auto simp: abs_le_iff split: if_splits)
qed

lemma power_two_pos: "0 < power_two n"
  by (simp add: power_two_def)

lemma power_two_add: "power_two (m + n) = power_two m * power_two n"
proof -
  have p: "power_two k = 2 powi k" for k by (simp add: power_two_def power_int_def field_simps)
  show ?thesis unfolding p by (rule power_int_add) simp
qed

lemma binade_lower:
  assumes "0 < q"
  shows "power_two (binade q) \<le> q"
proof (cases "1 \<le> q")
  case True
  then have n: "0 < \<lfloor>q\<rfloor>" by (simp add: le_floor_iff)
  have b: "2 ^ nat (bitlen \<lfloor>q\<rfloor> - 1) \<le> \<lfloor>q\<rfloor>" "0 \<le> bitlen \<lfloor>q\<rfloor> - 1" using bitlen_bounds[OF n] n by (auto simp: bitlen_def floorlog_def)
  have "power_two (binade q) = of_int (2 ^ nat (bitlen \<lfloor>q\<rfloor> - 1))" using True b(2) by (simp add: power_two_def binade_def)
  also have "\<dots> \<le> of_int \<lfloor>q\<rfloor>" using b(1) by (simp only: of_int_le_iff)
  finally show ?thesis by linarith
next
  case False
  define m where "m = \<lceil>1 / q\<rceil> - 1"
  have "1 < 1 / q" using False assms by simp
  then have m: "0 < m" by (simp add: m_def less_ceiling_iff)
  have "m < 2 ^ nat (bitlen m)" using bitlen_bounds[OF m] by simp
  then have "\<lceil>1 / q\<rceil> \<le> 2 ^ nat (bitlen m)" by (simp add: m_def)
  then have "1 / q \<le> of_int (2 ^ nat (bitlen m))" by (simp add: ceiling_le_iff)
  then have "1 / 2 ^ nat (bitlen m) \<le> q" using assms by (simp add: field_simps)
  moreover have "power_two (binade q) = 1 / 2 ^ nat (bitlen m)"
    using False bitlen_nonneg[of m] by (auto simp: power_two_def binade_def m_def)
  ultimately show ?thesis by simp
qed

text \<open>Half a unit in the last place.\<close>

definition half_ulp :: rat where "half_ulp = 1 / 2 ^ 53"

lemma double_error:
  assumes "0 < q"
  shows "\<bar>double_of q - q\<bar> \<le> half_ulp * q"
proof -
  define u where "u = power_two (binade q - 52)"
  have u: "0 < u" by (simp add: u_def power_two_pos)
  have "\<bar>double_of q - q\<bar> = u * \<bar>of_int (round_half_even (q / u)) - q / u\<bar>"
  proof -
    have "double_of q - q = u * (of_int (round_half_even (q / u)) - q / u)"
      using u by (simp add: double_of_def Let_def u_def[symmetric] algebra_simps)
    then show ?thesis using u by (simp add: abs_mult)
  qed
  also have "\<dots> \<le> u * (1 / 2)" by (rule mult_left_mono[OF round_half_even_error]) (use u in simp)
  also have "u = power_two (binade q) / 2 ^ 52"
    using power_two_add[of "binade q" "- 52"] by (simp add: u_def power_two_def[of "- 52"])
  also have "power_two (binade q) / 2 ^ 52 * (1 / 2) \<le> half_ulp * q"
    using binade_lower[OF assms] by (simp add: half_ulp_def)
  finally show ?thesis .
qed

lemma js_round_zero [simp]: "js_round 0 = 0"
  by (simp add: js_round_def double_of_def round_half_even_def Let_def)

section \<open>The error of several roundings\<close>

text \<open>The computed \<open>x\<close> differs from the exact \<open>y\<close> by the relative error of at most \<open>n\<close> roundings.\<close>

definition rounded :: "nat \<Rightarrow> rat \<Rightarrow> rat \<Rightarrow> bool" where
  "rounded n x y \<longleftrightarrow> 0 \<le> y \<and> (1 - half_ulp) ^ n * y \<le> x \<and> x \<le> (1 + half_ulp) ^ n * y"

lemma half_ulp_range: "0 < half_ulp" "half_ulp < 1"
  by (simp_all add: half_ulp_def)

lemma rounded_exact: "0 \<le> y \<Longrightarrow> rounded 0 y y"
  by (simp add: rounded_def)

lemma rounded_nonneg: "rounded n x y \<Longrightarrow> 0 \<le> x"
  using half_ulp_range by (auto simp: rounded_def intro: order_trans[rotated])

lemma rounded_mono:
  assumes "rounded n x y" and "n \<le> m"
  shows "rounded m x y"
proof -
  have y: "0 \<le> y" using assms(1) by (simp add: rounded_def)
  have "(1 - half_ulp) ^ m \<le> (1 - half_ulp) ^ n" "(1 + half_ulp) ^ n \<le> (1 + half_ulp) ^ m"
    using assms(2) half_ulp_range by (auto intro: power_decreasing power_increasing)
  then have "(1 - half_ulp) ^ m * y \<le> (1 - half_ulp) ^ n * y" "(1 + half_ulp) ^ n * y \<le> (1 + half_ulp) ^ m * y"
    using y by (auto intro: mult_right_mono)
  then show ?thesis using assms(1) by (auto simp: rounded_def)
qed

lemma rounded_add: "rounded n x y \<Longrightarrow> rounded n x' y' \<Longrightarrow> rounded n (x + x') (y + y')"
  by (auto simp: rounded_def distrib_left)

lemma rounded_scale:
  assumes "rounded n x y" and "0 \<le> c"
  shows "rounded n (x * c) (y * c)"
proof -
  have "(1 - half_ulp) ^ n * y * c \<le> x * c" "x * c \<le> (1 + half_ulp) ^ n * y * c" "0 \<le> y * c"
    using assms by (auto simp: rounded_def intro: mult_right_mono)
  then show ?thesis by (simp add: rounded_def mult.assoc)
qed

lemma rounded_round:
  assumes "rounded n x y"
  shows "rounded (Suc n) (js_round x) y"
proof (cases "x = 0")
  case True
  then show ?thesis using rounded_mono[OF assms, of "Suc n"] by simp
next
  case False
  then have x: "0 < x" using rounded_nonneg[OF assms] by simp
  have r: "js_round x = double_of x" using x by (simp add: js_round_def)
  have "(1 - half_ulp) * x \<le> js_round x" "js_round x \<le> (1 + half_ulp) * x"
    using double_error[OF x] unfolding r by (auto simp: abs_le_iff algebra_simps)
  moreover have "(1 - half_ulp) * ((1 - half_ulp) ^ n * y) \<le> (1 - half_ulp) * x" "(1 + half_ulp) * x \<le> (1 + half_ulp) * ((1 + half_ulp) ^ n * y)"
    using assms half_ulp_range by (auto simp: rounded_def intro: mult_left_mono)
  ultimately show ?thesis using assms by (auto simp: rounded_def mult.assoc)
qed

lemma js_round_pos: "0 < js_round q \<longleftrightarrow> 0 < q"
proof -
  have pos: "0 < double_of x" if "0 < x" for x
  proof -
    have "(1 - half_ulp) * x \<le> double_of x" using double_error[OF that] by (auto simp: abs_le_iff algebra_simps)
    moreover have "0 < (1 - half_ulp) * x" using that half_ulp_range by simp
    ultimately show ?thesis by linarith
  qed
  show ?thesis
  proof (cases "q < 0")
    case True
    then show ?thesis using pos[of "- q"] by (simp add: js_round_def)
  next
    case False
    then show ?thesis using pos[of q] js_round_zero by (cases "q = 0") (auto simp: js_round_def)
  qed
qed

end
