(* ===== verification/NativeScheduler.thy ===== *)
theory NativeScheduler
  imports NativePolicy JsDouble
begin

text \<open>
  The native phase scheduler (\<open>createConvexWasmNativePhaseScheduler\<close>): its closure variables as one
  state record, its inner functions as functions on that state, and its asynchronous life as events.

  An operation that the scheduler starts is recorded in \<open>startedOperations\<close> and runs until a settle
  event delivers its outcome; operations do not call the scheduler while it starts them. The clock is
  the sequence of values that the successive \<open>process.hrtime.bigint()\<close> calls return, in nanoseconds.
  Milliseconds and resource amounts are doubles, as rationals on which every operation rounds (\<open>JsDouble\<close>).
  Entries carry an identity, which stands for the identity of the JavaScript object.
\<close>

section \<open>Resource timing\<close>

datatype native_error = PlainError js_error | NativeCommandFailure string native_failure

text \<open>What an operation may resolve to, field by field as far as the scheduler reads it.\<close>

datatype timing_number = Finite rat | NonFinite | NotANumber

datatype counter_report = NoCounters | InvalidCounters | Counters "string \<Rightarrow> timing_number"

datatype timing_value = NoTimingObject | TimingObject "string \<Rightarrow> timing_number" counter_report

record native_timing =
  maxRssKiB :: rat
  systemCpuMilliseconds :: rat
  userCpuMilliseconds :: rat
  wallMilliseconds :: rat
  cacheCounters :: "int list option"

definition incrementalCacheCounterFields :: "string list" where
  "incrementalCacheCounterFields = [''hits'', ''misses'', ''inserts'', ''evictions'', ''rejectedRecords'', ''oversizedValues'']"

definition timing_failure :: "string \<Rightarrow> native_error + 'a" where
  "timing_failure message =
     Inl (NativeCommandFailure (''Convex Wasm artifact pipeline: '' @ message) (OutputValidation ''timing-incomplete''))"

fun timing_amount :: "timing_number \<Rightarrow> rat option" where
  "timing_amount (Finite q) = (if q < 0 then None else Some q)"
| "timing_amount _ = None"

fun counter_amount :: "timing_number \<Rightarrow> int option" where
  "counter_amount (Finite q) =
     (if of_int (floor q) = q \<and> 0 \<le> q \<and> floor q \<le> max_safe_integer then Some (floor q) else None)"
| "counter_amount _ = None"

fun all_amounts :: "(string \<Rightarrow> timing_number) \<Rightarrow> string list \<Rightarrow> int list option" where
  "all_amounts f [] = Some []"
| "all_amounts f (k # ks) =
     (case counter_amount (f k) of None \<Rightarrow> None | Some n \<Rightarrow> map_option ((#) n) (all_amounts f ks))"

fun require_amounts :: "string \<Rightarrow> (string \<Rightarrow> timing_number) \<Rightarrow> string list \<Rightarrow> native_error + rat list" where
  "require_amounts stageName f [] = Inr []"
| "require_amounts stageName f (k # ks) =
     (case timing_amount (f k) of
        None \<Rightarrow> timing_failure (stageName @ '' native phase timing '' @ k @ '' must be a nonnegative finite number'')
      | Some q \<Rightarrow> (case require_amounts stageName f ks of Inl e \<Rightarrow> Inl e | Inr qs \<Rightarrow> Inr (q # qs)))"

definition timing_fields :: "string list" where
  "timing_fields = [''maxRssKiB'', ''systemCpuMilliseconds'', ''userCpuMilliseconds'', ''wallMilliseconds'']"

fun requireNativePhaseTiming :: "timing_value \<Rightarrow> string \<Rightarrow> native_error + native_timing" where
  "requireNativePhaseTiming NoTimingObject stageName =
     timing_failure (stageName @ '' native phase did not return resource timing'')"
| "requireNativePhaseTiming (TimingObject f report) stageName =
     (case require_amounts stageName f timing_fields of
        Inl e \<Rightarrow> Inl e
      | Inr qs \<Rightarrow>
         (let timing = (\<lambda>counters. \<lparr>maxRssKiB = qs ! 0, systemCpuMilliseconds = qs ! 1, userCpuMilliseconds = qs ! 2,
                 wallMilliseconds = qs ! 3, cacheCounters = counters\<rparr>) in
          case (case report of NoCounters \<Rightarrow> Some None | InvalidCounters \<Rightarrow> None
                | Counters g \<Rightarrow> map_option Some (all_amounts g incrementalCacheCounterFields)) of
            None \<Rightarrow> timing_failure (stageName @ '' incremental cache counters must be nonnegative safe integers'')
          | Some counters \<Rightarrow> Inr (timing counters)))"

section \<open>State\<close>

record phase_stat =
  statName :: string
  statClass :: string
  statActiveCount :: int
  statActiveWorkingSet :: int
  statCompletedCount :: int
  statFailedCount :: int
  statMaximumActiveCount :: int
  statMaximumWorkingSet :: int
  statMaximumQueuedCount :: int
  statMaximumQueueWait :: rat
  statQueuedCount :: int
  statRequestCount :: int
  statReportedCommands :: int
  statCounters :: "int list"
  statMaximumRss :: rat
  statSystemCpu :: rat
  statUserCpu :: rat
  statWall :: rat
  statTotalQueueWait :: rat

definition nativePhaseSchedulingStat :: "string \<Rightarrow> string \<Rightarrow> phase_stat" where
  "nativePhaseSchedulingStat name cls =
     \<lparr>statName = name, statClass = cls, statActiveCount = 0, statActiveWorkingSet = 0, statCompletedCount = 0,
      statFailedCount = 0, statMaximumActiveCount = 0, statMaximumWorkingSet = 0, statMaximumQueuedCount = 0,
      statMaximumQueueWait = 0, statQueuedCount = 0, statRequestCount = 0, statReportedCommands = 0,
      statCounters = map (\<lambda>_. 0) incrementalCacheCounterFields, statMaximumRss = 0, statSystemCpu = 0,
      statUserCpu = 0, statWall = 0, statTotalQueueWait = 0\<rparr>"

record entry =
  entryId :: nat
  entryStage :: string
  entryClass :: string
  entryClosesAdmission :: bool
  entryQueuedAt :: int
  entryAdmission :: int
  entrySlots :: int
  entryWorkingSet :: int

record path_interval =
  intervalCommands :: int
  intervalAdmission :: int
  intervalSlots :: int
  intervalWorkingSet :: int
  intervalQueueState :: string
  intervalQueued :: int
  intervalEndedAt :: rat
  intervalStartedAt :: rat

datatype path_event =
    NativePhaseEvent "native_failure option" entry string rat rat rat
  | ExternalActivityEvent string "string option" rat string string rat

record critical_path =
  pathStartedAt :: int
  pathLastStateAt :: int
  pathEvents :: "path_event list"
  pathDroppedEvents :: int
  pathIntervals :: "path_interval list"
  pathDroppedIntervals :: int
  pathActiveCommandMs :: rat
  pathActiveSlotMs :: rat
  pathIdleMs :: rat
  pathQueuedStateMs :: "(string \<times> rat) list"

datatype settlement = Resolved native_timing | Rejected native_error

record activity =
  activityName :: string
  activityStage :: string
  activityStartedAt :: int
  activityFinished :: bool

record scheduler =
  launchPolicy :: launch_policy
  activeCount :: int
  activeAdmission :: int
  activeWorkerSlots :: int
  activeWorkingSet :: int
  completedCount :: int
  failedCount :: int
  maximumActiveCount :: int
  maximumActiveWorkerSlots :: int
  maximumEstimatedWorkingSet :: int
  maximumQueuedCount :: int
  maximumQueueWait :: rat
  requestCount :: int
  schedulingFailure :: "native_error option"
  totalQueueWait :: rat
  criticalPath :: critical_path
  classStats :: "(string \<times> phase_stat) list"
  stageStats :: "(string \<times> phase_stat) list"
  idleWaiters :: "nat list"
  queue :: "entry list"
  backfilledHead :: "nat option"
  backfilledWorkerSlots :: int
  runningOperations :: "(entry \<times> int) list"
  startedOperations :: "entry list"
  settledPromises :: "(nat \<times> settlement) list"
  resolvedIdle :: "nat list"
  activities :: "activity list"
  nextEntry :: nat
  nextWaiter :: nat
  clock :: "nat \<Rightarrow> int"
  clockReads :: nat

definition hrtime :: "scheduler \<Rightarrow> int \<times> scheduler" where
  "hrtime s = (clock s (clockReads s), s\<lparr>clockReads := Suc (clockReads s)\<rparr>)"

text \<open>\<open>Number(nanoseconds) / 1_000_000\<close>: the conversion of the integer and the division both round.\<close>

definition milliseconds :: "int \<Rightarrow> rat" where
  "milliseconds nanoseconds = js_round (js_round (of_int nanoseconds) / 1000000)"

definition queue_state_names :: "string list" where
  "queue_state_names = [''fairness'', ''memory'', ''none'', ''runnable'', ''worker-slots'', ''worker-slots-and-memory'']"

definition createConvexWasmNativePhaseScheduler :: "(nat \<Rightarrow> int) \<Rightarrow> jsval \<Rightarrow> scheduler res" where
  "createConvexWasmNativePhaseScheduler time policy =
     bindR (normalizeConvexWasmNativeLaunchPolicy policy) (\<lambda>normalizedLaunchPolicy. Inr
       \<lparr>launchPolicy = normalizedLaunchPolicy, activeCount = 0, activeAdmission = 0, activeWorkerSlots = 0,
        activeWorkingSet = 0, completedCount = 0, failedCount = 0, maximumActiveCount = 0,
        maximumActiveWorkerSlots = 0, maximumEstimatedWorkingSet = 0, maximumQueuedCount = 0, maximumQueueWait = 0,
        requestCount = 0, schedulingFailure = None, totalQueueWait = 0,
        criticalPath = \<lparr>pathStartedAt = time 0, pathLastStateAt = time 0, pathEvents = [], pathDroppedEvents = 0,
          pathIntervals = [], pathDroppedIntervals = 0, pathActiveCommandMs = 0, pathActiveSlotMs = 0, pathIdleMs = 0,
          pathQueuedStateMs = map (\<lambda>k. (k, 0)) queue_state_names\<rparr>,
        classStats = [], stageStats = [], idleWaiters = [], queue = [], backfilledHead = None,
        backfilledWorkerSlots = 0, runningOperations = [], startedOperations = [], settledPromises = [],
        resolvedIdle = [], activities = [], nextEntry = 0, nextWaiter = 0, clock = time, clockReads = 1\<rparr>)"

section \<open>Admission\<close>

definition canAdmit :: "scheduler \<Rightarrow> entry \<Rightarrow> bool" where
  "canAdmit s e \<longleftrightarrow> activeWorkerSlots s + entrySlots e \<le> jobs (launchPolicy s)
     \<and> activeAdmission s + entryAdmission e \<le> aggregateMemoryMaxBytes (launchPolicy s)"

definition queueState :: "scheduler \<Rightarrow> string res" where
  "queueState s =
     (case queue s of [] \<Rightarrow> Inr ''none''
      | head # rest \<Rightarrow>
        if canAdmit s head then Inr ''runnable''
        else let remaining = jobs (launchPolicy s) - 1
                 - (if backfilledHead s = Some (entryId head) then backfilledWorkerSlots s else 0) in
          if \<exists>e \<in> set rest. canAdmit s e \<and> remaining < entrySlots e then Inr ''fairness''
          else let slotsBlocked = jobs (launchPolicy s) < activeWorkerSlots s + entrySlots head;
                   memoryBlocked = aggregateMemoryMaxBytes (launchPolicy s) < activeAdmission s + entryAdmission head in
            if slotsBlocked \<and> memoryBlocked then Inr ''worker-slots-and-memory''
            else if slotsBlocked then Inr ''worker-slots''
            else if memoryBlocked then Inr ''memory''
            else native_fail ''native-phase scheduler retained a queue entry without an admission state'')"

fun take_first :: "('a \<Rightarrow> bool) \<Rightarrow> 'a list \<Rightarrow> ('a \<times> 'a list) option" where
  "take_first P [] = None"
| "take_first P (x # xs) = (if P x then Some (x, xs) else map_option (\<lambda>(y, ys). (y, x # ys)) (take_first P xs))"

definition dequeueNextAdmissible :: "scheduler \<Rightarrow> entry option \<times> scheduler" where
  "dequeueNextAdmissible s =
     (case queue s of [] \<Rightarrow> (None, s)
      | head # rest \<Rightarrow>
        if canAdmit s head then
          (Some head, if backfilledHead s = Some (entryId head)
                      then s\<lparr>queue := rest, backfilledHead := None, backfilledWorkerSlots := 0\<rparr> else s\<lparr>queue := rest\<rparr>)
        else let s1 = (if backfilledHead s \<noteq> Some (entryId head)
                       then s\<lparr>backfilledHead := Some (entryId head), backfilledWorkerSlots := 0\<rparr> else s);
                 remaining = jobs (launchPolicy s1) - 1 - backfilledWorkerSlots s1 in
          case take_first (\<lambda>e. entrySlots e \<le> remaining \<and> canAdmit s1 e) rest of
            None \<Rightarrow> (None, s1)
          | Some (e, rest') \<Rightarrow>
              (Some e, s1\<lparr>queue := head # rest', backfilledWorkerSlots := backfilledWorkerSlots s1 + entrySlots e\<rparr>))"

section \<open>The critical path\<close>

definition elapsedCriticalPathMilliseconds :: "scheduler \<Rightarrow> int \<Rightarrow> rat" where
  "elapsedCriticalPathMilliseconds s time = milliseconds (time - pathStartedAt (criticalPath s))"

definition append_path_event :: "path_event \<Rightarrow> critical_path \<Rightarrow> critical_path" where
  "append_path_event event p =
     (if length (pathEvents p) < CRITICAL_PATH_EVENT_LIMIT then p\<lparr>pathEvents := pathEvents p @ [event]\<rparr>
      else p\<lparr>pathDroppedEvents := pathDroppedEvents p + 1\<rparr>)"

definition appendCriticalPathEvent :: "path_event \<Rightarrow> scheduler \<Rightarrow> scheduler" where
  "appendCriticalPathEvent event s = s\<lparr>criticalPath := append_path_event event (criticalPath s)\<rparr>"

definition same_interval_state :: "path_interval \<Rightarrow> path_interval \<Rightarrow> bool" where
  "same_interval_state a b \<longleftrightarrow> intervalCommands a = intervalCommands b \<and> intervalAdmission a = intervalAdmission b
     \<and> intervalSlots a = intervalSlots b \<and> intervalWorkingSet a = intervalWorkingSet b
     \<and> intervalQueueState a = intervalQueueState b \<and> intervalQueued a = intervalQueued b"

definition append_interval :: "path_interval \<Rightarrow> critical_path \<Rightarrow> critical_path" where
  "append_interval state p =
     (if pathIntervals p \<noteq> [] \<and> same_interval_state (last (pathIntervals p)) state
      then p\<lparr>pathIntervals := butlast (pathIntervals p)
                @ [(last (pathIntervals p))\<lparr>intervalEndedAt := intervalEndedAt state\<rparr>]\<rparr>
      else if length (pathIntervals p) < CRITICAL_PATH_EVENT_LIMIT
      then p\<lparr>pathIntervals := pathIntervals p @ [state]\<rparr>
      else p\<lparr>pathDroppedIntervals := pathDroppedIntervals p + 1\<rparr>)"

definition add_queued_state :: "string \<Rightarrow> rat \<Rightarrow> (string \<times> rat) list \<Rightarrow> (string \<times> rat) list" where
  "add_queued_state name d = map (\<lambda>(k, v). (k, if k = name then js_add v d else v))"

definition charge_critical_path :: "scheduler \<Rightarrow> string \<Rightarrow> int \<Rightarrow> critical_path" where
  "charge_critical_path s state endedAt =
     (let p = criticalPath s; d = milliseconds (endedAt - pathLastStateAt p);
          interval = \<lparr>intervalCommands = activeCount s, intervalAdmission = activeAdmission s,
            intervalSlots = activeWorkerSlots s, intervalWorkingSet = activeWorkingSet s, intervalQueueState = state,
            intervalQueued = int (length (queue s)), intervalEndedAt = elapsedCriticalPathMilliseconds s endedAt,
            intervalStartedAt = elapsedCriticalPathMilliseconds s (pathLastStateAt p)\<rparr>;
          p1 = append_interval interval p
      in p1\<lparr>pathActiveCommandMs := js_add (pathActiveCommandMs p1) (js_mul d (of_int (activeCount s))),
            pathActiveSlotMs := js_add (pathActiveSlotMs p1) (js_mul d (of_int (activeWorkerSlots s))),
            pathIdleMs := (if activeCount s = 0 \<and> queue s = [] then js_add (pathIdleMs p1) d else pathIdleMs p1),
            pathQueuedStateMs := (if queue s \<noteq> [] then add_queued_state state d (pathQueuedStateMs p1)
                                  else pathQueuedStateMs p1)\<rparr>)"

definition recordCriticalPathState :: "scheduler \<Rightarrow> (int \<times> scheduler) res" where
  "recordCriticalPathState s =
     (let (endedAt, s1) = hrtime s in
      bindR (if 0 < milliseconds (endedAt - pathLastStateAt (criticalPath s1))
             then bindR (queueState s1) (\<lambda>state. Inr (charge_critical_path s1 state endedAt))
             else Inr (criticalPath s1))
        (\<lambda>p. Inr (endedAt, s1\<lparr>criticalPath := p\<lparr>pathLastStateAt := endedAt\<rparr>\<rparr>)))"

section \<open>Statistics\<close>

text \<open>\<open>update_stat\<close> changes the statistics object that an entry holds for its stage and its class.\<close>

definition statFor :: "(string \<times> phase_stat) list \<Rightarrow> string \<Rightarrow> string \<Rightarrow> (string \<times> phase_stat) list" where
  "statFor stats name cls = (if name \<in> fst ` set stats then stats else stats @ [(name, nativePhaseSchedulingStat name cls)])"

definition update_stat :: "string \<Rightarrow> (phase_stat \<Rightarrow> phase_stat) \<Rightarrow> (string \<times> phase_stat) list \<Rightarrow> (string \<times> phase_stat) list" where
  "update_stat name f = map (\<lambda>(k, v). (k, if k = name then f v else v))"

definition updateStats :: "entry \<Rightarrow> (phase_stat \<Rightarrow> phase_stat) \<Rightarrow> scheduler \<Rightarrow> scheduler" where
  "updateStats e f s = s\<lparr>stageStats := update_stat (entryStage e) f (stageStats s),
     classStats := update_stat (entryClass e) f (classStats s)\<rparr>"

definition stat_requested :: "phase_stat \<Rightarrow> phase_stat" where
  "stat_requested t = t\<lparr>statRequestCount := statRequestCount t + 1, statQueuedCount := statQueuedCount t + 1,
     statMaximumQueuedCount := max (statMaximumQueuedCount t) (statQueuedCount t + 1)\<rparr>"

definition stat_started :: "entry \<Rightarrow> rat \<Rightarrow> phase_stat \<Rightarrow> phase_stat" where
  "stat_started e wait t = t\<lparr>statActiveCount := statActiveCount t + 1,
     statActiveWorkingSet := statActiveWorkingSet t + entryWorkingSet e, statQueuedCount := statQueuedCount t - 1,
     statMaximumActiveCount := max (statMaximumActiveCount t) (statActiveCount t + 1),
     statMaximumWorkingSet := max (statMaximumWorkingSet t) (statActiveWorkingSet t + entryWorkingSet e),
     statMaximumQueueWait := max (statMaximumQueueWait t) wait,
     statTotalQueueWait := js_add (statTotalQueueWait t) wait\<rparr>"

definition stat_unqueued :: "phase_stat \<Rightarrow> phase_stat" where
  "stat_unqueued t = t\<lparr>statQueuedCount := statQueuedCount t - 1\<rparr>"

definition stat_completed :: "native_timing \<Rightarrow> phase_stat \<Rightarrow> phase_stat" where
  "stat_completed timing t = t\<lparr>statCompletedCount := statCompletedCount t + 1,
     statReportedCommands := statReportedCommands t + (if cacheCounters timing = None then 0 else 1),
     statCounters := (case cacheCounters timing of None \<Rightarrow> statCounters t | Some ns \<Rightarrow> map2 (+) (statCounters t) ns),
     statMaximumRss := max (statMaximumRss t) (maxRssKiB timing),
     statSystemCpu := js_add (statSystemCpu t) (systemCpuMilliseconds timing),
     statUserCpu := js_add (statUserCpu t) (userCpuMilliseconds timing),
     statWall := js_add (statWall t) (wallMilliseconds timing)\<rparr>"

definition stat_failed :: "phase_stat \<Rightarrow> phase_stat" where
  "stat_failed t = t\<lparr>statFailedCount := statFailedCount t + 1\<rparr>"

definition stat_finished :: "entry \<Rightarrow> phase_stat \<Rightarrow> phase_stat" where
  "stat_finished e t = t\<lparr>statActiveCount := statActiveCount t - 1,
     statActiveWorkingSet := statActiveWorkingSet t - entryWorkingSet e\<rparr>"

text \<open>The check of both aggregates before either changes.\<close>

definition counters_fit :: "int list \<Rightarrow> string \<Rightarrow> (string \<times> phase_stat) list \<Rightarrow> bool" where
  "counters_fit ns name stats \<longleftrightarrow>
     (\<forall>(k, t) \<in> set stats. k = name \<longrightarrow> list_all (\<lambda>n. n \<le> max_safe_integer) (map2 (+) (statCounters t) ns))"

record resource_report =
  reportReportedCommands :: int
  reportCounters :: "int list"
  reportMaximumRss :: rat
  reportSystemCpu :: rat
  reportUserCpu :: rat
  reportWall :: rat

record stat_report =
  reportCompletedCount :: int
  reportFailedCount :: int
  reportMaximumActiveCount :: int
  reportMaximumWorkingSet :: int
  reportMaximumQueuedCount :: int
  reportMaximumQueueWait :: rat
  reportName :: string
  reportRequestCount :: int
  reportClass :: string
  reportResourceUsage :: "resource_report option"
  reportTotalQueueWait :: rat

definition nativePhaseSchedulingStatReport :: "phase_stat \<Rightarrow> stat_report" where
  "nativePhaseSchedulingStatReport t =
     \<lparr>reportCompletedCount = statCompletedCount t, reportFailedCount = statFailedCount t,
      reportMaximumActiveCount = statMaximumActiveCount t, reportMaximumWorkingSet = statMaximumWorkingSet t,
      reportMaximumQueuedCount = statMaximumQueuedCount t, reportMaximumQueueWait = statMaximumQueueWait t,
      reportName = statName t, reportRequestCount = statRequestCount t, reportClass = statClass t,
      reportResourceUsage =
        (if statCompletedCount t = 0 then None
         else Some \<lparr>reportReportedCommands = statReportedCommands t, reportCounters = statCounters t,
                reportMaximumRss = statMaximumRss t, reportSystemCpu = statSystemCpu t,
                reportUserCpu = statUserCpu t, reportWall = statWall t\<rparr>),
      reportTotalQueueWait = statTotalQueueWait t\<rparr>"

section \<open>Draining the queue\<close>

definition resolveIdleWaiters :: "scheduler \<Rightarrow> scheduler" where
  "resolveIdleWaiters s =
     (if activeCount s \<noteq> 0 \<or> queue s \<noteq> [] then s
      else s\<lparr>resolvedIdle := resolvedIdle s @ idleWaiters s, idleWaiters := []\<rparr>)"

definition start_entry :: "entry \<Rightarrow> scheduler \<Rightarrow> scheduler" where
  "start_entry e s =
     (let (startedAt, s) = hrtime s; wait = milliseconds (startedAt - entryQueuedAt e);
          s = s\<lparr>activeAdmission := activeAdmission s + entryAdmission e,
                activeWorkingSet := activeWorkingSet s + entryWorkingSet e,
                activeCount := activeCount s + 1,
                activeWorkerSlots := activeWorkerSlots s + entrySlots e\<rparr>;
          s = s\<lparr>maximumActiveCount := max (maximumActiveCount s) (activeCount s),
                maximumActiveWorkerSlots := max (maximumActiveWorkerSlots s) (activeWorkerSlots s),
                maximumEstimatedWorkingSet := max (maximumEstimatedWorkingSet s) (activeWorkingSet s),
                maximumQueueWait := max (maximumQueueWait s) wait,
                totalQueueWait := js_add (totalQueueWait s) wait\<rparr>;
          s = updateStats e (stat_started e wait) s
      in s\<lparr>runningOperations := runningOperations s @ [(e, startedAt)],
           startedOperations := startedOperations s @ [e]\<rparr>)"

definition reject_queued :: "native_error \<Rightarrow> scheduler \<Rightarrow> entry \<Rightarrow> scheduler" where
  "reject_queued err s e =
     (let s = updateStats e stat_unqueued s
      in s\<lparr>settledPromises := settledPromises s @ [(entryId e, Rejected err)]\<rparr>)"

definition drain_rejected :: "native_error \<Rightarrow> scheduler \<Rightarrow> scheduler res" where
  "drain_rejected err s = bindR (recordCriticalPathState s) (\<lambda>(_, s).
     Inr (resolveIdleWaiters (foldl (reject_queued err) (s\<lparr>queue := []\<rparr>) (queue s))))"

lemma take_first_length: "take_first P xs = Some (x, ys) \<Longrightarrow> length ys < length xs"
  by (induction xs arbitrary: ys) (auto split: if_splits)

lemma recordCriticalPathState_queue: "recordCriticalPathState s = Inr (t, s') \<Longrightarrow> queue s' = queue s"
  by (auto simp: recordCriticalPathState_def hrtime_def bindR_Inr_iff Let_def)

lemma dequeue_length: "dequeueNextAdmissible s = (Some e, s') \<Longrightarrow> length (queue s') < length (queue s)"
  by (auto simp: dequeueNextAdmissible_def Let_def dest: take_first_length split: list.splits if_splits option.splits)

lemma start_entry_queue [simp]: "queue (start_entry e s) = queue s"
  by (simp add: start_entry_def hrtime_def Let_def updateStats_def)

function drain_queue :: "scheduler \<Rightarrow> scheduler res" where
  "drain_queue s =
     (if queue s = [] then Inr s
      else bindR (recordCriticalPathState s) (\<lambda>(_, s1).
        case dequeueNextAdmissible s1 of
          (None, s2) \<Rightarrow> Inr s2
        | (Some e, s2) \<Rightarrow> drain_queue (start_entry e s2)))"
  by pat_completeness auto

termination
  by (relation "measure (\<lambda>s. length (queue s))")
    (auto dest!: recordCriticalPathState_queue dequeue_length dest: sym)

declare drain_queue.simps [simp del]

definition drain :: "scheduler \<Rightarrow> scheduler res" where
  "drain s = (case schedulingFailure s of Some err \<Rightarrow> drain_rejected err s | None \<Rightarrow> drain_queue s)"

section \<open>Operations that settle\<close>

datatype outcome = Returned timing_value | Threw native_error

fun retained_failure :: "native_error \<Rightarrow> native_failure option" where
  "retained_failure (NativeCommandFailure m f) = Some f"
| "retained_failure (PlainError e) = None"

definition complete_operation :: "entry \<Rightarrow> native_timing \<Rightarrow> scheduler \<Rightarrow> native_error + scheduler" where
  "complete_operation e timing s =
     (if (case cacheCounters timing of None \<Rightarrow> False
          | Some ns \<Rightarrow> \<not> (counters_fit ns (entryStage e) (stageStats s) \<and> counters_fit ns (entryClass e) (classStats s)))
      then timing_failure (entryStage e @ '' incremental cache total exceeds safe integer precision'')
      else let s = s\<lparr>completedCount := completedCount s + 1\<rparr>; s = updateStats e (stat_completed timing) s
        in Inr (s\<lparr>settledPromises := settledPromises s @ [(entryId e, Resolved timing)]\<rparr>))"

definition fail_operation :: "entry \<Rightarrow> native_error \<Rightarrow> scheduler \<Rightarrow> scheduler" where
  "fail_operation e err s =
     (let s = s\<lparr>failedCount := failedCount s + 1,
                schedulingFailure := (if entryClosesAdmission e \<and> schedulingFailure s = None then Some err
                                      else schedulingFailure s)\<rparr>;
          s = updateStats e stat_failed s
      in s\<lparr>settledPromises := settledPromises s @ [(entryId e, Rejected err)]\<rparr>)"

definition settle_operation :: "entry \<Rightarrow> outcome \<Rightarrow> scheduler \<Rightarrow> scheduler \<times> string \<times> native_failure option" where
  "settle_operation e outcome s =
     (case (case outcome of Threw err \<Rightarrow> Inl err
            | Returned value \<Rightarrow> (case requireNativePhaseTiming value (entryStage e) of Inl err \<Rightarrow> Inl err
                | Inr timing \<Rightarrow> complete_operation e timing s)) of
        Inr s' \<Rightarrow> (s', ''completed'', None)
      | Inl err \<Rightarrow> (fail_operation e err s, ''failed'', retained_failure err))"

definition release_operation :: "entry \<Rightarrow> scheduler \<Rightarrow> scheduler" where
  "release_operation e s =
     (let s = s\<lparr>activeAdmission := activeAdmission s - entryAdmission e,
                activeWorkingSet := activeWorkingSet s - entryWorkingSet e,
                activeCount := activeCount s - 1,
                activeWorkerSlots := activeWorkerSlots s - entrySlots e\<rparr>
      in (updateStats e (stat_finished e) s)
           \<lparr>runningOperations := filter (\<lambda>(x, _). entryId x \<noteq> entryId e) (runningOperations s)\<rparr>)"

definition finish_operation :: "entry \<Rightarrow> int \<Rightarrow> outcome \<Rightarrow> scheduler \<Rightarrow> scheduler res" where
  "finish_operation e startedAt outcome s =
     (let (s1, label, failure) = settle_operation e outcome s in
      bindR (recordCriticalPathState s1) (\<lambda>(finishedAt, s2).
        let s3 = appendCriticalPathEvent (NativePhaseEvent failure e label (elapsedCriticalPathMilliseconds s2 finishedAt)
              (elapsedCriticalPathMilliseconds s2 (entryQueuedAt e)) (elapsedCriticalPathMilliseconds s2 startedAt)) s2
        in bindR (drain (release_operation e s3)) (\<lambda>s4. Inr (resolveIdleWaiters s4))))"

text \<open>The outcome of a running operation arrives; there is nothing to settle for any other identity.\<close>

definition settle :: "nat \<Rightarrow> outcome \<Rightarrow> scheduler \<Rightarrow> scheduler res" where
  "settle i outcome s =
     (case find (\<lambda>(e, _). entryId e = i) (runningOperations s) of
        None \<Rightarrow> Inr s
      | Some (e, startedAt) \<Rightarrow> finish_operation e startedAt outcome s)"

section \<open>Requests\<close>

record run_request =
  requestStage :: jsval
  requestIsFunction :: bool
  requestClosesAdmission :: jsval
  requestSlots :: jsval
  requestEstimate :: jsval

record checked_request =
  checkedStage :: string
  checkedPolicy :: stage_policy
  checkedCloses :: bool
  checkedSlots :: int
  checkedEstimate :: int

definition with_default :: "jsval \<Rightarrow> jsval \<Rightarrow> jsval" where
  "with_default v d = (if v = JUndefined then d else v)"

definition optional_estimate :: "jsval \<Rightarrow> int option res" where
  "optional_estimate v = (if v = JUndefined then Inr None
     else bindR (native_requirePositiveInteger v ''native-phase scheduling working-set estimate'') (\<lambda>n. Inr (Some n)))"

definition slots_exceed_jobs :: "launch_policy \<Rightarrow> int \<Rightarrow> unit res" where
  "slots_exceed_jobs policy workerSlots =
     (if jobs policy < workerSlots
      then native_fail (''native-phase scheduling worker slots '' @ show_int workerSlots @ '' exceed launch jobs '' @ show_int (jobs policy))
      else Inr ())"

text \<open>The stage of an inherited name has no scheduling class, and the first \<open>endsWith\<close> on it throws.\<close>

definition check_request :: "launch_policy \<Rightarrow> run_request \<Rightarrow> checked_request res" where
  "check_request policy q =
     bindR (native_requireString (requestStage q) ''native-phase scheduling stage'') (\<lambda>stageName.
     bindR (if \<not> requestIsFunction q then native_fail ''native-phase scheduling operation must be a function'' else Inr ()) (\<lambda>_.
     bindR (case with_default (requestClosesAdmission q) (JBool True) of JBool b \<Rightarrow> Inr b
            | _ \<Rightarrow> native_fail ''native-phase scheduling failureClosesAdmission must be a boolean'') (\<lambda>closes.
     case map_of nativePhaseSchedulingStages stageName of
       None \<Rightarrow>
         if stageName \<in> set object_prototype_members then
           bindR (native_requirePositiveInteger (with_default (requestSlots q) (JNum (NInt 1))) ''native-phase scheduling worker slots'') (\<lambda>workerSlots.
           bindR (optional_estimate (requestEstimate q)) (\<lambda>estimate.
           bindR (if estimate = None then slots_exceed_jobs policy workerSlots else Inr ()) (\<lambda>_. Inl (TypeError ''endsWith''))))
         else native_fail (''native-phase scheduling stage '' @ quote_string stageName @ '' is unsupported'')
     | Some stagePolicy \<Rightarrow>
       bindR (native_requirePositiveInteger (with_default (requestSlots q) (JNum (NInt 1))) ''native-phase scheduling worker slots'') (\<lambda>workerSlots.
       bindR (optional_estimate (requestEstimate q)) (\<lambda>estimate.
       bindR (slots_exceed_jobs policy workerSlots) (\<lambda>_.
       if ends_with (schedulingClass stagePolicy) ''aot'' \<and> aotWorkers policy < workerSlots
       then native_fail (''native-phase scheduling AOT worker slots '' @ show_int workerSlots
              @ '' exceed configured AOT workers '' @ show_int (aotWorkers policy))
       else Inr \<lparr>checkedStage = stageName, checkedPolicy = stagePolicy, checkedCloses = closes,
              checkedSlots = effectiveNativePhaseWorkerSlots stagePolicy workerSlots estimate,
              checkedEstimate = (case estimate of None \<Rightarrow> defaultStageWorkingSetEstimateBytes stagePolicy | Some n \<Rightarrow> n)\<rparr>))))))"

definition count_request :: "checked_request \<Rightarrow> scheduler \<Rightarrow> scheduler" where
  "count_request c s =
     (let name = checkedStage c; cls = schedulingClass (checkedPolicy c) in
      s\<lparr>requestCount := requestCount s + 1,
        stageStats := update_stat name stat_requested (statFor (stageStats s) name cls),
        classStats := update_stat cls stat_requested (statFor (classStats s) cls cls)\<rparr>)"

definition push_entry :: "checked_request \<Rightarrow> scheduler \<Rightarrow> scheduler" where
  "push_entry c s =
     (let (queuedAt, s) = hrtime s;
          e = \<lparr>entryId = nextEntry s, entryStage = checkedStage c, entryClass = schedulingClass (checkedPolicy c),
               entryClosesAdmission = checkedCloses c, entryQueuedAt = queuedAt,
               entryAdmission = min (checkedEstimate c) (aggregateMemoryMaxBytes (launchPolicy s)),
               entrySlots = checkedSlots c, entryWorkingSet = checkedEstimate c\<rparr>;
          s = s\<lparr>nextEntry := Suc (nextEntry s), queue := queue s @ [e]\<rparr>
      in s\<lparr>maximumQueuedCount := max (maximumQueuedCount s) (int (length (queue s)))\<rparr>)"

definition enqueue :: "checked_request \<Rightarrow> scheduler \<Rightarrow> scheduler res" where
  "enqueue c s = bindR (recordCriticalPathState s) (\<lambda>(_, s1). drain (push_entry c s1))"

datatype run_response = Accepted nat | RejectedRun native_error

definition run :: "run_request \<Rightarrow> scheduler \<Rightarrow> (run_response \<times> scheduler) res" where
  "run q s = bindR (check_request (launchPolicy s) q) (\<lambda>c.
     case schedulingFailure s of
       Some err \<Rightarrow> Inr (RejectedRun err, s)
     | None \<Rightarrow> bindR (enqueue c (count_request c s)) (\<lambda>s'. Inr (Accepted (nextEntry s), s')))"

section \<open>Idle waiters, activities and reports\<close>

text \<open>\<open>None\<close> is a promise that is resolved already.\<close>

definition idle :: "scheduler \<Rightarrow> nat option \<times> scheduler" where
  "idle s = (if activeCount s = 0 \<and> queue s = [] then (None, s)
     else (Some (nextWaiter s), s\<lparr>nextWaiter := Suc (nextWaiter s), idleWaiters := idleWaiters s @ [nextWaiter s]\<rparr>))"

definition beginCriticalPathActivity :: "jsval \<Rightarrow> jsval \<Rightarrow> scheduler \<Rightarrow> (nat \<times> scheduler) res" where
  "beginCriticalPathActivity name stageName s =
     bindR (native_requireString name ''critical-path activity'') (\<lambda>n.
     bindR (native_requireString stageName ''critical-path activity stage'') (\<lambda>g.
     let (startedAt, s1) = hrtime s in
     Inr (length (activities s1), s1\<lparr>activities := activities s1
       @ [\<lparr>activityName = n, activityStage = g, activityStartedAt = startedAt, activityFinished = False\<rparr>]\<rparr>)))"

fun text_value :: "jsval \<Rightarrow> string" where
  "text_value (JStr s) = s"
| "text_value _ = []"

definition finishCriticalPathActivity :: "nat \<Rightarrow> jsval \<Rightarrow> jsval \<Rightarrow> scheduler \<Rightarrow> scheduler res" where
  "finishCriticalPathActivity i cache outcomeValue s =
     (let a = activities s ! i; label = with_default outcomeValue (JStr ''completed'') in
      if activityFinished a then native_fail ''critical-path activity was already finished''
      else if cache \<noteq> JUndefined \<and> cache \<noteq> JStr ''hit'' \<and> cache \<noteq> JStr ''miss''
      then native_fail ''critical-path activity cache outcome must be hit or miss''
      else if label \<noteq> JStr ''completed'' \<and> label \<noteq> JStr ''failed''
      then native_fail ''critical-path activity outcome must be completed or failed''
      else let s1 = s\<lparr>activities := (activities s)[i := a\<lparr>activityFinished := True\<rparr>]\<rparr>; (endedAt, s2) = hrtime s1 in
        Inr (appendCriticalPathEvent
          (ExternalActivityEvent (activityName a) (if cache = JUndefined then None else Some (text_value cache))
             (elapsedCriticalPathMilliseconds s2 endedAt) (text_value label)
             (activityStage a) (elapsedCriticalPathMilliseconds s2 (activityStartedAt a))) s2))"

record scheduling_report =
  reportClasses :: "stat_report list"
  reportStages :: "stat_report list"
  reportCompleted :: int
  reportFailed :: int
  reportActiveMaximum :: int
  reportSlotsMaximum :: int
  reportWorkingSetMaximum :: int
  reportQueuedMaximum :: int
  reportQueueWaitMaximum :: rat
  reportPolicy :: launch_policy
  reportRequests :: int
  reportQueueWaitTotal :: rat
  reportPath :: critical_path
  reportElapsedMs :: rat

definition sorted_reports :: "(string \<times> phase_stat) list \<Rightarrow> stat_report list" where
  "sorted_reports stats = map nativePhaseSchedulingStatReport (js_sort (compareBy statName) (map snd stats))"

definition report :: "scheduler \<Rightarrow> (scheduling_report \<times> scheduler) res" where
  "report s = bindR (recordCriticalPathState s) (\<lambda>(reportedAt, s1). Inr
     (\<lparr>reportClasses = sorted_reports (classStats s1), reportStages = sorted_reports (stageStats s1),
       reportCompleted = completedCount s1, reportFailed = failedCount s1, reportActiveMaximum = maximumActiveCount s1,
       reportSlotsMaximum = maximumActiveWorkerSlots s1, reportWorkingSetMaximum = maximumEstimatedWorkingSet s1,
       reportQueuedMaximum = maximumQueuedCount s1, reportQueueWaitMaximum = maximumQueueWait s1,
       reportPolicy = launchPolicy s1, reportRequests = requestCount s1, reportQueueWaitTotal = totalQueueWait s1,
       reportPath = criticalPath s1, reportElapsedMs = elapsedCriticalPathMilliseconds s1 reportedAt\<rparr>, s1))"

section \<open>Events\<close>

datatype scheduler_event =
    RunEvent run_request
  | SettleEvent nat outcome
  | IdleEvent
  | BeginActivityEvent jsval jsval
  | FinishActivityEvent nat jsval jsval
  | ReportEvent

text \<open>A call that throws leaves the state as it was before; the handle of an activity exists only after
  it began.\<close>

definition committed :: "scheduler \<Rightarrow> ('a \<times> scheduler) res \<Rightarrow> scheduler" where
  "committed s r = (case r of Inl _ \<Rightarrow> s | Inr (_, s') \<Rightarrow> s')"

fun scheduler_step :: "scheduler \<Rightarrow> scheduler_event \<Rightarrow> scheduler" where
  "scheduler_step s (RunEvent q) = committed s (run q s)"
| "scheduler_step s (SettleEvent i out) = committed s (bindR (settle i out s) (\<lambda>s'. Inr ((), s')))"
| "scheduler_step s IdleEvent = snd (idle s)"
| "scheduler_step s (BeginActivityEvent name stageName) = committed s (beginCriticalPathActivity name stageName s)"
| "scheduler_step s (FinishActivityEvent i cache out) =
     (if i < length (activities s)
      then committed s (bindR (finishCriticalPathActivity i cache out s) (\<lambda>s'. Inr ((), s'))) else s)"
| "scheduler_step s ReportEvent = committed s (report s)"

end
