(* ===== verification/NativeMoves.thy ===== *)
theory NativeMoves
  imports NativeScheduler
begin

text \<open>
  The scheduler as a transition system: every event is a sequence of a few kinds of moves, none of
  which throws. The invariants of the scheduler are proved for the moves.
\<close>

section \<open>Nothing throws\<close>

lemma queueState_total: "\<exists>state. queueState s = Inr state"
  by (auto simp: queueState_def canAdmit_def Let_def split: list.split)

lemma record_Inr: "\<exists>p. recordCriticalPathState s
    = Inr (clock s (clockReads s), s\<lparr>clockReads := Suc (clockReads s), criticalPath := p\<rparr>)"
proof -
  obtain state where "queueState (s\<lparr>clockReads := Suc (clockReads s)\<rparr>) = Inr state" using queueState_total by blast
  then show ?thesis by (auto simp: recordCriticalPathState_def hrtime_def Let_def)
qed

lemma record_frame:
  assumes "recordCriticalPathState s = Inr (t, s')"
  shows "t = clock s (clockReads s) \<and> (\<exists>p. s' = s\<lparr>clockReads := Suc (clockReads s), criticalPath := p\<rparr>)"
  using record_Inr[of s] assms by auto

section \<open>The moves\<close>

inductive scheduler_move :: "scheduler \<Rightarrow> scheduler \<Rightarrow> bool" where
  move_record: "recordCriticalPathState s = Inr (t, s') \<Longrightarrow> scheduler_move s s'"
| move_start: "schedulingFailure s = None \<Longrightarrow> dequeueNextAdmissible s = (Some e, s') \<Longrightarrow> scheduler_move s (start_entry e s')"
| move_block: "schedulingFailure s = None \<Longrightarrow> dequeueNextAdmissible s = (None, s') \<Longrightarrow> scheduler_move s s'"
| move_reject: "schedulingFailure s = Some err \<Longrightarrow>
    scheduler_move s (foldl (reject_queued err) (s\<lparr>queue := []\<rparr>) (queue s))"
| move_finish: "(e, startedAt) \<in> set (runningOperations s) \<Longrightarrow> settle_operation e out s = (s1, label, failure) \<Longrightarrow>
    recordCriticalPathState s1 = Inr (t, s2) \<Longrightarrow> scheduler_move s (release_operation e (appendCriticalPathEvent ev s2))"
| move_push: "schedulingFailure s = None \<Longrightarrow> check_request (launchPolicy s) q = Inr c \<Longrightarrow>
    recordCriticalPathState (count_request c s) = Inr (t, s1) \<Longrightarrow> scheduler_move s (push_entry c s1)"
| move_wake: "scheduler_move s (resolveIdleWaiters s)"
| move_idle: "scheduler_move s (snd (idle s))"
| move_begin: "beginCriticalPathActivity name stageName s = Inr (i, s') \<Longrightarrow> scheduler_move s s'"
| move_end: "i < length (activities s) \<Longrightarrow> finishCriticalPathActivity i cache out s = Inr s' \<Longrightarrow> scheduler_move s s'"

lemma drain_queue_moves:
  "schedulingFailure s = None \<Longrightarrow> \<exists>s'. drain_queue s = Inr s' \<and> scheduler_move\<^sup>*\<^sup>* s s'"
proof (induction s rule: drain_queue.induct)
  case (1 s)
  show ?case
  proof (cases "queue s = []")
    case False
    obtain t s1 where rec: "recordCriticalPathState s = Inr (t, s1)" using record_Inr by blast
    obtain r s2 where deq: "dequeueNextAdmissible s1 = (r, s2)" by fastforce
    have f1: "schedulingFailure s1 = None" using record_frame[OF rec] "1.prems" by auto
    have to1: "scheduler_move\<^sup>*\<^sup>* s s1" using rec by (auto intro: move_record)
    show ?thesis
    proof (cases r)
      case None
      then have "scheduler_move s1 s2" using f1 deq by (auto intro: move_block)
      then show ?thesis using False rec deq None to1 by (auto simp: drain_queue.simps[of s])
    next
      case (Some e)
      then have step: "scheduler_move s1 (start_entry e s2)" using f1 deq by (auto intro: move_start)
      have "schedulingFailure (start_entry e s2) = None"
        using f1 deq by (auto simp: start_entry_def hrtime_def updateStats_def Let_def dequeueNextAdmissible_def
            split: list.splits if_splits option.splits)
      then obtain s' where "drain_queue (start_entry e s2) = Inr s'" "scheduler_move\<^sup>*\<^sup>* (start_entry e s2) s'"
        using "1.IH"[OF False rec refl deq[symmetric] Some] by blast
      then show ?thesis using False rec deq Some to1 step by (auto simp: drain_queue.simps[of s])
    qed
  qed (simp add: drain_queue.simps[of s])
qed

lemma drain_moves: "\<exists>s'. drain s = Inr s' \<and> scheduler_move\<^sup>*\<^sup>* s s'"
proof (cases "schedulingFailure s")
  case None
  then show ?thesis using drain_queue_moves by (simp add: drain_def)
next
  case (Some err)
  obtain t s1 where rec: "recordCriticalPathState s = Inr (t, s1)" using record_Inr by blast
  let ?s2 = "foldl (reject_queued err) (s1\<lparr>queue := []\<rparr>) (queue s1)"
  have "schedulingFailure s1 = Some err" using record_frame[OF rec] Some by auto
  then have "scheduler_move s1 ?s2" by (rule move_reject)
  moreover have "scheduler_move ?s2 (resolveIdleWaiters ?s2)" by (rule move_wake)
  moreover have "scheduler_move s s1" by (rule move_record[OF rec])
  ultimately have "scheduler_move\<^sup>*\<^sup>* s (resolveIdleWaiters ?s2)" by (meson converse_rtranclp_into_rtranclp rtranclp.rtrancl_refl)
  then show ?thesis using Some rec by (auto simp: drain_def drain_rejected_def)
qed

lemma settle_moves: "\<exists>s'. settle i out s = Inr s' \<and> scheduler_move\<^sup>*\<^sup>* s s'"
proof (cases "find (\<lambda>(e, _). entryId e = i) (runningOperations s)")
  case (Some r)
  obtain e startedAt where r: "r = (e, startedAt)" by fastforce
  have running: "(e, startedAt) \<in> set (runningOperations s)" using Some r by (auto simp: find_Some_iff in_set_conv_nth)
  obtain s1 label failure where op: "settle_operation e out s = (s1, label, failure)" by (cases "settle_operation e out s")
  obtain t s2 where rec: "recordCriticalPathState s1 = Inr (t, s2)" using record_Inr by blast
  define ev where "ev = NativePhaseEvent failure e label (elapsedCriticalPathMilliseconds s2 t)
    (elapsedCriticalPathMilliseconds s2 (entryQueuedAt e)) (elapsedCriticalPathMilliseconds s2 startedAt)"
  let ?s3 = "release_operation e (appendCriticalPathEvent ev s2)"
  obtain s4 where s4: "drain ?s3 = Inr s4" "scheduler_move\<^sup>*\<^sup>* ?s3 s4" using drain_moves by blast
  have "scheduler_move s ?s3" using running op rec by (rule move_finish)
  moreover have "scheduler_move s4 (resolveIdleWaiters s4)" by (rule move_wake)
  ultimately have "scheduler_move\<^sup>*\<^sup>* s (resolveIdleWaiters s4)" using s4(2) by (meson converse_rtranclp_into_rtranclp rtranclp.rtrancl_into_rtrancl)
  moreover have "settle i out s = Inr (resolveIdleWaiters s4)"
    using Some r op rec s4(1) by (simp add: settle_def finish_operation_def ev_def)
  ultimately show ?thesis by blast
qed (simp add: settle_def)

lemma run_moves:
  assumes "run q s = Inr (answer, s')"
  shows "scheduler_move\<^sup>*\<^sup>* s s'"
proof -
  obtain c where c: "check_request (launchPolicy s) q = Inr c" using assms by (auto simp: run_def bindR_Inr_iff)
  show ?thesis
  proof (cases "schedulingFailure s")
    case None
    obtain t s1 where rec: "recordCriticalPathState (count_request c s) = Inr (t, s1)" using record_Inr by blast
    obtain s2 where s2: "drain (push_entry c s1) = Inr s2" "scheduler_move\<^sup>*\<^sup>* (push_entry c s1) s2" using drain_moves by blast
    have "scheduler_move s (push_entry c s1)" by (rule move_push[OF None c rec])
    moreover have "s' = s2" using assms None c rec s2(1) by (simp add: run_def enqueue_def)
    ultimately show ?thesis using s2(2) by (simp add: converse_rtranclp_into_rtranclp)
  qed (use assms c in \<open>simp add: run_def\<close>)
qed

lemma report_moves: "report s = Inr (answer, s') \<Longrightarrow> scheduler_move s s'"
  by (auto simp: report_def bindR_Inr_iff intro: move_record)

lemma scheduler_step_moves: "scheduler_move\<^sup>*\<^sup>* s (scheduler_step s e)"
proof (cases e)
  case (RunEvent q)
  then show ?thesis using run_moves by (auto simp: committed_def split: sum.split)
next
  case (SettleEvent i out)
  then show ?thesis using settle_moves[of i out s] by (auto simp: committed_def)
next
  case IdleEvent
  then show ?thesis by (auto intro: move_idle)
next
  case (BeginActivityEvent name stageName)
  then show ?thesis by (auto simp: committed_def intro: move_begin split: sum.split)
next
  case (FinishActivityEvent i cache out)
  then show ?thesis by (auto simp: committed_def bindR_Inr_iff intro: move_end split: sum.split)
next
  case ReportEvent
  then show ?thesis using report_moves by (auto simp: committed_def split: sum.split)
qed

text \<open>A handler that accepts its arguments never throws, so \<open>scheduler_step\<close> never drops a partial change.\<close>

lemma run_total:
  assumes "check_request (launchPolicy s) q = Inr c"
  shows "\<exists>answer s'. run q s = Inr (answer, s')"
proof (cases "schedulingFailure s")
  case None
  obtain t s1 where "recordCriticalPathState (count_request c s) = Inr (t, s1)" using record_Inr by blast
  moreover obtain s2 where "drain (push_entry c s1) = Inr s2" using drain_moves by blast
  ultimately show ?thesis using assms None by (simp add: run_def enqueue_def)
qed (use assms in \<open>simp add: run_def\<close>)

end
