(* ===== verification/NativeInvariant.thy ===== *)
theory NativeInvariant
  imports NativeMoves
begin

text \<open>
  The invariant of the scheduler: its counters are the sums over the running operations and stay
  within the launch policy, every accepted request is in exactly one place, and the charge of the
  backfill wave stays below the number of jobs.
\<close>

section \<open>What the moves do\<close>

abbreviation running :: "scheduler \<Rightarrow> entry list" where
  "running s \<equiv> map fst (runningOperations s)"

lemma take_first_Some:
  "take_first P xs = Some (x, ys) \<Longrightarrow> \<exists>pre post. xs = pre @ x # post \<and> ys = pre @ post \<and> P x \<and> (\<forall>p \<in> set pre. \<not> P p)"
proof (induction xs arbitrary: ys)
  case (Cons a xs)
  show ?case
  proof (cases "P a")
    case True
    then show ?thesis using Cons.prems by (intro exI[of _ "[]"] exI[of _ xs]) auto
  next
    case False
    then obtain zs where "take_first P xs = Some (x, zs)" "ys = a # zs" using Cons.prems by auto
    then obtain pre post where "xs = pre @ x # post" "ys = a # pre @ post" "P x" "\<forall>p \<in> set pre. \<not> P p" using Cons.IH by blast
    then show ?thesis using False by (intro exI[of _ "a # pre"] exI[of _ post]) auto
  qed
qed simp

lemma take_first_None: "take_first P xs = None \<longleftrightarrow> (\<forall>x \<in> set xs. \<not> P x)"
  by (induction xs) auto

text \<open>The slots already charged against the blocked head \<open>h\<close>.\<close>

definition wave_charge :: "scheduler \<Rightarrow> entry \<Rightarrow> int" where
  "wave_charge s h = (if backfilledHead s = Some (entryId h) then backfilledWorkerSlots s else 0)"

lemma dequeue_Some:
  assumes "dequeueNextAdmissible s = (Some e, s')"
  shows "(\<exists>rest. queue s = e # rest \<and> canAdmit s e
      \<and> s' = (if backfilledHead s = Some (entryId e) then s\<lparr>queue := rest, backfilledHead := None, backfilledWorkerSlots := 0\<rparr>
              else s\<lparr>queue := rest\<rparr>))
    \<or> (\<exists>h pre post. queue s = h # pre @ e # post \<and> \<not> canAdmit s h \<and> canAdmit s e
      \<and> entrySlots e \<le> jobs (launchPolicy s) - 1 - wave_charge s h
      \<and> s' = s\<lparr>queue := h # pre @ post, backfilledHead := Some (entryId h),
               backfilledWorkerSlots := wave_charge s h + entrySlots e\<rparr>)"
proof -
  obtain h rest where q: "queue s = h # rest" using assms by (cases "queue s") (auto simp: dequeueNextAdmissible_def)
  show ?thesis
  proof (cases "canAdmit s h")
    case True
    then show ?thesis using assms q by (auto simp: dequeueNextAdmissible_def split: if_splits)
  next
    case False
    define s1 where "s1 = (if backfilledHead s \<noteq> Some (entryId h)
      then s\<lparr>backfilledHead := Some (entryId h), backfilledWorkerSlots := 0\<rparr> else s)"
    have s1: "launchPolicy s1 = launchPolicy s" "backfilledWorkerSlots s1 = wave_charge s h" "canAdmit s1 = canAdmit s"
      "backfilledHead s1 = Some (entryId h)"
      by (auto simp: s1_def wave_charge_def canAdmit_def fun_eq_iff)
    define P where "P = (\<lambda>e. entrySlots e \<le> jobs (launchPolicy s) - 1 - wave_charge s h \<and> canAdmit s e)"
    have deq: "dequeueNextAdmissible s = (case take_first P rest of None \<Rightarrow> (None, s1)
        | Some (x, rest') \<Rightarrow> (Some x, s1\<lparr>queue := h # rest', backfilledWorkerSlots := wave_charge s h + entrySlots x\<rparr>))"
      using q False by (simp add: dequeueNextAdmissible_def s1_def[symmetric] s1 P_def split: option.split)
    obtain rest' where *: "take_first P rest = Some (e, rest')"
      "s' = s1\<lparr>queue := h # rest', backfilledWorkerSlots := wave_charge s h + entrySlots e\<rparr>"
      using assms unfolding deq by (cases "take_first P rest") auto
    from take_first_Some[OF *(1)] obtain pre post where parts: "rest = pre @ e # post" "rest' = pre @ post" "P e" by blast
    have "s' = s\<lparr>queue := h # pre @ post, backfilledHead := Some (entryId h),
               backfilledWorkerSlots := wave_charge s h + entrySlots e\<rparr>"
      by (rule scheduler.equality) (simp_all add: *(2) s1_def parts(2))
    moreover have "queue s = h # pre @ e # post" using q parts(1) by simp
    moreover have "canAdmit s e" "entrySlots e \<le> jobs (launchPolicy s) - 1 - wave_charge s h"
      using parts(3) by (simp_all add: P_def)
    ultimately show ?thesis using False by blast
  qed
qed

lemma dequeue_None:
  assumes "dequeueNextAdmissible s = (None, s')"
  shows "queue s = [] \<and> s' = s \<or> (\<exists>h rest. queue s = h # rest \<and> \<not> canAdmit s h
    \<and> (\<forall>e \<in> set rest. \<not> (entrySlots e \<le> jobs (launchPolicy s) - 1 - wave_charge s h \<and> canAdmit s e))
    \<and> s' = s\<lparr>backfilledHead := Some (entryId h), backfilledWorkerSlots := wave_charge s h\<rparr>)"
proof (cases "queue s")
  case (Cons h rest)
  define s1 where "s1 = (if backfilledHead s \<noteq> Some (entryId h)
      then s\<lparr>backfilledHead := Some (entryId h), backfilledWorkerSlots := 0\<rparr> else s)"
  have s1: "launchPolicy s1 = launchPolicy s" "backfilledWorkerSlots s1 = wave_charge s h" "canAdmit s1 = canAdmit s"
    by (auto simp: s1_def wave_charge_def canAdmit_def fun_eq_iff)
  have "\<not> canAdmit s h" using assms Cons by (auto simp: dequeueNextAdmissible_def split: if_splits)
  moreover have "take_first (\<lambda>e. entrySlots e \<le> jobs (launchPolicy s) - 1 - wave_charge s h \<and> canAdmit s e) rest = None" "s' = s1"
    using assms Cons calculation by (simp_all add: dequeueNextAdmissible_def s1_def[symmetric] s1 split: option.splits prod.splits)
  moreover have "s1 = s\<lparr>backfilledHead := Some (entryId h), backfilledWorkerSlots := wave_charge s h\<rparr>"
    by (rule scheduler.equality) (simp_all add: s1_def wave_charge_def)
  ultimately show ?thesis using Cons by (intro disjI2 exI[of _ h] exI[of _ rest]) (simp add: take_first_None)
qed (use assms in \<open>simp add: dequeueNextAdmissible_def\<close>)

lemma start_entry_effect:
  "running (start_entry e s) = running s @ [e]"
  "startedOperations (start_entry e s) = startedOperations s @ [e]"
  "settledPromises (start_entry e s) = settledPromises s"
  "nextEntry (start_entry e s) = nextEntry s"
  "launchPolicy (start_entry e s) = launchPolicy s"
  "schedulingFailure (start_entry e s) = schedulingFailure s"
  "backfilledHead (start_entry e s) = backfilledHead s"
  "backfilledWorkerSlots (start_entry e s) = backfilledWorkerSlots s"
  "activeCount (start_entry e s) = activeCount s + 1"
  "activeAdmission (start_entry e s) = activeAdmission s + entryAdmission e"
  "activeWorkerSlots (start_entry e s) = activeWorkerSlots s + entrySlots e"
  "activeWorkingSet (start_entry e s) = activeWorkingSet s + entryWorkingSet e"
  "idleWaiters (start_entry e s) = idleWaiters s" "resolvedIdle (start_entry e s) = resolvedIdle s"
  "nextWaiter (start_entry e s) = nextWaiter s"
  "completedCount (start_entry e s) = completedCount s" "failedCount (start_entry e s) = failedCount s"
  "requestCount (start_entry e s) = requestCount s"
  "stageStats (start_entry e s) = update_stat (entryStage e) (stat_started e (milliseconds (clock s (clockReads s) - entryQueuedAt e))) (stageStats s)"
  "classStats (start_entry e s) = update_stat (entryClass e) (stat_started e (milliseconds (clock s (clockReads s) - entryQueuedAt e))) (classStats s)"
  "criticalPath (start_entry e s) = criticalPath s" "clock (start_entry e s) = clock s"
  "clockReads (start_entry e s) = Suc (clockReads s)"
  by (simp_all add: start_entry_def hrtime_def updateStats_def Let_def)

lemma reject_queued_effect:
  fixes s err e
  defines "s' \<equiv> reject_queued err s e"
  shows "s' = s\<lparr>stageStats := update_stat (entryStage e) stat_unqueued (stageStats s),
     classStats := update_stat (entryClass e) stat_unqueued (classStats s),
     settledPromises := settledPromises s @ [(entryId e, Rejected err)]\<rparr>"
  by (simp add: s'_def reject_queued_def updateStats_def)

lemma reject_all_effect:
  "\<exists>stages classes. foldl (reject_queued err) s es
     = s\<lparr>stageStats := stages, classStats := classes, settledPromises := settledPromises s @ map (\<lambda>e. (entryId e, Rejected err)) es\<rparr>"
proof (induction es arbitrary: s)
  case (Cons e es)
  show ?case using Cons.IH[of "reject_queued err s e"] by (auto simp: reject_queued_effect)
next
  case Nil
  show ?case by (intro exI[of _ "stageStats s"] exI[of _ "classStats s"]) simp
qed

text \<open>A settled operation changes counters, statistics and the failure, and adds one settlement.\<close>

definition only_settled :: "nat \<Rightarrow> scheduler \<Rightarrow> scheduler \<Rightarrow> bool" where
  "only_settled i s s' \<longleftrightarrow>
     launchPolicy s' = launchPolicy s \<and> activeCount s' = activeCount s \<and> activeAdmission s' = activeAdmission s
   \<and> activeWorkerSlots s' = activeWorkerSlots s \<and> activeWorkingSet s' = activeWorkingSet s
   \<and> requestCount s' = requestCount s \<and> criticalPath s' = criticalPath s \<and> idleWaiters s' = idleWaiters s
   \<and> queue s' = queue s \<and> backfilledHead s' = backfilledHead s \<and> backfilledWorkerSlots s' = backfilledWorkerSlots s
   \<and> runningOperations s' = runningOperations s \<and> startedOperations s' = startedOperations s
   \<and> nextEntry s' = nextEntry s \<and> clock s' = clock s \<and> clockReads s' = clockReads s
   \<and> nextWaiter s' = nextWaiter s \<and> resolvedIdle s' = resolvedIdle s
   \<and> completedCount s' + failedCount s' = completedCount s + failedCount s + 1
   \<and> (schedulingFailure s \<noteq> None \<longrightarrow> schedulingFailure s' = schedulingFailure s)
   \<and> map fst (settledPromises s') = map fst (settledPromises s) @ [i]"

lemma settle_operation_effect:
  assumes "settle_operation e out s = (s1, label, failure)"
  shows "only_settled (entryId e) s s1"
proof -
  have "complete_operation e timing s = Inr s' \<Longrightarrow> only_settled (entryId e) s s'" for timing s'
    by (auto simp: complete_operation_def timing_failure_def updateStats_def Let_def only_settled_def split: if_splits)
  moreover have "only_settled (entryId e) s (fail_operation e err s)" for err
    by (simp add: fail_operation_def updateStats_def Let_def only_settled_def)
  ultimately show ?thesis
    using assms by (auto simp: settle_operation_def split: sum.splits outcome.splits)
qed

section \<open>The invariant\<close>

definition capacity_inv :: "scheduler \<Rightarrow> bool" where
  "capacity_inv s \<longleftrightarrow> activeCount s = int (length (running s))
     \<and> activeWorkerSlots s = sum_list (map entrySlots (running s))
     \<and> activeAdmission s = sum_list (map entryAdmission (running s))
     \<and> activeWorkingSet s = sum_list (map entryWorkingSet (running s))
     \<and> activeWorkerSlots s \<le> jobs (launchPolicy s)
     \<and> activeAdmission s \<le> aggregateMemoryMaxBytes (launchPolicy s)"

definition entry_fits :: "launch_policy \<Rightarrow> entry \<Rightarrow> bool" where
  "entry_fits p e \<longleftrightarrow> 1 \<le> entrySlots e \<and> entrySlots e \<le> jobs p \<and> 1 \<le> entryAdmission e \<and> entryAdmission e \<le> aggregateMemoryMaxBytes p"

definition entries_inv :: "scheduler \<Rightarrow> bool" where
  "entries_inv s \<longleftrightarrow> 1 \<le> jobs (launchPolicy s) \<and> 1 \<le> aggregateMemoryMaxBytes (launchPolicy s)
     \<and> (\<forall>e \<in> set (running s) \<union> set (queue s). entry_fits (launchPolicy s) e)
     \<and> 0 \<le> backfilledWorkerSlots s \<and> backfilledWorkerSlots s \<le> jobs (launchPolicy s) - 1"

definition placement_inv :: "scheduler \<Rightarrow> bool" where
  "placement_inv s \<longleftrightarrow>
     mset (map entryId (running s)) + mset (map entryId (queue s)) + mset (map fst (settledPromises s)) = mset [0..<nextEntry s]
   \<and> distinct (map entryId (startedOperations s) @ map entryId (queue s))
   \<and> set (map entryId (startedOperations s)) \<subseteq> {..<nextEntry s}
   \<and> completedCount s + failedCount s + int (length (running s)) = int (length (startedOperations s))
   \<and> requestCount s = int (nextEntry s)"

definition scheduler_inv :: "scheduler \<Rightarrow> bool" where
  "scheduler_inv s \<longleftrightarrow> capacity_inv s \<and> entries_inv s \<and> placement_inv s"

text \<open>Fields that the invariant reads.\<close>

definition same_core :: "scheduler \<Rightarrow> scheduler \<Rightarrow> bool" where
  "same_core s s' \<longleftrightarrow>
     launchPolicy s' = launchPolicy s \<and> activeCount s' = activeCount s \<and> activeAdmission s' = activeAdmission s
   \<and> activeWorkerSlots s' = activeWorkerSlots s \<and> activeWorkingSet s' = activeWorkingSet s
   \<and> requestCount s' = requestCount s \<and> completedCount s' = completedCount s \<and> failedCount s' = failedCount s
   \<and> queue s' = queue s \<and> backfilledHead s' = backfilledHead s \<and> backfilledWorkerSlots s' = backfilledWorkerSlots s
   \<and> runningOperations s' = runningOperations s \<and> startedOperations s' = startedOperations s
   \<and> settledPromises s' = settledPromises s \<and> nextEntry s' = nextEntry s \<and> schedulingFailure s' = schedulingFailure s"

lemma same_core_inv: "same_core s s' \<Longrightarrow> scheduler_inv s \<Longrightarrow> scheduler_inv s'"
  by (simp add: same_core_def scheduler_inv_def capacity_inv_def entries_inv_def placement_inv_def)

lemma same_core_record: "recordCriticalPathState s = Inr (t, s') \<Longrightarrow> same_core s s'"
  by (drule record_frame) (auto simp: same_core_def)

lemma same_core_append: "same_core s (appendCriticalPathEvent ev s)"
  by (simp add: same_core_def appendCriticalPathEvent_def)

lemma same_core_wake: "same_core s (resolveIdleWaiters s)"
  by (simp add: same_core_def resolveIdleWaiters_def)

lemma same_core_idle: "same_core s (snd (idle s))"
  by (simp add: same_core_def idle_def)

lemma same_core_begin: "beginCriticalPathActivity name stageName s = Inr (i, s') \<Longrightarrow> same_core s s'"
  by (auto simp: same_core_def beginCriticalPathActivity_def bindR_Inr_iff hrtime_def Let_def)

lemma same_core_end: "finishCriticalPathActivity i cache out s = Inr s' \<Longrightarrow> same_core s s'"
  by (auto simp: same_core_def finishCriticalPathActivity_def hrtime_def Let_def appendCriticalPathEvent_def split: if_splits)

lemmas same_core_moves = same_core_record same_core_append same_core_wake same_core_idle same_core_begin same_core_end

section \<open>The invariant is kept\<close>

lemma filter_other_ids:
  "distinct (map entryId R) \<Longrightarrow> e \<in> set R \<Longrightarrow> filter (\<lambda>x. entryId x \<noteq> entryId e) R = remove1 e R"
proof (induction R)
  case (Cons x R)
  show ?case
  proof (cases "x = e")
    case True
    then have "filter (\<lambda>x. entryId x \<noteq> entryId e) R = R" using Cons.prems(1) by (auto simp: filter_id_conv image_iff)
    then show ?thesis using True by simp
  next
    case False
    then show ?thesis using Cons by auto
  qed
qed simp

lemma distinct_part: "mset xs + M = mset [0..<n] \<Longrightarrow> distinct xs"
  by (metis distinct_append distinct_upt ex_mset mset_append mset_eq_imp_distinct_iff)

lemma placement_ids:
  assumes "placement_inv s"
  shows "distinct (map entryId (running s))" and "e \<in> set (running s) \<union> set (queue s) \<Longrightarrow> entryId e < nextEntry s"
proof -
  have all: "mset (map entryId (running s)) + (mset (map entryId (queue s)) + mset (map fst (settledPromises s))) = mset [0..<nextEntry s]"
    using assms by (simp only: placement_inv_def add.assoc)
  then show "distinct (map entryId (running s))" by (rule distinct_part)
  assume "e \<in> set (running s) \<union> set (queue s)"
  then have "entryId e \<in># mset (map entryId (running s)) + (mset (map entryId (queue s)) + mset (map fst (settledPromises s)))"
    by (auto simp del: map_map)
  then show "entryId e < nextEntry s" unfolding all by simp
qed

lemma running_remove:
  assumes "distinct (map entryId (running s))" "e \<in> set (running s)"
  shows "map fst (filter (\<lambda>(x, _). entryId x \<noteq> entryId e) (runningOperations s)) = remove1 e (running s)"
proof -
  have "map fst (filter (\<lambda>(x, _). entryId x \<noteq> entryId e) (runningOperations s)) = filter (\<lambda>x. entryId x \<noteq> entryId e) (running s)"
    by (induction "runningOperations s" arbitrary: s) (auto simp: filter_map o_def case_prod_unfold)
  then show ?thesis using filter_other_ids[OF assms] by simp
qed

lemma canAdmit_entry_fits: "entry_fits p e \<Longrightarrow> 0 < entrySlots e \<and> 0 < entryAdmission e"
  by (simp add: entry_fits_def)

lemma inv_start:
  assumes "scheduler_inv s" and deq: "dequeueNextAdmissible s = (Some e, s')"
  shows "scheduler_inv (start_entry e s')"
proof -
  have inv: "capacity_inv s" "entries_inv s" "placement_inv s" using assms(1) by (simp_all add: scheduler_inv_def)
  obtain pre post where q: "queue s = pre @ e # post" "queue s' = pre @ post" "canAdmit s e"
    and same: "launchPolicy s' = launchPolicy s" "runningOperations s' = runningOperations s"
      "activeCount s' = activeCount s" "activeAdmission s' = activeAdmission s" "activeWorkerSlots s' = activeWorkerSlots s"
      "activeWorkingSet s' = activeWorkingSet s" "startedOperations s' = startedOperations s" "settledPromises s' = settledPromises s"
      "nextEntry s' = nextEntry s" "completedCount s' = completedCount s" "failedCount s' = failedCount s" "requestCount s' = requestCount s"
    and bf: "0 \<le> backfilledWorkerSlots s' \<and> backfilledWorkerSlots s' \<le> jobs (launchPolicy s) - 1"
    using dequeue_Some[OF deq]
  proof
    assume "\<exists>rest. queue s = e # rest \<and> canAdmit s e
      \<and> s' = (if backfilledHead s = Some (entryId e) then s\<lparr>queue := rest, backfilledHead := None, backfilledWorkerSlots := 0\<rparr>
              else s\<lparr>queue := rest\<rparr>)"
    then obtain rest where "queue s = [] @ e # rest" "canAdmit s e" and
      s': "s' = (if backfilledHead s = Some (entryId e) then s\<lparr>queue := rest, backfilledHead := None, backfilledWorkerSlots := 0\<rparr>
              else s\<lparr>queue := rest\<rparr>)" by auto
    then show thesis using inv(2) by (intro that[of "[]" rest]) (auto simp: entries_inv_def)
  next
    assume "\<exists>h pre post. queue s = h # pre @ e # post \<and> \<not> canAdmit s h \<and> canAdmit s e
      \<and> entrySlots e \<le> jobs (launchPolicy s) - 1 - wave_charge s h
      \<and> s' = s\<lparr>queue := h # pre @ post, backfilledHead := Some (entryId h),
               backfilledWorkerSlots := wave_charge s h + entrySlots e\<rparr>"
    then obtain h pre post where *: "queue s = (h # pre) @ e # post" "canAdmit s e"
      "entrySlots e \<le> jobs (launchPolicy s) - 1 - wave_charge s h"
      "s' = s\<lparr>queue := h # pre @ post, backfilledHead := Some (entryId h), backfilledWorkerSlots := wave_charge s h + entrySlots e\<rparr>"
      by auto
    moreover have "entry_fits (launchPolicy s) e" using inv(2) *(1) by (simp add: entries_inv_def)
    moreover have "0 \<le> wave_charge s h" using inv(2) by (simp add: wave_charge_def entries_inv_def)
    ultimately show thesis by (intro that[of "h # pre" post]) (auto simp: entry_fits_def)
  qed
  have "capacity_inv (start_entry e s')"
    using inv(1) q(3) same by (simp add: capacity_inv_def start_entry_effect canAdmit_def)
  moreover have "entries_inv (start_entry e s')"
    using inv(2) q(1,2) same bf by (auto simp: entries_inv_def start_entry_effect)
  moreover have "entryId e < nextEntry s" by (rule placement_ids(2)[OF inv(3)]) (simp add: q(1))
  moreover have "placement_inv (start_entry e s')"
  proof -
    have "mset (map entryId (running s)) + {#entryId e#} + mset (map entryId (pre @ post)) + mset (map fst (settledPromises s))
        = mset (map entryId (running s)) + mset (map entryId (queue s)) + mset (map fst (settledPromises s))"
      by (simp add: q(1))
    moreover have "distinct (map entryId (startedOperations s @ [e]) @ map entryId (pre @ post))"
      using inv(3) by (auto simp: placement_inv_def q(1))
    ultimately show ?thesis
      using inv(3) \<open>entryId e < nextEntry s\<close>
      by (simp add: placement_inv_def start_entry_effect same q)
  qed
  ultimately show ?thesis by (simp add: scheduler_inv_def)
qed

lemma wave_charge_bounds:
  "entries_inv s \<Longrightarrow> 0 \<le> wave_charge s h \<and> wave_charge s h \<le> jobs (launchPolicy s) - 1"
  by (simp add: entries_inv_def wave_charge_def)

lemma inv_block:
  assumes "scheduler_inv s" "dequeueNextAdmissible s = (None, s')"
  shows "scheduler_inv s'"
proof -
  from dequeue_None[OF assms(2)] consider "s' = s"
    | h where "s' = s\<lparr>backfilledHead := Some (entryId h), backfilledWorkerSlots := wave_charge s h\<rparr>" by blast
  then show ?thesis
  proof cases
    case 2
    then show ?thesis using assms(1) wave_charge_bounds[of s h]
      by (simp add: scheduler_inv_def capacity_inv_def entries_inv_def placement_inv_def)
  qed (use assms(1) in simp)
qed

lemma inv_reject:
  assumes "scheduler_inv s"
  shows "scheduler_inv (foldl (reject_queued err) (s\<lparr>queue := []\<rparr>) (queue s))"
proof -
  obtain stages classes where eq: "foldl (reject_queued err) (s\<lparr>queue := []\<rparr>) (queue s)
     = s\<lparr>queue := [], stageStats := stages, classStats := classes,
         settledPromises := settledPromises s @ map (\<lambda>e. (entryId e, Rejected err)) (queue s)\<rparr>"
    using reject_all_effect[of err "s\<lparr>queue := []\<rparr>" "queue s"] by auto
  show ?thesis unfolding eq using assms
    by (auto simp: scheduler_inv_def capacity_inv_def entries_inv_def placement_inv_def o_def ac_simps)
qed

lemma inv_finish:
  assumes "scheduler_inv s" "(e, startedAt) \<in> set (runningOperations s)"
    and "settle_operation e out s = (s1, label, failure)" "recordCriticalPathState s1 = Inr (t, s2)"
  shows "scheduler_inv (release_operation e (appendCriticalPathEvent ev s2))"
proof -
  let ?s = "appendCriticalPathEvent ev s2"
  have e: "e \<in> set (running s)" using assms(2) by force
  have inv: "capacity_inv s" "entries_inv s" "placement_inv s" using assms(1) by (simp_all add: scheduler_inv_def)
  have 1: "only_settled (entryId e) s s1" by (rule settle_operation_effect[OF assms(3)])
  have "same_core s1 ?s" using same_core_record[OF assms(4)] same_core_append[of s2 ev] by (simp add: same_core_def)
  then have same: "launchPolicy ?s = launchPolicy s" "activeCount ?s = activeCount s" "activeAdmission ?s = activeAdmission s"
    "activeWorkerSlots ?s = activeWorkerSlots s" "activeWorkingSet ?s = activeWorkingSet s" "requestCount ?s = requestCount s"
    "queue ?s = queue s" "backfilledWorkerSlots ?s = backfilledWorkerSlots s" "runningOperations ?s = runningOperations s"
    "startedOperations ?s = startedOperations s" "nextEntry ?s = nextEntry s"
    "completedCount ?s + failedCount ?s = completedCount s + failedCount s + 1"
    "map fst (settledPromises ?s) = map fst (settledPromises s) @ [entryId e]"
    using 1 by (simp_all add: same_core_def only_settled_def)
  have ids: "distinct (map entryId (running s))" by (rule placement_ids(1)[OF inv(3)])
  have rel: "running (release_operation e ?s) = remove1 e (running s)"
    using running_remove[OF ids e] by (simp add: release_operation_def updateStats_def Let_def same)
  have fits: "entry_fits (launchPolicy s) e" using inv(2) e by (simp add: entries_inv_def)
  have len: "0 < length (running s)" using e by (cases "running s") auto
  have sums: "sum_list (map f (remove1 e (running s))) = sum_list (map f (running s)) - f e" for f :: "entry \<Rightarrow> int"
    using sum_list_map_remove1[OF e, of f] by simp
  have count: "int (length (remove1 e (running s))) = int (length (running s)) - 1"
    using e len by (simp add: length_remove1 of_nat_diff Suc_leI del: length_map)
  have "capacity_inv (release_operation e ?s)"
    unfolding capacity_inv_def rel sums count using inv(1) fits
    by (simp add: release_operation_def updateStats_def Let_def same capacity_inv_def entry_fits_def del: map_map length_map)
  moreover have "entries_inv (release_operation e ?s)"
    unfolding entries_inv_def rel using inv(2) set_remove1_subset[of e "running s"]
    by (auto simp: release_operation_def updateStats_def Let_def same entries_inv_def)
  moreover have "mset (map entryId (remove1 e (running s))) + {#entryId e#} = mset (map entryId (running s))"
    using e by (metis add_mset_add_single image_mset_add_mset mset_map mset_remove1 insert_DiffM set_mset_mset)
  then have "mset (map entryId (remove1 e (running s))) + mset (map entryId (queue s)) + (mset (map fst (settledPromises s)) + {#entryId e#})
      = mset [0..<nextEntry s]"
    using inv(3) unfolding placement_inv_def by (metis add.assoc add.commute)
  then have "placement_inv (release_operation e ?s)"
    unfolding placement_inv_def rel count using inv(3)
    by (simp add: release_operation_def updateStats_def Let_def same placement_inv_def count del: map_map length_map)
  ultimately show ?thesis by (simp add: scheduler_inv_def)
qed

lemma check_request_slots:
  assumes "check_request p q = Inr c"
  shows "1 \<le> checkedSlots c \<and> checkedSlots c \<le> jobs p \<and> 1 \<le> checkedEstimate c"
proof -
  obtain name closes where head: "native_requireString (requestStage q) ''native-phase scheduling stage'' = Inr name" "requestIsFunction q"
      "(case with_default (requestClosesAdmission q) (JBool True) of JBool b \<Rightarrow> Inr b
        | _ \<Rightarrow> native_fail ''native-phase scheduling failureClosesAdmission must be a boolean'') = Inr closes"
    using assms by (auto simp: check_request_def bindR_Inr_iff split: if_splits)
  obtain stagePolicy where stage: "map_of nativePhaseSchedulingStages name = Some stagePolicy"
    using assms head by (cases "map_of nativePhaseSchedulingStages name")
      (auto simp: check_request_def bindR_Inr_iff split: if_splits)
  obtain n estimate where n: "native_requirePositiveInteger (with_default (requestSlots q) (JNum (NInt 1))) ''native-phase scheduling worker slots'' = Inr n"
      "optional_estimate (requestEstimate q) = Inr estimate" "slots_exceed_jobs p n = Inr ()"
    using assms head stage by (auto simp: check_request_def bindR_Inr_iff)
  have *: "map_of nativePhaseSchedulingStages name = Some stagePolicy"
      "0 < n" "n \<le> jobs p" "optional_estimate (requestEstimate q) = Inr estimate"
      "checkedSlots c = effectiveNativePhaseWorkerSlots stagePolicy n estimate"
      "checkedEstimate c = (case estimate of None \<Rightarrow> defaultStageWorkingSetEstimateBytes stagePolicy | Some n \<Rightarrow> n)"
    using assms head stage n native_requirePositiveInteger_Inr[OF n(1)]
    by (simp_all add: check_request_def slots_exceed_jobs_def split: if_splits) auto
  have "stagePolicy \<in> snd ` set nativePhaseSchedulingStages" using map_of_SomeD[OF *(1)] by force
  then have "1 \<le> defaultStageWorkingSetEstimateBytes stagePolicy"
    by (auto simp: nativePhaseSchedulingStages_def stage_def defaultStageWorkingSetEstimateBytes_def native_constants)
  moreover have "estimate = Some k \<Longrightarrow> 1 \<le> k" for k
    using *(4) by (auto simp: optional_estimate_def bindR_Inr_iff split: if_splits dest!: native_requirePositiveInteger_Inr)
  ultimately show ?thesis using effective_slots_bounds[of n stagePolicy estimate] *(2,3,5,6) by (auto split: option.splits)
qed

lemma inv_push:
  assumes "scheduler_inv s" "check_request (launchPolicy s) q = Inr c" "recordCriticalPathState (count_request c s) = Inr (t, s1)"
  shows "scheduler_inv (push_entry c s1)"
proof -
  have same: "same_core (count_request c s) s1" by (rule same_core_record[OF assms(3)])
  have inv: "capacity_inv s" "entries_inv s" "placement_inv s" using assms(1) by (simp_all add: scheduler_inv_def)
  have "entryId e \<noteq> nextEntry s" if "e \<in> set (queue s)" for e
    using placement_ids(2)[OF inv(3)] that by (metis UnI2 less_irrefl)
  then have "placement_inv (push_entry c s1)"
    using same inv(3) by (force simp: same_core_def count_request_def push_entry_def hrtime_def Let_def placement_inv_def)
  moreover have "capacity_inv (push_entry c s1)"
    using same inv(1) by (simp add: same_core_def count_request_def push_entry_def hrtime_def Let_def capacity_inv_def)
  moreover have "entries_inv (push_entry c s1)"
    using same inv(2) check_request_slots[OF assms(2)]
    by (simp add: same_core_def count_request_def push_entry_def hrtime_def Let_def entries_inv_def entry_fits_def ball_Un)
  ultimately show ?thesis by (simp add: scheduler_inv_def)
qed

lemma scheduler_move_inv: "scheduler_move s s' \<Longrightarrow> scheduler_inv s \<Longrightarrow> scheduler_inv s'"
proof (induction rule: scheduler_move.induct)
  case (move_record s t s')
  then show ?case using same_core_inv same_core_moves by blast
qed (auto intro: inv_start inv_block inv_reject inv_finish inv_push same_core_inv same_core_moves)

end
