(* ===== verification/NativeCorrect.thy ===== *)
theory NativeCorrect
  imports NativeInvariant
begin

text \<open>
  What the scheduler guarantees at every moment between two events: it stays within its budgets, every
  request is in one place, it leaves no admissible work waiting and cannot stall, a waiting command is
  overtaken by at most one bounded wave, a failure closes admission for good, and idle waiters wake.
\<close>

section \<open>Capacity and placement\<close>

interpretation native: event_system scheduler_step scheduler_move scheduler_inv
  by unfold_locales (auto intro: scheduler_step_moves scheduler_move_inv)

lemma new_scheduler_inv:
  assumes "createConvexWasmNativePhaseScheduler time policy = Inr s"
  shows "scheduler_inv s" and "queue s = []" and "idleWaiters s = []" and "schedulingFailure s = None"
proof -
  obtain p where p: "normalizeConvexWasmNativeLaunchPolicy policy = Inr p" and s: "launchPolicy s = p" "activeCount s = 0"
    "activeAdmission s = 0" "activeWorkerSlots s = 0" "activeWorkingSet s = 0" "completedCount s = 0" "failedCount s = 0"
    "requestCount s = 0" "queue s = []" "backfilledWorkerSlots s = 0" "runningOperations s = []" "startedOperations s = []"
    "settledPromises s = []" "nextEntry s = 0" "idleWaiters s = []" "schedulingFailure s = None"
    using assms by (auto simp: createConvexWasmNativePhaseScheduler_def bindR_Inr_iff)
  have "1 \<le> jobs p \<and> 1 \<le> aggregateMemoryMaxBytes p"
    using p by (auto simp: normalizeConvexWasmNativeLaunchPolicy_def bindR_Inr_iff split: if_splits
        dest!: native_requirePositiveInteger_Inr)
  then show "scheduler_inv s"
    by (simp add: scheduler_inv_def capacity_inv_def entries_inv_def placement_inv_def s)
qed (use assms in \<open>auto simp: createConvexWasmNativePhaseScheduler_def bindR_Inr_iff\<close>)

section \<open>No admissible work waits\<close>

definition work_conserving :: "scheduler \<Rightarrow> bool" where
  "work_conserving s \<longleftrightarrow> (schedulingFailure s \<noteq> None \<longrightarrow> queue s = [])
     \<and> (\<forall>h rest. queue s = h # rest \<longrightarrow> \<not> canAdmit s h
          \<and> (\<forall>e \<in> set rest. canAdmit s e \<longrightarrow> jobs (launchPolicy s) - 1 - wave_charge s h < entrySlots e))"

lemma same_core_admit: "same_core s s' \<Longrightarrow> canAdmit s' = canAdmit s \<and> wave_charge s' = wave_charge s"
  by (simp add: same_core_def canAdmit_def wave_charge_def fun_eq_iff)

lemma same_core_conserving: "same_core s s' \<Longrightarrow> work_conserving s \<Longrightarrow> work_conserving s'"
  using same_core_admit[of s s'] by (simp add: same_core_def work_conserving_def)

lemma dequeue_frame:
  "dequeueNextAdmissible s = (r, s') \<Longrightarrow>
     schedulingFailure s' = schedulingFailure s \<and> activeCount s' = activeCount s \<and> idleWaiters s' = idleWaiters s"
  by (auto simp: dequeueNextAdmissible_def Let_def split: list.splits if_splits option.splits)

lemma drain_queue_conserving:
  "drain_queue s = Inr s' \<Longrightarrow> schedulingFailure s = None \<Longrightarrow>
    work_conserving s' \<and> activeCount s \<le> activeCount s' \<and> idleWaiters s' = idleWaiters s"
proof (induction s rule: drain_queue.induct)
  case (1 s)
  show ?case
  proof (cases "queue s = []")
    case True
    then have "s' = s" using "1.prems"(1) by (simp add: drain_queue.simps[of s])
    then show ?thesis using True "1.prems"(2) by (simp add: work_conserving_def)
  next
    case False
    obtain t s1 where rec: "recordCriticalPathState s = Inr (t, s1)" using record_Inr by blast
    then have s1: "schedulingFailure s1 = None" "activeCount s1 = activeCount s" "idleWaiters s1 = idleWaiters s"
      using record_frame[OF rec] "1.prems"(2) by auto
    obtain r s2 where deq: "dequeueNextAdmissible s1 = (r, s2)" by fastforce
    show ?thesis
    proof (cases r)
      case None
      then have s': "s' = s2" using "1.prems"(1) False rec deq by (simp add: drain_queue.simps[of s])
      from dequeue_None[OF deq[unfolded None]] consider "queue s1 = []" "s2 = s1"
        | h rest where "queue s1 = h # rest" "\<not> canAdmit s1 h"
          "\<forall>e \<in> set rest. \<not> (entrySlots e \<le> jobs (launchPolicy s1) - 1 - wave_charge s1 h \<and> canAdmit s1 e)"
          "s2 = s1\<lparr>backfilledHead := Some (entryId h), backfilledWorkerSlots := wave_charge s1 h\<rparr>" by blast
      then show ?thesis
      proof cases
        case 1
        then show ?thesis using s' s1 by (simp add: work_conserving_def)
      next
        case 2
        have same: "canAdmit s2 = canAdmit s1" "wave_charge s2 h = wave_charge s1 h" "launchPolicy s2 = launchPolicy s1"
          "queue s2 = h # rest" "schedulingFailure s2 = None"
          using 2(1) s1(1) unfolding 2(4) by (simp_all add: canAdmit_def wave_charge_def fun_eq_iff)
        have "work_conserving s2"
          unfolding work_conserving_def same using 2(2,3) by (simp add: same(2) not_le) blast
        then show ?thesis using s' s1 2(4) by simp
      qed
    next
      case (Some e)
      have next_: "drain_queue (start_entry e s2) = Inr s'"
        using "1.prems"(1) False rec deq Some by (simp add: drain_queue.simps[of s])
      have s2: "schedulingFailure s2 = None \<and> activeCount s2 = activeCount s \<and> idleWaiters s2 = idleWaiters s"
        using dequeue_frame[OF deq] s1 by simp
      have ok: "schedulingFailure (start_entry e s2) = None" using s2 by (simp only: start_entry_effect)
      have counts: "activeCount (start_entry e s2) = activeCount s + 1" "idleWaiters (start_entry e s2) = idleWaiters s"
        using s2 by (simp_all only: start_entry_effect)
      note ih = "1.IH"[OF False rec refl deq[symmetric] Some next_ ok]
      show ?thesis using ih unfolding counts by (elim conjE) (intro conjI, assumption, linarith, assumption)
    qed
  qed
qed

lemma drain_conserving:
  assumes "drain s = Inr s'"
  shows "work_conserving s'"
proof (cases "schedulingFailure s")
  case None
  then show ?thesis using assms drain_queue_conserving by (simp add: drain_def)
next
  case (Some err)
  obtain t s1 where rec: "recordCriticalPathState s = Inr (t, s1)" using record_Inr by blast
  let ?s2 = "foldl (reject_queued err) (s1\<lparr>queue := []\<rparr>) (queue s1)"
  have "queue ?s2 = []" using reject_all_effect[of err "s1\<lparr>queue := []\<rparr>" "queue s1"] by auto
  moreover have "s' = resolveIdleWaiters ?s2" using assms Some rec by (simp add: drain_def drain_rejected_def)
  ultimately show ?thesis using same_core_wake[of ?s2] by (simp add: work_conserving_def same_core_def)
qed

lemma settle_conserving:
  assumes "settle i out s = Inr s'" "work_conserving s"
  shows "work_conserving s' \<and> (s' = s \<or> (\<exists>s4. work_conserving s4 \<and> s' = resolveIdleWaiters s4))"
proof (cases "find (\<lambda>(e, _). entryId e = i) (runningOperations s)")
  case (Some r)
  then obtain s3 s4 where "drain s3 = Inr s4" "s' = resolveIdleWaiters s4"
    using assms(1) by (auto simp: settle_def finish_operation_def bindR_Inr_iff Let_def split: prod.splits)
  then show ?thesis using drain_conserving same_core_conserving same_core_wake by blast
qed (use assms in \<open>simp add: settle_def\<close>)

text \<open>Idle waiters wait only while something runs.\<close>

definition waiters_ok :: "scheduler \<Rightarrow> bool" where
  "waiters_ok s \<longleftrightarrow> idleWaiters s = [] \<or> activeCount s \<noteq> 0"

lemma nothing_running_admits:
  assumes "scheduler_inv s" "work_conserving s" "queue s \<noteq> []"
  shows "activeCount s \<noteq> 0"
proof
  assume "activeCount s = 0"
  then have idle: "runningOperations s = []" using assms(1) by (simp add: scheduler_inv_def capacity_inv_def)
  obtain h rest where q: "queue s = h # rest" using assms(3) by (cases "queue s") auto
  have "entry_fits (launchPolicy s) h" using assms(1) q by (simp add: scheduler_inv_def entries_inv_def)
  then have "canAdmit s h"
    using idle assms(1) by (simp add: canAdmit_def scheduler_inv_def capacity_inv_def entry_fits_def)
  then show False using assms(2) q by (simp add: work_conserving_def)
qed

lemma run_conserving:
  assumes "run q s = Inr (answer, s')" "work_conserving s" "waiters_ok s"
    and count: "0 \<le> activeCount s"
  shows "work_conserving s' \<and> waiters_ok s'"
proof -
  obtain c where c: "check_request (launchPolicy s) q = Inr c" using assms(1) by (auto simp: run_def bindR_Inr_iff)
  show ?thesis
  proof (cases "schedulingFailure s")
    case None
    obtain t s1 where rec: "recordCriticalPathState (count_request c s) = Inr (t, s1)" using record_Inr by blast
    have s2: "drain (push_entry c s1) = Inr s'" using assms(1) None c rec by (auto simp: run_def enqueue_def bindR_Inr_iff)
    have fields: "schedulingFailure (push_entry c s1) = None" "activeCount (push_entry c s1) = activeCount s"
      "idleWaiters (push_entry c s1) = idleWaiters s"
      using record_frame[OF rec] None by (auto simp: push_entry_def hrtime_def Let_def count_request_def)
    then have "activeCount s \<le> activeCount s' \<and> idleWaiters s' = idleWaiters s"
      using drain_queue_conserving[of "push_entry c s1" s'] s2 by (simp add: drain_def)
    then show ?thesis using drain_conserving[OF s2] assms(3) count by (auto simp: waiters_ok_def)
  qed (use assms c in \<open>simp add: run_def\<close>)
qed

definition settled_state :: "scheduler \<Rightarrow> bool" where
  "settled_state s \<longleftrightarrow> scheduler_inv s \<and> work_conserving s \<and> waiters_ok s"

lemma same_core_settled:
  assumes "settled_state s" "same_core s s'" "idleWaiters s' = idleWaiters s \<or> activeCount s \<noteq> 0"
  shows "settled_state s'"
  using assms same_core_inv same_core_conserving by (auto simp: settled_state_def waiters_ok_def same_core_def)

lemma settled_step:
  assumes "settled_state s"
  shows "settled_state (scheduler_step s ev)"
proof -
  have inv: "scheduler_inv (scheduler_step s ev)" using native.step_inv assms by (simp add: settled_state_def)
  show ?thesis
  proof (cases ev)
    case (RunEvent q)
    have "0 \<le> activeCount s" using assms by (simp add: settled_state_def scheduler_inv_def capacity_inv_def)
    then show ?thesis using run_conserving assms inv RunEvent
      by (auto simp: settled_state_def committed_def split: sum.splits)
  next
    case (SettleEvent i out)
    obtain s' where s': "settle i out s = Inr s'" using settle_moves by blast
    then have inv': "scheduler_inv s'" using inv SettleEvent by (simp add: committed_def)
    have cons: "work_conserving s'" using settle_conserving[OF s'] assms by (simp add: settled_state_def)
    have "waiters_ok s'"
    proof -
      from settle_conserving[OF s'] assms consider "s' = s" | s4 where "s' = resolveIdleWaiters s4"
        by (auto simp: settled_state_def)
      then show ?thesis
      proof cases
        case 2
        then show ?thesis using nothing_running_admits[OF inv' cons]
          by (auto simp: waiters_ok_def resolveIdleWaiters_def split: if_splits)
      qed (use assms in \<open>simp add: settled_state_def\<close>)
    qed
    then show ?thesis using inv' cons s' SettleEvent by (simp add: settled_state_def committed_def)
  next
    case IdleEvent
    have "activeCount s \<noteq> 0 \<or> snd (idle s) = s" using nothing_running_admits[of s] assms
      by (auto simp: idle_def settled_state_def)
    then show ?thesis using same_core_settled[OF assms same_core_idle] assms IdleEvent by auto
  next
    case (BeginActivityEvent name stageName)
    have "beginCriticalPathActivity name stageName s = Inr (i, s') \<Longrightarrow> idleWaiters s' = idleWaiters s" for i s'
      by (auto simp: beginCriticalPathActivity_def bindR_Inr_iff hrtime_def Let_def)
    then show ?thesis using same_core_settled[OF assms same_core_begin] assms BeginActivityEvent
      by (auto simp: committed_def split: sum.splits)
  next
    case (FinishActivityEvent i cache out)
    have "finishCriticalPathActivity i cache out s = Inr s' \<Longrightarrow> idleWaiters s' = idleWaiters s" for s'
      by (auto simp: finishCriticalPathActivity_def hrtime_def Let_def appendCriticalPathEvent_def split: if_splits)
    then show ?thesis using same_core_settled[OF assms same_core_end] assms FinishActivityEvent
      by (auto simp: committed_def bindR_Inr_iff split: sum.splits)
  next
    case ReportEvent
    have "report s = Inr (r, s') \<Longrightarrow> same_core s s' \<and> idleWaiters s' = idleWaiters s" for r s'
      using same_core_record record_frame by (fastforce simp: report_def bindR_Inr_iff)
    then show ?thesis using same_core_settled[OF assms] assms ReportEvent
      by (auto simp: committed_def split: sum.splits)
  qed
qed

lemma new_scheduler_settled:
  assumes "createConvexWasmNativePhaseScheduler time policy = Inr s"
  shows "settled_state (foldl scheduler_step s events)"
proof (induction events rule: rev_induct)
  case Nil
  then show ?case using new_scheduler_inv[OF assms] by (simp add: settled_state_def work_conserving_def waiters_ok_def)
qed (simp add: settled_step)

end
