(* ===== verification/NativeFair.thy ===== *)
theory NativeFair
  imports NativeCorrect
begin

text \<open>
  Fairness and failure: the ghost invariant that bounds what overtakes a blocked head, and what the
  scheduler does once a failure has closed admission. Both are invariants of the scheduler's moves.
\<close>

section \<open>Overtaking\<close>

text \<open>\<open>n\<close> operations had started when \<open>h\<close> was at the head; as long as \<open>h\<close> waits it is the head, and what
  started since is charged to its wave.\<close>

definition overtaken_inv :: "entry \<Rightarrow> nat \<Rightarrow> scheduler \<Rightarrow> bool" where
  "overtaken_inv h n s \<longleftrightarrow> scheduler_inv s \<and> entryId h < nextEntry s \<and> n \<le> length (startedOperations s)
     \<and> (h \<in> set (queue s) \<longrightarrow> hd (queue s) = h
          \<and> sum_list (map entrySlots (drop n (startedOperations s))) \<le> wave_charge s h)"

lemma overtaken_same_core:
  assumes "same_core s s'" "overtaken_inv h n s"
  shows "overtaken_inv h n s'"
proof -
  have "scheduler_inv s'" using assms same_core_inv by (auto simp: overtaken_inv_def)
  moreover have "wave_charge s' h = wave_charge s h" using same_core_admit[OF assms(1)] by simp
  ultimately show ?thesis using assms by (simp add: overtaken_inv_def same_core_def)
qed

lemma queue_distinct: "scheduler_inv s \<Longrightarrow> distinct (map entryId (queue s))"
  by (simp add: scheduler_inv_def placement_inv_def)

lemma overtaken_start:
  assumes inv: "overtaken_inv h n s" and deq: "dequeueNextAdmissible s = (Some e, s')"
  shows "overtaken_inv h n (start_entry e s')"
proof -
  have s: "scheduler_inv s" "entryId h < nextEntry s" "n \<le> length (startedOperations s)"
    using inv by (simp_all add: overtaken_inv_def)
  have q: "h \<in> set (queue s) \<Longrightarrow> hd (queue s) = h \<and> sum_list (map entrySlots (drop n (startedOperations s))) \<le> wave_charge s h"
    using inv by (simp add: overtaken_inv_def)
  have new: "scheduler_inv (start_entry e s')" by (rule inv_start[OF s(1) deq])
  from dequeue_Some[OF deq] consider rest where "queue s = e # rest"
      "s' = (if backfilledHead s = Some (entryId e) then s\<lparr>queue := rest, backfilledHead := None, backfilledWorkerSlots := 0\<rparr>
              else s\<lparr>queue := rest\<rparr>)"
    | g pre post where "queue s = g # pre @ e # post"
      "s' = s\<lparr>queue := g # pre @ post, backfilledHead := Some (entryId g), backfilledWorkerSlots := wave_charge s g + entrySlots e\<rparr>"
    by blast
  then show ?thesis
  proof cases
    case 1
    then have "queue s' = rest" "startedOperations s' = startedOperations s" "nextEntry s' = nextEntry s" by auto
    moreover have "h \<notin> set rest"
    proof
      assume "h \<in> set rest"
      then have "h = e" using q 1(1) by simp
      then show False using \<open>h \<in> set rest\<close> queue_distinct[OF s(1)] 1(1) by auto
    qed
    ultimately show ?thesis using new s by (simp add: overtaken_inv_def start_entry_effect)
  next
    case 2
    have hg: "h = g" if "h \<in> set (g # pre @ post)"
      using q that by (auto simp: 2(1))
    have fields: "queue s' = g # pre @ post" "startedOperations s' = startedOperations s" "nextEntry s' = nextEntry s"
      "backfilledHead s' = Some (entryId g)" "backfilledWorkerSlots s' = wave_charge s g + entrySlots e"
      by (simp_all add: 2(2))
    have "sum_list (map entrySlots (drop n (startedOperations s @ [e]))) \<le> wave_charge s g + entrySlots e" if "h = g"
      using q that s(3) by (simp add: 2(1))
    then show ?thesis using new s(2,3) hg
      by (simp add: overtaken_inv_def start_entry_effect wave_charge_def[of "start_entry e s'"] fields del: set_append) blast
  qed
qed

lemma overtaken_block:
  assumes inv: "overtaken_inv h n s" and deq: "dequeueNextAdmissible s = (None, s')"
  shows "overtaken_inv h n s'"
proof -
  have "scheduler_inv s" using inv by (simp add: overtaken_inv_def)
  then have "scheduler_inv s'" using deq by (rule inv_block)
  from dequeue_None[OF deq] consider "s' = s" | g rest where "queue s = g # rest"
      "s' = s\<lparr>backfilledHead := Some (entryId g), backfilledWorkerSlots := wave_charge s g\<rparr>" by blast
  then show ?thesis
  proof cases
    case 2
    then show ?thesis using inv \<open>scheduler_inv s'\<close> by (auto simp: overtaken_inv_def wave_charge_def)
  qed (use inv in simp)
qed

lemma overtaken_finish:
  assumes inv: "overtaken_inv h n s" and new: "scheduler_inv (release_operation e (appendCriticalPathEvent ev s2))"
    and op: "settle_operation e out s = (s1, label, failure)" and rec: "recordCriticalPathState s1 = Inr (t, s2)"
  shows "overtaken_inv h n (release_operation e (appendCriticalPathEvent ev s2))" (is "overtaken_inv h n ?s3")
proof -
  note record_frame[OF rec]
  then have "queue s2 = queue s \<and> startedOperations s2 = startedOperations s \<and> nextEntry s2 = nextEntry s
      \<and> backfilledHead s2 = backfilledHead s \<and> backfilledWorkerSlots s2 = backfilledWorkerSlots s"
    using settle_operation_effect[OF op] by (auto simp: only_settled_def)
  then have "queue ?s3 = queue s" "startedOperations ?s3 = startedOperations s" "nextEntry ?s3 = nextEntry s"
      "wave_charge ?s3 h = wave_charge s h"
    by (simp_all add: release_operation_def updateStats_def appendCriticalPathEvent_def wave_charge_def Let_def)
  then show ?thesis using inv new by (simp add: overtaken_inv_def)
qed

lemma overtaken_push:
  assumes inv: "overtaken_inv h n s" and new: "scheduler_inv (push_entry c s1)"
    and rec: "recordCriticalPathState (count_request c s) = Inr (t, s1)"
  shows "overtaken_inv h n (push_entry c s1)"
proof -
  have frame: "queue s1 = queue s" "startedOperations s1 = startedOperations s" "nextEntry s1 = nextEntry s"
      "backfilledHead s1 = backfilledHead s" "backfilledWorkerSlots s1 = backfilledWorkerSlots s"
    using record_frame[OF rec] by (auto simp: count_request_def Let_def)
  obtain x where x: "queue (push_entry c s1) = queue s @ [x]" "entryId x = nextEntry s"
    by (auto simp: push_entry_def hrtime_def Let_def frame)
  have fields: "startedOperations (push_entry c s1) = startedOperations s" "nextEntry (push_entry c s1) = Suc (nextEntry s)"
    "wave_charge (push_entry c s1) h = wave_charge s h"
    by (simp_all add: push_entry_def hrtime_def Let_def frame wave_charge_def)
  have "h \<noteq> x" using inv x(2) by (auto simp: overtaken_inv_def)
  then have "h \<in> set (queue (push_entry c s1)) \<Longrightarrow> h \<in> set (queue s) \<and> hd (queue (push_entry c s1)) = hd (queue s)"
    by (cases "queue s") (auto simp: x(1))
  then show ?thesis using inv new by (auto simp: overtaken_inv_def fields)
qed

lemma overtaken_move: "scheduler_move s s' \<Longrightarrow> overtaken_inv h n s \<Longrightarrow> overtaken_inv h n s'"
proof (induction rule: scheduler_move.induct)
  case (move_record s t s')
  then show ?case using overtaken_same_core same_core_record by blast
next
  case (move_start s e s')
  then show ?case using overtaken_start by blast
next
  case (move_block s s')
  then show ?case using overtaken_block by blast
next
  case (move_reject s err)
  have "scheduler_inv (foldl (reject_queued err) (s\<lparr>queue := []\<rparr>) (queue s))"
    using move_reject scheduler_move.move_reject scheduler_move_inv unfolding overtaken_inv_def by blast
  moreover obtain stages classes where "foldl (reject_queued err) (s\<lparr>queue := []\<rparr>) (queue s)
      = s\<lparr>queue := [], stageStats := stages, classStats := classes,
          settledPromises := settledPromises s @ map (\<lambda>e. (entryId e, Rejected err)) (queue s)\<rparr>"
    using reject_all_effect[of err "s\<lparr>queue := []\<rparr>" "queue s"] by auto
  ultimately show ?case using move_reject(2) by (simp add: overtaken_inv_def)
next
  case (move_finish e startedAt s out s1 label failure t s2 ev)
  then have "scheduler_inv (release_operation e (appendCriticalPathEvent ev s2))"
    using scheduler_move.move_finish scheduler_move_inv unfolding overtaken_inv_def by blast
  then show ?case using move_finish overtaken_finish by blast
next
  case (move_push s q c t s1)
  then have "scheduler_inv (push_entry c s1)"
    using scheduler_move.move_push scheduler_move_inv unfolding overtaken_inv_def by blast
  then show ?case using move_push overtaken_push by blast
qed (rule overtaken_same_core[rotated], assumption, rule same_core_moves, assumption?)+

interpretation fair: event_system scheduler_step scheduler_move "overtaken_inv h n" for h n
  by unfold_locales (auto intro: scheduler_step_moves overtaken_move)

section \<open>Closed admission\<close>

definition closed_inv :: "native_error \<Rightarrow> entry list \<Rightarrow> scheduler \<Rightarrow> bool" where
  "closed_inv err started s \<longleftrightarrow> schedulingFailure s = Some err \<and> queue s = [] \<and> startedOperations s = started"

lemma closed_move: "scheduler_move s s' \<Longrightarrow> closed_inv err started s \<Longrightarrow> closed_inv err started s'"
proof (induction rule: scheduler_move.induct)
  case (move_record s t s')
  then show ?case using same_core_record by (auto simp: closed_inv_def same_core_def)
next
  case (move_reject s e)
  then show ?case by (simp add: closed_inv_def)
next
  case (move_finish e startedAt s out s1 label failure t s2 ev)
  have "only_settled (entryId e) s s1" using settle_operation_effect move_finish by blast
  then show ?case using move_finish(4) record_frame[OF move_finish(3)]
    by (auto simp: closed_inv_def only_settled_def release_operation_def updateStats_def appendCriticalPathEvent_def Let_def)
next
  case (move_wake s)
  then show ?case using same_core_wake[of s] by (simp add: closed_inv_def same_core_def)
next
  case (move_idle s)
  then show ?case using same_core_idle[of s] by (simp add: closed_inv_def same_core_def)
next
  case (move_begin name stageName s i s')
  then show ?case using same_core_begin by (auto simp: closed_inv_def same_core_def)
next
  case (move_end i s cache out s')
  then show ?case using same_core_end by (auto simp: closed_inv_def same_core_def)
qed (simp_all add: closed_inv_def)

interpretation closed: event_system scheduler_step scheduler_move "closed_inv err started" for err started
  by unfold_locales (auto intro: scheduler_step_moves closed_move)

end
