(* ===== verification/NativePath.thy ===== *)
theory NativePath
  imports NativeFair
begin

text \<open>
  The critical path that the scheduler records: the limits of its two logs, and the accounting of time.
  The recorded intervals tile the elapsed time, and every total the report shows is the integral over them
  in nanoseconds, up to the roundings of its additions.
\<close>

section \<open>Intervals\<close>

text \<open>The intervals lie between the successive instants \<open>ts\<close> of the clock, none of them is empty.\<close>

definition measured :: "int \<Rightarrow> int list \<Rightarrow> path_interval list \<Rightarrow> bool" where
  "measured start ts xs \<longleftrightarrow> length ts = Suc (length xs) \<and> sorted_wrt (<) ts
     \<and> (\<forall>i < length xs. intervalStartedAt (xs ! i) = milliseconds (ts ! i - start)
          \<and> intervalEndedAt (xs ! i) = milliseconds (ts ! Suc i - start))"

text \<open>The exact integral of a weight over the intervals, in milliseconds.\<close>

definition nanoseconds :: "(path_interval \<Rightarrow> int) \<Rightarrow> int list \<Rightarrow> path_interval list \<Rightarrow> int" where
  "nanoseconds w ts xs = (\<Sum>i < length xs. (ts ! Suc i - ts ! i) * w (xs ! i))"

definition integral :: "(path_interval \<Rightarrow> int) \<Rightarrow> int list \<Rightarrow> path_interval list \<Rightarrow> rat" where
  "integral w ts xs = of_int (nanoseconds w ts xs) / 1000000"

definition state_weight :: "(path_interval \<Rightarrow> int) \<Rightarrow> bool" where
  "state_weight w \<longleftrightarrow> (\<forall>i j. same_interval_state i j \<longrightarrow> w i = w j)"

lemma measured_start: "measured start [t] []"
  by (simp add: measured_def)

lemma sorted_snoc: "sorted_wrt (<) (ts @ [t :: int]) \<longleftrightarrow> sorted_wrt (<) ts \<and> (ts \<noteq> [] \<longrightarrow> last ts < t)"
  by (induction ts rule: rev_induct) (auto simp: sorted_wrt_append)

lemma measured_snoc:
  "measured start (ts @ [t]) (xs @ [i]) \<longleftrightarrow> measured start ts xs \<and> last ts < t
     \<and> intervalStartedAt i = milliseconds (last ts - start) \<and> intervalEndedAt i = milliseconds (t - start)"
proof (cases "length ts = Suc (length xs)")
  case len: True
  then have ne: "ts \<noteq> []" by auto
  then have "last ts = ts ! length xs" using len by (simp add: last_conv_nth)
  moreover have "intervalStartedAt ((xs @ [i]) ! k) = milliseconds ((ts @ [t]) ! k - start)
        \<and> intervalEndedAt ((xs @ [i]) ! k) = milliseconds ((ts @ [t]) ! Suc k - start)
      \<longleftrightarrow> intervalStartedAt (xs ! k) = milliseconds (ts ! k - start) \<and> intervalEndedAt (xs ! k) = milliseconds (ts ! Suc k - start)"
    if "k < length xs" for k
    using that len by (simp add: nth_append)
  then have "(\<forall>k < length xs. intervalStartedAt ((xs @ [i]) ! k) = milliseconds ((ts @ [t]) ! k - start)
        \<and> intervalEndedAt ((xs @ [i]) ! k) = milliseconds ((ts @ [t]) ! Suc k - start))
      \<longleftrightarrow> (\<forall>k < length xs. intervalStartedAt (xs ! k) = milliseconds (ts ! k - start) \<and> intervalEndedAt (xs ! k) = milliseconds (ts ! Suc k - start))"
    by blast
  ultimately show ?thesis unfolding measured_def length_append list.size add_0_right add_Suc_right All_less_Suc
    by (simp add: sorted_snoc len ne nth_append) blast
qed (simp add: measured_def)

lemma nanoseconds_snoc:
  assumes "length ts = Suc (length xs)"
  shows "nanoseconds w (ts @ [t]) (xs @ [i]) = nanoseconds w ts xs + (t - last ts) * w i"
proof -
  have "ts \<noteq> []" using assms by auto
  then have "last ts = ts ! length xs" using assms by (simp add: last_conv_nth)
  moreover have "(\<Sum>k < length xs. ((ts @ [t]) ! Suc k - (ts @ [t]) ! k) * w ((xs @ [i]) ! k)) = nanoseconds w ts xs"
    unfolding nanoseconds_def by (rule sum.cong) (use assms in \<open>auto simp: nth_append\<close>)
  ultimately show ?thesis using assms by (simp add: nanoseconds_def nth_append)
qed

lemma measured_last:
  assumes "measured start ts (xs @ [l])"
  obtains us a where "ts = us @ [a]" "measured start us xs" "last us < a" "intervalStartedAt l = milliseconds (last us - start)"
proof -
  have "ts \<noteq> []" using assms by (auto simp: measured_def)
  then have "ts = butlast ts @ [last ts]" by simp
  then show thesis using assms measured_snoc that by metis
qed

lemma same_interval_state_ended: "same_interval_state (i\<lparr>intervalEndedAt := t\<rparr>) j = same_interval_state i j"
  by (simp add: same_interval_state_def)

lemma append_interval_frame:
  "pathEvents (append_interval i p) = pathEvents p" "pathDroppedEvents (append_interval i p) = pathDroppedEvents p"
  "pathStartedAt (append_interval i p) = pathStartedAt p" "pathLastStateAt (append_interval i p) = pathLastStateAt p"
  "pathActiveCommandMs (append_interval i p) = pathActiveCommandMs p" "pathActiveSlotMs (append_interval i p) = pathActiveSlotMs p"
  "pathIdleMs (append_interval i p) = pathIdleMs p" "pathQueuedStateMs (append_interval i p) = pathQueuedStateMs p"
  by (simp_all add: append_interval_def)

lemma append_interval_limit:
  "length (pathIntervals p) \<le> n \<Longrightarrow> CRITICAL_PATH_EVENT_LIMIT \<le> n \<Longrightarrow> length (pathIntervals (append_interval i p)) \<le> n"
  by (auto simp: append_interval_def)

lemma append_interval_dropped:
  assumes "0 \<le> pathDroppedIntervals p" "pathDroppedIntervals p \<noteq> 0 \<Longrightarrow> length (pathIntervals p) = CRITICAL_PATH_EVENT_LIMIT"
    and "length (pathIntervals p) \<le> CRITICAL_PATH_EVENT_LIMIT"
  shows "0 \<le> pathDroppedIntervals (append_interval i p) \<and> (pathDroppedIntervals (append_interval i p) \<noteq> 0
     \<longrightarrow> length (pathIntervals (append_interval i p)) = CRITICAL_PATH_EVENT_LIMIT)"
proof -
  have "pathIntervals p \<noteq> [] \<Longrightarrow> Suc (length (pathIntervals p) - Suc 0) = length (pathIntervals p)"
    by (cases "pathIntervals p") auto
  then show ?thesis using assms by (cases "pathDroppedIntervals p = 0") (auto simp: append_interval_def)
qed

lemma append_interval_kept:
  assumes "pathDroppedIntervals (append_interval i p) = 0" "0 \<le> pathDroppedIntervals p"
  shows "pathDroppedIntervals p = 0
    \<and> ((\<exists>xs l. pathIntervals p = xs @ [l] \<and> same_interval_state l i
          \<and> pathIntervals (append_interval i p) = xs @ [l\<lparr>intervalEndedAt := intervalEndedAt i\<rparr>])
      \<or> ((pathIntervals p \<noteq> [] \<longrightarrow> \<not> same_interval_state (last (pathIntervals p)) i)
          \<and> pathIntervals (append_interval i p) = pathIntervals p @ [i]))"
proof (cases "pathIntervals p \<noteq> [] \<and> same_interval_state (last (pathIntervals p)) i")
  case True
  then have "pathIntervals p = butlast (pathIntervals p) @ [last (pathIntervals p)]" by simp
  moreover have "pathDroppedIntervals p = 0" "pathIntervals (append_interval i p)
      = butlast (pathIntervals p) @ [(last (pathIntervals p))\<lparr>intervalEndedAt := intervalEndedAt i\<rparr>]"
    using True assms by (simp_all add: append_interval_def)
  ultimately show ?thesis using True by blast
next
  case False
  then show ?thesis using assms by (auto simp: append_interval_def split: if_splits)
qed

text \<open>The states of neighbours differ, so the log is as short as it can be.\<close>

definition neighbours_differ :: "path_interval list \<Rightarrow> bool" where
  "neighbours_differ xs \<longleftrightarrow> successively (\<lambda>i j. \<not> same_interval_state i j) xs"

lemma append_interval_measured:
  assumes kept: "pathDroppedIntervals (append_interval i p) = 0" "0 \<le> pathDroppedIntervals p"
    and old: "measured start ts (pathIntervals p)" "neighbours_differ (pathIntervals p)"
    and new: "last ts < t" "intervalStartedAt i = milliseconds (last ts - start)" "intervalEndedAt i = milliseconds (t - start)"
  shows "\<exists>ts'. measured start ts' (pathIntervals (append_interval i p)) \<and> hd ts' = hd ts \<and> last ts' = t \<and> set ts' \<subseteq> insert t (set ts)
    \<and> neighbours_differ (pathIntervals (append_interval i p))
    \<and> (\<forall>w. state_weight w \<longrightarrow> nanoseconds w ts' (pathIntervals (append_interval i p)) = nanoseconds w ts (pathIntervals p) + (t - last ts) * w i)"
proof -
  from append_interval_kept[OF kept] consider xs l where "pathIntervals p = xs @ [l]" "same_interval_state l i"
      "pathIntervals (append_interval i p) = xs @ [l\<lparr>intervalEndedAt := intervalEndedAt i\<rparr>]"
    | "pathIntervals p \<noteq> [] \<longrightarrow> \<not> same_interval_state (last (pathIntervals p)) i"
      "pathIntervals (append_interval i p) = pathIntervals p @ [i]" by blast
  then show ?thesis
  proof cases
    case 1
    obtain us a where us: "ts = us @ [a]" "measured start us xs" "last us < a" "intervalStartedAt l = milliseconds (last us - start)"
      using old(1) unfolding 1(1) by (rule measured_last)
    have ne: "us \<noteq> []" and len: "length us = Suc (length xs)" using us(2) by (auto simp: measured_def)
    have "measured start (us @ [t]) (xs @ [l\<lparr>intervalEndedAt := intervalEndedAt i\<rparr>])"
      using us new by (simp add: measured_snoc)
    moreover have "neighbours_differ (xs @ [l\<lparr>intervalEndedAt := intervalEndedAt i\<rparr>])"
      using old(2) unfolding 1(1) neighbours_differ_def by (simp add: successively_append_iff same_interval_state_def)
    moreover have "nanoseconds w (us @ [t]) (xs @ [l\<lparr>intervalEndedAt := intervalEndedAt i\<rparr>])
        = nanoseconds w ts (xs @ [l]) + (t - last ts) * w i" if "state_weight w" for w
    proof -
      have "w (l\<lparr>intervalEndedAt := intervalEndedAt i\<rparr>) = w i" "w l = w i"
        using that 1(2) same_interval_state_ended[where i = l and j = i and t = "intervalEndedAt i"] by (simp_all add: state_weight_def)
      then show ?thesis by (simp add: us(1) nanoseconds_snoc[OF len] algebra_simps)
    qed
    ultimately show ?thesis unfolding 1(3) 1(1) using ne us(1) by (intro exI[of _ "us @ [t]"]) auto
  next
    case 2
    have ne: "ts \<noteq> []" and len: "length ts = Suc (length (pathIntervals p))" using old(1) by (auto simp: measured_def)
    have "measured start (ts @ [t]) (pathIntervals p @ [i])" using old(1) new by (simp add: measured_snoc)
    moreover have "neighbours_differ (pathIntervals p @ [i])"
      using old(2) 2(1) by (auto simp: neighbours_differ_def successively_append_iff)
    ultimately show ?thesis unfolding 2(2) using ne nanoseconds_snoc[OF len] by (intro exI[of _ "ts @ [t]"]) auto
  qed
qed

section \<open>The invariant\<close>

definition path_limits :: "critical_path \<Rightarrow> bool" where
  "path_limits p \<longleftrightarrow> length (pathEvents p) \<le> CRITICAL_PATH_EVENT_LIMIT \<and> length (pathIntervals p) \<le> CRITICAL_PATH_EVENT_LIMIT
     \<and> 0 \<le> pathDroppedEvents p \<and> (pathDroppedEvents p \<noteq> 0 \<longrightarrow> length (pathEvents p) = CRITICAL_PATH_EVENT_LIMIT)
     \<and> 0 \<le> pathDroppedIntervals p \<and> (pathDroppedIntervals p \<noteq> 0 \<longrightarrow> length (pathIntervals p) = CRITICAL_PATH_EVENT_LIMIT)
     \<and> map fst (pathQueuedStateMs p) = queue_state_names"

definition command_weight :: "path_interval \<Rightarrow> int" where "command_weight i = intervalCommands i"

definition slot_weight :: "path_interval \<Rightarrow> int" where "slot_weight i = intervalSlots i"

definition idle_weight :: "path_interval \<Rightarrow> int" where
  "idle_weight i = (if intervalCommands i = 0 \<and> intervalQueued i = 0 then 1 else 0)"

definition queued_weight :: "string \<Rightarrow> path_interval \<Rightarrow> int" where
  "queued_weight k i = (if intervalQueued i \<noteq> 0 \<and> intervalQueueState i = k then 1 else 0)"

lemma weights: "state_weight command_weight" "state_weight slot_weight" "state_weight idle_weight" "state_weight (queued_weight k)"
  by (simp_all add: state_weight_def same_interval_state_def command_weight_def slot_weight_def idle_weight_def queued_weight_def)

text \<open>The totals after at most \<open>n\<close> roundings, for the instants \<open>ts\<close>.\<close>

definition path_accounts :: "nat \<Rightarrow> int list \<Rightarrow> critical_path \<Rightarrow> bool" where
  "path_accounts n ts p \<longleftrightarrow>
     measured (pathStartedAt p) ts (pathIntervals p) \<and> hd ts = pathStartedAt p \<and> last ts = pathLastStateAt p
   \<and> neighbours_differ (pathIntervals p)
   \<and> rounded n (pathActiveCommandMs p) (integral command_weight ts (pathIntervals p))
   \<and> rounded n (pathActiveSlotMs p) (integral slot_weight ts (pathIntervals p))
   \<and> rounded n (pathIdleMs p) (integral idle_weight ts (pathIntervals p))
   \<and> (\<forall>(k, v) \<in> set (pathQueuedStateMs p). rounded n v (integral (queued_weight k) ts (pathIntervals p)))"

lemma path_accounts_mono: "path_accounts n ts p \<Longrightarrow> n \<le> m \<Longrightarrow> path_accounts m ts p"
  unfolding path_accounts_def using rounded_mono[of n _ _ m] by blast

definition path_inv :: "scheduler \<Rightarrow> bool" where
  "path_inv s \<longleftrightarrow> path_limits (criticalPath s) \<and> (mono (clock s) \<longrightarrow>
     (\<exists>j < clockReads s. pathLastStateAt (criticalPath s) = clock s j)
     \<and> (pathDroppedIntervals (criticalPath s) = 0 \<longrightarrow>
          (\<exists>ts. set ts \<subseteq> range (clock s) \<and> path_accounts (clockReads s + 2) ts (criticalPath s))))"

lemma path_inv_cong:
  assumes "criticalPath s' = criticalPath s" "clock s' = clock s" "clockReads s \<le> clockReads s'" "path_inv s"
  shows "path_inv s'"
proof -
  have "path_accounts (clockReads s + 2) ts p \<Longrightarrow> path_accounts (clockReads s' + 2) ts p" for ts p
    by (erule path_accounts_mono) (use assms(3) in simp)
  then show ?thesis using assms unfolding path_inv_def by (metis order_less_le_trans)
qed

lemma path_inv_event:
  assumes "path_inv s"
  shows "path_inv (appendCriticalPathEvent ev s)"
proof -
  have "path_limits (append_path_event ev (criticalPath s))"
    using assms by (auto simp: path_inv_def path_limits_def append_path_event_def)
  moreover have "path_accounts n ts (append_path_event ev p) = path_accounts n ts p" for n ts p
    by (simp add: path_accounts_def append_path_event_def)
  moreover have "pathLastStateAt (append_path_event ev p) = pathLastStateAt p"
    "pathDroppedIntervals (append_path_event ev p) = pathDroppedIntervals p" for p by (simp_all add: append_path_event_def)
  ultimately show ?thesis using assms by (simp add: path_inv_def appendCriticalPathEvent_def)
qed

text \<open>One charge: the interval it appends carries the counters of the state.\<close>

definition charged_interval :: "scheduler \<Rightarrow> string \<Rightarrow> int \<Rightarrow> path_interval" where
  "charged_interval s state endedAt = \<lparr>intervalCommands = activeCount s, intervalAdmission = activeAdmission s,
     intervalSlots = activeWorkerSlots s, intervalWorkingSet = activeWorkingSet s, intervalQueueState = state,
     intervalQueued = int (length (queue s)), intervalEndedAt = elapsedCriticalPathMilliseconds s endedAt,
     intervalStartedAt = elapsedCriticalPathMilliseconds s (pathLastStateAt (criticalPath s))\<rparr>"

lemma charge_fields:
  fixes s state endedAt
  defines "p \<equiv> criticalPath s" and "i \<equiv> charged_interval s state endedAt"
  defines "q \<equiv> charge_critical_path s state endedAt" and "d \<equiv> milliseconds (endedAt - pathLastStateAt (criticalPath s))"
  shows "pathIntervals q = pathIntervals (append_interval i p)" "pathDroppedIntervals q = pathDroppedIntervals (append_interval i p)"
    "pathEvents q = pathEvents p" "pathDroppedEvents q = pathDroppedEvents p" "pathStartedAt q = pathStartedAt p"
    "pathActiveCommandMs q = js_add (pathActiveCommandMs p) (js_mul d (of_int (command_weight i)))"
    "pathActiveSlotMs q = js_add (pathActiveSlotMs p) (js_mul d (of_int (slot_weight i)))"
    "pathIdleMs q = (if idle_weight i = 1 then js_add (pathIdleMs p) d else pathIdleMs p)"
    "pathQueuedStateMs q = map (\<lambda>(k, v). (k, if queued_weight k i = 1 then js_add v d else v)) (pathQueuedStateMs p)"
  by (auto simp: q_def p_def i_def d_def charge_critical_path_def Let_def charged_interval_def append_interval_frame
      command_weight_def slot_weight_def idle_weight_def queued_weight_def add_queued_state_def)

lemma charge_limits:
  assumes "path_limits (criticalPath s)"
  shows "path_limits (charge_critical_path s state endedAt)"
  using assms append_interval_limit[of "criticalPath s" CRITICAL_PATH_EVENT_LIMIT "charged_interval s state endedAt"]
    append_interval_dropped[of "criticalPath s" "charged_interval s state endedAt"]
  by (simp add: path_limits_def charge_fields comp_def case_prod_unfold)

lemma milliseconds_rounded: "0 \<le> n \<Longrightarrow> rounded 2 (milliseconds n) (of_int n / 1000000)"
  using rounded_round[OF rounded_scale[OF rounded_round[OF rounded_exact], of "of_int n" "1 / 1000000"]]
  by (simp add: milliseconds_def numeral_2_eq_2)

lemma milliseconds_pos: "0 < milliseconds n \<longleftrightarrow> 0 < n"
  by (simp add: milliseconds_def js_round_pos zero_less_divide_iff)

text \<open>One more charge of \<open>n\<close> nanoseconds, weighted or not, adds one rounding to a total.\<close>

lemma charge_rounded:
  assumes "rounded n x (integral w ts xs)" and "3 \<le> n" and "0 \<le> t" and "0 \<le> w i"
    and "nanoseconds w ts' ys = nanoseconds w ts xs + t * w i"
  shows "rounded (Suc n) (js_add x (js_mul (milliseconds t) (of_int (w i)))) (integral w ts' ys)"
    and "w i = 1 \<Longrightarrow> rounded (Suc n) (js_add x (milliseconds t)) (integral w ts' ys)"
    and "w i = 0 \<Longrightarrow> rounded (Suc n) x (integral w ts' ys)"
proof -
  have total: "integral w ts' ys = integral w ts xs + of_int t / 1000000 * of_int (w i)"
    by (simp add: integral_def assms(5) add_divide_distrib)
  have d: "rounded n (milliseconds t) (of_int t / 1000000)" using rounded_mono[OF milliseconds_rounded[OF assms(3)]] assms(2) by simp
  have "rounded (Suc 2) (js_mul (milliseconds t) (of_int (w i))) (of_int t / 1000000 * of_int (w i))"
    unfolding js_mul_def using assms(4) by (intro rounded_round rounded_scale milliseconds_rounded assms(3)) simp
  then have "rounded n (js_mul (milliseconds t) (of_int (w i))) (of_int t / 1000000 * of_int (w i))"
    by (rule rounded_mono) (use assms(2) in simp)
  then show "rounded (Suc n) (js_add x (js_mul (milliseconds t) (of_int (w i)))) (integral w ts' ys)"
    unfolding total js_add_def by (intro rounded_round rounded_add assms(1))
  show "rounded (Suc n) (js_add x (milliseconds t)) (integral w ts' ys)" if "w i = 1"
    unfolding total js_add_def that using d by (intro rounded_round rounded_add assms(1)) simp
  show "rounded (Suc n) x (integral w ts' ys)" if "w i = 0"
    unfolding total that using rounded_mono[OF assms(1), of "Suc n"] by simp
qed

lemma charge_accounts:
  fixes s state endedAt
  defines "q \<equiv> charge_critical_path s state endedAt"
  assumes old: "path_accounts n ts (criticalPath s)" and kept: "pathDroppedIntervals q = 0" "0 \<le> pathDroppedIntervals (criticalPath s)"
    and later: "pathLastStateAt (criticalPath s) < endedAt" and n: "3 \<le> n"
    and nonneg: "0 \<le> activeCount s" "0 \<le> activeWorkerSlots s"
  shows "\<exists>ts'. set ts' \<subseteq> insert endedAt (set ts) \<and> path_accounts (Suc n) ts' (q\<lparr>pathLastStateAt := endedAt\<rparr>)"
proof -
  define i where "i = charged_interval s state endedAt"
  define t where "t = endedAt - pathLastStateAt (criticalPath s)"
  note fields = charge_fields[of s state endedAt, folded q_def i_def t_def]
  have old': "measured (pathStartedAt (criticalPath s)) ts (pathIntervals (criticalPath s))" "neighbours_differ (pathIntervals (criticalPath s))"
    and last: "last ts = pathLastStateAt (criticalPath s)" and first: "hd ts = pathStartedAt (criticalPath s)"
    using old by (simp_all add: path_accounts_def)
  have "last ts < endedAt" "intervalStartedAt i = milliseconds (last ts - pathStartedAt (criticalPath s))"
    "intervalEndedAt i = milliseconds (endedAt - pathStartedAt (criticalPath s))"
    using later last by (simp_all add: i_def charged_interval_def elapsedCriticalPathMilliseconds_def)
  from append_interval_measured[OF kept(1)[unfolded fields(2)] kept(2) old' this] obtain ts' where
    m: "measured (pathStartedAt (criticalPath s)) ts' (pathIntervals q)" "hd ts' = hd ts" "last ts' = endedAt" "set ts' \<subseteq> insert endedAt (set ts)"
      "neighbours_differ (pathIntervals q)"
    and total: "\<And>w. state_weight w \<Longrightarrow> nanoseconds w ts' (pathIntervals q) = nanoseconds w ts (pathIntervals (criticalPath s)) + t * w i"
    unfolding fields(1) t_def last by blast
  have t: "0 \<le> t" using later by (simp add: t_def)
  have w: "0 \<le> command_weight i" "0 \<le> slot_weight i" "idle_weight i \<noteq> 1 \<longrightarrow> idle_weight i = 0" "queued_weight k i \<noteq> 1 \<longrightarrow> queued_weight k i = 0"
    "0 \<le> idle_weight i" "0 \<le> queued_weight k i" for k
    using nonneg by (simp_all add: i_def charged_interval_def command_weight_def slot_weight_def idle_weight_def queued_weight_def)
  have "rounded (Suc n) (pathActiveCommandMs q) (integral command_weight ts' (pathIntervals q))"
    unfolding fields using old by (intro charge_rounded(1)[OF _ n t w(1) total[OF weights(1), unfolded fields]]) (simp add: path_accounts_def)
  moreover have "rounded (Suc n) (pathActiveSlotMs q) (integral slot_weight ts' (pathIntervals q))"
    unfolding fields using old by (intro charge_rounded(1)[OF _ n t w(2) total[OF weights(2), unfolded fields]]) (simp add: path_accounts_def)
  moreover have "rounded (Suc n) (pathIdleMs q) (integral idle_weight ts' (pathIntervals q))"
    using charge_rounded(2,3)[OF _ n t w(5) total[OF weights(3)]] old w(3) by (auto simp: path_accounts_def fields(8))
  moreover have "rounded (Suc n) v (integral (queued_weight k) ts' (pathIntervals q))" if kv: "(k, v) \<in> set (pathQueuedStateMs q)" for k v
  proof -
    obtain u where u: "(k, u) \<in> set (pathQueuedStateMs (criticalPath s))" "v = (if queued_weight k i = 1 then js_add u (milliseconds t) else u)"
    proof -
      obtain x where x: "x \<in> set (pathQueuedStateMs (criticalPath s))"
        "(k, v) = (case x of (k, v) \<Rightarrow> (k, if queued_weight k i = 1 then js_add v (milliseconds t) else v))"
        using kv unfolding fields(9) set_map by (rule imageE)
      show thesis by (rule that[of "snd x"]) (use x in \<open>simp_all add: case_prod_unfold\<close>)
    qed
    then have "rounded n u (integral (queued_weight k) ts (pathIntervals (criticalPath s)))" using old by (auto simp: path_accounts_def)
    then show ?thesis using charge_rounded(2,3)[OF _ n t w(6) total[OF weights(4)]] w(4)[of k] u(2) by auto
  qed
  ultimately have "path_accounts (Suc n) ts' (q\<lparr>pathLastStateAt := endedAt\<rparr>)"
    using m first by (auto simp: path_accounts_def fields(5))
  then show ?thesis using m(4) by blast
qed

lemma path_inv_record:
  assumes "recordCriticalPathState s = Inr (t, s')" "path_inv s" "0 \<le> activeCount s" "0 \<le> activeWorkerSlots s"
  shows "path_inv s'"
proof -
  define s1 where "s1 = s\<lparr>clockReads := Suc (clockReads s)\<rparr>"
  define endedAt where "endedAt = clock s (clockReads s)"
  obtain state where state: "queueState s1 = Inr state" using queueState_total by blast
  define q where "q = (if pathLastStateAt (criticalPath s) < endedAt then charge_critical_path s1 state endedAt else criticalPath s)"
  have s': "s' = s1\<lparr>criticalPath := q\<lparr>pathLastStateAt := endedAt\<rparr>\<rparr>"
  proof -
    have read: "hrtime s = (endedAt, s1)" by (simp add: hrtime_def s1_def endedAt_def)
    have "criticalPath s1 = criticalPath s" by (simp add: s1_def)
    then have "recordCriticalPathState s = Inr (endedAt, s1\<lparr>criticalPath := q\<lparr>pathLastStateAt := endedAt\<rparr>\<rparr>)"
      using state by (simp add: recordCriticalPathState_def read q_def milliseconds_pos)
    then show ?thesis using assms(1) by simp
  qed
  have cp: "criticalPath s1 = criticalPath s" by (simp add: s1_def)
  have limits: "path_limits q" using assms(2) charge_limits[of s1 state endedAt] by (simp add: q_def path_inv_def cp)
  have "\<exists>ts. set ts \<subseteq> range (clock s) \<and> path_accounts (Suc (clockReads s + 2)) ts (q\<lparr>pathLastStateAt := endedAt\<rparr>)"
    if clock: "mono (clock s)" and none: "pathDroppedIntervals q = 0"
  proof -
    obtain j where j: "j < clockReads s" "pathLastStateAt (criticalPath s) = clock s j" using assms(2) clock by (auto simp: path_inv_def)
    then have le: "pathLastStateAt (criticalPath s) \<le> endedAt" using clock by (simp add: endedAt_def monoD)
    show ?thesis
    proof (cases "pathLastStateAt (criticalPath s) < endedAt")
      case True
      have dropped: "0 \<le> pathDroppedIntervals (criticalPath s)" using assms(2) by (simp add: path_inv_def path_limits_def)
      then have "pathDroppedIntervals (criticalPath s) = 0"
        using none True append_interval_kept[of "charged_interval s1 state endedAt" "criticalPath s"] by (simp add: q_def charge_fields cp)
      then obtain ts where ts: "set ts \<subseteq> range (clock s)" "path_accounts (clockReads s + 2) ts (criticalPath s1)"
        using assms(2) clock by (auto simp: path_inv_def cp)
      have "\<exists>ts'. set ts' \<subseteq> insert endedAt (set ts) \<and> path_accounts (Suc (clockReads s + 2)) ts' (charge_critical_path s1 state endedAt\<lparr>pathLastStateAt := endedAt\<rparr>)"
        by (rule charge_accounts[OF ts(2)]) (use none dropped True j(1) assms(3,4) in \<open>simp_all add: q_def cp s1_def\<close>)
      then show ?thesis using ts(1) True by (auto simp: q_def endedAt_def)
    next
      case False
      then have "endedAt = pathLastStateAt (criticalPath s)" using le by simp
      moreover obtain ts where "set ts \<subseteq> range (clock s)" "path_accounts (clockReads s + 2) ts (criticalPath s)"
        using assms(2) clock none False by (auto simp: path_inv_def q_def)
      ultimately show ?thesis using False path_accounts_mono[of "clockReads s + 2" ts "criticalPath s" "Suc (clockReads s + 2)"]
        by (auto simp: q_def path_accounts_def intro!: exI[of _ ts])
    qed
  qed
  then show ?thesis using limits
    by (auto simp: path_inv_def s' s1_def path_limits_def endedAt_def)
qed

lemma nonnegative_counts:
  assumes "scheduler_inv s"
  shows "0 \<le> activeCount s" "0 \<le> activeWorkerSlots s"
proof -
  have "\<forall>e \<in> set (running s). 0 \<le> entrySlots e" using assms by (force simp: scheduler_inv_def entries_inv_def entry_fits_def)
  then have "0 \<le> sum_list (map entrySlots (running s))" by (intro sum_list_nonneg) auto
  then show "0 \<le> activeCount s" "0 \<le> activeWorkerSlots s" using assms by (simp_all add: scheduler_inv_def capacity_inv_def)
qed

lemma path_move: "scheduler_move s s' \<Longrightarrow> scheduler_inv s \<Longrightarrow> path_inv s \<Longrightarrow> path_inv s'"
proof (induction rule: scheduler_move.induct)
  case (move_record s t s')
  then show ?case using path_inv_record nonnegative_counts by blast
next
  case (move_start s e s')
  have "criticalPath s' = criticalPath s \<and> clock s' = clock s \<and> clockReads s' = clockReads s"
    using move_start(2) by (auto simp: dequeueNextAdmissible_def Let_def split: list.splits if_splits option.splits)
  then show ?case using move_start(4) by (auto simp: start_entry_effect intro: path_inv_cong[of _ s])
next
  case (move_block s s')
  have "criticalPath s' = criticalPath s \<and> clock s' = clock s \<and> clockReads s' = clockReads s"
    using move_block(2) by (auto simp: dequeueNextAdmissible_def Let_def split: list.splits if_splits option.splits)
  then show ?case using move_block(4) path_inv_cong[of s' s] by simp
next
  case (move_reject s err)
  obtain stages classes where "foldl (reject_queued err) (s\<lparr>queue := []\<rparr>) (queue s)
      = s\<lparr>queue := [], stageStats := stages, classStats := classes,
          settledPromises := settledPromises s @ map (\<lambda>e. (entryId e, Rejected err)) (queue s)\<rparr>"
    using reject_all_effect[of err "s\<lparr>queue := []\<rparr>" "queue s"] by auto
  then show ?case using move_reject(3) path_inv_cong[of _ s] by simp
next
  case (move_finish e startedAt s out s1 label failure t s2 ev)
  have "path_inv s1" using settle_operation_effect[OF move_finish(2)] move_finish(5) path_inv_cong[of s1 s]
    by (simp add: only_settled_def)
  moreover have "0 \<le> activeCount s1" "0 \<le> activeWorkerSlots s1"
    using settle_operation_effect[OF move_finish(2)] nonnegative_counts[OF move_finish(4)] by (simp_all add: only_settled_def)
  ultimately have "path_inv (appendCriticalPathEvent ev s2)" using move_finish(3) path_inv_record path_inv_event by blast
  then show ?case using path_inv_cong[of "release_operation e (appendCriticalPathEvent ev s2)" "appendCriticalPathEvent ev s2"]
    by (simp add: release_operation_def updateStats_def Let_def)
next
  case (move_push s q c t s1)
  have "path_inv (count_request c s)" using move_push(5) path_inv_cong[of "count_request c s" s] by (simp add: count_request_def Let_def)
  moreover have "0 \<le> activeCount (count_request c s)" "0 \<le> activeWorkerSlots (count_request c s)"
    using nonnegative_counts[OF move_push(4)] by (simp_all add: count_request_def Let_def)
  ultimately have "path_inv s1" using move_push(3) path_inv_record by blast
  then show ?case using path_inv_cong[of "push_entry c s1" s1] by (simp add: push_entry_def hrtime_def Let_def)
next
  case (move_wake s)
  then show ?case using path_inv_cong[of "resolveIdleWaiters s" s] by (simp add: resolveIdleWaiters_def)
next
  case (move_idle s)
  then show ?case using path_inv_cong[of "snd (idle s)" s] by (simp add: idle_def)
next
  case (move_begin name stageName s i s')
  have "criticalPath s' = criticalPath s \<and> clock s' = clock s \<and> clockReads s \<le> clockReads s'"
    using move_begin(1) by (auto simp: beginCriticalPathActivity_def bindR_Inr_iff hrtime_def Let_def)
  then show ?case using move_begin(3) path_inv_cong[of s' s] by simp
next
  case (move_end i s cache out s')
  then obtain ev s2 where "s' = appendCriticalPathEvent ev s2" "criticalPath s2 = criticalPath s" "clock s2 = clock s" "clockReads s \<le> clockReads s2"
    by (auto simp: finishCriticalPathActivity_def hrtime_def Let_def split: if_splits)
  then show ?case using move_end(4) path_inv_event path_inv_cong[of s2 s] by blast
qed

interpretation path: event_system scheduler_step scheduler_move "\<lambda>s. scheduler_inv s \<and> path_inv s"
  by unfold_locales (auto intro: scheduler_step_moves path_move native.move_inv)

text \<open>The clock itself never changes.\<close>

lemma clock_move: "scheduler_move s s' \<Longrightarrow> clock s = time \<Longrightarrow> clock s' = time"
proof (induction rule: scheduler_move.induct)
  case (move_record s t s')
  then show ?case using record_frame[OF move_record(1)] by auto
next
  case (move_start s e s')
  then show ?case by (auto simp: start_entry_effect dequeueNextAdmissible_def Let_def split: list.splits if_splits option.splits)
next
  case (move_block s s')
  then show ?case by (auto simp: dequeueNextAdmissible_def Let_def split: list.splits if_splits option.splits)
next
  case (move_reject s err)
  then show ?case using reject_all_effect[of err "s\<lparr>queue := []\<rparr>" "queue s"] by auto
next
  case (move_finish e startedAt s out s1 label failure t s2 ev)
  then show ?case using settle_operation_effect[OF move_finish(2)] record_frame[OF move_finish(3)]
    by (auto simp: only_settled_def release_operation_def updateStats_def appendCriticalPathEvent_def Let_def)
next
  case (move_push s q c t s1)
  then show ?case using record_frame[OF move_push(3)] by (auto simp: push_entry_def hrtime_def count_request_def Let_def)
qed (auto simp: resolveIdleWaiters_def idle_def beginCriticalPathActivity_def finishCriticalPathActivity_def bindR_Inr_iff
    hrtime_def appendCriticalPathEvent_def Let_def split: if_splits)

interpretation clock_same: event_system scheduler_step scheduler_move "\<lambda>s. clock s = time" for time
  by unfold_locales (auto intro: scheduler_step_moves clock_move)

end
