(* ===== verification/NativeProperties.thy ===== *)
theory NativeProperties
  imports NativePath
begin

text \<open>
  The properties of the native phase scheduler over any sequence of events from its creation, each with
  a run of two commands as its instance.
\<close>

section \<open>One event at a time\<close>

text \<open>The entry that a request becomes.\<close>

definition entry_of :: "launch_policy \<Rightarrow> checked_request \<Rightarrow> nat \<Rightarrow> int \<Rightarrow> entry" where
  "entry_of p c i queuedAt =
     \<lparr>entryId = i, entryStage = checkedStage c, entryClass = schedulingClass (checkedPolicy c),
      entryClosesAdmission = checkedCloses c, entryQueuedAt = queuedAt,
      entryAdmission = min (checkedEstimate c) (aggregateMemoryMaxBytes p),
      entrySlots = checkedSlots c, entryWorkingSet = checkedEstimate c\<rparr>"

lemma push_entry_of: "queue (push_entry c s) = queue s @ [entry_of (launchPolicy s) c (nextEntry s) (clock s (clockReads s))]"
  by (simp add: push_entry_def hrtime_def Let_def entry_of_def)

lemma push_entry_fields:
  "launchPolicy (push_entry c s) = launchPolicy s" "schedulingFailure (push_entry c s) = schedulingFailure s"
  "activeWorkerSlots (push_entry c s) = activeWorkerSlots s" "activeAdmission (push_entry c s) = activeAdmission s"
  "startedOperations (push_entry c s) = startedOperations s" "runningOperations (push_entry c s) = runningOperations s"
  "backfilledHead (push_entry c s) = backfilledHead s" "backfilledWorkerSlots (push_entry c s) = backfilledWorkerSlots s"
  "nextEntry (push_entry c s) = Suc (nextEntry s)" "settledPromises (push_entry c s) = settledPromises s"
  by (simp_all add: push_entry_def hrtime_def Let_def)

lemma drain_queue_invariant:
  "drain_queue s = Inr s' \<Longrightarrow> P s \<Longrightarrow> (\<And>s t s1. P s \<Longrightarrow> recordCriticalPathState s = Inr (t, s1) \<Longrightarrow> P s1) \<Longrightarrow>
    (\<And>s s1. P s \<Longrightarrow> dequeueNextAdmissible s = (None, s1) \<Longrightarrow> P s1) \<Longrightarrow>
    (\<And>s e s1. P s \<Longrightarrow> dequeueNextAdmissible s = (Some e, s1) \<Longrightarrow> P (start_entry e s1)) \<Longrightarrow> P s'"
proof (induction s rule: drain_queue.induct)
  case (1 s)
  show ?case
  proof (cases "queue s = []")
    case True
    then show ?thesis using "1.prems"(1,2) by (simp add: drain_queue.simps[of s])
  next
    case False
    obtain t s1 where rec: "recordCriticalPathState s = Inr (t, s1)" using record_Inr by blast
    obtain r s2 where deq: "dequeueNextAdmissible s1 = (r, s2)" by fastforce
    have P1: "P s1" using "1.prems"(3)[OF "1.prems"(2) rec] .
    show ?thesis
    proof (cases r)
      case None
      then have "s' = s2" using "1.prems"(1) False rec deq by (simp add: drain_queue.simps[of s])
      then show ?thesis using "1.prems"(4)[OF P1] deq None by simp
    next
      case (Some e)
      have next_: "drain_queue (start_entry e s2) = Inr s'"
        using "1.prems"(1) False rec deq Some by (simp add: drain_queue.simps[of s])
      have "P (start_entry e s2)" using "1.prems"(5)[OF P1] deq Some by simp
      then show ?thesis using "1.IH"[OF False rec refl deq[symmetric] Some next_] "1.prems"(3,4,5) by blast
    qed
  qed
qed

lemma drain_single:
  assumes "queue s = [e]"
  shows "\<exists>s'. drain_queue s = Inr s' \<and> nextEntry s' = nextEntry s \<and> launchPolicy s' = launchPolicy s
    \<and> schedulingFailure s' = schedulingFailure s \<and> settledPromises s' = settledPromises s
    \<and> (if canAdmit s e then queue s' = [] \<and> startedOperations s' = startedOperations s @ [e]
          \<and> running s' = running s @ [e] \<and> activeWorkerSlots s' = activeWorkerSlots s + entrySlots e
          \<and> activeAdmission s' = activeAdmission s + entryAdmission e
       else queue s' = [e] \<and> startedOperations s' = startedOperations s \<and> runningOperations s' = runningOperations s
          \<and> activeWorkerSlots s' = activeWorkerSlots s \<and> activeAdmission s' = activeAdmission s)"
proof -
  obtain t s1 where rec: "recordCriticalPathState s = Inr (t, s1)" using record_Inr by blast
  have same: "same_core s s1" using rec by (rule same_core_record)
  have adm: "canAdmit s1 e = canAdmit s e" using same_core_admit[OF same] by simp
  have q: "queue s1 = [e]" using same assms by (simp add: same_core_def)
  show ?thesis
  proof (cases "canAdmit s e")
    case True
    define s2 where "s2 = (if backfilledHead s1 = Some (entryId e)
                      then s1\<lparr>queue := [], backfilledHead := None, backfilledWorkerSlots := 0\<rparr> else s1\<lparr>queue := []\<rparr>)"
    have "dequeueNextAdmissible s1 = (Some e, s2)" using True by (simp add: dequeueNextAdmissible_def q adm s2_def)
    then have "drain_queue s = drain_queue (start_entry e s2)" using assms rec by (simp add: drain_queue.simps[of s])
    also have "queue (start_entry e s2) = []" by (simp add: s2_def)
    then have "drain_queue (start_entry e s2) = Inr (start_entry e s2)" by (simp add: drain_queue.simps[of "start_entry e s2"])
    finally show ?thesis using True same by (simp add: start_entry_effect s2_def same_core_def)
  next
    case False
    define s2 where "s2 = (if backfilledHead s1 \<noteq> Some (entryId e)
                       then s1\<lparr>backfilledHead := Some (entryId e), backfilledWorkerSlots := 0\<rparr> else s1)"
    have "dequeueNextAdmissible s1 = (None, s2)" using False by (simp add: dequeueNextAdmissible_def q adm s2_def)
    then have "drain_queue s = Inr s2" using assms rec by (simp add: drain_queue.simps[of s])
    then show ?thesis using False same assms by (simp add: s2_def same_core_def)
  qed
qed

lemma run_when_empty:
  assumes "queue s = []" and "schedulingFailure s = None" and "check_request (launchPolicy s) q = Inr c"
  shows "\<exists>t s'. let e = entry_of (launchPolicy s) c (nextEntry s) t in
     run q s = Inr (Accepted (nextEntry s), s') \<and> nextEntry s' = Suc (nextEntry s) \<and> launchPolicy s' = launchPolicy s
   \<and> schedulingFailure s' = None \<and> settledPromises s' = settledPromises s
   \<and> (if activeWorkerSlots s + entrySlots e \<le> jobs (launchPolicy s)
         \<and> activeAdmission s + entryAdmission e \<le> aggregateMemoryMaxBytes (launchPolicy s)
      then queue s' = [] \<and> startedOperations s' = startedOperations s @ [e] \<and> running s' = running s @ [e]
         \<and> activeWorkerSlots s' = activeWorkerSlots s + entrySlots e
         \<and> activeAdmission s' = activeAdmission s + entryAdmission e
      else queue s' = [e] \<and> startedOperations s' = startedOperations s \<and> runningOperations s' = runningOperations s
         \<and> activeWorkerSlots s' = activeWorkerSlots s \<and> activeAdmission s' = activeAdmission s)"
proof -
  obtain t s1 where rec: "recordCriticalPathState (count_request c s) = Inr (t, s1)" using record_Inr by blast
  have same: "launchPolicy s1 = launchPolicy s" "schedulingFailure s1 = schedulingFailure s" "queue s1 = queue s"
    "activeWorkerSlots s1 = activeWorkerSlots s" "activeAdmission s1 = activeAdmission s" "nextEntry s1 = nextEntry s"
    "startedOperations s1 = startedOperations s" "runningOperations s1 = runningOperations s" "settledPromises s1 = settledPromises s"
    using same_core_record[OF rec] by (simp_all add: same_core_def count_request_def Let_def)
  define e where "e = entry_of (launchPolicy s) c (nextEntry s) (clock s1 (clockReads s1))"
  have q: "queue (push_entry c s1) = [e]" using assms(1) by (simp add: push_entry_of same e_def)
  have adm: "canAdmit (push_entry c s1) e \<longleftrightarrow> activeWorkerSlots s + entrySlots e \<le> jobs (launchPolicy s)
         \<and> activeAdmission s + entryAdmission e \<le> aggregateMemoryMaxBytes (launchPolicy s)"
    by (simp add: canAdmit_def push_entry_fields same)
  obtain s' where s': "drain_queue (push_entry c s1) = Inr s'" and effect: "nextEntry s' = Suc (nextEntry s) \<and> launchPolicy s' = launchPolicy s
    \<and> schedulingFailure s' = None \<and> settledPromises s' = settledPromises s
    \<and> (if canAdmit (push_entry c s1) e then queue s' = [] \<and> startedOperations s' = startedOperations s @ [e]
          \<and> running s' = running s @ [e] \<and> activeWorkerSlots s' = activeWorkerSlots s + entrySlots e
          \<and> activeAdmission s' = activeAdmission s + entryAdmission e
       else queue s' = [e] \<and> startedOperations s' = startedOperations s \<and> runningOperations s' = runningOperations s
          \<and> activeWorkerSlots s' = activeWorkerSlots s \<and> activeAdmission s' = activeAdmission s)"
    using drain_single[OF q] assms(2) by (auto simp: push_entry_fields same)
  have "run q s = Inr (Accepted (nextEntry s), s')"
    using assms(2,3) rec s' by (simp add: run_def enqueue_def drain_def push_entry_fields same)
  then show ?thesis using effect unfolding adm
    by (intro exI[of _ "clock s1 (clockReads s1)"] exI[of _ s']) (unfold Let_def e_def[symmetric], intro conjI; simp)
qed

text \<open>What the loop leaves alone.\<close>

lemma drain_queue_frame:
  assumes "drain_queue s = Inr s'"
  shows "nextEntry s' = nextEntry s \<and> settledPromises s' = settledPromises s \<and> schedulingFailure s' = schedulingFailure s"
proof -
  let ?P = "\<lambda>x. nextEntry x = nextEntry s \<and> settledPromises x = settledPromises s \<and> schedulingFailure x = schedulingFailure s"
  have deq: "nextEntry y = nextEntry x \<and> settledPromises y = settledPromises x \<and> schedulingFailure y = schedulingFailure x"
    if "dequeueNextAdmissible x = (r, y)" for x y r
    using that by (auto simp: dequeueNextAdmissible_def Let_def split: list.splits if_splits option.splits)
  show ?thesis
  proof (rule drain_queue_invariant[where P = ?P, OF assms])
    show "?P x \<Longrightarrow> recordCriticalPathState x = Inr (t, y) \<Longrightarrow> ?P y" for x t y
      using same_core_record[of x t y] by (simp add: same_core_def)
    show "?P x \<Longrightarrow> dequeueNextAdmissible x = (None, y) \<Longrightarrow> ?P y" for x y using deq[of x None y] by simp
    show "?P x \<Longrightarrow> dequeueNextAdmissible x = (Some e, y) \<Longrightarrow> ?P (start_entry e y)" for x e y
      using deq[of x "Some e" y] by (simp add: start_entry_effect)
  qed simp
qed

lemma settle_effect:
  assumes running: "find (\<lambda>(x, _). entryId x = i) (runningOperations s) = Some (e, startedAt)" and "settle i out s = Inr s'"
  obtains s1 label failure s3 s4 where "settle_operation e out s = (s1, label, failure)" "drain s3 = Inr s4" "s' = resolveIdleWaiters s4"
    and "queue s3 = queue s" "startedOperations s3 = startedOperations s" "settledPromises s3 = settledPromises s1"
    and "nextEntry s3 = nextEntry s" "schedulingFailure s3 = schedulingFailure s1" "only_settled (entryId e) s s1"
proof -
  obtain s1 label failure where op: "settle_operation e out s = (s1, label, failure)" by (cases "settle_operation e out s")
  obtain t s2 where rec: "recordCriticalPathState s1 = Inr (t, s2)" using record_Inr by blast
  define ev where "ev = NativePhaseEvent failure e label (elapsedCriticalPathMilliseconds s2 t)
    (elapsedCriticalPathMilliseconds s2 (entryQueuedAt e)) (elapsedCriticalPathMilliseconds s2 startedAt)"
  define s3 where "s3 = release_operation e (appendCriticalPathEvent ev s2)"
  obtain s4 where s4: "drain s3 = Inr s4" "s' = resolveIdleWaiters s4"
    using assms op rec by (auto simp: settle_def finish_operation_def bindR_Inr_iff ev_def s3_def)
  have same: "same_core s1 s2" using rec by (rule same_core_record)
  have frame: "queue s3 = queue s2" "startedOperations s3 = startedOperations s2" "settledPromises s3 = settledPromises s2"
    "nextEntry s3 = nextEntry s2" "schedulingFailure s3 = schedulingFailure s2"
    by (simp_all add: s3_def release_operation_def updateStats_def appendCriticalPathEvent_def Let_def)
  have only: "only_settled (entryId e) s s1" using op by (rule settle_operation_effect)
  show thesis
    by (rule that[OF op s4]) (use only same in \<open>simp_all add: frame only_settled_def same_core_def\<close>)
qed

lemma drain_failed_effect:
  assumes "drain s = Inr s'" "schedulingFailure s = Some err"
  shows "queue s' = [] \<and> schedulingFailure s' = Some err \<and> startedOperations s' = startedOperations s \<and> nextEntry s' = nextEntry s
    \<and> settledPromises s' = settledPromises s @ map (\<lambda>e. (entryId e, Rejected err)) (queue s)"
proof -
  obtain t s1 where rec: "recordCriticalPathState s = Inr (t, s1)" using record_Inr by blast
  have same: "same_core s s1" using rec by (rule same_core_record)
  obtain stages classes where rej: "foldl (reject_queued err) (s1\<lparr>queue := []\<rparr>) (queue s1)
      = s1\<lparr>queue := [], stageStats := stages, classStats := classes,
          settledPromises := settledPromises s1 @ map (\<lambda>e. (entryId e, Rejected err)) (queue s1)\<rparr>"
    using reject_all_effect[of err "s1\<lparr>queue := []\<rparr>" "queue s1"] by auto
  have "s' = resolveIdleWaiters (foldl (reject_queued err) (s1\<lparr>queue := []\<rparr>) (queue s1))"
    using assms rec by (simp add: drain_def drain_rejected_def)
  then show ?thesis using same assms(2) unfolding rej by (simp add: resolveIdleWaiters_def same_core_def)
qed

lemma wake_frame:
  "queue (resolveIdleWaiters s) = queue s" "startedOperations (resolveIdleWaiters s) = startedOperations s"
  "schedulingFailure (resolveIdleWaiters s) = schedulingFailure s" "settledPromises (resolveIdleWaiters s) = settledPromises s"
  "nextEntry (resolveIdleWaiters s) = nextEntry s"
  by (simp_all add: resolveIdleWaiters_def)

lemma find_running:
  assumes "scheduler_inv s" "(e, t) \<in> set (runningOperations s)"
  shows "find (\<lambda>(x, _). entryId x = entryId e) (runningOperations s) = Some (e, t)"
proof -
  have find: "distinct (map entryId (map fst R)) \<Longrightarrow> (e, t) \<in> set R \<Longrightarrow> find (\<lambda>(x, _). entryId x = entryId e) R = Some (e, t)" for R :: "(entry \<times> int) list"
  proof (induction R)
    case (Cons r R)
    obtain x u where r: "r = (x, u)" by fastforce
    show ?case
    proof (cases "r = (e, t)")
      case False
      then have "(e, t) \<in> set R" using Cons.prems(2) by simp
      moreover have "entryId x \<noteq> entryId e" using Cons.prems(1) calculation by (force simp: r)
      ultimately show ?thesis using Cons by (simp add: r)
    qed simp
  qed simp
  show ?thesis using assms placement_ids(1) by (intro find) (simp_all add: scheduler_inv_def)
qed

section \<open>A small run\<close>

text \<open>Four jobs; a command of three slots runs and one of two slots waits.\<close>

definition demo_policy :: jsval where
  "demo_policy = JObj [(''aggregateMemoryMaxBytes'', JNum (NInt 8589934592)), (''aotWorkers'', JNum (NInt 2)), (''jobs'', JNum (NInt 4))]"

definition demo_request :: "int \<Rightarrow> run_request" where
  "demo_request slots = \<lparr>requestStage = JStr ''runtime-main-object'', requestIsFunction = True, requestClosesAdmission = JUndefined,
     requestSlots = JNum (NInt slots), requestEstimate = JUndefined\<rparr>"

definition demo_clock :: "nat \<Rightarrow> int" where
  "demo_clock n = int n"

definition demo_error :: native_error where
  "demo_error = NativeCommandFailure ''command failed'' (CommandExit (Some 1) None)"

definition demo_launch :: launch_policy where
  "demo_launch = \<lparr>aggregateMemoryMaxBytes = 8589934592, aotWorkers = 2, jobs = 4\<rparr>"

definition demo_checked :: "int \<Rightarrow> checked_request" where
  "demo_checked slots = \<lparr>checkedStage = ''runtime-main-object'',
     checkedPolicy = \<lparr>schedulingClass = ''object'', stageWorkingSetEstimateBytes = 268435456\<rparr>, checkedCloses = True,
     checkedSlots = slots, checkedEstimate = 268435456\<rparr>"

lemma demo_numbers: "jobs demo_launch = 4" "aggregateMemoryMaxBytes demo_launch = 8589934592"
  by (simp_all add: demo_launch_def)

lemma demo_check: "check_request demo_launch (demo_request 3) = Inr (demo_checked 3)"
  "check_request demo_launch (demo_request 2) = Inr (demo_checked 2)"
  by code_simp+

definition demo_start :: scheduler where
  "demo_start = (case createConvexWasmNativePhaseScheduler demo_clock demo_policy of Inr s \<Rightarrow> s | Inl _ \<Rightarrow> undefined)"

lemma demo_create: "createConvexWasmNativePhaseScheduler demo_clock demo_policy = Inr demo_start"
  and demo_start: "launchPolicy demo_start = demo_launch" "activeWorkerSlots demo_start = 0" "activeAdmission demo_start = 0"
    "nextEntry demo_start = 0" "startedOperations demo_start = []" "runningOperations demo_start = []"
    "queue demo_start = []" "schedulingFailure demo_start = None"
proof -
  have policy: "normalizeConvexWasmNativeLaunchPolicy demo_policy = Inr demo_launch" by code_simp
  then show *: "createConvexWasmNativePhaseScheduler demo_clock demo_policy = Inr demo_start"
    by (simp add: createConvexWasmNativePhaseScheduler_def demo_start_def)
  show "launchPolicy demo_start = demo_launch" "activeWorkerSlots demo_start = 0" "activeAdmission demo_start = 0"
    "nextEntry demo_start = 0" "startedOperations demo_start = []" "runningOperations demo_start = []"
    "queue demo_start = []" "schedulingFailure demo_start = None"
    by (simp_all add: demo_start_def createConvexWasmNativePhaseScheduler_def policy)
qed

definition demo_events :: "scheduler_event list" where
  "demo_events = [RunEvent (demo_request 3), RunEvent (demo_request 2)]"

lemma demo_state: "\<exists>t u. let s = foldl scheduler_step demo_start demo_events in
    queue s = [entry_of demo_launch (demo_checked 2) 1 u] \<and> running s = [entry_of demo_launch (demo_checked 3) 0 t]
  \<and> startedOperations s = [entry_of demo_launch (demo_checked 3) 0 t] \<and> schedulingFailure s = None"
proof -
  have numbers: "entrySlots (entry_of demo_launch (demo_checked n) i t) = n"
    "entryAdmission (entry_of demo_launch (demo_checked n) i t) = 268435456" for n i t
    by (simp_all add: entry_of_def demo_launch_def demo_checked_def)
  obtain t s1 where s1: "run (demo_request 3) demo_start = Inr (Accepted 0, s1)" "nextEntry s1 = 1" "launchPolicy s1 = demo_launch"
      "schedulingFailure s1 = None" "queue s1 = []" "startedOperations s1 = [entry_of demo_launch (demo_checked 3) 0 t]"
      "running s1 = [entry_of demo_launch (demo_checked 3) 0 t]" "activeWorkerSlots s1 = 3" "activeAdmission s1 = 268435456"
    using run_when_empty[of demo_start "demo_request 3" "demo_checked 3"]
    by (auto simp: demo_start demo_check numbers demo_numbers Let_def)
  obtain u s2 where s2: "run (demo_request 2) s1 = Inr (Accepted 1, s2)" "schedulingFailure s2 = None"
      "queue s2 = [entry_of demo_launch (demo_checked 2) 1 u]" "startedOperations s2 = startedOperations s1"
      "runningOperations s2 = runningOperations s1"
    using run_when_empty[of s1 "demo_request 2" "demo_checked 2"]
    by (auto simp: s1 demo_check numbers demo_numbers Let_def)
  have "foldl scheduler_step demo_start demo_events = s2" by (simp add: demo_events_def committed_def s1(1) s2(1))
  then show ?thesis using s1 s2 by (intro exI[of _ t] exI[of _ u]) (simp add: Let_def)
qed

section \<open>Properties\<close>

text \<open>A request that arrives while nothing waits starts in the same call exactly when the free worker slots
  and the free memory suffice, charging both budgets; otherwise it is the only entry of the queue and
  nothing else changes. It is accepted under the next identity in both cases.\<close>

lemma run_on_empty_queue:
  assumes "queue s = []" and "schedulingFailure s = None" and "check_request (launchPolicy s) q = Inr c"
  shows "\<exists>t s'. let e = entry_of (launchPolicy s) c (nextEntry s) t in
     run q s = Inr (Accepted (nextEntry s), s') \<and> nextEntry s' = Suc (nextEntry s) \<and> launchPolicy s' = launchPolicy s
   \<and> schedulingFailure s' = None \<and> settledPromises s' = settledPromises s
   \<and> (if activeWorkerSlots s + entrySlots e \<le> jobs (launchPolicy s)
         \<and> activeAdmission s + entryAdmission e \<le> aggregateMemoryMaxBytes (launchPolicy s)
      then queue s' = [] \<and> startedOperations s' = startedOperations s @ [e] \<and> running s' = running s @ [e]
         \<and> activeWorkerSlots s' = activeWorkerSlots s + entrySlots e
         \<and> activeAdmission s' = activeAdmission s + entryAdmission e
      else queue s' = [e] \<and> startedOperations s' = startedOperations s \<and> runningOperations s' = runningOperations s
         \<and> activeWorkerSlots s' = activeWorkerSlots s \<and> activeAdmission s' = activeAdmission s)"
  by (rule run_when_empty[OF assms])

text \<open>C9: After any sequence of events the running operations stay within both budgets: their worker slots sum to
  at most the jobs and their admissions to at most the memory limit, and the active counters are these
  sums, so no call ever starts more than the launch policy allows.\<close>

theorem scheduler_capacity:
  assumes "createConvexWasmNativePhaseScheduler time policy = Inr s0" and "s = foldl scheduler_step s0 events"
  shows "sum_list (map entrySlots (running s)) \<le> jobs (launchPolicy s)
    \<and> sum_list (map entryAdmission (running s)) \<le> aggregateMemoryMaxBytes (launchPolicy s)
    \<and> activeCount s = int (length (running s)) \<and> activeWorkerSlots s = sum_list (map entrySlots (running s))
    \<and> activeAdmission s = sum_list (map entryAdmission (running s))
    \<and> activeWorkingSet s = sum_list (map entryWorkingSet (running s))"
  using new_scheduler_settled[OF assms(1), of events]
  by (simp add: settled_state_def scheduler_inv_def capacity_inv_def assms(2))

theorem scheduler_capacity_witness:
  "sum_list (map entrySlots (running (foldl scheduler_step demo_start demo_events))) \<le> jobs (launchPolicy (foldl scheduler_step demo_start demo_events))"
  using scheduler_capacity[OF demo_create refl] by blast

text \<open>C10: Every accepted request is in exactly one place: it runs, waits, or has settled once. No operation starts
  twice, none that waits has started, and the completed, failed and running operations are the started ones.\<close>

theorem requests_settle_once:
  assumes "createConvexWasmNativePhaseScheduler time policy = Inr s0" and "s = foldl scheduler_step s0 events"
  shows "mset (map entryId (running s)) + mset (map entryId (queue s)) + mset (map fst (settledPromises s)) = mset [0..<nextEntry s]
    \<and> distinct (map entryId (startedOperations s) @ map entryId (queue s))
    \<and> completedCount s + failedCount s + int (length (running s)) = int (length (startedOperations s))
    \<and> requestCount s = int (nextEntry s)"
  using new_scheduler_settled[OF assms(1), of events]
  by (simp add: settled_state_def scheduler_inv_def placement_inv_def assms(2))

theorem requests_settle_once_witness:
  "distinct (map entryId (startedOperations (foldl scheduler_step demo_start demo_events))
     @ map entryId (queue (foldl scheduler_step demo_start demo_events)))"
  using requests_settle_once[OF demo_create refl] by blast

text \<open>C12: A command that waits at the head of the queue is overtaken by a bounded wave only: as long as it waits,
  it stays at the head, and all operations that start meanwhile, however many events arrive, occupy at
  most one worker slot less than the jobs, in total.\<close>

theorem overtaking_bounded:
  assumes "createConvexWasmNativePhaseScheduler time policy = Inr s0" and "s = foldl scheduler_step s0 before"
    and "queue s = h # rest" and "s' = foldl scheduler_step s after" and "h \<in> set (queue s')"
  shows "hd (queue s') = h
    \<and> sum_list (map entrySlots (drop (length (startedOperations s)) (startedOperations s'))) \<le> jobs (launchPolicy s') - 1"
proof -
  have inv: "scheduler_inv s" using new_scheduler_settled[OF assms(1), of before] by (simp add: settled_state_def assms(2))
  then have "0 \<le> wave_charge s h" "entryId h < nextEntry s"
    using wave_charge_bounds placement_ids(2)[of s h] assms(3) by (auto simp: scheduler_inv_def)
  then have "overtaken_inv h (length (startedOperations s)) s" using inv assms(3) by (simp add: overtaken_inv_def)
  then have "overtaken_inv h (length (startedOperations s)) s'" unfolding assms(4) by (rule fair.run_inv)
  then have "scheduler_inv s'" "hd (queue s') = h"
    "sum_list (map entrySlots (drop (length (startedOperations s)) (startedOperations s'))) \<le> wave_charge s' h"
    using assms(5) by (simp_all add: overtaken_inv_def)
  moreover have "wave_charge s' h \<le> jobs (launchPolicy s') - 1"
    using wave_charge_bounds calculation(1) by (simp add: scheduler_inv_def)
  ultimately show ?thesis by linarith
qed

theorem overtaking_bounded_witness:
  "\<exists>h. queue (foldl scheduler_step demo_start demo_events) = [h] \<and> entrySlots h = 2
     \<and> sum_list (map entrySlots (drop (length (startedOperations (foldl scheduler_step demo_start demo_events)))
          (startedOperations (foldl scheduler_step (foldl scheduler_step demo_start demo_events) []))))
        \<le> jobs (launchPolicy (foldl scheduler_step (foldl scheduler_step demo_start demo_events) [])) - 1"
proof -
  obtain u where q: "queue (foldl scheduler_step demo_start demo_events) = [entry_of demo_launch (demo_checked 2) 1 u]"
    using demo_state by (auto simp: Let_def)
  show ?thesis
    using overtaking_bounded[OF demo_create refl q refl[of "foldl scheduler_step (foldl scheduler_step demo_start demo_events) []"]] q
    by (intro exI[of _ "entry_of demo_launch (demo_checked 2) 1 u"]) (simp add: entry_of_def demo_checked_def)
qed

text \<open>Every event settles a running operation.\<close>

fun serviced :: "scheduler \<Rightarrow> (nat \<times> outcome) list \<Rightarrow> bool" where
  "serviced s [] \<longleftrightarrow> True"
| "serviced s ((i, out) # es) \<longleftrightarrow> i \<in> entryId ` set (running s) \<and> serviced (scheduler_step s (SettleEvent i out)) es"

definition pending :: "scheduler \<Rightarrow> nat" where
  "pending s = length (running s) + length (queue s)"

lemma pending_settled:
  assumes "scheduler_inv s"
  shows "pending s + length (settledPromises s) = nextEntry s"
proof -
  have "size (mset (map entryId (running s)) + mset (map entryId (queue s)) + mset (map fst (settledPromises s))) = size (mset [0..<nextEntry s])"
    using assms by (simp only: scheduler_inv_def placement_inv_def)
  then show ?thesis by (simp add: pending_def)
qed

lemma settle_pending:
  assumes "scheduler_inv s" "i \<in> entryId ` set (running s)"
  shows "pending (scheduler_step s (SettleEvent i out)) < pending s
    \<and> nextEntry (scheduler_step s (SettleEvent i out)) = nextEntry s"
proof -
  obtain e t where e: "(e, t) \<in> set (runningOperations s)" "i = entryId e" using assms(2) by force
  obtain s' where s': "settle i out s = Inr s'" using settle_moves by blast
  obtain s1 label failure s3 s4 where *: "settle_operation e out s = (s1, label, failure)" "drain s3 = Inr s4" "s' = resolveIdleWaiters s4"
    "settledPromises s3 = settledPromises s1" "nextEntry s3 = nextEntry s" "only_settled (entryId e) s s1"
    by (rule settle_effect[OF find_running[OF assms(1) e(1), folded e(2)] s'])
  have "nextEntry s4 = nextEntry s3 \<and> length (settledPromises s3) \<le> length (settledPromises s4)"
  proof (cases "schedulingFailure s3")
    case None
    then show ?thesis using drain_queue_frame[of s3 s4] *(2) by (simp add: drain_def)
  qed (use drain_failed_effect[OF *(2)] in simp)
  moreover have "length (settledPromises s1) = Suc (length (settledPromises s))"
    using *(6) unfolding only_settled_def by (metis length_append_singleton length_map)
  ultimately have "nextEntry s' = nextEntry s" "Suc (length (settledPromises s)) \<le> length (settledPromises s')"
    using *(3,4,5) by (simp_all add: wake_frame)
  moreover have step: "scheduler_step s (SettleEvent i out) = s'" using s' by (simp add: committed_def)
  moreover have "scheduler_inv s'" using native.step_inv[OF assms(1), of "SettleEvent i out"] unfolding step .
  ultimately show ?thesis using pending_settled[OF assms(1)] pending_settled[of s'] by simp
qed

text \<open>Every idle waiter that was handed out is waiting or was resolved once.\<close>

definition waiters_accounted :: "scheduler \<Rightarrow> bool" where
  "waiters_accounted s \<longleftrightarrow> mset (idleWaiters s) + mset (resolvedIdle s) = mset [0..<nextWaiter s]"

lemma waiters_cong:
  "idleWaiters s' = idleWaiters s \<Longrightarrow> resolvedIdle s' = resolvedIdle s \<Longrightarrow> nextWaiter s' = nextWaiter s \<Longrightarrow> waiters_accounted s
    \<Longrightarrow> waiters_accounted s'"
  by (simp add: waiters_accounted_def)

lemma dequeue_waiters:
  "dequeueNextAdmissible s = (r, s') \<Longrightarrow> idleWaiters s' = idleWaiters s \<and> resolvedIdle s' = resolvedIdle s \<and> nextWaiter s' = nextWaiter s"
  by (auto simp: dequeueNextAdmissible_def Let_def split: list.splits if_splits option.splits)

lemma waiters_move: "scheduler_move s s' \<Longrightarrow> waiters_accounted s \<Longrightarrow> waiters_accounted s'"
proof (induction rule: scheduler_move.induct)
  case (move_record s t s')
  then show ?case using record_frame[OF move_record(1)] waiters_cong[of s' s] by auto
next
  case (move_start s e s')
  then show ?case using dequeue_waiters[OF move_start(2)] waiters_cong[of "start_entry e s'" s] by (simp add: start_entry_effect)
next
  case (move_block s s')
  then show ?case using dequeue_waiters[OF move_block(2)] waiters_cong[of s' s] by simp
next
  case (move_reject s err)
  then show ?case using reject_all_effect[of err "s\<lparr>queue := []\<rparr>" "queue s"] waiters_cong[of _ s] by auto
next
  case (move_finish e startedAt s out s1 label failure t s2 ev)
  then show ?case using settle_operation_effect[OF move_finish(2)] record_frame[OF move_finish(3)]
      waiters_cong[of "release_operation e (appendCriticalPathEvent ev s2)" s]
    by (auto simp: only_settled_def release_operation_def updateStats_def appendCriticalPathEvent_def Let_def)
next
  case (move_push s q c t s1)
  then show ?case using record_frame[OF move_push(3)] waiters_cong[of "push_entry c s1" s]
    by (auto simp: push_entry_def hrtime_def count_request_def Let_def)
qed (auto simp: waiters_accounted_def resolveIdleWaiters_def idle_def beginCriticalPathActivity_def finishCriticalPathActivity_def
    bindR_Inr_iff hrtime_def appendCriticalPathEvent_def Let_def ac_simps simp del: mset_upt split: if_splits)

interpretation waiters: event_system scheduler_step scheduler_move waiters_accounted
  by unfold_locales (auto intro: scheduler_step_moves waiters_move)

lemma drain_waiters:
  assumes "drain s = Inr s'"
  shows "nextWaiter s' = nextWaiter s"
proof (cases "schedulingFailure s")
  case None
  then have "drain_queue s = Inr s'" using assms by (simp add: drain_def)
  then show ?thesis
  proof (rule drain_queue_invariant[where P = "\<lambda>x. nextWaiter x = nextWaiter s"])
    show "nextWaiter x = nextWaiter s \<Longrightarrow> recordCriticalPathState x = Inr (t, y) \<Longrightarrow> nextWaiter y = nextWaiter s" for x t y
      by (auto dest: record_frame)
    show "nextWaiter x = nextWaiter s \<Longrightarrow> dequeueNextAdmissible x = (None, y) \<Longrightarrow> nextWaiter y = nextWaiter s" for x y
      using dequeue_waiters[of x None y] by simp
    show "nextWaiter x = nextWaiter s \<Longrightarrow> dequeueNextAdmissible x = (Some e, y) \<Longrightarrow> nextWaiter (start_entry e y) = nextWaiter s" for x e y
      using dequeue_waiters[of x "Some e" y] by (simp add: start_entry_effect)
  qed simp
next
  case (Some err)
  obtain t s1 where rec: "recordCriticalPathState s = Inr (t, s1)" using record_Inr by blast
  have "s' = resolveIdleWaiters (foldl (reject_queued err) (s1\<lparr>queue := []\<rparr>) (queue s1))"
    using assms rec Some by (simp add: drain_def drain_rejected_def)
  then show ?thesis using record_frame[OF rec] reject_all_effect[of err "s1\<lparr>queue := []\<rparr>" "queue s1"] by (auto simp: resolveIdleWaiters_def)
qed

lemma settle_waiters: "nextWaiter (scheduler_step s (SettleEvent i out)) = nextWaiter s"
proof (cases "find (\<lambda>(e, _). entryId e = i) (runningOperations s)")
  case None
  then show ?thesis by (simp add: settle_def committed_def)
next
  case (Some r)
  obtain e startedAt where r: "r = (e, startedAt)" by fastforce
  obtain s1 label failure where op: "settle_operation e out s = (s1, label, failure)" by (cases "settle_operation e out s")
  obtain t s2 where rec: "recordCriticalPathState s1 = Inr (t, s2)" using record_Inr by blast
  define ev where "ev = NativePhaseEvent failure e label (elapsedCriticalPathMilliseconds s2 t)
    (elapsedCriticalPathMilliseconds s2 (entryQueuedAt e)) (elapsedCriticalPathMilliseconds s2 startedAt)"
  obtain s4 where s4: "drain (release_operation e (appendCriticalPathEvent ev s2)) = Inr s4" using drain_moves by blast
  have "nextWaiter s4 = nextWaiter s" using drain_waiters[OF s4] record_frame[OF rec] settle_operation_effect[OF op]
    by (auto simp: only_settled_def release_operation_def updateStats_def appendCriticalPathEvent_def Let_def)
  then show ?thesis using Some r op rec s4 by (simp add: settle_def finish_operation_def committed_def ev_def resolveIdleWaiters_def)
qed

text \<open>C11: Progress: whenever something waits, something runs. If running operations settle one after another,
  with any outcomes and no new requests, at most as many settle as were running or waiting, and when no
  operation runs any more the queue is empty, every request has settled and every idle waiter that was
  ever handed out has been resolved, exactly once.\<close>

theorem settling_empties_the_scheduler:
  assumes "createConvexWasmNativePhaseScheduler time policy = Inr s0" and "s = foldl scheduler_step s0 events"
    and "serviced s es" and "s' = foldl scheduler_step s (map (\<lambda>(i, out). SettleEvent i out) es)"
  shows "length es \<le> length (running s) + length (queue s)
    \<and> (running s' = [] \<longrightarrow> queue s' = [] \<and> mset (map fst (settledPromises s')) = mset [0..<nextEntry s]
         \<and> idleWaiters s' = [] \<and> mset (resolvedIdle s') = mset [0..<nextWaiter s])"
proof -
  have decrease: "scheduler_inv x \<Longrightarrow> serviced x ys \<Longrightarrow>
      pending (foldl scheduler_step x (map (\<lambda>(i, out). SettleEvent i out) ys)) + length ys \<le> pending x
      \<and> nextEntry (foldl scheduler_step x (map (\<lambda>(i, out). SettleEvent i out) ys)) = nextEntry x" for x ys
  proof (induction ys arbitrary: x)
    case (Cons y ys)
    obtain i out where y: "y = (i, out)" by fastforce
    have "scheduler_inv (scheduler_step x (SettleEvent i out))" using Cons.prems(1) by (rule native.step_inv)
    then show ?case using Cons.IH[of "scheduler_step x (SettleEvent i out)"] settle_pending[OF Cons.prems(1), of i out] Cons.prems(2)
      by (simp add: y)
  qed simp
  have inv: "scheduler_inv s" using new_scheduler_settled[OF assms(1), of events] by (simp add: settled_state_def assms(2))
  have s': "settled_state s'" using new_scheduler_settled[OF assms(1), of "events @ map (\<lambda>(i, out). SettleEvent i out) es"]
    by (simp add: assms(2,4))
  have "waiters_accounted s0" using assms(1)
    by (auto simp: createConvexWasmNativePhaseScheduler_def bindR_Inr_iff waiters_accounted_def)
  from waiters.run_inv[OF this, of "events @ map (\<lambda>(i, out). SettleEvent i out) es"]
  have waiters: "waiters_accounted s'" by (simp add: assms(2,4))
  have same_waiters: "nextWaiter s' = nextWaiter s" unfolding assms(4)
    by (induction es arbitrary: s) (simp_all add: settle_waiters case_prod_unfold del: scheduler_step.simps)
  have finished: "queue s' = [] \<and> idleWaiters s' = [] \<and> mset (map fst (settledPromises s')) = mset [0..<nextEntry s]" if "running s' = []"
  proof -
    have "activeCount s' = 0" using s' that by (simp add: settled_state_def scheduler_inv_def capacity_inv_def)
    then have "queue s' = []" "idleWaiters s' = []" using nothing_running_admits[of s'] s' by (auto simp: settled_state_def waiters_ok_def)
    moreover have "nextEntry s' = nextEntry s" using decrease[OF inv assms(3)] assms(4) by simp
    ultimately show ?thesis using s' that by (simp add: settled_state_def scheduler_inv_def placement_inv_def)
  qed
  show ?thesis using decrease[OF inv assms(3)] finished waiters same_waiters by (auto simp: pending_def waiters_accounted_def assms(4))
qed

theorem settling_empties_the_scheduler_witness:
  "length [(0 :: nat, Threw demo_error)] \<le> length (running (foldl scheduler_step demo_start demo_events))
     + length (queue (foldl scheduler_step demo_start demo_events))"
proof -
  have "serviced (foldl scheduler_step demo_start demo_events) [(0, Threw demo_error)]"
    using demo_state by (auto simp: Let_def entry_of_def)
  then show ?thesis using settling_empties_the_scheduler[OF demo_create refl _ refl] by blast
qed

text \<open>C13: The first failure of an operation that closes admission is kept for good: it rejects the operation and
  every waiting request with that error, nothing starts afterwards whatever happens, and each later
  request is answered by the same error without changing the scheduler.\<close>

theorem closing_failure:
  assumes "createConvexWasmNativePhaseScheduler time policy = Inr s0" and "s = foldl scheduler_step s0 before"
    and "(e, startedAt) \<in> set (runningOperations s)" and "entryClosesAdmission e" and "schedulingFailure s = None"
    and "s1 = scheduler_step s (SettleEvent (entryId e) (Threw err))" and "s2 = foldl scheduler_step s1 after"
  shows "schedulingFailure s2 = Some err \<and> queue s2 = [] \<and> startedOperations s2 = startedOperations s
    \<and> settledPromises s1 = settledPromises s @ (entryId e, Rejected err) # map (\<lambda>x. (entryId x, Rejected err)) (queue s)
    \<and> (\<forall>q. (case run q s2 of Inl _ \<Rightarrow> True | Inr r \<Rightarrow> r = (RejectedRun err, s2)))"
proof -
  have inv: "scheduler_inv s" using new_scheduler_settled[OF assms(1), of before] by (simp add: settled_state_def assms(2))
  obtain s' where s': "settle (entryId e) (Threw err) s = Inr s'" using settle_moves by blast
  obtain t label failure s3 s4 where *: "settle_operation e (Threw err) s = (t, label, failure)" "drain s3 = Inr s4" "s' = resolveIdleWaiters s4"
    "queue s3 = queue s" "startedOperations s3 = startedOperations s" "settledPromises s3 = settledPromises t"
    "schedulingFailure s3 = schedulingFailure t"
    by (rule settle_effect[OF find_running[OF inv assms(3)] s'])
  have t: "schedulingFailure t = Some err" "settledPromises t = settledPromises s @ [(entryId e, Rejected err)]"
    using *(1) assms(4,5) by (auto simp: settle_operation_def fail_operation_def updateStats_def Let_def)
  have s1: "s1 = resolveIdleWaiters s4" using s' *(3) by (simp add: assms(6) committed_def)
  have closed: "closed_inv err (startedOperations s) s1" and promises: "settledPromises s1 = settledPromises s @ (entryId e, Rejected err) # map (\<lambda>x. (entryId x, Rejected err)) (queue s)"
    using drain_failed_effect[OF *(2)] t *(4-7) by (simp_all add: s1 closed_inv_def wake_frame)
  have "closed_inv err (startedOperations s) s2" unfolding assms(7) using closed by (rule closed.run_inv)
  then show ?thesis using promises by (auto simp: closed_inv_def run_def bindR_Inr_iff split: sum.split)
qed

theorem closing_failure_witness:
  "\<exists>s1 x. s1 = scheduler_step (foldl scheduler_step demo_start demo_events) (SettleEvent 0 (Threw demo_error))
     \<and> schedulingFailure (foldl scheduler_step s1 [RunEvent (demo_request 3)]) = Some demo_error
     \<and> settledPromises s1 = x @ [(0, Rejected demo_error), (1, Rejected demo_error)]"
proof -
  let ?s = "foldl scheduler_step demo_start demo_events"
  obtain t u where d: "queue ?s = [entry_of demo_launch (demo_checked 2) 1 u]" "running ?s = [entry_of demo_launch (demo_checked 3) 0 t]"
    "schedulingFailure ?s = None" using demo_state by (auto simp: Let_def)
  let ?e = "entry_of demo_launch (demo_checked 3) 0 t"
  obtain startedAt where run: "(?e, startedAt) \<in> set (runningOperations ?s)" using d(2) by (cases "runningOperations ?s") auto
  have e: "entryClosesAdmission ?e" "entryId ?e = 0" by (simp_all add: entry_of_def demo_checked_def)
  show ?thesis
    using closing_failure[OF demo_create refl run e(1) d(3) refl refl[of "foldl scheduler_step _ [RunEvent (demo_request 3)]"]]
    by (intro exI[of _ "scheduler_step ?s (SettleEvent 0 (Threw demo_error))"] exI[of _ "settledPromises ?s"])
      (simp add: e(2) d(1) entry_of_def)
qed

text \<open>C14: The critical path keeps at most 32768 events and 32768 intervals and drops only when they are full; its
  queue states are the six names. With a clock that never runs backwards, as long as no interval was
  dropped, the intervals lie between successive instants of the clock, from the creation to the last
  record, neighbours differ in their state, and each reported total (command time, slot time, idle time,
  time in each queue state, all in milliseconds) is the integral over them, which is exact since the
  clock counts nanoseconds, up to the relative error of one rounding to double for each reading of the
  clock and two more.\<close>

theorem critical_path_accounts:
  assumes "createConvexWasmNativePhaseScheduler time policy = Inr s0" and "mono time"
    and "s = foldl scheduler_step s0 events" and "p = criticalPath s"
  shows "length (pathEvents p) \<le> 32768 \<and> length (pathIntervals p) \<le> 32768
    \<and> (pathDroppedEvents p \<noteq> 0 \<longrightarrow> length (pathEvents p) = 32768)
    \<and> (pathDroppedIntervals p \<noteq> 0 \<longrightarrow> length (pathIntervals p) = 32768)
    \<and> map fst (pathQueuedStateMs p) = queue_state_names
    \<and> (pathDroppedIntervals p = 0 \<longrightarrow> (\<exists>ts. set ts \<subseteq> range time
       \<and> measured (pathStartedAt p) ts (pathIntervals p) \<and> hd ts = pathStartedAt p \<and> last ts = pathLastStateAt p
       \<and> neighbours_differ (pathIntervals p)
       \<and> rounded (clockReads s + 2) (pathActiveCommandMs p) (integral command_weight ts (pathIntervals p))
       \<and> rounded (clockReads s + 2) (pathActiveSlotMs p) (integral slot_weight ts (pathIntervals p))
       \<and> rounded (clockReads s + 2) (pathIdleMs p) (integral idle_weight ts (pathIntervals p))
       \<and> (\<forall>(k, v) \<in> set (pathQueuedStateMs p). rounded (clockReads s + 2) v (integral (queued_weight k) ts (pathIntervals p)))))"
proof -
  have "clock s0 = time" "path_limits (criticalPath s0)" "clockReads s0 = 1" "pathLastStateAt (criticalPath s0) = time 0"
    "path_accounts 3 [time 0] (criticalPath s0)"
    using assms(1) by (auto simp: createConvexWasmNativePhaseScheduler_def bindR_Inr_iff path_limits_def comp_def
        path_accounts_def integral_def nanoseconds_def neighbours_differ_def measured_start rounded_def)
  then have start: "clock s0 = time" "path_inv s0" by (auto simp: path_inv_def numeral_3_eq_3 intro!: exI[of _ "[time 0]"])
  have "clock s = time" unfolding assms(3) using start(1) by (rule clock_same.run_inv)
  moreover have "path_inv s" unfolding assms(3) using path.run_inv[of s0 events] start(2) new_scheduler_inv[OF assms(1)] by blast
  ultimately show ?thesis using assms(2)
    by (simp add: assms(4) path_inv_def path_limits_def path_accounts_def CRITICAL_PATH_EVENT_LIMIT_def)
qed

theorem critical_path_accounts_witness:
  "length (pathIntervals (criticalPath (foldl scheduler_step demo_start demo_events))) \<le> 32768"
proof -
  have "mono demo_clock" by (simp add: mono_def demo_clock_def)
  then show ?thesis using critical_path_accounts[OF demo_create _ refl refl] by blast
qed

end
