(* ===== verification/EntryGrouping.thy ===== *)
theory EntryGrouping
  imports JsValue JsDouble "HOL-Library.While_Combinator"
begin

text \<open>
  The entry grouping planner (\<open>scripts/lib/convex-wasm-entry-grouping.mjs\<close>): entries whose dependency
  closures overlap are merged greedily, along a forest with path compression, as long as the merged
  closure stays within a cost inflation and a number of logical units.

  Costs are safe integers and sums are checked, so they are exact. A quotient of two costs is rounded to
  the nearest double by \<open>js_div\<close>. ECMAScript leaves \<open>Math.log2\<close> implementation-approximated:
  \<open>Math.ceil(Math.log2(cost))\<close> is the parameter \<open>bucket\<close>. The two loops of \<open>root\<close> are \<open>while_option\<close>.
\<close>

section \<open>Numbers\<close>

definition power_ten :: "int \<Rightarrow> rat" where
  "power_ten n = (if 0 \<le> n then 10 ^ nat n else 1 / 10 ^ nat (- n))"

text \<open>The value of a spelling of \<open>Number.prototype.toString\<close>.\<close>

definition decimal_value :: "string \<Rightarrow> rat" where
  "decimal_value s =
     (let ip = takeWhile is_digit s; r = dropWhile is_digit s;
          fp = (if r \<noteq> [] \<and> hd r = CHR ''.'' then takeWhile is_digit (tl r) else []);
          r2 = (if r \<noteq> [] \<and> hd r = CHR ''.'' then dropWhile is_digit (tl r) else r);
          e = (if r2 = [] \<or> hd r2 \<noteq> CHR ''e'' then 0
               else if tl r2 \<noteq> [] \<and> hd (tl r2) = CHR ''-'' then - int (read_nat 0 (tl (tl r2)))
               else if tl r2 \<noteq> [] \<and> hd (tl r2) = CHR ''+'' then int (read_nat 0 (tl (tl r2)))
               else int (read_nat 0 (tl r2)))
      in of_nat (read_nat 0 (ip @ fp)) * power_ten (e - int (length fp)))"

text \<open>A negative double is below one, whatever its value.\<close>

fun finite_number :: "jnum \<Rightarrow> rat option" where
  "finite_number (NInt i) = Some (of_int i)"
| "finite_number NNegZero = Some 0"
| "finite_number (NDec s) = Some (if s \<noteq> [] \<and> hd s = CHR ''-'' then - 1 else double_of (decimal_value s))"
| "finite_number _ = None"

section \<open>Checks\<close>

definition grouping_fail :: "string \<Rightarrow> 'a res" where
  "grouping_fail message = Inl (Error (''Convex Wasm entry grouping: '' @ message))"

definition requireName :: "jsval \<Rightarrow> string \<Rightarrow> string res" where
  "requireName value description =
     (case value of JStr s \<Rightarrow> if s = [] then grouping_fail (description @ '' must be a non-empty string'') else Inr s
      | _ \<Rightarrow> grouping_fail (description @ '' must be a non-empty string''))"

definition addCost :: "int \<Rightarrow> int \<Rightarrow> int res" where
  "addCost left right =
     (if max_safe_integer < \<bar>left + right\<bar> then grouping_fail ''accumulated cost exceeds safe integer precision''
      else Inr (left + right))"

fun positive_safe :: "jsval \<Rightarrow> int option" where
  "positive_safe (JNum n) = (if isSafeInteger n \<and> 0 < num_int n then Some (num_int n) else None)"
| "positive_safe _ = None"

type_synonym module_costs = "(string \<times> int) list"

definition add_module_cost :: "module_costs \<Rightarrow> jsval \<Rightarrow> module_costs res" where
  "add_module_cost costs value =
     bindR (get_prop ''id'' value) (\<lambda>idValue.
     bindR (requireName idValue ''module identity'') (\<lambda>mid.
     bindR (get_prop ''cost'' value) (\<lambda>costValue.
     case positive_safe costValue of
       Some c \<Rightarrow> if mid \<in> set (map fst costs)
         then grouping_fail ''module identities must be unique with positive integer costs'' else Inr (costs @ [(mid, c)])
     | None \<Rightarrow> grouping_fail ''module identities must be unique with positive integer costs'')))"

record grouping_entry =
  groupingPath :: string
  groupingDependencies :: "string list"
  groupingCost :: int

definition add_closure_dependency :: "module_costs \<Rightarrow> string list \<times> int \<Rightarrow> jsval \<Rightarrow> (string list \<times> int) res" where
  "add_closure_dependency costs acc v =
     (case v of
        JStr mid \<Rightarrow> (case map_of costs mid of
            None \<Rightarrow> grouping_fail ''dependency is unknown or repeated''
          | Some c \<Rightarrow> if mid \<in> set (fst acc) then grouping_fail ''dependency is unknown or repeated''
                      else bindR (addCost (snd acc) c) (\<lambda>cost. Inr (fst acc @ [mid], cost)))
      | _ \<Rightarrow> grouping_fail ''dependency is unknown or repeated'')"

definition normalize_grouping_entry :: "module_costs \<Rightarrow> int \<Rightarrow> jsval \<Rightarrow> grouping_entry res" where
  "normalize_grouping_entry costs maximumLogicalUnits entry =
     bindR (get_prop ''entryPath'' entry) (\<lambda>pathValue.
     bindR (requireName pathValue ''entry path'') (\<lambda>entryPath.
     bindR (get_prop ''dependencies'' entry) (\<lambda>dependencyValue.
     case dependencyValue of
       JArr (d # ds) \<Rightarrow>
         bindR (foldR (add_closure_dependency costs) ([], 0) (d # ds)) (\<lambda>(dependencies, cost).
         if maximumLogicalUnits < int (length dependencies) + 1
         then grouping_fail (''entry '' @ quote_string entryPath @ '' exceeds the logical-unit limit'')
         else Inr \<lparr>groupingPath = entryPath, groupingDependencies = dependencies, groupingCost = cost\<rparr>)
     | _ \<Rightarrow> grouping_fail ''each entry requires its dependency closure'')))"

definition read_array :: "jsval \<Rightarrow> jsval list" where
  "read_array v = (case v of JArr vs \<Rightarrow> vs | _ \<Rightarrow> [])"

definition maximumApplicationUnits :: int where
  "maximumApplicationUnits = 1024"

record grouping_request =
  requestEntries :: "grouping_entry list"
  requestCosts :: module_costs
  requestInflation :: rat
  requestUnits :: int
  requestInflationValue :: jsval

definition read_inflation :: "jsval \<Rightarrow> rat res" where
  "read_inflation v =
     (case (case v of JNum n \<Rightarrow> finite_number n | _ \<Rightarrow> None) of
        Some q \<Rightarrow> if q < 1 then grouping_fail ''maximum cost inflation must be finite and at least one'' else Inr q
      | None \<Rightarrow> grouping_fail ''maximum cost inflation must be finite and at least one'')"

definition read_unit_limit :: "jsval \<Rightarrow> int res" where
  "read_unit_limit v =
     (case (if v = JUndefined then Some maximumApplicationUnits else positive_safe v) of
        Some n \<Rightarrow> if n < 2 then grouping_fail ''logical-unit limit must be a safe integer of at least two'' else Inr n
      | None \<Rightarrow> grouping_fail ''logical-unit limit must be a safe integer of at least two'')"

definition read_grouping_request :: "jsval \<Rightarrow> grouping_request res" where
  "read_grouping_request options =
     bindR (get_prop ''modules'' options) (\<lambda>modules.
     bindR (get_prop ''entries'' options) (\<lambda>entries.
     bindR (get_prop ''maximumCostInflation'' options) (\<lambda>inflationValue.
     bindR (get_prop ''maximumLogicalUnits'' options) (\<lambda>unitsValue.
     bindR (if read_array modules = [] \<or> read_array entries = []
            then grouping_fail ''non-empty module and entry arrays are required'' else Inr ()) (\<lambda>_.
     bindR (read_inflation inflationValue) (\<lambda>inflation.
     bindR (read_unit_limit unitsValue) (\<lambda>limit.
     bindR (foldR add_module_cost [] (read_array modules)) (\<lambda>costs.
     bindR (mapR (normalize_grouping_entry costs limit) (read_array entries)) (\<lambda>mapped.
     let normalized = js_sort (compareBy groupingPath) mapped in
     if length (js_set (map groupingPath normalized)) \<noteq> length normalized
     then grouping_fail ''entry paths must be unique''
     else Inr \<lparr>requestEntries = normalized, requestCosts = costs, requestInflation = inflation, requestUnits = limit,
            requestInflationValue = inflationValue\<rparr>)))))))))"

section \<open>Candidate pairs\<close>

type_synonym occurrences = "(string \<times> nat list) list"

definition add_occurrence :: "nat \<Rightarrow> occurrences \<Rightarrow> string \<Rightarrow> occurrences" where
  "add_occurrence index occ mid =
     (if mid \<in> set (map fst occ) then map (\<lambda>(k, members). (k, if k = mid then members @ [index] else members)) occ
      else occ @ [(mid, [index])])"

definition entry_occurrences :: "grouping_entry list \<Rightarrow> occurrences" where
  "entry_occurrences normalized =
     foldl (\<lambda>occ index. foldl (add_occurrence index) occ (groupingDependencies (normalized ! index))) [] [0..<length normalized]"

type_synonym pairs = "(nat \<times> nat) list"

definition connect :: "pairs \<Rightarrow> nat \<Rightarrow> nat \<Rightarrow> pairs" where
  "connect pairs left right = js_set_add pairs (if right < left then (right, left) else (left, right))"

fun connect_chain :: "pairs \<Rightarrow> nat list \<Rightarrow> pairs" where
  "connect_chain pairs (a # b # members) = connect_chain (connect pairs a b) (b # members)"
| "connect_chain pairs _ = pairs"

definition compare_buckets :: "nat \<times> int \<Rightarrow> nat \<times> int \<Rightarrow> int" where
  "compare_buckets left right = (if snd left \<noteq> snd right then snd left - snd right else int (fst left) - int (fst right))"

definition cost_order :: "(int \<Rightarrow> int) \<Rightarrow> grouping_entry list \<Rightarrow> nat list" where
  "cost_order bucket normalized =
     map fst (js_sort compare_buckets (map (\<lambda>index. (index, bucket (groupingCost (normalized ! index)))) [0..<length normalized]))"

definition candidate_pairs :: "(int \<Rightarrow> int) \<Rightarrow> grouping_entry list \<Rightarrow> pairs" where
  "candidate_pairs bucket normalized =
     connect_chain
       (foldl (\<lambda>pairs (mid, members). if length members = length normalized then pairs else connect_chain pairs members)
          [] (entry_occurrences normalized))
       (cost_order bucket normalized)"

text \<open>Every dependency of an entry has a cost and occurs.\<close>

definition cost_of :: "module_costs \<Rightarrow> string \<Rightarrow> int" where
  "cost_of costs mid = (case map_of costs mid of Some c \<Rightarrow> c | None \<Rightarrow> 0)"

definition frequency_of :: "occurrences \<Rightarrow> string \<Rightarrow> int" where
  "frequency_of occ mid = (case map_of occ mid of Some members \<Rightarrow> int (length members) | None \<Rightarrow> 0)"

definition score_pair :: "module_costs \<Rightarrow> grouping_entry list \<Rightarrow> nat \<times> nat \<Rightarrow> ((nat \<times> nat) \<times> int) res" where
  "score_pair costs normalized pair =
     (let left = groupingDependencies (normalized ! fst pair); right = groupingDependencies (normalized ! snd pair);
          smaller = (if length left \<le> length right then left else right);
          larger = (if length left \<le> length right then right else left);
          occ = entry_occurrences normalized
      in bindR (foldR (\<lambda>score mid.
           if mid \<in> set larger \<and> frequency_of occ mid < int (length normalized)
           then addCost score (max 1 \<lfloor>js_div (cost_of costs mid) (frequency_of occ mid)\<rfloor>) else Inr score) 0 smaller)
         (\<lambda>score. Inr (pair, score)))"

definition compare_scored :: "(nat \<times> nat) \<times> int \<Rightarrow> (nat \<times> nat) \<times> int \<Rightarrow> int" where
  "compare_scored left right =
     (if snd left \<noteq> snd right then snd right - snd left
      else if fst (fst left) \<noteq> fst (fst right) then int (fst (fst left)) - int (fst (fst right))
      else int (snd (fst left)) - int (snd (fst right)))"

definition scored_pairs :: "module_costs \<Rightarrow> grouping_entry list \<Rightarrow> pairs \<Rightarrow> pairs res" where
  "scored_pairs costs normalized pairs =
     bindR (mapR (score_pair costs normalized) pairs) (\<lambda>scored. Inr (map fst (js_sort compare_scored scored)))"

section \<open>Merging\<close>

record entry_group =
  groupParent :: nat
  groupMembers :: "nat list"
  groupDependencies :: "string list"
  groupCost :: int
  groupMinimum :: int

definition initial_groups :: "grouping_entry list \<Rightarrow> entry_group list" where
  "initial_groups normalized =
     map (\<lambda>index. let e = normalized ! index in
       \<lparr>groupParent = index, groupMembers = [index], groupDependencies = groupingDependencies e,
        groupCost = groupingCost e, groupMinimum = groupingCost e\<rparr>) [0..<length normalized]"

definition find_root :: "entry_group list \<Rightarrow> nat \<Rightarrow> nat option" where
  "find_root groups index = while_option (\<lambda>current. groupParent (groups ! current) \<noteq> current)
     (\<lambda>current. groupParent (groups ! current)) index"

definition compress_path :: "entry_group list \<Rightarrow> nat \<Rightarrow> nat \<Rightarrow> (nat \<times> entry_group list) option" where
  "compress_path groups index current = while_option (\<lambda>(i, gs). i \<noteq> current)
     (\<lambda>(i, gs). (groupParent (gs ! i), gs[i := (gs ! i)\<lparr>groupParent := current\<rparr>])) (index, groups)"

definition root :: "entry_group list \<Rightarrow> nat \<Rightarrow> (nat \<times> entry_group list) option" where
  "root groups index =
     (case find_root groups index of None \<Rightarrow> None
      | Some current \<Rightarrow> map_option (\<lambda>(_, groups'). (current, groups')) (compress_path groups index current))"

record merge_state =
  mergeGroups :: "entry_group list"
  attemptedMerges :: nat
  acceptedMerges :: nat

definition add_shared_cost :: "module_costs \<Rightarrow> string list \<Rightarrow> int \<times> int \<times> nat \<Rightarrow> string \<Rightarrow> (int \<times> int \<times> nat) res" where
  "add_shared_cost costs larger = (\<lambda>(sharedCost, additionalCost, additionalUnits) mid.
     if mid \<in> set larger then bindR (addCost sharedCost (cost_of costs mid)) (\<lambda>c. Inr (c, additionalCost, additionalUnits))
     else bindR (addCost additionalCost (cost_of costs mid)) (\<lambda>c. Inr (sharedCost, c, Suc additionalUnits)))"

text \<open>The union, under the root that has more members.\<close>

definition unite :: "entry_group list \<Rightarrow> nat \<Rightarrow> nat \<Rightarrow> int \<Rightarrow> int \<Rightarrow> entry_group list" where
  "unite groups leftIndex rightIndex unionCost minimumMemberCost =
     (let left = groups ! leftIndex; right = groups ! rightIndex;
          keepLeft = length (groupMembers right) \<le> length (groupMembers left);
          retainedIndex = (if keepLeft then leftIndex else rightIndex);
          removedIndex = (if keepLeft then rightIndex else leftIndex);
          retained = groups ! retainedIndex; removed = groups ! removedIndex
      in groups[retainedIndex := retained\<lparr>groupDependencies := foldl js_set_add (groupDependencies retained) (groupDependencies removed),
                  groupMembers := groupMembers retained @ groupMembers removed,
                  groupCost := unionCost, groupMinimum := minimumMemberCost\<rparr>,
                removedIndex := removed\<lparr>groupParent := retainedIndex, groupDependencies := [], groupMembers := []\<rparr>])"

definition merge_roots :: "module_costs \<Rightarrow> rat \<Rightarrow> int \<Rightarrow> merge_state \<Rightarrow> nat \<Rightarrow> nat \<Rightarrow> merge_state res" where
  "merge_roots costs maximumCostInflation maximumLogicalUnits st leftIndex rightIndex =
     (let left = mergeGroups st ! leftIndex; right = mergeGroups st ! rightIndex;
          smaller = (if length (groupDependencies left) \<le> length (groupDependencies right) then left else right);
          larger = (if length (groupDependencies left) \<le> length (groupDependencies right) then right else left)
      in bindR (foldR (add_shared_cost costs (groupDependencies larger)) (0, 0, 0) (groupDependencies smaller))
           (\<lambda>(sharedCost, additionalCost, additionalUnits).
         bindR (addCost (groupCost larger) additionalCost) (\<lambda>unionCost.
         let minimumMemberCost = min (groupMinimum left) (groupMinimum right);
             logicalUnits = length (groupDependencies larger) + additionalUnits
               + length (groupMembers left) + length (groupMembers right)
         in if sharedCost = 0 \<or> maximumCostInflation < js_div unionCost minimumMemberCost
              \<or> maximumLogicalUnits < int logicalUnits
            then Inr st
            else Inr (st\<lparr>mergeGroups := unite (mergeGroups st) leftIndex rightIndex unionCost minimumMemberCost,
                        acceptedMerges := Suc (acceptedMerges st)\<rparr>))))"

definition merge_pair :: "module_costs \<Rightarrow> rat \<Rightarrow> int \<Rightarrow> merge_state \<Rightarrow> nat \<times> nat \<Rightarrow> merge_state res option" where
  "merge_pair costs maximumCostInflation maximumLogicalUnits st pair =
     (case root (mergeGroups st) (fst pair) of None \<Rightarrow> None
      | Some (leftIndex, groups1) \<Rightarrow>
        (case root groups1 (snd pair) of None \<Rightarrow> None
         | Some (rightIndex, groups2) \<Rightarrow>
           Some (if leftIndex = rightIndex then Inr (st\<lparr>mergeGroups := groups2\<rparr>)
             else merge_roots costs maximumCostInflation maximumLogicalUnits
               (st\<lparr>mergeGroups := groups2, attemptedMerges := Suc (attemptedMerges st)\<rparr>) leftIndex rightIndex)))"

fun merge_pairs :: "module_costs \<Rightarrow> rat \<Rightarrow> int \<Rightarrow> merge_state \<Rightarrow> pairs \<Rightarrow> merge_state res option" where
  "merge_pairs costs inflation limit st [] = Some (Inr st)"
| "merge_pairs costs inflation limit st (pair # ps) =
     (case merge_pair costs inflation limit st pair of
        None \<Rightarrow> None
      | Some (Inl err) \<Rightarrow> Some (Inl err)
      | Some (Inr st') \<Rightarrow> merge_pairs costs inflation limit st' ps)"

section \<open>The plan\<close>

record planned_group =
  plannedEntries :: "string list"
  plannedCost :: int
  plannedMinimum :: int
  plannedInflation :: rat
  plannedDependencyCount :: nat

record entry_plan =
  planPolicy :: jsval
  planEntryGroups :: "string list list"
  planGroups :: "planned_group list"
  modeledInventoryCost :: int
  planCandidatePairs :: nat
  planAttemptedMerges :: nat
  planAcceptedMerges :: nat
  closureMemberships :: nat
  partitionSha256 :: string

definition planned_groups :: "grouping_entry list \<Rightarrow> entry_group list \<Rightarrow> planned_group list" where
  "planned_groups normalized groups =
     js_sort (compareBy (\<lambda>g. hd (plannedEntries g)))
       (map (\<lambda>index. let g = groups ! index in
          \<lparr>plannedEntries = sort_strings (map (\<lambda>member. groupingPath (normalized ! member)) (groupMembers g)),
           plannedCost = groupCost g, plannedMinimum = groupMinimum g, plannedInflation = js_div (groupCost g) (groupMinimum g),
           plannedDependencyCount = length (groupDependencies g)\<rparr>)
        (filter (\<lambda>index. groupParent (groups ! index) = index) [0..<length groups]))"

definition grouping_policy :: "grouping_request \<Rightarrow> jsval" where
  "grouping_policy req = JObj [(''kind'', JStr ''convex-wasm-dependency-cost-entry-grouping-v1''),
     (''maximumCostInflation'', requestInflationValue req), (''maximumLogicalUnits'', JNum (NInt (requestUnits req)))]"

definition entry_plan_of :: "(string \<Rightarrow> string) \<Rightarrow> grouping_request \<Rightarrow> pairs \<Rightarrow> merge_state \<Rightarrow> entry_plan res" where
  "entry_plan_of sha256 req pairs st =
     (let groups = planned_groups (requestEntries req) (mergeGroups st); policy = grouping_policy req;
          entryGroups = map plannedEntries groups
      in bindR (foldR (\<lambda>sum g. addCost sum (plannedCost g)) 0 groups) (\<lambda>inventoryCost.
         bindR (fingerprintJson sha256 (JObj [(''policy'', policy),
             (''entryGroups'', JArr (map (\<lambda>paths. JArr (map JStr paths)) entryGroups))])) (\<lambda>partition.
         Inr \<lparr>planPolicy = policy, planEntryGroups = entryGroups, planGroups = groups, modeledInventoryCost = inventoryCost,
           planCandidatePairs = length pairs, planAttemptedMerges = attemptedMerges st, planAcceptedMerges = acceptedMerges st,
           closureMemberships = sum_list (map (\<lambda>e. length (groupingDependencies e)) (requestEntries req)),
           partitionSha256 = partition\<rparr>)))"

definition plan_request :: "(string \<Rightarrow> string) \<Rightarrow> (int \<Rightarrow> int) \<Rightarrow> grouping_request \<Rightarrow> entry_plan res option" where
  "plan_request sha256 bucket req =
     (let normalized = requestEntries req; pairs = candidate_pairs bucket normalized in
      case scored_pairs (requestCosts req) normalized pairs of
        Inl err \<Rightarrow> Some (Inl err)
      | Inr scored \<Rightarrow>
        map_option (\<lambda>result. bindR result (entry_plan_of sha256 req pairs))
          (merge_pairs (requestCosts req) (requestInflation req) (requestUnits req)
            \<lparr>mergeGroups = initial_groups normalized, attemptedMerges = 0, acceptedMerges = 0\<rparr> scored))"

definition planConvexWasmEntryGroups :: "(string \<Rightarrow> string) \<Rightarrow> (int \<Rightarrow> int) \<Rightarrow> jsval \<Rightarrow> entry_plan res option" where
  "planConvexWasmEntryGroups sha256 bucket options =
     (case read_grouping_request options of
        Inl err \<Rightarrow> Some (Inl err)
      | Inr req \<Rightarrow> plan_request sha256 bucket req)"

section \<open>Official output entries\<close>

text \<open>The deployment output closure is a parameter: \<open>graph\<close> is the projected chunk graph, a path and a source
  size per module, and \<open>select\<close> the paths of the closure of an entry.\<close>

definition source_cost :: "int \<Rightarrow> int" where
  "source_cost n = max 1 (- ((- n) div 4096)) * 4096"

definition planConvexWasmOfficialOutputEntryGroups ::
  "(string \<Rightarrow> string) \<Rightarrow> (int \<Rightarrow> int) \<Rightarrow> (string \<times> int) list res \<Rightarrow> (jsval \<Rightarrow> string list res) \<Rightarrow> jsval \<Rightarrow> entry_plan res option" where
  "planConvexWasmOfficialOutputEntryGroups sha256 bucket graph select entryPaths =
     (case (if read_array entryPaths = [] then grouping_fail ''selected entry paths are required''
            else bindR graph (\<lambda>modules.
              bindR (mapR (\<lambda>path. bindR (select path) (\<lambda>dependencies. Inr (path, dependencies))) (read_array entryPaths)) (\<lambda>entries.
              Inr (modules, entries)))) of
        Inl err \<Rightarrow> Some (Inl err)
      | Inr (modules, entries) \<Rightarrow>
        planConvexWasmEntryGroups sha256 bucket (JObj
          [(''modules'', JArr (map (\<lambda>(path, n). JObj [(''id'', JStr path), (''cost'', JNum (NInt (source_cost n)))])
              (filter (\<lambda>(path, n). path \<in> set (concat (map snd entries))) modules))),
           (''entries'', JArr (map (\<lambda>(path, dependencies). JObj [(''entryPath'', path), (''dependencies'', JArr (map JStr dependencies))]) entries)),
           (''maximumCostInflation'', JNum (NDec ''1.5''))]))"

end
