(* ===== verification/EntryGroupingForest.thy ===== *)
theory EntryGroupingForest
  imports EntryGrouping
begin

text \<open>
  The forest of the entry grouping planner: with parents of increasing rank both loops of \<open>root\<close> end
  at a root, path compression keeps the ranks and the roots, and so every merge loop returns.
\<close>

section \<open>Links\<close>

abbreviation parent :: "entry_group list \<Rightarrow> nat \<Rightarrow> nat" where
  "parent gs i \<equiv> groupParent (gs ! i)"

definition ranked :: "(nat \<Rightarrow> nat) \<Rightarrow> entry_group list \<Rightarrow> bool" where
  "ranked rank gs \<longleftrightarrow> (\<forall>i < length gs. parent gs i < length gs \<and> (parent gs i \<noteq> i \<longrightarrow> rank i < rank (parent gs i)))"

definition links :: "entry_group list \<Rightarrow> (nat \<times> nat) set" where
  "links gs = {(i, parent gs i) | i. i < length gs \<and> parent gs i \<noteq> i}"

lemma linksI: "i < length gs \<Longrightarrow> parent gs i \<noteq> i \<Longrightarrow> (i, parent gs i) \<in> links gs"
  by (auto simp: links_def)

lemma links_rank:
  assumes "(i, r) \<in> (links gs)\<^sup>*" "ranked rank gs"
  shows "i = r \<or> rank i < rank r"
  using assms
proof (induction rule: rtrancl_induct)
  case (step y z)
  then have "rank y < rank z" by (auto simp: links_def ranked_def)
  then show ?case using step by auto
qed simp

lemma rank_bound: "i < length gs \<Longrightarrow> rank i \<le> Max (rank ` {..<length gs})"
  by (simp add: Max_ge)

lemma find_root_total:
  assumes "ranked rank gs" "i < length gs"
  shows "\<exists>r. find_root gs i = Some r \<and> r < length gs \<and> parent gs r = r \<and> (i, r) \<in> (links gs)\<^sup>*"
proof -
  let ?b = "\<lambda>current. parent gs current \<noteq> current" and ?c = "parent gs"
  let ?P = "\<lambda>x. x < length gs \<and> (i, x) \<in> (links gs)\<^sup>*"
  have step: "?P (?c x)" if "?P x" "?b x" for x
    using that assms(1) linksI[of x gs] by (auto simp: ranked_def intro: rtrancl_into_rtrancl)
  have "\<exists>r. while_option ?b ?c i = Some r"
  proof (rule measure_while_option_Some[where P = ?P and f = "\<lambda>x. Max (rank ` {..<length gs}) - rank x"])
    fix x assume x: "?P x" "?b x"
    then have "rank x < rank (parent gs x)" using assms(1) by (simp add: ranked_def)
    moreover have "rank (parent gs x) \<le> Max (rank ` {..<length gs})" using step[OF x] by (intro rank_bound) simp
    ultimately have "Max (rank ` {..<length gs}) - rank (?c x) < Max (rank ` {..<length gs}) - rank x"
      by (intro diff_less_mono2) linarith+
    then show "?P (?c x) \<and> Max (rank ` {..<length gs}) - rank (?c x) < Max (rank ` {..<length gs}) - rank x"
      using step[OF x] by blast
  qed (use assms(2) in simp)
  then obtain r where r: "while_option ?b ?c i = Some r" by blast
  have "?P r" by (rule while_option_rule[OF _ r]) (use step assms(2) in auto)
  moreover have "\<not> ?b r" by (rule while_option_stop[OF r])
  ultimately show ?thesis using r by (auto simp: find_root_def)
qed

section \<open>Path compression\<close>

text \<open>The same groups with the same roots.\<close>

definition same_groups :: "entry_group list \<Rightarrow> entry_group list \<Rightarrow> bool" where
  "same_groups gs gs' \<longleftrightarrow> length gs' = length gs \<and> (\<forall>j < length gs.
     groupMembers (gs' ! j) = groupMembers (gs ! j) \<and> groupDependencies (gs' ! j) = groupDependencies (gs ! j)
   \<and> groupCost (gs' ! j) = groupCost (gs ! j) \<and> groupMinimum (gs' ! j) = groupMinimum (gs ! j)
   \<and> (parent gs' j = j \<longleftrightarrow> parent gs j = j))"

lemma same_groups_refl: "same_groups gs gs"
  by (simp add: same_groups_def)

lemma same_groups_trans: "same_groups a b \<Longrightarrow> same_groups b c \<Longrightarrow> same_groups a c"
  by (simp add: same_groups_def)

lemma path_after_update:
  assumes "ranked rank gs" "(a, r) \<in> (links gs)\<^sup>*" "rank i < rank a" "i < length gs"
  shows "(a, r) \<in> (links (gs[i := g]))\<^sup>*"
  using assms(2,3)
proof (induction rule: converse_rtrancl_induct)
  case (step y z)
  then have y: "y < length gs" "z = parent gs y" "parent gs y \<noteq> y" "y \<noteq> i" by (auto simp: links_def)
  then have "(y, z) \<in> links (gs[i := g])" by (auto simp: links_def)
  moreover have "rank i < rank z" using step.prems y assms(1) by (force simp: ranked_def)
  ultimately show ?case using step.IH by (meson converse_rtrancl_into_rtrancl)
qed simp

lemma compress_path_total:
  assumes "ranked rank gs" "i < length gs" "current < length gs" "parent gs current = current" "(i, current) \<in> (links gs)\<^sup>*"
  shows "\<exists>i' gs'. compress_path gs i current = Some (i', gs') \<and> ranked rank gs' \<and> same_groups gs gs'"
proof -
  let ?b = "\<lambda>(x :: nat, hs :: entry_group list). x \<noteq> current"
  let ?c = "\<lambda>(x, hs). (parent hs x, hs[x := (hs ! x)\<lparr>groupParent := current\<rparr>])"
  let ?P = "\<lambda>(x, hs). x < length gs \<and> ranked rank hs \<and> same_groups gs hs \<and> (x, current) \<in> (links hs)\<^sup>*"
  have step: "?P (?c s) \<and> rank (fst s) < rank (fst (?c s))" if P: "?P s" and b: "?b s" for s
  proof -
    obtain x hs where s: "s = (x, hs)" by fastforce
    have x: "x < length hs" "ranked rank hs" "same_groups gs hs" "(x, current) \<in> (links hs)\<^sup>*" "x \<noteq> current" "length hs = length gs"
      using P b by (auto simp: s same_groups_def)
    obtain y where y: "(x, y) \<in> links hs" "(y, current) \<in> (links hs)\<^sup>*" using x(4,5) by (meson converse_rtranclE)
    then have py: "y = parent hs x" "y \<noteq> x" by (auto simp: links_def)
    then have less: "rank x < rank y" "y < length hs" using x(1,2) by (auto simp: ranked_def)
    let ?hs = "hs[x := (hs ! x)\<lparr>groupParent := current\<rparr>]"
    have "rank x < rank current" using links_rank[OF x(4,2)] x(5) by simp
    then have "ranked rank ?hs" using x(1,2,6) assms(3) by (auto simp: ranked_def nth_list_update)
    moreover have "same_groups gs ?hs" using x(1,3,5,6) py by (auto simp: same_groups_def nth_list_update)
    moreover have "(y, current) \<in> (links ?hs)\<^sup>*" using x(2) y(2) less(1) x(1) by (rule path_after_update)
    ultimately show ?thesis using py(1) less x(6) by (simp add: s)
  qed
  have "\<exists>t. while_option ?b ?c (i, gs) = Some t"
  proof (rule measure_while_option_Some[where P = ?P and f = "\<lambda>s. Max (rank ` {..<length gs}) - rank (fst s)"])
    fix s assume s: "?P s" "?b s"
    have "fst (?c s) < length gs" using step[OF s] by (auto split: prod.splits)
    then have "rank (fst (?c s)) \<le> Max (rank ` {..<length gs})" by (rule rank_bound)
    moreover have less: "?P (?c s)" "rank (fst s) < rank (fst (?c s))" by (rule conjunct1[OF step[OF s]], rule conjunct2[OF step[OF s]])
    ultimately have "Max (rank ` {..<length gs}) - rank (fst (?c s)) < Max (rank ` {..<length gs}) - rank (fst s)"
      by (intro diff_less_mono2) linarith+
    then show "?P (?c s) \<and> Max (rank ` {..<length gs}) - rank (fst (?c s)) < Max (rank ` {..<length gs}) - rank (fst s)"
      using less(1) by blast
  qed (use assms same_groups_refl in simp)
  then obtain t where t: "while_option ?b ?c (i, gs) = Some t" by blast
  have "?P t"
    by (rule while_option_rule[where P = ?P, OF _ t]) (use step assms same_groups_refl in auto)
  then show ?thesis using t by (cases t) (auto simp: compress_path_def)
qed

lemma root_total:
  assumes "ranked rank gs" "i < length gs"
  shows "\<exists>r gs'. root gs i = Some (r, gs') \<and> r < length gs \<and> parent gs' r = r \<and> ranked rank gs' \<and> same_groups gs gs'"
proof -
  obtain r where r: "find_root gs i = Some r" "r < length gs" "parent gs r = r" "(i, r) \<in> (links gs)\<^sup>*"
    using find_root_total[OF assms] by blast
  obtain i' gs' where c: "compress_path gs i r = Some (i', gs')" "ranked rank gs'" "same_groups gs gs'"
    using compress_path_total[OF assms r(2,3,4)] by blast
  have "parent gs' r = r" using c(3) r(2,3) by (simp add: same_groups_def)
  then show ?thesis using r c by (simp add: root_def)
qed

section \<open>Candidate pairs are pairs of entries\<close>

definition pairs_below :: "nat \<Rightarrow> pairs \<Rightarrow> bool" where
  "pairs_below n pairs \<longleftrightarrow> (\<forall>(l, r) \<in> set pairs. l < n \<and> r < n)"

lemma connect_below: "pairs_below n pairs \<Longrightarrow> l < n \<Longrightarrow> r < n \<Longrightarrow> pairs_below n (connect pairs l r)"
  by (auto simp: pairs_below_def connect_def)

lemma connect_chain_below:
  "pairs_below n pairs \<Longrightarrow> \<forall>m \<in> set ms. m < n \<Longrightarrow> pairs_below n (connect_chain pairs ms)"
  by (induction pairs ms rule: connect_chain.induct) (auto intro: connect_below)

definition occurrences_ok :: "nat \<Rightarrow> occurrences \<Rightarrow> bool" where
  "occurrences_ok n occ \<longleftrightarrow> (\<forall>k ms. (k, ms) \<in> set occ \<longrightarrow> (\<forall>m \<in> set ms. m < n))"

lemma add_occurrence_ok: "occurrences_ok n occ \<Longrightarrow> i < n \<Longrightarrow> occurrences_ok n (add_occurrence i occ mid)"
  unfolding occurrences_ok_def add_occurrence_def by (auto split: if_splits; blast)

lemma entry_occurrences_ok: "occurrences_ok (length normalized) (entry_occurrences normalized)"
proof -
  have many: "occurrences_ok n occ \<Longrightarrow> i < n \<Longrightarrow> occurrences_ok n (foldl (add_occurrence i) occ ds)" for n i occ ds
    by (induction ds arbitrary: occ) (auto intro: add_occurrence_ok)
  have "occurrences_ok n occ \<Longrightarrow> \<forall>i \<in> set js. i < n \<Longrightarrow>
      occurrences_ok n (foldl (\<lambda>occ index. foldl (add_occurrence index) occ (groupingDependencies (normalized ! index))) occ js)" for n occ js
    by (induction js arbitrary: occ) (auto intro: many)
  moreover have "occurrences_ok n []" for n by (simp add: occurrences_ok_def)
  ultimately show ?thesis unfolding entry_occurrences_def by auto
qed

lemma candidate_pairs_below: "pairs_below (length normalized) (candidate_pairs bucket normalized)"
proof -
  have order: "\<forall>m \<in> set (cost_order bucket normalized). m < length normalized"
    by (auto simp: cost_order_def)
  have "pairs_below n pairs \<Longrightarrow> occurrences_ok n occ \<Longrightarrow> pairs_below n (foldl (\<lambda>pairs (mid, members). if length members = m then pairs
      else connect_chain pairs members) pairs occ)" for n m pairs occ
  proof (induction occ arbitrary: pairs)
    case (Cons a occ)
    obtain k ms where a: "a = (k, ms)" by fastforce
    have "occurrences_ok n occ" "\<forall>m \<in> set ms. m < n" using Cons.prems(2) by (auto simp: a occurrences_ok_def)
    then show ?case using Cons by (simp add: a connect_chain_below)
  qed simp
  then show ?thesis unfolding candidate_pairs_def
    by (intro connect_chain_below order) (use entry_occurrences_ok in \<open>auto simp: pairs_below_def[of _ "[]"]\<close>)
qed

lemma scored_pairs_below:
  assumes "scored_pairs costs normalized pairs = Inr scored" "pairs_below n pairs"
  shows "pairs_below n scored"
proof -
  obtain ys where ys: "mapR (score_pair costs normalized) pairs = Inr ys" "scored = map fst (js_sort compare_scored ys)"
    using assms(1) by (auto simp: scored_pairs_def bindR_Inr_iff)
  have "fst y \<in> set pairs" if "y \<in> set ys" for y
    using mapR_set[OF ys(1) that] by (auto simp: score_pair_def Let_def bindR_Inr_iff)
  then show ?thesis using assms(2) by (force simp: pairs_below_def ys(2))
qed

end
