(* ===== verification/EntryGroupingCorrect.thy ===== *)
theory EntryGroupingCorrect
  imports EntryGroupingForest
begin

text \<open>
  The merge loop keeps its invariant: the members of the groups partition the entries, a root carries the
  union of its members' closures with its exact cost and stays within both bounds, and a group that was
  removed is empty. The plan reads the roots off.
\<close>

section \<open>Requests that were read\<close>

definition costs_ok :: "module_costs \<Rightarrow> bool" where
  "costs_ok costs \<longleftrightarrow> distinct (map fst costs) \<and> (\<forall>(k, c) \<in> set costs. 0 < c)"

definition entry_ok :: "module_costs \<Rightarrow> int \<Rightarrow> grouping_entry \<Rightarrow> bool" where
  "entry_ok costs limit e \<longleftrightarrow> groupingDependencies e \<noteq> [] \<and> distinct (groupingDependencies e)
     \<and> set (groupingDependencies e) \<subseteq> set (map fst costs)
     \<and> groupingCost e = sum_list (map (cost_of costs) (groupingDependencies e))
     \<and> int (length (groupingDependencies e)) + 1 \<le> limit"

definition request_ok :: "grouping_request \<Rightarrow> bool" where
  "request_ok req \<longleftrightarrow> requestEntries req \<noteq> [] \<and> costs_ok (requestCosts req)
     \<and> (\<forall>e \<in> set (requestEntries req). entry_ok (requestCosts req) (requestUnits req) e)
     \<and> sorted (map groupingPath (requestEntries req)) \<and> distinct (map groupingPath (requestEntries req))
     \<and> 1 \<le> requestInflation req"

lemma grouping_fail_Inr_iff [simp]: "grouping_fail m = Inr x \<longleftrightarrow> False"
  by (simp add: grouping_fail_def)

lemma addCost_Inr: "addCost a b = Inr c \<longleftrightarrow> c = a + b \<and> \<bar>a + b\<bar> \<le> max_safe_integer"
  by (auto simp: addCost_def)

lemma positive_safe_pos: "positive_safe v = Some c \<Longrightarrow> 0 < c"
  by (auto elim!: positive_safe.elims split: if_splits)

lemma add_module_cost_ok:
  assumes "add_module_cost costs v = Inr costs'" "costs_ok costs"
  shows "costs_ok costs'"
proof -
  obtain mid costValue where "(case positive_safe costValue of
       Some c \<Rightarrow> if mid \<in> set (map fst costs)
         then grouping_fail ''module identities must be unique with positive integer costs'' else Inr (costs @ [(mid, c)])
     | None \<Rightarrow> grouping_fail ''module identities must be unique with positive integer costs'') = Inr costs'"
    using assms(1) unfolding add_module_cost_def bindR_Inr_iff by blast
  then obtain c where "positive_safe costValue = Some c" "mid \<notin> set (map fst costs)" "costs' = costs @ [(mid, c)]"
    by (auto split: option.splits if_splits)
  then show ?thesis using assms(2) positive_safe_pos by (auto simp: costs_ok_def)
qed

lemma add_closure_dependency_Inr:
  assumes "add_closure_dependency costs (ds, c) v = Inr (ds', c')"
  shows "\<exists>mid. v = JStr mid \<and> mid \<in> set (map fst costs) \<and> mid \<notin> set ds \<and> ds' = ds @ [mid] \<and> c' = c + cost_of costs mid"
  using assms by (auto simp: add_closure_dependency_def bindR_Inr_iff addCost_Inr cost_of_def split: jsval.splits option.splits if_splits
      dest!: map_of_SomeD) (metis fst_conv imageI)

lemma add_closure_dependencies_Inr:
  assumes "foldR (add_closure_dependency costs) (ds, c) vs = Inr (ds', c')" "distinct ds" "set ds \<subseteq> set (map fst costs)"
    "c = sum_list (map (cost_of costs) ds)"
  shows "distinct ds' \<and> set ds' \<subseteq> set (map fst costs) \<and> c' = sum_list (map (cost_of costs) ds')
    \<and> length ds' = length ds + length vs"
  using assms
proof (induction vs arbitrary: ds c)
  case (Cons v vs)
  then obtain ds1 c1 where 1: "add_closure_dependency costs (ds, c) v = Inr (ds1, c1)" "foldR (add_closure_dependency costs) (ds1, c1) vs = Inr (ds', c')"
    by (auto simp: bindR_Inr_iff)
  obtain mid where mid: "mid \<in> set (map fst costs)" "mid \<notin> set ds" "ds1 = ds @ [mid]" "c1 = c + cost_of costs mid"
    using add_closure_dependency_Inr[OF 1(1)] by blast
  have "distinct ds1" "set ds1 \<subseteq> set (map fst costs)" "c1 = sum_list (map (cost_of costs) ds1)"
    using mid Cons.prems(2-4) by auto
  then show ?case using Cons.IH[OF 1(2)] mid(3) by simp
qed simp

lemma normalize_grouping_entry_ok:
  assumes "normalize_grouping_entry costs limit v = Inr e"
  shows "entry_ok costs limit e"
proof -
  obtain path v where v: "(case v of
       JArr (d # ds) \<Rightarrow>
         bindR (foldR (add_closure_dependency costs) ([], 0) (d # ds)) (\<lambda>(dependencies, cost).
         if limit < int (length dependencies) + 1
         then grouping_fail (''entry '' @ quote_string path @ '' exceeds the logical-unit limit'')
         else Inr \<lparr>groupingPath = path, groupingDependencies = dependencies, groupingCost = cost\<rparr>)
     | _ \<Rightarrow> grouping_fail ''each entry requires its dependency closure'') = Inr e"
    using assms unfolding normalize_grouping_entry_def bindR_Inr_iff by blast
  then obtain d ds where d: "v = JArr (d # ds)" by (auto split: jsval.splits list.splits)
  obtain ds' c' where "foldR (add_closure_dependency costs) ([], 0) (d # ds) = Inr (ds', c')" "int (length ds') + 1 \<le> limit"
    "groupingDependencies e = ds'" "groupingCost e = c'"
    using v unfolding d by (auto simp: bindR_Inr_iff not_less simp del: foldR.simps split: if_splits)
  then show ?thesis using add_closure_dependencies_Inr[of costs "[]" 0 "d # ds" ds' c'] by (auto simp: entry_ok_def simp del: foldR.simps)
qed

lemma read_grouping_request_ok:
  assumes "read_grouping_request options = Inr req"
  shows "request_ok req"
proof -
  obtain modules entries costs mapped iv limit inflation where i: "read_inflation iv = Inr inflation"
    "foldR add_module_cost [] (read_array modules) = Inr costs" "mapR (normalize_grouping_entry costs limit) (read_array entries) = Inr mapped"
    and e: "(if read_array modules = [] \<or> read_array entries = [] then grouping_fail ''non-empty module and entry arrays are required''
       else Inr ()) = Inr ()"
    and m: "(if length (js_set (map groupingPath (js_sort (compareBy groupingPath) mapped))) \<noteq> length (js_sort (compareBy groupingPath) mapped)
       then grouping_fail ''entry paths must be unique''
       else Inr \<lparr>requestEntries = js_sort (compareBy groupingPath) mapped, requestCosts = costs, requestInflation = inflation,
         requestUnits = limit, requestInflationValue = iv\<rparr>) = Inr req"
    using assms unfolding read_grouping_request_def bindR_Inr_iff Let_def by (metis old.unit.exhaust)
  have r: "read_array entries \<noteq> []" "foldR add_module_cost [] (read_array modules) = Inr costs"
    "mapR (normalize_grouping_entry costs (requestUnits req)) (read_array entries) = Inr mapped"
    "requestEntries req = js_sort (compareBy groupingPath) mapped" "requestCosts req = costs"
    "length (js_set (map groupingPath (requestEntries req))) = length (requestEntries req)"
    and inflation: "\<exists>v. read_inflation v = Inr (requestInflation req)"
    using i e m by (auto split: if_splits)
  have "costs_ok costs" by (rule foldR_invariant[OF r(2), where P = costs_ok]) (use add_module_cost_ok in \<open>auto simp: costs_ok_def[of "[]"]\<close>)
  moreover have "entry_ok costs (requestUnits req) e" if "e \<in> set mapped" for e
    using mapR_set[OF r(3) that] normalize_grouping_entry_ok by blast
  moreover have "sorted (map groupingPath (requestEntries req))" by (simp add: r(4) js_sort_map sorted_sort_strings)
  moreover have "distinct (map groupingPath (requestEntries req))" using r(6) by (simp add: length_js_set_iff[symmetric])
  moreover have "mapped \<noteq> []" using r(1) mapR_length[OF r(3)] by auto
  moreover have "1 \<le> requestInflation req" using inflation by (auto simp: read_inflation_def split: option.splits if_splits)
  ultimately show ?thesis using r(4,5) by (simp add: request_ok_def)
qed

lemma cost_of_pos: "costs_ok costs \<Longrightarrow> mid \<in> set (map fst costs) \<Longrightarrow> 0 < cost_of costs mid"
  by (fastforce simp: costs_ok_def cost_of_def split: option.split dest: map_of_SomeD simp: map_of_eq_None_iff)

section \<open>The invariant\<close>

definition closure_of :: "grouping_entry list \<Rightarrow> nat list \<Rightarrow> string set" where
  "closure_of normalized ms = (\<Union>m \<in> set ms. set (groupingDependencies (normalized ! m)))"

definition group_ok :: "grouping_request \<Rightarrow> entry_group \<Rightarrow> bool" where
  "group_ok req g \<longleftrightarrow> groupMembers g \<noteq> [] \<and> distinct (groupDependencies g)
     \<and> set (groupDependencies g) = closure_of (requestEntries req) (groupMembers g)
     \<and> groupCost g = (\<Sum>mid \<in> set (groupDependencies g). cost_of (requestCosts req) mid)
     \<and> groupMinimum g = Min ((\<lambda>m. groupingCost (requestEntries req ! m)) ` set (groupMembers g))
     \<and> js_div (groupCost g) (groupMinimum g) \<le> requestInflation req
     \<and> int (length (groupDependencies g)) + int (length (groupMembers g)) \<le> requestUnits req"

definition merge_inv :: "grouping_request \<Rightarrow> entry_group list \<Rightarrow> bool" where
  "merge_inv req gs \<longleftrightarrow> length gs = length (requestEntries req) \<and> (\<exists>rank. ranked rank gs)
     \<and> mset (concat (map groupMembers gs)) = mset [0..<length gs]
     \<and> (\<forall>i < length gs. if parent gs i = i then group_ok req (gs ! i) else groupMembers (gs ! i) = [])"

lemma js_div_self: "0 < c \<Longrightarrow> js_div c c = 1"
proof -
  have "double_of 1 = 1" by code_simp
  then show "0 < c \<Longrightarrow> js_div c c = 1" by (simp add: js_div_def)
qed

lemma initial_groups_inv:
  assumes "request_ok req"
  shows "merge_inv req (initial_groups (requestEntries req))"
proof -
  let ?gs = "initial_groups (requestEntries req)"
  have len: "length ?gs = length (requestEntries req)" by (simp add: initial_groups_def)
  have "group_ok req (?gs ! i)" if i: "i < length (requestEntries req)" for i
  proof -
    let ?e = "requestEntries req ! i"
    have e: "entry_ok (requestCosts req) (requestUnits req) ?e" using assms i by (simp add: request_ok_def)
    have "0 < cost_of (requestCosts req) mid" if "mid \<in> set (groupingDependencies ?e)" for mid
    proof (rule cost_of_pos)
      show "costs_ok (requestCosts req)" using assms by (simp add: request_ok_def)
      show "mid \<in> set (map fst (requestCosts req))" using e that unfolding entry_ok_def by blast
    qed
    then have pos: "0 < groupingCost ?e"
    proof -
      obtain d ds where ds: "groupingDependencies ?e = d # ds" using e by (cases "groupingDependencies ?e") (auto simp: entry_ok_def)
      have "0 \<le> sum_list (map (cost_of (requestCosts req)) ds)"
        using \<open>\<And>mid. mid \<in> set (groupingDependencies ?e) \<Longrightarrow> 0 < cost_of (requestCosts req) mid\<close>
        by (intro sum_list_nonneg) (auto simp: ds less_imp_le)
      moreover have "0 < cost_of (requestCosts req) d"
        using \<open>\<And>mid. mid \<in> set (groupingDependencies ?e) \<Longrightarrow> 0 < cost_of (requestCosts req) mid\<close> by (simp add: ds)
      moreover have "groupingCost ?e = sum_list (map (cost_of (requestCosts req)) (groupingDependencies ?e))"
        using e unfolding entry_ok_def by blast
      ultimately show ?thesis by (simp add: ds)
    qed
    have "groupingCost ?e = (\<Sum>mid \<in> set (groupingDependencies ?e). cost_of (requestCosts req) mid)"
      using e by (simp add: entry_ok_def sum_list_distinct_conv_sum_set)
    then show ?thesis using pos e i assms
      by (simp add: initial_groups_def group_ok_def Let_def closure_of_def entry_ok_def js_div_self request_ok_def)
  qed
  moreover have "mset (concat (map groupMembers ?gs)) = mset [0..<length ?gs]"
    by (simp add: initial_groups_def o_def Let_def)
  moreover have "parent ?gs i = i" if "i < length (requestEntries req)" for i using that by (simp add: initial_groups_def Let_def)
  moreover have "ranked (\<lambda>_. 0) ?gs" by (simp add: ranked_def initial_groups_def Let_def)
  ultimately show ?thesis using len by (auto simp: merge_inv_def)
qed

lemma same_groups_inv:
  assumes "merge_inv req gs" "same_groups gs gs'" "ranked rank gs'"
  shows "merge_inv req gs'"
proof -
  have same: "length gs' = length gs" "\<And>j. j < length gs \<Longrightarrow> groupMembers (gs' ! j) = groupMembers (gs ! j)
      \<and> groupDependencies (gs' ! j) = groupDependencies (gs ! j) \<and> groupCost (gs' ! j) = groupCost (gs ! j)
      \<and> groupMinimum (gs' ! j) = groupMinimum (gs ! j) \<and> (parent gs' j = j \<longleftrightarrow> parent gs j = j)"
    using assms(2) by (simp_all add: same_groups_def)
  have "map groupMembers gs' = map groupMembers gs" by (rule nth_equalityI) (simp_all add: same)
  moreover have "group_ok req (gs' ! j) = group_ok req (gs ! j)" if "j < length gs" for j
    using same(2)[OF that] by (simp add: group_ok_def)
  ultimately show ?thesis using assms(1,3) same unfolding merge_inv_def by auto
qed

section \<open>One merge\<close>

lemma add_shared_costs:
  assumes "foldR (add_shared_cost costs larger) (s, a, u) smaller = Inr (s', a', u')"
  shows "s' = s + sum_list (map (cost_of costs) (filter (\<lambda>m. m \<in> set larger) smaller))
    \<and> a' = a + sum_list (map (cost_of costs) (filter (\<lambda>m. m \<notin> set larger) smaller))
    \<and> u' = u + length (filter (\<lambda>m. m \<notin> set larger) smaller)"
  using assms
proof (induction smaller arbitrary: s a u)
  case (Cons m ms)
  then obtain s1 a1 u1 where 1: "add_shared_cost costs larger (s, a, u) m = Inr (s1, a1, u1)"
    "foldR (add_shared_cost costs larger) (s1, a1, u1) ms = Inr (s', a', u')" by (auto simp: bindR_Inr_iff)
  then show ?case using Cons.IH[OF 1(2)]
    by (auto simp: add_shared_cost_def bindR_Inr_iff addCost_Inr split: if_splits)
qed simp

lemma sum_union_costs:
  fixes f :: "string \<Rightarrow> int"
  assumes "distinct xs" "distinct ys"
  shows "(\<Sum>m \<in> set xs \<union> set ys. f m) = (\<Sum>m \<in> set xs. f m) + sum_list (map f (filter (\<lambda>m. m \<notin> set xs) ys))"
proof -
  have "sum_list (map f (filter (\<lambda>m. m \<notin> set xs) ys)) = (\<Sum>m \<in> set ys - set xs. f m)"
    using assms(2) by (simp add: sum_list_distinct_conv_sum_set set_diff_eq)
  moreover have "(\<Sum>m \<in> set xs \<union> set ys. f m) = (\<Sum>m \<in> set xs. f m) + (\<Sum>m \<in> set ys - set xs. f m)"
    by (metis List.finite_set Un_Diff_cancel finite_Diff inf_commute Diff_disjoint sum.union_disjoint)
  ultimately show ?thesis by simp
qed

lemma card_union_length:
  assumes "distinct xs" "distinct ys"
  shows "card (set xs \<union> set ys) = length xs + length (filter (\<lambda>m. m \<notin> set xs) ys)"
proof -
  have "card (set xs \<union> set ys) = card (set xs) + card (set ys - set xs)"
    by (metis List.finite_set Un_Diff_cancel finite_Diff Diff_disjoint card_Un_disjoint)
  moreover have "card (set ys - set xs) = length (filter (\<lambda>m. m \<notin> set xs) ys)"
    using assms(2) by (simp add: distinct_card[symmetric] set_diff_eq)
  ultimately show ?thesis using assms(1) by (simp add: distinct_card)
qed

lemma mset_concat_nth: "mset (concat (map f xs)) = (\<Sum>i < length xs. mset (f (xs ! i)))"
  by (induction xs rule: rev_induct) (auto simp: nth_append intro: sum.cong)

lemma mset_concat_two:
  assumes "i < length xs" "j < length xs" "i \<noteq> j"
  shows "mset (concat (map f (xs[i := a, j := b]))) + mset (f (xs ! i)) + mset (f (xs ! j)) = mset (concat (map f xs)) + mset (f a) + mset (f b)"
proof -
  let ?rest = "{..<length xs} - {i, j}"
  have split: "(\<Sum>k < length xs. g k) = g i + g j + (\<Sum>k \<in> ?rest. g k)" for g :: "nat \<Rightarrow> 'b multiset"
  proof -
    have "{..<length xs} = insert i (insert j ?rest)" using assms by auto
    then have "(\<Sum>k < length xs. g k) = (\<Sum>k \<in> insert i (insert j ?rest). g k)" by simp
    also have "\<dots> = g i + g j + (\<Sum>k \<in> ?rest. g k)" using assms(3) by (simp add: add.assoc)
    finally show ?thesis .
  qed
  have "(\<Sum>k \<in> ?rest. mset (f (xs[i := a, j := b] ! k))) = (\<Sum>k \<in> ?rest. mset (f (xs ! k)))"
    by (rule sum.cong) auto
  then show ?thesis using assms unfolding mset_concat_nth length_list_update
    unfolding split[of "\<lambda>k. mset (f (xs[i := a, j := b] ! k))"] split[of "\<lambda>k. mset (f (xs ! k))"]
    by (simp add: nth_list_update)
qed

text \<open>The union of two groups within the bounds is a group within the bounds.\<close>

lemma united_group_ok:
  assumes left: "group_ok req left" and right: "group_ok req right"
    and sums: "foldR (add_shared_cost (requestCosts req) (groupDependencies larger)) (0, 0, 0) (groupDependencies smaller) = Inr (sc, ac, au)"
    and sides: "(larger = left \<and> smaller = right) \<or> (larger = right \<and> smaller = left)"
    and retained: "(retained = left \<and> removed = right) \<or> (retained = right \<and> removed = left)"
    and union: "unionCost = groupCost larger + ac"
    and inflation: "js_div unionCost (min (groupMinimum left) (groupMinimum right)) \<le> requestInflation req"
    and units: "int (length (groupDependencies larger) + au + length (groupMembers left) + length (groupMembers right)) \<le> requestUnits req"
  shows "group_ok req (retained\<lparr>groupDependencies := foldl js_set_add (groupDependencies retained) (groupDependencies removed),
     groupMembers := groupMembers retained @ groupMembers removed, groupCost := unionCost,
     groupMinimum := min (groupMinimum left) (groupMinimum right)\<rparr>)"
proof -
  let ?deps = "foldl js_set_add (groupDependencies retained) (groupDependencies removed)"
  let ?cost = "\<lambda>m. groupingCost (requestEntries req ! m)"
  have d: "distinct (groupDependencies larger)" "distinct (groupDependencies smaller)" "distinct ?deps"
    using left right sides retained by (auto simp: group_ok_def intro: distinct_foldl_js_set_add)
  have set: "set ?deps = set (groupDependencies larger) \<union> set (groupDependencies smaller)"
    using sides retained by (auto simp: set_foldl_js_set_add)
  note sum = add_shared_costs[OF sums]
  have cost: "unionCost = (\<Sum>mid \<in> set ?deps. cost_of (requestCosts req) mid)"
    using sum_union_costs[OF d(1,2), of "cost_of (requestCosts req)"] sum left right sides by (auto simp: set union group_ok_def)
  have "length ?deps = card (set ?deps)" using d(3) by (rule distinct_card[symmetric])
  then have deps: "length ?deps = length (groupDependencies larger) + au" using sum card_union_length[OF d(1,2)] by (simp add: set)
  have "set ?deps = closure_of (requestEntries req) (groupMembers retained @ groupMembers removed)"
    using left right retained by (auto simp: set_foldl_js_set_add group_ok_def closure_of_def)
  moreover have "min (groupMinimum left) (groupMinimum right) = Min (?cost ` set (groupMembers retained @ groupMembers removed))"
    using left right retained by (auto simp: group_ok_def image_Un Min_Un min.commute)
  moreover have "groupMembers retained @ groupMembers removed \<noteq> []" using left right retained by (auto simp: group_ok_def)
  moreover have "length (groupMembers retained @ groupMembers removed) = length (groupMembers left) + length (groupMembers right)"
    using retained by auto
  ultimately show ?thesis using cost d(3) deps inflation units by (simp add: group_ok_def)
qed

lemma unite_ranked:
  assumes "ranked rank gs" "a < length gs" "b < length gs" "a \<noteq> b" "parent gs a = a" "parent gs b = b" "groupParent x = a" "groupParent y = a"
  shows "\<exists>rank'. ranked rank' (gs[a := x, b := y])"
proof -
  let ?rank = "rank(a := Suc (max (rank a) (rank b)))"
  have "ranked ?rank (gs[a := x, b := y])"
    unfolding ranked_def
  proof (intro allI impI conjI)
    fix i assume i: "i < length (gs[a := x, b := y])"
    have p: "parent (gs[a := x, b := y]) i = (if i = a \<or> i = b then a else parent gs i)"
      using i assms by (auto simp: nth_list_update)
    show "parent (gs[a := x, b := y]) i < length (gs[a := x, b := y])" using p i assms(1,2) by (auto simp: ranked_def)
    assume "parent (gs[a := x, b := y]) i \<noteq> i"
    then show "?rank i < ?rank (parent (gs[a := x, b := y]) i)"
      using p i assms(1,4) by (auto simp: ranked_def less_Suc_eq_le le_max_iff_disj split: if_splits)
  qed
  then show ?thesis by blast
qed

lemma unite_inv:
  assumes inv: "merge_inv req gs" and roots: "l < length gs" "r < length gs" "l \<noteq> r" "parent gs l = l" "parent gs r = r"
    and sums: "foldR (add_shared_cost (requestCosts req) (groupDependencies larger)) (0, 0, 0) (groupDependencies smaller) = Inr (sc, ac, au)"
    and sides: "(larger = gs ! l \<and> smaller = gs ! r) \<or> (larger = gs ! r \<and> smaller = gs ! l)"
    and union: "unionCost = groupCost larger + ac" and minimum: "m = min (groupMinimum (gs ! l)) (groupMinimum (gs ! r))"
    and inflation: "js_div unionCost m \<le> requestInflation req"
    and units: "int (length (groupDependencies larger) + au + length (groupMembers (gs ! l)) + length (groupMembers (gs ! r))) \<le> requestUnits req"
  shows "merge_inv req (unite gs l r unionCost m)"
proof -
  define keep where "keep = (length (groupMembers (gs ! r)) \<le> length (groupMembers (gs ! l)))"
  define a where "a = (if keep then l else r)"
  define b where "b = (if keep then r else l)"
  define x where "x = (gs ! a)\<lparr>groupDependencies := foldl js_set_add (groupDependencies (gs ! a)) (groupDependencies (gs ! b)),
     groupMembers := groupMembers (gs ! a) @ groupMembers (gs ! b), groupCost := unionCost, groupMinimum := m\<rparr>"
  define y where "y = (gs ! b)\<lparr>groupParent := a, groupDependencies := [], groupMembers := []\<rparr>"
  have new: "unite gs l r unionCost m = gs[a := x, b := y]"
    by (simp add: unite_def Let_def keep_def[symmetric] a_def[symmetric] b_def[symmetric] x_def[symmetric] y_def[symmetric])
  have ab: "a < length gs" "b < length gs" "a \<noteq> b" "parent gs a = a" "parent gs b = b" using roots by (auto simp: a_def b_def)
  have ok: "group_ok req (gs ! l)" "group_ok req (gs ! r)" using inv roots by (auto simp: merge_inv_def)
  have "group_ok req x" unfolding x_def minimum
    by (rule united_group_ok[OF ok sums sides _ union inflation[unfolded minimum] units]) (auto simp: a_def b_def)
  moreover have "groupParent x = a" "groupParent y = a" "groupMembers y = []" using ab by (simp_all add: x_def y_def)
  moreover have "mset (concat (map groupMembers (gs[a := x, b := y]))) = mset (concat (map groupMembers gs))"
    using mset_concat_two[OF ab(1,2,3), of groupMembers x y] by (simp add: x_def y_def)
  moreover have "\<exists>rank. ranked rank (gs[a := x, b := y])"
    using inv ab calculation(2,3) unite_ranked unfolding merge_inv_def by blast
  ultimately show ?thesis using inv ab unfolding new merge_inv_def by (auto simp: nth_list_update)
qed

lemma merge_roots_inv:
  assumes "merge_roots (requestCosts req) (requestInflation req) (requestUnits req) st l r = Inr st'" "merge_inv req (mergeGroups st)"
    and roots: "l < length (mergeGroups st)" "r < length (mergeGroups st)" "l \<noteq> r" "parent (mergeGroups st) l = l" "parent (mergeGroups st) r = r"
  shows "merge_inv req (mergeGroups st')"
proof -
  let ?gs = "mergeGroups st"
  define smaller where "smaller = (if length (groupDependencies (?gs ! l)) \<le> length (groupDependencies (?gs ! r)) then ?gs ! l else ?gs ! r)"
  define larger where "larger = (if length (groupDependencies (?gs ! l)) \<le> length (groupDependencies (?gs ! r)) then ?gs ! r else ?gs ! l)"
  obtain sc ac au where sums: "foldR (add_shared_cost (requestCosts req) (groupDependencies larger)) (0, 0, 0) (groupDependencies smaller) = Inr (sc, ac, au)"
    and st': "st' = st \<or> (js_div (groupCost larger + ac) (min (groupMinimum (?gs ! l)) (groupMinimum (?gs ! r))) \<le> requestInflation req
      \<and> int (length (groupDependencies larger) + au + length (groupMembers (?gs ! l)) + length (groupMembers (?gs ! r))) \<le> requestUnits req
      \<and> mergeGroups st' = unite ?gs l r (groupCost larger + ac) (min (groupMinimum (?gs ! l)) (groupMinimum (?gs ! r))))"
    using assms(1) unfolding merge_roots_def Let_def smaller_def[symmetric] larger_def[symmetric]
    by (auto simp: bindR_Inr_iff addCost_Inr not_less split: if_splits)
  show ?thesis
  proof (cases "st' = st")
    case False
    have "(larger = ?gs ! l \<and> smaller = ?gs ! r) \<or> (larger = ?gs ! r \<and> smaller = ?gs ! l)" by (simp add: smaller_def larger_def)
    then show ?thesis using False st' unite_inv[OF assms(2) roots sums _ refl refl] by simp
  qed (use assms(2) in simp)
qed

lemma merge_pair_inv:
  assumes "merge_inv req (mergeGroups st)" "l < length (requestEntries req)" "r < length (requestEntries req)"
  shows "\<exists>result. merge_pair (requestCosts req) (requestInflation req) (requestUnits req) st (l, r) = Some result
    \<and> (\<forall>st'. result = Inr st' \<longrightarrow> merge_inv req (mergeGroups st'))"
proof -
  obtain rank where rank: "ranked rank (mergeGroups st)" and len: "length (mergeGroups st) = length (requestEntries req)"
    using assms(1) by (auto simp: merge_inv_def)
  obtain li g1 where 1: "root (mergeGroups st) l = Some (li, g1)" "li < length (mergeGroups st)" "parent g1 li = li" "ranked rank g1"
    "same_groups (mergeGroups st) g1" using root_total[OF rank, of l] assms(2) len by auto
  have len1: "length g1 = length (requestEntries req)" using 1(5) len by (simp add: same_groups_def)
  obtain ri g2 where 2: "root g1 r = Some (ri, g2)" "ri < length g1" "parent g2 ri = ri" "ranked rank g2" "same_groups g1 g2"
    using root_total[OF 1(4), of r] assms(3) len1 by auto
  have inv: "merge_inv req g2" using same_groups_inv assms(1) 1(4,5) 2(4,5) by blast
  have roots: "li < length g2" "ri < length g2" "parent g2 li = li" "parent g2 ri = ri"
    using 1(2,3) 2(2,3,5) len len1 by (auto simp: same_groups_def)
  show ?thesis
  proof (cases "li = ri")
    case True
    then show ?thesis using 1(1) 2(1) inv by (simp add: merge_pair_def)
  next
    case False
    then show ?thesis using 1(1) 2(1) merge_roots_inv[of req "st\<lparr>mergeGroups := g2, attemptedMerges := Suc (attemptedMerges st)\<rparr>" li ri] inv roots
      by (auto simp: merge_pair_def)
  qed
qed

lemma merge_pairs_inv:
  "merge_inv req (mergeGroups st) \<Longrightarrow> pairs_below (length (requestEntries req)) ps \<Longrightarrow>
    \<exists>result. merge_pairs (requestCosts req) (requestInflation req) (requestUnits req) st ps = Some result
      \<and> (\<forall>st'. result = Inr st' \<longrightarrow> merge_inv req (mergeGroups st'))"
proof (induction ps arbitrary: st)
  case (Cons p ps)
  obtain l r where p: "p = (l, r)" by fastforce
  have lr: "l < length (requestEntries req)" "r < length (requestEntries req)" and ps: "pairs_below (length (requestEntries req)) ps"
    using Cons.prems(2) by (auto simp: p pairs_below_def)
  obtain result where r: "merge_pair (requestCosts req) (requestInflation req) (requestUnits req) st p = Some result"
    "\<And>st'. result = Inr st' \<Longrightarrow> merge_inv req (mergeGroups st')" using merge_pair_inv[OF Cons.prems(1) lr] unfolding p by blast
  show ?case
  proof (cases result)
    case (Inr st')
    then show ?thesis using Cons.IH[OF r(2)[OF Inr] ps] r(1) by simp
  qed (use r(1) in simp)
qed simp

end
