(* ===== verification/EntryGroupingPlan.thy ===== *)
theory EntryGroupingPlan
  imports EntryGroupingCorrect
begin

text \<open>
  What the entry grouping planner promises: it returns on every input, its groups partition the entries
  and stay within both bounds, and the order of the input arrays does not matter.
\<close>

section \<open>Totality\<close>

lemma plan_request_total:
  assumes "request_ok req"
  shows "\<exists>result. plan_request sha256 bucket req = Some result"
proof (cases "scored_pairs (requestCosts req) (requestEntries req) (candidate_pairs bucket (requestEntries req))")
  case (Inr scored)
  have "pairs_below (length (requestEntries req)) scored" using scored_pairs_below[OF Inr candidate_pairs_below] .
  then show ?thesis using merge_pairs_inv[of req "\<lparr>mergeGroups = initial_groups (requestEntries req), attemptedMerges = 0, acceptedMerges = 0\<rparr>" scored]
      initial_groups_inv[OF assms] Inr by (auto simp: plan_request_def Let_def)
qed (simp add: plan_request_def Let_def)

text \<open>C17: The planner returns a plan or throws on every input: the two loops of the union-find root and the merge
  loop always end.\<close>

theorem planConvexWasmEntryGroups_total: "\<exists>result. planConvexWasmEntryGroups sha256 bucket options = Some result"
proof (cases "read_grouping_request options")
  case (Inr req)
  then show ?thesis using plan_request_total[OF read_grouping_request_ok[OF Inr]] by (simp add: planConvexWasmEntryGroups_def)
qed (simp add: planConvexWasmEntryGroups_def)

section \<open>The groups\<close>

lemma plan_parts:
  assumes "planConvexWasmEntryGroups sha256 bucket options = Some (Inr p)"
  obtains req :: grouping_request and st :: merge_state where "read_grouping_request options = Inr req" "merge_inv req (mergeGroups st)"
    "planGroups p = planned_groups (requestEntries req) (mergeGroups st)" "planEntryGroups p = map plannedEntries (planGroups p)"
    "foldR (\<lambda>sum g. addCost sum (plannedCost g)) 0 (planGroups p) = Inr (modeledInventoryCost p)"
proof -
  obtain req where req: "read_grouping_request options = Inr req" "plan_request sha256 bucket req = Some (Inr p)"
    using assms by (auto simp: planConvexWasmEntryGroups_def split: sum.splits)
  have ok: "request_ok req" using req(1) by (rule read_grouping_request_ok)
  obtain scored where scored: "scored_pairs (requestCosts req) (requestEntries req) (candidate_pairs bucket (requestEntries req)) = Inr scored"
    using req(2) by (auto simp: plan_request_def Let_def split: sum.splits)
  obtain result where result: "merge_pairs (requestCosts req) (requestInflation req) (requestUnits req)
      \<lparr>mergeGroups = initial_groups (requestEntries req), attemptedMerges = 0, acceptedMerges = 0\<rparr> scored = Some result"
    "\<And>st. result = Inr st \<Longrightarrow> merge_inv req (mergeGroups st)"
    using merge_pairs_inv[of req "\<lparr>mergeGroups = initial_groups (requestEntries req), attemptedMerges = 0, acceptedMerges = 0\<rparr>" scored]
      initial_groups_inv[OF ok] scored_pairs_below[OF scored candidate_pairs_below] by auto
  have "bindR result (entry_plan_of sha256 req (candidate_pairs bucket (requestEntries req))) = Inr p"
    using req(2) scored result(1) by (simp add: plan_request_def Let_def)
  then obtain st where st: "result = Inr st" "entry_plan_of sha256 req (candidate_pairs bucket (requestEntries req)) st = Inr p"
    by (auto simp: bindR_Inr_iff)
  have "planGroups p = planned_groups (requestEntries req) (mergeGroups st)" "planEntryGroups p = map plannedEntries (planGroups p)"
    "foldR (\<lambda>sum g. addCost sum (plannedCost g)) 0 (planGroups p) = Inr (modeledInventoryCost p)"
    using st(2) by (auto simp: entry_plan_of_def Let_def bindR_Inr_iff)
  then show thesis using that[OF req(1) result(2)[OF st(1)]] by blast
qed

lemma concat_roots:
  assumes "\<And>i. i < length gs \<Longrightarrow> parent gs i \<noteq> i \<Longrightarrow> f (gs ! i) = []"
  shows "concat (map (\<lambda>i. f (gs ! i)) (filter (\<lambda>i. parent gs i = i) [0..<length gs])) = concat (map f gs)"
proof -
  have keep: "(\<And>x. x \<in> set xs \<Longrightarrow> \<not> P x \<Longrightarrow> g x = []) \<Longrightarrow> concat (map g (filter P xs)) = concat (map g xs)" for g :: "nat \<Rightarrow> 'c list" and P xs
    by (induction xs) auto
  have "concat (map (\<lambda>i. f (gs ! i)) (filter (\<lambda>i. parent gs i = i) [0..<length gs])) = concat (map (\<lambda>i. f (gs ! i)) [0..<length gs])"
    by (rule keep) (use assms in simp)
  also have "map (\<lambda>i. f (gs ! i)) [0..<length gs] = map f gs" by (rule nth_equalityI) auto
  finally show ?thesis .
qed

text \<open>What a planned group is: its entries, and the exact cost of the union of their closures.\<close>

definition describes_group :: "grouping_request \<Rightarrow> planned_group \<Rightarrow> grouping_entry set \<Rightarrow> bool" where
  "describes_group req g members \<longleftrightarrow>
     (let closure = (\<Union>e \<in> members. set (groupingDependencies e)) in
      members \<noteq> {} \<and> members \<subseteq> set (requestEntries req) \<and> set (plannedEntries g) = groupingPath ` members
    \<and> distinct (plannedEntries g) \<and> sorted (plannedEntries g)
    \<and> plannedCost g = (\<Sum>mid \<in> closure. cost_of (requestCosts req) mid)
    \<and> plannedMinimum g = Min (groupingCost ` members)
    \<and> plannedInflation g = js_div (plannedCost g) (plannedMinimum g) \<and> plannedInflation g \<le> requestInflation req
    \<and> plannedDependencyCount g = card closure \<and> int (card closure) + int (card members) \<le> requestUnits req)"

lemma planned_groups_describe:
  assumes ok: "request_ok req" and inv: "merge_inv req gs" and g: "g \<in> set (planned_groups (requestEntries req) gs)"
  shows "\<exists>members. describes_group req g members"
proof -
  obtain i where i: "i < length gs" "parent gs i = i" and g: "g = \<lparr>plannedEntries = sort_strings (map (\<lambda>m. groupingPath (requestEntries req ! m)) (groupMembers (gs ! i))),
           plannedCost = groupCost (gs ! i), plannedMinimum = groupMinimum (gs ! i), plannedInflation = js_div (groupCost (gs ! i)) (groupMinimum (gs ! i)),
           plannedDependencyCount = length (groupDependencies (gs ! i))\<rparr>"
    using g by (auto simp: planned_groups_def Let_def)
  have "group_ok req (gs ! i)" using inv i by (auto simp: merge_inv_def)
  then have group: "groupMembers (gs ! i) \<noteq> []" "distinct (groupDependencies (gs ! i))"
     "set (groupDependencies (gs ! i)) = closure_of (requestEntries req) (groupMembers (gs ! i))"
     "groupCost (gs ! i) = (\<Sum>mid \<in> set (groupDependencies (gs ! i)). cost_of (requestCosts req) mid)"
     "groupMinimum (gs ! i) = Min ((\<lambda>m. groupingCost (requestEntries req ! m)) ` set (groupMembers (gs ! i)))"
     "js_div (groupCost (gs ! i)) (groupMinimum (gs ! i)) \<le> requestInflation req"
     "int (length (groupDependencies (gs ! i))) + int (length (groupMembers (gs ! i))) \<le> requestUnits req"
    unfolding group_ok_def by blast+
  have all: "mset (concat (map groupMembers gs)) = mset [0..<length gs]" and len: "length gs = length (requestEntries req)"
    using inv by (simp_all add: merge_inv_def)
  then have "distinct (concat (map groupMembers gs))" by (metis distinct_upt mset_eq_imp_distinct_iff)
  then have dm: "distinct (groupMembers (gs ! i))" using i(1) by (simp add: distinct_concat_iff)
  have "set (groupMembers (gs ! i)) \<subseteq> set (concat (map groupMembers gs))" using nth_mem[OF i(1)] by auto
  also have "\<dots> = {..<length (requestEntries req)}" using mset_eq_setD[OF all] len by auto
  finally have below: "set (groupMembers (gs ! i)) \<subseteq> {..<length (requestEntries req)}" .
  let ?members = "(!) (requestEntries req) ` set (groupMembers (gs ! i))"
  have paths: "distinct (map groupingPath (requestEntries req))" using ok by (simp add: request_ok_def)
  have inj: "inj_on (\<lambda>m. groupingPath (requestEntries req ! m)) (set (groupMembers (gs ! i)))"
    using paths below by (auto simp: inj_on_def distinct_conv_nth)
  then have "inj_on ((!) (requestEntries req)) (set (groupMembers (gs ! i)))" by (auto simp: inj_on_def)
  then have card: "card ?members = length (groupMembers (gs ! i))" using dm by (simp add: card_image distinct_card)
  have closure: "(\<Union>e \<in> ?members. set (groupingDependencies e)) = set (groupDependencies (gs ! i))"
    using group(3) by (simp add: closure_of_def)
  have "describes_group req g ?members"
    unfolding describes_group_def Let_def closure
    using group(1,4,5,6,7) below card inj dm distinct_card[OF group(2)]
    by (auto simp: g image_image distinct_map sorted_sort_strings)
  then show ?thesis by blast
qed

lemma mset_concat_cong:
  assumes "mset xss = mset yss"
  shows "mset (concat xss) = mset (concat yss)"
proof -
  have "mset (concat zss) = sum_mset (image_mset mset (mset zss))" for zss :: "'a list list"
    by (simp add: mset_concat flip: mset_map sum_mset_sum_list)
  then show ?thesis using assms by simp
qed

lemma map_concat_sort: "mset (concat (map sort_strings xss)) = mset (concat xss)"
  by (induction xss) auto

text \<open>C15: A plan partitions the entries: every entry path is in exactly one group, each group is sorted and the
  groups are sorted by their first entry. The cost of a group is the exact cost of the union of its
  entries' closures, its rounded ratio to the cheapest closure stays within the inflation bound, and its
  modules and entries together stay within the logical-unit limit; the inventory cost is the sum.\<close>

theorem entry_groups_correct:
  assumes "planConvexWasmEntryGroups sha256 bucket options = Some (Inr p)"
  shows "\<exists>req. read_grouping_request options = Inr req
    \<and> mset (concat (planEntryGroups p)) = mset (map groupingPath (requestEntries req))
    \<and> planEntryGroups p = map plannedEntries (planGroups p) \<and> sorted (map hd (planEntryGroups p))
    \<and> (\<forall>g \<in> set (planGroups p). \<exists>members. describes_group req g members)
    \<and> modeledInventoryCost p = sum_list (map plannedCost (planGroups p))"
proof -
  obtain req :: grouping_request and st :: merge_state where p: "read_grouping_request options = Inr req" "merge_inv req (mergeGroups st)"
    "planGroups p = planned_groups (requestEntries req) (mergeGroups st)" "planEntryGroups p = map plannedEntries (planGroups p)"
    "foldR (\<lambda>sum g. addCost sum (plannedCost g)) 0 (planGroups p) = Inr (modeledInventoryCost p)"
    using assms by (rule plan_parts)
  let ?gs = "mergeGroups st"
  have ok: "request_ok req" using p(1) by (rule read_grouping_request_ok)
  have inv: "length ?gs = length (requestEntries req)" "mset (concat (map groupMembers ?gs)) = mset [0..<length ?gs]"
    "\<And>i. i < length ?gs \<Longrightarrow> parent ?gs i \<noteq> i \<Longrightarrow> groupMembers (?gs ! i) = []" using p(2) by (auto simp: merge_inv_def)
  let ?roots = "filter (\<lambda>i. parent ?gs i = i) [0..<length ?gs]"
  have "mset (concat (planEntryGroups p)) = mset (concat (map (\<lambda>i. sort_strings (map (\<lambda>m. groupingPath (requestEntries req ! m)) (groupMembers (?gs ! i)))) ?roots))"
  proof -
    have "mset (planEntryGroups p) = mset (map (\<lambda>i. sort_strings (map (\<lambda>m. groupingPath (requestEntries req ! m)) (groupMembers (?gs ! i)))) ?roots)"
      by (simp add: p(3,4) planned_groups_def Let_def image_mset.compositionality o_def)
    then show ?thesis by (rule mset_concat_cong)
  qed
  also have "\<dots> = mset (concat (map (\<lambda>i. map (\<lambda>m. groupingPath (requestEntries req ! m)) (groupMembers (?gs ! i))) ?roots))"
    using map_concat_sort[of "map (\<lambda>i. map (\<lambda>m. groupingPath (requestEntries req ! m)) (groupMembers (?gs ! i))) ?roots"] by (simp add: o_def)
  also have "\<dots> = image_mset (\<lambda>m. groupingPath (requestEntries req ! m)) (mset (concat (map (\<lambda>i. groupMembers (?gs ! i)) ?roots)))"
    by (simp add: map_concat o_def flip: mset_map)
  also have "\<dots> = image_mset (\<lambda>m. groupingPath (requestEntries req ! m)) (mset [0..<length (requestEntries req)])"
    using concat_roots[of ?gs groupMembers] inv by simp
  also have "\<dots> = mset (map (\<lambda>m. groupingPath (requestEntries req ! m)) [0..<length (requestEntries req)])" by (simp only: mset_map)
  also have "map (\<lambda>m. groupingPath (requestEntries req ! m)) [0..<length (requestEntries req)] = map groupingPath (requestEntries req)"
    by (rule nth_equalityI) auto
  finally have paths: "mset (concat (planEntryGroups p)) = mset (map groupingPath (requestEntries req))" .
  have "map hd (planEntryGroups p) = map (\<lambda>g. hd (plannedEntries g)) (planGroups p)" by (simp add: p(4))
  then have sorted: "sorted (map hd (planEntryGroups p))" by (simp add: p(3) planned_groups_def js_sort_map sorted_sort_strings)
  have "foldR (\<lambda>sum g. addCost sum (plannedCost g)) c gs = Inr d \<Longrightarrow> d = c + sum_list (map plannedCost gs)" for c d gs
    by (induction gs arbitrary: c) (fastforce simp: bindR_Inr_iff addCost_Inr)+
  then have "modeledInventoryCost p = sum_list (map plannedCost (planGroups p))" using p(5) by fastforce
  then show ?thesis using paths sorted p(1,4) planned_groups_describe[OF ok p(2)] by (auto simp: p(3))
qed

section \<open>Example\<close>

definition grouping_example :: "jsval list \<Rightarrow> jsval list \<Rightarrow> jsval" where
  "grouping_example modules entries = JObj [(''modules'', JArr modules), (''entries'', JArr entries), (''maximumCostInflation'', JNum (NDec ''1.5''))]"

definition example_module :: "string \<Rightarrow> int \<Rightarrow> jsval" where
  "example_module mid c = JObj [(''id'', JStr mid), (''cost'', JNum (NInt c))]"

definition example_entry :: "string \<Rightarrow> string list \<Rightarrow> jsval" where
  "example_entry path ds = JObj [(''entryPath'', JStr path), (''dependencies'', JArr (map JStr ds))]"

definition example_modules :: "jsval list" where
  "example_modules = [example_module ''a'' 8, example_module ''b'' 4, example_module ''c'' 2]"

definition example_entries :: "jsval list" where
  "example_entries = [example_entry ''y'' [''a'', ''b''], example_entry ''x'' [''a'', ''c''], example_entry ''z'' [''c'']]"

definition example_groups :: "entry_plan res option \<Rightarrow> string list list" where
  "example_groups result = (case result of Some (Inr p) \<Rightarrow> planEntryGroups p | _ \<Rightarrow> [])"

lemma example_plan: "example_groups (planConvexWasmEntryGroups id (\<lambda>c. c) (grouping_example example_modules example_entries)) = [[''x'', ''y''], [''z'']]"
  by code_simp

lemma example_groups_plan: "example_groups result = g # gs \<Longrightarrow> \<exists>p. result = Some (Inr p) \<and> planEntryGroups p = g # gs"
  by (auto simp: example_groups_def split: option.splits sum.splits)

theorem entry_groups_correct_witness:
  "\<exists>p req. planConvexWasmEntryGroups id (\<lambda>c. c) (grouping_example example_modules example_entries) = Some (Inr p)
    \<and> planEntryGroups p = [[''x'', ''y''], [''z'']] \<and> (\<forall>g \<in> set (planGroups p). \<exists>members. describes_group req g members)"
proof -
  obtain p where p: "planConvexWasmEntryGroups id (\<lambda>c. c) (grouping_example example_modules example_entries) = Some (Inr p)"
    "planEntryGroups p = [[''x'', ''y''], [''z'']]" using example_groups_plan[OF example_plan] by blast
  then show ?thesis using entry_groups_correct[OF p(1)] by blast
qed

end
