(* ===== verification/EntryGroupingOrder.thy ===== *)
theory EntryGroupingOrder
  imports EntryGroupingPlan
begin

text \<open>
  The plan does not depend on the order in which modules and entries arrive: costs are looked up by
  identity and entries are sorted by their path before anything is numbered.
\<close>

section \<open>Costs matter only as a lookup\<close>

lemma score_pair_costs:
  assumes "cost_of costs = cost_of costs'"
  shows "score_pair costs = score_pair costs'"
  unfolding score_pair_def[abs_def] assms ..

lemma merge_pair_costs:
  assumes "cost_of costs = cost_of costs'"
  shows "merge_pair costs = merge_pair costs'"
proof -
  have shared: "add_shared_cost costs = add_shared_cost costs'" unfolding add_shared_cost_def[abs_def] assms ..
  have roots: "merge_roots costs = merge_roots costs'" unfolding merge_roots_def[abs_def] shared assms ..
  show ?thesis unfolding merge_pair_def[abs_def] roots ..
qed

lemma merge_pairs_costs:
  assumes "cost_of costs = cost_of costs'"
  shows "merge_pairs costs inflation limit st ps = merge_pairs costs' inflation limit st ps"
proof (induction ps arbitrary: st)
  case (Cons pair ps)
  show ?case using Cons.IH by (simp add: merge_pair_costs[OF assms] split: option.split sum.split)
qed simp

lemma plan_request_costs:
  assumes "cost_of costs = cost_of (requestCosts req)"
  shows "plan_request sha256 bucket (req\<lparr>requestCosts := costs\<rparr>) = plan_request sha256 bucket req"
proof -
  have scored: "scored_pairs costs = scored_pairs (requestCosts req)"
    unfolding scored_pairs_def[abs_def] score_pair_costs[OF assms] ..
  have plan: "entry_plan_of sha256 (req\<lparr>requestCosts := costs\<rparr>) = entry_plan_of sha256 req"
    unfolding entry_plan_of_def[abs_def] grouping_policy_def by simp
  have fields: "requestCosts (req\<lparr>requestCosts := costs\<rparr>) = costs" "requestEntries (req\<lparr>requestCosts := costs\<rparr>) = requestEntries req"
    "requestInflation (req\<lparr>requestCosts := costs\<rparr>) = requestInflation req" "requestUnits (req\<lparr>requestCosts := costs\<rparr>) = requestUnits req"
    by simp_all
  show ?thesis unfolding plan_request_def fields scored plan merge_pairs_costs[OF assms] ..
qed

lemma normalize_entry_costs:
  assumes "map_of costs = map_of costs'"
  shows "normalize_grouping_entry costs limit v = normalize_grouping_entry costs' limit v"
proof -
  have same: "cost_of costs = cost_of costs'" using assms by (intro ext) (simp add: cost_of_def)
  have dependency: "add_closure_dependency costs = add_closure_dependency costs'" unfolding add_closure_dependency_def[abs_def] assms same ..
  show ?thesis unfolding normalize_grouping_entry_def dependency ..
qed

section \<open>Reading in another order\<close>

definition module_pair :: "jsval \<Rightarrow> (string \<times> int) option" where
  "module_pair v = (case get_prop ''id'' v of Inr (JStr mid) \<Rightarrow>
     (case get_prop ''cost'' v of Inr c \<Rightarrow> (if mid = [] then None else map_option (Pair mid) (positive_safe c)) | _ \<Rightarrow> None) | _ \<Rightarrow> None)"

lemma add_module_cost_iff:
  "add_module_cost costs v = Inr costs' \<longleftrightarrow> (\<exists>mid c. module_pair v = Some (mid, c) \<and> mid \<notin> set (map fst costs) \<and> costs' = costs @ [(mid, c)])"
proof (cases "get_prop ''id'' v")
  case (Inr idValue)
  then obtain w where "get_prop ''cost'' v = Inr w" by (cases v) auto
  then show ?thesis using Inr
    by (cases "positive_safe w") (auto simp: add_module_cost_def module_pair_def requireName_def bindR_Inr_iff split: jsval.split if_splits)
qed (simp add: add_module_cost_def module_pair_def)

lemma add_module_costs_iff:
  "distinct (map fst costs) \<Longrightarrow> foldR add_module_cost costs vs = Inr costs' \<longleftrightarrow>
    (\<exists>xs. map module_pair vs = map Some xs \<and> costs' = costs @ xs \<and> distinct (map fst (costs @ xs)))"
proof (induction vs arbitrary: costs)
  case (Cons v vs)
  show ?case
  proof (cases "module_pair v")
    case None
    then show ?thesis using add_module_cost_iff[of costs v] by (auto simp: bindR_Inr_iff Cons_eq_map_conv)
  next
    case (Some x)
    obtain mid c where x: "x = (mid, c)" by fastforce
    show ?thesis
    proof (cases "mid \<in> set (map fst costs)")
      case True
      then show ?thesis using Some add_module_cost_iff[of costs v] by (auto simp: x bindR_Inr_iff Cons_eq_map_conv)
    next
      case False
      then have "add_module_cost costs v = Inr (costs @ [(mid, c)])" using Some add_module_cost_iff by (simp add: x)
      then have "foldR add_module_cost costs (v # vs) = Inr costs' \<longleftrightarrow> (\<exists>xs. map module_pair vs = map Some xs
          \<and> costs' = (costs @ [(mid, c)]) @ xs \<and> distinct (map fst ((costs @ [(mid, c)]) @ xs)))"
        using Cons.IH[of "costs @ [(mid, c)]"] Cons.prems False by simp
      also have "\<dots> \<longleftrightarrow> (\<exists>xs. map module_pair (v # vs) = map Some xs \<and> costs' = costs @ xs \<and> distinct (map fst (costs @ xs)))"
        using Some x by (auto simp: Cons_eq_map_conv)
      finally show ?thesis .
    qed
  qed
qed auto

lemma permuted_modules:
  assumes "foldR add_module_cost [] vs = Inr costs" "mset vs = mset vs'"
  shows "\<exists>costs'. foldR add_module_cost [] vs' = Inr costs' \<and> map_of costs' = map_of costs"
proof -
  obtain xs where xs: "map module_pair vs = map Some xs" "costs = xs" "distinct (map fst xs)"
    using assms(1) add_module_costs_iff[of "[]" vs costs] by auto
  then have "mset (map module_pair vs') = image_mset Some (mset xs)" using assms(2) by (metis mset_map)
  then have all: "set (map module_pair vs') = Some ` set xs" by (metis set_image_mset set_mset_mset)
  define xs' where "xs' = map (\<lambda>v. the (module_pair v)) vs'"
  have xs': "map module_pair vs' = map Some xs'" using all by (force simp: xs'_def)
  then have "image_mset Some (mset xs') = image_mset Some (mset xs)" using \<open>mset (map module_pair vs') = _\<close> by (metis mset_map)
  then have perm: "mset xs' = mset xs" by (metis (no_types, lifting) ext image_mset.compositionality image_mset.id[unfolded id_def] option.sel comp_apply)
  then have "distinct (map fst xs')" using xs(3) by (metis mset_eq_imp_distinct_iff mset_map)
  moreover have "map_of xs' = map_of xs" using map_of_eq_dom calculation xs(3) perm
    by (metis map_of_inject_set set_mset_mset)
  ultimately show ?thesis using add_module_costs_iff[of "[]" vs' xs'] xs' xs(2) by auto
qed

lemma permuted_mapR:
  assumes "mapR f vs = Inr ys" "mset vs = mset vs'"
  shows "\<exists>ys'. mapR f vs' = Inr ys' \<and> mset ys' = mset ys"
proof -
  have ok: "list_all2 (\<lambda>x y. f x = Inr y) vs ys" using assms(1) by (simp add: mapR_Inr_iff)
  define g where "g = (\<lambda>v. projr (f v))"
  have "ys = map g vs" using ok by (auto simp: g_def list_all2_conv_all_nth intro!: nth_equalityI)
  moreover have "\<forall>v \<in> set vs. f v = Inr (g v)" using ok by (auto simp: g_def list_all2_conv_all_nth in_set_conv_nth)
  then have "mapR f vs' = Inr (map g vs')" using mset_eq_setD[OF assms(2)] by (intro mapR_all_Inr) auto
  ultimately show ?thesis using assms(2) by (intro exI[of _ "map g vs'"]) simp
qed

lemma sort_by_distinct_key:
  assumes "mset xs = mset ys" "distinct (map k xs)"
  shows "js_sort (compareBy k) xs = js_sort (compareBy k) ys"
proof -
  have perm: "mset (js_sort (compareBy k) xs) = mset (js_sort (compareBy k) ys)" using assms(1) by simp
  have "sort_strings (map k xs) = sort_strings (map k ys)" by (rule strings.sort_cong_mset) (simp add: assms(1))
  then have keys: "map k (js_sort (compareBy k) xs) = map k (js_sort (compareBy k) ys)" by (simp add: js_sort_map)
  have "inj_on k (set (js_sort (compareBy k) xs) \<union> set (js_sort (compareBy k) ys))"
    using assms mset_eq_setD[OF assms(1)] by (simp add: distinct_map)
  then show ?thesis by (rule map_inj_on[OF keys])
qed

section \<open>The theorem\<close>

definition grouping_options :: "jsval list \<Rightarrow> jsval list \<Rightarrow> jsval \<Rightarrow> jsval \<Rightarrow> jsval" where
  "grouping_options modules entries inflation limit = JObj [(''modules'', JArr modules), (''entries'', JArr entries),
     (''maximumCostInflation'', inflation), (''maximumLogicalUnits'', limit)]"

lemma read_grouping_options:
  "read_grouping_request (grouping_options modules entries inflationValue limitValue) =
     bindR (if modules = [] \<or> entries = [] then grouping_fail ''non-empty module and entry arrays are required'' else Inr ()) (\<lambda>_.
     bindR (read_inflation inflationValue) (\<lambda>inflation.
     bindR (read_unit_limit limitValue) (\<lambda>limit.
     bindR (foldR add_module_cost [] modules) (\<lambda>costs.
     bindR (mapR (normalize_grouping_entry costs limit) entries) (\<lambda>mapped.
     let normalized = js_sort (compareBy groupingPath) mapped in
     if length (js_set (map groupingPath normalized)) \<noteq> length normalized
     then grouping_fail ''entry paths must be unique''
     else Inr \<lparr>requestEntries = normalized, requestCosts = costs, requestInflation = inflation, requestUnits = limit,
            requestInflationValue = inflationValue\<rparr>)))))"
  by (simp add: read_grouping_request_def grouping_options_def read_array_def)

lemma read_permuted:
  assumes "read_grouping_request (grouping_options ms es iv lv) = Inr req" "mset ms = mset ms'" "mset es = mset es'"
  shows "\<exists>costs. read_grouping_request (grouping_options ms' es' iv lv) = Inr (req\<lparr>requestCosts := costs\<rparr>)
    \<and> cost_of costs = cost_of (requestCosts req)"
proof -
  have nonempty: "ms \<noteq> []" "es \<noteq> []"
    using assms(1) unfolding read_grouping_options bindR_Inr_iff by (auto split: if_splits)
  obtain inflation limit costs mapped where r: "read_inflation iv = Inr inflation" "read_unit_limit lv = Inr limit"
    "foldR add_module_cost [] ms = Inr costs" "mapR (normalize_grouping_entry costs limit) es = Inr mapped"
    and m: "(if length (js_set (map groupingPath (js_sort (compareBy groupingPath) mapped))) \<noteq> length (js_sort (compareBy groupingPath) mapped)
       then grouping_fail ''entry paths must be unique''
       else Inr \<lparr>requestEntries = js_sort (compareBy groupingPath) mapped, requestCosts = costs, requestInflation = inflation,
         requestUnits = limit, requestInflationValue = iv\<rparr>) = Inr req"
    using assms(1) unfolding read_grouping_options bindR_Inr_iff Let_def by blast
  have distinct: "distinct (map groupingPath (js_sort (compareBy groupingPath) mapped))"
    and req: "req = \<lparr>requestEntries = js_sort (compareBy groupingPath) mapped, requestCosts = costs, requestInflation = inflation,
         requestUnits = limit, requestInflationValue = iv\<rparr>" using m by (auto simp: length_js_set_iff[symmetric] split: if_splits)
  obtain costs' where costs': "foldR add_module_cost [] ms' = Inr costs'" "map_of costs' = map_of costs"
    using permuted_modules[OF r(3) assms(2)] by blast
  obtain mapped' where mapped': "mapR (normalize_grouping_entry costs limit) es' = Inr mapped'" "mset mapped' = mset mapped"
    using permuted_mapR[OF r(4) assms(3)] by blast
  have "mapR (normalize_grouping_entry costs' limit) es' = Inr mapped'"
    using mapped'(1) normalize_entry_costs[OF costs'(2)] by (metis ext)
  moreover have "distinct (map groupingPath mapped')"
    using distinct mapped'(2) by (metis mset_js_sort mset_map mset_eq_imp_distinct_iff)
  then have sort: "js_sort (compareBy groupingPath) mapped' = js_sort (compareBy groupingPath) mapped"
    by (intro sort_by_distinct_key mapped'(2))
  moreover have "length (js_set (map groupingPath (js_sort (compareBy groupingPath) mapped))) = length (js_sort (compareBy groupingPath) mapped)"
    using distinct by (metis length_js_set_iff length_map)
  moreover have "ms' \<noteq> []" "es' \<noteq> []" using nonempty assms(2,3) by auto
  ultimately have "read_grouping_request (grouping_options ms' es' iv lv) = Inr (req\<lparr>requestCosts := costs'\<rparr>)"
    using r(1,2) costs'(1) unfolding read_grouping_options by (simp add: req sort del: length_js_sort)
  moreover have "cost_of costs' = cost_of (requestCosts req)" using costs'(2) by (simp add: cost_of_def fun_eq_iff req)
  ultimately show ?thesis by blast
qed

text \<open>C16: The plan depends on the set of modules and the set of entries only: permuting either array of an
  accepted request gives the same plan, with the same partition fingerprint.\<close>

theorem plan_ignores_order:
  assumes "planConvexWasmEntryGroups sha256 bucket (grouping_options ms es iv lv) = Some (Inr p)"
    and "mset ms = mset ms'" and "mset es = mset es'"
  shows "planConvexWasmEntryGroups sha256 bucket (grouping_options ms' es' iv lv) = Some (Inr p)"
proof -
  obtain req where req: "read_grouping_request (grouping_options ms es iv lv) = Inr req" "plan_request sha256 bucket req = Some (Inr p)"
    using assms(1) by (auto simp: planConvexWasmEntryGroups_def split: sum.splits)
  obtain costs where "read_grouping_request (grouping_options ms' es' iv lv) = Inr (req\<lparr>requestCosts := costs\<rparr>)"
    "cost_of costs = cost_of (requestCosts req)" using read_permuted[OF req(1) assms(2,3)] by blast
  then show ?thesis using req(2) plan_request_costs by (simp add: planConvexWasmEntryGroups_def)
qed

lemma ordered_example: "example_groups (planConvexWasmEntryGroups id (\<lambda>c. c)
    (grouping_options example_modules example_entries (JNum (NInt 7)) JUndefined)) = [[''x'', ''y'', ''z'']]"
  by code_simp

theorem plan_ignores_order_witness:
  "\<exists>p. planConvexWasmEntryGroups id (\<lambda>c. c) (grouping_options (rev example_modules) (rev example_entries) (JNum (NInt 7)) JUndefined) = Some (Inr p)
     \<and> planEntryGroups p = [[''x'', ''y'', ''z'']]"
proof -
  obtain p where "planConvexWasmEntryGroups id (\<lambda>c. c) (grouping_options example_modules example_entries (JNum (NInt 7)) JUndefined) = Some (Inr p)"
    "planEntryGroups p = [[''x'', ''y'', ''z'']]" using example_groups_plan[OF ordered_example] by blast
  then show ?thesis using plan_ignores_order[of id "\<lambda>c. c" example_modules example_entries] by (metis mset_rev)
qed

end
