(* ===== verification/CohortSchedule.thy ===== *)
theory CohortSchedule
  imports JsValue
begin

text \<open>
  The official-output cohort schedule (\<open>scripts/lib/convex-wasm-official-output-cohort-schedule.mjs\<close>):
  the selected entries of a source envelope, their partition into cohorts (runs of eight, or explicit
  groups), the schedule's identity, and the authentication of a serialized schedule.

  The source envelope's own module is a parameter: \<open>validate\<close> is \<open>validateConvexWasmSourceEnvelope\<close>
  (an envelope it returned is accepted again as it is) and \<open>namespaces\<close> is
  \<open>retainedConvexWasmSourceEnvelopeEntryNamespaces\<close>, with a number for the identity of each retained
  object. The memo tables of this module are the state \<open>retained_state\<close>. A schedule object in the
  set of authenticated schedules is \<open>Branded\<close>; any other value is \<open>Raw\<close>. Freezing has no effect here.
\<close>

section \<open>Checks\<close>

definition convexWasmSourceEnvelopeKind :: string where
  "convexWasmSourceEnvelopeKind = ''convex-wasm-source-envelope-v2''"

definition convexWasmOfficialOutputCohortScheduleKind :: string where
  "convexWasmOfficialOutputCohortScheduleKind = ''convex-wasm-official-output-cohort-schedule-v1''"

definition maximumEntries :: nat where
  "maximumEntries = 8"

definition cohortPartitionPolicy :: jsval where
  "cohortPartitionPolicy = JObj [(''kind'', JStr ''convex-wasm-official-output-lexical-entry-partition-v1''),
     (''maximumEntries'', JNum (NInt (int maximumEntries))), (''order'', JStr ''entry-path-utf16-ascending-contiguous'')]"

definition explicitPartitionPolicy :: jsval where
  "explicitPartitionPolicy = JObj [(''kind'', JStr ''convex-wasm-official-output-explicit-entry-partition-v1''),
     (''order'', JStr ''entry-path-utf16-ascending-within-groups-and-by-first-entry'')]"

definition schedule_fail :: "string \<Rightarrow> 'a res" where
  "schedule_fail message = Inl (Error (''Convex Wasm official-output cohort schedule: '' @ message))"

definition schedule_requireObject :: "jsval \<Rightarrow> string \<Rightarrow> (string \<times> jsval) list res" where
  "schedule_requireObject value description =
     (case value of JObj kvs \<Rightarrow> Inr kvs | JInst kvs \<Rightarrow> Inr kvs | _ \<Rightarrow> schedule_fail (description @ '' must be an object''))"

definition schedule_requireString :: "jsval \<Rightarrow> string \<Rightarrow> string res" where
  "schedule_requireString value description =
     (case value of JStr s \<Rightarrow> if s = [] then schedule_fail (description @ '' must be a non-empty string'') else Inr s
      | _ \<Rightarrow> schedule_fail (description @ '' must be a non-empty string''))"

definition schedule_requireSha256 :: "jsval \<Rightarrow> string \<Rightarrow> string res" where
  "schedule_requireSha256 value description =
     (case value of JStr s \<Rightarrow> if SHA256_PATTERN s then Inr s else schedule_fail (description @ '' must be a lowercase SHA-256 digest'')
      | _ \<Rightarrow> schedule_fail (description @ '' must be a lowercase SHA-256 digest''))"

definition schedule_requirePositiveInteger :: "jsval \<Rightarrow> string \<Rightarrow> int res" where
  "schedule_requirePositiveInteger value description =
     (case value of
        JNum n \<Rightarrow> if \<not> isSafeInteger n \<or> num_int n \<le> 0 then schedule_fail (description @ '' must be a positive safe integer'')
                  else Inr (num_int n)
      | _ \<Rightarrow> schedule_fail (description @ '' must be a positive safe integer''))"

definition requireExactKeys :: "jsval \<Rightarrow> string list \<Rightarrow> string \<Rightarrow> (string \<times> jsval) list res" where
  "requireExactKeys value keys description =
     bindR (schedule_requireObject value description) (\<lambda>kvs.
     if sort_strings (map fst kvs) \<noteq> sort_strings keys then schedule_fail (description @ '' has unsupported fields'') else Inr kvs)"

definition schedule_require :: "bool \<Rightarrow> string \<Rightarrow> unit res" where
  "schedule_require ok message = (if ok then Inr () else schedule_fail message)"

text \<open>\<open>Object.hasOwn\<close> and the own property of an options object; \<open>value?.key\<close>.\<close>

definition own_fields :: "jsval \<Rightarrow> (string \<times> jsval) list" where
  "own_fields value = (case value of JObj kvs \<Rightarrow> kvs | JInst kvs \<Rightarrow> kvs | _ \<Rightarrow> [])"

definition optional_prop :: "string \<Rightarrow> jsval \<Rightarrow> jsval" where
  "optional_prop k value = (case get_prop k value of Inr v \<Rightarrow> v | Inl _ \<Rightarrow> JUndefined)"

section \<open>Source envelopes and entries\<close>

record route =
  routeEntryPath :: string
  routeExportName :: string
  routeModulePath :: string
  routeRuntimeModulePath :: string
  routeUdfKind :: string
  routeVisibility :: string
  routeDependencyGraph :: string

record source_envelope =
  envelopeEntryPaths :: "string list"
  envelopeRoutes :: "route list"
  envelopeSelectedRoutes :: "route list"
  envelopeSha256 :: string
  envelopeToolchain :: jsval

record schedule_route =
  scheduleExportName :: string
  scheduleUdfKind :: string
  scheduleVisibility :: string

record namespace =
  nsDependencyGraph :: string
  nsEntryPath :: string
  nsModulePath :: string
  nsRoutes :: "schedule_route list"
  nsRuntimeModulePath :: string

record schedule_entry = namespace +
  scheduleEntryId :: string

type_synonym file_identity = "string \<times> int"

definition routeKey :: "route \<Rightarrow> string" where
  "routeKey r = routeEntryPath r @ [CHR 0x00] @ routeExportName r"

definition normalizeSourceEnvelopeFileIdentity :: "jsval \<Rightarrow> file_identity option res" where
  "normalizeSourceEnvelopeFileIdentity options =
     (let sha = own_prop (own_fields options) ''sourceEnvelopeFileSha256''; n = own_prop (own_fields options) ''sourceEnvelopeFileSize'' in
      bindR (schedule_require ((sha = JUndefined) = (n = JUndefined)) ''source-envelope file SHA-256 and size must be provided together'') (\<lambda>_.
      if sha = JUndefined then Inr None
      else bindR (schedule_requireSha256 sha ''source-envelope file SHA-256'') (\<lambda>s.
           bindR (schedule_requirePositiveInteger n ''source-envelope file size'') (\<lambda>m. Inr (Some (s, m))))))"

definition route_json :: "schedule_route \<Rightarrow> jsval" where
  "route_json r = JObj [(''exportName'', JStr (scheduleExportName r)), (''udfKind'', JStr (scheduleUdfKind r)),
     (''visibility'', JStr (scheduleVisibility r))]"

definition expectedEntryIdentity :: "(string \<Rightarrow> string) \<Rightarrow> 'a namespace_scheme \<Rightarrow> string res" where
  "expectedEntryIdentity sha256 entry = fingerprintJson sha256 (JObj
     [(''dependencyGraphSha256'', JStr (nsDependencyGraph entry)),
      (''domain'', JStr ''convex-wasm-official-output-cohort-entry-v1''),
      (''entryPath'', JStr (nsEntryPath entry)), (''modulePath'', JStr (nsModulePath entry)),
      (''routes'', JArr (map route_json (nsRoutes entry))),
      (''runtimeModulePath'', JStr (nsRuntimeModulePath entry))])"

definition expectedCohortId :: "(string \<Rightarrow> string) \<Rightarrow> schedule_entry list \<Rightarrow> jsval \<Rightarrow> string res" where
  "expectedCohortId sha256 entries partitionPolicy = fingerprintJson sha256 (JObj
     [(''domain'', JStr ''convex-wasm-official-output-cohort-v1''),
      (''entryIds'', JArr (map (\<lambda>e. JStr (scheduleEntryId e)) entries)), (''partitionPolicy'', partitionPolicy)])"

definition compareExportNames :: "schedule_route \<Rightarrow> schedule_route \<Rightarrow> int" where
  "compareExportNames = compareBy scheduleExportName"

definition entry_of_namespace :: "(string \<Rightarrow> string) \<Rightarrow> namespace \<Rightarrow> schedule_entry res" where
  "entry_of_namespace sha256 ns = bindR (expectedEntryIdentity sha256 ns) (\<lambda>entryId. Inr
     \<lparr>nsDependencyGraph = nsDependencyGraph ns, nsEntryPath = nsEntryPath ns, nsModulePath = nsModulePath ns, nsRoutes = nsRoutes ns,
      nsRuntimeModulePath = nsRuntimeModulePath ns, scheduleEntryId = entryId\<rparr>)"

definition routes_of :: "string \<Rightarrow> route list \<Rightarrow> route list" where
  "routes_of entryPath routes = filter (\<lambda>r. routeEntryPath r = entryPath) routes"

definition select_entry :: "source_envelope \<Rightarrow> string \<Rightarrow> namespace res" where
  "select_entry env entryPath =
     (let selectedRoutes = routes_of entryPath (envelopeSelectedRoutes env); allRoutes = routes_of entryPath (envelopeRoutes env) in
      if selectedRoutes = [] \<or> allRoutes = [] then schedule_fail (''source envelope omits selected entry '' @ entryPath)
      else if length (js_set (map routeKey selectedRoutes)) \<noteq> length allRoutes
           \<or> \<not> set (map routeKey allRoutes) \<subseteq> set (map routeKey selectedRoutes)
      then schedule_fail (''selected entry '' @ entryPath @ '' does not retain its complete authenticated query/mutation namespace'')
      else let first = hd selectedRoutes in
        if \<exists>r \<in> set selectedRoutes. routeModulePath r \<noteq> routeModulePath first
             \<or> routeRuntimeModulePath r \<noteq> routeRuntimeModulePath first \<or> routeDependencyGraph r \<noteq> routeDependencyGraph first
        then schedule_fail (''selected entry '' @ entryPath @ '' has inconsistent authenticated route authority'')
        else Inr \<lparr>nsDependencyGraph = routeDependencyGraph first, nsEntryPath = entryPath, nsModulePath = routeModulePath first,
          nsRoutes = js_sort compareExportNames (map (\<lambda>r. \<lparr>scheduleExportName = routeExportName r,
            scheduleUdfKind = routeUdfKind r, scheduleVisibility = routeVisibility r\<rparr>) selectedRoutes),
          nsRuntimeModulePath = routeRuntimeModulePath first\<rparr>)"

definition selectedEntriesFromSourceEnvelope :: "(string \<Rightarrow> string) \<Rightarrow> source_envelope \<Rightarrow> schedule_entry list res" where
  "selectedEntriesFromSourceEnvelope sha256 env =
     mapR (\<lambda>entryPath. bindR (select_entry env entryPath) (entry_of_namespace sha256)) (envelopeEntryPaths env)"

section \<open>Cohorts\<close>

record cohort =
  cohortId :: string
  cohortEntries :: "schedule_entry list"

function chunks :: "nat \<Rightarrow> 'a list \<Rightarrow> 'a list list" where
  "chunks n xs = (if xs = [] \<or> n = 0 then [] else take n xs # chunks n (drop n xs))"
  by pat_completeness auto

termination
  by (relation "measure (\<lambda>(n, xs). length xs)") auto

declare chunks.simps [simp del]

definition cohort_of :: "(string \<Rightarrow> string) \<Rightarrow> jsval \<Rightarrow> schedule_entry list \<Rightarrow> cohort res" where
  "cohort_of sha256 partitionPolicy members =
     bindR (expectedCohortId sha256 members partitionPolicy) (\<lambda>i. Inr \<lparr>cohortId = i, cohortEntries = members\<rparr>)"

definition createCohorts :: "(string \<Rightarrow> string) \<Rightarrow> schedule_entry list \<Rightarrow> cohort list res" where
  "createCohorts sha256 entries = mapR (cohort_of sha256 cohortPartitionPolicy) (chunks maximumEntries entries)"

text \<open>\<open>new Map(entries)\<close>: a later value replaces an earlier one in place.\<close>

definition map_put :: "(string \<times> 'a) list \<Rightarrow> string \<times> 'a \<Rightarrow> (string \<times> 'a) list" where
  "map_put m kv = (if fst kv \<in> set (map fst m) then map (\<lambda>e. if fst e = fst kv then kv else e) m else m @ [kv])"

definition take_entry :: "(string \<times> schedule_entry) list \<times> schedule_entry list \<Rightarrow> jsval \<Rightarrow>
    ((string \<times> schedule_entry) list \<times> schedule_entry list) res" where
  "take_entry = (\<lambda>(remaining, members) path.
     case (case path of JStr p \<Rightarrow> map_of remaining p | _ \<Rightarrow> None) of
       None \<Rightarrow> schedule_fail ''explicit groups repeat or select an unknown entry''
     | Some e \<Rightarrow> Inr (filter (\<lambda>kv. JStr (fst kv) \<noteq> path) remaining, members @ [e]))"

definition explicit_cohort :: "(string \<Rightarrow> string) \<Rightarrow> (string \<times> schedule_entry) list \<times> cohort list \<Rightarrow> jsval \<Rightarrow>
    ((string \<times> schedule_entry) list \<times> cohort list) res" where
  "explicit_cohort sha256 = (\<lambda>(remaining, cohorts) group.
     case group of
       JArr (p # ps) \<Rightarrow>
         bindR (foldR take_entry (remaining, []) (p # ps)) (\<lambda>(remaining', members).
         bindR (cohort_of sha256 explicitPartitionPolicy (js_sort (compareBy nsEntryPath) members)) (\<lambda>c.
         Inr (remaining', cohorts @ [c])))
     | _ \<Rightarrow> schedule_fail ''each explicit entry group must be non-empty'')"

definition first_path :: "cohort \<Rightarrow> string" where
  "first_path c = nsEntryPath (hd (cohortEntries c))"

definition createExplicitCohorts :: "(string \<Rightarrow> string) \<Rightarrow> schedule_entry list \<Rightarrow> jsval \<Rightarrow> cohort list res" where
  "createExplicitCohorts sha256 entries groups =
     (case groups of
        JArr (g # gs) \<Rightarrow>
          bindR (foldR (explicit_cohort sha256) (foldl map_put [] (map (\<lambda>e. (nsEntryPath e, e)) entries), []) (g # gs)) (\<lambda>(remaining, cohorts).
          if remaining \<noteq> [] then schedule_fail ''explicit groups omit selected entries''
          else Inr (js_sort (compareBy first_path) cohorts))
      | _ \<Rightarrow> schedule_fail ''explicit entry groups must be a non-empty array'')"

section \<open>Retained cohorts\<close>

text \<open>The three memo tables: the entry made for a namespace object, the last cohort made for a first
  entry, and the cohorts made here (the identity test on the last is not modelled). An entry is known by
  the number of its namespace.\<close>

record retained_state =
  retainedScheduleEntries :: "nat \<Rightarrow> schedule_entry option"
  retainedCohortsByFirstEntry :: "nat \<Rightarrow> (nat list \<times> cohort) option"
  retainedCohortRecords :: "cohort list"

definition empty_retained :: retained_state where
  "empty_retained = \<lparr>retainedScheduleEntries = (\<lambda>_. None), retainedCohortsByFirstEntry = (\<lambda>_. None), retainedCohortRecords = []\<rparr>"

definition retain_entry :: "(string \<Rightarrow> string) \<Rightarrow> retained_state \<Rightarrow> nat \<times> namespace \<Rightarrow> (schedule_entry \<times> retained_state) res" where
  "retain_entry sha256 st = (\<lambda>(i, ns).
     case retainedScheduleEntries st i of
       Some e \<Rightarrow> Inr (e, st)
     | None \<Rightarrow> bindR (entry_of_namespace sha256 ns) (\<lambda>e.
         Inr (e, st\<lparr>retainedScheduleEntries := (retainedScheduleEntries st)(i \<mapsto> e)\<rparr>)))"

fun retain_entries :: "(string \<Rightarrow> string) \<Rightarrow> retained_state \<Rightarrow> (nat \<times> namespace) list \<Rightarrow> ((nat \<times> schedule_entry) list \<times> retained_state) res" where
  "retain_entries sha256 st [] = Inr ([], st)"
| "retain_entries sha256 st (ns # nss) =
     bindR (retain_entry sha256 st ns) (\<lambda>(e, st1).
     bindR (retain_entries sha256 st1 nss) (\<lambda>(es, st2). Inr ((fst ns, e) # es, st2)))"

definition retain_cohort :: "(string \<Rightarrow> string) \<Rightarrow> retained_state \<Rightarrow> (nat \<times> schedule_entry) list \<Rightarrow> (cohort \<times> retained_state) res" where
  "retain_cohort sha256 st members =
     (let first = fst (hd members); ids = map fst members in
      case retainedCohortsByFirstEntry st first of
        Some (ids', c) \<Rightarrow>
          if ids' = ids then Inr (c, st)
          else bindR (cohort_of sha256 cohortPartitionPolicy (map snd members)) (\<lambda>c'.
            Inr (c', st\<lparr>retainedCohortsByFirstEntry := (retainedCohortsByFirstEntry st)(first \<mapsto> (ids, c')),
                        retainedCohortRecords := retainedCohortRecords st @ [c']\<rparr>))
      | None \<Rightarrow> bindR (cohort_of sha256 cohortPartitionPolicy (map snd members)) (\<lambda>c'.
            Inr (c', st\<lparr>retainedCohortsByFirstEntry := (retainedCohortsByFirstEntry st)(first \<mapsto> (ids, c')),
                        retainedCohortRecords := retainedCohortRecords st @ [c']\<rparr>)))"

fun retain_cohorts :: "(string \<Rightarrow> string) \<Rightarrow> retained_state \<Rightarrow> (nat \<times> schedule_entry) list list \<Rightarrow> (cohort list \<times> retained_state) res" where
  "retain_cohorts sha256 st [] = Inr ([], st)"
| "retain_cohorts sha256 st (members # rest) =
     bindR (retain_cohort sha256 st members) (\<lambda>(c, st1).
     bindR (retain_cohorts sha256 st1 rest) (\<lambda>(cs, st2). Inr (c # cs, st2)))"

definition retainedCohorts :: "(string \<Rightarrow> string) \<Rightarrow> retained_state \<Rightarrow> (nat \<times> namespace) list \<Rightarrow> (cohort list \<times> retained_state) res" where
  "retainedCohorts sha256 st namespaces =
     bindR (retain_entries sha256 st namespaces) (\<lambda>(entries, st1). retain_cohorts sha256 st1 (chunks maximumEntries entries))"

section \<open>Schedules\<close>

record provenance =
  provenanceFile :: "file_identity option"
  provenanceSha256 :: string
  provenanceToolchain :: jsval

record cohort_schedule =
  scheduleCohorts :: "cohort list"
  schedulePolicy :: jsval
  scheduleProvenance :: provenance
  scheduleSha256 :: string

definition entry_json :: "schedule_entry \<Rightarrow> jsval" where
  "entry_json e = JObj
     [(''dependencyGraphSha256'', JStr (nsDependencyGraph e)), (''entryPath'', JStr (nsEntryPath e)),
      (''modulePath'', JStr (nsModulePath e)), (''routes'', JArr (map route_json (nsRoutes e))),
      (''runtimeModulePath'', JStr (nsRuntimeModulePath e)), (''entryId'', JStr (scheduleEntryId e))]"

definition cohort_json :: "cohort \<Rightarrow> jsval" where
  "cohort_json c = JObj [(''cohortId'', JStr (cohortId c)), (''entries'', JArr (map entry_json (cohortEntries c))),
     (''entryCount'', JNum (NInt (int (length (cohortEntries c)))))]"

definition file_json :: "file_identity \<Rightarrow> jsval" where
  "file_json f = JObj [(''sha256'', JStr (fst f)), (''size'', JNum (NInt (snd f)))]"

definition sourceEnvelopeProvenance :: "source_envelope \<Rightarrow> file_identity option \<Rightarrow> provenance" where
  "sourceEnvelopeProvenance env file =
     \<lparr>provenanceFile = file, provenanceSha256 = envelopeSha256 env, provenanceToolchain = envelopeToolchain env\<rparr>"

definition provenance_json :: "provenance \<Rightarrow> jsval" where
  "provenance_json p = JObj
     [(''sourceEnvelope'', JObj ((case provenanceFile p of None \<Rightarrow> [] | Some f \<Rightarrow> [(''file'', file_json f)])
        @ [(''kind'', JStr convexWasmSourceEnvelopeKind), (''sha256'', JStr (provenanceSha256 p))])),
      (''toolchain'', provenanceToolchain p)]"

definition identity_fields :: "cohort list \<Rightarrow> jsval \<Rightarrow> provenance \<Rightarrow> (string \<times> jsval) list" where
  "identity_fields cohorts partitionPolicy provenance =
     [(''cohorts'', JArr (map cohort_json cohorts)), (''kind'', JStr convexWasmOfficialOutputCohortScheduleKind),
      (''partitionPolicy'', partitionPolicy), (''provenance'', provenance_json provenance)]"

definition schedule_json :: "cohort_schedule \<Rightarrow> jsval" where
  "schedule_json s = JObj
     [(''cohorts'', JArr (map cohort_json (scheduleCohorts s))),
      (''identity'', JObj (identity_fields (scheduleCohorts s) (schedulePolicy s) (scheduleProvenance s) @ [(''sha256'', JStr (scheduleSha256 s))])),
      (''kind'', JStr convexWasmOfficialOutputCohortScheduleKind)]"

text \<open>The digest over the separately encoded cohorts; \<open>update\<close> concatenates.\<close>

definition retainedScheduleIdentitySha256 :: "(string \<Rightarrow> string) \<Rightarrow> cohort list \<Rightarrow> jsval \<Rightarrow> provenance \<Rightarrow> string res" where
  "retainedScheduleIdentitySha256 sha256 cohorts partitionPolicy provenance =
     bindR (mapR (\<lambda>c. canonicalJson (cohort_json c)) cohorts) (\<lambda>texts.
     bindR (canonicalJson (JStr convexWasmOfficialOutputCohortScheduleKind)) (\<lambda>kind.
     bindR (canonicalJson partitionPolicy) (\<lambda>policy.
     bindR (canonicalJson (provenance_json provenance)) (\<lambda>source.
     Inr (sha256 (''{'' @ quote_string ''cohorts'' @ '':['' @ join_strings '','' texts @ ''],'' @ quote_string ''kind'' @ '':'' @ kind
       @ '','' @ quote_string ''partitionPolicy'' @ '':'' @ policy @ '','' @ quote_string ''provenance'' @ '':'' @ source @ ''}''))))))"

text \<open>The part of the creation after the options were read.\<close>

definition schedule_cohorts :: "(string \<Rightarrow> string) \<Rightarrow> (source_envelope \<Rightarrow> (nat \<times> namespace) list option) \<Rightarrow> retained_state \<Rightarrow>
    source_envelope \<Rightarrow> jsval option \<Rightarrow> (cohort list \<times> retained_state) res" where
  "schedule_cohorts sha256 namespaces st env entryGroups =
     (case entryGroups of
         Some groups \<Rightarrow> bindR (selectedEntriesFromSourceEnvelope sha256 env) (\<lambda>entries.
           bindR (createExplicitCohorts sha256 entries groups) (\<lambda>cs. Inr (cs, st)))
       | None \<Rightarrow> (case namespaces env of
           None \<Rightarrow> bindR (selectedEntriesFromSourceEnvelope sha256 env) (\<lambda>entries.
             bindR (createCohorts sha256 entries) (\<lambda>cs. Inr (cs, st)))
         | Some nss \<Rightarrow> retainedCohorts sha256 st nss))"

definition create_schedule :: "(string \<Rightarrow> string) \<Rightarrow> (source_envelope \<Rightarrow> (nat \<times> namespace) list option) \<Rightarrow> retained_state \<Rightarrow>
    source_envelope \<Rightarrow> file_identity option \<Rightarrow> jsval option \<Rightarrow> (bool \<times> cohort_schedule \<times> retained_state) res" where
  "create_schedule sha256 namespaces st env file entryGroups =
     bindR (schedule_cohorts sha256 namespaces st env entryGroups) (\<lambda>(cohorts, st').
     bindR (schedule_require (cohorts \<noteq> []) ''source envelope selects no complete entry namespaces'') (\<lambda>_.
     let policy = (if entryGroups = None then cohortPartitionPolicy else explicitPartitionPolicy);
         provenance = sourceEnvelopeProvenance env file
     in bindR (if namespaces env = None then fingerprintJson sha256 (JObj (identity_fields cohorts policy provenance))
               else retainedScheduleIdentitySha256 sha256 cohorts policy provenance) (\<lambda>identitySha256.
        Inr (namespaces env \<noteq> None,
          \<lparr>scheduleCohorts = cohorts, schedulePolicy = policy, scheduleProvenance = provenance, scheduleSha256 = identitySha256\<rparr>, st'))))"

definition createConvexWasmOfficialOutputCohortSchedule :: "(string \<Rightarrow> string) \<Rightarrow> (jsval \<Rightarrow> source_envelope res) \<Rightarrow>
    (source_envelope \<Rightarrow> (nat \<times> namespace) list option) \<Rightarrow> retained_state \<Rightarrow> jsval \<Rightarrow> (bool \<times> cohort_schedule \<times> retained_state) res" where
  "createConvexWasmOfficialOutputCohortSchedule sha256 validate namespaces st options =
     bindR (get_prop ''sourceEnvelope'' options) (\<lambda>rawSourceEnvelope.
     bindR (validate rawSourceEnvelope) (\<lambda>env.
     bindR (normalizeSourceEnvelopeFileIdentity options) (\<lambda>file.
     create_schedule sha256 namespaces st env file
       (if ''entryGroups'' \<in> set (map fst (own_fields options)) then Some (own_prop (own_fields options) ''entryGroups'') else None))))"

section \<open>Authentication\<close>

definition validateAuthenticatedScheduleSourceAuthority :: "cohort_schedule \<Rightarrow> source_envelope \<Rightarrow> file_identity option \<Rightarrow> unit res" where
  "validateAuthenticatedScheduleSourceAuthority schedule env file =
     (let p = scheduleProvenance schedule in
      bindR (schedule_require (provenanceSha256 p = envelopeSha256 env)
        ''source envelope SHA-256 does not match the authenticated schedule provenance'') (\<lambda>_.
      bindR (schedule_require (provenanceFile p = file)
        ''source-envelope file identity does not match the authenticated schedule provenance'') (\<lambda>_.
      bindR (canonicalJson (provenanceToolchain p)) (\<lambda>a. bindR (canonicalJson (envelopeToolchain env)) (\<lambda>b.
      schedule_require (a = b) ''source-envelope toolchain does not match the authenticated schedule provenance'')))))"

definition validateProvenance :: "jsval \<Rightarrow> unit res" where
  "validateProvenance value =
     bindR (requireExactKeys value [''sourceEnvelope'', ''toolchain''] ''schedule provenance'') (\<lambda>kvs.
     bindR (schedule_requireObject (own_prop kvs ''sourceEnvelope'') ''schedule provenance source envelope'') (\<lambda>env.
     let hasFile = (''file'' \<in> set (map fst env)) in
     bindR (schedule_require (sort_strings (map fst env) = (if hasFile then [''file'', ''kind'', ''sha256''] else [''kind'', ''sha256'']))
       ''schedule provenance source envelope has unsupported fields'') (\<lambda>_.
     bindR (schedule_require (own_prop env ''kind'' = JStr convexWasmSourceEnvelopeKind)
       ''schedule provenance source envelope kind is invalid'') (\<lambda>_.
     bindR (schedule_requireSha256 (own_prop env ''sha256'') ''schedule provenance source envelope SHA-256'') (\<lambda>_.
     bindR (if hasFile
            then bindR (requireExactKeys (own_prop env ''file'') [''sha256'', ''size''] ''schedule provenance source-envelope file'') (\<lambda>file.
                 bindR (schedule_requireSha256 (own_prop file ''sha256'') ''schedule provenance source-envelope file SHA-256'') (\<lambda>_.
                 bindR (schedule_requirePositiveInteger (own_prop file ''size'') ''schedule provenance source-envelope file size'') (\<lambda>_. Inr ())))
            else Inr ()) (\<lambda>_.
     bindR (schedule_requireObject (own_prop kvs ''toolchain'') ''schedule provenance toolchain'') (\<lambda>_. Inr ())))))))"

definition validate_route :: "string \<Rightarrow> jsval list \<Rightarrow> nat \<Rightarrow> jsval \<Rightarrow> schedule_route res" where
  "validate_route description routes routeIndex route =
     (let routeDescription = description @ '' route '' @ show_nat routeIndex in
      bindR (requireExactKeys route [''exportName'', ''udfKind'', ''visibility''] routeDescription) (\<lambda>kvs.
      bindR (schedule_requireString (own_prop kvs ''exportName'') (routeDescription @ '' export name'')) (\<lambda>exportName.
      case (own_prop kvs ''udfKind'', own_prop kvs ''visibility'') of
        (JStr udfKind, JStr visibility) \<Rightarrow>
          if udfKind \<notin> {''query'', ''mutation''} \<or> visibility \<notin> {''internal'', ''public''}
          then schedule_fail (routeDescription @ '' has unsupported route authority'')
          else if 0 < routeIndex \<and> (case optional_prop ''exportName'' (routes ! (routeIndex - 1)) of JStr p \<Rightarrow> exportName \<le> p | _ \<Rightarrow> False)
          then schedule_fail (description @ '' routes are not sorted and unique'')
          else Inr \<lparr>scheduleExportName = exportName, scheduleUdfKind = udfKind, scheduleVisibility = visibility\<rparr>
      | _ \<Rightarrow> schedule_fail (routeDescription @ '' has unsupported route authority''))))"

definition entry_description :: "nat \<Rightarrow> nat \<Rightarrow> string" where
  "entry_description cohortIndex entryIndex = ''cohort '' @ show_nat cohortIndex @ '' entry '' @ show_nat entryIndex"

definition validateEntry :: "(string \<Rightarrow> string) \<Rightarrow> nat \<Rightarrow> nat \<Rightarrow> jsval \<Rightarrow> schedule_entry res" where
  "validateEntry sha256 cohortIndex entryIndex entry =
     (let description = entry_description cohortIndex entryIndex in
      bindR (requireExactKeys entry [''dependencyGraphSha256'', ''entryId'', ''entryPath'', ''modulePath'', ''routes'', ''runtimeModulePath'']
        description) (\<lambda>kvs.
      bindR (schedule_requireSha256 (own_prop kvs ''dependencyGraphSha256'') (description @ '' dependency graph SHA-256'')) (\<lambda>dependencyGraph.
      bindR (schedule_requireString (own_prop kvs ''entryPath'') (description @ '' entry path'')) (\<lambda>entryPath.
      bindR (schedule_requireString (own_prop kvs ''modulePath'') (description @ '' module path'')) (\<lambda>modulePath.
      bindR (schedule_requireString (own_prop kvs ''runtimeModulePath'') (description @ '' runtime module path'')) (\<lambda>runtimeModulePath.
      bindR (case own_prop kvs ''routes'' of
          JArr (r # rs) \<Rightarrow> mapiR (validate_route description (r # rs)) 0 (r # rs)
        | _ \<Rightarrow> schedule_fail (description @ '' routes must be a non-empty array'')) (\<lambda>routes.
      bindR (entry_of_namespace sha256 \<lparr>nsDependencyGraph = dependencyGraph, nsEntryPath = entryPath, nsModulePath = modulePath,
          nsRoutes = routes, nsRuntimeModulePath = runtimeModulePath\<rparr>) (\<lambda>e.
      if own_prop kvs ''entryId'' \<noteq> JStr (scheduleEntryId e)
      then schedule_fail (description @ '' identity does not match its complete namespace'') else Inr e))))))))"

definition validate_cohort :: "(string \<Rightarrow> string) \<Rightarrow> bool \<Rightarrow> jsval \<Rightarrow> nat \<Rightarrow> jsval \<Rightarrow> unit res" where
  "validate_cohort sha256 explicit partitionPolicy cohortIndex cohort =
     (let label = ''cohort '' @ show_nat cohortIndex in
      bindR (requireExactKeys cohort [''cohortId'', ''entries'', ''entryCount''] label) (\<lambda>kvs.
      case own_prop kvs ''entries'' of
        JArr (e # es) \<Rightarrow>
          bindR (schedule_require ((explicit \<or> length (e # es) \<le> maximumEntries)
              \<and> own_prop kvs ''entryCount'' = JNum (NInt (int (length (e # es))))) (label @ '' violates the maximum entry count'')) (\<lambda>_.
          bindR (mapiR (validateEntry sha256 cohortIndex) 0 (e # es)) (\<lambda>entries.
          bindR (expectedCohortId sha256 entries partitionPolicy) (\<lambda>i.
          schedule_require (own_prop kvs ''cohortId'' = JStr i) (label @ '' identity does not match its members''))))
      | _ \<Rightarrow> schedule_fail (label @ '' entries must be a non-empty array'')))"

definition cohort_paths :: "jsval \<Rightarrow> jsval" where
  "cohort_paths cohort = JArr (map (optional_prop ''entryPath'') (case optional_prop ''entries'' cohort of JArr es \<Rightarrow> es | _ \<Rightarrow> []))"

datatype schedule_handle = Branded cohort_schedule | Raw jsval

definition validate_schedule :: "(string \<Rightarrow> string) \<Rightarrow> jsval \<Rightarrow> (bool \<times> jsval list) res" where
  "validate_schedule sha256 raw =
     bindR (requireExactKeys raw [''cohorts'', ''identity'', ''kind''] ''cohort schedule'') (\<lambda>kvs.
     bindR (schedule_require (own_prop kvs ''kind'' = JStr convexWasmOfficialOutputCohortScheduleKind) ''cohort schedule kind is invalid'') (\<lambda>_.
     case own_prop kvs ''cohorts'' of
       JArr (c # cs) \<Rightarrow>
         let identity = own_prop kvs ''identity''; partitionPolicy = optional_prop ''partitionPolicy'' identity in
         bindR (canonicalJson partitionPolicy) (\<lambda>policyText.
         bindR (canonicalJson explicitPartitionPolicy) (\<lambda>explicitText.
         bindR (canonicalJson cohortPartitionPolicy) (\<lambda>lexicalText.
         let explicit = (policyText = explicitText) in
         bindR (schedule_require (explicit \<or> policyText = lexicalText) ''cohort schedule partition policy is invalid'') (\<lambda>_.
         bindR (mapiR (validate_cohort sha256 explicit partitionPolicy) 0 (c # cs)) (\<lambda>_.
         bindR (validateProvenance (optional_prop ''provenance'' identity)) (\<lambda>_.
         bindR (requireExactKeys identity [''cohorts'', ''kind'', ''partitionPolicy'', ''provenance'', ''sha256''] ''cohort schedule identity'') (\<lambda>fields.
         bindR (schedule_require (own_prop fields ''kind'' = JStr convexWasmOfficialOutputCohortScheduleKind) ''cohort schedule identity is invalid'') (\<lambda>_.
         bindR (canonicalJson (own_prop fields ''cohorts'')) (\<lambda>identityCohorts.
         bindR (canonicalJson (JArr (c # cs))) (\<lambda>cohortText.
         bindR (schedule_require (identityCohorts = cohortText) ''cohort schedule identity is invalid'') (\<lambda>_.
         bindR (canonicalJson (own_prop fields ''provenance'')) (\<lambda>_.
         bindR (fingerprintJson sha256 (JObj (filter (\<lambda>kv. fst kv \<noteq> ''sha256'') fields))) (\<lambda>identitySha256.
         bindR (schedule_require (own_prop fields ''sha256'' = JStr identitySha256) ''cohort schedule identity is invalid'') (\<lambda>_.
         Inr (explicit, c # cs)))))))))))))))
     | _ \<Rightarrow> schedule_fail ''cohort schedule must contain at least one cohort''))"

definition authenticateConvexWasmOfficialOutputCohortSchedule :: "(string \<Rightarrow> string) \<Rightarrow> (jsval \<Rightarrow> source_envelope res) \<Rightarrow>
    (source_envelope \<Rightarrow> (nat \<times> namespace) list option) \<Rightarrow> retained_state \<Rightarrow> schedule_handle \<Rightarrow> jsval \<Rightarrow> (cohort_schedule \<times> retained_state) res" where
  "authenticateConvexWasmOfficialOutputCohortSchedule sha256 validate namespaces st handle options =
     (case handle of
        Branded schedule \<Rightarrow>
          bindR (validate (optional_prop ''sourceEnvelope'' options)) (\<lambda>env.
          bindR (normalizeSourceEnvelopeFileIdentity options) (\<lambda>file.
          bindR (validateAuthenticatedScheduleSourceAuthority schedule env file) (\<lambda>_. Inr (schedule, st))))
      | Raw raw \<Rightarrow>
          bindR (validate_schedule sha256 raw) (\<lambda>(explicit, cohorts).
          bindR (validate (optional_prop ''sourceEnvelope'' options)) (\<lambda>env.
          bindR (normalizeSourceEnvelopeFileIdentity options) (\<lambda>file.
          bindR (create_schedule sha256 namespaces st env file (if explicit then Some (JArr (map cohort_paths cohorts)) else None)) (\<lambda>(_, expected, st').
          bindR (canonicalJson raw) (\<lambda>rawText.
          bindR (canonicalJson (schedule_json expected)) (\<lambda>expectedText.
          if rawText \<noteq> expectedText
          then schedule_fail ''cohort schedule does not match the authenticated source envelope and toolchain''
          else Inr (expected, st'))))))))"

end
