(* ===== verification/CohortScheduleCorrect.thy ===== *)
theory CohortScheduleCorrect
  imports CohortSchedule JsonText
begin

text \<open>
  The cohorts partition the selected entries; explicit groups are accepted exactly when they are a
  partition.
\<close>

section \<open>Lexical cohorts\<close>

lemma schedule_fail_Inr_iff [simp]: "schedule_fail m = Inr x \<longleftrightarrow> False"
  by (simp add: schedule_fail_def)

lemma schedule_require_Inr_iff [simp]: "schedule_require b m = Inr u \<longleftrightarrow> b"
  by (simp add: schedule_require_def)

lemma chunks_Nil [simp]: "chunks n [] = []"
  by (simp add: chunks.simps)

lemma concat_chunks: "0 < n \<Longrightarrow> concat (chunks n xs) = xs"
proof (induction n xs rule: chunks.induct)
  case (1 n xs)
  then show ?case by (subst chunks.simps) auto
qed

lemma lengths_Cons:
  "c \<noteq> [] \<Longrightarrow> length c \<le> n \<Longrightarrow> (cs \<noteq> [] \<Longrightarrow> length c = n) \<Longrightarrow> (\<forall>c \<in> set cs. c \<noteq> [] \<and> length c \<le> n) \<Longrightarrow>
    (\<forall>c \<in> set (butlast cs). length c = n) \<Longrightarrow>
    (\<forall>c \<in> set (c # cs). c \<noteq> [] \<and> length c \<le> n) \<and> (\<forall>c \<in> set (butlast (c # cs)). length c = n)"
  by (cases "cs = []") simp_all

lemma chunks_lengths:
  "0 < n \<Longrightarrow> (\<forall>c \<in> set (chunks n xs). c \<noteq> [] \<and> length c \<le> n) \<and> (\<forall>c \<in> set (butlast (chunks n xs)). length c = n)"
proof (induction n xs rule: chunks.induct)
  case (1 n xs)
  show ?case
  proof (cases "xs = []")
    case False
    have c: "chunks n xs = take n xs # chunks n (drop n xs)" using False "1.prems" by (simp add: chunks.simps[of n xs])
    have full: "chunks n (drop n xs) \<noteq> [] \<Longrightarrow> length (take n xs) = n"
      using "1.prems" by (cases "drop n xs = []") (simp_all add: chunks.simps[of n "drop n xs"])
    have rest: "(\<forall>c \<in> set (chunks n (drop n xs)). c \<noteq> [] \<and> length c \<le> n) \<and> (\<forall>c \<in> set (butlast (chunks n (drop n xs))). length c = n)"
      using "1.IH" "1.prems" False by blast
    have first: "take n xs \<noteq> []" "length (take n xs) \<le> n" using False "1.prems" by simp_all
    show ?thesis unfolding c by (rule lengths_Cons[OF first full rest[THEN conjunct1] rest[THEN conjunct2]])
  qed simp
qed

lemma cohort_of_Inr: "cohort_of sha256 p members = Inr c \<longleftrightarrow> (\<exists>i. expectedCohortId sha256 members p = Inr i \<and> c = \<lparr>cohortId = i, cohortEntries = members\<rparr>)"
  by (auto simp: cohort_of_def bindR_Inr_iff)

section \<open>Identities always exist\<close>

lemma canonicalJson_object:
  "(\<And>k v. (k, v) \<in> set kvs \<Longrightarrow> \<exists>w. \<forall>d p. normalizeJsonValue v d p = Inr w) \<Longrightarrow> \<exists>w. \<forall>d p. normalizeJsonValue (JObj kvs) d p = Inr w"
proof -
  assume ok: "\<And>k v. (k, v) \<in> set kvs \<Longrightarrow> \<exists>w. \<forall>d p. normalizeJsonValue v d p = Inr w"
  define g where "g = (\<lambda>v. SOME w. \<forall>d p. normalizeJsonValue v d p = Inr w)"
  have g: "\<forall>d p. normalizeJsonValue v d p = Inr (g v)" if "(k, v) \<in> set kvs" for k v
    unfolding g_def by (rule someI_ex) (rule ok[OF that])
  have "mapR (\<lambda>(key, v). bindR (normalizeJsonValue v d (p @ [PKey key])) (\<lambda>nested. Inr (key, nested))) (sort_entries kvs)
      = Inr (map (\<lambda>(key, v). (key, g v)) (sort_entries kvs))" for d p
    by (rule mapR_all_Inr) (use g in auto)
  then show ?thesis by simp
qed

lemma canonicalJson_array:
  "(\<And>v. v \<in> set vs \<Longrightarrow> \<exists>w. \<forall>d p. normalizeJsonValue v d p = Inr w) \<Longrightarrow> \<exists>w. \<forall>d p. normalizeJsonValue (JArr vs) d p = Inr w"
proof -
  assume ok: "\<And>v. v \<in> set vs \<Longrightarrow> \<exists>w. \<forall>d p. normalizeJsonValue v d p = Inr w"
  define g where "g = (\<lambda>v. SOME w. \<forall>d p. normalizeJsonValue v d p = Inr w)"
  have g: "\<forall>d p. normalizeJsonValue v d p = Inr (g v)" if "v \<in> set vs" for v
    unfolding g_def by (rule someI_ex) (rule ok[OF that])
  have "(\<forall>v \<in> set us. \<forall>d p. normalizeJsonValue v d p = Inr (g v)) \<Longrightarrow>
      mapiR (\<lambda>index v. normalizeJsonValue v d (p @ [PIndex index])) n us = Inr (map g us)" for d p n us
    by (induction us arbitrary: n) auto
  then show ?thesis using g by simp
qed

definition json_ok :: "jsval \<Rightarrow> bool" where
  "json_ok v \<longleftrightarrow> (\<exists>w. \<forall>d p. normalizeJsonValue v d p = Inr w)"

lemma json_ok_simps [simp]: "json_ok JNull" "json_ok (JStr s)" "json_ok (JBool b)" "json_ok (JNum (NInt i))"
  by (simp_all add: json_ok_def)

lemma json_ok_object: "(\<And>k v. (k, v) \<in> set kvs \<Longrightarrow> json_ok v) \<Longrightarrow> json_ok (JObj kvs)"
  unfolding json_ok_def by (rule canonicalJson_object) blast

lemma json_ok_array: "(\<And>v. v \<in> set vs \<Longrightarrow> json_ok v) \<Longrightarrow> json_ok (JArr vs)"
  unfolding json_ok_def by (rule canonicalJson_array) blast

lemma json_ok_canonical: "json_ok v \<Longrightarrow> \<exists>s. canonicalJson v = Inr s"
  by (auto simp: json_ok_def canonicalJson_def normalizeJson_def)

lemma json_ok_fingerprint: "json_ok v \<Longrightarrow> \<exists>s. fingerprintJson sha256 v = Inr s"
  using json_ok_canonical by (fastforce simp: fingerprintJson_def)

lemma json_ok_policies: "json_ok cohortPartitionPolicy" "json_ok explicitPartitionPolicy"
  unfolding cohortPartitionPolicy_def explicitPartitionPolicy_def by (rule json_ok_object; auto)+

lemma json_ok_route: "json_ok (route_json r)"
  unfolding route_json_def by (rule json_ok_object) auto

lemma json_ok_entry: "json_ok (entry_json e)"
  unfolding entry_json_def by (rule json_ok_object) (auto intro!: json_ok_array json_ok_route)

lemma json_ok_cohort: "json_ok (cohort_json c)"
  unfolding cohort_json_def by (rule json_ok_object) (auto intro!: json_ok_array json_ok_entry)

lemma expectedCohortId_total: "json_ok p \<Longrightarrow> \<exists>i. expectedCohortId sha256 members p = Inr i"
  unfolding expectedCohortId_def by (rule json_ok_fingerprint, rule json_ok_object) (auto intro!: json_ok_array)

lemma entry_of_namespace_total:
  "\<exists>e. entry_of_namespace sha256 ns = Inr e"
proof -
  have "\<exists>i. expectedEntryIdentity sha256 ns = Inr i"
    unfolding expectedEntryIdentity_def by (rule json_ok_fingerprint, rule json_ok_object) (auto intro!: json_ok_array json_ok_route)
  then show ?thesis by (auto simp: entry_of_namespace_def)
qed

lemma cohort_of_total: "json_ok p \<Longrightarrow> \<exists>i. cohort_of sha256 p members = Inr \<lparr>cohortId = i, cohortEntries = members\<rparr>"
  using expectedCohortId_total[of p sha256 members] by (auto simp: cohort_of_def)

lemma createCohorts_total: "\<exists>cs. createCohorts sha256 entries = Inr cs"
proof -
  have "cohort_of sha256 cohortPartitionPolicy m = Inr (projr (cohort_of sha256 cohortPartitionPolicy m))" for m
    using cohort_of_total[OF json_ok_policies(1), of sha256 m] by auto
  then have "mapR (cohort_of sha256 cohortPartitionPolicy) (chunks maximumEntries entries)
      = Inr (map (\<lambda>m. projr (cohort_of sha256 cohortPartitionPolicy m)) (chunks maximumEntries entries))"
    by (intro mapR_all_Inr) blast
  then show ?thesis unfolding createCohorts_def by (rule exI)
qed

lemma createCohorts_facts:
  assumes cs: "createCohorts sha256 entries = Inr cs"
  shows "concat (map cohortEntries cs) = entries
    \<and> (\<forall>c \<in> set cs. cohortEntries c \<noteq> [] \<and> length (cohortEntries c) \<le> 8
         \<and> expectedCohortId sha256 (cohortEntries c) cohortPartitionPolicy = Inr (cohortId c))
    \<and> (\<forall>c \<in> set (butlast cs). length (cohortEntries c) = 8)"
proof -
  have all: "list_all2 (\<lambda>m c. cohort_of sha256 cohortPartitionPolicy m = Inr c) (chunks 8 entries) cs"
    using cs by (simp add: createCohorts_def mapR_Inr_iff maximumEntries_def)
  then have members: "map cohortEntries cs = chunks 8 entries"
    by (auto simp: list_all2_conv_all_nth cohort_of_Inr intro!: nth_equalityI)
  have ids: "\<forall>c \<in> set cs. expectedCohortId sha256 (cohortEntries c) cohortPartitionPolicy = Inr (cohortId c)"
  proof
    fix c assume "c \<in> set cs"
    then obtain i where "i < length cs" "c = cs ! i" by (auto simp: in_set_conv_nth)
    then have "cohort_of sha256 cohortPartitionPolicy (chunks 8 entries ! i) = Inr c" using all by (simp add: list_all2_conv_all_nth)
    then show "expectedCohortId sha256 (cohortEntries c) cohortPartitionPolicy = Inr (cohortId c)" by (auto simp: cohort_of_Inr)
  qed
  have "map cohortEntries (butlast cs) = butlast (chunks 8 entries)" using members by (simp add: map_butlast)
  then have butlast: "\<forall>c \<in> set (butlast cs). length (cohortEntries c) = 8"
    using chunks_lengths[of 8 entries] by (metis imageI image_set zero_less_numeral)
  have "\<forall>c \<in> set cs. cohortEntries c \<noteq> [] \<and> length (cohortEntries c) \<le> 8"
    using chunks_lengths[of 8 entries] members by (metis imageI image_set zero_less_numeral)
  moreover have "concat (map cohortEntries cs) = entries" using concat_chunks[of 8 entries] members by simp
  ultimately show ?thesis using ids butlast by blast
qed

text \<open>The lexical partition never fails; it cuts the entries, in their order, into runs of at most eight, all but the last
  of exactly eight and none empty; each cohort is named by the fingerprint of its entry identities.\<close>

lemma createCohorts_partition:
  "\<exists>cs. createCohorts sha256 entries = Inr cs \<and> concat (map cohortEntries cs) = entries
    \<and> list_all (\<lambda>c. cohortEntries c \<noteq> [] \<and> length (cohortEntries c) \<le> 8
         \<and> expectedCohortId sha256 (cohortEntries c) cohortPartitionPolicy = Inr (cohortId c)) cs
    \<and> list_all (\<lambda>c. length (cohortEntries c) = 8) (butlast cs)"
  using createCohorts_total[of sha256 entries] createCohorts_facts[of sha256 entries] unfolding list_all_iff by blast

section \<open>Explicit cohorts\<close>

abbreviation group_value :: "string list \<Rightarrow> jsval" where
  "group_value g \<equiv> JArr (map JStr g)"

definition entry_at :: "schedule_entry list \<Rightarrow> string \<Rightarrow> schedule_entry" where
  "entry_at entries p = the (map_of (map (\<lambda>e. (nsEntryPath e, e)) entries) p)"

lemma entry_at_path:
  assumes "p \<in> nsEntryPath ` set entries"
  shows "entry_at entries p \<in> set entries" and "nsEntryPath (entry_at entries p) = p"
    and "map_of (map (\<lambda>e. (nsEntryPath e, e)) entries) p = Some (entry_at entries p)"
proof -
  obtain e where "map_of (map (\<lambda>e. (nsEntryPath e, e)) entries) p = Some e"
    using assms by (cases "map_of (map (\<lambda>e. (nsEntryPath e, e)) entries) p") (force simp: map_of_eq_None_iff)+
  then show "map_of (map (\<lambda>e. (nsEntryPath e, e)) entries) p = Some (entry_at entries p)" by (simp add: entry_at_def)
  then show "entry_at entries p \<in> set entries" "nsEntryPath (entry_at entries p) = p" by (auto dest!: map_of_SomeD)
qed

lemma map_put_distinct: "distinct (map fst (m @ kvs)) \<Longrightarrow> foldl map_put m kvs = m @ kvs"
proof (induction kvs arbitrary: m)
  case (Cons kv kvs)
  then have "map_put m kv = m @ [kv]" by (auto simp: map_put_def)
  then show ?case using Cons by simp
qed simp

text \<open>What is left of the entries once some paths were taken.\<close>

definition left_over :: "schedule_entry list \<Rightarrow> string set \<Rightarrow> (string \<times> schedule_entry) list" where
  "left_over entries taken = filter (\<lambda>kv. fst kv \<notin> taken) (map (\<lambda>e. (nsEntryPath e, e)) entries)"

lemma map_of_left_over: "map_of (left_over entries taken) p = (if p \<in> taken then None else map_of (map (\<lambda>e. (nsEntryPath e, e)) entries) p)"
  unfolding left_over_def by (induction entries) auto

lemma filter_left_over: "filter (\<lambda>kv. JStr (fst kv) \<noteq> JStr p) (left_over entries taken) = left_over entries (insert p taken)"
  unfolding left_over_def by (simp add: conj_commute)

lemma map_JStr_eq [simp]: "map JStr g = map JStr h \<longleftrightarrow> g = h"
  by (rule inj_map_eq_map) (auto simp: inj_def)

lemma map_group_value_eq [simp]: "map group_value gs = map group_value hs \<longleftrightarrow> gs = hs"
  by (rule inj_map_eq_map) (auto simp: inj_def)

lemma ex_map_Cons: "(\<exists>g. v # vs = map f g \<and> P g) \<longleftrightarrow> (\<exists>x g. v = f x \<and> vs = map f g \<and> P (x # g))"
  by (metis Cons_eq_map_D list.simps(9))

lemma take_entries_iff:
  "foldR take_entry (left_over entries taken, members) vs = Inr (r, members') \<longleftrightarrow>
    (\<exists>g. vs = map JStr g \<and> distinct g \<and> set g \<inter> taken = {} \<and> set g \<subseteq> nsEntryPath ` set entries
       \<and> r = left_over entries (taken \<union> set g) \<and> members' = members @ map (entry_at entries) g)"
proof (induction vs arbitrary: taken members)
  case (Cons v vs)
  show ?case
  proof (cases "\<exists>p. v = JStr p \<and> p \<notin> taken \<and> p \<in> nsEntryPath ` set entries")
    case True
    then obtain p where p: "v = JStr p" "p \<notin> taken" "p \<in> nsEntryPath ` set entries" by blast
    have "take_entry (left_over entries taken, members) v = Inr (left_over entries (insert p taken), members @ [entry_at entries p])"
      using p entry_at_path(3)[OF p(3)] filter_left_over by (simp add: take_entry_def map_of_left_over)
    then have step: "foldR take_entry (left_over entries taken, members) (v # vs) = Inr (r, members') \<longleftrightarrow>
        (\<exists>g. vs = map JStr g \<and> distinct g \<and> set g \<inter> insert p taken = {} \<and> set g \<subseteq> nsEntryPath ` set entries
          \<and> r = left_over entries (insert p taken \<union> set g) \<and> members' = (members @ [entry_at entries p]) @ map (entry_at entries) g)"
      using Cons.IH by simp
    show ?thesis unfolding step unfolding p(1) ex_map_Cons jsval.inject using p(2,3) by auto
  next
    case False
    have none: "map_of (left_over entries taken) p = None" if "v = JStr p" for p
    proof (cases "p \<in> taken")
      case False
      then have "p \<notin> fst ` set (map (\<lambda>e. (nsEntryPath e, e)) entries)"
        using \<open>\<nexists>p. v = JStr p \<and> p \<notin> taken \<and> p \<in> nsEntryPath ` set entries\<close> that by force
      then show ?thesis by (simp add: map_of_left_over map_of_eq_None_iff)
    qed (simp add: map_of_left_over)
    have "\<not> isl (take_entry (left_over entries taken, members) v) \<Longrightarrow> False"
      using none by (cases v) (auto simp: take_entry_def schedule_fail_def)
    then show ?thesis using False
      by (cases "take_entry (left_over entries taken, members) v") (auto simp: Cons_eq_map_conv)
  qed
qed auto

lemma take_entries_ex:
  "(\<exists>members. foldR take_entry (left_over entries taken, []) vs = Inr (r, members) \<and> Q members) \<longleftrightarrow>
    (\<exists>g. vs = map JStr g \<and> distinct g \<and> set g \<inter> taken = {} \<and> set g \<subseteq> nsEntryPath ` set entries
      \<and> r = left_over entries (taken \<union> set g) \<and> Q (map (entry_at entries) g))"
  unfolding take_entries_iff by auto

definition group_cohort :: "(string \<Rightarrow> string) \<Rightarrow> schedule_entry list \<Rightarrow> string list \<Rightarrow> cohort" where
  "group_cohort sha256 entries g = (let members = js_sort (compareBy nsEntryPath) (map (entry_at entries) g) in
     \<lparr>cohortId = projr (expectedCohortId sha256 members explicitPartitionPolicy), cohortEntries = members\<rparr>)"

lemma group_cohort_of:
  "cohort_of sha256 explicitPartitionPolicy (js_sort (compareBy nsEntryPath) (map (entry_at entries) g)) = Inr (group_cohort sha256 entries g)"
  using cohort_of_total[OF json_ok_policies(2), of sha256 "js_sort (compareBy nsEntryPath) (map (entry_at entries) g)"]
  by (auto simp: group_cohort_def Let_def cohort_of_def bindR_Inr_iff)

lemma explicit_cohort_iff:
  "explicit_cohort sha256 (left_over entries taken, cohorts) v = Inr (r, cohorts') \<longleftrightarrow>
    (\<exists>g. v = group_value g \<and> g \<noteq> [] \<and> distinct g \<and> set g \<inter> taken = {} \<and> set g \<subseteq> nsEntryPath ` set entries
       \<and> r = left_over entries (taken \<union> set g) \<and> cohorts' = cohorts @ [group_cohort sha256 entries g])"
proof (cases "\<exists>p ps. v = JArr (p # ps)")
  case True
  then obtain p ps where v: "v = JArr (p # ps)" by blast
  have "explicit_cohort sha256 (left_over entries taken, cohorts) v = Inr (r, cohorts') \<longleftrightarrow>
      (\<exists>members. foldR take_entry (left_over entries taken, []) (p # ps) = Inr (r, members)
        \<and> (\<exists>c. cohort_of sha256 explicitPartitionPolicy (js_sort (compareBy nsEntryPath) members) = Inr c \<and> cohorts' = cohorts @ [c]))"
    by (auto simp: explicit_cohort_def v bindR_Inr_iff simp del: foldR.simps)
  also have "\<dots> \<longleftrightarrow> (\<exists>g. p # ps = map JStr g \<and> distinct g \<and> set g \<inter> taken = {} \<and> set g \<subseteq> nsEntryPath ` set entries
       \<and> r = left_over entries (taken \<union> set g) \<and> cohorts' = cohorts @ [group_cohort sha256 entries g])"
    unfolding take_entries_ex group_cohort_of by simp
  finally have run: "explicit_cohort sha256 (left_over entries taken, cohorts) v = Inr (r, cohorts') \<longleftrightarrow>
      (\<exists>g. p # ps = map JStr g \<and> distinct g \<and> set g \<inter> taken = {} \<and> set g \<subseteq> nsEntryPath ` set entries
       \<and> r = left_over entries (taken \<union> set g) \<and> cohorts' = cohorts @ [group_cohort sha256 entries g])" .
  have nonempty: "p # ps = map JStr g \<and> X \<longleftrightarrow> p # ps = map JStr g \<and> g \<noteq> [] \<and> X" for g X by auto
  show ?thesis unfolding run by (subst nonempty) (simp only: v jsval.inject)
next
  case False
  then have "\<not> (\<exists>r. explicit_cohort sha256 (left_over entries taken, cohorts) v = Inr r)"
    by (auto simp: explicit_cohort_def split: jsval.splits list.splits)
  moreover have "v \<noteq> group_value g" if "g \<noteq> []" for g using False that by (cases g) auto
  ultimately show ?thesis by auto
qed

lemma explicit_cohorts_iff:
  "foldR (explicit_cohort sha256) (left_over entries taken, cohorts) vs = Inr (r, cohorts') \<longleftrightarrow>
    (\<exists>gs. vs = map group_value gs \<and> [] \<notin> set gs \<and> distinct (concat gs) \<and> set (concat gs) \<inter> taken = {}
       \<and> set (concat gs) \<subseteq> nsEntryPath ` set entries
       \<and> r = left_over entries (taken \<union> set (concat gs)) \<and> cohorts' = cohorts @ map (group_cohort sha256 entries) gs)"
proof (induction vs arbitrary: taken cohorts)
  case (Cons v vs)
  have step: "foldR (explicit_cohort sha256) (left_over entries taken, cohorts) (v # vs) = Inr (r, cohorts') \<longleftrightarrow>
      (\<exists>g. v = group_value g \<and> g \<noteq> [] \<and> distinct g \<and> set g \<inter> taken = {} \<and> set g \<subseteq> nsEntryPath ` set entries
        \<and> foldR (explicit_cohort sha256) (left_over entries (taken \<union> set g), cohorts @ [group_cohort sha256 entries g]) vs = Inr (r, cohorts'))"
    by (auto simp: bindR_Inr_iff explicit_cohort_iff)
  have split: "g \<noteq> [] \<and> distinct g \<and> set g \<inter> taken = {} \<and> set g \<subseteq> P
      \<and> [] \<notin> set gs \<and> distinct (concat gs) \<and> set (concat gs) \<inter> (taken \<union> set g) = {} \<and> set (concat gs) \<subseteq> P
      \<and> r = left_over entries (taken \<union> set g \<union> set (concat gs)) \<and> cohorts' = (cohorts @ [group_cohort sha256 entries g]) @ map (group_cohort sha256 entries) gs
    \<longleftrightarrow> [] \<notin> set (g # gs) \<and> distinct (concat (g # gs)) \<and> set (concat (g # gs)) \<inter> taken = {} \<and> set (concat (g # gs)) \<subseteq> P
      \<and> r = left_over entries (taken \<union> set (concat (g # gs))) \<and> cohorts' = cohorts @ map (group_cohort sha256 entries) (g # gs)"
    for g :: "string list" and gs P
    by (simp only: concat.simps distinct_append set_append list.set insert_iff list.map append_assoc append_Cons append_Nil Un_assoc[symmetric]) blast
  show ?case unfolding step Cons.IH ex_map_Cons split[symmetric] by blast
qed auto

lemma explicit_cohorts_ex:
  "(\<exists>cs. foldR (explicit_cohort sha256) (left_over entries {}, []) vs = Inr (r, cs) \<and> Q cs) \<longleftrightarrow>
    (\<exists>gs. vs = map group_value gs \<and> [] \<notin> set gs \<and> distinct (concat gs) \<and> set (concat gs) \<subseteq> nsEntryPath ` set entries
       \<and> r = left_over entries (set (concat gs)) \<and> Q (map (group_cohort sha256 entries) gs))"
  unfolding explicit_cohorts_iff by auto

lemma left_over_empty: "left_over entries taken = [] \<longleftrightarrow> nsEntryPath ` set entries \<subseteq> taken"
  by (auto simp: left_over_def filter_empty_conv)

lemma left_over_all: "left_over entries {} = map (\<lambda>e. (nsEntryPath e, e)) entries"
  by (simp add: left_over_def)

lemma createExplicitCohorts_iff:
  assumes "distinct (map nsEntryPath entries)" "entries \<noteq> []"
  shows "createExplicitCohorts sha256 entries groups = Inr cs \<longleftrightarrow>
    (\<exists>gs. groups = JArr (map group_value gs) \<and> [] \<notin> set gs \<and> distinct (concat gs) \<and> set (concat gs) = nsEntryPath ` set entries
       \<and> cs = js_sort (compareBy first_path) (map (group_cohort sha256 entries) gs))"
proof (cases "\<exists>v vs. groups = JArr (v # vs)")
  case True
  then obtain v vs where groups: "groups = JArr (v # vs)" by blast
  have start: "foldl map_put [] (map (\<lambda>e. (nsEntryPath e, e)) entries) = left_over entries {}"
    using assms(1) map_put_distinct[of "[]" "map (\<lambda>e. (nsEntryPath e, e)) entries"] by (simp add: left_over_all o_def)
  have run: "createExplicitCohorts sha256 entries groups = Inr cs \<longleftrightarrow>
      (\<exists>cohorts. foldR (explicit_cohort sha256) (left_over entries {}, []) (v # vs) = Inr ([], cohorts) \<and> cs = js_sort (compareBy first_path) cohorts)"
    by (auto simp: createExplicitCohorts_def groups start bindR_Inr_iff simp del: foldR.simps split: if_splits)
  have empty: "[] = left_over entries (set (concat gs)) \<longleftrightarrow> nsEntryPath ` set entries \<subseteq> set (concat gs)" for gs
    using left_over_empty[of entries "set (concat gs)"] by auto
  have both: "set (concat gs) \<subseteq> nsEntryPath ` set entries \<and> nsEntryPath ` set entries \<subseteq> set (concat gs)
      \<longleftrightarrow> set (concat gs) = nsEntryPath ` set entries" for gs by blast
  show ?thesis unfolding run explicit_cohorts_ex empty unfolding groups jsval.inject both[symmetric] by (simp only: conj_assoc)
next
  case False
  then have "\<not> (\<exists>cs. createExplicitCohorts sha256 entries groups = Inr cs)"
    by (auto simp: createExplicitCohorts_def split: jsval.splits list.splits)
  moreover have "groups = JArr (map group_value gs) \<and> set (concat gs) = nsEntryPath ` set entries \<longleftrightarrow> False" for gs
    using False assms(2) by (cases gs) auto
  ultimately show ?thesis by blast
qed

lemma concat_entries_at:
  assumes "distinct (map nsEntryPath entries)" "distinct (concat gs)" "set (concat gs) = nsEntryPath ` set entries"
  shows "mset (concat (map (\<lambda>g. cohortEntries (group_cohort sha256 entries g)) gs)) = mset entries"
proof -
  have sort: "mset (concat (map (\<lambda>g. js_sort cmp (h g)) xs)) = mset (concat (map h xs))" for cmp :: "'b \<Rightarrow> 'b \<Rightarrow> int" and h and xs :: "'a list"
    by (induction xs) auto
  have "mset (concat (map (\<lambda>g. cohortEntries (group_cohort sha256 entries g)) gs)) = mset (map (entry_at entries) (concat gs))"
    by (simp add: group_cohort_def Let_def sort map_concat o_def)
  also have "\<dots> = image_mset (entry_at entries) (mset (map nsEntryPath entries))"
  proof -
    have "mset (concat gs) = mset (map nsEntryPath entries)" using assms by (simp only: image_set flip: set_eq_iff_mset_eq_distinct)
    then show ?thesis by (simp only: mset_map)
  qed
  also have "\<dots> = mset (map (\<lambda>e. entry_at entries (nsEntryPath e)) entries)" by (simp add: image_mset.compositionality o_def)
  also have "map (\<lambda>e. entry_at entries (nsEntryPath e)) entries = entries"
  proof (rule map_idI)
    fix e assume e: "e \<in> set entries"
    then show "entry_at entries (nsEntryPath e) = e"
      using entry_at_path[of "nsEntryPath e" entries] assms(1) by (auto simp: distinct_map inj_on_def)
  qed
  finally show ?thesis .
qed

lemma explicit_groups:
  assumes "distinct (map nsEntryPath entries)" and "entries \<noteq> []"
  shows "((\<exists>cs. createExplicitCohorts sha256 entries groups = Inr cs)
      \<longleftrightarrow> (\<exists>gs. groups = JArr (map group_value gs) \<and> [] \<notin> set gs \<and> mset (concat gs) = mset (map nsEntryPath entries)))
    \<and> (\<forall>cs. createExplicitCohorts sha256 entries groups = Inr cs \<longrightarrow>
      mset (concat (map cohortEntries cs)) = mset entries \<and> sorted (map first_path cs)
      \<and> (\<exists>gs. groups = JArr (map group_value gs) \<and> mset (map (\<lambda>c. map nsEntryPath (cohortEntries c)) cs) = mset (map sort_strings gs)))"
proof (intro conjI allI impI)
  have part: "distinct (concat gs) \<and> set (concat gs) = nsEntryPath ` set entries \<longleftrightarrow> mset (concat gs) = mset (map nsEntryPath entries)" for gs
    using assms(1) by (metis image_set mset_eq_imp_distinct_iff mset_eq_setD set_eq_iff_mset_eq_distinct)
  show "(\<exists>cs. createExplicitCohorts sha256 entries groups = Inr cs)
      \<longleftrightarrow> (\<exists>gs. groups = JArr (map group_value gs) \<and> [] \<notin> set gs \<and> mset (concat gs) = mset (map nsEntryPath entries))"
    unfolding createExplicitCohorts_iff[OF assms] part[symmetric] by blast
next
  fix cs assume "createExplicitCohorts sha256 entries groups = Inr cs"
  then obtain gs where gs: "groups = JArr (map group_value gs)" "distinct (concat gs)" "set (concat gs) = nsEntryPath ` set entries"
    and cs: "cs = js_sort (compareBy first_path) (map (group_cohort sha256 entries) gs)"
    unfolding createExplicitCohorts_iff[OF assms] by blast
  have sorted_cohorts: "mset cs = mset (map (group_cohort sha256 entries) gs)" by (simp add: cs)
  have "mset (concat (map cohortEntries cs)) = \<Sum>\<^sub># (image_mset (\<lambda>c. mset (cohortEntries c)) (mset cs))"
    by (induction cs) auto
  also have "\<dots> = mset (concat (map (\<lambda>g. cohortEntries (group_cohort sha256 entries g)) gs))"
    unfolding sorted_cohorts by (induction gs) auto
  finally show "mset (concat (map cohortEntries cs)) = mset entries" using concat_entries_at[OF assms(1) gs(2,3)] by simp
  show "sorted (map first_path cs)" by (simp add: cs js_sort_map sorted_sort_strings)
  have "map nsEntryPath (cohortEntries (group_cohort sha256 entries g)) = sort_strings g" if "g \<in> set gs" for g
  proof -
    have "map nsEntryPath (map (entry_at entries) g) = g"
    proof (simp only: map_map o_def, rule map_idI)
      fix p assume "p \<in> set g"
      then show "nsEntryPath (entry_at entries p) = p" using entry_at_path(2)[of p entries] that gs(3) by auto
    qed
    then show ?thesis by (simp add: group_cohort_def Let_def js_sort_map del: map_map)
  qed
  then have "image_mset (\<lambda>c. map nsEntryPath (cohortEntries c)) (mset cs) = mset (map sort_strings gs)"
    unfolding sorted_cohorts mset_map image_mset.compositionality o_def by (intro image_mset_cong) simp
  then show "\<exists>gs. groups = JArr (map group_value gs) \<and> mset (map (\<lambda>c. map nsEntryPath (cohortEntries c)) cs) = mset (map sort_strings gs)"
    using gs(1) by auto
qed

text \<open>C20: Explicit groups are accepted exactly when they are non-empty lists of paths that together name every
  selected entry once. The cohorts then partition the entries: one per group, its entries sorted by
  path, and the cohorts sorted by their first entry.\<close>

theorem explicit_groups_are_partitions:
  assumes "distinct (map nsEntryPath entries)" and "entries \<noteq> []"
  shows "((\<exists>cs. createExplicitCohorts sha256 entries groups = Inr cs)
      \<longleftrightarrow> (\<exists>gs. groups = JArr (map group_value gs) \<and> [] \<notin> set gs \<and> mset (concat gs) = mset (map nsEntryPath entries)))
    \<and> (\<forall>cs. createExplicitCohorts sha256 entries groups = Inr cs \<longrightarrow>
      mset (concat (map cohortEntries cs)) = mset entries \<and> sorted (map first_path cs)
      \<and> (\<exists>gs. groups = JArr (map group_value gs) \<and> mset (map (\<lambda>c. map nsEntryPath (cohortEntries c)) cs) = mset (map sort_strings gs)))"
  by (rule explicit_groups[OF assms])

definition sample_entry :: "string \<Rightarrow> schedule_entry" where
  "sample_entry p = \<lparr>nsDependencyGraph = ''g'', nsEntryPath = p, nsModulePath = ''m'', nsRoutes = [], nsRuntimeModulePath = ''r'', scheduleEntryId = p\<rparr>"

theorem explicit_groups_are_partitions_witness:
  "\<exists>cs. createExplicitCohorts (\<lambda>_. ''h'') [sample_entry ''a'', sample_entry ''b'', sample_entry ''c'']
      (JArr [JArr [JStr ''c'', JStr ''b''], JArr [JStr ''a'']]) = Inr cs
    \<and> mset (concat (map cohortEntries cs)) = {#sample_entry ''a'', sample_entry ''b'', sample_entry ''c''#} \<and> sorted (map first_path cs)"
proof -
  let ?es = "[sample_entry ''a'', sample_entry ''b'', sample_entry ''c'']"
  have "distinct (map nsEntryPath ?es)" "?es \<noteq> []" by (simp_all add: sample_entry_def)
  note rule = explicit_groups_are_partitions[OF this, of "\<lambda>_. ''h''" "JArr [JArr [JStr ''c'', JStr ''b''], JArr [JStr ''a'']]"]
  have "\<exists>gs. JArr [JArr [JStr ''c'', JStr ''b''], JArr [JStr ''a'']] = JArr (map group_value gs) \<and> [] \<notin> set gs
      \<and> mset (concat gs) = mset (map nsEntryPath ?es)"
    by (rule exI[of _ "[[''c'', ''b''], [''a'']]"]) (simp add: sample_entry_def)
  with rule obtain cs where "createExplicitCohorts (\<lambda>_. ''h'') ?es (JArr [JArr [JStr ''c'', JStr ''b''], JArr [JStr ''a'']]) = Inr cs"
    and "mset (concat (map cohortEntries cs)) = mset ?es" and "sorted (map first_path cs)" by blast
  then show ?thesis by (intro exI[of _ cs]) simp
qed

end
