(* ===== verification/CohortRoundtrip.thy ===== *)
theory CohortRoundtrip
  imports CohortIdentity
begin

text \<open>
  A created schedule, written as JSON and authenticated against the same sources, is accepted and comes
  back as it was; whatever raw value is accepted carries the data of the schedule that is created.
\<close>

section \<open>Checks of what was written\<close>

lemma mapiR_all: "length ys = length xs \<Longrightarrow> (\<And>i. i < length xs \<Longrightarrow> f (n + i) (xs ! i) = Inr (ys ! i)) \<Longrightarrow> mapiR f n xs = Inr ys"
proof (induction xs arbitrary: n ys)
  case (Cons x xs)
  then obtain y ys' where ys: "ys = y # ys'" by (cases ys) auto
  have "f n x = Inr y" using Cons.prems(2)[of 0] by (simp add: ys)
  moreover have "mapiR f (Suc n) xs = Inr ys'" using Cons.prems by (intro Cons.IH) (force simp: ys)+
  ultimately show ?case by (simp add: ys)
qed simp

definition entry_wf :: "schedule_entry \<Rightarrow> bool" where
  "entry_wf e \<longleftrightarrow> SHA256_PATTERN (nsDependencyGraph e) \<and> nsEntryPath e \<noteq> [] \<and> nsModulePath e \<noteq> [] \<and> nsRuntimeModulePath e \<noteq> []
     \<and> nsRoutes e \<noteq> [] \<and> sorted_wrt (<) (map scheduleExportName (nsRoutes e))
     \<and> list_all (\<lambda>r. scheduleExportName r \<noteq> [] \<and> scheduleUdfKind r \<in> {''query'', ''mutation''}
         \<and> scheduleVisibility r \<in> {''internal'', ''public''}) (nsRoutes e)"

lemma requireExactKeys_same: "mset (map fst kvs) = mset ks \<Longrightarrow> requireExactKeys (JObj kvs) ks d = Inr kvs"
  by (simp add: requireExactKeys_def schedule_requireObject_def strings.sort_cong_mset[of "map fst kvs" ks])

lemma validate_route_json:
  assumes "sorted_wrt (<) (map scheduleExportName rs)" and "i < length rs"
    and "scheduleExportName (rs ! i) \<noteq> []" "scheduleUdfKind (rs ! i) \<in> {''query'', ''mutation''}" "scheduleVisibility (rs ! i) \<in> {''internal'', ''public''}"
  shows "validate_route d (map route_json rs) i (route_json (rs ! i)) = Inr (rs ! i)"
proof -
  have "\<not> scheduleExportName (rs ! i) \<le> scheduleExportName (rs ! (i - 1))" if "0 < i"
    using assms(1,2) that sorted_wrt_nth_less[of "(<)" "map scheduleExportName rs" "i - 1" i] by auto
  then show ?thesis using assms(2-5)
    by (auto simp: validate_route_def requireExactKeys_same route_json_def own_prop_def schedule_requireString_def optional_prop_def)
qed

lemma validateEntry_json:
  assumes "entry_wf e" and "expectedEntryIdentity sha256 e = Inr (scheduleEntryId e)"
  shows "validateEntry sha256 i j (entry_json e) = Inr e"
proof -
  have routes: "mapiR (validate_route d (map route_json (nsRoutes e))) 0 (map route_json (nsRoutes e)) = Inr (nsRoutes e)" for d
    using assms(1) by (intro mapiR_all) (auto simp: entry_wf_def list_all_length intro!: validate_route_json)
  obtain r rs where rs: "nsRoutes e = r # rs" using assms(1) by (cases "nsRoutes e") (auto simp: entry_wf_def)
  have "entry_of_namespace sha256 \<lparr>nsDependencyGraph = nsDependencyGraph e, nsEntryPath = nsEntryPath e, nsModulePath = nsModulePath e,
      nsRoutes = nsRoutes e, nsRuntimeModulePath = nsRuntimeModulePath e\<rparr> = Inr e"
    using assms(2) by (simp add: entry_of_namespace_def expectedEntryIdentity_def)
  then show ?thesis using assms(1) routes unfolding rs
    by (simp add: validateEntry_def entry_json_def requireExactKeys_same own_prop_def schedule_requireSha256_def schedule_requireString_def
        entry_wf_def rs del: mapiR.simps)
qed

lemma validate_cohort_json:
  assumes "cohortEntries c \<noteq> []" and "explicit \<or> length (cohortEntries c) \<le> maximumEntries"
    and "\<And>e. e \<in> set (cohortEntries c) \<Longrightarrow> entry_wf e \<and> expectedEntryIdentity sha256 e = Inr (scheduleEntryId e)"
    and "expectedCohortId sha256 (cohortEntries c) policy = Inr (cohortId c)"
  shows "validate_cohort sha256 explicit policy i (cohort_json c) = Inr ()"
proof -
  obtain e es where es: "cohortEntries c = e # es" using assms(1) by (cases "cohortEntries c") auto
  have "mapiR (validateEntry sha256 i) 0 (map entry_json (cohortEntries c)) = Inr (cohortEntries c)"
    using assms(3) by (intro mapiR_all) (auto intro!: validateEntry_json)
  then show ?thesis using assms(2,4) unfolding es
    by (simp add: validate_cohort_def cohort_json_def requireExactKeys_same own_prop_def schedule_require_def es del: mapiR.simps)
qed

definition file_wf :: "file_identity option \<Rightarrow> bool" where
  "file_wf file = (case file of None \<Rightarrow> True | Some (s, n) \<Rightarrow> SHA256_PATTERN s \<and> 0 < n \<and> n \<le> max_safe_integer)"

lemma provenance_keys_sorted:
  "sort_strings [''kind'', ''sha256''] = [''kind'', ''sha256'']" "sort_strings [''file'', ''kind'', ''sha256''] = [''file'', ''kind'', ''sha256'']"
  by (rule sort_strings_sorted, simp)+

lemma validateProvenance_json:
  assumes "file_wf (provenanceFile p)" "SHA256_PATTERN (provenanceSha256 p)" "provenanceToolchain p = JObj tools"
  shows "validateProvenance (provenance_json p) = Inr ()"
  using assms by (cases "provenanceFile p")
    (auto simp: validateProvenance_def provenance_json_def requireExactKeys_same own_prop_def schedule_requireObject_def schedule_require_def
      schedule_requireSha256_def schedule_requirePositiveInteger_def file_json_def file_wf_def max_safe_integer_def provenance_keys_sorted
      split: prod.splits)

section \<open>What the creation guarantees\<close>

lemma wf_policies: "wf_js cohortPartitionPolicy" "wf_js explicitPartitionPolicy"
  by (simp_all add: cohortPartitionPolicy_def explicitPartitionPolicy_def own_order_def maximumEntries_def max_safe_integer_def)

lemma jsonable_policies: "jsonable cohortPartitionPolicy" "jsonable explicitPartitionPolicy"
  by (simp_all add: cohortPartitionPolicy_def explicitPartitionPolicy_def)

lemma policy_text:
  "\<exists>a b. canonicalJson cohortPartitionPolicy = Inr a \<and> canonicalJson explicitPartitionPolicy = Inr b \<and> a \<noteq> b"
proof -
  obtain a b where ab: "canonicalJson cohortPartitionPolicy = Inr a" "canonicalJson explicitPartitionPolicy = Inr b"
    using canonicalJson_closed wf_policies jsonable_policies by blast
  have "js_data cohortPartitionPolicy \<noteq> js_data explicitPartitionPolicy"
  proof
    assume "js_data cohortPartitionPolicy = js_data explicitPartitionPolicy"
    then have "map_of (map (\<lambda>(k, v). (k, js_data v)) [(''kind'', JStr ''convex-wasm-official-output-lexical-entry-partition-v1''),
        (''maximumEntries'', JNum (NInt (int maximumEntries))), (''order'', JStr ''entry-path-utf16-ascending-contiguous'')]) ''maximumEntries''
      = map_of (map (\<lambda>(k, v). (k, js_data v)) [(''kind'', JStr ''convex-wasm-official-output-explicit-entry-partition-v1''),
        (''order'', JStr ''entry-path-utf16-ascending-within-groups-and-by-first-entry'')]) ''maximumEntries''"
      unfolding cohortPartitionPolicy_def explicitPartitionPolicy_def js_data.simps jdata.inject by (rule fun_cong)
    then show False by simp
  qed
  then show ?thesis using canonical_text_decides[OF wf_policies ab] ab by blast
qed

lemma jsonable_cohort: "jsonable (cohort_json c)"
  using json_ok_cohort[of c] by (auto simp: json_ok_def normalize_closed)

definition cohort_ok :: "(string \<Rightarrow> string) \<Rightarrow> jsval \<Rightarrow> cohort \<Rightarrow> bool" where
  "cohort_ok sha256 policy c \<longleftrightarrow> cohortEntries c \<noteq> [] \<and> (policy = explicitPartitionPolicy \<or> length (cohortEntries c) \<le> maximumEntries)
     \<and> (\<forall>e \<in> set (cohortEntries c). entry_wf e \<and> expectedEntryIdentity sha256 e = Inr (scheduleEntryId e))
     \<and> expectedCohortId sha256 (cohortEntries c) policy = Inr (cohortId c)"

lemma validate_cohort_ok: "cohort_ok sha256 policy c \<Longrightarrow> validate_cohort sha256 (policy = explicitPartitionPolicy) policy i (cohort_json c) = Inr ()"
  by (rule validate_cohort_json) (auto simp: cohort_ok_def)

lemma validate_schedule_json:
  assumes "\<And>c. c \<in> set (scheduleCohorts s) \<Longrightarrow> cohort_ok sha256 (schedulePolicy s) c" and "scheduleCohorts s \<noteq> []"
    and "schedulePolicy s = explicitPartitionPolicy \<or> schedulePolicy s = cohortPartitionPolicy"
    and "validateProvenance (provenance_json (scheduleProvenance s)) = Inr ()"
    and "fingerprintJson sha256 (JObj (identity_fields (scheduleCohorts s) (schedulePolicy s) (scheduleProvenance s))) = Inr (scheduleSha256 s)"
    and "wf_js (schedule_json s)"
  shows "validate_schedule sha256 (schedule_json s) = Inr (schedulePolicy s = explicitPartitionPolicy, map cohort_json (scheduleCohorts s))"
proof -
  obtain c cs where cs: "scheduleCohorts s = c # cs" using assms(2) by (cases "scheduleCohorts s") auto
  obtain a b where ab: "canonicalJson cohortPartitionPolicy = Inr a" "canonicalJson explicitPartitionPolicy = Inr b" "a \<noteq> b"
    using policy_text by blast
  define x where "x = (schedulePolicy s = explicitPartitionPolicy)"
  have policy: "canonicalJson (schedulePolicy s) = Inr (if x then b else a)" using assms(3) ab by (auto simp: x_def)
  have cohorts: "mapiR (validate_cohort sha256 x (schedulePolicy s)) 0 (map cohort_json (scheduleCohorts s)) = Inr (map (\<lambda>_. ()) (scheduleCohorts s))"
    using assms(1) by (intro mapiR_all) (simp_all add: x_def validate_cohort_ok)
  have wf: "wf_js (JObj (identity_fields (scheduleCohorts s) (schedulePolicy s) (scheduleProvenance s)))"
    "wf_js (JArr (map cohort_json (scheduleCohorts s)))" "wf_js (provenance_json (scheduleProvenance s))"
    using assms(6) by (simp_all add: schedule_json_def identity_fields_def own_order_def)
  have ok: "jsonable (JObj (identity_fields (scheduleCohorts s) (schedulePolicy s) (scheduleProvenance s)))"
    using assms(5) by (auto simp: fingerprintJson_def bindR_Inr_iff canonicalJson_closed[OF wf(1)])
  have texts: "\<exists>t. canonicalJson (JArr (map cohort_json (scheduleCohorts s))) = Inr t" "\<exists>t. canonicalJson (provenance_json (scheduleProvenance s)) = Inr t"
    using ok unfolding canonicalJson_closed[OF wf(2)] canonicalJson_closed[OF wf(3)] by (simp_all add: identity_fields_def)
  have fields: "filter (\<lambda>kv. fst kv \<noteq> ''sha256'') (identity_fields k p q) = identity_fields k p q" for k p q
    by (simp add: identity_fields_def)
  have keys: "mset (map fst (identity_fields k p q @ [(''sha256'', r)])) = mset [''cohorts'', ''kind'', ''partitionPolicy'', ''provenance'', ''sha256'']"
    for k p q r by (simp add: identity_fields_def)
  have exact: "requireExactKeys (JObj (identity_fields k p q @ [(''sha256'', r)])) [''cohorts'', ''kind'', ''partitionPolicy'', ''provenance'', ''sha256''] d
      = Inr (identity_fields k p q @ [(''sha256'', r)])" for k p q r d by (rule requireExactKeys_same) (rule keys)
  have props: "optional_prop ''partitionPolicy'' (JObj (identity_fields k p q @ [(''sha256'', r)])) = p"
    "optional_prop ''provenance'' (JObj (identity_fields k p q @ [(''sha256'', r)])) = provenance_json q"
    "own_prop (identity_fields k p q @ [(''sha256'', r)]) ''kind'' = JStr convexWasmOfficialOutputCohortScheduleKind"
    "own_prop (identity_fields k p q @ [(''sha256'', r)]) ''cohorts'' = JArr (map cohort_json k)"
    "own_prop (identity_fields k p q @ [(''sha256'', r)]) ''provenance'' = provenance_json q"
    "own_prop (identity_fields k p q @ [(''sha256'', r)]) ''sha256'' = r" for k p q r
    by (simp_all add: identity_fields_def optional_prop_def own_prop_def)
  have own: "own_prop [(''cohorts'', u), (''identity'', v), (''kind'', w)] ''cohorts'' = u"
    "own_prop [(''cohorts'', u), (''identity'', v), (''kind'', w)] ''identity'' = v"
    "own_prop [(''cohorts'', u), (''identity'', v), (''kind'', w)] ''kind'' = w" for u v w
    by (simp_all add: own_prop_def)
  have policies: "(if x then b else a) = b \<longleftrightarrow> x" "x \<or> (if x then b else a) = a" using ab(3) by auto
  from cohorts texts show ?thesis unfolding cs
    by (auto simp: validate_schedule_def schedule_json_def requireExactKeys_same own props exact fields Let_def cs schedule_require_def
        policy ab(1,2) policies x_def[symmetric] assms(4) assms(5)[unfolded cs] simp del: mapiR.simps)
qed

section \<open>Created schedules\<close>

lemma entry_of_namespace_identity: "entry_of_namespace sha256 ns = Inr e \<Longrightarrow> expectedEntryIdentity sha256 e = Inr (scheduleEntryId e)"
  by (auto simp: entry_of_namespace_def bindR_Inr_iff expectedEntryIdentity_def)

lemma select_entry_path: "select_entry env p = Inr ns \<Longrightarrow> nsEntryPath ns = p"
  unfolding select_entry_def Let_def by (simp only: schedule_fail_Inr_iff sum.inject split: if_split_asm) (erule subst, simp only: namespace.select_convs)

lemma cohort_of_id: "cohort_of sha256 p m = Inr c \<Longrightarrow> expectedCohortId sha256 m p = Inr (cohortId c)"
  by (auto simp: cohort_of_Inr)

lemma selected_entries_facts:
  assumes "selectedEntriesFromSourceEnvelope sha256 env = Inr entries"
  shows "map nsEntryPath entries = envelopeEntryPaths env" and "e \<in> set entries \<Longrightarrow> expectedEntryIdentity sha256 e = Inr (scheduleEntryId e)"
proof -
  have all: "list_all2 (\<lambda>p e. bindR (select_entry env p) (entry_of_namespace sha256) = Inr e) (envelopeEntryPaths env) entries"
    using assms by (simp add: selectedEntriesFromSourceEnvelope_def mapR_Inr_iff)
  have path: "nsEntryPath e = p \<and> expectedEntryIdentity sha256 e = Inr (scheduleEntryId e)"
    if run: "bindR (select_entry env p) (entry_of_namespace sha256) = Inr e" for p e
  proof -
    obtain ns where ns: "select_entry env p = Inr ns" "entry_of_namespace sha256 ns = Inr e" using run by (auto simp: bindR_Inr_iff)
    have "nsEntryPath ns = p" by (rule select_entry_path[OF ns(1)])
    then show ?thesis using ns(2) entry_of_namespace_identity[OF ns(2)] by (auto simp: entry_of_namespace_def bindR_Inr_iff)
  qed
  show "map nsEntryPath entries = envelopeEntryPaths env"
  proof (rule nth_equalityI)
    show len: "length (map nsEntryPath entries) = length (envelopeEntryPaths env)" using list_all2_lengthD[OF all] by simp
    fix i assume "i < length (map nsEntryPath entries)"
    then show "map nsEntryPath entries ! i = envelopeEntryPaths env ! i"
      using path[OF list_all2_nthD2[OF all, of i]] by simp
  qed
  show "expectedEntryIdentity sha256 e = Inr (scheduleEntryId e)" if in_entries: "e \<in> set entries"
  proof -
    obtain i where i: "i < length entries" "e = entries ! i" using in_entries by (auto simp: in_set_conv_nth)
    then show ?thesis using path[OF list_all2_nthD2[OF all i(1)]] by simp
  qed
qed

text \<open>Partitioning again by the paths of the cohorts gives the same cohorts.\<close>

lemma cohort_paths_json: "cohort_paths (cohort_json c) = group_value (map nsEntryPath (cohortEntries c))"
  by (simp add: cohort_paths_def cohort_json_def optional_prop_def entry_json_def comp_def)

lemma explicit_cohorts_again:
  assumes "distinct (map nsEntryPath entries)" and "entries \<noteq> []" and "createExplicitCohorts sha256 entries groups = Inr cs"
  shows "createExplicitCohorts sha256 entries (JArr (map cohort_paths (map cohort_json cs))) = Inr cs"
    and "\<And>c. c \<in> set cs \<Longrightarrow> cohortEntries c \<noteq> [] \<and> set (cohortEntries c) \<subseteq> set entries
      \<and> expectedCohortId sha256 (cohortEntries c) explicitPartitionPolicy = Inr (cohortId c)"
proof -
  obtain gs where gs: "[] \<notin> set gs" "distinct (concat gs)" "set (concat gs) = nsEntryPath ` set entries"
    and cs: "cs = js_sort (compareBy first_path) (map (group_cohort sha256 entries) gs)"
    using assms(3) unfolding createExplicitCohorts_iff[OF assms(1,2)] by blast
  have from_group: "\<exists>g. g \<in> set gs \<and> c = group_cohort sha256 entries g" if "c \<in> set cs" for c using that by (auto simp: cs)
  have entries_of: "cohortEntries (group_cohort sha256 entries g) = js_sort (compareBy nsEntryPath) (map (entry_at entries) g)" for g
    by (simp add: group_cohort_def Let_def)
  have recover: "entry_at entries (nsEntryPath e) = e" if "e \<in> set entries" for e
    using entry_at_path[of "nsEntryPath e" entries] assms(1) that by (auto simp: distinct_map inj_on_def)
  have sub: "set (cohortEntries c) \<subseteq> set entries" if in_cs: "c \<in> set cs" for c
  proof -
    obtain g where g: "g \<in> set gs" "c = group_cohort sha256 entries g" using from_group[OF in_cs] by blast
    have "set g \<subseteq> nsEntryPath ` set entries" using g(1) gs(3) by auto
    then show ?thesis using entry_at_path(1)[of _ entries] unfolding g(2) entries_of by auto
  qed
  have nonempty: "cohortEntries c \<noteq> []" if in_cs: "c \<in> set cs" for c
  proof -
    obtain g where "g \<in> set gs" "c = group_cohort sha256 entries g" using from_group[OF in_cs] by blast
    then show ?thesis using gs(1) by (metis entries_of length_map list.size(3) length_0_conv size_mset mset_js_sort)
  qed
  have same: "group_cohort sha256 entries (map nsEntryPath (cohortEntries c)) = c" if in_cs: "c \<in> set cs" for c
  proof -
    obtain g where g: "c = group_cohort sha256 entries g" using from_group[OF in_cs] by blast
    have "map (entry_at entries) (map nsEntryPath (cohortEntries c)) = cohortEntries c"
      using sub[OF in_cs] recover by (auto intro!: map_idI)
    moreover have "js_sort (compareBy nsEntryPath) (cohortEntries c) = cohortEntries c"
      unfolding g entries_of by (simp add: by_key.sort_sorted_id by_key.sorted_sort)
    ultimately show ?thesis unfolding g by (simp add: group_cohort_def Let_def)
  qed
  show "cohortEntries c \<noteq> [] \<and> set (cohortEntries c) \<subseteq> set entries
      \<and> expectedCohortId sha256 (cohortEntries c) explicitPartitionPolicy = Inr (cohortId c)" if in_cs: "c \<in> set cs" for c
  proof -
    obtain g where g: "c = group_cohort sha256 entries g" using from_group[OF in_cs] by blast
    have "cohort_of sha256 explicitPartitionPolicy (cohortEntries c) = Inr c" unfolding g entries_of by (rule group_cohort_of)
    then show ?thesis using nonempty[OF in_cs] sub[OF in_cs] cohort_of_id by blast
  qed
  let ?gs = "map (\<lambda>c. map nsEntryPath (cohortEntries c)) cs"
  have part: "mset (concat (map cohortEntries cs)) = mset entries"
    using explicit_groups[OF assms(1,2), of sha256 groups] assms(3) by blast
  have paths: "mset (concat ?gs) = mset (map nsEntryPath entries)"
  proof -
    have "concat ?gs = map nsEntryPath (concat (map cohortEntries cs))" by (simp add: map_concat comp_def)
    then show ?thesis using part by (metis mset_map)
  qed
  have "map (group_cohort sha256 entries) ?gs = cs" using same by (auto intro!: map_idI)
  moreover have "js_sort (compareBy first_path) cs = cs" unfolding cs by (simp add: by_key.sort_sorted_id by_key.sorted_sort)
  moreover have "distinct (concat ?gs)" using paths assms(1) by (metis mset_eq_imp_distinct_iff)
  moreover have "set (concat ?gs) = nsEntryPath ` set entries" using paths by (metis image_set mset_eq_setD)
  ultimately show "createExplicitCohorts sha256 entries (JArr (map cohort_paths (map cohort_json cs))) = Inr cs"
    unfolding createExplicitCohorts_iff[OF assms(1,2)] using nonempty
    by (intro exI[of _ ?gs]) (auto simp: cohort_paths_json)
qed

definition namespaces_ok :: "(nat \<Rightarrow> namespace) \<Rightarrow> (nat \<times> namespace) list option \<Rightarrow> bool" where
  "namespaces_ok obj nss \<longleftrightarrow> nss = None \<or> (\<exists>js. nss = Some (map (\<lambda>i. (i, obj i)) js))"

lemma lexical_cohort_ok:
  assumes "createCohorts sha256 entries = Inr cs" and "c \<in> set cs" and "list_all entry_wf (cohortEntries c)"
    and "\<And>e. e \<in> set entries \<Longrightarrow> expectedEntryIdentity sha256 e = Inr (scheduleEntryId e)"
  shows "cohort_ok sha256 cohortPartitionPolicy c"
proof -
  have facts: "cohortEntries c \<noteq> []" "length (cohortEntries c) \<le> 8" "expectedCohortId sha256 (cohortEntries c) cohortPartitionPolicy = Inr (cohortId c)"
    and all: "concat (map cohortEntries cs) = entries"
    using createCohorts_facts[OF assms(1)] assms(2) by blast+
  have "set (cohortEntries c) \<subseteq> set entries" using all assms(2) by auto
  then show ?thesis using facts assms(3,4) by (auto simp: cohort_ok_def maximumEntries_def list_all_iff)
qed

lemma explicit_entries_nonempty:
  assumes "createExplicitCohorts sha256 [] groups = Inr cs" shows False
  using assms by (auto simp: createExplicitCohorts_def explicit_cohort_def take_entry_def bindR_Inr_iff split: jsval.splits list.splits)

text \<open>The cohorts of a creation are well formed, and creating them again from their own paths gives them again.\<close>

lemma schedule_cohorts_again:
  assumes "schedule_cohorts sha256 namespaces st env groups = Inr (cs, st')"
    and "distinct (envelopeEntryPaths env)" and "namespaces_ok obj (namespaces env)" and "retained_ok sha256 obj st"
    and "\<And>c. c \<in> set cs \<Longrightarrow> list_all entry_wf (cohortEntries c)"
  shows "\<exists>st''. schedule_cohorts sha256 namespaces st' env (if groups = None then None else Some (JArr (map cohort_paths (map cohort_json cs)))) = Inr (cs, st'')"
    and "\<And>c. c \<in> set cs \<Longrightarrow> cohort_ok sha256 (if groups = None then cohortPartitionPolicy else explicitPartitionPolicy) c"
proof -
  have both: "(\<exists>st''. schedule_cohorts sha256 namespaces st' env (if groups = None then None else Some (JArr (map cohort_paths (map cohort_json cs)))) = Inr (cs, st''))
      \<and> (\<forall>c \<in> set cs. cohort_ok sha256 (if groups = None then cohortPartitionPolicy else explicitPartitionPolicy) c)"
  proof (cases groups)
    case (Some g)
    then obtain entries where e: "selectedEntriesFromSourceEnvelope sha256 env = Inr entries" "createExplicitCohorts sha256 entries g = Inr cs"
      using assms(1) by (auto simp: schedule_cohorts_def bindR_Inr_iff)
    have d: "distinct (map nsEntryPath entries)" using selected_entries_facts(1)[OF e(1)] assms(2) by simp
    have n: "entries \<noteq> []" using e(2) explicit_entries_nonempty by blast
    have "cohort_ok sha256 explicitPartitionPolicy c" if "c \<in> set cs" for c
      using explicit_cohorts_again(2)[OF d n e(2) that] assms(5)[OF that] selected_entries_facts(2)[OF e(1)]
      by (auto simp: cohort_ok_def list_all_iff)
    then show ?thesis using Some e(1) explicit_cohorts_again(1)[OF d n e(2)] by (auto simp: schedule_cohorts_def)
  next
    case None
    show ?thesis
    proof (cases "namespaces env")
      case (Some nss)
      then obtain js where js: "nss = map (\<lambda>i. (i, obj i)) js" using assms(3) by (auto simp: namespaces_ok_def)
      have run: "retainedCohorts sha256 st (map (\<lambda>i. (i, obj i)) js) = Inr (cs, st')"
        using assms(1) None Some js by (simp add: schedule_cohorts_def)
      have made: "createCohorts sha256 (map (entry_for sha256 obj) js) = Inr cs" "retained_ok sha256 obj st'"
        using retainedCohorts_run[OF assms(4), of js] run by auto
      have "\<exists>st''. retainedCohorts sha256 st' (map (\<lambda>i. (i, obj i)) js) = Inr (cs, st'')"
        using retainedCohorts_run[OF made(2), of js] made(1) by auto
      moreover have "cohort_ok sha256 cohortPartitionPolicy c" if "c \<in> set cs" for c
        by (rule lexical_cohort_ok[OF made(1) that assms(5)[OF that]]) (auto intro: entry_of_namespace_identity[OF entry_for])
      ultimately show ?thesis using None Some js by (auto simp: schedule_cohorts_def)
    next
      case none: None
      then obtain entries where e: "selectedEntriesFromSourceEnvelope sha256 env = Inr entries" "createCohorts sha256 entries = Inr cs"
        using assms(1) None by (auto simp: schedule_cohorts_def bindR_Inr_iff)
      have "cohort_ok sha256 cohortPartitionPolicy c" if "c \<in> set cs" for c
        by (rule lexical_cohort_ok[OF e(2) that assms(5)[OF that]]) (rule selected_entries_facts(2)[OF e(1)])
      then show ?thesis using none None e by (auto simp: schedule_cohorts_def)
    qed
  qed
  then show "\<exists>st''. schedule_cohorts sha256 namespaces st' env (if groups = None then None else Some (JArr (map cohort_paths (map cohort_json cs)))) = Inr (cs, st'')"
    by blast
  show "cohort_ok sha256 (if groups = None then cohortPartitionPolicy else explicitPartitionPolicy) c" if "c \<in> set cs" for c
    using both that by blast
qed

lemma file_identity_wf:
  assumes "normalizeSourceEnvelopeFileIdentity options = Inr file"
  shows "file_wf file"
proof -
  have num: "schedule_requirePositiveInteger v d = Inr n \<Longrightarrow> 0 < n \<and> n \<le> max_safe_integer" for v d n
    by (auto simp: schedule_requirePositiveInteger_def split: jsval.splits if_splits elim!: isSafeInteger.elims)
  have sha: "schedule_requireSha256 v d = Inr x \<Longrightarrow> SHA256_PATTERN x" for v d x
    by (auto simp: schedule_requireSha256_def split: jsval.splits if_splits)
  show ?thesis using assms
    by (auto simp: normalizeSourceEnvelopeFileIdentity_def Let_def bindR_Inr_iff file_wf_def split: if_splits dest: num sha)
qed

section \<open>Authentication\<close>

lemma policies_differ: "cohortPartitionPolicy \<noteq> explicitPartitionPolicy"
  using policy_text by force

lemma create_schedule_shape:
  assumes "create_schedule sha256 namespaces st env file groups = Inr (b, s, st')" and "wf_js (schedule_json s)"
  shows "schedule_cohorts sha256 namespaces st env groups = Inr (scheduleCohorts s, st')" and "scheduleCohorts s \<noteq> []"
    and "schedulePolicy s = (if groups = None then cohortPartitionPolicy else explicitPartitionPolicy)"
    and "scheduleProvenance s = sourceEnvelopeProvenance env file"
    and "fingerprintJson sha256 (JObj (identity_fields (scheduleCohorts s) (schedulePolicy s) (scheduleProvenance s))) = Inr (scheduleSha256 s)"
proof -
  have wf: "wf_js (JObj (identity_fields (scheduleCohorts s) (schedulePolicy s) (scheduleProvenance s)))"
    using assms(2) by (simp add: schedule_json_def identity_fields_def own_order_def)
  show "schedule_cohorts sha256 namespaces st env groups = Inr (scheduleCohorts s, st')" "scheduleCohorts s \<noteq> []"
    "schedulePolicy s = (if groups = None then cohortPartitionPolicy else explicitPartitionPolicy)"
    "scheduleProvenance s = sourceEnvelopeProvenance env file"
    using assms(1) by (auto simp: create_schedule_def bindR_Inr_iff Let_def split: prod.splits)
  show "fingerprintJson sha256 (JObj (identity_fields (scheduleCohorts s) (schedulePolicy s) (scheduleProvenance s))) = Inr (scheduleSha256 s)"
    using assms(1) retained_digest[OF wf] by (auto simp: create_schedule_def bindR_Inr_iff Let_def split: prod.splits if_splits)
qed

lemma create_schedule_same:
  assumes "create_schedule sha256 namespaces st env file groups = Inr (b, s, st')"
    and "schedule_cohorts sha256 namespaces st1 env groups' = Inr (scheduleCohorts s, st2)" and "(groups' = None) = (groups = None)"
  shows "create_schedule sha256 namespaces st1 env file groups' = Inr (b, s, st2)"
  using assms by (auto simp: create_schedule_def bindR_Inr_iff Let_def split: prod.splits)

lemma authenticate_created:
  assumes create: "createConvexWasmOfficialOutputCohortSchedule sha256 validate namespaces st options = Inr (b, s, st')"
    and "wf_js (schedule_json s)"
    and env: "get_prop ''sourceEnvelope'' options = Inr v" "validate v = Inr env"
    and "distinct (envelopeEntryPaths env)" and "SHA256_PATTERN (envelopeSha256 env)" and "envelopeToolchain env = JObj tools"
    and "\<And>c. c \<in> set (scheduleCohorts s) \<Longrightarrow> list_all entry_wf (cohortEntries c)"
    and "namespaces_ok obj (namespaces env)" and "retained_ok sha256 obj st"
  shows "\<exists>st''. authenticateConvexWasmOfficialOutputCohortSchedule sha256 validate namespaces st' (Raw (schedule_json s)) options = Inr (s, st'')"
proof -
  obtain fid groups where fid: "normalizeSourceEnvelopeFileIdentity options = Inr fid"
    and made: "create_schedule sha256 namespaces st env fid groups = Inr (b, s, st')"
    using create env by (auto simp: createConvexWasmOfficialOutputCohortSchedule_def bindR_Inr_iff)
  note shape = create_schedule_shape[OF made assms(2)]
  note again = schedule_cohorts_again[OF shape(1) assms(5,9,10,8)]
  have explicit: "schedulePolicy s = explicitPartitionPolicy \<longleftrightarrow> groups \<noteq> None" using shape(3) policies_differ by auto
  have "validateProvenance (provenance_json (scheduleProvenance s)) = Inr ()"
    by (rule validateProvenance_json[of _ tools]) (simp_all add: shape(4) sourceEnvelopeProvenance_def file_identity_wf[OF fid] assms(6,7))
  then have valid: "validate_schedule sha256 (schedule_json s) = Inr (groups \<noteq> None, map cohort_json (scheduleCohorts s))"
    using validate_schedule_json[OF _ shape(2) _ _ shape(5) assms(2)] again(2) shape(3) explicit by simp
  obtain st2 where st2: "create_schedule sha256 namespaces st' env fid
      (if groups = None then None else Some (JArr (map cohort_paths (map cohort_json (scheduleCohorts s))))) = Inr (b, s, st2)"
    using again(1) create_schedule_same[OF made] by force
  have encoded: "\<exists>t. canonicalJson (schedule_json s) = Inr t"
  proof -
    have wf: "wf_js (JObj (identity_fields (scheduleCohorts s) (schedulePolicy s) (scheduleProvenance s)))"
      using assms(2) by (simp add: schedule_json_def identity_fields_def own_order_def)
    have "jsonable (JObj (identity_fields (scheduleCohorts s) (schedulePolicy s) (scheduleProvenance s)))"
      using shape(5) by (auto simp: fingerprintJson_def bindR_Inr_iff canonicalJson_closed[OF wf])
    then have "jsonable (schedule_json s)" by (simp add: schedule_json_def identity_fields_def)
    then show ?thesis using canonicalJson_closed[OF assms(2)] by blast
  qed
  have "optional_prop ''sourceEnvelope'' options = v" using env(1) by (simp add: optional_prop_def)
  then show ?thesis using valid st2 encoded env(2) fid
    by (cases groups) (auto simp: authenticateConvexWasmOfficialOutputCohortSchedule_def)
qed

lemma authenticated_data:
  assumes "authenticateConvexWasmOfficialOutputCohortSchedule sha256 validate namespaces st (Raw raw) options = Inr (s, st')"
    and "wf_js raw" and "wf_js (schedule_json s)"
  shows "js_data raw = js_data (schedule_json s)"
    and "fingerprintJson sha256 (JObj (identity_fields (scheduleCohorts s) (schedulePolicy s) (scheduleProvenance s))) = Inr (scheduleSha256 s)"
    and "\<exists>env file groups. validate (optional_prop ''sourceEnvelope'' options) = Inr env \<and> normalizeSourceEnvelopeFileIdentity options = Inr file
      \<and> scheduleProvenance s = sourceEnvelopeProvenance env file \<and> schedule_cohorts sha256 namespaces st env groups = Inr (scheduleCohorts s, st')"
proof -
  obtain env fid groups b t where run: "validate (optional_prop ''sourceEnvelope'' options) = Inr env"
    "normalizeSourceEnvelopeFileIdentity options = Inr fid" "create_schedule sha256 namespaces st env fid groups = Inr (b, s, st')"
    "canonicalJson raw = Inr t" "canonicalJson (schedule_json s) = Inr t"
    using assms(1) by (auto simp: authenticateConvexWasmOfficialOutputCohortSchedule_def bindR_Inr_iff split: prod.splits if_splits)
  show "js_data raw = js_data (schedule_json s)" using canonical_text_decides[OF assms(2,3) run(4,5)] by simp
  show "fingerprintJson sha256 (JObj (identity_fields (scheduleCohorts s) (schedulePolicy s) (scheduleProvenance s))) = Inr (scheduleSha256 s)"
    by (rule create_schedule_shape(5)[OF run(3) assms(3)])
  show "\<exists>env file groups. validate (optional_prop ''sourceEnvelope'' options) = Inr env \<and> normalizeSourceEnvelopeFileIdentity options = Inr file
      \<and> scheduleProvenance s = sourceEnvelopeProvenance env file \<and> schedule_cohorts sha256 namespaces st env groups = Inr (scheduleCohorts s, st')"
    using run(1,2) create_schedule_shape(1,4)[OF run(3) assms(3)] by blast
qed

section \<open>Properties\<close>

text \<open>C18: A schedule that was created, written as JSON and authenticated against the same envelope and file
  identity, is accepted and returned unchanged: the lexical, the retained and the explicit partition alike.\<close>

theorem created_schedule_authenticates:
  assumes "createConvexWasmOfficialOutputCohortSchedule sha256 validate namespaces st options = Inr (b, s, st')"
    and "wf_js (schedule_json s)"
    and "get_prop ''sourceEnvelope'' options = Inr v" and "validate v = Inr env"
    and "distinct (envelopeEntryPaths env)" and "SHA256_PATTERN (envelopeSha256 env)" and "envelopeToolchain env = JObj tools"
    and "\<And>c. c \<in> set (scheduleCohorts s) \<Longrightarrow> list_all entry_wf (cohortEntries c)"
    and "namespaces_ok obj (namespaces env)" and "retained_ok sha256 obj st"
  shows "\<exists>st''. authenticateConvexWasmOfficialOutputCohortSchedule sha256 validate namespaces st' (Raw (schedule_json s)) options = Inr (s, st'')"
  by (rule authenticate_created[OF assms])

text \<open>C19: A serialized schedule that authentication accepts carries exactly the data of the schedule it returns,
  whose digest is the fingerprint of its identity and whose provenance and cohorts come from the
  validated envelope.\<close>

theorem authenticated_schedule_sound:
  assumes "authenticateConvexWasmOfficialOutputCohortSchedule sha256 validate namespaces st (Raw raw) options = Inr (s, st')"
    and "wf_js raw" and "wf_js (schedule_json s)"
  shows "js_data raw = js_data (schedule_json s)
    \<and> fingerprintJson sha256 (JObj (identity_fields (scheduleCohorts s) (schedulePolicy s) (scheduleProvenance s))) = Inr (scheduleSha256 s)
    \<and> (\<exists>env fid groups. validate (optional_prop ''sourceEnvelope'' options) = Inr env \<and> normalizeSourceEnvelopeFileIdentity options = Inr fid
        \<and> scheduleProvenance s = sourceEnvelopeProvenance env fid \<and> schedule_cohorts sha256 namespaces st env groups = Inr (scheduleCohorts s, st'))"
  using authenticated_data[OF assms] by blast

definition sample_digest :: string where
  "sample_digest = replicate 64 (CHR ''a'')"

definition sample_route :: route where
  "sample_route = \<lparr>routeEntryPath = ''p'', routeExportName = ''f'', routeModulePath = ''m'', routeRuntimeModulePath = ''r'',
     routeUdfKind = ''query'', routeVisibility = ''public'', routeDependencyGraph = sample_digest\<rparr>"

definition sample_envelope :: source_envelope where
  "sample_envelope = \<lparr>envelopeEntryPaths = [''p''], envelopeRoutes = [sample_route], envelopeSelectedRoutes = [sample_route],
     envelopeSha256 = sample_digest, envelopeToolchain = JObj []\<rparr>"

definition sample_made :: schedule_entry where
  "sample_made = \<lparr>nsDependencyGraph = sample_digest, nsEntryPath = ''p'', nsModulePath = ''m'',
     nsRoutes = [\<lparr>scheduleExportName = ''f'', scheduleUdfKind = ''query'', scheduleVisibility = ''public''\<rparr>],
     nsRuntimeModulePath = ''r'', scheduleEntryId = ''h''\<rparr>"

definition sample_schedule :: cohort_schedule where
  "sample_schedule = \<lparr>scheduleCohorts = [\<lparr>cohortId = ''h'', cohortEntries = [sample_made]\<rparr>], schedulePolicy = cohortPartitionPolicy,
     scheduleProvenance = sourceEnvelopeProvenance sample_envelope None, scheduleSha256 = ''h''\<rparr>"

lemma sample_fingerprint: "json_ok v \<Longrightarrow> fingerprintJson (\<lambda>_. ''h'') v = Inr ''h''"
  using json_ok_canonical by (fastforce simp: fingerprintJson_def)

lemma sample_digest_ok: "SHA256_PATTERN sample_digest"
  by (simp add: sample_digest_def SHA256_PATTERN_def is_lower_hex_def list_all_iff)

lemma sample_entries: "selectedEntriesFromSourceEnvelope (\<lambda>_. ''h'') sample_envelope = Inr [sample_made]"
proof -
  have "expectedEntryIdentity (\<lambda>_. ''h'') ns = Inr ''h''" for ns :: namespace
    unfolding expectedEntryIdentity_def by (rule sample_fingerprint, rule json_ok_object) (auto intro!: json_ok_array json_ok_route)
  then show ?thesis
    by (simp add: selectedEntriesFromSourceEnvelope_def sample_envelope_def select_entry_def routes_of_def sample_route_def Let_def
        entry_of_namespace_def sample_made_def js_set_def)
qed

lemma sample_create:
  "createConvexWasmOfficialOutputCohortSchedule (\<lambda>_. ''h'') (\<lambda>_. Inr sample_envelope) (\<lambda>_. None) empty_retained (JObj [(''sourceEnvelope'', JNull)])
    = Inr (False, sample_schedule, empty_retained)"
proof -
  have "chunks maximumEntries [sample_made] = [[sample_made]]"
    unfolding maximumEntries_def by (subst chunks.simps) simp
  moreover have "expectedCohortId (\<lambda>_. ''h'') [sample_made] cohortPartitionPolicy = Inr ''h''"
    unfolding expectedCohortId_def by (rule sample_fingerprint, rule json_ok_object) (auto intro!: json_ok_array json_ok_policies)
  ultimately have cohorts: "createCohorts (\<lambda>_. ''h'') [sample_made] = Inr [\<lparr>cohortId = ''h'', cohortEntries = [sample_made]\<rparr>]"
    by (simp add: createCohorts_def cohort_of_def)
  have "json_ok (JObj (identity_fields cs cohortPartitionPolicy (sourceEnvelopeProvenance sample_envelope None)))" for cs
    by (auto simp: identity_fields_def provenance_json_def sourceEnvelopeProvenance_def sample_envelope_def
        intro!: json_ok_object json_ok_array json_ok_cohort json_ok_policies)
  then show ?thesis
    by (simp add: createConvexWasmOfficialOutputCohortSchedule_def normalizeSourceEnvelopeFileIdentity_def own_prop_def own_fields_def
        schedule_require_def Let_def create_schedule_def schedule_cohorts_def sample_entries cohorts sample_fingerprint sample_schedule_def)
qed

lemma sample_wf: "wf_js (schedule_json sample_schedule)"
  by (simp add: schedule_json_def sample_schedule_def identity_fields_def cohort_json_def entry_json_def route_json_def sample_made_def
      provenance_json_def sourceEnvelopeProvenance_def sample_envelope_def cohortPartitionPolicy_def maximumEntries_def own_order_def max_safe_integer_def)

lemma sample_entry_wf: "c \<in> set (scheduleCohorts sample_schedule) \<Longrightarrow> list_all entry_wf (cohortEntries c)"
  by (auto simp: sample_schedule_def sample_made_def entry_wf_def sample_digest_ok)

lemma sample_sources:
  "get_prop ''sourceEnvelope'' (JObj [(''sourceEnvelope'', JNull)]) = Inr JNull" "distinct (envelopeEntryPaths sample_envelope)"
  "SHA256_PATTERN (envelopeSha256 sample_envelope)" "envelopeToolchain sample_envelope = JObj []"
  "namespaces_ok obj None" "retained_ok sha256 obj empty_retained"
  by (simp_all add: sample_envelope_def sample_digest_ok namespaces_ok_def retained_ok_def empty_retained_def)

theorem created_schedule_authenticates_witness:
  "\<exists>st''. authenticateConvexWasmOfficialOutputCohortSchedule (\<lambda>_. ''h'') (\<lambda>_. Inr sample_envelope) (\<lambda>_. None) empty_retained
     (Raw (schedule_json sample_schedule)) (JObj [(''sourceEnvelope'', JNull)]) = Inr (sample_schedule, st'')"
  by (rule created_schedule_authenticates[OF sample_create sample_wf sample_sources(1) refl sample_sources(2-4) sample_entry_wf sample_sources(5,6)])

theorem authenticated_schedule_sound_witness:
  "\<exists>st''. authenticateConvexWasmOfficialOutputCohortSchedule (\<lambda>_. ''h'') (\<lambda>_. Inr sample_envelope) (\<lambda>_. None) empty_retained
     (Raw (schedule_json sample_schedule)) (JObj [(''sourceEnvelope'', JNull)]) = Inr (sample_schedule, st'')
   \<and> fingerprintJson (\<lambda>_. ''h'') (JObj (identity_fields (scheduleCohorts sample_schedule) cohortPartitionPolicy (scheduleProvenance sample_schedule))) = Inr ''h''"
proof -
  obtain st'' where st'': "authenticateConvexWasmOfficialOutputCohortSchedule (\<lambda>_. ''h'') (\<lambda>_. Inr sample_envelope) (\<lambda>_. None) empty_retained
     (Raw (schedule_json sample_schedule)) (JObj [(''sourceEnvelope'', JNull)]) = Inr (sample_schedule, st'')"
    using authenticate_created[OF sample_create sample_wf sample_sources(1) refl sample_sources(2-4) sample_entry_wf sample_sources(5,6)] by blast
  have "schedulePolicy sample_schedule = cohortPartitionPolicy" "scheduleSha256 sample_schedule = ''h''" by (simp_all add: sample_schedule_def)
  then show ?thesis using st'' authenticated_schedule_sound[OF st'' sample_wf sample_wf] by auto
qed

end
