(* ===== verification/CohortPool.thy ===== *)
theory CohortPool
  imports CohortSchedule
begin

text \<open>
  The bounded pool that builds the cohorts of an authenticated schedule
  (\<open>scheduleConvexWasmOfficialOutputCohortBuildsFromAuthenticatedSchedule\<close>).

  A worker is an async function; between two awaits it runs without interruption. The state after each
  such run is \<open>pool\<close>; \<open>running\<close> holds the indices whose build is awaited, one for each live worker. What
  the caller's \<open>build\<close> does with an index is a parameter: it throws, or its promise rejects or fulfils.
  An event is the resumption of the worker that awaits an index; the order of the events is arbitrary.
\<close>

section \<open>The pool\<close>

datatype ('e, 'r) build_outcome = Throws 'e | Rejects 'e | Fulfils 'r

record ('e, 'r) pool =
  nextIndex :: nat
  firstError :: "'e option"
  results :: "'r option list"
  running :: "nat list"
  started :: "nat list"

abbreviation pool_failed :: "('e, 'r) pool \<Rightarrow> bool" where
  "pool_failed p \<equiv> firstError p \<noteq> None"

definition record_failure :: "'e \<Rightarrow> ('e, 'r) pool \<Rightarrow> ('e, 'r) pool" where
  "record_failure e p = (if \<not> pool_failed p then p\<lparr>firstError := Some e\<rparr> else p)"

text \<open>A worker at the head of its loop, up to its next await or its return.\<close>

definition worker_turn :: "nat \<Rightarrow> (nat \<Rightarrow> ('e, 'r) build_outcome) \<Rightarrow> ('e, 'r) pool \<Rightarrow> ('e, 'r) pool" where
  "worker_turn n build p =
     (if pool_failed p then p
      else let i = nextIndex p; p1 = p\<lparr>nextIndex := nextIndex p + 1\<rparr> in
        if n \<le> i then p1
        else let p2 = p1\<lparr>started := started p1 @ [i]\<rparr> in
          (case build i of
             Throws e \<Rightarrow> record_failure e p2
           | _ \<Rightarrow> p2\<lparr>running := running p2 @ [i]\<rparr>))"

definition empty_pool :: "nat \<Rightarrow> ('e, 'r) pool" where
  "empty_pool n = \<lparr>nextIndex = 0, firstError = None, results = replicate n None, running = [], started = []\<rparr>"

definition start_workers :: "nat \<Rightarrow> nat \<Rightarrow> (nat \<Rightarrow> ('e, 'r) build_outcome) \<Rightarrow> ('e, 'r) pool" where
  "start_workers concurrency n build = (worker_turn n build ^^ min concurrency n) (empty_pool n)"

text \<open>The worker that awaits index \<open>i\<close> resumes; an index that nobody awaits resumes nobody.\<close>

definition resume_worker :: "nat \<Rightarrow> (nat \<Rightarrow> ('e, 'r) build_outcome) \<Rightarrow> ('e, 'r) pool \<Rightarrow> nat \<Rightarrow> ('e, 'r) pool" where
  "resume_worker n build p i =
     (if i \<notin> set (running p) then p
      else let p1 = p\<lparr>running := remove1 i (running p)\<rparr> in
        case build i of
          Fulfils r \<Rightarrow> worker_turn n build (p1\<lparr>results := (results p1)[i := Some r]\<rparr>)
        | Rejects e \<Rightarrow> record_failure e p1
        | Throws e \<Rightarrow> record_failure e p1)"

text \<open>After \<open>Promise.all\<close>, which settles when no worker is left.\<close>

definition pool_outcome :: "('e, 'r) pool \<Rightarrow> 'e + 'r option list" where
  "pool_outcome p = (case firstError p of Some e \<Rightarrow> Inl e | None \<Rightarrow> Inr (results p))"

section \<open>The operations\<close>

text \<open>\<open>isFunction\<close> is \<open>typeof build === "function"\<close>; the result is the pool after the synchronous part.\<close>

definition scheduleBuildsFromAuthenticatedSchedule :: "bool \<Rightarrow> (cohort \<Rightarrow> nat \<Rightarrow> string \<Rightarrow> ('e, 'r) build_outcome) \<Rightarrow> jsval \<Rightarrow>
    schedule_handle \<Rightarrow> ('e, 'r) pool res" where
  "scheduleBuildsFromAuthenticatedSchedule isFunction build concurrency handle =
     bindR (schedule_require isFunction ''cohort build operation must be a function'') (\<lambda>_.
     bindR (schedule_requirePositiveInteger concurrency ''cohort build concurrency'') (\<lambda>workers.
     case handle of
       Raw v \<Rightarrow> schedule_fail ''cohort build requires a schedule authenticated by this module''
     | Branded s \<Rightarrow> Inr (start_workers (nat workers) (length (scheduleCohorts s))
         (\<lambda>i. build (scheduleCohorts s ! i) i (scheduleSha256 s)))))"

definition scheduleConvexWasmOfficialOutputCohortBuilds :: "(string \<Rightarrow> string) \<Rightarrow> (jsval \<Rightarrow> source_envelope res) \<Rightarrow>
    (source_envelope \<Rightarrow> (nat \<times> namespace) list option) \<Rightarrow> retained_state \<Rightarrow> schedule_handle \<Rightarrow> bool \<Rightarrow>
    (cohort \<Rightarrow> nat \<Rightarrow> string \<Rightarrow> ('e, 'r) build_outcome) \<Rightarrow> jsval \<Rightarrow> (cohort_schedule \<times> ('e, 'r) pool) res" where
  "scheduleConvexWasmOfficialOutputCohortBuilds sha256 validate namespaces st handle isFunction build options =
     bindR (authenticateConvexWasmOfficialOutputCohortSchedule sha256 validate namespaces st handle options) (\<lambda>(s, st').
     bindR (scheduleBuildsFromAuthenticatedSchedule isFunction build (optional_prop ''concurrency'' options) (Branded s)) (\<lambda>p.
     Inr (s, p)))"

section \<open>Invariant\<close>

inductive pool_move :: "nat \<Rightarrow> (nat \<Rightarrow> ('e, 'r) build_outcome) \<Rightarrow> ('e, 'r) pool \<Rightarrow> ('e, 'r) pool \<Rightarrow> bool" for n build where
  turn: "pool_move n build p (worker_turn n build p)"
| resume: "i \<in> set (running p) \<Longrightarrow> pool_move n build p (resume_worker n build p i)"

definition pool_fields :: "nat \<Rightarrow> (nat \<Rightarrow> ('e, 'r) build_outcome) \<Rightarrow> nat \<Rightarrow> 'e option \<Rightarrow> 'r option list \<Rightarrow> nat list \<Rightarrow> bool" where
  "pool_fields n build k err rs awaited \<longleftrightarrow> k \<le> n \<and> distinct awaited \<and> set awaited \<subseteq> {..<k} \<and> length rs = n
     \<and> (\<forall>i < n. \<forall>r. rs ! i = Some r \<longrightarrow> i < k \<and> i \<notin> set awaited \<and> build i = Fulfils r)
     \<and> (\<forall>i < k. i \<notin> set awaited \<longrightarrow> (\<exists>r. build i = Fulfils r \<and> rs ! i = Some r) \<or> err \<noteq> None)
     \<and> (\<forall>i \<in> set awaited. \<forall>e. build i \<noteq> Throws e)
     \<and> (\<forall>e. err = Some e \<longrightarrow> (\<exists>i < k. i \<notin> set awaited \<and> (build i = Throws e \<or> build i = Rejects e)))"

definition pool_inv :: "nat \<Rightarrow> (nat \<Rightarrow> ('e, 'r) build_outcome) \<Rightarrow> ('e, 'r) pool \<Rightarrow> bool" where
  "pool_inv n build p \<longleftrightarrow> started p = [0..<min (nextIndex p) n]
     \<and> pool_fields n build (min (nextIndex p) n) (firstError p) (results p) (running p)"

lemma fields_throw:
  "pool_fields n build k None rs awaited \<Longrightarrow> k < n \<Longrightarrow> build k = Throws e \<Longrightarrow> pool_fields n build (Suc k) (Some e) rs awaited"
  unfolding pool_fields_def by (auto simp: less_Suc_eq)

lemma fields_start:
  assumes "pool_fields n build k None rs awaited" "k < n" "\<And>e. build k \<noteq> Throws e"
  shows "pool_fields n build (Suc k) None rs (awaited @ [k])"
proof -
  have "rs ! k = None" using assms by (cases "rs ! k") (auto simp: pool_fields_def)
  then show ?thesis using assms unfolding pool_fields_def by (auto simp: less_Suc_eq)
qed

lemma fields_fulfil:
  assumes "pool_fields n build k err rs awaited" "i \<in> set awaited" "build i = Fulfils r"
  shows "pool_fields n build k err (rs[i := Some r]) (remove1 i awaited)"
proof -
  have i: "i < k" "i < n" "length rs = n" using assms by (auto simp: pool_fields_def)
  show ?thesis using assms i unfolding pool_fields_def by (auto simp: nth_list_update)
qed

lemma fields_reject:
  assumes "pool_fields n build k err rs awaited" "i \<in> set awaited" "build i = Rejects e"
  shows "pool_fields n build k (Some (case err of None \<Rightarrow> e | Some e' \<Rightarrow> e')) rs (remove1 i awaited)"
  using assms unfolding pool_fields_def by (cases err) auto

lemma worker_turn_cases:
  "pool_failed p \<Longrightarrow> worker_turn n build p = p"
  "\<not> pool_failed p \<Longrightarrow> n \<le> nextIndex p \<Longrightarrow> worker_turn n build p = p\<lparr>nextIndex := Suc (nextIndex p)\<rparr>"
  "\<not> pool_failed p \<Longrightarrow> nextIndex p < n \<Longrightarrow> build (nextIndex p) = Throws e \<Longrightarrow>
     worker_turn n build p = p\<lparr>nextIndex := Suc (nextIndex p), started := started p @ [nextIndex p], firstError := Some e\<rparr>"
  "\<not> pool_failed p \<Longrightarrow> nextIndex p < n \<Longrightarrow> (\<And>e. build (nextIndex p) \<noteq> Throws e) \<Longrightarrow>
     worker_turn n build p = p\<lparr>nextIndex := Suc (nextIndex p), started := started p @ [nextIndex p], running := running p @ [nextIndex p]\<rparr>"
  by (auto simp: worker_turn_def Let_def record_failure_def split: build_outcome.splits)

lemma pool_inv_worker_turn:
  assumes "pool_inv n build p"
  shows "pool_inv n build (worker_turn n build p)"
proof -
  let ?i = "nextIndex p"
  have inv: "started p = [0..<min ?i n]" "pool_fields n build (min ?i n) (firstError p) (results p) (running p)"
    using assms by (simp_all add: pool_inv_def)
  consider "pool_failed p" | "\<not> pool_failed p" "n \<le> ?i" | e where "\<not> pool_failed p" "?i < n" "build ?i = Throws e"
    | "\<not> pool_failed p" "?i < n" "\<And>e. build ?i \<noteq> Throws e" by (metis not_less)
  then show ?thesis
  proof cases
    case 1
    then show ?thesis by (subst worker_turn_cases(1)) (use assms in simp_all)
  next
    case 2
    have "min (Suc ?i) n = n" "min ?i n = n" using 2(2) by simp_all
    then show ?thesis unfolding worker_turn_cases(2)[OF 2] using inv by (simp add: pool_inv_def)
  next
    case (3 e)
    then have turn: "worker_turn n build p = p\<lparr>nextIndex := Suc (nextIndex p), started := started p @ [nextIndex p], firstError := Some e\<rparr>"
      by (intro worker_turn_cases(3))
    show ?thesis unfolding turn using 3 inv fields_throw[of n build ?i "results p" "running p" e]
      by (simp add: pool_inv_def min_def)
  next
    case 4
    then have turn: "worker_turn n build p = p\<lparr>nextIndex := Suc (nextIndex p), started := started p @ [nextIndex p], running := running p @ [nextIndex p]\<rparr>"
      by (intro worker_turn_cases(4))
    show ?thesis unfolding turn using 4 inv fields_start[of n build ?i "results p" "running p"]
      by (simp add: pool_inv_def min_def)
  qed
qed

lemma pool_inv_settle:
  assumes "pool_inv n build p" and "i \<in> set (running p)"
  shows "build i = Fulfils r \<Longrightarrow> pool_inv n build (p\<lparr>running := remove1 i (running p), results := (results p)[i := Some r]\<rparr>)"
    and "build i = Rejects e \<Longrightarrow> pool_inv n build (record_failure e (p\<lparr>running := remove1 i (running p)\<rparr>))"
  using assms fields_fulfil[of n build _ _ _ _ i r] fields_reject[of n build _ _ _ _ i e]
  by (simp_all add: pool_inv_def record_failure_def) fastforce

lemma pool_inv_resume:
  assumes "pool_inv n build p"
  shows "pool_inv n build (resume_worker n build p i)"
proof (cases "i \<in> set (running p)")
  case True
  show ?thesis
  proof (cases "build i")
    case (Throws e)
    then show ?thesis using assms True by (auto simp: pool_inv_def pool_fields_def)
  next
    case (Rejects e)
    then show ?thesis using pool_inv_settle(2)[OF assms True Rejects] True by (simp add: resume_worker_def Let_def)
  next
    case (Fulfils r)
    then show ?thesis using pool_inv_worker_turn[OF pool_inv_settle(1)[OF assms True Fulfils]] True by (simp add: resume_worker_def Let_def)
  qed
qed (simp add: resume_worker_def assms)

interpretation cohort_pool: event_system "resume_worker n build" "pool_move n build" "pool_inv n build" for n build
proof
  fix s s' :: "('a, 'b) pool" and e
  show "(pool_move n build)\<^sup>*\<^sup>* s (resume_worker n build s e)"
  proof (cases "e \<in> set (running s)")
    case True
    then show ?thesis by (intro r_into_rtranclp resume)
  qed (simp add: resume_worker_def)
  assume "pool_move n build s s'" "pool_inv n build s"
  then show "pool_inv n build s'" by cases (simp_all add: pool_inv_worker_turn pool_inv_resume)
qed

text \<open>Work is kept: while indices are left and nothing failed, every worker awaits a build.\<close>

definition pool_busy :: "nat \<Rightarrow> nat \<Rightarrow> ('e, 'r) pool \<Rightarrow> bool" where
  "pool_busy workers n p \<longleftrightarrow> length (running p) \<le> workers \<and> (pool_failed p \<or> n \<le> nextIndex p \<or> length (running p) = workers)"

lemma worker_turn_busy:
  assumes "Suc (length (running p)) \<le> workers"
    and "pool_failed p \<or> n \<le> nextIndex p \<or> Suc (length (running p)) = workers"
  shows "pool_busy workers n (worker_turn n build p)"
  using assms by (cases "build (nextIndex p)") (auto simp: worker_turn_def pool_busy_def Let_def record_failure_def)

lemma resume_busy:
  assumes "pool_busy workers n p" and "\<And>e. i \<in> set (running p) \<Longrightarrow> build i \<noteq> Throws e"
  shows "pool_busy workers n (resume_worker n build p i)"
proof (cases "i \<in> set (running p)")
  case True
  then have len: "Suc (length (remove1 i (running p))) = length (running p)" by (simp add: length_remove1) (metis Suc_pred length_pos_if_in_set)
  show ?thesis
  proof (cases "build i")
    case (Fulfils r)
    have "pool_busy workers n (worker_turn n build (p\<lparr>running := remove1 i (running p), results := (results p)[i := Some r]\<rparr>))"
      using assms(1) len by (intro worker_turn_busy) (auto simp: pool_busy_def)
    then show ?thesis using True Fulfils by (simp add: resume_worker_def Let_def)
  qed (use assms True len in \<open>auto simp: resume_worker_def Let_def pool_busy_def record_failure_def\<close>)
qed (simp add: resume_worker_def assms)

lemma start_turns:
  "k \<le> n \<Longrightarrow> let p = (worker_turn n build ^^ k) (empty_pool n) in
     pool_inv n build p \<and> length (running p) \<le> k \<and> (pool_failed p \<or> nextIndex p = k \<and> length (running p) = k)"
proof (induction k)
  case 0
  show ?case by (auto simp: empty_pool_def pool_inv_def pool_fields_def)
next
  case (Suc k)
  let ?p = "(worker_turn n build ^^ k) (empty_pool n)"
  have p: "pool_inv n build ?p" "length (running ?p) \<le> k" "pool_failed ?p \<or> nextIndex ?p = k \<and> length (running ?p) = k"
    using Suc by (simp_all add: Let_def)
  have "pool_inv n build (worker_turn n build ?p)" by (rule pool_inv_worker_turn[OF p(1)])
  moreover have "length (running (worker_turn n build ?p)) \<le> Suc k
      \<and> (pool_failed (worker_turn n build ?p) \<or> nextIndex (worker_turn n build ?p) = Suc k \<and> length (running (worker_turn n build ?p)) = Suc k)"
    using p(2,3) Suc.prems by (cases "build (nextIndex ?p)") (auto simp: worker_turn_def Let_def record_failure_def)
  ultimately show ?case by (simp add: Let_def)
qed

lemma start_inv: "pool_inv n build (start_workers concurrency n build)"
  and start_busy: "pool_busy (min concurrency n) n (start_workers concurrency n build)"
  using start_turns[of "min concurrency n" n build] by (auto simp: start_workers_def Let_def pool_busy_def)

abbreviation pool_after :: "nat \<Rightarrow> nat \<Rightarrow> (nat \<Rightarrow> ('e, 'r) build_outcome) \<Rightarrow> nat list \<Rightarrow> ('e, 'r) pool" where
  "pool_after concurrency n build order \<equiv> foldl (resume_worker n build) (start_workers concurrency n build) order"

lemma after_inv: "pool_inv n build (pool_after concurrency n build order)"
  by (rule cohort_pool.run_inv[OF start_inv])

lemma after_busy: "pool_busy (min concurrency n) n (pool_after concurrency n build order)"
proof (induction order rule: rev_induct)
  case (snoc i order)
  have "build i \<noteq> Throws e" if "i \<in> set (running (pool_after concurrency n build order))" for e
    using after_inv[of n build concurrency order] that by (auto simp: pool_inv_def pool_fields_def)
  then show ?case using resume_busy[OF snoc] by simp
qed (simp add: start_busy)

section \<open>Failure stops the pool\<close>

lemma resume_failed:
  assumes "firstError p = Some e"
  shows "firstError (resume_worker n build p i) = Some e \<and> started (resume_worker n build p i) = started p
    \<and> nextIndex (resume_worker n build p i) = nextIndex p"
  using assms by (cases "build i") (auto simp: resume_worker_def Let_def record_failure_def worker_turn_def)

lemma run_failed:
  "firstError p = Some e \<Longrightarrow> firstError (foldl (resume_worker n build) p order) = Some e
    \<and> started (foldl (resume_worker n build) p order) = started p"
proof (induction order arbitrary: p)
  case (Cons i order)
  then show ?case using resume_failed[OF Cons.prems, of n build i] by simp
qed simp

section \<open>Every worker ends\<close>

text \<open>How many resumptions are still possible at most.\<close>

definition pool_left :: "nat \<Rightarrow> ('e, 'r) pool \<Rightarrow> nat" where
  "pool_left n p = (n - nextIndex p) + length (running p)"

lemma worker_turn_left: "pool_left n (worker_turn n build p) \<le> pool_left n p"
  by (cases "build (nextIndex p)") (auto simp: worker_turn_def pool_left_def Let_def record_failure_def)

lemma resume_left:
  assumes "i \<in> set (running p)" shows "pool_left n (resume_worker n build p i) < pool_left n p"
proof -
  have len: "length (remove1 i (running p)) < length (running p)" using length_pos_if_in_set[OF assms] assms by (simp add: length_remove1)
  have drop: "pool_left n (p\<lparr>running := remove1 i (running p), results := rs\<rparr>) < pool_left n p" for rs
    using len by (simp add: pool_left_def)
  show ?thesis
  proof (cases "build i")
    case (Fulfils r)
    then show ?thesis using assms order.strict_trans1[OF worker_turn_left[of n build] drop] by (simp add: resume_worker_def Let_def)
  qed (use assms len in \<open>simp_all add: resume_worker_def Let_def record_failure_def pool_left_def\<close>)
qed

text \<open>Every event of the order resumes a worker.\<close>

fun effective :: "nat \<Rightarrow> (nat \<Rightarrow> ('e, 'r) build_outcome) \<Rightarrow> ('e, 'r) pool \<Rightarrow> nat list \<Rightarrow> bool" where
  "effective n build p [] = True"
| "effective n build p (i # order) = (i \<in> set (running p) \<and> effective n build (resume_worker n build p i) order)"

lemma effective_left: "effective n build p order \<Longrightarrow> length order + pool_left n (foldl (resume_worker n build) p order) \<le> pool_left n p"
proof (induction order arbitrary: p)
  case (Cons i order)
  then have "i \<in> set (running p)" by simp
  then have "pool_left n (resume_worker n build p i) < pool_left n p" by (rule resume_left)
  then show ?case using Cons.IH[of "resume_worker n build p i"] Cons.prems by simp
qed simp

lemma effective_snoc: "effective n build p (order @ [i]) \<longleftrightarrow> effective n build p order \<and> i \<in> set (running (foldl (resume_worker n build) p order))"
  by (induction order arbitrary: p) auto

lemma start_left: "pool_left n (start_workers concurrency n build) \<le> n"
proof -
  have "pool_left n ((worker_turn n build ^^ k) (empty_pool n)) \<le> n" for k
  proof (induction k)
    case 0
    show ?case by (simp add: pool_left_def empty_pool_def)
  next
    case (Suc k)
    then show ?case using worker_turn_left[of n build "(worker_turn n build ^^ k) (empty_pool n)"] by simp
  qed
  then show ?thesis by (simp add: start_workers_def)
qed

section \<open>Properties\<close>

text \<open>C21: Whatever the order in which builds settle, at most \<open>concurrency\<close> of them run at a time; indices start
  once each and in order; and while indices are left and nothing failed, all workers are busy.\<close>

theorem cohort_pool_bounded:
  fixes build :: "nat \<Rightarrow> ('e, 'r) build_outcome"
  shows "let p = pool_after concurrency n build order in
    length (running p) \<le> min concurrency n \<and> distinct (running p) \<and> set (running p) \<subseteq> set (started p)
    \<and> started p = [0..<length (started p)] \<and> length (started p) \<le> n
    \<and> (case firstError p of Some e \<Rightarrow> True | None \<Rightarrow> length (started p) = n \<or> length (running p) = min concurrency n)"
proof -
  let ?p = "pool_after concurrency n build order"
  have inv: "started ?p = [0..<min (nextIndex ?p) n]" "pool_fields n build (min (nextIndex ?p) n) (firstError ?p) (results ?p) (running ?p)"
    using after_inv[of n build concurrency order] by (simp_all add: pool_inv_def)
  have "length (started ?p) = min (nextIndex ?p) n" using inv(1) by simp
  then show ?thesis using after_busy[of concurrency n build order] inv unfolding Let_def pool_busy_def pool_fields_def
    by (auto simp: min_def split: option.splits)
qed

text \<open>C23: After the first failure, no later settling starts a build or replaces the error that is thrown.\<close>

theorem cohort_pool_fails_fast:
  fixes build :: "nat \<Rightarrow> ('e, 'r) build_outcome"
  assumes "firstError (pool_after concurrency n build order) = Some e"
  shows "started (pool_after concurrency n build (order @ later)) = started (pool_after concurrency n build order)
    \<and> pool_outcome (pool_after concurrency n build (order @ later)) = Inl e"
  using run_failed[OF assms, of n build later] by (simp add: pool_outcome_def)

theorem cohort_pool_fails_fast_witness:
  "started (pool_after 2 4 (\<lambda>i. if i = 1 then Rejects ''boom'' else Fulfils i) ([1] @ [0])) = [0, 1]
    \<and> pool_outcome (pool_after 2 4 (\<lambda>i. if i = 1 then Rejects ''boom'' else Fulfils i) ([1] @ [0])) = Inl ''boom''"
proof -
  have p: "pool_after 2 4 (\<lambda>i. if i = 1 then Rejects ''boom'' else Fulfils i) [1]
      = \<lparr>nextIndex = 2, firstError = Some ''boom'', results = [None, None, None, None], running = [0], started = [0, 1]\<rparr>" by code_simp
  then show ?thesis using cohort_pool_fails_fast[where concurrency = 2 and n = 4 and build = "\<lambda>i. if i = 1 then Rejects ''boom'' else Fulfils i"
      and order = "[1]" and e = "''boom''" and later = "[0]"] by simp
qed

text \<open>C22: When no worker is left, the outcome is the list of what every cohort's build fulfilled with, in the
  order of the cohorts, or the error of a build that was started and failed.\<close>

theorem cohort_pool_outcome:
  fixes build :: "nat \<Rightarrow> ('e, 'r) build_outcome"
  assumes "0 < concurrency" and "running (pool_after concurrency n build order) = []"
  shows "case pool_outcome (pool_after concurrency n build order) of
      Inl e \<Rightarrow> \<exists>i \<in> set (started (pool_after concurrency n build order)). i < n \<and> (build i = Throws e \<or> build i = Rejects e)
    | Inr rs \<Rightarrow> length rs = n \<and> (\<forall>i < n. \<exists>r. build i = Fulfils r \<and> rs ! i = Some r)"
proof -
  let ?p = "pool_after concurrency n build order"
  have inv: "pool_fields n build (min (nextIndex ?p) n) (firstError ?p) (results ?p) []" "started ?p = [0..<min (nextIndex ?p) n]"
    using after_inv[of n build concurrency order] assms(2) by (simp_all add: pool_inv_def)
  have busy: "pool_failed ?p \<or> min (nextIndex ?p) n = n"
    using after_busy[of concurrency n build order] assms by (auto simp: pool_busy_def)
  show ?thesis
  proof (cases "firstError ?p")
    case None
    then show ?thesis using inv busy by (auto simp: pool_outcome_def pool_fields_def)
  next
    case (Some e)
    then show ?thesis using inv by (auto simp: pool_outcome_def pool_fields_def Bex_def)
  qed
qed

theorem cohort_pool_outcome_witness:
  "case pool_outcome (pool_after 2 3 (\<lambda>i. Fulfils (i * i) :: (string, nat) build_outcome) [1, 0, 2]) of
      Inl e \<Rightarrow> False | Inr rs \<Rightarrow> rs = [Some 0, Some 1, Some 4]"
proof -
  have p: "pool_after 2 3 (\<lambda>i. Fulfils (i * i) :: (string, nat) build_outcome) [1, 0, 2]
      = \<lparr>nextIndex = 5, firstError = None, results = [Some 0, Some 1, Some 4], running = [], started = [0, 1, 2]\<rparr>" by code_simp
  then show ?thesis using cohort_pool_outcome[where concurrency = 2 and n = 3
      and build = "\<lambda>i. Fulfils (i * i) :: (string, nat) build_outcome" and order = "[1, 0, 2]"]
    by (simp add: pool_outcome_def)
qed

text \<open>C24: The pool ends: at most one resumption for each cohort ever happens, and until the last worker is gone
  some awaited build can still resume one.\<close>

theorem cohort_pool_ends:
  fixes build :: "nat \<Rightarrow> ('e, 'r) build_outcome"
  assumes "effective n build (start_workers concurrency n build) order"
  shows "length order \<le> n
    \<and> (running (pool_after concurrency n build order) = [] \<or> (\<exists>i. effective n build (start_workers concurrency n build) (order @ [i])))"
proof -
  have "length order \<le> n" using effective_left[OF assms] start_left[of n concurrency build] by linarith
  moreover have "\<exists>i. effective n build (start_workers concurrency n build) (order @ [i])" if "running (pool_after concurrency n build order) \<noteq> []"
    using that assms unfolding effective_snoc by (cases "running (pool_after concurrency n build order)") auto
  ultimately show ?thesis by blast
qed

theorem cohort_pool_ends_witness:
  "\<exists>i. effective 3 (\<lambda>i. Fulfils i :: (string, nat) build_outcome) (start_workers 2 3 (\<lambda>i. Fulfils i)) ([1, 0] @ [i])"
proof -
  have e: "effective 3 (\<lambda>i. Fulfils i :: (string, nat) build_outcome) (start_workers 2 3 (\<lambda>i. Fulfils i)) [1, 0]" by code_simp
  have "running (pool_after 2 3 (\<lambda>i. Fulfils i :: (string, nat) build_outcome) [1, 0]) = [2]" by code_simp
  then show ?thesis using cohort_pool_ends[OF e] by simp
qed

end
