(* ===== verification/JsChecks.thy ===== *)
theory JsChecks
  imports JsonText
begin

text \<open>
  When the shared checks of \<open>convex-wasm-artifact-contract.mjs\<close> accept, in closed form, and how a
  normalized value passes the checks that produced it. The components that normalize contracts share
  these lemmas.
\<close>

text \<open>\<open>value === n\<close> for a number \<open>n\<close>; minus zero equals zero.\<close>

definition number_equals :: "jsval \<Rightarrow> int \<Rightarrow> bool" where
  "number_equals value n = (case value of JNum (NInt i) \<Rightarrow> i = n | JNum NNegZero \<Rightarrow> n = 0 | _ \<Rightarrow> False)"

lemma number_equals_int [simp]: "number_equals (JNum (NInt i)) n \<longleftrightarrow> i = n"
  by (simp add: number_equals_def)

lemma hex_not_nul: "is_lower_hex c \<Longrightarrow> c \<noteq> CHR 0x00"
  by (auto simp: is_lower_hex_def Let_def)

lemma exact_object: "mset (map fst kvs) = mset ks \<Longrightarrow> requireExactPlainObject (JObj kvs) ks d = Inr kvs"
proof -
  assume m: "mset (map fst kvs) = mset ks"
  then have "set (map fst kvs) = set ks" "length kvs = length ks" by (metis mset_eq_setD, metis length_map size_mset)
  then show ?thesis by (auto simp: requireExactPlainObject_def assertExactKeys_def failWhen_def filter_empty_conv Let_def)
qed

lemma requireString_Inr: "requireString v d = Inr s \<longleftrightarrow> v = JStr s \<and> s \<noteq> [] \<and> CHR 0x00 \<notin> set s"
  by (cases v) auto

lemma requireSha256_Inr: "requireSha256 v d = Inr s \<longleftrightarrow> v = JStr s \<and> SHA256_PATTERN s"
proof -
  have "SHA256_PATTERN s \<Longrightarrow> s \<noteq> [] \<and> CHR 0x00 \<notin> set s" using hex_not_nul by (auto simp: SHA256_PATTERN_def list_all_iff)
  then show ?thesis by (auto simp: requireSha256_def bindR_Inr_iff requireString_Inr)
qed

lemma requireEnum_Inr: "requireEnum v ks d = Inr s \<longleftrightarrow> v = JStr s \<and> s \<in> set ks \<and> s \<noteq> [] \<and> CHR 0x00 \<notin> set s"
  by (auto simp: requireEnum_def bindR_Inr_iff requireString_Inr)

lemmas read_string = requireString_Inr requireSha256_Inr requireEnum_Inr

lemma own_prop_simps [simp]: "own_prop [] k = JUndefined" "own_prop ((k', v) # kvs) k = (if k = k' then v else own_prop kvs k)"
  by (simp_all add: own_prop_def)

lemma mapiR_retry:
  "mapiR f n xs = Inr ys \<Longrightarrow> (\<And>i x y. f i x = Inr y \<Longrightarrow> g i (j y) = Inr y) \<Longrightarrow> mapiR g n (map j ys) = Inr ys"
  by (induction xs arbitrary: n ys) (auto simp: bindR_Inr_iff)

lemma case_arr: "(case w of JArr items \<Rightarrow> f items | _ \<Rightarrow> fail m) = Inr x \<longleftrightarrow> (\<exists>items. w = JArr items \<and> f items = Inr x)"
  by (cases w) auto

lemma failWhen_passes [simp]: "\<not> b \<Longrightarrow> failWhen b m = Inr ()"
  by (simp add: failWhen_def)

end
