(* ===== verification/ModuleGraph.thy ===== *)
theory ModuleGraph
  imports JsChecks
begin

text \<open>
  Module graph contracts (\<open>scripts/lib/convex-wasm-module-graph-contract.mjs\<close>): the sequence of module
  roles, the normalization of every part of a module's contract, and the check that each import is
  bound to the host, the loader, a weak zero or an earlier module of the right type.

  A normalized value is a record; \<open>sha256\<close> is the hash of a string's UTF-8 bytes. In the final check,
  \<open>modules\<close> and \<open>hostAbi\<close> are normalized values, as they are wherever the code calls it.
\<close>

section \<open>Roles\<close>

definition MODULE_GRAPH_BASE_ROLE :: string where "MODULE_GRAPH_BASE_ROLE = ''base''"
definition MODULE_GRAPH_LEGACY_SHARED_ROLE :: string where "MODULE_GRAPH_LEGACY_SHARED_ROLE = ''common''"
definition MODULE_GRAPH_SHARED_ROLE_PREFIX :: string where "MODULE_GRAPH_SHARED_ROLE_PREFIX = ''shared-''"
definition MODULE_GRAPH_LEAF_ROLE :: string where "MODULE_GRAPH_LEAF_ROLE = ''leaf''"
definition MODULE_GRAPH_SOURCE_PROVENANCE_KIND :: string where
  "MODULE_GRAPH_SOURCE_PROVENANCE_KIND = ''convex-wasm-module-role-source-provenance-v1''"

definition requireNonnegativeSafeInteger :: "jsval \<Rightarrow> string \<Rightarrow> int res" where
  "requireNonnegativeSafeInteger value description =
     (case value of
        JNum n \<Rightarrow> if \<not> isSafeInteger n \<or> num_int n < 0 then fail (description @ '' must be a nonnegative safe integer'') else Inr (num_int n)
      | _ \<Rightarrow> fail (description @ '' must be a nonnegative safe integer''))"

definition moduleGraphSharedRole :: "jsval \<Rightarrow> string res" where
  "moduleGraphSharedRole shard =
     bindR (requireSha256 shard ''module graph shared shard SHA-256'') (\<lambda>s. Inr (MODULE_GRAPH_SHARED_ROLE_PREFIX @ s))"

definition moduleGraphSharedShardSha256 :: "string \<Rightarrow> string option" where
  "moduleGraphSharedShardSha256 role =
     (let n = length MODULE_GRAPH_SHARED_ROLE_PREFIX in
      if take n role \<noteq> MODULE_GRAPH_SHARED_ROLE_PREFIX \<or> length role \<noteq> n + 64 then None
      else let shard = drop n role in if SHA256_PATTERN shard then Some shard else None)"

definition isModuleGraphSharedRole :: "string \<Rightarrow> bool" where
  "isModuleGraphSharedRole role \<longleftrightarrow> role = MODULE_GRAPH_LEGACY_SHARED_ROLE \<or> moduleGraphSharedShardSha256 role \<noteq> None"

definition moduleGraphRoleClass :: "string \<Rightarrow> string res" where
  "moduleGraphRoleClass role =
     (if role = MODULE_GRAPH_BASE_ROLE then Inr MODULE_GRAPH_BASE_ROLE
      else if role = MODULE_GRAPH_LEAF_ROLE then Inr MODULE_GRAPH_LEAF_ROLE
      else if isModuleGraphSharedRole role then Inr ''shared''
      else fail (''module graph has an unsupported role: '' @ role))"

definition element_description :: "string \<Rightarrow> nat \<Rightarrow> string" where
  "element_description description index = description @ ''['' @ show_nat index @ '']''"

definition read_role :: "string \<Rightarrow> nat \<Rightarrow> jsval \<Rightarrow> string res" where
  "read_role description index module =
     bindR (assertPlainObject module (element_description description index)) (\<lambda>kvs.
     requireString (own_prop kvs ''role'') (element_description description index @ ''.role''))"

definition normalizeModuleGraphRoleSequence :: "jsval \<Rightarrow> string \<Rightarrow> string list res" where
  "normalizeModuleGraphRoleSequence rawModules description =
     (case rawModules of
        JArr ms \<Rightarrow>
          if length ms < 2 then fail (description @ '' must contain base, zero or more shared modules, and leaf'')
          else bindR (mapiR (read_role description) 0 ms) (\<lambda>roles.
            bindR (failWhen (hd roles \<noteq> MODULE_GRAPH_BASE_ROLE \<or> last roles \<noteq> MODULE_GRAPH_LEAF_ROLE
                \<or> list_ex (\<lambda>role. \<not> isModuleGraphSharedRole role) (butlast (tl roles)) \<or> \<not> distinct roles)
              (description @ '' must be ordered base, shared modules, then leaf'')) (\<lambda>_.
            bindR (failWhen (MODULE_GRAPH_LEGACY_SHARED_ROLE \<in> set roles \<and> (length roles \<noteq> 3 \<or> roles ! 1 \<noteq> MODULE_GRAPH_LEGACY_SHARED_ROLE))
              (description @ '' may contain legacy common only as its sole shared module'')) (\<lambda>_. Inr roles)))
      | _ \<Rightarrow> fail (description @ '' must contain base, zero or more shared modules, and leaf''))"

section \<open>Externals\<close>

record link_type =
  typeCanonical :: string
  typeKind :: string
  typeSha256 :: string

record external_item =
  externalIndex :: nat
  externalModule :: "string option"
  externalName :: string
  externalType :: link_type

record weak_import =
  weakModule :: string
  weakName :: string

definition requireModuleGraphAbiFunctionExport :: "external_item list \<Rightarrow> string \<Rightarrow> string \<Rightarrow> unit res" where
  "requireModuleGraphAbiFunctionExport exported name description =
     (case find (\<lambda>e. externalName e = name) exported of
        Some e \<Rightarrow> failWhen (typeKind (externalType e) \<noteq> ''func'' \<or> typeCanonical (externalType e) \<noteq> ''func()->(i32)'')
          (description @ '' must export '' @ name @ '' as func()->(i32)'')
      | None \<Rightarrow> fail (description @ '' must export '' @ name @ '' as func()->(i32)''))"

definition normalizeModuleGraphExternalType :: "(string \<Rightarrow> string) \<Rightarrow> jsval \<Rightarrow> string \<Rightarrow> link_type res" where
  "normalizeModuleGraphExternalType sha256 value description =
     bindR (requireExactPlainObject value [''canonical'', ''kind'', ''sha256''] description) (\<lambda>kvs.
     bindR (requireEnum (own_prop kvs ''kind'') [''func'', ''global'', ''memory'', ''table'', ''tag''] (description @ ''.kind'')) (\<lambda>kind.
     bindR (requireString (own_prop kvs ''canonical'') (description @ ''.canonical'')) (\<lambda>canonical.
     bindR (requireSha256 (own_prop kvs ''sha256'') (description @ ''.sha256'')) (\<lambda>sha.
     bindR (failWhen (sha \<noteq> sha256 canonical) (description @ ''.sha256 does not authenticate its canonical type'')) (\<lambda>_.
     Inr \<lparr>typeCanonical = canonical, typeKind = kind, typeSha256 = sha\<rparr>)))))"

definition normalizeModuleGraphExternal :: "(string \<Rightarrow> string) \<Rightarrow> jsval \<Rightarrow> bool \<Rightarrow> nat \<Rightarrow> string \<Rightarrow> external_item res" where
  "normalizeModuleGraphExternal sha256 value imported index description =
     bindR (requireExactPlainObject value (if imported then [''index'', ''module'', ''name'', ''type''] else [''index'', ''name'', ''type''])
       description) (\<lambda>kvs.
     bindR (failWhen (\<not> number_equals (own_prop kvs ''index'') (int index))
       (description @ ''.index must preserve the exact Core Wasm contract order'')) (\<lambda>_.
     bindR (if imported then bindR (requireString (own_prop kvs ''module'') (description @ ''.module'')) (\<lambda>m. Inr (Some m)) else Inr None) (\<lambda>module.
     bindR (requireString (own_prop kvs ''name'') (description @ ''.name'')) (\<lambda>name.
     bindR (normalizeModuleGraphExternalType sha256 (own_prop kvs ''type'') (description @ ''.type'')) (\<lambda>type.
     Inr \<lparr>externalIndex = index, externalModule = module, externalName = name, externalType = type\<rparr>)))))"

definition normalizeModuleGraphWeakImport :: "string \<Rightarrow> nat \<Rightarrow> jsval \<Rightarrow> weak_import res" where
  "normalizeModuleGraphWeakImport description index value =
     bindR (requireExactPlainObject value [''module'', ''name''] (element_description description index)) (\<lambda>kvs.
     bindR (requireString (own_prop kvs ''module'') (element_description description index @ ''.module'')) (\<lambda>m.
     bindR (requireString (own_prop kvs ''name'') (element_description description index @ ''.name'')) (\<lambda>n.
     Inr \<lparr>weakModule = m, weakName = n\<rparr>)))"

section \<open>Contracts\<close>

record contract_authority =
  authorityEngine :: "string option"
  authorityInspection :: string
  authorityKind :: string

record dylink =
  dylinkSha256 :: string
  dylinkWeakImports :: "weak_import list"

record contract_payload =
  payloadAuthority :: contract_authority
  payloadDylink :: dylink
  payloadExports :: "external_item list"
  payloadImports :: "external_item list"

record graph_contract = contract_payload +
  graphContractSha256 :: string

definition link_type_json :: "link_type \<Rightarrow> jsval" where
  "link_type_json t = JObj [(''canonical'', JStr (typeCanonical t)), (''kind'', JStr (typeKind t)), (''sha256'', JStr (typeSha256 t))]"

definition external_json :: "external_item \<Rightarrow> jsval" where
  "external_json e = JObj ((''index'', JNum (NInt (int (externalIndex e))))
     # (case externalModule e of None \<Rightarrow> [] | Some m \<Rightarrow> [(''module'', JStr m)])
     @ [(''name'', JStr (externalName e)), (''type'', link_type_json (externalType e))])"

definition weak_import_json :: "weak_import \<Rightarrow> jsval" where
  "weak_import_json w = JObj [(''module'', JStr (weakModule w)), (''name'', JStr (weakName w))]"

definition authority_json :: "contract_authority \<Rightarrow> jsval" where
  "authority_json a = JObj ((case authorityEngine a of None \<Rightarrow> [] | Some e \<Rightarrow> [(''engineCompatibilitySha256'', JStr e)])
     @ [(''inspectionSha256'', JStr (authorityInspection a)), (''kind'', JStr (authorityKind a))])"

definition dylink_json :: "dylink \<Rightarrow> jsval" where
  "dylink_json d = JObj [(''first'', JBool True), (''sha256'', JStr (dylinkSha256 d)),
     (''weakImports'', JArr (map weak_import_json (dylinkWeakImports d)))]"

definition contract_fields :: "'a contract_payload_scheme \<Rightarrow> (string \<times> jsval) list" where
  "contract_fields c = [(''authority'', authority_json (payloadAuthority c)), (''dylink'', dylink_json (payloadDylink c)),
     (''exports'', JArr (map external_json (payloadExports c))), (''imports'', JArr (map external_json (payloadImports c)))]"

definition weak_key :: "weak_import \<Rightarrow> string" where
  "weak_key w = weakModule w @ [CHR 0x00] @ weakName w"

definition compareWeakImports :: "weak_import \<Rightarrow> weak_import \<Rightarrow> int" where
  "compareWeakImports left right =
     (let moduleOrder = compareStrings (weakModule left) (weakModule right) in
      if moduleOrder = 0 then compareStrings (weakName left) (weakName right) else moduleOrder)"

text \<open>\<open>canonicalJson(a) !== canonicalJson(b)\<close>.\<close>

definition same_canonical :: "jsval \<Rightarrow> jsval \<Rightarrow> bool res" where
  "same_canonical a b = bindR (canonicalJson a) (\<lambda>s. bindR (canonicalJson b) (\<lambda>t. Inr (s = t)))"

definition read_authority :: "jsval \<Rightarrow> string \<Rightarrow> string \<Rightarrow> contract_authority res" where
  "read_authority value engine description =
     bindR (assertPlainObject value (description @ ''.authority'')) (\<lambda>kvs.
     let legacy = (own_prop kvs ''kind'' = JStr ''convex-wasm-wasmtime-module-contract-v1'') in
     bindR (failWhen (\<not> legacy \<and> own_prop kvs ''kind'' \<noteq> JStr ''convex-wasm-core-module-contract-v1'')
       (description @ ''.authority.kind is unsupported'')) (\<lambda>_.
     bindR (requireExactPlainObject value ((if legacy then [''engineCompatibilitySha256''] else []) @ [''inspectionSha256'', ''kind''])
       (description @ ''.authority'')) (\<lambda>_.
     bindR (if legacy then bindR (requireSha256 (own_prop kvs ''engineCompatibilitySha256'') (description @ ''.authority.engineCompatibilitySha256''))
              (\<lambda>e. Inr (Some e)) else Inr None) (\<lambda>compatibility.
     bindR (requireSha256 (own_prop kvs ''inspectionSha256'') (description @ ''.authority.inspectionSha256'')) (\<lambda>inspection.
     bindR (failWhen (legacy \<and> compatibility \<noteq> Some engine)
       (description @ '' legacy contract names a different native engine compatibility identity'')) (\<lambda>_.
     Inr \<lparr>authorityEngine = compatibility, authorityInspection = inspection,
       authorityKind = (if legacy then ''convex-wasm-wasmtime-module-contract-v1'' else ''convex-wasm-core-module-contract-v1'')\<rparr>))))))"

definition read_dylink :: "jsval \<Rightarrow> string \<Rightarrow> dylink res" where
  "read_dylink value description =
     bindR (requireExactPlainObject value [''first'', ''sha256'', ''weakImports''] (description @ ''.dylink'')) (\<lambda>kvs.
     bindR (failWhen (own_prop kvs ''first'' \<noteq> JBool True)
       (description @ '' must authenticate dylink.0 as the first custom section'')) (\<lambda>_.
     case own_prop kvs ''weakImports'' of
       JArr items \<Rightarrow>
         bindR (mapiR (normalizeModuleGraphWeakImport (description @ ''.dylink.weakImports'')) 0 items) (\<lambda>weakImports.
         bindR (if \<not> distinct (map weak_key weakImports) then Inr False
                else same_canonical (JArr (map weak_import_json weakImports))
                       (JArr (map weak_import_json (js_sort compareWeakImports weakImports)))) (\<lambda>ok.
         bindR (failWhen (\<not> ok) (description @ ''.dylink.weakImports must be sorted and unique'')) (\<lambda>_.
         bindR (requireSha256 (own_prop kvs ''sha256'') (description @ ''.dylink.sha256'')) (\<lambda>sha.
         Inr \<lparr>dylinkSha256 = sha, dylinkWeakImports = weakImports\<rparr>))))
     | _ \<Rightarrow> fail (description @ ''.dylink.weakImports must be an array'')))"

definition normalizeModuleGraphContract :: "(string \<Rightarrow> string) \<Rightarrow> jsval \<Rightarrow> string \<Rightarrow> string \<Rightarrow> graph_contract res" where
  "normalizeModuleGraphContract sha256 value role engine =
     (let description = role @ '' module contract'' in
      bindR (requireExactPlainObject value [''authority'', ''contractSha256'', ''dylink'', ''exports'', ''imports''] description) (\<lambda>kvs.
      bindR (read_authority (own_prop kvs ''authority'') engine description) (\<lambda>authority.
      bindR (read_dylink (own_prop kvs ''dylink'') description) (\<lambda>dylink.
      case (own_prop kvs ''imports'', own_prop kvs ''exports'') of
        (JArr imported, JArr exported) \<Rightarrow>
          bindR (mapiR (\<lambda>index item. normalizeModuleGraphExternal sha256 item True index (element_description (description @ ''.imports'') index)) 0 imported) (\<lambda>imports.
          bindR (mapiR (\<lambda>index item. normalizeModuleGraphExternal sha256 item False index (element_description (description @ ''.exports'') index)) 0 exported) (\<lambda>exports.
          bindR (failWhen (\<not> distinct (map externalName exports)) (description @ '' exports contain duplicate names'')) (\<lambda>_.
          let payload = \<lparr>payloadAuthority = authority, payloadDylink = dylink, payloadExports = exports, payloadImports = imports\<rparr> in
          bindR (requireSha256 (own_prop kvs ''contractSha256'') (description @ ''.contractSha256'')) (\<lambda>contractSha256.
          bindR (fingerprintJson sha256 (JObj (contract_fields payload))) (\<lambda>expected.
          bindR (failWhen (contractSha256 \<noteq> expected) (description @ ''.contractSha256 is invalid'')) (\<lambda>_.
          Inr (contract_payload.extend payload (graph_contract.fields contractSha256))))))))
      | _ \<Rightarrow> fail (description @ '' imports and exports must be arrays'')))))"

section \<open>Ownership, layout, providers\<close>

record ownership =
  ownershipKind :: string
  ownershipTags :: "string list"

record layout =
  memoryAlign :: int
  memoryBase :: int
  memorySize :: int
  tableAlign :: int
  tableBase :: int
  tableSize :: int

record graph_provider =
  providerConsumer :: string
  providerImportIndex :: nat
  importedModule :: string
  importedName :: string
  providerName :: string
  providerExport :: "string option"
  providerTypeSha256 :: string
  providerWeak :: bool

definition normalizeModuleGraphOwnership :: "jsval \<Rightarrow> string \<Rightarrow> ownership res" where
  "normalizeModuleGraphOwnership value role =
     (let description = role @ '' module ownership'' in
      bindR (requireExactPlainObject value [''memory'', ''stackPointer'', ''table'', ''tags''] description) (\<lambda>kvs.
      bindR (moduleGraphRoleClass role) (\<lambda>roleClass.
      let expected = (if roleClass = MODULE_GRAPH_BASE_ROLE then ''defined'' else ''base'') in
      bindR (failWhen (own_prop kvs ''memory'' \<noteq> JStr expected \<or> own_prop kvs ''stackPointer'' \<noteq> JStr expected
          \<or> own_prop kvs ''table'' \<noteq> JStr expected)
        (description @ '' does not preserve base-owned memory, table, and stack pointer'')) (\<lambda>_.
      bindR (requireStringArray (own_prop kvs ''tags'') (description @ ''.tags'')) (\<lambda>tags.
      bindR (if tags = [] \<or> ''__c_longjmp'' \<notin> set tags \<or> \<not> distinct tags then Inr False
             else same_canonical (JArr (map JStr tags)) (JArr (map JStr (sort_strings tags)))) (\<lambda>ok.
      bindR (failWhen (\<not> ok) (description @ ''.tags must be a sorted unique shared tag set containing __c_longjmp'')) (\<lambda>_.
      Inr \<lparr>ownershipKind = expected, ownershipTags = tags\<rparr>)))))))"

definition normalizeModuleGraphLayout :: "jsval \<Rightarrow> string \<Rightarrow> layout res" where
  "normalizeModuleGraphLayout value role =
     (let description = role @ '' module layout'';
          field = (\<lambda>kvs name. requireNonnegativeSafeInteger (own_prop kvs name) (description @ ''.'' @ name)) in
      bindR (requireExactPlainObject value [''memoryAlign'', ''memoryBase'', ''memorySize'', ''tableAlign'', ''tableBase'', ''tableSize''] description) (\<lambda>kvs.
      bindR (field kvs ''memoryAlign'') (\<lambda>ma. bindR (field kvs ''memoryBase'') (\<lambda>mb. bindR (field kvs ''memorySize'') (\<lambda>ms.
      bindR (field kvs ''tableAlign'') (\<lambda>ta. bindR (field kvs ''tableBase'') (\<lambda>tb. bindR (field kvs ''tableSize'') (\<lambda>ts.
      bindR (failWhen (ma > 31 \<or> ta > 31) (description @ '' alignment exponents must be at most 31'')) (\<lambda>_.
      bindR (moduleGraphRoleClass role) (\<lambda>roleClass.
      bindR (failWhen (roleClass = MODULE_GRAPH_BASE_ROLE \<and> (mb \<noteq> 0 \<or> tb \<noteq> 0 \<or> ms \<noteq> 0 \<or> ts \<noteq> 0))
        ''base module layout must use zero relocation bases and side-module reservations'') (\<lambda>_.
      Inr \<lparr>memoryAlign = ma, memoryBase = mb, memorySize = ms, tableAlign = ta, tableBase = tb, tableSize = ts\<rparr>)))))))))))"

definition normalizeModuleGraphProvider :: "string \<Rightarrow> string list \<Rightarrow> nat \<Rightarrow> jsval \<Rightarrow> graph_provider res" where
  "normalizeModuleGraphProvider role roles index value =
     (let description = role @ '' module provider '' @ show_nat index in
      bindR (requireExactPlainObject value [''consumer'', ''importIndex'', ''importedModule'', ''importedName'', ''provider'',
        ''providerExport'', ''typeSha256'', ''weak''] description) (\<lambda>kvs.
      bindR (failWhen (own_prop kvs ''consumer'' \<noteq> JStr role \<or> \<not> number_equals (own_prop kvs ''importIndex'') (int index))
        (description @ '' does not preserve the exact ordered consumer import'')) (\<lambda>_.
      bindR (requireString (own_prop kvs ''provider'') (description @ ''.provider'')) (\<lambda>provider.
      bindR (failWhen (provider \<notin> set (roles @ [''host'', ''loader'', ''weak-zero''])) (description @ ''.provider is unsupported'')) (\<lambda>_.
      bindR (case own_prop kvs ''weak'' of JBool b \<Rightarrow> Inr b | _ \<Rightarrow> fail (description @ ''.weak must be a boolean'')) (\<lambda>weak.
      bindR (case own_prop kvs ''providerExport'' of JNull \<Rightarrow> Inr None | JStr s \<Rightarrow> Inr (Some s)
             | _ \<Rightarrow> fail (description @ ''.providerExport must be a string or null'')) (\<lambda>providerExport.
      bindR (requireString (own_prop kvs ''importedModule'') (description @ ''.importedModule'')) (\<lambda>importedModule.
      bindR (requireString (own_prop kvs ''importedName'') (description @ ''.importedName'')) (\<lambda>importedName.
      bindR (case providerExport of None \<Rightarrow> Inr None
             | Some s \<Rightarrow> bindR (requireString (JStr s) (description @ ''.providerExport'')) (\<lambda>x. Inr (Some x))) (\<lambda>providerExport.
      bindR (requireSha256 (own_prop kvs ''typeSha256'') (description @ ''.typeSha256'')) (\<lambda>typeSha256.
      Inr \<lparr>providerConsumer = role, providerImportIndex = index, importedModule = importedModule, importedName = importedName,
        providerName = provider, providerExport = providerExport, providerTypeSha256 = typeSha256, providerWeak = weak\<rparr>)))))))))))"

section \<open>Sources, inputs and flags\<close>

record source_provenance =
  provenancePayload :: jsval
  provenanceDigest :: string

record core_wasm_input =
  inputSha256 :: string
  inputSize :: int

record flag_identity =
  identityFlags :: "string list"
  identityKind :: string

definition normalizeModuleGraphSourceProvenance :: "(string \<Rightarrow> string) \<Rightarrow> jsval \<Rightarrow> string \<Rightarrow> source_provenance res" where
  "normalizeModuleGraphSourceProvenance sha256 value role =
     (let description = role @ '' module source provenance'' in
      bindR (requireExactPlainObject value [''kind'', ''payload'', ''sha256''] description) (\<lambda>kvs.
      bindR (failWhen (own_prop kvs ''kind'' \<noteq> JStr MODULE_GRAPH_SOURCE_PROVENANCE_KIND) (description @ ''.kind is unsupported'')) (\<lambda>_.
      bindR (normalizeJson (own_prop kvs ''payload'') (description @ ''.payload'')) (\<lambda>payload.
      bindR (requireSha256 (own_prop kvs ''sha256'') (description @ ''.sha256'')) (\<lambda>sha.
      bindR (fingerprintJson sha256 (JObj [(''kind'', JStr MODULE_GRAPH_SOURCE_PROVENANCE_KIND), (''payload'', payload)])) (\<lambda>expected.
      bindR (failWhen (sha \<noteq> expected) (description @ ''.sha256 is invalid'')) (\<lambda>_.
      Inr \<lparr>provenancePayload = payload, provenanceDigest = sha\<rparr>)))))))"

definition normalizeModuleGraphCoreWasmInput :: "jsval \<Rightarrow> string \<Rightarrow> core_wasm_input res" where
  "normalizeModuleGraphCoreWasmInput value role =
     (let description = role @ '' module Core Wasm input'' in
      bindR (requireExactPlainObject value [''sha256'', ''size''] description) (\<lambda>kvs.
      bindR (requireSha256 (own_prop kvs ''sha256'') (description @ ''.sha256'')) (\<lambda>sha.
      bindR (requirePositiveInteger (own_prop kvs ''size'') (description @ ''.size'')) (\<lambda>n.
      Inr \<lparr>inputSha256 = sha, inputSize = n\<rparr>))))"

definition normalizeModuleGraphCoreWasmInputs :: "jsval \<Rightarrow> string list \<Rightarrow> (string \<times> core_wasm_input) list res" where
  "normalizeModuleGraphCoreWasmInputs value roles =
     bindR (requireExactPlainObject value roles ''module graph Core Wasm inputs'') (\<lambda>kvs.
     mapR (\<lambda>role. bindR (normalizeModuleGraphCoreWasmInput (own_prop kvs role) role) (\<lambda>input. Inr (role, input))) roles)"

definition normalizeModuleGraphLinkIdentity :: "jsval \<Rightarrow> string \<Rightarrow> flag_identity res" where
  "normalizeModuleGraphLinkIdentity value role =
     (let description = role @ '' module link identity'' in
      bindR (requireExactPlainObject value [''flags'', ''kind''] description) (\<lambda>kvs.
      bindR (moduleGraphRoleClass role) (\<lambda>roleClass.
      let expectedKind = (if roleClass = MODULE_GRAPH_BASE_ROLE then ''main'' else ''side'') in
      bindR (failWhen (own_prop kvs ''kind'' \<noteq> JStr expectedKind) (description @ ''.kind must be '' @ expectedKind)) (\<lambda>_.
      bindR (requireStringArray (own_prop kvs ''flags'') (description @ ''.flags'')) (\<lambda>flags.
      let requiredFlag = (if roleClass = MODULE_GRAPH_BASE_ROLE then ''-sMAIN_MODULE=2'' else ''-sSIDE_MODULE=2'') in
      bindR (failWhen (requiredFlag \<notin> set flags) (description @ ''.flags must contain '' @ requiredFlag)) (\<lambda>_.
      Inr \<lparr>identityFlags = flags, identityKind = expectedKind\<rparr>))))))"

definition normalizeModuleGraphObjectCompilation :: "jsval \<Rightarrow> string \<Rightarrow> flag_identity res" where
  "normalizeModuleGraphObjectCompilation value role =
     (let description = role @ '' module object compilation'' in
      bindR (requireExactPlainObject value [''flags'', ''kind''] description) (\<lambda>kvs.
      bindR (moduleGraphRoleClass role) (\<lambda>roleClass.
      let expectedKind = (if roleClass = MODULE_GRAPH_BASE_ROLE then ''main-module-object'' else ''side-module-object'') in
      bindR (failWhen (own_prop kvs ''kind'' \<noteq> JStr expectedKind) (description @ ''.kind must be '' @ expectedKind)) (\<lambda>_.
      bindR (requireStringArray (own_prop kvs ''flags'') (description @ ''.flags'')) (\<lambda>flags.
      bindR (failWhen (roleClass \<noteq> MODULE_GRAPH_BASE_ROLE \<and> ''-fPIC'' \<notin> set flags)
        (description @ ''.flags must authenticate PIC side-module objects'')) (\<lambda>_.
      Inr \<lparr>identityFlags = flags, identityKind = expectedKind\<rparr>))))))"

section \<open>Modules\<close>

record graph_module =
  moduleContract :: graph_contract
  moduleLayout :: layout
  moduleLink :: flag_identity
  moduleObjectCompilation :: flag_identity
  moduleOwnership :: ownership
  moduleProviders :: "graph_provider list"
  moduleRole :: string
  moduleSharedShard :: "string option"
  moduleSourceProvenance :: source_provenance

definition normalizeModuleGraphModule :: "(string \<Rightarrow> string) \<Rightarrow> jsval \<Rightarrow> string \<Rightarrow> string list \<Rightarrow> string \<Rightarrow> graph_module res" where
  "normalizeModuleGraphModule sha256 value role roles engine =
     (let description = role @ '' module''; sharedShard = moduleGraphSharedShardSha256 role in
      bindR (requireExactPlainObject value ([''contract'', ''layout'', ''link'', ''objectCompilation'', ''ownership'', ''providers'', ''role'']
        @ (if sharedShard = None then [] else [''sharedShardSha256'']) @ [''sourceProvenance'']) description) (\<lambda>kvs.
      bindR (failWhen (own_prop kvs ''role'' \<noteq> JStr role) (''module graph roles must be ordered '' @ join_strings '', '' roles)) (\<lambda>_.
      bindR (failWhen (case sharedShard of None \<Rightarrow> ''sharedShardSha256'' \<in> set (map fst kvs)
            | Some shard \<Rightarrow> own_prop kvs ''sharedShardSha256'' \<noteq> JStr shard)
        (description @ '' shared shard identity does not match its content-addressed role'')) (\<lambda>_.
      bindR (normalizeModuleGraphContract sha256 (own_prop kvs ''contract'') role engine) (\<lambda>contract.
      case own_prop kvs ''providers'' of
        JArr items \<Rightarrow>
          bindR (failWhen (length items \<noteq> length (payloadImports contract))
            (description @ ''.providers must resolve every exact contract import once'')) (\<lambda>_.
          bindR (normalizeModuleGraphLayout (own_prop kvs ''layout'') role) (\<lambda>layout.
          bindR (normalizeModuleGraphLinkIdentity (own_prop kvs ''link'') role) (\<lambda>link.
          bindR (normalizeModuleGraphObjectCompilation (own_prop kvs ''objectCompilation'') role) (\<lambda>objectCompilation.
          bindR (normalizeModuleGraphOwnership (own_prop kvs ''ownership'') role) (\<lambda>ownership.
          bindR (mapiR (normalizeModuleGraphProvider role roles) 0 items) (\<lambda>providers.
          bindR (normalizeModuleGraphSourceProvenance sha256 (own_prop kvs ''sourceProvenance'') role) (\<lambda>sourceProvenance.
          Inr \<lparr>moduleContract = contract, moduleLayout = layout, moduleLink = link, moduleObjectCompilation = objectCompilation,
            moduleOwnership = ownership, moduleProviders = providers, moduleRole = role, moduleSharedShard = sharedShard,
            moduleSourceProvenance = sourceProvenance\<rparr>)))))))
      | _ \<Rightarrow> fail (description @ ''.providers must resolve every exact contract import once''))))))"

definition moduleGraphRoles :: "graph_module list \<Rightarrow> string list" where
  "moduleGraphRoles modules = map moduleRole modules"

definition moduleGraphSharedRoles :: "graph_module list \<Rightarrow> string list" where
  "moduleGraphSharedRoles modules = map moduleRole (butlast (tl modules))"

section \<open>The host interface\<close>

record host_import =
  hostModule :: string
  hostName :: string
  hostTypeSha256 :: string

record host_abi =
  hostImports :: "host_import list"
  hostSha256 :: string

definition read_host_import :: "nat \<Rightarrow> jsval \<Rightarrow> host_import res" where
  "read_host_import index value =
     (let description = element_description ''module graph host ABI.imports'' index in
      bindR (requireExactPlainObject value [''module'', ''name'', ''typeSha256''] description) (\<lambda>kvs.
      bindR (requireString (own_prop kvs ''module'') (description @ ''.module'')) (\<lambda>m.
      bindR (requireString (own_prop kvs ''name'') (description @ ''.name'')) (\<lambda>n.
      bindR (requireSha256 (own_prop kvs ''typeSha256'') (description @ ''.typeSha256'')) (\<lambda>t.
      Inr \<lparr>hostModule = m, hostName = n, hostTypeSha256 = t\<rparr>)))))"

definition compareHostImports :: "host_import \<Rightarrow> host_import \<Rightarrow> int" where
  "compareHostImports left right =
     (let moduleOrder = compareStrings (hostModule left) (hostModule right) in
      if moduleOrder = 0 then compareStrings (hostName left) (hostName right) else moduleOrder)"

definition host_key :: "host_import \<Rightarrow> string" where
  "host_key h = hostModule h @ [CHR 0x00] @ hostName h"

definition host_import_json :: "host_import \<Rightarrow> jsval" where
  "host_import_json h = JObj [(''module'', JStr (hostModule h)), (''name'', JStr (hostName h)), (''typeSha256'', JStr (hostTypeSha256 h))]"

definition normalizeModuleGraphHostAbi :: "(string \<Rightarrow> string) \<Rightarrow> jsval \<Rightarrow> host_abi res" where
  "normalizeModuleGraphHostAbi sha256 value =
     (let description = ''module graph host ABI'' in
      bindR (requireExactPlainObject value [''imports'', ''kind'', ''sha256''] description) (\<lambda>kvs.
      bindR (failWhen (own_prop kvs ''kind'' \<noteq> JStr ''convex-wasm-module-graph-host-abi-v1'') (description @ ''.kind is unsupported'')) (\<lambda>_.
      case own_prop kvs ''imports'' of
        JArr items \<Rightarrow>
          bindR (mapiR read_host_import 0 items) (\<lambda>unsorted.
          let imports = js_sort compareHostImports unsorted in
          bindR (failWhen (\<not> distinct (map host_key imports)) (description @ ''.imports contain duplicate module/name pairs'')) (\<lambda>_.
          bindR (requireSha256 (own_prop kvs ''sha256'') (description @ ''.sha256'')) (\<lambda>sha.
          bindR (fingerprintJson sha256 (JObj [(''imports'', JArr (map host_import_json imports)),
              (''kind'', JStr ''convex-wasm-module-graph-host-abi-v1'')])) (\<lambda>expected.
          bindR (failWhen (sha \<noteq> expected) (description @ ''.sha256 is invalid'')) (\<lambda>_.
          Inr \<lparr>hostImports = imports, hostSha256 = sha\<rparr>)))))
      | _ \<Rightarrow> fail (description @ ''.imports must be an array''))))"

section \<open>Bindings\<close>

text \<open>\<open>new Map(entries)\<close>: the last value for a key counts.\<close>

definition role_index :: "graph_module list \<Rightarrow> string \<Rightarrow> nat option" where
  "role_index modules = map_of (rev (zip (moduleGraphRoles modules) [0..<length modules]))"

definition exports_by_role :: "graph_module list \<Rightarrow> string \<Rightarrow> (string \<Rightarrow> external_item option) option" where
  "exports_by_role modules = map_of (rev (map (\<lambda>m. (moduleRole m,
     map_of (rev (map (\<lambda>e. (externalName e, e)) (payloadExports (moduleContract m)))))) modules))"

definition validate_host_binding :: "host_abi \<Rightarrow> graph_module \<Rightarrow> nat \<Rightarrow> external_item \<Rightarrow> graph_provider \<Rightarrow> unit res" where
  "validate_host_binding hostAbi module index imported resolution =
     bindR (failWhen (moduleRole module \<noteq> MODULE_GRAPH_BASE_ROLE \<or> providerExport resolution \<noteq> None \<or> providerWeak resolution)
       ''only base-module imports may bind the bounded host ABI'') (\<lambda>_.
     failWhen (case find (\<lambda>h. Some (hostModule h) = externalModule imported \<and> hostName h = externalName imported) (hostImports hostAbi) of
         None \<Rightarrow> True | Some allowed \<Rightarrow> hostTypeSha256 allowed \<noteq> typeSha256 (externalType imported))
       (''base module provider '' @ show_nat index @ '' is outside the authenticated closed host ABI''))"

definition validate_loader_binding :: "graph_module \<Rightarrow> nat \<Rightarrow> external_item \<Rightarrow> graph_provider \<Rightarrow> unit res" where
  "validate_loader_binding module index imported resolution =
     failWhen (moduleRole module = MODULE_GRAPH_BASE_ROLE \<or> externalModule imported \<noteq> Some ''env''
         \<or> externalName imported \<notin> {''__memory_base'', ''__table_base''}
         \<or> typeCanonical (externalType imported) \<noteq> ''global(i32,const)'' \<or> providerExport resolution \<noteq> None \<or> providerWeak resolution)
       (moduleRole module @ '' module provider '' @ show_nat index @ '' has an invalid relocation-base binding'')"

definition validate_weak_binding :: "graph_module \<Rightarrow> nat \<Rightarrow> external_item \<Rightarrow> graph_provider \<Rightarrow> unit res" where
  "validate_weak_binding module index imported resolution =
     (let declaredWeak = list_ex (\<lambda>w. Some (weakModule w) = externalModule imported \<and> weakName w = externalName imported)
            (dylinkWeakImports (payloadDylink (moduleContract module))) in
      failWhen (moduleRole module = MODULE_GRAPH_BASE_ROLE \<or> providerExport resolution \<noteq> None \<or> \<not> providerWeak resolution
          \<or> externalModule imported \<notin> {Some ''GOT.func'', Some ''GOT.mem''}
          \<or> typeCanonical (externalType imported) \<noteq> ''global(i32,var)'' \<or> \<not> declaredWeak)
        (moduleRole module @ '' module provider '' @ show_nat index @ '' has an unsupported weak-zero binding''))"

text \<open>Which exports may satisfy an import of a module.\<close>

definition binding_matches :: "string \<Rightarrow> external_item \<Rightarrow> external_item \<Rightarrow> bool" where
  "binding_matches provider imported exported \<longleftrightarrow>
     typeSha256 (externalType exported) = typeSha256 (externalType imported)
   \<or> externalModule imported = Some ''GOT.func'' \<and> typeCanonical (externalType imported) = ''global(i32,var)''
       \<and> typeKind (externalType exported) = ''func''
   \<or> externalModule imported = Some ''GOT.mem'' \<and> typeCanonical (externalType imported) = ''global(i32,var)''
       \<and> typeKind (externalType exported) = ''global''
       \<and> take (length ''global(i32,'') (typeCanonical (externalType exported)) = ''global(i32,''
   \<or> provider = ''base'' \<and> externalModule imported = Some ''env'' \<and> externalName imported \<in> {''memory'', ''__indirect_function_table''}
       \<and> typeKind (externalType exported) = typeKind (externalType imported)"

definition validate_module_binding :: "graph_module list \<Rightarrow> graph_module \<Rightarrow> nat \<Rightarrow> external_item \<Rightarrow> graph_provider \<Rightarrow> unit res" where
  "validate_module_binding modules module index imported resolution =
     (let label = moduleRole module @ '' module provider '' @ show_nat index;
          consumerIndex = role_index modules (moduleRole module); providerIndex = role_index modules (providerName resolution);
          selfGot = (providerIndex = consumerIndex \<and> externalModule imported \<in> {Some ''GOT.func'', Some ''GOT.mem''}) in
      bindR (failWhen (case (providerIndex, consumerIndex) of
            (Some p, Some c) \<Rightarrow> c < p \<or> p = c \<and> \<not> selfGot | (p, c) \<Rightarrow> p = c \<and> \<not> selfGot)
        (label @ '' creates a later-module dependency'')) (\<lambda>_.
      case providerExport resolution of
        None \<Rightarrow> fail (label @ '' has an invalid exact provider binding'')
      | Some name \<Rightarrow>
          bindR (failWhen (providerWeak resolution) (label @ '' has an invalid exact provider binding'')) (\<lambda>_.
          case exports_by_role modules (providerName resolution) of
            None \<Rightarrow> Inl (TypeError ''get'')
          | Some exported \<Rightarrow>
              failWhen (case exported name of None \<Rightarrow> True | Some e \<Rightarrow> \<not> binding_matches (providerName resolution) imported e)
                (label @ '' does not match its provider export type''))))"

definition validate_binding :: "graph_module list \<Rightarrow> host_abi \<Rightarrow> graph_module \<Rightarrow> nat \<Rightarrow> graph_provider \<Rightarrow> unit res" where
  "validate_binding modules hostAbi module index resolution =
     (if length (payloadImports (moduleContract module)) \<le> index then Inl (TypeError ''module'')
      else let imported = payloadImports (moduleContract module) ! index in
        bindR (failWhen (Some (importedModule resolution) \<noteq> externalModule imported \<or> importedName resolution \<noteq> externalName imported
            \<or> providerTypeSha256 resolution \<noteq> typeSha256 (externalType imported))
          (moduleRole module @ '' module provider '' @ show_nat index @ '' disagrees with its exact import contract'')) (\<lambda>_.
        if providerName resolution = ''host'' then validate_host_binding hostAbi module index imported resolution
        else if providerName resolution = ''loader'' then validate_loader_binding module index imported resolution
        else if providerName resolution = ''weak-zero'' then validate_weak_binding module index imported resolution
        else validate_module_binding modules module index imported resolution))"

definition validateModuleGraphProviders :: "graph_module list \<Rightarrow> host_abi \<Rightarrow> unit res" where
  "validateModuleGraphProviders modules hostAbi =
     bindR (mapR (\<lambda>module. mapiR (validate_binding modules hostAbi module) 0 (moduleProviders module)) modules) (\<lambda>_. Inr ())"

end
