(* ===== verification/ModuleGraphCorrect.thy ===== *)
theory ModuleGraphCorrect
  imports ModuleGraph
begin

text \<open>
  What the module graph checks guarantee: the accepted role sequences, the accepted bindings, and an
  instantiation order in which every module only imports from earlier ones.
\<close>

section \<open>Role sequences\<close>

definition role_of :: "jsval \<Rightarrow> string option" where
  "role_of module = (case module of JObj kvs \<Rightarrow> (case own_prop kvs ''role'' of JStr s \<Rightarrow> Some s | _ \<Rightarrow> None) | _ \<Rightarrow> None)"

lemma shared_prefix: "CHR 0x00 \<notin> set ''shared-''" "hd ''shared-'' = CHR ''s''"
  by simp_all

lemma shared_role_string:
  assumes "moduleGraphSharedShardSha256 r \<noteq> None" shows "r \<noteq> [] \<and> CHR 0x00 \<notin> set r \<and> hd r = CHR ''s''"
proof -
  have n: "length ''shared-'' = 7" by simp
  have r: "take 7 r = ''shared-''" "SHA256_PATTERN (drop 7 r)"
    using assms unfolding moduleGraphSharedShardSha256_def MODULE_GRAPH_SHARED_ROLE_PREFIX_def Let_def n by (auto split: if_splits)
  have "CHR 0x00 \<notin> set (drop 7 r)" using r(2) hex_not_nul by (auto simp: SHA256_PATTERN_def list_all_iff)
  moreover have "r = ''shared-'' @ drop 7 r" using r(1) by (metis append_take_drop_id)
  ultimately show ?thesis by (metis (no_types, lifting) Un_iff append_is_Nil_conv hd_append2 list.distinct(1) list.sel(1) set_append shared_prefix)
qed

lemma read_role_iff: "read_role d i m = Inr r \<longleftrightarrow> role_of m = Some r \<and> r \<noteq> [] \<and> CHR 0x00 \<notin> set r"
  by (cases m) (auto simp: read_role_def role_of_def bindR_Inr_iff split: jsval.splits)

lemma read_roles_iff:
  "mapiR (read_role d) n ms = Inr roles \<longleftrightarrow> map role_of ms = map Some roles \<and> list_all (\<lambda>r. r \<noteq> [] \<and> CHR 0x00 \<notin> set r) roles"
proof (induction ms arbitrary: n roles)
  case (Cons m ms)
  then show ?case by (cases roles) (auto simp: bindR_Inr_iff read_role_iff)
qed auto

lemma sequence_shape:
  "2 \<le> length roles \<and> hd roles = b \<and> last roles = l \<longleftrightarrow> (\<exists>shared. roles = b # shared @ [l])"
proof
  assume a: "2 \<le> length roles \<and> hd roles = b \<and> last roles = l"
  then obtain rest where "roles = b # rest" "rest \<noteq> []" by (cases roles) (auto simp: Suc_le_eq)
  then show "\<exists>shared. roles = b # shared @ [l]" using a by (metis append_butlast_last_id last_ConsR)
qed auto

lemma role_sequence:
  "normalizeModuleGraphRoleSequence raw d = Inr roles \<longleftrightarrow>
    (\<exists>ms shared. raw = JArr ms \<and> map role_of ms = map Some roles \<and> roles = ''base'' # shared @ [''leaf''] \<and> distinct shared
       \<and> (shared = [''common''] \<or> list_all (\<lambda>r. moduleGraphSharedShardSha256 r \<noteq> None) shared))" (is "?lhs \<longleftrightarrow> ?rhs")
proof -
  have role_names: "MODULE_GRAPH_BASE_ROLE = ''base''" "MODULE_GRAPH_LEAF_ROLE = ''leaf''" "MODULE_GRAPH_LEGACY_SHARED_ROLE = ''common''"
    by (simp_all add: MODULE_GRAPH_BASE_ROLE_def MODULE_GRAPH_LEAF_ROLE_def MODULE_GRAPH_LEGACY_SHARED_ROLE_def)
  have not_shared: "moduleGraphSharedShardSha256 r = None" if "r \<in> {''base'', ''leaf'', ''common''}" for r
    using shared_role_string[of r] that by (cases "moduleGraphSharedShardSha256 r") auto
  have "?lhs \<longleftrightarrow> (\<exists>ms. raw = JArr ms \<and> 2 \<le> length ms \<and> map role_of ms = map Some roles
      \<and> list_all (\<lambda>r. r \<noteq> [] \<and> CHR 0x00 \<notin> set r) roles
      \<and> hd roles = ''base'' \<and> last roles = ''leaf'' \<and> list_all isModuleGraphSharedRole (butlast (tl roles)) \<and> distinct roles
      \<and> (''common'' \<in> set roles \<longrightarrow> length roles = 3 \<and> roles ! 1 = ''common''))"
    by (cases raw) (auto simp: normalizeModuleGraphRoleSequence_def role_names bindR_Inr_iff read_roles_iff list_ex_iff list_all_iff not_less)
  also have "\<dots> \<longleftrightarrow> ?rhs"
  proof (intro ex_cong1 iffI)
    fix ms
    assume a: "raw = JArr ms \<and> 2 \<le> length ms \<and> map role_of ms = map Some roles
      \<and> list_all (\<lambda>r. r \<noteq> [] \<and> CHR 0x00 \<notin> set r) roles
      \<and> hd roles = ''base'' \<and> last roles = ''leaf'' \<and> list_all isModuleGraphSharedRole (butlast (tl roles)) \<and> distinct roles
      \<and> (''common'' \<in> set roles \<longrightarrow> length roles = 3 \<and> roles ! 1 = ''common'')"
    then have len: "2 \<le> length roles" by (metis length_map)
    obtain shared where shared: "roles = ''base'' # shared @ [''leaf'']" using a len sequence_shape[of roles "''base''" "''leaf''"] by auto
    have sharing: "list_all isModuleGraphSharedRole shared" "distinct shared" using a shared by auto
    have "shared = [''common''] \<or> list_all (\<lambda>r. moduleGraphSharedShardSha256 r \<noteq> None) shared"
    proof (cases "''common'' \<in> set shared")
      case True
      then have "length roles = 3" "roles ! 1 = ''common''" using a shared by auto
      then show ?thesis using shared by (cases shared) auto
    next
      case False
      then show ?thesis using sharing(1) by (auto simp: list_all_iff isModuleGraphSharedRole_def role_names)
    qed
    then show "\<exists>shared. raw = JArr ms \<and> map role_of ms = map Some roles \<and> roles = ''base'' # shared @ [''leaf''] \<and> distinct shared
       \<and> (shared = [''common''] \<or> list_all (\<lambda>r. moduleGraphSharedShardSha256 r \<noteq> None) shared)" using a shared sharing by blast
  next
    fix ms
    assume "\<exists>shared. raw = JArr ms \<and> map role_of ms = map Some roles \<and> roles = ''base'' # shared @ [''leaf''] \<and> distinct shared
       \<and> (shared = [''common''] \<or> list_all (\<lambda>r. moduleGraphSharedShardSha256 r \<noteq> None) shared)"
    then obtain shared where s: "raw = JArr ms" "map role_of ms = map Some roles" "roles = ''base'' # shared @ [''leaf'']" "distinct shared"
      "shared = [''common''] \<or> list_all (\<lambda>r. moduleGraphSharedShardSha256 r \<noteq> None) shared" by blast
    have each: "isModuleGraphSharedRole r \<and> r \<noteq> ''base'' \<and> r \<noteq> ''leaf'' \<and> r \<noteq> [] \<and> CHR 0x00 \<notin> set r" if "r \<in> set shared" for r
      using s(5) that shared_role_string[of r] not_shared[of r] by (auto simp: isModuleGraphSharedRole_def role_names list_all_iff)
    have common: "''common'' \<in> set shared \<Longrightarrow> shared = [''common'']" using s(5) not_shared[of "''common''"] by (auto simp: list_all_iff)
    have "length ms = length roles" using s(2) by (metis length_map)
    then show "raw = JArr ms \<and> 2 \<le> length ms \<and> map role_of ms = map Some roles
      \<and> list_all (\<lambda>r. r \<noteq> [] \<and> CHR 0x00 \<notin> set r) roles
      \<and> hd roles = ''base'' \<and> last roles = ''leaf'' \<and> list_all isModuleGraphSharedRole (butlast (tl roles)) \<and> distinct roles
      \<and> (''common'' \<in> set roles \<longrightarrow> length roles = 3 \<and> roles ! 1 = ''common'')"
      using s each common by (auto simp: list_all_iff)
  qed
  finally show ?thesis .
qed

text \<open>C27: A role sequence is accepted exactly when it is base, then either the legacy common module alone or
  distinct content-addressed shared modules, then leaf.\<close>

theorem role_sequence_exact:
  "normalizeModuleGraphRoleSequence raw d = Inr roles \<longleftrightarrow>
    (\<exists>ms shared. raw = JArr ms \<and> map role_of ms = map Some roles \<and> roles = ''base'' # shared @ [''leaf''] \<and> distinct shared
       \<and> (shared = [''common''] \<or> list_all (\<lambda>r. moduleGraphSharedShardSha256 r \<noteq> None) shared))"
  by (rule role_sequence)

section \<open>Bindings\<close>

text \<open>
  The specification has two parts, neither of which uses the checks of the code: what a provider entry
  designates, and which designated targets can stand for an import of the module at position \<open>i\<close>.
\<close>

datatype link_target = HostImport host_import | RelocationBase | NullAddress | ModuleExport nat external_item

inductive designates :: "graph_module list \<Rightarrow> host_abi \<Rightarrow> graph_provider \<Rightarrow> link_target \<Rightarrow> bool" for modules abi r where
  host: "providerName r = ''host'' \<Longrightarrow> providerExport r = None \<Longrightarrow> \<not> providerWeak r \<Longrightarrow> h \<in> set (hostImports abi)
    \<Longrightarrow> designates modules abi r (HostImport h)"
| loader: "providerName r = ''loader'' \<Longrightarrow> providerExport r = None \<Longrightarrow> \<not> providerWeak r \<Longrightarrow> designates modules abi r RelocationBase"
| weak_zero: "providerName r = ''weak-zero'' \<Longrightarrow> providerExport r = None \<Longrightarrow> providerWeak r \<Longrightarrow> designates modules abi r NullAddress"
| module: "providerName r \<notin> {''host'', ''loader'', ''weak-zero''} \<Longrightarrow> j < length modules \<Longrightarrow> moduleRole (modules ! j) = providerName r
    \<Longrightarrow> e \<in> set (payloadExports (moduleContract (modules ! j))) \<Longrightarrow> providerExport r = Some (externalName e) \<Longrightarrow> \<not> providerWeak r
    \<Longrightarrow> designates modules abi r (ModuleExport j e)"

text \<open>An import of the global offset table is a mutable global that the loader fills with an address.\<close>

definition got_import :: "external_item \<Rightarrow> bool" where
  "got_import imp \<longleftrightarrow> externalModule imp \<in> {Some ''GOT.func'', Some ''GOT.mem''}"

abbreviation address_cell :: "external_item \<Rightarrow> bool" where
  "address_cell imp \<equiv> typeCanonical (externalType imp) = ''global(i32,var)''"

inductive satisfies :: "graph_module list \<Rightarrow> nat \<Rightarrow> external_item \<Rightarrow> link_target \<Rightarrow> bool" for modules i imp where
  host_import: "moduleRole (modules ! i) = ''base'' \<Longrightarrow> externalModule imp = Some (hostModule h) \<Longrightarrow> externalName imp = hostName h
    \<Longrightarrow> typeSha256 (externalType imp) = hostTypeSha256 h \<Longrightarrow> satisfies modules i imp (HostImport h)"
| relocation_base: "moduleRole (modules ! i) \<noteq> ''base'' \<Longrightarrow> externalModule imp = Some ''env''
    \<Longrightarrow> externalName imp \<in> {''__memory_base'', ''__table_base''} \<Longrightarrow> typeCanonical (externalType imp) = ''global(i32,const)''
    \<Longrightarrow> satisfies modules i imp RelocationBase"
| null_address: "moduleRole (modules ! i) \<noteq> ''base'' \<Longrightarrow> got_import imp \<Longrightarrow> address_cell imp \<Longrightarrow> externalModule imp = Some m
    \<Longrightarrow> \<lparr>weakModule = m, weakName = externalName imp\<rparr> \<in> set (dylinkWeakImports (payloadDylink (moduleContract (modules ! i))))
    \<Longrightarrow> satisfies modules i imp NullAddress"
| same_type: "j < i \<Longrightarrow> typeSha256 (externalType e) = typeSha256 (externalType imp) \<Longrightarrow> satisfies modules i imp (ModuleExport j e)"
| same_type_self: "got_import imp \<Longrightarrow> typeSha256 (externalType e) = typeSha256 (externalType imp) \<Longrightarrow> satisfies modules i imp (ModuleExport i e)"
| function_address: "j \<le> i \<Longrightarrow> externalModule imp = Some ''GOT.func'' \<Longrightarrow> address_cell imp \<Longrightarrow> typeKind (externalType e) = ''func''
    \<Longrightarrow> satisfies modules i imp (ModuleExport j e)"
| data_address: "j \<le> i \<Longrightarrow> externalModule imp = Some ''GOT.mem'' \<Longrightarrow> address_cell imp \<Longrightarrow> typeKind (externalType e) = ''global''
    \<Longrightarrow> typeCanonical (externalType e) = ''global(i32,'' @ mutability \<Longrightarrow> satisfies modules i imp (ModuleExport j e)"
| base_resource: "j < i \<Longrightarrow> moduleRole (modules ! j) = ''base'' \<Longrightarrow> externalModule imp = Some ''env''
    \<Longrightarrow> externalName imp \<in> {''memory'', ''__indirect_function_table''} \<Longrightarrow> typeKind (externalType e) = typeKind (externalType imp)
    \<Longrightarrow> satisfies modules i imp (ModuleExport j e)"

inductive_simps designates_iff: "designates modules abi r t"
inductive_simps satisfies_host: "satisfies modules i imp (HostImport h)"
inductive_simps satisfies_base: "satisfies modules i imp RelocationBase"
inductive_simps satisfies_null: "satisfies modules i imp NullAddress"
inductive_simps satisfies_export: "satisfies modules i imp (ModuleExport j e)"

definition bound :: "graph_module list \<Rightarrow> host_abi \<Rightarrow> nat \<Rightarrow> external_item \<Rightarrow> graph_provider \<Rightarrow> bool" where
  "bound modules abi i imp r \<longleftrightarrow> (\<exists>t. designates modules abi r t \<and> satisfies modules i imp t)"

text \<open>What normalization has established for the host interface: one entry for each import.\<close>

definition abi_ok :: "host_abi \<Rightarrow> bool" where
  "abi_ok abi \<longleftrightarrow> distinct (map (\<lambda>h. (hostModule h, hostName h)) (hostImports abi))"

lemma normalized_abi_ok:
  assumes "normalizeModuleGraphHostAbi sha256 value = Inr abi"
  shows "abi_ok abi"
proof -
  have "distinct (map host_key (hostImports abi))"
    using assms unfolding normalizeModuleGraphHostAbi_def Let_def
    apply (simp only: bindR_Inr_iff)
    apply (elim exE conjE)
    subgoal for kvs
      by (cases "own_prop kvs ''imports''")
        (auto simp only: bindR_Inr_iff failWhen_def jsval.case, auto split: if_split_asm simp del: js_sort.simps)
    done
  then have "distinct (map (\<lambda>(m, n). m @ [CHR 0x00] @ n) (map (\<lambda>h. (hostModule h, hostName h)) (hostImports abi)))"
    by (simp add: host_key_def[abs_def] comp_def)
  then show ?thesis unfolding abi_ok_def by (rule distinct_map[THEN iffD1, THEN conjunct1])
qed

text \<open>What normalization has established for every module.\<close>

definition graph_ok :: "graph_module list \<Rightarrow> bool" where
  "graph_ok modules \<longleftrightarrow> distinct (map moduleRole modules)
     \<and> list_all (\<lambda>m. distinct (map externalName (payloadExports (moduleContract m)))
          \<and> length (moduleProviders m) = length (payloadImports (moduleContract m))
          \<and> list_all (\<lambda>e. externalModule e \<noteq> None) (payloadImports (moduleContract m))) modules"

lemma map_of_rev_distinct: "distinct (map fst xs) \<Longrightarrow> map_of (rev xs) = map_of xs"
  by (rule map_of_mset_cong) (simp_all add: rev_map[symmetric])

lemma role_index_nth:
  assumes "distinct (map moduleRole modules)" "i < length modules"
  shows "role_index modules (moduleRole (modules ! i)) = Some i"
proof -
  have d: "distinct (map fst (zip (map moduleRole modules) [0..<length modules]))" using assms(1) by simp
  have "(moduleRole (modules ! i), i) \<in> set (zip (map moduleRole modules) [0..<length modules])"
    using assms(2) by (auto simp: set_zip intro!: exI[of _ i])
  then show ?thesis using d unfolding role_index_def moduleGraphRoles_def by (subst map_of_rev_distinct) (simp_all add: map_of_is_SomeI)
qed

lemma role_index_Some: "role_index modules r = Some j \<Longrightarrow> j < length modules \<and> moduleRole (modules ! j) = r"
  unfolding role_index_def moduleGraphRoles_def by (drule map_of_SomeD) (auto simp: set_zip)

lemma role_index_None: "role_index modules r = None \<longleftrightarrow> r \<notin> set (map moduleRole modules)"
  by (simp add: role_index_def moduleGraphRoles_def map_of_eq_None_iff flip: set_map)

lemma exports_at:
  assumes "graph_ok modules" "j < length modules"
  shows "exports_by_role modules (moduleRole (modules ! j)) =
    Some (map_of (rev (map (\<lambda>e. (externalName e, e)) (payloadExports (moduleContract (modules ! j))))))"
proof -
  let ?f = "\<lambda>m. map_of (rev (map (\<lambda>e. (externalName e, e)) (payloadExports (moduleContract m))))"
  have "distinct (map fst (map (\<lambda>m. (moduleRole m, ?f m)) modules))" using assms(1) by (simp add: graph_ok_def comp_def)
  moreover have "(moduleRole (modules ! j), ?f (modules ! j)) \<in> set (map (\<lambda>m. (moduleRole m, ?f m)) modules)" using assms(2) by auto
  ultimately show ?thesis unfolding exports_by_role_def by (subst map_of_rev_distinct) (simp_all add: map_of_is_SomeI)
qed

lemma exported_name:
  assumes "distinct (map externalName es)"
  shows "map_of (rev (map (\<lambda>e. (externalName e, e)) es)) name = Some e \<longleftrightarrow> e \<in> set es \<and> externalName e = name"
proof -
  have d: "distinct (map fst (map (\<lambda>e. (externalName e, e)) es))" using assms by (simp add: comp_def)
  have "map_of (map (\<lambda>e. (externalName e, e)) es) name = Some e \<longleftrightarrow> e \<in> set es \<and> externalName e = name"
    using map_of_eq_Some_iff[OF d, of name e] by auto
  then show ?thesis using d by (simp add: map_of_rev_distinct)
qed

lemma module_binding_iff:
  assumes "graph_ok modules" "i < length modules"
  shows "validate_module_binding modules (modules ! i) k imp r = Inr () \<longleftrightarrow>
    (\<exists>j name e. j < length modules \<and> moduleRole (modules ! j) = providerName r \<and> (j < i \<or> j = i \<and> got_import imp)
      \<and> providerExport r = Some name \<and> \<not> providerWeak r \<and> e \<in> set (payloadExports (moduleContract (modules ! j)))
      \<and> externalName e = name \<and> binding_matches (providerName r) imp e)"
proof (cases "role_index modules (providerName r)")
  case None
  then have none: "providerName r \<noteq> moduleRole (modules ! j)" if "j < length modules" for j
    using that by (auto simp: role_index_None)
  have "exports_by_role modules (providerName r) = None"
    using None by (auto simp: role_index_None exports_by_role_def map_of_eq_None_iff)
  then have "validate_module_binding modules (modules ! i) k imp r \<noteq> Inr ()"
    by (cases "providerExport r") (auto simp: validate_module_binding_def Let_def bindR_Inr_iff)
  then show ?thesis using none by metis
next
  case (Some j)
  have j: "j < length modules" "moduleRole (modules ! j) = providerName r" using role_index_Some[OF Some] by simp_all
  have d: "distinct (map moduleRole modules)" using assms(1) by (simp add: graph_ok_def)
  have only: "l = j" if "l < length modules" "moduleRole (modules ! l) = providerName r" for l
    using role_index_nth[OF d that(1)] that(2) Some by simp
  have names: "distinct (map externalName (payloadExports (moduleContract (modules ! j))))"
    using assms(1) j(1) by (auto simp: graph_ok_def list_all_length)
  have "validate_module_binding modules (modules ! i) k imp r = Inr () \<longleftrightarrow>
      (j < i \<or> j = i \<and> got_import imp) \<and> (\<exists>name. providerExport r = Some name \<and> \<not> providerWeak r
        \<and> (\<exists>e. map_of (rev (map (\<lambda>e. (externalName e, e)) (payloadExports (moduleContract (modules ! j))))) name = Some e
            \<and> binding_matches (providerName r) imp e))"
    using role_index_nth[OF d assms(2)] Some exports_at[OF assms(1) j(1)] unfolding j(2)
    by (auto simp: validate_module_binding_def Let_def bindR_Inr_iff got_import_def split: option.splits)
  then show ?thesis unfolding exported_name[OF names] using j only by blast
qed

lemma base_role: "MODULE_GRAPH_BASE_ROLE = ''base''"
  by (simp add: MODULE_GRAPH_BASE_ROLE_def)

lemma find_host:
  assumes "abi_ok abi"
  shows "find (\<lambda>h. Some (hostModule h) = m \<and> hostName h = n) (hostImports abi) = Some h
    \<longleftrightarrow> h \<in> set (hostImports abi) \<and> m = Some (hostModule h) \<and> n = hostName h"
proof -
  have "distinct (map (\<lambda>h. (hostModule h, hostName h)) hs) \<Longrightarrow> find (\<lambda>h. Some (hostModule h) = m \<and> hostName h = n) hs = Some h
      \<longleftrightarrow> h \<in> set hs \<and> m = Some (hostModule h) \<and> n = hostName h" for hs
    by (induction hs) (auto simp: image_iff)
  then show ?thesis using assms unfolding abi_ok_def by blast
qed

lemma host_binding_iff:
  assumes "abi_ok abi"
  shows "validate_host_binding abi (modules ! i) k imp r = Inr () \<longleftrightarrow> providerExport r = None \<and> \<not> providerWeak r
     \<and> (\<exists>h \<in> set (hostImports abi). satisfies modules i imp (HostImport h))"
proof (cases "find (\<lambda>h. Some (hostModule h) = externalModule imp \<and> hostName h = externalName imp) (hostImports abi)")
  case None
  then have "\<not> satisfies modules i imp (HostImport h)" if "h \<in> set (hostImports abi)" for h
    using that find_host[OF assms, of "externalModule imp" "externalName imp" h] by (auto simp: satisfies_host)
  then show ?thesis using None by (auto simp: validate_host_binding_def bindR_Inr_iff)
next
  case (Some h)
  then have h: "h \<in> set (hostImports abi)" "externalModule imp = Some (hostModule h)" "externalName imp = hostName h"
    using find_host[OF assms] by metis+
  have "l = h" if "l \<in> set (hostImports abi)" "satisfies modules i imp (HostImport l)" for l
  proof -
    have "find (\<lambda>h. Some (hostModule h) = externalModule imp \<and> hostName h = externalName imp) (hostImports abi) = Some l"
      using that unfolding find_host[OF assms] by (simp add: satisfies_host)
    then show ?thesis using Some by simp
  qed
  then have "(\<exists>l \<in> set (hostImports abi). satisfies modules i imp (HostImport l)) \<longleftrightarrow> satisfies modules i imp (HostImport h)" using h(1) by blast
  then show ?thesis using Some h(2,3) by (auto simp: validate_host_binding_def bindR_Inr_iff base_role satisfies_host)
qed

lemma loader_binding_iff:
  "validate_loader_binding (modules ! i) k imp r = Inr () \<longleftrightarrow> providerExport r = None \<and> \<not> providerWeak r \<and> satisfies modules i imp RelocationBase"
  unfolding satisfies_base by (auto simp: validate_loader_binding_def base_role)

lemma weak_binding_iff:
  "validate_weak_binding (modules ! i) k imp r = Inr () \<longleftrightarrow> providerExport r = None \<and> providerWeak r \<and> satisfies modules i imp NullAddress"
proof -
  have "(\<exists>w \<in> set ws. Some (weakModule w) = externalModule imp \<and> weakName w = externalName imp)
      \<longleftrightarrow> (\<exists>m. externalModule imp = Some m \<and> \<lparr>weakModule = m, weakName = externalName imp\<rparr> \<in> set ws)" for ws
  proof
    assume "\<exists>w \<in> set ws. Some (weakModule w) = externalModule imp \<and> weakName w = externalName imp"
    then obtain w where w: "w \<in> set ws" "Some (weakModule w) = externalModule imp" "weakName w = externalName imp" by blast
    then have "w = \<lparr>weakModule = weakModule w, weakName = externalName imp\<rparr>" by simp
    then show "\<exists>m. externalModule imp = Some m \<and> \<lparr>weakModule = m, weakName = externalName imp\<rparr> \<in> set ws" using w by metis
  qed force
  then show ?thesis unfolding satisfies_null
    by (auto simp: validate_weak_binding_def base_role list_ex_iff got_import_def Let_def)
qed

text \<open>The types that the code compares are those of the specification.\<close>

lemma export_fits:
  "satisfies modules i imp (ModuleExport j e) \<longleftrightarrow> (j < i \<or> j = i \<and> got_import imp) \<and> binding_matches (moduleRole (modules ! j)) imp e"
proof -
  have prefix: "take (length p) t = p \<longleftrightarrow> (\<exists>rest. t = p @ rest)" for p t :: string
    by (metis append_eq_conv_conj append_take_drop_id)
  have "typeCanonical (externalType e) = ''global(i32,'' @ mutability \<Longrightarrow> take (length ''global(i32,'') (typeCanonical (externalType e)) = ''global(i32,''" for mutability
    by simp
  then show ?thesis unfolding satisfies_export binding_matches_def prefix got_import_def by (auto simp: le_less)
qed

lemma bound_iff:
  "bound modules abi i imp r \<longleftrightarrow>
    (if providerName r = ''host'' then providerExport r = None \<and> \<not> providerWeak r \<and> (\<exists>h \<in> set (hostImports abi). satisfies modules i imp (HostImport h))
     else if providerName r = ''loader'' then providerExport r = None \<and> \<not> providerWeak r \<and> satisfies modules i imp RelocationBase
     else if providerName r = ''weak-zero'' then providerExport r = None \<and> providerWeak r \<and> satisfies modules i imp NullAddress
     else (\<exists>j name e. j < length modules \<and> moduleRole (modules ! j) = providerName r \<and> (j < i \<or> j = i \<and> got_import imp)
      \<and> providerExport r = Some name \<and> \<not> providerWeak r \<and> e \<in> set (payloadExports (moduleContract (modules ! j)))
      \<and> externalName e = name \<and> binding_matches (providerName r) imp e))"
proof -
  have "(\<exists>j e. j < length modules \<and> moduleRole (modules ! j) = providerName r \<and> e \<in> set (payloadExports (moduleContract (modules ! j)))
        \<and> providerExport r = Some (externalName e) \<and> \<not> providerWeak r \<and> satisfies modules i imp (ModuleExport j e))
      \<longleftrightarrow> (\<exists>j name e. j < length modules \<and> moduleRole (modules ! j) = providerName r \<and> (j < i \<or> j = i \<and> got_import imp)
        \<and> providerExport r = Some name \<and> \<not> providerWeak r \<and> e \<in> set (payloadExports (moduleContract (modules ! j)))
        \<and> externalName e = name \<and> binding_matches (providerName r) imp e)"
  proof (intro iffI; elim exE conjE)
    fix j name e
    assume "j < length modules" "moduleRole (modules ! j) = providerName r" "j < i \<or> j = i \<and> got_import imp" "providerExport r = Some name"
      "\<not> providerWeak r" "e \<in> set (payloadExports (moduleContract (modules ! j)))" "externalName e = name" "binding_matches (providerName r) imp e"
    then show "\<exists>j e. j < length modules \<and> moduleRole (modules ! j) = providerName r \<and> e \<in> set (payloadExports (moduleContract (modules ! j)))
        \<and> providerExport r = Some (externalName e) \<and> \<not> providerWeak r \<and> satisfies modules i imp (ModuleExport j e)"
      by (intro exI[of _ j] exI[of _ e]) (simp add: export_fits)
  next
    fix j e
    assume "j < length modules" "moduleRole (modules ! j) = providerName r" "e \<in> set (payloadExports (moduleContract (modules ! j)))"
      "providerExport r = Some (externalName e)" "\<not> providerWeak r" "satisfies modules i imp (ModuleExport j e)"
    then show "\<exists>j name e. j < length modules \<and> moduleRole (modules ! j) = providerName r \<and> (j < i \<or> j = i \<and> got_import imp)
        \<and> providerExport r = Some name \<and> \<not> providerWeak r \<and> e \<in> set (payloadExports (moduleContract (modules ! j)))
        \<and> externalName e = name \<and> binding_matches (providerName r) imp e"
      by (intro exI[of _ j] exI[of _ "externalName e"] exI[of _ e]) (simp add: export_fits)
  qed
  moreover have "bound modules abi i imp r \<longleftrightarrow> (\<exists>j e. j < length modules \<and> moduleRole (modules ! j) = providerName r
        \<and> e \<in> set (payloadExports (moduleContract (modules ! j)))
        \<and> providerExport r = Some (externalName e) \<and> \<not> providerWeak r \<and> satisfies modules i imp (ModuleExport j e))"
    if "providerName r \<notin> {''host'', ''loader'', ''weak-zero''}"
    unfolding bound_def designates_iff using that by blast
  moreover have "bound modules abi i imp r \<longleftrightarrow> providerExport r = None \<and> \<not> providerWeak r \<and> (\<exists>h \<in> set (hostImports abi). satisfies modules i imp (HostImport h))"
    if "providerName r = ''host''" unfolding bound_def designates_iff using that by auto
  moreover have "bound modules abi i imp r \<longleftrightarrow> providerExport r = None \<and> \<not> providerWeak r \<and> satisfies modules i imp RelocationBase"
    if "providerName r = ''loader''" unfolding bound_def designates_iff using that by auto
  moreover have "bound modules abi i imp r \<longleftrightarrow> providerExport r = None \<and> providerWeak r \<and> satisfies modules i imp NullAddress"
    if "providerName r = ''weak-zero''" unfolding bound_def designates_iff using that by auto
  ultimately show ?thesis by (cases "providerName r \<in> {''host'', ''loader'', ''weak-zero''}") auto
qed

lemma validate_binding_iff:
  assumes "graph_ok modules" "abi_ok abi" "i < length modules" "k < length (payloadImports (moduleContract (modules ! i)))"
  shows "validate_binding modules abi (modules ! i) k r = Inr () \<longleftrightarrow>
    (let imp = payloadImports (moduleContract (modules ! i)) ! k in
      Some (importedModule r) = externalModule imp \<and> importedName r = externalName imp \<and> providerTypeSha256 r = typeSha256 (externalType imp)
      \<and> bound modules abi i imp r)"
  using assms(4) unfolding bound_iff
  by (simp add: validate_binding_def Let_def bindR_Inr_iff host_binding_iff[OF assms(2)] loader_binding_iff weak_binding_iff
    module_binding_iff[OF assms(1,3)]) blast

lemma mapiR_unit_iff: "(\<exists>us. mapiR f n xs = Inr us) \<longleftrightarrow> (\<forall>k < length xs. f (n + k) (xs ! k) = Inr ())" for f :: "nat \<Rightarrow> 'a \<Rightarrow> unit res"
proof (induction xs arbitrary: n)
  case (Cons x xs)
  have "(\<exists>us. mapiR f n (x # xs) = Inr us) \<longleftrightarrow> f n x = Inr () \<and> (\<exists>us. mapiR f (Suc n) xs = Inr us)"
    by (auto simp: bindR_Inr_iff)
  then show ?case unfolding Cons.IH by (auto simp: less_Suc_eq_0_disj)
qed simp

lemma mapR_exists: "(\<exists>ys. mapR f xs = Inr ys) \<longleftrightarrow> (\<forall>x \<in> set xs. \<exists>y. f x = Inr y)"
  by (induction xs) (auto simp: bindR_Inr_iff)

lemma providers_valid:
  assumes "graph_ok modules" and "abi_ok abi"
  shows "validateModuleGraphProviders modules abi = Inr () \<longleftrightarrow>
    (\<forall>i < length modules. \<forall>k < length (moduleProviders (modules ! i)).
      let imp = payloadImports (moduleContract (modules ! i)) ! k; r = moduleProviders (modules ! i) ! k in
      Some (importedModule r) = externalModule imp \<and> importedName r = externalName imp \<and> providerTypeSha256 r = typeSha256 (externalType imp)
      \<and> bound modules abi i imp r)"
proof -
  have len: "length (moduleProviders (modules ! i)) = length (payloadImports (moduleContract (modules ! i)))" if "i < length modules" for i
    using assms(1) that by (auto simp: graph_ok_def list_all_length)
  have "validateModuleGraphProviders modules abi = Inr () \<longleftrightarrow>
      (\<exists>ys. mapR (\<lambda>module. mapiR (validate_binding modules abi module) 0 (moduleProviders module)) modules = Inr ys)"
    by (auto simp: validateModuleGraphProviders_def bindR_Inr_iff)
  also have "\<dots> \<longleftrightarrow> (\<forall>i < length modules. \<forall>k < length (moduleProviders (modules ! i)).
      validate_binding modules abi (modules ! i) k (moduleProviders (modules ! i) ! k) = Inr ())"
    unfolding mapR_exists mapiR_unit_iff by (simp add: all_set_conv_all_nth)
  finally show ?thesis using validate_binding_iff[OF assms] len by (simp add: Let_def)
qed

text \<open>Module \<open>i\<close> takes an import from module \<open>j\<close>: a value at once, or an address of the global offset table.\<close>

definition takes_from :: "graph_module list \<Rightarrow> (external_item \<Rightarrow> bool) \<Rightarrow> (nat \<times> nat) set" where
  "takes_from modules P = {(i, j). i < length modules \<and> j < length modules
     \<and> (\<exists>k < length (moduleProviders (modules ! i)). providerName (moduleProviders (modules ! i) ! k) = moduleRole (modules ! j)
          \<and> providerName (moduleProviders (modules ! i) ! k) \<notin> {''host'', ''loader'', ''weak-zero''}
          \<and> P (payloadImports (moduleContract (modules ! i)) ! k))}"

definition imports_from :: "graph_module list \<Rightarrow> (nat \<times> nat) set" where
  "imports_from modules = takes_from modules (\<lambda>imp. \<not> got_import imp)"

definition addresses_from :: "graph_module list \<Rightarrow> (nat \<times> nat) set" where
  "addresses_from modules = takes_from modules got_import"

lemma export_bound:
  assumes "graph_ok modules" "abi_ok abi" "validateModuleGraphProviders modules abi = Inr ()"
    and "i < length modules" "k < length (moduleProviders (modules ! i))"
    and "providerName (moduleProviders (modules ! i) ! k) \<notin> {''host'', ''loader'', ''weak-zero''}"
  obtains j where "j < length modules" "moduleRole (modules ! j) = providerName (moduleProviders (modules ! i) ! k)"
    "j < i \<or> j = i \<and> got_import (payloadImports (moduleContract (modules ! i)) ! k)"
proof -
  have "bound modules abi i (payloadImports (moduleContract (modules ! i)) ! k) (moduleProviders (modules ! i) ! k)"
    using assms(3-5) providers_valid[OF assms(1,2)] by (simp add: Let_def)
  then show thesis using assms(6) that unfolding bound_iff by auto
qed

lemma takes_from_earlier:
  assumes "graph_ok modules" "abi_ok abi" "validateModuleGraphProviders modules abi = Inr ()" and "(i, j) \<in> takes_from modules P"
  shows "j < i \<or> j = i \<and> (\<exists>imp. got_import imp \<and> P imp)"
proof -
  obtain k where k: "i < length modules" "j < length modules" "k < length (moduleProviders (modules ! i))"
    "providerName (moduleProviders (modules ! i) ! k) = moduleRole (modules ! j)"
    "providerName (moduleProviders (modules ! i) ! k) \<notin> {''host'', ''loader'', ''weak-zero''}"
    "P (payloadImports (moduleContract (modules ! i)) ! k)" using assms(4) by (auto simp: takes_from_def)
  obtain l where l: "l < length modules" "moduleRole (modules ! l) = providerName (moduleProviders (modules ! i) ! k)"
    "l < i \<or> l = i \<and> got_import (payloadImports (moduleContract (modules ! i)) ! k)"
    by (rule export_bound[OF assms(1-3) k(1,3,5)])
  have "distinct (map moduleRole modules)" using assms(1) by (simp add: graph_ok_def)
  then have "l = j" using l(1,2) k(2,4) by (metis length_map nth_eq_iff_index_eq nth_map)
  then show ?thesis using l(3) k(6) by blast
qed

text \<open>C25: The final check accepts a graph exactly when every provider entry repeats the contract of its import and
  designates something that satisfies it: an entry of the closed host interface of the same type, for the
  base module; a relocation base; a declared weak zero; an export of an earlier module of the same type;
  for an address cell of the global offset table, a function or an i32 global of an earlier module or
  of the module itself; or the memory or function table of the base module.\<close>

theorem bindings_exact:
  assumes "graph_ok modules" and "abi_ok abi"
  shows "validateModuleGraphProviders modules abi = Inr () \<longleftrightarrow>
    (\<forall>i < length modules. \<forall>k < length (moduleProviders (modules ! i)).
      let imp = payloadImports (moduleContract (modules ! i)) ! k; r = moduleProviders (modules ! i) ! k in
      Some (importedModule r) = externalModule imp \<and> importedName r = externalName imp \<and> providerTypeSha256 r = typeSha256 (externalType imp)
      \<and> (\<exists>t. designates modules abi r t \<and> satisfies modules i imp t))"
  by (rule providers_valid[OF assms, unfolded bound_def])

text \<open>C26: In an accepted graph every import that does not bind the host, the loader or a weak zero names a module
  of the graph; values come from strictly earlier modules only, never from the module itself, so the modules
  can be instantiated in their order; addresses for the global offset table come from earlier modules or
  from the module itself. Neither relation has a cycle through two modules.\<close>

theorem instantiation_order:
  assumes "graph_ok modules" and "abi_ok abi" and "validateModuleGraphProviders modules abi = Inr ()"
  shows "(\<forall>i < length modules. \<forall>k < length (moduleProviders (modules ! i)).
        providerName (moduleProviders (modules ! i) ! k) \<notin> {''host'', ''loader'', ''weak-zero''}
        \<longrightarrow> (\<exists>j. (i, j) \<in> imports_from modules \<union> addresses_from modules \<and> moduleRole (modules ! j) = providerName (moduleProviders (modules ! i) ! k)))
    \<and> imports_from modules \<subseteq> {(i, j). j < i} \<and> addresses_from modules \<subseteq> {(i, j). j \<le> i}
    \<and> acyclic (imports_from modules \<union> (addresses_from modules - Id))"
proof -
  have named: "\<exists>j. (i, j) \<in> imports_from modules \<union> addresses_from modules \<and> moduleRole (modules ! j) = providerName (moduleProviders (modules ! i) ! k)"
    if k: "i < length modules" "k < length (moduleProviders (modules ! i))"
      "providerName (moduleProviders (modules ! i) ! k) \<notin> {''host'', ''loader'', ''weak-zero''}" for i k
  proof -
    obtain j where "j < length modules" "moduleRole (modules ! j) = providerName (moduleProviders (modules ! i) ! k)"
      by (rule export_bound[OF assms k])
    then show ?thesis using k
      by (intro exI[of _ j]) (cases "got_import (payloadImports (moduleContract (modules ! i)) ! k)";
        simp add: imports_from_def addresses_from_def takes_from_def; metis)
  qed
  have strict: "imports_from modules \<subseteq> {(i, j). j < i}" and weak: "addresses_from modules \<subseteq> {(i, j). j \<le> i}"
    using takes_from_earlier[OF assms] by (fastforce simp: imports_from_def addresses_from_def)+
  then have "imports_from modules \<union> (addresses_from modules - Id) \<subseteq> {(i, j). j < i}" by auto
  moreover have "acyclic ({(i, j). j < i} :: (nat \<times> nat) set)" by (rule acyclicI_order[where f = "\<lambda>i. i"]) auto
  ultimately have "acyclic (imports_from modules \<union> (addresses_from modules - Id))" by (rule acyclic_subset[rotated])
  then show ?thesis using named strict weak by blast
qed

definition sample_type :: "string \<Rightarrow> string \<Rightarrow> link_type" where
  "sample_type kind canonical = \<lparr>typeCanonical = canonical, typeKind = kind, typeSha256 = canonical\<rparr>"

definition sample_module :: "string \<Rightarrow> external_item list \<Rightarrow> external_item list \<Rightarrow> graph_provider list \<Rightarrow> graph_module" where
  "sample_module role imports exports providers =
     \<lparr>moduleContract = \<lparr>payloadAuthority = \<lparr>authorityEngine = None, authorityInspection = ''i'', authorityKind = ''k''\<rparr>,
        payloadDylink = \<lparr>dylinkSha256 = ''d'', dylinkWeakImports = []\<rparr>, payloadExports = exports, payloadImports = imports, graphContractSha256 = ''c''\<rparr>,
      moduleLayout = \<lparr>memoryAlign = 0, memoryBase = 0, memorySize = 0, tableAlign = 0, tableBase = 0, tableSize = 0\<rparr>,
      moduleLink = \<lparr>identityFlags = [], identityKind = ''main''\<rparr>, moduleObjectCompilation = \<lparr>identityFlags = [], identityKind = ''main''\<rparr>,
      moduleOwnership = \<lparr>ownershipKind = ''base'', ownershipTags = []\<rparr>, moduleProviders = providers, moduleRole = role,
      moduleSharedShard = None, moduleSourceProvenance = \<lparr>provenancePayload = JNull, provenanceDigest = ''p''\<rparr>\<rparr>"

definition sample_external :: "string option \<Rightarrow> string \<Rightarrow> link_type \<Rightarrow> external_item" where
  "sample_external m n t = \<lparr>externalIndex = 0, externalModule = m, externalName = n, externalType = t\<rparr>"

definition sample_graph :: "graph_module list" where
  "sample_graph =
     [sample_module ''base'' [sample_external (Some ''env'') ''now'' (sample_type ''func'' ''f'')] [sample_external None ''memory'' (sample_type ''memory'' ''m'')]
        [\<lparr>providerConsumer = ''base'', providerImportIndex = 0, importedModule = ''env'', importedName = ''now'', providerName = ''host'',
          providerExport = None, providerTypeSha256 = ''f'', providerWeak = False\<rparr>],
      sample_module ''leaf'' [sample_external (Some ''env'') ''memory'' (sample_type ''memory'' ''shared'')] []
        [\<lparr>providerConsumer = ''leaf'', providerImportIndex = 0, importedModule = ''env'', importedName = ''memory'', providerName = ''base'',
          providerExport = Some ''memory'', providerTypeSha256 = ''shared'', providerWeak = False\<rparr>]]"

definition sample_abi :: host_abi where
  "sample_abi = \<lparr>hostImports = [\<lparr>hostModule = ''env'', hostName = ''now'', hostTypeSha256 = ''f''\<rparr>], hostSha256 = ''h''\<rparr>"

lemmas sample_graph_defs = sample_graph_def sample_module_def sample_external_def sample_type_def sample_abi_def

lemma sample_graph_ok: "graph_ok sample_graph"
  by (simp add: graph_ok_def sample_graph_defs)

lemma sample_abi_ok: "abi_ok sample_abi"
  by (simp add: abi_ok_def sample_abi_def)

lemma sample_graph_bound: "i < length sample_graph \<Longrightarrow> k < length (moduleProviders (sample_graph ! i)) \<Longrightarrow>
  \<exists>t. designates sample_graph sample_abi (moduleProviders (sample_graph ! i) ! k) t
    \<and> satisfies sample_graph i (payloadImports (moduleContract (sample_graph ! i)) ! k) t"
proof -
  assume "i < length sample_graph" "k < length (moduleProviders (sample_graph ! i))"
  then have "i = 0 \<and> k = 0 \<or> i = 1 \<and> k = 0" by (auto simp: sample_graph_defs less_Suc_eq)
  then show ?thesis
  proof (elim disjE conjE)
    assume "i = 0" "k = 0"
    then show ?thesis
      by (intro exI[of _ "HostImport \<lparr>hostModule = ''env'', hostName = ''now'', hostTypeSha256 = ''f''\<rparr>"] conjI designates.host satisfies.host_import)
        (simp_all add: sample_graph_defs)
  next
    assume "i = 1" "k = 0"
    then show ?thesis
      by (intro exI[of _ "ModuleExport 0 (sample_external None ''memory'' (sample_type ''memory'' ''m''))"] conjI designates.module satisfies.base_resource)
        (simp_all add: sample_graph_defs)
  qed
qed

theorem bindings_exact_witness: "validateModuleGraphProviders sample_graph sample_abi = Inr ()"
proof -
  have "Some (importedModule (moduleProviders (sample_graph ! i) ! k)) = externalModule (payloadImports (moduleContract (sample_graph ! i)) ! k)
      \<and> importedName (moduleProviders (sample_graph ! i) ! k) = externalName (payloadImports (moduleContract (sample_graph ! i)) ! k)
      \<and> providerTypeSha256 (moduleProviders (sample_graph ! i) ! k) = typeSha256 (externalType (payloadImports (moduleContract (sample_graph ! i)) ! k))"
    if "i < length sample_graph" "k < length (moduleProviders (sample_graph ! i))" for i k
    using that by (auto simp: sample_graph_defs less_Suc_eq)
  then show ?thesis unfolding bindings_exact[OF sample_graph_ok sample_abi_ok] Let_def using sample_graph_bound by blast
qed

theorem instantiation_order_witness: "(1, 0) \<in> imports_from sample_graph \<and> imports_from sample_graph \<subseteq> {(i, j). j < i}"
proof -
  have valid: "validateModuleGraphProviders sample_graph sample_abi = Inr ()" by code_simp
  have "(1, 0) \<in> imports_from sample_graph" by (simp add: imports_from_def takes_from_def got_import_def sample_graph_defs)
  then show ?thesis using instantiation_order[OF sample_graph_ok sample_abi_ok valid] by blast
qed

end
