(* ===== verification/ModuleGraphRoundtrip.thy ===== *)
theory ModuleGraphRoundtrip
  imports ModuleGraphCorrect
begin

text \<open>
  Normalizing a module writes it in a canonical shape: what comes out, written as JSON, is accepted
  again and gives the same module, and its contract digest and provenance digest authenticate it.
\<close>

section \<open>Checks that return what they read\<close>

lemma requireStringArray_retry: "requireStringArray v d = Inr ss \<Longrightarrow> requireStringArray (JArr (map JStr ss)) d' = Inr ss"
  by (cases v) (auto elim!: mapiR_retry simp: requireString_Inr simp del: requireString.simps)

lemma nonnegative_retry: "requireNonnegativeSafeInteger v d = Inr i \<Longrightarrow> requireNonnegativeSafeInteger (JNum (NInt i)) d' = Inr i"
  by (auto simp: requireNonnegativeSafeInteger_def max_safe_integer_def split: jsval.splits if_splits elim!: isSafeInteger.elims)

section \<open>Externals and contracts\<close>

lemma link_type_retry:
  "normalizeModuleGraphExternalType sha256 v d = Inr t \<Longrightarrow> normalizeModuleGraphExternalType sha256 (link_type_json t) d' = Inr t"
  by (auto simp: normalizeModuleGraphExternalType_def link_type_json_def bindR_Inr_iff exact_object read_string simp del: requireString.simps)

lemma external_retry:
  "normalizeModuleGraphExternal sha256 v imported i d = Inr e \<Longrightarrow> normalizeModuleGraphExternal sha256 (external_json e) imported i d' = Inr e"
  by (cases imported) (auto simp: normalizeModuleGraphExternal_def external_json_def bindR_Inr_iff exact_object read_string
      dest: link_type_retry simp del: requireString.simps)

lemma weak_import_retry:
  "normalizeModuleGraphWeakImport d i v = Inr w \<Longrightarrow> normalizeModuleGraphWeakImport d' i (weak_import_json w) = Inr w"
  by (auto simp: normalizeModuleGraphWeakImport_def weak_import_json_def bindR_Inr_iff exact_object read_string simp del: requireString.simps)

lemma authority_retry: "read_authority v engine d = Inr a \<Longrightarrow> read_authority (authority_json a) engine d' = Inr a"
  by (auto simp: read_authority_def authority_json_def bindR_Inr_iff exact_object read_string Let_def split: if_splits)

lemma read_dylink_Inr:
  "read_dylink v d = Inr x \<longleftrightarrow> (\<exists>kvs items. requireExactPlainObject v [''first'', ''sha256'', ''weakImports''] (d @ ''.dylink'') = Inr kvs
     \<and> own_prop kvs ''first'' = JBool True \<and> own_prop kvs ''weakImports'' = JArr items
     \<and> mapiR (normalizeModuleGraphWeakImport (d @ ''.dylink.weakImports'')) 0 items = Inr (dylinkWeakImports x)
     \<and> distinct (map weak_key (dylinkWeakImports x))
     \<and> same_canonical (JArr (map weak_import_json (dylinkWeakImports x)))
         (JArr (map weak_import_json (js_sort compareWeakImports (dylinkWeakImports x)))) = Inr True
     \<and> own_prop kvs ''sha256'' = JStr (dylinkSha256 x) \<and> SHA256_PATTERN (dylinkSha256 x))"
proof -
  have "(case w of JArr items \<Rightarrow> f items | _ \<Rightarrow> fail m) = Inr x \<longleftrightarrow> (\<exists>items. w = JArr items \<and> f items = Inr x)"
    for w :: jsval and f :: "jsval list \<Rightarrow> dylink res" and m by (cases w) auto
  then show ?thesis
    by (cases x) (auto simp: read_dylink_def bindR_Inr_iff requireSha256_Inr)
qed

lemma dylink_retry: "read_dylink v d = Inr x \<Longrightarrow> read_dylink (dylink_json x) d' = Inr x"
  unfolding read_dylink_Inr by (auto simp: dylink_json_def exact_object intro: mapiR_retry weak_import_retry)

definition graph_contract_json :: "graph_contract \<Rightarrow> jsval" where
  "graph_contract_json c = JObj (contract_fields c @ [(''contractSha256'', JStr (graphContractSha256 c))])"

lemma contract_Inr:
  "normalizeModuleGraphContract sha256 v role engine = Inr c \<longleftrightarrow> (\<exists>kvs imported exported.
     requireExactPlainObject v [''authority'', ''contractSha256'', ''dylink'', ''exports'', ''imports''] (role @ '' module contract'') = Inr kvs
     \<and> read_authority (own_prop kvs ''authority'') engine (role @ '' module contract'') = Inr (payloadAuthority c)
     \<and> read_dylink (own_prop kvs ''dylink'') (role @ '' module contract'') = Inr (payloadDylink c)
     \<and> own_prop kvs ''imports'' = JArr imported \<and> own_prop kvs ''exports'' = JArr exported
     \<and> mapiR (\<lambda>index item. normalizeModuleGraphExternal sha256 item True index (element_description (role @ '' module contract.imports'') index)) 0 imported
         = Inr (payloadImports c)
     \<and> mapiR (\<lambda>index item. normalizeModuleGraphExternal sha256 item False index (element_description (role @ '' module contract.exports'') index)) 0 exported
         = Inr (payloadExports c)
     \<and> distinct (map externalName (payloadExports c))
     \<and> own_prop kvs ''contractSha256'' = JStr (graphContractSha256 c) \<and> SHA256_PATTERN (graphContractSha256 c)
     \<and> fingerprintJson sha256 (JObj (contract_fields c)) = Inr (graphContractSha256 c))"
proof -
  have fields: "contract_fields \<lparr>payloadAuthority = a, payloadDylink = d, payloadExports = e, payloadImports = i, graphContractSha256 = h\<rparr>
      = contract_fields \<lparr>payloadAuthority = a, payloadDylink = d, payloadExports = e, payloadImports = i\<rparr>" for a d e i h
    by (simp add: contract_fields_def)
  show ?thesis
    by (cases c) (auto simp: normalizeModuleGraphContract_def Let_def bindR_Inr_iff case_arr requireSha256_Inr fields
        contract_payload.defs graph_contract.defs)
qed

lemma contract_retry:
  assumes "normalizeModuleGraphContract sha256 v role engine = Inr c"
  shows "normalizeModuleGraphContract sha256 (graph_contract_json c) role engine = Inr c"
proof -
  have "requireExactPlainObject (graph_contract_json c) [''authority'', ''contractSha256'', ''dylink'', ''exports'', ''imports''] d
      = Inr (contract_fields c @ [(''contractSha256'', JStr (graphContractSha256 c))])" for d
    unfolding graph_contract_json_def by (rule exact_object) (simp add: contract_fields_def)
  moreover have "own_prop (contract_fields c @ [(''contractSha256'', JStr (graphContractSha256 c))]) ''authority'' = authority_json (payloadAuthority c)"
    "own_prop (contract_fields c @ [(''contractSha256'', JStr (graphContractSha256 c))]) ''dylink'' = dylink_json (payloadDylink c)"
    "own_prop (contract_fields c @ [(''contractSha256'', JStr (graphContractSha256 c))]) ''exports'' = JArr (map external_json (payloadExports c))"
    "own_prop (contract_fields c @ [(''contractSha256'', JStr (graphContractSha256 c))]) ''imports'' = JArr (map external_json (payloadImports c))"
    "own_prop (contract_fields c @ [(''contractSha256'', JStr (graphContractSha256 c))]) ''contractSha256'' = JStr (graphContractSha256 c)"
    by (simp_all add: contract_fields_def)
  ultimately show ?thesis using assms unfolding contract_Inr
    by (auto intro: authority_retry dylink_retry mapiR_retry external_retry)
qed

section \<open>The other parts\<close>

definition ownership_json :: "ownership \<Rightarrow> jsval" where
  "ownership_json o' = JObj [(''memory'', JStr (ownershipKind o')), (''stackPointer'', JStr (ownershipKind o')), (''table'', JStr (ownershipKind o')),
     (''tags'', JArr (map JStr (ownershipTags o')))]"

definition layout_json :: "layout \<Rightarrow> jsval" where
  "layout_json l = JObj [(''memoryAlign'', JNum (NInt (memoryAlign l))), (''memoryBase'', JNum (NInt (memoryBase l))),
     (''memorySize'', JNum (NInt (memorySize l))), (''tableAlign'', JNum (NInt (tableAlign l))), (''tableBase'', JNum (NInt (tableBase l))),
     (''tableSize'', JNum (NInt (tableSize l)))]"

definition flag_identity_json :: "flag_identity \<Rightarrow> jsval" where
  "flag_identity_json f = JObj [(''flags'', JArr (map JStr (identityFlags f))), (''kind'', JStr (identityKind f))]"

definition graph_provider_json :: "graph_provider \<Rightarrow> jsval" where
  "graph_provider_json r = JObj [(''consumer'', JStr (providerConsumer r)), (''importIndex'', JNum (NInt (int (providerImportIndex r)))),
     (''importedModule'', JStr (importedModule r)), (''importedName'', JStr (importedName r)), (''provider'', JStr (providerName r)),
     (''providerExport'', case providerExport r of None \<Rightarrow> JNull | Some s \<Rightarrow> JStr s), (''typeSha256'', JStr (providerTypeSha256 r)),
     (''weak'', JBool (providerWeak r))]"

definition source_provenance_json :: "source_provenance \<Rightarrow> jsval" where
  "source_provenance_json p = JObj [(''kind'', JStr MODULE_GRAPH_SOURCE_PROVENANCE_KIND), (''payload'', provenancePayload p),
     (''sha256'', JStr (provenanceDigest p))]"

lemma layout_retry: "normalizeModuleGraphLayout v role = Inr l \<Longrightarrow> normalizeModuleGraphLayout (layout_json l) role = Inr l"
  by (auto simp: normalizeModuleGraphLayout_def layout_json_def bindR_Inr_iff exact_object Let_def nonnegative_retry)

lemma ownership_retry:
  assumes "normalizeModuleGraphOwnership v role = Inr x"
  shows "normalizeModuleGraphOwnership (ownership_json x) role = Inr x"
proof -
  obtain kvs c tags where a: "moduleGraphRoleClass role = Inr c" "requireStringArray (own_prop kvs ''tags'') (role @ '' module ownership.tags'') = Inr tags"
    "tags \<noteq> []" "''__c_longjmp'' \<in> set tags" "distinct tags" "same_canonical (JArr (map JStr tags)) (JArr (map JStr (sort_strings tags))) = Inr True"
    "x = \<lparr>ownershipKind = (if c = MODULE_GRAPH_BASE_ROLE then ''defined'' else ''base''), ownershipTags = tags\<rparr>"
    using assms unfolding normalizeModuleGraphOwnership_def Let_def bindR_Inr_iff by (force split: if_split_asm)
  show ?thesis using a(1,3-6) requireStringArray_retry[OF a(2)] unfolding a(7)
    by (simp add: normalizeModuleGraphOwnership_def ownership_json_def exact_object Let_def del: requireStringArray.simps)
qed

lemma link_retry:
  assumes "normalizeModuleGraphLinkIdentity v role = Inr x"
  shows "normalizeModuleGraphLinkIdentity (flag_identity_json x) role = Inr x"
proof -
  obtain kvs c flags where a: "moduleGraphRoleClass role = Inr c" "requireStringArray (own_prop kvs ''flags'') (role @ '' module link identity.flags'') = Inr flags"
    "(if c = MODULE_GRAPH_BASE_ROLE then ''-sMAIN_MODULE=2'' else ''-sSIDE_MODULE=2'') \<in> set flags"
    "x = \<lparr>identityFlags = flags, identityKind = (if c = MODULE_GRAPH_BASE_ROLE then ''main'' else ''side'')\<rparr>"
    using assms unfolding normalizeModuleGraphLinkIdentity_def Let_def bindR_Inr_iff by force
  show ?thesis using a(1,3) requireStringArray_retry[OF a(2)] unfolding a(4)
    by (simp add: normalizeModuleGraphLinkIdentity_def flag_identity_json_def exact_object Let_def del: requireStringArray.simps)
qed

lemma compilation_retry:
  assumes "normalizeModuleGraphObjectCompilation v role = Inr x"
  shows "normalizeModuleGraphObjectCompilation (flag_identity_json x) role = Inr x"
proof -
  obtain kvs c flags where a: "moduleGraphRoleClass role = Inr c" "requireStringArray (own_prop kvs ''flags'') (role @ '' module object compilation.flags'') = Inr flags"
    "\<not> (c \<noteq> MODULE_GRAPH_BASE_ROLE \<and> ''-fPIC'' \<notin> set flags)"
    "x = \<lparr>identityFlags = flags, identityKind = (if c = MODULE_GRAPH_BASE_ROLE then ''main-module-object'' else ''side-module-object'')\<rparr>"
    using assms unfolding normalizeModuleGraphObjectCompilation_def Let_def bindR_Inr_iff by force
  show ?thesis using a(1,3) requireStringArray_retry[OF a(2)] unfolding a(4)
    by (simp add: normalizeModuleGraphObjectCompilation_def flag_identity_json_def exact_object Let_def del: requireStringArray.simps)
qed

lemma provenance_retry:
  assumes "normalizeModuleGraphSourceProvenance sha256 v role = Inr p" and "wf_js v"
  shows "normalizeModuleGraphSourceProvenance sha256 (source_provenance_json p) role = Inr p"
proof -
  obtain kvs where kvs: "requireExactPlainObject v [''kind'', ''payload'', ''sha256''] (role @ '' module source provenance'') = Inr kvs"
    "normalizeJson (own_prop kvs ''payload'') (role @ '' module source provenance.payload'') = Inr (provenancePayload p)"
    "SHA256_PATTERN (provenanceDigest p)"
    "fingerprintJson sha256 (JObj [(''kind'', JStr MODULE_GRAPH_SOURCE_PROVENANCE_KIND), (''payload'', provenancePayload p)]) = Inr (provenanceDigest p)"
    using assms(1) by (auto simp: normalizeModuleGraphSourceProvenance_def Let_def bindR_Inr_iff requireSha256_Inr)
  have "v = JObj kvs" using kvs(1) by (cases v) (auto simp: requireExactPlainObject_def bindR_Inr_iff)
  then have "wf_js (own_prop kvs ''payload'')" using assms(2) by (auto simp: own_prop_def list_all_iff split: option.splits dest!: map_of_SomeD)
  then have "normal_tree (provenancePayload p)" using kvs(2) normalize_normal_tree unfolding normalizeJson_def by blast
  then have "normalizeJson (provenancePayload p) d = Inr (provenancePayload p)" for d unfolding normalizeJson_def by (rule normal_tree_fixpoint)
  then show ?thesis using kvs(3,4)
    by (cases p) (auto simp: normalizeModuleGraphSourceProvenance_def source_provenance_json_def Let_def bindR_Inr_iff requireSha256_Inr exact_object)
qed

lemma provider_retry:
  assumes "normalizeModuleGraphProvider role roles i v = Inr r"
  shows "normalizeModuleGraphProvider role roles i (graph_provider_json r) = Inr r"
proof -
  have weak: "(case w of JBool b \<Rightarrow> Inr b | _ \<Rightarrow> fail m) = Inr x \<longleftrightarrow> w = JBool x" for w m x by (cases w) auto
  obtain p m n t b e kvs where a: "p \<in> set (roles @ [''host'', ''loader'', ''weak-zero''])"
    "requireString (own_prop kvs ''provider'') (role @ '' module provider '' @ show_nat i @ ''.provider'') = Inr p"
    "requireString (own_prop kvs ''importedModule'') (role @ '' module provider '' @ show_nat i @ ''.importedModule'') = Inr m"
    "requireString (own_prop kvs ''importedName'') (role @ '' module provider '' @ show_nat i @ ''.importedName'') = Inr n"
    "requireSha256 (own_prop kvs ''typeSha256'') (role @ '' module provider '' @ show_nat i @ ''.typeSha256'') = Inr t"
    "case e of None \<Rightarrow> True | Some s \<Rightarrow> s \<noteq> [] \<and> CHR 0x00 \<notin> set s"
    "r = \<lparr>providerConsumer = role, providerImportIndex = i, importedModule = m, importedName = n,
        providerName = p, providerExport = e, providerTypeSha256 = t, providerWeak = b\<rparr>"
    using assms unfolding normalizeModuleGraphProvider_def Let_def bindR_Inr_iff weak
    by (elim exE conjE) (force simp: bindR_Inr_iff requireString_Inr simp del: requireString.simps split: option.splits)
  then show ?thesis
    by (cases e) (simp_all add: normalizeModuleGraphProvider_def graph_provider_json_def Let_def exact_object bindR_Inr_iff requireString_Inr requireSha256_Inr)
qed

section \<open>Modules\<close>

definition graph_module_json :: "graph_module \<Rightarrow> jsval" where
  "graph_module_json m = JObj
     ([(''contract'', graph_contract_json (moduleContract m)), (''layout'', layout_json (moduleLayout m)),
       (''link'', flag_identity_json (moduleLink m)), (''objectCompilation'', flag_identity_json (moduleObjectCompilation m)),
       (''ownership'', ownership_json (moduleOwnership m)), (''providers'', JArr (map graph_provider_json (moduleProviders m))),
       (''role'', JStr (moduleRole m))]
      @ (case moduleSharedShard m of None \<Rightarrow> [] | Some shard \<Rightarrow> [(''sharedShardSha256'', JStr shard)])
      @ [(''sourceProvenance'', source_provenance_json (moduleSourceProvenance m))])"

definition module_keys :: "string \<Rightarrow> string list" where
  "module_keys role = [''contract'', ''layout'', ''link'', ''objectCompilation'', ''ownership'', ''providers'', ''role'']
     @ (if moduleGraphSharedShardSha256 role = None then [] else [''sharedShardSha256'']) @ [''sourceProvenance'']"

lemma module_Inr:
  "normalizeModuleGraphModule sha256 v role roles engine = Inr m \<longleftrightarrow> (\<exists>kvs items.
     requireExactPlainObject v (module_keys role) (role @ '' module'') = Inr kvs \<and> own_prop kvs ''role'' = JStr role
     \<and> (case moduleGraphSharedShardSha256 role of None \<Rightarrow> ''sharedShardSha256'' \<notin> set (map fst kvs)
          | Some shard \<Rightarrow> own_prop kvs ''sharedShardSha256'' = JStr shard)
     \<and> normalizeModuleGraphContract sha256 (own_prop kvs ''contract'') role engine = Inr (moduleContract m)
     \<and> own_prop kvs ''providers'' = JArr items \<and> length items = length (payloadImports (moduleContract m))
     \<and> normalizeModuleGraphLayout (own_prop kvs ''layout'') role = Inr (moduleLayout m)
     \<and> normalizeModuleGraphLinkIdentity (own_prop kvs ''link'') role = Inr (moduleLink m)
     \<and> normalizeModuleGraphObjectCompilation (own_prop kvs ''objectCompilation'') role = Inr (moduleObjectCompilation m)
     \<and> normalizeModuleGraphOwnership (own_prop kvs ''ownership'') role = Inr (moduleOwnership m)
     \<and> mapiR (normalizeModuleGraphProvider role roles) 0 items = Inr (moduleProviders m)
     \<and> normalizeModuleGraphSourceProvenance sha256 (own_prop kvs ''sourceProvenance'') role = Inr (moduleSourceProvenance m)
     \<and> moduleRole m = role \<and> moduleSharedShard m = moduleGraphSharedShardSha256 role)"
  unfolding normalizeModuleGraphModule_def Let_def module_keys_def[symmetric] bindR_Inr_iff case_arr failWhen_Inr_iff
  by (cases m) (cases "moduleGraphSharedShardSha256 role"; auto)

lemma module_retry:
  assumes "normalizeModuleGraphModule sha256 v role roles engine = Inr m" and "wf_js v"
  shows "normalizeModuleGraphModule sha256 (graph_module_json m) role roles engine = Inr m"
proof -
  obtain kvs items where a: "requireExactPlainObject v (module_keys role) (role @ '' module'') = Inr kvs"
    "normalizeModuleGraphContract sha256 (own_prop kvs ''contract'') role engine = Inr (moduleContract m)"
    "length items = length (payloadImports (moduleContract m))"
    "normalizeModuleGraphLayout (own_prop kvs ''layout'') role = Inr (moduleLayout m)"
    "normalizeModuleGraphLinkIdentity (own_prop kvs ''link'') role = Inr (moduleLink m)"
    "normalizeModuleGraphObjectCompilation (own_prop kvs ''objectCompilation'') role = Inr (moduleObjectCompilation m)"
    "normalizeModuleGraphOwnership (own_prop kvs ''ownership'') role = Inr (moduleOwnership m)"
    "mapiR (normalizeModuleGraphProvider role roles) 0 items = Inr (moduleProviders m)"
    "normalizeModuleGraphSourceProvenance sha256 (own_prop kvs ''sourceProvenance'') role = Inr (moduleSourceProvenance m)"
    "moduleRole m = role" "moduleSharedShard m = moduleGraphSharedShardSha256 role"
    using assms(1) unfolding module_Inr by blast
  have "v = JObj kvs" using a(1) by (cases v) (auto simp: requireExactPlainObject_def bindR_Inr_iff)
  then have wf: "wf_js (own_prop kvs ''sourceProvenance'')"
    using assms(2) by (auto simp: own_prop_def list_all_iff split: option.splits dest!: map_of_SomeD)
  obtain fields where fields: "graph_module_json m = JObj fields" "mset (map fst fields) = mset (module_keys role)"
    "own_prop fields ''contract'' = graph_contract_json (moduleContract m)" "own_prop fields ''layout'' = layout_json (moduleLayout m)"
    "own_prop fields ''link'' = flag_identity_json (moduleLink m)" "own_prop fields ''objectCompilation'' = flag_identity_json (moduleObjectCompilation m)"
    "own_prop fields ''ownership'' = ownership_json (moduleOwnership m)" "own_prop fields ''providers'' = JArr (map graph_provider_json (moduleProviders m))"
    "own_prop fields ''role'' = JStr role" "own_prop fields ''sourceProvenance'' = source_provenance_json (moduleSourceProvenance m)"
    "case moduleGraphSharedShardSha256 role of None \<Rightarrow> ''sharedShardSha256'' \<notin> set (map fst fields)
       | Some shard \<Rightarrow> own_prop fields ''sharedShardSha256'' = JStr shard"
    unfolding graph_module_json_def module_keys_def a(10,11) by (cases "moduleGraphSharedShardSha256 role") auto
  have providers: "mapiR (normalizeModuleGraphProvider role roles) 0 (map graph_provider_json (moduleProviders m)) = Inr (moduleProviders m)"
    by (rule mapiR_retry[OF a(8)]) (rule provider_retry)
  have len: "length (map graph_provider_json (moduleProviders m)) = length (payloadImports (moduleContract m))"
    using mapiR_length[OF a(8)] a(3) by simp
  show ?thesis unfolding module_Inr fields(1)
    by (intro exI[of _ fields] exI[of _ "map graph_provider_json (moduleProviders m)"] conjI exact_object fields(2,9,11) providers len a(10,11) fields(8))
      (simp_all only: fields(3-7,10) contract_retry[OF a(2)] layout_retry[OF a(4)] link_retry[OF a(5)] compilation_retry[OF a(6)]
        ownership_retry[OF a(7)] provenance_retry[OF a(9) wf])
qed

text \<open>C28: Writing a normalized module as JSON and normalizing it again gives the same module, contract digest and
  provenance digest included.\<close>

theorem module_normalization_stable:
  assumes "normalizeModuleGraphModule sha256 v role roles engine = Inr m" and "wf_js v"
  shows "normalizeModuleGraphModule sha256 (graph_module_json m) role roles engine = Inr m"
  by (rule module_retry[OF assms])

definition digest_a :: string where
  "digest_a = replicate 64 (CHR ''a'')"

definition leaf_module :: graph_module where
  "leaf_module = \<lparr>moduleContract = \<lparr>payloadAuthority = \<lparr>authorityEngine = None, authorityInspection = digest_a,
        authorityKind = ''convex-wasm-core-module-contract-v1''\<rparr>, payloadDylink = \<lparr>dylinkSha256 = digest_a, dylinkWeakImports = []\<rparr>,
        payloadExports = [], payloadImports = [], graphContractSha256 = digest_a\<rparr>,
      moduleLayout = \<lparr>memoryAlign = 4, memoryBase = 1024, memorySize = 16, tableAlign = 0, tableBase = 1, tableSize = 2\<rparr>,
      moduleLink = \<lparr>identityFlags = [''-sSIDE_MODULE=2''], identityKind = ''side''\<rparr>,
      moduleObjectCompilation = \<lparr>identityFlags = [''-fPIC''], identityKind = ''side-module-object''\<rparr>,
      moduleOwnership = \<lparr>ownershipKind = ''base'', ownershipTags = [''__c_longjmp'']\<rparr>, moduleProviders = [], moduleRole = ''leaf'',
      moduleSharedShard = None, moduleSourceProvenance = \<lparr>provenancePayload = JArr [JNull], provenanceDigest = digest_a\<rparr>\<rparr>"

text \<open>The same module with its properties in another order.\<close>

definition leaf_json :: jsval where
  "leaf_json = (case graph_module_json leaf_module of JObj kvs \<Rightarrow> JObj (rev kvs) | v \<Rightarrow> v)"

lemma graph_keys_not_index [simp]:
  "\<not> is_index_key ''contract''" "\<not> is_index_key ''layout''" "\<not> is_index_key ''link''" "\<not> is_index_key ''objectCompilation''"
  "\<not> is_index_key ''ownership''" "\<not> is_index_key ''providers''" "\<not> is_index_key ''role''" "\<not> is_index_key ''sourceProvenance''"
  "\<not> is_index_key ''authority''" "\<not> is_index_key ''dylink''" "\<not> is_index_key ''exports''" "\<not> is_index_key ''imports''"
  "\<not> is_index_key ''contractSha256''" "\<not> is_index_key ''inspectionSha256''" "\<not> is_index_key ''kind''" "\<not> is_index_key ''first''"
  "\<not> is_index_key ''sha256''" "\<not> is_index_key ''weakImports''" "\<not> is_index_key ''memoryAlign''" "\<not> is_index_key ''memoryBase''"
  "\<not> is_index_key ''memorySize''" "\<not> is_index_key ''tableAlign''" "\<not> is_index_key ''tableBase''" "\<not> is_index_key ''tableSize''"
  "\<not> is_index_key ''flags''" "\<not> is_index_key ''memory''" "\<not> is_index_key ''stackPointer''" "\<not> is_index_key ''table''"
  "\<not> is_index_key ''tags''" "\<not> is_index_key ''payload''"
  by (simp_all add: is_index_key_def is_digit_def digit_value_def)

lemma digest_a_ok: "SHA256_PATTERN digest_a"
  by (simp add: digest_a_def SHA256_PATTERN_def is_lower_hex_def list_all_iff)

lemma digest_a_read: "requireSha256 (JStr digest_a) d = Inr digest_a"
  by (simp add: requireSha256_Inr digest_a_ok)

lemma same_canonical_refl: "jsonable a \<Longrightarrow> wf_js a \<Longrightarrow> same_canonical a a = Inr True"
  by (simp add: same_canonical_def bindR_Inr_iff canonicalJson_closed)

lemma constant_fingerprint: "jsonable a \<Longrightarrow> wf_js a \<Longrightarrow> fingerprintJson (\<lambda>_. h) a = Inr h"
  by (simp add: fingerprintJson_def bindR_Inr_iff canonicalJson_closed)

lemmas graph_json_defs = graph_module_json_def graph_contract_json_def contract_fields_def authority_json_def dylink_json_def layout_json_def
  flag_identity_json_def ownership_json_def source_provenance_json_def

lemma leaf_role: "moduleGraphSharedShardSha256 ''leaf'' = None" "moduleGraphRoleClass ''leaf'' = Inr ''leaf''"
  by (simp_all add: moduleGraphSharedShardSha256_def MODULE_GRAPH_SHARED_ROLE_PREFIX_def moduleGraphRoleClass_def MODULE_GRAPH_BASE_ROLE_def MODULE_GRAPH_LEAF_ROLE_def)

lemma leaf_normalizes: "normalizeModuleGraphModule (\<lambda>_. digest_a) leaf_json ''leaf'' [''base'', ''leaf''] ''e'' = Inr leaf_module"
proof -
  obtain kvs where kvs: "graph_module_json leaf_module = JObj kvs" "mset (map fst (rev kvs)) = mset (module_keys ''leaf'')"
    "kvs = [(''contract'', graph_contract_json (moduleContract leaf_module)), (''layout'', layout_json (moduleLayout leaf_module)),
       (''link'', flag_identity_json (moduleLink leaf_module)), (''objectCompilation'', flag_identity_json (moduleObjectCompilation leaf_module)),
       (''ownership'', ownership_json (moduleOwnership leaf_module)), (''providers'', JArr []), (''role'', JStr ''leaf''),
       (''sourceProvenance'', source_provenance_json (moduleSourceProvenance leaf_module))]"
    by (simp add: graph_module_json_def leaf_module_def module_keys_def leaf_role)
  have contract: "normalizeModuleGraphContract (\<lambda>_. digest_a) (graph_contract_json (moduleContract leaf_module)) ''leaf'' ''e'' = Inr (moduleContract leaf_module)"
    by (simp add: normalizeModuleGraphContract_def leaf_module_def graph_contract_json_def contract_fields_def exact_object Let_def authority_json_def
        read_authority_def dylink_json_def read_dylink_def same_canonical_refl constant_fingerprint own_order_def digest_a_read
        contract_payload.defs graph_contract.defs)
  have layout: "normalizeModuleGraphLayout (layout_json (moduleLayout leaf_module)) ''leaf'' = Inr (moduleLayout leaf_module)"
    by (simp add: normalizeModuleGraphLayout_def leaf_module_def layout_json_def exact_object Let_def requireNonnegativeSafeInteger_def
        max_safe_integer_def leaf_role MODULE_GRAPH_BASE_ROLE_def)
  have link: "normalizeModuleGraphLinkIdentity (flag_identity_json (moduleLink leaf_module)) ''leaf'' = Inr (moduleLink leaf_module)"
    by (simp add: normalizeModuleGraphLinkIdentity_def leaf_module_def flag_identity_json_def exact_object Let_def leaf_role MODULE_GRAPH_BASE_ROLE_def)
  have compilation: "normalizeModuleGraphObjectCompilation (flag_identity_json (moduleObjectCompilation leaf_module)) ''leaf'' = Inr (moduleObjectCompilation leaf_module)"
    by (simp add: normalizeModuleGraphObjectCompilation_def leaf_module_def flag_identity_json_def exact_object Let_def leaf_role MODULE_GRAPH_BASE_ROLE_def)
  have ownership: "normalizeModuleGraphOwnership (ownership_json (moduleOwnership leaf_module)) ''leaf'' = Inr (moduleOwnership leaf_module)"
    by (simp add: normalizeModuleGraphOwnership_def leaf_module_def ownership_json_def exact_object Let_def leaf_role MODULE_GRAPH_BASE_ROLE_def same_canonical_refl)
  have provenance: "normalizeModuleGraphSourceProvenance (\<lambda>_. digest_a) (source_provenance_json (moduleSourceProvenance leaf_module)) ''leaf''
      = Inr (moduleSourceProvenance leaf_module)"
    by (simp add: normalizeModuleGraphSourceProvenance_def leaf_module_def source_provenance_json_def exact_object Let_def normalizeJson_def
        constant_fingerprint own_order_def bindR_Inr_iff requireSha256_Inr digest_a_ok)
  show ?thesis unfolding module_Inr leaf_json_def kvs(1) jsval.case
    by (intro exI[of _ "rev kvs"] exI[of _ "[]"] conjI exact_object kvs(2))
      (simp_all add: kvs(3) leaf_role contract layout link compilation ownership provenance, simp_all add: leaf_module_def leaf_role)
qed

theorem module_normalization_stable_witness:
  "normalizeModuleGraphModule (\<lambda>_. digest_a) (graph_module_json leaf_module) ''leaf'' [''base'', ''leaf''] ''e'' = Inr leaf_module"
proof (rule module_normalization_stable[OF leaf_normalizes])
  show "wf_js leaf_json"
    by (simp add: leaf_json_def graph_json_defs leaf_module_def own_order_def max_safe_integer_def)
qed

end
