(* ===== verification/NodePath.thy ===== *)
theory NodePath
  imports Prelude
begin

text \<open>
  The functions of Node's \<open>path.posix\<close> and of \<open>String.prototype\<close> that the chunk contract and the native
  symbol identity use: splitting at a character, padding, and the lexical path operations \<open>normalize\<close>,
  \<open>join\<close> and \<open>dirname\<close>.
\<close>

section \<open>Strings\<close>

text \<open>\<open>text.split(c)\<close> for a one-character separator: never empty.\<close>

fun split_string :: "char \<Rightarrow> string \<Rightarrow> string list" where
  "split_string c [] = [[]]"
| "split_string c (x # xs) =
     (if x = c then [] # split_string c xs
      else case split_string c xs of [] \<Rightarrow> [[x]] | part # parts \<Rightarrow> (x # part) # parts)"

text \<open>\<open>text.padStart(width, c)\<close>.\<close>

definition padStart :: "nat \<Rightarrow> char \<Rightarrow> string \<Rightarrow> string" where
  "padStart width c s = replicate (width - length s) c @ s"

text \<open>\<open>text.replaceAll(a, b)\<close> for one-character strings.\<close>

definition replaceAll :: "char \<Rightarrow> char \<Rightarrow> string \<Rightarrow> string" where
  "replaceAll a b s = map (\<lambda>c. if c = a then b else c) s"

text \<open>\<open>text.startsWith(prefix)\<close>, with the rest of the text.\<close>

fun strip_prefix :: "string \<Rightarrow> string \<Rightarrow> string option" where
  "strip_prefix [] s = Some s"
| "strip_prefix (p # ps) [] = None"
| "strip_prefix (p # ps) (x # xs) = (if p = x then strip_prefix ps xs else None)"

lemma strip_prefix_Some [simp]: "strip_prefix p s = Some r \<longleftrightarrow> s = p @ r"
  by (induction p s rule: strip_prefix.induct) auto

lemma strip_prefix_append [simp]: "strip_prefix p (p @ r) = Some r"
  by (induction p) auto

lemma strip_prefix_None: "strip_prefix p s = None \<Longrightarrow> s \<noteq> p @ r"
  by (metis option.distinct(1) strip_prefix_append)

lemma case_strip_prefix:
  "(case strip_prefix p s of None \<Rightarrow> None | Some r \<Rightarrow> f r) = Some x \<longleftrightarrow> (\<exists>r. s = p @ r \<and> f r = Some x)"
proof (cases "strip_prefix p s")
  case None
  then have "s \<noteq> p @ r" for r by (metis option.distinct(1) strip_prefix_Some)
  then show ?thesis using None by simp
next
  case (Some r)
  then have "s = p @ r" by simp
  then show ?thesis by auto
qed

lemma split_string_nonempty [simp]: "split_string c s \<noteq> []"
  by (induction s) (auto split: list.splits)

lemma join_split: "join_strings [c] (split_string c s) = s"
proof (induction s)
  case (Cons x xs)
  obtain p ps where p: "split_string c xs = p # ps" by (cases "split_string c xs") auto
  then show ?case using Cons by (cases ps) auto
qed simp

lemma split_string_parts: "part \<in> set (split_string c s) \<Longrightarrow> c \<notin> set part"
  by (induction s arbitrary: part) (auto split: list.splits if_splits)

lemma split_string_none: "c \<notin> set s \<Longrightarrow> split_string c s = [s]"
  by (induction s) auto

lemma split_string_append: "c \<notin> set p \<Longrightarrow> split_string c (p @ c # s) = p # split_string c s"
  by (induction p) auto

lemma split_join: "ps \<noteq> [] \<Longrightarrow> list_all (\<lambda>p. c \<notin> set p) ps \<Longrightarrow> split_string c (join_strings [c] ps) = ps"
  by (induction "[c]" ps rule: join_strings.induct) (auto simp: split_string_none split_string_append)

section \<open>Paths\<close>

abbreviation slash :: char where "slash \<equiv> CHR 0x2F"

text \<open>One segment of \<open>normalizeString\<close>: the stack holds the kept segments, last first.\<close>

fun path_segment :: "bool \<Rightarrow> string list \<Rightarrow> string \<Rightarrow> string list" where
  "path_segment allowAboveRoot stack segment =
     (if segment = '''' \<or> segment = ''.'' then stack
      else if segment = ''..'' then
        (case stack of
           kept # rest \<Rightarrow> if kept \<noteq> ''..'' then rest else if allowAboveRoot then ''..'' # stack else stack
         | [] \<Rightarrow> if allowAboveRoot then [''..''] else [])
      else segment # stack)"

definition normalizeString :: "bool \<Rightarrow> string \<Rightarrow> string" where
  "normalizeString allowAboveRoot path =
     join_strings [slash] (rev (foldl (path_segment allowAboveRoot) [] (split_string slash path)))"

definition posix_normalize :: "string \<Rightarrow> string" where
  "posix_normalize path =
     (if path = [] then ''.''
      else let isAbsolute = (hd path = slash); trailingSeparator = (last path = slash);
               p = normalizeString (\<not> isAbsolute) path in
        if p = [] then (if isAbsolute then [slash] else if trailingSeparator then ''./'' else ''.'')
        else (if isAbsolute then [slash] else []) @ p @ (if trailingSeparator then [slash] else []))"

definition posix_join :: "string \<Rightarrow> string \<Rightarrow> string" where
  "posix_join a b =
     (let parts = filter (\<lambda>p. p \<noteq> []) [a, b] in
      if parts = [] then ''.'' else posix_normalize (join_strings [slash] parts))"

text \<open>\<open>dirname\<close> cuts at the last slash that is followed by another character and is not the first one.\<close>

definition posix_dirname :: "string \<Rightarrow> string" where
  "posix_dirname path =
     (if path = [] then ''.''
      else let kept = dropWhile (\<lambda>c. c \<noteq> slash) (dropWhile (\<lambda>c. c = slash) (rev (tl path))) in
        if kept = [] then (if hd path = slash then [slash] else ''.'')
        else if length kept = 1 \<and> hd path = slash then [slash, slash]
        else hd path # rev (tl kept))"

lemma normalize_example:
  "posix_normalize ''a/./b//../c/'' = ''a/c/''" "posix_normalize ''../../a'' = ''../../a''" "posix_normalize ''/../a'' = ''/a''"
  "posix_join ''a/b'' ''../c'' = ''a/c''" "posix_dirname ''a/b/c'' = ''a/b''" "posix_dirname ''a'' = ''.''" "posix_dirname ''//a'' = ''//''"
  "posix_normalize ''a/..'' = ''.''"
  by code_simp+

text \<open>The kept segments: names, after a block of \<open>..\<close> when the path is relative.\<close>

definition kept_segments :: "bool \<Rightarrow> string list \<Rightarrow> bool" where
  "kept_segments allowAboveRoot stack \<longleftrightarrow> (\<exists>names n. stack = names @ replicate n ''..''
     \<and> list_all (\<lambda>s. s \<noteq> '''' \<and> s \<noteq> ''.'' \<and> s \<noteq> ''..'' \<and> slash \<notin> set s) names \<and> (n = 0 \<or> allowAboveRoot))"

lemma kept_segment:
  assumes "kept_segments up stack" and "slash \<notin> set segment"
  shows "kept_segments up (path_segment up stack segment)"
proof -
  obtain names n where st: "stack = names @ replicate n ''..''"
    "list_all (\<lambda>s. s \<noteq> '''' \<and> s \<noteq> ''.'' \<and> s \<noteq> ''..'' \<and> slash \<notin> set s) names" "n = 0 \<or> up"
    using assms(1) by (auto simp: kept_segments_def)
  consider "segment = '''' \<or> segment = ''.''" | "segment = ''..''" | "segment \<noteq> ''''" "segment \<noteq> ''.''" "segment \<noteq> ''..''" by blast
  then show ?thesis
  proof cases
    case 1
    then show ?thesis using assms(1) by auto
  next
    case 2
    show ?thesis
    proof (cases names)
      case Nil
      then have "kept_segments up (replicate (Suc n) ''..'')" if up
        using that unfolding kept_segments_def by (intro exI[of _ "[]"] exI[of _ "Suc n"]) simp
      then show ?thesis using 2 Nil st by (cases n) (auto simp: kept_segments_def)
    next
      case (Cons name rest)
      then have "kept_segments up (rest @ replicate n ''..'')" using st unfolding kept_segments_def by fastforce
      then show ?thesis using 2 Cons st by simp
    qed
  next
    case 3
    have "kept_segments up ((segment # names) @ replicate n ''..'')"
      unfolding kept_segments_def using st 3 assms(2) by (intro exI[of _ "segment # names"] exI[of _ n]) simp
    then show ?thesis using 3 st(1) by simp
  qed
qed

lemma kept_segments_free: "kept_segments up stack \<Longrightarrow> s \<in> set stack \<Longrightarrow> s \<noteq> [] \<and> slash \<notin> set s"
  by (force simp: kept_segments_def list_all_iff)

lemma path_segment_empty [simp]: "path_segment up stack [] = stack"
  by simp

lemma path_segment_name [simp]:
  "s \<noteq> '''' \<Longrightarrow> s \<noteq> ''.'' \<Longrightarrow> s \<noteq> ''..'' \<Longrightarrow> path_segment up stack s = s # stack"
  by simp

lemma path_segment_dots: "path_segment True (replicate m ''..'') ''..'' = ''..'' # replicate m ''..''"
  by (cases m) simp_all

declare path_segment.simps [simp del]

lemma kept_fold:
  "kept_segments up stack \<Longrightarrow> list_all (\<lambda>s. slash \<notin> set s) segments \<Longrightarrow>
    kept_segments up (foldl (path_segment up) stack segments)"
  by (induction segments arbitrary: stack) (auto intro: kept_segment)

lemma fold_kept:
  assumes "kept_segments up stack"
  shows "foldl (path_segment up) [] (rev stack) = stack"
proof -
  obtain names n where st: "stack = names @ replicate n ''..''"
    "list_all (\<lambda>s. s \<noteq> '''' \<and> s \<noteq> ''.'' \<and> s \<noteq> ''..'' \<and> slash \<notin> set s) names" "n = 0 \<or> up"
    using assms by (auto simp: kept_segments_def)
  have "foldl (path_segment True) (replicate m ''..'') (replicate k ''..'') = replicate (k + m) ''..''" for k m
  proof (induction k arbitrary: m)
    case (Suc k)
    have "foldl (path_segment True) (replicate m ''..'') (replicate (Suc k) ''..'')
        = foldl (path_segment True) (replicate (Suc m) ''..'') (replicate k ''..'')" by (simp add: path_segment_dots)
    then show ?case using Suc.IH[of "Suc m"] by simp
  qed simp
  from this[of 0 n] have dots: "foldl (path_segment up) [] (replicate n ''..'') = replicate n ''..''" using st(3) by (cases up) auto
  have "foldl (path_segment up) dotted (rev names) = names @ dotted" for dotted
    using st(2) by (induction names) simp_all
  then show ?thesis using dots st(1) by simp
qed

text \<open>The normalized string of segments is a fixpoint.\<close>

lemma normalizeString_fixpoint:
  assumes "normalizeString up path = p" and "p \<noteq> []"
  shows "normalizeString up p = p" "normalizeString up (slash # p) = p"
    "normalizeString up (p @ [slash]) = p" "normalizeString up (slash # p @ [slash]) = p"
proof -
  define stack where "stack = foldl (path_segment up) [] (split_string slash path)"
  have k: "kept_segments up stack" unfolding stack_def
    by (rule kept_fold) (auto simp: kept_segments_def list_all_iff split_string_parts)
  have p: "p = join_strings [slash] (rev stack)" using assms(1) by (simp add: normalizeString_def stack_def)
  have ne: "rev stack \<noteq> []" using assms(2) p by auto
  have free: "list_all (\<lambda>s. slash \<notin> set s) (rev stack)" using kept_segments_free[OF k] by (simp add: list_all_iff)
  have split: "split_string slash p = rev stack" unfolding p by (rule split_join[OF ne free])
  have after: "split_string slash (s @ [slash]) = split_string slash s @ [[]]" for s
    by (induction s) (auto split: list.splits)
  show "normalizeString up p = p" using fold_kept[OF k] by (simp add: normalizeString_def split p[symmetric])
  show "normalizeString up (slash # p) = p" using fold_kept[OF k] by (simp add: normalizeString_def split p[symmetric])
  show "normalizeString up (p @ [slash]) = p" using fold_kept[OF k] by (simp add: normalizeString_def split after p[symmetric])
  show "normalizeString up (slash # p @ [slash]) = p" using fold_kept[OF k] by (simp add: normalizeString_def split after p[symmetric])
qed

text \<open>A normalized string neither starts nor ends with a slash.\<close>

lemma normalizeString_ends:
  assumes "normalizeString up path \<noteq> []"
  shows "hd (normalizeString up path) \<noteq> slash" "last (normalizeString up path) \<noteq> slash"
proof -
  define stack where "stack = foldl (path_segment up) [] (split_string slash path)"
  have k: "kept_segments up stack" unfolding stack_def
    by (rule kept_fold) (auto simp: kept_segments_def list_all_iff split_string_parts)
  have seg: "s \<noteq> [] \<and> slash \<notin> set s" if "s \<in> set (rev stack)" for s
    using kept_segments_free[OF k] that by simp
  have ne: "rev stack \<noteq> []" using assms by (auto simp: normalizeString_def stack_def)
  have ends: "x \<noteq> [] \<Longrightarrow> slash \<notin> set x \<Longrightarrow> hd x \<noteq> slash \<and> last x \<noteq> slash" for x by (metis hd_in_set last_in_set)
  have "ss \<noteq> [] \<Longrightarrow> (\<And>s. s \<in> set ss \<Longrightarrow> s \<noteq> [] \<and> slash \<notin> set s) \<Longrightarrow>
      hd (join_strings [slash] ss) \<noteq> slash \<and> last (join_strings [slash] ss) \<noteq> slash \<and> join_strings [slash] ss \<noteq> []" for ss
    by (induction "[slash]" ss rule: join_strings.induct) (auto simp: hd_append ends)
  from this[OF ne] show "hd (normalizeString up path) \<noteq> slash" "last (normalizeString up path) \<noteq> slash"
    using seg by (auto simp: normalizeString_def stack_def)
qed

lemma posix_normalize_idem: "posix_normalize (posix_normalize path) = posix_normalize path"
proof (cases "path = []")
  case False
  define up where "up = (hd path \<noteq> slash)"
  define p where "p = normalizeString up path"
  show ?thesis
  proof (cases "p = []")
    case True
    then have "posix_normalize path \<in> {[slash], ''./'', ''.''}"
      using False by (simp add: posix_normalize_def Let_def p_def up_def)
    moreover have "posix_normalize [slash] = [slash]" "posix_normalize ''./'' = ''./''" "posix_normalize ''.'' = ''.''"
      by code_simp+
    ultimately show ?thesis by auto
  next
    case p: False
    have e: "hd p \<noteq> slash" "last p \<noteq> slash" using normalizeString_ends p by (auto simp: p_def)
    note again = normalizeString_fixpoint[of up path p, OF p_def[symmetric] p]
    have absolute: "(hd path = slash) = (\<not> up)" by (simp add: up_def)
    define q where "q = (if up then [] else [slash]) @ p @ (if last path = slash then [slash] else [])"
    have n: "posix_normalize path = q" using False p by (simp add: posix_normalize_def Let_def absolute p_def[symmetric] q_def)
    have q: "q \<noteq> []" "(hd q = slash) = (\<not> up)" "(last q = slash) = (last path = slash)" "normalizeString up q = p"
      using p e again by (cases up; simp add: q_def hd_append)+
    show ?thesis unfolding n using q p by (simp add: posix_normalize_def Let_def) (simp add: q_def)
  qed
next
  case True
  then show ?thesis by simp code_simp
qed

end
