(* ===== verification/ChunkDependencies.thy ===== *)
theory ChunkDependencies
  imports NodePath JsChecks
begin

text \<open>
  The dependency contract of official-output chunks
  (\<open>scripts/lib/convex-wasm-official-output-chunk-contract.mjs\<close>): executable dependency specifiers, the
  normalization of a unit's dependencies, the match of import initializations with import bindings,
  the topology of the numbered units, and the identities of reusable code.

  A unit whose parts have been validated is the record \<open>chunk_unit\<close>; \<open>sha256\<close> is the hash of a string's
  UTF-8 bytes.
\<close>

section \<open>Executable specifiers\<close>

definition dependency_kinds :: "string list" where
  "dependency_kinds = [''dynamic-import'', ''import-statement'', ''import-initialization'']"

definition initialization_prefix :: string where
  "initialization_prefix = ''./__convex_wasm_import_initialization_''"

definition dependency_prefix :: string where
  "dependency_prefix = ''./__convex_wasm_dependency_''"

definition createConvexWasmOfficialOutputExecutableDependencySpecifier :: "jsval \<Rightarrow> jsval \<Rightarrow> jsval \<Rightarrow> string res" where
  "createConvexWasmOfficialOutputExecutableDependencySpecifier kind nativeSymbolIdentitySha256 occurrence =
     (case (kind, nativeSymbolIdentitySha256, occurrence) of
        (JStr k, JStr sha, JNum n) \<Rightarrow>
          if k \<notin> set dependency_kinds \<or> \<not> SHA256_PATTERN sha \<or> \<not> isSafeInteger n \<or> num_int n < 0 \<or> num_int n > 99999999
          then fail ''official-output executable dependency identity is invalid''
          else
            let digits = padStart 8 CHR ''0'' (show_int (num_int n)) in
            if k = ''import-initialization'' then Inr (initialization_prefix @ digits @ ''.js'')
            else Inr (dependency_prefix @ replaceAll CHR ''-'' CHR ''_'' k @ ''_'' @ sha @ ''_'' @ digits @ ''.js'')
      | _ \<Rightarrow> fail ''official-output executable dependency identity is invalid'')"

record executable_identity =
  executableKind :: string
  executableSymbol :: "string option"
  executableOccurrence :: int

text \<open>\<open>([0-9]{8})\.js$\<close>.\<close>

definition match_occurrence :: "string \<Rightarrow> string option" where
  "match_occurrence s = (if length s = 11 \<and> list_all is_digit (take 8 s) \<and> drop 8 s = ''.js'' then Some (take 8 s) else None)"

text \<open>\<open>IMPORT_INITIALIZATION_SPECIFIER_PATTERN\<close> and \<open>EXECUTABLE_DEPENDENCY_SPECIFIER_PATTERN\<close>, with the
  captured groups.\<close>

definition match_initialization :: "string \<Rightarrow> string option" where
  "match_initialization s = (case strip_prefix initialization_prefix s of None \<Rightarrow> None | Some r \<Rightarrow> match_occurrence r)"

definition match_symbol :: "string \<Rightarrow> (string \<times> string) option" where
  "match_symbol s =
     (let sha = take 64 s in
      if length s > 64 \<and> SHA256_PATTERN sha \<and> s ! 64 = CHR ''_''
      then map_option (\<lambda>digits. (sha, digits)) (match_occurrence (drop 65 s)) else None)"

definition match_dependency :: "string \<Rightarrow> (string \<times> string \<times> string) option" where
  "match_dependency s =
     (case strip_prefix dependency_prefix s of
        None \<Rightarrow> None
      | Some r \<Rightarrow>
          (case strip_prefix ''dynamic_import_'' r of
             Some x \<Rightarrow> map_option (\<lambda>(sha, digits). (''dynamic_import'', sha, digits)) (match_symbol x)
           | None \<Rightarrow>
               (case strip_prefix ''import_statement_'' r of
                  Some x \<Rightarrow> map_option (\<lambda>(sha, digits). (''import_statement'', sha, digits)) (match_symbol x)
                | None \<Rightarrow> None)))"

definition parse_specifier :: "string \<Rightarrow> executable_identity res" where
  "parse_specifier s =
     (case match_initialization s of
        Some digits \<Rightarrow> Inr \<lparr>executableKind = ''import-initialization'', executableSymbol = None, executableOccurrence = int (read_nat 0 digits)\<rparr>
      | None \<Rightarrow>
          (case match_dependency s of
             Some (kind, sha, digits) \<Rightarrow> Inr \<lparr>executableKind = replaceAll CHR ''_'' CHR ''-'' kind, executableSymbol = Some sha,
               executableOccurrence = int (read_nat 0 digits)\<rparr>
           | None \<Rightarrow> fail ''official-output executable dependency specifier is invalid''))"

definition parseConvexWasmOfficialOutputExecutableDependencySpecifier :: "jsval \<Rightarrow> executable_identity res" where
  "parseConvexWasmOfficialOutputExecutableDependencySpecifier specifier =
     (case specifier of JStr s \<Rightarrow> parse_specifier s
      | _ \<Rightarrow> fail ''official-output executable dependency specifier is invalid'')"

text \<open>A relative specifier without empty, \<open>.\<close> or inner \<open>..\<close> components.\<close>

definition isNormalizedConvexWasmOfficialOutputDependencySpecifier :: "string \<Rightarrow> bool" where
  "isNormalizedConvexWasmOfficialOutputDependencySpecifier specifier =
     (let components = split_string slash specifier;
          rest = (if hd components = ''.'' then tl components else dropWhile (\<lambda>c. c = ''..'') components) in
      CHR 0x5C \<notin> set specifier \<and> (hd components = ''.'' \<or> hd components = ''..'') \<and> rest \<noteq> []
      \<and> list_all (\<lambda>c. c \<noteq> [] \<and> c \<noteq> ''.'' \<and> c \<noteq> ''..'') rest)"

section \<open>Dependencies of a unit\<close>

record chunk_dependency =
  executableSpecifier :: string
  dependencyKind :: string
  dependencyPath :: string
  dependencySlot :: int
  dependencySpecifier :: string

definition dependency_json :: "chunk_dependency \<Rightarrow> jsval" where
  "dependency_json d = JObj [(''executableSpecifier'', JStr (executableSpecifier d)), (''kind'', JStr (dependencyKind d)),
     (''path'', JStr (dependencyPath d)), (''slot'', JNum (NInt (dependencySlot d))), (''specifier'', JStr (dependencySpecifier d))]"

definition compareInts :: "int \<Rightarrow> int \<Rightarrow> int" where
  "compareInts left right = left - right"

definition occurrences_are_indexes :: "int list \<Rightarrow> bool" where
  "occurrences_are_indexes occurrences \<longleftrightarrow> js_sort compareInts occurrences = map int [0..<length occurrences]"

definition read_dependency :: "int \<Rightarrow> string \<Rightarrow> nat \<Rightarrow> jsval \<Rightarrow> chunk_dependency res" where
  "read_dependency namespaceSlotCount unitDescription dependencyIndex dependency =
     (let description = unitDescription @ '' dependency '' @ show_nat dependencyIndex;
          manifest = (\<lambda>value name. requireManifestString value (description @ name) 4096 False) in
      bindR (requireExactPlainObject dependency [''executableSpecifier'', ''kind'', ''path'', ''slot'', ''specifier''] description) (\<lambda>value.
      case (own_prop value ''kind'', own_prop value ''slot'') of
        (JStr kind, JNum n) \<Rightarrow>
          bindR (failWhen (kind \<notin> set dependency_kinds \<or> \<not> isSafeInteger n \<or> num_int n < 0 \<or> num_int n \<ge> namespaceSlotCount)
            (description @ '' is invalid'')) (\<lambda>_.
          bindR (manifest (own_prop value ''executableSpecifier'') '' executable specifier'') (\<lambda>executable.
          bindR (parse_specifier executable) (\<lambda>identity.
          bindR (failWhen (executableKind identity \<noteq> kind) (description @ '' executable specifier kind is invalid'')) (\<lambda>_.
          bindR (manifest (own_prop value ''path'') '' path'') (\<lambda>path.
          bindR (manifest (own_prop value ''specifier'') '' specifier'') (\<lambda>specifier.
          Inr \<lparr>executableSpecifier = executable, dependencyKind = kind, dependencyPath = path, dependencySlot = num_int n,
            dependencySpecifier = specifier\<rparr>))))))
      | _ \<Rightarrow> fail (description @ '' is invalid'')))"

definition occurrence_of :: "chunk_dependency \<Rightarrow> int res" where
  "occurrence_of d = bindR (parse_specifier (executableSpecifier d)) (\<lambda>identity. Inr (executableOccurrence identity))"

text \<open>The loop over the initializations: each takes the binding of its slot.\<close>

definition take_binding :: "string \<Rightarrow> (int \<Rightarrow> chunk_dependency option) \<Rightarrow> chunk_dependency \<Rightarrow> (int \<Rightarrow> chunk_dependency option) res" where
  "take_binding description bindings d =
     (case bindings (dependencySlot d) of
        None \<Rightarrow> fail (description @ '' import initialization does not match its bindings'')
      | Some binding \<Rightarrow>
          if dependencyPath binding \<noteq> dependencyPath d \<or> dependencySpecifier binding \<noteq> dependencySpecifier d
          then fail (description @ '' import initialization does not match its bindings'')
          else Inr (bindings(dependencySlot d := None)))"

definition initializations_of :: "chunk_dependency list \<Rightarrow> chunk_dependency list" where
  "initializations_of dependencies = filter (\<lambda>d. dependencyKind d = ''import-initialization'') dependencies"

definition imports_of :: "chunk_dependency list \<Rightarrow> chunk_dependency list" where
  "imports_of dependencies = filter (\<lambda>d. dependencyKind d = ''import-statement'') dependencies"

definition validateConvexWasmImportInitializationDependencies :: "chunk_dependency list \<Rightarrow> string \<Rightarrow> unit res" where
  "validateConvexWasmImportInitializationDependencies dependencies description =
     (let initialization = initializations_of dependencies; imported = imports_of dependencies;
          bindings = map_of (rev (map (\<lambda>d. (dependencySlot d, d)) imported)) in
      if initialization = [] then Inr ()
      else
        bindR (mapR occurrence_of initialization) (\<lambda>ordinals.
        bindR (failWhen (length initialization \<noteq> length imported
            \<or> length initialization \<noteq> length (remdups (map dependencySlot imported)) \<or> \<not> occurrences_are_indexes ordinals)
          (description @ '' import initialization is incomplete'')) (\<lambda>_.
        bindR (foldR (take_binding description) bindings initialization) (\<lambda>_. Inr ()))))"

definition normalizeConvexWasmOfficialOutputChunkDependencies :: "jsval \<Rightarrow> int \<Rightarrow> string \<Rightarrow> chunk_dependency list res" where
  "normalizeConvexWasmOfficialOutputChunkDependencies dependencies namespaceSlotCount unitDescription =
     (case dependencies of
        JArr items \<Rightarrow>
          bindR (mapiR (read_dependency namespaceSlotCount unitDescription) 0 items) (\<lambda>normalized.
          bindR (failWhen (\<not> distinct (map executableSpecifier normalized))
            (unitDescription @ '' repeats an executable dependency specifier'')) (\<lambda>_.
          bindR (mapR occurrence_of normalized) (\<lambda>occurrences.
          bindR (failWhen (\<not> occurrences_are_indexes occurrences)
            (unitDescription @ '' executable dependency occurrences are invalid'')) (\<lambda>_.
          bindR (validateConvexWasmImportInitializationDependencies normalized unitDescription) (\<lambda>_.
          Inr normalized)))))
      | _ \<Rightarrow> fail (unitDescription @ '' dependencies are invalid''))"

section \<open>Topology\<close>

record chunk_unit =
  unitSlot :: int
  unitDependencies :: "chunk_dependency list"
  unitPublication :: bool
  unitJavascript :: jsval
  unitKind :: string
  unitModulePath :: "string option"
  unitLocator :: jsval
  unitSymbol :: string
  unitTransform :: jsval

text \<open>\<open>units[slot].module.path\<close>: an absent unit or a unit without a module throws.\<close>

definition module_path_at :: "chunk_unit list \<Rightarrow> int \<Rightarrow> string res" where
  "module_path_at units slot =
     (if 0 \<le> slot \<and> nat slot < length units
      then case unitModulePath (units ! nat slot) of Some p \<Rightarrow> Inr p | None \<Rightarrow> Inl (TypeError ''path'')
      else Inl (TypeError ''module''))"

definition own_module_path :: "chunk_unit \<Rightarrow> string res" where
  "own_module_path u = (case unitModulePath u of Some p \<Rightarrow> Inr p | None \<Rightarrow> Inl (TypeError ''path''))"

definition resolve_specifier :: "string \<Rightarrow> string \<Rightarrow> string" where
  "resolve_specifier modulePath specifier = posix_normalize (posix_join (posix_dirname modulePath) specifier)"

definition check_canonical_order :: "string \<Rightarrow> chunk_unit \<Rightarrow> string option \<Rightarrow> chunk_dependency \<Rightarrow> string option res" where
  "check_canonical_order label unit previous d =
     (if length (unitDependencies unit) \<le> 1 then Inr previous
      else bindR (canonicalJson (dependency_json d)) (\<lambda>text.
        bindR (failWhen (case previous of None \<Rightarrow> False | Some p \<Rightarrow> text \<le> p) (label @ '' dependencies are not canonical'')) (\<lambda>_.
        Inr (Some text))))"

definition check_dependency_binding :: "chunk_unit list \<Rightarrow> string \<Rightarrow> nat \<Rightarrow> chunk_unit \<Rightarrow> nat \<Rightarrow> chunk_dependency \<Rightarrow> unit res" where
  "check_dependency_binding units label unitIndex unit dependencyIndex d =
     (let name = label @ '' dependency '' @ show_nat dependencyIndex in
      bindR (if \<not> isNormalizedConvexWasmOfficialOutputDependencySpecifier (executableSpecifier d)
                \<or> \<not> isNormalizedConvexWasmOfficialOutputDependencySpecifier (dependencySpecifier d) then Inr False
             else bindR (own_module_path unit) (\<lambda>p. Inr (resolve_specifier p (dependencySpecifier d) = dependencyPath d))) (\<lambda>resolves.
      bindR (failWhen (\<not> resolves) (name @ '' does not resolve to its module path'')) (\<lambda>_.
      bindR (failWhen (dependencySlot d = int unitIndex) (name @ '' cannot bind its own slot'')) (\<lambda>_.
      bindR (module_path_at units (dependencySlot d)) (\<lambda>path.
      bindR (failWhen (path \<noteq> dependencyPath d) (name @ '' slot does not bind its module path'')) (\<lambda>_.
      bindR (parse_specifier (executableSpecifier d)) (\<lambda>identity.
      failWhen (executableKind identity \<noteq> ''import-initialization''
          \<and> executableSymbol identity \<noteq> Some (unitSymbol (units ! nat (dependencySlot d))))
        (name @ '' executable specifier does not bind its module slot''))))))))"

definition check_unit_dependencies :: "chunk_unit list \<Rightarrow> string \<Rightarrow> nat \<Rightarrow> chunk_unit \<Rightarrow> unit res" where
  "check_unit_dependencies units description unitIndex unit =
     (let label = description @ '' unit '' @ show_nat unitIndex in
      bindR (foldR (\<lambda>previous (dependencyIndex, d).
          bindR (check_canonical_order label unit previous d) (\<lambda>next.
          bindR (check_dependency_binding units label unitIndex unit dependencyIndex d) (\<lambda>_. Inr next)))
        None (zip [0..<length (unitDependencies unit)] (unitDependencies unit))) (\<lambda>_. Inr ()))"

definition validateConvexWasmOfficialOutputChunkDependencyTopology :: "nat \<Rightarrow> string \<Rightarrow> chunk_unit list \<Rightarrow> unit res" where
  "validateConvexWasmOfficialOutputChunkDependencyTopology chunkSlotCount description units =
     bindR (mapiR (check_unit_dependencies units description) 0 (take chunkSlotCount units)) (\<lambda>_. Inr ())"

section \<open>Reusable code\<close>

definition intrinsic_json :: "chunk_unit \<Rightarrow> jsval" where
  "intrinsic_json u = JObj [(''domain'', JStr ''convex-wasm-official-output-chunk-intrinsic-code-v3''), (''javascript'', unitJavascript u),
     (''kind'', JStr (unitKind u)), (''nativeSymbolLocator'', unitLocator u), (''transform'', unitTransform u)]"

definition publication_json :: "chunk_unit \<Rightarrow> jsval" where
  "publication_json u = JObj [(''domain'', JStr ''convex-wasm-official-output-entry-publication-code-v2''),
     (''javascript'', unitJavascript u), (''kind'', JStr (unitKind u))]"

definition logical_dependency_json :: "chunk_dependency \<Rightarrow> jsval" where
  "logical_dependency_json d = JObj [(''executableSpecifier'', JStr (executableSpecifier d)), (''kind'', JStr (dependencyKind d))]"

definition reusable_json :: "jsval list \<Rightarrow> string \<Rightarrow> jsval" where
  "reusable_json dependencies intrinsic = JObj [(''dependencies'', JArr dependencies),
     (''domain'', JStr ''convex-wasm-official-output-chunk-reusable-code-v3''), (''intrinsicIdentitySha256'', JStr intrinsic)]"

definition sorted_logical_dependencies :: "chunk_dependency list \<Rightarrow> jsval list res" where
  "sorted_logical_dependencies dependencies =
     bindR (mapR (\<lambda>d. bindR (canonicalJson (logical_dependency_json d)) (\<lambda>text. Inr (text, logical_dependency_json d))) dependencies)
       (\<lambda>keyed. Inr (map snd (js_sort (compareBy fst) keyed)))"

definition reusable_identity :: "(string \<Rightarrow> string) \<Rightarrow> (string \<Rightarrow> string option) \<Rightarrow> chunk_unit \<Rightarrow> string res" where
  "reusable_identity sha256 intrinsicIdentitySha256ByPath u =
     (if unitPublication u then fingerprintJson sha256 (publication_json u)
      else
        bindR (failWhen (list_ex (\<lambda>d. intrinsicIdentitySha256ByPath (dependencyPath d) = None) (unitDependencies u))
          (''official-output reusable-code identity unit '' @ show_int (unitSlot u) @ '' has an absent dependency'')) (\<lambda>_.
        bindR (sorted_logical_dependencies (unitDependencies u)) (\<lambda>dependencies.
        bindR (own_module_path u) (\<lambda>path.
        case intrinsicIdentitySha256ByPath path of
          Some intrinsic \<Rightarrow> fingerprintJson sha256 (reusable_json dependencies intrinsic)
        | None \<Rightarrow> fail ''canonical JSON value.intrinsicIdentitySha256 must be a plain object''))))"

definition deriveConvexWasmOfficialOutputReusableCodeIdentitySha256s ::
  "(string \<Rightarrow> string) \<Rightarrow> int \<Rightarrow> chunk_unit list \<Rightarrow> string list res" where
  "deriveConvexWasmOfficialOutputReusableCodeIdentitySha256s sha256 chunkSlotCount units =
     bindR (failWhen (chunkSlotCount < 1 \<or> chunkSlotCount > int (length units)
         \<or> list_ex (\<lambda>(i, u). unitPublication u \<noteq> (int i \<ge> chunkSlotCount)) (zip [0..<length units] units))
       ''official-output reusable-code identity units have an invalid publication boundary'') (\<lambda>_.
     bindR (mapR (\<lambda>u. bindR (own_module_path u) (\<lambda>path. bindR (fingerprintJson sha256 (intrinsic_json u)) (\<lambda>h. Inr (path, h))))
       (take (nat chunkSlotCount) units)) (\<lambda>intrinsic.
     bindR (failWhen (\<not> distinct (map fst intrinsic))
       ''official-output reusable-code identity units repeat a chunk module path'') (\<lambda>_.
     mapR (reusable_identity sha256 (map_of intrinsic)) units)))"

end
