(* ===== verification/NativeSymbol.thy ===== *)
theory NativeSymbol
  imports NodePath JsChecks
begin

text \<open>
  Native symbol identities (\<open>scripts/lib/convex-wasm-native-symbol-identity.mjs\<close>): the lexical
  normalization of source-map names, the identity of a chunk's source membership, the locator of a
  chunk's symbols and the digest that names them. \<open>sha256\<close> is the hash of a string's UTF-8 bytes.
\<close>

section \<open>Checks\<close>

definition symbol_fail :: "string \<Rightarrow> 'a res" where
  "symbol_fail message = Inl (Error (''Convex Wasm native symbol identity: '' @ message))"

definition symbol_string :: "jsval \<Rightarrow> string \<Rightarrow> string res" where
  "symbol_string value description =
     (case value of
        JStr s \<Rightarrow> if s = [] \<or> CHR 0x00 \<in> set s then symbol_fail (description @ '' must be a non-empty string without NUL bytes'') else Inr s
      | _ \<Rightarrow> symbol_fail (description @ '' must be a non-empty string without NUL bytes''))"

definition symbol_sha256 :: "jsval \<Rightarrow> string \<Rightarrow> string res" where
  "symbol_sha256 value description =
     (case value of
        JStr s \<Rightarrow> if SHA256_PATTERN s then Inr s else symbol_fail (description @ '' must be a lowercase SHA-256 digest'')
      | _ \<Rightarrow> symbol_fail (description @ '' must be a lowercase SHA-256 digest''))"

definition symbol_requireExactKeys :: "jsval \<Rightarrow> string list \<Rightarrow> string \<Rightarrow> (string \<times> jsval) list res" where
  "symbol_requireExactKeys value expectedKeys description =
     (let check = (\<lambda>kvs. if sort_strings (map fst kvs) \<noteq> sort_strings expectedKeys
                         then symbol_fail (description @ '' fields are invalid'') else Inr kvs) in
      case value of
        JObj kvs \<Rightarrow> check kvs
      | JInst kvs \<Rightarrow> check kvs
      | _ \<Rightarrow> symbol_fail (description @ '' must be an object''))"

text \<open>The module's own \<open>canonicalJson\<close>, which sorts every object's keys as strings.\<close>

fun symbol_canonicalJson :: "jsval \<Rightarrow> string res" where
  "symbol_canonicalJson (JArr vs) = bindR (mapR symbol_canonicalJson vs) (\<lambda>ts. Inr (''['' @ join_strings '','' ts @ '']''))"
| "symbol_canonicalJson (JObj kvs) =
     bindR (mapR (\<lambda>(k, v). bindR (symbol_canonicalJson v) (\<lambda>t. Inr (quote_string k @ '':'' @ t))) (sort_entries kvs)) (\<lambda>ts.
     Inr (''{'' @ join_strings '','' ts @ ''}''))"
| "symbol_canonicalJson (JInst kvs) =
     bindR (mapR (\<lambda>(k, v). bindR (symbol_canonicalJson v) (\<lambda>t. Inr (quote_string k @ '':'' @ t))) (sort_entries kvs)) (\<lambda>ts.
     Inr (''{'' @ join_strings '','' ts @ ''}''))"
| "symbol_canonicalJson JUndefined = symbol_fail ''locator contains an unsupported value''"
| "symbol_canonicalJson JOther = symbol_fail ''locator contains an unsupported value''"
| "symbol_canonicalJson v = Inr (stringify v)"

section \<open>Source-map names\<close>

definition scheme_letter :: "char \<Rightarrow> bool" where
  "scheme_letter c \<longleftrightarrow> (let n = (of_char c :: nat) in (97 \<le> n \<and> n \<le> 122) \<or> (65 \<le> n \<and> n \<le> 90))"

definition scheme_char :: "char \<Rightarrow> bool" where
  "scheme_char c \<longleftrightarrow> scheme_letter c \<or> is_digit c \<or> c \<in> {CHR ''+'', CHR ''.'', CHR ''-''}"

text \<open>\<open>/^([a-z][a-z\d+.-]*:)/iu\<close>, with the rest of the text.\<close>

definition split_scheme :: "string \<Rightarrow> (string \<times> string) option" where
  "split_scheme s =
     (case s of
        [] \<Rightarrow> None
      | c # cs \<Rightarrow>
          if \<not> scheme_letter c then None
          else (case dropWhile scheme_char cs of
                  [] \<Rightarrow> None
                | d # r \<Rightarrow> if d = CHR '':'' then Some (c # takeWhile scheme_char cs @ [d], r) else None))"

text \<open>A dot in a pattern matches no line terminator.\<close>

definition line_terminator :: "char \<Rightarrow> bool" where
  "line_terminator c \<longleftrightarrow> c \<in> {CHR 0x0A, CHR 0x0D}"

text \<open>\<open>/^([a-z][a-z\d+.-]*:)?\/\/([^/]*)(.*)$/iu\<close>.\<close>

definition match_authority :: "string \<Rightarrow> (string \<times> string \<times> string) option" where
  "match_authority hierarchy =
     (let (scheme, rest) = (case split_scheme hierarchy of
            Some (p, r) \<Rightarrow> if strip_prefix ''//'' r = None then ([], hierarchy) else (p, r)
          | None \<Rightarrow> ([], hierarchy)) in
      case strip_prefix ''//'' rest of
        None \<Rightarrow> None
      | Some x \<Rightarrow>
          let path = dropWhile (\<lambda>c. c \<noteq> slash) x in
          if list_ex line_terminator path then None else Some (scheme, takeWhile (\<lambda>c. c \<noteq> slash) x, path))"

definition starts_with_slash :: "string \<Rightarrow> bool" where
  "starts_with_slash s \<longleftrightarrow> strip_prefix [slash] s \<noteq> None"

text \<open>\<open>/^file:/iu\<close>.\<close>

definition file_scheme :: "string \<Rightarrow> bool" where
  "file_scheme s \<longleftrightarrow> length s \<ge> 5 \<and> map (\<lambda>c. (of_char c :: nat) mod 32) (take 4 s) = [6, 9, 12, 5]
     \<and> list_all scheme_letter (take 4 s) \<and> s ! 4 = CHR '':''"

definition normalizeHierarchy :: "string \<Rightarrow> string" where
  "normalizeHierarchy hierarchy =
     (case match_authority hierarchy of
        Some (scheme, host, rest) \<Rightarrow>
          let path = posix_normalize (if rest = [] then [slash] else rest) in
          scheme @ ''//'' @ host @ (if starts_with_slash path then path else slash # path)
      | None \<Rightarrow>
          if file_scheme hierarchy then
            let rawPath = drop 5 hierarchy in
            ''file://'' @ posix_normalize (if starts_with_slash rawPath then rawPath else slash # rawPath)
          else (case split_scheme hierarchy of
              Some (scheme, rest) \<Rightarrow>
                if starts_with_slash rest \<and> \<not> list_ex line_terminator rest then scheme @ posix_normalize rest else hierarchy
            | None \<Rightarrow>
                if hierarchy = [] then []
                else let normalizedPath = posix_normalize hierarchy in
                  if split_scheme normalizedPath \<noteq> None then ''./'' @ normalizedPath else normalizedPath))"

definition suffix_start :: "char \<Rightarrow> bool" where
  "suffix_start c \<longleftrightarrow> c \<in> {CHR ''?'', CHR ''#''}"

definition normalizeSourceMapMembershipName :: "string \<Rightarrow> string" where
  "normalizeSourceMapMembershipName value =
     normalizeHierarchy (takeWhile (\<lambda>c. \<not> suffix_start c) value) @ dropWhile (\<lambda>c. \<not> suffix_start c) value"

definition ends_with_slash :: "string \<Rightarrow> bool" where
  "ends_with_slash s \<longleftrightarrow> s \<noteq> [] \<and> last s = slash"

definition effectiveSourceMapMembershipName :: "string option \<Rightarrow> string \<Rightarrow> string" where
  "effectiveSourceMapMembershipName sourceRoot source =
     (case sourceRoot of
        None \<Rightarrow> normalizeSourceMapMembershipName source
      | Some root \<Rightarrow>
          if root = [] then normalizeSourceMapMembershipName source
          else normalizeSourceMapMembershipName
            (root @ (if ends_with_slash root \<or> starts_with_slash source then [] else [slash]) @ source))"

definition convexWasmOfficialOutputSourceMembershipDomain :: string where
  "convexWasmOfficialOutputSourceMembershipDomain = ''convex-wasm-official-output-source-membership-v2''"

definition read_source_root :: "jsval \<Rightarrow> string option res" where
  "read_source_root sourceRoot =
     (case sourceRoot of
        JUndefined \<Rightarrow> Inr None
      | JStr root \<Rightarrow> if CHR 0x00 \<in> set root then symbol_fail ''source-map sourceRoot must be a string without NUL bytes when present''
                     else Inr (Some root)
      | _ \<Rightarrow> symbol_fail ''source-map sourceRoot must be a string without NUL bytes when present'')"

definition source_membership_json :: "string list \<Rightarrow> jsval" where
  "source_membership_json names =
     JObj [(''domain'', JStr convexWasmOfficialOutputSourceMembershipDomain), (''sources'', JArr (map JStr names))]"

definition convexWasmOfficialOutputSourceMembershipIdentitySha256 :: "(string \<Rightarrow> string) \<Rightarrow> jsval \<Rightarrow> jsval \<Rightarrow> string res" where
  "convexWasmOfficialOutputSourceMembershipIdentitySha256 sha256 sourceRoot sources =
     (case sources of
        JArr items \<Rightarrow>
          bindR (read_source_root sourceRoot) (\<lambda>root.
          bindR (mapiR (\<lambda>index source. bindR (symbol_string source (''source-map source '' @ show_nat index)) (\<lambda>s.
            Inr (effectiveSourceMapMembershipName root s))) 0 items) (\<lambda>names.
          bindR (symbol_canonicalJson (source_membership_json (remdups_adj (sort_strings names)))) (\<lambda>json. Inr (sha256 json))))
      | _ \<Rightarrow> symbol_fail ''source-map sources must be an array'')"

section \<open>Locators\<close>

definition convexWasmOfficialOutputChunkNativeSymbolAbi :: string where
  "convexWasmOfficialOutputChunkNativeSymbolAbi = ''convex-wasm-official-output-chunk-native-symbol-abi-v1''"

definition convexWasmOfficialOutputChunkNativeSymbolLocatorKind :: string where
  "convexWasmOfficialOutputChunkNativeSymbolLocatorKind = ''convex-wasm-official-output-chunk-native-symbol-locator-v5''"

definition convexWasmOfficialOutputNativeSymbolLocatorDomain :: string where
  "convexWasmOfficialOutputNativeSymbolLocatorDomain = ''convex-wasm-official-output-native-symbol-locator-v6''"

record import_edge =
  edgeKind :: string
  edgeOccurrence :: int

record symbol_locator =
  bindingEntryPath :: string
  bindingImports :: "import_edge list"
  canonicalEntryPath :: "string option"
  locatorMembershipSha256 :: string

definition read_import_edge :: "nat \<Rightarrow> jsval \<Rightarrow> import_edge res" where
  "read_import_edge index imported =
     (let description = ''chunk binding path import '' @ show_nat index in
      bindR (symbol_requireExactKeys imported [''kind'', ''occurrence''] description) (\<lambda>edge.
      case own_prop edge ''kind'' of
        JStr kind \<Rightarrow>
          if kind \<notin> {''dynamic-import'', ''import-statement''} then symbol_fail (description @ '' kind is unsupported'')
          else (case own_prop edge ''occurrence'' of
              JNum n \<Rightarrow> if \<not> isSafeInteger n \<or> num_int n < 0 then symbol_fail (description @ '' occurrence is invalid'')
                        else Inr \<lparr>edgeKind = kind, edgeOccurrence = num_int n\<rparr>
            | _ \<Rightarrow> symbol_fail (description @ '' occurrence is invalid''))
      | _ \<Rightarrow> symbol_fail (description @ '' kind is unsupported'')))"

definition normalizeChunkBindingPath :: "jsval \<Rightarrow> (string \<times> import_edge list) res" where
  "normalizeChunkBindingPath value =
     bindR (symbol_requireExactKeys value [''entryPath'', ''imports''] ''chunk binding path'') (\<lambda>bindingPath.
     case own_prop bindingPath ''imports'' of
       JArr imported \<Rightarrow>
         bindR (symbol_string (own_prop bindingPath ''entryPath'') ''chunk binding path entry path'') (\<lambda>entryPath.
         bindR (mapiR read_import_edge 0 imported) (\<lambda>edges. Inr (entryPath, edges)))
     | _ \<Rightarrow> symbol_fail ''chunk binding path imports must be an array'')"

text \<open>The options object is destructured first; \<open>symbolAbi\<close> has a default.\<close>

definition convexWasmOfficialOutputChunkNativeSymbolLocator :: "jsval \<Rightarrow> symbol_locator res" where
  "convexWasmOfficialOutputChunkNativeSymbolLocator options =
     bindR (get_prop ''bindingPath'' options) (\<lambda>bindingPath.
     bindR (get_prop ''canonicalEntryPath'' options) (\<lambda>rawEntryPath.
     bindR (get_prop ''sourceMembershipSha256'' options) (\<lambda>membership.
     bindR (get_prop ''symbolAbi'' options) (\<lambda>symbolAbi.
     bindR (if rawEntryPath = JNull then Inr None
            else bindR (symbol_string rawEntryPath ''chunk canonical entry path'') (\<lambda>s. Inr (Some s))) (\<lambda>entryPath.
     if symbolAbi \<noteq> JUndefined \<and> symbolAbi \<noteq> JStr convexWasmOfficialOutputChunkNativeSymbolAbi
     then symbol_fail ''chunk native-symbol ABI is unsupported''
     else
       bindR (normalizeChunkBindingPath bindingPath) (\<lambda>(bindingEntry, imports).
       if entryPath \<noteq> None \<and> (entryPath \<noteq> Some bindingEntry \<or> imports \<noteq> [])
       then symbol_fail ''chunk canonical entry path disagrees with its stable binding path''
       else bindR (symbol_sha256 membership ''chunk source-membership identity'') (\<lambda>sha.
         Inr \<lparr>bindingEntryPath = bindingEntry, bindingImports = imports, canonicalEntryPath = entryPath,
           locatorMembershipSha256 = sha\<rparr>)))))))"

definition normalizeChunkNativeSymbolLocator :: "jsval \<Rightarrow> symbol_locator res" where
  "normalizeChunkNativeSymbolLocator value =
     bindR (symbol_requireExactKeys value [''bindingPath'', ''canonicalEntryPath'', ''kind'', ''sourceMembershipSha256'', ''symbolAbi'']
       ''chunk native symbol locator'') (\<lambda>locator.
     if own_prop locator ''kind'' \<noteq> JStr convexWasmOfficialOutputChunkNativeSymbolLocatorKind
     then symbol_fail ''chunk native symbol locator kind is unsupported''
     else convexWasmOfficialOutputChunkNativeSymbolLocator value)"

definition import_edge_json :: "import_edge \<Rightarrow> jsval" where
  "import_edge_json e = JObj [(''kind'', JStr (edgeKind e)), (''occurrence'', JNum (NInt (edgeOccurrence e)))]"

definition symbol_locator_json :: "symbol_locator \<Rightarrow> jsval" where
  "symbol_locator_json l = JObj
     [(''bindingPath'', JObj [(''entryPath'', JStr (bindingEntryPath l)), (''imports'', JArr (map import_edge_json (bindingImports l)))]),
      (''canonicalEntryPath'', case canonicalEntryPath l of None \<Rightarrow> JNull | Some s \<Rightarrow> JStr s),
      (''kind'', JStr convexWasmOfficialOutputChunkNativeSymbolLocatorKind),
      (''sourceMembershipSha256'', JStr (locatorMembershipSha256 l)),
      (''symbolAbi'', JStr convexWasmOfficialOutputChunkNativeSymbolAbi)]"

definition publication_locator_json :: "string \<Rightarrow> jsval" where
  "publication_locator_json entryPath = JObj [(''entryPath'', JStr entryPath), (''kind'', JStr ''entry-publication'')]"

definition chunk_locator_json :: "symbol_locator \<Rightarrow> jsval" where
  "chunk_locator_json l = JObj [(''kind'', JStr ''chunk''), (''nativeSymbolLocator'', symbol_locator_json l)]"

definition symbol_identity_json :: "jsval \<Rightarrow> jsval" where
  "symbol_identity_json locator =
     JObj [(''domain'', JStr convexWasmOfficialOutputNativeSymbolLocatorDomain), (''locator'', locator)]"

definition convexWasmOfficialOutputNativeSymbolIdentitySha256 ::
  "(string \<Rightarrow> string) \<Rightarrow> jsval \<Rightarrow> jsval \<Rightarrow> jsval \<Rightarrow> string res" where
  "convexWasmOfficialOutputNativeSymbolIdentitySha256 sha256 entryPath entryPublication nativeSymbolLocator =
     (case entryPublication of
        JBool publication \<Rightarrow>
          bindR (if publication
                 then bindR (symbol_string entryPath ''entry-publication entry path'') (\<lambda>s. Inr (publication_locator_json s))
                 else bindR (normalizeChunkNativeSymbolLocator nativeSymbolLocator) (\<lambda>l. Inr (chunk_locator_json l))) (\<lambda>locator.
          bindR (symbol_canonicalJson (symbol_identity_json locator)) (\<lambda>json. Inr (sha256 json)))
      | _ \<Rightarrow> symbol_fail ''entry-publication flag must be boolean'')"

end
