(* ===== verification/CompilerDescriptor.thy ===== *)
theory CompilerDescriptor
  imports ChunkDependencies NativeSymbol
begin

text \<open>
  The authentication of a module graph compiler descriptor
  (\<open>scripts/lib/convex-wasm-module-graph-compiler-descriptor.mjs\<close>), with the module identity of
  \<open>convex-wasm-capability-application-descriptor.mjs\<close>: a descriptor is owned as one normalized JSON tree
  and every part of it is checked against the two identities that it carries. What the checks read is
  collected in the records \<open>descriptor_entry\<close> and \<open>descriptor_unit\<close>.
\<close>

section \<open>Constants\<close>

definition convexWasmModuleGraphCompilerDescriptorKind :: string where
  "convexWasmModuleGraphCompilerDescriptorKind = ''convex-wasm-official-output-module-graph-compiler-descriptor-v2''"

definition convexWasmOfficialOutputChunkNativeApplicationDescriptorKind :: string where
  "convexWasmOfficialOutputChunkNativeApplicationDescriptorKind = ''convex-wasm-official-output-chunk-native-application-descriptor-v3''"

definition convexWasmOfficialOutputChunkApplicationUnitKind :: string where
  "convexWasmOfficialOutputChunkApplicationUnitKind = ''convex-wasm-official-output-chunk-application-unit-v3''"

definition convexWasmOfficialOutputChunkUnitsKind :: string where
  "convexWasmOfficialOutputChunkUnitsKind = ''convex-wasm-official-output-chunk-units-v3''"

definition convexWasmOfficialOutputChunkUnitKind :: string where
  "convexWasmOfficialOutputChunkUnitKind = ''convex-wasm-official-output-chunk-unit-v2''"

definition convexWasmOfficialOutputChunkEntryPublicationUnitKind :: string where
  "convexWasmOfficialOutputChunkEntryPublicationUnitKind = ''convex-wasm-official-output-chunk-entry-publication-unit-v2''"

definition convexWasmOfficialOutputChunkTransform :: jsval where
  "convexWasmOfficialOutputChunkTransform = JObj
     [(''format'', JStr ''cjs''), (''kind'', JStr ''convex-wasm-esbuild-closed-chunk-transform-v2''),
      (''minifyIdentifiers'', JBool True), (''minifySyntax'', JBool True), (''minifyWhitespace'', JBool False),
      (''platform'', JStr ''browser''), (''sourcemap'', JBool False),
      (''supported'', JObj [(''async-generator'', JBool False), (''class-static-blocks'', JBool False),
         (''logical-assignment'', JBool False), (''object-rest-spread'', JBool True), (''dynamic-import'', JBool False)]),
      (''target'', JStr ''esnext''), (''treeShaking'', JBool False)]"

text \<open>\<open>/^[A-Za-z_$][A-Za-z0-9_$]*$/u\<close>.\<close>

definition identifier_start :: "char \<Rightarrow> bool" where
  "identifier_start c \<longleftrightarrow> scheme_letter c \<or> c \<in> {CHR ''_'', CHR ''$''}"

definition IDENTIFIER_PATTERN :: "string \<Rightarrow> bool" where
  "IDENTIFIER_PATTERN s \<longleftrightarrow> (case s of [] \<Rightarrow> False | c # cs \<Rightarrow> identifier_start c \<and> list_all (\<lambda>d. identifier_start d \<or> is_digit d) cs)"

text \<open>\<open>Number.isSafeInteger(value)\<close>, with the integer.\<close>

fun safe_int :: "jsval \<Rightarrow> int option" where
  "safe_int (JNum n) = (if isSafeInteger n then Some (num_int n) else None)"
| "safe_int _ = None"

section \<open>Module identities\<close>

record chunk_module =
  chunkModuleSha256 :: string
  chunkModulePath :: string
  chunkMapSha256 :: string
  chunkMapSize :: int
  chunkMapContentCount :: int
  chunkMapSourcesCount :: int
  chunkMembershipSha256 :: string
  chunkSourceSha256 :: string
  chunkSourceSize :: int

definition source_map_json :: "chunk_module \<Rightarrow> jsval" where
  "source_map_json m = JObj [(''sha256'', JStr (chunkMapSha256 m)), (''size'', JNum (NInt (chunkMapSize m))),
     (''sourcesContentCount'', JNum (NInt (chunkMapContentCount m))), (''sourcesCount'', JNum (NInt (chunkMapSourcesCount m)))]"

definition chunk_module_json :: "chunk_module \<Rightarrow> jsval" where
  "chunk_module_json m = JObj [(''environment'', JStr ''isolate''), (''moduleSha256'', JStr (chunkModuleSha256 m)),
     (''path'', JStr (chunkModulePath m)), (''sourceMap'', source_map_json m),
     (''sourceMembershipSha256'', JStr (chunkMembershipSha256 m)), (''sourceSha256'', JStr (chunkSourceSha256 m)),
     (''sourceSize'', JNum (NInt (chunkSourceSize m)))]"

definition normalized_module_path :: "string \<Rightarrow> bool" where
  "normalized_module_path path \<longleftrightarrow> \<not> starts_with_slash path \<and> CHR 0x5C \<notin> set path
     \<and> list_all (\<lambda>part. part \<noteq> [] \<and> part \<noteq> ''.'' \<and> part \<noteq> ''..'') (split_string slash path)"

definition normalizeConvexWasmOfficialOutputChunkModuleIdentity :: "jsval \<Rightarrow> string \<Rightarrow> chunk_module res" where
  "normalizeConvexWasmOfficialOutputChunkModuleIdentity rawModule description =
     bindR (assertPlainObject rawModule description) (\<lambda>m.
     bindR (assertExactKeys m [''environment'', ''moduleSha256'', ''path'', ''sourceMap'', ''sourceMembershipSha256'', ''sourceSha256'', ''sourceSize'']
       description) (\<lambda>_.
     bindR (requireManifestString (own_prop m ''path'') (description @ '' path'') 4096 False) (\<lambda>path.
     bindR (failWhen (\<not> normalized_module_path path) (description @ '' path is not normalized'')) (\<lambda>_.
     bindR (assertPlainObject (own_prop m ''sourceMap'') (description @ '' source-map identity'')) (\<lambda>s.
     bindR (assertExactKeys s [''sha256'', ''size'', ''sourcesContentCount'', ''sourcesCount''] (description @ '' source-map identity'')) (\<lambda>_.
     case (safe_int (own_prop s ''sourcesContentCount''), safe_int (own_prop s ''sourcesCount'')) of
       (Some contents, Some sources) \<Rightarrow>
         bindR (failWhen (contents < 0 \<or> sources < 0) (description @ '' source-map counts are invalid'')) (\<lambda>_.
         bindR (requireSha256 (own_prop s ''sha256'') (description @ '' source-map SHA-256'')) (\<lambda>mapSha.
         bindR (requirePositiveInteger (own_prop s ''size'') (description @ '' source-map size'')) (\<lambda>mapSize.
         bindR (failWhen (own_prop m ''environment'' \<noteq> JStr ''isolate'') (description @ '' environment is invalid'')) (\<lambda>_.
         bindR (requireSha256 (own_prop m ''moduleSha256'') (description @ '' SHA-256'')) (\<lambda>moduleSha.
         bindR (requireSha256 (own_prop m ''sourceMembershipSha256'') (description @ '' source-membership SHA-256'')) (\<lambda>membership.
         bindR (requireSha256 (own_prop m ''sourceSha256'') (description @ '' source SHA-256'')) (\<lambda>sourceSha.
         bindR (requirePositiveInteger (own_prop m ''sourceSize'') (description @ '' source size'')) (\<lambda>sourceSize.
         Inr \<lparr>chunkModuleSha256 = moduleSha, chunkModulePath = path, chunkMapSha256 = mapSha, chunkMapSize = mapSize,
           chunkMapContentCount = contents, chunkMapSourcesCount = sources, chunkMembershipSha256 = membership,
           chunkSourceSha256 = sourceSha, chunkSourceSize = sourceSize\<rparr>))))))))
     | _ \<Rightarrow> fail (description @ '' source-map counts are invalid'')))))))"

section \<open>Entries\<close>

record descriptor_route =
  descriptorExportName :: string
  descriptorUdfKind :: string
  descriptorVisibility :: string

record descriptor_entry =
  descriptorGraphSha256 :: string
  descriptorEntryModulePath :: string
  descriptorEntryPath :: string
  descriptorPublicationSlot :: int
  descriptorEntrySlot :: int
  descriptorHandoffSlot :: nat
  descriptorModulePath :: string
  descriptorRoutes :: "descriptor_route list"

definition descriptor_route_json :: "descriptor_route \<Rightarrow> jsval" where
  "descriptor_route_json r = JObj [(''exportName'', JStr (descriptorExportName r)), (''udfKind'', JStr (descriptorUdfKind r)),
     (''visibility'', JStr (descriptorVisibility r))]"

definition descriptor_entry_json :: "descriptor_entry \<Rightarrow> jsval" where
  "descriptor_entry_json e = JObj [(''dependencyGraphSha256'', JStr (descriptorGraphSha256 e)),
     (''entryModulePath'', JStr (descriptorEntryModulePath e)), (''entryPath'', JStr (descriptorEntryPath e)),
     (''entryPublicationUnitSlot'', JNum (NInt (descriptorPublicationSlot e))), (''entrySlot'', JNum (NInt (descriptorEntrySlot e))),
     (''handoffSlot'', JNum (NInt (int (descriptorHandoffSlot e)))), (''modulePath'', JStr (descriptorModulePath e)),
     (''routes'', JArr (map descriptor_route_json (descriptorRoutes e)))]"

definition chunk_entry_json :: "descriptor_entry \<Rightarrow> jsval" where
  "chunk_entry_json e = JObj [(''dependencyGraphSha256'', JStr (descriptorGraphSha256 e)),
     (''entryModulePath'', JStr (descriptorEntryModulePath e)), (''entryPath'', JStr (descriptorEntryPath e)),
     (''entrySlot'', JNum (NInt (descriptorEntrySlot e))), (''modulePath'', JStr (descriptorModulePath e)),
     (''routes'', JArr (map descriptor_route_json (descriptorRoutes e)))]"

definition graph_entry_json :: "descriptor_entry \<Rightarrow> jsval" where
  "graph_entry_json e = JObj [(''dependencyGraphSha256'', JStr (descriptorGraphSha256 e)), (''entryPath'', JStr (descriptorEntryPath e))]"

definition publication_entry_json :: "descriptor_entry \<Rightarrow> jsval" where
  "publication_entry_json e = JObj [(''entryPath'', JStr (descriptorEntryPath e)), (''entrySlot'', JNum (NInt (descriptorEntrySlot e))),
     (''handoffSlot'', JNum (NInt (int (descriptorHandoffSlot e)))), (''routes'', JArr (map descriptor_route_json (descriptorRoutes e)))]"

definition read_descriptor_route :: "string \<Rightarrow> nat \<Rightarrow> jsval \<Rightarrow> descriptor_route res" where
  "read_descriptor_route description routeIndex rawRoute =
     (let label = description @ '' route '' @ show_nat routeIndex in
      bindR (requireExactPlainObject rawRoute [''exportName'', ''udfKind'', ''visibility''] label) (\<lambda>route.
      bindR (requireManifestString (own_prop route ''exportName'') (label @ '' export name'') 256 False) (\<lambda>name.
      bindR (requireEnum (own_prop route ''udfKind'') [''mutation'', ''query''] (label @ '' UDF kind'')) (\<lambda>kind.
      bindR (requireEnum (own_prop route ''visibility'') [''internal'', ''public''] (label @ '' visibility'')) (\<lambda>visibility.
      Inr \<lparr>descriptorExportName = name, descriptorUdfKind = kind, descriptorVisibility = visibility\<rparr>)))))"

definition read_descriptor_entry :: "int \<Rightarrow> jsval list \<Rightarrow> string \<Rightarrow> nat \<Rightarrow> jsval \<Rightarrow> descriptor_entry res" where
  "read_descriptor_entry namespaceSlotCount publicationSlots description index rawEntry =
     (let label = description @ '' entry '' @ show_nat index in
      bindR (requireExactPlainObject rawEntry [''dependencyGraphSha256'', ''entryModulePath'', ''entryPath'', ''entryPublicationUnitSlot'',
        ''entrySlot'', ''handoffSlot'', ''modulePath'', ''routes''] label) (\<lambda>entry.
      case (safe_int (own_prop entry ''entrySlot''), safe_int (own_prop entry ''entryPublicationUnitSlot'')) of
        (Some slot, Some publicationSlot) \<Rightarrow>
          bindR (failWhen (\<not> number_equals (own_prop entry ''handoffSlot'') (int index) \<or> slot < 0 \<or> slot \<ge> namespaceSlotCount
              \<or> \<not> (index < length publicationSlots \<and> number_equals (publicationSlots ! index) publicationSlot))
            (label @ '' slots are invalid'')) (\<lambda>_.
          (case own_prop entry ''routes'' of
             JArr rawRoutes \<Rightarrow>
               bindR (failWhen (rawRoutes = []) (label @ '' routes are invalid'')) (\<lambda>_.
               bindR (mapiR (read_descriptor_route label) 0 rawRoutes) (\<lambda>routes.
               bindR (failWhen (\<not> list_all (\<lambda>r. IDENTIFIER_PATTERN (descriptorExportName r)) routes \<or> \<not> distinct (map descriptorExportName routes))
                 (label @ '' routes are invalid'')) (\<lambda>_.
               bindR (requireSha256 (own_prop entry ''dependencyGraphSha256'') (label @ '' dependency graph SHA-256'')) (\<lambda>graph.
               bindR (requireManifestString (own_prop entry ''entryModulePath'') (label @ '' module path'') 4096 False) (\<lambda>entryModulePath.
               bindR (requireManifestString (own_prop entry ''entryPath'') (label @ '' path'') 4096 False) (\<lambda>entryPath.
               bindR (requireManifestString (own_prop entry ''modulePath'') (label @ '' source path'') 4096 False) (\<lambda>modulePath.
               Inr \<lparr>descriptorGraphSha256 = graph, descriptorEntryModulePath = entryModulePath, descriptorEntryPath = entryPath,
                 descriptorPublicationSlot = publicationSlot, descriptorEntrySlot = slot, descriptorHandoffSlot = index,
                 descriptorModulePath = modulePath, descriptorRoutes = routes\<rparr>)))))))
           | _ \<Rightarrow> fail (label @ '' routes are invalid'')))
      | _ \<Rightarrow> fail (label @ '' slots are invalid'')))"

fun strictly_ordered :: "string list \<Rightarrow> bool" where
  "strictly_ordered (a # b # ss) = (a < b \<and> strictly_ordered (b # ss))"
| "strictly_ordered _ = True"

section \<open>Units\<close>

record descriptor_unit = chunk_unit +
  unitHandoffSlot :: int
  unitReusableIdentity :: jsval

definition unit_keys :: "string list" where
  "unit_keys = [''applicationUnitSlot'', ''chunkSlot'', ''dependencies'', ''entryPublication'', ''entrySymbol'', ''exportedUnitName'',
     ''identitySha256'', ''javascript'', ''kind'', ''module'', ''nativeSymbolLocator'', ''nativeSymbolIdentitySha256'',
     ''publicationHandoffSlot'', ''reusableCodeIdentitySha256'', ''transform'']"

text \<open>The topology of one unit: slot, kind, chunk slot and handoff slot.\<close>

definition unit_topology_ok :: "int \<Rightarrow> nat \<Rightarrow> nat \<Rightarrow> bool \<Rightarrow> chunk_dependency list \<Rightarrow> (string \<times> jsval) list \<Rightarrow> bool" where
  "unit_topology_ok namespaceSlotCount publicationCount index publication dependencies u \<longleftrightarrow>
     safe_int (own_prop u ''applicationUnitSlot'') = Some (int index)
   \<and> (if publication
      then own_prop u ''kind'' = JStr convexWasmOfficialOutputChunkEntryPublicationUnitKind \<and> number_equals (own_prop u ''chunkSlot'') (-1)
        \<and> int index \<ge> namespaceSlotCount
      else own_prop u ''kind'' = JStr convexWasmOfficialOutputChunkUnitKind \<and> number_equals (own_prop u ''chunkSlot'') (int index)
        \<and> int index < namespaceSlotCount)
   \<and> (publication \<longrightarrow> dependencies = [])
   \<and> (case safe_int (own_prop u ''publicationHandoffSlot'') of
        None \<Rightarrow> False
      | Some handoff \<Rightarrow>
          if publication then handoff = int index - namespaceSlotCount \<and> handoff < int publicationCount else handoff = -1)"

definition symbol_names_ok :: "string \<Rightarrow> string \<Rightarrow> string \<Rightarrow> bool" where
  "symbol_names_ok entrySymbol exportedUnitName symbol \<longleftrightarrow>
     IDENTIFIER_PATTERN entrySymbol \<and> IDENTIFIER_PATTERN exportedUnitName
   \<and> entrySymbol = ''sh_export_convex_wasm_official_chunk_'' @ symbol \<and> exportedUnitName = ''convex_wasm_official_chunk_'' @ symbol"

text \<open>The identity that a unit must have, before its digest is added.\<close>

definition publication_unit_fields :: "descriptor_entry \<Rightarrow> jsval \<Rightarrow> nat \<Rightarrow> (string \<times> jsval) list" where
  "publication_unit_fields entry javascript index =
     [(''entry'', publication_entry_json entry), (''javascript'', javascript),
      (''kind'', JStr convexWasmOfficialOutputChunkEntryPublicationUnitKind), (''slot'', JNum (NInt (int index)))]"

definition chunk_unit_fields :: "chunk_dependency list \<Rightarrow> jsval \<Rightarrow> chunk_module \<Rightarrow> symbol_locator \<Rightarrow> nat \<Rightarrow> jsval \<Rightarrow> (string \<times> jsval) list" where
  "chunk_unit_fields dependencies javascript module locator index transform =
     [(''dependencies'', JArr (map dependency_json dependencies)), (''javascript'', javascript),
      (''kind'', JStr convexWasmOfficialOutputChunkUnitKind), (''module'', chunk_module_json module),
      (''nativeSymbolLocator'', symbol_locator_json locator), (''slot'', JNum (NInt (int index))), (''transform'', transform)]"

definition check_unit_identity :: "(string \<Rightarrow> string) \<Rightarrow> (string \<times> jsval) list \<Rightarrow> jsval \<Rightarrow> jsval option \<Rightarrow> jsval \<Rightarrow> string \<Rightarrow> string \<Rightarrow> unit res" where
  "check_unit_identity sha256 identity applicationUnit chunkUnit rawIdentity label description =
     bindR (fingerprintJson sha256 (JObj identity)) (\<lambda>digest.
     bindR (canonicalJson (JObj (identity @ [(''sha256'', JStr digest)]))) (\<lambda>expectedCanonical.
     bindR (requireSha256 rawIdentity (label @ '' identity SHA-256'')) (\<lambda>identitySha256.
     bindR (failWhen (identitySha256 \<noteq> digest \<or> stringify applicationUnit \<noteq> expectedCanonical) (label @ '' identity changed'')) (\<lambda>_.
     failWhen (case chunkUnit of None \<Rightarrow> False | Some u \<Rightarrow> stringify u \<noteq> expectedCanonical)
       (description @ '' unit identities are incomplete'')))))"

definition entry_path_by_slot :: "descriptor_entry list \<Rightarrow> int \<Rightarrow> string option" where
  "entry_path_by_slot entries = map_of (map (\<lambda>e. (descriptorEntrySlot e, descriptorEntryPath e)) entries)"

text \<open>The module, the locator and the identity fields of a unit, by its kind.\<close>

definition read_publication_parts :: "descriptor_entry list \<Rightarrow> int \<Rightarrow> nat \<Rightarrow> (string \<times> jsval) list \<Rightarrow> string
    \<Rightarrow> (string option \<times> jsval \<times> jsval \<times> (string \<times> jsval) list) res" where
  "read_publication_parts entries namespaceSlotCount index u label =
     bindR (failWhen (own_prop u ''module'' \<noteq> JNull \<or> own_prop u ''transform'' \<noteq> JNull)
       (label @ '' identity projection is invalid'')) (\<lambda>_.
     bindR (failWhen (own_prop u ''nativeSymbolLocator'' \<noteq> JNull) (label @ '' native symbol locator is invalid'')) (\<lambda>_.
     let entry = entries ! (index - nat namespaceSlotCount) in
     Inr (None, JStr (descriptorEntryPath entry), JNull, publication_unit_fields entry (own_prop u ''javascript'') index)))"

definition read_chunk_parts :: "descriptor_entry list \<Rightarrow> nat \<Rightarrow> chunk_dependency list \<Rightarrow> (string \<times> jsval) list \<Rightarrow> string
    \<Rightarrow> (string option \<times> jsval \<times> jsval \<times> (string \<times> jsval) list) res" where
  "read_chunk_parts entries index dependencies u label =
     bindR (normalizeConvexWasmOfficialOutputChunkModuleIdentity (own_prop u ''module'') (label @ '' module identity'')) (\<lambda>module.
     bindR (canonicalJson convexWasmOfficialOutputChunkTransform) (\<lambda>transform.
     bindR (failWhen (stringify (own_prop u ''transform'') \<noteq> transform) (label @ '' identity projection is invalid'')) (\<lambda>_.
     bindR (convexWasmOfficialOutputChunkNativeSymbolLocator (own_prop u ''nativeSymbolLocator'')) (\<lambda>locator.
     bindR (failWhen (locatorMembershipSha256 locator \<noteq> chunkMembershipSha256 module
         \<or> canonicalEntryPath locator \<noteq> entry_path_by_slot entries (int index))
       (label @ '' native symbol locator is invalid'')) (\<lambda>_.
     Inr (Some (chunkModulePath module), JUndefined, symbol_locator_json locator,
       chunk_unit_fields dependencies (own_prop u ''javascript'') module locator index (own_prop u ''transform'')))))))"

definition check_descriptor_unit :: "(string \<Rightarrow> string) \<Rightarrow> descriptor_entry list \<Rightarrow> int \<Rightarrow> nat \<Rightarrow> jsval list \<Rightarrow> jsval list \<Rightarrow> string \<Rightarrow> nat
    \<Rightarrow> jsval \<Rightarrow> descriptor_unit res" where
  "check_descriptor_unit sha256 entries namespaceSlotCount publicationCount applicationUnits chunkUnits description index unit =
     (let label = description @ '' unit '' @ show_nat index in
      bindR (requireExactPlainObject unit unit_keys label) (\<lambda>u.
      bindR (requireBoolean (own_prop u ''entryPublication'') (label @ '' entry-publication flag'')) (\<lambda>publication.
      bindR (normalizeConvexWasmOfficialOutputChunkDependencies (own_prop u ''dependencies'') namespaceSlotCount label) (\<lambda>dependencies.
      bindR (failWhen (\<not> unit_topology_ok namespaceSlotCount publicationCount index publication dependencies u)
        (label @ '' topology is invalid'')) (\<lambda>_.
      bindR (requireExactPlainObject (own_prop u ''javascript'') [''sha256'', ''size''] (label @ '' JavaScript identity'')) (\<lambda>javascript.
      bindR (requireSha256 (own_prop javascript ''sha256'') (label @ '' JavaScript SHA-256'')) (\<lambda>_.
      bindR (requirePositiveInteger (own_prop javascript ''size'') (label @ '' JavaScript size'')) (\<lambda>_.
      bindR (requireSha256 (own_prop u ''nativeSymbolIdentitySha256'') (label @ '' native symbol identity SHA-256'')) (\<lambda>symbol.
      bindR (requireManifestString (own_prop u ''entrySymbol'') (label @ '' entry symbol'') 256 False) (\<lambda>entrySymbol.
      bindR (requireManifestString (own_prop u ''exportedUnitName'') (label @ '' exported unit name'') 256 False) (\<lambda>exportedUnitName.
      bindR (if publication then read_publication_parts entries namespaceSlotCount index u label
             else read_chunk_parts entries index dependencies u label) (\<lambda>(modulePath, entryPath, locator, identity).
      bindR (convexWasmOfficialOutputNativeSymbolIdentitySha256 sha256 entryPath (JBool publication) locator) (\<lambda>expectedSymbol.
      bindR (failWhen (symbol \<noteq> expectedSymbol) (label @ '' native symbol identity changed'')) (\<lambda>_.
      bindR (failWhen (\<not> symbol_names_ok entrySymbol exportedUnitName symbol) (label @ '' has an invalid native symbol'')) (\<lambda>_.
      bindR (check_unit_identity sha256 identity (applicationUnits ! index)
          (if publication then None else Some (chunkUnits ! index)) (own_prop u ''identitySha256'') label description) (\<lambda>_.
      Inr \<lparr>unitSlot = int index, unitDependencies = dependencies, unitPublication = publication,
        unitJavascript = own_prop u ''javascript'',
        unitKind = (if publication then convexWasmOfficialOutputChunkEntryPublicationUnitKind else convexWasmOfficialOutputChunkUnitKind),
        unitModulePath = modulePath, unitLocator = own_prop u ''nativeSymbolLocator'', unitSymbol = symbol,
        unitTransform = own_prop u ''transform'', unitHandoffSlot = (if publication then int index - namespaceSlotCount else -1),
        unitReusableIdentity = own_prop u ''reusableCodeIdentitySha256''\<rparr>))))))))))))))))"

section \<open>Descriptors\<close>

record compiler_descriptor =
  descriptorIdentitySha256 :: string
  descriptorSlotCount :: int
  descriptorEntries :: "descriptor_entry list"
  descriptorUnits :: "descriptor_unit list"

definition descriptor_keys :: "string list" where
  "descriptor_keys = [''applicationIdentity'', ''chunkUnitsIdentity'', ''entries'', ''identitySha256'', ''initialization'', ''kind'',
     ''nativeApplicationDescriptorKind'', ''nativeDescriptor'', ''schemaVersion'', ''units'']"

definition read_initialization :: "jsval \<Rightarrow> string \<Rightarrow> (int \<times> jsval list) res" where
  "read_initialization value description =
     bindR (requireExactPlainObject value [''chunkSlotCount'', ''entryPublicationUnitSlots'', ''kind'', ''namespaceSlotCount'']
       (description @ '' initialization'')) (\<lambda>i.
     case (safe_int (own_prop i ''chunkSlotCount''), safe_int (own_prop i ''namespaceSlotCount''), own_prop i ''entryPublicationUnitSlots'') of
       (Some chunkSlotCount, Some namespaceSlotCount, JArr slots) \<Rightarrow>
         bindR (failWhen (own_prop i ''kind'' \<noteq> JStr ''closed-numbered-chunk-slots-with-per-entry-publication-v1'' \<or> chunkSlotCount < 1
             \<or> namespaceSlotCount \<noteq> chunkSlotCount)
           (description @ '' initialization is invalid'')) (\<lambda>_. Inr (namespaceSlotCount, slots))
     | _ \<Rightarrow> fail (description @ '' initialization is invalid''))"

definition check_native_descriptor :: "jsval \<Rightarrow> string \<Rightarrow> unit res" where
  "check_native_descriptor value description =
     bindR (requireExactPlainObject value [''destruction'', ''initialization'', ''kind'', ''publication'', ''slots'']
       (description @ '' native descriptor'')) (\<lambda>d.
     failWhen (own_prop d ''kind'' \<noteq> JStr ''convex-wasm-official-output-chunk-native-descriptor-abi-v3''
         \<or> own_prop d ''destruction'' \<noteq> JStr ''destroy-store-on-any-initialization-failure''
         \<or> own_prop d ''initialization'' \<noteq> JStr ''recursive-closed-literal-require-with-provisional-cjs-namespaces''
         \<or> own_prop d ''publication'' \<noteq> JStr ''authenticated-selected-entry-wrapper-validation-after-selected-closure-initialization''
         \<or> own_prop d ''slots'' \<noteq> JStr ''closed-numbered-namespace-slots-with-per-entry-publication-units'')
       (description @ '' native descriptor is invalid''))"

text \<open>\<open>const { sha256, ...payload } = identity\<close>, with the check of the digest.\<close>

definition check_identity_digest :: "(string \<Rightarrow> string) \<Rightarrow> jsval \<Rightarrow> string list \<Rightarrow> string \<Rightarrow> ((string \<times> jsval) list \<times> string) res" where
  "check_identity_digest sha256 value keys label =
     bindR (requireExactPlainObject value (keys @ [''sha256'']) label) (\<lambda>identity.
     bindR (requireSha256 (own_prop identity ''sha256'') (label @ '' SHA-256'')) (\<lambda>digest.
     bindR (failWhen (digest \<noteq> sha256 (stringify (JObj (filter (\<lambda>kv. fst kv \<noteq> ''sha256'') identity)))) (label @ '' changed'')) (\<lambda>_.
     Inr (identity, digest))))"

definition dependency_graph_json :: "descriptor_entry list \<Rightarrow> jsval" where
  "dependency_graph_json entries = JObj [(''domain'', JStr ''convex-wasm-official-output-cohort-dependency-graph-v1''),
     (''entries'', JArr (map graph_entry_json entries))]"

definition check_application_identity :: "(string \<Rightarrow> string) \<Rightarrow> (string \<times> jsval) list \<Rightarrow> descriptor_entry list \<Rightarrow> string \<Rightarrow> nat \<Rightarrow> string
    \<Rightarrow> ((string \<times> jsval) list) res" where
  "check_application_identity sha256 descriptor entries identitySha256 unitCount description =
     bindR (check_identity_digest sha256 (own_prop descriptor ''applicationIdentity'')
       [''chunkUnits'', ''dependencyGraphSha256'', ''entries'', ''initialization'', ''kind'', ''nativeDescriptor'', ''sourceEnvelopeSha256'',
        ''unitCount'', ''units''] (description @ '' application identity'')) (\<lambda>(application, applicationSha256).
     bindR (requireSha256 (own_prop application ''dependencyGraphSha256'') (description @ '' application dependency graph SHA-256'')) (\<lambda>graph.
     bindR (requireSha256 (own_prop application ''sourceEnvelopeSha256'') (description @ '' application source-envelope SHA-256'')) (\<lambda>_.
     bindR (fingerprintJson sha256 (dependency_graph_json entries)) (\<lambda>expectedGraph.
     bindR (canonicalJson (JArr (map descriptor_entry_json entries))) (\<lambda>expectedEntries.
     bindR (failWhen (own_prop application ''kind'' \<noteq> JStr convexWasmOfficialOutputChunkApplicationUnitKind \<or> graph \<noteq> expectedGraph
         \<or> \<not> number_equals (own_prop application ''unitCount'') (int unitCount) \<or> identitySha256 \<noteq> applicationSha256
         \<or> stringify (own_prop application ''entries'') \<noteq> expectedEntries
         \<or> stringify (own_prop application ''initialization'') \<noteq> stringify (own_prop descriptor ''initialization'')
         \<or> stringify (own_prop application ''nativeDescriptor'') \<noteq> stringify (own_prop descriptor ''nativeDescriptor''))
       (description @ '' application identity does not match its descriptor'')) (\<lambda>_. Inr application))))))"

definition check_chunk_units_identity :: "(string \<Rightarrow> string) \<Rightarrow> (string \<times> jsval) list \<Rightarrow> descriptor_entry list \<Rightarrow> (string \<times> jsval) list \<Rightarrow> string
    \<Rightarrow> ((string \<times> jsval) list) res" where
  "check_chunk_units_identity sha256 descriptor entries application description =
     bindR (check_identity_digest sha256 (own_prop descriptor ''chunkUnitsIdentity'')
       [''entries'', ''esbuild'', ''initialization'', ''kind'', ''sourceEnvelopeSha256'', ''units'']
       (description @ '' chunk-units identity'')) (\<lambda>(chunkUnits, chunkUnitsSha256).
     bindR (requireExactPlainObject (own_prop chunkUnits ''esbuild'') [''version''] (description @ '' chunk-units esbuild identity'')) (\<lambda>esbuild.
     bindR (requireManifestString (own_prop esbuild ''version'') (description @ '' chunk-units esbuild version'') 256 False) (\<lambda>_.
     bindR (requireExactPlainObject (own_prop chunkUnits ''initialization'') [''dynamicImport'', ''kind'', ''publication'']
       (description @ '' chunk-units initialization'')) (\<lambda>i.
     bindR (requireSha256 (own_prop chunkUnits ''sourceEnvelopeSha256'') (description @ '' chunk-units source-envelope SHA-256'')) (\<lambda>_.
     bindR (canonicalJson (JArr (map chunk_entry_json entries))) (\<lambda>expectedEntries.
     bindR (failWhen (own_prop chunkUnits ''kind'' \<noteq> JStr convexWasmOfficialOutputChunkUnitsKind
         \<or> own_prop i ''dynamicImport'' \<noteq> JStr ''literal-require-after-promise-microtask''
         \<or> own_prop i ''kind'' \<noteq> JStr ''closed-numbered-namespace-slots-v1''
         \<or> own_prop i ''publication'' \<noteq> JStr ''selected-entry-namespaces-after-selected-closure-initialization''
         \<or> stringify (own_prop chunkUnits ''entries'') \<noteq> expectedEntries)
       (description @ '' chunk-units identity is invalid'')) (\<lambda>_.
     bindR (canonicalJson (JObj [(''kind'', JStr convexWasmOfficialOutputChunkUnitsKind), (''sha256'', JStr chunkUnitsSha256)])) (\<lambda>reference.
     bindR (failWhen (stringify (own_prop application ''chunkUnits'') \<noteq> reference
         \<or> own_prop application ''sourceEnvelopeSha256'' \<noteq> own_prop chunkUnits ''sourceEnvelopeSha256'')
       (description @ '' application and chunk-units identities disagree'')) (\<lambda>_. Inr chunkUnits)))))))))"

text \<open>What ties the entries to the validated units.\<close>

definition check_entry_units :: "descriptor_entry list \<Rightarrow> descriptor_unit list \<Rightarrow> string \<Rightarrow> unit res" where
  "check_entry_units entries units description =
     bindR (mapR (\<lambda>e. module_path_at (map chunk_unit.truncate units) (descriptorEntrySlot e)) entries) (\<lambda>paths.
     bindR (failWhen (list_ex (\<lambda>(e, path). path \<noteq> descriptorEntryModulePath e) (zip entries paths))
       (description @ '' entries do not bind their entry modules'')) (\<lambda>_.
     failWhen (list_ex (\<lambda>e. let slot = nat (descriptorPublicationSlot e) in
           \<not> (slot < length units \<and> unitPublication (units ! slot) \<and> unitHandoffSlot (units ! slot) = int (descriptorHandoffSlot e))) entries)
       (description @ '' entries do not bind their publication units'')))"

definition check_reusable_identities :: "(string \<Rightarrow> string) \<Rightarrow> int \<Rightarrow> descriptor_unit list \<Rightarrow> string \<Rightarrow> unit res" where
  "check_reusable_identities sha256 namespaceSlotCount units description =
     bindR (deriveConvexWasmOfficialOutputReusableCodeIdentitySha256s sha256 namespaceSlotCount (map chunk_unit.truncate units)) (\<lambda>identities.
     bindR (mapiR (\<lambda>index (unit, identity).
         bindR (requireSha256 (unitReusableIdentity unit) (description @ '' unit '' @ show_nat index @ '' reusable-code identity SHA-256'')) (\<lambda>recorded.
         failWhen (recorded \<noteq> identity) (description @ '' unit '' @ show_nat index @ '' reusable-code identity changed'')))
       0 (zip units identities)) (\<lambda>_. Inr ()))"

definition check_descriptor_units :: "(string \<Rightarrow> string) \<Rightarrow> descriptor_entry list \<Rightarrow> int \<Rightarrow> jsval list \<Rightarrow> (string \<times> jsval) list \<Rightarrow> (string \<times> jsval) list
    \<Rightarrow> string \<Rightarrow> descriptor_unit list res" where
  "check_descriptor_units sha256 entries namespaceSlotCount rawUnits application chunkUnits description =
     (case (own_prop application ''units'', own_prop chunkUnits ''units'') of
        (JArr applicationUnits, JArr chunkIdentities) \<Rightarrow>
          bindR (failWhen (length applicationUnits \<noteq> length rawUnits \<or> int (length chunkIdentities) \<noteq> namespaceSlotCount)
            (description @ '' unit identities are incomplete'')) (\<lambda>_.
          bindR (failWhen (\<not> distinct (map descriptorEntrySlot entries)) (description @ '' entries reuse an entry module'')) (\<lambda>_.
          bindR (mapiR (check_descriptor_unit sha256 entries namespaceSlotCount (length entries) applicationUnits chunkIdentities description) 0 rawUnits)
            (\<lambda>units.
          bindR (failWhen (\<not> distinct (map unitSymbol units)) (description @ '' reuses a native symbol identity'')) (\<lambda>_.
          bindR (validateConvexWasmOfficialOutputChunkDependencyTopology (nat namespaceSlotCount) description (map chunk_unit.truncate units)) (\<lambda>_.
          bindR (check_entry_units entries units description) (\<lambda>_.
          bindR (check_reusable_identities sha256 namespaceSlotCount units description) (\<lambda>_. Inr units)))))))
      | _ \<Rightarrow> fail (description @ '' unit identities are incomplete''))"

definition read_descriptor :: "(string \<Rightarrow> string) \<Rightarrow> (string \<times> jsval) list \<Rightarrow> string \<Rightarrow> compiler_descriptor res" where
  "read_descriptor sha256 descriptor description =
     bindR (failWhen (own_prop descriptor ''kind'' \<noteq> JStr convexWasmModuleGraphCompilerDescriptorKind
         \<or> \<not> number_equals (own_prop descriptor ''schemaVersion'') 2
         \<or> own_prop descriptor ''nativeApplicationDescriptorKind'' \<noteq> JStr convexWasmOfficialOutputChunkNativeApplicationDescriptorKind)
       (description @ '' kind or schema version is unsupported'')) (\<lambda>_.
     bindR (requireSha256 (own_prop descriptor ''identitySha256'') (description @ '' identity SHA-256'')) (\<lambda>identitySha256.
     bindR (read_initialization (own_prop descriptor ''initialization'') description) (\<lambda>(namespaceSlotCount, slots).
     case own_prop descriptor ''entries'' of
       JArr rawEntries \<Rightarrow>
         bindR (failWhen (rawEntries = [] \<or> length rawEntries \<noteq> length slots) (description @ '' entries are invalid'')) (\<lambda>_.
         (case own_prop descriptor ''units'' of
            JArr rawUnits \<Rightarrow>
              bindR (failWhen (length rawUnits < 2 \<or> int (length rawUnits) \<noteq> namespaceSlotCount + int (length slots))
                (description @ '' units are invalid'')) (\<lambda>_.
              bindR (failWhen (list_ex (\<lambda>(i, slot). safe_int slot \<noteq> Some (namespaceSlotCount + int i)) (zip [0..<length slots] slots))
                (description @ '' entry-publication slots are invalid'')) (\<lambda>_.
              bindR (mapiR (read_descriptor_entry namespaceSlotCount slots description) 0 rawEntries) (\<lambda>entries.
              bindR (failWhen (\<not> strictly_ordered (map descriptorEntryPath entries)) (description @ '' entries are unordered'')) (\<lambda>_.
              bindR (check_native_descriptor (own_prop descriptor ''nativeDescriptor'') description) (\<lambda>_.
              bindR (check_application_identity sha256 descriptor entries identitySha256 (length rawUnits) description) (\<lambda>application.
              bindR (check_chunk_units_identity sha256 descriptor entries application description) (\<lambda>chunkUnits.
              bindR (check_descriptor_units sha256 entries namespaceSlotCount rawUnits application chunkUnits description) (\<lambda>units.
              Inr \<lparr>descriptorIdentitySha256 = identitySha256, descriptorSlotCount = namespaceSlotCount, descriptorEntries = entries,
                descriptorUnits = units\<rparr>))))))))
          | _ \<Rightarrow> fail (description @ '' units are invalid'')))
     | _ \<Rightarrow> fail (description @ '' entries are invalid''))))"

text \<open>The whole function for a value that carries no brand; it returns the owned snapshot.\<close>

definition authenticateConvexWasmModuleGraphCompilerDescriptor :: "(string \<Rightarrow> string) \<Rightarrow> jsval \<Rightarrow> string \<Rightarrow> jsval res" where
  "authenticateConvexWasmModuleGraphCompilerDescriptor sha256 value description =
     bindR (requireExactPlainObject value descriptor_keys description) (\<lambda>rawDescriptor.
     bindR (normalizeJson (JObj rawDescriptor) (description @ '' authenticated descriptor'')) (\<lambda>descriptor.
     bindR (assertPlainObject descriptor description) (\<lambda>fields.
     bindR (read_descriptor sha256 fields description) (\<lambda>_. Inr descriptor))))"

end
