(* ===== verification/NativeSymbolNames.thy ===== *)
theory NativeSymbolNames
  imports NativeSymbol
begin

text \<open>
  Normalizing a source-map name is stable: the spelling that comes out is classified the same way
  (authority, file, hierarchical, opaque or relative) and normalizes to itself.
\<close>

section \<open>Normalized paths\<close>

lemma starts_with_slash_iff: "starts_with_slash s \<longleftrightarrow> s \<noteq> [] \<and> hd s = slash"
  by (cases s) (auto simp: starts_with_slash_def)

lemma normalizeString_slash [simp]: "normalizeString up (slash # s) = normalizeString up s"
  by (simp add: normalizeString_def)

lemma normalizeString_dot [simp]: "normalizeString up (CHR ''.'' # slash # s) = normalizeString up s"
proof -
  have "split_string slash (CHR ''.'' # slash # s) = [CHR ''.''] # split_string slash s" by simp
  then show ?thesis by (simp add: normalizeString_def path_segment.simps)
qed

lemma set_join: "set (join_strings sep ss) \<subseteq> set sep \<union> \<Union> (set ` set ss)"
  by (induction sep ss rule: join_strings.induct) auto

lemma set_path_segment: "set (path_segment up stack s) \<subseteq> insert s (insert ''..'' (set stack))"
  by (auto simp: path_segment.simps split: list.splits if_splits)

lemma set_kept: "set (foldl (path_segment up) stack segments) \<subseteq> set segments \<union> insert ''..'' (set stack)"
proof (induction segments arbitrary: stack)
  case (Cons s segments)
  show ?case using Cons.IH[of "path_segment up stack s"] set_path_segment[of up stack s] by auto
qed auto

lemma set_split: "part \<in> set (split_string c s) \<Longrightarrow> set part \<subseteq> set s"
proof (induction s arbitrary: part)
  case (Cons x xs)
  obtain p ps where p: "split_string c xs = p # ps" by (cases "split_string c xs") auto
  then have "set p \<subseteq> set xs" "\<And>q. q \<in> set ps \<Longrightarrow> set q \<subseteq> set xs" using Cons.IH by auto
  then show ?case using Cons.prems p by (auto split: if_splits)
qed auto

lemma set_normalizeString: "set (normalizeString up s) \<subseteq> set s \<union> {slash, CHR ''.''}"
proof -
  define stack where "stack = foldl (path_segment up) [] (split_string slash s)"
  have "set segment \<subseteq> set s \<union> {CHR ''.''}" if "segment \<in> set stack" for segment
  proof -
    have "segment \<in> set (split_string slash s) \<or> segment = ''..''"
      using that set_kept[of up "[]" "split_string slash s"] by (auto simp: stack_def)
    then show ?thesis using set_split[of segment slash s] by auto
  qed
  then show ?thesis using set_join[of "[slash]" "rev stack"] by (fastforce simp: normalizeString_def stack_def)
qed

lemma set_posix_normalize: "set (posix_normalize s) \<subseteq> set s \<union> {slash, CHR ''.''}"
  using set_normalizeString[of True s] set_normalizeString[of False s]
  by (auto simp: posix_normalize_def Let_def)

lemma posix_normalize_nonempty [simp]: "posix_normalize s \<noteq> []"
  by (auto simp: posix_normalize_def Let_def)

lemma posix_normalize_absolute: "starts_with_slash (posix_normalize s) = starts_with_slash s"
  using normalizeString_ends(1)[of "\<not> (hd s = slash)" s]
  by (auto simp: posix_normalize_def Let_def starts_with_slash_iff hd_append)

lemma posix_normalize_one_slash: "strip_prefix ''//'' (posix_normalize s) = None"
proof -
  have "posix_normalize s \<noteq> ''//'' @ r" for r
    using normalizeString_ends(1)[of "\<not> (hd s = slash)" s]
    by (cases "normalizeString (\<not> (hd s = slash)) s") (auto simp: posix_normalize_def Let_def)
  then show ?thesis by (metis not_None_eq strip_prefix_Some)
qed

lemma posix_normalize_more_slashes: "starts_with_slash s \<Longrightarrow> posix_normalize (slash # s) = posix_normalize s"
  by (auto simp: posix_normalize_def Let_def starts_with_slash_iff)

lemma posix_normalize_dot_slash:
  "s \<noteq> [] \<Longrightarrow> \<not> starts_with_slash s \<Longrightarrow> normalizeString True s \<noteq> [] \<Longrightarrow> posix_normalize (''./'' @ s) = posix_normalize s"
  by (auto simp: posix_normalize_def Let_def starts_with_slash_iff)

lemma normalized_names:
  assumes "posix_normalize s = s" and "scheme_letter (hd s)"
  shows "normalizeString True s \<noteq> []"
proof
  assume "normalizeString True s = []"
  moreover have "hd s \<noteq> slash" "hd s \<noteq> CHR ''.''" using assms(2) by (auto simp: scheme_letter_def)
  ultimately show False using assms(1) by (auto simp: posix_normalize_def Let_def split: if_splits)
qed

section \<open>Schemes and authorities\<close>

lemma split_scheme_Some:
  "split_scheme s = Some (p, r) \<longleftrightarrow> s = p @ r \<and>
    (\<exists>c cs. p = c # cs @ '':'' \<and> scheme_letter c \<and> list_all scheme_char cs)"
proof
  assume a: "split_scheme s = Some (p, r)"
  obtain c cs where c: "s = c # cs" using a by (cases s) (simp_all add: split_scheme_def)
  have "dropWhile scheme_char cs \<noteq> []"
    using a by (cases "dropWhile scheme_char cs") (simp_all add: split_scheme_def c split: if_splits del: dropWhile_eq_Nil_conv)
  then obtain d r' where d: "dropWhile scheme_char cs = d # r'" by (meson neq_Nil_conv)
  have e: "(if \<not> scheme_letter c then None else if d = CHR '':'' then Some (c # takeWhile scheme_char cs @ [d], r') else None) = Some (p, r)"
    using a unfolding split_scheme_def c list.case d list.case by simp
  have s: "s = c # cs" "scheme_letter c" "dropWhile scheme_char cs = d # r" "d = CHR '':''"
    using c d e by (simp_all split: if_splits)
  have p: "p = c # takeWhile scheme_char cs @ '':''" using e s by simp
  have "cs = takeWhile scheme_char cs @ CHR '':'' # r" using s(3,4) by (metis takeWhile_dropWhile_id)
  moreover have "list_all scheme_char (takeWhile scheme_char cs)" by (auto simp: list_all_iff dest: set_takeWhileD)
  ultimately show "s = p @ r \<and> (\<exists>c cs. p = c # cs @ '':'' \<and> scheme_letter c \<and> list_all scheme_char cs)"
    using s(1,2) p by (intro conjI exI[of _ c] exI[of _ "takeWhile scheme_char cs"]) simp_all
next
  assume "s = p @ r \<and> (\<exists>c cs. p = c # cs @ '':'' \<and> scheme_letter c \<and> list_all scheme_char cs)"
  then obtain c cs where s: "s = c # cs @ CHR '':'' # r" "p = c # cs @ '':''" "scheme_letter c" "list_all scheme_char cs" by auto
  have "\<not> scheme_char (CHR '':'')" by (simp add: scheme_char_def scheme_letter_def is_digit_def)
  then have "takeWhile scheme_char (cs @ CHR '':'' # r) = cs" "dropWhile scheme_char (cs @ CHR '':'' # r) = CHR '':'' # r"
    using s(4) by (induction cs) auto
  then show "split_scheme s = Some (p, r)" using s by (simp add: split_scheme_def)
qed

lemma scheme_not_slash: "split_scheme s = Some (p, r) \<Longrightarrow> hd s \<noteq> slash \<and> hd s \<noteq> CHR ''.'' \<and> s \<noteq> []"
  by (auto simp: split_scheme_Some scheme_letter_def)

lemma split_scheme_other: "split_scheme s = Some (p, r) \<Longrightarrow> split_scheme (p @ x) = Some (p, x)"
  by (auto simp: split_scheme_Some)

lemma split_scheme_slash [simp]: "split_scheme (slash # s) = None" "split_scheme (CHR ''.'' # s) = None" "split_scheme [] = None"
  by (auto simp: split_scheme_def scheme_letter_def)

lemma match_authority_Some:
  "match_authority h = Some (p, host, path) \<longleftrightarrow>
     (p = [] \<and> h = ''//'' @ host @ path \<or> split_scheme h = Some (p, ''//'' @ host @ path)) \<and> slash \<notin> set host
     \<and> (path = [] \<or> hd path = slash) \<and> \<not> list_ex line_terminator path"
proof -
  have cut: "takeWhile (\<lambda>c. c \<noteq> slash) x = host \<and> dropWhile (\<lambda>c. c \<noteq> slash) x = path
      \<longleftrightarrow> x = host @ path \<and> slash \<notin> set host \<and> (path = [] \<or> hd path = slash)" for x
  proof
    assume a: "takeWhile (\<lambda>c. c \<noteq> slash) x = host \<and> dropWhile (\<lambda>c. c \<noteq> slash) x = path"
    then have "x = host @ path" by (metis takeWhile_dropWhile_id)
    moreover have "slash \<notin> set (takeWhile (\<lambda>c. c \<noteq> slash) x)" by (rule notI) (drule set_takeWhileD, simp)
    moreover have "path = [] \<or> hd path = slash"
      using hd_dropWhile[of "\<lambda>c. c \<noteq> slash" x] unfolding a[THEN conjunct2] by blast
    ultimately show "x = host @ path \<and> slash \<notin> set host \<and> (path = [] \<or> hd path = slash)" using a by simp
  next
    assume "x = host @ path \<and> slash \<notin> set host \<and> (path = [] \<or> hd path = slash)"
    then show "takeWhile (\<lambda>c. c \<noteq> slash) x = host \<and> dropWhile (\<lambda>c. c \<noteq> slash) x = path"
      by (cases path) (auto simp: takeWhile_append dropWhile_append)
  qed
  define m :: "string \<Rightarrow> string \<Rightarrow> (string \<times> string \<times> string) option" where "m = (\<lambda>scheme rest. case strip_prefix ''//'' rest of None \<Rightarrow> None | Some x \<Rightarrow>
      let path = dropWhile (\<lambda>c. c \<noteq> slash) x in
      if list_ex line_terminator path then None else Some (scheme, takeWhile (\<lambda>c. c \<noteq> slash) x, path))"
  have m: "m scheme rest = Some (p, host, path) \<longleftrightarrow> scheme = p \<and> rest = ''//'' @ host @ path \<and> slash \<notin> set host
      \<and> (path = [] \<or> hd path = slash) \<and> \<not> list_ex line_terminator path" for scheme rest
  proof -
    have "m scheme rest = Some (p, host, path) \<longleftrightarrow> scheme = p \<and> (\<exists>x. rest = ''//'' @ x \<and> takeWhile (\<lambda>c. c \<noteq> slash) x = host
        \<and> dropWhile (\<lambda>c. c \<noteq> slash) x = path) \<and> \<not> list_ex line_terminator path"
    proof (cases "strip_prefix ''//'' rest")
      case None
      then have "rest \<noteq> ''//'' @ x" for x by (metis option.distinct(1) strip_prefix_Some)
      then show ?thesis using None by (simp add: m_def)
    next
      case (Some x)
      then have "rest = ''//'' @ x" by simp
      then show ?thesis using Some by (auto simp: m_def Let_def)
    qed
    then show ?thesis unfolding cut by auto
  qed
  show ?thesis
  proof (cases "split_scheme h")
    case None
    then have "match_authority h = m [] h" by (simp add: match_authority_def m_def)
    then show ?thesis using m[of "[]" h] None by auto
  next
    case (Some pr)
    then obtain q r where q: "split_scheme h = Some (q, r)" by (cases pr) auto
    have h: "h \<noteq> ''//'' @ host @ path" using scheme_not_slash[OF q] by auto
    show ?thesis
    proof (cases "strip_prefix ''//'' r = None")
      case True
      then have "match_authority h = m [] h" using q by (simp add: match_authority_def m_def)
      moreover have "r \<noteq> ''//'' @ host @ path" using True by (metis not_None_eq strip_prefix_Some)
      ultimately show ?thesis using m[of "[]" h] h q by auto
    next
      case False
      then obtain x where "r = ''//'' @ x" by auto
      then have "match_authority h = m q r" using q by (simp add: match_authority_def m_def)
      then show ?thesis using m[of q r] h q by auto
    qed
  qed
qed

lemma file_scheme_split: "file_scheme s \<Longrightarrow> split_scheme s = Some (take 5 s, drop 5 s)"
proof -
  assume a: "file_scheme s"
  have "\<exists>c1 c2 c3 c4 c5 r. s = c1 # c2 # c3 # c4 # c5 # r" if "5 \<le> length s"
    using that by (auto simp: Suc_le_length_iff eval_nat_numeral)
  then obtain c1 c2 c3 c4 c5 r where "s = c1 # c2 # c3 # c4 # c5 # r" using a by (auto simp: file_scheme_def)
  moreover have "c5 = CHR '':''" using a calculation by (simp add: file_scheme_def)
  ultimately have s: "s = c1 # c2 # c3 # c4 # CHR '':'' # r" by simp
  have "scheme_letter c1 \<and> scheme_letter c2 \<and> scheme_letter c3 \<and> scheme_letter c4" using a by (simp add: file_scheme_def s)
  then show ?thesis unfolding split_scheme_Some s
    by (intro conjI exI[of _ c1] exI[of _ "[c2, c3, c4]"]) (simp_all add: scheme_char_def)
qed

lemma file_scheme_other:
  assumes "split_scheme s = Some (p, r)" and "file_scheme (p @ x)"
  shows "file_scheme s"
proof -
  have "split_scheme (p @ x) = Some (p, x)" using split_scheme_other[OF assms(1)] .
  then have t: "take 5 (p @ x) = p" using file_scheme_split[OF assms(2)] by simp
  moreover have "5 \<le> length (p @ x)" using assms(2) by (simp add: file_scheme_def)
  ultimately have "length p = 5" by (metis length_take min.absorb2)
  then show ?thesis using assms by (auto simp: file_scheme_def split_scheme_Some nth_append)
qed

section \<open>Normalization is stable\<close>

lemma no_double_slash: "strip_prefix ''//'' s = None \<Longrightarrow> s \<noteq> ''//'' @ x"
  by (metis option.distinct(1) strip_prefix_Some)

lemma match_authority_None:
  "strip_prefix ''//'' h = None \<Longrightarrow> (\<And>p r. split_scheme h = Some (p, r) \<Longrightarrow> strip_prefix ''//'' r = None) \<Longrightarrow> match_authority h = None"
  using no_double_slash by (metis match_authority_Some not_None_eq prod_cases3)

lemma authority_stable:
  assumes "match_authority h = Some (p, host, rest)"
  shows "normalizeHierarchy (normalizeHierarchy h) = normalizeHierarchy h"
proof -
  define path where "path = posix_normalize (if rest = [] then [slash] else rest)"
  have m: "p = [] \<and> h = ''//'' @ host @ rest \<or> split_scheme h = Some (p, ''//'' @ host @ rest)" "slash \<notin> set host"
    "rest = [] \<or> hd rest = slash" "\<not> list_ex line_terminator rest" using assms by (auto simp: match_authority_Some)
  have "starts_with_slash (if rest = [] then [slash] else rest)" using m(3) by (auto simp: starts_with_slash_iff)
  then have slash: "starts_with_slash path" unfolding path_def posix_normalize_absolute .
  have lines: "\<not> list_ex line_terminator path"
    using m(4) set_posix_normalize[of "if rest = [] then [slash] else rest"]
    by (auto simp: path_def list_ex_iff line_terminator_def split: if_splits)
  have n: "normalizeHierarchy h = p @ ''//'' @ host @ path" using slash by (simp add: normalizeHierarchy_def assms Let_def path_def)
  have path: "path \<noteq> []" "hd path = slash" using slash by (simp_all add: starts_with_slash_iff)
  have "p = [] \<and> p @ ''//'' @ host @ path = ''//'' @ host @ path \<or> split_scheme (p @ ''//'' @ host @ path) = Some (p, ''//'' @ host @ path)"
    using m(1) split_scheme_other by blast
  then have "match_authority (p @ ''//'' @ host @ path) = Some (p, host, path)"
    unfolding match_authority_Some using m(2) path lines by blast
  moreover have "posix_normalize path = path" by (simp add: path_def posix_normalize_idem)
  ultimately show ?thesis using slash path(1) unfolding n by (simp add: normalizeHierarchy_def Let_def)
qed

lemma file_stable:
  assumes "match_authority h = None" and "file_scheme h"
  shows "normalizeHierarchy (normalizeHierarchy h) = normalizeHierarchy h"
proof -
  define path where "path = posix_normalize (if starts_with_slash (drop 5 h) then drop 5 h else slash # drop 5 h)"
  have "starts_with_slash (if starts_with_slash (drop 5 h) then drop 5 h else slash # drop 5 h)" by (simp add: starts_with_slash_iff)
  then have slash: "starts_with_slash path" unfolding path_def posix_normalize_absolute .
  have n: "normalizeHierarchy h = ''file:'' @ ''//'' @ path" using assms by (simp add: normalizeHierarchy_def Let_def path_def)
  have path: "path \<noteq> []" "hd path = slash" using slash by (simp_all add: starts_with_slash_iff)
  have again: "posix_normalize path = path" by (simp add: path_def posix_normalize_idem)
  have split: "split_scheme (''file:'' @ x) = Some (''file:'', x)" for x
    unfolding split_scheme_Some by (simp add: scheme_letter_def scheme_char_def)
  show ?thesis
  proof (cases "list_ex line_terminator path")
    case False
    then have "match_authority (''file:'' @ ''//'' @ path) = Some (''file:'', [], path)"
      unfolding match_authority_Some split using path by simp
    then show ?thesis unfolding n using slash path again by (simp add: normalizeHierarchy_def Let_def)
  next
    case True
    have "match_authority (''file:'' @ ''//'' @ path) \<noteq> Some (p, host, rest)" for p host rest
    proof
      assume "match_authority (''file:'' @ ''//'' @ path) = Some (p, host, rest)"
      then have e: "path = host @ rest" "slash \<notin> set host" "\<not> list_ex line_terminator rest"
        unfolding match_authority_Some split by auto
      then have "host = []" using path(2) by (cases host) auto
      then show False using e True by simp
    qed
    then have none: "match_authority (''file:'' @ ''//'' @ path) = None" by (metis not_None_eq prod_cases3)
    have "file_scheme (''file:'' @ x)" for x by (simp add: file_scheme_def scheme_letter_def)
    moreover have "posix_normalize (''//'' @ path) = path"
    proof -
      have "starts_with_slash (slash # path)" by (simp add: starts_with_slash_iff)
      then show ?thesis using posix_normalize_more_slashes[of "slash # path"] posix_normalize_more_slashes[OF slash] again by simp
    qed
    moreover have "starts_with_slash (''//'' @ path)" by (simp add: starts_with_slash_iff)
    ultimately show ?thesis unfolding n using none by (simp add: normalizeHierarchy_def Let_def)
  qed
qed

lemma hierarchical_stable:
  assumes "match_authority h = None" and "\<not> file_scheme h" and "split_scheme h = Some (p, rest)"
  shows "normalizeHierarchy (normalizeHierarchy h) = normalizeHierarchy h"
proof (cases "starts_with_slash rest \<and> \<not> list_ex line_terminator rest")
  case True
  define path where "path = posix_normalize rest"
  have n: "normalizeHierarchy h = p @ path" using assms True by (simp add: normalizeHierarchy_def path_def)
  have split: "split_scheme (p @ path) = Some (p, path)" using split_scheme_other[OF assms(3)] .
  have lines: "\<not> list_ex line_terminator path"
    using True set_posix_normalize[of rest] by (auto simp: path_def list_ex_iff line_terminator_def)
  have "strip_prefix ''//'' (p @ path) = None" using scheme_not_slash[OF split] by (cases "p @ path") auto
  then have none: "match_authority (p @ path) = None"
    using split posix_normalize_one_slash by (intro match_authority_None) (auto simp: path_def)
  have "\<not> file_scheme (p @ path)" using assms(2,3) file_scheme_other by blast
  then show ?thesis unfolding n using none split lines True
    by (simp add: normalizeHierarchy_def path_def posix_normalize_idem posix_normalize_absolute)
next
  case False
  then have "normalizeHierarchy h = h" using assms by (auto simp: normalizeHierarchy_def)
  then show ?thesis by simp
qed

lemma relative_stable:
  assumes "match_authority h = None" and "\<not> file_scheme h" and "split_scheme h = None"
  shows "normalizeHierarchy (normalizeHierarchy h) = normalizeHierarchy h"
proof (cases "h = []")
  case True
  then show ?thesis using assms by (simp add: normalizeHierarchy_def)
next
  case False
  define path where "path = posix_normalize h"
  have again: "posix_normalize path = path" by (simp add: path_def posix_normalize_idem)
  have ne: "path \<noteq> []" by (simp add: path_def)
  have one: "strip_prefix ''//'' path = None" by (simp add: path_def posix_normalize_one_slash)
  show ?thesis
  proof (cases "split_scheme path")
    case None
    have n: "normalizeHierarchy h = path" using assms False None by (simp add: normalizeHierarchy_def Let_def path_def)
    have "match_authority path = None" using one None by (intro match_authority_None) simp_all
    moreover have "\<not> file_scheme path" using file_scheme_split None by fastforce
    ultimately show ?thesis unfolding n using None ne again by (simp add: normalizeHierarchy_def Let_def)
  next
    case (Some pr)
    have n: "normalizeHierarchy h = ''./'' @ path" using assms False Some by (simp add: normalizeHierarchy_def Let_def path_def)
    obtain p r where pr: "split_scheme path = Some (p, r)" using Some by (cases pr) auto
    then have "scheme_letter (hd path)" by (auto simp: split_scheme_Some)
    then have "normalizeString True path \<noteq> []" using again normalized_names by blast
    moreover have "\<not> starts_with_slash path" using scheme_not_slash[OF pr] by (simp add: starts_with_slash_iff)
    ultimately have "posix_normalize (''./'' @ path) = path" using again ne posix_normalize_dot_slash by metis
    moreover have "match_authority (''./'' @ path) = None" by (rule match_authority_None) simp_all
    moreover have "\<not> file_scheme (''./'' @ path)" by (auto simp: file_scheme_def scheme_letter_def)
    moreover have "split_scheme (''./'' @ path) = None" by simp
    ultimately show ?thesis unfolding n using Some by (simp add: normalizeHierarchy_def Let_def del: append_Cons append_Nil)
  qed
qed

lemma normalizeHierarchy_stable: "normalizeHierarchy (normalizeHierarchy h) = normalizeHierarchy h"
proof (cases "match_authority h")
  case None
  then show ?thesis using file_stable hierarchical_stable relative_stable
    by (cases "file_scheme h"; cases "split_scheme h") auto
next
  case (Some a)
  then show ?thesis using authority_stable by (cases a) auto
qed

lemma suffix_free:
  assumes "\<And>c. c \<in> set h \<Longrightarrow> \<not> suffix_start c"
  shows "c \<in> set (normalizeHierarchy h) \<Longrightarrow> \<not> suffix_start c"
proof -
  assume c: "c \<in> set (normalizeHierarchy h)"
  have norm: "set (posix_normalize s) \<subseteq> set s \<union> {slash, CHR ''.''}" for s by (rule set_posix_normalize)
  have ok: "\<not> suffix_start slash" "\<not> suffix_start (CHR ''.'')" "\<And>d. d \<in> set ''file://'' \<Longrightarrow> \<not> suffix_start d"
    by (auto simp: suffix_start_def)
  have parts: "set h = set p \<union> set ''//'' \<union> set host \<union> set rest" if "match_authority h = Some (p, host, rest)" for p host rest
    using that by (auto simp: match_authority_Some split_scheme_Some)
  have drop: "set (drop 5 h) \<subseteq> set h" by (rule set_drop_subset)
  consider p host rest where "match_authority h = Some (p, host, rest)" | "match_authority h = None" "file_scheme h"
    | p rest where "match_authority h = None" "\<not> file_scheme h" "split_scheme h = Some (p, rest)"
    | "match_authority h = None" "\<not> file_scheme h" "split_scheme h = None"
    by (cases "match_authority h"; cases "split_scheme h") auto
  then show ?thesis
  proof cases
    case 1
    have "c \<in> set p \<union> set ''//'' \<union> set host \<union> insert slash (set rest \<union> {slash, CHR ''.''})"
      using c norm[of "if rest = [] then [slash] else rest"] 1
      by (auto simp: normalizeHierarchy_def Let_def split: if_splits)
    then show ?thesis using assms parts[OF 1] ok by auto
  next
    case 2
    have "c \<in> set ''file://'' \<union> set h \<union> {slash, CHR ''.''}"
      using c 2 drop norm[of "drop 5 h"] norm[of "slash # drop 5 h"]
      by (auto simp: normalizeHierarchy_def Let_def split: if_splits)
    then show ?thesis using assms ok by auto
  next
    case 3
    have "set h = set p \<union> set rest" using 3(3) by (auto simp: split_scheme_Some)
    then have "c \<in> set h \<union> {slash, CHR ''.''}"
      using c 3 norm[of rest] by (auto simp: normalizeHierarchy_def split: if_splits)
    then show ?thesis using assms ok by auto
  next
    case 4
    then have "c \<in> set h \<union> {slash, CHR ''.''}"
      using c norm[of h] by (auto simp: normalizeHierarchy_def Let_def split: if_splits)
    then show ?thesis using assms ok by auto
  qed
qed

lemma name_normalization_stable:
  "normalizeSourceMapMembershipName (normalizeSourceMapMembershipName name) = normalizeSourceMapMembershipName name"
proof -
  let ?p = "\<lambda>c. \<not> suffix_start c"
  define h where "h = takeWhile ?p name"
  define suffix where "suffix = dropWhile ?p name"
  have n: "normalizeSourceMapMembershipName name = normalizeHierarchy h @ suffix"
    by (simp add: normalizeSourceMapMembershipName_def h_def suffix_def)
  have "?p c" if "c \<in> set (normalizeHierarchy h)" for c
    using that by (rule suffix_free[rotated]) (auto simp: h_def dest: set_takeWhileD)
  moreover have "suffix = [] \<or> \<not> ?p (hd suffix)" unfolding suffix_def using hd_dropWhile[of ?p name] by blast
  ultimately have "takeWhile ?p (normalizeHierarchy h @ suffix) = normalizeHierarchy h"
    "dropWhile ?p (normalizeHierarchy h @ suffix) = suffix"
    by (cases suffix; simp add: takeWhile_append dropWhile_append)+
  then show ?thesis unfolding n by (simp add: normalizeSourceMapMembershipName_def normalizeHierarchy_stable)
qed

end
