(* ===== verification/NativeSymbolCorrect.thy ===== *)
theory NativeSymbolCorrect
  imports NativeSymbolNames
begin

text \<open>
  What the identities tell apart: a source membership is the set of its normalized names, and a native
  symbol identity is the locator it was derived from.
\<close>

section \<open>The text of an identity\<close>

lemma canonical_not_omitted_value: "isCanonicalJsonValue v \<Longrightarrow> \<not> is_omitted v"
  by (cases v) auto

text \<open>On values whose keys are in order the module's own serialization is \<open>JSON.stringify\<close>.\<close>

lemma symbol_canonicalJson_stringify: "isCanonicalJsonValue v \<Longrightarrow> symbol_canonicalJson v = Inr (stringify v)"
proof (induction v rule: isCanonicalJsonValue.induct)
  case (5 vs)
  then have "mapR symbol_canonicalJson vs = Inr (map stringify vs)" by (intro mapR_all_Inr) (simp add: list_all_iff)
  then show ?case by simp
next
  case (6 kvs)
  have s: "sort_entries kvs = kvs" using 6(2) by (auto intro: sort_entries_sorted simp: ascending_keys_sorted)
  have "mapR (\<lambda>(k, v). bindR (symbol_canonicalJson v) (\<lambda>t. Inr (quote_string k @ '':'' @ t))) kvs
      = Inr (map (\<lambda>(k, v). quote_string k @ '':'' @ stringify v) kvs)"
    using 6 by (intro mapR_all_Inr) (fastforce simp: list_all_iff split: prod.splits)
  moreover have "filter (\<lambda>(k, v). \<not> is_omitted v) kvs = kvs"
    using 6(2) canonical_not_omitted_value by (auto simp: filter_id_conv list_all_iff)
  ultimately show ?case using s by simp
qed auto

text \<open>The keys of the identities are in order and none is an integer index.\<close>

lemma symbol_keys_not_index [simp]:
  "\<not> is_index_key ''domain''" "\<not> is_index_key ''sources''" "\<not> is_index_key ''locator''" "\<not> is_index_key ''entryPath''"
  "\<not> is_index_key ''kind''" "\<not> is_index_key ''nativeSymbolLocator''" "\<not> is_index_key ''imports''" "\<not> is_index_key ''bindingPath''"
  "\<not> is_index_key ''canonicalEntryPath''" "\<not> is_index_key ''sourceMembershipSha256''" "\<not> is_index_key ''symbolAbi''"
  "\<not> is_index_key ''occurrence''"
  by (simp_all add: is_index_key_def is_digit_def)

lemma canonical_tree_object:
  assumes "sorted (map fst kvs)" and "distinct (map fst kvs)"
    and "list_all (\<lambda>k. \<not> is_index_key k) (map fst kvs)" and "list_all (\<lambda>(k, v). canonical_tree v) kvs"
  shows "canonical_tree (JObj kvs)"
proof -
  have "filter (\<lambda>kv. is_index_key (fst kv)) kvs = []" "filter (\<lambda>kv. \<not> is_index_key (fst kv)) kvs = kvs"
    using assms(3) by (auto simp: list_all_iff filter_empty_conv filter_id_conv)
  then show ?thesis using assms by (simp add: own_order_def sort_entries_sorted)
qed

section \<open>Source membership\<close>

definition given_root :: "jsval \<Rightarrow> string option" where
  "given_root root = (case root of JStr s \<Rightarrow> Some s | _ \<Rightarrow> None)"

text \<open>The names that a list of sources stands for.\<close>

definition membership_names :: "jsval \<Rightarrow> jsval list \<Rightarrow> string list" where
  "membership_names root sources =
     map (\<lambda>source. case source of JStr s \<Rightarrow> effectiveSourceMapMembershipName (given_root root) s | _ \<Rightarrow> []) sources"

lemma distinct_remdups_adj_sorted: "sorted xs \<Longrightarrow> distinct (remdups_adj xs)"
proof (induction xs rule: remdups_adj.induct)
  case (3 x y xs)
  then show ?case by (auto simp: less_le_not_le)
qed auto

lemma remdups_adj_sorted_eq:
  assumes "sorted xs" and "sorted ys"
  shows "remdups_adj xs = remdups_adj ys \<longleftrightarrow> set xs = set (ys :: string list)"
proof
  assume "set xs = set ys"
  then show "remdups_adj xs = remdups_adj ys" using assms
    by (intro sorted_distinct_set_unique) (simp_all add: distinct_remdups_adj_sorted sorted_remdups_adj)
qed (metis remdups_adj_set)

lemma source_membership_text:
  "symbol_canonicalJson (source_membership_json names) = Inr (stringify (source_membership_json names))"
  by (rule symbol_canonicalJson_stringify) (simp add: source_membership_json_def list_all_iff)

lemma source_membership_inj:
  assumes "stringify (source_membership_json xs) = stringify (source_membership_json ys)"
  shows "xs = ys"
proof -
  have "canonical_tree (source_membership_json zs)" for zs
    unfolding source_membership_json_def by (rule canonical_tree_object) (simp_all add: list_all_iff)
  then have "source_membership_json xs = source_membership_json ys" using assms stringify_inj by blast
  then have "map JStr xs = map JStr ys" by (simp add: source_membership_json_def)
  then show ?thesis by (simp add: inj_map_eq_map inj_def)
qed

lemma read_source_root_given: "read_source_root root = Inr r \<Longrightarrow> r = given_root root"
  by (auto simp: read_source_root_def given_root_def symbol_fail_def split: jsval.splits if_splits)

lemma symbol_string_Inr: "symbol_string v d = Inr s \<longleftrightarrow> v = JStr s \<and> s \<noteq> [] \<and> CHR 0x00 \<notin> set s"
  by (auto simp: symbol_string_def symbol_fail_def split: jsval.splits)

lemma source_membership_digest:
  assumes "convexWasmOfficialOutputSourceMembershipIdentitySha256 sha256 root (JArr sources) = Inr f"
  shows "f = sha256 (stringify (source_membership_json (remdups_adj (sort_strings (membership_names root sources)))))"
proof -
  obtain r names where r: "read_source_root root = Inr r"
    and names: "mapiR (\<lambda>index source. bindR (symbol_string source (''source-map source '' @ show_nat index)) (\<lambda>s.
      Inr (effectiveSourceMapMembershipName r s))) 0 sources = Inr names"
    and f: "f = sha256 (stringify (source_membership_json (remdups_adj (sort_strings names))))"
    using assms by (auto simp: convexWasmOfficialOutputSourceMembershipIdentitySha256_def bindR_Inr_iff source_membership_text)
  have "names = membership_names root sources"
  proof (rule nth_equalityI)
    show len: "length names = length (membership_names root sources)"
      using mapiR_length[OF names] by (simp add: membership_names_def)
    fix i assume "i < length names"
    then have i: "i < length sources" using mapiR_length[OF names] by simp
    then show "names ! i = membership_names root sources ! i"
      using mapiR_nth[OF names i] read_source_root_given[OF r]
      by (auto simp: membership_names_def bindR_Inr_iff symbol_string_Inr)
  qed
  then show ?thesis using f by simp
qed

text \<open>C29: The source-membership identity tells apart exactly the sets of normalized names: the order of the
  sources, repetitions and different spellings of one name make no difference, and with a collision-free
  hash nothing else is lost.\<close>

theorem source_membership_decides_names:
  assumes "convexWasmOfficialOutputSourceMembershipIdentitySha256 sha256 root (JArr sources) = Inr f"
    and "convexWasmOfficialOutputSourceMembershipIdentitySha256 sha256 root' (JArr sources') = Inr g"
    and "inj sha256"
  shows "f = g \<longleftrightarrow> set (membership_names root sources) = set (membership_names root' sources')"
proof -
  let ?xs = "sort_strings (membership_names root sources)" and ?ys = "sort_strings (membership_names root' sources')"
  have "f = g \<longleftrightarrow> remdups_adj ?xs = remdups_adj ?ys"
    using source_membership_digest[OF assms(1)] source_membership_digest[OF assms(2)] assms(3) source_membership_inj
    by (auto simp: inj_eq)
  also have "\<dots> \<longleftrightarrow> set ?xs = set ?ys" by (rule remdups_adj_sorted_eq) (simp_all add: sorted_sort_strings)
  finally show ?thesis by simp
qed

theorem source_membership_decides_names_witness:
  "\<exists>f g. convexWasmOfficialOutputSourceMembershipIdentitySha256 (\<lambda>s. s) (JStr ''/src'') (JArr [JStr ''./shared.js'', JStr ''entry.js'', JStr ''shared.js'']) = Inr f
     \<and> convexWasmOfficialOutputSourceMembershipIdentitySha256 (\<lambda>s. s) (JStr ''/src'') (JArr [JStr ''entry.js'', JStr ''shared.js'']) = Inr g \<and> f = g"
proof -
  let ?xs = "[JStr ''./shared.js'', JStr ''entry.js'', JStr ''shared.js'']" and ?ys = "[JStr ''entry.js'', JStr ''shared.js'']"
  have "\<exists>f. convexWasmOfficialOutputSourceMembershipIdentitySha256 (\<lambda>s. s) (JStr ''/src'') (JArr ?xs) = Inr f"
    "\<exists>f. convexWasmOfficialOutputSourceMembershipIdentitySha256 (\<lambda>s. s) (JStr ''/src'') (JArr ?ys) = Inr f"
    by (simp_all add: convexWasmOfficialOutputSourceMembershipIdentitySha256_def read_source_root_def symbol_string_def source_membership_text)
  then obtain f g where fg: "convexWasmOfficialOutputSourceMembershipIdentitySha256 (\<lambda>s. s) (JStr ''/src'') (JArr ?xs) = Inr f"
    "convexWasmOfficialOutputSourceMembershipIdentitySha256 (\<lambda>s. s) (JStr ''/src'') (JArr ?ys) = Inr g" by blast
  have "effectiveSourceMapMembershipName (Some ''/src'') ''./shared.js'' = ''/src/shared.js''"
    "effectiveSourceMapMembershipName (Some ''/src'') ''shared.js'' = ''/src/shared.js''" by code_simp+
  then have "set (membership_names (JStr ''/src'') ?xs) = set (membership_names (JStr ''/src'') ?ys)"
    by (auto simp: membership_names_def given_root_def)
  then have "f = g" using source_membership_decides_names[OF fg] by (simp add: inj_def)
  then show ?thesis using fg by blast
qed

text \<open>Normalizing a source-map name is stable: the normalized spelling keeps its class (authority,
  file, hierarchical scheme, opaque reference or relative path) and normalizes to itself, so equal
  memberships have one spelling.\<close>

lemma source_name_normalization_stable:
  "normalizeSourceMapMembershipName (normalizeSourceMapMembershipName name) = normalizeSourceMapMembershipName name"
  by (rule name_normalization_stable)

section \<open>Locators\<close>

definition edge_ok :: "import_edge \<Rightarrow> bool" where
  "edge_ok e \<longleftrightarrow> edgeKind e \<in> {''dynamic-import'', ''import-statement''} \<and> 0 \<le> edgeOccurrence e \<and> edgeOccurrence e \<le> max_safe_integer"

definition locator_ok :: "symbol_locator \<Rightarrow> bool" where
  "locator_ok l \<longleftrightarrow> bindingEntryPath l \<noteq> [] \<and> CHR 0x00 \<notin> set (bindingEntryPath l) \<and> list_all edge_ok (bindingImports l)
     \<and> (canonicalEntryPath l \<noteq> None \<longrightarrow> canonicalEntryPath l = Some (bindingEntryPath l) \<and> bindingImports l = [])
     \<and> SHA256_PATTERN (locatorMembershipSha256 l)"

lemma symbol_fail_Inr_iff [simp]: "symbol_fail m = Inr x \<longleftrightarrow> False"
  by (simp add: symbol_fail_def)

lemma symbol_sha256_Inr: "symbol_sha256 v d = Inr s \<longleftrightarrow> v = JStr s \<and> SHA256_PATTERN s"
  by (auto simp: symbol_sha256_def split: jsval.splits)

lemma symbol_cases:
  "(case w of JArr items \<Rightarrow> f items | _ \<Rightarrow> symbol_fail m) = Inr x \<longleftrightarrow> (\<exists>items. w = JArr items \<and> f items = Inr x)"
  "(case w of JStr s \<Rightarrow> g s | _ \<Rightarrow> symbol_fail m) = Inr x \<longleftrightarrow> (\<exists>s. w = JStr s \<and> g s = Inr x)"
  "(case w of JNum n \<Rightarrow> h n | _ \<Rightarrow> symbol_fail m) = Inr x \<longleftrightarrow> (\<exists>n. w = JNum n \<and> h n = Inr x)"
  by (cases w; simp)+

lemma symbol_if: "(if b then symbol_fail m else r) = Inr x \<longleftrightarrow> \<not> b \<and> r = Inr x"
  by simp

lemma exact_keys: "mset (map fst kvs) = mset ks \<Longrightarrow> symbol_requireExactKeys (JObj kvs) ks d = Inr kvs"
proof -
  assume "mset (map fst kvs) = mset ks"
  then have "sort_strings (map fst kvs) = sort_strings ks" by (rule strings.sort_cong_mset)
  then show ?thesis by (simp add: symbol_requireExactKeys_def)
qed

lemma safe_num_int: "isSafeInteger n \<Longrightarrow> \<bar>num_int n\<bar> \<le> max_safe_integer"
  by (cases n) (simp_all add: max_safe_integer_def)

lemma read_import_edge_ok: "read_import_edge i v = Inr e \<Longrightarrow> edge_ok e"
proof -
  assume "read_import_edge i v = Inr e"
  then obtain kind n where "kind \<in> {''dynamic-import'', ''import-statement''}" "isSafeInteger n" "\<not> num_int n < 0"
    "e = \<lparr>edgeKind = kind, edgeOccurrence = num_int n\<rparr>"
    unfolding read_import_edge_def Let_def bindR_Inr_iff symbol_cases symbol_if by blast
  then show "edge_ok e" using safe_num_int[of n] by (simp add: edge_ok_def)
qed

lemma read_import_edge_retry: "edge_ok e \<Longrightarrow> read_import_edge i (import_edge_json e) = Inr e"
  by (simp add: read_import_edge_def import_edge_json_def exact_keys edge_ok_def Let_def)

lemma locator_read_ok:
  assumes "convexWasmOfficialOutputChunkNativeSymbolLocator v = Inr l"
  shows "locator_ok l"
proof -
  obtain b e m a entryPath where
    e: "(if e = JNull then Inr None else bindR (symbol_string e ''chunk canonical entry path'') (\<lambda>s. Inr (Some s))) = Inr entryPath"
    and rest: "(if a \<noteq> JUndefined \<and> a \<noteq> JStr convexWasmOfficialOutputChunkNativeSymbolAbi
       then symbol_fail ''chunk native-symbol ABI is unsupported''
       else bindR (normalizeChunkBindingPath b) (\<lambda>(bindingEntry, edges).
         if entryPath \<noteq> None \<and> (entryPath \<noteq> Some bindingEntry \<or> edges \<noteq> [])
         then symbol_fail ''chunk canonical entry path disagrees with its stable binding path''
         else bindR (symbol_sha256 m ''chunk source-membership identity'') (\<lambda>sha.
           Inr \<lparr>bindingEntryPath = bindingEntry, bindingImports = edges, canonicalEntryPath = entryPath,
             locatorMembershipSha256 = sha\<rparr>))) = Inr l"
    using assms unfolding convexWasmOfficialOutputChunkNativeSymbolLocator_def bindR_Inr_iff by blast
  from rest obtain bindingEntry edges sha where b: "normalizeChunkBindingPath b = Inr (bindingEntry, edges)"
    and ok: "\<not> (entryPath \<noteq> None \<and> (entryPath \<noteq> Some bindingEntry \<or> edges \<noteq> []))"
    and m: "symbol_sha256 m ''chunk source-membership identity'' = Inr sha"
    and l: "l = \<lparr>bindingEntryPath = bindingEntry, bindingImports = edges, canonicalEntryPath = entryPath, locatorMembershipSha256 = sha\<rparr>"
    by (auto simp: bindR_Inr_iff split: if_splits)
  obtain kvs items where be: "symbol_string (own_prop kvs ''entryPath'') ''chunk binding path entry path'' = Inr bindingEntry"
    and im: "mapiR read_import_edge 0 items = Inr edges"
    using b unfolding normalizeChunkBindingPath_def bindR_Inr_iff symbol_cases by blast
  have "list_all edge_ok edges" using mapiR_set[OF im] read_import_edge_ok by (fastforce simp: list_all_iff)
  then show ?thesis using be ok m unfolding l by (auto simp: locator_ok_def symbol_string_Inr symbol_sha256_Inr)
qed

lemma locator_retry:
  assumes "locator_ok l"
  shows "convexWasmOfficialOutputChunkNativeSymbolLocator (symbol_locator_json l) = Inr l"
    "normalizeChunkNativeSymbolLocator (symbol_locator_json l) = Inr l"
proof -
  have im: "mapiR read_import_edge n (map import_edge_json es) = Inr es" if "list_all edge_ok es" for n es
    using that by (induction es arbitrary: n) (auto simp: read_import_edge_retry)
  have b: "normalizeChunkBindingPath (JObj [(''entryPath'', JStr (bindingEntryPath l)), (''imports'', JArr (map import_edge_json (bindingImports l)))])
      = Inr (bindingEntryPath l, bindingImports l)"
    using assms by (simp add: normalizeChunkBindingPath_def exact_keys im locator_ok_def symbol_string_def)
  show one: "convexWasmOfficialOutputChunkNativeSymbolLocator (symbol_locator_json l) = Inr l"
  proof (cases "canonicalEntryPath l")
    case None
    then show ?thesis using assms
      by (simp add: convexWasmOfficialOutputChunkNativeSymbolLocator_def symbol_locator_json_def b symbol_sha256_def locator_ok_def)
  next
    case (Some s)
    then have "s = bindingEntryPath l" "bindingImports l = []" using assms by (simp_all add: locator_ok_def)
    then show ?thesis using assms Some b
      by (simp add: convexWasmOfficialOutputChunkNativeSymbolLocator_def symbol_locator_json_def symbol_string_def symbol_sha256_def locator_ok_def)
  qed
  show "normalizeChunkNativeSymbolLocator (symbol_locator_json l) = Inr l"
    using one unfolding normalizeChunkNativeSymbolLocator_def symbol_locator_json_def by (simp add: exact_keys)
qed

lemma import_edge_json_inj: "import_edge_json a = import_edge_json b \<Longrightarrow> a = b"
  by (cases a; cases b) (simp add: import_edge_json_def)

lemma symbol_locator_json_inj: "symbol_locator_json a = symbol_locator_json b \<Longrightarrow> a = b"
proof -
  assume eq: "symbol_locator_json a = symbol_locator_json b"
  then have "map import_edge_json (bindingImports a) = map import_edge_json (bindingImports b)"
    and rest: "bindingEntryPath a = bindingEntryPath b" "canonicalEntryPath a = canonicalEntryPath b"
      "locatorMembershipSha256 a = locatorMembershipSha256 b"
    by (simp_all add: symbol_locator_json_def split: option.splits)
  then have "bindingImports a = bindingImports b" using import_edge_json_inj by (simp add: inj_map_eq_map inj_def)
  with rest show "a = b" by simp
qed

text \<open>The locator that an identity is derived from.\<close>

definition identity_locator :: "jsval \<Rightarrow> jsval \<Rightarrow> jsval \<Rightarrow> (string + symbol_locator) option" where
  "identity_locator entryPath entryPublication nativeSymbolLocator =
     (case entryPublication of
        JBool True \<Rightarrow> (case entryPath of JStr s \<Rightarrow> Some (Inl s) | _ \<Rightarrow> None)
      | JBool False \<Rightarrow> (case normalizeChunkNativeSymbolLocator nativeSymbolLocator of Inr l \<Rightarrow> Some (Inr l) | Inl _ \<Rightarrow> None)
      | _ \<Rightarrow> None)"

definition locator_json :: "string + symbol_locator \<Rightarrow> jsval" where
  "locator_json x = symbol_identity_json (case x of Inl s \<Rightarrow> publication_locator_json s | Inr l \<Rightarrow> chunk_locator_json l)"

lemma locator_json_inj: "locator_json x = locator_json y \<Longrightarrow> x = y"
  by (auto simp: locator_json_def symbol_identity_json_def publication_locator_json_def chunk_locator_json_def
      split: sum.splits dest: symbol_locator_json_inj)

lemma symbol_locator_json_tree: "locator_ok l \<Longrightarrow> canonical_tree (symbol_locator_json l)"
proof -
  assume ok: "locator_ok l"
  have "canonical_tree (import_edge_json e)" if "edge_ok e" for e
    unfolding import_edge_json_def using that by (intro canonical_tree_object) (simp_all add: edge_ok_def)
  then have edges: "list_all canonical_tree (map import_edge_json (bindingImports l))"
    using ok by (auto simp: locator_ok_def list_all_iff)
  have "canonical_tree (JObj [(''entryPath'', JStr (bindingEntryPath l)), (''imports'', JArr (map import_edge_json (bindingImports l)))])"
    using edges by (intro canonical_tree_object) simp_all
  then show ?thesis unfolding symbol_locator_json_def by (intro canonical_tree_object) (simp_all split: option.splits)
qed

lemma locator_json_tree:
  assumes "case x of Inl s \<Rightarrow> True | Inr l \<Rightarrow> locator_ok l"
  shows "canonical_tree (locator_json x)" "isCanonicalJsonValue (locator_json x)"
proof -
  have inner: "canonical_tree (case x of Inl s \<Rightarrow> publication_locator_json s | Inr l \<Rightarrow> chunk_locator_json l)"
  proof (cases x)
    case (Inl s)
    have "canonical_tree (publication_locator_json s)"
      unfolding publication_locator_json_def by (rule canonical_tree_object) simp_all
    then show ?thesis using Inl by simp
  next
    case (Inr l)
    then have "canonical_tree (symbol_locator_json l)" using assms symbol_locator_json_tree by simp
    then have "canonical_tree (chunk_locator_json l)"
      unfolding chunk_locator_json_def by (intro canonical_tree_object) simp_all
    then show ?thesis using Inr by simp
  qed
  show "canonical_tree (locator_json x)" unfolding locator_json_def symbol_identity_json_def
    by (rule canonical_tree_object) (use inner in simp_all)
  have "isCanonicalJsonValue (import_edge_json e)" for e by (simp add: import_edge_json_def)
  then have "isCanonicalJsonValue (symbol_locator_json l)" for l
    by (simp add: symbol_locator_json_def list_all_iff split: option.splits)
  then show "isCanonicalJsonValue (locator_json x)"
    by (cases x) (simp_all add: locator_json_def symbol_identity_json_def publication_locator_json_def chunk_locator_json_def)
qed

lemma native_symbol_digest:
  assumes "convexWasmOfficialOutputNativeSymbolIdentitySha256 sha256 e p l = Inr f"
  shows "\<exists>x. identity_locator e p l = Some x \<and> (case x of Inl s \<Rightarrow> True | Inr l \<Rightarrow> locator_ok l) \<and> f = sha256 (stringify (locator_json x))"
proof -
  obtain b where p: "p = JBool b" using assms by (cases p) (simp_all add: convexWasmOfficialOutputNativeSymbolIdentitySha256_def)
  show ?thesis
  proof (cases b)
    case True
    then obtain s t where s: "e = JStr s" and f: "symbol_canonicalJson (locator_json (Inl s)) = Inr t" "f = sha256 t"
      using assms p by (auto simp: convexWasmOfficialOutputNativeSymbolIdentitySha256_def bindR_Inr_iff symbol_string_Inr locator_json_def)
    then show ?thesis using p True symbol_canonicalJson_stringify[OF locator_json_tree(2)[of "Inl s"]]
      by (intro exI[of _ "Inl s"]) (simp add: identity_locator_def)
  next
    case False
    then obtain k t where k: "normalizeChunkNativeSymbolLocator l = Inr k"
      and t: "symbol_canonicalJson (locator_json (Inr k)) = Inr t" "f = sha256 t"
      using assms p by (auto simp: convexWasmOfficialOutputNativeSymbolIdentitySha256_def bindR_Inr_iff locator_json_def)
    have "locator_ok k" using k by (auto simp: normalizeChunkNativeSymbolLocator_def bindR_Inr_iff split: if_splits intro: locator_read_ok)
    then show ?thesis using p False k t symbol_canonicalJson_stringify[OF locator_json_tree(2)[of "Inr k"]]
      by (intro exI[of _ "Inr k"]) (simp add: identity_locator_def)
  qed
qed

text \<open>C30: A native symbol identity tells apart exactly the locators: with a collision-free hash two
  identities are equal exactly when both name the publication of the same entry, or both name a chunk
  with the same binding path, canonical entry and source membership.\<close>

theorem native_symbol_identity_decides:
  assumes "convexWasmOfficialOutputNativeSymbolIdentitySha256 sha256 e p l = Inr f"
    and "convexWasmOfficialOutputNativeSymbolIdentitySha256 sha256 e' p' l' = Inr g"
    and "inj sha256"
  shows "f = g \<longleftrightarrow> identity_locator e p l = identity_locator e' p' l'"
proof -
  obtain x where x: "identity_locator e p l = Some x" "case x of Inl s \<Rightarrow> True | Inr l \<Rightarrow> locator_ok l" "f = sha256 (stringify (locator_json x))"
    using native_symbol_digest[OF assms(1)] by blast
  obtain y where y: "identity_locator e' p' l' = Some y" "case y of Inl s \<Rightarrow> True | Inr l \<Rightarrow> locator_ok l" "g = sha256 (stringify (locator_json y))"
    using native_symbol_digest[OF assms(2)] by blast
  have "f = g \<longleftrightarrow> stringify (locator_json x) = stringify (locator_json y)" using x(3) y(3) assms(3) by (simp add: inj_eq)
  also have "\<dots> \<longleftrightarrow> x = y"
    using stringify_inj[OF locator_json_tree(1)[OF x(2)] locator_json_tree(1)[OF y(2)]] locator_json_inj by blast
  finally show ?thesis using x(1) y(1) by simp
qed

definition sample_locator :: symbol_locator where
  "sample_locator = \<lparr>bindingEntryPath = ''a.js'', bindingImports = [\<lparr>edgeKind = ''dynamic-import'', edgeOccurrence = 0\<rparr>],
     canonicalEntryPath = None, locatorMembershipSha256 = replicate 64 CHR ''a''\<rparr>"

theorem native_symbol_identity_decides_witness:
  "\<exists>f g. convexWasmOfficialOutputNativeSymbolIdentitySha256 (\<lambda>s. s) JUndefined (JBool False) (symbol_locator_json sample_locator) = Inr f
     \<and> convexWasmOfficialOutputNativeSymbolIdentitySha256 (\<lambda>s. s) (JStr ''a.js'') (JBool True) JNull = Inr g \<and> f \<noteq> g"
proof -
  have ok: "locator_ok sample_locator"
    by (simp add: locator_ok_def sample_locator_def edge_ok_def max_safe_integer_def SHA256_PATTERN_def is_lower_hex_def list_all_iff)
  have serialized: "symbol_canonicalJson (locator_json x) = Inr (stringify (locator_json x))" if "case x of Inl s \<Rightarrow> True | Inr l \<Rightarrow> locator_ok l" for x
    using symbol_canonicalJson_stringify[OF locator_json_tree(2)[OF that]] .
  have "\<exists>f. convexWasmOfficialOutputNativeSymbolIdentitySha256 (\<lambda>s. s) JUndefined (JBool False) (symbol_locator_json sample_locator) = Inr f"
    using serialized[of "Inr sample_locator"] ok
    by (simp add: convexWasmOfficialOutputNativeSymbolIdentitySha256_def locator_retry locator_json_def)
  moreover have "\<exists>g. convexWasmOfficialOutputNativeSymbolIdentitySha256 (\<lambda>s. s) (JStr ''a.js'') (JBool True) JNull = Inr g"
    using serialized[of "Inl ''a.js''"] by (simp add: convexWasmOfficialOutputNativeSymbolIdentitySha256_def symbol_string_def locator_json_def)
  ultimately obtain f g where fg: "convexWasmOfficialOutputNativeSymbolIdentitySha256 (\<lambda>s. s) JUndefined (JBool False) (symbol_locator_json sample_locator) = Inr f"
    "convexWasmOfficialOutputNativeSymbolIdentitySha256 (\<lambda>s. s) (JStr ''a.js'') (JBool True) JNull = Inr g" by blast
  have "identity_locator JUndefined (JBool False) (symbol_locator_json sample_locator) \<noteq> identity_locator (JStr ''a.js'') (JBool True) JNull"
    by (simp add: identity_locator_def locator_retry(2)[OF ok])
  then have "f \<noteq> g" using native_symbol_identity_decides[OF fg] by (simp add: inj_def)
  then show ?thesis using fg by blast
qed

end
