(* ===== verification/JsonData.thy ===== *)
theory JsonData
  imports NativeSymbolCorrect
begin

text \<open>
  Normalized JSON trees and the data that their text carries: two trees have the same text exactly when
  they have the same data, and the data of an object is the data of its properties.
\<close>

section \<open>Texts of normal trees\<close>

lemma canonical_normal: "canonical_tree v \<Longrightarrow> normal_tree v"
  by (induction v rule: canonical_tree.induct) (auto simp: list_all_iff)

lemma canonical_wf: "canonical_tree v \<Longrightarrow> wf_js v"
  by (rule normal_tree_wf) (rule canonical_normal)

lemma normal_text:
  assumes "normal_tree v" and "normal_tree w"
  shows "stringify v = stringify w \<longleftrightarrow> js_data v = js_data w"
proof -
  have "stringify v = stringify w \<longleftrightarrow> stringify (unsigned_zero v) = stringify (unsigned_zero w)"
    using assms by (simp add: stringify_unsigned_zero)
  also have "\<dots> \<longleftrightarrow> unsigned_zero v = unsigned_zero w"
    using stringify_inj[OF canonical_unsigned_zero[OF assms(1)] canonical_unsigned_zero[OF assms(2)]] by auto
  also have "\<dots> \<longleftrightarrow> js_data v = js_data w"
    using js_data_inj[OF canonical_unsigned_zero[OF assms(1)] canonical_unsigned_zero[OF assms(2)]]
      js_data_unsigned_zero[of v] js_data_unsigned_zero[of w] by auto
  finally show ?thesis .
qed

lemma canonical_text_data:
  assumes "canonicalJson w = Inr (stringify v)" and "wf_js w" and "normal_tree v"
  shows "js_data v = js_data w"
proof -
  obtain c where c: "canonical_tree c" "stringify v = stringify c" "js_data c = js_data w" using canonicalJson_stringify[OF assms(2,1)] by blast
  then show ?thesis using normal_text[OF assms(3) canonical_normal] by metis
qed

lemma canonical_tree_text: "canonical_tree v \<Longrightarrow> canonicalJson v = Inr (stringify v)"
  by (simp add: canonicalJson_def normal_tree_fixpoint canonical_normal normalizeJson_def)

section \<open>Properties\<close>

lemma data_prop:
  assumes "js_data (JObj a) = js_data (JObj b)"
  shows "js_data (own_prop a k) = js_data (own_prop b k)"
proof -
  have "map_option js_data (map_of a k) = map_option js_data (map_of b k)"
    using assms map_of_map_data[of js_data a k] map_of_map_data[of js_data b k] by simp
  then show ?thesis by (auto simp: own_prop_def split: option.splits)
qed

lemma normal_prop: "normal_tree (JObj kvs) \<Longrightarrow> own_prop kvs k \<noteq> JUndefined \<Longrightarrow> normal_tree (own_prop kvs k)"
  by (auto simp: own_prop_def list_all_iff split: option.splits dest: map_of_SomeD)

lemma normal_nth: "normal_tree (JArr vs) \<Longrightarrow> i < length vs \<Longrightarrow> normal_tree (vs ! i)"
  by (simp add: list_all_length)

lemma own_prop_filter: "P k \<Longrightarrow> own_prop (filter (\<lambda>kv. P (fst kv)) kvs) k = own_prop kvs k"
  by (induction kvs) (auto simp: own_prop_def)

lemma own_order_names: "list_all (\<lambda>k. \<not> is_index_key k) (map fst kvs) \<Longrightarrow> own_order kvs = kvs"
proof -
  assume "list_all (\<lambda>k. \<not> is_index_key k) (map fst kvs)"
  then have "filter (\<lambda>kv. is_index_key (fst kv)) kvs = []" "filter (\<lambda>kv. \<not> is_index_key (fst kv)) kvs = kvs"
    by (auto simp: list_all_iff filter_empty_conv filter_id_conv)
  then show ?thesis by (simp add: own_order_def)
qed

lemma wf_object:
  "distinct (map fst kvs) \<Longrightarrow> list_all (\<lambda>k. \<not> is_index_key k) (map fst kvs) \<Longrightarrow> list_all (\<lambda>(k, v). wf_js v) kvs \<Longrightarrow> wf_js (JObj kvs)"
  by (simp add: own_order_names)

lemma normal_sorted:
  assumes "normal_tree (JObj kvs)" and "list_all (\<lambda>k. \<not> is_index_key k) (map fst kvs)"
  shows "sorted (map fst kvs)"
proof -
  have "list_all (\<lambda>k. \<not> is_index_key k) (map fst (sort_entries kvs))" using assms(2) by (simp add: list_all_iff)
  then have "own_order (sort_entries kvs) = sort_entries kvs" by (rule own_order_names)
  then have "sort_entries kvs = kvs" using assms(1) by simp
  moreover have "sorted (map fst (sort_entries kvs))" by (simp add: js_sort_map sorted_sort_strings)
  ultimately show ?thesis by simp
qed

lemma normal_filter:
  assumes "normal_tree (JObj kvs)" and "list_all (\<lambda>k. \<not> is_index_key k) (map fst kvs)"
  shows "normal_tree (JObj (filter (\<lambda>kv. P (fst kv)) kvs))"
proof -
  let ?f = "filter (\<lambda>kv. P (fst kv)) kvs"
  have "sorted (map fst ?f)" using normal_sorted[OF assms] by (simp add: sorted_map sorted_wrt_filter)
  then have "sort_entries ?f = ?f" by (rule sort_entries_sorted)
  moreover have "own_order ?f = ?f" using assms(2) by (intro own_order_names) (auto simp: list_all_iff)
  moreover have "distinct (map fst ?f)" using assms(1) by (simp add: distinct_map_filter)
  ultimately show ?thesis using assms(1) by (auto simp: list_all_iff)
qed

lemma num_data_int:
  "isFinite m \<Longrightarrow> isFinite n \<Longrightarrow> num_data m = num_data n \<Longrightarrow> isSafeInteger m = isSafeInteger n \<and> num_int m = num_int n"
  by (cases m; cases n) (simp_all add: max_safe_integer_def)

end
