(* ===== verification/ChunkSpecifiers.thy ===== *)
theory ChunkSpecifiers
  imports ChunkDependencies
begin

text \<open>
  Executable dependency specifiers: eight decimal digits carry an occurrence exactly, and parsing
  inverts creation.
\<close>

section \<open>Eight digits\<close>

lemma read_nat_bound: "list_all is_digit w \<Longrightarrow> read_nat acc w < (Suc acc) * 10 ^ length w"
proof (induction w arbitrary: acc)
  case (Cons c w)
  have d: "digit_value c \<le> 9" using Cons.prems by (auto simp: is_digit_def digit_value_def)
  have "read_nat (10 * acc + digit_value c) w < Suc (10 * acc + digit_value c) * 10 ^ length w" using Cons by simp
  also have "\<dots> \<le> (Suc acc * 10) * 10 ^ length w" using d by (intro mult_le_mono1) simp
  finally show ?case by (simp add: algebra_simps)
qed simp

lemma show_nat_length: "n < 10 ^ k \<Longrightarrow> 0 < k \<Longrightarrow> length (show_nat n) \<le> k"
proof (induction n arbitrary: k rule: show_nat.induct)
  case (1 n)
  show ?case
  proof (cases "n < 10")
    case True
    then show ?thesis using "1.prems" by (subst show_nat.simps) simp
  next
    case False
    then obtain k' where k: "k = Suc k'" "0 < k'" using "1.prems" by (cases k; cases "k - 1") auto
    have "n div 10 < 10 ^ k'" using "1.prems" k by (simp add: div_less_iff_less_mult mult.commute)
    then have "length (show_nat (n div 10)) \<le> k'" using "1.IH"[OF False] k by blast
    then show ?thesis using False k by (subst show_nat.simps) simp
  qed
qed

lemma digit_char_value: "is_digit c \<Longrightarrow> digit_char (digit_value c) = c"
  by (simp add: digit_char_def digit_value_def is_digit_def)

lemma read_nat_snoc: "read_nat acc (w @ [c]) = 10 * read_nat acc w + digit_value c"
  by (simp add: read_nat_append)

lemma read_nat_zeros: "read_nat 0 (replicate k CHR ''0'' @ w) = read_nat 0 w"
  by (induction k) (simp_all add: digit_value_def)

lemma pad_read:
  "list_all is_digit w \<Longrightarrow> w \<noteq> [] \<Longrightarrow> replicate (length w - length (show_nat (read_nat 0 w))) CHR ''0'' @ show_nat (read_nat 0 w) = w"
proof (induction w rule: rev_induct)
  case (snoc c w)
  have c: "is_digit c" "digit_value c < 10" using snoc.prems by (auto simp: is_digit_def digit_value_def)
  show ?case
  proof (cases "read_nat 0 w = 0")
    case True
    have "w = replicate (length w) CHR ''0''"
    proof (cases "w = []")
      case False
      have "show_nat 0 = ''0''" by code_simp
      then have e: "replicate (length w - 1) CHR ''0'' @ ''0'' = w" using snoc False True by simp
      have "replicate (length w) CHR ''0'' = replicate (length w - 1) CHR ''0'' @ ''0''"
        using False replicate_append_same[of "length w - 1" "CHR ''0''"] by (cases w) simp_all
      then show ?thesis using e by simp
    qed simp
    moreover have "show_nat (digit_value c) = [c]" using c by (simp add: show_nat.simps digit_char_value)
    ultimately show ?thesis using True by (simp add: read_nat_snoc)
  next
    case False
    then have ne: "w \<noteq> []" by auto
    have r: "10 * read_nat 0 w + digit_value c \<ge> 10" using False by simp
    have "show_nat (10 * read_nat 0 w + digit_value c) = show_nat (read_nat 0 w) @ [c]"
      using r c by (subst show_nat.simps) (simp add: digit_char_value)
    then show ?thesis using snoc ne by (simp add: read_nat_snoc)
  qed
qed simp

lemma pad_eight:
  assumes "n < 100000000"
  shows "length (padStart 8 CHR ''0'' (show_nat n)) = 8" "list_all is_digit (padStart 8 CHR ''0'' (show_nat n))"
    "read_nat 0 (padStart 8 CHR ''0'' (show_nat n)) = n"
proof -
  have "length (show_nat n) \<le> 8" using assms by (intro show_nat_length) simp_all
  then show "length (padStart 8 CHR ''0'' (show_nat n)) = 8" by (simp add: padStart_def)
  have "is_digit (CHR ''0'')" by (simp add: is_digit_def)
  then show "list_all is_digit (padStart 8 CHR ''0'' (show_nat n))"
    using show_nat_digits by (auto simp: padStart_def list_all_iff)
  show "read_nat 0 (padStart 8 CHR ''0'' (show_nat n)) = n" by (simp add: padStart_def read_nat_zeros read_show_nat)
qed

lemma eight_pad:
  assumes "length w = 8" and "list_all is_digit w"
  shows "padStart 8 CHR ''0'' (show_nat (read_nat 0 w)) = w" "read_nat 0 w < 100000000"
proof -
  have "w \<noteq> []" using assms(1) by auto
  then show "padStart 8 CHR ''0'' (show_nat (read_nat 0 w)) = w" using pad_read[of w] assms by (simp add: padStart_def)
  show "read_nat 0 w < 100000000" using read_nat_bound[of w 0] assms by simp
qed

section \<open>Parsing inverts creation\<close>

lemma match_occurrence_iff: "match_occurrence s = Some w \<longleftrightarrow> s = w @ ''.js'' \<and> length w = 8 \<and> list_all is_digit w"
proof
  assume "match_occurrence s = Some w"
  then have "length s = 11" "w = take 8 s" "list_all is_digit w" "drop 8 s = ''.js''"
    by (simp_all add: match_occurrence_def split: if_splits)
  then show "s = w @ ''.js'' \<and> length w = 8 \<and> list_all is_digit w" using append_take_drop_id[of 8 s] by simp
qed (auto simp: match_occurrence_def)

lemma match_initialization_iff:
  "match_initialization s = Some w \<longleftrightarrow> s = initialization_prefix @ w @ ''.js'' \<and> length w = 8 \<and> list_all is_digit w"
  unfolding match_initialization_def case_strip_prefix match_occurrence_iff by blast

lemma match_symbol_iff:
  "match_symbol s = Some (sha, w) \<longleftrightarrow> s = sha @ ''_'' @ w @ ''.js'' \<and> SHA256_PATTERN sha \<and> length w = 8 \<and> list_all is_digit w"
proof
  assume "match_symbol s = Some (sha, w)"
  then have m: "length s > 64" "sha = take 64 s" "SHA256_PATTERN sha" "s ! 64 = CHR ''_''" "match_occurrence (drop 65 s) = Some w"
    by (auto simp: match_symbol_def Let_def split: if_splits)
  have "s = take 64 s @ s ! 64 # drop 65 s" using id_take_nth_drop[OF m(1)] by simp
  then show "s = sha @ ''_'' @ w @ ''.js'' \<and> SHA256_PATTERN sha \<and> length w = 8 \<and> list_all is_digit w"
    using m match_occurrence_iff by (metis append_Cons append_Nil)
next
  assume a: "s = sha @ ''_'' @ w @ ''.js'' \<and> SHA256_PATTERN sha \<and> length w = 8 \<and> list_all is_digit w"
  then have n: "length sha = 64" by (simp add: SHA256_PATTERN_def)
  have "drop 65 s = w @ ''.js''" using a n by simp
  then show "match_symbol s = Some (sha, w)"
    using a n match_occurrence_iff[of "drop 65 s" w] by (simp add: match_symbol_def nth_append)
qed

lemma match_dependency_iff:
  "match_dependency s = Some (k, sha, w) \<longleftrightarrow> k \<in> {''dynamic_import'', ''import_statement''} \<and>
     s = dependency_prefix @ k @ ''_'' @ sha @ ''_'' @ w @ ''.js'' \<and> SHA256_PATTERN sha \<and> length w = 8 \<and> list_all is_digit w"
proof -
  have symbol: "map_option (\<lambda>(sha, digits). (kind, sha, digits)) (match_symbol x) = Some (k, sha, w)
      \<longleftrightarrow> k = kind \<and> x = sha @ ''_'' @ w @ ''.js'' \<and> SHA256_PATTERN sha \<and> length w = 8 \<and> list_all is_digit w" for kind x
    using match_symbol_iff[of x sha w] by (cases "match_symbol x") auto
  have "(case strip_prefix ''dynamic_import_'' r of
             Some x \<Rightarrow> map_option (\<lambda>(sha, digits). (''dynamic_import'', sha, digits)) (match_symbol x)
           | None \<Rightarrow>
               (case strip_prefix ''import_statement_'' r of
                  Some x \<Rightarrow> map_option (\<lambda>(sha, digits). (''import_statement'', sha, digits)) (match_symbol x)
                | None \<Rightarrow> None)) = Some (k, sha, w) \<longleftrightarrow>
      k \<in> {''dynamic_import'', ''import_statement''} \<and> r = k @ ''_'' @ sha @ ''_'' @ w @ ''.js'' \<and> SHA256_PATTERN sha \<and> length w = 8
      \<and> list_all is_digit w" for r
  proof (cases "strip_prefix ''dynamic_import_'' r")
    case None
    have n: "r \<noteq> ''dynamic_import_'' @ x" for x by (rule strip_prefix_None[OF None])
    have "(case strip_prefix ''import_statement_'' r of
                  Some x \<Rightarrow> map_option (\<lambda>(sha, digits). (''import_statement'', sha, digits)) (match_symbol x)
                | None \<Rightarrow> None) = Some (k, sha, w) \<longleftrightarrow>
      k = ''import_statement'' \<and> r = ''import_statement_'' @ sha @ ''_'' @ w @ ''.js'' \<and> SHA256_PATTERN sha \<and> length w = 8
      \<and> list_all is_digit w"
      unfolding case_strip_prefix symbol by blast
    moreover have "k \<in> {''dynamic_import'', ''import_statement''} \<and> r = k @ ''_'' @ sha @ ''_'' @ w @ ''.js''
        \<longleftrightarrow> k = ''import_statement'' \<and> r = ''import_statement_'' @ sha @ ''_'' @ w @ ''.js''"
    proof (cases "k = ''dynamic_import''")
      case True
      then show ?thesis using n[of "sha @ ''_'' @ w @ ''.js''"] by (simp only: True) simp
    next
      case False
      then show ?thesis by (cases "k = ''import_statement''") simp_all
    qed
    ultimately show ?thesis unfolding None option.case by blast
  next
    case (Some x)
    then have r: "r = ''dynamic_import_'' @ x" by simp
    show ?thesis unfolding Some option.case symbol using r by auto
  qed
  then show ?thesis unfolding match_dependency_def case_strip_prefix by auto
qed

lemma parse_initialization:
  "length w = 8 \<Longrightarrow> list_all is_digit w \<Longrightarrow> parse_specifier (initialization_prefix @ w @ ''.js'')
    = Inr \<lparr>executableKind = ''import-initialization'', executableSymbol = None, executableOccurrence = int (read_nat 0 w)\<rparr>"
  using match_initialization_iff[of "initialization_prefix @ w @ ''.js''" w] by (simp add: parse_specifier_def)

lemma prefixes_differ: "dependency_prefix @ x \<noteq> initialization_prefix @ y"
  by (simp add: dependency_prefix_def initialization_prefix_def)

lemma parse_dependency:
  assumes "k \<in> {''dynamic_import'', ''import_statement''}" "SHA256_PATTERN sha" "length w = 8" "list_all is_digit w"
  shows "parse_specifier (dependency_prefix @ k @ ''_'' @ sha @ ''_'' @ w @ ''.js'')
    = Inr \<lparr>executableKind = replaceAll CHR ''_'' CHR ''-'' k, executableSymbol = Some sha, executableOccurrence = int (read_nat 0 w)\<rparr>"
proof -
  let ?s = "dependency_prefix @ k @ ''_'' @ sha @ ''_'' @ w @ ''.js''"
  have "match_initialization ?s = None" using match_initialization_iff prefixes_differ by (metis not_None_eq)
  moreover have "match_dependency ?s = Some (k, sha, w)" using match_dependency_iff assms by blast
  ultimately show ?thesis by (simp add: parse_specifier_def)
qed

lemma parse_specifier_Inr:
  "parse_specifier s = Inr i \<longleftrightarrow>
     (\<exists>w. length w = 8 \<and> list_all is_digit w \<and> executableOccurrence i = int (read_nat 0 w) \<and>
       (executableKind i = ''import-initialization'' \<and> executableSymbol i = None \<and> s = initialization_prefix @ w @ ''.js''
        \<or> (\<exists>k sha. k \<in> {''dynamic_import'', ''import_statement''} \<and> SHA256_PATTERN sha \<and> executableSymbol i = Some sha
             \<and> executableKind i = replaceAll CHR ''_'' CHR ''-'' k \<and> s = dependency_prefix @ k @ ''_'' @ sha @ ''_'' @ w @ ''.js'')))"
    (is "_ \<longleftrightarrow> (\<exists>w. ?R w)")
proof
  assume p: "parse_specifier s = Inr i"
  show "\<exists>w. ?R w"
  proof (cases "match_initialization s")
    case (Some w)
    then have "i = \<lparr>executableKind = ''import-initialization'', executableSymbol = None, executableOccurrence = int (read_nat 0 w)\<rparr>"
      using p by (simp add: parse_specifier_def)
    then show ?thesis using Some match_initialization_iff[of s w] by auto
  next
    case None
    then obtain k sha w where m: "match_dependency s = Some (k, sha, w)"
      using p by (cases "match_dependency s") (auto simp: parse_specifier_def)
    then have "i = \<lparr>executableKind = replaceAll CHR ''_'' CHR ''-'' k, executableSymbol = Some sha, executableOccurrence = int (read_nat 0 w)\<rparr>"
      using p None by (simp add: parse_specifier_def)
    moreover have "k \<in> {''dynamic_import'', ''import_statement''} \<and> s = dependency_prefix @ k @ ''_'' @ sha @ ''_'' @ w @ ''.js''
      \<and> SHA256_PATTERN sha \<and> length w = 8 \<and> list_all is_digit w" using m match_dependency_iff by blast
    ultimately show ?thesis by (intro exI[of _ w]) auto
  qed
next
  assume "\<exists>w. ?R w"
  then obtain w where w: "length w = 8" "list_all is_digit w" "executableOccurrence i = int (read_nat 0 w)"
    and r: "?R w" by blast
  from r have "(executableKind i = ''import-initialization'' \<and> executableSymbol i = None \<and> s = initialization_prefix @ w @ ''.js'')
     \<or> (\<exists>k sha. k \<in> {''dynamic_import'', ''import_statement''} \<and> SHA256_PATTERN sha \<and> executableSymbol i = Some sha
         \<and> executableKind i = replaceAll CHR ''_'' CHR ''-'' k \<and> s = dependency_prefix @ k @ ''_'' @ sha @ ''_'' @ w @ ''.js'')"
    by (elim conjE) assumption
  then show "parse_specifier s = Inr i"
  proof (elim disjE exE conjE)
    assume "executableKind i = ''import-initialization''" "executableSymbol i = None" and s: "s = initialization_prefix @ w @ ''.js''"
    then show ?thesis unfolding s parse_initialization[OF w(1,2)] using w(3) by (simp add: executable_identity.equality)
  next
    fix k sha
    assume k: "k \<in> {''dynamic_import'', ''import_statement''}" "SHA256_PATTERN sha"
      and i: "executableSymbol i = Some sha" "executableKind i = replaceAll CHR ''_'' CHR ''-'' k"
      and s: "s = dependency_prefix @ k @ ''_'' @ sha @ ''_'' @ w @ ''.js''"
    show ?thesis unfolding s parse_dependency[OF k w(1,2)] using i w(3) by (simp add: executable_identity.equality)
  qed
qed

end
