(* ===== verification/ChunkDependenciesCorrect.thy ===== *)
theory ChunkDependenciesCorrect
  imports ChunkSpecifiers
begin

text \<open>
  What the dependency contract guarantees: specifiers carry their identity, import initializations
  match the import bindings one to one, normalized dependencies are accepted again, and in an accepted
  topology a specifier names one target.
\<close>

section \<open>Specifiers\<close>

lemma show_int_nat [simp]: "show_int (int n) = show_nat n"
  by (simp add: show_int_def)

lemma create_Inr:
  "createConvexWasmOfficialOutputExecutableDependencySpecifier (JStr k) (JStr sha) (JNum (NInt n)) = Inr s \<longleftrightarrow>
     k \<in> set dependency_kinds \<and> SHA256_PATTERN sha \<and> 0 \<le> n \<and> n < 100000000 \<and>
     s = (if k = ''import-initialization'' then initialization_prefix @ padStart 8 CHR ''0'' (show_int n) @ ''.js''
          else dependency_prefix @ replaceAll CHR ''-'' CHR ''_'' k @ ''_'' @ sha @ ''_'' @ padStart 8 CHR ''0'' (show_int n) @ ''.js'')"
  by (auto simp: createConvexWasmOfficialOutputExecutableDependencySpecifier_def max_safe_integer_def Let_def)

lemma dependency_kind_texts:
  "replaceAll CHR ''-'' CHR ''_'' ''dynamic-import'' = ''dynamic_import''" "replaceAll CHR ''-'' CHR ''_'' ''import-statement'' = ''import_statement''"
  "replaceAll CHR ''_'' CHR ''-'' ''dynamic_import'' = ''dynamic-import''" "replaceAll CHR ''_'' CHR ''-'' ''import_statement'' = ''import-statement''"
  by (simp_all add: replaceAll_def)

lemma digest_exists: "\<exists>sha. SHA256_PATTERN sha"
  by (rule exI[of _ "replicate 64 CHR ''a''"]) (simp add: SHA256_PATTERN_def is_lower_hex_def list_all_iff)

lemma parse_create:
  assumes "createConvexWasmOfficialOutputExecutableDependencySpecifier (JStr k) (JStr sha) (JNum (NInt n)) = Inr s"
  shows "parse_specifier s = Inr \<lparr>executableKind = k, executableSymbol = (if k = ''import-initialization'' then None else Some sha),
    executableOccurrence = n\<rparr>"
proof -
  have k: "k \<in> set dependency_kinds" "SHA256_PATTERN sha" "0 \<le> n" "n < 100000000"
    and s: "s = (if k = ''import-initialization'' then initialization_prefix @ padStart 8 CHR ''0'' (show_int n) @ ''.js''
          else dependency_prefix @ replaceAll CHR ''-'' CHR ''_'' k @ ''_'' @ sha @ ''_'' @ padStart 8 CHR ''0'' (show_int n) @ ''.js'')"
    using assms unfolding create_Inr by auto
  define m where "m = nat n"
  have n: "n = int m" "m < 100000000" using k by (auto simp: m_def)
  note w = pad_eight[OF n(2)]
  show ?thesis
  proof (cases "k = ''import-initialization''")
    case True
    then show ?thesis unfolding s n(1) show_int_nat using parse_initialization[OF w(1,2)] w(3) by simp
  next
    case False
    then have u: "replaceAll CHR ''-'' CHR ''_'' k \<in> {''dynamic_import'', ''import_statement''}"
      "replaceAll CHR ''_'' CHR ''-'' (replaceAll CHR ''-'' CHR ''_'' k) = k"
      using k(1) by (auto simp: dependency_kinds_def dependency_kind_texts)
    show ?thesis unfolding s n(1) show_int_nat if_not_P[OF False] parse_dependency[OF u(1) k(2) w(1,2)] u(2) w(3) by simp
  qed
qed

lemma create_parse:
  assumes "parse_specifier s = Inr i"
  shows "\<exists>sha. executableSymbol i = (if executableKind i = ''import-initialization'' then None else Some sha) \<and>
    createConvexWasmOfficialOutputExecutableDependencySpecifier (JStr (executableKind i)) (JStr sha) (JNum (NInt (executableOccurrence i))) = Inr s"
proof -
  obtain w where w: "length w = 8" "list_all is_digit w" "executableOccurrence i = int (read_nat 0 w)"
    and r: "executableKind i = ''import-initialization'' \<and> executableSymbol i = None \<and> s = initialization_prefix @ w @ ''.js''
        \<or> (\<exists>k sha. k \<in> {''dynamic_import'', ''import_statement''} \<and> SHA256_PATTERN sha \<and> executableSymbol i = Some sha
             \<and> executableKind i = replaceAll CHR ''_'' CHR ''-'' k \<and> s = dependency_prefix @ k @ ''_'' @ sha @ ''_'' @ w @ ''.js'')"
    using assms unfolding parse_specifier_Inr by blast
  have pad: "padStart 8 CHR ''0'' (show_int (executableOccurrence i)) = w" "0 \<le> executableOccurrence i" "executableOccurrence i < 100000000"
    using eight_pad[OF w(1,2)] w(3) by simp_all
  from r show ?thesis
  proof (elim disjE exE conjE)
    assume i: "executableKind i = ''import-initialization''" "executableSymbol i = None" and s: "s = initialization_prefix @ w @ ''.js''"
    obtain sha where "SHA256_PATTERN sha" using digest_exists by blast
    then show ?thesis unfolding create_Inr using i s pad by (intro exI[of _ sha]) (simp add: dependency_kinds_def)
  next
    fix k sha
    assume k: "k \<in> {''dynamic_import'', ''import_statement''}" "SHA256_PATTERN sha"
      and i: "executableSymbol i = Some sha" "executableKind i = replaceAll CHR ''_'' CHR ''-'' k"
      and s: "s = dependency_prefix @ k @ ''_'' @ sha @ ''_'' @ w @ ''.js''"
    have "executableKind i \<in> set dependency_kinds" "executableKind i \<noteq> ''import-initialization''"
      "replaceAll CHR ''-'' CHR ''_'' (executableKind i) = k"
      using k(1) i(2) by (auto simp: dependency_kinds_def dependency_kind_texts)
    then show ?thesis unfolding create_Inr using i s pad k(2) by (intro exI[of _ sha]) simp
  qed
qed

text \<open>C31: An executable dependency specifier carries its identity: the parser accepts exactly the specifiers
  that the constructor makes, and returns the kind, the native symbol (except for an initialization,
  which names none) and the occurrence that were written.\<close>

theorem executable_specifier_roundtrip:
  "parseConvexWasmOfficialOutputExecutableDependencySpecifier (JStr s) = Inr i \<longleftrightarrow>
     (\<exists>sha. executableSymbol i = (if executableKind i = ''import-initialization'' then None else Some sha) \<and>
       createConvexWasmOfficialOutputExecutableDependencySpecifier (JStr (executableKind i)) (JStr sha) (JNum (NInt (executableOccurrence i)))
         = Inr s)"
proof
  assume "\<exists>sha. executableSymbol i = (if executableKind i = ''import-initialization'' then None else Some sha) \<and>
       createConvexWasmOfficialOutputExecutableDependencySpecifier (JStr (executableKind i)) (JStr sha) (JNum (NInt (executableOccurrence i)))
         = Inr s"
  then show "parseConvexWasmOfficialOutputExecutableDependencySpecifier (JStr s) = Inr i"
    using parse_create by (fastforce simp: parseConvexWasmOfficialOutputExecutableDependencySpecifier_def)
qed (simp add: parseConvexWasmOfficialOutputExecutableDependencySpecifier_def create_parse)

section \<open>Import initializations\<close>

interpretation ints: js_linear_order compareInts
  by unfold_locales (auto simp: compareInts_def)

lemma occurrences_are_indexes_iff: "occurrences_are_indexes xs \<longleftrightarrow> mset xs = mset (map int [0..<length xs])"
proof -
  have s: "js_sort compareInts (map int [0..<n]) = map int [0..<n]" for n
    by (rule ints.sort_sorted_id) (simp add: sorted_wrt_map compareInts_def sorted_wrt_iff_nth_less)
  show ?thesis
  proof
    assume "occurrences_are_indexes xs"
    then show "mset xs = mset (map int [0..<length xs])" by (metis mset_js_sort occurrences_are_indexes_def)
  next
    assume "mset xs = mset (map int [0..<length xs])"
    then have "js_sort compareInts xs = js_sort compareInts (map int [0..<length xs])" by (rule ints.sort_cong_mset)
    then show "occurrences_are_indexes xs" by (simp only: occurrences_are_indexes_def s)
  qed
qed

text \<open>What an initialization shares with the import that it initializes.\<close>

definition binding_key :: "chunk_dependency \<Rightarrow> int \<times> string \<times> string" where
  "binding_key d = (dependencySlot d, dependencyPath d, dependencySpecifier d)"

definition binding_matches_slot :: "(int \<Rightarrow> chunk_dependency option) \<Rightarrow> chunk_dependency \<Rightarrow> bool" where
  "binding_matches_slot m d \<longleftrightarrow> (\<exists>b. m (dependencySlot d) = Some b \<and> dependencyPath b = dependencyPath d
     \<and> dependencySpecifier b = dependencySpecifier d)"

lemma binding_matches_update:
  "binding_matches_slot (m(s := None)) d \<longleftrightarrow> dependencySlot d \<noteq> s \<and> binding_matches_slot m d"
  by (simp add: binding_matches_slot_def)

lemma take_bindings:
  "(\<exists>m'. foldR (take_binding description) m ds = Inr m') \<longleftrightarrow>
     distinct (map dependencySlot ds) \<and> (\<forall>d \<in> set ds. binding_matches_slot m d)"
proof (induction ds arbitrary: m)
  case (Cons d ds)
  show ?case
  proof (cases "binding_matches_slot m d")
    case True
    then have e: "foldR (take_binding description) m (d # ds) = foldR (take_binding description) (m(dependencySlot d := None)) ds"
      by (auto simp: take_binding_def binding_matches_slot_def)
    show ?thesis unfolding e Cons.IH binding_matches_update using True by (auto simp: image_iff)
  next
    case False
    then have "take_binding description m d \<noteq> Inr m'" for m'
      by (auto simp: take_binding_def binding_matches_slot_def split: option.splits if_splits)
    then show ?thesis using False by (auto simp: bindR_Inr_iff)
  qed
qed simp

lemma map_of_slots:
  "distinct (map dependencySlot ds) \<Longrightarrow>
    map_of (rev (map (\<lambda>d. (dependencySlot d, d)) ds)) s = Some b \<longleftrightarrow> b \<in> set ds \<and> dependencySlot b = s"
proof -
  assume d: "distinct (map dependencySlot ds)"
  then have "distinct (map fst (rev (map (\<lambda>d. (dependencySlot d, d)) ds)))" by (simp add: rev_map[symmetric] comp_def)
  then have "map_of (rev (map (\<lambda>d. (dependencySlot d, d)) ds)) s = Some b \<longleftrightarrow> (s, b) \<in> set (rev (map (\<lambda>d. (dependencySlot d, d)) ds))"
    by (rule map_of_eq_Some_iff)
  then show ?thesis by auto
qed

lemma same_keys:
  assumes "length xs = length ys" and "distinct (map dependencySlot ys)"
  shows "distinct (map dependencySlot xs) \<and> (\<forall>d \<in> set xs. \<exists>b \<in> set ys. binding_key b = binding_key d)
    \<longleftrightarrow> mset (map binding_key xs) = mset (map binding_key ys)"
proof
  have key: "map dependencySlot zs = map fst (map binding_key zs)" for zs by (simp add: binding_key_def)
  assume a: "distinct (map dependencySlot xs) \<and> (\<forall>d \<in> set xs. \<exists>b \<in> set ys. binding_key b = binding_key d)"
  then have d: "distinct (map binding_key xs)" "distinct (map binding_key ys)"
    using assms(2) unfolding key by (simp_all only: distinct_map)
  have "set (map binding_key xs) \<subseteq> set (map binding_key ys)"
  proof
    fix k assume "k \<in> set (map binding_key xs)"
    then obtain x where "x \<in> set xs" "k = binding_key x" by auto
    then obtain y where "y \<in> set ys" "k = binding_key y" using a by metis
    then show "k \<in> set (map binding_key ys)" by simp
  qed
  moreover have "card (set (map binding_key xs)) = card (set (map binding_key ys))"
    using d assms(1) by (metis distinct_card length_map)
  ultimately have "set (map binding_key xs) = set (map binding_key ys)" by (simp add: card_subset_eq)
  then show "mset (map binding_key xs) = mset (map binding_key ys)" using d by (simp only: set_eq_iff_mset_eq_distinct)
next
  have key: "map dependencySlot zs = map fst (map binding_key zs)" for zs by (simp add: binding_key_def)
  assume a: "mset (map binding_key xs) = mset (map binding_key ys)"
  then have "mset (map dependencySlot xs) = mset (map dependencySlot ys)" unfolding key by (metis mset_map)
  then have "distinct (map dependencySlot xs)" using assms(2) mset_eq_imp_distinct_iff by blast
  have "set (map binding_key xs) = set (map binding_key ys)" using a by (rule mset_eq_setD)
  then have "\<forall>d \<in> set xs. \<exists>b \<in> set ys. binding_key b = binding_key d" by (metis (no_types, lifting) image_iff image_set)
  with \<open>distinct (map dependencySlot xs)\<close>
  show "distinct (map dependencySlot xs) \<and> (\<forall>d \<in> set xs. \<exists>b \<in> set ys. binding_key b = binding_key d)" by blast
qed

lemma initialization_checks:
  "validateConvexWasmImportInitializationDependencies ds description = Inr () \<longleftrightarrow>
     initializations_of ds = [] \<or>
     (\<exists>ordinals. mapR occurrence_of (initializations_of ds) = Inr ordinals \<and> mset ordinals = mset (map int [0..<length ordinals]))
     \<and> distinct (map dependencySlot (imports_of ds))
     \<and> mset (map binding_key (initializations_of ds)) = mset (map binding_key (imports_of ds))"
proof (cases "initializations_of ds = []")
  case True
  then show ?thesis by (simp add: validateConvexWasmImportInitializationDependencies_def)
next
  case False
  let ?xs = "initializations_of ds" and ?ys = "imports_of ds"
  let ?m = "map_of (rev (map (\<lambda>d. (dependencySlot d, d)) ?ys))"
  have counts: "\<not> (length ?xs \<noteq> length ?ys \<or> length ?xs \<noteq> length (remdups (map dependencySlot ?ys)))
      \<longleftrightarrow> length ?xs = length ?ys \<and> distinct (map dependencySlot ?ys)"
    by (metis distinct_remdups_id length_map length_remdups_eq remdups_id_iff_distinct)
  have loop: "(\<exists>m'. foldR (take_binding description) ?m ?xs = Inr m') \<longleftrightarrow> mset (map binding_key ?xs) = mset (map binding_key ?ys)"
    if l: "length ?xs = length ?ys" and d: "distinct (map dependencySlot ?ys)"
  proof -
    have "binding_matches_slot ?m x \<longleftrightarrow> (\<exists>b \<in> set ?ys. binding_key b = binding_key x)" for x
      unfolding binding_matches_slot_def map_of_slots[OF d] binding_key_def by auto
    then show ?thesis unfolding take_bindings using same_keys[OF l d] by simp
  qed
  have "validateConvexWasmImportInitializationDependencies ds description = Inr () \<longleftrightarrow>
      (\<exists>ordinals. mapR occurrence_of ?xs = Inr ordinals \<and> occurrences_are_indexes ordinals)
      \<and> (length ?xs = length ?ys \<and> distinct (map dependencySlot ?ys)) \<and> (\<exists>m'. foldR (take_binding description) ?m ?xs = Inr m')"
    using False counts by (auto simp: validateConvexWasmImportInitializationDependencies_def Let_def bindR_Inr_iff)
  also have "\<dots> \<longleftrightarrow> (\<exists>ordinals. mapR occurrence_of ?xs = Inr ordinals \<and> mset ordinals = mset (map int [0..<length ordinals]))
      \<and> distinct (map dependencySlot ?ys) \<and> mset (map binding_key ?xs) = mset (map binding_key ?ys)"
  proof -
    have "length ?xs = length ?ys" if "mset (map binding_key ?xs) = mset (map binding_key ?ys)"
      using that by (metis length_map size_mset)
    then show ?thesis unfolding occurrences_are_indexes_iff using loop by blast
  qed
  finally show ?thesis using False by simp
qed

text \<open>C32: Import initializations are accepted exactly when there are none, or when they are the import
  bindings again: each binding has its own slot, the initializations name the same slots, paths and
  specifiers as the bindings, each once, and their occurrences are the first indexes in some order.\<close>

theorem import_initializations_match_bindings:
  "validateConvexWasmImportInitializationDependencies dependencies description = Inr () \<longleftrightarrow>
     initializations_of dependencies = [] \<or>
     (\<exists>ordinals. mapR occurrence_of (initializations_of dependencies) = Inr ordinals
        \<and> mset ordinals = mset (map int [0..<length ordinals]))
     \<and> distinct (map dependencySlot (imports_of dependencies))
     \<and> mset (map binding_key (initializations_of dependencies)) = mset (map binding_key (imports_of dependencies))"
  by (rule initialization_checks)

section \<open>Normalized dependencies\<close>

definition manifest_ok :: "string \<Rightarrow> bool" where
  "manifest_ok s \<longleftrightarrow> s \<noteq> [] \<and> CHR 0x00 \<notin> set s \<and> utf8_length s \<le> 4096 \<and> \<not> list_ex control_character s \<and> \<not> list_ex whitespace_character s"

lemma requireManifestString_Inr: "requireManifestString v d 4096 False = Inr s \<longleftrightarrow> v = JStr s \<and> manifest_ok s"
  by (auto simp: requireManifestString_def bindR_Inr_iff requireString_Inr manifest_ok_def)

lemma requireManifestString_ok: "manifest_ok s \<Longrightarrow> requireManifestString (JStr s) d 4096 False = Inr s"
  by (simp add: requireManifestString_Inr)

definition dependency_ok :: "int \<Rightarrow> chunk_dependency \<Rightarrow> bool" where
  "dependency_ok n d \<longleftrightarrow> dependencyKind d \<in> set dependency_kinds \<and> 0 \<le> dependencySlot d \<and> dependencySlot d < n
     \<and> dependencySlot d \<le> max_safe_integer \<and> manifest_ok (executableSpecifier d) \<and> manifest_ok (dependencyPath d)
     \<and> manifest_ok (dependencySpecifier d)
     \<and> (\<exists>i. parse_specifier (executableSpecifier d) = Inr i \<and> executableKind i = dependencyKind d)"

lemma case_kind_slot:
  "(case (a, b) of (JStr k, JNum n) \<Rightarrow> f k n | _ \<Rightarrow> fail m) = Inr x \<longleftrightarrow> (\<exists>k n. a = JStr k \<and> b = JNum n \<and> f k n = Inr x)"
  by (cases a; cases b) simp_all

lemma read_dependency_ok: "read_dependency n ud i v = Inr d \<Longrightarrow> dependency_ok n d"
proof -
  assume r: "read_dependency n ud i v = Inr d"
  obtain kind m executable identity path specifier where
    "kind \<in> set dependency_kinds" "isSafeInteger m" "0 \<le> num_int m" "num_int m < n" "manifest_ok executable"
    "parse_specifier executable = Inr identity" "executableKind identity = kind" "manifest_ok path" "manifest_ok specifier"
    "d = \<lparr>executableSpecifier = executable, dependencyKind = kind, dependencyPath = path, dependencySlot = num_int m,
            dependencySpecifier = specifier\<rparr>"
    using r unfolding read_dependency_def Let_def bindR_Inr_iff case_kind_slot requireManifestString_Inr failWhen_Inr_iff by auto
  moreover have "\<bar>num_int m\<bar> \<le> max_safe_integer" using \<open>isSafeInteger m\<close> by (cases m) (simp_all add: max_safe_integer_def)
  ultimately show "dependency_ok n d" by (simp add: dependency_ok_def)
qed

lemma read_dependency_retry: "dependency_ok n d \<Longrightarrow> read_dependency n ud i (dependency_json d) = Inr d"
proof -
  assume ok: "dependency_ok n d"
  then obtain identity where "parse_specifier (executableSpecifier d) = Inr identity" "executableKind identity = dependencyKind d"
    by (auto simp: dependency_ok_def)
  then show ?thesis using ok
    by (simp add: requireManifestString_ok read_dependency_def dependency_json_def Let_def exact_object dependency_ok_def)
qed

lemma normalize_dependencies_Inr:
  "normalizeConvexWasmOfficialOutputChunkDependencies v n ud = Inr ds \<longleftrightarrow>
     (\<exists>items occurrences. v = JArr items \<and> mapiR (read_dependency n ud) 0 items = Inr ds \<and> distinct (map executableSpecifier ds)
       \<and> mapR occurrence_of ds = Inr occurrences \<and> occurrences_are_indexes occurrences
       \<and> validateConvexWasmImportInitializationDependencies ds ud = Inr ())"
  unfolding normalizeConvexWasmOfficialOutputChunkDependencies_def case_arr bindR_Inr_iff failWhen_Inr_iff by auto

lemma normalized_dependencies_again:
  assumes "normalizeConvexWasmOfficialOutputChunkDependencies v n ud = Inr ds"
  shows "normalizeConvexWasmOfficialOutputChunkDependencies (JArr (map dependency_json ds)) n ud' = Inr ds"
    and "list_all (dependency_ok n) ds"
proof -
  obtain items occurrences where n: "mapiR (read_dependency n ud) 0 items = Inr ds" "distinct (map executableSpecifier ds)"
    "mapR occurrence_of ds = Inr occurrences" "occurrences_are_indexes occurrences"
    "validateConvexWasmImportInitializationDependencies ds ud = Inr ()"
    using assms unfolding normalize_dependencies_Inr by blast
  show ok: "list_all (dependency_ok n) ds" using mapiR_set[OF n(1)] read_dependency_ok by (fastforce simp: list_all_iff)
  have "mapiR (read_dependency n ud') k (map dependency_json ds') = Inr ds'" if "list_all (dependency_ok n) ds'" for k ds'
    using that by (induction ds' arbitrary: k) (simp_all add: read_dependency_retry)
  moreover have "validateConvexWasmImportInitializationDependencies ds ud' = Inr ()"
    using n(5) unfolding initialization_checks .
  ultimately show "normalizeConvexWasmOfficialOutputChunkDependencies (JArr (map dependency_json ds)) n ud' = Inr ds"
    unfolding normalize_dependencies_Inr using n ok by blast
qed

text \<open>Normalized dependencies are what was written: every slot is a namespace slot, every specifier parses
  to the kind of its dependency, the occurrences of a unit are a permutation of the first indexes, and
  the normalized list, written as JSON, is accepted again and gives itself.\<close>

lemma dependency_normalization_stable:
  assumes "normalizeConvexWasmOfficialOutputChunkDependencies v namespaceSlotCount description = Inr ds"
  shows "normalizeConvexWasmOfficialOutputChunkDependencies (JArr (map dependency_json ds)) namespaceSlotCount description = Inr ds
    \<and> list_all (dependency_ok namespaceSlotCount) ds
    \<and> (\<exists>occurrences. mapR occurrence_of ds = Inr occurrences \<and> mset occurrences = mset (map int [0..<length ds]))"
proof -
  obtain occurrences where o: "mapR occurrence_of ds = Inr occurrences" "occurrences_are_indexes occurrences"
    using assms unfolding normalize_dependencies_Inr by blast
  have "length occurrences = length ds" using o(1) by (rule mapR_length)
  then have "mset occurrences = mset (map int [0..<length ds])" using o(2) by (simp add: occurrences_are_indexes_iff)
  then show ?thesis using normalized_dependencies_again[OF assms] o(1) by blast
qed

definition sample_dependency :: chunk_dependency where
  "sample_dependency = \<lparr>executableSpecifier = ''./__convex_wasm_dependency_dynamic_import_'' @ replicate 64 CHR ''a'' @ ''_00000000.js'',
     dependencyKind = ''dynamic-import'', dependencyPath = ''shared.js'', dependencySlot = 0, dependencySpecifier = ''./shared.js''\<rparr>"

lemma sample_specifier:
  "parse_specifier (executableSpecifier sample_dependency)
     = Inr \<lparr>executableKind = ''dynamic-import'', executableSymbol = Some (replicate 64 CHR ''a''), executableOccurrence = 0\<rparr>"
proof -
  have "createConvexWasmOfficialOutputExecutableDependencySpecifier (JStr ''dynamic-import'') (JStr (replicate 64 CHR ''a'')) (JNum (NInt 0))
      = Inr (executableSpecifier sample_dependency)"
    unfolding create_Inr
    by (simp add: dependency_kinds_def SHA256_PATTERN_def is_lower_hex_def list_all_iff dependency_kind_texts dependency_prefix_def
        sample_dependency_def show_int_def show_nat.simps digit_char_def padStart_def) code_simp
  from parse_create[OF this] show ?thesis by simp
qed

lemma sample_dependency_ok: "dependency_ok 1 sample_dependency"
proof -
  have "manifest_ok (executableSpecifier sample_dependency)" "manifest_ok (dependencyPath sample_dependency)"
    "manifest_ok (dependencySpecifier sample_dependency)" by code_simp+
  then show ?thesis using sample_specifier
    by (simp add: dependency_ok_def) (simp add: sample_dependency_def dependency_kinds_def max_safe_integer_def)
qed

end
