(* ===== verification/ChunkTopology.thy ===== *)
theory ChunkTopology
  imports ChunkDependenciesCorrect
begin

text \<open>
  In an accepted topology an executable specifier names one target unit, and the identity of reusable
  code tells apart exactly the intrinsic code and the dependencies by specifier and kind.
\<close>

section \<open>Topology\<close>

lemma foldR_each: "foldR f s xs = Inr t \<Longrightarrow> x \<in> set xs \<Longrightarrow> \<exists>s' s''. f s' x = Inr s''"
  by (induction xs arbitrary: s) (auto simp: bindR_Inr_iff)

lemma in_indexed: "k < length ds \<Longrightarrow> (k, ds ! k) \<in> set (zip [0..<length ds] ds)"
  by (auto simp: in_set_zip intro!: exI[of _ k])

lemma topology_binding:
  assumes "validateConvexWasmOfficialOutputChunkDependencyTopology n description units = Inr ()"
    and "i < n" and "i < length units" and "d \<in> set (unitDependencies (units ! i))"
  shows "\<exists>label k. check_dependency_binding units label i (units ! i) k d = Inr ()"
proof -
  obtain rs where rs: "mapiR (check_unit_dependencies units description) 0 (take n units) = Inr rs"
    using assms(1) by (auto simp: validateConvexWasmOfficialOutputChunkDependencyTopology_def bindR_Inr_iff)
  have "check_unit_dependencies units description i (units ! i) = Inr (rs ! i)"
    using mapiR_nth[OF rs, of i] assms(2,3) by simp
  then obtain p where p: "foldR (\<lambda>previous (dependencyIndex, d).
      bindR (check_canonical_order (description @ '' unit '' @ show_nat i) (units ! i) previous d) (\<lambda>next.
      bindR (check_dependency_binding units (description @ '' unit '' @ show_nat i) i (units ! i) dependencyIndex d) (\<lambda>_. Inr next)))
      None (zip [0..<length (unitDependencies (units ! i))] (unitDependencies (units ! i))) = Inr p"
    by (auto simp: check_unit_dependencies_def Let_def bindR_Inr_iff)
  obtain k where k: "k < length (unitDependencies (units ! i))" "unitDependencies (units ! i) ! k = d"
    using assms(4) by (metis in_set_conv_nth)
  have "(k, d) \<in> set (zip [0..<length (unitDependencies (units ! i))] (unitDependencies (units ! i)))" using in_indexed k by metis
  from foldR_each[OF p this] show ?thesis by (auto simp: bindR_Inr_iff)
qed

lemma binding_sound:
  assumes "check_dependency_binding units label i u k d = Inr ()"
  shows "dependencySlot d \<noteq> int i" "0 \<le> dependencySlot d" "nat (dependencySlot d) < length units"
    "unitModulePath (units ! nat (dependencySlot d)) = Some (dependencyPath d)"
    "\<exists>p. unitModulePath u = Some p \<and> resolve_specifier p (dependencySpecifier d) = dependencyPath d"
    "\<exists>identity. parse_specifier (executableSpecifier d) = Inr identity \<and> (executableKind identity = ''import-initialization''
       \<or> executableSymbol identity = Some (unitSymbol (units ! nat (dependencySlot d))))"
proof -
  from assms obtain path identity where c: "dependencySlot d \<noteq> int i" "module_path_at units (dependencySlot d) = Inr path"
    "path = dependencyPath d" "parse_specifier (executableSpecifier d) = Inr identity"
    "\<not> (executableKind identity \<noteq> ''import-initialization'' \<and> executableSymbol identity \<noteq> Some (unitSymbol (units ! nat (dependencySlot d))))"
    and r: "(if \<not> isNormalizedConvexWasmOfficialOutputDependencySpecifier (executableSpecifier d)
                \<or> \<not> isNormalizedConvexWasmOfficialOutputDependencySpecifier (dependencySpecifier d) then Inr False
             else bindR (own_module_path u) (\<lambda>p. Inr (resolve_specifier p (dependencySpecifier d) = dependencyPath d))) = Inr True"
    unfolding check_dependency_binding_def Let_def bindR_Inr_iff failWhen_Inr_iff by auto
  show "dependencySlot d \<noteq> int i" by (rule c(1))
  show "0 \<le> dependencySlot d" "nat (dependencySlot d) < length units"
    "unitModulePath (units ! nat (dependencySlot d)) = Some (dependencyPath d)"
    using c(2,3) by (auto simp: module_path_at_def split: if_splits option.splits)
  show "\<exists>p. unitModulePath u = Some p \<and> resolve_specifier p (dependencySpecifier d) = dependencyPath d"
    using r by (auto simp: bindR_Inr_iff own_module_path_def split: if_splits option.splits)
  show "\<exists>identity. parse_specifier (executableSpecifier d) = Inr identity \<and> (executableKind identity = ''import-initialization''
       \<or> executableSymbol identity = Some (unitSymbol (units ! nat (dependencySlot d))))"
    using c(4,5) by blast
qed

text \<open>C33: In an accepted topology, wherever two dependencies, of any two chunks, carry the same specifier of an
  import or a dynamic import (the specifiers of import initializations excepted, which name no target),
  they bind units with the same native symbol. The check does not compare the symbols of different units;
  if the symbols are distinct, the two dependencies bind the same slot and the same module path.\<close>

theorem executable_specifiers_unambiguous:
  assumes "validateConvexWasmOfficialOutputChunkDependencyTopology n description units = Inr ()"
    and "i < n" and "i < length units" and "d \<in> set (unitDependencies (units ! i))"
    and "j < n" and "j < length units" and "e \<in> set (unitDependencies (units ! j))"
    and "executableSpecifier d = executableSpecifier e"
    and "parse_specifier (executableSpecifier d) = Inr identity" and "executableKind identity \<noteq> ''import-initialization''"
  shows "nat (dependencySlot d) < length units \<and> nat (dependencySlot e) < length units
    \<and> unitSymbol (units ! nat (dependencySlot d)) = unitSymbol (units ! nat (dependencySlot e))
    \<and> (distinct (map unitSymbol units) \<longrightarrow> dependencySlot d = dependencySlot e \<and> dependencyPath d = dependencyPath e)"
proof -
  obtain l k where d: "check_dependency_binding units l i (units ! i) k d = Inr ()" using topology_binding[OF assms(1,2-4)] by blast
  obtain l' k' where e: "check_dependency_binding units l' j (units ! j) k' e = Inr ()" using topology_binding[OF assms(1,5-7)] by blast
  have symbol: "unitSymbol (units ! nat (dependencySlot d)) = unitSymbol (units ! nat (dependencySlot e))"
    using binding_sound(6)[OF d] binding_sound(6)[OF e] assms(8-10) by auto
  have "dependencySlot d = dependencySlot e \<and> dependencyPath d = dependencyPath e" if dist: "distinct (map unitSymbol units)"
  proof -
    have "nat (dependencySlot d) = nat (dependencySlot e)"
      using dist symbol binding_sound(3)[OF d] binding_sound(3)[OF e] by (simp add: distinct_conv_nth) (metis length_map nth_map)
    then have slot: "dependencySlot d = dependencySlot e" using binding_sound(2)[OF d] binding_sound(2)[OF e] by simp
    then show ?thesis using binding_sound(4)[OF d] binding_sound(4)[OF e] by simp
  qed
  then show ?thesis using symbol binding_sound(3)[OF d] binding_sound(3)[OF e] by blast
qed

definition sample_unit :: "int \<Rightarrow> string \<Rightarrow> char \<Rightarrow> chunk_dependency list \<Rightarrow> chunk_unit" where
  "sample_unit slot path c ds = \<lparr>unitSlot = slot, unitDependencies = ds, unitPublication = False, unitJavascript = JStr path,
     unitKind = ''chunk'', unitModulePath = Some path, unitLocator = JNull, unitSymbol = replicate 64 c, unitTransform = JNull\<rparr>"

definition sample_parent_dependency :: chunk_dependency where
  "sample_parent_dependency = \<lparr>executableSpecifier = executableSpecifier sample_dependency, dependencyKind = ''dynamic-import'',
     dependencyPath = ''shared.js'', dependencySlot = 0, dependencySpecifier = ''../shared.js''\<rparr>"

definition sample_units :: "chunk_unit list" where
  "sample_units = [sample_unit 0 ''shared.js'' CHR ''a'' [], sample_unit 1 ''x.js'' CHR ''b'' [sample_dependency],
     sample_unit 2 ''lib/y.js'' CHR ''c'' [sample_parent_dependency]]"

lemma sample_unit_at:
  "sample_units ! 0 = sample_unit 0 ''shared.js'' CHR ''a'' []"
  "sample_units ! Suc 0 = sample_unit 1 ''x.js'' CHR ''b'' [sample_dependency]"
  "sample_units ! Suc (Suc 0) = sample_unit 2 ''lib/y.js'' CHR ''c'' [sample_parent_dependency]"
  "length sample_units = 3"
  by (simp_all add: sample_units_def)

lemma sample_bindings:
  "check_dependency_binding sample_units label (Suc 0) (sample_unit 1 ''x.js'' CHR ''b'' [sample_dependency]) 0 sample_dependency = Inr ()"
  "check_dependency_binding sample_units label (Suc (Suc 0)) (sample_unit 2 ''lib/y.js'' CHR ''c'' [sample_parent_dependency]) 0 sample_parent_dependency = Inr ()"
proof -
  have n: "isNormalizedConvexWasmOfficialOutputDependencySpecifier (executableSpecifier sample_dependency)"
    "isNormalizedConvexWasmOfficialOutputDependencySpecifier (dependencySpecifier sample_dependency)"
    "isNormalizedConvexWasmOfficialOutputDependencySpecifier (dependencySpecifier sample_parent_dependency)" by code_simp+
  have r: "resolve_specifier ''x.js'' (dependencySpecifier sample_dependency) = ''shared.js''"
    "resolve_specifier ''lib/y.js'' (dependencySpecifier sample_parent_dependency) = ''shared.js''" by code_simp+
  have d: "dependencySlot sample_dependency = 0" "dependencyPath sample_dependency = ''shared.js''"
    "dependencySlot sample_parent_dependency = 0" "dependencyPath sample_parent_dependency = ''shared.js''"
    "executableSpecifier sample_parent_dependency = executableSpecifier sample_dependency"
    by (simp_all add: sample_dependency_def sample_parent_dependency_def)
  show "check_dependency_binding sample_units label (Suc 0) (sample_unit 1 ''x.js'' CHR ''b'' [sample_dependency]) 0 sample_dependency = Inr ()"
    "check_dependency_binding sample_units label (Suc (Suc 0)) (sample_unit 2 ''lib/y.js'' CHR ''c'' [sample_parent_dependency]) 0 sample_parent_dependency = Inr ()"
    using n r by (simp_all add: check_dependency_binding_def d sample_specifier module_path_at_def own_module_path_def sample_unit_at
        Let_def, simp_all add: sample_unit_def d)
qed

lemma sample_topology: "validateConvexWasmOfficialOutputChunkDependencyTopology 3 ''d'' sample_units = Inr ()"
proof -
  have "take 3 sample_units = sample_units" by (simp add: sample_unit_at)
  moreover have "mapiR (check_unit_dependencies sample_units ''d'') 0 sample_units = Inr [(), (), ()]"
    using sample_bindings
    by (subst (2) sample_units_def) (simp add: check_unit_dependencies_def Let_def check_canonical_order_def, simp add: sample_unit_def)
  ultimately show ?thesis by (simp add: validateConvexWasmOfficialOutputChunkDependencyTopology_def)
qed

theorem executable_specifiers_unambiguous_witness:
  "sample_dependency \<noteq> sample_parent_dependency \<and> dependencySlot sample_dependency = dependencySlot sample_parent_dependency"
proof -
  have "distinct (map unitSymbol sample_units)" by (simp add: sample_units_def sample_unit_def)
  moreover have "sample_dependency \<in> set (unitDependencies (sample_units ! 1))" "sample_parent_dependency \<in> set (unitDependencies (sample_units ! 2))"
    by (simp_all add: sample_unit_at numeral_2_eq_2) (simp_all add: sample_unit_def)
  moreover have "executableSpecifier sample_dependency = executableSpecifier sample_parent_dependency" by (simp add: sample_parent_dependency_def)
  ultimately have "dependencySlot sample_dependency = dependencySlot sample_parent_dependency"
    using executable_specifiers_unambiguous[OF sample_topology _ _ _ _ _ _ _ sample_specifier, of 1 2 sample_parent_dependency]
    by (simp add: sample_unit_at(4))
  then show ?thesis by (simp add: sample_parent_dependency_def sample_dependency_def)
qed

end
