(* ===== verification/ChunkReuse.thy ===== *)
theory ChunkReuse
  imports ChunkTopology
begin

text \<open>
  The identity of reusable code: two chunks of one application have the same identity exactly when
  their intrinsic code is the same data and they depend on the same executable specifiers, with the
  same kinds, in any order; slots and module paths play no part.
\<close>

section \<open>Sorting by a derived key\<close>

lemma js_insert_map_key: "js_insert cmp (g x) (map g xs) = map g (js_insert (\<lambda>a b. cmp (g a) (g b)) x xs)"
  by (induction xs) auto

lemma js_sort_map_key: "js_sort cmp (map g xs) = map g (js_sort (\<lambda>a b. cmp (g a) (g b)) xs)"
  by (induction xs) (auto simp: js_insert_map_key)

section \<open>Dependencies by specifier and kind\<close>

definition logical_key :: "chunk_dependency \<Rightarrow> string \<times> string" where
  "logical_key d = (executableSpecifier d, dependencyKind d)"

definition key_json :: "string \<times> string \<Rightarrow> jsval" where
  "key_json k = JObj [(''executableSpecifier'', JStr (fst k)), (''kind'', JStr (snd k))]"

lemma logical_dependency_json: "logical_dependency_json d = key_json (logical_key d)"
  by (simp add: logical_dependency_json_def key_json_def logical_key_def)

lemma chunk_keys_not_index [simp]:
  "\<not> is_index_key ''executableSpecifier''" "\<not> is_index_key ''kind''" "\<not> is_index_key ''dependencies''" "\<not> is_index_key ''domain''"
  "\<not> is_index_key ''intrinsicIdentitySha256''" "\<not> is_index_key ''javascript''" "\<not> is_index_key ''nativeSymbolLocator''"
  "\<not> is_index_key ''transform''"
  by (simp_all add: is_index_key_def is_digit_def)

definition key_text :: "string \<times> string \<Rightarrow> string" where
  "key_text k = stringify (key_json k)"

lemma key_json_canonical: "canonicalJson (key_json k) = Inr (key_text k)"
  by (simp add: canonicalJson_def key_json_def key_text_def)

lemma key_json_tree: "canonical_tree (key_json k)"
  by (simp add: key_json_def own_order_def compareBy_def compareStrings_def)

lemma key_text_inj: "key_text a = key_text b \<longleftrightarrow> a = b"
proof
  assume "key_text a = key_text b"
  then have "key_json a = key_json b" using stringify_inj key_json_tree by (metis key_text_def)
  then show "a = b" by (simp add: key_json_def prod_eq_iff)
qed simp

interpretation logical_keys: js_linear_order "compareBy key_text"
  by unfold_locales (auto simp: compareBy_def key_text_inj)

lemma sorted_dependencies:
  "sorted_logical_dependencies ds = Inr (map key_json (js_sort (compareBy key_text) (map logical_key ds)))"
proof -
  let ?pair = "\<lambda>k. (key_text k, key_json k)"
  have "mapR (\<lambda>d. bindR (canonicalJson (logical_dependency_json d)) (\<lambda>text. Inr (text, logical_dependency_json d))) ds
      = Inr (map (\<lambda>d. ?pair (logical_key d)) ds)"
    by (rule mapR_all_Inr) (simp add: logical_dependency_json key_json_canonical)
  moreover have "js_sort (compareBy fst) (map (\<lambda>d. ?pair (logical_key d)) ds) = map ?pair (js_sort (compareBy key_text) (map logical_key ds))"
    using js_sort_map_key[of "compareBy fst" ?pair "map logical_key ds"] by (simp add: compareBy_def[abs_def] comp_def)
  ultimately show ?thesis by (simp add: sorted_logical_dependencies_def comp_def)
qed

section \<open>Identities\<close>

lemma canonical_digest:
  assumes "wf_js v" and "wf_js w" and "fingerprintJson sha256 v = Inr f" and "fingerprintJson sha256 w = Inr g" and "inj sha256"
  shows "f = g \<longleftrightarrow> js_data v = js_data w"
proof -
  obtain s t where st: "canonicalJson v = Inr s" "canonicalJson w = Inr t" and fg: "f = sha256 s" "g = sha256 t"
    using assms(3,4) by (auto simp: fingerprintJson_def bindR_Inr_iff)
  show ?thesis using canonical_text_decides[OF assms(1,2) st] fg assms(5) by (simp add: inj_eq)
qed

lemma reusable_json_wf: "wf_js (reusable_json (map key_json ks) h)"
proof -
  have "wf_js (key_json k)" for k by (simp add: key_json_def own_order_def)
  then show ?thesis by (simp add: reusable_json_def own_order_def list_all_iff)
qed

lemma reusable_json_tree: "canonical_tree (reusable_json (map key_json ks) h)"
  using key_json_tree by (simp add: reusable_json_def own_order_def compareBy_def compareStrings_def list_all_iff)

lemma reusable_data:
  "js_data (reusable_json (map key_json ks) h) = js_data (reusable_json (map key_json ks') h') \<longleftrightarrow> ks = ks' \<and> h = h'"
proof
  assume "js_data (reusable_json (map key_json ks) h) = js_data (reusable_json (map key_json ks') h')"
  then have e: "reusable_json (map key_json ks) h = reusable_json (map key_json ks') h'" using js_data_inj reusable_json_tree by blast
  have "inj key_json" by (rule injI) (simp add: key_json_def prod_eq_iff)
  then show "ks = ks' \<and> h = h'" using e by (simp add: reusable_json_def inj_map_eq_map)
qed simp

lemma reusable_identity_of:
  assumes "deriveConvexWasmOfficialOutputReusableCodeIdentitySha256s sha256 n units = Inr ids" and "i < nat n"
  shows "\<exists>h. fingerprintJson sha256 (intrinsic_json (units ! i)) = Inr h \<and>
    fingerprintJson sha256 (reusable_json (map key_json (js_sort (compareBy key_text) (map logical_key (unitDependencies (units ! i))))) h)
      = Inr (ids ! i) \<and> i < length units"
proof -
  obtain intrinsic where b: "\<not> (n < 1 \<or> n > int (length units) \<or> list_ex (\<lambda>(i, u). unitPublication u \<noteq> (int i \<ge> n)) (zip [0..<length units] units))"
    and m: "mapR (\<lambda>u. bindR (own_module_path u) (\<lambda>path. bindR (fingerprintJson sha256 (intrinsic_json u)) (\<lambda>h. Inr (path, h))))
       (take (nat n) units) = Inr intrinsic"
    and d: "distinct (map fst intrinsic)" and ids: "mapR (reusable_identity sha256 (map_of intrinsic)) units = Inr ids"
    using assms(1) unfolding deriveConvexWasmOfficialOutputReusableCodeIdentitySha256s_def bindR_Inr_iff failWhen_Inr_iff by blast
  have len: "i < length units" "nat n \<le> length units" using b assms(2) by auto
  have "(i, units ! i) \<in> set (zip [0..<length units] units)" using in_indexed len by blast
  then have pub: "\<not> unitPublication (units ! i)" using b assms(2) by (auto simp: list_ex_iff)
  have r: "reusable_identity sha256 (map_of intrinsic) (units ! i) = Inr (ids ! i)"
    using ids len(1) by (auto simp: mapR_Inr_iff list_all2_conv_all_nth)
  then obtain path h where p: "own_module_path (units ! i) = Inr path" and h: "map_of intrinsic path = Some h"
    and f: "fingerprintJson sha256 (reusable_json (map key_json (js_sort (compareBy key_text) (map logical_key (unitDependencies (units ! i))))) h)
      = Inr (ids ! i)"
    using pub by (auto simp: reusable_identity_def bindR_Inr_iff sorted_dependencies split: option.splits)
  obtain path' h' where i: "own_module_path (units ! i) = Inr path'" "fingerprintJson sha256 (intrinsic_json (units ! i)) = Inr h'"
    "intrinsic ! i = (path', h')" "i < length intrinsic"
    using m assms(2) len by (auto simp: mapR_Inr_iff list_all2_conv_all_nth bindR_Inr_iff)
  then have "(path, h') \<in> set intrinsic" using p by (metis nth_mem sum.inject(2))
  then have "h' = h" using d h by simp
  then show ?thesis using i(2) f len(1) by blast
qed

lemma reusable_identity_decides:
  assumes "deriveConvexWasmOfficialOutputReusableCodeIdentitySha256s sha256 n units = Inr ids"
    and "i < nat n" and "j < nat n" and "inj sha256"
    and "wf_js (intrinsic_json (units ! i))" and "wf_js (intrinsic_json (units ! j))"
  shows "ids ! i = ids ! j \<longleftrightarrow> js_data (intrinsic_json (units ! i)) = js_data (intrinsic_json (units ! j))
    \<and> mset (map logical_key (unitDependencies (units ! i))) = mset (map logical_key (unitDependencies (units ! j)))"
proof -
  let ?s = "\<lambda>k. js_sort (compareBy key_text) (map logical_key (unitDependencies (units ! k)))"
  obtain h where h: "fingerprintJson sha256 (intrinsic_json (units ! i)) = Inr h"
    "fingerprintJson sha256 (reusable_json (map key_json (?s i)) h) = Inr (ids ! i)" using reusable_identity_of[OF assms(1,2)] by blast
  obtain g where g: "fingerprintJson sha256 (intrinsic_json (units ! j)) = Inr g"
    "fingerprintJson sha256 (reusable_json (map key_json (?s j)) g) = Inr (ids ! j)" using reusable_identity_of[OF assms(1,3)] by blast
  have "ids ! i = ids ! j \<longleftrightarrow> ?s i = ?s j \<and> h = g"
    using canonical_digest[OF reusable_json_wf reusable_json_wf h(2) g(2) assms(4)] reusable_data by blast
  also have "?s i = ?s j \<longleftrightarrow> mset (map logical_key (unitDependencies (units ! i))) = mset (map logical_key (unitDependencies (units ! j)))"
    using logical_keys.sort_cong_mset by (metis mset_js_sort)
  also have "h = g \<longleftrightarrow> js_data (intrinsic_json (units ! i)) = js_data (intrinsic_json (units ! j))"
    by (rule canonical_digest[OF assms(5,6) h(1) g(1) assms(4)])
  finally show ?thesis by blast
qed

text \<open>C34: The reusable-code identities of an application tell chunks apart exactly by their intrinsic code and
  by the executable specifiers and kinds of their dependencies, counted with repetition but in any order;
  where the chunks lie and how their dependencies are spelled in the source makes no difference.\<close>

theorem reusable_code_identity_decides:
  assumes "deriveConvexWasmOfficialOutputReusableCodeIdentitySha256s sha256 n units = Inr ids"
    and "i < nat n" and "j < nat n" and "inj sha256"
    and "wf_js (intrinsic_json (units ! i))" and "wf_js (intrinsic_json (units ! j))"
  shows "ids ! i = ids ! j \<longleftrightarrow> js_data (intrinsic_json (units ! i)) = js_data (intrinsic_json (units ! j))
    \<and> mset (map logical_key (unitDependencies (units ! i))) = mset (map logical_key (unitDependencies (units ! j)))"
  by (rule reusable_identity_decides[OF assms])

lemma sample_intrinsic_wf: "wf_js (intrinsic_json (sample_unit slot path c ds))"
  by (simp add: intrinsic_json_def sample_unit_def own_order_def)

theorem reusable_code_identity_decides_witness:
  "\<exists>ids. deriveConvexWasmOfficialOutputReusableCodeIdentitySha256s (\<lambda>s. s) 3 sample_units = Inr ids \<and> ids ! 0 \<noteq> ids ! 1"
proof -
  have f: "fingerprintJson (\<lambda>s. s) (intrinsic_json (sample_unit slot path c ds)) = Inr (stringify (intrinsic_json (sample_unit slot path c ds)))"
    for slot path c ds by (simp add: fingerprintJson_def canonicalJson_def intrinsic_json_def sample_unit_def)
  have g: "fingerprintJson (\<lambda>s. s) (reusable_json (map key_json ks) h) = Inr (stringify (reusable_json (map key_json ks) h))" for ks h
    by (simp add: fingerprintJson_def canonicalJson_def reusable_json_def key_json_def list_all_iff)
  have identity: "\<exists>h. reusable_identity (\<lambda>s. s) m (sample_unit slot path c ds) = Inr h"
    if "m path = Some i" "list_all (\<lambda>d. m (dependencyPath d) \<noteq> None) ds" for m slot path c ds i
    using that by (auto simp: reusable_identity_def sorted_dependencies own_module_path_def g list_ex_iff list_all_iff)
      (auto simp: sample_unit_def own_module_path_def sorted_dependencies g list_ex_iff)
  have "\<exists>ids. deriveConvexWasmOfficialOutputReusableCodeIdentitySha256s (\<lambda>s. s) 3 sample_units = Inr ids"
  proof -
    let ?t = "\<lambda>u. stringify (intrinsic_json u)"
    let ?m = "[(''shared.js'', ?t (sample_units ! 0)), (''x.js'', ?t (sample_units ! 1)), (''lib/y.js'', ?t (sample_units ! 2))]"
    have paths: "own_module_path (sample_unit slot path c ds) = Inr path" for slot path c ds by (simp add: own_module_path_def sample_unit_def)
    have pub: "unitPublication (sample_unit slot path c ds) = False" for slot path c ds by (simp add: sample_unit_def)
    have d: "dependencyPath sample_dependency = ''shared.js''" "dependencyPath sample_parent_dependency = ''shared.js''"
      by (simp_all add: sample_dependency_def sample_parent_dependency_def)
    have m: "mapR (\<lambda>u. bindR (own_module_path u) (\<lambda>path. bindR (fingerprintJson (\<lambda>s. s) (intrinsic_json u)) (\<lambda>h. Inr (path, h)))) (take (nat 3) sample_units)
        = Inr ?m" by (simp add: sample_units_def paths f numeral_2_eq_2)
    have "\<exists>a. reusable_identity (\<lambda>s. s) (map_of ?m) (sample_unit 0 ''shared.js'' CHR ''a'' []) = Inr a"
      "\<exists>b. reusable_identity (\<lambda>s. s) (map_of ?m) (sample_unit 1 ''x.js'' CHR ''b'' [sample_dependency]) = Inr b"
      "\<exists>c. reusable_identity (\<lambda>s. s) (map_of ?m) (sample_unit 2 ''lib/y.js'' CHR ''c'' [sample_parent_dependency]) = Inr c"
      by (rule identity; simp add: d)+
    then obtain a b c where "reusable_identity (\<lambda>s. s) (map_of ?m) (sample_units ! 0) = Inr a" "reusable_identity (\<lambda>s. s) (map_of ?m) (sample_units ! 1) = Inr b"
      "reusable_identity (\<lambda>s. s) (map_of ?m) (sample_units ! 2) = Inr c"
      unfolding One_nat_def numeral_2_eq_2 sample_unit_at by blast
    then have "mapR (reusable_identity (\<lambda>s. s) (map_of ?m)) sample_units = Inr [a, b, c]"
      by (simp add: mapR_Inr_iff) (simp add: sample_units_def numeral_2_eq_2)
    moreover have "\<not> (3 < (1::int) \<or> 3 > int (length sample_units) \<or> list_ex (\<lambda>(i, u). unitPublication u \<noteq> (int i \<ge> 3)) (zip [0..<length sample_units] sample_units))"
      by (simp add: sample_units_def pub upt_rec)
    moreover have "distinct (map fst ?m)" by simp
    ultimately show ?thesis unfolding deriveConvexWasmOfficialOutputReusableCodeIdentitySha256s_def bindR_Inr_iff failWhen_Inr_iff using m by blast
  qed
  then obtain ids where ids: "deriveConvexWasmOfficialOutputReusableCodeIdentitySha256s (\<lambda>s. s) 3 sample_units = Inr ids" by blast
  have wf: "wf_js (intrinsic_json (sample_units ! 0))" "wf_js (intrinsic_json (sample_units ! 1))"
    by (simp_all add: sample_units_def sample_intrinsic_wf)
  have "ids ! 0 = ids ! 1 \<longleftrightarrow> js_data (intrinsic_json (sample_units ! 0)) = js_data (intrinsic_json (sample_units ! 1))
    \<and> mset (map logical_key (unitDependencies (sample_units ! 0))) = mset (map logical_key (unitDependencies (sample_units ! 1)))"
    by (rule reusable_code_identity_decides[OF ids _ _ _ wf]) (simp_all add: inj_def)
  moreover have "mset (map logical_key (unitDependencies (sample_units ! 0))) \<noteq> mset (map logical_key (unitDependencies (sample_units ! 1)))"
    by (simp add: sample_units_def sample_unit_def)
  ultimately show ?thesis using ids by blast
qed

end
