(* ===== verification/CompilerDescriptorRead.thy ===== *)
theory CompilerDescriptorRead
  imports CompilerDescriptor JsonData ChunkReuse
begin

text \<open>
  What each step of the compiler-descriptor authentication has established when it accepts, and the JSON
  of what it has read as canonical trees.
\<close>

section \<open>Integers\<close>

lemma safe_int_Some: "safe_int v = Some i \<longleftrightarrow> (\<exists>n. v = JNum n \<and> isSafeInteger n \<and> num_int n = i)"
  by (cases v) auto

lemma safe_int_bound: "safe_int v = Some i \<Longrightarrow> \<bar>i\<bar> \<le> max_safe_integer"
  using safe_num_int by (auto simp: safe_int_Some)

lemma safe_int_data: "normal_tree v \<Longrightarrow> normal_tree w \<Longrightarrow> js_data v = js_data w \<Longrightarrow> safe_int v = safe_int w"
  by (cases v; cases w; simp) (use num_data_int in blast)

lemma number_equals_safe: "number_equals v i \<Longrightarrow> safe_int v = Some j \<Longrightarrow> i = j"
  by (cases v; simp add: number_equals_def split: jnum.splits if_splits)

lemma positive_Inr: "requirePositiveInteger v d = Inr i \<longleftrightarrow> safe_int v = Some i \<and> 0 < i"
  by (cases v) auto

lemma case_safe_pair:
  "(case (a, b) of (Some x, Some y) \<Rightarrow> f x y | _ \<Rightarrow> fail m) = Inr r \<longleftrightarrow> (\<exists>x y. a = Some x \<and> b = Some y \<and> f x y = Inr r)"
  by (cases a; cases b) simp_all

lemma case_arr_pair:
  "(case (a, b) of (JArr x, JArr y) \<Rightarrow> f x y | _ \<Rightarrow> fail m) = Inr r \<longleftrightarrow> (\<exists>x y. a = JArr x \<and> b = JArr y \<and> f x y = Inr r)"
  by (cases a; cases b) simp_all

lemma case_safe_slots:
  "(case (a, b, c) of (Some x, Some y, JArr z) \<Rightarrow> f x y z | _ \<Rightarrow> fail m) = Inr r
     \<longleftrightarrow> (\<exists>x y z. a = Some x \<and> b = Some y \<and> c = JArr z \<and> f x y z = Inr r)"
  by (cases a; cases b; cases c) simp_all

lemmas read_steps = bindR_Inr_iff failWhen_Inr_iff case_arr case_safe_pair case_arr_pair case_safe_slots positive_Inr requireSha256_Inr

section \<open>Module identities\<close>

lemma descriptor_keys_not_index [simp]:
  "\<not> is_index_key ''environment''" "\<not> is_index_key ''moduleSha256''" "\<not> is_index_key ''path''" "\<not> is_index_key ''sourceMap''"
  "\<not> is_index_key ''sourceMembershipSha256''" "\<not> is_index_key ''sourceSha256''" "\<not> is_index_key ''sourceSize''" "\<not> is_index_key ''sha256''"
  "\<not> is_index_key ''size''" "\<not> is_index_key ''sourcesContentCount''" "\<not> is_index_key ''sourcesCount''" "\<not> is_index_key ''slot''"
  "\<not> is_index_key ''specifier''" "\<not> is_index_key ''exportName''" "\<not> is_index_key ''udfKind''" "\<not> is_index_key ''visibility''"
  "\<not> is_index_key ''dependencyGraphSha256''" "\<not> is_index_key ''entryModulePath''" "\<not> is_index_key ''entryPath''"
  "\<not> is_index_key ''entryPublicationUnitSlot''" "\<not> is_index_key ''entrySlot''" "\<not> is_index_key ''handoffSlot''" "\<not> is_index_key ''modulePath''"
  "\<not> is_index_key ''routes''" "\<not> is_index_key ''entry''" "\<not> is_index_key ''module''" "\<not> is_index_key ''chunkUnits''"
  "\<not> is_index_key ''entries''" "\<not> is_index_key ''initialization''" "\<not> is_index_key ''nativeDescriptor''" "\<not> is_index_key ''sourceEnvelopeSha256''"
  "\<not> is_index_key ''unitCount''" "\<not> is_index_key ''units''"
  by (simp_all add: is_index_key_def is_digit_def)

lemma module_read_tree:
  assumes "normalizeConvexWasmOfficialOutputChunkModuleIdentity v d = Inr m"
  shows "canonical_tree (chunk_module_json m)"
proof -
  obtain contents sources moduleSha path mapSha mapSize membership sourceSha sourceSize where
    "0 \<le> contents" "0 \<le> sources" "0 < mapSize" "0 < sourceSize"
    "\<bar>contents\<bar> \<le> max_safe_integer" "\<bar>sources\<bar> \<le> max_safe_integer" "\<bar>mapSize\<bar> \<le> max_safe_integer" "\<bar>sourceSize\<bar> \<le> max_safe_integer"
    and m: "m = \<lparr>chunkModuleSha256 = moduleSha, chunkModulePath = path, chunkMapSha256 = mapSha, chunkMapSize = mapSize,
           chunkMapContentCount = contents, chunkMapSourcesCount = sources, chunkMembershipSha256 = membership,
           chunkSourceSha256 = sourceSha, chunkSourceSize = sourceSize\<rparr>"
    using assms unfolding normalizeConvexWasmOfficialOutputChunkModuleIdentity_def read_steps
    by (auto dest!: safe_int_bound)
  moreover from this have "canonical_tree (source_map_json m)"
    unfolding source_map_json_def m by (intro canonical_tree_object) simp_all
  ultimately show ?thesis unfolding chunk_module_json_def by (intro canonical_tree_object) simp_all
qed

lemma chunk_module_json_inj: "chunk_module_json a = chunk_module_json b \<Longrightarrow> a = b"
  by (cases a; cases b) (simp add: chunk_module_json_def source_map_json_def)

lemma dependency_json_inj: "dependency_json a = dependency_json b \<Longrightarrow> a = b"
  by (cases a; cases b) (simp add: dependency_json_def)

lemma dependency_json_tree: "dependency_ok n d \<Longrightarrow> canonical_tree (dependency_json d)"
  unfolding dependency_json_def by (intro canonical_tree_object) (auto simp: dependency_ok_def)

section \<open>Entries\<close>

lemma read_descriptor_entry_ok:
  assumes "read_descriptor_entry n slots d i v = Inr e"
  shows "descriptorHandoffSlot e = i" "0 \<le> descriptorEntrySlot e" "descriptorEntrySlot e < n" "i < length slots"
    "safe_int (slots ! i) = Some j \<Longrightarrow> descriptorPublicationSlot e = j"
    "\<bar>descriptorEntrySlot e\<bar> \<le> max_safe_integer" "\<bar>descriptorPublicationSlot e\<bar> \<le> max_safe_integer"
    "descriptorRoutes e \<noteq> []" "distinct (map descriptorExportName (descriptorRoutes e))"
proof -
  obtain entry slot publicationSlot rawRoutes routes graph entryModulePath entryPath modulePath where
    r: "safe_int (own_prop entry ''entrySlot'') = Some slot" "safe_int (own_prop entry ''entryPublicationUnitSlot'') = Some publicationSlot"
    "0 \<le> slot" "slot < n" "i < length slots" "number_equals (slots ! i) publicationSlot"
    "rawRoutes \<noteq> []" "mapiR (read_descriptor_route (d @ '' entry '' @ show_nat i)) 0 rawRoutes = Inr routes" "distinct (map descriptorExportName routes)"
    and e: "e = \<lparr>descriptorGraphSha256 = graph, descriptorEntryModulePath = entryModulePath, descriptorEntryPath = entryPath,
                 descriptorPublicationSlot = publicationSlot, descriptorEntrySlot = slot, descriptorHandoffSlot = i,
                 descriptorModulePath = modulePath, descriptorRoutes = routes\<rparr>"
    using assms unfolding read_descriptor_entry_def Let_def read_steps by auto
  show "descriptorHandoffSlot e = i" "0 \<le> descriptorEntrySlot e" "descriptorEntrySlot e < n" "i < length slots"
    "\<bar>descriptorEntrySlot e\<bar> \<le> max_safe_integer" "\<bar>descriptorPublicationSlot e\<bar> \<le> max_safe_integer"
    "distinct (map descriptorExportName (descriptorRoutes e))"
    using r safe_int_bound[OF r(1)] safe_int_bound[OF r(2)] by (simp_all add: e)
  show "descriptorRoutes e \<noteq> []" using mapiR_length[OF r(8)] r(7) by (auto simp: e)
  show "safe_int (slots ! i) = Some j \<Longrightarrow> descriptorPublicationSlot e = j" using number_equals_safe[OF r(6)] by (simp add: e)
qed

lemma descriptor_route_json_inj: "descriptor_route_json a = descriptor_route_json b \<Longrightarrow> a = b"
  by (cases a; cases b) (simp add: descriptor_route_json_def)

lemma descriptor_entry_json_inj: "descriptor_entry_json a = descriptor_entry_json b \<Longrightarrow> a = b"
proof -
  assume eq: "descriptor_entry_json a = descriptor_entry_json b"
  have "inj descriptor_route_json" by (rule injI) (rule descriptor_route_json_inj)
  then have "descriptorRoutes a = descriptorRoutes b" using eq by (simp add: descriptor_entry_json_def inj_map_eq_map)
  then show "a = b" using eq by (simp add: descriptor_entry_json_def)
qed

lemma descriptor_entry_json_tree:
  assumes "\<bar>descriptorEntrySlot e\<bar> \<le> max_safe_integer" "\<bar>descriptorPublicationSlot e\<bar> \<le> max_safe_integer"
    "\<bar>int (descriptorHandoffSlot e)\<bar> \<le> max_safe_integer"
  shows "canonical_tree (descriptor_entry_json e)"
proof -
  have "canonical_tree (descriptor_route_json r)" for r
    unfolding descriptor_route_json_def by (intro canonical_tree_object) simp_all
  then show ?thesis using assms unfolding descriptor_entry_json_def by (intro canonical_tree_object) (simp_all add: list_all_iff)
qed

section \<open>Units\<close>

text \<open>The parts of a chunk unit, and the identity that the unit must have.\<close>

lemma read_chunk_parts_Inr:
  assumes "read_chunk_parts entries i ds u label = Inr (path, entryPath, locator, identity)"
  shows "\<exists>m l. normalizeConvexWasmOfficialOutputChunkModuleIdentity (own_prop u ''module'') (label @ '' module identity'') = Inr m
    \<and> locator_ok l \<and> entryPath = JUndefined \<and> path = Some (chunkModulePath m) \<and> locator = symbol_locator_json l
    \<and> canonicalEntryPath l = entry_path_by_slot entries (int i)
    \<and> identity = chunk_unit_fields ds (own_prop u ''javascript'') m l i (own_prop u ''transform'')"
  using assms locator_read_ok unfolding read_chunk_parts_def bindR_Inr_iff failWhen_Inr_iff by blast

lemma read_publication_parts_Inr:
  assumes "read_publication_parts entries n i u label = Inr (path, entryPath, locator, identity)"
  shows "path = None \<and> locator = JNull \<and> entryPath = JStr (descriptorEntryPath (entries ! (i - nat n)))
    \<and> own_prop u ''transform'' = JNull
    \<and> identity = publication_unit_fields (entries ! (i - nat n)) (own_prop u ''javascript'') i"
  using assms unfolding read_publication_parts_def bindR_Inr_iff failWhen_Inr_iff Let_def by auto

lemma check_unit_identity_Inr:
  assumes "check_unit_identity sha256 identity applicationUnit chunkUnit raw label d = Inr ()"
  shows "\<exists>digest. canonicalJson (JObj (identity @ [(''sha256'', JStr digest)])) = Inr (stringify applicationUnit)
    \<and> raw = JStr digest \<and> (\<forall>c. chunkUnit = Some c \<longrightarrow> stringify c = stringify applicationUnit)"
  using assms unfolding check_unit_identity_def bindR_Inr_iff failWhen_Inr_iff requireSha256_Inr by (auto split: option.splits)

lemma unit_topology_publication:
  "unit_topology_ok n m i publication ds u \<Longrightarrow> (publication \<longleftrightarrow> n \<le> int i) \<and> (publication \<longrightarrow> ds = [] \<and> int i - n < int m)"
  by (auto simp: unit_topology_ok_def split: option.splits if_splits)

text \<open>Everything that an accepted unit satisfies.\<close>

lemma check_descriptor_unit_Inr:
  assumes "check_descriptor_unit sha256 entries n m applicationUnits chunkUnits d i v = Inr u"
  obtains fs label path entryPath locator identity digest where "v = JObj fs"
    "unitSlot u = int i" "unitPublication u = (n \<le> int i)" "unitJavascript u = own_prop fs ''javascript''" "unitTransform u = own_prop fs ''transform''"
    "own_prop fs ''javascript'' \<noteq> JUndefined"
    "list_all (dependency_ok n) (unitDependencies u)" "unitModulePath u = path"
    "unitHandoffSlot u = (if n \<le> int i then int i - n else -1)"
    "n \<le> int i \<longrightarrow> unitDependencies u = [] \<and> int i - n < int m"
    "unitKind u = (if n \<le> int i then convexWasmOfficialOutputChunkEntryPublicationUnitKind else convexWasmOfficialOutputChunkUnitKind)"
    "(if n \<le> int i then read_publication_parts entries n i fs label else read_chunk_parts entries i (unitDependencies u) fs label) = Inr (path, entryPath, locator, identity)"
    "convexWasmOfficialOutputNativeSymbolIdentitySha256 sha256 entryPath (JBool (n \<le> int i)) locator = Inr (unitSymbol u)"
    "canonicalJson (JObj (identity @ [(''sha256'', JStr digest)])) = Inr (stringify (applicationUnits ! i))"
proof -
  let ?label = "d @ '' unit '' @ show_nat i"
  obtain fs publication ds javascript symbol entrySymbol exportedUnitName parts x1 x2 x3 x4 x5 x6 where
    r: "requireExactPlainObject v unit_keys ?label = Inr fs" "requireBoolean (own_prop fs ''entryPublication'') x1 = Inr publication"
    "normalizeConvexWasmOfficialOutputChunkDependencies (own_prop fs ''dependencies'') n ?label = Inr ds"
    "unit_topology_ok n m i publication ds fs"
    "requireExactPlainObject (own_prop fs ''javascript'') [''sha256'', ''size''] x2 = Inr javascript"
    "(if publication then read_publication_parts entries n i fs ?label else read_chunk_parts entries i ds fs ?label) = Inr parts"
    "(case parts of (path, entryPath, locator, identity) \<Rightarrow>
        bindR (convexWasmOfficialOutputNativeSymbolIdentitySha256 sha256 entryPath (JBool publication) locator) (\<lambda>expectedSymbol.
        bindR (failWhen (symbol \<noteq> expectedSymbol) x3) (\<lambda>_.
        bindR (failWhen (\<not> symbol_names_ok entrySymbol exportedUnitName symbol) x4) (\<lambda>_.
        bindR (check_unit_identity sha256 identity (applicationUnits ! i)
          (if publication then None else Some (chunkUnits ! i)) (own_prop fs ''identitySha256'') ?label d) (\<lambda>_.
        Inr \<lparr>unitSlot = int i, unitDependencies = ds, unitPublication = publication,
        unitJavascript = own_prop fs ''javascript'',
        unitKind = (if publication then convexWasmOfficialOutputChunkEntryPublicationUnitKind else convexWasmOfficialOutputChunkUnitKind),
        unitModulePath = path, unitLocator = own_prop fs ''nativeSymbolLocator'', unitSymbol = symbol,
        unitTransform = own_prop fs ''transform'', unitHandoffSlot = (if publication then int i - n else -1),
        unitReusableIdentity = own_prop fs ''reusableCodeIdentitySha256''\<rparr>))))) = Inr u"
    using assms unfolding check_descriptor_unit_def Let_def bindR_Inr_iff failWhen_Inr_iff by blast
  obtain path entryPath locator identity where p: "parts = (path, entryPath, locator, identity)" by (cases parts)
  have s: "convexWasmOfficialOutputNativeSymbolIdentitySha256 sha256 entryPath (JBool publication) locator = Inr symbol"
    and c: "check_unit_identity sha256 identity (applicationUnits ! i)
          (if publication then None else Some (chunkUnits ! i)) (own_prop fs ''identitySha256'') ?label d = Inr ()"
    and u: "u = \<lparr>unitSlot = int i, unitDependencies = ds, unitPublication = publication,
        unitJavascript = own_prop fs ''javascript'',
        unitKind = (if publication then convexWasmOfficialOutputChunkEntryPublicationUnitKind else convexWasmOfficialOutputChunkUnitKind),
        unitModulePath = path, unitLocator = own_prop fs ''nativeSymbolLocator'', unitSymbol = symbol,
        unitTransform = own_prop fs ''transform'', unitHandoffSlot = (if publication then int i - n else -1),
        unitReusableIdentity = own_prop fs ''reusableCodeIdentitySha256''\<rparr>"
    using r(7) unfolding p prod.case bindR_Inr_iff failWhen_Inr_iff by auto
  obtain digest where t: "canonicalJson (JObj (identity @ [(''sha256'', JStr digest)])) = Inr (stringify (applicationUnits ! i))"
    using check_unit_identity_Inr[OF c] by blast
  have pub: "publication = (n \<le> int i)" "publication \<longrightarrow> ds = [] \<and> int i - n < int m"
    using unit_topology_publication[OF r(4)] by blast+
  have v: "v = JObj fs" using r(1) by (cases v) (auto simp: requireExactPlainObject_def bindR_Inr_iff)
  have js: "own_prop fs ''javascript'' \<noteq> JUndefined" using r(5) by (auto simp: requireExactPlainObject_def bindR_Inr_iff)
  have deps: "list_all (dependency_ok n) ds" using normalized_dependencies_again(2)[OF r(3)] .
  obtain label where parts: "(if publication then read_publication_parts entries n i fs label else read_chunk_parts entries i ds fs label) = Inr parts"
    using r(6) by blast
  show thesis
    by (rule that[of fs path label entryPath locator identity digest]) (use v js deps pub s t parts p in \<open>simp_all add: u split: if_splits\<close>)
qed

end
