(* ===== verification/CompilerDescriptorCorrect.thy ===== *)
theory CompilerDescriptorCorrect
  imports CompilerDescriptorRead
begin

text \<open>
  What an authenticated compiler descriptor guarantees: its entries and units fit together, and its one
  identity digest binds its entries and the code of every unit.
\<close>

section \<open>The parts of an accepted descriptor\<close>

text \<open>The text that the digest of an identity hashes: \<open>JSON.stringify\<close> of the identity without \<open>sha256\<close>.\<close>

fun identity_text :: "jsval \<Rightarrow> string" where
  "identity_text (JObj fs) = stringify (JObj (filter (\<lambda>kv. fst kv \<noteq> ''sha256'') fs))"
| "identity_text _ = []"

lemma exact_Inr: "requireExactPlainObject v keys d = Inr fs \<Longrightarrow> v = JObj fs \<and> set (map fst fs) \<subseteq> set keys \<and> length fs = length keys"
  by (cases v) (auto simp: requireExactPlainObject_def assertExactKeys_def bindR_Inr_iff Let_def filter_empty_conv)

lemma check_identity_digest_Inr:
  assumes "check_identity_digest sha256 v keys label = Inr (fs, digest)"
  shows "v = JObj fs \<and> set (map fst fs) \<subseteq> insert ''sha256'' (set keys) \<and> length fs = Suc (length keys) \<and> own_prop fs ''sha256'' = JStr digest \<and> digest = sha256 (identity_text v)"
  using assms exact_Inr unfolding check_identity_digest_def bindR_Inr_iff failWhen_Inr_iff requireSha256_Inr by fastforce

definition application_keys :: "string set" where
  "application_keys = {''chunkUnits'', ''dependencyGraphSha256'', ''entries'', ''initialization'', ''kind'', ''nativeDescriptor'',
     ''sourceEnvelopeSha256'', ''unitCount'', ''units'', ''sha256''}"

lemma check_application_identity_Inr:
  assumes "check_application_identity sha256 fs entries identity unitCount d = Inr application"
  shows "own_prop fs ''applicationIdentity'' = JObj application" "set (map fst application) \<subseteq> application_keys" "length application = 10"
    "own_prop application ''sha256'' = JStr identity" "identity = sha256 (identity_text (JObj application))"
    "canonicalJson (JArr (map descriptor_entry_json entries)) = Inr (stringify (own_prop application ''entries''))"
    "stringify (own_prop application ''initialization'') = stringify (own_prop fs ''initialization'')"
proof -
  obtain digest where r: "check_identity_digest sha256 (own_prop fs ''applicationIdentity'')
       [''chunkUnits'', ''dependencyGraphSha256'', ''entries'', ''initialization'', ''kind'', ''nativeDescriptor'', ''sourceEnvelopeSha256'',
        ''unitCount'', ''units''] (d @ '' application identity'') = Inr (application, digest)" "identity = digest"
    "canonicalJson (JArr (map descriptor_entry_json entries)) = Inr (stringify (own_prop application ''entries''))"
    "stringify (own_prop application ''initialization'') = stringify (own_prop fs ''initialization'')"
    using assms unfolding check_application_identity_def bindR_Inr_iff failWhen_Inr_iff split_paired_Ex prod.case by auto
  show "own_prop fs ''applicationIdentity'' = JObj application" "set (map fst application) \<subseteq> application_keys" "length application = 10"
    "own_prop application ''sha256'' = JStr identity" "identity = sha256 (identity_text (JObj application))"
    "canonicalJson (JArr (map descriptor_entry_json entries)) = Inr (stringify (own_prop application ''entries''))"
    "stringify (own_prop application ''initialization'') = stringify (own_prop fs ''initialization'')"
    using check_identity_digest_Inr[OF r(1)] r(2-4) by (auto simp: application_keys_def)
qed

lemma check_descriptor_units_Inr:
  assumes "check_descriptor_units sha256 entries n rawUnits application chunkUnits d = Inr units"
  obtains applicationUnits chunkIdentities where "own_prop application ''units'' = JArr applicationUnits"
    "length applicationUnits = length rawUnits" "distinct (map descriptorEntrySlot entries)"
    "mapiR (check_descriptor_unit sha256 entries n (length entries) applicationUnits chunkIdentities d) 0 rawUnits = Inr units"
    "distinct (map unitSymbol units)"
    "validateConvexWasmOfficialOutputChunkDependencyTopology (nat n) d (map chunk_unit.truncate units) = Inr ()"
    "check_entry_units entries units d = Inr ()" "check_reusable_identities sha256 n units d = Inr ()"
  using assms unfolding check_descriptor_units_def read_steps by auto

lemma read_initialization_Inr:
  assumes "read_initialization v d = Inr (n, slots)"
  shows "\<exists>fs. v = JObj fs \<and> safe_int (own_prop fs ''namespaceSlotCount'') = Some n \<and> 1 \<le> n
    \<and> own_prop fs ''entryPublicationUnitSlots'' = JArr slots"
  using assms exact_Inr unfolding read_initialization_def read_steps by fastforce

lemma read_descriptor_Inr:
  assumes "read_descriptor sha256 fs d = Inr c"
  obtains slots rawEntries rawUnits application chunkUnits where
    "own_prop fs ''identitySha256'' = JStr (descriptorIdentitySha256 c)"
    "read_initialization (own_prop fs ''initialization'') d = Inr (descriptorSlotCount c, slots)"
    "own_prop fs ''entries'' = JArr rawEntries" "rawEntries \<noteq> []" "length rawEntries = length slots"
    "own_prop fs ''units'' = JArr rawUnits" "int (length rawUnits) = descriptorSlotCount c + int (length slots)"
    "\<forall>i < length slots. safe_int (slots ! i) = Some (descriptorSlotCount c + int i)"
    "mapiR (read_descriptor_entry (descriptorSlotCount c) slots d) 0 rawEntries = Inr (descriptorEntries c)"
    "strictly_ordered (map descriptorEntryPath (descriptorEntries c))"
    "check_application_identity sha256 fs (descriptorEntries c) (descriptorIdentitySha256 c) (length rawUnits) d = Inr application"
    "check_descriptor_units sha256 (descriptorEntries c) (descriptorSlotCount c) rawUnits application chunkUnits d = Inr (descriptorUnits c)"
proof -
  obtain identity n slots rawEntries rawUnits entries application chunkUnits units where
    r: "own_prop fs ''identitySha256'' = JStr identity"
    "read_initialization (own_prop fs ''initialization'') d = Inr (n, slots)"
    "own_prop fs ''entries'' = JArr rawEntries" "rawEntries \<noteq> []" "length rawEntries = length slots"
    "own_prop fs ''units'' = JArr rawUnits" "int (length rawUnits) = n + int (length slots)"
    "\<not> list_ex (\<lambda>(i, slot). safe_int slot \<noteq> Some (n + int i)) (zip [0..<length slots] slots)"
    "mapiR (read_descriptor_entry n slots d) 0 rawEntries = Inr entries"
    "strictly_ordered (map descriptorEntryPath entries)"
    "check_application_identity sha256 fs entries identity (length rawUnits) d = Inr application"
    "check_descriptor_units sha256 entries n rawUnits application chunkUnits d = Inr units"
    and c: "c = \<lparr>descriptorIdentitySha256 = identity, descriptorSlotCount = n, descriptorEntries = entries, descriptorUnits = units\<rparr>"
    using assms unfolding read_descriptor_def read_steps split_paired_Ex prod.case by auto
  have "\<forall>i < length slots. safe_int (slots ! i) = Some (n + int i)"
  proof (intro allI impI)
    fix i assume "i < length slots"
    then have "(i, slots ! i) \<in> set (zip [0..<length slots] slots)" by (rule in_indexed)
    then show "safe_int (slots ! i) = Some (n + int i)" using r(8) by (auto simp: list_ex_iff)
  qed
  then show thesis by (intro that[of slots rawEntries rawUnits application chunkUnits]) (use r in \<open>simp_all add: c\<close>)
qed

section \<open>Entries and units fit together\<close>

text \<open>
  The shape of an application: the chunks come first, then one publication unit for each entry; the
  entries are ordered by path and name distinct chunks by slot and by module path; units have distinct
  native symbols; a dependency of a chunk names another chunk, by slot and by module path.
\<close>

definition application_shape :: "int \<Rightarrow> descriptor_entry list \<Rightarrow> descriptor_unit list \<Rightarrow> bool" where
  "application_shape n entries units \<longleftrightarrow>
     1 \<le> n \<and> entries \<noteq> [] \<and> int (length units) = n + int (length entries)
   \<and> sorted_wrt (<) (map descriptorEntryPath entries) \<and> distinct (map descriptorEntrySlot entries) \<and> distinct (map unitSymbol units)
   \<and> (\<forall>h < length entries. descriptorHandoffSlot (entries ! h) = h \<and> descriptorPublicationSlot (entries ! h) = n + int h
        \<and> 0 \<le> descriptorEntrySlot (entries ! h) \<and> descriptorEntrySlot (entries ! h) < n
        \<and> unitModulePath (units ! nat (descriptorEntrySlot (entries ! h))) = Some (descriptorEntryModulePath (entries ! h)))
   \<and> (\<forall>i < length units. unitSlot (units ! i) = int i \<and> unitPublication (units ! i) = (n \<le> int i)
        \<and> unitHandoffSlot (units ! i) = (if n \<le> int i then int i - n else -1))
   \<and> (\<forall>i < length units. \<forall>d \<in> set (unitDependencies (units ! i)). 0 \<le> dependencySlot d \<and> dependencySlot d < n \<and> dependencySlot d \<noteq> int i
        \<and> unitModulePath (units ! nat (dependencySlot d)) = Some (dependencyPath d))"

lemma strictly_ordered_sorted: "strictly_ordered ss \<Longrightarrow> sorted_wrt (<) ss"
proof (induction ss rule: strictly_ordered.induct)
  case (1 a b ss)
  then show ?case by (auto intro: less_trans)
qed simp_all

lemma truncate_simps [simp]:
  "unitModulePath (chunk_unit.truncate u) = unitModulePath u" "unitSymbol (chunk_unit.truncate u) = unitSymbol u"
  "unitDependencies (chunk_unit.truncate u) = unitDependencies u" "unitPublication (chunk_unit.truncate u) = unitPublication u"
  by (simp_all add: chunk_unit.truncate_def)

lemma check_entry_units_path:
  assumes "check_entry_units entries units d = Inr ()" and "e \<in> set entries"
  shows "unitModulePath (units ! nat (descriptorEntrySlot e)) = Some (descriptorEntryModulePath e)"
proof -
  obtain paths where p: "mapR (\<lambda>e. module_path_at (map chunk_unit.truncate units) (descriptorEntrySlot e)) entries = Inr paths"
    and ok: "\<not> list_ex (\<lambda>(e, path). path \<noteq> descriptorEntryModulePath e) (zip entries paths)"
    using assms(1) unfolding check_entry_units_def bindR_Inr_iff failWhen_Inr_iff by blast
  obtain i where i: "i < length entries" "entries ! i = e" using assms(2) by (metis in_set_conv_nth)
  have rel: "module_path_at (map chunk_unit.truncate units) (descriptorEntrySlot e) = Inr (paths ! i)" "length paths = length entries"
    using p i by (auto simp: mapR_Inr_iff list_all2_conv_all_nth)
  then have "(e, paths ! i) \<in> set (zip entries paths)" using i by (metis (no_types, lifting) in_set_zip fst_conv snd_conv)
  then have "paths ! i = descriptorEntryModulePath e" using ok by (auto simp: list_ex_iff)
  then show ?thesis using rel(1) by (auto simp: module_path_at_def split: if_splits option.splits)
qed

lemma read_descriptor_shape:
  assumes "read_descriptor sha256 fs d = Inr c"
  shows "application_shape (descriptorSlotCount c) (descriptorEntries c) (descriptorUnits c)"
proof -
  let ?n = "descriptorSlotCount c" and ?es = "descriptorEntries c" and ?us = "descriptorUnits c"
  obtain slots rawEntries rawUnits application chunkUnits where
    i: "read_initialization (own_prop fs ''initialization'') d = Inr (?n, slots)"
    and e: "rawEntries \<noteq> []" "length rawEntries = length slots" "\<forall>i < length slots. safe_int (slots ! i) = Some (?n + int i)"
      "mapiR (read_descriptor_entry ?n slots d) 0 rawEntries = Inr ?es" "strictly_ordered (map descriptorEntryPath ?es)"
    and l: "int (length rawUnits) = ?n + int (length slots)"
    and u: "check_descriptor_units sha256 ?es ?n rawUnits application chunkUnits d = Inr ?us"
    using read_descriptor_Inr[OF assms] by metis
  obtain applicationUnits chunkIdentities where
    s: "distinct (map descriptorEntrySlot ?es)" "distinct (map unitSymbol ?us)"
    and m: "mapiR (check_descriptor_unit sha256 ?es ?n (length ?es) applicationUnits chunkIdentities d) 0 rawUnits = Inr ?us"
    and t: "validateConvexWasmOfficialOutputChunkDependencyTopology (nat ?n) d (map chunk_unit.truncate ?us) = Inr ()"
    and p: "check_entry_units ?es ?us d = Inr ()"
    using check_descriptor_units_Inr[OF u] by metis
  have n: "1 \<le> ?n" using read_initialization_Inr[OF i] by blast
  have len: "length ?es = length slots" "length ?us = length rawUnits" using mapiR_length[OF e(4)] mapiR_length[OF m] e(2) by simp_all
  have entry: "descriptorHandoffSlot (?es ! h) = h \<and> descriptorPublicationSlot (?es ! h) = ?n + int h
      \<and> 0 \<le> descriptorEntrySlot (?es ! h) \<and> descriptorEntrySlot (?es ! h) < ?n
      \<and> unitModulePath (?us ! nat (descriptorEntrySlot (?es ! h))) = Some (descriptorEntryModulePath (?es ! h))" if h: "h < length ?es" for h
  proof -
    have r: "read_descriptor_entry ?n slots d h (rawEntries ! h) = Inr (?es ! h)" using mapiR_nth[OF e(4), of h] h len e(2) by simp
    show ?thesis using read_descriptor_entry_ok[OF r] e(3) h len(1) check_entry_units_path[OF p, of "?es ! h"] by simp
  qed
  have unit: "unitSlot (?us ! i) = int i \<and> unitPublication (?us ! i) = (?n \<le> int i)
      \<and> unitHandoffSlot (?us ! i) = (if ?n \<le> int i then int i - ?n else -1)
      \<and> list_all (dependency_ok ?n) (unitDependencies (?us ! i)) \<and> (?n \<le> int i \<longrightarrow> unitDependencies (?us ! i) = [])" if i: "i < length ?us" for i
  proof -
    have "check_descriptor_unit sha256 ?es ?n (length ?es) applicationUnits chunkIdentities d i (rawUnits ! i) = Inr (?us ! i)"
      using mapiR_nth[OF m, of i] i len by simp
    then show ?thesis by (rule check_descriptor_unit_Inr) simp
  qed
  have dep: "0 \<le> dependencySlot x \<and> dependencySlot x < ?n \<and> dependencySlot x \<noteq> int i
      \<and> unitModulePath (?us ! nat (dependencySlot x)) = Some (dependencyPath x)"
    if i: "i < length ?us" and x: "x \<in> set (unitDependencies (?us ! i))" for i x
  proof -
    have "i < nat ?n" using unit[OF i] x by fastforce
    then obtain label k where b: "check_dependency_binding (map chunk_unit.truncate ?us) label i (map chunk_unit.truncate ?us ! i) k x = Inr ()"
      using topology_binding[OF t, of i x] i x by auto
    have "dependency_ok ?n x" using unit[OF i] x by (auto simp: list_all_iff)
    then show ?thesis using binding_sound[OF b] by (simp add: dependency_ok_def)
  qed
  have "?es \<noteq> []" "int (length ?us) = ?n + int (length ?es)" using len l e(1,2) by auto
  then show ?thesis unfolding application_shape_def
    using n s strictly_ordered_sorted[OF e(5)] entry unit dep by blast
qed

section \<open>The identity binds the code\<close>

definition unit_code :: "descriptor_unit \<Rightarrow> chunk_dependency list \<times> bool \<times> string \<times> string option \<times> string \<times> jdata \<times> jdata" where
  "unit_code u = (unitDependencies u, unitPublication u, unitKind u, unitModulePath u, unitSymbol u, js_data (unitJavascript u),
     js_data (unitTransform u))"

lemma application_key_names: "k \<in> application_keys \<Longrightarrow> \<not> is_index_key k"
  unfolding application_keys_def insert_iff empty_iff by (elim disjE FalseE; simp)

lemma digest_same:
  assumes "normal_tree (JObj a)" and "normal_tree (JObj b)" and "set (map fst a) \<subseteq> application_keys" and "set (map fst b) \<subseteq> application_keys"
    and "identity_text (JObj a) = identity_text (JObj b)" and "k \<noteq> ''sha256''"
  shows "js_data (own_prop a k) = js_data (own_prop b k)"
proof -
  have "list_all (\<lambda>k. \<not> is_index_key k) (map fst c)" if "set (map fst c) \<subseteq> application_keys" for c :: "(string \<times> jsval) list"
    unfolding list_all_iff by (intro ballI application_key_names subsetD[OF that])
  then have n: "normal_tree (JObj (filter (\<lambda>kv. fst kv \<noteq> ''sha256'') a))" "normal_tree (JObj (filter (\<lambda>kv. fst kv \<noteq> ''sha256'') b))"
    using normal_filter[where P="\<lambda>k. k \<noteq> ''sha256''"] assms(1-4) by blast+
  have "js_data (JObj (filter (\<lambda>kv. fst kv \<noteq> ''sha256'') a)) = js_data (JObj (filter (\<lambda>kv. fst kv \<noteq> ''sha256'') b))"
    using assms(5) normal_text[OF n] unfolding identity_text.simps by blast
  from data_prop[OF this, of k] show ?thesis using assms(6) own_prop_filter[where P="\<lambda>k. k \<noteq> ''sha256''"] by simp
qed

lemma tree_list_inj:
  assumes "js_data (JArr (map f xs)) = js_data (JArr (map f ys))" and "list_all (\<lambda>x. canonical_tree (f x)) xs"
    and "list_all (\<lambda>x. canonical_tree (f x)) ys" and "\<And>x y. f x = f y \<Longrightarrow> x = y"
  shows "xs = ys"
proof -
  have "JArr (map f xs) = JArr (map f ys)"
    using assms(1-3) by (intro js_data_inj) (simp_all add: list_all_iff)
  moreover have "inj f" using assms(4) by (rule injI)
  ultimately show ?thesis by (simp add: inj_map_eq_map)
qed

text \<open>The identity fields of a chunk unit determine its code.\<close>

lemma chunk_fields_inj:
  assumes "js_data (JObj (chunk_unit_fields ds js m l i t @ [(''sha256'', JStr x)])) = js_data (JObj (chunk_unit_fields ds' js' m' l' i t' @ [(''sha256'', JStr y)]))"
    and "list_all (dependency_ok n) ds" "list_all (dependency_ok n) ds'" "canonical_tree (chunk_module_json m)" "canonical_tree (chunk_module_json m')"
    and "locator_ok l" "locator_ok l'"
  shows "ds = ds' \<and> js_data js = js_data js' \<and> m = m' \<and> l = l' \<and> js_data t = js_data t'"
proof -
  note p = data_prop[OF assms(1)]
  have "js_data (JArr (map dependency_json ds)) = js_data (JArr (map dependency_json ds'))" using p[of "''dependencies''"] by (simp add: chunk_unit_fields_def)
  then have "ds = ds'" by (rule tree_list_inj) (use assms(2,3) dependency_json_tree dependency_json_inj in \<open>auto simp: list_all_iff\<close>)
  moreover have "js_data js = js_data js'" using p[of "''javascript''"] by (simp add: chunk_unit_fields_def)
  moreover have "js_data t = js_data t'" using p[of "''transform''"] by (simp add: chunk_unit_fields_def)
  moreover have "m = m'"
    using p[of "''module''"] js_data_inj[OF assms(4,5)] chunk_module_json_inj by (simp add: chunk_unit_fields_def)
  moreover have "l = l'"
    using p[of "''nativeSymbolLocator''"] js_data_inj[OF symbol_locator_json_tree[OF assms(6)] symbol_locator_json_tree[OF assms(7)]] symbol_locator_json_inj
    by (simp add: chunk_unit_fields_def)
  ultimately show ?thesis by blast
qed

lemma chunk_fields_wf:
  assumes "list_all (dependency_ok n) ds" "wf_js js" "canonical_tree (chunk_module_json m)" "locator_ok l" "\<bar>int i\<bar> \<le> max_safe_integer" "wf_js t"
  shows "wf_js (JObj (chunk_unit_fields ds js m l i t @ [(''sha256'', JStr x)]))"
proof -
  have "list_all wf_js (map dependency_json ds)"
    using assms(1) canonical_wf dependency_json_tree by (auto simp: list_all_iff)
  then show ?thesis unfolding chunk_unit_fields_def
    by (intro wf_object) (use assms canonical_wf symbol_locator_json_tree in simp_all)
qed

lemma publication_fields_wf:
  assumes "wf_js js" "\<bar>int i\<bar> \<le> max_safe_integer" "\<bar>descriptorEntrySlot e\<bar> \<le> max_safe_integer" "\<bar>int (descriptorHandoffSlot e)\<bar> \<le> max_safe_integer"
  shows "wf_js (JObj (publication_unit_fields e js i @ [(''sha256'', JStr x)]))"
proof -
  have "wf_js (descriptor_route_json r)" for r
    unfolding descriptor_route_json_def by (intro wf_object) simp_all
  then have "wf_js (publication_entry_json e)" unfolding publication_entry_json_def
    by (intro wf_object) (use assms in \<open>simp_all add: list_all_iff\<close>)
  then show ?thesis unfolding publication_unit_fields_def by (intro wf_object) (use assms in simp_all)
qed

lemma wf_prop: "normal_tree (JObj fs) \<Longrightarrow> wf_js (own_prop fs k)"
  by (cases "own_prop fs k = JUndefined") (simp, rule normal_tree_wf, rule normal_prop)

lemma entry_bounds:
  assumes "application_shape n es us" and "list_all (\<lambda>e. \<bar>descriptorPublicationSlot e\<bar> \<le> max_safe_integer) es"
  shows "h < length es \<Longrightarrow> \<bar>int (descriptorHandoffSlot (es ! h))\<bar> \<le> max_safe_integer \<and> \<bar>descriptorEntrySlot (es ! h)\<bar> \<le> max_safe_integer
      \<and> \<bar>descriptorPublicationSlot (es ! h)\<bar> \<le> max_safe_integer"
    and "i < length us \<Longrightarrow> \<bar>int i\<bar> \<le> max_safe_integer"
proof -
  have slot: "descriptorPublicationSlot (es ! h) = n + int h" "n + int h \<le> max_safe_integer" "1 \<le> n"
    "descriptorHandoffSlot (es ! h) = h" "0 \<le> descriptorEntrySlot (es ! h)" "descriptorEntrySlot (es ! h) < n" if "h < length es" for h
    using assms that by (auto simp: application_shape_def list_all_length)
  then show "h < length es \<Longrightarrow> \<bar>int (descriptorHandoffSlot (es ! h))\<bar> \<le> max_safe_integer \<and> \<bar>descriptorEntrySlot (es ! h)\<bar> \<le> max_safe_integer
      \<and> \<bar>descriptorPublicationSlot (es ! h)\<bar> \<le> max_safe_integer" by fastforce
  have "es \<noteq> []" "int (length us) = n + int (length es)" using assms(1) by (simp_all add: application_shape_def)
  moreover have "n + int (length es - 1) \<le> max_safe_integer" using slot(2)[of "length es - 1"] \<open>es \<noteq> []\<close> by simp
  ultimately show "i < length us \<Longrightarrow> \<bar>int i\<bar> \<le> max_safe_integer" by (cases es) auto
qed

lemma unit_code_same:
  assumes "check_descriptor_unit sha256 es n m A C d i v = Inr u" and "check_descriptor_unit sha256 es n m A' C' d' i v' = Inr u'"
    and "normal_tree v" "normal_tree v'" "normal_tree (A ! i)" "normal_tree (A' ! i)" and "js_data (A ! i) = js_data (A' ! i)"
    and "\<bar>int i\<bar> \<le> max_safe_integer"
    and e: "\<And>h. h < m \<Longrightarrow> \<bar>int (descriptorHandoffSlot (es ! h))\<bar> \<le> max_safe_integer \<and> \<bar>descriptorEntrySlot (es ! h)\<bar> \<le> max_safe_integer"
  shows "unit_code u = unit_code u'"
proof (rule check_descriptor_unit_Inr[OF assms(1)], rule check_descriptor_unit_Inr[OF assms(2)])
  fix fs label path entryPath locator identity digest fs' label' path' entryPath' locator' identity' digest'
  assume v: "v = JObj fs" "v' = JObj fs'"
    and u: "unitPublication u = (n \<le> int i)" "unitJavascript u = own_prop fs ''javascript''" "unitTransform u = own_prop fs ''transform''"
      "unitModulePath u = path" "n \<le> int i \<longrightarrow> unitDependencies u = [] \<and> int i - n < int m" "list_all (dependency_ok n) (unitDependencies u)"
      "unitKind u = (if n \<le> int i then convexWasmOfficialOutputChunkEntryPublicationUnitKind else convexWasmOfficialOutputChunkUnitKind)"
    and u': "unitPublication u' = (n \<le> int i)" "unitJavascript u' = own_prop fs' ''javascript''" "unitTransform u' = own_prop fs' ''transform''"
      "unitModulePath u' = path'" "n \<le> int i \<longrightarrow> unitDependencies u' = [] \<and> int i - n < int m" "list_all (dependency_ok n) (unitDependencies u')"
      "unitKind u' = (if n \<le> int i then convexWasmOfficialOutputChunkEntryPublicationUnitKind else convexWasmOfficialOutputChunkUnitKind)"
    and p: "(if n \<le> int i then read_publication_parts es n i fs label else read_chunk_parts es i (unitDependencies u) fs label)
        = Inr (path, entryPath, locator, identity)"
      "(if n \<le> int i then read_publication_parts es n i fs' label' else read_chunk_parts es i (unitDependencies u') fs' label')
        = Inr (path', entryPath', locator', identity')"
    and s: "convexWasmOfficialOutputNativeSymbolIdentitySha256 sha256 entryPath (JBool (n \<le> int i)) locator = Inr (unitSymbol u)"
      "convexWasmOfficialOutputNativeSymbolIdentitySha256 sha256 entryPath' (JBool (n \<le> int i)) locator' = Inr (unitSymbol u')"
    and t: "canonicalJson (JObj (identity @ [(''sha256'', JStr digest)])) = Inr (stringify (A ! i))"
      "canonicalJson (JObj (identity' @ [(''sha256'', JStr digest')])) = Inr (stringify (A' ! i))"
  have data: "js_data (JObj (identity @ [(''sha256'', JStr digest)])) = js_data (JObj (identity' @ [(''sha256'', JStr digest')]))"
    if "wf_js (JObj (identity @ [(''sha256'', JStr digest)]))" "wf_js (JObj (identity' @ [(''sha256'', JStr digest')]))"
    using canonical_text_data[OF t(1) that(1) assms(5)] canonical_text_data[OF t(2) that(2) assms(6)] assms(7) by simp
  have wf: "wf_js (own_prop fs k)" "wf_js (own_prop fs' k)" for k using assms(3,4) wf_prop v by blast+
  show "unit_code u = unit_code u'"
  proof (cases "n \<le> int i")
    case True
    let ?e = "es ! (i - nat n)"
    have r: "read_publication_parts es n i fs label = Inr (path, entryPath, locator, identity)"
      "read_publication_parts es n i fs' label' = Inr (path', entryPath', locator', identity')" using p True by simp_all
    note q = read_publication_parts_Inr[OF r(1)] read_publication_parts_Inr[OF r(2)]
    have b: "i - nat n < m" using u(5) True by linarith
    have "js_data (JObj (publication_unit_fields ?e (own_prop fs ''javascript'') i @ [(''sha256'', JStr digest)]))
        = js_data (JObj (publication_unit_fields ?e (own_prop fs' ''javascript'') i @ [(''sha256'', JStr digest')]))"
      using data q publication_fields_wf[OF wf(1) assms(8)] publication_fields_wf[OF wf(2) assms(8)] e[OF b] by simp
    from data_prop[OF this, of "''javascript''"] have "js_data (own_prop fs ''javascript'') = js_data (own_prop fs' ''javascript'')"
      by (simp add: publication_unit_fields_def)
    moreover have "unitSymbol u = unitSymbol u'" using s q by simp
    ultimately show ?thesis using u u' q True by (simp add: unit_code_def)
  next
    case False
    have r: "read_chunk_parts es i (unitDependencies u) fs label = Inr (path, entryPath, locator, identity)"
      "read_chunk_parts es i (unitDependencies u') fs' label' = Inr (path', entryPath', locator', identity')" using p False by simp_all
    obtain k l where q: "canonical_tree (chunk_module_json k)" "locator_ok l" "entryPath = JUndefined" "path = Some (chunkModulePath k)"
      "locator = symbol_locator_json l" "identity = chunk_unit_fields (unitDependencies u) (own_prop fs ''javascript'') k l i (own_prop fs ''transform'')"
      using read_chunk_parts_Inr[OF r(1)] module_read_tree by blast
    obtain k' l' where q': "canonical_tree (chunk_module_json k')" "locator_ok l'" "entryPath' = JUndefined" "path' = Some (chunkModulePath k')"
      "locator' = symbol_locator_json l'" "identity' = chunk_unit_fields (unitDependencies u') (own_prop fs' ''javascript'') k' l' i (own_prop fs' ''transform'')"
      using read_chunk_parts_Inr[OF r(2)] module_read_tree by blast
    have "wf_js (JObj (identity @ [(''sha256'', JStr digest)]))" "wf_js (JObj (identity' @ [(''sha256'', JStr digest')]))"
      unfolding q(6) q'(6) by (rule chunk_fields_wf[OF u(6) wf(1) q(1,2) assms(8) wf(1)], rule chunk_fields_wf[OF u'(6) wf(2) q'(1,2) assms(8) wf(2)])
    from data[OF this, unfolded q(6) q'(6)]
    have same: "unitDependencies u = unitDependencies u' \<and> js_data (own_prop fs ''javascript'') = js_data (own_prop fs' ''javascript'') \<and> k = k' \<and> l = l'
        \<and> js_data (own_prop fs ''transform'') = js_data (own_prop fs' ''transform'')"
      by (rule chunk_fields_inj[OF _ u(6) u'(6) q(1) q'(1) q(2) q'(2)])
    moreover have "unitSymbol u = unitSymbol u'" using s same q q' by simp
    ultimately show ?thesis using u u' q q' False by (simp add: unit_code_def)
  qed
qed

lemma application_key_present:
  assumes "normal_tree (JObj application)" and "set (map fst application) \<subseteq> application_keys" and "length application = 10"
    and "k \<in> application_keys"
  shows "normal_tree (own_prop application k)"
proof -
  have "application_keys = set [''chunkUnits'', ''dependencyGraphSha256'', ''entries'', ''initialization'', ''kind'', ''nativeDescriptor'',
      ''sourceEnvelopeSha256'', ''unitCount'', ''units'', ''sha256'']" unfolding application_keys_def list.set by (rule refl)
  then have "card application_keys \<le> length [''chunkUnits'', ''dependencyGraphSha256'', ''entries'', ''initialization'', ''kind'', ''nativeDescriptor'',
      ''sourceEnvelopeSha256'', ''unitCount'', ''units'', ''sha256'']" using card_length by metis
  then have "card application_keys \<le> 10" by simp
  moreover have "card (set (map fst application)) = 10" using assms(1,3) distinct_card[of "map fst application"] by simp
  moreover have "finite application_keys" by (simp add: application_keys_def)
  ultimately have "set (map fst application) = application_keys" using assms(2) by (metis card_mono card_subset_eq le_antisym)
  then have "k \<in> fst ` set application" using assms(4) by simp
  then obtain v where "(k, v) \<in> set application" by fastforce
  then have "own_prop application k = v" "normal_tree v" using assms(1) by (auto simp: own_prop_def list_all_iff)
  then show ?thesis by simp
qed

text \<open>What one descriptor says, in terms of its identity.\<close>

lemma read_descriptor_identity:
  assumes "read_descriptor sha256 fs d = Inr c" and "normal_tree (JObj fs)"
  obtains application applicationUnits chunkIdentities rawUnits where
    "own_prop fs ''applicationIdentity'' = JObj application" "normal_tree (JObj application)" "set (map fst application) \<subseteq> application_keys"
    "own_prop fs ''identitySha256'' = JStr (descriptorIdentitySha256 c)"
    "descriptorIdentitySha256 c = sha256 (identity_text (JObj application))"
    "js_data (own_prop application ''entries'') = js_data (JArr (map descriptor_entry_json (descriptorEntries c)))"
    "list_all (\<lambda>e. canonical_tree (descriptor_entry_json e)) (descriptorEntries c)"
    "js_data (own_prop application ''initialization'') = js_data (own_prop fs ''initialization'')"
    "\<exists>i. own_prop fs ''initialization'' = JObj i \<and> safe_int (own_prop i ''namespaceSlotCount'') = Some (descriptorSlotCount c)"
    "normal_tree (own_prop fs ''initialization'')"
    "own_prop application ''units'' = JArr applicationUnits" "normal_tree (JArr applicationUnits)" "normal_tree (JArr rawUnits)"
    "length applicationUnits = length rawUnits" "length rawUnits = length (descriptorUnits c)"
    "mapiR (check_descriptor_unit sha256 (descriptorEntries c) (descriptorSlotCount c) (length (descriptorEntries c)) applicationUnits chunkIdentities d) 0
       rawUnits = Inr (descriptorUnits c)"
    "list_all (\<lambda>e. \<bar>descriptorPublicationSlot e\<bar> \<le> max_safe_integer) (descriptorEntries c)"
proof -
  obtain slots rawEntries rawUnits application chunkUnits where
    i: "own_prop fs ''identitySha256'' = JStr (descriptorIdentitySha256 c)"
      "read_initialization (own_prop fs ''initialization'') d = Inr (descriptorSlotCount c, slots)"
    and e: "mapiR (read_descriptor_entry (descriptorSlotCount c) slots d) 0 rawEntries = Inr (descriptorEntries c)"
    and a: "check_application_identity sha256 fs (descriptorEntries c) (descriptorIdentitySha256 c) (length rawUnits) d = Inr application"
    and u: "own_prop fs ''units'' = JArr rawUnits"
      "check_descriptor_units sha256 (descriptorEntries c) (descriptorSlotCount c) rawUnits application chunkUnits d = Inr (descriptorUnits c)"
    using read_descriptor_Inr[OF assms(1)] by metis
  obtain applicationUnits chunkIdentities where w: "own_prop application ''units'' = JArr applicationUnits" "length applicationUnits = length rawUnits"
    "mapiR (check_descriptor_unit sha256 (descriptorEntries c) (descriptorSlotCount c) (length (descriptorEntries c)) applicationUnits chunkIdentities d) 0
       rawUnits = Inr (descriptorUnits c)"
    using check_descriptor_units_Inr[OF u(2)] by metis
  note a = check_application_identity_Inr[OF a]
  have app: "normal_tree (JObj application)" using normal_prop[OF assms(2), of "''applicationIdentity''"] unfolding a(1) by blast
  have "k \<in> application_keys \<Longrightarrow> normal_tree (own_prop application k)" for k by (rule application_key_present[OF app a(2,3)])
  then have parts: "normal_tree (own_prop application ''entries'')" "normal_tree (own_prop application ''initialization'')"
    "normal_tree (own_prop application ''units'')" by (auto simp: application_keys_def)
  obtain ini where init: "own_prop fs ''initialization'' = JObj ini" "safe_int (own_prop ini ''namespaceSlotCount'') = Some (descriptorSlotCount c)"
    using read_initialization_Inr[OF i(2)] by blast
  have ninit: "normal_tree (own_prop fs ''initialization'')" by (rule normal_prop[OF assms(2)]) (simp add: init(1))
  have bound: "list_all (\<lambda>e. \<bar>descriptorPublicationSlot e\<bar> \<le> max_safe_integer) (descriptorEntries c)"
    using mapiR_set[OF e] read_descriptor_entry_ok(7) by (fastforce simp: list_all_iff)
  note shape = read_descriptor_shape[OF assms(1)]
  have trees: "list_all (\<lambda>e. canonical_tree (descriptor_entry_json e)) (descriptorEntries c)"
    using entry_bounds(1)[OF shape bound] descriptor_entry_json_tree by (simp add: list_all_length)
  then have "wf_js (JArr (map descriptor_entry_json (descriptorEntries c)))" using canonical_wf by (simp add: list_all_iff)
  from canonical_text_data[OF a(6) this parts(1)]
  have ed: "js_data (own_prop application ''entries'') = js_data (JArr (map descriptor_entry_json (descriptorEntries c)))" .
  have idata: "js_data (own_prop application ''initialization'') = js_data (own_prop fs ''initialization'')"
    using a(7) normal_text[OF parts(2) ninit] by blast
  have units: "normal_tree (JArr rawUnits)" using normal_prop[OF assms(2), of "''units''"] unfolding u(1) by blast
  show thesis
    by (rule that[of application applicationUnits rawUnits chunkIdentities]) (use i a app ed trees idata init ninit w parts(3) units bound mapiR_length[OF w(3)] in simp_all)
qed

lemma read_descriptors_same:
  assumes "read_descriptor sha256 fs d = Inr c" and "normal_tree (JObj fs)"
    and "read_descriptor sha256 gs d' = Inr c'" and "normal_tree (JObj gs)"
    and "own_prop fs ''identitySha256'' = own_prop gs ''identitySha256''"
    and "inj_on sha256 {identity_text (own_prop fs ''applicationIdentity''), identity_text (own_prop gs ''applicationIdentity'')}"
  shows "descriptorSlotCount c = descriptorSlotCount c' \<and> descriptorEntries c = descriptorEntries c'
    \<and> map unit_code (descriptorUnits c) = map unit_code (descriptorUnits c')"
proof (rule read_descriptor_identity[OF assms(1,2)], rule read_descriptor_identity[OF assms(3,4)])
  fix A As Cs raw B Bs Cs' raw'
  assume a: "own_prop fs ''applicationIdentity'' = JObj A" "normal_tree (JObj A)" "set (map fst A) \<subseteq> application_keys"
    "own_prop fs ''identitySha256'' = JStr (descriptorIdentitySha256 c)" "descriptorIdentitySha256 c = sha256 (identity_text (JObj A))"
    and ae: "js_data (own_prop A ''entries'') = js_data (JArr (map descriptor_entry_json (descriptorEntries c)))"
    "list_all (\<lambda>e. canonical_tree (descriptor_entry_json e)) (descriptorEntries c)"
    and ai: "js_data (own_prop A ''initialization'') = js_data (own_prop fs ''initialization'')"
    "\<exists>i. own_prop fs ''initialization'' = JObj i \<and> safe_int (own_prop i ''namespaceSlotCount'') = Some (descriptorSlotCount c)"
    "normal_tree (own_prop fs ''initialization'')"
    and au: "own_prop A ''units'' = JArr As" "normal_tree (JArr As)" "normal_tree (JArr raw)" "length As = length raw" "length raw = length (descriptorUnits c)"
    "mapiR (check_descriptor_unit sha256 (descriptorEntries c) (descriptorSlotCount c) (length (descriptorEntries c)) As Cs d) 0 raw = Inr (descriptorUnits c)"
    "list_all (\<lambda>e. \<bar>descriptorPublicationSlot e\<bar> \<le> max_safe_integer) (descriptorEntries c)"
  assume b: "own_prop gs ''applicationIdentity'' = JObj B" "normal_tree (JObj B)" "set (map fst B) \<subseteq> application_keys"
    "own_prop gs ''identitySha256'' = JStr (descriptorIdentitySha256 c')" "descriptorIdentitySha256 c' = sha256 (identity_text (JObj B))"
    and be: "js_data (own_prop B ''entries'') = js_data (JArr (map descriptor_entry_json (descriptorEntries c')))"
    "list_all (\<lambda>e. canonical_tree (descriptor_entry_json e)) (descriptorEntries c')"
    and bi: "js_data (own_prop B ''initialization'') = js_data (own_prop gs ''initialization'')"
    "\<exists>i. own_prop gs ''initialization'' = JObj i \<and> safe_int (own_prop i ''namespaceSlotCount'') = Some (descriptorSlotCount c')"
    "normal_tree (own_prop gs ''initialization'')"
    and bu: "own_prop B ''units'' = JArr Bs" "normal_tree (JArr Bs)" "normal_tree (JArr raw')" "length Bs = length raw'" "length raw' = length (descriptorUnits c')"
    "mapiR (check_descriptor_unit sha256 (descriptorEntries c') (descriptorSlotCount c') (length (descriptorEntries c')) Bs Cs' d') 0 raw' = Inr (descriptorUnits c')"
  have "identity_text (JObj A) = identity_text (JObj B)"
    using assms(5,6) a(1,4,5) b(1,4,5) by (metis inj_onD insertI1 insertI2 jsval.inject(3))
  note same = digest_same[OF a(2) b(2) a(3) b(3) this]
  have es: "descriptorEntries c = descriptorEntries c'"
    using tree_list_inj[OF _ ae(2) be(2) descriptor_entry_json_inj] same[of "''entries''"] ae(1) be(1) by simp
  obtain i j where ij: "own_prop fs ''initialization'' = JObj i" "own_prop gs ''initialization'' = JObj j"
    "safe_int (own_prop i ''namespaceSlotCount'') = Some (descriptorSlotCount c)" "safe_int (own_prop j ''namespaceSlotCount'') = Some (descriptorSlotCount c')"
    using ai(2) bi(2) by blast
  have ini: "js_data (JObj i) = js_data (JObj j)" using same[of "''initialization''"] ai(1) bi(1) ij by simp
  have present: "own_prop i ''namespaceSlotCount'' \<noteq> JUndefined" "own_prop j ''namespaceSlotCount'' \<noteq> JUndefined" using ij(3,4) by auto
  have trees: "normal_tree (JObj i)" "normal_tree (JObj j)" using ai(3) bi(3) unfolding ij(1,2) by blast+
  have "safe_int (own_prop i ''namespaceSlotCount'') = safe_int (own_prop j ''namespaceSlotCount'')"
    by (rule safe_int_data[OF normal_prop[OF trees(1) present(1)] normal_prop[OF trees(2) present(2)] data_prop[OF ini]])
  then have n: "descriptorSlotCount c = descriptorSlotCount c'" using ij(3,4) by simp
  have units: "js_data (JArr As) = js_data (JArr Bs)" using same[of "''units''"] au(1) bu(1) by simp
  then have units: "map js_data As = map js_data Bs" by simp
  then have len: "length As = length Bs" by (rule map_eq_imp_length_eq)
  note shape = read_descriptor_shape[OF assms(1)]
  have "unit_code (descriptorUnits c ! i) = unit_code (descriptorUnits c' ! i)" if i: "i < length (descriptorUnits c)" for i
  proof (rule unit_code_same)
    show "check_descriptor_unit sha256 (descriptorEntries c) (descriptorSlotCount c) (length (descriptorEntries c)) As Cs d i (raw ! i) = Inr (descriptorUnits c ! i)"
      using mapiR_nth[OF au(6), of i] i au(5) by simp
    show "check_descriptor_unit sha256 (descriptorEntries c) (descriptorSlotCount c) (length (descriptorEntries c)) Bs Cs' d' i (raw' ! i) = Inr (descriptorUnits c' ! i)"
      using mapiR_nth[OF bu(6), of i] i au(4,5) bu(4) len es n by simp
    show "normal_tree (raw ! i)" "normal_tree (raw' ! i)" "normal_tree (As ! i)" "normal_tree (Bs ! i)"
      using normal_nth au(2-5) bu(2-4) len i by simp_all
    show "js_data (As ! i) = js_data (Bs ! i)" using arg_cong[OF units, of "\<lambda>l. l ! i"] len au(4,5) i by simp
    show "\<bar>int i\<bar> \<le> max_safe_integer" by (rule entry_bounds(2)[OF shape au(7) i])
  qed (use entry_bounds(1)[OF shape au(7)] in blast)
  then have "map unit_code (descriptorUnits c) = map unit_code (descriptorUnits c')"
    using au(4,5) bu(4,5) len by (intro nth_equalityI) simp_all
  then show ?thesis using es n by blast
qed

section \<open>Authentication\<close>

lemma authenticate_Inr:
  assumes "authenticateConvexWasmModuleGraphCompilerDescriptor sha256 v d = Inr w" and "wf_js v"
  obtains fs c where "w = JObj fs" "normal_tree (JObj fs)" "read_descriptor sha256 fs d = Inr c"
proof -
  obtain raw fs c where r: "requireExactPlainObject v descriptor_keys d = Inr raw"
    "normalizeJson (JObj raw) (d @ '' authenticated descriptor'') = Inr w" "assertPlainObject w d = Inr fs" "read_descriptor sha256 fs d = Inr c"
    using assms(1) unfolding authenticateConvexWasmModuleGraphCompilerDescriptor_def bindR_Inr_iff by blast
  have w: "w = JObj fs" using r(3) by (cases w) auto
  have "v = JObj raw" using exact_Inr[OF r(1)] by blast
  then have "normal_tree w" using normalize_normal_tree[OF r(2)[unfolded normalizeJson_def]] assms(2) by blast
  then show thesis using that w r(4) by blast
qed

lemma normalized_keys:
  assumes "normalizeJson (JObj raw) d = Inr (JObj fs)"
  shows "set (map fst fs) = set (map fst raw) \<and> length fs = length raw"
proof -
  obtain es where es: "mapR (\<lambda>(key, v). bindR (normalizeJsonValue v d [PKey key]) (\<lambda>nested. Inr (key, nested))) (sort_entries raw) = Inr es"
    and fs: "fs = own_order es"
    using assms by (auto simp: normalizeJson_def bindR_Inr_iff fromEntries_def)
  have "list_all2 (\<lambda>kv e. fst e = fst kv \<and> normalizeJsonValue (snd kv) d [PKey (fst kv)] = Inr (snd e)) (sort_entries raw) es"
    using normalize_entries[of "\<lambda>key v. normalizeJsonValue v d [PKey key]", OF es] .
  then have keys: "map fst es = map fst (sort_entries raw)" by (rule list_all2_keys)
  have "length es = length (sort_entries raw)" using keys by (metis length_map)
  moreover have "length (sort_entries raw) = length raw" "length (own_order es) = length es" by (metis mset_js_sort size_mset, metis mset_own_order size_mset)
  moreover have "set (map fst fs) = set (map fst (sort_entries raw))" unfolding keys[symmetric] fs by simp
  ultimately show ?thesis using fs by simp
qed

lemma exact_accepts: "set (map fst kvs) \<subseteq> set ks \<Longrightarrow> length kvs = length ks \<Longrightarrow> requireExactPlainObject (JObj kvs) ks d = Inr kvs"
  by (auto simp: requireExactPlainObject_def assertExactKeys_def failWhen_def filter_empty_conv Let_def)

lemma authenticate_again:
  assumes "authenticateConvexWasmModuleGraphCompilerDescriptor sha256 v d = Inr w" and "wf_js v"
  shows "authenticateConvexWasmModuleGraphCompilerDescriptor sha256 w d = Inr w"
proof -
  obtain raw fs c where r: "requireExactPlainObject v descriptor_keys d = Inr raw"
    "normalizeJson (JObj raw) (d @ '' authenticated descriptor'') = Inr w" "assertPlainObject w d = Inr fs" "read_descriptor sha256 fs d = Inr c"
    using assms(1) unfolding authenticateConvexWasmModuleGraphCompilerDescriptor_def bindR_Inr_iff by blast
  have w: "w = JObj fs" using r(3) by (cases w) auto
  have raw: "v = JObj raw" "set (map fst raw) \<subseteq> set descriptor_keys" "length raw = length descriptor_keys" using exact_Inr[OF r(1)] by blast+
  have n: "normal_tree w" using normalize_normal_tree[OF r(2)[unfolded normalizeJson_def]] assms(2) raw(1) by blast
  have "set (map fst fs) \<subseteq> set descriptor_keys" "length fs = length descriptor_keys" using normalized_keys[OF r(2)[unfolded w]] raw(2,3) by simp_all
  then have "requireExactPlainObject w descriptor_keys d = Inr fs"
    unfolding w by (rule exact_accepts)
  moreover have "normalizeJson (JObj fs) (d @ '' authenticated descriptor'') = Inr w"
    unfolding normalizeJson_def using normal_tree_fixpoint[OF n] unfolding w by blast
  ultimately show ?thesis using r(3,4) by (simp add: authenticateConvexWasmModuleGraphCompilerDescriptor_def)
qed

text \<open>C36: An authenticated descriptor describes an application that fits together (chunks first, one
  publication unit for each entry, entries ordered by path and bound to distinct chunks, distinct native
  symbols, dependencies that name other chunks by slot and by path), and authenticating the owned
  snapshot again accepts it and gives the same snapshot.\<close>

theorem authenticated_descriptor_fits:
  assumes "authenticateConvexWasmModuleGraphCompilerDescriptor sha256 v d = Inr w" and "wf_js v"
  shows "authenticateConvexWasmModuleGraphCompilerDescriptor sha256 w d = Inr w
    \<and> (\<exists>fs c. w = JObj fs \<and> read_descriptor sha256 fs d = Inr c
         \<and> application_shape (descriptorSlotCount c) (descriptorEntries c) (descriptorUnits c))"
  using authenticate_again[OF assms] authenticate_Inr[OF assms] read_descriptor_shape by metis

text \<open>C35: The identity of an authenticated descriptor binds its code: two descriptors with the same
  \<open>identitySha256\<close>, whose application identities do not collide under the hash, have the same entries and
  the same units, each with the same dependencies, JavaScript, module path, transform and native symbol.\<close>

theorem descriptor_identity_binds_code:
  assumes "authenticateConvexWasmModuleGraphCompilerDescriptor sha256 v d = Inr (JObj fs)" and "wf_js v"
    and "authenticateConvexWasmModuleGraphCompilerDescriptor sha256 v' d' = Inr (JObj gs)" and "wf_js v'"
    and "own_prop fs ''identitySha256'' = own_prop gs ''identitySha256''"
    and "inj_on sha256 {identity_text (own_prop fs ''applicationIdentity''), identity_text (own_prop gs ''applicationIdentity'')}"
  shows "\<exists>c c'. read_descriptor sha256 fs d = Inr c \<and> read_descriptor sha256 gs d' = Inr c'
    \<and> descriptorSlotCount c = descriptorSlotCount c' \<and> descriptorEntries c = descriptorEntries c'
    \<and> map unit_code (descriptorUnits c) = map unit_code (descriptorUnits c')"
proof -
  obtain c where c: "normal_tree (JObj fs)" "read_descriptor sha256 fs d = Inr c" using authenticate_Inr[OF assms(1,2)] by auto
  obtain c' where c': "normal_tree (JObj gs)" "read_descriptor sha256 gs d' = Inr c'" using authenticate_Inr[OF assms(3,4)] by auto
  show ?thesis using read_descriptors_same[OF c(2,1) c'(2,1) assms(5,6)] c(2) c'(2) by blast
qed

end
