(* ===== verification/CompilerDescriptorExample.thy ===== *)
theory CompilerDescriptorExample
  imports CompilerDescriptorCorrect
begin

text \<open>
  A small descriptor that is authenticated: one chunk, one entry and its publication unit. The hash is a
  stand-in that tells the two native symbols apart.
\<close>

definition digest_a :: string where "digest_a = replicate 64 CHR ''a''"

definition digest_b :: string where "digest_b = replicate 64 CHR ''b''"

definition example_sha256 :: "string \<Rightarrow> string" where
  "example_sha256 s = (if s = stringify (locator_json (Inl ''a.js'')) then digest_b else digest_a)"

definition example_entry :: descriptor_entry where
  "example_entry = \<lparr>descriptorGraphSha256 = digest_a, descriptorEntryModulePath = ''a.js'', descriptorEntryPath = ''a.js'',
     descriptorPublicationSlot = 1, descriptorEntrySlot = 0, descriptorHandoffSlot = 0, descriptorModulePath = ''a.ts'',
     descriptorRoutes = [\<lparr>descriptorExportName = ''f'', descriptorUdfKind = ''query'', descriptorVisibility = ''public''\<rparr>]\<rparr>"

definition example_module :: chunk_module where
  "example_module = \<lparr>chunkModuleSha256 = digest_a, chunkModulePath = ''a.js'', chunkMapSha256 = digest_a, chunkMapSize = 1,
     chunkMapContentCount = 1, chunkMapSourcesCount = 1, chunkMembershipSha256 = digest_a, chunkSourceSha256 = digest_a, chunkSourceSize = 1\<rparr>"

definition example_locator :: symbol_locator where
  "example_locator = \<lparr>bindingEntryPath = ''a.js'', bindingImports = [], canonicalEntryPath = Some ''a.js'', locatorMembershipSha256 = digest_a\<rparr>"

definition example_javascript :: jsval where
  "example_javascript = JObj [(''sha256'', JStr digest_a), (''size'', JNum (NInt 1))]"

definition example_transform :: jsval where
  "example_transform = JObj
     [(''format'', JStr ''cjs''), (''kind'', JStr ''convex-wasm-esbuild-closed-chunk-transform-v2''),
      (''minifyIdentifiers'', JBool True), (''minifySyntax'', JBool True), (''minifyWhitespace'', JBool False),
      (''platform'', JStr ''browser''), (''sourcemap'', JBool False),
      (''supported'', JObj [(''async-generator'', JBool False), (''class-static-blocks'', JBool False), (''dynamic-import'', JBool False),
         (''logical-assignment'', JBool False), (''object-rest-spread'', JBool True)]),
      (''target'', JStr ''esnext''), (''treeShaking'', JBool False)]"

definition example_chunk_identity :: jsval where
  "example_chunk_identity = JObj [(''dependencies'', JArr []), (''javascript'', example_javascript),
     (''kind'', JStr convexWasmOfficialOutputChunkUnitKind), (''module'', chunk_module_json example_module),
     (''nativeSymbolLocator'', symbol_locator_json example_locator), (''sha256'', JStr digest_a), (''slot'', JNum (NInt 0)),
     (''transform'', example_transform)]"

definition example_publication_identity :: jsval where
  "example_publication_identity = JObj [(''entry'', publication_entry_json example_entry), (''javascript'', example_javascript),
     (''kind'', JStr convexWasmOfficialOutputChunkEntryPublicationUnitKind), (''sha256'', JStr digest_a), (''slot'', JNum (NInt 1))]"

definition example_initialization :: jsval where
  "example_initialization = JObj [(''chunkSlotCount'', JNum (NInt 1)), (''entryPublicationUnitSlots'', JArr [JNum (NInt 1)]),
     (''kind'', JStr ''closed-numbered-chunk-slots-with-per-entry-publication-v1''), (''namespaceSlotCount'', JNum (NInt 1))]"

definition example_native :: jsval where
  "example_native = JObj [(''destruction'', JStr ''destroy-store-on-any-initialization-failure''),
     (''initialization'', JStr ''recursive-closed-literal-require-with-provisional-cjs-namespaces''),
     (''kind'', JStr ''convex-wasm-official-output-chunk-native-descriptor-abi-v3''),
     (''publication'', JStr ''authenticated-selected-entry-wrapper-validation-after-selected-closure-initialization''),
     (''slots'', JStr ''closed-numbered-namespace-slots-with-per-entry-publication-units'')]"

definition example_chunk_units :: "(string \<times> jsval) list" where
  "example_chunk_units = [(''entries'', JArr [chunk_entry_json example_entry]), (''esbuild'', JObj [(''version'', JStr ''1'')]),
     (''initialization'', JObj [(''dynamicImport'', JStr ''literal-require-after-promise-microtask''),
        (''kind'', JStr ''closed-numbered-namespace-slots-v1''),
        (''publication'', JStr ''selected-entry-namespaces-after-selected-closure-initialization'')]),
     (''kind'', JStr convexWasmOfficialOutputChunkUnitsKind), (''sha256'', JStr digest_a), (''sourceEnvelopeSha256'', JStr digest_a),
     (''units'', JArr [example_chunk_identity])]"

definition example_application :: "(string \<times> jsval) list" where
  "example_application = [(''chunkUnits'', JObj [(''kind'', JStr convexWasmOfficialOutputChunkUnitsKind), (''sha256'', JStr digest_a)]),
     (''dependencyGraphSha256'', JStr digest_a), (''entries'', JArr [descriptor_entry_json example_entry]),
     (''initialization'', example_initialization), (''kind'', JStr convexWasmOfficialOutputChunkApplicationUnitKind),
     (''nativeDescriptor'', example_native), (''sha256'', JStr digest_a), (''sourceEnvelopeSha256'', JStr digest_a),
     (''unitCount'', JNum (NInt 2)), (''units'', JArr [example_chunk_identity, example_publication_identity])]"

definition example_unit :: "nat \<Rightarrow> (string \<times> jsval) list" where
  "example_unit i = (let publication = (i = 1); symbol = if publication then digest_b else digest_a in
     [(''applicationUnitSlot'', JNum (NInt (int i))), (''chunkSlot'', JNum (NInt (if publication then -1 else 0))), (''dependencies'', JArr []),
      (''entryPublication'', JBool publication), (''entrySymbol'', JStr (''sh_export_convex_wasm_official_chunk_'' @ symbol)),
      (''exportedUnitName'', JStr (''convex_wasm_official_chunk_'' @ symbol)), (''identitySha256'', JStr digest_a),
      (''javascript'', example_javascript),
      (''kind'', JStr (if publication then convexWasmOfficialOutputChunkEntryPublicationUnitKind else convexWasmOfficialOutputChunkUnitKind)),
      (''module'', if publication then JNull else chunk_module_json example_module),
      (''nativeSymbolIdentitySha256'', JStr symbol),
      (''nativeSymbolLocator'', if publication then JNull else symbol_locator_json example_locator),
      (''publicationHandoffSlot'', JNum (NInt (if publication then 0 else -1))), (''reusableCodeIdentitySha256'', JStr digest_a),
      (''transform'', if publication then JNull else example_transform)])"

definition example_descriptor :: "(string \<times> jsval) list" where
  "example_descriptor = [(''applicationIdentity'', JObj example_application), (''chunkUnitsIdentity'', JObj example_chunk_units),
     (''entries'', JArr [descriptor_entry_json example_entry]), (''identitySha256'', JStr digest_a), (''initialization'', example_initialization),
     (''kind'', JStr convexWasmModuleGraphCompilerDescriptorKind),
     (''nativeApplicationDescriptorKind'', JStr convexWasmOfficialOutputChunkNativeApplicationDescriptorKind), (''nativeDescriptor'', example_native),
     (''schemaVersion'', JNum (NInt 2)), (''units'', JArr [JObj (example_unit 0), JObj (example_unit 1)])]"


section \<open>Canonical trees\<close>

lemma example_keys_not_index [simp]:
  "\<not> is_index_key ''chunkSlotCount''" "\<not> is_index_key ''entryPublicationUnitSlots''" "\<not> is_index_key ''namespaceSlotCount''"
  "\<not> is_index_key ''destruction''" "\<not> is_index_key ''publication''" "\<not> is_index_key ''slots''" "\<not> is_index_key ''esbuild''"
  "\<not> is_index_key ''version''" "\<not> is_index_key ''dynamicImport''" "\<not> is_index_key ''applicationUnitSlot''" "\<not> is_index_key ''chunkSlot''"
  "\<not> is_index_key ''entryPublication''" "\<not> is_index_key ''entrySymbol''" "\<not> is_index_key ''exportedUnitName''" "\<not> is_index_key ''identitySha256''"
  "\<not> is_index_key ''nativeSymbolIdentitySha256''" "\<not> is_index_key ''publicationHandoffSlot''" "\<not> is_index_key ''reusableCodeIdentitySha256''"
  "\<not> is_index_key ''applicationIdentity''" "\<not> is_index_key ''chunkUnitsIdentity''" "\<not> is_index_key ''nativeApplicationDescriptorKind''"
  "\<not> is_index_key ''schemaVersion''" "\<not> is_index_key ''format''" "\<not> is_index_key ''minifyIdentifiers''" "\<not> is_index_key ''minifySyntax''"
  "\<not> is_index_key ''minifyWhitespace''" "\<not> is_index_key ''platform''" "\<not> is_index_key ''sourcemap''" "\<not> is_index_key ''supported''"
  "\<not> is_index_key ''target''" "\<not> is_index_key ''treeShaking''" "\<not> is_index_key ''async-generator''" "\<not> is_index_key ''class-static-blocks''"
  "\<not> is_index_key ''dynamic-import''" "\<not> is_index_key ''logical-assignment''" "\<not> is_index_key ''object-rest-spread''"
  by (simp_all add: is_index_key_def is_digit_def)

lemma example_hex: "SHA256_PATTERN digest_a" "SHA256_PATTERN digest_b" "digest_a \<noteq> digest_b"
  by code_simp+

lemma example_locator_ok: "locator_ok example_locator"
  using example_hex by (simp add: locator_ok_def example_locator_def)

lemma example_javascript_tree: "canonical_tree example_javascript"
  unfolding example_javascript_def by (rule canonical_tree_object) (simp_all add: max_safe_integer_def)

lemma example_module_tree: "canonical_tree (chunk_module_json example_module)"
proof -
  have "canonical_tree (source_map_json example_module)" unfolding source_map_json_def
    by (rule canonical_tree_object) (simp_all add: example_module_def max_safe_integer_def)
  then show ?thesis unfolding chunk_module_json_def
    by (intro canonical_tree_object) (simp_all add: example_module_def max_safe_integer_def)
qed

lemma descriptor_route_tree: "canonical_tree (descriptor_route_json r)"
  unfolding descriptor_route_json_def by (rule canonical_tree_object) simp_all

lemma example_entry_tree:
  "canonical_tree (descriptor_entry_json example_entry)" "canonical_tree (chunk_entry_json example_entry)"
  "canonical_tree (publication_entry_json example_entry)" "canonical_tree (graph_entry_json example_entry)"
  unfolding descriptor_entry_json_def chunk_entry_json_def publication_entry_json_def graph_entry_json_def
  by (rule canonical_tree_object; simp add: example_entry_def max_safe_integer_def descriptor_route_tree)+

lemma example_transform_tree: "canonical_tree example_transform"
proof -
  have "canonical_tree (JObj [(''async-generator'', JBool False), (''class-static-blocks'', JBool False), (''dynamic-import'', JBool False),
         (''logical-assignment'', JBool False), (''object-rest-spread'', JBool True)])" by (rule canonical_tree_object) simp_all
  then show ?thesis unfolding example_transform_def by (intro canonical_tree_object) simp_all
qed

lemma example_identity_trees: "canonical_tree example_chunk_identity" "canonical_tree example_publication_identity"
  unfolding example_chunk_identity_def example_publication_identity_def
  by (rule canonical_tree_object; use example_javascript_tree example_module_tree symbol_locator_json_tree[OF example_locator_ok]
      example_transform_tree example_entry_tree in \<open>simp add: max_safe_integer_def\<close>)+

lemma example_part_trees: "canonical_tree example_initialization" "canonical_tree example_native"
  unfolding example_initialization_def example_native_def
  by (rule canonical_tree_object; simp add: max_safe_integer_def)+

section \<open>Texts and digests\<close>

lemma canonical_sorted:
  assumes "distinct (map fst kvs)" and "list_all (\<lambda>k. \<not> is_index_key k) (map fst kvs)" and "list_all (\<lambda>(k, v). canonical_tree v) kvs"
  shows "canonicalJson (JObj kvs) = Inr (stringify (JObj (sort_entries kvs)))"
proof -
  have n: "list_all (\<lambda>k. \<not> is_index_key k) (map fst (sort_entries kvs))" "list_all (\<lambda>(k, v). normal_tree v) (sort_entries kvs)"
    using assms(2,3) canonical_normal by (auto simp: list_all_iff)
  then have "normal_tree (JObj (sort_entries kvs))" using assms(1) by (simp add: sort_entries_idem own_order_names)
  moreover have "normalizeJsonValue (JObj kvs) d p = normalizeJsonValue (JObj (sort_entries kvs)) d p" for d p by (simp add: sort_entries_idem)
  ultimately have "normalizeJson (JObj kvs) d = Inr (JObj (sort_entries kvs))" for d
    using normal_tree_fixpoint unfolding normalizeJson_def by metis
  moreover have "wf_js (JObj kvs)" using assms canonical_wf by (intro wf_object) (auto simp: list_all_iff)
  ultimately show ?thesis by (simp add: canonicalJson_normal del: wf_js.simps)
qed

lemma example_digest: "canonical_tree v \<Longrightarrow> v \<noteq> locator_json (Inl ''a.js'') \<Longrightarrow> example_sha256 (stringify v) = digest_a"
proof -
  assume "canonical_tree v" "v \<noteq> locator_json (Inl ''a.js'')"
  then have "stringify v \<noteq> stringify (locator_json (Inl ''a.js''))"
    using stringify_inj[of v "locator_json (Inl ''a.js'')"] locator_json_tree(1)[of "Inl ''a.js''"] by auto
  then show ?thesis by (simp add: example_sha256_def)
qed

lemma example_fingerprint: "canonical_tree v \<Longrightarrow> v \<noteq> locator_json (Inl ''a.js'') \<Longrightarrow> fingerprintJson example_sha256 v = Inr digest_a"
  by (simp add: fingerprintJson_def canonical_tree_text example_digest)

lemma locator_json_keys: "locator_json x = JObj kvs \<Longrightarrow> own_prop kvs ''domain'' = JStr convexWasmOfficialOutputNativeSymbolLocatorDomain"
  by (auto simp: locator_json_def symbol_identity_json_def)

lemma example_fields_digest:
  "canonical_tree (JObj kvs) \<Longrightarrow> own_prop kvs ''domain'' \<noteq> JStr convexWasmOfficialOutputNativeSymbolLocatorDomain \<Longrightarrow>
     fingerprintJson example_sha256 (JObj kvs) = Inr digest_a \<and> example_sha256 (stringify (JObj kvs)) = digest_a"
  using example_fingerprint[of "JObj kvs"] example_digest[of "JObj kvs"] locator_json_keys by metis

lemma example_transform_text: "canonicalJson convexWasmOfficialOutputChunkTransform = Inr (stringify example_transform)"
  by (simp add: canonicalJson_def normalizeJson_def convexWasmOfficialOutputChunkTransform_def example_transform_def fromEntries_def
      own_order_names compareBy_def compareStrings_def)

lemma example_manifest:
  "requireManifestString (JStr ''a.js'') d 4096 False = Inr ''a.js''" "requireManifestString (JStr ''a.ts'') d 4096 False = Inr ''a.ts''"
  "requireManifestString (JStr ''f'') d 256 False = Inr ''f''" "requireManifestString (JStr ''1'') d 256 False = Inr ''1''"
  "requireManifestString (JStr (''sh_export_convex_wasm_official_chunk_'' @ digest_a)) d 256 False = Inr (''sh_export_convex_wasm_official_chunk_'' @ digest_a)"
  "requireManifestString (JStr (''convex_wasm_official_chunk_'' @ digest_a)) d 256 False = Inr (''convex_wasm_official_chunk_'' @ digest_a)"
  "requireManifestString (JStr (''sh_export_convex_wasm_official_chunk_'' @ digest_b)) d 256 False = Inr (''sh_export_convex_wasm_official_chunk_'' @ digest_b)"
  "requireManifestString (JStr (''convex_wasm_official_chunk_'' @ digest_b)) d 256 False = Inr (''convex_wasm_official_chunk_'' @ digest_b)"
proof -
  define ok where "ok m s \<longleftrightarrow> s \<noteq> [] \<and> CHR 0x00 \<notin> set s \<and> utf8_length s \<le> m \<and> \<not> list_ex control_character s \<and> \<not> list_ex whitespace_character s" for m s
  have r: "ok m s \<Longrightarrow> requireManifestString (JStr s) d m False = Inr s" for m s
    by (auto simp: requireManifestString_def bindR_Inr_iff requireString_Inr ok_def failWhen_def)
  have "ok 4096 ''a.js''" "ok 4096 ''a.ts''" "ok 256 ''f''" "ok 256 ''1''" unfolding ok_def by code_simp+
  moreover have "ok 256 (''sh_export_convex_wasm_official_chunk_'' @ digest_a)" "ok 256 (''convex_wasm_official_chunk_'' @ digest_a)"
    "ok 256 (''sh_export_convex_wasm_official_chunk_'' @ digest_b)" "ok 256 (''convex_wasm_official_chunk_'' @ digest_b)"
    unfolding ok_def by code_simp+
  ultimately show "requireManifestString (JStr ''a.js'') d 4096 False = Inr ''a.js''" "requireManifestString (JStr ''a.ts'') d 4096 False = Inr ''a.ts''"
  "requireManifestString (JStr ''f'') d 256 False = Inr ''f''" "requireManifestString (JStr ''1'') d 256 False = Inr ''1''"
  "requireManifestString (JStr (''sh_export_convex_wasm_official_chunk_'' @ digest_a)) d 256 False = Inr (''sh_export_convex_wasm_official_chunk_'' @ digest_a)"
  "requireManifestString (JStr (''convex_wasm_official_chunk_'' @ digest_a)) d 256 False = Inr (''convex_wasm_official_chunk_'' @ digest_a)"
  "requireManifestString (JStr (''sh_export_convex_wasm_official_chunk_'' @ digest_b)) d 256 False = Inr (''sh_export_convex_wasm_official_chunk_'' @ digest_b)"
  "requireManifestString (JStr (''convex_wasm_official_chunk_'' @ digest_b)) d 256 False = Inr (''convex_wasm_official_chunk_'' @ digest_b)"
    using r by blast+
qed

section \<open>The units are accepted\<close>

lemma example_sha256_read: "requireSha256 (JStr digest_a) d = Inr digest_a" "requireSha256 (JStr digest_b) d = Inr digest_b"
  using example_hex by (simp_all add: requireSha256_Inr)

lemma example_symbols:
  "convexWasmOfficialOutputNativeSymbolIdentitySha256 example_sha256 (JStr ''a.js'') (JBool True) JNull = Inr digest_b"
  "convexWasmOfficialOutputNativeSymbolIdentitySha256 example_sha256 JUndefined (JBool False) (symbol_locator_json example_locator) = Inr digest_a"
proof -
  have "symbol_canonicalJson (locator_json x) = Inr (stringify (locator_json x))" if "case x of Inl s \<Rightarrow> True | Inr l \<Rightarrow> locator_ok l" for x
    using symbol_canonicalJson_stringify[OF locator_json_tree(2)[OF that]] by auto
  from this[of "Inl ''a.js''"] this[of "Inr example_locator"] example_locator_ok
  have c: "symbol_canonicalJson (locator_json (Inl ''a.js'')) = Inr (stringify (locator_json (Inl ''a.js'')))"
    "symbol_canonicalJson (locator_json (Inr example_locator)) = Inr (stringify (locator_json (Inr example_locator)))" by simp_all
  then show "convexWasmOfficialOutputNativeSymbolIdentitySha256 example_sha256 (JStr ''a.js'') (JBool True) JNull = Inr digest_b"
    by (simp add: convexWasmOfficialOutputNativeSymbolIdentitySha256_def symbol_string_def locator_json_def example_sha256_def)
  have "example_sha256 (stringify (locator_json (Inr example_locator))) = digest_a"
    using example_locator_ok locator_json_inj[of "Inr example_locator" "Inl ''a.js''"] by (intro example_digest locator_json_tree(1)) auto
  then show "convexWasmOfficialOutputNativeSymbolIdentitySha256 example_sha256 JUndefined (JBool False) (symbol_locator_json example_locator) = Inr digest_a"
    using c(2) locator_retry(2)[OF example_locator_ok]
    by (simp add: convexWasmOfficialOutputNativeSymbolIdentitySha256_def locator_json_def)
qed

lemma no_dependencies: "normalizeConvexWasmOfficialOutputChunkDependencies (JArr []) n d = Inr []"
  by (simp add: normalizeConvexWasmOfficialOutputChunkDependencies_def occurrences_are_indexes_def
      validateConvexWasmImportInitializationDependencies_def initializations_of_def)

lemma example_module_read:
  "normalizeConvexWasmOfficialOutputChunkModuleIdentity (chunk_module_json example_module) d = Inr example_module"
proof -
  have "normalized_module_path ''a.js''" by code_simp
  then show ?thesis
    by (simp add: normalizeConvexWasmOfficialOutputChunkModuleIdentity_def chunk_module_json_def source_map_json_def assertExactKeys_def
        example_module_def example_manifest example_sha256_read max_safe_integer_def)
qed

lemma example_chunk_parts:
  "read_chunk_parts [example_entry] 0 [] (example_unit 0) label = Inr (Some ''a.js'', JUndefined, symbol_locator_json example_locator,
     chunk_unit_fields [] example_javascript example_module example_locator 0 example_transform)"
proof -
  have u: "own_prop (example_unit 0) ''module'' = chunk_module_json example_module" "own_prop (example_unit 0) ''transform'' = example_transform"
    "own_prop (example_unit 0) ''nativeSymbolLocator'' = symbol_locator_json example_locator"
    "own_prop (example_unit 0) ''javascript'' = example_javascript"
    by (simp_all add: example_unit_def Let_def)
  show ?thesis unfolding read_chunk_parts_def u example_transform_text example_module_read locator_retry(1)[OF example_locator_ok] bindR.simps
    by (simp add: entry_path_by_slot_def example_entry_def example_locator_def example_module_def)
qed

lemma example_publication_parts:
  "read_publication_parts [example_entry] 1 1 (example_unit 1) label = Inr (None, JStr ''a.js'', JNull,
     publication_unit_fields example_entry example_javascript 1)"
proof -
  have u: "own_prop (example_unit 1) ''module'' = JNull" "own_prop (example_unit 1) ''transform'' = JNull"
    "own_prop (example_unit 1) ''nativeSymbolLocator'' = JNull" "own_prop (example_unit 1) ''javascript'' = example_javascript"
    by (simp_all add: example_unit_def Let_def)
  show ?thesis unfolding read_publication_parts_def u by (simp add: example_entry_def)
qed

lemma example_unit_identities:
  "check_unit_identity example_sha256 (chunk_unit_fields [] example_javascript example_module example_locator 0 example_transform)
     example_chunk_identity (Some example_chunk_identity) (JStr digest_a) label d = Inr ()"
  "check_unit_identity example_sha256 (publication_unit_fields example_entry example_javascript 1)
     example_publication_identity None (JStr digest_a) label d = Inr ()"
proof -
  note trees = example_javascript_tree example_module_tree symbol_locator_json_tree[OF example_locator_ok] example_transform_tree example_entry_tree
  let ?c = "chunk_unit_fields [] example_javascript example_module example_locator 0 example_transform"
  let ?p = "publication_unit_fields example_entry example_javascript 1"
  have "canonical_tree (JObj ?c)" "canonical_tree (JObj ?p)" unfolding chunk_unit_fields_def publication_unit_fields_def
    by (rule canonical_tree_object; simp add: trees max_safe_integer_def)+
  then have f: "fingerprintJson example_sha256 (JObj ?c) = Inr digest_a" "fingerprintJson example_sha256 (JObj ?p) = Inr digest_a"
    using example_fields_digest by (simp_all add: chunk_unit_fields_def publication_unit_fields_def del: canonical_tree.simps)
  have "canonicalJson (JObj (?c @ [(''sha256'', JStr digest_a)])) = Inr (stringify (JObj (sort_entries (?c @ [(''sha256'', JStr digest_a)]))))"
    "canonicalJson (JObj (?p @ [(''sha256'', JStr digest_a)])) = Inr (stringify (JObj (sort_entries (?p @ [(''sha256'', JStr digest_a)]))))"
    unfolding chunk_unit_fields_def publication_unit_fields_def
    by (rule canonical_sorted; simp add: trees max_safe_integer_def)+
  moreover have "JObj (sort_entries (?c @ [(''sha256'', JStr digest_a)])) = example_chunk_identity"
    "JObj (sort_entries (?p @ [(''sha256'', JStr digest_a)])) = example_publication_identity"
    by (simp_all add: chunk_unit_fields_def publication_unit_fields_def example_chunk_identity_def example_publication_identity_def
        compareBy_def compareStrings_def)
  ultimately have t: "canonicalJson (JObj (?c @ [(''sha256'', JStr digest_a)])) = Inr (stringify example_chunk_identity)"
    "canonicalJson (JObj (?p @ [(''sha256'', JStr digest_a)])) = Inr (stringify example_publication_identity)" by metis+
  show "check_unit_identity example_sha256 ?c example_chunk_identity (Some example_chunk_identity) (JStr digest_a) label d = Inr ()"
    "check_unit_identity example_sha256 ?p example_publication_identity None (JStr digest_a) label d = Inr ()"
    unfolding check_unit_identity_def f t bindR.simps example_sha256_read by simp_all
qed

definition example_unit_read :: "nat \<Rightarrow> descriptor_unit" where
  "example_unit_read i = (let publication = (i = 1) in
     \<lparr>unitSlot = int i, unitDependencies = [], unitPublication = publication, unitJavascript = example_javascript,
       unitKind = (if publication then convexWasmOfficialOutputChunkEntryPublicationUnitKind else convexWasmOfficialOutputChunkUnitKind),
       unitModulePath = (if publication then None else Some ''a.js''),
       unitLocator = (if publication then JNull else symbol_locator_json example_locator),
       unitSymbol = (if publication then digest_b else digest_a), unitTransform = (if publication then JNull else example_transform),
       unitHandoffSlot = (if publication then 0 else -1), unitReusableIdentity = JStr digest_a\<rparr>)"

lemma example_names:
  "failWhen (\<not> symbol_names_ok (''sh_export_convex_wasm_official_chunk_'' @ digest_a) (''convex_wasm_official_chunk_'' @ digest_a) digest_a) m = Inr ()"
  "failWhen (\<not> symbol_names_ok (''sh_export_convex_wasm_official_chunk_'' @ digest_b) (''convex_wasm_official_chunk_'' @ digest_b) digest_b) m = Inr ()"
  by (rule failWhen_passes, code_simp)+

lemma example_topology:
  "failWhen (\<not> unit_topology_ok 1 1 0 False [] (example_unit 0)) m = Inr ()" "failWhen (\<not> unit_topology_ok 1 1 1 True [] (example_unit 1)) m = Inr ()"
  by (simp_all add: unit_topology_ok_def example_unit_def Let_def max_safe_integer_def)

lemma failWhen_same: "failWhen (x \<noteq> x) m = Inr ()"
  by simp

lemma example_unit_shape:
  "requireExactPlainObject (JObj (example_unit i)) unit_keys label = Inr (example_unit i)"
  by (rule exact_accepts) (simp_all add: example_unit_def unit_keys_def Let_def)

lemma example_javascript_shape: "requireExactPlainObject example_javascript [''sha256'', ''size''] label = Inr [(''sha256'', JStr digest_a), (''size'', JNum (NInt 1))]"
  unfolding example_javascript_def by (rule exact_accepts) simp_all

lemma example_chunk_unit:
  "check_descriptor_unit example_sha256 [example_entry] 1 1 [example_chunk_identity, example_publication_identity] [example_chunk_identity] d 0
     (JObj (example_unit 0)) = Inr (example_unit_read 0)"
proof -
  have u: "own_prop (example_unit 0) ''entryPublication'' = JBool False" "own_prop (example_unit 0) ''dependencies'' = JArr []"
    "own_prop (example_unit 0) ''javascript'' = example_javascript" "own_prop (example_unit 0) ''nativeSymbolIdentitySha256'' = JStr digest_a"
    "own_prop (example_unit 0) ''entrySymbol'' = JStr (''sh_export_convex_wasm_official_chunk_'' @ digest_a)"
    "own_prop (example_unit 0) ''exportedUnitName'' = JStr (''convex_wasm_official_chunk_'' @ digest_a)"
    "own_prop (example_unit 0) ''identitySha256'' = JStr digest_a" "own_prop (example_unit 0) ''transform'' = example_transform"
    "own_prop (example_unit 0) ''nativeSymbolLocator'' = symbol_locator_json example_locator"
    "own_prop (example_unit 0) ''reusableCodeIdentitySha256'' = JStr digest_a"
    by (simp_all add: example_unit_def Let_def)
  have j: "own_prop [(''sha256'', JStr digest_a), (''size'', JNum (NInt 1))] ''sha256'' = JStr digest_a"
    "requirePositiveInteger (own_prop [(''sha256'', JStr digest_a), (''size'', JNum (NInt 1))] ''size'') label = Inr 1" for label
    by (simp_all add: max_safe_integer_def)
  have n: "[example_chunk_identity, example_publication_identity] ! 0 = example_chunk_identity" "[example_chunk_identity] ! 0 = example_chunk_identity"
    by simp_all
  show ?thesis
    unfolding check_descriptor_unit_def Let_def example_unit_shape bindR.simps u requireBoolean.simps no_dependencies if_False prod.case
      example_javascript_shape j example_sha256_read example_manifest example_chunk_parts example_symbols n example_unit_identities
      example_topology example_names failWhen_same
    by (simp add: example_unit_read_def)
qed

lemma example_publication_unit:
  "check_descriptor_unit example_sha256 [example_entry] 1 1 [example_chunk_identity, example_publication_identity] [example_chunk_identity] d 1
     (JObj (example_unit 1)) = Inr (example_unit_read 1)"
proof -
  have u: "own_prop (example_unit 1) ''entryPublication'' = JBool True" "own_prop (example_unit 1) ''dependencies'' = JArr []"
    "own_prop (example_unit 1) ''javascript'' = example_javascript" "own_prop (example_unit 1) ''nativeSymbolIdentitySha256'' = JStr digest_b"
    "own_prop (example_unit 1) ''entrySymbol'' = JStr (''sh_export_convex_wasm_official_chunk_'' @ digest_b)"
    "own_prop (example_unit 1) ''exportedUnitName'' = JStr (''convex_wasm_official_chunk_'' @ digest_b)"
    "own_prop (example_unit 1) ''identitySha256'' = JStr digest_a" "own_prop (example_unit 1) ''transform'' = JNull"
    "own_prop (example_unit 1) ''nativeSymbolLocator'' = JNull" "own_prop (example_unit 1) ''reusableCodeIdentitySha256'' = JStr digest_a"
    by (simp_all add: example_unit_def Let_def)
  have j: "own_prop [(''sha256'', JStr digest_a), (''size'', JNum (NInt 1))] ''sha256'' = JStr digest_a"
    "requirePositiveInteger (own_prop [(''sha256'', JStr digest_a), (''size'', JNum (NInt 1))] ''size'') label = Inr 1" for label
    by (simp_all add: max_safe_integer_def)
  have n: "[example_chunk_identity, example_publication_identity] ! 1 = example_publication_identity" by simp
  show ?thesis
    unfolding check_descriptor_unit_def Let_def example_unit_shape bindR.simps u requireBoolean.simps no_dependencies if_True prod.case
      example_javascript_shape j example_sha256_read example_manifest example_publication_parts example_symbols n example_unit_identities
      example_topology example_names failWhen_same
    by (simp add: example_unit_read_def)
qed

section \<open>The identities are accepted\<close>

lemma example_trees:
  "canonical_tree (JObj example_application)" "canonical_tree (JObj example_chunk_units)"
  "canonical_tree (JObj example_descriptor)"
proof -
  note trees = example_entry_tree example_part_trees example_identity_trees example_javascript_tree example_module_tree
    symbol_locator_json_tree[OF example_locator_ok] example_transform_tree
  have small: "canonical_tree (JObj [(''kind'', JStr convexWasmOfficialOutputChunkUnitsKind), (''sha256'', JStr digest_a)])"
    "canonical_tree (JObj [(''version'', JStr ''1'')])"
    "canonical_tree (JObj [(''dynamicImport'', JStr ''literal-require-after-promise-microtask''),
        (''kind'', JStr ''closed-numbered-namespace-slots-v1''),
        (''publication'', JStr ''selected-entry-namespaces-after-selected-closure-initialization'')])"
    by (rule canonical_tree_object; simp)+
  show a: "canonical_tree (JObj example_application)" unfolding example_application_def
    by (rule canonical_tree_object) (simp_all add: trees small max_safe_integer_def del: canonical_tree.simps(6))
  show c: "canonical_tree (JObj example_chunk_units)" unfolding example_chunk_units_def
    by (rule canonical_tree_object) (simp_all add: trees small max_safe_integer_def del: canonical_tree.simps(6))
  have u: "canonical_tree (JObj (example_unit 0))" "canonical_tree (JObj (example_unit 1))" unfolding example_unit_def Let_def
    by (rule canonical_tree_object; simp add: trees max_safe_integer_def del: canonical_tree.simps(6))+
  show "canonical_tree (JObj example_descriptor)" unfolding example_descriptor_def
    by (rule canonical_tree_object) (simp_all add: trees a c u[unfolded One_nat_def] max_safe_integer_def del: canonical_tree.simps(6))
qed

lemma digest_payload:
  assumes "canonical_tree (JObj kvs)" and "list_all (\<lambda>k. \<not> is_index_key k) (map fst kvs)" and "own_prop kvs ''domain'' = JUndefined"
    and "own_prop kvs ''sha256'' = JStr digest_a" and "set (map fst kvs) \<subseteq> set (keys @ [''sha256''])" and "length kvs = length (keys @ [''sha256''])"
  shows "check_identity_digest example_sha256 (JObj kvs) keys label = Inr (kvs, digest_a)"
proof -
  let ?f = "filter (\<lambda>kv. fst kv \<noteq> ''sha256'') kvs"
  have "sorted (map fst kvs)" by (rule normal_sorted[OF canonical_normal[OF assms(1)] assms(2)])
  then have "sorted (map fst ?f)" by (simp add: sorted_map sorted_wrt_filter)
  then have "canonical_tree (JObj ?f)"
    by (rule canonical_tree_object) (use assms(1,2) in \<open>auto simp: distinct_map_filter list_all_iff\<close>)
  moreover have "own_prop ?f ''domain'' = JUndefined" using own_prop_filter[where P="\<lambda>k. k \<noteq> ''sha256''"] assms(3) by simp
  ultimately have d: "example_sha256 (stringify (JObj ?f)) = digest_a"
    using example_fields_digest[of ?f, THEN conjunct2] by (simp del: canonical_tree.simps stringify.simps)
  show ?thesis unfolding check_identity_digest_def exact_accepts[OF assms(5,6)] bindR.simps assms(4) example_sha256_read d failWhen_same by simp
qed

lemma example_application_digest:
  "check_identity_digest example_sha256 (JObj example_application)
     [''chunkUnits'', ''dependencyGraphSha256'', ''entries'', ''initialization'', ''kind'', ''nativeDescriptor'', ''sourceEnvelopeSha256'',
      ''unitCount'', ''units''] label = Inr (example_application, digest_a)"
  by (rule digest_payload[OF example_trees(1)]) (simp_all add: example_application_def)

lemma example_chunk_units_digest:
  "check_identity_digest example_sha256 (JObj example_chunk_units)
     [''entries'', ''esbuild'', ''initialization'', ''kind'', ''sourceEnvelopeSha256'', ''units''] label = Inr (example_chunk_units, digest_a)"
  by (rule digest_payload[OF example_trees(2)]) (simp_all add: example_chunk_units_def)

lemma example_application_accepted:
  "check_application_identity example_sha256 example_descriptor [example_entry] digest_a 2 d = Inr example_application"
proof -
  have graph: "fingerprintJson example_sha256 (dependency_graph_json [example_entry]) = Inr digest_a"
  proof (unfold dependency_graph_json_def, rule example_fields_digest[THEN conjunct1])
    show "canonical_tree (JObj [(''domain'', JStr ''convex-wasm-official-output-cohort-dependency-graph-v1''),
        (''entries'', JArr (map graph_entry_json [example_entry]))])"
      by (rule canonical_tree_object) (simp_all add: example_entry_tree)
  qed (simp add: convexWasmOfficialOutputNativeSymbolLocatorDomain_def)
  have "canonical_tree (JArr (map descriptor_entry_json [example_entry]))" using example_entry_tree by simp
  from canonical_tree_text[OF this]
  have entries: "canonicalJson (JArr (map descriptor_entry_json [example_entry])) = Inr (stringify (JArr [descriptor_entry_json example_entry]))" by simp
  have f: "own_prop example_descriptor ''applicationIdentity'' = JObj example_application"
    "own_prop example_descriptor ''initialization'' = example_initialization" "own_prop example_descriptor ''nativeDescriptor'' = example_native"
    "own_prop example_application ''dependencyGraphSha256'' = JStr digest_a" "own_prop example_application ''sourceEnvelopeSha256'' = JStr digest_a"
    "own_prop example_application ''kind'' = JStr convexWasmOfficialOutputChunkApplicationUnitKind"
    "own_prop example_application ''unitCount'' = JNum (NInt 2)" "own_prop example_application ''entries'' = JArr [descriptor_entry_json example_entry]"
    "own_prop example_application ''initialization'' = example_initialization" "own_prop example_application ''nativeDescriptor'' = example_native"
    by (simp_all add: example_descriptor_def example_application_def)
  show ?thesis unfolding check_application_identity_def f example_application_digest bindR.simps prod.case example_sha256_read graph entries
      number_equals_int by (simp del: stringify.simps)
qed

lemma example_chunk_units_accepted:
  "check_chunk_units_identity example_sha256 example_descriptor [example_entry] example_application d = Inr example_chunk_units"
proof -
  have "canonical_tree (JArr (map chunk_entry_json [example_entry]))" using example_entry_tree by simp
  from canonical_tree_text[OF this]
  have entries: "canonicalJson (JArr (map chunk_entry_json [example_entry])) = Inr (stringify (JArr [chunk_entry_json example_entry]))" by simp
  have "canonical_tree (JObj [(''kind'', JStr convexWasmOfficialOutputChunkUnitsKind), (''sha256'', JStr digest_a)])"
    by (rule canonical_tree_object) simp_all
  note reference = canonical_tree_text[OF this]
  have f: "own_prop example_descriptor ''chunkUnitsIdentity'' = JObj example_chunk_units"
    "own_prop example_chunk_units ''esbuild'' = JObj [(''version'', JStr ''1'')]"
    "own_prop example_chunk_units ''initialization'' = JObj [(''dynamicImport'', JStr ''literal-require-after-promise-microtask''),
        (''kind'', JStr ''closed-numbered-namespace-slots-v1''),
        (''publication'', JStr ''selected-entry-namespaces-after-selected-closure-initialization'')]"
    "own_prop example_chunk_units ''sourceEnvelopeSha256'' = JStr digest_a" "own_prop example_chunk_units ''kind'' = JStr convexWasmOfficialOutputChunkUnitsKind"
    "own_prop example_chunk_units ''entries'' = JArr [chunk_entry_json example_entry]"
    "own_prop example_application ''chunkUnits'' = JObj [(''kind'', JStr convexWasmOfficialOutputChunkUnitsKind), (''sha256'', JStr digest_a)]"
    "own_prop example_application ''sourceEnvelopeSha256'' = JStr digest_a"
    by (simp_all add: example_descriptor_def example_application_def example_chunk_units_def)
  have o: "requireExactPlainObject (JObj [(''version'', JStr ''1'')]) [''version''] l = Inr [(''version'', JStr ''1'')]"
    "requireExactPlainObject (JObj [(''dynamicImport'', JStr ''literal-require-after-promise-microtask''),
        (''kind'', JStr ''closed-numbered-namespace-slots-v1''),
        (''publication'', JStr ''selected-entry-namespaces-after-selected-closure-initialization'')]) [''dynamicImport'', ''kind'', ''publication''] l
     = Inr [(''dynamicImport'', JStr ''literal-require-after-promise-microtask''),
        (''kind'', JStr ''closed-numbered-namespace-slots-v1''),
        (''publication'', JStr ''selected-entry-namespaces-after-selected-closure-initialization'')]" for l
    by (rule exact_accepts; simp)+
  have p: "own_prop [(''version'', JStr ''1'')] ''version'' = JStr ''1''" by simp
  show ?thesis unfolding check_chunk_units_identity_def f example_chunk_units_digest bindR.simps prod.case o p example_manifest example_sha256_read
      entries reference failWhen_same by (simp del: stringify.simps)
qed

section \<open>The descriptor is accepted\<close>

lemma example_entry_read: "read_descriptor_entry 1 [JNum (NInt 1)] d 0 (descriptor_entry_json example_entry) = Inr example_entry"
proof -
  have r: "read_descriptor_route l i (descriptor_route_json \<lparr>descriptorExportName = ''f'', descriptorUdfKind = ''query'', descriptorVisibility = ''public''\<rparr>)
      = Inr \<lparr>descriptorExportName = ''f'', descriptorUdfKind = ''query'', descriptorVisibility = ''public''\<rparr>" for l i
    by (simp add: read_descriptor_route_def descriptor_route_json_def Let_def exact_object example_manifest requireEnum_def)
  have "IDENTIFIER_PATTERN ''f''" by code_simp
  then show ?thesis
    by (simp add: read_descriptor_entry_def descriptor_entry_json_def Let_def exact_object example_entry_def r example_manifest
        example_sha256_read max_safe_integer_def)
qed

lemma example_units_accepted:
  "check_descriptor_units example_sha256 [example_entry] 1 [JObj (example_unit 0), JObj (example_unit 1)] example_application example_chunk_units d
     = Inr [example_unit_read 0, example_unit_read 1]"
proof -
  let ?us = "[example_unit_read 0, example_unit_read 1]"
  have f: "own_prop example_application ''units'' = JArr [example_chunk_identity, example_publication_identity]"
    "own_prop example_chunk_units ''units'' = JArr [example_chunk_identity]"
    by (simp_all add: example_application_def example_chunk_units_def)
  have m: "mapiR (check_descriptor_unit example_sha256 [example_entry] 1 1 [example_chunk_identity, example_publication_identity] [example_chunk_identity] d) 0
      [JObj (example_unit 0), JObj (example_unit 1)] = Inr ?us"
    using example_chunk_unit example_publication_unit by simp
  have s: "distinct (map unitSymbol ?us)" using example_hex(3) by (simp add: example_unit_read_def)
  have t: "validateConvexWasmOfficialOutputChunkDependencyTopology (nat 1) d (map chunk_unit.truncate ?us) = Inr ()"
    by (simp add: validateConvexWasmOfficialOutputChunkDependencyTopology_def check_unit_dependencies_def example_unit_read_def Let_def)
  have p: "check_entry_units [example_entry] ?us d = Inr ()"
    by (simp add: check_entry_units_def example_unit_read_def example_entry_def module_path_at_def Let_def)
  have i: "fingerprintJson example_sha256 (intrinsic_json (chunk_unit.truncate (example_unit_read 0))) = Inr digest_a"
  proof (unfold intrinsic_json_def, rule example_fields_digest[THEN conjunct1])
    show "canonical_tree (JObj [(''domain'', JStr ''convex-wasm-official-output-chunk-intrinsic-code-v3''),
       (''javascript'', unitJavascript (chunk_unit.truncate (example_unit_read 0))), (''kind'', JStr (unitKind (chunk_unit.truncate (example_unit_read 0)))),
       (''nativeSymbolLocator'', unitLocator (chunk_unit.truncate (example_unit_read 0))),
       (''transform'', unitTransform (chunk_unit.truncate (example_unit_read 0)))])"
      by (rule canonical_tree_object) (simp_all add: example_unit_read_def chunk_unit.truncate_def example_javascript_tree
          symbol_locator_json_tree[OF example_locator_ok] example_transform_tree)
  qed (simp add: convexWasmOfficialOutputNativeSymbolLocatorDomain_def)
  have g: "fingerprintJson example_sha256 (reusable_json [] digest_a) = Inr digest_a"
  proof (unfold reusable_json_def, rule example_fields_digest[THEN conjunct1])
    show "canonical_tree (JObj [(''dependencies'', JArr []), (''domain'', JStr ''convex-wasm-official-output-chunk-reusable-code-v3''),
       (''intrinsicIdentitySha256'', JStr digest_a)])" by (rule canonical_tree_object) simp_all
  qed (simp add: convexWasmOfficialOutputNativeSymbolLocatorDomain_def)
  have b: "fingerprintJson example_sha256 (publication_json (chunk_unit.truncate (example_unit_read 1))) = Inr digest_a"
  proof (unfold publication_json_def, rule example_fields_digest[THEN conjunct1])
    show "canonical_tree (JObj [(''domain'', JStr ''convex-wasm-official-output-entry-publication-code-v2''),
       (''javascript'', unitJavascript (chunk_unit.truncate (example_unit_read 1))), (''kind'', JStr (unitKind (chunk_unit.truncate (example_unit_read 1))))])"
      by (rule canonical_tree_object) (simp_all add: example_unit_read_def chunk_unit.truncate_def example_javascript_tree)
  qed (simp add: convexWasmOfficialOutputNativeSymbolLocatorDomain_def)
  have u: "own_module_path (chunk_unit.truncate (example_unit_read 0)) = Inr ''a.js''" "\<not> unitPublication (chunk_unit.truncate (example_unit_read 0))"
    "unitPublication (chunk_unit.truncate (example_unit_read 1))" "unitDependencies (chunk_unit.truncate (example_unit_read 0)) = []"
    by (simp_all add: own_module_path_def example_unit_read_def)
  have "deriveConvexWasmOfficialOutputReusableCodeIdentitySha256s example_sha256 1 (map chunk_unit.truncate ?us) = Inr [digest_a, digest_a]"
    using i g b u by (simp add: deriveConvexWasmOfficialOutputReusableCodeIdentitySha256s_def reusable_identity_def sorted_logical_dependencies_def)
  then have r: "check_reusable_identities example_sha256 1 ?us d = Inr ()"
    by (simp add: check_reusable_identities_def example_sha256_read) (simp add: example_unit_read_def example_sha256_read)
  show ?thesis using m s t p r by (simp add: check_descriptor_units_def f)
qed

lemma example_read:
  "read_descriptor example_sha256 example_descriptor d = Inr \<lparr>descriptorIdentitySha256 = digest_a, descriptorSlotCount = 1,
     descriptorEntries = [example_entry], descriptorUnits = [example_unit_read 0, example_unit_read 1]\<rparr>"
proof -
  have f: "own_prop example_descriptor ''kind'' = JStr convexWasmModuleGraphCompilerDescriptorKind"
    "own_prop example_descriptor ''schemaVersion'' = JNum (NInt 2)"
    "own_prop example_descriptor ''nativeApplicationDescriptorKind'' = JStr convexWasmOfficialOutputChunkNativeApplicationDescriptorKind"
    "own_prop example_descriptor ''identitySha256'' = JStr digest_a" "own_prop example_descriptor ''initialization'' = example_initialization"
    "own_prop example_descriptor ''entries'' = JArr [descriptor_entry_json example_entry]"
    "own_prop example_descriptor ''units'' = JArr [JObj (example_unit 0), JObj (example_unit 1)]"
    "own_prop example_descriptor ''nativeDescriptor'' = example_native"
    by (simp_all add: example_descriptor_def)
  have i: "read_initialization example_initialization d = Inr (1, [JNum (NInt 1)])"
    by (simp add: read_initialization_def example_initialization_def exact_object max_safe_integer_def)
  have n: "check_native_descriptor example_native d = Inr ()"
    by (simp add: check_native_descriptor_def example_native_def exact_object)
  show ?thesis unfolding read_descriptor_def f example_sha256_read i
    by (simp add: example_entry_read n example_application_accepted[unfolded numeral_2_eq_2] example_chunk_units_accepted example_units_accepted[simplified]
        max_safe_integer_def)
qed

lemma example_authenticated: "authenticateConvexWasmModuleGraphCompilerDescriptor example_sha256 (JObj example_descriptor) d = Inr (JObj example_descriptor)"
proof -
  have "requireExactPlainObject (JObj example_descriptor) descriptor_keys d = Inr example_descriptor"
    by (rule exact_accepts) (simp_all add: example_descriptor_def descriptor_keys_def)
  moreover have "normalizeJson (JObj example_descriptor) l = Inr (JObj example_descriptor)" for l
    unfolding normalizeJson_def by (rule normal_tree_fixpoint[OF canonical_normal[OF example_trees(3)]])
  ultimately show ?thesis using example_read by (simp add: authenticateConvexWasmModuleGraphCompilerDescriptor_def)
qed

text \<open>The same descriptor with its fields in the opposite order is owned as the same snapshot.\<close>

lemma example_reversed:
  "authenticateConvexWasmModuleGraphCompilerDescriptor example_sha256 (JObj (rev example_descriptor)) d = Inr (JObj example_descriptor)"
proof -
  have "requireExactPlainObject (JObj (rev example_descriptor)) descriptor_keys d = Inr (rev example_descriptor)"
    by (rule exact_accepts) (simp_all add: example_descriptor_def descriptor_keys_def)
  moreover have "sort_entries (rev example_descriptor) = sort_entries example_descriptor"
    by (rule sort_entries_cong) (simp_all add: example_descriptor_def)
  then have "normalizeJson (JObj (rev example_descriptor)) l = normalizeJson (JObj example_descriptor) l" for l by (simp add: normalizeJson_def)
  then have "normalizeJson (JObj (rev example_descriptor)) l = Inr (JObj example_descriptor)" for l
    unfolding normalizeJson_def using normal_tree_fixpoint[OF canonical_normal[OF example_trees(3)]] by metis
  ultimately show ?thesis using example_read by (simp add: authenticateConvexWasmModuleGraphCompilerDescriptor_def)
qed

lemma example_wf: "wf_js (JObj example_descriptor)" "wf_js (JObj (rev example_descriptor))"
proof -
  show w: "wf_js (JObj example_descriptor)" by (rule canonical_wf[OF example_trees(3)])
  have "list_all (\<lambda>(k, v). wf_js v) (rev example_descriptor)" using w by (simp add: list_all_iff)
  then show "wf_js (JObj (rev example_descriptor))" by (intro wf_object) (simp_all add: example_descriptor_def)
qed

theorem authenticated_descriptor_fits_witness:
  "\<exists>c. read_descriptor example_sha256 example_descriptor ''d'' = Inr c
    \<and> application_shape (descriptorSlotCount c) (descriptorEntries c) (descriptorUnits c)"
  using authenticated_descriptor_fits[OF example_authenticated[of "''d''"] example_wf(1)] by auto

theorem descriptor_identity_binds_code_witness:
  "\<exists>c c'. read_descriptor example_sha256 example_descriptor ''x'' = Inr c \<and> read_descriptor example_sha256 example_descriptor ''y'' = Inr c'
    \<and> map unit_code (descriptorUnits c) = map unit_code (descriptorUnits c')"
  using descriptor_identity_binds_code[OF example_authenticated[of "''x''"] example_wf(1) example_reversed[of "''y''"] example_wf(2)] by auto

end
