(* ===== verification/CommonPartition.thy ===== *)
theory CommonPartition
  imports JsChecks
begin

text \<open>
  The reviewed common partition (\<open>scripts/lib/convex-wasm-module-graph-common-partition.mjs\<close>): the
  authority that admits at most one common unit, the selection of that unit among the logical units of an
  application, and the check of its generated C.
\<close>

section \<open>Reading values\<close>

text \<open>\<open>left === right\<close> for two JSON values that are not the same object: objects and arrays are unequal.\<close>

fun strict_equal :: "jsval \<Rightarrow> jsval \<Rightarrow> bool" where
  "strict_equal JNull JNull = True"
| "strict_equal JUndefined JUndefined = True"
| "strict_equal (JBool a) (JBool b) = (a = b)"
| "strict_equal (JStr a) (JStr b) = (a = b)"
| "strict_equal (JNum NNaN) (JNum n) = False"
| "strict_equal (JNum NNegZero) (JNum n) = (n = NNegZero \<or> n = NInt 0)"
| "strict_equal (JNum m) (JNum NNegZero) = (m = NInt 0)"
| "strict_equal (JNum m) (JNum n) = (m = n)"
| "strict_equal _ _ = False"

text \<open>\<open>value?.key\<close>.\<close>

fun optional_prop :: "string \<Rightarrow> jsval \<Rightarrow> jsval" where
  "optional_prop k (JObj kvs) = own_prop kvs k"
| "optional_prop k (JInst kvs) = own_prop kvs k"
| "optional_prop k _ = JUndefined"

text \<open>\<open>Array.prototype.some\<close> with a callback that may throw.\<close>

fun existsR :: "('a \<Rightarrow> bool res) \<Rightarrow> 'a list \<Rightarrow> bool res" where
  "existsR f [] = Inr False"
| "existsR f (x # xs) = bindR (f x) (\<lambda>b. if b then Inr True else existsR f xs)"

lemma existsR_pure: "existsR (\<lambda>x. Inr (P x)) xs = Inr (list_ex P xs)"
  by (induction xs) auto

section \<open>The authority\<close>

definition FACTORY_SYMBOL_PREFIX :: string where
  "FACTORY_SYMBOL_PREFIX = ''convex_wasm_common_application_factory_''"

definition AUTHORITY_KIND :: string where
  "AUTHORITY_KIND = ''convex-wasm-static-hermes-common-partition-authority-v1''"

definition LAYOUT_KIND :: string where
  "LAYOUT_KIND = ''convex-wasm-static-hermes-common-partition-layout-v1''"

definition partition_fail :: "string \<Rightarrow> 'a res" where
  "partition_fail message = Inl (Error (''Convex Wasm common-partition authority: '' @ message))"

definition partition_failWhen :: "bool \<Rightarrow> string \<Rightarrow> unit res" where
  "partition_failWhen b message = (if b then partition_fail message else Inr ())"

record reviewed_artifact =
  artifactSha256 :: string
  artifactSize :: int

record reviewed_engine =
  engineCompatibility :: string
  enginePackageId :: string
  engineRevision :: jsval

record reviewed_compilation =
  exceptionalFunctionCount :: int
  exceptionalOptimizationFlag :: string
  normalOptimizationFlag :: string
  compilationPic :: bool

record reviewed_generated_c =
  aggregateArtifact :: reviewed_artifact
  compilationPolicy :: reviewed_compilation
  translationUnitCount :: int

record reviewed_aot =
  aotArtifact :: reviewed_artifact
  aotCoreWasm :: reviewed_artifact
  aotMemoryPeak :: int
  aotReport :: string

record reviewed_unit =
  reviewedOfficialIdentity :: string
  reviewedLogicalIdentity :: string
  reviewedLogical :: jsval
  reviewedEngine :: reviewed_engine
  reviewedGeneratedC :: reviewed_generated_c
  reviewedAot :: reviewed_aot
  reviewedObjectBytes :: int

record partition_authority =
  partitionUnits :: "reviewed_unit list"
  partitionLayoutEpoch :: int
  partitionMaximumSlots :: int
  partitionSymbols :: "string list"

definition requireArtifact :: "jsval \<Rightarrow> string \<Rightarrow> reviewed_artifact res" where
  "requireArtifact value description =
     bindR (requireExactPlainObject value [''sha256'', ''size''] description) (\<lambda>a.
     bindR (requireSha256 (own_prop a ''sha256'') (description @ '' SHA-256'')) (\<lambda>sha.
     bindR (requirePositiveInteger (own_prop a ''size'') (description @ '' size'')) (\<lambda>size.
     Inr \<lparr>artifactSha256 = sha, artifactSize = size\<rparr>)))"

text \<open>The text that \<open>/^[0-9a-f]{40}$/u\<close> is tested on: a string, or an array that is converted to one. No
  other value converts to forty hexadecimal digits.\<close>

fun revision_text :: "jsval \<Rightarrow> string" where
  "revision_text (JStr s) = s"
| "revision_text (JArr [v]) = revision_text v"
| "revision_text _ = []"

definition read_engine :: "jsval \<Rightarrow> reviewed_engine res" where
  "read_engine value =
     bindR (requireExactPlainObject value [''compatibilitySha256'', ''precompilerPackageId'', ''wasmtimeRevision''] ''reviewed engine'') (\<lambda>e.
     bindR (requireSha256 (own_prop e ''compatibilitySha256'') ''reviewed engine compatibility'') (\<lambda>compatibility.
     bindR (requireSha256 (own_prop e ''precompilerPackageId'') ''reviewed precompiler package'') (\<lambda>package.
     bindR (let text = revision_text (own_prop e ''wasmtimeRevision'') in
        partition_failWhen (length text \<noteq> 40 \<or> \<not> list_all is_lower_hex text)
          ''reviewed Wasmtime revision must be a 40-character commit ID'') (\<lambda>_.
     Inr \<lparr>engineCompatibility = compatibility, enginePackageId = package, engineRevision = own_prop e ''wasmtimeRevision''\<rparr>))))"

definition read_compilation :: "jsval \<Rightarrow> reviewed_compilation res" where
  "read_compilation value =
     bindR (requireExactPlainObject value [''exceptionalFunctionCount'', ''exceptionalOptimizationFlag'', ''normalOptimizationFlag'', ''pic'']
       ''reviewed compilation policy'') (\<lambda>c.
     case (own_prop c ''exceptionalFunctionCount'', own_prop c ''pic'') of
       (JNum n, JBool pic) \<Rightarrow>
         bindR (partition_failWhen (\<not> isSafeInteger n \<or> num_int n < 0) ''reviewed compilation policy has invalid counts or PIC mode'') (\<lambda>_.
         bindR (requireString (own_prop c ''exceptionalOptimizationFlag'') ''exceptional optimization flag'') (\<lambda>exceptional.
         bindR (requireString (own_prop c ''normalOptimizationFlag'') ''normal optimization flag'') (\<lambda>normal.
         Inr \<lparr>exceptionalFunctionCount = num_int n, exceptionalOptimizationFlag = exceptional, normalOptimizationFlag = normal,
           compilationPic = pic\<rparr>)))
     | _ \<Rightarrow> partition_fail ''reviewed compilation policy has invalid counts or PIC mode'')"

definition read_generated_c :: "jsval \<Rightarrow> reviewed_generated_c res" where
  "read_generated_c value =
     bindR (requireExactPlainObject value [''aggregate'', ''compilation'', ''translationUnitCount''] ''reviewed generated C'') (\<lambda>g.
     bindR (requireArtifact (own_prop g ''aggregate'') ''reviewed generated C aggregate'') (\<lambda>aggregate.
     bindR (requirePositiveInteger (own_prop g ''translationUnitCount'') ''reviewed translation unit count'') (\<lambda>translationUnits.
     bindR (read_compilation (own_prop g ''compilation'')) (\<lambda>compilation.
     Inr \<lparr>aggregateArtifact = aggregate, compilationPolicy = compilation, translationUnitCount = translationUnits\<rparr>))))"

definition read_aot :: "jsval \<Rightarrow> reviewed_aot res" where
  "read_aot value =
     bindR (requireExactPlainObject value [''artifact'', ''coreWasm'', ''memoryPeakBytes'', ''reportSha256''] ''reviewed AOT evidence'') (\<lambda>a.
     bindR (requireArtifact (own_prop a ''artifact'') ''reviewed AOT artifact'') (\<lambda>artifact.
     bindR (requireArtifact (own_prop a ''coreWasm'') ''reviewed Core Wasm'') (\<lambda>coreWasm.
     bindR (requirePositiveInteger (own_prop a ''memoryPeakBytes'') ''reviewed AOT memory peak'') (\<lambda>memoryPeak.
     bindR (requireSha256 (own_prop a ''reportSha256'') ''reviewed AOT report'') (\<lambda>report.
     Inr \<lparr>aotArtifact = artifact, aotCoreWasm = coreWasm, aotMemoryPeak = memoryPeak, aotReport = report\<rparr>)))))"

definition read_reviewed_unit :: "(string \<Rightarrow> string) \<Rightarrow> jsval \<Rightarrow> reviewed_unit res" where
  "read_reviewed_unit sha256 value =
     bindR (requireExactPlainObject value [''aotEvidence'', ''engine'', ''generatedC'', ''logical'', ''logicalUnitIdentitySha256'',
       ''officialUnitIdentitySha256'', ''picObjectAggregateBytes'', ''slot''] ''reviewed common unit'') (\<lambda>u.
     bindR (partition_failWhen (\<not> number_equals (own_prop u ''slot'') 0) ''reviewed common unit must occupy slot zero'') (\<lambda>_.
     bindR (requireSha256 (own_prop u ''officialUnitIdentitySha256'') ''reviewed official unit identity'') (\<lambda>official.
     bindR (requireSha256 (own_prop u ''logicalUnitIdentitySha256'') ''reviewed logical unit identity'') (\<lambda>logicalIdentity.
     bindR (normalizeJson (own_prop u ''logical'') ''reviewed logical unit'') (\<lambda>logical.
     bindR (fingerprintJson sha256 logical) (\<lambda>fingerprint.
     bindR (partition_failWhen (fingerprint \<noteq> logicalIdentity) ''reviewed logical unit does not match its authenticated identity'') (\<lambda>_.
     bindR (read_engine (own_prop u ''engine'')) (\<lambda>engine.
     bindR (read_generated_c (own_prop u ''generatedC'')) (\<lambda>generatedC.
     bindR (read_aot (own_prop u ''aotEvidence'')) (\<lambda>aot.
     bindR (requirePositiveInteger (own_prop u ''picObjectAggregateBytes'') ''reviewed PIC object aggregate bytes'') (\<lambda>objectBytes.
     Inr \<lparr>reviewedOfficialIdentity = official, reviewedLogicalIdentity = logicalIdentity, reviewedLogical = logical,
       reviewedEngine = engine, reviewedGeneratedC = generatedC, reviewedAot = aot, reviewedObjectBytes = objectBytes\<rparr>)))))))))))"

definition read_partition_slot :: "(string \<Rightarrow> string) \<Rightarrow> int \<Rightarrow> jsval \<Rightarrow> string res" where
  "read_partition_slot sha256 layoutEpoch value =
     bindR (requireExactPlainObject value [''factorySymbol'', ''slot''] ''common partition slot'') (\<lambda>s.
     bindR (partition_failWhen (\<not> number_equals (own_prop s ''slot'') 0) ''common partition slot must be zero'') (\<lambda>_.
     bindR (fingerprintJson sha256 (JObj [(''domain'', JStr ''convex-wasm-static-hermes-common-factory-slot-v1''),
       (''layoutEpoch'', JNum (NInt layoutEpoch)), (''slot'', own_prop s ''slot'')])) (\<lambda>fingerprint.
     bindR (partition_failWhen (own_prop s ''factorySymbol'' \<noteq> JStr (FACTORY_SYMBOL_PREFIX @ fingerprint))
       ''common partition factory symbol does not match its layout identity'') (\<lambda>_.
     Inr (FACTORY_SYMBOL_PREFIX @ fingerprint)))))"

definition normalizeConvexWasmStaticHermesCommonPartitionAuthority :: "(string \<Rightarrow> string) \<Rightarrow> jsval \<Rightarrow> partition_authority res" where
  "normalizeConvexWasmStaticHermesCommonPartitionAuthority sha256 value =
     bindR (requireExactPlainObject value [''content'', ''kind'', ''layout''] ''common partition authority'') (\<lambda>a.
     bindR (partition_failWhen (own_prop a ''kind'' \<noteq> JStr AUTHORITY_KIND) ''common partition authority kind is unsupported'') (\<lambda>_.
     bindR (requireExactPlainObject (own_prop a ''content'') [''units''] ''common partition content'') (\<lambda>content.
     bindR (requireExactPlainObject (own_prop a ''layout'') [''kind'', ''layoutEpoch'', ''maximumSlots'', ''slots''] ''common partition layout'') (\<lambda>layout.
     bindR (partition_failWhen (own_prop layout ''kind'' \<noteq> JStr LAYOUT_KIND) ''common partition layout kind is unsupported'') (\<lambda>_.
     bindR (requirePositiveInteger (own_prop layout ''layoutEpoch'') ''layout epoch'') (\<lambda>layoutEpoch.
     bindR (requirePositiveInteger (own_prop layout ''maximumSlots'') ''maximum slots'') (\<lambda>maximumSlots.
     bindR (partition_failWhen (maximumSlots > 1024) ''maximum slots exceeds the supported bound'') (\<lambda>_.
     case own_prop content ''units'' of
       JArr rawUnits \<Rightarrow>
         bindR (partition_failWhen (length rawUnits > 1) ''common partition authority supports at most one reviewed unit'') (\<lambda>_.
         (case own_prop layout ''slots'' of
            JArr rawSlots \<Rightarrow>
              bindR (partition_failWhen (length rawSlots \<noteq> length rawUnits) ''common partition layout must match reviewed units'') (\<lambda>_.
              bindR (mapR (read_reviewed_unit sha256) rawUnits) (\<lambda>units.
              bindR (mapR (read_partition_slot sha256 layoutEpoch) rawSlots) (\<lambda>symbols.
              Inr \<lparr>partitionUnits = units, partitionLayoutEpoch = layoutEpoch, partitionMaximumSlots = maximumSlots, partitionSymbols = symbols\<rparr>)))
          | _ \<Rightarrow> partition_fail ''common partition layout must match reviewed units''))
     | _ \<Rightarrow> partition_fail ''common partition authority supports at most one reviewed unit''))))))))"

section \<open>Selection\<close>

text \<open>A logical unit of the application with the entries that reach it and the units it occurs as. The
  logical unit itself is a parameter type of this contract: it is only read through its JSON.\<close>

record 'l candidate =
  candidateEntryIds :: "jsval list"
  candidateLogical :: 'l
  candidateOccurrences :: "(int \<times> jsval) list"

record 'l common_unit =
  commonEntryIds :: "string list"
  commonSymbol :: string
  commonLogical :: 'l
  commonOccurrences :: "(int \<times> jsval) list"
  commonProof :: "(jsval \<times> int \<times> jsval) list"
  commonScheduleSha256 :: string

text \<open>The entry identifiers of a candidate, sorted; they come from a \<open>Set\<close>.\<close>

fun entry_id :: "jsval \<Rightarrow> string option" where
  "entry_id (JStr s) = (if s = [] then None else Some s)"
| "entry_id _ = None"

definition entryIdsOf :: "jsval list \<Rightarrow> string list res" where
  "entryIdsOf values =
     bindR (mapR (\<lambda>v. case entry_id v of None \<Rightarrow> partition_fail ''reviewed common candidate entry IDs must be non-empty strings''
         | Some s \<Rightarrow> Inr s) values) (\<lambda>ids.
     bindR (partition_failWhen (\<not> distinct (sort_strings ids)) ''reviewed common candidate repeats an entry ID'') (\<lambda>_.
     Inr (sort_strings ids)))"

definition occurs_as :: "string \<Rightarrow> int \<times> jsval \<Rightarrow> bool" where
  "occurs_as identity occurrence \<longleftrightarrow> optional_prop ''identitySha256'' (snd occurrence) = JStr identity"

text \<open>The order of occurrences: by cohort, then by unit slot, the slots being integers.\<close>

definition unit_slot_of :: "jsval \<Rightarrow> int" where
  "unit_slot_of unit = (case optional_prop ''applicationUnitSlot'' unit of JNum n \<Rightarrow> num_int n | _ \<Rightarrow> 0)"

definition compareOccurrences :: "int \<times> jsval \<Rightarrow> int \<times> jsval \<Rightarrow> int" where
  "compareOccurrences left right =
     (if fst left - fst right \<noteq> 0 then fst left - fst right else unit_slot_of (snd left) - unit_slot_of (snd right))"

definition admit_common_unit :: "('l \<Rightarrow> string res) \<Rightarrow> reviewed_unit \<Rightarrow> string \<Rightarrow> jsval \<Rightarrow> jsval \<Rightarrow> jsval \<Rightarrow> string \<Rightarrow> 'l candidate
    \<Rightarrow> 'l common_unit res" where
  "admit_common_unit fingerprintLogical content factorySymbol engineCompatibilitySha256 precompilerPackageId wasmtimeRevision scheduleSha256 c =
     bindR (partition_failWhen (engineCompatibilitySha256 \<noteq> JStr (engineCompatibility (reviewedEngine content)))
       ''reviewed common content has not been admitted for this engine compatibility identity'') (\<lambda>_.
     bindR (partition_failWhen (precompilerPackageId \<noteq> JStr (enginePackageId (reviewedEngine content))
         \<or> \<not> strict_equal wasmtimeRevision (engineRevision (reviewedEngine content)))
       ''reviewed common content has not been admitted for this precompiler package'') (\<lambda>_.
     bindR (entryIdsOf (candidateEntryIds c)) (\<lambda>entryIds.
     bindR (partition_failWhen (length entryIds < 2) ''reviewed common candidate must reach at least two complete entries'') (\<lambda>_.
     bindR (fingerprintLogical (candidateLogical c)) (\<lambda>fingerprint.
     bindR (partition_failWhen (fingerprint \<noteq> reviewedLogicalIdentity content)
       ''reviewed common candidate logical unit does not match the admitted content'') (\<lambda>_.
     bindR (partition_failWhen (candidateOccurrences c = []) ''reviewed common candidate has no official-output occurrence'') (\<lambda>_.
     bindR (partition_failWhen (list_ex (\<lambda>occurrence. fst occurrence < 0 \<or> \<not> occurs_as (reviewedOfficialIdentity content) occurrence) (candidateOccurrences c))
       ''reviewed common candidate occurrences do not bind the exact official unit'') (\<lambda>_.
     let occurrences = js_sort compareOccurrences (candidateOccurrences c) in
     Inr \<lparr>commonEntryIds = entryIds, commonSymbol = factorySymbol, commonLogical = candidateLogical c, commonOccurrences = occurrences,
       commonProof = map (\<lambda>(cohortIndex, unit). (optional_prop ''applicationUnitSlot'' unit, cohortIndex, optional_prop ''identitySha256'' unit)) occurrences,
       commonScheduleSha256 = scheduleSha256\<rparr>))))))))"

definition selectConvexWasmStaticHermesCommonPartition :: "(string \<Rightarrow> string) \<Rightarrow> ('l \<Rightarrow> string res) \<Rightarrow> jsval \<Rightarrow> 'l candidate list \<Rightarrow> jsval \<Rightarrow> jsval
    \<Rightarrow> jsval \<Rightarrow> jsval \<Rightarrow> 'l common_unit list res" where
  "selectConvexWasmStaticHermesCommonPartition sha256 fingerprintLogical authority candidateUnits engineCompatibilitySha256 precompilerPackageId
     scheduleSha256 wasmtimeRevision =
     bindR (normalizeConvexWasmStaticHermesCommonPartitionAuthority sha256 authority) (\<lambda>reviewed.
     bindR (requireSha256 scheduleSha256 ''schedule SHA-256'') (\<lambda>schedule.
     case zip (partitionUnits reviewed) (partitionSymbols reviewed) of
       [] \<Rightarrow> Inr []
     | (content, factorySymbol) # _ \<Rightarrow>
         (case filter (\<lambda>c. list_ex (occurs_as (reviewedOfficialIdentity content)) (candidateOccurrences c)) candidateUnits of
            [] \<Rightarrow> Inr []
          | [c] \<Rightarrow>
              bindR (admit_common_unit fingerprintLogical content factorySymbol engineCompatibilitySha256 precompilerPackageId wasmtimeRevision schedule c)
                (\<lambda>common. Inr [common])
          | _ \<Rightarrow> partition_fail ''reviewed official unit occurs in more than one logical candidate'')))"

definition requireConvexWasmStaticHermesCommonGeneratedC :: "(string \<Rightarrow> string) \<Rightarrow> jsval \<Rightarrow> jsval \<Rightarrow> jsval \<Rightarrow> jsval \<Rightarrow> reviewed_generated_c res" where
  "requireConvexWasmStaticHermesCommonGeneratedC sha256 authority aggregateSha256 aggregateSize translationUnits =
     bindR (normalizeConvexWasmStaticHermesCommonPartitionAuthority sha256 authority) (\<lambda>reviewed.
     case partitionUnits reviewed of
       [] \<Rightarrow> partition_fail ''no reviewed common generated C was supplied''
     | unit # _ \<Rightarrow>
         let admitted = reviewedGeneratedC unit in
         bindR (partition_failWhen (aggregateSha256 \<noteq> JStr (artifactSha256 (aggregateArtifact admitted))
             \<or> \<not> number_equals aggregateSize (artifactSize (aggregateArtifact admitted))
             \<or> \<not> number_equals translationUnits (translationUnitCount admitted))
           ''common generated C does not match the exact reviewed content'') (\<lambda>_. Inr admitted))"

end
