(* ===== verification/GraphMembership.thy ===== *)
theory GraphMembership
  imports CommonPartition
begin

text \<open>
  The membership of a module graph (\<open>scripts/lib/convex-wasm-module-graph-membership.mjs\<close>): the compiler
  outputs of all cohorts are read as one set of logical units, each entry's closure over the chunk
  dependencies is followed to its end, and the common unit is selected from what the closures reach.
\<close>

definition membership_fail :: "string \<Rightarrow> 'a res" where
  "membership_fail message = Inl (Error (''Convex Wasm module graph membership: '' @ message))"

definition membership_failWhen :: "bool \<Rightarrow> string \<Rightarrow> unit res" where
  "membership_failWhen b message = (if b then membership_fail message else Inr ())"

section \<open>Logical units\<close>

record logical_dependency =
  logicalKind :: string
  logicalPath :: string
  logicalSpecifier :: string

record graph_logical_unit =
  logicalDependencies :: "logical_dependency list"
  logicalJavascriptSha256 :: string
  logicalJavascriptSize :: int
  logicalModule :: "(string \<times> jsval) list"
  logicalModulePath :: string

text \<open>\<open>value.map(...)\<close>: reading the property of a nullish value, or mapping what is not an array, throws.\<close>

fun array_of :: "string \<Rightarrow> jsval \<Rightarrow> jsval list res" where
  "array_of name (JArr items) = Inr items"
| "array_of name _ = Inl (TypeError name)"

definition read_logical_dependency :: "string \<Rightarrow> nat \<Rightarrow> jsval \<Rightarrow> logical_dependency res" where
  "read_logical_dependency description index dependency =
     (let label = description @ ''.dependencies['' @ show_nat index @ '']'' in
      bindR (assertPlainObject dependency label) (\<lambda>d.
      bindR (requireString (own_prop d ''kind'') (label @ ''.kind'')) (\<lambda>kind.
      bindR (requireString (own_prop d ''path'') (label @ ''.path'')) (\<lambda>path.
      bindR (requireString (own_prop d ''specifier'') (label @ ''.specifier'')) (\<lambda>specifier.
      Inr \<lparr>logicalKind = kind, logicalPath = path, logicalSpecifier = specifier\<rparr>)))))"

definition moduleGraphLogicalUnit :: "jsval \<Rightarrow> string \<Rightarrow> graph_logical_unit res" where
  "moduleGraphLogicalUnit unit description =
     bindR (assertPlainObject unit description) (\<lambda>u.
     bindR (requireExactPlainObject (own_prop u ''module'') [''environment'', ''moduleSha256'', ''path'', ''sourceMap'', ''sourceMembershipSha256'',
       ''sourceSha256'', ''sourceSize''] (description @ ''.module'')) (\<lambda>module.
     bindR (membership_failWhen (own_prop module ''environment'' \<noteq> JStr ''isolate'') (description @ ''.module.environment must be isolate'')) (\<lambda>_.
     bindR (requireSha256 (own_prop module ''sourceMembershipSha256'') (description @ ''.module.sourceMembershipSha256'')) (\<lambda>_.
     bindR (requireString (own_prop module ''path'') (description @ ''.module.path'')) (\<lambda>modulePath.
     bindR (array_of ''dependencies'' (own_prop u ''dependencies'')) (\<lambda>rawDependencies.
     bindR (mapiR (read_logical_dependency description) 0 rawDependencies) (\<lambda>dependencies.
     bindR (get_prop ''sha256'' (own_prop u ''javascript'')) (\<lambda>rawSha256.
     bindR (requireSha256 rawSha256 (description @ ''.javascript.sha256'')) (\<lambda>javascriptSha256.
     bindR (get_prop ''size'' (own_prop u ''javascript'')) (\<lambda>rawSize.
     bindR (requirePositiveInteger rawSize (description @ ''.javascript.size'')) (\<lambda>javascriptSize.
     bindR (normalizeJson (JObj (filter (\<lambda>kv. fst kv \<noteq> ''sourceMembershipSha256'') module)) (description @ ''.module'')) (\<lambda>logicalModule.
     bindR (assertPlainObject logicalModule description) (\<lambda>m.
     Inr \<lparr>logicalDependencies = dependencies, logicalJavascriptSha256 = javascriptSha256, logicalJavascriptSize = javascriptSize,
       logicalModule = m, logicalModulePath = modulePath\<rparr>)))))))))))))"

definition logical_dependency_data :: "logical_dependency \<Rightarrow> jsval" where
  "logical_dependency_data d = JObj [(''kind'', JStr (logicalKind d)), (''path'', JStr (logicalPath d)), (''specifier'', JStr (logicalSpecifier d))]"

definition graph_logical_unit_json :: "graph_logical_unit \<Rightarrow> jsval" where
  "graph_logical_unit_json u = JObj [(''dependencies'', JArr (map logical_dependency_data (logicalDependencies u))),
     (''javascript'', JObj [(''sha256'', JStr (logicalJavascriptSha256 u)), (''size'', JNum (NInt (logicalJavascriptSize u)))]),
     (''module'', JObj (logicalModule u)), (''modulePath'', JStr (logicalModulePath u))]"

text \<open>The comparison of the source maps; reading a property of what is not an object gives \<open>undefined\<close>.\<close>

definition source_map_equal :: "jsval \<Rightarrow> jsval \<Rightarrow> bool" where
  "source_map_equal left right =
     (if left = JNull \<or> right = JNull then left = right
      else list_all (\<lambda>k. strict_equal (optional_prop k left) (optional_prop k right)) [''sha256'', ''size'', ''sourcesContentCount'', ''sourcesCount''])"

definition moduleGraphLogicalUnitEqual :: "graph_logical_unit \<Rightarrow> graph_logical_unit \<Rightarrow> bool" where
  "moduleGraphLogicalUnitEqual left right \<longleftrightarrow>
     logicalModulePath left = logicalModulePath right \<and> logicalJavascriptSha256 left = logicalJavascriptSha256 right
   \<and> logicalJavascriptSize left = logicalJavascriptSize right
   \<and> list_all (\<lambda>k. strict_equal (own_prop (logicalModule left) k) (own_prop (logicalModule right) k))
       [''environment'', ''moduleSha256'', ''path'', ''sourceSha256'', ''sourceSize'']
   \<and> source_map_equal (own_prop (logicalModule left) ''sourceMap'') (own_prop (logicalModule right) ''sourceMap'')
   \<and> logicalDependencies left = logicalDependencies right"

section \<open>The table of logical units\<close>

text \<open>The \<open>Map\<close> from module path to candidate, in insertion order.\<close>

type_synonym logical_table = "(string \<times> graph_logical_unit candidate) list"

fun change_candidate :: "string \<Rightarrow> (graph_logical_unit candidate \<Rightarrow> graph_logical_unit candidate) \<Rightarrow> logical_table \<Rightarrow> logical_table" where
  "change_candidate path f [] = []"
| "change_candidate path f ((p, c) # rest) = (if p = path then (p, f c) # rest else (p, c) # change_candidate path f rest)"

definition add_unit_occurrence :: "nat \<Rightarrow> jsval \<Rightarrow> graph_logical_unit \<Rightarrow> string \<Rightarrow> logical_table \<Rightarrow> logical_table res" where
  "add_unit_occurrence cohortIndex unit logical message table =
     (case map_of table (logicalModulePath logical) of
        None \<Rightarrow> Inr (table @ [(logicalModulePath logical, \<lparr>candidateEntryIds = [], candidateLogical = logical,
            candidateOccurrences = [(int cohortIndex, unit)]\<rparr>)])
      | Some existing \<Rightarrow>
          bindR (membership_failWhen (\<not> moduleGraphLogicalUnitEqual (candidateLogical existing) logical) message) (\<lambda>_.
          Inr (change_candidate (logicalModulePath logical) (\<lambda>c. c\<lparr>candidateOccurrences := candidateOccurrences c @ [(int cohortIndex, unit)]\<rparr>) table)))"

definition add_entry_id :: "jsval \<Rightarrow> string \<Rightarrow> logical_table \<Rightarrow> logical_table" where
  "add_entry_id entryId path table =
     change_candidate path (\<lambda>c. c\<lparr>candidateEntryIds := js_set_add (candidateEntryIds c) entryId\<rparr>) table"

section \<open>Closures\<close>

text \<open>The unit that a slot selects. The descriptors that reach this code have been authenticated, which
  requires integer slots; a value that is not a safe integer selects no unit here, where the code would
  read it as a property name of the array.\<close>

definition slot_index :: "jsval \<Rightarrow> nat \<Rightarrow> nat option" where
  "slot_index slot n = (case slot of JNum m \<Rightarrow> if isSafeInteger m \<and> 0 \<le> num_int m \<and> num_int m < int n then Some (nat (num_int m)) else None | _ \<Rightarrow> None)"

lemma slot_index_less: "slot_index slot n = Some i \<Longrightarrow> i < n"
  by (auto simp: slot_index_def split: jsval.splits if_splits)

fun truthy :: "jsval \<Rightarrow> bool" where
  "truthy JNull = False"
| "truthy JUndefined = False"
| "truthy (JBool b) = b"
| "truthy (JStr s) = (s \<noteq> [])"
| "truthy (JNum NNaN) = False"
| "truthy (JNum NNegZero) = False"
| "truthy (JNum n) = (n \<noteq> NInt 0)"
| "truthy _ = True"

text \<open>The module path of a unit and the slots of its dependencies.\<close>

definition unit_path :: "jsval \<Rightarrow> jsval res" where
  "unit_path unit = bindR (get_prop ''module'' unit) (get_prop ''path'')"

definition unit_slots :: "jsval \<Rightarrow> jsval list res" where
  "unit_slots unit = bindR (get_prop ''dependencies'' unit) (\<lambda>ds. bindR (array_of ''dependencies'' ds) (mapR (get_prop ''slot'')))"

text \<open>
  One round of \<open>while (pending.length > 0)\<close> takes the last pending slot, here the head of the list. The
  table is the shared \<open>logicalUnits\<close>; \<open>visited\<close> holds the slots as indexes of units.
\<close>

function entry_closure :: "string \<Rightarrow> jsval list \<Rightarrow> jsval \<Rightarrow> jsval list \<Rightarrow> nat set \<Rightarrow> logical_table \<Rightarrow> logical_table res" where
  "entry_closure message units entryId [] visited table = Inr table"
| "entry_closure message units entryId (slot # pending) visited table =
     (case slot_index slot (length units) of
        None \<Rightarrow> membership_fail message
      | Some i \<Rightarrow>
          if i \<in> visited then entry_closure message units entryId pending visited table
          else
            bindR (membership_failWhen (units ! i = JUndefined) message) (\<lambda>_.
            bindR (get_prop ''entryPublication'' (units ! i)) (\<lambda>publication.
            bindR (membership_failWhen (truthy publication) message) (\<lambda>_.
            bindR (unit_path (units ! i)) (\<lambda>path.
            case path of
              JStr p \<Rightarrow>
                (case map_of table p of
                   None \<Rightarrow> Inl (TypeError ''entryIds'')
                 | Some _ \<Rightarrow>
                     bindR (unit_slots (units ! i)) (\<lambda>slots.
                     entry_closure message units entryId (rev slots @ pending) (insert i visited) (add_entry_id entryId p table)))
            | _ \<Rightarrow> Inl (TypeError ''entryIds''))))))"
  by pat_completeness auto

termination
proof (relation "measures [\<lambda>(message, units, entryId, pending, visited, table). card ({..< length units} - visited),
    \<lambda>(message, units, entryId, pending, visited, table). length pending]")
  fix message :: string and units :: "jsval list" and entryId slot :: jsval and pending slots :: "jsval list" and visited :: "nat set"
    and table :: logical_table and i p
  assume "slot_index slot (length units) = Some i" "i \<notin> visited"
  then have "{..< length units} - insert i visited \<subset> {..< length units} - visited" using slot_index_less by blast
  then have "card ({..< length units} - insert i visited) < card ({..< length units} - visited)" by (simp add: psubset_card_mono)
  then show "((message, units, entryId, rev slots @ pending, insert i visited, add_entry_id entryId p table),
      (message, units, entryId, slot # pending, visited, table)) \<in> measures [\<lambda>(message, units, entryId, pending, visited, table). card ({..< length units} - visited),
    \<lambda>(message, units, entryId, pending, visited, table). length pending]" by simp
qed simp_all

section \<open>One cohort\<close>

record membership_cohort =
  memberCohortId :: string
  memberCohortIndex :: nat
  memberOutput :: jsval
  memberScheduled :: jsval
  memberUnitByPath :: "(string \<times> (graph_logical_unit \<times> jsval)) list"
  memberUnits :: "jsval list"

text \<open>\<open>xs.slice(0, c)\<close> and \<open>xs.slice(c)\<close> for an integer \<open>c\<close>.\<close>

definition slice_index :: "int \<Rightarrow> 'a list \<Rightarrow> nat" where
  "slice_index c xs = nat (if c < 0 then int (length xs) + c else c)"

text \<open>\<open>value[index]\<close>.\<close>

fun index_prop :: "nat \<Rightarrow> jsval \<Rightarrow> jsval res" where
  "index_prop i (JArr vs) = Inr (if i < length vs then vs ! i else JUndefined)"
| "index_prop i (JStr s) = Inr (if i < length s then JStr [s ! i] else JUndefined)"
| "index_prop i v = get_prop (show_nat i) v"

definition read_entry_paths :: "string \<Rightarrow> jsval list \<Rightarrow> string list res" where
  "read_entry_paths prefix entries =
     mapiR (\<lambda>entryIndex entry. bindR (get_prop ''entryPath'' entry) (\<lambda>entryPath. requireString entryPath (prefix @ show_nat entryIndex @ '' path''))) 0 entries"

definition flag_differs :: "bool \<Rightarrow> jsval \<Rightarrow> bool res" where
  "flag_differs flag unit = bindR (get_prop ''entryPublication'' unit) (\<lambda>publication. Inr (publication \<noteq> JBool flag))"

text \<open>The chunk slot count of a descriptor whose units are its chunks and then its publication units.\<close>

definition publication_boundary :: "(string \<times> jsval) list \<Rightarrow> jsval list \<Rightarrow> jsval list \<Rightarrow> string \<Rightarrow> nat res" where
  "publication_boundary descriptor units entries message =
     bindR (membership_failWhen (length units < 2) message) (\<lambda>_.
     bindR (get_prop ''chunkSlotCount'' (own_prop descriptor ''initialization'')) (\<lambda>count.
     let boundary = int (length units) - int (length entries); c = slice_index boundary units in
     bindR (membership_failWhen (\<not> number_equals count boundary) message) (\<lambda>_.
     bindR (existsR (flag_differs False) (take c units)) (\<lambda>chunkDiffers.
     bindR (if chunkDiffers then Inr True else existsR (flag_differs True) (drop c units)) (\<lambda>differs.
     bindR (membership_failWhen differs message) (\<lambda>_. Inr c))))))"

definition add_unit :: "string \<Rightarrow> nat \<Rightarrow> logical_table \<times> (string \<times> (graph_logical_unit \<times> jsval)) list \<Rightarrow> nat \<times> jsval
    \<Rightarrow> (logical_table \<times> (string \<times> (graph_logical_unit \<times> jsval)) list) res" where
  "add_unit output cohortIndex = (\<lambda>(table, unitByPath) (unitIndex, unit).
     bindR (get_prop ''applicationUnitSlot'' unit) (\<lambda>slot.
     bindR (if \<not> number_equals slot (int unitIndex) then Inr True
            else bindR (get_prop ''chunkSlot'' unit) (\<lambda>chunkSlot. Inr (\<not> number_equals chunkSlot (int unitIndex)))) (\<lambda>changed.
     bindR (membership_failWhen changed (output @ '' changed its numbered chunk slots'')) (\<lambda>_.
     bindR (moduleGraphLogicalUnit unit (output @ '' unit '' @ show_nat unitIndex)) (\<lambda>logical.
     bindR (membership_failWhen (logicalModulePath logical \<in> fst ` set unitByPath) (output @ '' repeats '' @ logicalModulePath logical)) (\<lambda>_.
     bindR (add_unit_occurrence cohortIndex unit logical (''official-output chunk '' @ logicalModulePath logical @ '' changed across scheduled cohorts'') table) (\<lambda>table'.
     Inr (table', unitByPath @ [(logicalModulePath logical, (logical, unit))]))))))))"

definition follow_entry :: "string \<Rightarrow> (string \<times> jsval) list \<Rightarrow> jsval list \<Rightarrow> logical_table \<Rightarrow> nat \<times> jsval \<times> jsval \<Rightarrow> logical_table res" where
  "follow_entry output descriptor units = (\<lambda>table (entryIndex, entry, scheduledEntry).
     bindR (get_prop ''handoffSlot'' entry) (\<lambda>handoffSlot.
     bindR (if \<not> number_equals handoffSlot (int entryIndex) then Inr True
            else bindR (get_prop ''entryPublicationUnitSlot'' entry) (\<lambda>recorded.
                 bindR (get_prop ''entryPublicationUnitSlots'' (own_prop descriptor ''initialization'')) (\<lambda>slots.
                 bindR (index_prop entryIndex slots) (\<lambda>expected. Inr (\<not> strict_equal recorded expected))))) (\<lambda>changed.
     bindR (membership_failWhen changed (output @ '' changed its entry handoff slots'')) (\<lambda>_.
     bindR (get_prop ''entrySlot'' entry) (\<lambda>entrySlot.
     bindR (get_prop ''entryId'' scheduledEntry) (\<lambda>entryId.
     entry_closure (output @ '' entry closure has an invalid slot'') units entryId [entrySlot] {} table))))))"

definition read_cohort :: "jsval \<Rightarrow> nat \<Rightarrow> jsval \<Rightarrow> logical_table \<Rightarrow> (logical_table \<times> membership_cohort) res" where
  "read_cohort scheduled cohortIndex compilerOutput table =
     (let output = ''official-output compiler output '' @ show_nat cohortIndex in
      bindR (assertPlainObject compilerOutput output) (\<lambda>out.
      bindR (assertPlainObject (own_prop out ''nativeApplication'') (output @ '' descriptor'')) (\<lambda>descriptor.
      case (own_prop descriptor ''units'', own_prop descriptor ''entries'') of
        (JArr units, JArr entries) \<Rightarrow>
          bindR (bindR (get_prop ''entries'' scheduled) (array_of ''entries'')) (\<lambda>scheduledEntries.
          bindR (read_entry_paths (''official-output module graph cohort '' @ show_nat cohortIndex @ '' scheduled entry '') scheduledEntries) (\<lambda>scheduledPaths.
          bindR (read_entry_paths (''official-output module graph descriptor '' @ show_nat cohortIndex @ '' entry '') entries) (\<lambda>descriptorPaths.
          bindR (membership_failWhen (scheduledPaths \<noteq> descriptorPaths) (output @ '' does not match its scheduled cohort'')) (\<lambda>_.
          bindR (publication_boundary descriptor units entries (output @ '' has an invalid publication boundary'')) (\<lambda>c.
          bindR (foldR (add_unit output cohortIndex) (table, []) (zip [0..<c] (take c units))) (\<lambda>(unitTable, unitByPath).
          bindR (foldR (follow_entry output descriptor units) unitTable (zip [0..<length entries] (zip entries scheduledEntries))) (\<lambda>entryTable.
          bindR (get_prop ''cohortId'' scheduled) (\<lambda>rawCohortId.
          bindR (requireSha256 rawCohortId (''official-output cohort '' @ show_nat cohortIndex @ '' ID'')) (\<lambda>cohortId.
          Inr (entryTable, \<lparr>memberCohortId = cohortId, memberCohortIndex = cohortIndex, memberOutput = compilerOutput,
            memberScheduled = scheduled, memberUnitByPath = unitByPath, memberUnits = units\<rparr>))))))))))
      | _ \<Rightarrow> membership_fail (output @ '' has no native chunk descriptor''))))"

section \<open>The membership\<close>

fun read_cohorts :: "nat \<Rightarrow> (jsval \<times> jsval) list \<Rightarrow> logical_table \<Rightarrow> (logical_table \<times> membership_cohort list) res" where
  "read_cohorts i [] table = Inr (table, [])"
| "read_cohorts i ((scheduled, compilerOutput) # rest) table =
     bindR (read_cohort scheduled i compilerOutput table) (\<lambda>(table', cohort).
     bindR (read_cohorts (Suc i) rest table') (\<lambda>(table'', cohorts). Inr (table'', cohort # cohorts)))"

definition is_leaf :: "string list \<Rightarrow> jsval \<Rightarrow> bool res" where
  "is_leaf commonPaths unit =
     bindR (get_prop ''entryPublication'' unit) (\<lambda>publication.
     if truthy publication then Inr True else bindR (unit_path unit) (\<lambda>path. Inr (path \<notin> JStr ` set commonPaths)))"

definition leaf_units :: "string list \<Rightarrow> membership_cohort \<Rightarrow> jsval list res" where
  "leaf_units commonPaths cohort =
     bindR (mapR (is_leaf commonPaths) (memberUnits cohort)) (\<lambda>flags. Inr (map fst (filter snd (zip (memberUnits cohort) flags))))"

definition loses_publication :: "jsval list \<Rightarrow> bool res" where
  "loses_publication leaves =
     (if leaves = [] then Inl (TypeError ''entryPublication'')
      else bindR (get_prop ''entryPublication'' (last leaves)) (\<lambda>publication. Inr (\<not> truthy publication)))"

record graph_membership =
  membershipCommon :: "graph_logical_unit common_unit list"
  membershipCohorts :: "(membership_cohort \<times> jsval list) list"
  membershipScheduleSha256 :: string

definition deriveConvexWasmOfficialOutputModuleGraphMembership :: "(string \<Rightarrow> string) \<Rightarrow> jsval \<Rightarrow> jsval \<Rightarrow> jsval \<Rightarrow> jsval \<Rightarrow> jsval \<Rightarrow> jsval
    \<Rightarrow> graph_membership res" where
  "deriveConvexWasmOfficialOutputModuleGraphMembership sha256 cohortSchedule commonPartitionAuthority compilerOutputs engineCompatibilitySha256
     precompilerPackageId wasmtimeRevision =
     bindR (assertPlainObject cohortSchedule ''official-output module graph cohort schedule'') (\<lambda>schedule.
     case own_prop schedule ''cohorts'' of
       JArr cohorts \<Rightarrow>
         bindR (membership_failWhen (cohorts = []) ''official-output module graph cohort schedule must contain cohorts'') (\<lambda>_.
         (case compilerOutputs of
            JArr outputs \<Rightarrow>
              bindR (membership_failWhen (length outputs \<noteq> length cohorts)
                ''official-output module graph compiler outputs must cover every scheduled cohort once'') (\<lambda>_.
              bindR (requireSha256 (optional_prop ''sha256'' (own_prop schedule ''identity'')) ''official-output module graph schedule SHA-256'') (\<lambda>scheduleSha256.
              bindR (read_cohorts 0 (zip cohorts outputs) []) (\<lambda>(table, members).
              bindR (selectConvexWasmStaticHermesCommonPartition sha256 (\<lambda>u. fingerprintJson sha256 (graph_logical_unit_json u)) commonPartitionAuthority
                (map snd table) engineCompatibilitySha256 precompilerPackageId (JStr scheduleSha256) wasmtimeRevision) (\<lambda>common.
              bindR (mapR (leaf_units (map (\<lambda>u. logicalModulePath (commonLogical u)) common)) members) (\<lambda>leaves.
              bindR (existsR loses_publication leaves) (\<lambda>lost.
              bindR (membership_failWhen lost ''official-output module graph leaf membership lost its entry-publication unit'') (\<lambda>_.
              Inr \<lparr>membershipCommon = common, membershipCohorts = zip members leaves, membershipScheduleSha256 = scheduleSha256\<rparr>)))))))
          | _ \<Rightarrow> membership_fail ''official-output module graph compiler outputs must cover every scheduled cohort once''))
     | _ \<Rightarrow> membership_fail ''official-output module graph cohort schedule must contain cohorts'')"

end
