(* ===== verification/GraphMembershipCorrect.thy ===== *)
theory GraphMembershipCorrect
  imports GraphMembership
begin

text \<open>
  The closure of an entry marks exactly the units that its slot reaches over chunk dependencies, and the
  selected common unit lists exactly the entries whose complete closures contain it.
\<close>

section \<open>Marking\<close>

definition mark :: "jsval \<Rightarrow> string set \<Rightarrow> logical_table \<Rightarrow> logical_table" where
  "mark e P table = map (\<lambda>(p, c). (p, if p \<in> P then c\<lparr>candidateEntryIds := js_set_add (candidateEntryIds c) e\<rparr> else c)) table"

lemma change_candidate_map:
  "distinct (map fst table) \<Longrightarrow> change_candidate p f table = map (\<lambda>(q, c). (q, if q = p then f c else c)) table"
proof (induction table)
  case (Cons a table)
  obtain q c where a: "a = (q, c)" by (cases a)
  have "map (\<lambda>(q, c). (q, if q = p then f c else c)) table = table" if "p \<notin> fst ` set table"
    using that by (intro map_idI) force
  then show ?case using Cons by (auto simp: a)
qed simp

lemma add_entry_id_mark: "distinct (map fst table) \<Longrightarrow> add_entry_id e p table = mark e {p} table"
  unfolding add_entry_id_def mark_def change_candidate_map singleton_iff by (rule refl)

lemma mark_mark: "mark e P (mark e Q table) = mark e (P \<union> Q) table"
  by (auto simp: mark_def)

lemma mark_keys [simp]: "map fst (mark e P table) = map fst table"
  by (auto simp: mark_def)

lemma mark_none [simp]: "mark e {} table = table"
  by (auto simp: mark_def intro: map_idI)

lemma map_of_mark: "map_of (mark e P table) p = map_option (\<lambda>c. if p \<in> P then c\<lparr>candidateEntryIds := js_set_add (candidateEntryIds c) e\<rparr> else c) (map_of table p)"
  by (induction table) (auto simp: mark_def)

lemma map_of_keys: "map_of table p \<noteq> None \<longleftrightarrow> p \<in> set (map fst table)"
  by (simp add: map_of_eq_None_iff)

section \<open>Closures\<close>

text \<open>The units that a slot reaches over the dependencies of chunks.\<close>

inductive reaches :: "jsval list \<Rightarrow> jsval \<Rightarrow> nat \<Rightarrow> bool" for units slot where
  reaches_slot: "slot_index slot (length units) = Some i \<Longrightarrow> reaches units slot i"
| reaches_dependency: "reaches units slot i \<Longrightarrow> unit_slots (units ! i) = Inr slots \<Longrightarrow> t \<in> set slots
    \<Longrightarrow> slot_index t (length units) = Some j \<Longrightarrow> reaches units slot j"

text \<open>A unit that a closure may contain: a chunk with a known module path and valid dependency slots.\<close>

definition closure_unit :: "jsval list \<Rightarrow> string set \<Rightarrow> nat \<Rightarrow> bool" where
  "closure_unit units known i \<longleftrightarrow> units ! i \<noteq> JUndefined
     \<and> (\<exists>publication. get_prop ''entryPublication'' (units ! i) = Inr publication \<and> \<not> truthy publication)
     \<and> (\<exists>p \<in> known. unit_path (units ! i) = Inr (JStr p))
     \<and> (\<exists>slots. unit_slots (units ! i) = Inr slots \<and> (\<forall>t \<in> set slots. slot_index t (length units) \<noteq> None))"

definition paths_of :: "jsval list \<Rightarrow> nat set \<Rightarrow> string set" where
  "paths_of units R = {p. \<exists>i \<in> R. unit_path (units ! i) = Inr (JStr p)}"

lemma reaches_first:
  assumes "slot_index slot (length units) = Some i" and "unit_slots (units ! i) = Inr slots" and "t \<in> set slots" and "reaches units t j"
  shows "reaches units slot j"
  using assms(4)
proof induction
  case (reaches_slot j)
  then show ?case using reaches.reaches_dependency[OF reaches.reaches_slot[OF assms(1)] assms(2,3)] by blast
next
  case (reaches_dependency i' slots' t' j)
  then show ?case using reaches.reaches_dependency by blast
qed

lemma membership_failWhen_Inr [simp]: "membership_failWhen b m = Inr u \<longleftrightarrow> \<not> b"
  by (simp add: membership_failWhen_def membership_fail_def)

lemma membership_failWhen_passes [simp]: "membership_failWhen False m = Inr ()"
  by (simp add: membership_failWhen_def)

lemma case_string_path: "(case path of JStr p \<Rightarrow> f p | _ \<Rightarrow> Inl e) = Inr x \<longleftrightarrow> (\<exists>p. path = JStr p \<and> f p = Inr x)"
  by (cases path) auto

lemma case_option_Inl: "(case r of None \<Rightarrow> Inl e | Some y \<Rightarrow> f y) = Inr x \<longleftrightarrow> (\<exists>y. r = Some y \<and> f y = Inr x)"
  by (cases r) auto

lemma entry_closure_new:
  assumes "slot_index slot (length units) = Some i" and "i \<notin> visited"
  shows "entry_closure m units e (slot # pending) visited table =
    bindR (membership_failWhen (units ! i = JUndefined) m) (\<lambda>_.
    bindR (get_prop ''entryPublication'' (units ! i)) (\<lambda>publication.
    bindR (membership_failWhen (truthy publication) m) (\<lambda>_.
    bindR (unit_path (units ! i)) (\<lambda>path.
    case path of JStr p \<Rightarrow> (case map_of table p of None \<Rightarrow> Inl (TypeError ''entryIds'')
       | Some _ \<Rightarrow> bindR (unit_slots (units ! i)) (\<lambda>slots.
           entry_closure m units e (rev slots @ pending) (insert i visited) (add_entry_id e p table)))
    | _ \<Rightarrow> Inl (TypeError ''entryIds'')))))"
  using assms by (subst entry_closure.simps) simp

lemma entry_closure_step:
  assumes "entry_closure m units e (slot # pending) visited table = Inr t"
  obtains i where "slot_index slot (length units) = Some i" "i \<in> visited" "entry_closure m units e pending visited table = Inr t"
  | i p slots where "slot_index slot (length units) = Some i" "i \<notin> visited" "unit_slots (units ! i) = Inr slots" "unit_path (units ! i) = Inr (JStr p)"
      "map_of table p \<noteq> None" "units ! i \<noteq> JUndefined" "\<exists>publication. get_prop ''entryPublication'' (units ! i) = Inr publication \<and> \<not> truthy publication"
      "entry_closure m units e (rev slots @ pending) (insert i visited) (add_entry_id e p table) = Inr t"
proof (cases "slot_index slot (length units)")
  case None
  then show thesis using assms by (simp add: membership_fail_def)
next
  case (Some i)
  show thesis
  proof (cases "i \<in> visited")
    case True
    then show thesis using that(1) assms Some by simp
  next
    case False
    from assms[unfolded entry_closure_new[OF Some False] bindR_Inr_iff membership_failWhen_Inr case_string_path case_option_Inl] show thesis
      using that(2)[OF Some False] by blast
  qed
qed

lemma entry_closure_marks:
  assumes "entry_closure m units e pending visited table = Inr t" and "distinct (map fst table)"
  shows "\<exists>R. t = mark e (paths_of units R) table
    \<and> (\<forall>s \<in> set pending. \<exists>i. slot_index s (length units) = Some i \<and> i \<in> visited \<union> R)
    \<and> (\<forall>i \<in> R. \<exists>slots. unit_slots (units ! i) = Inr slots \<and> (\<forall>s \<in> set slots. \<exists>j. slot_index s (length units) = Some j \<and> j \<in> visited \<union> R))
    \<and> (\<forall>i \<in> R. (\<exists>s \<in> set pending. reaches units s i) \<and> closure_unit units (set (map fst table)) i)"
  using assms
proof (induction m units e pending visited table rule: entry_closure.induct)
  case (1 m units e visited table)
  then show ?case by (intro exI[of _ "{}"]) (simp add: paths_of_def)
next
  case (2 m units e slot pending visited table)
  from 2(3) show ?case
  proof (cases rule: entry_closure_step)
    case (1 i)
    then obtain R where "t = mark e (paths_of units R) table"
      "\<forall>s \<in> set pending. \<exists>i. slot_index s (length units) = Some i \<and> i \<in> visited \<union> R"
      "\<forall>i \<in> R. \<exists>slots. unit_slots (units ! i) = Inr slots \<and> (\<forall>s \<in> set slots. \<exists>j. slot_index s (length units) = Some j \<and> j \<in> visited \<union> R)"
      "\<forall>i \<in> R. (\<exists>s \<in> set pending. reaches units s i) \<and> closure_unit units (set (map fst table)) i"
      using 2(1)[of i] 2(4) by blast
    then show ?thesis using 1 by (intro exI[of _ R]) auto
  next
    case (2 i p slots)
    then obtain publication y where "get_prop ''entryPublication'' (units ! i) = Inr publication" "\<not> truthy publication" "map_of table p = Some y" by blast
    moreover have d: "distinct (map fst (add_entry_id e p table))" using \<open>distinct (map fst table)\<close> by (simp add: add_entry_id_mark)
    ultimately have ih: "\<exists>R. t = mark e (paths_of units R) (add_entry_id e p table)
        \<and> (\<forall>s \<in> set (rev slots @ pending). \<exists>j. slot_index s (length units) = Some j \<and> j \<in> insert i visited \<union> R)
        \<and> (\<forall>i' \<in> R. \<exists>slots. unit_slots (units ! i') = Inr slots \<and> (\<forall>s \<in> set slots. \<exists>j. slot_index s (length units) = Some j \<and> j \<in> insert i visited \<union> R))
        \<and> (\<forall>i' \<in> R. (\<exists>s \<in> set (rev slots @ pending). reaches units s i') \<and> closure_unit units (set (map fst (add_entry_id e p table))) i')"
      using "2.IH"(2)[of i "()" publication "()" "JStr p" p y slots] 2 by simp
    then obtain R where t: "t = mark e (paths_of units R) (add_entry_id e p table)"
      and a: "\<forall>s \<in> set (rev slots @ pending). \<exists>j. slot_index s (length units) = Some j \<and> j \<in> insert i visited \<union> R"
      and b: "\<forall>k \<in> R. \<exists>slots. unit_slots (units ! k) = Inr slots
        \<and> (\<forall>s \<in> set slots. \<exists>j. slot_index s (length units) = Some j \<and> j \<in> insert i visited \<union> R)"
      and c: "\<forall>k \<in> R. (\<exists>s \<in> set (rev slots @ pending). reaches units s k) \<and> closure_unit units (set (map fst table)) k"
      using d by (auto simp: add_entry_id_mark[OF \<open>distinct (map fst table)\<close>])
    have "paths_of units (insert i R) = paths_of units R \<union> {p}" using 2(4) by (auto simp: paths_of_def)
    then have "t = mark e (paths_of units (insert i R)) table"
      by (simp add: t add_entry_id_mark[OF \<open>distinct (map fst table)\<close>] mark_mark)
    moreover have "\<forall>s \<in> set (slot # pending). \<exists>j. slot_index s (length units) = Some j \<and> j \<in> visited \<union> insert i R" using a 2(1) by auto
    moreover have "\<forall>k \<in> insert i R. \<exists>slots. unit_slots (units ! k) = Inr slots
        \<and> (\<forall>s \<in> set slots. \<exists>j. slot_index s (length units) = Some j \<and> j \<in> visited \<union> insert i R)" using a b 2(3) by auto
    moreover have "\<exists>s \<in> set (slot # pending). reaches units s k" if k: "k \<in> insert i R" for k
    proof (cases "k = i")
      case True
      then show ?thesis using reaches.reaches_slot[OF 2(1)] by auto
    next
      case False
      then obtain s where "s \<in> set slots \<or> s \<in> set pending" "reaches units s k" using k c by auto
      then show ?thesis using reaches_first[OF 2(1,3)] by auto
    qed
    moreover have "closure_unit units (set (map fst table)) i" unfolding closure_unit_def
    proof (intro conjI)
      have "p \<in> set (map fst table)" using 2(5) unfolding map_of_keys .
      then show "\<exists>p \<in> set (map fst table). unit_path (units ! i) = Inr (JStr p)" using 2(4) by (rule bexI[rotated])
      have "slot_index s (length units) \<noteq> None" if "s \<in> set slots" for s
      proof -
        have "\<exists>j. slot_index s (length units) = Some j \<and> j \<in> insert i visited \<union> R" using a that by simp
        then show ?thesis by force
      qed
      then show "\<exists>slots. unit_slots (units ! i) = Inr slots \<and> (\<forall>t \<in> set slots. slot_index t (length units) \<noteq> None)" using 2(3) by blast
    qed (use 2(6,7) in blast)+
    ultimately show ?thesis using c by (intro exI[of _ "insert i R"]) blast
  qed
qed

lemma reaches_closed:
  assumes "reaches units slot i" and "\<exists>j. slot_index slot (length units) = Some j \<and> j \<in> R"
    and "\<forall>k \<in> R. \<exists>slots. unit_slots (units ! k) = Inr slots \<and> (\<forall>s \<in> set slots. \<exists>j. slot_index s (length units) = Some j \<and> j \<in> R)"
  shows "i \<in> R"
  using assms(1)
proof induction
  case (reaches_slot i)
  then show ?case using assms(2) by auto
next
  case (reaches_dependency i slots t j)
  then obtain slots' where "unit_slots (units ! i) = Inr slots'" "\<forall>s \<in> set slots'. \<exists>j. slot_index s (length units) = Some j \<and> j \<in> R"
    using assms(3) by blast
  then show ?case using reaches_dependency by fastforce
qed

lemma entry_closure_exact:
  assumes "entry_closure m units e [slot] {} table = Inr t" and "distinct (map fst table)"
  shows "t = mark e (paths_of units {i. reaches units slot i}) table"
    and "slot_index slot (length units) \<noteq> None"
    and "reaches units slot i \<Longrightarrow> closure_unit units (set (map fst table)) i"
proof -
  obtain R where R: "t = mark e (paths_of units R) table"
    "\<forall>s \<in> set [slot]. \<exists>i. slot_index s (length units) = Some i \<and> i \<in> {} \<union> R"
    "\<forall>i \<in> R. \<exists>slots. unit_slots (units ! i) = Inr slots \<and> (\<forall>s \<in> set slots. \<exists>j. slot_index s (length units) = Some j \<and> j \<in> {} \<union> R)"
    "\<forall>i \<in> R. (\<exists>s \<in> set [slot]. reaches units s i) \<and> closure_unit units (set (map fst table)) i"
    using entry_closure_marks[OF assms] by blast
  then have r: "t = mark e (paths_of units R) table" "\<exists>i. slot_index slot (length units) = Some i \<and> i \<in> R"
    "\<forall>i \<in> R. \<exists>slots. unit_slots (units ! i) = Inr slots \<and> (\<forall>s \<in> set slots. \<exists>j. slot_index s (length units) = Some j \<and> j \<in> R)"
    "\<forall>i \<in> R. reaches units slot i \<and> closure_unit units (set (map fst table)) i" by simp_all
  have "R = {i. reaches units slot i}" using r(2-4) reaches_closed by blast
  then show "t = mark e (paths_of units {i. reaches units slot i}) table" "reaches units slot i \<Longrightarrow> closure_unit units (set (map fst table)) i"
    using r(1,4) by blast+
  show "slot_index slot (length units) \<noteq> None" using r(2) by fastforce
qed

lemma entry_closure_succeeds:
  assumes "\<And>s i. s \<in> set pending \<Longrightarrow> reaches units s i \<Longrightarrow> closure_unit units (set (map fst table)) i"
    and "\<And>s. s \<in> set pending \<Longrightarrow> slot_index s (length units) \<noteq> None" and "distinct (map fst table)"
  shows "\<exists>t. entry_closure m units e pending visited table = Inr t"
  using assms
proof (induction m units e pending visited table rule: entry_closure.induct)
  case (1 m units e visited table)
  then show ?case by simp
next
  case (2 m units e slot pending visited table)
  then obtain i where i: "slot_index slot (length units) = Some i" by fastforce
  show ?case
  proof (cases "i \<in> visited")
    case True
    have "\<exists>t. entry_closure m units e pending visited table = Inr t"
      by (rule "2.IH"(1)[OF i True]) (use "2.prems" in auto)
    then show ?thesis using i True by simp
  next
    case False
    have g: "closure_unit units (set (map fst table)) i" by (rule "2.prems"(1)[OF _ reaches.reaches_slot[OF i]]) simp
    then obtain publication p slots where
      u: "units ! i \<noteq> JUndefined" "get_prop ''entryPublication'' (units ! i) = Inr publication" "\<not> truthy publication"
      "p \<in> set (map fst table)" "unit_path (units ! i) = Inr (JStr p)" "unit_slots (units ! i) = Inr slots"
      "\<forall>t \<in> set slots. slot_index t (length units) \<noteq> None" unfolding closure_unit_def by blast
    have "map_of table p \<noteq> None" using u(4) unfolding map_of_keys .
    then obtain y where y: "map_of table p = Some y" by (rule not_None_eq[THEN iffD1, THEN exE])
    have "\<exists>t. entry_closure m units e (rev slots @ pending) (insert i visited) (add_entry_id e p table) = Inr t"
    proof (rule "2.IH"(2)[OF i False _ u(2) _ u(5) refl y u(6)])
      show "membership_failWhen (units ! i = JUndefined) m = Inr ()" "membership_failWhen (truthy publication) m = Inr ()" using u(1,3) by simp_all
      show "\<And>s k. s \<in> set (rev slots @ pending) \<Longrightarrow> reaches units s k \<Longrightarrow> closure_unit units (set (map fst (add_entry_id e p table))) k"
      proof -
        fix s k assume s: "s \<in> set (rev slots @ pending)" "reaches units s k"
        have "closure_unit units (set (map fst table)) k"
        proof (cases "s \<in> set pending")
          case True
          then show ?thesis by (intro "2.prems"(1)[OF _ s(2)]) simp
        next
          case False
          then have "s \<in> set slots" using s(1) by simp
          then show ?thesis by (intro "2.prems"(1)[OF _ reaches_first[OF i u(6) _ s(2)]]) simp_all
        qed
        then show "closure_unit units (set (map fst (add_entry_id e p table))) k" by (simp only: add_entry_id_mark[OF "2.prems"(3)] mark_keys)
      qed
      show "\<And>s. s \<in> set (rev slots @ pending) \<Longrightarrow> slot_index s (length units) \<noteq> None" using u(7) "2.prems"(2) by simp blast
      show "distinct (map fst (add_entry_id e p table))" using "2.prems"(3) by (simp add: add_entry_id_mark)
    qed
    then show ?thesis unfolding entry_closure_new[OF i False] using u y by simp
  qed
qed

section \<open>Entries of a table\<close>

definition ids :: "logical_table \<Rightarrow> string \<Rightarrow> jsval set" where
  "ids table p = (case map_of table p of None \<Rightarrow> {} | Some c \<Rightarrow> set (candidateEntryIds c))"

definition good_table :: "logical_table \<Rightarrow> bool" where
  "good_table table \<longleftrightarrow> distinct (map fst table) \<and> (\<forall>(p, c) \<in> set table. logicalModulePath (candidateLogical c) = p)"

lemma ids_mark: "P \<subseteq> set (map fst table) \<Longrightarrow> ids (mark e P table) p = ids table p \<union> (if p \<in> P then {e} else {})"
proof -
  assume P: "P \<subseteq> set (map fst table)"
  show ?thesis
  proof (cases "map_of table p")
    case None
    then have "p \<notin> P" using P map_of_keys[of table p] by blast
    then show ?thesis using None by (simp add: ids_def map_of_mark)
  next
    case (Some c)
    then show ?thesis by (auto simp: ids_def map_of_mark)
  qed
qed

lemma good_mark: "good_table table \<Longrightarrow> good_table (mark e P table)"
  unfolding good_table_def by (simp only: mark_keys) (auto simp: mark_def)

lemma add_occurrence_keeps:
  assumes "add_unit_occurrence k unit l msg table = Inr table'" and "good_table table"
  shows "good_table table' \<and> ids table' = ids table"
proof (cases "map_of table (logicalModulePath l)")
  case None
  then have new: "logicalModulePath l \<notin> set (map fst table)" using map_of_keys[of table "logicalModulePath l"] by blast
  have t: "table' = table @ [(logicalModulePath l, \<lparr>candidateEntryIds = [], candidateLogical = l, candidateOccurrences = [(int k, unit)]\<rparr>)]"
    using assms(1) None by (simp add: add_unit_occurrence_def)
  have "ids table' p = ids table p" for p using None by (simp add: ids_def t map_add_def split: option.splits)
  moreover have "good_table table'" using assms(2) new by (auto simp: good_table_def t)
  ultimately show ?thesis by blast
next
  case (Some c)
  let ?f = "\<lambda>c. c\<lparr>candidateOccurrences := candidateOccurrences c @ [(int k, unit)]\<rparr>"
  have d: "distinct (map fst table)" using assms(2) by (simp add: good_table_def)
  have t: "table' = map (\<lambda>(q, c). (q, if q = logicalModulePath l then ?f c else c)) table"
    using assms(1) Some change_candidate_map[OF d] by (auto simp: add_unit_occurrence_def bindR_Inr_iff)
  have "map_of table' p = map_option (\<lambda>c. if p = logicalModulePath l then ?f c else c) (map_of table p)" for p
    unfolding t by (induction table) auto
  then have "ids table' p = ids table p" for p by (auto simp: ids_def split: option.splits)
  moreover have keys: "map fst table' = map fst table" unfolding t by auto
  have "good_table table'" using assms(2) unfolding good_table_def keys by (auto simp: t)
  ultimately show ?thesis by blast
qed

section \<open>One cohort\<close>

text \<open>The entry \<open>e\<close> of a cohort reaches the module path \<open>p\<close> in its complete closure.\<close>

definition entry_reaches :: "jsval \<Rightarrow> jsval \<Rightarrow> jsval \<Rightarrow> string \<Rightarrow> bool" where
  "entry_reaches scheduled compilerOutput e p \<longleftrightarrow>
     (\<exists>out descriptor units entries scheduledEntries h slot i.
        compilerOutput = JObj out \<and> own_prop out ''nativeApplication'' = JObj descriptor \<and> own_prop descriptor ''units'' = JArr units
      \<and> own_prop descriptor ''entries'' = JArr entries \<and> get_prop ''entries'' scheduled = Inr (JArr scheduledEntries)
      \<and> h < length entries \<and> h < length scheduledEntries \<and> get_prop ''entryId'' (scheduledEntries ! h) = Inr e
      \<and> get_prop ''entrySlot'' (entries ! h) = Inr slot \<and> reaches units slot i \<and> unit_path (units ! i) = Inr (JStr p))"

lemma add_unit_keeps:
  assumes "add_unit label k (table, paths) (i, unit) = Inr (table', paths')" and "good_table table"
  shows "good_table table' \<and> ids table' = ids table"
  using assms(1) add_occurrence_keeps[OF _ assms(2)] unfolding add_unit_def prod.case bindR_Inr_iff by blast

lemma add_units_keep:
  assumes "foldR (add_unit label k) (table, paths) xs = Inr (table', paths')" and "good_table table"
  shows "good_table table' \<and> ids table' = ids table"
proof -
  have "good_table (fst (table', paths')) \<and> ids (fst (table', paths')) = ids table"
  proof (rule foldR_invariant[OF assms(1), where P="\<lambda>s. good_table (fst s) \<and> ids (fst s) = ids table"])
    fix s x s' assume "good_table (fst s) \<and> ids (fst s) = ids table" "add_unit label k s x = Inr s'"
    then show "good_table (fst s') \<and> ids (fst s') = ids table"
      using add_unit_keeps[of label k "fst s" "snd s" "fst x" "snd x" "fst s'" "snd s'"] by simp
  qed (use assms(2) in simp)
  then show ?thesis by simp
qed

lemma follow_entry_marks:
  assumes "follow_entry label descriptor units table (h, entry, scheduledEntry) = Inr table'" and "good_table table"
  shows "\<exists>slot e. get_prop ''entrySlot'' entry = Inr slot \<and> get_prop ''entryId'' scheduledEntry = Inr e \<and> good_table table'
    \<and> (\<forall>p. ids table' p = ids table p \<union> (if p \<in> paths_of units {i. reaches units slot i} then {e} else {}))"
proof -
  obtain slot e msg where s: "get_prop ''entrySlot'' entry = Inr slot" "get_prop ''entryId'' scheduledEntry = Inr e"
    and c: "entry_closure msg units e [slot] {} table = Inr table'"
    using assms(1) unfolding follow_entry_def prod.case bindR_Inr_iff by blast
  have d: "distinct (map fst table)" using assms(2) by (simp add: good_table_def)
  note x = entry_closure_exact[OF c d]
  have "paths_of units {i. reaches units slot i} \<subseteq> set (map fst table)"
  proof
    fix p assume "p \<in> paths_of units {i. reaches units slot i}"
    then obtain i where i: "reaches units slot i" "unit_path (units ! i) = Inr (JStr p)" by (auto simp: paths_of_def)
    then obtain q where "q \<in> set (map fst table)" "unit_path (units ! i) = Inr (JStr q)" using x(3)[OF i(1)] unfolding closure_unit_def by blast
    then show "p \<in> set (map fst table)" using i(2) by simp
  qed
  then show ?thesis using s ids_mark good_mark[OF assms(2)] unfolding x(1) by blast
qed

lemma follow_entries_mark:
  assumes "foldR (follow_entry label descriptor units) table xs = Inr table'" and "good_table table"
  shows "good_table table' \<and> ids table' p = ids table p \<union> {e. \<exists>(h, entry, scheduledEntry) \<in> set xs. \<exists>slot.
    get_prop ''entrySlot'' entry = Inr slot \<and> get_prop ''entryId'' scheduledEntry = Inr e \<and> p \<in> paths_of units {i. reaches units slot i}}"
  using assms
proof (induction xs arbitrary: table)
  case (Cons x xs)
  obtain h entry scheduledEntry where x: "x = (h, entry, scheduledEntry)" by (cases x)
  obtain t where t: "follow_entry label descriptor units table (h, entry, scheduledEntry) = Inr t"
    "foldR (follow_entry label descriptor units) t xs = Inr table'" using Cons.prems(1) unfolding x foldR.simps bindR_Inr_iff by blast
  obtain slot e where s: "get_prop ''entrySlot'' entry = Inr slot" "get_prop ''entryId'' scheduledEntry = Inr e" "good_table t"
    "ids t p = ids table p \<union> (if p \<in> paths_of units {i. reaches units slot i} then {e} else {})"
    using follow_entry_marks[OF t(1) Cons.prems(2)] by blast
  show ?case using Cons.IH[OF t(2) s(3)] s(1,2,4) by (auto simp: x)
qed simp

lemma read_entry_paths_length: "read_entry_paths pre xs = Inr ys \<Longrightarrow> length ys = length xs"
  by (auto simp: read_entry_paths_def dest: mapiR_length)

lemma case_arr_arr:
  "(case (a, b) of (JArr x, JArr y) \<Rightarrow> f x y | _ \<Rightarrow> membership_fail m) = Inr r \<longleftrightarrow> (\<exists>x y. a = JArr x \<and> b = JArr y \<and> f x y = Inr r)"
  by (cases a; cases b) (simp_all add: membership_fail_def)

lemma array_of_Inr: "array_of n v = Inr xs \<longleftrightarrow> v = JArr xs"
  by (cases v) auto

lemma plain_Inr: "assertPlainObject v d = Inr kvs \<longleftrightarrow> v = JObj kvs"
  by (cases v) auto

lemma read_cohort_marks:
  assumes "read_cohort scheduled k compilerOutput table = Inr (table', member)" and "good_table table"
  shows "good_table table' \<and> ids table' p = ids table p \<union> {e. entry_reaches scheduled compilerOutput e p}"
proof -
  obtain out descriptor units entries scheduledEntries unitTable unitByPath label c pre1 pre2 paths paths' where
    o: "compilerOutput = JObj out" "own_prop out ''nativeApplication'' = JObj descriptor" "own_prop descriptor ''units'' = JArr units"
      "own_prop descriptor ''entries'' = JArr entries" "get_prop ''entries'' scheduled = Inr (JArr scheduledEntries)"
    and l: "read_entry_paths pre1 scheduledEntries = Inr paths" "read_entry_paths pre2 entries = Inr paths'" "\<not> paths \<noteq> paths'"
    and u: "foldR (add_unit label k) (table, []) (zip [0..<c] (take c units)) = Inr (unitTable, unitByPath)"
    and f: "foldR (follow_entry label descriptor units) unitTable (zip [0..<length entries] (zip entries scheduledEntries)) = Inr table'"
    using assms(1) unfolding read_cohort_def Let_def bindR_Inr_iff case_arr_arr plain_Inr array_of_Inr membership_failWhen_Inr
    unfolding split_paired_Ex prod.case bindR_Inr_iff by blast
  have len: "length scheduledEntries = length entries" using l read_entry_paths_length by metis
  have keep: "good_table unitTable" "ids unitTable = ids table" using add_units_keep[OF u assms(2)] by blast+
  note m = follow_entries_mark[OF f keep(1), of p]
  have "{e. \<exists>(h, entry, scheduledEntry) \<in> set (zip [0..<length entries] (zip entries scheduledEntries)). \<exists>slot.
      get_prop ''entrySlot'' entry = Inr slot \<and> get_prop ''entryId'' scheduledEntry = Inr e \<and> p \<in> paths_of units {i. reaches units slot i}}
    = {e. entry_reaches scheduled compilerOutput e p}" (is "?A = ?B")
  proof (intro set_eqI iffI)
    fix e assume "e \<in> ?A"
    then obtain h slot where "h < length entries" "get_prop ''entrySlot'' (entries ! h) = Inr slot"
      "get_prop ''entryId'' (scheduledEntries ! h) = Inr e" "p \<in> paths_of units {i. reaches units slot i}"
      using len by (auto simp: set_zip)
    then show "e \<in> ?B" using o len by (auto simp: entry_reaches_def paths_of_def)
  next
    fix e assume "e \<in> ?B"
    then obtain h slot i where h: "h < length entries" "get_prop ''entrySlot'' (entries ! h) = Inr slot"
      "get_prop ''entryId'' (scheduledEntries ! h) = Inr e" "reaches units slot i" "unit_path (units ! i) = Inr (JStr p)"
      using o by (auto simp: entry_reaches_def)
    have "(h, entries ! h, scheduledEntries ! h) \<in> set (zip [0..<length entries] (zip entries scheduledEntries))"
      using h(1) len by (auto simp: set_zip intro!: exI[of _ h])
    moreover have "p \<in> paths_of units {i. reaches units slot i}" using h(4,5) by (auto simp: paths_of_def)
    ultimately show "e \<in> ?A" using h(2,3) by (intro CollectI) (rule bexI[of _ "(h, entries ! h, scheduledEntries ! h)"]; simp)
  qed
  then show ?thesis using m keep(2) by simp
qed

lemma read_cohorts_mark:
  assumes "read_cohorts k xs table = Inr (table', members)" and "good_table table"
  shows "good_table table' \<and> ids table' p = ids table p \<union> {e. \<exists>(scheduled, compilerOutput) \<in> set xs. entry_reaches scheduled compilerOutput e p}"
  using assms
proof (induction k xs table arbitrary: members rule: read_cohorts.induct)
  case (2 i scheduled compilerOutput rest table)
  obtain t member members' where t: "read_cohort scheduled i compilerOutput table = Inr (t, member)"
    "read_cohorts (Suc i) rest t = Inr (table', members')"
    using "2.prems"(1) unfolding read_cohorts.simps bindR_Inr_iff split_paired_Ex prod.case by blast
  have g: "good_table t" "ids t p = ids table p \<union> {e. entry_reaches scheduled compilerOutput e p}"
    using read_cohort_marks[OF t(1) "2.prems"(2)] by blast+
  show ?case using "2.IH"[OF t(1) refl t(2) g(1)] g(2) by auto
qed simp

section \<open>The selected unit\<close>

lemma partition_failWhen_Inr [simp]: "partition_failWhen b m = Inr u \<longleftrightarrow> \<not> b"
  by (simp add: partition_failWhen_def partition_fail_def)

lemma entryIdsOf_Inr:
  assumes "entryIdsOf values = Inr es"
  shows "set es = {s. JStr s \<in> set values}" "sorted es" "distinct es"
proof -
  obtain strings where r: "mapR (\<lambda>v. case entry_id v of None \<Rightarrow> partition_fail ''reviewed common candidate entry IDs must be non-empty strings''
         | Some s \<Rightarrow> Inr s) values = Inr strings" and d: "distinct (sort_strings strings)" and e: "es = sort_strings strings"
    using assms unfolding entryIdsOf_def bindR_Inr_iff partition_failWhen_Inr by blast
  have one: "v = JStr s" if "(case entry_id v of None \<Rightarrow> partition_fail m | Some s \<Rightarrow> Inr s) = Inr s" for v s m
    using that by (cases v) (auto simp: partition_fail_def split: if_splits)
  have "list_all2 (\<lambda>v s. v = JStr s) values strings"
    using r unfolding mapR_Inr_iff by (rule list_all2_mono) (rule one)
  then have "values = map JStr strings" by (induction rule: list_all2_induct) auto
  then show "set es = {s. JStr s \<in> set values}" "sorted es" "distinct es"
    using e d by (auto simp: sorted_sort_strings)
qed

lemma admitted_unit:
  assumes "admit_common_unit f content symbol engine package revision schedule c = Inr u"
  shows "commonLogical u = candidateLogical c" "entryIdsOf (candidateEntryIds c) = Inr (commonEntryIds u)" "2 \<le> length (commonEntryIds u)"
    "f (candidateLogical c) = Inr (reviewedLogicalIdentity content)" "mset (commonOccurrences u) = mset (candidateOccurrences c)"
    "\<forall>occurrence \<in> set (commonOccurrences u). occurs_as (reviewedOfficialIdentity content) occurrence" "commonOccurrences u \<noteq> []"
proof -
  obtain es fingerprint where r: "entryIdsOf (candidateEntryIds c) = Inr es" "\<not> length es < 2" "f (candidateLogical c) = Inr fingerprint"
    "\<not> fingerprint \<noteq> reviewedLogicalIdentity content" "\<not> candidateOccurrences c = []"
    "\<not> list_ex (\<lambda>occurrence. fst occurrence < 0 \<or> \<not> occurs_as (reviewedOfficialIdentity content) occurrence) (candidateOccurrences c)"
    and u: "u = \<lparr>commonEntryIds = es, commonSymbol = symbol, commonLogical = candidateLogical c,
       commonOccurrences = js_sort compareOccurrences (candidateOccurrences c),
       commonProof = map (\<lambda>(cohortIndex, unit). (optional_prop ''applicationUnitSlot'' unit, cohortIndex, optional_prop ''identitySha256'' unit))
         (js_sort compareOccurrences (candidateOccurrences c)), commonScheduleSha256 = schedule\<rparr>"
    using assms unfolding admit_common_unit_def Let_def bindR_Inr_iff partition_failWhen_Inr by blast
  show "commonLogical u = candidateLogical c" "entryIdsOf (candidateEntryIds c) = Inr (commonEntryIds u)" "2 \<le> length (commonEntryIds u)"
    "f (candidateLogical c) = Inr (reviewedLogicalIdentity content)" "mset (commonOccurrences u) = mset (candidateOccurrences c)"
    "\<forall>occurrence \<in> set (commonOccurrences u). occurs_as (reviewedOfficialIdentity content) occurrence" "commonOccurrences u \<noteq> []"
    using r by (auto simp: u list_ex_iff)
qed

lemma selected_unit:
  assumes "selectConvexWasmStaticHermesCommonPartition sha256 f authority candidates engine package schedule revision = Inr common"
    and "u \<in> set common"
  shows "\<exists>reviewed content symbol c scheduleSha256. normalizeConvexWasmStaticHermesCommonPartitionAuthority sha256 authority = Inr reviewed
    \<and> content \<in> set (partitionUnits reviewed) \<and> common = [u]
    \<and> filter (\<lambda>c. list_ex (occurs_as (reviewedOfficialIdentity content)) (candidateOccurrences c)) candidates = [c]
    \<and> admit_common_unit f content symbol engine package revision scheduleSha256 c = Inr u"
proof -
  obtain reviewed scheduleSha256 where r: "normalizeConvexWasmStaticHermesCommonPartitionAuthority sha256 authority = Inr reviewed"
    and rest: "(case zip (partitionUnits reviewed) (partitionSymbols reviewed) of
       [] \<Rightarrow> Inr []
     | (content, factorySymbol) # _ \<Rightarrow>
         (case filter (\<lambda>c. list_ex (occurs_as (reviewedOfficialIdentity content)) (candidateOccurrences c)) candidates of
            [] \<Rightarrow> Inr []
          | [c] \<Rightarrow> bindR (admit_common_unit f content factorySymbol engine package revision scheduleSha256 c) (\<lambda>common. Inr [common])
          | _ \<Rightarrow> partition_fail ''reviewed official unit occurs in more than one logical candidate'')) = Inr common"
    using assms(1) unfolding selectConvexWasmStaticHermesCommonPartition_def bindR_Inr_iff by blast
  obtain content symbol more where z: "zip (partitionUnits reviewed) (partitionSymbols reviewed) = (content, symbol) # more"
    using rest assms(2) by (cases "zip (partitionUnits reviewed) (partitionSymbols reviewed)") auto
  obtain c where c: "filter (\<lambda>c. list_ex (occurs_as (reviewedOfficialIdentity content)) (candidateOccurrences c)) candidates = [c]"
    using rest assms(2) unfolding z list.case prod.case by (auto simp: partition_fail_def split: list.splits)
  have "bindR (admit_common_unit f content symbol engine package revision scheduleSha256 c) (\<lambda>common. Inr [common]) = Inr common"
    using rest unfolding z list.case prod.case c .
  then have "admit_common_unit f content symbol engine package revision scheduleSha256 c = Inr u \<and> common = [u]"
    using assms(2) unfolding bindR_Inr_iff by auto
  moreover have "(content, symbol) \<in> set (zip (partitionUnits reviewed) (partitionSymbols reviewed))" by (simp add: z)
  then have "content \<in> set (partitionUnits reviewed)" by (rule set_zip_leftD)
  ultimately show ?thesis using r c by blast
qed

section \<open>The membership\<close>

lemma membership_parts:
  assumes "deriveConvexWasmOfficialOutputModuleGraphMembership sha256 cohortSchedule authority compilerOutputs engine package revision = Inr m"
  obtains schedule cohorts outputs table members where "cohortSchedule = JObj schedule" "own_prop schedule ''cohorts'' = JArr cohorts"
    "compilerOutputs = JArr outputs" "length outputs = length cohorts"
    "read_cohorts 0 (zip cohorts outputs) [] = Inr (table, members)"
    "selectConvexWasmStaticHermesCommonPartition sha256 (\<lambda>u. fingerprintJson sha256 (graph_logical_unit_json u)) authority
        (map snd table) engine package (JStr (membershipScheduleSha256 m)) revision = Inr (membershipCommon m)"
    "mapR (leaf_units (map (\<lambda>u. logicalModulePath (commonLogical u)) (membershipCommon m))) members = Inr (map snd (membershipCohorts m))"
    "map fst (membershipCohorts m) = members"
proof -
  have arr: "(case v of JArr xs \<Rightarrow> f xs | _ \<Rightarrow> membership_fail msg) = Inr x \<longleftrightarrow> (\<exists>xs. v = JArr xs \<and> f xs = Inr x)" for v msg x and f :: "_ \<Rightarrow> graph_membership res"
    by (cases v) (simp_all add: membership_fail_def)
  obtain schedule cohorts outputs table members scheduleSha256 common leaves where r: "cohortSchedule = JObj schedule" "own_prop schedule ''cohorts'' = JArr cohorts"
    "compilerOutputs = JArr outputs" "\<not> length outputs \<noteq> length cohorts" "read_cohorts 0 (zip cohorts outputs) [] = Inr (table, members)"
    "selectConvexWasmStaticHermesCommonPartition sha256 (\<lambda>u. fingerprintJson sha256 (graph_logical_unit_json u)) authority
        (map snd table) engine package (JStr scheduleSha256) revision = Inr common"
    "mapR (leaf_units (map (\<lambda>u. logicalModulePath (commonLogical u)) common)) members = Inr leaves"
    "m = \<lparr>membershipCommon = common, membershipCohorts = zip members leaves, membershipScheduleSha256 = scheduleSha256\<rparr>"
    using assms unfolding deriveConvexWasmOfficialOutputModuleGraphMembership_def bindR_Inr_iff arr plain_Inr membership_failWhen_Inr
    unfolding split_paired_Ex prod.case bindR_Inr_iff membership_failWhen_Inr by blast
  have "length leaves = length members" using mapR_length[OF r(7)] .
  then show thesis using that[of schedule cohorts outputs table members] r by simp
qed

lemma common_unit_entries:
  assumes "deriveConvexWasmOfficialOutputModuleGraphMembership sha256 (JObj schedule) authority (JArr outputs) engine package revision = Inr m"
    and "own_prop schedule ''cohorts'' = JArr cohorts" and "u \<in> set (membershipCommon m)"
  shows "set (commonEntryIds u) = {s. \<exists>k < length cohorts. entry_reaches (cohorts ! k) (outputs ! k) (JStr s) (logicalModulePath (commonLogical u))}"
    "sorted (commonEntryIds u)" "distinct (commonEntryIds u)" "2 \<le> length (commonEntryIds u)"
proof -
  obtain table members where t: "length outputs = length cohorts" "read_cohorts 0 (zip cohorts outputs) [] = Inr (table, members)"
    "selectConvexWasmStaticHermesCommonPartition sha256 (\<lambda>u. fingerprintJson sha256 (graph_logical_unit_json u)) authority
        (map snd table) engine package (JStr (membershipScheduleSha256 m)) revision = Inr (membershipCommon m)"
    using membership_parts[OF assms(1)] assms(2) by (metis jsval.inject(4,5))
  obtain content symbol c scheduleSha256 where c: "filter (\<lambda>c. list_ex (occurs_as (reviewedOfficialIdentity content)) (candidateOccurrences c)) (map snd table) = [c]"
    and a: "admit_common_unit (\<lambda>u. fingerprintJson sha256 (graph_logical_unit_json u)) content symbol engine package revision scheduleSha256 c = Inr u"
    using selected_unit[OF t(3) assms(3)] by blast
  have g: "good_table []" by (simp add: good_table_def)
  note r = read_cohorts_mark[OF t(2) g]
  have "c \<in> set (filter (\<lambda>c. list_ex (occurs_as (reviewedOfficialIdentity content)) (candidateOccurrences c)) (map snd table))" unfolding c by simp
  then have "c \<in> set (map snd table)" by (rule filter_is_subset[THEN subsetD])
  then obtain p where p: "(p, c) \<in> set table" by auto
  have path: "logicalModulePath (candidateLogical c) = p" and look: "map_of table p = Some c"
    using r p by (auto simp: good_table_def)
  have "set (candidateEntryIds c) = {e. \<exists>(scheduled, compilerOutput) \<in> set (zip cohorts outputs). entry_reaches scheduled compilerOutput e p}"
    using r[of p] look by (simp add: ids_def)
  also have "\<dots> = {e. \<exists>k < length cohorts. entry_reaches (cohorts ! k) (outputs ! k) e p}"
    using t(1) by (auto simp: set_zip)
  finally show "set (commonEntryIds u) = {s. \<exists>k < length cohorts. entry_reaches (cohorts ! k) (outputs ! k) (JStr s) (logicalModulePath (commonLogical u))}"
    using entryIdsOf_Inr(1)[OF admitted_unit(2)[OF a]] admitted_unit(1)[OF a] path by simp
  show "sorted (commonEntryIds u)" "distinct (commonEntryIds u)" "2 \<le> length (commonEntryIds u)"
    using entryIdsOf_Inr(2,3)[OF admitted_unit(2)[OF a]] admitted_unit(3)[OF a] by blast+
qed

end
