(* ===== verification/GraphMembershipLeaves.thy ===== *)
theory GraphMembershipLeaves
  imports GraphMembershipCorrect
begin

text \<open>
  What a cohort gives up to the common unit: every chunk that is not among the leaves of its cohort is an
  occurrence of the common unit and carries the reviewed identity.
\<close>

section \<open>Occurrences\<close>

definition occs :: "logical_table \<Rightarrow> string \<Rightarrow> (int \<times> jsval) set" where
  "occs table p = (case map_of table p of None \<Rightarrow> {} | Some c \<Rightarrow> set (candidateOccurrences c))"

lemma occs_mark: "occs (mark e P table) p = occs table p"
  by (auto simp: occs_def map_of_mark split: option.splits)

lemma add_occurrence_occs:
  assumes "add_unit_occurrence k unit l msg table = Inr table'" and "good_table table"
  shows "occs table' p = occs table p \<union> (if p = logicalModulePath l then {(int k, unit)} else {})"
proof (cases "map_of table (logicalModulePath l)")
  case None
  then have "table' = table @ [(logicalModulePath l, \<lparr>candidateEntryIds = [], candidateLogical = l, candidateOccurrences = [(int k, unit)]\<rparr>)]"
    using assms(1) by (simp add: add_unit_occurrence_def)
  then show ?thesis using None by (auto simp: occs_def map_add_def split: option.splits)
next
  case (Some c)
  let ?f = "\<lambda>c. c\<lparr>candidateOccurrences := candidateOccurrences c @ [(int k, unit)]\<rparr>"
  have d: "distinct (map fst table)" using assms(2) by (simp add: good_table_def)
  have t: "table' = map (\<lambda>(q, c). (q, if q = logicalModulePath l then ?f c else c)) table"
    using assms(1) Some change_candidate_map[OF d] by (auto simp: add_unit_occurrence_def bindR_Inr_iff)
  have "map_of table' p = map_option (\<lambda>c. if p = logicalModulePath l then ?f c else c) (map_of table p)"
    unfolding t by (induction table) auto
  then show ?thesis using Some by (auto simp: occs_def split: option.splits)
qed

lemma logical_unit_path:
  assumes "moduleGraphLogicalUnit unit d = Inr l"
  shows "unit_path unit = Inr (JStr (logicalModulePath l))"
proof -
  obtain u module modulePath where r: "unit = JObj u" "requireExactPlainObject (own_prop u ''module'') [''environment'', ''moduleSha256'', ''path'',
      ''sourceMap'', ''sourceMembershipSha256'', ''sourceSha256'', ''sourceSize''] (d @ ''.module'') = Inr module"
    "requireString (own_prop module ''path'') (d @ ''.module.path'') = Inr modulePath" "logicalModulePath l = modulePath"
    using assms unfolding moduleGraphLogicalUnit_def bindR_Inr_iff plain_Inr by auto
  have "own_prop u ''module'' = JObj module"
    using r(2) unfolding requireExactPlainObject_def bindR_Inr_iff plain_Inr by auto
  then show ?thesis using r(1,3,4) by (simp add: unit_path_def requireString_Inr own_prop_def[symmetric])
qed

lemma add_unit_occs:
  assumes "add_unit label k (table, paths) (i, unit) = Inr (table', paths')" and "good_table table"
  shows "\<exists>q. unit_path unit = Inr (JStr q) \<and> (\<forall>p. occs table' p = occs table p \<union> (if p = q then {(int k, unit)} else {}))"
proof -
  obtain l d msg where "moduleGraphLogicalUnit unit d = Inr l" "add_unit_occurrence k unit l msg table = Inr table'"
    using assms(1) unfolding add_unit_def prod.case bindR_Inr_iff by blast
  then show ?thesis using logical_unit_path add_occurrence_occs[OF _ assms(2)] by blast
qed

lemma add_units_occs:
  assumes "foldR (add_unit label k) (table, paths) xs = Inr (table', paths')" and "good_table table"
  shows "good_table table' \<and> (\<forall>p. occs table p \<subseteq> occs table' p)
    \<and> (\<forall>(i, unit) \<in> set xs. \<exists>q. unit_path unit = Inr (JStr q) \<and> (int k, unit) \<in> occs table' q)"
  using assms
proof (induction xs arbitrary: table paths)
  case (Cons x xs)
  obtain i unit where x: "x = (i, unit)" by (cases x)
  obtain t ps where t: "add_unit label k (table, paths) (i, unit) = Inr (t, ps)" "foldR (add_unit label k) (t, ps) xs = Inr (table', paths')"
    using Cons.prems(1) unfolding x foldR.simps bindR_Inr_iff split_paired_Ex by blast
  have g: "good_table t" using add_unit_keeps[OF t(1) Cons.prems(2)] by blast
  obtain q where q: "unit_path unit = Inr (JStr q)" "\<forall>p. occs t p = occs table p \<union> (if p = q then {(int k, unit)} else {})"
    using add_unit_occs[OF t(1) Cons.prems(2)] by blast
  have ih: "good_table table'" "\<forall>p. occs t p \<subseteq> occs table' p"
    "\<forall>(i, unit) \<in> set xs. \<exists>q. unit_path unit = Inr (JStr q) \<and> (int k, unit) \<in> occs table' q"
    using Cons.IH[OF t(2) g] by blast+
  have "(int k, unit) \<in> occs table' q" using ih(2) q(2) by fastforce
  moreover have "\<forall>p. occs table p \<subseteq> occs table' p" using ih(2) q(2) by fastforce
  ultimately show ?case using ih(1,3) q(1) by (auto simp: x)
qed simp

lemma follow_entries_occs:
  assumes "foldR (follow_entry label descriptor units) table xs = Inr table'" and "good_table table"
  shows "good_table table' \<and> (\<forall>p. occs table' p = occs table p)"
proof (rule foldR_invariant[OF assms(1), where P="\<lambda>t. good_table t \<and> (\<forall>p. occs t p = occs table p)"])
  fix t x t' assume t: "good_table t \<and> (\<forall>p. occs t p = occs table p)" "follow_entry label descriptor units t x = Inr t'"
  obtain h entry scheduledEntry where x: "x = (h, entry, scheduledEntry)" by (cases x)
  obtain slot e msg where c: "entry_closure msg units e [slot] {} t = Inr t'"
    using t(2) unfolding follow_entry_def x prod.case bindR_Inr_iff by blast
  have d: "distinct (map fst t)" using t(1) by (simp add: good_table_def)
  show "good_table t' \<and> (\<forall>p. occs t' p = occs table p)"
    using t(1) good_mark occs_mark unfolding entry_closure_exact(1)[OF c d] by blast
qed (use assms(2) in simp)

lemma existsR_False: "existsR f xs = Inr False \<longleftrightarrow> (\<forall>x \<in> set xs. f x = Inr False)"
  by (induction xs) (auto simp: bindR_Inr_iff)

lemma boundary_flags:
  assumes "publication_boundary descriptor units entries msg = Inr c" and "unit \<in> set (drop c units)"
  shows "get_prop ''entryPublication'' unit = Inr (JBool True)"
proof -
  have "existsR (flag_differs True) (drop c units) = Inr False"
    using assms(1) unfolding publication_boundary_def Let_def bindR_Inr_iff membership_failWhen_Inr by (auto split: if_splits)
  then have "flag_differs True unit = Inr False" using assms(2) unfolding existsR_False by blast
  then show ?thesis by (auto simp: flag_differs_def bindR_Inr_iff)
qed

lemma read_cohort_occs:
  assumes "read_cohort scheduled k compilerOutput table = Inr (table', member)" and "good_table table"
  shows "good_table table' \<and> (\<forall>p. occs table p \<subseteq> occs table' p) \<and> memberCohortIndex member = k
    \<and> (\<forall>unit \<in> set (memberUnits member). get_prop ''entryPublication'' unit = Inr (JBool True)
         \<or> (\<exists>q. unit_path unit = Inr (JStr q) \<and> (int k, unit) \<in> occs table' q))"
proof -
  obtain out descriptor units entries scheduledEntries unitTable unitByPath label c msg cohortId where
    b: "publication_boundary descriptor units entries msg = Inr c"
    and u: "foldR (add_unit label k) (table, []) (zip [0..<c] (take c units)) = Inr (unitTable, unitByPath)"
    and f: "foldR (follow_entry label descriptor units) unitTable (zip [0..<length entries] (zip entries scheduledEntries)) = Inr table'"
    and m: "member = \<lparr>memberCohortId = cohortId, memberCohortIndex = k, memberOutput = compilerOutput,
            memberScheduled = scheduled, memberUnitByPath = unitByPath, memberUnits = units\<rparr>"
    using assms(1) unfolding read_cohort_def Let_def bindR_Inr_iff case_arr_arr plain_Inr array_of_Inr membership_failWhen_Inr
    unfolding split_paired_Ex prod.case bindR_Inr_iff by blast
  note x = add_units_occs[OF u assms(2)]
  have g: "good_table unitTable" using x by blast
  note y = follow_entries_occs[OF f g]
  have "get_prop ''entryPublication'' unit = Inr (JBool True) \<or> (\<exists>q. unit_path unit = Inr (JStr q) \<and> (int k, unit) \<in> occs table' q)"
    if "unit \<in> set units" for unit
  proof (cases "unit \<in> set (drop c units)")
    case True
    then show ?thesis using boundary_flags[OF b] by blast
  next
    case False
    then have "unit \<in> set (take c units)" using that by (metis Un_iff append_take_drop_id set_append)
    then obtain i where "i < length (take c units)" "take c units ! i = unit" by (metis in_set_conv_nth)
    then have "(i, unit) \<in> set (zip [0..<c] (take c units))" by (auto simp: set_zip intro!: exI[of _ i])
    then show ?thesis using x y by fastforce
  qed
  then show ?thesis using x y m by simp
qed

lemma read_cohorts_occs:
  assumes "read_cohorts k xs table = Inr (table', members)" and "good_table table"
  shows "good_table table' \<and> (\<forall>p. occs table p \<subseteq> occs table' p)
    \<and> (\<forall>member \<in> set members. \<forall>unit \<in> set (memberUnits member). get_prop ''entryPublication'' unit = Inr (JBool True)
         \<or> (\<exists>q. unit_path unit = Inr (JStr q) \<and> (int (memberCohortIndex member), unit) \<in> occs table' q))"
  using assms
proof (induction k xs table arbitrary: members rule: read_cohorts.induct)
  case (2 i scheduled compilerOutput rest table)
  obtain t member members' where t: "read_cohort scheduled i compilerOutput table = Inr (t, member)"
    "read_cohorts (Suc i) rest t = Inr (table', members')" "members = member # members'"
    using "2.prems"(1) unfolding read_cohorts.simps bindR_Inr_iff split_paired_Ex prod.case by blast
  note x = read_cohort_occs[OF t(1) "2.prems"(2)]
  have g: "good_table t" using x by blast
  note y = "2.IH"[OF t(1) refl t(2) g]
  have "get_prop ''entryPublication'' unit = Inr (JBool True) \<or> (\<exists>q. unit_path unit = Inr (JStr q) \<and> (int (memberCohortIndex member), unit) \<in> occs table' q)"
    if "unit \<in> set (memberUnits member)" for unit
    using x y that by blast
  then show ?case using x y unfolding t(3) by fastforce
qed simp

section \<open>Leaves\<close>

lemma leaf_units_Inr:
  assumes "leaf_units ps cohort = Inr leaves"
  shows "leaves = filter (\<lambda>u. is_leaf ps u = Inr True) (memberUnits cohort)" "\<forall>u \<in> set (memberUnits cohort). \<exists>b. is_leaf ps u = Inr b"
proof -
  obtain flags where f: "mapR (is_leaf ps) (memberUnits cohort) = Inr flags" "leaves = map fst (filter snd (zip (memberUnits cohort) flags))"
    using assms unfolding leaf_units_def bindR_Inr_iff by blast
  have "map fst (filter snd (zip us bs)) = filter (\<lambda>u. is_leaf ps u = Inr True) us \<and> (\<forall>u \<in> set us. \<exists>b. is_leaf ps u = Inr b)"
    if "list_all2 (\<lambda>u b. is_leaf ps u = Inr b) us bs" for us bs
    using that by (induction rule: list_all2_induct) auto
  then show "leaves = filter (\<lambda>u. is_leaf ps u = Inr True) (memberUnits cohort)" "\<forall>u \<in> set (memberUnits cohort). \<exists>b. is_leaf ps u = Inr b"
    using f by (auto simp: mapR_Inr_iff)
qed

lemma not_leaf:
  assumes "is_leaf ps unit = Inr False"
  shows "\<exists>q \<in> set ps. unit_path unit = Inr (JStr q)" "get_prop ''entryPublication'' unit \<noteq> Inr (JBool True)"
  using assms by (auto simp: is_leaf_def bindR_Inr_iff split: if_splits)

lemma removed_units:
  assumes "deriveConvexWasmOfficialOutputModuleGraphMembership sha256 cohortSchedule authority compilerOutputs engine package revision = Inr m"
    and "(member, leaves) \<in> set (membershipCohorts m)" and "unit \<in> set (memberUnits member)" and "unit \<notin> set leaves"
  shows "\<exists>u reviewed content. membershipCommon m = [u] \<and> (int (memberCohortIndex member), unit) \<in> set (commonOccurrences u)
    \<and> unit_path unit = Inr (JStr (logicalModulePath (commonLogical u)))
    \<and> normalizeConvexWasmStaticHermesCommonPartitionAuthority sha256 authority = Inr reviewed \<and> content \<in> set (partitionUnits reviewed)
    \<and> optional_prop ''identitySha256'' unit = JStr (reviewedOfficialIdentity content)"
proof -
  obtain cohorts outputs table members where t: "read_cohorts 0 (zip cohorts outputs) [] = Inr (table, members)"
    and sel: "selectConvexWasmStaticHermesCommonPartition sha256 (\<lambda>u. fingerprintJson sha256 (graph_logical_unit_json u)) authority
        (map snd table) engine package (JStr (membershipScheduleSha256 m)) revision = Inr (membershipCommon m)"
    and lv: "mapR (leaf_units (map (\<lambda>u. logicalModulePath (commonLogical u)) (membershipCommon m))) members = Inr (map snd (membershipCohorts m))"
    and mem: "map fst (membershipCohorts m) = members"
    using membership_parts[OF assms(1)] by metis
  let ?ps = "map (\<lambda>u. logicalModulePath (commonLogical u)) (membershipCommon m)"
  obtain k where k: "k < length (membershipCohorts m)" "membershipCohorts m ! k = (member, leaves)" using assms(2) by (metis in_set_conv_nth)
  have "leaf_units ?ps member = Inr leaves"
    using lv k unfolding mapR_Inr_iff mem[symmetric] by (auto simp: list_all2_conv_all_nth)
  note l = leaf_units_Inr[OF this]
  obtain b where b: "is_leaf ?ps unit = Inr b" using l(2) assms(3) by blast
  have "b \<Longrightarrow> unit \<in> set leaves" unfolding l(1) using b assms(3) by simp
  then have no: "is_leaf ?ps unit = Inr False" using b assms(4) by (cases b) auto
  obtain u where u: "u \<in> set (membershipCommon m)" "unit_path unit = Inr (JStr (logicalModulePath (commonLogical u)))"
    using not_leaf(1)[OF no] by auto
  obtain reviewed content symbol c scheduleSha256 where
    s: "normalizeConvexWasmStaticHermesCommonPartitionAuthority sha256 authority = Inr reviewed" "content \<in> set (partitionUnits reviewed)"
      "membershipCommon m = [u]"
    and c: "filter (\<lambda>c. list_ex (occurs_as (reviewedOfficialIdentity content)) (candidateOccurrences c)) (map snd table) = [c]"
    and a: "admit_common_unit (\<lambda>u. fingerprintJson sha256 (graph_logical_unit_json u)) content symbol engine package revision scheduleSha256 c = Inr u"
    using selected_unit[OF sel u(1)] by blast
  have g: "good_table []" by (simp add: good_table_def)
  note r = read_cohorts_occs[OF t g]
  have "c \<in> set (filter (\<lambda>c. list_ex (occurs_as (reviewedOfficialIdentity content)) (candidateOccurrences c)) (map snd table))" unfolding c by simp
  then have "c \<in> set (map snd table)" by (rule filter_is_subset[THEN subsetD])
  then obtain p where p: "(p, c) \<in> set table" by auto
  have path: "logicalModulePath (candidateLogical c) = p" and look: "map_of table p = Some c"
    using r p by (auto simp: good_table_def)
  have "member \<in> set members" using k mem by (metis fst_conv in_set_conv_nth length_map nth_map)
  then obtain q where q: "unit_path unit = Inr (JStr q)" "(int (memberCohortIndex member), unit) \<in> occs table q"
    using r assms(3) not_leaf(2)[OF no] by blast
  have "q = p" using q(1) u(2) admitted_unit(1)[OF a] path by simp
  then have "(int (memberCohortIndex member), unit) \<in> set (candidateOccurrences c)" using q(2) look by (simp add: occs_def)
  then have o: "(int (memberCohortIndex member), unit) \<in> set (commonOccurrences u)" using admitted_unit(5)[OF a] by (metis mset_eq_setD)
  then have "optional_prop ''identitySha256'' unit = JStr (reviewedOfficialIdentity content)"
    using admitted_unit(6)[OF a] by (fastforce simp: occurs_as_def)
  then show ?thesis using s o u(2) by blast
qed

end
