(* ===== verification/GraphMembershipExample.thy ===== *)
theory GraphMembershipExample
  imports GraphMembershipLeaves
begin

text \<open>
  What an accepted membership promises, with an example of two cohorts whose entries share one chunk, which
  a reviewed authority admits as the common unit.
\<close>

section \<open>An example\<close>

definition hex64 :: string where "hex64 = replicate 64 CHR ''a''"

definition example_chunk :: jsval where
  "example_chunk = JObj [(''applicationUnitSlot'', JNum (NInt 0)), (''chunkSlot'', JNum (NInt 0)), (''dependencies'', JArr []),
     (''entryPublication'', JBool False), (''identitySha256'', JStr hex64),
     (''javascript'', JObj [(''sha256'', JStr hex64), (''size'', JNum (NInt 1))]),
     (''module'', JObj [(''environment'', JStr ''isolate''), (''moduleSha256'', JStr hex64), (''path'', JStr ''a.js''), (''sourceMap'', JNull),
        (''sourceMembershipSha256'', JStr hex64), (''sourceSha256'', JStr hex64), (''sourceSize'', JNum (NInt 1))])]"

definition example_output :: jsval where
  "example_output = JObj [(''nativeApplication'', JObj [
     (''entries'', JArr [JObj [(''entryPath'', JStr ''e''), (''entryPublicationUnitSlot'', JNum (NInt 1)), (''entrySlot'', JNum (NInt 0)),
        (''handoffSlot'', JNum (NInt 0))]]),
     (''initialization'', JObj [(''chunkSlotCount'', JNum (NInt 1)), (''entryPublicationUnitSlots'', JArr [JNum (NInt 1)])]),
     (''units'', JArr [example_chunk, JObj [(''entryPublication'', JBool True)]])])]"

definition example_cohort :: "string \<Rightarrow> jsval" where
  "example_cohort entryId = JObj [(''cohortId'', JStr hex64), (''entries'', JArr [JObj [(''entryId'', JStr entryId), (''entryPath'', JStr ''e'')]])]"

definition example_cohorts :: "jsval list" where
  "example_cohorts = [example_cohort ''y'', example_cohort ''x'']"

definition example_schedule :: "(string \<times> jsval) list" where
  "example_schedule = [(''cohorts'', JArr example_cohorts), (''identity'', JObj [(''sha256'', JStr hex64)])]"

definition example_artifact :: jsval where
  "example_artifact = JObj [(''sha256'', JStr hex64), (''size'', JNum (NInt 1))]"

definition example_revision :: string where "example_revision = replicate 40 CHR ''b''"

definition example_authority :: jsval where
  "example_authority = JObj [
     (''content'', JObj [(''units'', JArr [JObj [
        (''aotEvidence'', JObj [(''artifact'', example_artifact), (''coreWasm'', example_artifact), (''memoryPeakBytes'', JNum (NInt 1)),
           (''reportSha256'', JStr hex64)]),
        (''engine'', JObj [(''compatibilitySha256'', JStr hex64), (''precompilerPackageId'', JStr hex64), (''wasmtimeRevision'', JStr example_revision)]),
        (''generatedC'', JObj [(''aggregate'', example_artifact),
           (''compilation'', JObj [(''exceptionalFunctionCount'', JNum (NInt 0)), (''exceptionalOptimizationFlag'', JStr ''-O1''),
              (''normalOptimizationFlag'', JStr ''-O2''), (''pic'', JBool True)]),
           (''translationUnitCount'', JNum (NInt 1))]),
        (''logical'', JNull), (''logicalUnitIdentitySha256'', JStr hex64), (''officialUnitIdentitySha256'', JStr hex64),
        (''picObjectAggregateBytes'', JNum (NInt 1)), (''slot'', JNum (NInt 0))]])]),
     (''kind'', JStr AUTHORITY_KIND),
     (''layout'', JObj [(''kind'', JStr LAYOUT_KIND), (''layoutEpoch'', JNum (NInt 1)), (''maximumSlots'', JNum (NInt 4)),
        (''slots'', JArr [JObj [(''factorySymbol'', JStr (FACTORY_SYMBOL_PREFIX @ hex64)), (''slot'', JNum (NInt 0))]])])]"

definition example_membership :: "graph_membership res" where
  "example_membership = deriveConvexWasmOfficialOutputModuleGraphMembership (\<lambda>_. hex64) (JObj example_schedule) example_authority
     (JArr [example_output, example_output]) (JStr hex64) (JStr hex64) (JStr example_revision)"

lemma example_membership_accepted:
  "case example_membership of Inr m \<Rightarrow> map commonEntryIds (membershipCommon m) = [[''x'', ''y'']] \<and> map (\<lambda>(c, l). length l) (membershipCohorts m) = [1, 1] | Inl _ \<Rightarrow> False"
  by code_simp

lemma example_membership_value:
  obtains m u where "example_membership = Inr m" "membershipCommon m = [u]" "commonEntryIds u = [''x'', ''y'']"
proof (cases example_membership)
  case (Inl e)
  then show thesis using example_membership_accepted unfolding Inl by (simp only: sum.case)
next
  case (Inr m)
  then have "map commonEntryIds (membershipCommon m) = [[''x'', ''y'']]" using example_membership_accepted unfolding Inr sum.case by blast
  then show thesis using that Inr by auto
qed

lemma example_schedule_cohorts: "own_prop example_schedule ''cohorts'' = JArr example_cohorts"
  by (simp add: example_schedule_def)

section \<open>Properties\<close>

text \<open>C37: Sharing is granted by complete entries only: the entry identifiers that the membership proof of the
  common unit lists are exactly the scheduled entries, of any cohort, from whose slot the unit is reached
  over chunk dependencies; they are sorted, distinct and at least two.\<close>

theorem common_unit_lists_its_entries:
  assumes "deriveConvexWasmOfficialOutputModuleGraphMembership sha256 (JObj schedule) authority (JArr outputs) engine package revision = Inr m"
    and "own_prop schedule ''cohorts'' = JArr cohorts" and "u \<in> set (membershipCommon m)"
  shows "set (commonEntryIds u) = {s. \<exists>k < length cohorts. entry_reaches (cohorts ! k) (outputs ! k) (JStr s) (logicalModulePath (commonLogical u))}
    \<and> sorted (commonEntryIds u) \<and> distinct (commonEntryIds u) \<and> 2 \<le> length (commonEntryIds u)"
  using common_unit_entries[OF assms] by blast

theorem common_unit_lists_its_entries_witness:
  "\<exists>m u. example_membership = Inr m \<and> membershipCommon m = [u]
     \<and> {s. \<exists>k < length example_cohorts. entry_reaches (example_cohorts ! k) ([example_output, example_output] ! k) (JStr s)
           (logicalModulePath (commonLogical u))} = {''x'', ''y''}"
proof -
  obtain m u where m: "example_membership = Inr m" "membershipCommon m = [u]" "commonEntryIds u = [''x'', ''y'']"
    by (rule example_membership_value)
  have "u \<in> set (membershipCommon m)" using m(2) by simp
  note common_unit_lists_its_entries[OF m(1)[unfolded example_membership_def] example_schedule_cohorts this]
  then have "{s. \<exists>k < length example_cohorts. entry_reaches (example_cohorts ! k) ([example_output, example_output] ! k) (JStr s)
           (logicalModulePath (commonLogical u))} = {''x'', ''y''}" unfolding m(3) by (metis list.simps(15) set_empty)
  then show ?thesis using m(1,2) by blast
qed

text \<open>C38: A leaf keeps every unit of its cohort except occurrences of the reviewed common unit: what a cohort
  gives up is listed as an occurrence of that cohort, has the path of the common unit, and carries the
  official identity that a unit of the authority was reviewed with.\<close>

theorem removed_units_are_reviewed:
  assumes "deriveConvexWasmOfficialOutputModuleGraphMembership sha256 cohortSchedule authority compilerOutputs engine package revision = Inr m"
    and "(member, leaves) \<in> set (membershipCohorts m)" and "unit \<in> set (memberUnits member)" and "unit \<notin> set leaves"
  shows "\<exists>u reviewed content. membershipCommon m = [u] \<and> (int (memberCohortIndex member), unit) \<in> set (commonOccurrences u)
    \<and> unit_path unit = Inr (JStr (logicalModulePath (commonLogical u)))
    \<and> normalizeConvexWasmStaticHermesCommonPartitionAuthority sha256 authority = Inr reviewed \<and> content \<in> set (partitionUnits reviewed)
    \<and> optional_prop ''identitySha256'' unit = JStr (reviewedOfficialIdentity content)"
  by (rule removed_units[OF assms])

lemma example_removed:
  "case example_membership of Inr m \<Rightarrow> list_all (\<lambda>(member, leaves). example_chunk \<in> set (memberUnits member) \<and> example_chunk \<notin> set leaves)
       (membershipCohorts m) \<and> membershipCohorts m \<noteq> [] | Inl _ \<Rightarrow> False"
  by code_simp

theorem removed_units_are_reviewed_witness:
  "\<exists>m u k. example_membership = Inr m \<and> membershipCommon m = [u] \<and> (k, example_chunk) \<in> set (commonOccurrences u)"
proof -
  obtain m u where m: "example_membership = Inr m" "membershipCommon m = [u]" by (rule example_membership_value)
  have r: "list_all (\<lambda>(member, leaves). example_chunk \<in> set (memberUnits member) \<and> example_chunk \<notin> set leaves) (membershipCohorts m)"
    "membershipCohorts m \<noteq> []"
    using example_removed unfolding m(1) sum.case by blast+
  obtain member leaves where c: "(member, leaves) \<in> set (membershipCohorts m)" using r(2) by (cases "membershipCohorts m") auto
  have "example_chunk \<in> set (memberUnits member)" "example_chunk \<notin> set leaves" using r(1) c by (auto simp: list_all_iff)
  from removed_units_are_reviewed[OF m(1)[unfolded example_membership_def] c this] show ?thesis using m by auto
qed

text \<open>C39: The closure loop of an entry ends for every descriptor, cyclic dependencies included, and accepts
  exactly when the slot and all units reached from it are chunks with known module paths and valid
  dependency slots; it then adds the entry to exactly the units that are reached.\<close>

theorem entry_closure_follows_dependencies:
  assumes "distinct (map fst table)"
  shows "entry_closure message units entryId [slot] {} table = Inr t \<longleftrightarrow>
    slot_index slot (length units) \<noteq> None \<and> (\<forall>i. reaches units slot i \<longrightarrow> closure_unit units (set (map fst table)) i)
    \<and> t = mark entryId (paths_of units {i. reaches units slot i}) table" (is "?a \<longleftrightarrow> ?b")
proof
  assume ?a
  then show ?b using entry_closure_exact[OF _ assms] by blast
next
  assume b: ?b
  have "\<exists>t. entry_closure message units entryId [slot] {} table = Inr t"
    by (rule entry_closure_succeeds) (use b assms in auto)
  then obtain t' where t': "entry_closure message units entryId [slot] {} table = Inr t'" by blast
  have "t' = t" using entry_closure_exact(1)[OF t' assms] b by blast
  then show ?a using t' by simp
qed

definition example_unit :: "string \<Rightarrow> int list \<Rightarrow> jsval" where
  "example_unit path slots = JObj [(''dependencies'', JArr (map (\<lambda>s. JObj [(''slot'', JNum (NInt s))]) slots)),
     (''entryPublication'', JBool False), (''module'', JObj [(''path'', JStr path)])]"

definition example_logical :: "string \<Rightarrow> string \<times> graph_logical_unit candidate" where
  "example_logical path = (path, \<lparr>candidateEntryIds = [], candidateLogical = \<lparr>logicalDependencies = [], logicalJavascriptSha256 = hex64,
     logicalJavascriptSize = 1, logicalModule = [], logicalModulePath = path\<rparr>, candidateOccurrences = []\<rparr>)"

definition example_cycle :: "jsval list" where
  "example_cycle = [example_unit ''a.js'' [1], example_unit ''b.js'' [0], example_unit ''c.js'' [0]]"

theorem entry_closure_follows_dependencies_witness:
  "mark (JStr ''e'') (paths_of example_cycle {i. reaches example_cycle (JNum (NInt 0)) i}) (map example_logical [''a.js'', ''b.js'', ''c.js''])
     = mark (JStr ''e'') {''a.js'', ''b.js''} (map example_logical [''a.js'', ''b.js'', ''c.js''])"
proof -
  have "distinct (map fst (map example_logical [''a.js'', ''b.js'', ''c.js'']))" by (simp add: example_logical_def)
  moreover have "entry_closure ''slot'' example_cycle (JStr ''e'') [JNum (NInt 0)] {} (map example_logical [''a.js'', ''b.js'', ''c.js''])
      = Inr (mark (JStr ''e'') {''a.js'', ''b.js''} (map example_logical [''a.js'', ''b.js'', ''c.js'']))"
    by code_simp
  ultimately show ?thesis using entry_closure_follows_dependencies by metis
qed

end
