(* ===== verification/LogicalUnits.thy ===== *)
theory LogicalUnits
  imports GraphMembership CompilerDescriptorRead
begin

text \<open>
  The comparison of logical units field by field against its reference, the comparison of their canonical
  data, for units whose modules are identities that the compiler descriptor has authenticated.
\<close>

definition logical_module_fields :: "chunk_module \<Rightarrow> (string \<times> jsval) list" where
  "logical_module_fields m = [(''environment'', JStr ''isolate''), (''moduleSha256'', JStr (chunkModuleSha256 m)),
     (''path'', JStr (chunkModulePath m)), (''sourceMap'', source_map_json m),
     (''sourceSha256'', JStr (chunkSourceSha256 m)), (''sourceSize'', JNum (NInt (chunkSourceSize m)))]"

lemma source_map_normal: "normalizeJsonValue (source_map_json m) d p = Inr (source_map_json m)"
  by (simp add: source_map_json_def fromEntries_def own_order_names compareBy_def compareStrings_def)

lemma logical_module_normal: "normalizeJson (JObj (logical_module_fields m)) d = Inr (JObj (logical_module_fields m))"
  by (simp add: normalizeJson_def logical_module_fields_def source_map_normal fromEntries_def own_order_names compareBy_def compareStrings_def)

lemma plain_object: "assertPlainObject v d = Inr kvs \<longleftrightarrow> v = JObj kvs"
  by (cases v) auto

lemma logical_module_of:
  assumes "moduleGraphLogicalUnit (JObj u) d = Inr l" and "own_prop u ''module'' = chunk_module_json m"
  shows "logicalModule l = logical_module_fields m"
proof -
  obtain module v fields x1 x2 where
    r: "requireExactPlainObject (chunk_module_json m) x1 x2 = Inr module"
    "normalizeJson (JObj (filter (\<lambda>kv. fst kv \<noteq> ''sourceMembershipSha256'') module)) (d @ ''.module'') = Inr v"
    "v = JObj fields" "logicalModule l = fields"
    using assms(1) unfolding moduleGraphLogicalUnit_def assertPlainObject.simps bindR.simps assms(2) bindR_Inr_iff plain_object by auto
  have "chunk_module_json m = JObj module" using r(1) by (auto simp: requireExactPlainObject_def bindR_Inr_iff plain_object)
  then have "filter (\<lambda>kv. fst kv \<noteq> ''sourceMembershipSha256'') module = logical_module_fields m"
    by (auto simp: chunk_module_json_def logical_module_fields_def)
  then show ?thesis using r(2-4) logical_module_normal by simp
qed

lemma logical_units_equal:
  assumes "logicalModule a = logical_module_fields m" and "logicalModule b = logical_module_fields n"
  shows "moduleGraphLogicalUnitEqual a b \<longleftrightarrow> a = b"
proof
  assume e: "moduleGraphLogicalUnitEqual a b"
  then have "chunkModuleSha256 m = chunkModuleSha256 n" "chunkModulePath m = chunkModulePath n" "chunkSourceSha256 m = chunkSourceSha256 n"
    "chunkSourceSize m = chunkSourceSize n" "source_map_json m = source_map_json n"
    by (simp_all add: moduleGraphLogicalUnitEqual_def assms logical_module_fields_def source_map_equal_def source_map_json_def)
  then have "logicalModule a = logicalModule b" by (simp add: assms logical_module_fields_def)
  then show "a = b" using e by (simp add: moduleGraphLogicalUnitEqual_def)
next
  assume "a = b"
  then have "logical_module_fields m = logical_module_fields n" using assms by simp
  then show "moduleGraphLogicalUnitEqual a b" using \<open>a = b\<close>
    by (simp add: moduleGraphLogicalUnitEqual_def assms(2) logical_module_fields_def source_map_equal_def source_map_json_def)
qed

lemma logical_data_inj:
  assumes "logicalModule a = logical_module_fields m" and "logicalModule b = logical_module_fields n"
    and "js_data (graph_logical_unit_json a) = js_data (graph_logical_unit_json b)"
  shows "a = b"
proof -
  note p = data_prop[OF assms(3)[unfolded graph_logical_unit_json_def]]
  have "map js_data (map logical_dependency_data (logicalDependencies a)) = map js_data (map logical_dependency_data (logicalDependencies b))"
    using p[of "''dependencies''"] by simp
  moreover have "x = y" if "js_data (logical_dependency_data x) = js_data (logical_dependency_data y)" for x y
    using data_prop[OF that[unfolded logical_dependency_data_def], of "''kind''"] data_prop[OF that[unfolded logical_dependency_data_def], of "''path''"]
      data_prop[OF that[unfolded logical_dependency_data_def], of "''specifier''"] by simp
  then have "inj (js_data \<circ> logical_dependency_data)" by (auto intro: injI)
  ultimately have deps: "logicalDependencies a = logicalDependencies b" by (simp add: inj_map_eq_map)
  have "js_data (JObj [(''sha256'', JStr (logicalJavascriptSha256 a)), (''size'', JNum (NInt (logicalJavascriptSize a)))])
      = js_data (JObj [(''sha256'', JStr (logicalJavascriptSha256 b)), (''size'', JNum (NInt (logicalJavascriptSize b)))])"
    using p[of "''javascript''"] by simp
  from data_prop[OF this, of "''sha256''"] data_prop[OF this, of "''size''"]
  have js: "logicalJavascriptSha256 a = logicalJavascriptSha256 b" "logicalJavascriptSize a = logicalJavascriptSize b" by simp_all
  have "js_data (JObj (logical_module_fields m)) = js_data (JObj (logical_module_fields n))" using p[of "''module''"] by (simp add: assms(1,2))
  note q = data_prop[OF this]
  have "js_data (source_map_json m) = js_data (source_map_json n)" using q[of "''sourceMap''"] by (simp add: logical_module_fields_def)
  note t = data_prop[OF this[unfolded source_map_json_def]]
  have "source_map_json m = source_map_json n"
    using t[of "''sha256''"] t[of "''size''"] t[of "''sourcesContentCount''"] t[of "''sourcesCount''"] by (simp add: source_map_json_def)
  then have "logical_module_fields m = logical_module_fields n"
    using q[of "''moduleSha256''"] q[of "''path''"] q[of "''sourceSha256''"] q[of "''sourceSize''"] by (simp add: logical_module_fields_def)
  moreover have "logicalModulePath a = logicalModulePath b" using p[of "''modulePath''"] by simp
  ultimately show "a = b" using deps js by (simp add: assms(1,2))
qed

text \<open>C40: Across cohorts a chunk counts as unchanged exactly when its logical units hold the same data: for
  units with authenticated module identities the field-by-field comparison, which skips the canonical
  text, agrees with the comparison of the canonical data.\<close>

theorem logical_units_compare_data:
  assumes "moduleGraphLogicalUnit (JObj u) d = Inr a" and "own_prop u ''module'' = chunk_module_json m"
    and "moduleGraphLogicalUnit (JObj v) d' = Inr b" and "own_prop v ''module'' = chunk_module_json n"
  shows "moduleGraphLogicalUnitEqual a b \<longleftrightarrow> js_data (graph_logical_unit_json a) = js_data (graph_logical_unit_json b)"
  using logical_units_equal[OF logical_module_of[OF assms(1,2)] logical_module_of[OF assms(3,4)]]
    logical_data_inj[OF logical_module_of[OF assms(1,2)] logical_module_of[OF assms(3,4)]] by auto

definition sample_chunk_module :: "char \<Rightarrow> chunk_module" where
  "sample_chunk_module c = \<lparr>chunkModuleSha256 = ''m'', chunkModulePath = ''a.js'', chunkMapSha256 = ''s'', chunkMapSize = 1,
     chunkMapContentCount = 1, chunkMapSourcesCount = 1, chunkMembershipSha256 = replicate 64 c, chunkSourceSha256 = ''s'', chunkSourceSize = 1\<rparr>"

definition sample_logical_unit :: "char \<Rightarrow> (string \<times> jsval) list" where
  "sample_logical_unit c = [(''dependencies'', JArr []), (''javascript'', JObj [(''sha256'', JStr (replicate 64 CHR ''a'')), (''size'', JNum (NInt 1))]),
     (''module'', chunk_module_json (sample_chunk_module c))]"

theorem logical_units_compare_data_witness:
  "\<exists>a b. moduleGraphLogicalUnit (JObj (sample_logical_unit CHR ''a'')) ''x'' = Inr a
     \<and> moduleGraphLogicalUnit (JObj (sample_logical_unit CHR ''b'')) ''y'' = Inr b \<and> moduleGraphLogicalUnitEqual a b"
proof -
  have "case moduleGraphLogicalUnit (JObj (sample_logical_unit CHR ''a'')) ''x'' of Inl _ \<Rightarrow> False | Inr a \<Rightarrow>
     (case moduleGraphLogicalUnit (JObj (sample_logical_unit CHR ''b'')) ''y'' of Inl _ \<Rightarrow> False | Inr b \<Rightarrow> graph_logical_unit_json a = graph_logical_unit_json b)"
    by code_simp
  then obtain a b where ab: "moduleGraphLogicalUnit (JObj (sample_logical_unit CHR ''a'')) ''x'' = Inr a"
    "moduleGraphLogicalUnit (JObj (sample_logical_unit CHR ''b'')) ''y'' = Inr b" "graph_logical_unit_json a = graph_logical_unit_json b"
    by (auto split: sum.splits)
  have m: "own_prop (sample_logical_unit c) ''module'' = chunk_module_json (sample_chunk_module c)" for c by (simp add: sample_logical_unit_def)
  show ?thesis using logical_units_compare_data[OF ab(1) m ab(2) m] ab by auto
qed

end
