(* ===== verification/Spec2Isabelle.thy ===== *)
theory Spec2Isabelle
  imports JsonText FingerprintCache ShardExamples WasmContract NativeProperties EntryGroupingOrder CohortRoundtrip CohortPool
    ModuleGraphRoundtrip CompilerDescriptorExample GraphMembershipExample LogicalUnits
begin

text \<open>
  A verification development for the Convex Wasm compiler, the JavaScript program under \<open>scripts/\<close>
  that turns the bundled server functions of a Convex project into native Wasm artifacts.

  \<^bold>\<open>The program.\<close> A source envelope names the entries of a project. The entries are planned into
  groups (entry grouping) and cut into cohorts (the official-output cohort schedule), whose compiler
  outputs are built by a bounded pool. Native commands pass through one scheduler that bounds job slots
  and memory. The object code of all cohorts is planned into shared and residual shards (the physical
  shard planner); the linked modules form a graph whose imports and exports are read from the Wasm
  binaries (the contract reader) and whose bindings are checked (the module graph contract). Everything
  that is authenticated is authenticated by the SHA-256 of canonical JSON (the artifact contract).

  \<^bold>\<open>The theories and what they model.\<close> All sources are under \<open>src/scripts/lib/\<close>.

  \<^item> \<open>Prelude\<close>: results, sorting with a comparator, decimal text; the locales \<open>js_order\<close>,
    \<open>js_linear_order\<close> (comparators of \<open>Array.prototype.sort\<close>) and \<open>event_system\<close> (invariants of
    components that react to events).
  \<^item> \<open>JsValue\<close>, \<open>CanonicalJson\<close>, \<open>JsonText\<close>, \<open>FingerprintCache\<close>: \<open>convex-wasm-artifact-contract.mjs\<close>, the
    checks on values, JSON normalization, the canonical text and the bounded memo of fingerprints. The
    text decides the data of a value; the memo is transparent and bounded (locale \<open>memo_service\<close>).
  \<^item> \<open>ShardUnits\<close> to \<open>ShardExamples\<close>: \<open>convex-wasm-physical-shard-planner.mjs\<close>. \<open>ShardUnits\<close> reads a request;
    \<open>ShardScc\<close> is the recursive Tarjan search and \<open>ShardSccCorrect\<close> its correctness; \<open>ShardBuild\<close>,
    \<open>ShardBuildTotal\<close>, \<open>ShardComponents\<close> and \<open>ShardEligible\<close> build the components and decide which may be shared;
    \<open>ShardQuotient\<close> is the mutable graph of bins, \<open>ShardContract\<close> proves that it refines the contraction of
    vertices; \<open>ShardPlacement\<close>, \<open>ShardPlacementCorrect\<close> place components into bins; \<open>ShardPlanner\<close>, \<open>ShardPlan\<close>,
    \<open>ShardPlanCorrect\<close> assemble the plan and \<open>ShardOrder\<close> orders the shards.
  \<^item> \<open>WasmReader\<close>, \<open>WasmLeb\<close>, \<open>WasmModule\<close>, \<open>WasmRoundtrip\<close>, \<open>WasmContract\<close>: \<open>convex-wasm-contract-reader.mjs\<close>,
    the bounded reader of Wasm binaries, on 32-bit words. The locale \<open>wasm_reader\<close> states what every
    reading step keeps, \<open>wasm_codec\<close> what a pair of an encoder and a reader promises.
  \<^item> \<open>NativePolicy\<close> to \<open>NativeProperties\<close>: \<open>convex-wasm-native-launch-scheduling.mjs\<close>. \<open>NativeScheduler\<close> has the
    state record and one function per operation, \<open>NativeMoves\<close> cuts an operation into small moves,
    \<open>NativeInvariant\<close>, \<open>NativeCorrect\<close>, \<open>NativeFair\<close>, \<open>NativePath\<close> prove invariants of the moves by
    interpreting \<open>event_system\<close>, and \<open>NativeProperties\<close> states what follows for every run.
  \<^item> \<open>EntryGrouping\<close> to \<open>EntryGroupingOrder\<close>: \<open>convex-wasm-entry-grouping.mjs\<close>, the greedy merge of entry
    closures over a union-find with path compression.
  \<^item> \<open>CohortSchedule\<close>, \<open>CohortScheduleCorrect\<close>, \<open>CohortIdentity\<close>, \<open>CohortRoundtrip\<close>, \<open>CohortPool\<close>:
    \<open>convex-wasm-official-output-cohort-schedule.mjs\<close>, the partition into cohorts, its identities and memo
    tables, the authentication of a serialized schedule, and the build pool.
  \<^item> \<open>ModuleGraph\<close>, \<open>ModuleGraphCorrect\<close>, \<open>ModuleGraphRoundtrip\<close>: \<open>convex-wasm-module-graph-contract.mjs\<close>.
    The provider check is compared with two relations that use none of its code: what an entry
    \<open>designates\<close>, and which targets \<open>satisfies\<close> admits for an import. A self import of a value is a fault that
    \<open>instantiation_order\<close> excludes, a self import of an address is legal.
  \<^item> \<open>JsDouble\<close>: the numbers that are not integers (milliseconds, processor time, scores). A double is the rational
    it stands for, and every operation on doubles rounds its exact result to the nearest double; totals
    that the code accumulates are therefore compared with exact integrals up to a stated rounding error.
  \<^item> \<open>JsChecks\<close>, \<open>NodePath\<close>: helpers on checked values, and \<open>node:path\<close>'s POSIX functions, as documented.
  \<^item> \<open>NativeSymbol\<close>, \<open>NativeSymbolNames\<close>, \<open>NativeSymbolCorrect\<close>: \<open>convex-wasm-native-symbol-identity.mjs\<close>, the
    normal form of source-map names, the membership of a chunk and the identity of its native symbol.
  \<^item> \<open>ChunkDependencies\<close>, \<open>ChunkSpecifiers\<close>, \<open>ChunkDependenciesCorrect\<close>, \<open>ChunkTopology\<close>, \<open>ChunkReuse\<close>:
    \<open>convex-wasm-official-output-chunk-contract.mjs\<close>, executable specifiers, the dependencies of a chunk,
    the topology of an application and the reusable-code identities.
  \<^item> \<open>CompilerDescriptor\<close>, \<open>JsonData\<close>, \<open>CompilerDescriptorRead\<close>, \<open>CompilerDescriptorCorrect\<close>,
    \<open>CompilerDescriptorExample\<close>: \<open>convex-wasm-module-graph-compiler-descriptor.mjs\<close>, the authentication of the
    descriptor that a chunk application hands to the module graph, on top of the two contracts above: what
    an accepted descriptor says fits together, and its identity binds the code of its units.
  \<^item> \<open>CommonPartition\<close>: \<open>convex-wasm-module-graph-common-partition.mjs\<close>, the reviewed authority and the selection of
    the one common unit that it admits.
  \<^item> \<open>GraphMembership\<close>, \<open>GraphMembershipCorrect\<close>, \<open>GraphMembershipLeaves\<close>, \<open>GraphMembershipExample\<close>,
    \<open>LogicalUnits\<close>: \<open>convex-wasm-module-graph-membership.mjs\<close>, which reads the descriptors of all cohorts as one
    table of logical units and follows the closure of every entry. The closure loop marks exactly what an
    entry reaches (the relation \<open>reaches\<close>), the common unit lists exactly the entries that reach it, and a
    leaf gives up nothing but reviewed occurrences. \<open>LogicalUnits\<close> compares the field-by-field equality of
    units with the equality of their data.

  \<^bold>\<open>How code is modelled.\<close> A function that may throw returns \<open>js_error + 'a\<close> (\<open>'a res\<close>), an early throw
  being \<open>Inl\<close>; the engine's own exceptions are \<open>TypeError\<close>. Untyped input is a \<open>jsval\<close>; normalized values are
  records. Strings are lists of code units below 256. SHA-256 is the parameter \<open>sha256\<close>; a property that
  needs collision-freeness assumes that the parameter is injective. Mutable objects are threaded state.
  A safe integer is an \<open>int\<close>, minus zero is read as zero where the code does arithmetic on it; the Wasm
  reader works on \<open>8 word\<close> and \<open>32 word\<close>. Asynchronous code is a step function on events: a promise's
  callbacks run in later events, so operations do not re-enter the scheduler synchronously. The clock is the
  sequence of values that \<open>hrtime\<close> returns; infinite and subnormal quotients of doubles are left out.

  \<^bold>\<open>Bounds and fuel.\<close> Functions that the code writes with loops are structural or carry a measure; the loops of the
  union-find are \<open>while_option\<close>, proved to end; the one function with fuel is Tarjan's search, whose fuel (one
  more than the number of units, since the nested calls enter distinct units) is proved to be enough for
  every request. A signed or unsigned LEB integer has at most five bytes, a cohort at most eight
  entries; the fingerprint cache and the critical-path log have the code's limits.

  \<^bold>\<open>Parameters.\<close> The store of \<open>AsyncLocalStorage\<close>, \<open>Math.log2\<close> in the cost buckets of entry grouping, the validation of a source
  envelope with its namespaces, the deployment output closure, and the outcome of a build callback are
  arguments of the definitions that use them.

  \<^bold>\<open>Not modelled.\<close> Freezing and the identity of objects (values are immutable here, so the
  \<open>WeakSet\<close> brands that let an authenticated descriptor pass by object identity have no counterpart; the memo tables keyed by
  objects are modelled where they hold state that matters, in the cohort schedule). The artifact pipeline,
  the caches and the release tools are protocols over processes, files and the network; lowering, source
  graphs, chunk units and context reuse are transformations of syntax trees from third-party parsers; the
  compile profile is a list of report fields; the compilers in Rust and the runtime in C++ are in other
  languages.
\<close>

end
